(* ===== verification/Prelude.thy ===== *)
theory Prelude
  imports Main "HOL-Library.Sublist" "HOL-Library.Code_Target_Numeral"
begin

text \<open>
  Shared vocabulary of the development: the types that stand for the Rust types every
  component uses, the string and list operations of the Rust standard library in the form the
  sources use them, the row operations of the SQL statements embedded in the backend, and the
  lemma collections the component proofs draw on.

  A Rust \<open>&str\<close> is a list of UTF-8 bytes, so a string here is a \<open>char list\<close> whose elements
  are bytes: \<open>length\<close> is Rust's \<open>len()\<close>, and \<open>utf8_count\<close> is \<open>chars().count()\<close>.  Instants are
  microseconds since the epoch (PostgreSQL's resolution), and a UUID is its 128-bit value.
\<close>

named_theorems row_simps \<open>how row updates act on membership, keys and lookups\<close>
named_theorems char_defs \<open>definitions of the ASCII byte classes\<close>

type_synonym uuid = nat
type_synonym time = int
type_synonym byte = char

section \<open>Bounded integers\<close>

definition usize_max :: nat where
  "usize_max = 2 ^ 64 - 1"

definition u32_max :: nat where
  "u32_max = 2 ^ 32 - 1"

definition i32_max :: int where
  "i32_max = 2 ^ 31 - 1"

definition i64_max :: int where
  "i64_max = 2 ^ 63 - 1"

definition usize_saturating_add :: "nat \<Rightarrow> nat \<Rightarrow> nat" where
  "usize_saturating_add a b = min usize_max (a + b)"

definition i32_saturating_add :: "int \<Rightarrow> int \<Rightarrow> int" where
  "i32_saturating_add a b = max (- i32_max - 1) (min i32_max (a + b))"

definition clamp :: "'a::linorder \<Rightarrow> 'a \<Rightarrow> 'a \<Rightarrow> 'a" where
  "clamp lo hi x = max lo (min hi x)"

lemma usize_saturating_add_le: "usize_saturating_add a b \<le> usize_max"
  by (simp add: usize_saturating_add_def)

lemma usize_saturating_add_exact:
  "a + b \<le> usize_max \<Longrightarrow> usize_saturating_add a b = a + b"
  by (simp add: usize_saturating_add_def)

lemma i32_saturating_add_exact:
  "- i32_max - 1 \<le> a + b \<Longrightarrow> a + b \<le> i32_max \<Longrightarrow> i32_saturating_add a b = a + b"
  by (simp add: i32_saturating_add_def)

lemma i32_saturating_add_mono:
  "0 \<le> b \<Longrightarrow> a \<le> i32_max \<Longrightarrow> - i32_max - 1 \<le> a \<Longrightarrow> a \<le> i32_saturating_add a b"
  by (simp add: i32_saturating_add_def)

section \<open>Durations\<close>

definition seconds :: "int \<Rightarrow> time" where
  "seconds n = n * 1000000"

definition minutes :: "int \<Rightarrow> time" where
  "minutes n = seconds (60 * n)"

definition hours :: "int \<Rightarrow> time" where
  "hours n = minutes (60 * n)"

definition days :: "int \<Rightarrow> time" where
  "days n = hours (24 * n)"

section \<open>Bytes and strings\<close>

definition byte_val :: "byte \<Rightarrow> nat" where
  "byte_val c = of_char c"

definition is_digit :: "byte \<Rightarrow> bool" where
  [char_defs]: "is_digit c \<longleftrightarrow> 48 \<le> byte_val c \<and> byte_val c \<le> 57"

definition is_upper :: "byte \<Rightarrow> bool" where
  [char_defs]: "is_upper c \<longleftrightarrow> 65 \<le> byte_val c \<and> byte_val c \<le> 90"

definition is_lower :: "byte \<Rightarrow> bool" where
  [char_defs]: "is_lower c \<longleftrightarrow> 97 \<le> byte_val c \<and> byte_val c \<le> 122"

definition is_alpha :: "byte \<Rightarrow> bool" where
  [char_defs]: "is_alpha c \<longleftrightarrow> is_upper c \<or> is_lower c"

definition is_alnum :: "byte \<Rightarrow> bool" where
  [char_defs]: "is_alnum c \<longleftrightarrow> is_alpha c \<or> is_digit c"

definition is_hex_digit :: "byte \<Rightarrow> bool" where
  [char_defs]: "is_hex_digit c \<longleftrightarrow> is_digit c \<or> (65 \<le> byte_val c \<and> byte_val c \<le> 70)
     \<or> (97 \<le> byte_val c \<and> byte_val c \<le> 102)"

definition lower_byte :: "byte \<Rightarrow> byte" where
  "lower_byte c = (if is_upper c then char_of (byte_val c + 32) else c)"

definition to_ascii_lowercase :: "string \<Rightarrow> string" where
  "to_ascii_lowercase s = map lower_byte s"

lemma byte_val_less [simp]: "byte_val c < 256"
  by (simp add: byte_val_def)

lemma byte_val_char_of [simp]: "n < 256 \<Longrightarrow> byte_val (char_of n) = n"
  by (simp add: byte_val_def)

lemma byte_val_inject [simp]: "byte_val c = byte_val d \<longleftrightarrow> c = d"
  by (simp add: byte_val_def)

lemma byte_val_lower_byte:
  "byte_val (lower_byte c) = (if is_upper c then byte_val c + 32 else byte_val c)"
  by (auto simp: lower_byte_def is_upper_def)

lemma lower_byte_idem [simp]: "lower_byte (lower_byte c) = lower_byte c"
  by (auto simp: lower_byte_def is_upper_def)

lemma length_lowercase [simp]: "length (to_ascii_lowercase s) = length s"
  by (simp add: to_ascii_lowercase_def)

lemma lowercase_idem [simp]: "to_ascii_lowercase (to_ascii_lowercase s) = to_ascii_lowercase s"
  by (simp add: to_ascii_lowercase_def)

lemma lowercase_append [simp]:
  "to_ascii_lowercase (s @ t) = to_ascii_lowercase s @ to_ascii_lowercase t"
  by (simp add: to_ascii_lowercase_def)

lemma lowercase_Nil [simp]: "to_ascii_lowercase [] = []"
  by (simp add: to_ascii_lowercase_def)

lemma lowercase_Cons [simp]:
  "to_ascii_lowercase (c # s) = lower_byte c # to_ascii_lowercase s"
  by (simp add: to_ascii_lowercase_def)

text \<open>A byte of the form \<open>10xxxxxx\<close> continues a UTF-8 sequence; every other byte starts one.\<close>

definition utf8_cont :: "byte \<Rightarrow> bool" where
  "utf8_cont c \<longleftrightarrow> 128 \<le> byte_val c \<and> byte_val c < 192"

definition utf8_count :: "string \<Rightarrow> nat" where
  "utf8_count s = length (filter (\<lambda>c. \<not> utf8_cont c) s)"

fun utf8_take :: "nat \<Rightarrow> string \<Rightarrow> string" where
  "utf8_take n [] = []"
| "utf8_take n (c # s) =
     (if utf8_cont c then c # utf8_take n s
      else (case n of 0 \<Rightarrow> [] | Suc m \<Rightarrow> c # utf8_take m s))"

lemma utf8_count_Nil [simp]: "utf8_count [] = 0"
  by (simp add: utf8_count_def)

lemma utf8_count_Cons [simp]:
  "utf8_count (c # s) = (if utf8_cont c then utf8_count s else Suc (utf8_count s))"
  by (simp add: utf8_count_def)

lemma utf8_count_append [simp]: "utf8_count (s @ t) = utf8_count s + utf8_count t"
  by (simp add: utf8_count_def)

lemma utf8_count_take: "utf8_count (utf8_take n s) = min n (utf8_count s)"
  by (induction n s rule: utf8_take.induct) (auto split: nat.splits)

lemma prefix_utf8_take: "prefix (utf8_take n s) s"
  by (induction n s rule: utf8_take.induct) (auto split: nat.splits)

text \<open>
  \<open>char::is_whitespace\<close> over UTF-8: the number of bytes of the white-space character a string
  starts with, 0 when it starts with no white space.
\<close>

definition ws_len :: "string \<Rightarrow> nat" where
  "ws_len s = (case map byte_val (take 3 s) of
       [] \<Rightarrow> 0
     | a # r \<Rightarrow>
         if (9 \<le> a \<and> a \<le> 13) \<or> a = 32 then 1
         else (case r of [] \<Rightarrow> 0
           | b # q \<Rightarrow>
               if a = 194 \<and> (b = 133 \<or> b = 160) then 2
               else (case q of [] \<Rightarrow> 0
                 | c # _ \<Rightarrow>
                     if (a = 225 \<and> b = 154 \<and> c = 128)
                       \<or> (a = 226 \<and> b = 128 \<and> ((128 \<le> c \<and> c \<le> 138) \<or> c = 168 \<or> c = 169 \<or> c = 175))
                       \<or> (a = 226 \<and> b = 129 \<and> c = 159)
                       \<or> (a = 227 \<and> b = 128 \<and> c = 128)
                     then 3 else 0)))"

lemma ws_len_le: "ws_len s \<le> length s"
proof (cases s)
  case (Cons a r)
  then show ?thesis
    by (cases r; cases "tl r") (auto simp: ws_len_def)
qed (simp add: ws_len_def)

function trim_start :: "string \<Rightarrow> string" where
  "trim_start s = (if ws_len s = 0 then s else trim_start (drop (ws_len s) s))"
  by pat_completeness auto
termination
proof (relation "measure length")
  fix s :: string
  assume "ws_len s \<noteq> 0"
  with ws_len_le [of s] show "(drop (ws_len s) s, s) \<in> measure length"
    by auto
qed simp

declare trim_start.simps [simp del]

text \<open>The length of the white-space character a string ends with.\<close>

definition ws_end_len :: "string \<Rightarrow> nat" where
  "ws_end_len s =
     (if length s \<ge> 1 \<and> ws_len (drop (length s - 1) s) = 1 then 1
      else if length s \<ge> 2 \<and> ws_len (drop (length s - 2) s) = 2 then 2
      else if length s \<ge> 3 \<and> ws_len (drop (length s - 3) s) = 3 then 3
      else 0)"

lemma ws_end_len_le: "ws_end_len s \<le> length s"
  by (simp add: ws_end_len_def)

function trim_end :: "string \<Rightarrow> string" where
  "trim_end s =
     (if ws_end_len s = 0 then s else trim_end (take (length s - ws_end_len s) s))"
  by pat_completeness auto
termination
proof (relation "measure length")
  fix s :: string
  assume "ws_end_len s \<noteq> 0"
  with ws_end_len_le [of s] show "(take (length s - ws_end_len s) s, s) \<in> measure length"
    by auto
qed simp

declare trim_end.simps [simp del]

definition trim :: "string \<Rightarrow> string" where
  "trim s = trim_end (trim_start s)"

definition trim_matches :: "(byte \<Rightarrow> bool) \<Rightarrow> string \<Rightarrow> string" where
  "trim_matches p s = rev (dropWhile p (rev (dropWhile p s)))"

text \<open>\<open>str::split\<close> with a predicate on ASCII separators: always at least one piece.\<close>

fun split_on :: "('a \<Rightarrow> bool) \<Rightarrow> 'a list \<Rightarrow> 'a list list" where
  "split_on p [] = [[]]"
| "split_on p (c # cs) =
     (if p c then [] # split_on p cs
      else (case split_on p cs of [] \<Rightarrow> [[c]] | w # ws \<Rightarrow> (c # w) # ws))"

lemma split_on_nonempty [simp]: "split_on p s \<noteq> []"
  by (induction s) (auto split: list.splits)

lemma concat_split_on: "concat (split_on p s) = filter (\<lambda>c. \<not> p c) s"
  by (induction s) (auto split: list.splits)

lemma split_on_no_sep: "w \<in> set (split_on p s) \<Longrightarrow> c \<in> set w \<Longrightarrow> \<not> p c"
  by (induction s arbitrary: w) (fastforce split: list.splits if_splits)+

lemma split_on_sublist: "w \<in> set (split_on p s) \<Longrightarrow> length w \<le> length s"
proof (induction s arbitrary: w)
  case (Cons c s)
  then show ?case
    by (auto split: list.splits if_splits intro: le_SucI)
qed simp

fun join :: "'a list \<Rightarrow> 'a list list \<Rightarrow> 'a list" where
  "join sep [] = []"
| "join sep [w] = w"
| "join sep (w # v # ws) = w @ sep @ join sep (v # ws)"

lemma join_split_on: "join [d] (split_on ((=) d) s) = s"
proof (induction s)
  case (Cons c s)
  obtain w ws where s: "split_on ((=) d) s = w # ws"
    by (cases "split_on ((=) d) s") auto
  with Cons show ?case by (cases ws) auto
qed simp

definition starts_with :: "string \<Rightarrow> string \<Rightarrow> bool" where
  "starts_with p s \<longleftrightarrow> take (length p) s = p"

definition ends_with :: "string \<Rightarrow> string \<Rightarrow> bool" where
  "ends_with p s \<longleftrightarrow> length p \<le> length s \<and> drop (length s - length p) s = p"

fun contains_sub :: "string \<Rightarrow> string \<Rightarrow> bool" where
  "contains_sub [] p \<longleftrightarrow> p = []"
| "contains_sub (c # s) p \<longleftrightarrow> starts_with p (c # s) \<or> contains_sub s p"

definition strip_prefix :: "string \<Rightarrow> string \<Rightarrow> string option" where
  "strip_prefix p s = (if starts_with p s then Some (drop (length p) s) else None)"

lemma starts_with_iff: "starts_with p s \<longleftrightarrow> prefix p s"
  by (metis append_take_drop_id append_eq_conv_conj prefix_def starts_with_def)

lemma contains_sub_iff: "contains_sub s p \<longleftrightarrow> (\<exists>a b. s = a @ p @ b)"
proof (induction s)
  case (Cons c s)
  have "(\<exists>a b. c # s = a @ p @ b) \<longleftrightarrow> prefix p (c # s) \<or> (\<exists>a b. s = a @ p @ b)"
    by (auto simp: prefix_def Cons_eq_append_conv)
  with Cons show ?case by (simp add: starts_with_iff)
qed simp

lemma strip_prefix_Some: "strip_prefix p s = Some r \<longleftrightarrow> s = p @ r"
  by (auto simp: strip_prefix_def starts_with_iff prefix_def)

lemma strip_prefix_None: "strip_prefix p s = None \<longleftrightarrow> \<not> starts_with p s"
  by (simp add: strip_prefix_def)

text \<open>Decimal digits of a number, as \<open>Display\<close> prints it.\<close>

definition digit_char :: "nat \<Rightarrow> byte" where
  "digit_char d = char_of (48 + d)"

fun show_nat :: "nat \<Rightarrow> string" where
  "show_nat n = (if n < 10 then [digit_char n]
                 else show_nat (n div 10) @ [digit_char (n mod 10)])"

declare show_nat.simps [simp del]

definition show_int :: "int \<Rightarrow> string" where
  "show_int n = (if n < 0 then CHR ''-'' # show_nat (nat (- n)) else show_nat (nat n))"

lemma byte_val_digit_char: "d < 10 \<Longrightarrow> byte_val (digit_char d) = 48 + d"
  by (simp add: digit_char_def)

lemma digit_char_inject: "a < 10 \<Longrightarrow> b < 10 \<Longrightarrow> digit_char a = digit_char b \<longleftrightarrow> a = b"
  by (metis byte_val_digit_char add_left_cancel)

text \<open>\<open>str::replace\<close> of a single ASCII character.\<close>

definition replace_byte :: "byte \<Rightarrow> string \<Rightarrow> string \<Rightarrow> string" where
  "replace_byte c r s = concat (map (\<lambda>d. if d = c then r else [d]) s)"

lemma replace_byte_Nil [simp]: "replace_byte c r [] = []"
  by (simp add: replace_byte_def)

lemma replace_byte_Cons [simp]:
  "replace_byte c r (d # s) = (if d = c then r else [d]) @ replace_byte c r s"
  by (simp add: replace_byte_def)

lemma replace_byte_append [simp]:
  "replace_byte c r (s @ t) = replace_byte c r s @ replace_byte c r t"
  by (simp add: replace_byte_def)

section \<open>Order-preserving deduplication\<close>

text \<open>
  \<open>iter.filter(|x| seen.insert(key(x)))\<close>: keeps the first element of every key.
\<close>

fun dedup_from :: "'k list \<Rightarrow> ('a \<Rightarrow> 'k) \<Rightarrow> 'a list \<Rightarrow> 'a list" where
  "dedup_from seen f [] = []"
| "dedup_from seen f (x # xs) =
     (if f x \<in> set seen then dedup_from seen f xs
      else x # dedup_from (f x # seen) f xs)"

lemma set_dedup_from: "set (dedup_from seen f xs) \<subseteq> set xs"
  by (induction xs arbitrary: seen) (auto dest: subsetD)

lemma dedup_from_keys:
  "f ` set (dedup_from seen f xs) = f ` set xs - set seen"
  by (induction xs arbitrary: seen) (auto simp: image_iff)

lemma distinct_dedup_from: "distinct (map f (dedup_from seen f xs))"
proof (induction xs arbitrary: seen)
  case (Cons x xs)
  have "f x \<notin> f ` set (dedup_from (f x # seen) f xs)"
    by (simp add: dedup_from_keys)
  with Cons show ?case by simp
qed simp

lemma subseq_dedup_from: "subseq (dedup_from seen f xs) xs"
  by (induction xs arbitrary: seen) auto

lemma set_subseq: "subseq xs ys \<Longrightarrow> set xs \<subseteq> set ys"
  by (metis subseq_singleton_left subseq_order.order_trans subsetI)

text \<open>
  On a list ordered by \<open>le\<close>, an element is missing from the first \<open>n\<close> deduplicated ones
  only because an earlier element has its key, or because \<open>n\<close> earlier ones were kept.
\<close>

lemma dedup_from_first:
  assumes "sorted_wrt le xs" and "\<And>x. le x x" and "x \<in> set xs" and "f x \<notin> set seen"
  shows "\<exists>y \<in> set (dedup_from seen f xs). f y = f x \<and> le y x"
  using assms
proof (induction xs arbitrary: seen)
  case (Cons z xs)
  consider "f z \<in> set seen" | "f z \<notin> set seen" "f z = f x" | "f z \<notin> set seen" "f z \<noteq> f x"
    by blast
  then show ?case
  proof cases
    case 1
    then have "x \<in> set xs" using Cons.prems by auto
    with Cons 1 show ?thesis by simp
  next
    case 2
    moreover have "le z x" using Cons.prems by auto
    ultimately show ?thesis by auto
  next
    case 3
    then have "x \<in> set xs" using Cons.prems by auto
    with Cons.IH [of "f z # seen"] Cons.prems 3 show ?thesis by auto
  qed
qed simp

lemma sorted_wrt_subseq: "subseq xs ys \<Longrightarrow> sorted_wrt P ys \<Longrightarrow> sorted_wrt P xs"
proof (induction ys arbitrary: xs)
  case (Cons y ys)
  show ?case
  proof (cases "subseq xs ys")
    case True
    with Cons.IH [OF True] Cons.prems(2) show ?thesis by simp
  next
    case False
    then obtain zs where zs: "xs = y # zs" "subseq zs ys"
      using Cons.prems(1) by (cases xs) (auto split: if_splits)
    with Cons.IH [OF zs(2)] Cons.prems(2) set_subseq [OF zs(2)] show ?thesis
      by auto
  qed
next
  case Nil
  then show ?case by (cases xs) auto
qed

lemma distinct_subseq: "subseq xs ys \<Longrightarrow> distinct ys \<Longrightarrow> distinct xs"
  by (auto simp: subseq_conv_nths distinct_nthsI)

lemma distinct_map_subseq: "subseq xs ys \<Longrightarrow> distinct (map f ys) \<Longrightarrow> distinct (map f xs)"
  by (rule distinct_subseq [OF subseq_map])

lemma subseq_take: "subseq (take n xs) xs"
  by (simp add: prefix_imp_subseq take_is_prefix)

lemma take_dedup_first:
  assumes sorted: "sorted_wrt le xs" and refl: "\<And>x. le x x"
    and trans: "\<And>x y z. le x y \<Longrightarrow> le y z \<Longrightarrow> le x z" and x: "x \<in> set xs"
  shows "(\<exists>y \<in> set (take n (dedup_from [] f xs)). f y = f x \<and> le y x)
    \<or> (length (take n (dedup_from [] f xs)) = n \<and> (\<forall>y \<in> set (take n (dedup_from [] f xs)). le y x))"
proof -
  let ?d = "dedup_from [] f xs"
  obtain y where y: "y \<in> set ?d" "f y = f x" "le y x"
    using dedup_from_first [OF sorted refl x, where seen = "[]" and f = f] by auto
  have sd: "sorted_wrt le ?d"
    by (rule sorted_wrt_subseq [OF subseq_dedup_from sorted])
  show ?thesis
  proof (cases "y \<in> set (take n ?d)")
    case False
    then have drop: "y \<in> set (drop n ?d)"
      using y(1) by (metis Un_iff append_take_drop_id set_append)
    then have "length (take n ?d) = n"
      by (cases "n \<le> length ?d") auto
    moreover have "\<forall>z \<in> set (take n ?d). le z y"
      using sd drop by (metis append_take_drop_id sorted_wrt_append)
    ultimately show ?thesis using trans y(3) by blast
  qed (use y in blast)
qed

lemma enumerate_mem: "x \<in> set xs \<longleftrightarrow> (\<exists>i. (i, x) \<in> set (enumerate n xs))"
proof -
  have "set xs = snd ` set (enumerate n xs)"
    by (metis list.set_map map_snd_enumerate)
  then show ?thesis by force
qed

lemma enumerate_memD: "(i, x) \<in> set (enumerate n xs) \<Longrightarrow> x \<in> set xs"
  using enumerate_mem by metis

section \<open>Rows of a table\<close>

text \<open>
  A table is the list of its rows.  \<open>UPDATE .. WHERE\<close> rewrites the matching rows in place,
  \<open>DELETE .. WHERE\<close> removes them, and \<open>rows_affected()\<close> counts them.
\<close>

definition update_where :: "('r \<Rightarrow> bool) \<Rightarrow> ('r \<Rightarrow> 'r) \<Rightarrow> 'r list \<Rightarrow> 'r list" where
  "update_where p f rs = map (\<lambda>r. if p r then f r else r) rs"

definition delete_where :: "('r \<Rightarrow> bool) \<Rightarrow> 'r list \<Rightarrow> 'r list" where
  "delete_where p rs = filter (\<lambda>r. \<not> p r) rs"

definition rows_affected :: "('r \<Rightarrow> bool) \<Rightarrow> 'r list \<Rightarrow> nat" where
  "rows_affected p rs = length (filter p rs)"

lemma set_update_where:
  "set (update_where p f rs) = {r \<in> set rs. \<not> p r} \<union> f ` {r \<in> set rs. p r}"
  by (auto simp: update_where_def)

lemma update_where_keys:
  "(\<And>r. p r \<Longrightarrow> k (f r) = k r) \<Longrightarrow> map k (update_where p f rs) = map k rs"
  by (auto simp: update_where_def)

lemma update_where_id: "(\<And>r. r \<in> set rs \<Longrightarrow> \<not> p r) \<Longrightarrow> update_where p f rs = rs"
  by (auto simp: update_where_def intro: map_idI)

lemma length_update_where [simp]: "length (update_where p f rs) = length rs"
  by (simp add: update_where_def)

lemma set_delete_where: "set (delete_where p rs) = {r \<in> set rs. \<not> p r}"
  by (auto simp: delete_where_def)

lemma delete_where_distinct:
  "distinct (map k rs) \<Longrightarrow> distinct (map k (delete_where p rs))"
  by (simp add: delete_where_def distinct_map_filter)

lemma rows_affected_0: "rows_affected p rs = 0 \<longleftrightarrow> (\<forall>r \<in> set rs. \<not> p r)"
  by (simp add: rows_affected_def filter_empty_conv)

lemma rows_affected_key:
  assumes "distinct (map k rs)" and "\<And>r. r \<in> set rs \<Longrightarrow> p r \<Longrightarrow> k r = a"
  shows "rows_affected p rs \<le> 1"
proof -
  have "distinct (map k (filter p rs))"
    using assms(1) by (rule distinct_map_filter)
  moreover have "set (map k (filter p rs)) \<subseteq> {a}"
    using assms(2) by auto
  ultimately show ?thesis
    by (metis card_mono distinct_card finite.emptyI finite_insert is_singletonI
        is_singleton_altdef length_map rows_affected_def)
qed

lemma distinct_map_eq:
  "distinct (map k rs) \<Longrightarrow> r \<in> set rs \<Longrightarrow> s \<in> set rs \<Longrightarrow> k r = k s \<Longrightarrow> r = s"
  by (auto simp: distinct_map inj_on_def)

lemma find_append:
  "find P (xs @ ys) = (case find P xs of None \<Rightarrow> find P ys | Some x \<Rightarrow> Some x)"
  by (induction xs) auto

lemma find_update_where_key:
  "(\<And>r. p r \<Longrightarrow> k (f r) = k r) \<Longrightarrow>
   find (\<lambda>r. k r = a) (update_where p f rs)
     = map_option (\<lambda>r. if p r then f r else r) (find (\<lambda>r. k r = a) rs)"
  by (induction rs) (auto simp: update_where_def)

lemma find_unique_key:
  assumes "distinct (map k rs)" and "r \<in> set rs"
  shows "find (\<lambda>x. k x = k r) rs = Some r"
proof -
  obtain i where i: "i < length rs" "rs ! i = r"
    using assms(2) by (auto simp: in_set_conv_nth)
  have "\<forall>j < i. k (rs ! j) \<noteq> k r"
    using assms(1) i by (force simp: distinct_conv_nth)
  with i show ?thesis by (auto simp: find_Some_iff)
qed

text \<open>The rows a filter keeps, when the key pins down one row.\<close>

lemma find_key_iff:
  assumes "distinct (map k rs)"
  shows "find (\<lambda>x. k x = a) rs = Some r \<longleftrightarrow> r \<in> set rs \<and> k r = a"
proof
  assume "find (\<lambda>x. k x = a) rs = Some r"
  then show "r \<in> set rs \<and> k r = a" by (auto simp: find_Some_iff)
next
  assume "r \<in> set rs \<and> k r = a"
  with find_unique_key [OF assms, of r] show "find (\<lambda>x. k x = a) rs = Some r" by auto
qed

lemma find_SomeD: "find P rs = Some r \<Longrightarrow> r \<in> set rs \<and> P r"
  by (auto simp: find_Some_iff)

fun opt_all :: "('a \<Rightarrow> bool) \<Rightarrow> 'a option \<Rightarrow> bool" where
  "opt_all p None = True"
| "opt_all p (Some x) = p x"

lemma opt_all_iff: "opt_all p x \<longleftrightarrow> (\<forall>v. x = Some v \<longrightarrow> p v)"
  by (cases x) auto

lemma option_eqI: "(\<And>r. x = Some r \<longleftrightarrow> y = Some r) \<Longrightarrow> x = y"
  by (cases x; cases y) auto

lemmas row_defs = update_where_def delete_where_def rows_affected_def

declare set_update_where [row_simps] set_delete_where [row_simps] rows_affected_0 [row_simps]

end
