(* ===== verification/ApiError.thy ===== *)
theory ApiError
  imports Prelude
begin

text \<open>
  \<open>backend/src/error.rs\<close>: the error value every backend operation returns, with the status
  its constructors fix.  A fallible operation returns \<open>api_error + 'a\<close>; \<open>Inl\<close> is the early
  return of Rust's \<open>?\<close> and \<open>return Err(..)\<close>.
\<close>

named_theorems err_defs \<open>the constructors of API errors\<close>

record api_error =
  err_status :: nat
  err_message :: string

definition api_error_new :: "nat \<Rightarrow> string \<Rightarrow> api_error" where
  [err_defs]: "api_error_new status message = \<lparr>err_status = status, err_message = message\<rparr>"

definition bad_request :: "string \<Rightarrow> api_error" where
  [err_defs]: "bad_request message = api_error_new 400 message"

definition unauthorized :: api_error where
  [err_defs]: "unauthorized = api_error_new 401 ''Authentication required''"

definition forbidden :: "string \<Rightarrow> api_error" where
  [err_defs]: "forbidden message = api_error_new 403 message"

definition not_found :: "string \<Rightarrow> api_error" where
  [err_defs]: "not_found message = api_error_new 404 message"

definition conflict :: "string \<Rightarrow> api_error" where
  [err_defs]: "conflict message = api_error_new 409 message"

definition gone :: "string \<Rightarrow> api_error" where
  [err_defs]: "gone message = api_error_new 410 message"

text \<open>\<open>internal\<close> logs its argument and answers with a fixed message.\<close>

definition internal_error :: api_error where
  [err_defs]: "internal_error = api_error_new 500 ''Internal server error''"

type_synonym 'a result = "api_error + 'a"

fun result_bind :: "'a result \<Rightarrow> ('a \<Rightarrow> 'b result) \<Rightarrow> 'b result" where
  "result_bind (Inl e) f = Inl e"
| "result_bind (Inr x) f = f x"

fun is_ok :: "'e + 'a \<Rightarrow> bool" where
  "is_ok (Inl e) = False"
| "is_ok (Inr x) = True"

lemma result_bind_Inr: "result_bind r f = Inr y \<longleftrightarrow> (\<exists>x. r = Inr x \<and> f x = Inr y)"
  by (cases r) auto

lemma is_ok_iff: "is_ok r \<longleftrightarrow> (\<exists>x. r = Inr x)"
  by (cases r) auto

text \<open>
  An \<open>UPDATE\<close> whose new rows break a \<open>CHECK\<close> constraint fails as a whole: no row changes and
  the statement's error becomes an internal error.
\<close>

definition checked_update ::
  "('r \<Rightarrow> bool) \<Rightarrow> ('r \<Rightarrow> bool) \<Rightarrow> ('r \<Rightarrow> 'r) \<Rightarrow> 'r list \<Rightarrow> ('r list) result" where
  "checked_update ok p f rs =
     (if list_all ok (map f (filter p rs)) then Inr (update_where p f rs) else Inl internal_error)"

lemma checked_update_Inr:
  "checked_update ok p f rs = Inr rs' \<longleftrightarrow>
     rs' = update_where p f rs \<and> (\<forall>r \<in> set rs. p r \<longrightarrow> ok (f r))"
  by (auto simp: checked_update_def list_all_iff)

lemma checked_update_ok:
  "checked_update ok p f rs = Inr rs' \<Longrightarrow> list_all ok rs \<Longrightarrow> list_all ok rs'"
  by (auto simp: checked_update_Inr list_all_iff set_update_where)

lemma checked_update_none:
  "(\<And>r. r \<in> set rs \<Longrightarrow> \<not> p r) \<Longrightarrow> checked_update ok p f rs = Inr rs"
  by (simp add: checked_update_def list_all_iff update_where_id)

end
