(* ===== verification/CodeMatchQuery.thy ===== *)
theory CodeMatchQuery
  imports Prelude "HOL-Library.Product_Lexorder" "HOL-Library.Option_ord"
    "HOL-Library.List_Lexorder" "HOL-Library.Char_ord"
begin

text \<open>
  \<open>backend/src/code_match.rs\<close>: the search queries derived from a feedback report, the ranking
  of the candidates GitHub returns for them, the settlement of files that turned out not to
  exist, and the tracker that accounts for every candidate.
\<close>

section \<open>Data\<close>

definition MAX_SEARCH_QUERIES_PER_REPORT :: nat where
  "MAX_SEARCH_QUERIES_PER_REPORT = 5"

definition MAX_CODE_HINTS_PER_REPORT :: nat where
  "MAX_CODE_HINTS_PER_REPORT = 12"

definition STOP_TOKENS :: "string list" where
  "STOP_TOKENS = [''api'', ''blocking'', ''call'', ''calls'', ''delete'', ''defect'', ''endpoint'',
     ''feedback'', ''finding'', ''friction'', ''gap'', ''get'', ''handler'', ''http'', ''https'',
     ''id'', ''major'', ''mcp'', ''minor'', ''other'', ''patch'', ''pending'', ''post'', ''put'',
     ''report'', ''reports'', ''request'', ''response'', ''strength'', ''suggestion'', ''tool'',
     ''tools'', ''uncertainty'', ''unknown'', ''v1'', ''v2'']"

record code_match_finding =
  cf_kind :: string
  cf_topic :: string

record code_match_input =
  ci_repo_full_name :: string
  ci_path_prefix :: "string option"
  ci_operation :: string
  ci_surface :: string
  ci_runtime_hint :: "string option"
  ci_findings :: "code_match_finding list"

record code_search_query =
  q_expression :: string
  q_match_reason :: string
  q_specificity :: nat

datatype code_search_verification = Verified | FileNotFound

record code_search_candidate =
  c_file :: string
  c_line_start :: "nat option"
  c_line_end :: "nat option"
  c_verification :: code_search_verification

definition is_file_not_found :: "code_search_candidate \<Rightarrow> bool" where
  "is_file_not_found c \<longleftrightarrow> c_verification c = FileNotFound"

record code_search_matches =
  m_query :: code_search_query
  m_candidates :: "code_search_candidate list"

record code_hint_candidate =
  h_file :: string
  h_line_start :: "nat option"
  h_line_end :: "nat option"
  h_match_reason :: string
  h_verified :: bool

record query_seed =
  s_literal :: string
  s_reason :: string
  s_specificity :: nat
  s_insertion_order :: nat

section \<open>The verification tracker\<close>

record verification_outcome =
  vo_candidates_seen :: int
  vo_dropped_as_absent :: int
  vo_kept_verified :: int
  vo_kept_unverified :: int

record verification_tracker =
  vt_candidates_seen :: nat
  vt_dropped_as_absent :: nat
  vt_unverified_dropped :: nat

definition tracker_default :: verification_tracker where
  "tracker_default = \<lparr>vt_candidates_seen = 0, vt_dropped_as_absent = 0, vt_unverified_dropped = 0\<rparr>"

definition observe_candidates :: "nat \<Rightarrow> verification_tracker \<Rightarrow> verification_tracker" where
  "observe_candidates n t =
     t\<lparr>vt_candidates_seen := usize_saturating_add (vt_candidates_seen t) n\<rparr>"

definition observe_absent :: "nat \<Rightarrow> verification_tracker \<Rightarrow> verification_tracker" where
  "observe_absent n t =
     t\<lparr>vt_dropped_as_absent := usize_saturating_add (vt_dropped_as_absent t) n\<rparr>"

definition observe_unverified_drop :: "nat \<Rightarrow> verification_tracker \<Rightarrow> verification_tracker" where
  "observe_unverified_drop n t =
     t\<lparr>vt_unverified_dropped := usize_saturating_add (vt_unverified_dropped t) n\<rparr>"

definition bounded_count :: "nat \<Rightarrow> int" where
  "bounded_count n = (if int n \<le> i64_max then int n else i64_max)"

definition all_candidates :: "code_search_matches list \<Rightarrow> code_search_candidate list" where
  "all_candidates ms = concat (map m_candidates ms)"

text \<open>
  \<open>finish\<close>: the two \<open>debug_assert\<close>s check the outcome and are compiled out of a release
  build; \<open>kept_unverified\<close> is the constant 0 the source binds.
\<close>

definition tracker_finish ::
  "verification_tracker \<Rightarrow> code_search_matches list \<Rightarrow> verification_outcome" where
  "tracker_finish t ms =
     (let kept_verified = length (filter (\<lambda>c. c_verification c = Verified) (all_candidates ms));
          kept_unverified = 0
      in \<lparr>vo_candidates_seen = bounded_count (vt_candidates_seen t),
          vo_dropped_as_absent = bounded_count (vt_dropped_as_absent t),
          vo_kept_verified = bounded_count kept_verified,
          vo_kept_unverified = bounded_count kept_unverified\<rparr>)"

section \<open>Identifiers in a report's fields\<close>

definition identifier_char :: "byte \<Rightarrow> bool" where
  "identifier_char c \<longleftrightarrow> is_alnum c \<or> c = CHR ''_''"

text \<open>
  A multi-byte character is one separator of the source's \<open>split\<close> and several of
  \<open>split_on\<close>, which adds empty runs only; the length filter drops those.
\<close>

definition identifier_runs :: "string \<Rightarrow> string list" where
  "identifier_runs value =
     filter (\<lambda>run. length run \<ge> 3 \<and> length run \<le> 80 \<and> \<not> list_all is_digit run)
       (split_on (\<lambda>c. \<not> identifier_char c) value)"

definition case_boundary :: "byte \<Rightarrow> byte \<Rightarrow> byte list \<Rightarrow> bool" where
  "case_boundary prev c rest \<longleftrightarrow>
     is_upper c \<and> (is_lower prev \<or> (case rest of [] \<Rightarrow> False | d # _ \<Rightarrow> is_lower d))"

text \<open>
  The index loop over a segment: \<open>cur\<close> is \<open>segment[start..index]\<close>, never empty, \<open>prev\<close> its
  last byte, and the list is \<open>segment[index..]\<close>.
\<close>

fun segment_parts :: "string \<Rightarrow> byte \<Rightarrow> string \<Rightarrow> string list" where
  "segment_parts cur prev [] = [to_ascii_lowercase cur]"
| "segment_parts cur prev (c # rest) =
     (if case_boundary prev c rest
      then to_ascii_lowercase cur # segment_parts [c] c rest
      else segment_parts (cur @ [c]) c rest)"

definition identifier_parts :: "string \<Rightarrow> string list" where
  "identifier_parts identifier =
     concat (map (\<lambda>segment. case segment of [] \<Rightarrow> [] | c # rest \<Rightarrow> segment_parts [c] c rest)
       (filter (\<lambda>segment. segment \<noteq> []) (split_on (\<lambda>c. c = CHR ''_'') identifier)))"

definition useful_token :: "string \<Rightarrow> bool" where
  "useful_token token \<longleftrightarrow>
     length token \<ge> 3 \<and> length token \<le> 64 \<and> list_ex is_alpha token
     \<and> token \<notin> set STOP_TOKENS"

section \<open>Seeds and queries\<close>

definition push_seed ::
  "query_seed list \<Rightarrow> string \<Rightarrow> string \<Rightarrow> nat \<Rightarrow> query_seed list" where
  "push_seed seeds literal reason specificity =
     seeds @ [\<lparr>s_literal = literal, s_reason = reason, s_specificity = specificity,
               s_insertion_order = length seeds\<rparr>]"

definition add_run_seeds ::
  "query_seed list \<Rightarrow> string \<Rightarrow> string \<Rightarrow> nat \<Rightarrow> query_seed list" where
  "add_run_seeds seeds run label source_weight =
     (let parts = identifier_parts run;
          meaningful_parts = length (filter useful_token parts);
          seeds = (if length parts \<ge> 2 \<and> meaningful_parts \<ge> 1
                   then push_seed seeds run
                          (''exact '' @ label @ '' identifier `'' @ run @ ''`'')
                          (200 + source_weight + meaningful_parts * 10 + length run)
                   else seeds)
      in fold (\<lambda>part seeds.
               if useful_token part
               then push_seed seeds part (label @ '' token `'' @ part @ ''`'')
                      (100 + source_weight + length part)
               else seeds) parts seeds)"

definition add_field_seeds ::
  "query_seed list \<Rightarrow> string \<Rightarrow> string \<Rightarrow> nat \<Rightarrow> query_seed list" where
  "add_field_seeds seeds value label source_weight =
     fold (\<lambda>run seeds. add_run_seeds seeds run label source_weight) (identifier_runs value) seeds"

definition escape_quoted :: "string \<Rightarrow> string" where
  "escape_quoted value =
     replace_byte (CHR 0x22) [CHR 0x5C, CHR 0x22]
       (replace_byte (CHR 0x5C) [CHR 0x5C, CHR 0x5C] value)"

definition quoted :: "string \<Rightarrow> string" where
  "quoted value = [CHR 0x22] @ escape_quoted value @ [CHR 0x22]"

definition qualifier_byte :: "byte \<Rightarrow> bool" where
  "qualifier_byte c \<longleftrightarrow> is_alnum c \<or> c \<in> {CHR ''/'', CHR ''.'', CHR ''_'', CHR ''-''}"

definition qualifier :: "string \<Rightarrow> string" where
  "qualifier value = (if list_all qualifier_byte value then value else quoted value)"

definition scoped_expression :: "string \<Rightarrow> string \<Rightarrow> string option \<Rightarrow> string" where
  "scoped_expression literal repo_full_name path_prefix =
     (let expression = quoted literal @ '' repo:'' @ qualifier repo_full_name
      in case path_prefix of
           None \<Rightarrow> expression
         | Some p \<Rightarrow>
             (let v = trim_matches (\<lambda>c. c = CHR ''/'') (trim p)
              in if v = [] then expression else expression @ '' path:'' @ qualifier v))"

definition input_seeds :: "code_match_input \<Rightarrow> query_seed list" where
  "input_seeds input =
     (let seeds = add_field_seeds [] (ci_operation input) ''operation'' 60;
          seeds = (case ci_runtime_hint input of None \<Rightarrow> seeds
                   | Some hint \<Rightarrow> add_field_seeds seeds hint ''runtime hint'' 50);
          seeds = fold (\<lambda>finding seeds.
                    add_field_seeds (add_field_seeds seeds (cf_topic finding) ''finding topic'' 40)
                      (cf_kind finding) ''finding kind'' 20) (ci_findings input) seeds
      in add_field_seeds seeds (ci_surface input) ''surface'' 10)"

definition seed_key :: "query_seed \<Rightarrow> int \<times> nat" where
  "seed_key seed = (- int (s_specificity seed), s_insertion_order seed)"

definition chosen_seeds :: "code_match_input \<Rightarrow> query_seed list" where
  "chosen_seeds input =
     take MAX_SEARCH_QUERIES_PER_REPORT
       (dedup_from [] (\<lambda>seed. to_ascii_lowercase (s_literal seed))
         (sort_key seed_key (input_seeds input)))"

definition derive_queries :: "code_match_input \<Rightarrow> code_search_query list" where
  "derive_queries input =
     map (\<lambda>seed. \<lparr>q_expression = scoped_expression (s_literal seed) (ci_repo_full_name input)
                                  (ci_path_prefix input),
                  q_match_reason = s_reason seed,
                  q_specificity = s_specificity seed\<rparr>) (chosen_seeds input)"

section \<open>Ranking\<close>

record ranked_entry =
  e_specificity :: nat
  e_query_order :: nat
  e_result_order :: nat
  e_candidate :: code_search_candidate
  e_reason :: string

definition ranked_entries :: "code_search_matches list \<Rightarrow> ranked_entry list" where
  "ranked_entries ms =
     concat (map (\<lambda>(query_order, m).
       map (\<lambda>(result_order, candidate).
              \<lparr>e_specificity = q_specificity (m_query m), e_query_order = query_order,
               e_result_order = result_order, e_candidate = candidate,
               e_reason = q_match_reason (m_query m)\<rparr>)
           (enumerate 0 (m_candidates m)))
       (enumerate 0 ms))"

definition rank_key ::
  "ranked_entry \<Rightarrow> int \<times> nat \<times> nat \<times> string \<times> nat option" where
  "rank_key e = (- int (e_specificity e), e_query_order e, e_result_order e,
                 c_file (e_candidate e), c_line_start (e_candidate e))"

definition normalized_range :: "code_search_candidate \<Rightarrow> (nat \<times> nat) option" where
  "normalized_range c =
     (case (c_line_start c, c_line_end c) of
        (Some line_start, Some line_end) \<Rightarrow>
          (let line_start = max line_start 1 in Some (line_start, max line_end line_start))
      | _ \<Rightarrow> None)"

definition entry_hint :: "ranked_entry \<Rightarrow> code_hint_candidate" where
  "entry_hint e =
     (let range = normalized_range (e_candidate e)
      in \<lparr>h_file = c_file (e_candidate e), h_line_start = map_option fst range,
          h_line_end = map_option snd range, h_match_reason = e_reason e, h_verified = True\<rparr>)"

definition hint_key :: "code_hint_candidate \<Rightarrow> string \<times> nat option \<times> nat option" where
  "hint_key h = (h_file h, h_line_start h, h_line_end h)"

definition rank_matches :: "code_search_matches list \<Rightarrow> code_hint_candidate list" where
  "rank_matches ms =
     take MAX_CODE_HINTS_PER_REPORT
       (dedup_from [] hint_key
         (map entry_hint
           (filter (\<lambda>e. c_verification (e_candidate e) = Verified)
             (sort_key rank_key (ranked_entries ms)))))"

section \<open>Settlement of provisional absences\<close>

definition settle_file_not_found_candidates ::
  "code_search_matches list \<Rightarrow> code_search_matches list \<times> nat" where
  "settle_file_not_found_candidates ms =
     (map (\<lambda>m. m\<lparr>m_candidates := filter (\<lambda>c. c_verification c \<noteq> FileNotFound) (m_candidates m)\<rparr>) ms,
      fold (\<lambda>c dropped. if c_verification c \<noteq> FileNotFound then dropped
                        else usize_saturating_add dropped 1) (all_candidates ms) 0)"

section \<open>Escaping\<close>

text \<open>
  The reader of a quoted search term: a backslash makes the next byte literal, an unescaped
  quotation mark ends the term.
\<close>

fun read_quoted_body :: "string \<Rightarrow> (string \<times> string) option" where
  "read_quoted_body [] = None"
| "read_quoted_body [c] = (if c = CHR 0x22 then Some ([], []) else None)"
| "read_quoted_body (c # d # s) =
     (if c = CHR 0x22 then Some ([], d # s)
      else if c = CHR 0x5C then map_option (apfst ((#) d)) (read_quoted_body s)
      else map_option (apfst ((#) c)) (read_quoted_body (d # s)))"

fun read_quoted :: "string \<Rightarrow> (string \<times> string) option" where
  "read_quoted [] = None"
| "read_quoted (c # s) = (if c = CHR 0x22 then read_quoted_body s else None)"

lemma escape_quoted_Nil [simp]: "escape_quoted [] = []"
  by (simp add: escape_quoted_def)

lemma escape_quoted_Cons [simp]:
  "escape_quoted (c # s) =
     (if c = CHR 0x5C \<or> c = CHR 0x22 then [CHR 0x5C, c] else [c]) @ escape_quoted s"
  by (simp add: escape_quoted_def)

lemma read_quoted_body_literal:
  "c \<noteq> CHR 0x22 \<Longrightarrow> c \<noteq> CHR 0x5C \<Longrightarrow>
   read_quoted_body (c # s) = map_option (apfst ((#) c)) (read_quoted_body s)"
  by (cases s) auto

lemma read_quoted_body_escape:
  "read_quoted_body (escape_quoted v @ CHR 0x22 # rest) = Some (v, rest)"
proof (induction v)
  case Nil
  show ?case by (cases rest) auto
next
  case (Cons c v)
  then show ?case by (auto simp: read_quoted_body_literal)
qed

text \<open>
  Query-injection safety: whatever bytes a report puts into a search literal, the quoted
  term reads back as exactly that literal and ends where the builder ended it, so no report
  text can close the quotation and add a qualifier of its own.
\<close>

theorem quoted_reads_back: "read_quoted (quoted v @ rest) = Some (v, rest)"
  by (simp add: quoted_def read_quoted_body_escape)

section \<open>Identifier parts\<close>

lemma concat_segment_parts:
  "concat (segment_parts cur prev s) = to_ascii_lowercase (cur @ s)"
  by (induction cur prev s rule: segment_parts.induct) auto

lemma segment_parts_nonempty: "cur \<noteq> [] \<Longrightarrow> w \<in> set (segment_parts cur prev s) \<Longrightarrow> w \<noteq> []"
  by (induction cur prev s arbitrary: w rule: segment_parts.induct)
    (auto simp: to_ascii_lowercase_def split: if_splits)

lemma concat_map_segments:
  "concat (concat (map (\<lambda>segment. case segment of [] \<Rightarrow> [] | c # rest \<Rightarrow> segment_parts [c] c rest)
     (filter (\<lambda>segment. segment \<noteq> []) ws))) = to_ascii_lowercase (concat ws)"
  by (induction ws) (auto simp: concat_segment_parts split: list.splits)

text \<open>
  Splitting an identifier loses nothing but the underscores: the parts are non-empty and
  concatenate to the identifier in lower case, and no part contains an underscore.
\<close>

theorem identifier_parts_partition:
  "concat (identifier_parts s) = to_ascii_lowercase (filter (\<lambda>c. c \<noteq> CHR ''_'') s)
   \<and> [] \<notin> set (identifier_parts s)"
proof
  show "concat (identifier_parts s) = to_ascii_lowercase (filter (\<lambda>c. c \<noteq> CHR ''_'') s)"
    by (simp add: identifier_parts_def concat_map_segments concat_split_on)
  show "[] \<notin> set (identifier_parts s)"
    by (auto simp: identifier_parts_def dest: segment_parts_nonempty [rotated] split: list.splits)
qed

section \<open>The chosen queries\<close>

lemma sorted_chosen: "sorted_wrt (\<lambda>a b. seed_key a \<le> seed_key b) (sort_key seed_key xs)"
  by (metis sorted_map sorted_sort_key)

text \<open>
  C33.  \<open>derive_queries\<close> is the top five: at most five queries come out, their literals are
  pairwise different up to case, they appear in descending specificity (ties in the order the
  fields were read), every expression is scoped to the mapped repository and path, and a seed
  of the report is left out only for a chosen seed with the same literal that is at least as
  specific, or because five at least as specific ones were chosen.
\<close>

theorem derive_queries_top_five:
  "length (derive_queries input) \<le> 5
   \<and> map q_expression (derive_queries input) =
       map (\<lambda>s. scoped_expression (s_literal s) (ci_repo_full_name input) (ci_path_prefix input))
         (chosen_seeds input)
   \<and> distinct (map (\<lambda>s. to_ascii_lowercase (s_literal s)) (chosen_seeds input))
   \<and> sorted (map seed_key (chosen_seeds input))
   \<and> set (chosen_seeds input) \<subseteq> set (input_seeds input)
   \<and> (\<forall>s \<in> set (input_seeds input).
        (\<exists>t \<in> set (chosen_seeds input).
           to_ascii_lowercase (s_literal t) = to_ascii_lowercase (s_literal s)
           \<and> seed_key t \<le> seed_key s)
        \<or> (length (chosen_seeds input) = 5 \<and> (\<forall>t \<in> set (chosen_seeds input). seed_key t \<le> seed_key s)))"
proof -
  let ?f = "\<lambda>s. to_ascii_lowercase (s_literal s)"
  let ?sorted = "sort_key seed_key (input_seeds input)"
  let ?le = "\<lambda>a b. seed_key a \<le> seed_key b"
  have sub: "subseq (chosen_seeds input) (dedup_from [] ?f ?sorted)"
    by (simp add: chosen_seeds_def subseq_take)
  then have sub': "subseq (chosen_seeds input) ?sorted"
    using subseq_dedup_from subseq_order.order_trans by blast
  have "sorted_wrt ?le (chosen_seeds input)"
    by (rule sorted_wrt_subseq [OF sub' sorted_chosen])
  moreover have "distinct (map ?f (chosen_seeds input))"
    by (rule distinct_map_subseq [OF sub distinct_dedup_from])
  moreover have "\<forall>s \<in> set (input_seeds input).
        (\<exists>t \<in> set (chosen_seeds input). ?f t = ?f s \<and> ?le t s)
        \<or> (length (chosen_seeds input) = 5 \<and> (\<forall>t \<in> set (chosen_seeds input). ?le t s))"
    using take_dedup_first [OF sorted_chosen [of "input_seeds input"], where f = ?f and n = 5]
    by (simp add: chosen_seeds_def MAX_SEARCH_QUERIES_PER_REPORT_def)
  moreover have "set (chosen_seeds input) \<subseteq> set (input_seeds input)"
    using set_subseq [OF sub'] by simp
  ultimately show ?thesis
    by (simp add: derive_queries_def sorted_map chosen_seeds_def MAX_SEARCH_QUERIES_PER_REPORT_def)
qed

definition example_input :: code_match_input where
  "example_input = \<lparr>ci_repo_full_name = ''acme/shop'', ci_path_prefix = Some ''/src/'',
     ci_operation = ''searchItems'', ci_surface = ''mcp'', ci_runtime_hint = None,
     ci_findings = [\<lparr>cf_kind = ''defect'', cf_topic = ''stale_items''\<rparr>]\<rparr>"

theorem derive_queries_top_five_witness:
  "length (derive_queries example_input) \<le> 5
   \<and> map q_match_reason (derive_queries example_input) =
       [''exact operation identifier `searchItems`'', ''exact finding topic identifier `stale_items`'',
        ''operation token `search`'', ''operation token `items`'', ''finding topic token `stale`'']
   \<and> distinct (map (\<lambda>s. to_ascii_lowercase (s_literal s)) (chosen_seeds example_input))
   \<and> length (input_seeds example_input) = 6"
proof -
  have "map q_match_reason (derive_queries example_input) =
       [''exact operation identifier `searchItems`'', ''exact finding topic identifier `stale_items`'',
        ''operation token `search`'', ''operation token `items`'', ''finding topic token `stale`'']"
    and "length (input_seeds example_input) = 6"
    by code_simp+
  with derive_queries_top_five [of example_input] show ?thesis by blast
qed

section \<open>Ranking and settlement\<close>

lemma set_ranked_entries:
  "e \<in> set (ranked_entries ms) \<Longrightarrow>
   \<exists>m \<in> set ms. e_candidate e \<in> set (m_candidates m) \<and> e_reason e = q_match_reason (m_query m)"
  by (auto simp: ranked_entries_def dest!: enumerate_memD)

lemma ranked_entries_complete:
  assumes "m \<in> set ms" and "c \<in> set (m_candidates m)"
  shows "\<exists>e \<in> set (ranked_entries ms). e_candidate e = c"
proof -
  obtain i j where "(i, m) \<in> set (enumerate 0 ms)" "(j, c) \<in> set (enumerate 0 (m_candidates m))"
    using assms enumerate_mem by metis
  then have "\<lparr>e_specificity = q_specificity (m_query m), e_query_order = i, e_result_order = j,
      e_candidate = c, e_reason = q_match_reason (m_query m)\<rparr> \<in> set (ranked_entries ms)"
    unfolding ranked_entries_def set_concat set_map by (intro UN_I image_eqI) auto
  then show ?thesis by (metis ranked_entry.select_convs(4))
qed

lemma hint_key_entry_hint:
  "hint_key (entry_hint e) = (c_file (e_candidate e), map_option fst (normalized_range (e_candidate e)),
     map_option snd (normalized_range (e_candidate e)))"
  by (simp add: hint_key_def entry_hint_def Let_def)

lemma normalized_range_bounds:
  "normalized_range c = Some (a, b) \<Longrightarrow> 1 \<le> a \<and> a \<le> b"
  by (auto simp: normalized_range_def Let_def split: option.splits)

text \<open>
  C28.  Every hint \<open>rank_matches\<close> lets through belongs to a candidate verified at the pinned
  commit and carries that candidate's file, a range with \<open>1 \<le> start \<le> end\<close> or no range, and
  the reason of the query that found it; at most twelve come out, no two of them for the same
  file and range; and a verified candidate is left out only when twelve others were kept or a
  kept hint has its file and range.
\<close>

theorem rank_matches_verified:
  "length (rank_matches ms) \<le> 12
   \<and> distinct (map hint_key (rank_matches ms))
   \<and> (\<forall>h \<in> set (rank_matches ms). h_verified h
        \<and> (\<exists>m \<in> set ms. \<exists>c \<in> set (m_candidates m). c_verification c = Verified
              \<and> h_file h = c_file c \<and> h_match_reason h = q_match_reason (m_query m))
        \<and> (h_line_start h = None \<longleftrightarrow> h_line_end h = None)
        \<and> (\<forall>a b. h_line_start h = Some a \<longrightarrow> h_line_end h = Some b \<longrightarrow> 1 \<le> a \<and> a \<le> b))
   \<and> (length (rank_matches ms) < 12 \<longrightarrow>
        (\<forall>m \<in> set ms. \<forall>c \<in> set (m_candidates m). c_verification c = Verified \<longrightarrow>
           (c_file c, map_option fst (normalized_range c), map_option snd (normalized_range c))
             \<in> hint_key ` set (rank_matches ms)))"
proof -
  let ?es = "filter (\<lambda>e. c_verification (e_candidate e) = Verified)
               (sort_key rank_key (ranked_entries ms))"
  let ?d = "dedup_from [] hint_key (map entry_hint ?es)"
  have rank: "rank_matches ms = take 12 ?d"
    by (simp add: rank_matches_def MAX_CODE_HINTS_PER_REPORT_def)
  have origin: "\<exists>m \<in> set ms. \<exists>c \<in> set (m_candidates m). c_verification c = Verified
          \<and> h_file h = c_file c \<and> h_match_reason h = q_match_reason (m_query m)
          \<and> h_line_start h = map_option fst (normalized_range c)
          \<and> h_line_end h = map_option snd (normalized_range c) \<and> h_verified h"
    if "h \<in> set (rank_matches ms)" for h
  proof -
    have "h \<in> entry_hint ` set ?es"
      using that set_take_subset set_dedup_from unfolding rank
      by (metis (no_types, lifting) list.set_map subsetD)
    then show ?thesis
      by (auto simp: entry_hint_def Let_def dest!: set_ranked_entries) blast
  qed
  have "(c_file c, map_option fst (normalized_range c), map_option snd (normalized_range c))
             \<in> hint_key ` set (rank_matches ms)"
    if short: "length (rank_matches ms) < 12" and m: "m \<in> set ms" "c \<in> set (m_candidates m)"
      and c: "c_verification c = Verified" for m c
  proof -
    have "rank_matches ms = ?d" using short unfolding rank by simp
    moreover obtain e where "e \<in> set ?es" "e_candidate e = c"
      using ranked_entries_complete [OF m] c by auto
    moreover have "hint_key ` set ?d = hint_key ` entry_hint ` set ?es"
      by (simp add: dedup_from_keys)
    ultimately show ?thesis
      using hint_key_entry_hint [of e] by (metis imageI)
  qed
  moreover have "distinct (map hint_key (rank_matches ms))"
    unfolding rank by (metis distinct_dedup_from distinct_take take_map)
  moreover have "h_verified h
        \<and> (\<exists>m \<in> set ms. \<exists>c \<in> set (m_candidates m). c_verification c = Verified
              \<and> h_file h = c_file c \<and> h_match_reason h = q_match_reason (m_query m))
        \<and> (h_line_start h = None \<longleftrightarrow> h_line_end h = None)
        \<and> (\<forall>a b. h_line_start h = Some a \<longrightarrow> h_line_end h = Some b \<longrightarrow> 1 \<le> a \<and> a \<le> b)"
    if h: "h \<in> set (rank_matches ms)" for h
  proof -
    obtain m c where m: "m \<in> set ms" "c \<in> set (m_candidates m)" "c_verification c = Verified"
        "h_file h = c_file c" "h_match_reason h = q_match_reason (m_query m)" "h_verified h"
      and r: "h_line_start h = map_option fst (normalized_range c)"
        "h_line_end h = map_option snd (normalized_range c)"
      using origin [OF h] by blast
    show ?thesis
      using m r normalized_range_bounds [of c] by (cases "normalized_range c") auto
  qed
  moreover have "length (rank_matches ms) \<le> 12"
    by (simp add: rank)
  ultimately show ?thesis by blast
qed

definition example_matches :: "code_search_matches list" where
  "example_matches =
     [\<lparr>m_query = \<lparr>q_expression = ''q'', q_match_reason = ''r'', q_specificity = 10\<rparr>,
       m_candidates =
        [\<lparr>c_file = ''b.rs'', c_line_start = Some 0, c_line_end = Some 0, c_verification = Verified\<rparr>,
         \<lparr>c_file = ''gone.rs'', c_line_start = None, c_line_end = None, c_verification = FileNotFound\<rparr>,
         \<lparr>c_file = ''b.rs'', c_line_start = Some 1, c_line_end = Some 1, c_verification = Verified\<rparr>]\<rparr>]"

theorem rank_matches_verified_witness:
  "length (rank_matches example_matches) < 12
   \<and> (''b.rs'', Some 1, Some 1) \<in> hint_key ` set (rank_matches example_matches)
   \<and> distinct (map hint_key (rank_matches example_matches))"
proof -
  have short: "length (rank_matches example_matches) < 12" by code_simp
  have m: "hd example_matches \<in> set example_matches"
    and c: "hd (m_candidates (hd example_matches)) \<in> set (m_candidates (hd example_matches))"
    and v: "c_verification (hd (m_candidates (hd example_matches))) = Verified"
    by (simp_all add: example_matches_def)
  have "c_file (hd (m_candidates (hd example_matches))) = ''b.rs''"
    and "normalized_range (hd (m_candidates (hd example_matches))) = Some (1, 1)"
    by (simp_all add: example_matches_def normalized_range_def)
  with short rank_matches_verified [of example_matches] m c v show ?thesis
    by (metis (no_types, lifting) fst_conv option.simps(9) snd_conv)
qed

lemma fold_count:
  "n + length xs \<le> usize_max \<Longrightarrow>
   fold (\<lambda>c dropped. if P c then dropped else usize_saturating_add dropped 1) xs n
     = n + length (filter (\<lambda>c. \<not> P c) xs)"
  by (induction xs arbitrary: n) (auto simp: usize_saturating_add_exact)

lemma all_candidates_Nil [simp]: "all_candidates [] = []"
  by (simp add: all_candidates_def)

lemma all_candidates_Cons [simp]: "all_candidates (m # ms) = m_candidates m @ all_candidates ms"
  by (simp add: all_candidates_def)

lemma all_candidates_settled:
  "all_candidates (fst (settle_file_not_found_candidates ms))
     = filter (\<lambda>c. c_verification c \<noteq> FileNotFound) (all_candidates ms)"
  by (induction ms) (simp_all add: settle_file_not_found_candidates_def)

lemma not_file_not_found [simp]: "v \<noteq> FileNotFound \<longleftrightarrow> v = Verified"
  by (cases v) auto

lemma not_verified [simp]: "v \<noteq> Verified \<longleftrightarrow> v = FileNotFound"
  by (cases v) auto

lemma filter_verified_partition:
  "length (filter (\<lambda>c. c_verification c = Verified) xs)
     + length (filter (\<lambda>c. c_verification c = FileNotFound) xs) = length xs"
  using sum_length_filter_compl [of "\<lambda>c. c_verification c = Verified" xs] by simp

lemma settle_dropped:
  "length (all_candidates ms) \<le> usize_max \<Longrightarrow>
   snd (settle_file_not_found_candidates ms)
     = length (filter (\<lambda>c. c_verification c = FileNotFound) (all_candidates ms))"
  using fold_count [of 0 "all_candidates ms" "\<lambda>c. c_verification c \<noteq> FileNotFound"]
  by (simp add: settle_file_not_found_candidates_def)

lemma settlement_accounts:
  assumes seen: "vt_candidates_seen t = vt_dropped_as_absent t + length (all_candidates ms)"
    and bound: "int (vt_candidates_seen t) \<le> i64_max"
    and settled: "settle_file_not_found_candidates ms = (ms', dropped)"
    and outcome: "outcome = tracker_finish (observe_absent dropped t) ms'"
  shows "vo_candidates_seen outcome
           = vo_dropped_as_absent outcome + vo_kept_verified outcome + vo_kept_unverified outcome
         \<and> vo_kept_unverified outcome = 0
         \<and> vo_kept_verified outcome = int (length (all_candidates ms'))
         \<and> list_all (\<lambda>c. \<not> is_file_not_found c) (all_candidates ms')
         \<and> map m_query ms' = map m_query ms"
proof -
  let ?v = "length (filter (\<lambda>c. c_verification c = Verified) (all_candidates ms))"
  let ?a = "length (filter (\<lambda>c. c_verification c = FileNotFound) (all_candidates ms))"
  have small: "vt_candidates_seen t \<le> usize_max"
    using bound by (simp add: i64_max_def usize_max_def)
  have all: "all_candidates ms' = filter (\<lambda>c. c_verification c = Verified) (all_candidates ms)"
    using all_candidates_settled [of ms] settled by simp
  have "dropped = ?a"
    using settle_dropped [of ms] settled seen small by simp
  moreover have "?v + ?a = length (all_candidates ms)"
    by (rule filter_verified_partition)
  moreover have "map m_query ms' = map m_query ms"
    using settled by (auto simp: settle_file_not_found_candidates_def)
  ultimately show ?thesis
    using seen bound small
    by (simp add: outcome tracker_finish_def observe_absent_def all bounded_count_def
        usize_saturating_add_exact list_all_iff is_file_not_found_def)
qed

text \<open>
  C35.  The settlement accounts for every candidate: when the tracker has counted each
  candidate either as dropped or as still present (which is how the resolver uses it), then
  after the file-not-found candidates are settled and their number is recorded, the finished
  outcome satisfies the equation the release build no longer asserts, \<open>seen = absent + verified
  + unverified\<close>, and no unverified candidate is left.
\<close>

theorem settlement_partitions_candidates:
  assumes seen: "vt_candidates_seen t = vt_dropped_as_absent t + length (all_candidates ms)"
    and bound: "int (vt_candidates_seen t) \<le> i64_max"
    and settled: "settle_file_not_found_candidates ms = (ms', dropped)"
    and outcome: "outcome = tracker_finish (observe_absent dropped t) ms'"
  shows "vo_candidates_seen outcome
           = vo_dropped_as_absent outcome + vo_kept_verified outcome + vo_kept_unverified outcome
         \<and> vo_kept_unverified outcome = 0
         \<and> vo_kept_verified outcome = int (length (all_candidates ms'))
         \<and> list_all (\<lambda>c. \<not> is_file_not_found c) (all_candidates ms')
         \<and> map m_query ms' = map m_query ms"
  using assms by (rule settlement_accounts)

theorem settlement_partitions_candidates_witness:
  "vo_kept_verified (tracker_finish
      (observe_absent 1 \<lparr>vt_candidates_seen = 5, vt_dropped_as_absent = 2, vt_unverified_dropped = 0\<rparr>)
      (fst (settle_file_not_found_candidates example_matches)))
     = int (length (all_candidates (fst (settle_file_not_found_candidates example_matches))))"
proof -
  let ?t = "\<lparr>vt_candidates_seen = 5, vt_dropped_as_absent = 2, vt_unverified_dropped = 0\<rparr>"
  have "vt_candidates_seen ?t = vt_dropped_as_absent ?t + length (all_candidates example_matches)"
    by (simp add: example_matches_def)
  moreover have "int (vt_candidates_seen ?t) \<le> i64_max"
    by (simp add: i64_max_def)
  moreover have "settle_file_not_found_candidates example_matches
      = (fst (settle_file_not_found_candidates example_matches), 1)"
    by (simp add: settle_file_not_found_candidates_def example_matches_def
        usize_saturating_add_def usize_max_def)
  ultimately show ?thesis
    using settlement_partitions_candidates [OF _ _ _ refl] by blast
qed

end
