(* ===== verification/GithubApi.thy ===== *)
theory GithubApi
  imports Prelude CodeMatchQuery
begin

text \<open>
  \<open>backend/src/github.rs\<close>: what the backend computes around its GitHub calls: how a failed
  request is classified, how the rate-limit headers are read, how a search hit is checked
  against the file at the pinned commit, and the validations of repository names and commit
  hashes.  The HTTP client, the clock and chrono's RFC 2822 parser are parameters.
\<close>

section \<open>Failure classification\<close>

text \<open>
  The facts the code asks a request error for.  An error that is no \<open>reqwest::Error\<close> (a local
  validation, a size limit, invalid UTF-8) is \<open>LocalError\<close>.
\<close>

datatype source_error =
    RequestError (re_status: "nat option") (re_timeout: bool) (re_connect: bool)
  | LocalError

definition is_server_error :: "nat \<Rightarrow> bool" where
  "is_server_error status \<longleftrightarrow> 500 \<le> status \<and> status < 600"

definition is_client_error :: "nat \<Rightarrow> bool" where
  "is_client_error status \<longleftrightarrow> 400 \<le> status \<and> status < 500"

datatype file_failure = FileMissing | FileUnauthorized | FileForbidden | FileServer
  | FileTimeout | FileInvalidResponse | FileTransport

fun github_file_content_failure_kind :: "source_error \<Rightarrow> file_failure" where
  "github_file_content_failure_kind LocalError = FileInvalidResponse"
| "github_file_content_failure_kind (RequestError status timeout connect) =
     (case status of
        Some s \<Rightarrow> (if s = 404 then FileMissing
                   else if s = 401 then FileUnauthorized
                   else if s = 403 then FileForbidden
                   else if is_server_error s then FileServer
                   else FileInvalidResponse)
      | None \<Rightarrow> (if timeout then FileTimeout else FileTransport))"

datatype commit_failure = CommitMissing | CommitUnauthorized | CommitForbidden | CommitServer
  | CommitTimeout | CommitInvalidResponse | CommitTransport

fun github_pinned_commit_failure_kind :: "source_error \<Rightarrow> commit_failure" where
  "github_pinned_commit_failure_kind LocalError = CommitInvalidResponse"
| "github_pinned_commit_failure_kind (RequestError status timeout connect) =
     (case status of
        Some s \<Rightarrow> (if s = 404 then CommitMissing
                   else if s = 401 then CommitUnauthorized
                   else if s = 403 then CommitForbidden
                   else if is_server_error s then CommitServer
                   else CommitInvalidResponse)
      | None \<Rightarrow> (if timeout then CommitTimeout else CommitTransport))"

definition counts_toward_verification_ceiling :: "commit_failure \<Rightarrow> bool" where
  "counts_toward_verification_ceiling k \<longleftrightarrow> k = CommitMissing"

datatype issue_creation_failure = ClientResponse | ServerResponse | CreationTimeout
  | CreationConnect | CreationTransport

datatype issue_creation_outcome = DefiniteFailure | AmbiguousFailure

fun creation_outcome :: "issue_creation_failure \<Rightarrow> issue_creation_outcome" where
  "creation_outcome ClientResponse = DefiniteFailure"
| "creation_outcome ServerResponse = AmbiguousFailure"
| "creation_outcome CreationTimeout = AmbiguousFailure"
| "creation_outcome CreationConnect = AmbiguousFailure"
| "creation_outcome CreationTransport = AmbiguousFailure"

definition issue_creation_failure_kind ::
  "nat option \<Rightarrow> bool \<Rightarrow> bool \<Rightarrow> issue_creation_failure" where
  "issue_creation_failure_kind status is_timeout is_connect =
     (if (case status of Some s \<Rightarrow> is_client_error s | None \<Rightarrow> False) then ClientResponse
      else if (case status of Some s \<Rightarrow> is_server_error s | None \<Rightarrow> False) then ServerResponse
      else if is_timeout then CreationTimeout
      else if is_connect then CreationConnect
      else CreationTransport)"

datatype issue_list_failure = ListInstallation | ListAccess | ListRateLimit | ListTimeout
  | ListNotFound | ListServer | ListInvalidResponse | ListPaginationCap | ListTransport

definition issue_list_failure_kind :: "nat option \<Rightarrow> bool \<Rightarrow> issue_list_failure" where
  "issue_list_failure_kind status is_timeout =
     (case status of
        Some s \<Rightarrow> (if s = 404 then ListNotFound
                   else if s = 429 \<or> s = 403 then ListRateLimit
                   else if is_server_error s then ListServer
                   else ListAccess)
      | None \<Rightarrow> (if is_timeout then ListTimeout else ListTransport))"

section \<open>Rate limits\<close>

record github_rate_limit =
  rl_remaining :: "int option"
  rl_reset_at :: "time option"
  rl_retry_after :: "time option"

definition rate_limit_default :: github_rate_limit where
  "rate_limit_default = \<lparr>rl_remaining = None, rl_reset_at = None, rl_retry_after = None\<rparr>"

datatype search_failure = SearchRateLimit | SearchUnauthorized | SearchForbidden | SearchNotFound
  | SearchInvalidRequest | SearchServer | SearchTimeout | SearchInvalidResponse | SearchTransport

definition code_search_failure_kind :: "nat \<Rightarrow> github_rate_limit \<Rightarrow> string \<Rightarrow> search_failure" where
  "code_search_failure_kind status rate_limit body =
     (if status = 429 \<or>
         (status = 403 \<and> (rl_remaining rate_limit = Some 0 \<or> rl_retry_after rate_limit \<noteq> None
                           \<or> contains_sub (to_ascii_lowercase body) ''rate limit''))
      then SearchRateLimit
      else if status = 403 then SearchForbidden
      else if status = 401 then SearchUnauthorized
      else if status = 404 then SearchNotFound
      else if status = 422 \<or> status = 400 then SearchInvalidRequest
      else if is_server_error status then SearchServer
      else SearchTransport)"

text \<open>\<open>str::parse\<close> for \<open>u64\<close> and \<open>i64\<close>: an optional sign, digits only, no overflow.\<close>

definition digits_value :: "string \<Rightarrow> nat" where
  "digits_value ds = foldl (\<lambda>n d. n * 10 + (byte_val d - 48)) 0 ds"

definition parse_digits :: "string \<Rightarrow> nat option" where
  "parse_digits s = (if s \<noteq> [] \<and> list_all is_digit s then Some (digits_value s) else None)"

definition parse_u64 :: "string \<Rightarrow> nat option" where
  "parse_u64 s =
     (case parse_digits (case s of [] \<Rightarrow> [] | c # r \<Rightarrow> if c = CHR ''+'' then r else s) of
        Some n \<Rightarrow> if n \<le> usize_max then Some n else None
      | None \<Rightarrow> None)"

definition parse_i64 :: "string \<Rightarrow> int option" where
  "parse_i64 s =
     (case s of [] \<Rightarrow> None
      | c # r \<Rightarrow>
          (if c = CHR ''-''
           then (case parse_digits r of
                   Some n \<Rightarrow> if int n \<le> i64_max + 1 then Some (- int n) else None
                 | None \<Rightarrow> None)
           else (case parse_digits (if c = CHR ''+'' then r else s) of
                   Some n \<Rightarrow> if int n \<le> i64_max then Some (int n) else None
                 | None \<Rightarrow> None)))"

text \<open>
  A header map: names in lower case, as the \<open>http\<close> crate keeps them; \<open>to_str\<close> accepts visible
  ASCII and tabs only.
\<close>

type_synonym headers = "(string \<times> string) list"

definition visible_ascii :: "byte \<Rightarrow> bool" where
  "visible_ascii c \<longleftrightarrow> (32 \<le> byte_val c \<and> byte_val c < 127) \<or> byte_val c = 9"

definition header_str :: "headers \<Rightarrow> string \<Rightarrow> string option" where
  "header_str headers name =
     (case map_of headers name of
        Some value \<Rightarrow> if list_all visible_ascii value then Some value else None
      | None \<Rightarrow> None)"

definition parse_retry_after ::
  "(string \<Rightarrow> time option) \<Rightarrow> string \<Rightarrow> time \<Rightarrow> time option" where
  "parse_retry_after rfc2822 value now =
     (case parse_u64 value of
        Some secs \<Rightarrow> Some (seconds (int secs))
      | None \<Rightarrow> (case rfc2822 value of
                   Some retry_at \<Rightarrow> if retry_at - now \<ge> 0 then Some (retry_at - now) else None
                 | None \<Rightarrow> None))"

definition parse_rate_limit ::
  "(string \<Rightarrow> time option) \<Rightarrow> (int \<Rightarrow> time option) \<Rightarrow> headers \<Rightarrow> time \<Rightarrow> github_rate_limit" where
  "parse_rate_limit rfc2822 from_timestamp headers now =
     \<lparr>rl_remaining =
        (case Option.bind (header_str headers ''x-ratelimit-remaining'') parse_i64 of
           Some v \<Rightarrow> if v \<ge> 0 then Some v else None
         | None \<Rightarrow> None),
      rl_reset_at =
        Option.bind (Option.bind (header_str headers ''x-ratelimit-reset'') parse_i64) from_timestamp,
      rl_retry_after =
        Option.bind (header_str headers ''retry-after'') (\<lambda>v. parse_retry_after rfc2822 v now)\<rparr>"

section \<open>Search hits and the pinned file\<close>

record text_match =
  tm_fragment :: string
  tm_matches :: "(nat \<times> nat) list"

record search_item =
  si_path :: string
  si_text_matches :: "text_match list"

record github_candidate =
  gc_file :: string
  gc_text_match :: "text_match option"

record search_result =
  sr_candidates :: "github_candidate list"
  sr_rate_limit :: github_rate_limit

definition code_search_candidates :: "search_item \<Rightarrow> github_candidate list" where
  "code_search_candidates item =
     (if si_text_matches item = []
      then [\<lparr>gc_file = si_path item, gc_text_match = None\<rparr>]
      else map (\<lambda>t. \<lparr>gc_file = si_path item, gc_text_match = Some t\<rparr>) (si_text_matches item))"

definition needs_content :: "github_candidate \<Rightarrow> bool" where
  "needs_content c \<longleftrightarrow> gc_text_match c \<noteq> None"

fun crlf_to_lf :: "string \<Rightarrow> string" where
  "crlf_to_lf [] = []"
| "crlf_to_lf [c] = [c]"
| "crlf_to_lf (c # d # s) =
     (if c = CHR 0x0D \<and> d = CHR 0x0A then CHR 0x0A # crlf_to_lf s
      else c # crlf_to_lf (d # s))"

definition normalize_line_endings :: "string \<Rightarrow> string" where
  "normalize_line_endings value = replace_byte (CHR 0x0D) [CHR 0x0A] (crlf_to_lf value)"

definition content_contains_fragment :: "string \<Rightarrow> string \<Rightarrow> bool" where
  "content_contains_fragment content fragment =
     (if fragment = [] then False
      else if contains_sub content fragment then True
      else if CHR 0x0D \<notin> set content \<and> CHR 0x0D \<notin> set fragment then False
      else contains_sub (normalize_line_endings content) (normalize_line_endings fragment))"

fun find_sub :: "string \<Rightarrow> string \<Rightarrow> nat option" where
  "find_sub [] p = (if p = [] then Some 0 else None)"
| "find_sub (c # s) p =
     (if starts_with p (c # s) then Some 0 else map_option Suc (find_sub s p))"

text \<open>Byte offsets at which the characters of a string start: \<open>char_indices\<close>.\<close>

definition char_offsets :: "string \<Rightarrow> nat list" where
  "char_offsets s = filter (\<lambda>i. \<not> utf8_cont (s ! i)) [0..<length s]"

definition nth_opt :: "'a list \<Rightarrow> nat \<Rightarrow> 'a option" where
  "nth_opt xs n = (if n < length xs then Some (xs ! n) else None)"

definition character_offset :: "string \<Rightarrow> nat \<Rightarrow> nat option" where
  "character_offset value character =
     (if character = utf8_count value then Some (length value)
      else nth_opt (char_offsets value) character)"

definition is_char_boundary :: "string \<Rightarrow> nat \<Rightarrow> bool" where
  "is_char_boundary s i \<longleftrightarrow>
     i = 0 \<or> i = length s \<or> (i < length s \<and> \<not> utf8_cont (s ! i))"

definition newline_count :: "string \<Rightarrow> nat" where
  "newline_count s = length (filter (\<lambda>c. c = CHR 0x0A) s)"

definition line_number_at :: "string \<Rightarrow> nat \<Rightarrow> nat option" where
  "line_number_at content byte_offset =
     (if is_char_boundary content byte_offset
      then (let n = newline_count (take byte_offset content) + 1
            in if n \<le> u32_max then Some n else None)
      else None)"

definition last_opt :: "'a list \<Rightarrow> 'a option" where
  "last_opt xs = (if xs = [] then None else Some (last xs))"

definition match_range :: "string \<Rightarrow> string \<Rightarrow> nat \<Rightarrow> nat \<Rightarrow> nat \<Rightarrow> (nat \<times> nat) option" where
  "match_range content fragment fragment_offset start_character end_character =
     Option.bind (character_offset fragment start_character) (\<lambda>so.
     Option.bind (character_offset fragment end_character) (\<lambda>eo.
     Option.bind (line_number_at content (fragment_offset + so)) (\<lambda>line_start.
     Option.bind (last_opt (char_offsets (take (fragment_offset + eo) content))) (\<lambda>final.
     Option.bind (line_number_at content final) (\<lambda>line_end.
     Some (line_start, max line_end line_start))))))"

definition locate_text_match :: "string \<Rightarrow> text_match \<Rightarrow> (nat \<times> nat) option" where
  "locate_text_match content tm =
     (if tm_fragment tm = [] \<or> tm_matches tm = [] then None
      else
        (case find_sub content (tm_fragment tm) of
           None \<Rightarrow> None
         | Some fragment_offset \<Rightarrow>
             (if find_sub (drop (fragment_offset + length (tm_fragment tm)) content)
                   (tm_fragment tm) \<noteq> None
              then None
              else
                (let start_character = Min (set (map fst (tm_matches tm)));
                     end_character = Max (set (map snd (tm_matches tm)))
                 in if start_character \<ge> end_character then None
                    else match_range content (tm_fragment tm) fragment_offset
                           start_character end_character))))"

definition verify_against_pinned_content ::
  "github_candidate \<Rightarrow> string \<Rightarrow> code_search_candidate option" where
  "verify_against_pinned_content c content =
     (case gc_text_match c of
        Some tm \<Rightarrow>
          (if \<not> content_contains_fragment content (tm_fragment tm) then None
           else (let range = locate_text_match content tm
                 in Some \<lparr>c_file = gc_file c, c_line_start = map_option fst range,
                          c_line_end = map_option snd range, c_verification = Verified\<rparr>))
      | None \<Rightarrow> Some \<lparr>c_file = gc_file c, c_line_start = None, c_line_end = None,
                      c_verification = Verified\<rparr>)"

definition into_file_not_found :: "github_candidate \<Rightarrow> code_search_candidate" where
  "into_file_not_found c = \<lparr>c_file = gc_file c, c_line_start = None, c_line_end = None,
                            c_verification = FileNotFound\<rparr>"

section \<open>The code-search call\<close>

text \<open>
  \<open>char::is_control\<close> over UTF-8: the C0 controls, DEL and the C1 controls U+0080 to U+009F.
\<close>

fun has_control :: "string \<Rightarrow> bool" where
  "has_control [] \<longleftrightarrow> False"
| "has_control (c # s) \<longleftrightarrow>
     byte_val c < 32 \<or> byte_val c = 127
     \<or> (byte_val c = 194 \<and> (case s of [] \<Rightarrow> False | d # _ \<Rightarrow> 128 \<le> byte_val d \<and> byte_val d < 160))
     \<or> has_control s"

definition CODE_SEARCH_RESULTS_PER_QUERY :: nat where
  "CODE_SEARCH_RESULTS_PER_QUERY = 10"

text \<open>
  What the HTTP client answers: no response, or a status with its headers, body and the
  outcome of decoding the body as the search response.
\<close>

datatype http_reply =
    SendFailed source_error
  | Reply (reply_status: nat) (reply_headers: headers) (reply_body: string)
      (reply_items: "search_item list option")

record search_error =
  se_kind :: search_failure
  se_rate_limit :: github_rate_limit

definition search_error_from_request :: "source_error \<Rightarrow> search_error" where
  "search_error_from_request e =
     \<lparr>se_kind = (case e of RequestError _ timeout _ \<Rightarrow> if timeout then SearchTimeout else SearchTransport
                 | LocalError \<Rightarrow> SearchTransport),
      se_rate_limit = rate_limit_default\<rparr>"

definition search_query_invalid :: "string \<Rightarrow> bool" where
  "search_query_invalid query \<longleftrightarrow> trim query = [] \<or> length query > 512 \<or> has_control query"

definition search_code ::
  "(string \<Rightarrow> time option) \<Rightarrow> (int \<Rightarrow> time option) \<Rightarrow> time \<Rightarrow> (string \<Rightarrow> http_reply) \<Rightarrow> string
   \<Rightarrow> search_error + search_result" where
  "search_code rfc2822 from_timestamp now send query =
     (if search_query_invalid query
      then Inl \<lparr>se_kind = SearchInvalidRequest, se_rate_limit = rate_limit_default\<rparr>
      else
        (case send query of
           SendFailed e \<Rightarrow> Inl (search_error_from_request e)
         | Reply status headers body items \<Rightarrow>
             (let rate_limit = parse_rate_limit rfc2822 from_timestamp headers now
              in if \<not> (200 \<le> status \<and> status < 300)
                 then Inl \<lparr>se_kind = code_search_failure_kind status rate_limit body,
                           se_rate_limit = rate_limit\<rparr>
                 else (case items of
                         None \<Rightarrow> Inl \<lparr>se_kind = SearchInvalidResponse, se_rate_limit = rate_limit\<rparr>
                       | Some is \<Rightarrow>
                           Inr \<lparr>sr_candidates = take CODE_SEARCH_RESULTS_PER_QUERY
                                                  (concat (map code_search_candidates is)),
                                sr_rate_limit = rate_limit\<rparr>))))"

section \<open>Validations and encodings\<close>

definition valid_git_sha :: "string \<Rightarrow> bool" where
  "valid_git_sha value \<longleftrightarrow> length value = 40 \<and> list_all is_hex_digit value"

definition valid_repo_component :: "string \<Rightarrow> bool" where
  "valid_repo_component component \<longleftrightarrow>
     component \<noteq> [] \<and> component \<noteq> ''.'' \<and> component \<noteq> ''..''
     \<and> list_all (\<lambda>c. is_alnum c \<or> c \<in> {CHR ''.'', CHR ''_'', CHR ''-''}) component"

definition validate_repo_full_name :: "string \<Rightarrow> bool" where
  "validate_repo_full_name value =
     (let parts = split_on ((=) (CHR ''/'')) value;
          owner = (case parts of [] \<Rightarrow> [] | p # _ \<Rightarrow> p);
          repository = (case parts of _ # p # _ \<Rightarrow> p | _ \<Rightarrow> [])
      in length parts \<le> 2 \<and> \<not> contains_sub value ''..''
         \<and> valid_repo_component owner \<and> valid_repo_component repository)"

definition app_bot_login :: "string \<Rightarrow> string" where
  "app_bot_login app_slug = app_slug @ ''[bot]''"

definition decode_hex_digit :: "byte \<Rightarrow> nat option" where
  "decode_hex_digit c =
     (let v = byte_val c
      in if 48 \<le> v \<and> v \<le> 57 then Some (v - 48)
         else if 97 \<le> v \<and> v \<le> 102 then Some (v - 97 + 10)
         else if 65 \<le> v \<and> v \<le> 70 then Some (v - 65 + 10)
         else None)"

fun decode_hex_pairs :: "string \<Rightarrow> nat list option" where
  "decode_hex_pairs (a # b # s) =
     (case (decode_hex_digit a, decode_hex_digit b) of
        (Some high, Some low) \<Rightarrow> map_option ((#) (high * 16 + low)) (decode_hex_pairs s)
      | _ \<Rightarrow> None)"
| "decode_hex_pairs _ = Some []"

definition decode_hex :: "string \<Rightarrow> nat list option" where
  "decode_hex value = (if length value mod 2 \<noteq> 0 then None else decode_hex_pairs value)"

definition verify_webhook_signature ::
  "(string \<Rightarrow> byte list \<Rightarrow> nat list) \<Rightarrow> string \<Rightarrow> byte list \<Rightarrow> string \<Rightarrow> bool" where
  "verify_webhook_signature hmac_sha256 secret body header =
     (case strip_prefix ''sha256='' header of
        None \<Rightarrow> False
      | Some signature \<Rightarrow>
          (case decode_hex signature of
             None \<Rightarrow> False
           | Some bytes \<Rightarrow> bytes = hmac_sha256 secret body))"

definition hex_upper :: "nat \<Rightarrow> byte" where
  "hex_upper n = ''0123456789ABCDEF'' ! n"

definition unreserved :: "byte \<Rightarrow> bool" where
  "unreserved c \<longleftrightarrow> is_alnum c \<or> c \<in> {CHR ''-'', CHR ''.'', CHR ''_'', CHR ''~''}"

definition percent_encode_query_value :: "string \<Rightarrow> string" where
  "percent_encode_query_value value =
     concat (map (\<lambda>c. if unreserved c then [c]
                      else [CHR ''%'', hex_upper (byte_val c div 16), hex_upper (byte_val c mod 16)])
                 value)"

section \<open>Classification is conservative\<close>

text \<open>
  A pinned file counts as missing, and a pinned commit's absence counts towards the
  verification ceiling, only on an HTTP 404 of the request itself; and an issue creation is
  reported as a definite failure only for a 4xx answer, so every outcome in which GitHub may
  have created the issue stays ambiguous.
\<close>

theorem absence_and_definite_failure_need_an_answer:
  "(github_file_content_failure_kind e = FileMissing
      \<longleftrightarrow> (\<exists>timeout connect. e = RequestError (Some 404) timeout connect))
   \<and> (counts_toward_verification_ceiling (github_pinned_commit_failure_kind e)
      \<longleftrightarrow> (\<exists>timeout connect. e = RequestError (Some 404) timeout connect))
   \<and> (creation_outcome (issue_creation_failure_kind status is_timeout is_connect) = DefiniteFailure
      \<longleftrightarrow> (\<exists>s. status = Some s \<and> 400 \<le> s \<and> s < 500))"
  by (cases e) (auto simp: counts_toward_verification_ceiling_def issue_creation_failure_kind_def
      is_client_error_def split: option.splits if_splits)

section \<open>A verified range lies in the file\<close>

lemma find_sub_Some: "find_sub s p = Some i \<Longrightarrow> \<exists>a b. s = a @ p @ b \<and> length a = i"
proof (induction s p arbitrary: i rule: find_sub.induct)
  case (2 c s p)
  show ?case
  proof (cases "starts_with p (c # s)")
    case True
    with 2 show ?thesis by (auto simp: starts_with_iff prefix_def)
  next
    case False
    with 2 obtain j where "find_sub s p = Some j" "i = Suc j" by auto
    with 2(1) [OF False, of j] show ?thesis by (metis append_Cons length_Cons)
  qed
qed (auto split: if_splits)

lemma find_sub_None: "find_sub s p = None \<longleftrightarrow> \<not> contains_sub s p"
  by (induction s) auto

lemma newline_count_take: "newline_count (take n s) \<le> newline_count s"
proof -
  have "newline_count s = newline_count (take n s) + newline_count (drop n s)"
    unfolding newline_count_def by (metis append_take_drop_id filter_append length_append)
  then show ?thesis by simp
qed

lemma line_number_at_bounds:
  "line_number_at content i = Some n \<Longrightarrow> 1 \<le> n \<and> n \<le> newline_count content + 1 \<and> n \<le> u32_max"
  using newline_count_take [of i content]
  by (auto simp: line_number_at_def Let_def split: if_splits)

lemma match_range_bounds:
  "match_range content fragment off sc ec = Some (a, b) \<Longrightarrow>
     1 \<le> a \<and> a \<le> b \<and> b \<le> newline_count content + 1"
  by (auto simp: match_range_def bind_eq_Some_conv dest!: line_number_at_bounds)

lemma locate_text_match_bounds:
  "locate_text_match content tm = Some (a, b) \<Longrightarrow>
     1 \<le> a \<and> a \<le> b \<and> b \<le> newline_count content + 1"
  unfolding locate_text_match_def Let_def
  by (auto split: if_split_asm option.split_asm dest!: match_range_bounds)

text \<open>
  A search hit becomes a verified candidate only if the fragment GitHub reported occurs in
  the file at the pinned commit (up to line endings), and the line range it carries, when it
  carries one, is a non-empty range of lines of that file; the hit is dropped exactly when the
  fragment does not occur.
\<close>

theorem verified_hit_is_in_the_file:
  "(verify_against_pinned_content c content = None
      \<longleftrightarrow> (\<exists>tm. gc_text_match c = Some tm \<and> \<not> content_contains_fragment content (tm_fragment tm)))
   \<and> (\<forall>v. verify_against_pinned_content c content = Some v \<longrightarrow>
        c_file v = gc_file c \<and> c_verification v = Verified
        \<and> (c_line_start v = None \<longleftrightarrow> c_line_end v = None)
        \<and> (\<forall>a b. c_line_start v = Some a \<longrightarrow> c_line_end v = Some b \<longrightarrow>
             1 \<le> a \<and> a \<le> b \<and> b \<le> newline_count content + 1))"
  by (auto simp: verify_against_pinned_content_def Let_def split: option.splits if_splits
      dest: locate_text_match_bounds)

definition example_hit :: github_candidate where
  "example_hit = \<lparr>gc_file = ''src/a.rs'',
     gc_text_match = Some \<lparr>tm_fragment = ''fn go'', tm_matches = [(3, 5)]\<rparr>\<rparr>"

theorem verified_hit_is_in_the_file_witness:
  "\<exists>v. verify_against_pinned_content example_hit ([CHR 0x0A] @ ''fn go() {}'') = Some v
     \<and> c_line_start v = Some 2 \<and> c_line_end v = Some 2
     \<and> (2::nat) \<le> newline_count ([CHR 0x0A] @ ''fn go() {}'') + 1"
proof -
  have "verify_against_pinned_content example_hit ([CHR 0x0A] @ ''fn go() {}'') =
    Some \<lparr>c_file = ''src/a.rs'', c_line_start = Some 2, c_line_end = Some 2, c_verification = Verified\<rparr>"
    by code_simp
  with verified_hit_is_in_the_file [of example_hit "[CHR 0x0A] @ ''fn go() {}''"]
  show ?thesis by fastforce
qed

section \<open>Repository names and encodings\<close>

lemma valid_repo_component_no_slash:
  "valid_repo_component w \<Longrightarrow> CHR ''/'' \<notin> set w"
  by (auto simp: valid_repo_component_def list_all_iff is_alnum_def is_alpha_def is_upper_def
      is_lower_def is_digit_def byte_val_def)

lemma split_on_two:
  "split_on ((=) d) s = [v, w] \<Longrightarrow> s = v @ d # w"
  using join_split_on [of d s] by simp

lemma split_on_app:
  "d \<notin> set v \<Longrightarrow> split_on ((=) d) (v @ d # w) = v # split_on ((=) d) w"
  by (induction v) (auto split: list.splits)

lemma split_on_none: "d \<notin> set w \<Longrightarrow> split_on ((=) d) w = [w]"
  by (induction w) auto

text \<open>
  C37.  \<open>validate_repo_full_name\<close> accepts exactly the names \<open>owner/name\<close> whose two components
  are non-empty, are not \<open>.\<close>, contain no \<open>..\<close> and use only letters, digits, \<open>.\<close>, \<open>_\<close> and \<open>-\<close>;
  such a name can be interpolated into a REST path without leaving its two segments.
\<close>

theorem validate_repo_full_name_iff:
  "validate_repo_full_name value \<longleftrightarrow>
     (\<exists>owner name. value = owner @ ''/'' @ name \<and> valid_repo_component owner
        \<and> valid_repo_component name \<and> \<not> contains_sub value ''..'')"
proof
  assume v: "validate_repo_full_name value"
  obtain p q where s: "split_on ((=) (CHR ''/'')) value = [p, q]"
    using v split_on_nonempty [of "(=) (CHR ''/'')" "value"]
    by (cases "split_on ((=) (CHR ''/'')) value"; cases "tl (split_on ((=) (CHR ''/'')) value)";
        cases "tl (tl (split_on ((=) (CHR ''/'')) value))")
      (auto simp: validate_repo_full_name_def valid_repo_component_def Let_def)
  with v split_on_two [OF s] show "\<exists>owner name. value = owner @ ''/'' @ name
      \<and> valid_repo_component owner \<and> valid_repo_component name \<and> \<not> contains_sub value ''..''"
    by (auto simp: validate_repo_full_name_def)
next
  assume "\<exists>owner name. value = owner @ ''/'' @ name \<and> valid_repo_component owner
        \<and> valid_repo_component name \<and> \<not> contains_sub value ''..''"
  then show "validate_repo_full_name value"
    by (auto simp: validate_repo_full_name_def Let_def split_on_app split_on_none
        valid_repo_component_no_slash)
qed

text \<open>The percent decoder a query string is read with.\<close>

fun percent_decode :: "string \<Rightarrow> string option" where
  "percent_decode [] = Some []"
| "percent_decode (c # s) =
     (if c = CHR ''%''
      then (case s of
              a # b # r \<Rightarrow>
                (case (decode_hex_digit a, decode_hex_digit b) of
                   (Some high, Some low) \<Rightarrow> map_option ((#) (char_of (high * 16 + low))) (percent_decode r)
                 | _ \<Rightarrow> None)
            | _ \<Rightarrow> None)
      else map_option ((#) c) (percent_decode s))"

lemma decode_hex_upper: "n < 16 \<Longrightarrow> decode_hex_digit (hex_upper n) = Some n"
proof -
  have "\<forall>n < 16. decode_hex_digit (hex_upper n) = Some n"
    by code_simp
  then show "n < 16 \<Longrightarrow> decode_hex_digit (hex_upper n) = Some n" by blast
qed

lemma char_of_byte_val: "char_of (byte_val c) = c"
  by (simp add: byte_val_def)

lemma byte_val_div16: "byte_val c div 16 < 16"
  using byte_val_less [of c] by linarith

text \<open>
  C38.  Percent-encoding loses nothing: decoding the encoded value gives the value back, and the
  encoded text consists of unreserved characters and \<open>%\<close> only, so a state value cannot
  introduce a query parameter of its own.
\<close>

theorem percent_encode_roundtrip:
  "percent_decode (percent_encode_query_value v) = Some v
   \<and> list_all (\<lambda>c. unreserved c \<or> c = CHR ''%'') (percent_encode_query_value v)"
proof (induction v)
  case (Cons c v)
  have "\<not> unreserved (CHR ''%'')"
    by (simp add: unreserved_def is_alnum_def is_alpha_def is_upper_def is_lower_def
        is_digit_def byte_val_def)
  moreover have "\<forall>n < 16. unreserved (hex_upper n)" by code_simp
  ultimately show ?case
    using Cons byte_val_div16 [of c]
    by (auto simp: percent_encode_query_value_def decode_hex_upper char_of_byte_val)
qed (simp add: percent_encode_query_value_def)

end
