(* ===== verification/GithubMapping.thy ===== *)
theory GithubMapping
  imports ApiError GithubApi
begin

text \<open>
  \<open>backend/src/store.rs\<close>, the GitHub installations of a workspace and the repository each product
  is mapped to: tables \<open>github_installations\<close> and \<open>product_github_repos\<close>.  New row ids, the
  clock and the collation of \<open>ORDER BY account_login\<close> are parameters.
\<close>

section \<open>Tables\<close>

record installation_row =
  in_id :: uuid
  in_workspace :: uuid
  in_installation_id :: int
  in_account_login :: string
  in_account_type :: string
  in_created_at :: time
  in_revoked_at :: "time option"

record product_row =
  pr_id :: uuid
  pr_workspace :: uuid

record product_repo_row =
  rp_product :: uuid
  rp_workspace :: uuid
  rp_installation_id :: int
  rp_repo_full_name :: string
  rp_default_branch :: string
  rp_path_prefix :: "string option"
  rp_created_at :: time
  rp_updated_at :: time

record github_db =
  installations :: "installation_row list"
  products :: "product_row list"
  product_repos :: "product_repo_row list"

datatype installation_upsert = Bound | ConflictingWorkspace

record repo_input =
  ri_installation_id :: int
  ri_repo_full_name :: string
  ri_default_branch :: string
  ri_path_prefix :: "string option"

section \<open>Operations\<close>

text \<open>\<open>INSERT .. ON CONFLICT (installation_id) DO UPDATE .. WHERE\<close> the workspaces agree.\<close>

definition upsert_github_installation ::
  "uuid \<Rightarrow> time \<Rightarrow> uuid \<Rightarrow> int \<Rightarrow> string \<Rightarrow> string \<Rightarrow> github_db \<Rightarrow> installation_upsert \<times> github_db" where
  "upsert_github_installation new_id now workspace_id installation_id login account_type db =
     (if \<exists>r \<in> set (installations db). in_installation_id r = installation_id
      then
        (let p = (\<lambda>r. in_installation_id r = installation_id \<and> in_workspace r = workspace_id);
             f = (\<lambda>r. r\<lparr>in_account_login := login, in_account_type := account_type,
                          in_revoked_at := None\<rparr>)
         in (if rows_affected p (installations db) = 0 then ConflictingWorkspace else Bound,
             db\<lparr>installations := update_where p f (installations db)\<rparr>))
      else
        (Bound, db\<lparr>installations := installations db @
          [\<lparr>in_id = new_id, in_workspace = workspace_id, in_installation_id = installation_id,
            in_account_login = login, in_account_type = account_type, in_created_at = now,
            in_revoked_at = None\<rparr>]\<rparr>))"

definition revoke_github_installation :: "time \<Rightarrow> int \<Rightarrow> github_db \<Rightarrow> github_db" where
  "revoke_github_installation now installation_id db =
     db\<lparr>installations :=
       update_where (\<lambda>r. in_installation_id r = installation_id)
         (\<lambda>r. r\<lparr>in_revoked_at := Some now\<rparr>) (installations db)\<rparr>"

definition list_github_installations ::
  "(string \<Rightarrow> nat) \<Rightarrow> uuid \<Rightarrow> github_db \<Rightarrow> installation_row list" where
  "list_github_installations collate workspace_id db =
     sort_key (\<lambda>r. (collate (in_account_login r), in_installation_id r))
       (filter (\<lambda>r. in_workspace r = workspace_id \<and> in_revoked_at r = None) (installations db))"

definition github_installation_workspace :: "int \<Rightarrow> github_db \<Rightarrow> uuid option" where
  "github_installation_workspace installation_id db =
     map_option in_workspace (find (\<lambda>r. in_installation_id r = installation_id) (installations db))"

definition product_in_workspace :: "uuid \<Rightarrow> uuid \<Rightarrow> github_db \<Rightarrow> bool" where
  "product_in_workspace workspace_id product_id db \<longleftrightarrow>
     (\<exists>p \<in> set (products db). pr_id p = product_id \<and> pr_workspace p = workspace_id)"

definition ensure_product_in_workspace :: "uuid \<Rightarrow> uuid \<Rightarrow> github_db \<Rightarrow> unit result" where
  "ensure_product_in_workspace workspace_id product_id db =
     (if product_in_workspace workspace_id product_id db then Inr ()
      else Inl (not_found ''Product not found for this team''))"

definition active_installation :: "uuid \<Rightarrow> int \<Rightarrow> github_db \<Rightarrow> bool" where
  "active_installation workspace_id installation_id db \<longleftrightarrow>
     (\<exists>r \<in> set (installations db). in_installation_id r = installation_id
        \<and> in_workspace r = workspace_id \<and> in_revoked_at r = None)"

text \<open>
  The last statement repeats the product and installation checks inside the \<open>INSERT .. SELECT\<close>;
  run in one step, as here, they hold, so its own \<open>not_found\<close> is the branch of a mapping that
  changed between the statements.
\<close>

definition upsert_repo_row ::
  "time \<Rightarrow> uuid \<Rightarrow> uuid \<Rightarrow> int \<Rightarrow> string \<Rightarrow> string \<Rightarrow> string option \<Rightarrow> github_db
   \<Rightarrow> (product_repo_row \<times> github_db) option" where
  "upsert_repo_row now workspace_id product_id installation_id repo branch path db =
     (if product_in_workspace workspace_id product_id db
         \<and> active_installation workspace_id installation_id db
      then
        (case find (\<lambda>r. rp_product r = product_id) (product_repos db) of
           Some old \<Rightarrow>
             (let row = old\<lparr>rp_workspace := workspace_id, rp_installation_id := installation_id,
                            rp_repo_full_name := repo, rp_default_branch := branch,
                            rp_path_prefix := path, rp_updated_at := now\<rparr>
              in Some (row, db\<lparr>product_repos :=
                   update_where (\<lambda>r. rp_product r = product_id) (\<lambda>_. row) (product_repos db)\<rparr>))
         | None \<Rightarrow>
             (let row = \<lparr>rp_product = product_id, rp_workspace = workspace_id,
                         rp_installation_id = installation_id, rp_repo_full_name = repo,
                         rp_default_branch = branch, rp_path_prefix = path,
                         rp_created_at = now, rp_updated_at = now\<rparr>
              in Some (row, db\<lparr>product_repos := product_repos db @ [row]\<rparr>)))
      else None)"

definition set_product_github_repo ::
  "time \<Rightarrow> uuid \<Rightarrow> uuid \<Rightarrow> repo_input \<Rightarrow> github_db \<Rightarrow> (product_repo_row \<times> github_db) result" where
  "set_product_github_repo now workspace_id product_id input db =
     (if \<not> validate_repo_full_name (ri_repo_full_name input)
      then Inl (bad_request ''Repository name must use the owner/name form'')
      else result_bind (ensure_product_in_workspace workspace_id product_id db) (\<lambda>_.
        if \<not> active_installation workspace_id (ri_installation_id input) db
        then Inl (not_found ''Active GitHub installation not found for this team'')
        else
          (let default_branch = trim (ri_default_branch input)
           in if default_branch = [] \<or> length default_branch > 255 \<or> has_control default_branch
              then Inl (bad_request ''Default branch is invalid'')
              else
                (let path_prefix = (case ri_path_prefix input of
                        None \<Rightarrow> None
                      | Some p \<Rightarrow> (let v = trim p in if v = [] then None else Some v))
                 in if (case path_prefix of None \<Rightarrow> False
                        | Some v \<Rightarrow> length v > 500 \<or> has_control v)
                    then Inl (bad_request ''Path prefix is invalid'')
                    else
                      (case upsert_repo_row now workspace_id product_id (ri_installation_id input)
                              (ri_repo_full_name input) default_branch path_prefix db of
                         Some (row, db') \<Rightarrow> Inr (row, db')
                       | None \<Rightarrow> Inl (not_found
                           ''Product or active GitHub installation not found for this team'')))))) "

definition get_product_github_repo ::
  "uuid \<Rightarrow> uuid \<Rightarrow> github_db \<Rightarrow> product_repo_row option result" where
  "get_product_github_repo workspace_id product_id db =
     result_bind (ensure_product_in_workspace workspace_id product_id db) (\<lambda>_.
       Inr (find (\<lambda>r. rp_product r = product_id \<and> rp_workspace r = workspace_id) (product_repos db)))"

definition clear_product_github_repo ::
  "uuid \<Rightarrow> uuid \<Rightarrow> github_db \<Rightarrow> (bool \<times> github_db) result" where
  "clear_product_github_repo workspace_id product_id db =
     result_bind (ensure_product_in_workspace workspace_id product_id db) (\<lambda>_.
       let p = (\<lambda>r. rp_product r = product_id \<and> rp_workspace r = workspace_id)
       in Inr (rows_affected p (product_repos db) = 1,
               db\<lparr>product_repos := delete_where p (product_repos db)\<rparr>))"

section \<open>Invariant\<close>

text \<open>
  The unique index on \<open>installation_id\<close> and the primary key of the mapping, and tenant
  isolation: a mapping names a product of its own workspace and an installation bound to it.
\<close>

definition github_inv :: "github_db \<Rightarrow> bool" where
  "github_inv db \<longleftrightarrow>
     distinct (map in_installation_id (installations db))
     \<and> distinct (map rp_product (product_repos db))
     \<and> (\<forall>m \<in> set (product_repos db).
          validate_repo_full_name (rp_repo_full_name m)
          \<and> product_in_workspace (rp_workspace m) (rp_product m) db
          \<and> github_installation_workspace (rp_installation_id m) db = Some (rp_workspace m))"

lemma installation_workspace_iff:
  assumes "distinct (map in_installation_id (installations db))"
  shows "github_installation_workspace i db = Some w \<longleftrightarrow>
    (\<exists>r \<in> set (installations db). in_installation_id r = i \<and> in_workspace r = w)"
proof
  assume "github_installation_workspace i db = Some w"
  then show "\<exists>r \<in> set (installations db). in_installation_id r = i \<and> in_workspace r = w"
    by (auto simp: github_installation_workspace_def dest!: find_SomeD)
next
  assume "\<exists>r \<in> set (installations db). in_installation_id r = i \<and> in_workspace r = w"
  then obtain r where "r \<in> set (installations db)" "in_installation_id r = i" "in_workspace r = w"
    by blast
  with find_unique_key [OF assms, of r] show "github_installation_workspace i db = Some w"
    by (simp add: github_installation_workspace_def)
qed

section \<open>Steps\<close>

inductive github_step :: "github_db \<Rightarrow> github_db \<Rightarrow> bool" where
  upsert: "github_step db (snd (upsert_github_installation new_id now w i login account_type db))"
| revoke: "github_step db (revoke_github_installation now i db)"
| set_repo: "set_product_github_repo now w p input db = Inr (row, db') \<Longrightarrow> github_step db db'"
| clear_repo: "clear_product_github_repo w p db = Inr (b, db') \<Longrightarrow> github_step db db'"

inductive github_reachable :: "github_db \<Rightarrow> bool" where
  start: "installations db = [] \<Longrightarrow> product_repos db = [] \<Longrightarrow> github_reachable db"
| step: "github_reachable db \<Longrightarrow> github_step db db' \<Longrightarrow> github_reachable db'"

lemma set_product_github_repo_Inr:
  assumes "set_product_github_repo now w p input db = Inr (row, db')"
  shows "validate_repo_full_name (ri_repo_full_name input)
    \<and> active_installation w (ri_installation_id input) db \<and> product_in_workspace w p db
    \<and> rp_product row = p \<and> rp_workspace row = w
    \<and> rp_installation_id row = ri_installation_id input
    \<and> rp_repo_full_name row = ri_repo_full_name input
    \<and> installations db' = installations db \<and> products db' = products db
    \<and> (product_repos db' = product_repos db @ [row] \<and> p \<notin> rp_product ` set (product_repos db)
       \<or> product_repos db' = update_where (\<lambda>r. rp_product r = p) (\<lambda>_. row) (product_repos db))"
  using assms
  by (auto simp: set_product_github_repo_def result_bind_Inr ensure_product_in_workspace_def
      upsert_repo_row_def Let_def find_None_iff dest!: find_SomeD split: if_split_asm option.split_asm)

lemma installation_workspace_cong:
  "installations db' = installations db \<Longrightarrow>
     github_installation_workspace i db' = github_installation_workspace i db"
  by (simp add: github_installation_workspace_def)

lemma upsert_installation_workspace:
  "github_installation_workspace i
     (snd (upsert_github_installation new_id now w j login account_type db)) =
   (if i = j \<and> github_installation_workspace j db = None then Some w
    else github_installation_workspace i db)"
proof (cases "\<exists>r \<in> set (installations db). in_installation_id r = j")
  case True
  then have some: "find (\<lambda>r. in_installation_id r = j) (installations db) \<noteq> None"
    by (auto simp: find_None_iff)
  with True show ?thesis
    by (auto simp: upsert_github_installation_def github_installation_workspace_def Let_def
        find_update_where_key [where k = in_installation_id] option.map_comp o_def
        intro!: option.map_cong)
next
  case False
  then have none: "find (\<lambda>r. in_installation_id r = j) (installations db) = None"
    by (auto simp: find_None_iff)
  with False show ?thesis
    by (auto simp: upsert_github_installation_def github_installation_workspace_def find_append
        split: option.split)
qed

lemma revoke_installation_workspace:
  "github_installation_workspace i (revoke_github_installation now j db)
     = github_installation_workspace i db"
  by (auto simp: revoke_github_installation_def github_installation_workspace_def
      find_update_where_key [where k = in_installation_id] option.map_comp o_def
      intro!: option.map_cong)

lemma clear_product_github_repo_Inr:
  assumes "clear_product_github_repo w p db = Inr (b, db')"
  shows "product_in_workspace w p db \<and> installations db' = installations db
    \<and> products db' = products db
    \<and> product_repos db' =
        delete_where (\<lambda>r. rp_product r = p \<and> rp_workspace r = w) (product_repos db)"
  using assms
  by (auto simp: clear_product_github_repo_def ensure_product_in_workspace_def result_bind_Inr Let_def
      split: if_split_asm)

lemma github_step_installation_workspace:
  assumes "github_step db db'" and "github_installation_workspace i db = Some w"
  shows "github_installation_workspace i db' = Some w"
  using assms
proof (induction rule: github_step.induct)
  case upsert
  then show ?case by (auto simp: upsert_installation_workspace)
next
  case revoke
  then show ?case by (simp add: revoke_installation_workspace)
next
  case set_repo
  then show ?case using set_product_github_repo_Inr by (metis installation_workspace_cong)
next
  case clear_repo
  then show ?case using clear_product_github_repo_Inr by (metis installation_workspace_cong)
qed

text \<open>The invariant is kept by every operation.\<close>

lemma upsert_github_inv:
  assumes inv: "github_inv db"
  shows "github_inv (snd (upsert_github_installation new_id now w i login account_type db))"
proof -
  let ?db' = "snd (upsert_github_installation new_id now w i login account_type db)"
  have "distinct (map in_installation_id (installations ?db'))"
    using inv
    by (auto simp: github_inv_def upsert_github_installation_def Let_def image_iff
        update_where_keys [where k = in_installation_id])
  moreover have "product_repos ?db' = product_repos db" "products ?db' = products db"
    by (simp_all add: upsert_github_installation_def Let_def)
  ultimately show ?thesis
    using inv by (auto simp: github_inv_def upsert_installation_workspace product_in_workspace_def)
qed

lemma revoke_github_inv: "github_inv db \<Longrightarrow> github_inv (revoke_github_installation now i db)"
  by (simp add: github_inv_def revoke_installation_workspace product_in_workspace_def)
    (simp add: revoke_github_installation_def update_where_keys [where k = in_installation_id])

lemma set_product_github_repo_inv:
  assumes inv: "github_inv db" and set: "set_product_github_repo now w p input db = Inr (row, db')"
  shows "github_inv db'"
proof -
  note * = set_product_github_repo_Inr [OF set]
  have "github_installation_workspace (rp_installation_id row) db = Some (rp_workspace row)"
    using inv * by (auto simp: github_inv_def installation_workspace_iff active_installation_def)
  moreover have "map rp_product (update_where (\<lambda>r. rp_product r = p) (\<lambda>_. row) (product_repos db))
      = map rp_product (product_repos db)"
    using * by (intro update_where_keys) simp
  then have "distinct (map rp_product (product_repos db'))"
    using inv * by (auto simp: github_inv_def)
  moreover have "set (product_repos db') \<subseteq> insert row (set (product_repos db))"
    using * by (auto simp: row_simps)
  ultimately show ?thesis
    using inv * by (auto simp: github_inv_def product_in_workspace_def
        installation_workspace_cong [of db' db] dest!: subsetD)
qed

lemma clear_product_github_repo_inv:
  assumes inv: "github_inv db" and clear: "clear_product_github_repo w p db = Inr (b, db')"
  shows "github_inv db'"
proof -
  note * = clear_product_github_repo_Inr [OF clear]
  then have "distinct (map rp_product (product_repos db'))"
    and "set (product_repos db') \<subseteq> set (product_repos db)"
    using inv by (auto simp: github_inv_def delete_where_distinct row_simps)
  moreover have "github_installation_workspace i db' = github_installation_workspace i db"
    and "product_in_workspace v q db' = product_in_workspace v q db" for i v q
    using * by (auto simp: product_in_workspace_def intro: installation_workspace_cong)
  ultimately show ?thesis
    using inv * by (auto simp: github_inv_def)
qed

lemma github_step_inv: "github_step db db' \<Longrightarrow> github_inv db \<Longrightarrow> github_inv db'"
  by (induction rule: github_step.induct)
    (auto intro: upsert_github_inv revoke_github_inv set_product_github_repo_inv
      clear_product_github_repo_inv)

lemma github_reachable_inv: "github_reachable db \<Longrightarrow> github_inv db"
  by (induction rule: github_reachable.induct) (simp add: github_inv_def, rule github_step_inv)

section \<open>Properties\<close>

definition github_db0 :: github_db where
  "github_db0 = \<lparr>installations = [], products = [\<lparr>pr_id = 1, pr_workspace = 7\<rparr>],
     product_repos = []\<rparr>"

definition github_input0 :: repo_input where
  "github_input0 = \<lparr>ri_installation_id = 5, ri_repo_full_name = ''acme/app'',
     ri_default_branch = ''main'', ri_path_prefix = None\<rparr>"

definition github_db1 :: github_db where
  "github_db1 = snd (upsert_github_installation 100 0 7 5 ''acme'' ''Organization'' github_db0)"

definition github_db2 :: github_db where
  "github_db2 = (case set_product_github_repo 1 7 1 github_input0 github_db1 of
     Inr (row, db) \<Rightarrow> db | Inl e \<Rightarrow> github_db1)"

lemma github_db2_set:
  "set_product_github_repo 1 7 1 github_input0 github_db1 = Inr (hd (product_repos github_db2), github_db2)
   \<and> length (product_repos github_db2) = 1"
  by code_simp

lemma github_reachable_db2: "github_reachable github_db2"
proof -
  have "github_reachable github_db0" by (rule github_reachable.start) (simp_all add: github_db0_def)
  then have "github_reachable github_db1"
    unfolding github_db1_def by (rule github_reachable.step) (rule github_step.upsert)
  then show ?thesis
    using github_db2_set by (blast intro: github_reachable.step github_step.set_repo)
qed

text \<open>
  C36.  Tenant isolation of the repository mapping.  In every table state the operations can
  reach, each mapped product belongs to the mapping's workspace, the installation it names is bound
  to that same workspace, the repository name is a valid \<open>owner/name\<close>, and no product is mapped
  twice.
\<close>

theorem mappings_stay_in_their_workspace:
  assumes "github_reachable db" and "m \<in> set (product_repos db)"
  shows "(\<exists>p \<in> set (products db). pr_id p = rp_product m \<and> pr_workspace p = rp_workspace m)
    \<and> (\<exists>r \<in> set (installations db). in_installation_id r = rp_installation_id m
          \<and> in_workspace r = rp_workspace m)
    \<and> validate_repo_full_name (rp_repo_full_name m)
    \<and> rows_affected (\<lambda>r. rp_product r = rp_product m) (product_repos db) = 1"
proof -
  note inv = github_reachable_inv [OF assms(1)]
  then have "rows_affected (\<lambda>r. rp_product r = rp_product m) (product_repos db) \<le> 1"
    by (intro rows_affected_key [where k = rp_product]) (auto simp: github_inv_def)
  moreover have "rows_affected (\<lambda>r. rp_product r = rp_product m) (product_repos db) \<noteq> 0"
    using assms(2) by (auto simp: row_simps)
  ultimately show ?thesis
    using inv assms(2)
    by (auto simp: github_inv_def product_in_workspace_def installation_workspace_iff)
qed

theorem mappings_stay_in_their_workspace_witness:
  "\<exists>m \<in> set (product_repos github_db2). pr_workspace (hd (products github_db2)) = rp_workspace m
     \<and> validate_repo_full_name (rp_repo_full_name m)"
proof -
  have "hd (product_repos github_db2) \<in> set (product_repos github_db2)"
    using github_db2_set by (cases "product_repos github_db2") auto
  moreover from this have "validate_repo_full_name (rp_repo_full_name (hd (product_repos github_db2)))"
    using mappings_stay_in_their_workspace [OF github_reachable_db2] by blast
  moreover have "pr_workspace (hd (products github_db2)) = rp_workspace (hd (product_repos github_db2))"
    by code_simp
  ultimately show ?thesis by blast
qed

text \<open>
  An installation never changes hands: once bound to a workspace it stays bound to it
  through any operation, and an upsert for another workspace is refused and leaves the table as
  it was.
\<close>

theorem installation_binding_is_permanent:
  assumes "github_reachable db" and "github_installation_workspace i db = Some w"
    and "github_step\<^sup>*\<^sup>* db db'" and "v \<noteq> w"
  shows "github_installation_workspace i db' = Some w
    \<and> upsert_github_installation new_id now v i login account_type db'
        = (ConflictingWorkspace, db')"
proof -
  have w: "github_installation_workspace i db' = Some w"
    using assms(3,2) by (induction rule: rtranclp_induct) (auto intro: github_step_installation_workspace)
  have "github_reachable db'"
    using assms(3,1) by (induction rule: rtranclp_induct) (auto intro: github_reachable.step)
  then have d: "distinct (map in_installation_id (installations db'))"
    using github_reachable_inv by (auto simp: github_inv_def)
  with w obtain r where r: "r \<in> set (installations db')" "in_installation_id r = i" "in_workspace r = w"
    by (auto simp: installation_workspace_iff)
  let ?p = "\<lambda>r. in_installation_id r = i \<and> in_workspace r = v"
  have none: "\<forall>s \<in> set (installations db'). \<not> ?p s"
    using d r assms(4) distinct_map_eq by metis
  then have "update_where ?p f (installations db') = installations db'" for f
    by (intro update_where_id) auto
  then show ?thesis
    using w r none by (auto simp: upsert_github_installation_def Let_def row_simps)
qed

theorem installation_binding_is_permanent_witness:
  "github_installation_workspace 5 github_db2 = Some 7
   \<and> upsert_github_installation 9 3 8 5 ''evil'' ''User'' github_db2 = (ConflictingWorkspace, github_db2)"
proof -
  have "github_installation_workspace 5 github_db2 = Some 7" by code_simp
  then show ?thesis
    using installation_binding_is_permanent [OF github_reachable_db2 _ rtranclp.rtrancl_refl, of 5 7 8]
    by simp
qed

end
