(* ===== verification/Sql.thy ===== *)
theory Sql
  imports Prelude
begin

text \<open>
  PostgreSQL's three-valued conditions, as the \<open>CHECK\<close> constraints of
  \<open>backend/migrations\<close> use them: \<open>None\<close> is the unknown of a comparison with \<open>NULL\<close>, and a
  \<open>CHECK\<close> refuses a row only when its condition is false.
\<close>

type_synonym cond = "bool option"

fun sql_and :: "cond \<Rightarrow> cond \<Rightarrow> cond" where
  "sql_and (Some False) b = Some False"
| "sql_and (Some True) b = b"
| "sql_and None b = (if b = Some False then Some False else None)"

fun sql_or :: "cond \<Rightarrow> cond \<Rightarrow> cond" where
  "sql_or (Some True) b = Some True"
| "sql_or (Some False) b = b"
| "sql_or None b = (if b = Some True then Some True else None)"

definition sql_all :: "cond list \<Rightarrow> cond" where
  "sql_all cs = foldr sql_and cs (Some True)"

definition sql_check :: "cond \<Rightarrow> bool" where
  "sql_check c \<longleftrightarrow> c \<noteq> Some False"

definition is_null :: "'a option \<Rightarrow> cond" where
  "is_null x = Some (x = None)"

definition sql_eq :: "'a option \<Rightarrow> 'a \<Rightarrow> cond" where
  "sql_eq x v = map_option (\<lambda>y. y = v) x"

definition sql_test :: "('a \<Rightarrow> bool) \<Rightarrow> 'a option \<Rightarrow> cond" where
  "sql_test p x = map_option p x"

text \<open>The pattern \<open>^[a-f0-9]{40}$\<close> and \<open>LENGTH(BTRIM(x)) > 0\<close>.\<close>

definition sha_pattern :: "string \<Rightarrow> bool" where
  "sha_pattern s \<longleftrightarrow> length s = 40 \<and> list_all (\<lambda>c. is_digit c \<or> (97 \<le> byte_val c \<and> byte_val c \<le> 102)) s"

definition not_blank :: "string \<Rightarrow> bool" where
  "not_blank s \<longleftrightarrow> trim_matches ((=) (CHR '' '')) s \<noteq> []"

text \<open>\<open>ORDER BY\<close> puts \<open>NULL\<close> last.\<close>

fun nulls_last :: "int option \<Rightarrow> nat \<times> int" where
  "nulls_last (Some v) = (0, v)"
| "nulls_last None = (1, 0)"

lemma sql_and_true [simp]: "sql_and a b = Some True \<longleftrightarrow> a = Some True \<and> b = Some True"
  by (cases "(a, b)" rule: sql_and.cases) auto

lemma sql_and_false [simp]: "sql_and a b = Some False \<longleftrightarrow> a = Some False \<or> b = Some False"
  by (cases "(a, b)" rule: sql_and.cases) auto

lemma sql_or_true [simp]: "sql_or a b = Some True \<longleftrightarrow> a = Some True \<or> b = Some True"
  by (cases "(a, b)" rule: sql_or.cases) auto

lemma sql_or_false [simp]: "sql_or a b = Some False \<longleftrightarrow> a = Some False \<and> b = Some False"
  by (cases "(a, b)" rule: sql_or.cases) auto

lemma sql_all_true: "sql_all cs = Some True \<longleftrightarrow> (\<forall>c \<in> set cs. c = Some True)"
  by (induction cs) (auto simp: sql_all_def)

lemma sql_all_false: "sql_all cs = Some False \<longleftrightarrow> \<not> list_all (\<lambda>c. c \<noteq> Some False) cs"
  by (induction cs) (auto simp: sql_all_def)

lemma sql_test_false [simp]: "sql_test p x = Some False \<longleftrightarrow> (\<exists>v. x = Some v \<and> \<not> p v)"
  by (auto simp: sql_test_def)

lemma sql_eq_false [simp]: "sql_eq x v = Some False \<longleftrightarrow> (\<exists>u. x = Some u \<and> u \<noteq> v)"
  by (auto simp: sql_eq_def)

lemma is_null_false [simp]: "is_null x = Some False \<longleftrightarrow> x \<noteq> None"
  by (simp add: is_null_def)

end
