(* ===== verification/Lease.thy ===== *)
theory Lease
  imports ApiError
begin

text \<open>
  Claims fenced by a token.  Several tables of the backend hand work out the same way: a claim
  stores a fresh token on the row, and every later write of the claimant repeats the token in its
  \<open>WHERE\<close> clause.  The locale states what such a table promises; the lemmas say what that gives
  for any interleaving of the statements of any number of claimants.
\<close>

datatype ('o, 'k, 't, 'e) lease_event =
    Act 'o 'k 't
  | Other 'e

text \<open>
  A statement that fails leaves the table as it was.  The run returns, for every write of a
  claimant, whether it took effect.
\<close>

fun run_leases ::
  "('o \<Rightarrow> 'k \<Rightarrow> 't \<Rightarrow> 'db \<Rightarrow> (bool \<times> 'db) result) \<Rightarrow> ('e \<Rightarrow> 'db \<Rightarrow> 'db result)
   \<Rightarrow> ('o, 'k, 't, 'e) lease_event list \<Rightarrow> 'db \<Rightarrow> bool list \<times> 'db" where
  "run_leases act other [] db = ([], db)"
| "run_leases act other (Act a k t # evs) db =
     (case act a k t db of
        Inl e \<Rightarrow> (let (bs, db') = run_leases act other evs db in (False # bs, db'))
      | Inr (b, db1) \<Rightarrow> (let (bs, db') = run_leases act other evs db1 in (b # bs, db')))"
| "run_leases act other (Other e # evs) db =
     (case other e db of
        Inl _ \<Rightarrow> (let (bs, db') = run_leases act other evs db in (False # bs, db'))
      | Inr db1 \<Rightarrow> (let (bs, db') = run_leases act other evs db1 in (False # bs, db')))"

text \<open>The releasing writes of one claim that took effect.\<close>

definition settlements ::
  "('o \<Rightarrow> bool) \<Rightarrow> 'k \<Rightarrow> 't \<Rightarrow> ('o, 'k, 't, 'e) lease_event list \<Rightarrow> bool list \<Rightarrow> nat" where
  "settlements releases k t evs bs =
     length (filter (\<lambda>(e, b). b \<and> (case e of Act a k' t' \<Rightarrow> releases a \<and> k' = k \<and> t' = t
                                           | Other _ \<Rightarrow> False)) (zip evs bs))"

definition grants_of :: "('e \<Rightarrow> 't option) \<Rightarrow> ('o, 'k, 't, 'e) lease_event list \<Rightarrow> 't list" where
  "grants_of grants evs =
     List.map_filter (\<lambda>e. case e of Act _ _ _ \<Rightarrow> None | Other x \<Rightarrow> grants x) evs"

lemma settlements_Nil [simp]: "settlements releases k t [] bs = 0"
  by (simp add: settlements_def)

lemma settlements_Cons [simp]:
  "settlements releases k t (e # evs) (b # bs) =
     (if b \<and> (case e of Act a k' t' \<Rightarrow> releases a \<and> k' = k \<and> t' = t | Other _ \<Rightarrow> False)
      then Suc (settlements releases k t evs bs) else settlements releases k t evs bs)"
  by (simp add: settlements_def)

lemma grants_of_Nil [simp]: "grants_of g [] = []"
  by (simp add: grants_of_def List.map_filter_def)

lemma grants_of_Act [simp]: "grants_of g (Act a k t # evs) = grants_of g evs"
  by (simp add: grants_of_def List.map_filter_def)

lemma grants_of_Other [simp]:
  "grants_of g (Other x # evs) = (case g x of None \<Rightarrow> grants_of g evs | Some t \<Rightarrow> t # grants_of g evs)"
  by (simp add: grants_of_def List.map_filter_def split: option.split)

locale fenced_lease =
  fixes inv :: "'db \<Rightarrow> bool"
    and holder :: "'db \<Rightarrow> 'k \<Rightarrow> 't option"
    and view :: "'db \<Rightarrow> 'k \<Rightarrow> 'v"
    and act :: "'o \<Rightarrow> 'k \<Rightarrow> 't \<Rightarrow> 'db \<Rightarrow> (bool \<times> 'db) result"
    and releases :: "'o \<Rightarrow> bool"
    and other :: "'e \<Rightarrow> 'db \<Rightarrow> 'db result"
    and grants :: "'e \<Rightarrow> 't option"
  assumes reject: "inv db \<Longrightarrow> holder db k \<noteq> Some t \<Longrightarrow> act a k t db = Inr (False, db)"
    and accept: "inv db \<Longrightarrow> holder db k = Some t \<Longrightarrow> act a k t db = Inr (b, db') \<Longrightarrow> b"
    and keep: "inv db \<Longrightarrow> act a k t db = Inr (b, db') \<Longrightarrow> inv db'"
    and release: "inv db \<Longrightarrow> releases a \<Longrightarrow> act a k t db = Inr (True, db') \<Longrightarrow> holder db' k = None"
    and hold: "inv db \<Longrightarrow> act a k t db = Inr (b, db') \<Longrightarrow> holder db' j = Some u \<Longrightarrow> holder db j = Some u"
    and frame: "inv db \<Longrightarrow> act a k t db = Inr (b, db') \<Longrightarrow> j \<noteq> k \<Longrightarrow> view db' j = view db j"
    and other_keep: "inv db \<Longrightarrow> other e db = Inr db' \<Longrightarrow> inv db'"
    and other_hold: "inv db \<Longrightarrow> other e db = Inr db' \<Longrightarrow> holder db' j = Some u
                       \<Longrightarrow> holder db j = Some u \<or> grants e = Some u"
begin

text \<open>A claimant that lost its claims changes nothing, whatever it still tries to write.\<close>

lemma stale_run:
  assumes "inv db" and "\<forall>e \<in> set evs. case e of Act a k t \<Rightarrow> holder db k \<noteq> Some t | Other _ \<Rightarrow> False"
  shows "run_leases act other evs db = (replicate (length evs) False, db)"
  using assms by (induction evs) (auto simp: reject split: lease_event.splits)

text \<open>Writes leave the rows of the other keys alone.\<close>

lemma frame_run:
  assumes "inv db" and "\<forall>e \<in> set evs. case e of Act a k t \<Rightarrow> k \<noteq> j | Other _ \<Rightarrow> False"
  shows "view (snd (run_leases act other evs db)) j = view db j"
  using assms
proof (induction evs arbitrary: db)
  case (Cons e evs)
  then obtain a k t where e: "e = Act a k t" "k \<noteq> j" by (auto split: lease_event.splits)
  show ?case
  proof (cases "act a k t db")
    case (Inl err)
    with Cons e show ?thesis by (simp add: split_beta)
  next
    case (Inr r)
    then obtain b db1 where r: "act a k t db = Inr (b, db1)" by (cases r) auto
    then have "view db1 j = view db j" using frame [OF Cons.prems(1) r] e by metis
    with keep [OF Cons.prems(1) r] Cons e r show ?thesis by (simp add: split_beta)
  qed
qed simp

lemma run_inv: "inv db \<Longrightarrow> inv (snd (run_leases act other evs db))"
proof (induction evs arbitrary: db)
  case (Cons e evs)
  then show ?case
    by (cases e) (auto simp: split_beta split: sum.splits intro: keep other_keep)
qed simp

lemma no_settlement:
  assumes "inv db" and "holder db k \<noteq> Some t" and "t \<notin> set (grants_of grants evs)"
  shows "settlements releases k t evs (fst (run_leases act other evs db)) = 0"
  using assms
proof (induction evs arbitrary: db)
  case (Cons e evs)
  show ?case
  proof (cases e)
    case (Act a j u)
    show ?thesis
    proof (cases "act a j u db")
      case (Inl err)
      with Cons Act show ?thesis by (simp add: split_beta)
    next
      case (Inr r)
      then obtain b db1 where r: "act a j u db = Inr (b, db1)" by (cases r) auto
      then have "inv db1" "holder db1 k \<noteq> Some t" using Cons.prems keep hold by blast+
      moreover have "j = k \<and> u = t \<longrightarrow> \<not> b" using r Cons.prems reject by fastforce
      ultimately show ?thesis using Cons Act r by (auto simp: split_beta)
    qed
  next
    case (Other x)
    show ?thesis
    proof (cases "other x db")
      case (Inl err)
      with Cons Other show ?thesis by (simp add: split_beta split: option.splits)
    next
      case (Inr db1)
      have g: "grants x \<noteq> Some t" "t \<notin> set (grants_of grants evs)"
        using Cons.prems(3) Other by (auto split: option.splits)
      moreover have "inv db1" "holder db1 k \<noteq> Some t"
        using Inr g Cons.prems other_keep other_hold by blast+
      ultimately show ?thesis using Cons.IH Inr Other by (simp add: split_beta)
    qed
  qed
qed simp

text \<open>However the statements interleave, a claim is released by its owner at most once.\<close>

lemma one_settlement:
  assumes "inv db" and "distinct (grants_of grants evs)"
    and "holder db k = Some t \<longrightarrow> t \<notin> set (grants_of grants evs)"
  shows "settlements releases k t evs (fst (run_leases act other evs db)) \<le> 1"
  using assms
proof (induction evs arbitrary: db)
  case (Cons e evs)
  show ?case
  proof (cases e)
    case (Act a j u)
    show ?thesis
    proof (cases "act a j u db")
      case (Inl err)
      with Cons Act show ?thesis by (simp add: split_beta)
    next
      case (Inr r)
      then obtain b db1 where r: "act a j u db = Inr (b, db1)" by (cases r) auto
      note inv1 = keep [OF Cons.prems(1) r]
      have h1: "holder db1 k = Some t \<longrightarrow> holder db k = Some t" using r Cons.prems(1) hold by blast
      show ?thesis
      proof (cases "b \<and> releases a \<and> j = k \<and> u = t")
        case True
        have "holder db1 k = None"
          using True r release [OF Cons.prems(1), of a k t db1] by auto
        moreover have "holder db k = Some t"
          using True r reject [OF Cons.prems(1), of k t a] by auto
        ultimately have "settlements releases k t evs (fst (run_leases act other evs db1)) = 0"
          using inv1 Cons.prems(3) Act by (intro no_settlement) auto
        with True Act r show ?thesis by (simp add: split_beta)
      next
        case False
        with Cons h1 inv1 Act r show ?thesis by (auto simp: split_beta)
      qed
    qed
  next
    case (Other x)
    have d: "distinct (grants_of grants evs)"
      using Cons.prems(2) Other by (auto split: option.splits)
    have nx: "grants x = Some t \<Longrightarrow> t \<notin> set (grants_of grants evs)"
      using Cons.prems(2) Other by auto
    have old: "holder db k = Some t \<longrightarrow> t \<notin> set (grants_of grants evs)"
      using Cons.prems(3) Other by (auto split: option.splits)
    show ?thesis
    proof (cases "other x db")
      case (Inl err)
      with Cons.IH [OF Cons.prems(1) d old] Other show ?thesis by (simp add: split_beta)
    next
      case (Inr db1)
      have "holder db1 k = Some t \<longrightarrow> t \<notin> set (grants_of grants evs)"
        using other_hold [OF Cons.prems(1) Inr] nx old by blast
      with Cons.IH [OF other_keep [OF Cons.prems(1) Inr] d] Inr Other show ?thesis
        by (simp add: split_beta)
    qed
  qed
qed simp

end

end
