(* ===== verification/CodeMatchQueue.thy ===== *)
theory CodeMatchQueue
  imports GithubMapping Json Sql Lease CodeMatchQuery
begin

text \<open>
  \<open>backend/src/store.rs\<close>, the queue of code-match jobs, with the tables and \<open>CHECK\<close> constraints
  of migrations 0035 to 0038.  A job is a row of \<open>code_match_queue\<close>; a worker claims a batch
  under a fresh token, and every later write of that worker names the token, so it only takes
  effect while the claim is still its own.
\<close>

section \<open>Tables\<close>

record queue_row =
  cq_report_id :: uuid
  cq_product_id :: uuid
  cq_enqueued_at :: time
  cq_available_at :: time
  cq_claimed_at :: "time option"
  cq_claim_token :: "uuid option"
  cq_attempts :: int
  cq_dead_lettered_at :: "time option"
  cq_last_error :: "string option"
  cq_retry_sha :: "string option"
  cq_retry_repo :: "string option"
  cq_retry_count :: int
  cq_retry_reason :: "string option"
  cq_content_sha :: "string option"
  cq_content_repo :: "string option"
  cq_file :: "string option"
  cq_required_content :: "int option"
  cq_candidates :: "json option"

record code_hint_row =
  ch_report_id :: uuid
  ch_computed_at_sha :: string
  ch_hints :: json
  ch_outcome :: "string option"
  ch_created_at :: time

record verification_row =
  cv_id :: uuid
  cv_report_id :: uuid
  cv_attempt :: int
  cv_computed_at_sha :: string
  cv_outcome :: verification_outcome

record call_row =
  mc_id :: uuid
  mc_report_id :: uuid
  mc_calls_used :: int
  mc_rate_headroom :: "int option"
  mc_hit :: bool
  mc_latency_ms :: int

text \<open>A feedback report joined with its interaction, as the claim reads them.\<close>

record report_row =
  rv_id :: uuid
  rv_workspace_id :: uuid
  rv_operation :: string
  rv_surface :: string
  rv_runtime_hint :: "string option"
  rv_findings :: json

record match_db =
  md_queue :: "queue_row list"
  md_hints :: "code_hint_row list"
  md_verifications :: "verification_row list"
  md_calls :: "call_row list"
  md_reports :: "report_row list"
  md_github :: github_db

section \<open>Constraints\<close>

definition content_retry_check :: "queue_row \<Rightarrow> cond" where
  "content_retry_check r =
     sql_or
       (sql_all [is_null (cq_retry_reason r), is_null (cq_content_sha r), is_null (cq_content_repo r),
                 is_null (cq_file r), is_null (cq_required_content r), is_null (cq_candidates r)])
       (sql_or
         (sql_all [sql_eq (cq_retry_reason r) ''content_budget'', is_null (cq_retry_sha r),
                   is_null (cq_retry_repo r), sql_test sha_pattern (cq_content_sha r),
                   sql_test not_blank (cq_content_repo r), is_null (cq_file r),
                   sql_test (\<lambda>n. n > 0) (cq_required_content r),
                   sql_or (is_null (cq_candidates r)) (sql_test is_object (cq_candidates r))])
         (sql_all [sql_eq (cq_retry_reason r) ''content_fetch'', is_null (cq_retry_sha r),
                   is_null (cq_retry_repo r), sql_test sha_pattern (cq_content_sha r),
                   sql_test not_blank (cq_content_repo r), sql_test not_blank (cq_file r),
                   sql_test (\<lambda>n. n > 0) (cq_required_content r),
                   sql_test is_object (cq_candidates r)]))"

definition queue_row_ok :: "queue_row \<Rightarrow> bool" where
  "queue_row_ok r \<longleftrightarrow>
     0 \<le> cq_attempts r \<and> cq_attempts r \<le> i32_max
     \<and> (cq_claimed_at r = None \<longleftrightarrow> cq_claim_token r = None)
     \<and> (cq_dead_lettered_at r = None \<or> cq_claimed_at r = None)
     \<and> sql_check (sql_test sha_pattern (cq_retry_sha r))
     \<and> 0 \<le> cq_retry_count r \<and> cq_retry_count r \<le> i32_max
     \<and> (cq_retry_sha r = None \<longleftrightarrow> cq_retry_repo r = None)
     \<and> sql_check (content_retry_check r)"

definition HINT_OUTCOMES :: "string list" where
  "HINT_OUTCOMES = [''matched'', ''no_match'', ''proven_absent'', ''terminal_unverifiable'',
                    ''unverified_dropped'']"

text \<open>
  \<open>jsonb_path_query_array(hints, '$[*] ? (@.verified == true)') = hints\<close> in the path language's
  lax mode, which unwraps an array where it needs an object or a scalar.
\<close>

fun lax_items :: "json \<Rightarrow> json list" where
  "lax_items (JArr vs) = vs"
| "lax_items v = [v]"

definition path_verified :: "json \<Rightarrow> bool" where
  "path_verified e \<longleftrightarrow>
     (\<exists>v \<in> set (List.map_filter (json_field ''verified'') (lax_items e)).
        JBool True \<in> set (lax_items v))"

definition hint_row_ok :: "code_hint_row \<Rightarrow> bool" where
  "hint_row_ok r \<longleftrightarrow>
     sha_pattern (ch_computed_at_sha r) \<and> is_array (ch_hints r)
     \<and> (case ch_outcome r of None \<Rightarrow> True | Some s \<Rightarrow> s \<in> set HINT_OUTCOMES)
     \<and> list_all path_verified (lax_items (ch_hints r))"

definition verification_row_ok :: "verification_row \<Rightarrow> bool" where
  "verification_row_ok r \<longleftrightarrow>
     (let vo = cv_outcome r
      in cv_attempt r > 0 \<and> sha_pattern (cv_computed_at_sha r)
         \<and> 0 \<le> vo_candidates_seen vo \<and> 0 \<le> vo_dropped_as_absent vo
         \<and> 0 \<le> vo_kept_verified vo \<and> 0 \<le> vo_kept_unverified vo
         \<and> vo_candidates_seen vo
             = vo_dropped_as_absent vo + vo_kept_verified vo + vo_kept_unverified vo)"

definition call_row_ok :: "call_row \<Rightarrow> bool" where
  "call_row_ok r \<longleftrightarrow>
     mc_calls_used r > 0
     \<and> (case mc_rate_headroom r of None \<Rightarrow> True | Some h \<Rightarrow> 0 \<le> h) \<and> 0 \<le> mc_latency_ms r"

section \<open>Claimed jobs\<close>

record code_match_job =
  jb_report_id :: uuid
  jb_product_id :: uuid
  jb_claim_token :: uuid
  jb_attempts :: int
  jb_installation_id :: "int option"
  jb_installation_active :: bool
  jb_repo_full_name :: "string option"
  jb_default_branch :: "string option"
  jb_path_prefix :: "string option"
  jb_operation :: string
  jb_surface :: string
  jb_runtime_hint :: "string option"
  jb_findings :: json
  jb_retry_sha :: "string option"
  jb_retry_repo :: "string option"
  jb_retry_count :: int
  jb_retry_reason :: "string option"
  jb_content_sha :: "string option"
  jb_content_repo :: "string option"
  jb_file :: "string option"
  jb_required_content :: "int option"
  jb_candidates :: "json option"

record content_retry =
  cr_reason :: string
  cr_computed_at_sha :: string
  cr_repo_full_name :: string
  cr_file :: "string option"
  cr_required_content :: int
  cr_candidates :: "json option"

definition verification_retry :: "code_match_job \<Rightarrow> (string \<times> string) option" where
  "verification_retry job =
     (case (jb_retry_sha job, jb_retry_repo job) of
        (Some sha, Some repo) \<Rightarrow> Some (sha, repo)
      | _ \<Rightarrow> None)"

definition content_retry_of :: "code_match_job \<Rightarrow> content_retry option" where
  "content_retry_of job =
     (case (jb_retry_reason job, jb_content_sha job, jb_content_repo job, jb_required_content job) of
        (Some reason, Some sha, Some repo, Some required) \<Rightarrow>
          Some \<lparr>cr_reason = reason, cr_computed_at_sha = sha, cr_repo_full_name = repo,
                cr_file = jb_file job, cr_required_content = required,
                cr_candidates = jb_candidates job\<rparr>
      | _ \<Rightarrow> None)"

record code_match_completion =
  cc_attempt :: int
  cc_computed_at_sha :: string
  cc_hints :: json
  cc_verification :: verification_outcome
  cc_outcome :: string

datatype retry_target =
    PinnedCommit (pt_sha: string) (pt_repo: string)
  | Content (ct_reason: string) (ct_sha: string) (ct_repo: string) (ct_file: "string option")
      (ct_required: int) (ct_candidates: "json option")

record verification_retry_request =
  vr_target :: retry_target
  vr_counts_toward_ceiling :: bool
  vr_available_at :: time
  vr_error :: string

section \<open>Enqueueing and claiming\<close>

definition enqueue_code_match_if_mapped :: "time \<Rightarrow> uuid \<Rightarrow> uuid \<Rightarrow> match_db \<Rightarrow> match_db" where
  "enqueue_code_match_if_mapped now report_id product_id db =
     (if (\<exists>m \<in> set (product_repos (md_github db)). rp_product m = product_id)
         \<and> \<not> (\<exists>r \<in> set (md_queue db). cq_report_id r = report_id)
      then db\<lparr>md_queue := md_queue db @
             [\<lparr>cq_report_id = report_id, cq_product_id = product_id, cq_enqueued_at = now,
               cq_available_at = now, cq_claimed_at = None, cq_claim_token = None,
               cq_attempts = 0, cq_dead_lettered_at = None, cq_last_error = None,
               cq_retry_sha = None, cq_retry_repo = None, cq_retry_count = 0,
               cq_retry_reason = None, cq_content_sha = None, cq_content_repo = None,
               cq_file = None, cq_required_content = None, cq_candidates = None\<rparr>]\<rparr>
      else db)"

definition stale_claim :: "time \<Rightarrow> queue_row \<Rightarrow> bool" where
  "stale_claim stale_before r \<longleftrightarrow>
     cq_dead_lettered_at r = None \<and> (case cq_claimed_at r of None \<Rightarrow> False | Some t \<Rightarrow> t < stale_before)"

definition unclaim :: "queue_row \<Rightarrow> queue_row" where
  "unclaim r = r\<lparr>cq_claimed_at := None, cq_claim_token := None\<rparr>"

definition claimable :: "time \<Rightarrow> queue_row \<Rightarrow> bool" where
  "claimable now r \<longleftrightarrow>
     cq_claimed_at r = None \<and> cq_dead_lettered_at r = None \<and> cq_available_at r \<le> now"

text \<open>\<open>locked\<close> are the rows another transaction holds, which \<open>SKIP LOCKED\<close> leaves out.\<close>

definition claimable_ids :: "time \<Rightarrow> (uuid \<Rightarrow> bool) \<Rightarrow> nat \<Rightarrow> queue_row list \<Rightarrow> uuid list" where
  "claimable_ids now locked limit rows =
     take limit (map cq_report_id
       (sort_key (\<lambda>r. (cq_enqueued_at r, cq_available_at r, cq_report_id r))
         (filter (\<lambda>r. claimable now r \<and> \<not> locked (cq_report_id r)) rows)))"

definition mapping_of :: "queue_row \<Rightarrow> match_db \<Rightarrow> product_repo_row option" where
  "mapping_of r db = find (\<lambda>m. rp_product m = cq_product_id r) (product_repos (md_github db))"

definition installation_active_for :: "product_repo_row option \<Rightarrow> report_row \<Rightarrow> match_db \<Rightarrow> bool" where
  "installation_active_for mapping rep db =
     (case mapping of
        None \<Rightarrow> False
      | Some m \<Rightarrow> active_installation (rv_workspace_id rep) (rp_installation_id m) (md_github db))"

definition job_of :: "match_db \<Rightarrow> uuid \<Rightarrow> queue_row \<Rightarrow> report_row \<Rightarrow> code_match_job" where
  "job_of db token r rep =
     (let mapping = mapping_of r db
      in \<lparr>jb_report_id = cq_report_id r, jb_product_id = cq_product_id r, jb_claim_token = token,
          jb_attempts = cq_attempts r,
          jb_installation_id = map_option rp_installation_id mapping,
          jb_installation_active = installation_active_for mapping rep db,
          jb_repo_full_name = map_option rp_repo_full_name mapping,
          jb_default_branch = map_option rp_default_branch mapping,
          jb_path_prefix = Option.bind mapping rp_path_prefix,
          jb_operation = rv_operation rep, jb_surface = rv_surface rep,
          jb_runtime_hint = rv_runtime_hint rep, jb_findings = rv_findings rep,
          jb_retry_sha = cq_retry_sha r, jb_retry_repo = cq_retry_repo r,
          jb_retry_count = cq_retry_count r, jb_retry_reason = cq_retry_reason r,
          jb_content_sha = cq_content_sha r, jb_content_repo = cq_content_repo r,
          jb_file = cq_file r, jb_required_content = cq_required_content r,
          jb_candidates = cq_candidates r\<rparr>)"

definition claimed_jobs :: "uuid \<Rightarrow> match_db \<Rightarrow> code_match_job list" where
  "claimed_jobs token db =
     concat (map
       (\<lambda>r. case find (\<lambda>rep. rv_id rep = cq_report_id r) (md_reports db) of
              None \<Rightarrow> [] | Some rep \<Rightarrow> [job_of db token r rep])
       (sort_key
         (\<lambda>r. (nulls_last (map_option rp_installation_id (mapping_of r db)),
               cq_enqueued_at r, cq_report_id r))
         (filter (\<lambda>r. cq_claim_token r = Some token) (md_queue db))))"

definition claim_row :: "uuid \<Rightarrow> time \<Rightarrow> queue_row \<Rightarrow> queue_row" where
  "claim_row token now r =
     r\<lparr>cq_claimed_at := Some now, cq_claim_token := Some token, cq_attempts := cq_attempts r + 1\<rparr>"

definition claim_code_match_batch ::
  "uuid \<Rightarrow> time \<Rightarrow> (uuid \<Rightarrow> bool) \<Rightarrow> int \<Rightarrow> time \<Rightarrow> match_db
   \<Rightarrow> (code_match_job list \<times> match_db) result" where
  "claim_code_match_batch claim_token now locked limit stale_before db =
     (if limit \<le> 0 then Inr ([], db)
      else
        result_bind (checked_update queue_row_ok (stale_claim stale_before) unclaim (md_queue db))
          (\<lambda>rows.
            let ids = claimable_ids now locked (nat limit) rows
            in result_bind
                 (checked_update queue_row_ok (\<lambda>r. cq_report_id r \<in> set ids)
                    (claim_row claim_token now) rows)
                 (\<lambda>rows'. let db' = db\<lparr>md_queue := rows'\<rparr>
                          in Inr (claimed_jobs claim_token db', db'))))"

section \<open>Writes of the claim's owner\<close>

definition owned :: "uuid \<Rightarrow> uuid \<Rightarrow> queue_row \<Rightarrow> bool" where
  "owned report_id claim_token r \<longleftrightarrow>
     cq_report_id r = report_id \<and> cq_claim_token r = Some claim_token"

text \<open>\<open>UPDATE code_match_queue SET .. WHERE report_id = $1 AND claim_token = $2\<close>.\<close>

definition fenced_update ::
  "uuid \<Rightarrow> uuid \<Rightarrow> (queue_row \<Rightarrow> queue_row) \<Rightarrow> match_db \<Rightarrow> (bool \<times> match_db) result" where
  "fenced_update report_id claim_token f db =
     result_bind (checked_update queue_row_ok (owned report_id claim_token) f (md_queue db))
       (\<lambda>rows. Inr (rows_affected (owned report_id claim_token) (md_queue db) = 1,
                    db\<lparr>md_queue := rows\<rparr>))"

definition record_code_match_call ::
  "uuid \<Rightarrow> uuid \<Rightarrow> int option \<Rightarrow> bool \<Rightarrow> int \<Rightarrow> match_db \<Rightarrow> (unit \<times> match_db) result" where
  "record_code_match_call new_id report_id rate_headroom hit latency_ms db =
     (let row = \<lparr>mc_id = new_id, mc_report_id = report_id, mc_calls_used = 1,
                 mc_rate_headroom = rate_headroom, mc_hit = hit, mc_latency_ms = max latency_ms 0\<rparr>
      in if call_row_ok row then Inr ((), db\<lparr>md_calls := md_calls db @ [row]\<rparr>)
         else Inl internal_error)"

text \<open>
  The tail of the settlement statements: \<open>INSERT INTO report_code_hints .. ON CONFLICT (report_id)
  DO UPDATE\<close>, then one row of verification analytics; a \<open>CHECK\<close> failure of either undoes the
  whole statement.
\<close>

definition upsert_hint :: "code_hint_row \<Rightarrow> code_hint_row list \<Rightarrow> code_hint_row list" where
  "upsert_hint row rows =
     (if \<exists>r \<in> set rows. ch_report_id r = ch_report_id row
      then update_where (\<lambda>r. ch_report_id r = ch_report_id row) (\<lambda>_. row) rows
      else rows @ [row])"

definition write_settlement ::
  "uuid \<Rightarrow> time \<Rightarrow> uuid \<Rightarrow> int \<Rightarrow> string \<Rightarrow> json \<Rightarrow> string \<Rightarrow> verification_outcome \<Rightarrow> match_db
   \<Rightarrow> match_db result" where
  "write_settlement new_id now report_id attempt computed_at_sha hints outcome verification db =
     (let hint = \<lparr>ch_report_id = report_id, ch_computed_at_sha = computed_at_sha, ch_hints = hints,
                  ch_outcome = Some outcome, ch_created_at = now\<rparr>;
          analytics = \<lparr>cv_id = new_id, cv_report_id = report_id, cv_attempt = attempt,
                       cv_computed_at_sha = computed_at_sha, cv_outcome = verification\<rparr>
      in if hint_row_ok hint \<and> verification_row_ok analytics
         then Inr (db\<lparr>md_hints := upsert_hint hint (md_hints db),
                      md_verifications := md_verifications db @ [analytics]\<rparr>)
         else Inl internal_error)"

definition complete_code_match_job ::
  "uuid \<Rightarrow> time \<Rightarrow> uuid \<Rightarrow> uuid \<Rightarrow> code_match_completion \<Rightarrow> match_db \<Rightarrow> (bool \<times> match_db) result" where
  "complete_code_match_job new_id now report_id claim_token completion db =
     (if rows_affected (owned report_id claim_token) (md_queue db) = 0 then Inr (False, db)
      else
        result_bind
          (write_settlement new_id now report_id (cc_attempt completion)
             (cc_computed_at_sha completion) (cc_hints completion) (cc_outcome completion)
             (cc_verification completion) db)
          (\<lambda>db'. Inr (True,
             db'\<lparr>md_queue := delete_where (owned report_id claim_token) (md_queue db')\<rparr>)))"

fun retry_columns :: "retry_target \<Rightarrow> queue_row \<Rightarrow> queue_row" where
  "retry_columns (PinnedCommit sha repo) r =
     r\<lparr>cq_retry_sha := Some sha, cq_retry_repo := Some repo, cq_retry_reason := None,
       cq_content_sha := None, cq_content_repo := None, cq_file := None,
       cq_required_content := None, cq_candidates := None\<rparr>"
| "retry_columns (Content reason sha repo file required candidates) r =
     r\<lparr>cq_retry_sha := None, cq_retry_repo := None, cq_retry_reason := Some reason,
       cq_content_sha := Some sha, cq_content_repo := Some repo, cq_file := file,
       cq_required_content := Some required, cq_candidates := candidates\<rparr>"

definition MAX_ERROR_CHARS :: nat where
  "MAX_ERROR_CHARS = 500"

definition release_code_match_for_verification_retry ::
  "uuid \<Rightarrow> uuid \<Rightarrow> verification_retry_request \<Rightarrow> match_db \<Rightarrow> (bool \<times> match_db) result" where
  "release_code_match_for_verification_retry report_id claim_token retry =
     fenced_update report_id claim_token
       (\<lambda>r. (retry_columns (vr_target retry) (unclaim r))
          \<lparr>cq_retry_count := cq_retry_count r + (if vr_counts_toward_ceiling retry then 1 else 0),
           cq_available_at := vr_available_at retry,
           cq_last_error := Some (utf8_take MAX_ERROR_CHARS (vr_error retry)),
           cq_attempts := max (cq_attempts r - 1) 0\<rparr>)"

definition clear_code_match_verification_retry_marker ::
  "uuid \<Rightarrow> uuid \<Rightarrow> match_db \<Rightarrow> (bool \<times> match_db) result" where
  "clear_code_match_verification_retry_marker report_id claim_token =
     fenced_update report_id claim_token
       (\<lambda>r. r\<lparr>cq_retry_sha := None, cq_retry_repo := None, cq_last_error := None\<rparr>)"

definition clear_episode :: "queue_row \<Rightarrow> queue_row" where
  "clear_episode r =
     r\<lparr>cq_retry_sha := None, cq_retry_repo := None, cq_retry_count := 0,
       cq_retry_reason := None, cq_content_sha := None, cq_content_repo := None,
       cq_file := None, cq_required_content := None, cq_candidates := None\<rparr>"

definition reset_code_match_verification_retry ::
  "uuid \<Rightarrow> uuid \<Rightarrow> match_db \<Rightarrow> (bool \<times> match_db) result" where
  "reset_code_match_verification_retry report_id claim_token =
     fenced_update report_id claim_token (\<lambda>r. (clear_episode r)\<lparr>cq_last_error := None\<rparr>)"

definition terminally_dead_letter_code_match_verification ::
  "uuid \<Rightarrow> time \<Rightarrow> uuid \<Rightarrow> uuid \<Rightarrow> int \<Rightarrow> string \<Rightarrow> string \<Rightarrow> match_db \<Rightarrow> (bool \<times> match_db) result" where
  "terminally_dead_letter_code_match_verification new_id now report_id claim_token attempt
       computed_at_sha reason db =
     (if rows_affected (owned report_id claim_token) (md_queue db) = 0 then Inr (False, db)
      else
        result_bind
          (fenced_update report_id claim_token
             (\<lambda>r. (clear_episode (unclaim r))
                \<lparr>cq_dead_lettered_at := Some now,
                 cq_last_error := Some (utf8_take MAX_ERROR_CHARS reason)\<rparr>) db)
          (\<lambda>(_, db').
            result_bind
              (write_settlement new_id now report_id attempt computed_at_sha (JArr [])
                 ''terminal_unverifiable''
                 \<lparr>vo_candidates_seen = 0, vo_dropped_as_absent = 0, vo_kept_verified = 0,
                  vo_kept_unverified = 0\<rparr> db')
              (\<lambda>db''. Inr (True, db''))))"

definition dead_letter_code_match_job ::
  "time \<Rightarrow> uuid \<Rightarrow> uuid \<Rightarrow> string \<Rightarrow> match_db \<Rightarrow> (bool \<times> match_db) result" where
  "dead_letter_code_match_job now report_id claim_token reason =
     fenced_update report_id claim_token
       (\<lambda>r. (unclaim r)\<lparr>cq_dead_lettered_at := Some now,
                        cq_last_error := Some (utf8_take MAX_ERROR_CHARS reason)\<rparr>)"

definition release_code_match_job ::
  "uuid \<Rightarrow> uuid \<Rightarrow> time \<Rightarrow> string option \<Rightarrow> match_db \<Rightarrow> (unit \<times> match_db) result" where
  "release_code_match_job report_id claim_token available_at error db =
     result_bind
       (fenced_update report_id claim_token
          (\<lambda>r. (unclaim r)\<lparr>cq_available_at := available_at,
                           cq_last_error := map_option (utf8_take MAX_ERROR_CHARS) error\<rparr>) db)
       (\<lambda>(_, db'). Inr ((), db'))"

definition release_code_match_claim ::
  "uuid \<Rightarrow> time \<Rightarrow> string \<Rightarrow> match_db \<Rightarrow> (unit \<times> match_db) result" where
  "release_code_match_claim claim_token available_at error db =
     result_bind
       (checked_update queue_row_ok (\<lambda>r. cq_claim_token r = Some claim_token)
          (\<lambda>r. (unclaim r)\<lparr>cq_available_at := available_at,
                           cq_last_error := Some (utf8_take MAX_ERROR_CHARS error)\<rparr>) (md_queue db))
       (\<lambda>rows. Inr ((), db\<lparr>md_queue := rows\<rparr>))"

section \<open>Invariant\<close>

definition queue_inv :: "match_db \<Rightarrow> bool" where
  "queue_inv db \<longleftrightarrow>
     distinct (map cq_report_id (md_queue db)) \<and> list_all queue_row_ok (md_queue db)
     \<and> distinct (map ch_report_id (md_hints db)) \<and> list_all hint_row_ok (md_hints db)
     \<and> list_all verification_row_ok (md_verifications db) \<and> list_all call_row_ok (md_calls db)"

definition queue_row_of :: "match_db \<Rightarrow> uuid \<Rightarrow> queue_row option" where
  "queue_row_of db k = find (\<lambda>r. cq_report_id r = k) (md_queue db)"

definition queue_holder :: "match_db \<Rightarrow> uuid \<Rightarrow> uuid option" where
  "queue_holder db k = Option.bind (queue_row_of db k) cq_claim_token"

definition hint_of :: "match_db \<Rightarrow> uuid \<Rightarrow> code_hint_row option" where
  "hint_of db k = find (\<lambda>r. ch_report_id r = k) (md_hints db)"

definition queue_view :: "match_db \<Rightarrow> uuid \<Rightarrow> queue_row option \<times> code_hint_row option" where
  "queue_view db k = (queue_row_of db k, hint_of db k)"

lemma queue_row_of_iff:
  "queue_inv db \<Longrightarrow> queue_row_of db k = Some r \<longleftrightarrow> r \<in> set (md_queue db) \<and> cq_report_id r = k"
  unfolding queue_row_of_def queue_inv_def by (simp add: find_key_iff)

lemma queue_holder_iff:
  "queue_inv db \<Longrightarrow> queue_holder db k = Some t \<longleftrightarrow> (\<exists>r \<in> set (md_queue db). owned k t r)"
  by (auto simp: queue_holder_def bind_eq_Some_conv queue_row_of_iff owned_def)

lemma owned_affected:
  assumes "queue_inv db"
  shows "rows_affected (owned k t) (md_queue db) = (if queue_holder db k = Some t then 1 else 0)"
proof -
  have "rows_affected (owned k t) (md_queue db) \<le> 1"
    using assms by (intro rows_affected_key [where k = cq_report_id]) (auto simp: queue_inv_def owned_def)
  moreover have "rows_affected (owned k t) (md_queue db) = 0 \<longleftrightarrow> queue_holder db k \<noteq> Some t"
    using assms by (auto simp: row_simps queue_holder_iff)
  ultimately show ?thesis by auto
qed

text \<open>One statement of a claim's owner: what it answers, what it keeps and which row it writes.\<close>

lemma fenced_update_spec:
  assumes inv: "queue_inv db" and key: "\<And>r. cq_report_id (f r) = cq_report_id r"
    and run: "fenced_update k t f db = Inr (b, db')"
  shows "queue_inv db'" and "b \<longleftrightarrow> queue_holder db k = Some t"
    and "queue_row_of db' j = map_option (\<lambda>r. if owned k t r then f r else r) (queue_row_of db j)"
    and "md_hints db' = md_hints db" and "md_verifications db' = md_verifications db"
    and "\<forall>r \<in> set (md_queue db). owned k t r \<longrightarrow> queue_row_ok (f r)"
proof -
  have b: "b \<longleftrightarrow> rows_affected (owned k t) (md_queue db) = 1"
    and db': "db' = db\<lparr>md_queue := update_where (owned k t) f (md_queue db)\<rparr>"
    and ok: "\<forall>r \<in> set (md_queue db). owned k t r \<longrightarrow> queue_row_ok (f r)"
    using run by (auto simp: fenced_update_def result_bind_Inr checked_update_Inr)
  have "map cq_report_id (md_queue db') = map cq_report_id (md_queue db)"
    using key by (simp add: db' update_where_keys)
  moreover have "list_all queue_row_ok (md_queue db')"
    using inv ok by (auto simp: db' queue_inv_def list_all_iff row_simps)
  ultimately show "queue_inv db'" using inv by (simp add: queue_inv_def db')
  show "b \<longleftrightarrow> queue_holder db k = Some t" using b inv by (simp add: owned_affected)
  show "queue_row_of db' j = map_option (\<lambda>r. if owned k t r then f r else r) (queue_row_of db j)"
    using key by (simp add: queue_row_of_def db' find_update_where_key)
  show "md_hints db' = md_hints db" "md_verifications db' = md_verifications db" by (simp_all add: db')
  show "\<forall>r \<in> set (md_queue db). owned k t r \<longrightarrow> queue_row_ok (f r)" by (fact ok)
qed

lemma fenced_update_reject:
  "queue_inv db \<Longrightarrow> queue_holder db k \<noteq> Some t \<Longrightarrow> fenced_update k t f db = Inr (False, db)"
  by (simp add: fenced_update_def checked_update_none queue_holder_iff owned_affected)

lemma fenced_update_holder:
  assumes "queue_inv db" and "\<And>r. cq_report_id (f r) = cq_report_id r"
    and "\<And>r. cq_claim_token (f r) = None \<or> cq_claim_token (f r) = cq_claim_token r"
    and "fenced_update k t f db = Inr (b, db')" and "queue_holder db' j = Some u"
  shows "queue_holder db j = Some u"
  using assms fenced_update_spec(3) [OF assms(1,2,4), of j]
  by (auto simp: queue_holder_def bind_eq_Some_conv split: if_split_asm) (metis option.distinct(1))

lemma fenced_update_view:
  assumes "queue_inv db" and "\<And>r. cq_report_id (f r) = cq_report_id r"
    and "fenced_update k t f db = Inr (b, db')" and "j \<noteq> k"
  shows "queue_view db' j = queue_view db j"
proof -
  have "map_option (\<lambda>r. if owned k t r then f r else r) (queue_row_of db j) = queue_row_of db j"
  proof (cases "queue_row_of db j")
    case (Some r)
    then have "\<not> owned k t r" using assms(1,4) by (auto simp: queue_row_of_iff owned_def)
    with Some show ?thesis by simp
  qed simp
  then show ?thesis
    using fenced_update_spec(3,4) [OF assms(1-3)] by (simp add: queue_view_def hint_of_def)
qed

lemma fenced_update_release:
  assumes "queue_inv db" and "\<And>r. cq_report_id (f r) = cq_report_id r"
    and "\<And>r. cq_claim_token (f r) = None"
    and "fenced_update k t f db = Inr (True, db')"
  shows "queue_holder db' k = None"
proof -
  have "queue_holder db k = Some t" using fenced_update_spec(2) [OF assms(1,2,4)] by simp
  then obtain r where r: "queue_row_of db k = Some r" "cq_claim_token r = Some t"
    by (auto simp: queue_holder_def bind_eq_Some_conv)
  then have "owned k t r" using assms(1) by (auto simp: queue_row_of_iff owned_def)
  with r have "queue_row_of db' k = Some (f r)"
    using fenced_update_spec(3) [OF assms(1,2,4), of k] by simp
  then show ?thesis by (simp add: queue_holder_def assms(3))
qed

text \<open>The settlement writes.\<close>

lemma upsert_hint_spec:
  assumes "distinct (map ch_report_id hs)" and "list_all hint_row_ok hs" and "hint_row_ok h"
  shows "distinct (map ch_report_id (upsert_hint h hs))" and "list_all hint_row_ok (upsert_hint h hs)"
    and "find (\<lambda>r. ch_report_id r = j) (upsert_hint h hs)
           = (if j = ch_report_id h then Some h else find (\<lambda>r. ch_report_id r = j) hs)"
proof -
  have "map ch_report_id (update_where (\<lambda>r. ch_report_id r = ch_report_id h) (\<lambda>_. h) hs)
      = map ch_report_id hs"
    by (intro update_where_keys) simp
  with assms(1) show "distinct (map ch_report_id (upsert_hint h hs))"
    by (auto simp: upsert_hint_def)
  show "list_all hint_row_ok (upsert_hint h hs)"
    using assms(2,3) by (auto simp: upsert_hint_def list_all_iff row_simps)
  have upd: "find (\<lambda>r. ch_report_id r = j) (update_where (\<lambda>r. ch_report_id r = ch_report_id h) (\<lambda>_. h) hs)
      = map_option (\<lambda>r. if ch_report_id r = ch_report_id h then h else r) (find (\<lambda>r. ch_report_id r = j) hs)"
    by (intro find_update_where_key) simp
  show "find (\<lambda>r. ch_report_id r = j) (upsert_hint h hs)
      = (if j = ch_report_id h then Some h else find (\<lambda>r. ch_report_id r = j) hs)"
  proof (cases "\<exists>r \<in> set hs. ch_report_id r = ch_report_id h")
    case True
    then have some: "find (\<lambda>r. ch_report_id r = ch_report_id h) hs \<noteq> None" by (auto simp: find_None_iff)
    show ?thesis
    proof (cases "find (\<lambda>r. ch_report_id r = j) hs")
      case (Some r)
      then have "ch_report_id r = j" by (auto dest: find_SomeD)
      with True upd Some show ?thesis by (auto simp: upsert_hint_def)
    qed (use True upd some in \<open>auto simp: upsert_hint_def\<close>)
  next
    case False
    then have "find (\<lambda>r. ch_report_id r = ch_report_id h) hs = None" by (auto simp: find_None_iff)
    with False show ?thesis by (auto simp: upsert_hint_def find_append split: option.split)
  qed
qed

lemma write_settlement_spec:
  assumes "queue_inv db"
    and "write_settlement i now k attempt sha hints outcome vo db = Inr db'"
  shows "queue_inv db'" and "md_queue db' = md_queue db"
    and "hint_of db' j = (if j = k then Some \<lparr>ch_report_id = k, ch_computed_at_sha = sha,
            ch_hints = hints, ch_outcome = Some outcome, ch_created_at = now\<rparr> else hint_of db j)"
    and "md_verifications db' = md_verifications db @ [\<lparr>cv_id = i, cv_report_id = k,
            cv_attempt = attempt, cv_computed_at_sha = sha, cv_outcome = vo\<rparr>]"
  using assms upsert_hint_spec
  by (auto simp: write_settlement_def Let_def queue_inv_def hint_of_def split: if_split_asm)

section \<open>The queue is a fenced lease\<close>

datatype lease_op =
    Complete uuid time code_match_completion
  | VerificationRetry verification_retry_request
  | ClearMarker
  | ResetEpisode
  | Terminal uuid time int string string
  | DeadLetter time string
  | Release time "string option"

fun lease_releases :: "lease_op \<Rightarrow> bool" where
  "lease_releases ClearMarker = False"
| "lease_releases ResetEpisode = False"
| "lease_releases _ = True"

fun lease_act :: "lease_op \<Rightarrow> uuid \<Rightarrow> uuid \<Rightarrow> match_db \<Rightarrow> (bool \<times> match_db) result" where
  "lease_act (Complete new_id now c) k t db = complete_code_match_job new_id now k t c db"
| "lease_act (VerificationRetry retry) k t db = release_code_match_for_verification_retry k t retry db"
| "lease_act ClearMarker k t db = clear_code_match_verification_retry_marker k t db"
| "lease_act ResetEpisode k t db = reset_code_match_verification_retry k t db"
| "lease_act (Terminal new_id now attempt sha reason) k t db =
     terminally_dead_letter_code_match_verification new_id now k t attempt sha reason db"
| "lease_act (DeadLetter now reason) k t db = dead_letter_code_match_job now k t reason db"
| "lease_act (Release available_at error) k t db =
     result_bind (release_code_match_job k t available_at error db)
       (\<lambda>(_, db'). Inr (queue_holder db k = Some t, db'))"

datatype queue_event =
    Enqueue time uuid uuid
  | ClaimBatch uuid time "uuid \<Rightarrow> bool" int time
  | ReleaseClaim uuid time string
  | RecordCall uuid uuid "int option" bool int
  | Remap github_db

fun queue_other :: "queue_event \<Rightarrow> match_db \<Rightarrow> match_db result" where
  "queue_other (Enqueue now report_id product_id) db =
     Inr (enqueue_code_match_if_mapped now report_id product_id db)"
| "queue_other (ClaimBatch token now locked limit stale_before) db =
     map_sum id snd (claim_code_match_batch token now locked limit stale_before db)"
| "queue_other (ReleaseClaim token available_at error) db =
     map_sum id snd (release_code_match_claim token available_at error db)"
| "queue_other (RecordCall new_id report_id headroom hit latency) db =
     map_sum id snd (record_code_match_call new_id report_id headroom hit latency db)"
| "queue_other (Remap g) db = Inr (db\<lparr>md_github := g\<rparr>)"

fun queue_grants :: "queue_event \<Rightarrow> uuid option" where
  "queue_grants (ClaimBatch token now locked limit stale_before) = Some token"
| "queue_grants _ = None"

definition fenced_effect ::
  "bool \<Rightarrow> uuid \<Rightarrow> uuid \<Rightarrow> bool \<Rightarrow> match_db \<Rightarrow> match_db \<Rightarrow> bool" where
  "fenced_effect releases k t b db db' \<longleftrightarrow>
     queue_inv db' \<and> (b \<longleftrightarrow> queue_holder db k = Some t)
     \<and> (releases \<and> b \<longrightarrow> queue_holder db' k = None)
     \<and> (\<forall>j u. queue_holder db' j = Some u \<longrightarrow> queue_holder db j = Some u)
     \<and> (\<forall>j. j \<noteq> k \<longrightarrow> queue_view db' j = queue_view db j)"

lemma fenced_update_effect:
  assumes "queue_inv db" and "\<And>r. cq_report_id (f r) = cq_report_id r"
    and "\<And>r. if rel then cq_claim_token (f r) = None else cq_claim_token (f r) = cq_claim_token r"
    and "fenced_update k t f db = Inr (b, db')"
  shows "fenced_effect rel k t b db db'"
proof -
  have tok: "cq_claim_token (f r) = None \<or> cq_claim_token (f r) = cq_claim_token r" for r
    using assms(3) [of r] by (auto split: if_split_asm)
  have "queue_holder db' k = None" if "rel" "b"
    using that assms by (intro fenced_update_release [OF assms(1,2)]) auto
  then show ?thesis
    using fenced_update_spec(1,2) [OF assms(1,2,4)] fenced_update_holder [OF assms(1,2) tok assms(4)]
      fenced_update_view [OF assms(1,2,4)]
    by (auto simp: fenced_effect_def)
qed

lemma settlement_effect:
  assumes "queue_inv db" and "write_settlement i now k attempt sha hints outcome vo db = Inr db1"
  shows "queue_inv db1" and "queue_row_of db1 = queue_row_of db"
    and "queue_holder db1 = queue_holder db" and "j \<noteq> k \<Longrightarrow> queue_view db1 j = queue_view db j"
  using write_settlement_spec(1,2,3) [OF assms]
  by (auto simp: queue_row_of_def queue_holder_def queue_view_def fun_eq_iff)

lemma complete_effect:
  assumes inv: "queue_inv db" and run: "complete_code_match_job i now k t c db = Inr (b, db')"
  shows "fenced_effect True k t b db db'"
proof (cases "queue_holder db k = Some t")
  case False
  with run inv show ?thesis
    by (auto simp: complete_code_match_job_def owned_affected fenced_effect_def)
next
  case True
  with run inv obtain db1 where
    w: "write_settlement i now k (cc_attempt c) (cc_computed_at_sha c) (cc_hints c) (cc_outcome c)
          (cc_verification c) db = Inr db1"
    and db': "db' = db1\<lparr>md_queue := delete_where (owned k t) (md_queue db1)\<rparr>" and b
    by (auto simp: complete_code_match_job_def owned_affected result_bind_Inr)
  note s = settlement_effect [OF inv w]
  have inv': "queue_inv db'"
    using s(1) by (auto simp: db' queue_inv_def delete_where_distinct list_all_iff row_simps)
  have row: "queue_row_of db' j = Some r \<longleftrightarrow> queue_row_of db j = Some r \<and> \<not> owned k t r" for j r
    using inv' s(1) by (simp flip: s(2) add: queue_row_of_iff) (auto simp: db' row_simps)
  have "queue_row_of db' k = None"
  proof (rule ccontr)
    assume "queue_row_of db' k \<noteq> None"
    then obtain r where "queue_row_of db k = Some r" "\<not> owned k t r" using row by auto
    with True inv show False by (auto simp: queue_holder_def queue_row_of_iff owned_def)
  qed
  moreover have "queue_row_of db' j = queue_row_of db j" if "j \<noteq> k" for j
  proof (rule option_eqI)
    fix r
    have "queue_row_of db j = Some r \<Longrightarrow> \<not> owned k t r"
      using that inv by (auto simp: queue_row_of_iff owned_def)
    then show "queue_row_of db' j = Some r \<longleftrightarrow> queue_row_of db j = Some r" using row by blast
  qed
  moreover have "hint_of db' j = hint_of db1 j" for j by (simp add: hint_of_def db')
  ultimately show ?thesis
    using inv' s(4) \<open>b\<close> True row s(2)
    by (auto simp: fenced_effect_def queue_holder_def queue_view_def bind_eq_Some_conv)
qed

lemma terminal_effect:
  assumes inv: "queue_inv db"
    and run: "terminally_dead_letter_code_match_verification i now k t attempt sha reason db = Inr (b, db')"
  shows "fenced_effect True k t b db db'"
proof (cases "queue_holder db k = Some t")
  case False
  with run inv show ?thesis
    by (auto simp: terminally_dead_letter_code_match_verification_def owned_affected fenced_effect_def)
next
  case True
  with run inv obtain f b1 db1 where u: "fenced_update k t f db = Inr (b1, db1)"
    and f: "f = (\<lambda>r. (clear_episode (unclaim r))\<lparr>cq_dead_lettered_at := Some now,
                 cq_last_error := Some (utf8_take MAX_ERROR_CHARS reason)\<rparr>)"
    and w: "write_settlement i now k attempt sha (JArr []) ''terminal_unverifiable''
             \<lparr>vo_candidates_seen = 0, vo_dropped_as_absent = 0, vo_kept_verified = 0,
              vo_kept_unverified = 0\<rparr> db1 = Inr db'" and b
    by (auto simp: terminally_dead_letter_code_match_verification_def owned_affected result_bind_Inr)
  have e: "fenced_effect True k t b1 db db1"
    by (rule fenced_update_effect [OF inv _ _ u]) (simp_all add: f clear_episode_def unclaim_def)
  then have inv1: "queue_inv db1" by (simp add: fenced_effect_def)
  show ?thesis
    using e settlement_effect [OF inv1 w] \<open>b\<close> True by (auto simp: fenced_effect_def)
qed

lemma lease_act_effect:
  assumes inv: "queue_inv db" and run: "lease_act a k t db = Inr (b, db')"
  shows "fenced_effect (lease_releases a) k t b db db'"
proof (cases a)
  case (Complete i now c)
  then show ?thesis using complete_effect [OF inv] run by simp
next
  case (VerificationRetry retry)
  show ?thesis
    unfolding VerificationRetry lease_releases.simps
    by (rule fenced_update_effect
        [OF inv _ _ run [unfolded VerificationRetry lease_act.simps
            release_code_match_for_verification_retry_def]];
        cases "vr_target retry"; simp add: unclaim_def)
next
  case ClearMarker
  show ?thesis
    unfolding ClearMarker lease_releases.simps
    by (rule fenced_update_effect
        [OF inv _ _ run [unfolded ClearMarker lease_act.simps
            clear_code_match_verification_retry_marker_def]]) simp_all
next
  case ResetEpisode
  show ?thesis
    unfolding ResetEpisode lease_releases.simps
    by (rule fenced_update_effect
        [OF inv _ _ run [unfolded ResetEpisode lease_act.simps
            reset_code_match_verification_retry_def]]) (simp_all add: clear_episode_def)
next
  case (Terminal i now attempt sha reason)
  then show ?thesis using terminal_effect [OF inv] run by simp
next
  case (DeadLetter now reason)
  show ?thesis
    unfolding DeadLetter lease_releases.simps
    by (rule fenced_update_effect
        [OF inv _ _ run [unfolded DeadLetter lease_act.simps dead_letter_code_match_job_def]])
      (simp_all add: unclaim_def)
next
  case (Release available_at error)
  then obtain b1 where u: "fenced_update k t (\<lambda>r. (unclaim r)\<lparr>cq_available_at := available_at,
      cq_last_error := map_option (utf8_take MAX_ERROR_CHARS) error\<rparr>) db = Inr (b1, db')"
    and b: "b \<longleftrightarrow> queue_holder db k = Some t"
    using run by (auto simp: release_code_match_job_def result_bind_Inr)
  have "fenced_effect True k t b1 db db'"
    by (rule fenced_update_effect [OF inv _ _ u]) (simp_all add: unclaim_def)
  moreover have "b1 = b"
    using fenced_update_spec(2) [OF inv _ u] b by (simp add: unclaim_def)
  ultimately show ?thesis unfolding Release lease_releases.simps by simp
qed

lemma lease_act_reject:
  assumes "queue_inv db" and "queue_holder db k \<noteq> Some t"
  shows "lease_act a k t db = Inr (False, db)"
  using assms
  by (cases a) (simp_all add: complete_code_match_job_def owned_affected
      release_code_match_for_verification_retry_def clear_code_match_verification_retry_marker_def
      reset_code_match_verification_retry_def terminally_dead_letter_code_match_verification_def
      dead_letter_code_match_job_def release_code_match_job_def fenced_update_reject)

lemma claim_code_match_batch_Inr:
  assumes "claim_code_match_batch token now locked limit stale_before db = Inr (jobs, db')" and "0 < limit"
  obtains rows ids where
    "rows = update_where (stale_claim stale_before) unclaim (md_queue db)"
    and "ids = claimable_ids now locked (nat limit) rows"
    and "db' = db\<lparr>md_queue := update_where (\<lambda>r. cq_report_id r \<in> set ids) (claim_row token now) rows\<rparr>"
    and "jobs = claimed_jobs token db'"
    and "\<forall>r \<in> set (md_queue db). stale_claim stale_before r \<longrightarrow> queue_row_ok (unclaim r)"
    and "\<forall>r \<in> set rows. cq_report_id r \<in> set ids \<longrightarrow> queue_row_ok (claim_row token now r)"
  using assms
  by (auto simp: claim_code_match_batch_def result_bind_Inr checked_update_Inr Let_def)

lemma claim_keys:
  "map cq_report_id (update_where p unclaim rows) = map cq_report_id rows"
  "map cq_report_id (update_where p (claim_row token now) rows) = map cq_report_id rows"
  by (simp_all add: update_where_keys unclaim_def claim_row_def)

lemma claim_effect:
  assumes inv: "queue_inv db"
    and run: "claim_code_match_batch token now locked limit stale_before db = Inr (jobs, db')"
  shows "queue_inv db'"
    and "queue_holder db' j = Some u \<Longrightarrow> queue_holder db j = Some u \<or> u = token"
proof -
  have "queue_inv db' \<and> (queue_holder db' j = Some u \<longrightarrow> queue_holder db j = Some u \<or> u = token)"
  proof (cases "0 < limit")
    case False
    with run inv show ?thesis by (simp add: claim_code_match_batch_def)
  next
    case True
    from claim_code_match_batch_Inr [OF run True] obtain rows ids where
      rows: "rows = update_where (stale_claim stale_before) unclaim (md_queue db)"
      and db': "db' = db\<lparr>md_queue := update_where (\<lambda>r. cq_report_id r \<in> set ids) (claim_row token now) rows\<rparr>"
      and ok: "\<forall>r \<in> set (md_queue db). stale_claim stale_before r \<longrightarrow> queue_row_ok (unclaim r)"
        "\<forall>r \<in> set rows. cq_report_id r \<in> set ids \<longrightarrow> queue_row_ok (claim_row token now r)"
      by metis
    have q: "md_queue db' = update_where (\<lambda>r. cq_report_id r \<in> set ids) (claim_row token now) rows"
      by (simp add: db')
    have "list_all queue_row_ok rows"
      using ok(1) inv by (auto simp: rows queue_inv_def list_all_iff row_simps)
    then have "list_all queue_row_ok (md_queue db')"
      using ok(2) by (auto simp: q list_all_iff row_simps)
    moreover have "map cq_report_id (md_queue db') = map cq_report_id (md_queue db)"
      by (simp add: q rows claim_keys)
    ultimately have inv': "queue_inv db'" using inv by (simp add: queue_inv_def db')
    moreover have "\<exists>r \<in> set (md_queue db). owned j u r" if "u \<noteq> token" "owned j u r" "r \<in> set (md_queue db')" for r
      using that by (auto simp: q rows row_simps owned_def claim_row_def unclaim_def)
    ultimately show ?thesis using inv by (auto simp: queue_holder_iff)
  qed
  then show "queue_inv db'" and "queue_holder db' j = Some u \<Longrightarrow> queue_holder db j = Some u \<or> u = token"
    by auto
qed

lemma new_row_ok:
  "queue_row_ok \<lparr>cq_report_id = k, cq_product_id = p, cq_enqueued_at = now,
     cq_available_at = now, cq_claimed_at = None, cq_claim_token = None,
     cq_attempts = 0, cq_dead_lettered_at = None, cq_last_error = None,
     cq_retry_sha = None, cq_retry_repo = None, cq_retry_count = 0,
     cq_retry_reason = None, cq_content_sha = None, cq_content_repo = None,
     cq_file = None, cq_required_content = None, cq_candidates = None\<rparr>"
  by (simp add: queue_row_ok_def content_retry_check_def sql_check_def sql_all_false i32_max_def
      is_null_def sql_test_def)

lemma enqueue_effect:
  assumes inv: "queue_inv db"
  shows "queue_inv (enqueue_code_match_if_mapped now k p db)"
    and "queue_holder (enqueue_code_match_if_mapped now k p db) j = queue_holder db j"
  using inv new_row_ok
  by (auto simp: enqueue_code_match_if_mapped_def queue_inv_def queue_holder_def queue_row_of_def
      find_append bind_eq_Some_conv split: option.split)

lemma release_claim_effect:
  assumes inv: "queue_inv db" and run: "release_code_match_claim t available_at error db = Inr (x, db')"
  shows "queue_inv db'" and "queue_holder db' j = Some u \<Longrightarrow> queue_holder db j = Some u"
proof -
  from run obtain f where q: "db' = db\<lparr>md_queue := update_where (\<lambda>r. cq_claim_token r = Some t) f (md_queue db)\<rparr>"
    and ok: "\<forall>r \<in> set (md_queue db). cq_claim_token r = Some t \<longrightarrow> queue_row_ok (f r)"
    and f: "f = (\<lambda>r. (unclaim r)\<lparr>cq_available_at := available_at,
                           cq_last_error := Some (utf8_take MAX_ERROR_CHARS error)\<rparr>)"
    by (auto simp: release_code_match_claim_def result_bind_Inr checked_update_Inr)
  have "map cq_report_id (md_queue db') = map cq_report_id (md_queue db)"
    by (simp add: q f unclaim_def update_where_keys)
  moreover have "list_all queue_row_ok (md_queue db')"
    using inv ok by (auto simp: q queue_inv_def list_all_iff row_simps)
  ultimately show inv': "queue_inv db'" using inv by (simp add: queue_inv_def q)
  assume "queue_holder db' j = Some u"
  then show "queue_holder db j = Some u"
    using inv inv' by (auto simp: queue_holder_iff q f row_simps owned_def unclaim_def)
qed

lemma queue_other_effect:
  assumes inv: "queue_inv db" and run: "queue_other e db = Inr db'"
  shows "queue_inv db' \<and> (queue_holder db' j = Some u \<longrightarrow> queue_holder db j = Some u \<or> queue_grants e = Some u)"
proof (cases e)
  case (Enqueue now k p)
  with run inv enqueue_effect show ?thesis by auto
next
  case (ClaimBatch token now locked limit stale_before)
  with run obtain jobs where
    "claim_code_match_batch token now locked limit stale_before db = Inr (jobs, db')"
    by (cases "claim_code_match_batch token now locked limit stale_before db") auto
  note e = claim_effect [OF inv this]
  show ?thesis using e(1) e(2) [of j u] ClaimBatch by auto
next
  case (ReleaseClaim token available_at error)
  with run obtain x where "release_code_match_claim token available_at error db = Inr (x, db')"
    by (cases "release_code_match_claim token available_at error db") auto
  with release_claim_effect [OF inv] show ?thesis by auto
next
  case (RecordCall i k headroom hit latency)
  with run inv show ?thesis
    by (auto simp: record_code_match_call_def Let_def queue_inv_def queue_holder_def queue_row_of_def
        split: if_splits)
next
  case (Remap g)
  with run inv show ?thesis
    by (auto simp: queue_inv_def queue_holder_def queue_row_of_def)
qed

interpretation cq: fenced_lease queue_inv queue_holder queue_view lease_act lease_releases
  queue_other queue_grants
proof
  fix db k t a b db'
  assume inv: "queue_inv db"
  show "queue_holder db k \<noteq> Some t \<Longrightarrow> lease_act a k t db = Inr (False, db)"
    using inv by (rule lease_act_reject)
  assume "lease_act a k t db = Inr (b, db')"
  note e = lease_act_effect [OF inv this]
  show "queue_holder db k = Some t \<Longrightarrow> b" using e by (simp add: fenced_effect_def)
  show "queue_inv db'" using e by (simp add: fenced_effect_def)
  show "queue_holder db' j = Some u \<Longrightarrow> queue_holder db j = Some u" for j u
    using e by (simp add: fenced_effect_def)
  show "j \<noteq> k \<Longrightarrow> queue_view db' j = queue_view db j" for j
    using e by (simp add: fenced_effect_def)
next
  fix db k t a db'
  assume "queue_inv db" and "lease_releases a" and "lease_act a k t db = Inr (True, db')"
  then show "queue_holder db' k = None"
    using lease_act_effect by (metis fenced_effect_def)
next
  fix db db' ev j u
  assume "queue_inv db" and "queue_other ev db = Inr db'"
  note e = queue_other_effect [OF this]
  show "queue_inv db'" using e by blast
  show "queue_holder db' j = Some u \<Longrightarrow> queue_holder db j = Some u \<or> queue_grants ev = Some u"
    using e by blast
qed

section \<open>The claim\<close>

definition claim_key :: "queue_row \<Rightarrow> time \<times> time \<times> uuid" where
  "claim_key r = (cq_enqueued_at r, cq_available_at r, cq_report_id r)"

definition eligible :: "time \<Rightarrow> (uuid \<Rightarrow> bool) \<Rightarrow> time \<Rightarrow> queue_row \<Rightarrow> bool" where
  "eligible now locked stale_before r \<longleftrightarrow>
     cq_dead_lettered_at r = None \<and> cq_available_at r \<le> now \<and> \<not> locked (cq_report_id r)
     \<and> (cq_claimed_at r = None \<or> stale_claim stale_before r)"

definition unstale :: "time \<Rightarrow> queue_row \<Rightarrow> queue_row" where
  "unstale stale_before r = (if stale_claim stale_before r then unclaim r else r)"

lemma unstale_simps [simp]:
  "cq_report_id (unstale sb r) = cq_report_id r" "claim_key (unstale sb r) = claim_key r"
  "cq_attempts (unstale sb r) = cq_attempts r"
  by (simp_all add: unstale_def unclaim_def claim_key_def)

lemma claimable_unstale:
  "claimable now (unstale sb r) \<and> \<not> locked (cq_report_id r) \<longleftrightarrow> eligible now locked sb r"
  by (auto simp: claimable_def unstale_def unclaim_def eligible_def stale_claim_def)

lemma claimable_ids_eq:
  "claimable_ids now locked n (map (unstale sb) rows) =
     map cq_report_id (take n (sort_key claim_key (filter (eligible now locked sb) rows)))"
proof -
  have f: "filter (\<lambda>r. claimable now r \<and> \<not> locked (cq_report_id r)) (map (unstale sb) rows)
      = map (unstale sb) (filter (eligible now locked sb) rows)"
    by (simp add: filter_map o_def claimable_unstale)
  have k: "(\<lambda>r. (cq_enqueued_at r, cq_available_at r, cq_report_id r)) = claim_key"
    by (simp add: fun_eq_iff claim_key_def)
  have "sort_key claim_key (map (unstale sb) xs) = map (unstale sb) (sort_key claim_key xs)" for xs
  proof -
    have "insort_key claim_key (unstale sb x) (map (unstale sb) ys) = map (unstale sb) (insort_key claim_key x ys)"
      for x ys by (induction ys) auto
    then show ?thesis by (induction xs) simp_all
  qed
  then show ?thesis by (simp add: claimable_ids_def f k take_map o_def)
qed

text \<open>On rows with distinct keys, the first \<open>n\<close> of the sorted ones are the smallest.\<close>

lemma take_sorted_least:
  assumes "distinct (map k xs)" and "x \<in> set xs" and "k x \<notin> k ` set (take n (sort_key f xs))"
  shows "length (take n (sort_key f xs)) = n" and "\<forall>y \<in> set (take n (sort_key f xs)). f y \<le> f x"
proof -
  let ?s = "sort_key f xs"
  have "x \<in> set ?s" using assms(2) by simp
  then have x: "x \<in> set (drop n ?s)"
    using assms(3) by (metis UnE append_take_drop_id imageI set_append)
  then show "length (take n ?s) = n" by (cases "n \<le> length ?s") auto
  have "sorted (map f (take n ?s @ drop n ?s))" by simp
  then show "\<forall>y \<in> set (take n ?s). f y \<le> f x"
    using x by (simp only: map_append sorted_append) auto
qed

lemma claim_rows:
  assumes inv: "queue_inv db" and "0 < limit"
    and run: "claim_code_match_batch token now locked limit sb db = Inr (jobs, db')"
    and fresh: "\<forall>k. queue_holder db k \<noteq> Some token"
  defines "chosen \<equiv> take (nat limit) (sort_key claim_key (filter (eligible now locked sb) (md_queue db)))"
  shows "queue_holder db' k = Some token \<longleftrightarrow> k \<in> cq_report_id ` set chosen"
    and "r \<in> set chosen \<Longrightarrow> queue_row_of db (cq_report_id r) = Some r
           \<and> queue_row_of db' (cq_report_id r) = Some (claim_row token now (unstale sb r))"
    and "distinct (map cq_report_id chosen)"
proof -
  have rows: "update_where (stale_claim sb) unclaim (md_queue db) = map (unstale sb) (md_queue db)"
    by (simp add: update_where_def unstale_def fun_eq_iff)
  have ids: "claimable_ids now locked (nat limit) (map (unstale sb) (md_queue db)) = map cq_report_id chosen"
    by (simp add: claimable_ids_eq chosen_def)
  have db': "md_queue db' = update_where (\<lambda>r. cq_report_id r \<in> cq_report_id ` set chosen)
      (claim_row token now) (map (unstale sb) (md_queue db))"
    by (rule claim_code_match_batch_Inr [OF run assms(2)]) (simp add: rows ids)
  have inv': "queue_inv db'" using claim_effect(1) [OF inv run] .
  have row': "queue_row_of db' k = map_option
      (\<lambda>r. if k \<in> cq_report_id ` set chosen then claim_row token now (unstale sb r) else unstale sb r)
      (queue_row_of db k)" for k
  proof -
    have "find (\<lambda>r. cq_report_id r = k) (map (unstale sb) xs)
        = map_option (unstale sb) (find (\<lambda>r. cq_report_id r = k) xs)" for xs
      by (induction xs) auto
    moreover have "find (\<lambda>r. cq_report_id r = k) (md_queue db') = map_option
        (\<lambda>r. if cq_report_id r \<in> cq_report_id ` set chosen then claim_row token now r else r)
        (find (\<lambda>r. cq_report_id r = k) (map (unstale sb) (md_queue db)))"
      unfolding db' by (rule find_update_where_key) (simp add: claim_row_def)
    ultimately show ?thesis
      by (cases "queue_row_of db k")
        (auto simp: queue_row_of_def simp del: image_iff dest: find_SomeD)
  qed
  have sub: "set chosen \<subseteq> set (md_queue db)"
    by (auto simp: chosen_def dest: in_set_takeD)
  have row: "queue_row_of db (cq_report_id r) = Some r" if "r \<in> set chosen" for r
    using that sub inv by (auto simp: queue_row_of_iff)
  have d: "distinct (map cq_report_id (sort_key claim_key (filter (eligible now locked sb) (md_queue db))))"
    using inv by (simp add: queue_inv_def distinct_map inj_on_def)
  then show "distinct (map cq_report_id chosen)"
    by (simp add: chosen_def flip: take_map)
  show "r \<in> set chosen \<Longrightarrow> queue_row_of db (cq_report_id r) = Some r
           \<and> queue_row_of db' (cq_report_id r) = Some (claim_row token now (unstale sb r))"
    by (simp add: row row')
  show "queue_holder db' k = Some token \<longleftrightarrow> k \<in> cq_report_id ` set chosen"
  proof
    assume "k \<in> cq_report_id ` set chosen"
    then show "queue_holder db' k = Some token"
      by (auto simp: queue_holder_def row' row claim_row_def)
  next
    assume h: "queue_holder db' k = Some token"
    show "k \<in> cq_report_id ` set chosen"
    proof (rule ccontr)
      assume "k \<notin> cq_report_id ` set chosen"
      with h obtain old where "queue_row_of db k = Some old" "cq_claim_token (unstale sb old) = Some token"
        by (auto simp: queue_holder_def row' bind_eq_Some_conv)
      then have "queue_holder db k = Some token"
        by (auto simp: queue_holder_def unstale_def unclaim_def split: if_splits)
      with fresh show False by blast
    qed
  qed
qed

section \<open>Properties\<close>

text \<open>
  C1.  However the statements of any number of workers interleave with enqueues, claims,
  stale-claim recovery and mapping changes, a claim of a report (one fresh token) is settled,
  released or dead-lettered by its owner at most once, and every table keeps its keys and
  \<open>CHECK\<close> constraints.
\<close>

theorem claim_is_settled_at_most_once:
  assumes "queue_inv db" and "distinct (grants_of queue_grants evs)"
    and "queue_holder db k = Some t \<longrightarrow> t \<notin> set (grants_of queue_grants evs)"
  shows "settlements lease_releases k t evs (fst (run_leases lease_act queue_other evs db)) \<le> 1
    \<and> queue_inv (snd (run_leases lease_act queue_other evs db))"
  using cq.one_settlement [OF assms] cq.run_inv [OF assms(1)] by blast

definition match_db0 :: match_db where
  "match_db0 = \<lparr>md_queue = [], md_hints = [], md_verifications = [], md_calls = [],
     md_reports = [\<lparr>rv_id = 3, rv_workspace_id = 7, rv_operation = ''GET /users'',
        rv_surface = ''api'', rv_runtime_hint = None, rv_findings = JArr []\<rparr>],
     md_github = github_db2\<rparr>"

lemma match_db0_inv: "queue_inv match_db0"
  by (simp add: match_db0_def queue_inv_def)

definition sha0 :: string where
  "sha0 = replicate 40 (CHR ''a'')"

definition queue_events0 :: "(lease_op, uuid, uuid, queue_event) lease_event list" where
  "queue_events0 =
     [Other (Enqueue 0 3 1), Other (ClaimBatch 50 10 (\<lambda>_. False) 20 0),
      Other (ClaimBatch 51 100 (\<lambda>_. False) 20 90),
      Act (DeadLetter 101 ''late'') 3 50,
      Act (Terminal 900 102 2 sha0 ''gone'') 3 51, Act (Release 103 None) 3 51]"

lemma queue_events0_run:
  "settlements lease_releases 3 51 queue_events0
       (fst (run_leases lease_act queue_other queue_events0 match_db0)) = 1
   \<and> fst (run_leases lease_act queue_other queue_events0 match_db0)
       = [False, False, False, False, True, False]"
  by code_simp

theorem claim_is_settled_at_most_once_witness:
  "settlements lease_releases 3 51 queue_events0
       (fst (run_leases lease_act queue_other queue_events0 match_db0)) = 1
   \<and> queue_inv (snd (run_leases lease_act queue_other queue_events0 match_db0))"
proof -
  have "distinct (grants_of queue_grants queue_events0)"
    and "queue_holder match_db0 3 = Some 51 \<longrightarrow> 51 \<notin> set (grants_of queue_grants queue_events0)"
    by (simp_all add: queue_events0_def match_db0_def queue_holder_def queue_row_of_def)
  then show ?thesis
    using claim_is_settled_at_most_once [OF match_db0_inv] queue_events0_run by blast
qed

text \<open>
  A worker that lost its claims (its token is on none of the rows it still writes to)
  answers false to every one of its writes and leaves every table exactly as it was.
\<close>

theorem stale_worker_changes_nothing:
  assumes "queue_inv db"
    and "\<forall>(a, k) \<in> set acts. queue_holder db k \<noteq> Some t"
  shows "run_leases lease_act queue_other (map (\<lambda>(a, k). Act a k t) acts) db
    = (replicate (length acts) False, db)"
  using cq.stale_run [OF assms(1), of "map (\<lambda>(a, k). Act a k t) acts"] assms(2) by fastforce

theorem stale_worker_changes_nothing_witness:
  "run_leases lease_act queue_other
     (map (\<lambda>(a, k). Act a k 51) [(DeadLetter 101 ''late'', 3), (ClearMarker, 4)]) match_db0
   = ([False, False], match_db0)"
  using stale_worker_changes_nothing [OF match_db0_inv, of "[(DeadLetter 101 ''late'', 3), (ClearMarker, 4)]" 51]
  by (simp add: match_db0_def queue_holder_def queue_row_of_def numeral_2_eq_2)

text \<open>
  C27.  A claim takes the oldest eligible jobs: it takes at most \<open>limit\<close> rows, each of them
  live, available, not locked and unclaimed or held by a stale claim; it charges each exactly one
  attempt; and an eligible row is left behind only when the batch is full of rows that precede it
  in the order of enqueueing.
\<close>

theorem claim_takes_the_oldest_eligible:
  assumes "queue_inv db" and "0 < limit" and "\<forall>k. queue_holder db k \<noteq> Some token"
    and "claim_code_match_batch token now locked limit stale_before db = Inr (jobs, db')"
  shows "card {k. queue_holder db' k = Some token} \<le> nat limit
    \<and> (\<forall>k r. queue_holder db' k = Some token \<and> queue_row_of db k = Some r \<longrightarrow>
         eligible now locked stale_before r
         \<and> map_option cq_attempts (queue_row_of db' k) = Some (cq_attempts r + 1))
    \<and> (\<forall>k r. queue_row_of db k = Some r \<and> eligible now locked stale_before r
         \<and> queue_holder db' k \<noteq> Some token \<longrightarrow>
         card {j. queue_holder db' j = Some token} = nat limit
         \<and> (\<forall>j s. queue_holder db' j = Some token \<and> queue_row_of db j = Some s
              \<longrightarrow> claim_key s \<le> claim_key r))"
proof -
  let ?el = "filter (eligible now locked stale_before) (md_queue db)"
  define chosen where "chosen = take (nat limit) (sort_key claim_key ?el)"
  note c = claim_rows [OF assms(1,2,4,3), folded chosen_def]
  have held: "{k. queue_holder db' k = Some token} = set (map cq_report_id chosen)"
    using c(1) by auto
  then have card: "card {k. queue_holder db' k = Some token} = length chosen"
    using distinct_card [OF c(3)] by simp
  have in_chosen: "r \<in> set chosen" if "queue_holder db' k = Some token" "queue_row_of db k = Some r" for k r
    using that c(1,2) by fastforce
  have left: "length chosen = nat limit \<and> (\<forall>s \<in> set chosen. claim_key s \<le> claim_key r)"
    if "queue_row_of db k = Some r" "eligible now locked stale_before r"
       "queue_holder db' k \<noteq> Some token" for k r
  proof -
    have r: "r \<in> set ?el" "cq_report_id r = k" using that assms(1) by (auto simp: queue_row_of_iff)
    have d: "distinct (map cq_report_id ?el)"
      using assms(1) by (auto simp: queue_inv_def distinct_map_filter)
    have "cq_report_id r \<notin> cq_report_id ` set chosen" using c(1) that r by auto
    then show ?thesis
      using take_sorted_least [OF d r(1)] unfolding chosen_def by blast
  qed
  have "length chosen \<le> nat limit" by (simp add: chosen_def)
  moreover have "eligible now locked stale_before r" if "r \<in> set chosen" for r
    using that by (auto simp: chosen_def dest: in_set_takeD)
  moreover have "map_option cq_attempts (queue_row_of db' k) = Some (cq_attempts r + 1)"
    if "queue_holder db' k = Some token" "queue_row_of db k = Some r" for k r
    using c(2) [OF in_chosen [OF that]] that assms(1) by (auto simp: queue_row_of_iff claim_row_def)
  ultimately show ?thesis using in_chosen left card by auto
qed

definition match_db1 :: match_db where
  "match_db1 = enqueue_code_match_if_mapped 1 4 1 (enqueue_code_match_if_mapped 0 3 1 match_db0)"

lemma match_db1_inv: "queue_inv match_db1"
  by (simp add: match_db1_def enqueue_effect match_db0_inv)

definition claimed0 :: "(code_match_job list \<times> match_db) result" where
  "claimed0 = claim_code_match_batch 50 10 (\<lambda>_. False) 1 0 match_db1"

lemma claimed0_run:
  "(case claimed0 of Inl e \<Rightarrow> False
    | Inr (jobs, db') \<Rightarrow> queue_holder db' 3 = Some 50 \<and> queue_holder db' 4 = None)
   \<and> map_option cq_report_id (queue_row_of match_db1 3) = Some 3
   \<and> map_option (eligible 10 (\<lambda>_. False) 0) (queue_row_of match_db1 4) = Some True
   \<and> list_all (\<lambda>r. cq_claim_token r = None) (md_queue match_db1)"
  by code_simp

lemma match_db1_free: "\<forall>k. queue_holder match_db1 k \<noteq> Some token"
  using claimed0_run
  by (auto simp: queue_holder_def queue_row_of_def list_all_iff bind_eq_Some_conv dest!: find_SomeD)

theorem claim_takes_the_oldest_eligible_witness:
  "\<exists>jobs db' s r. claimed0 = Inr (jobs, db') \<and> queue_holder db' 3 = Some 50
     \<and> queue_row_of match_db1 3 = Some s \<and> queue_row_of match_db1 4 = Some r
     \<and> card {k. queue_holder db' k = Some 50} = 1 \<and> claim_key s \<le> claim_key r"
proof -
  obtain jobs db' where run: "claimed0 = Inr (jobs, db')" and h: "queue_holder db' 3 = Some 50"
    "queue_holder db' 4 = None"
    using claimed0_run by (auto split: sum.splits)
  obtain s r where rows: "queue_row_of match_db1 3 = Some s" "queue_row_of match_db1 4 = Some r"
    "eligible 10 (\<lambda>_. False) 0 r"
    using claimed0_run by auto
  have "card {k. queue_holder db' k = Some 50} = nat 1 \<and> claim_key s \<le> claim_key r"
    using claim_takes_the_oldest_eligible
      [OF match_db1_inv _ match_db1_free run [unfolded claimed0_def]] rows h
    by (metis option.distinct(1) zero_less_one)
  with run rows h show ?thesis by auto
qed

text \<open>
  A verification retry gives back the attempt its claim was charged: after claiming a
  job and releasing it for verification, the attempt count is what it was, only the bounded
  verification counter may have moved, and the job can be claimed again from the retry time on.
\<close>

theorem verification_retry_refunds_the_attempt:
  assumes "queue_inv db" and "0 < limit" and "\<forall>k. queue_holder db k \<noteq> Some token"
    and "claim_code_match_batch token now locked limit stale_before db = Inr (jobs, db1)"
    and "queue_row_of db k = Some r" and "queue_holder db1 k = Some token"
    and "release_code_match_for_verification_retry k token retry db1 = Inr (b, db2)"
  shows "b \<and> (\<exists>r2. queue_row_of db2 k = Some r2 \<and> cq_attempts r2 = cq_attempts r
      \<and> cq_retry_count r2 = cq_retry_count r + (if vr_counts_toward_ceiling retry then 1 else 0)
      \<and> queue_holder db2 k = None
      \<and> (\<forall>now' locked' sb'. vr_available_at retry \<le> now' \<and> \<not> locked' k
            \<longrightarrow> eligible now' locked' sb' r2))"
proof -
  define chosen where
    "chosen = take (nat limit) (sort_key claim_key (filter (eligible now locked stale_before) (md_queue db)))"
  note c = claim_rows [OF assms(1,2,4,3), folded chosen_def]
  obtain s where s: "s \<in> set chosen" "cq_report_id s = k" using c(1) assms(6) by auto
  with c(2) assms(5) have "s = r" by fastforce
  with s have r: "r \<in> set chosen" "cq_report_id r = k" by auto
  have rq: "r \<in> set (md_queue db)" using assms(1,5) by (auto simp: queue_row_of_iff)
  have live: "cq_dead_lettered_at r = None"
    using r(1) by (auto simp: chosen_def eligible_def dest: in_set_takeD)
  have nonneg: "0 \<le> cq_attempts r"
    using assms(1) rq by (auto simp: queue_inv_def list_all_iff queue_row_ok_def)
  define r1 where "r1 = claim_row token now (unstale stale_before r)"
  have row1: "queue_row_of db1 k = Some r1" using c(2) [OF r(1)] r(2) by (simp add: r1_def)
  have inv1: "queue_inv db1" using claim_effect(1) [OF assms(1,4)] .
  have own: "owned k token r1" using row1 inv1 by (auto simp: queue_row_of_iff owned_def r1_def claim_row_def)
  obtain f where f: "f = (\<lambda>r. (retry_columns (vr_target retry) (unclaim r))
          \<lparr>cq_retry_count := cq_retry_count r + (if vr_counts_toward_ceiling retry then 1 else 0),
           cq_available_at := vr_available_at retry,
           cq_last_error := Some (utf8_take MAX_ERROR_CHARS (vr_error retry)),
           cq_attempts := max (cq_attempts r - 1) 0\<rparr>)" by blast
  have u: "fenced_update k token f db1 = Inr (b, db2)"
    using assms(7) by (simp add: release_code_match_for_verification_retry_def f)
  have key: "cq_report_id (f r) = cq_report_id r" for r
    by (cases "vr_target retry") (simp_all add: f unclaim_def)
  note s = fenced_update_spec [OF inv1 key u]
  have row2: "queue_row_of db2 k = Some (f r1)" using s(3) [of k] row1 own by simp
  have "cq_attempts (f r1) = cq_attempts r"
    "cq_retry_count (f r1) = cq_retry_count r + (if vr_counts_toward_ceiling retry then 1 else 0)"
    "cq_claim_token (f r1) = None" "cq_claimed_at (f r1) = None" "cq_dead_lettered_at (f r1) = None"
    "cq_available_at (f r1) = vr_available_at retry" "cq_report_id (f r1) = k"
    using live nonneg r(2) by (cases "vr_target retry"; simp add: f r1_def claim_row_def unclaim_def unstale_def)+
  with row2 s(2) assms(6) show ?thesis by (auto simp: queue_holder_def eligible_def)
qed

definition retry0 :: verification_retry_request where
  "retry0 = \<lparr>vr_target = PinnedCommit sha0 ''acme/app'', vr_counts_toward_ceiling = True,
     vr_available_at = 20, vr_error = ''gone''\<rparr>"

lemma retry0_run:
  "(case claimed0 of Inl e \<Rightarrow> False
    | Inr (jobs, db1) \<Rightarrow> is_ok (release_code_match_for_verification_retry 3 50 retry0 db1))
   \<and> map_option cq_attempts (queue_row_of match_db1 3) = Some 0"
  by code_simp

theorem verification_retry_refunds_the_attempt_witness:
  "\<exists>jobs db1 db2 r2. claimed0 = Inr (jobs, db1)
     \<and> release_code_match_for_verification_retry 3 50 retry0 db1 = Inr (True, db2)
     \<and> queue_row_of db2 3 = Some r2 \<and> cq_attempts r2 = 0"
proof -
  obtain jobs db1 where run: "claimed0 = Inr (jobs, db1)" and h: "queue_holder db1 3 = Some 50"
    using claimed0_run by (auto split: sum.splits)
  have "is_ok (release_code_match_for_verification_retry 3 50 retry0 db1)"
    using retry0_run unfolding run by simp
  then obtain b db2 where rel: "release_code_match_for_verification_retry 3 50 retry0 db1 = Inr (b, db2)"
    by (auto simp: is_ok_iff)
  obtain r where r: "queue_row_of match_db1 3 = Some r" "cq_attempts r = 0"
    using retry0_run by auto
  show ?thesis
    using verification_retry_refunds_the_attempt
      [OF match_db1_inv _ match_db1_free run [unfolded claimed0_def] r(1) h rel] r run rel by auto
qed

lemma fenced_update_row:
  assumes "queue_inv db" and "\<And>r. cq_report_id (f r) = cq_report_id r"
    and "fenced_update k t f db = Inr (True, db')"
  shows "\<exists>r. queue_row_of db k = Some r \<and> owned k t r \<and> queue_row_of db' k = Some (f r)
    \<and> md_hints db' = md_hints db \<and> md_verifications db' = md_verifications db"
proof -
  note s = fenced_update_spec [OF assms]
  have "queue_holder db k = Some t" using s(2) by simp
  then obtain r where r: "queue_row_of db k = Some r" "cq_claim_token r = Some t"
    by (auto simp: queue_holder_def bind_eq_Some_conv)
  then have "owned k t r" using assms(1) by (auto simp: queue_row_of_iff owned_def)
  with r s(3) [of k] s(4,5) show ?thesis by simp
qed

lemma complete_row:
  assumes inv: "queue_inv db" and run: "complete_code_match_job i now k t c db = Inr (True, db')"
  shows "queue_row_of db' k = None"
    and "hint_of db' k = Some \<lparr>ch_report_id = k, ch_computed_at_sha = cc_computed_at_sha c,
            ch_hints = cc_hints c, ch_outcome = Some (cc_outcome c), ch_created_at = now\<rparr>"
    and "md_verifications db' = md_verifications db @ [\<lparr>cv_id = i, cv_report_id = k,
            cv_attempt = cc_attempt c, cv_computed_at_sha = cc_computed_at_sha c,
            cv_outcome = cc_verification c\<rparr>]"
proof -
  obtain db1 where h: "queue_holder db k = Some t" and
    w: "write_settlement i now k (cc_attempt c) (cc_computed_at_sha c) (cc_hints c) (cc_outcome c)
          (cc_verification c) db = Inr db1"
    and db': "db' = db1\<lparr>md_queue := delete_where (owned k t) (md_queue db1)\<rparr>"
    using run inv by (auto simp: complete_code_match_job_def owned_affected result_bind_Inr
        split: if_split_asm)
  note s = write_settlement_spec [OF inv w]
  show "hint_of db' k = Some \<lparr>ch_report_id = k, ch_computed_at_sha = cc_computed_at_sha c,
            ch_hints = cc_hints c, ch_outcome = Some (cc_outcome c), ch_created_at = now\<rparr>"
    using s(3) [of k] by (simp add: db' hint_of_def)
  show "md_verifications db' = md_verifications db @ [\<lparr>cv_id = i, cv_report_id = k,
            cv_attempt = cc_attempt c, cv_computed_at_sha = cc_computed_at_sha c,
            cv_outcome = cc_verification c\<rparr>]"
    using s(4) by (simp add: db')
  have "owned k t r" if "r \<in> set (md_queue db)" "cq_report_id r = k" for r
    using h inv that by (auto simp: queue_holder_iff queue_inv_def owned_def dest: distinct_map_eq)
  then show "queue_row_of db' k = None"
    by (auto simp: queue_row_of_def db' s(2) find_None_iff row_simps)
qed

lemma terminal_row:
  assumes inv: "queue_inv db"
    and run: "terminally_dead_letter_code_match_verification i now k t attempt sha reason db = Inr (True, db')"
  shows "\<exists>r. queue_row_of db' k = Some r \<and> cq_dead_lettered_at r = Some now
             \<and> cq_claim_token r = None \<and> cq_candidates r = None"
    and "hint_of db' k = Some \<lparr>ch_report_id = k, ch_computed_at_sha = sha, ch_hints = JArr [],
            ch_outcome = Some ''terminal_unverifiable'', ch_created_at = now\<rparr>"
    and "length (md_verifications db') = length (md_verifications db) + 1"
proof -
  obtain f b1 db1 where h: "queue_holder db k = Some t" and u: "fenced_update k t f db = Inr (b1, db1)"
    and f: "f = (\<lambda>r. (clear_episode (unclaim r))\<lparr>cq_dead_lettered_at := Some now,
                 cq_last_error := Some (utf8_take MAX_ERROR_CHARS reason)\<rparr>)"
    and w: "write_settlement i now k attempt sha (JArr []) ''terminal_unverifiable''
             \<lparr>vo_candidates_seen = 0, vo_dropped_as_absent = 0, vo_kept_verified = 0,
              vo_kept_unverified = 0\<rparr> db1 = Inr db'"
    using run inv by (auto simp: terminally_dead_letter_code_match_verification_def owned_affected
        result_bind_Inr split: if_split_asm)
  have key: "cq_report_id (f r) = cq_report_id r" for r by (simp add: f clear_episode_def unclaim_def)
  note s = fenced_update_spec [OF inv key u]
  have "b1" using s(2) h by simp
  with u have "fenced_update k t f db = Inr (True, db1)" by simp
  from fenced_update_row [OF inv key this] obtain r where r: "queue_row_of db1 k = Some (f r)" by blast
  note w = write_settlement_spec [OF s(1) w]
  show "\<exists>r. queue_row_of db' k = Some r \<and> cq_dead_lettered_at r = Some now
             \<and> cq_claim_token r = None \<and> cq_candidates r = None"
    using r by (simp add: queue_row_of_def w(2)) (simp add: f clear_episode_def unclaim_def)
  show "hint_of db' k = Some \<lparr>ch_report_id = k, ch_computed_at_sha = sha, ch_hints = JArr [],
            ch_outcome = Some ''terminal_unverifiable'', ch_created_at = now\<rparr>"
    using w(3) [of k] by simp
  show "length (md_verifications db') = length (md_verifications db) + 1"
    using w(4) s(5) by simp
qed

lemma row_key [simp]:
  "cq_report_id (unclaim r) = cq_report_id r" "cq_report_id (clear_episode r) = cq_report_id r"
  "cq_report_id (retry_columns target r) = cq_report_id r"
  by (simp_all add: unclaim_def clear_episode_def) (cases target; simp)

lemma release_fenced:
  assumes "queue_inv db" and "lease_act (Release available_at error) k t db = Inr (True, db')"
  shows "\<exists>f. (\<forall>r. cq_report_id (f r) = cq_report_id r) \<and> fenced_update k t f db = Inr (True, db')"
proof -
  obtain b1 f where u: "fenced_update k t f db = Inr (b1, db')" and h: "queue_holder db k = Some t"
    and f: "f = (\<lambda>r. (unclaim r)\<lparr>cq_available_at := available_at,
      cq_last_error := map_option (utf8_take MAX_ERROR_CHARS) error\<rparr>)"
    using assms(2) by (auto simp: release_code_match_job_def result_bind_Inr)
  have key: "cq_report_id (f r) = cq_report_id r" for r by (simp add: f)
  have "b1" using fenced_update_spec(2) [OF assms(1) key u] h by simp
  with u key show ?thesis by auto
qed

text \<open>
  What a write of the claim's owner shows to readers: a completion removes the job and
  stores exactly its hints, commit and outcome; an exhausted verification episode keeps the job as
  a dead letter and stores an empty, explicitly unverifiable result; both append one row of
  verification analytics.  No other write of the queue touches hints or analytics.
\<close>

theorem settlements_and_only_settlements_are_visible:
  assumes "queue_inv db" and "lease_act a k t db = Inr (True, db')"
  shows "case a of
      Complete new_id now c \<Rightarrow>
        queue_row_of db' k = None
        \<and> hint_of db' k = Some \<lparr>ch_report_id = k, ch_computed_at_sha = cc_computed_at_sha c,
            ch_hints = cc_hints c, ch_outcome = Some (cc_outcome c), ch_created_at = now\<rparr>
        \<and> md_verifications db' = md_verifications db @ [\<lparr>cv_id = new_id, cv_report_id = k,
            cv_attempt = cc_attempt c, cv_computed_at_sha = cc_computed_at_sha c,
            cv_outcome = cc_verification c\<rparr>]
    | Terminal new_id now attempt sha reason \<Rightarrow>
        (\<exists>r. queue_row_of db' k = Some r \<and> cq_dead_lettered_at r = Some now
             \<and> cq_claim_token r = None \<and> cq_candidates r = None)
        \<and> hint_of db' k = Some \<lparr>ch_report_id = k, ch_computed_at_sha = sha, ch_hints = JArr [],
            ch_outcome = Some ''terminal_unverifiable'', ch_created_at = now\<rparr>
        \<and> length (md_verifications db') = length (md_verifications db) + 1
    | _ \<Rightarrow> md_hints db' = md_hints db \<and> md_verifications db' = md_verifications db
          \<and> queue_row_of db' k \<noteq> None"
proof (cases a)
  case (Complete i now c)
  then show ?thesis using complete_row [OF assms(1)] assms(2) by simp
next
  case (Terminal i now attempt sha reason)
  then show ?thesis using terminal_row [OF assms(1)] assms(2) by simp
next
  case (VerificationRetry retry)
  then show ?thesis
    using fenced_update_row [OF assms(1) _ assms(2) [unfolded VerificationRetry lease_act.simps
          release_code_match_for_verification_retry_def]] by auto
next
  case ClearMarker
  then show ?thesis
    using fenced_update_row [OF assms(1) _ assms(2) [unfolded ClearMarker lease_act.simps
          clear_code_match_verification_retry_marker_def]] by auto
next
  case ResetEpisode
  then show ?thesis
    using fenced_update_row [OF assms(1) _ assms(2) [unfolded ResetEpisode lease_act.simps
          reset_code_match_verification_retry_def]] by auto
next
  case (DeadLetter now reason)
  then show ?thesis
    using fenced_update_row [OF assms(1) _ assms(2) [unfolded DeadLetter lease_act.simps
          dead_letter_code_match_job_def]] by auto
next
  case (Release available_at error)
  obtain f where f: "\<And>r. cq_report_id (f r) = cq_report_id r" "fenced_update k t f db = Inr (True, db')"
    using release_fenced [OF assms(1) assms(2) [unfolded Release]] by blast
  show ?thesis using fenced_update_row [OF assms(1) f] Release by auto
qed

definition claimed_db0 :: match_db where
  "claimed_db0 = (case claimed0 of Inr (jobs, db) \<Rightarrow> db | Inl e \<Rightarrow> match_db1)"

lemma claimed_db0_inv: "queue_inv claimed_db0"
proof -
  obtain jobs db where "claimed0 = Inr (jobs, db)" using claimed0_run by (auto split: sum.splits)
  then show ?thesis
    using claim_effect(1) [OF match_db1_inv] by (auto simp: claimed_db0_def claimed0_def)
qed

lemma terminal0_run:
  "(case lease_act (Terminal 900 102 2 sha0 ''gone'') 3 50 claimed_db0 of
      Inl e \<Rightarrow> False | Inr (b, db') \<Rightarrow> b)"
  by code_simp

theorem settlements_and_only_settlements_are_visible_witness:
  "\<exists>db'. lease_act (Terminal 900 102 2 sha0 ''gone'') 3 50 claimed_db0 = Inr (True, db')
     \<and> map_option ch_outcome (hint_of db' 3) = Some (Some ''terminal_unverifiable'')"
proof -
  obtain db' where run: "lease_act (Terminal 900 102 2 sha0 ''gone'') 3 50 claimed_db0 = Inr (True, db')"
    using terminal0_run by (auto split: sum.splits)
  show ?thesis
    using settlements_and_only_settlements_are_visible [OF claimed_db0_inv run] run by simp
qed

text \<open>
  The content-retry constraint refuses a row only when its condition is false: a comparison with
  \<open>NULL\<close> makes it unknown, so a row with a retry reason and no commit satisfies it.
\<close>

lemma content_check_admits_missing_columns:
  "\<exists>r. queue_row_ok r \<and> cq_retry_reason r = Some ''content_budget'' \<and> cq_content_sha r = None
     \<and> cq_required_content r = None"
proof -
  let ?r = "\<lparr>cq_report_id = 1, cq_product_id = 1, cq_enqueued_at = 0,
     cq_available_at = 0, cq_claimed_at = None, cq_claim_token = None,
     cq_attempts = 0, cq_dead_lettered_at = None, cq_last_error = None,
     cq_retry_sha = None, cq_retry_repo = None, cq_retry_count = 0,
     cq_retry_reason = Some ''content_budget'', cq_content_sha = None, cq_content_repo = None,
     cq_file = None, cq_required_content = None, cq_candidates = None\<rparr>"
  have "queue_row_ok ?r" by code_simp
  then show ?thesis by (intro exI [of _ ?r]) simp
qed

end
