(* ===== verification/PendingPayload.thy ===== *)
theory PendingPayload
  imports Json GithubApi
begin

text \<open>
  The candidates a content retry leaves behind on its queue row
  (\<open>PendingCodeMatchVerification\<close> of \<open>backend/src/main.rs\<close>): the Rust structs and the JSON their
  derived \<open>Serialize\<close> and \<open>Deserialize\<close> write and read.  A struct is an object with one member
  per field, a tuple or array an array, a unit variant its name, an absent \<open>Option\<close> is \<open>null\<close> or a
  missing member, and a member without a field is ignored.
\<close>

section \<open>Data\<close>

record pending_matches =
  pm_query :: code_search_query
  pm_candidates :: "github_candidate list"

record pending_verification =
  pv_pending :: "pending_matches list"
  pv_resolved :: "code_search_matches list"
  pv_tracker :: verification_tracker

section \<open>Serialization\<close>

definition to_usize :: "nat \<Rightarrow> json" where
  "to_usize n = JNum (int n)"

fun to_option :: "('a \<Rightarrow> json) \<Rightarrow> 'a option \<Rightarrow> json" where
  "to_option f None = JNull"
| "to_option f (Some x) = f x"

definition to_list :: "('a \<Rightarrow> json) \<Rightarrow> 'a list \<Rightarrow> json" where
  "to_list f xs = JArr (map f xs)"

definition to_query :: "code_search_query \<Rightarrow> json" where
  "to_query q = JObj [(''expression'', JStr (q_expression q)),
     (''match_reason'', JStr (q_match_reason q)), (''specificity'', to_usize (q_specificity q))]"

fun to_verification :: "code_search_verification \<Rightarrow> json" where
  "to_verification Verified = JStr ''Verified''"
| "to_verification FileNotFound = JStr ''FileNotFound''"

definition to_candidate :: "code_search_candidate \<Rightarrow> json" where
  "to_candidate c = JObj [(''file'', JStr (c_file c)),
     (''line_start'', to_option to_usize (c_line_start c)),
     (''line_end'', to_option to_usize (c_line_end c)),
     (''verification'', to_verification (c_verification c))]"

definition to_matches :: "code_search_matches \<Rightarrow> json" where
  "to_matches m = JObj [(''query'', to_query (m_query m)),
     (''candidates'', to_list to_candidate (m_candidates m))]"

definition to_occurrence :: "nat \<times> nat \<Rightarrow> json" where
  "to_occurrence r = JObj [(''indices'', JArr [to_usize (fst r), to_usize (snd r)])]"

definition to_text_match :: "text_match \<Rightarrow> json" where
  "to_text_match t = JObj [(''fragment'', JStr (tm_fragment t)),
     (''matches'', to_list to_occurrence (tm_matches t))]"

definition to_github_candidate :: "github_candidate \<Rightarrow> json" where
  "to_github_candidate c = JObj [(''file'', JStr (gc_file c)),
     (''text_match'', to_option to_text_match (gc_text_match c))]"

definition to_pending_matches :: "pending_matches \<Rightarrow> json" where
  "to_pending_matches m = JObj [(''query'', to_query (pm_query m)),
     (''candidates'', to_list to_github_candidate (pm_candidates m))]"

definition to_tracker :: "verification_tracker \<Rightarrow> json" where
  "to_tracker t = JObj [(''candidates_seen'', to_usize (vt_candidates_seen t)),
     (''dropped_as_absent'', to_usize (vt_dropped_as_absent t)),
     (''unverified_dropped'', to_usize (vt_unverified_dropped t))]"

definition pending_to_value :: "pending_verification \<Rightarrow> json" where
  "pending_to_value p = JObj [(''pending'', to_list to_pending_matches (pv_pending p)),
     (''resolved'', to_list to_matches (pv_resolved p)),
     (''verification'', to_tracker (pv_tracker p))]"

section \<open>Deserialization\<close>

definition required :: "string \<Rightarrow> (json \<Rightarrow> 'a option) \<Rightarrow> json \<Rightarrow> 'a option" where
  "required k f v = Option.bind (json_field k v) f"

fun of_str :: "json \<Rightarrow> string option" where
  "of_str (JStr s) = Some s"
| "of_str v = None"

fun of_uint :: "nat \<Rightarrow> json \<Rightarrow> nat option" where
  "of_uint bound (JNum i) = (if 0 \<le> i \<and> i \<le> int bound then Some (nat i) else None)"
| "of_uint bound v = None"

fun of_option :: "(json \<Rightarrow> 'a option) \<Rightarrow> json option \<Rightarrow> 'a option option" where
  "of_option f None = Some None"
| "of_option f (Some JNull) = Some None"
| "of_option f (Some v) = map_option Some (f v)"

definition optional :: "string \<Rightarrow> (json \<Rightarrow> 'a option) \<Rightarrow> json \<Rightarrow> 'a option option" where
  "optional k f v = of_option f (json_field k v)"

fun of_list :: "(json \<Rightarrow> 'a option) \<Rightarrow> json \<Rightarrow> 'a list option" where
  "of_list f (JArr vs) = those (map f vs)"
| "of_list f v = None"

text \<open>\<open>#[serde(default)]\<close> on a vector: a missing member is the empty vector.\<close>

definition defaulted :: "string \<Rightarrow> (json \<Rightarrow> 'a option) \<Rightarrow> json \<Rightarrow> 'a list option" where
  "defaulted k f v = (case json_field k v of None \<Rightarrow> Some [] | Some w \<Rightarrow> of_list f w)"

definition of_query :: "json \<Rightarrow> code_search_query option" where
  "of_query v =
     Option.bind (required ''expression'' of_str v) (\<lambda>e.
     Option.bind (required ''match_reason'' of_str v) (\<lambda>r.
     Option.bind (required ''specificity'' (of_uint usize_max) v) (\<lambda>s.
       Some \<lparr>q_expression = e, q_match_reason = r, q_specificity = s\<rparr>)))"

fun of_verification :: "json \<Rightarrow> code_search_verification option" where
  "of_verification (JStr s) =
     (if s = ''Verified'' then Some Verified
      else if s = ''FileNotFound'' then Some FileNotFound else None)"
| "of_verification v = None"

definition of_candidate :: "json \<Rightarrow> code_search_candidate option" where
  "of_candidate v =
     Option.bind (required ''file'' of_str v) (\<lambda>f.
     Option.bind (optional ''line_start'' (of_uint u32_max) v) (\<lambda>a.
     Option.bind (optional ''line_end'' (of_uint u32_max) v) (\<lambda>b.
     Option.bind (required ''verification'' of_verification v) (\<lambda>w.
       Some \<lparr>c_file = f, c_line_start = a, c_line_end = b, c_verification = w\<rparr>))))"

definition of_matches :: "json \<Rightarrow> code_search_matches option" where
  "of_matches v =
     Option.bind (required ''query'' of_query v) (\<lambda>q.
     Option.bind (required ''candidates'' (of_list of_candidate) v) (\<lambda>cs.
       Some \<lparr>m_query = q, m_candidates = cs\<rparr>))"

fun of_pair :: "json \<Rightarrow> (nat \<times> nat) option" where
  "of_pair (JArr [a, b]) =
     Option.bind (of_uint usize_max a) (\<lambda>x. Option.bind (of_uint usize_max b) (\<lambda>y. Some (x, y)))"
| "of_pair v = None"

definition of_occurrence :: "json \<Rightarrow> (nat \<times> nat) option" where
  "of_occurrence v = required ''indices'' of_pair v"

definition of_text_match :: "json \<Rightarrow> text_match option" where
  "of_text_match v =
     Option.bind (required ''fragment'' of_str v) (\<lambda>f.
     Option.bind (defaulted ''matches'' of_occurrence v) (\<lambda>ms.
       Some \<lparr>tm_fragment = f, tm_matches = ms\<rparr>))"

definition of_github_candidate :: "json \<Rightarrow> github_candidate option" where
  "of_github_candidate v =
     Option.bind (required ''file'' of_str v) (\<lambda>f.
     Option.bind (optional ''text_match'' of_text_match v) (\<lambda>t.
       Some \<lparr>gc_file = f, gc_text_match = t\<rparr>))"

definition of_pending_matches :: "json \<Rightarrow> pending_matches option" where
  "of_pending_matches v =
     Option.bind (required ''query'' of_query v) (\<lambda>q.
     Option.bind (required ''candidates'' (of_list of_github_candidate) v) (\<lambda>cs.
       Some \<lparr>pm_query = q, pm_candidates = cs\<rparr>))"

definition of_tracker :: "json \<Rightarrow> verification_tracker option" where
  "of_tracker v =
     Option.bind (required ''candidates_seen'' (of_uint usize_max) v) (\<lambda>s.
     Option.bind (required ''dropped_as_absent'' (of_uint usize_max) v) (\<lambda>d.
     Option.bind (required ''unverified_dropped'' (of_uint usize_max) v) (\<lambda>u.
       Some \<lparr>vt_candidates_seen = s, vt_dropped_as_absent = d, vt_unverified_dropped = u\<rparr>)))"

definition pending_from_value :: "json \<Rightarrow> pending_verification option" where
  "pending_from_value v =
     Option.bind (required ''pending'' (of_list of_pending_matches) v) (\<lambda>ps.
     Option.bind (required ''resolved'' (of_list of_matches) v) (\<lambda>rs.
     Option.bind (required ''verification'' of_tracker v) (\<lambda>t.
       Some \<lparr>pv_pending = ps, pv_resolved = rs, pv_tracker = t\<rparr>)))"

text \<open>The findings of a report, of which the worker reads kind and topic.\<close>

definition of_finding :: "json \<Rightarrow> code_match_finding option" where
  "of_finding v =
     Option.bind (required ''kind'' of_str v) (\<lambda>k.
     Option.bind (required ''topic'' of_str v) (\<lambda>t. Some \<lparr>cf_kind = k, cf_topic = t\<rparr>))"

definition stored_findings :: "json \<Rightarrow> code_match_finding list" where
  "stored_findings v = (case of_list of_finding v of None \<Rightarrow> [] | Some fs \<Rightarrow> fs)"

section \<open>Round trip\<close>

text \<open>The bounds of the Rust integer types.\<close>

definition query_fits :: "code_search_query \<Rightarrow> bool" where
  "query_fits q \<longleftrightarrow> q_specificity q \<le> usize_max"

definition candidate_fits :: "code_search_candidate \<Rightarrow> bool" where
  "candidate_fits c \<longleftrightarrow> opt_all (\<lambda>n. n \<le> u32_max) (c_line_start c)
     \<and> opt_all (\<lambda>n. n \<le> u32_max) (c_line_end c)"

definition github_candidate_fits :: "github_candidate \<Rightarrow> bool" where
  "github_candidate_fits c \<longleftrightarrow>
     opt_all (\<lambda>t. list_all (\<lambda>r. fst r \<le> usize_max \<and> snd r \<le> usize_max) (tm_matches t))
       (gc_text_match c)"

definition tracker_fits :: "verification_tracker \<Rightarrow> bool" where
  "tracker_fits t \<longleftrightarrow> vt_candidates_seen t \<le> usize_max \<and> vt_dropped_as_absent t \<le> usize_max
     \<and> vt_unverified_dropped t \<le> usize_max"

definition pending_fits :: "pending_verification \<Rightarrow> bool" where
  "pending_fits p \<longleftrightarrow>
     list_all (\<lambda>m. query_fits (pm_query m) \<and> list_all github_candidate_fits (pm_candidates m)) (pv_pending p)
     \<and> list_all (\<lambda>m. query_fits (m_query m) \<and> list_all candidate_fits (m_candidates m)) (pv_resolved p)
     \<and> tracker_fits (pv_tracker p)"

lemma those_map_Some: "(\<And>x. x \<in> set xs \<Longrightarrow> f (g x) = Some x) \<Longrightarrow> those (map f (map g xs)) = Some xs"
  by (induction xs) auto

lemma of_list_to_list:
  "(\<And>x. x \<in> set xs \<Longrightarrow> f (g x) = Some x) \<Longrightarrow> of_list f (to_list g xs) = Some xs"
  by (simp add: to_list_def those_map_Some del: map_map)

lemma of_uint_to_usize: "n \<le> bound \<Longrightarrow> of_uint bound (to_usize n) = Some n"
  by (simp add: to_usize_def)

lemma of_option_to_option:
  "(\<And>x. v = Some x \<Longrightarrow> f (g x) = Some x \<and> g x \<noteq> JNull) \<Longrightarrow> of_option f (Some (to_option g v)) = Some v"
proof (cases v)
  case (Some x)
  assume "\<And>x. v = Some x \<Longrightarrow> f (g x) = Some x \<and> g x \<noteq> JNull"
  with Some show ?thesis by (cases "g x") auto
qed simp

lemmas reads = required_def optional_def defaulted_def of_list_to_list of_uint_to_usize
  of_option_to_option

lemma of_query_to_query: "query_fits q \<Longrightarrow> of_query (to_query q) = Some q"
  by (simp add: of_query_def to_query_def query_fits_def reads)

lemma of_verification_to_verification: "of_verification (to_verification v) = Some v"
  by (cases v) simp_all

lemma of_option_to_usize:
  "opt_all (\<lambda>n. n \<le> b) v \<Longrightarrow> of_option (of_uint b) (Some (to_option to_usize v)) = Some v"
  by (rule of_option_to_option) (auto simp: of_uint_to_usize to_usize_def)

lemma of_candidate_to_candidate: "candidate_fits c \<Longrightarrow> of_candidate (to_candidate c) = Some c"
  by (simp add: of_candidate_def to_candidate_def candidate_fits_def required_def optional_def
      of_option_to_usize of_verification_to_verification)

lemma of_matches_to_matches:
  "query_fits (m_query m) \<Longrightarrow> list_all candidate_fits (m_candidates m)
   \<Longrightarrow> of_matches (to_matches m) = Some m"
  by (simp add: of_matches_def to_matches_def list_all_iff of_query_to_query
      of_candidate_to_candidate reads)

lemma of_text_match_to_text_match:
  "list_all (\<lambda>r. fst r \<le> usize_max \<and> snd r \<le> usize_max) (tm_matches t)
   \<Longrightarrow> of_text_match (to_text_match t) = Some t"
  by (simp add: of_text_match_def to_text_match_def of_occurrence_def to_occurrence_def list_all_iff reads)

lemma of_github_candidate_to_github_candidate:
  assumes "github_candidate_fits c"
  shows "of_github_candidate (to_github_candidate c) = Some c"
proof -
  have "of_option of_text_match (Some (to_option to_text_match (gc_text_match c))) = Some (gc_text_match c)"
  proof (rule of_option_to_option)
    fix t assume "gc_text_match c = Some t"
    then show "of_text_match (to_text_match t) = Some t \<and> to_text_match t \<noteq> JNull"
      using assms by (simp add: github_candidate_fits_def of_text_match_to_text_match)
        (simp add: to_text_match_def)
  qed
  then show ?thesis
    by (simp add: of_github_candidate_def to_github_candidate_def required_def optional_def)
qed

lemma of_pending_matches_to_pending_matches:
  "query_fits (pm_query m) \<Longrightarrow> list_all github_candidate_fits (pm_candidates m)
   \<Longrightarrow> of_pending_matches (to_pending_matches m) = Some m"
  by (simp add: of_pending_matches_def to_pending_matches_def list_all_iff of_query_to_query
      of_github_candidate_to_github_candidate reads)

lemma of_tracker_to_tracker: "tracker_fits t \<Longrightarrow> of_tracker (to_tracker t) = Some t"
  by (simp add: of_tracker_def to_tracker_def tracker_fits_def reads)

text \<open>
  The candidates a content retry stores are read back exactly: for every pending
  verification whose numbers fit their Rust types, deserializing what was serialized gives the
  same queries, the same unresolved and resolved candidates and the same counters, and the stored
  value is the JSON object the queue's constraint demands.
\<close>

theorem pending_payload_roundtrip:
  assumes "pending_fits p"
  shows "pending_from_value (pending_to_value p) = Some p \<and> is_object (pending_to_value p)"
  using assms
  by (simp add: pending_from_value_def pending_to_value_def pending_fits_def list_all_iff
      of_pending_matches_to_pending_matches of_matches_to_matches of_tracker_to_tracker reads)

definition example_pending :: pending_verification where
  "example_pending =
     \<lparr>pv_pending = [\<lparr>pm_query = \<lparr>q_expression = ''x'', q_match_reason = ''y'', q_specificity = 2\<rparr>,
        pm_candidates = [\<lparr>gc_file = ''a.rs'', gc_text_match =
          Some \<lparr>tm_fragment = ''fn'', tm_matches = [(0, 2)]\<rparr>\<rparr>]\<rparr>],
      pv_resolved = [\<lparr>m_query = \<lparr>q_expression = ''x'', q_match_reason = ''y'', q_specificity = 2\<rparr>,
        m_candidates = [\<lparr>c_file = ''b.rs'', c_line_start = Some 1, c_line_end = None,
          c_verification = FileNotFound\<rparr>]\<rparr>],
      pv_tracker = \<lparr>vt_candidates_seen = 1, vt_dropped_as_absent = 0, vt_unverified_dropped = 3\<rparr>\<rparr>"

theorem pending_payload_roundtrip_witness:
  "pending_from_value (pending_to_value example_pending) = Some example_pending"
proof -
  have "pending_fits example_pending" by code_simp
  then show ?thesis using pending_payload_roundtrip by blast
qed

end
