(* ===== verification/WorkerEffects.thy ===== *)
theory WorkerEffects
  imports CodeMatchQueue PendingPayload
begin

text \<open>
  The effects of the code-match worker (\<open>backend/src/main.rs\<close>).  A worker step is a function on
  the world: it may read a clock, ask GitHub, or run one statement on the database.  What those
  answer is not the worker's to decide, so an environment supplies the answers, by the number of
  the observation; other workers and requests may change the database between any two statements
  (\<open>ev_others\<close>).  A step fails with a message (\<open>anyhow::Error\<close>), and the value \<open>None\<close> is a step
  that never returns.
\<close>

section \<open>World and environment\<close>

datatype pinned_content =
    PinnedText string
  | PinnedMissing
  | PinnedIncomplete file_failure

datatype github_call =
    TokenCall int
  | HeadCall string string
  | SearchCall string time
  | CommitCall string string
  | FileCall string string string

record batch =
  bt_search :: nat
  bt_content :: nat
  bt_next_search_at :: time
  bt_quota_retry_at :: "time option"
  bt_heads :: "string \<times> string \<Rightarrow> string option"
  bt_contents :: "string \<times> string \<times> string \<Rightarrow> pinned_content option"

record world =
  w_tick :: nat
  w_db :: match_db
  w_calls :: "github_call list"
  w_batch :: batch

record env =
  ev_now :: "nat \<Rightarrow> time"
  ev_instant :: "nat \<Rightarrow> time"
  ev_latency :: "nat \<Rightarrow> int"
  ev_uuid :: "nat \<Rightarrow> uuid"
  ev_others :: "nat \<Rightarrow> match_db \<Rightarrow> match_db"
  ev_locked :: "nat \<Rightarrow> uuid \<Rightarrow> bool"
  ev_token :: "nat \<Rightarrow> int \<Rightarrow> string option"
  ev_head :: "nat \<Rightarrow> string \<Rightarrow> string \<Rightarrow> string + string"
  ev_search :: "nat \<Rightarrow> string \<Rightarrow> (search_error \<times> string) + search_result"
  ev_commit :: "nat \<Rightarrow> string \<Rightarrow> string \<Rightarrow> (source_error \<times> string) option"
  ev_file :: "nat \<Rightarrow> string \<Rightarrow> string \<Rightarrow> string \<Rightarrow> source_error + string"

type_synonym 'a act = "world \<Rightarrow> ((string + 'a) \<times> world) option"

section \<open>Steps\<close>

definition ret :: "'a \<Rightarrow> 'a act" where
  "ret x w = Some (Inr x, w)"

definition fail :: "string \<Rightarrow> 'a act" where
  "fail e w = Some (Inl e, w)"

definition bnd :: "'a act \<Rightarrow> ('a \<Rightarrow> 'b act) \<Rightarrow> 'b act" where
  "bnd m f w =
     (case m w of
        None \<Rightarrow> None
      | Some (Inl e, w') \<Rightarrow> Some (Inl e, w')
      | Some (Inr x, w') \<Rightarrow> f x w')"

definition observe :: "(nat \<Rightarrow> 'a) \<Rightarrow> 'a act" where
  "observe f w = Some (Inr (f (w_tick w)), w\<lparr>w_tick := Suc (w_tick w)\<rparr>)"

definition github :: "github_call \<Rightarrow> (nat \<Rightarrow> 'a) \<Rightarrow> 'a act" where
  "github c f w = Some (Inr (f (w_tick w)),
     w\<lparr>w_tick := Suc (w_tick w), w_calls := w_calls w @ [c]\<rparr>)"

text \<open>One statement: the others' changes come first; a failing statement changes nothing.\<close>

definition db_call :: "env \<Rightarrow> (nat \<Rightarrow> match_db \<Rightarrow> ('a \<times> match_db) result) \<Rightarrow> 'a act" where
  "db_call env stmt w =
     (let n = w_tick w; db = ev_others env n (w_db w);
          w' = w\<lparr>w_tick := Suc n, w_db := db\<rparr>
      in case stmt n db of
           Inl e \<Rightarrow> Some (Inl (err_message e), w')
         | Inr (x, db') \<Rightarrow> Some (Inr x, w'\<lparr>w_db := db'\<rparr>))"

definition get_batch :: "batch act" where
  "get_batch w = Some (Inr (w_batch w), w)"

definition put_batch :: "(batch \<Rightarrow> batch) \<Rightarrow> unit act" where
  "put_batch f w = Some (Inr (), w\<lparr>w_batch := f (w_batch w)\<rparr>)"

fun for_each :: "('a \<Rightarrow> unit act) \<Rightarrow> 'a list \<Rightarrow> unit act" where
  "for_each f [] = ret ()"
| "for_each f (x # xs) = bnd (f x) (\<lambda>_. for_each f xs)"

section \<open>What a step relates\<close>

text \<open>\<open>steps R m\<close>: whenever \<open>m\<close> returns, the world before and after it are related.\<close>

named_theorems steps_rules \<open>how relations on worlds compose over steps\<close>

definition steps :: "(world \<Rightarrow> world \<Rightarrow> bool) \<Rightarrow> 'a act \<Rightarrow> bool" where
  "steps R m \<longleftrightarrow> (\<forall>w r w'. m w = Some (r, w') \<longrightarrow> R w w')"

definition preorder_rel :: "('w \<Rightarrow> 'w \<Rightarrow> bool) \<Rightarrow> bool" where
  "preorder_rel R \<longleftrightarrow> (\<forall>w. R w w) \<and> (\<forall>u v w. R u v \<longrightarrow> R v w \<longrightarrow> R u w)"

lemma steps_ret [steps_rules]: "preorder_rel R \<Longrightarrow> steps R (ret x)"
  by (simp add: steps_def ret_def preorder_rel_def)

lemma steps_fail [steps_rules]: "preorder_rel R \<Longrightarrow> steps R (fail e)"
  by (simp add: steps_def fail_def preorder_rel_def)

lemma steps_get_batch [steps_rules]: "preorder_rel R \<Longrightarrow> steps R get_batch"
  by (simp add: steps_def get_batch_def preorder_rel_def)

lemma steps_bnd [steps_rules]:
  assumes "preorder_rel R" and m: "steps R m" and f: "\<And>x. steps R (f x)"
  shows "steps R (bnd m f)"
  unfolding steps_def
proof (intro allI impI)
  fix w r w'
  assume run: "bnd m f w = Some (r, w')"
  then obtain o1 w1 where m1: "m w = Some (o1, w1)" by (auto simp: bnd_def split: option.splits)
  then have R1: "R w w1" using m by (simp add: steps_def)
  show "R w w'"
  proof (cases o1)
    case (Inl e)
    with run m1 R1 show ?thesis by (simp add: bnd_def)
  next
    case (Inr x)
    with run m1 have "f x w1 = Some (r, w')" by (simp add: bnd_def)
    then have "R w1 w'" using f by (simp add: steps_def)
    with R1 assms(1) show ?thesis unfolding preorder_rel_def by blast
  qed
qed

lemma steps_for_each [steps_rules]:
  assumes "preorder_rel R" and "\<And>x. steps R (f x)"
  shows "steps R (for_each f xs)"
  using assms by (induction xs) (auto intro: steps_ret steps_bnd)

text \<open>A continuation only has to behave on the values the first step gives.\<close>

lemma steps_bnd_gives:
  assumes "preorder_rel R" and m: "steps R m"
    and given: "\<And>w x w1. m w = Some (Inr x, w1) \<Longrightarrow> Q x" and f: "\<And>x. Q x \<Longrightarrow> steps R (f x)"
  shows "steps R (bnd m f)"
proof -
  have eq: "bnd m f = bnd m (\<lambda>x. if Q x then f x else fail [])"
    using given by (auto simp: bnd_def fun_eq_iff split: option.split sum.split)
  show ?thesis
    unfolding eq using assms(1,2) f by (intro steps_bnd) (auto intro: steps_fail)
qed

lemma bnd_Some:
  "bnd m f w = Some (r, w') \<longleftrightarrow>
     (\<exists>e. m w = Some (Inl e, w') \<and> r = Inl e)
     \<or> (\<exists>x w1. m w = Some (Inr x, w1) \<and> f x w1 = Some (r, w'))"
  by (auto simp: bnd_def split: option.splits sum.splits)

lemma bnd_None:
  "bnd m f w = None \<longleftrightarrow> m w = None \<or> (\<exists>x w1. m w = Some (Inr x, w1) \<and> f x w1 = None)"
  by (auto simp: bnd_def split: option.splits sum.splits)

lemma bnd_assoc: "bnd (bnd m f) g = bnd m (\<lambda>x. bnd (f x) g)"
  by (auto simp: bnd_def fun_eq_iff split: option.split sum.split)

lemma bnd_github:
  "bnd (github c f) k w = k (f (w_tick w)) (w\<lparr>w_tick := Suc (w_tick w), w_calls := w_calls w @ [c]\<rparr>)"
  by (simp add: bnd_def github_def)

lemma bnd_observe: "bnd (observe f) k w = k (f (w_tick w)) (w\<lparr>w_tick := Suc (w_tick w)\<rparr>)"
  by (simp add: bnd_def observe_def)

lemma bnd_get_batch: "bnd get_batch k w = k (w_batch w) w"
  by (simp add: bnd_def get_batch_def)

lemma bnd_ret: "bnd (ret x) k = k x"
  by (simp add: bnd_def ret_def fun_eq_iff)

text \<open>Steps that always return.\<close>

definition returns :: "'a act \<Rightarrow> bool" where
  "returns m \<longleftrightarrow> (\<forall>w. m w \<noteq> None)"

lemma returns_simps [simp]:
  "returns (ret x)" "returns (fail e)" "returns get_batch" "returns (put_batch f)"
  "returns (observe g)" "returns (github c g)" "returns (db_call env stmt)"
  by (simp_all add: returns_def ret_def fail_def get_batch_def put_batch_def observe_def github_def
      db_call_def Let_def split: sum.split)

lemma returns_bnd: "returns m \<Longrightarrow> (\<And>x. returns (f x)) \<Longrightarrow> returns (bnd m f)"
  by (auto simp: returns_def bnd_None)

lemma returns_for_each: "(\<And>x. returns (f x)) \<Longrightarrow> returns (for_each f xs)"
  by (induction xs) (auto intro: returns_bnd)

end
