(* ===== verification/CodeMatchWorker.thy ===== *)
theory CodeMatchWorker
  imports WorkerEffects
begin

text \<open>
  The code-match worker of \<open>backend/src/main.rs\<close>: it claims a batch of jobs, works through them
  installation by installation under two call budgets, searches GitHub for each report, verifies
  every hit against the file at one pinned commit, and settles, retries or dead-letters the job.
  Logging is left out; a panic of the drain task is not modelled.
\<close>

section \<open>Limits, budgets and times\<close>

definition CODE_MATCH_BATCH_SIZE :: int where
  "CODE_MATCH_BATCH_SIZE = 20"

definition CODE_MATCH_SEARCH_CALLS_PER_INSTALLATION_BATCH :: nat where
  "CODE_MATCH_SEARCH_CALLS_PER_INSTALLATION_BATCH = 10"

definition CODE_MATCH_CONTENT_FETCHES_PER_INSTALLATION_BATCH :: nat where
  "CODE_MATCH_CONTENT_FETCHES_PER_INSTALLATION_BATCH = 10"

definition CODE_MATCH_MAX_ATTEMPTS :: int where
  "CODE_MATCH_MAX_ATTEMPTS = 8"

definition CODE_MATCH_MAX_VERIFICATION_RETRIES :: int where
  "CODE_MATCH_MAX_VERIFICATION_RETRIES = 8"

definition CODE_MATCH_STALE_CLAIM_AGE :: time where
  "CODE_MATCH_STALE_CLAIM_AGE = hours 2"

definition CODE_MATCH_DEFAULT_PACE :: time where
  "CODE_MATCH_DEFAULT_PACE = seconds 6"

definition take_budget :: "nat \<Rightarrow> bool \<times> nat" where
  "take_budget remaining = (if remaining = 0 then (False, remaining) else (True, remaining - 1))"

definition observe_headroom :: "int option \<Rightarrow> nat \<Rightarrow> nat" where
  "observe_headroom headroom remaining =
     (case headroom of
        None \<Rightarrow> remaining
      | Some h \<Rightarrow> (if 0 \<le> h \<and> h \<le> int usize_max then min remaining (nat h) else remaining))"

definition every_code_search_query_was_invalid :: "nat \<Rightarrow> nat \<Rightarrow> nat \<Rightarrow> bool" where
  "every_code_search_query_was_invalid query_count calls_attempted invalid_requests \<longleftrightarrow>
     query_count > 0 \<and> calls_attempted = query_count \<and> invalid_requests = query_count"

definition code_match_retry_exhausted :: "int \<Rightarrow> bool" where
  "code_match_retry_exhausted attempts \<longleftrightarrow> attempts \<ge> CODE_MATCH_MAX_ATTEMPTS"

definition generic_code_match_retry_at :: "int \<Rightarrow> time \<Rightarrow> time" where
  "generic_code_match_retry_at attempts now = now + seconds (5 * 2 ^ nat (clamp 0 6 attempts))"

definition code_search_pacing_delay :: "github_rate_limit \<Rightarrow> time \<Rightarrow> time" where
  "code_search_pacing_delay rate_limit now =
     (case rl_retry_after rate_limit of
        Some retry_after \<Rightarrow> retry_after
      | None \<Rightarrow>
          (case (rl_remaining rate_limit, rl_reset_at rate_limit) of
             (Some remaining, Some reset_at) \<Rightarrow>
               (if max remaining 1 \<le> int u32_max \<and> 0 \<le> reset_at - now
                then max ((reset_at - now) div max remaining 1) (seconds 1)
                else CODE_MATCH_DEFAULT_PACE)
           | _ \<Rightarrow> CODE_MATCH_DEFAULT_PACE))"

text \<open>\<open>chrono::Duration::from_std\<close> refuses what exceeds its largest duration.\<close>

definition chrono_max :: time where
  "chrono_max = i64_max * 1000"

definition code_search_retry_at :: "github_rate_limit \<Rightarrow> time \<Rightarrow> time" where
  "code_search_retry_at rate_limit now =
     (let by_reset = (case rl_reset_at rate_limit of
                        Some reset_at \<Rightarrow> (if reset_at > now then reset_at + seconds 1 else now + minutes 1)
                      | None \<Rightarrow> now + minutes 1)
      in case rl_retry_after rate_limit of
           Some retry_after \<Rightarrow> (if retry_after \<le> chrono_max then now + retry_after else by_reset)
         | None \<Rightarrow> by_reset)"

definition new_batch :: "time \<Rightarrow> batch" where
  "new_batch instant =
     \<lparr>bt_search = CODE_MATCH_SEARCH_CALLS_PER_INSTALLATION_BATCH,
      bt_content = CODE_MATCH_CONTENT_FETCHES_PER_INSTALLATION_BATCH,
      bt_next_search_at = instant, bt_quota_retry_at = None,
      bt_heads = (\<lambda>_. None), bt_contents = (\<lambda>_. None)\<rparr>"

definition take_search :: "bool act" where
  "take_search =
     bnd get_batch (\<lambda>b. let (granted, left) = take_budget (bt_search b)
                        in bnd (put_batch (\<lambda>b. b\<lparr>bt_search := left\<rparr>)) (\<lambda>_. ret granted))"

definition take_content :: "bool act" where
  "take_content =
     bnd get_batch (\<lambda>b. let (granted, left) = take_budget (bt_content b)
                        in bnd (put_batch (\<lambda>b. b\<lparr>bt_content := left\<rparr>)) (\<lambda>_. ret granted))"

section \<open>Repositories and file contents\<close>

definition normalized_code_match_repo :: "string \<Rightarrow> string" where
  "normalized_code_match_repo repo = to_ascii_lowercase (trim repo)"

definition same_code_match_repo :: "string \<Rightarrow> string \<Rightarrow> bool" where
  "same_code_match_repo left right \<longleftrightarrow> normalized_code_match_repo left = normalized_code_match_repo right"

definition pinned_file_content_for_failure :: "file_failure \<Rightarrow> pinned_content" where
  "pinned_file_content_for_failure kind =
     (if kind = FileMissing then PinnedMissing else PinnedIncomplete kind)"

fun show_file_failure :: "file_failure \<Rightarrow> string" where
  "show_file_failure FileMissing = ''NotFound''"
| "show_file_failure FileUnauthorized = ''Unauthorized''"
| "show_file_failure FileForbidden = ''Forbidden''"
| "show_file_failure FileServer = ''Server''"
| "show_file_failure FileTimeout = ''Timeout''"
| "show_file_failure FileInvalidResponse = ''InvalidResponse''"
| "show_file_failure FileTransport = ''Transport''"

definition pinned_of_reply :: "source_error + string \<Rightarrow> pinned_content" where
  "pinned_of_reply reply =
     (case reply of
        Inr content \<Rightarrow> PinnedText content
      | Inl e \<Rightarrow> pinned_file_content_for_failure (github_file_content_failure_kind e))"

section \<open>Job outcomes\<close>

datatype job_outcome =
    Continue
  | Backoff (bo_until: time) (bo_error: string)

record incomplete_content =
  ic_reason :: string
  ic_file :: "string option"
  ic_required_content :: int
  ic_pending :: "json option"
  ic_error :: string

definition incomplete_counts_toward_ceiling :: "incomplete_content \<Rightarrow> bool" where
  "incomplete_counts_toward_ceiling ic \<longleftrightarrow> ic_reason ic \<noteq> ''content_budget'' \<or> ic_pending ic \<noteq> None"

section \<open>Releases and dead letters\<close>

definition dead_letter_owned_code_match_job :: "env \<Rightarrow> code_match_job \<Rightarrow> string \<Rightarrow> unit act" where
  "dead_letter_owned_code_match_job env job reason =
     bnd (db_call env (\<lambda>n. dead_letter_code_match_job (ev_now env n) (jb_report_id job)
                             (jb_claim_token job) reason))
       (\<lambda>_. ret ())"

definition release_job :: "env \<Rightarrow> code_match_job \<Rightarrow> time \<Rightarrow> string option \<Rightarrow> unit act" where
  "release_job env job until error =
     db_call env (\<lambda>n. release_code_match_job (jb_report_id job) (jb_claim_token job) until error)"

definition retry_or_dead_letter_code_match_job ::
  "env \<Rightarrow> code_match_job \<Rightarrow> string \<Rightarrow> time option act" where
  "retry_or_dead_letter_code_match_job env job error =
     (if code_match_retry_exhausted (jb_attempts job)
      then bnd (dead_letter_owned_code_match_job env job
                  (''code-match attempt limit '' @ show_int CODE_MATCH_MAX_ATTEMPTS
                   @ '' reached: '' @ error))
             (\<lambda>_. ret None)
      else bnd (observe (ev_now env)) (\<lambda>now.
             let until = generic_code_match_retry_at (jb_attempts job) now
             in bnd (release_job env job until (Some error)) (\<lambda>_. ret (Some until))))"

text \<open>
  The two releases of unsettled verification.  Both charge the verification counter only when the
  failure counts, both end the episode at the ceiling, and both back the installation off unless
  the claim was lost.
\<close>

definition terminate_verification ::
  "env \<Rightarrow> code_match_job \<Rightarrow> string \<Rightarrow> time \<Rightarrow> string \<Rightarrow> job_outcome act" where
  "terminate_verification env job computed_at_sha until reason =
     bnd (db_call env (\<lambda>n. terminally_dead_letter_code_match_verification (ev_uuid env n) (ev_now env n)
            (jb_report_id job) (jb_claim_token job) (jb_attempts job) computed_at_sha reason))
       (\<lambda>terminal. ret (if terminal then Backoff until reason else Continue))"

definition release_for_retry ::
  "env \<Rightarrow> code_match_job \<Rightarrow> retry_target \<Rightarrow> bool \<Rightarrow> time \<Rightarrow> string \<Rightarrow> job_outcome act" where
  "release_for_retry env job target counts until error =
     bnd (db_call env (\<lambda>n. release_code_match_for_verification_retry
            (jb_report_id job) (jb_claim_token job)
            \<lparr>vr_target = target, vr_counts_toward_ceiling = counts, vr_available_at = until,
             vr_error = error\<rparr>))
       (\<lambda>released. ret (if released then Backoff until error else Continue))"

definition release_code_match_after_unproven_pinned_commit ::
  "env \<Rightarrow> code_match_job \<Rightarrow> string \<Rightarrow> string \<Rightarrow> int \<Rightarrow> bool \<Rightarrow> string \<Rightarrow> job_outcome act" where
  "release_code_match_after_unproven_pinned_commit env job computed_at_sha repo_full_name
       verification_retry_count counts error =
     (let next = i32_saturating_add verification_retry_count (if counts then 1 else 0)
      in bnd (observe (ev_now env)) (\<lambda>now.
           let until = generic_code_match_retry_at next now
           in if counts \<and> next \<ge> CODE_MATCH_MAX_VERIFICATION_RETRIES
              then terminate_verification env job computed_at_sha until
                     (''pinned-commit verification retry ceiling ''
                      @ show_int CODE_MATCH_MAX_VERIFICATION_RETRIES @ '' reached: '' @ error)
              else release_for_retry env job
                     (PinnedCommit computed_at_sha (normalized_code_match_repo repo_full_name))
                     counts until error))"

definition release_code_match_after_incomplete_content ::
  "env \<Rightarrow> code_match_job \<Rightarrow> string \<Rightarrow> string \<Rightarrow> int \<Rightarrow> incomplete_content \<Rightarrow> job_outcome act" where
  "release_code_match_after_incomplete_content env job computed_at_sha repo_full_name
       verification_retry_count ic =
     (let counts = incomplete_counts_toward_ceiling ic;
          next = i32_saturating_add verification_retry_count (if counts then 1 else 0)
      in bnd (observe (ev_now env)) (\<lambda>now.
           let until = generic_code_match_retry_at next now
           in if counts \<and> next \<ge> CODE_MATCH_MAX_VERIFICATION_RETRIES
              then terminate_verification env job computed_at_sha until
                     (''content verification retry ceiling ''
                      @ show_int CODE_MATCH_MAX_VERIFICATION_RETRIES @ '' reached: '' @ ic_error ic)
              else release_for_retry env job
                     (Content (ic_reason ic) computed_at_sha (normalized_code_match_repo repo_full_name)
                        (ic_file ic) (ic_required_content ic) (ic_pending ic))
                     counts until (ic_error ic)))"

section \<open>Preflight of a pinned-commit retry\<close>

datatype verification_preflight =
    ProceedWith int
  | StopVerification job_outcome

definition preflight_code_match_verification_retry ::
  "env \<Rightarrow> code_match_job \<Rightarrow> string \<Rightarrow> verification_preflight act" where
  "preflight_code_match_verification_retry env job repo_full_name =
     (case verification_retry job of
        None \<Rightarrow> ret (ProceedWith (jb_retry_count job))
      | Some (computed_at_sha, retry_repo) \<Rightarrow>
          (if \<not> same_code_match_repo retry_repo repo_full_name
           then bnd (db_call env (\<lambda>n. reset_code_match_verification_retry (jb_report_id job)
                                        (jb_claim_token job)))
                  (\<lambda>cleared. ret (if cleared then ProceedWith 0 else StopVerification Continue))
           else bnd (github (CommitCall retry_repo computed_at_sha)
                       (\<lambda>n. ev_commit env n retry_repo computed_at_sha)) (\<lambda>reply.
             case reply of
               Some (e, message) \<Rightarrow>
                 bnd (release_code_match_after_unproven_pinned_commit env job computed_at_sha retry_repo
                        (jb_retry_count job)
                        (counts_toward_verification_ceiling (github_pinned_commit_failure_kind e))
                        (''GitHub pinned commit remains unavailable: '' @ message))
                   (\<lambda>outcome. ret (StopVerification outcome))
             | None \<Rightarrow>
                 bnd (db_call env (\<lambda>n. clear_code_match_verification_retry_marker (jb_report_id job)
                                         (jb_claim_token job)))
                   (\<lambda>cleared. ret (if cleared then ProceedWith (jb_retry_count job)
                                   else StopVerification Continue)))))"

section \<open>Preflight of a content retry\<close>

datatype content_preflight =
    Fresh int
  | RetrySha string int
  | Resume string int pending_verification
  | StopContent job_outcome

definition required_slice :: "int \<Rightarrow> nat" where
  "required_slice required_content =
     min (if 0 \<le> required_content then nat required_content else usize_max)
       CODE_MATCH_CONTENT_FETCHES_PER_INSTALLATION_BATCH"

definition content_key :: "string \<Rightarrow> string \<Rightarrow> string \<Rightarrow> string \<times> string \<times> string" where
  "content_key repo sha file = (normalized_code_match_repo repo, sha, file)"

definition store_content :: "string \<times> string \<times> string \<Rightarrow> pinned_content \<Rightarrow> unit act" where
  "store_content key content = put_batch (\<lambda>b. b\<lparr>bt_contents := (bt_contents b)(key := Some content)\<rparr>)"

definition stop_content :: "job_outcome act \<Rightarrow> content_preflight act" where
  "stop_content m = bnd m (\<lambda>outcome. ret (StopContent outcome))"

text \<open>The file of a \<open>content_fetch\<close> retry is fetched again before anything else.\<close>

definition refetch_content ::
  "env \<Rightarrow> code_match_job \<Rightarrow> content_retry \<Rightarrow> job_outcome option act" where
  "refetch_content env job retry =
     (case cr_file retry of
        None \<Rightarrow> fail ''content-fetch retry is missing its file''
      | Some file \<Rightarrow>
          bnd take_content (\<lambda>granted.
            if \<not> granted then fail ''reserved content retry budget disappeared''
            else bnd (github (FileCall (cr_repo_full_name retry) file (cr_computed_at_sha retry))
                        (\<lambda>n. ev_file env n (cr_repo_full_name retry) file (cr_computed_at_sha retry)))
              (\<lambda>reply. let content = pinned_of_reply reply in
                case content of
                  PinnedIncomplete kind \<Rightarrow>
                    bnd (release_code_match_after_incomplete_content env job (cr_computed_at_sha retry)
                           (cr_repo_full_name retry) (jb_retry_count job)
                           \<lparr>ic_reason = ''content_fetch'', ic_file = Some file,
                            ic_required_content = cr_required_content retry,
                            ic_pending = cr_candidates retry,
                            ic_error = ''GitHub pinned file remains unverifiable at the retry SHA: ''
                                       @ show_file_failure kind\<rparr>)
                      (\<lambda>outcome. ret (Some outcome))
                | _ \<Rightarrow>
                    bnd (store_content (content_key (cr_repo_full_name retry) (cr_computed_at_sha retry)
                           file) content)
                      (\<lambda>_. ret None))))"

definition preflight_code_match_content_retry ::
  "env \<Rightarrow> code_match_job \<Rightarrow> string \<Rightarrow> int \<Rightarrow> content_preflight act" where
  "preflight_code_match_content_retry env job repo_full_name verification_retry_count =
     (case content_retry_of job of
        None \<Rightarrow> ret (Fresh verification_retry_count)
      | Some retry \<Rightarrow>
          (if \<not> same_code_match_repo (cr_repo_full_name retry) repo_full_name
           then bnd (db_call env (\<lambda>n. reset_code_match_verification_retry (jb_report_id job)
                                        (jb_claim_token job)))
                  (\<lambda>cleared. ret (if cleared then Fresh 0 else StopContent Continue))
           else
             bnd get_batch (\<lambda>b.
               let slice = required_slice (cr_required_content retry)
               in if bt_content b < slice
                  then stop_content
                    (release_code_match_after_incomplete_content env job (cr_computed_at_sha retry)
                       (cr_repo_full_name retry) (jb_retry_count job)
                       \<lparr>ic_reason = cr_reason retry, ic_file = cr_file retry,
                        ic_required_content = cr_required_content retry,
                        ic_pending = cr_candidates retry,
                        ic_error = ''content verification needs a '' @ show_nat slice
                          @ ''-fetch slice but only '' @ show_nat (bt_content b) @ '' remain''\<rparr>)
                  else
                    bnd (if cr_reason retry = ''content_fetch'' then refetch_content env job retry
                         else ret None)
                      (\<lambda>stopped. case stopped of
                          Some outcome \<Rightarrow> ret (StopContent outcome)
                        | None \<Rightarrow>
                            (case cr_candidates retry of
                               None \<Rightarrow> ret (RetrySha (cr_computed_at_sha retry) (jb_retry_count job))
                             | Some candidates \<Rightarrow>
                                 (case pending_from_value candidates of
                                    None \<Rightarrow> fail ''code-match pending verification payload was invalid''
                                  | Some pending \<Rightarrow>
                                      ret (Resume (cr_computed_at_sha retry) (jb_retry_count job)
                                             pending)))))))"

section \<open>Resolving search hits against the pinned commit\<close>

datatype resolution =
    Resolved "code_search_matches list" verification_tracker
  | Unresolved incomplete_content

definition drop_fragmentless_code_search_candidates ::
  "github_candidate list \<Rightarrow> verification_tracker \<Rightarrow> github_candidate list \<times> verification_tracker" where
  "drop_fragmentless_code_search_candidates candidates t =
     (filter needs_content candidates,
      fold (\<lambda>c t. if needs_content c then t else observe_unverified_drop 1 t) candidates t)"

definition pending_candidates :: "pending_verification \<Rightarrow> github_candidate list" where
  "pending_candidates p = concat (map pm_candidates (pv_pending p))"

definition pending_code_match_content_files :: "pending_verification \<Rightarrow> nat" where
  "pending_code_match_content_files p = length (remdups (map gc_file (pending_candidates p)))"

definition incomplete_pending_code_match_content ::
  "pending_verification \<Rightarrow> string \<Rightarrow> string option \<Rightarrow> string \<Rightarrow> incomplete_content" where
  "incomplete_pending_code_match_content p reason file error =
     (let files = pending_code_match_content_files p;
          required_content = (if int files \<le> i32_max then int files else i32_max)
      in \<lparr>ic_reason = reason, ic_file = file, ic_required_content = max required_content 1,
          ic_pending = Some (pending_to_value p), ic_error = error\<rparr>)"

definition next_pending_file :: "pending_verification \<Rightarrow> string option" where
  "next_pending_file p = (case pending_candidates p of [] \<Rightarrow> None | c # _ \<Rightarrow> Some (gc_file c))"

text \<open>
  The candidates of one query against the content of one file: the other files' candidates stay,
  the file's own are counted and verified, dropped as absent, or kept as provisionally missing.
  An incomplete content never gets here; the source marks that case unreachable.
\<close>

fun resolve_candidates ::
  "string \<Rightarrow> pinned_content \<Rightarrow> github_candidate list
   \<Rightarrow> github_candidate list \<times> code_search_candidate list \<times> verification_tracker
   \<Rightarrow> github_candidate list \<times> code_search_candidate list \<times> verification_tracker" where
  "resolve_candidates file content [] (remaining, resolved, t) = (remaining, resolved, t)"
| "resolve_candidates file content (c # cs) (remaining, resolved, t) =
     (if gc_file c \<noteq> file
      then resolve_candidates file content cs (remaining @ [c], resolved, t)
      else
        (let t = observe_candidates 1 t
         in case content of
              PinnedText text \<Rightarrow>
                (case verify_against_pinned_content c text of
                   Some v \<Rightarrow> resolve_candidates file content cs (remaining, resolved @ [v], t)
                 | None \<Rightarrow> resolve_candidates file content cs (remaining, resolved, observe_absent 1 t))
            | PinnedMissing \<Rightarrow>
                resolve_candidates file content cs (remaining, resolved @ [into_file_not_found c], t)
            | PinnedIncomplete _ \<Rightarrow> resolve_candidates file content cs (remaining, resolved, t)))"

text \<open>\<open>zip\<close>: a query without its counterpart is left as it is.\<close>

fun resolve_file ::
  "string \<Rightarrow> pinned_content \<Rightarrow> pending_matches list \<Rightarrow> code_search_matches list \<Rightarrow> verification_tracker
   \<Rightarrow> pending_matches list \<times> code_search_matches list \<times> verification_tracker" where
  "resolve_file file content (p # ps) (m # ms) t =
     (let (remaining, resolved, t1) =
            resolve_candidates file content (pm_candidates p) ([], m_candidates m, t);
          (ps', ms', t2) = resolve_file file content ps ms t1
      in (p\<lparr>pm_candidates := remaining\<rparr> # ps', m\<lparr>m_candidates := resolved\<rparr> # ms', t2))"
| "resolve_file file content ps ms t = (ps, ms, t)"

datatype resolve_next =
    ResolveDone resolution
  | ResolveMore pending_verification

definition fetch_pinned :: "env \<Rightarrow> string \<Rightarrow> string \<Rightarrow> string \<Rightarrow> pinned_content act" where
  "fetch_pinned env repo_full_name file sha =
     bnd (github (FileCall repo_full_name file sha) (\<lambda>n. ev_file env n repo_full_name file sha))
       (\<lambda>reply. bnd (store_content (content_key repo_full_name sha file) (pinned_of_reply reply))
          (\<lambda>_. ret (pinned_of_reply reply)))"

definition resolve_with ::
  "string \<Rightarrow> pending_verification \<Rightarrow> pinned_content \<Rightarrow> resolve_next" where
  "resolve_with file p content =
     (case content of
        PinnedIncomplete kind \<Rightarrow>
          ResolveDone (Unresolved (incomplete_pending_code_match_content p ''content_fetch'' (Some file)
            (''GitHub pinned file could not be verified: '' @ show_file_failure kind)))
      | _ \<Rightarrow>
          (let (ps, ms, t) = resolve_file file content (pv_pending p) (pv_resolved p) (pv_tracker p)
           in ResolveMore \<lparr>pv_pending = ps, pv_resolved = ms, pv_tracker = t\<rparr>))"

definition resolve_step ::
  "env \<Rightarrow> string \<Rightarrow> string \<Rightarrow> pending_verification \<Rightarrow> resolve_next act" where
  "resolve_step env repo_full_name computed_at_sha p =
     (case next_pending_file p of
        None \<Rightarrow> ret (ResolveDone (Resolved (pv_resolved p) (pv_tracker p)))
      | Some file \<Rightarrow>
          bnd get_batch (\<lambda>b.
            case bt_contents b (content_key repo_full_name computed_at_sha file) of
              Some content \<Rightarrow> ret (resolve_with file p content)
            | None \<Rightarrow>
                bnd take_content (\<lambda>granted.
                  if \<not> granted
                  then ret (ResolveDone (Unresolved (incomplete_pending_code_match_content p
                         ''content_budget'' None
                         ''installation content-verification slice was exhausted; pending candidates were preserved'')))
                  else bnd (fetch_pinned env repo_full_name file computed_at_sha)
                         (\<lambda>content. ret (resolve_with file p content)))))"

text \<open>
  The loop.  It runs until no candidate is pending, so it would not return on a payload with more
  pending queries than resolved ones; \<open>None\<close> is that case.
\<close>

partial_function (option) resolve_pending_code_search_candidates ::
  "env \<Rightarrow> string \<Rightarrow> string \<Rightarrow> pending_verification \<Rightarrow> resolution act" where
  "resolve_pending_code_search_candidates env repo_full_name computed_at_sha p w =
     (case resolve_step env repo_full_name computed_at_sha p w of
        None \<Rightarrow> None
      | Some (r, w') \<Rightarrow>
          (case r of
             Inl e \<Rightarrow> Some (Inl e, w')
           | Inr next \<Rightarrow>
               (case next of
                  ResolveDone res \<Rightarrow> Some (Inr res, w')
                | ResolveMore p' \<Rightarrow>
                    resolve_pending_code_search_candidates env repo_full_name computed_at_sha p' w')))"

declare resolve_pending_code_search_candidates.simps [code]

section \<open>Searching\<close>

record search_progress =
  sp_calls_attempted :: nat
  sp_successful_queries :: nat
  sp_invalid_request_errors :: "string list"
  sp_pending :: pending_verification

definition search_start :: search_progress where
  "search_start = \<lparr>sp_calls_attempted = 0, sp_successful_queries = 0, sp_invalid_request_errors = [],
     sp_pending = \<lparr>pv_pending = [], pv_resolved = [], pv_tracker = tracker_default\<rparr>\<rparr>"

datatype search_next =
    SearchDone search_progress
  | SearchReturn job_outcome

definition record_call :: "env \<Rightarrow> code_match_job \<Rightarrow> int option \<Rightarrow> bool \<Rightarrow> unit act" where
  "record_call env job headroom hit =
     db_call env (\<lambda>n. record_code_match_call (ev_uuid env n) (jb_report_id job) headroom hit
                        (min i64_max (ev_latency env n)))"

text \<open>A successful search: the hits with a fragment wait for verification.\<close>

definition search_hit ::
  "env \<Rightarrow> code_match_job \<Rightarrow> code_search_query \<Rightarrow> search_result \<Rightarrow> search_progress \<Rightarrow> search_progress act" where
  "search_hit env job query result s =
     bnd (record_call env job (rl_remaining (sr_rate_limit result)) (sr_candidates result \<noteq> [])) (\<lambda>_.
     bnd (observe (ev_now env)) (\<lambda>now.
     bnd (observe (ev_instant env)) (\<lambda>instant.
     bnd (observe (ev_now env)) (\<lambda>later.
       let rate = sr_rate_limit result;
           p = sp_pending s;
           (candidates, t) = drop_fragmentless_code_search_candidates (sr_candidates result) (pv_tracker p)
       in bnd (put_batch (\<lambda>b. b\<lparr>
                 bt_search := observe_headroom (rl_remaining rate) (bt_search b),
                 bt_next_search_at := instant + code_search_pacing_delay rate now,
                 bt_quota_retry_at := (if rl_remaining rate = Some 0
                                       then Some (code_search_retry_at rate later)
                                       else bt_quota_retry_at b)\<rparr>))
            (\<lambda>_. ret (s\<lparr>sp_calls_attempted := sp_calls_attempted s + 1,
                       sp_successful_queries := sp_successful_queries s + 1,
                       sp_pending :=
                         \<lparr>pv_pending = pv_pending p @ [\<lparr>pm_query = query, pm_candidates = candidates\<rparr>],
                          pv_resolved = pv_resolved p @ [\<lparr>m_query = query, m_candidates = []\<rparr>],
                          pv_tracker = t\<rparr>\<rparr>))))))"

definition search_failed ::
  "env \<Rightarrow> code_match_job \<Rightarrow> search_error \<Rightarrow> string \<Rightarrow> search_progress \<Rightarrow> search_next act" where
  "search_failed env job e message s =
     bnd (record_call env job (rl_remaining (se_rate_limit e)) False) (\<lambda>_.
       let s = s\<lparr>sp_calls_attempted := sp_calls_attempted s + 1\<rparr>
       in if se_kind e = SearchRateLimit then
            bnd (observe (ev_now env)) (\<lambda>now.
              let until = code_search_retry_at (se_rate_limit e) now
              in bnd (release_job env job until (Some message))
                   (\<lambda>_. ret (SearchReturn (Backoff until message))))
          else if se_kind e = SearchInvalidRequest then
            ret (SearchDone (s\<lparr>sp_invalid_request_errors := sp_invalid_request_errors s @ [message]\<rparr>))
          else if se_kind e = SearchForbidden then
            bnd (dead_letter_owned_code_match_job env job
                   (''permanent GitHub code-search failure: '' @ message))
              (\<lambda>_. ret (SearchReturn Continue))
          else
            bnd (retry_or_dead_letter_code_match_job env job message)
              (\<lambda>until. ret (SearchReturn
                 (case until of None \<Rightarrow> Continue | Some t \<Rightarrow> Backoff t message))))"

definition search_once ::
  "env \<Rightarrow> code_match_job \<Rightarrow> code_search_query \<Rightarrow> search_progress \<Rightarrow> search_next act" where
  "search_once env job query s =
     bnd get_batch (\<lambda>b.
     bnd (github (SearchCall (q_expression query) (bt_next_search_at b))
            (\<lambda>n. ev_search env n (q_expression query))) (\<lambda>reply.
       case reply of
         Inr result \<Rightarrow> bnd (search_hit env job query result s) (\<lambda>s'. ret (SearchDone s'))
       | Inl (e, message) \<Rightarrow> search_failed env job e message s))"

fun search_queries ::
  "env \<Rightarrow> code_match_job \<Rightarrow> code_search_query list \<Rightarrow> search_progress \<Rightarrow> search_next act" where
  "search_queries env job [] s = ret (SearchDone s)"
| "search_queries env job (q # qs) s =
     bnd take_search (\<lambda>granted.
       if \<not> granted then ret (SearchDone s)
       else bnd (search_once env job q s) (\<lambda>next.
              case next of
                SearchReturn outcome \<Rightarrow> ret (SearchReturn outcome)
              | SearchDone s' \<Rightarrow> search_queries env job qs s'))"

definition job_queries :: "code_match_job \<Rightarrow> string \<Rightarrow> code_search_query list" where
  "job_queries job repo_full_name =
     derive_queries \<lparr>ci_repo_full_name = repo_full_name, ci_path_prefix = jb_path_prefix job,
       ci_operation = jb_operation job, ci_surface = jb_surface job,
       ci_runtime_hint = jb_runtime_hint job, ci_findings = stored_findings (jb_findings job)\<rparr>"

datatype pending_phase =
    PhaseStop job_outcome
  | PhasePending pending_verification

definition search_candidates :: "env \<Rightarrow> code_match_job \<Rightarrow> string \<Rightarrow> pending_phase act" where
  "search_candidates env job repo_full_name =
     (let queries = job_queries job repo_full_name; query_count = length queries
      in bnd (search_queries env job queries search_start) (\<lambda>next.
           case next of
             SearchReturn outcome \<Rightarrow> ret (PhaseStop outcome)
           | SearchDone s \<Rightarrow>
               (if every_code_search_query_was_invalid query_count (sp_calls_attempted s)
                     (length (sp_invalid_request_errors s))
                then bnd (dead_letter_owned_code_match_job env job
                            (''all '' @ show_nat query_count @ '' GitHub code-search queries were invalid: ''
                             @ join ''; '' (sp_invalid_request_errors s)))
                       (\<lambda>_. ret (PhaseStop Continue))
                else if query_count > 0 \<and> sp_successful_queries s = 0
                then bnd get_batch (\<lambda>b. bnd (observe (ev_now env)) (\<lambda>now.
                       let until = (case bt_quota_retry_at b of Some t \<Rightarrow> t | None \<Rightarrow> now + minutes 1);
                           error = (case rev (sp_invalid_request_errors s) of [] \<Rightarrow> None | e # _ \<Rightarrow> Some e)
                       in bnd (release_job env job until error) (\<lambda>_. ret (PhaseStop Continue))))
                else ret (PhasePending (sp_pending s)))))"

section \<open>Settling a job\<close>

definition code_hints_json :: "code_hint_candidate list \<Rightarrow> json" where
  "code_hints_json hints =
     JArr (map (\<lambda>h. JObj [(''file'', JStr (h_file h)),
                         (''line_start'', to_option to_usize (h_line_start h)),
                         (''line_end'', to_option to_usize (h_line_end h)),
                         (''match_reason'', JStr (h_match_reason h)),
                         (''verified'', JBool True)])
            (filter h_verified hints))"

definition stored_outcome :: "code_hint_candidate list \<Rightarrow> nat \<Rightarrow> verification_outcome \<Rightarrow> string" where
  "stored_outcome hints unverified_dropped vo =
     (if hints = [] then
        (if unverified_dropped > 0 then ''unverified_dropped''
         else if vo_dropped_as_absent vo > 0 then ''proven_absent''
         else ''no_match'')
      else ''matched'')"

definition has_provisional_absence :: "code_search_matches list \<Rightarrow> bool" where
  "has_provisional_absence ms \<longleftrightarrow> list_ex (\<lambda>m. list_ex is_file_not_found (m_candidates m)) ms"

definition completion_of ::
  "code_match_job \<Rightarrow> string \<Rightarrow> code_search_matches list \<Rightarrow> verification_tracker \<Rightarrow> code_match_completion" where
  "completion_of job computed_at_sha ms t =
     (let hints = rank_matches ms; vo = tracker_finish t ms
      in \<lparr>cc_attempt = jb_attempts job, cc_computed_at_sha = computed_at_sha,
          cc_hints = code_hints_json hints, cc_verification = vo,
          cc_outcome = stored_outcome hints (vt_unverified_dropped t) vo\<rparr>)"

definition complete_job :: "env \<Rightarrow> code_match_job \<Rightarrow> code_match_completion \<Rightarrow> job_outcome act" where
  "complete_job env job completion =
     bnd (db_call env (\<lambda>n. complete_code_match_job (ev_uuid env n) (ev_now env n) (jb_report_id job)
                             (jb_claim_token job) completion))
       (\<lambda>_. ret Continue)"

text \<open>
  A missing file is only taken for absence once this very commit has been fetched: GitHub answers
  404 for a missing path, for lost access and for an unavailable commit alike.
\<close>

definition settle_and_complete_code_match_job ::
  "env \<Rightarrow> code_match_job \<Rightarrow> string \<Rightarrow> string \<Rightarrow> code_search_matches list \<Rightarrow> verification_tracker \<Rightarrow> int
   \<Rightarrow> job_outcome act" where
  "settle_and_complete_code_match_job env job repo_full_name computed_at_sha ms t retry_count =
     (if has_provisional_absence ms
      then bnd (github (CommitCall repo_full_name computed_at_sha)
                  (\<lambda>n. ev_commit env n repo_full_name computed_at_sha)) (\<lambda>reply.
             case reply of
               Some (e, message) \<Rightarrow>
                 release_code_match_after_unproven_pinned_commit env job computed_at_sha repo_full_name
                   retry_count (counts_toward_verification_ceiling (github_pinned_commit_failure_kind e))
                   (''GitHub pinned commit could not be verified: '' @ message)
             | None \<Rightarrow>
                 (let (settled, dropped) = settle_file_not_found_candidates ms
                  in complete_job env job
                       (completion_of job computed_at_sha settled (observe_absent dropped t))))
      else complete_job env job (completion_of job computed_at_sha ms t))"

section \<open>Processing a job\<close>

text \<open>The commit a fresh job is pinned to: the branch head, looked up once per batch.\<close>

definition head_sha ::
  "env \<Rightarrow> code_match_job \<Rightarrow> string \<Rightarrow> string \<Rightarrow> (job_outcome + string) act" where
  "head_sha env job repo_full_name default_branch =
     bnd get_batch (\<lambda>b.
       case bt_heads b (repo_full_name, default_branch) of
         Some sha \<Rightarrow> ret (Inr sha)
       | None \<Rightarrow>
           bnd (github (HeadCall repo_full_name default_branch)
                  (\<lambda>n. ev_head env n repo_full_name default_branch)) (\<lambda>reply.
             case reply of
               Inr sha \<Rightarrow>
                 bnd (put_batch (\<lambda>b. b\<lparr>bt_heads := (bt_heads b)((repo_full_name, default_branch) := Some sha)\<rparr>))
                   (\<lambda>_. ret (Inr sha))
             | Inl e \<Rightarrow>
                 (let message = ''GitHub repository HEAD failed: '' @ e
                  in bnd (retry_or_dead_letter_code_match_job env job message)
                       (\<lambda>until. ret (Inl (case until of None \<Rightarrow> Continue | Some t \<Rightarrow> Backoff t message))))))"

text \<open>The pinned commit, the retry count and the candidates to resume with, or the early return.\<close>

definition choose_commit ::
  "env \<Rightarrow> code_match_job \<Rightarrow> string \<Rightarrow> string \<Rightarrow> content_preflight
   \<Rightarrow> (job_outcome + string \<times> int \<times> pending_verification option) act" where
  "choose_commit env job repo_full_name default_branch preflight =
     (case preflight of
        RetrySha sha count \<Rightarrow> ret (Inr (sha, count, None))
      | Resume sha count pending \<Rightarrow> ret (Inr (sha, count, Some pending))
      | StopContent outcome \<Rightarrow> ret (Inl outcome)
      | Fresh count \<Rightarrow>
          bnd (head_sha env job repo_full_name default_branch) (\<lambda>head.
            case head of
              Inl outcome \<Rightarrow> ret (Inl outcome)
            | Inr sha \<Rightarrow>
                bnd get_batch (\<lambda>b.
                  if bt_content b = 0
                  then bnd (release_code_match_after_incomplete_content env job sha repo_full_name count
                              \<lparr>ic_reason = ''content_budget'', ic_file = None, ic_required_content = 1,
                               ic_pending = None,
                               ic_error = ''installation lacks a complete content-verification slice before search''\<rparr>)
                         (\<lambda>outcome. ret (Inl outcome))
                  else ret (Inr (sha, count, None)))))"

definition finish_job ::
  "env \<Rightarrow> code_match_job \<Rightarrow> string \<Rightarrow> string \<Rightarrow> int \<Rightarrow> pending_verification \<Rightarrow> job_outcome act" where
  "finish_job env job repo_full_name sha count pending =
     bnd (resolve_pending_code_search_candidates env repo_full_name sha pending) (\<lambda>res.
       case res of
         Unresolved ic \<Rightarrow> release_code_match_after_incomplete_content env job sha repo_full_name count ic
       | Resolved ms t \<Rightarrow> settle_and_complete_code_match_job env job repo_full_name sha ms t count)"

definition process_commit ::
  "env \<Rightarrow> code_match_job \<Rightarrow> string \<Rightarrow> job_outcome + string \<times> int \<times> pending_verification option
   \<Rightarrow> job_outcome act" where
  "process_commit env job repo_full_name commit =
     (case commit of
        Inl outcome \<Rightarrow> ret outcome
      | Inr (sha, count, resumed) \<Rightarrow>
          (case resumed of
             Some pending \<Rightarrow> finish_job env job repo_full_name sha count pending
           | None \<Rightarrow>
               bnd (search_candidates env job repo_full_name) (\<lambda>phase.
                 case phase of
                   PhaseStop outcome \<Rightarrow> ret outcome
                 | PhasePending pending \<Rightarrow> finish_job env job repo_full_name sha count pending)))"

definition process_content ::
  "env \<Rightarrow> code_match_job \<Rightarrow> string \<Rightarrow> string \<Rightarrow> content_preflight \<Rightarrow> job_outcome act" where
  "process_content env job repo_full_name default_branch cp =
     bnd (choose_commit env job repo_full_name default_branch cp) (process_commit env job repo_full_name)"

definition process_with_repo ::
  "env \<Rightarrow> code_match_job \<Rightarrow> string \<Rightarrow> string \<Rightarrow> job_outcome act" where
  "process_with_repo env job repo_full_name default_branch =
     bnd (preflight_code_match_verification_retry env job repo_full_name) (\<lambda>vp.
       case vp of
         StopVerification outcome \<Rightarrow> ret outcome
       | ProceedWith count \<Rightarrow>
           bnd (preflight_code_match_content_retry env job repo_full_name count)
             (process_content env job repo_full_name default_branch))"

definition process_code_match_job :: "env \<Rightarrow> code_match_job \<Rightarrow> job_outcome act" where
  "process_code_match_job env job =
     (case jb_repo_full_name job of
        None \<Rightarrow> fail ''claimed code-match job is missing its repository''
      | Some repo_full_name \<Rightarrow>
          (case jb_default_branch job of
             None \<Rightarrow> fail ''claimed code-match job is missing its default branch''
           | Some default_branch \<Rightarrow> process_with_repo env job repo_full_name default_branch))"

section \<open>Draining a batch\<close>

definition mapping_changed :: "code_match_job \<Rightarrow> string \<Rightarrow> bool" where
  "mapping_changed job retry_repo =
     (case jb_repo_full_name job of None \<Rightarrow> False | Some repo \<Rightarrow> \<not> same_code_match_repo repo retry_repo)"

definition reset_and_retry :: "env \<Rightarrow> code_match_job \<Rightarrow> string \<Rightarrow> unit act" where
  "reset_and_retry env job message =
     bnd (db_call env (\<lambda>n. reset_code_match_verification_retry (jb_report_id job) (jb_claim_token job)))
       (\<lambda>cleared. if cleared
                  then bnd (retry_or_dead_letter_code_match_job env job message) (\<lambda>_. ret ())
                  else ret ())"

definition release_after_token_failure :: "env \<Rightarrow> string \<Rightarrow> code_match_job \<Rightarrow> unit act" where
  "release_after_token_failure env message job =
     (case verification_retry job of
        Some (sha, retry_repo) \<Rightarrow>
          (if mapping_changed job retry_repo then reset_and_retry env job message
           else bnd (release_code_match_after_unproven_pinned_commit env job sha retry_repo
                       (jb_retry_count job) False message)
                  (\<lambda>_. ret ()))
      | None \<Rightarrow>
          (case content_retry_of job of
             Some retry \<Rightarrow>
               (if mapping_changed job (cr_repo_full_name retry) then reset_and_retry env job message
                else bnd (release_code_match_after_incomplete_content env job (cr_computed_at_sha retry)
                            (cr_repo_full_name retry) (jb_retry_count job)
                            \<lparr>ic_reason = cr_reason retry, ic_file = cr_file retry,
                             ic_required_content = cr_required_content retry,
                             ic_pending = cr_candidates retry, ic_error = message\<rparr>)
                       (\<lambda>_. ret ()))
           | None \<Rightarrow> bnd (retry_or_dead_letter_code_match_job env job message) (\<lambda>_. ret ())))"

fun process_jobs :: "env \<Rightarrow> code_match_job list \<Rightarrow> unit act" where
  "process_jobs env [] = ret ()"
| "process_jobs env (job # rest) =
     bnd (process_code_match_job env job) (\<lambda>outcome.
       case outcome of
         Continue \<Rightarrow> process_jobs env rest
       | Backoff until error \<Rightarrow> for_each (\<lambda>pending. release_job env pending until (Some error)) rest)"

definition drain_installation :: "env \<Rightarrow> int \<times> code_match_job list \<Rightarrow> unit act" where
  "drain_installation env batch_group =
     (case batch_group of (installation_id, jobs) \<Rightarrow>
        bnd (github (TokenCall installation_id) (\<lambda>n. ev_token env n installation_id)) (\<lambda>failed.
          case failed of
            Some error \<Rightarrow>
              for_each (release_after_token_failure env (''GitHub installation token failed: '' @ error)) jobs
          | None \<Rightarrow>
              bnd (observe (ev_instant env)) (\<lambda>instant.
              bnd (put_batch (\<lambda>_. new_batch instant)) (\<lambda>_. process_jobs env jobs))))"

definition active_installation_id :: "code_match_job \<Rightarrow> int option" where
  "active_installation_id job = (if jb_installation_active job then jb_installation_id job else None)"

text \<open>\<open>BTreeMap<i64, Vec<..>>\<close>: the groups in the order of their ids, each in the order of its jobs.\<close>

definition jobs_by_installation :: "code_match_job list \<Rightarrow> (int \<times> code_match_job list) list" where
  "jobs_by_installation jobs =
     map (\<lambda>i. (i, filter (\<lambda>j. active_installation_id j = Some i) jobs))
       (sort (remdups (List.map_filter active_installation_id jobs)))"

definition drain_code_match_batch :: "env \<Rightarrow> code_match_job list \<Rightarrow> unit act" where
  "drain_code_match_batch env jobs =
     bnd (for_each (\<lambda>job. if active_installation_id job = None
                         then dead_letter_owned_code_match_job env job
                                ''repository mapping or GitHub installation was removed''
                         else ret ()) jobs)
       (\<lambda>_. for_each (drain_installation env) (jobs_by_installation jobs))"

section \<open>One round of the worker\<close>

text \<open>A failed statement or step is logged by the caller; the round itself goes on.\<close>

definition attempt :: "'a act \<Rightarrow> (string + 'a) act" where
  "attempt m w = (case m w of None \<Rightarrow> None | Some (r, w') \<Rightarrow> Some (Inr r, w'))"

definition claim_batch :: "env \<Rightarrow> code_match_job list act" where
  "claim_batch env =
     bnd (observe (ev_now env)) (\<lambda>now.
       db_call env (\<lambda>n. claim_code_match_batch (ev_uuid env n) (ev_now env n) (ev_locked env n)
                          CODE_MATCH_BATCH_SIZE (now - CODE_MATCH_STALE_CLAIM_AGE)))"

definition code_match_round :: "env \<Rightarrow> unit act" where
  "code_match_round env =
     bnd (attempt (claim_batch env)) (\<lambda>claimed.
       case claimed of
         Inl _ \<Rightarrow> ret ()
       | Inr [] \<Rightarrow> ret ()
       | Inr (job # jobs) \<Rightarrow>
           bnd (attempt (drain_code_match_batch env (job # jobs))) (\<lambda>drained.
             case drained of
               Inr _ \<Rightarrow> ret ()
             | Inl error \<Rightarrow>
                 bnd (observe (ev_now env)) (\<lambda>now.
                 bnd (attempt (db_call env (\<lambda>n. release_code_match_claim (jb_claim_token job)
                                (now + seconds 30) error)))
                   (\<lambda>_. ret ()))))"

end
