(* ===== verification/CodeMatchWorkerCalls.thy ===== *)
theory CodeMatchWorkerCalls
  imports CodeMatchWorker
begin

text \<open>
  What the code-match worker asks of GitHub: it stays within its budgets, it never repeats a
  search whose hits it still holds, and it proves a doubtful commit before anything else.
\<close>

section \<open>Relations that only look at calls and budgets\<close>

text \<open>
  A relation that ignores the clock and the database.  Every step that makes no GitHub call and
  leaves the batch alone satisfies it.
\<close>

locale call_relation =
  fixes R :: "world \<Rightarrow> world \<Rightarrow> bool"
  assumes refl: "R w w"
    and trans: "R u v \<Longrightarrow> R v w \<Longrightarrow> R u w"
    and quiet: "R w (w\<lparr>w_tick := n, w_db := db\<rparr>)"
begin

lemma preorder: "preorder_rel R"
  unfolding preorder_rel_def using refl trans by blast

lemmas rules = steps_ret [OF preorder] steps_fail [OF preorder] steps_get_batch [OF preorder]
  steps_bnd [OF preorder] steps_for_each [OF preorder]

lemma steps_observe: "steps R (observe f)"
proof -
  have "R w (w\<lparr>w_tick := n\<rparr>)" for w n using quiet [of w "w_db w" n] by simp
  then show ?thesis by (simp add: steps_def observe_def)
qed

lemma steps_db_call: "steps R (db_call env stmt)"
  unfolding steps_def
proof (intro allI impI)
  fix w r w'
  assume "db_call env stmt w = Some (r, w')"
  then have "\<exists>db. w' = w\<lparr>w_tick := Suc (w_tick w), w_db := db\<rparr>"
    by (auto simp: db_call_def Let_def split: sum.splits)
  then show "R w w'" using quiet by blast
qed

lemma steps_dead_letter: "steps R (dead_letter_owned_code_match_job env job reason)"
  unfolding dead_letter_owned_code_match_job_def by (intro rules steps_db_call)

lemma steps_release_job: "steps R (release_job env job until error)"
  unfolding release_job_def by (rule steps_db_call)

lemma steps_retry: "steps R (retry_or_dead_letter_code_match_job env job error)"
  unfolding retry_or_dead_letter_code_match_job_def Let_def
  by (simp add: rules steps_observe steps_dead_letter steps_release_job)

lemma steps_terminate: "steps R (terminate_verification env job sha until reason)"
  unfolding terminate_verification_def by (intro rules steps_db_call)

lemma steps_release_for_retry: "steps R (release_for_retry env job target counts until error)"
  unfolding release_for_retry_def by (intro rules steps_db_call)

lemma steps_unproven:
  "steps R (release_code_match_after_unproven_pinned_commit env job sha repo count counts error)"
  unfolding release_code_match_after_unproven_pinned_commit_def Let_def
  by (simp add: rules steps_observe steps_terminate steps_release_for_retry)

lemma steps_incomplete:
  "steps R (release_code_match_after_incomplete_content env job sha repo count ic)"
  unfolding release_code_match_after_incomplete_content_def Let_def
  by (simp add: rules steps_observe steps_terminate steps_release_for_retry)

lemma steps_record_call: "steps R (record_call env job headroom hit)"
  unfolding record_call_def by (rule steps_db_call)

lemma steps_complete_job: "steps R (complete_job env job completion)"
  unfolding complete_job_def by (intro rules steps_db_call)

lemma steps_reset_and_retry: "steps R (reset_and_retry env job message)"
  unfolding reset_and_retry_def by (simp add: rules steps_db_call steps_retry)

lemma steps_token_failure: "steps R (release_after_token_failure env message job)"
  unfolding release_after_token_failure_def Let_def
  by (auto simp: rules steps_reset_and_retry steps_unproven steps_incomplete steps_retry
      split: option.split)

lemma steps_search_failed: "steps R (search_failed env job e message s)"
  unfolding search_failed_def Let_def
  by (simp add: rules steps_observe steps_record_call steps_release_job steps_dead_letter steps_retry)

lemmas quiet_steps = steps_observe steps_db_call steps_dead_letter steps_release_job steps_retry
  steps_unproven steps_incomplete steps_record_call steps_complete_job steps_token_failure
  steps_search_failed

end

section \<open>Call counts\<close>

fun is_search :: "github_call \<Rightarrow> bool" where
  "is_search (SearchCall q t) = True"
| "is_search _ = False"

fun is_fetch :: "github_call \<Rightarrow> bool" where
  "is_fetch (FileCall repo file sha) = True"
| "is_fetch _ = False"

definition calls_of :: "(github_call \<Rightarrow> bool) \<Rightarrow> world \<Rightarrow> nat" where
  "calls_of p w = length (filter p (w_calls w))"

text \<open>Calls made plus calls still granted: a step that pays for its calls never raises it.\<close>

definition search_account :: "world \<Rightarrow> nat" where
  "search_account w = calls_of is_search w + bt_search (w_batch w)"

definition fetch_account :: "world \<Rightarrow> nat" where
  "fetch_account w = calls_of is_fetch w + bt_content (w_batch w)"

definition within_budget :: "world \<Rightarrow> world \<Rightarrow> bool" where
  "within_budget w w' \<longleftrightarrow>
     search_account w' \<le> search_account w \<and> fetch_account w' \<le> fetch_account w
     \<and> prefix (w_calls w) (w_calls w')"

text \<open>No further search and no further lookup of a branch head.\<close>

fun is_discovery :: "github_call \<Rightarrow> bool" where
  "is_discovery (SearchCall q t) = True"
| "is_discovery (HeadCall repo branch) = True"
| "is_discovery _ = False"

definition no_search :: "world \<Rightarrow> world \<Rightarrow> bool" where
  "no_search w w' \<longleftrightarrow> filter is_discovery (w_calls w') = filter is_discovery (w_calls w)"

definition no_call :: "world \<Rightarrow> world \<Rightarrow> bool" where
  "no_call w w' \<longleftrightarrow> w_calls w' = w_calls w"

lemmas account_defs = search_account_def fetch_account_def calls_of_def

interpretation within: call_relation within_budget
  by unfold_locales (auto simp: within_budget_def account_defs)

interpretation nosearch: call_relation no_search
  by unfold_locales (auto simp: no_search_def)

interpretation nocall: call_relation no_call
  by unfold_locales (auto simp: no_call_def)

section \<open>Budgets\<close>

text \<open>A paid step: it may make one search (or one fetch) more than it has left over.\<close>

definition owing :: "nat \<Rightarrow> nat \<Rightarrow> world \<Rightarrow> world \<Rightarrow> bool" where
  "owing s f w w' \<longleftrightarrow>
     search_account w' \<le> search_account w + s \<and> fetch_account w' \<le> fetch_account w + f
     \<and> prefix (w_calls w) (w_calls w')"

lemma owing_bnd:
  assumes "steps (owing s f) m" and "\<And>x. steps within_budget (k x)"
  shows "steps (owing s f) (bnd m k)"
  unfolding steps_def
proof (intro allI impI)
  fix w r w'
  assume "bnd m k w = Some (r, w')"
  then consider e where "m w = Some (Inl e, w')" | x w1 where "m w = Some (Inr x, w1)" "k x w1 = Some (r, w')"
    by (auto simp: bnd_Some)
  then show "owing s f w w'"
  proof cases
    case 2
    then have "owing s f w w1" "within_budget w1 w'" using assms by (auto simp: steps_def)
    then show ?thesis by (auto simp: owing_def within_budget_def)
  qed (use assms in \<open>auto simp: steps_def\<close>)
qed

lemma paid_search:
  assumes "steps within_budget refused" and "steps (owing (Suc 0) 0) paid"
  shows "steps within_budget (bnd take_search (\<lambda>granted. if \<not> granted then refused else paid))"
  unfolding steps_def
proof (intro allI impI)
  fix w r w'
  assume run: "bnd take_search (\<lambda>granted. if \<not> granted then refused else paid) w = Some (r, w')"
  show "within_budget w w'"
  proof (cases "bt_search (w_batch w) = 0")
    case True
    let ?w0 = "w\<lparr>w_batch := (w_batch w)\<lparr>bt_search := 0\<rparr>\<rparr>"
    from True run have "refused ?w0 = Some (r, w')"
      by (simp add: bnd_def take_search_def get_batch_def put_batch_def ret_def take_budget_def)
    then have "within_budget ?w0 w'" using assms(1) by (simp add: steps_def)
    with True show ?thesis by (auto simp: within_budget_def account_defs)
  next
    case False
    let ?w1 = "w\<lparr>w_batch := (w_batch w)\<lparr>bt_search := bt_search (w_batch w) - 1\<rparr>\<rparr>"
    from False run have "paid ?w1 = Some (r, w')"
      by (simp add: bnd_def take_search_def get_batch_def put_batch_def ret_def take_budget_def)
    then have "owing (Suc 0) 0 ?w1 w'" using assms(2) by (simp add: steps_def)
    with False show ?thesis by (auto simp: owing_def within_budget_def account_defs)
  qed
qed

lemma paid_content:
  assumes "steps within_budget refused" and "steps (owing 0 (Suc 0)) paid"
  shows "steps within_budget (bnd take_content (\<lambda>granted. if \<not> granted then refused else paid))"
  unfolding steps_def
proof (intro allI impI)
  fix w r w'
  assume run: "bnd take_content (\<lambda>granted. if \<not> granted then refused else paid) w = Some (r, w')"
  show "within_budget w w'"
  proof (cases "bt_content (w_batch w) = 0")
    case True
    let ?w0 = "w\<lparr>w_batch := (w_batch w)\<lparr>bt_content := 0\<rparr>\<rparr>"
    from True run have "refused ?w0 = Some (r, w')"
      by (simp add: bnd_def take_content_def get_batch_def put_batch_def ret_def take_budget_def)
    then have "within_budget ?w0 w'" using assms(1) by (simp add: steps_def)
    with True show ?thesis by (auto simp: within_budget_def account_defs)
  next
    case False
    let ?w1 = "w\<lparr>w_batch := (w_batch w)\<lparr>bt_content := bt_content (w_batch w) - 1\<rparr>\<rparr>"
    from False run have "paid ?w1 = Some (r, w')"
      by (simp add: bnd_def take_content_def get_batch_def put_batch_def ret_def take_budget_def)
    then have "owing 0 (Suc 0) ?w1 w'" using assms(2) by (simp add: steps_def)
    with False show ?thesis by (auto simp: owing_def within_budget_def account_defs)
  qed
qed

lemma resolve_pending_steps:
  assumes "preorder_rel R" and step: "\<And>p. steps R (resolve_step env repo sha p)"
  shows "steps R (resolve_pending_code_search_candidates env repo sha p)"
proof -
  let ?P = "\<lambda>e rp sh (p :: pending_verification) w y. e = env \<and> rp = repo \<and> sh = sha \<longrightarrow> R w (snd y)"
  have P: "?P e rp sh p w y" if "resolve_pending_code_search_candidates e rp sh p w = Some y"
    for e rp sh p w and y :: "(string + resolution) \<times> world"
  proof (rule resolve_pending_code_search_candidates.raw_induct [where P = ?P, OF _ that], intro impI)
    fix f e rp sh p w and y :: "(string + resolution) \<times> world"
    assume IH: "\<And>e rp sh p w y. f e rp sh p w = Some y \<Longrightarrow> ?P e rp sh p w y"
      and run: "(case resolve_step e rp sh p w of None \<Rightarrow> None
        | Some (r, w') \<Rightarrow>
            (case r of Inl e \<Rightarrow> Some (Inl e, w')
             | Inr next \<Rightarrow>
                 (case next of ResolveDone res \<Rightarrow> Some (Inr res, w')
                  | ResolveMore p' \<Rightarrow> f e rp sh p' w'))) = Some y"
      and e: "e = env \<and> rp = repo \<and> sh = sha"
    obtain r w1 where s1: "resolve_step e rp sh p w = Some (r, w1)"
      using run by (auto split: option.splits)
    have R1: "R w w1" using step s1 e by (auto simp: steps_def)
    show "R w (snd y)"
    proof (cases r)
      case (Inl err)
      with run s1 R1 show ?thesis by auto
    next
      case (Inr nxt)
      show ?thesis
      proof (cases nxt)
        case (ResolveDone res)
        with Inr run s1 R1 show ?thesis by auto
      next
        case (ResolveMore p')
        with Inr run s1 have "f e rp sh p' w1 = Some y" by simp
        with IH e have "R w1 (snd y)" by blast
        with R1 assms(1) show ?thesis unfolding preorder_rel_def by blast
      qed
    qed
  qed
  then show ?thesis unfolding steps_def by fastforce
qed

lemma steps_put_within:
  "(\<And>b. bt_search (f b) \<le> bt_search b \<and> bt_content (f b) \<le> bt_content b) \<Longrightarrow>
     steps within_budget (put_batch f)"
  by (auto simp: steps_def put_batch_def within_budget_def account_defs)

lemma steps_github_within:
  "\<not> is_search c \<Longrightarrow> \<not> is_fetch c \<Longrightarrow> steps within_budget (github c f)"
  by (auto simp: steps_def github_def within_budget_def account_defs)

lemma steps_github_search: "steps (owing (Suc 0) 0) (github (SearchCall q t) f)"
  by (auto simp: steps_def github_def owing_def account_defs)

lemma steps_github_fetch: "steps (owing 0 (Suc 0)) (github (FileCall repo file sha) f)"
  by (auto simp: steps_def github_def owing_def account_defs)

lemma within_store_content: "steps within_budget (store_content key content)"
  unfolding store_content_def by (rule steps_put_within) simp

lemma within_refetch: "steps within_budget (refetch_content env job retry)"
proof (cases "cr_file retry")
  case (Some path)
  show ?thesis
    unfolding refetch_content_def Some option.case
    by (rule paid_content)
      (auto simp: Let_def intro!: within.rules owing_bnd steps_github_fetch within.quiet_steps
        within_store_content split: pinned_content.split)
qed (simp add: refetch_content_def within.rules)

lemma within_verification_preflight:
  "steps within_budget (preflight_code_match_verification_retry env job repo)"
  unfolding preflight_code_match_verification_retry_def Let_def
  by (auto intro!: within.rules within.quiet_steps steps_github_within split: option.split)

lemma within_content_preflight:
  "steps within_budget (preflight_code_match_content_retry env job repo count)"
  unfolding preflight_code_match_content_retry_def Let_def stop_content_def
  by (auto intro!: within.rules within.quiet_steps within_refetch split: option.split)

lemma within_resolve_step: "steps within_budget (resolve_step env repo sha p)"
proof (cases "next_pending_file p")
  case (Some path)
  have "steps within_budget
      (bnd take_content (\<lambda>granted. if \<not> granted then ret x
         else bnd (fetch_pinned env repo path sha) (\<lambda>content. ret (resolve_with path p content))))" for x
    unfolding fetch_pinned_def
    by (rule paid_content)
      (auto intro!: within.rules owing_bnd steps_github_fetch within_store_content)
  then show ?thesis
    unfolding resolve_step_def Some option.case
    by (intro within.rules) (auto intro: within.rules split: option.split)
qed (simp add: resolve_step_def within.rules)

lemma within_resolve: "steps within_budget (resolve_pending_code_search_candidates env repo sha p)"
  by (rule resolve_pending_steps [OF within.preorder within_resolve_step])

lemma within_search_hit: "steps within_budget (search_hit env job q result s)"
  unfolding search_hit_def Let_def split_beta
  by (auto intro!: within.rules within.quiet_steps steps_put_within
      simp: observe_headroom_def split: option.split)

lemma within_search_queries: "steps within_budget (search_queries env job qs s)"
proof (induction qs arbitrary: s)
  case Nil
  then show ?case by (simp add: within.rules)
next
  case (Cons q qs)
  have once: "steps (owing (Suc 0) 0) (search_once env job q s)"
  proof -
    have "steps (owing (Suc 0) 0) (bnd (github (SearchCall (q_expression q) t) f) (\<lambda>reply.
       case reply of
         Inr result \<Rightarrow> bnd (search_hit env job q result s) (\<lambda>s'. ret (SearchDone s'))
       | Inl (e, message) \<Rightarrow> search_failed env job e message s))" for t f
      by (rule owing_bnd [OF steps_github_search])
        (auto intro!: within.rules within.quiet_steps within_search_hit split: sum.split)
    then show ?thesis
      unfolding search_once_def steps_def bnd_Some [of get_batch]
      by (auto simp: get_batch_def)
  qed
  show ?case
    unfolding search_queries.simps
    by (rule paid_search, rule within.rules, rule owing_bnd [OF once])
      (auto intro!: within.rules Cons.IH split: search_next.split)
qed

lemma within_search: "steps within_budget (search_candidates env job repo)"
  unfolding search_candidates_def Let_def
  by (auto intro!: within.rules within.quiet_steps within_search_queries split: search_next.split option.split)

lemma within_settle: "steps within_budget (settle_and_complete_code_match_job env job repo sha ms t count)"
  unfolding settle_and_complete_code_match_job_def Let_def split_beta
  by (auto intro!: within.rules within.quiet_steps steps_github_within split: option.split)

lemma within_finish: "steps within_budget (finish_job env job repo sha count pending)"
  unfolding finish_job_def
  by (auto intro!: within.rules within.quiet_steps within_resolve within_settle split: resolution.split)

lemma within_choose: "steps within_budget (choose_commit env job repo branch preflight)"
  unfolding choose_commit_def head_sha_def Let_def
  by (auto intro!: within.rules within.quiet_steps steps_github_within steps_put_within
      split: content_preflight.split option.split sum.split)

lemma within_process: "steps within_budget (process_code_match_job env job)"
  unfolding process_code_match_job_def process_with_repo_def process_content_def process_commit_def
  by (auto intro!: within.rules within_verification_preflight within_content_preflight within_choose
      within_finish within_search
      split: option.split verification_preflight.split sum.split pending_phase.split)

lemma within_process_jobs: "steps within_budget (process_jobs env jobs)"
proof (induction jobs)
  case (Cons job jobs)
  then show ?case
    by (auto intro!: within.rules within.quiet_steps within_process split: job_outcome.split)
qed (simp add: within.rules)

text \<open>
  C2.  The call budgets hold: working through one installation's jobs, whatever GitHub
  answers and however many jobs there are, the worker makes at most ten code searches and at most
  ten file fetches (retried files included), counted over the calls it adds to the log.
\<close>

theorem drain_installation_respects_budgets:
  assumes "drain_installation env (installation_id, jobs) w = Some (r, w')"
  shows "\<exists>calls. w_calls w' = w_calls w @ calls
    \<and> length (filter is_search calls) \<le> CODE_MATCH_SEARCH_CALLS_PER_INSTALLATION_BATCH
    \<and> length (filter is_fetch calls) \<le> CODE_MATCH_CONTENT_FETCHES_PER_INSTALLATION_BATCH"
proof -
  define failed where "failed = ev_token env (w_tick w) installation_id"
  define w1 where "w1 = w\<lparr>w_tick := Suc (w_tick w), w_calls := w_calls w @ [TokenCall installation_id]\<rparr>"
  have w1: "w_calls w1 = w_calls w @ [TokenCall installation_id]" by (simp add: w1_def)
  have run: "(case failed of
        Some error \<Rightarrow> for_each (release_after_token_failure env
            (''GitHub installation token failed: '' @ error)) jobs
      | None \<Rightarrow> bnd (observe (ev_instant env)) (\<lambda>instant.
            bnd (put_batch (\<lambda>_. new_batch instant)) (\<lambda>_. process_jobs env jobs))) w1 = Some (r, w')"
    using assms by (simp add: drain_installation_def bnd_def [of "github c f" for c f] github_def
        failed_def w1_def split: option.split_asm)
  show ?thesis
  proof (cases failed)
    case (Some error)
    have "steps no_call (for_each (release_after_token_failure env
        (''GitHub installation token failed: '' @ error)) jobs)"
      by (intro nocall.rules nocall.quiet_steps)
    with run Some have "w_calls w' = w_calls w1" by (auto simp: steps_def no_call_def)
    with w1 show ?thesis by auto
  next
    case None
    define w2 where "w2 = w1\<lparr>w_tick := Suc (w_tick w1), w_batch := new_batch (ev_instant env (w_tick w1))\<rparr>"
    have w2: "w_calls w2 = w_calls w1" "w_batch w2 = new_batch (ev_instant env (w_tick w1))"
      by (simp_all add: w2_def)
    have "process_jobs env jobs w2 = Some (r, w')"
      using None run by (auto simp: bnd_Some observe_def put_batch_def w2_def)
    then have "within_budget w2 w'" using within_process_jobs by (auto simp: steps_def)
    moreover from this obtain calls where "w_calls w' = w_calls w2 @ calls"
      by (auto simp: within_budget_def prefix_def)
    ultimately show ?thesis
      using w1 w2 by (auto simp: within_budget_def account_defs new_batch_def)
  qed
qed

definition env0 :: env where
  "env0 = \<lparr>ev_now = int, ev_instant = int, ev_latency = (\<lambda>_. 5), ev_uuid = (\<lambda>n. 1000 + n),
     ev_others = (\<lambda>_ db. db), ev_locked = (\<lambda>_ _. False), ev_token = (\<lambda>_ _. None),
     ev_head = (\<lambda>_ _ _. Inr sha0),
     ev_search = (\<lambda>_ _. Inr \<lparr>sr_candidates = [\<lparr>gc_file = ''a.rs'',
         gc_text_match = Some \<lparr>tm_fragment = ''fn users'', tm_matches = [(3, 8)]\<rparr>\<rparr>],
       sr_rate_limit = rate_limit_default\<rparr>),
     ev_commit = (\<lambda>_ _ _. None), ev_file = (\<lambda>_ _ _ _. Inr ''fn users() {}'')\<rparr>"

definition job0 :: code_match_job where
  "job0 = \<lparr>jb_report_id = 3, jb_product_id = 1, jb_claim_token = 50, jb_attempts = 1,
     jb_installation_id = Some 5, jb_installation_active = True,
     jb_repo_full_name = Some ''acme/app'', jb_default_branch = Some ''main'',
     jb_path_prefix = None, jb_operation = ''GET /users'', jb_surface = ''api'',
     jb_runtime_hint = None, jb_findings = JArr [], jb_retry_sha = None, jb_retry_repo = None,
     jb_retry_count = 0, jb_retry_reason = None, jb_content_sha = None, jb_content_repo = None,
     jb_file = None, jb_required_content = None, jb_candidates = None\<rparr>"

definition world0 :: world where
  "world0 = \<lparr>w_tick = 0, w_db = claimed_db0, w_calls = [], w_batch = new_batch 0\<rparr>"

lemma drain0_run:
  "(case drain_installation env0 (5, [job0]) world0 of
      None \<Rightarrow> False
    | Some (r, w') \<Rightarrow> is_ok r \<and> filter is_fetch (w_calls w') \<noteq> []
        \<and> map_option ch_outcome (hint_of (w_db w') 3) = Some (Some ''matched''))"
  by code_simp

theorem drain_installation_respects_budgets_witness:
  "\<exists>r w'. drain_installation env0 (5, [job0]) world0 = Some (r, w')
     \<and> filter is_fetch (w_calls w') \<noteq> [] \<and> length (filter is_search (w_calls w')) \<le> 10"
proof -
  obtain r w' where run: "drain_installation env0 (5, [job0]) world0 = Some (r, w')"
    and f: "filter is_fetch (w_calls w') \<noteq> []"
    using drain0_run by (auto split: option.splits)
  from drain_installation_respects_budgets [OF run] run f show ?thesis
    by (auto simp: world0_def CODE_MATCH_SEARCH_CALLS_PER_INSTALLATION_BATCH_def)
qed

section \<open>Resuming and proving first\<close>

lemma nosearch_github: "\<not> is_discovery c \<Longrightarrow> steps no_search (github c f)"
  by (auto simp: steps_def github_def no_search_def)

lemma nosearch_put: "steps no_search (put_batch f)"
  by (auto simp: steps_def put_batch_def no_search_def)

lemma nosearch_take_content: "steps no_search take_content"
  unfolding take_content_def by (auto intro!: nosearch.rules nosearch_put split: prod.split)

lemma nosearch_verification_preflight:
  "steps no_search (preflight_code_match_verification_retry env job repo)"
  unfolding preflight_code_match_verification_retry_def Let_def
  by (auto intro!: nosearch.rules nosearch.quiet_steps nosearch_github split: option.split)

lemma nosearch_refetch: "steps no_search (refetch_content env job retry)"
  unfolding refetch_content_def Let_def store_content_def
  by (auto intro!: nosearch.rules nosearch.quiet_steps nosearch_github nosearch_take_content nosearch_put
      split: option.split pinned_content.split)

lemma nosearch_content_preflight:
  "steps no_search (preflight_code_match_content_retry env job repo count)"
  unfolding preflight_code_match_content_retry_def Let_def stop_content_def
  by (auto intro!: nosearch.rules nosearch.quiet_steps nosearch_refetch split: option.split)

lemma nosearch_resolve: "steps no_search (resolve_pending_code_search_candidates env repo sha p)"
proof (rule resolve_pending_steps [OF nosearch.preorder])
  show "steps no_search (resolve_step env repo sha p)" for p
    unfolding resolve_step_def fetch_pinned_def store_content_def
    by (auto intro!: nosearch.rules nosearch_github nosearch_take_content nosearch_put split: option.split)
qed

lemma nosearch_finish: "steps no_search (finish_job env job repo sha count pending)"
  unfolding finish_job_def settle_and_complete_code_match_job_def Let_def split_beta
  by (auto intro!: nosearch.rules nosearch.quiet_steps nosearch_resolve nosearch_github
      split: resolution.split option.split)

lemma content_preflight_resumes:
  assumes "content_retry_of job = Some retry" and "cr_candidates retry = Some candidates"
    and "same_code_match_repo (cr_repo_full_name retry) repo"
    and "preflight_code_match_content_retry env job repo count w = Some (Inr cp, w')"
  shows "(\<exists>pending. cp = Resume (cr_computed_at_sha retry) (jb_retry_count job) pending
            \<and> pending_from_value candidates = Some pending) \<or> (\<exists>outcome. cp = StopContent outcome)"
  using assms
  by (auto simp: preflight_code_match_content_retry_def Let_def bnd_Some stop_content_def ret_def fail_def
      split: if_split_asm option.split_asm)

text \<open>
  Search quota is never spent twice: a job whose content retry still holds its search
  hits, and whose product is still mapped to the same repository, is processed without a single
  further code search or branch lookup, whatever becomes of it.
\<close>

theorem resumed_job_never_searches:
  assumes "jb_repo_full_name job = Some repo" and "content_retry_of job = Some retry"
    and "cr_candidates retry = Some candidates"
    and "same_code_match_repo (cr_repo_full_name retry) repo"
    and "process_code_match_job env job w = Some (r, w')"
  shows "filter is_discovery (w_calls w') = filter is_discovery (w_calls w)"
proof -
  define resumes where "resumes cp \<longleftrightarrow> (\<exists>sha c pending. cp = Resume sha c pending)
      \<or> (\<exists>outcome. cp = StopContent outcome)" for cp
  have content: "steps no_search (process_content env job repo branch cp)" if "resumes cp" for branch cp
    using that unfolding process_content_def choose_commit_def
    by (intro steps_bnd_gives [OF nosearch.preorder, where Q = "\<lambda>c. (\<exists>out. c = Inl out)
          \<or> (\<exists>sha n p. c = Inr (sha, n, Some p))"])
      (auto simp: resumes_def ret_def process_commit_def nosearch_finish nosearch.rules
        split: content_preflight.split_asm)
  have "steps no_search (bnd (preflight_code_match_content_retry env job repo count)
      (process_content env job repo branch))" for count branch
  proof (rule steps_bnd_gives [OF nosearch.preorder nosearch_content_preflight, where Q = resumes])
    fix w x w1
    assume "preflight_code_match_content_retry env job repo count w = Some (Inr x, w1)"
    from content_preflight_resumes [OF assms(2-4) this] show "resumes x" unfolding resumes_def by blast
  qed (rule content)
  then have "steps no_search (process_code_match_job env job)"
    unfolding process_code_match_job_def process_with_repo_def assms(1)
    by (auto intro!: nosearch.rules nosearch_verification_preflight
        split: option.split verification_preflight.split)
  then show ?thesis using assms(5) by (auto simp: steps_def no_search_def)
qed

definition pending0 :: pending_verification where
  "pending0 = \<lparr>pv_pending = [\<lparr>pm_query = \<lparr>q_expression = ''users'', q_match_reason = ''operation'',
        q_specificity = 5\<rparr>, pm_candidates = [\<lparr>gc_file = ''a.rs'',
         gc_text_match = Some \<lparr>tm_fragment = ''fn users'', tm_matches = [(3, 8)]\<rparr>\<rparr>]\<rparr>],
     pv_resolved = [\<lparr>m_query = \<lparr>q_expression = ''users'', q_match_reason = ''operation'',
        q_specificity = 5\<rparr>, m_candidates = []\<rparr>], pv_tracker = tracker_default\<rparr>"

definition resumed_job0 :: code_match_job where
  "resumed_job0 = job0\<lparr>jb_retry_reason := Some ''content_budget'', jb_content_sha := Some sha0,
     jb_content_repo := Some ''acme/app'', jb_required_content := Some 1,
     jb_candidates := Some (pending_to_value pending0)\<rparr>"

lemma resumed_job0_run:
  "(case process_code_match_job env0 resumed_job0 world0 of
      None \<Rightarrow> False
    | Some (r, w') \<Rightarrow> is_ok r
        \<and> map_option ch_outcome (hint_of (w_db w') 3) = Some (Some ''matched''))"
  by code_simp

theorem resumed_job_never_searches_witness:
  "\<exists>r w'. process_code_match_job env0 resumed_job0 world0 = Some (r, w')
     \<and> map_option ch_outcome (hint_of (w_db w') 3) = Some (Some ''matched'')
     \<and> filter is_discovery (w_calls w') = []"
proof -
  obtain r w' where run: "process_code_match_job env0 resumed_job0 world0 = Some (r, w')"
    and m: "map_option ch_outcome (hint_of (w_db w') 3) = Some (Some ''matched'')"
    using resumed_job0_run by (auto split: option.splits)
  have repo: "jb_repo_full_name resumed_job0 = Some ''acme/app''"
    and retry: "content_retry_of resumed_job0 = Some \<lparr>cr_reason = ''content_budget'',
       cr_computed_at_sha = sha0, cr_repo_full_name = ''acme/app'', cr_file = None,
       cr_required_content = 1, cr_candidates = Some (pending_to_value pending0)\<rparr>"
    by (simp_all add: resumed_job0_def job0_def content_retry_of_def)
  from resumed_job_never_searches [OF repo retry _ _ run] run m show ?thesis
    by (simp add: same_code_match_repo_def world0_def)
qed

text \<open>
  Proof before work: a job whose pinned commit could not be proven last time starts by
  asking for exactly that commit, and while GitHub still cannot serve it the job makes no other
  call at all.
\<close>

theorem doubtful_commit_is_proven_first:
  assumes "jb_repo_full_name job = Some repo" and "jb_default_branch job = Some branch"
    and "verification_retry job = Some (sha, retry_repo)" and "same_code_match_repo retry_repo repo"
    and "process_code_match_job env job w = Some (r, w')"
  shows "\<exists>rest. w_calls w' = w_calls w @ CommitCall retry_repo sha # rest
    \<and> (ev_commit env (w_tick w) retry_repo sha \<noteq> None \<longrightarrow> rest = [])"
proof -
  define w1 where "w1 = w\<lparr>w_tick := Suc (w_tick w), w_calls := w_calls w @ [CommitCall retry_repo sha]\<rparr>"
  define k where "k = (\<lambda>vp. case vp of StopVerification outcome \<Rightarrow> ret outcome
       | ProceedWith count \<Rightarrow> bnd (preflight_code_match_content_retry env job repo count)
             (process_content env job repo branch))"
  have k: "steps within_budget (k vp)" for vp
    unfolding k_def process_content_def process_commit_def
    by (auto intro!: within.rules within_content_preflight within_choose within_finish within_search
        split: verification_preflight.split sum.split option.split pending_phase.split)
  have calls1: "w_calls w1 = w_calls w @ [CommitCall retry_repo sha]" by (simp add: w1_def)
  show ?thesis
  proof (cases "ev_commit env (w_tick w) retry_repo sha")
    case None
    define m where "m = bnd (db_call env (\<lambda>n. clear_code_match_verification_retry_marker (jb_report_id job)
            (jb_claim_token job))) (\<lambda>cleared. k (if cleared then ProceedWith (jb_retry_count job)
            else StopVerification Continue))"
    from None assms have "m w1 = Some (r, w')"
      by (simp add: process_code_match_job_def process_with_repo_def bnd_github bnd_assoc bnd_ret
          preflight_code_match_verification_retry_def w1_def k_def m_def)
    moreover have "steps within_budget m"
      unfolding m_def by (intro within.rules within.steps_db_call k)
    ultimately have "within_budget w1 w'" by (simp add: steps_def)
    with None calls1 show ?thesis by (auto simp: within_budget_def prefix_def)
  next
    case (Some reply)
    then obtain e message where reply: "reply = (e, message)" by (cases reply)
    define m where "m = bnd (release_code_match_after_unproven_pinned_commit env job sha retry_repo
          (jb_retry_count job)
          (counts_toward_verification_ceiling (github_pinned_commit_failure_kind e))
          (''GitHub pinned commit remains unavailable: '' @ message)) ret"
    from reply Some assms have "m w1 = Some (r, w')"
      by (simp add: process_code_match_job_def process_with_repo_def bnd_github bnd_assoc bnd_ret
          preflight_code_match_verification_retry_def w1_def m_def)
    moreover have "steps no_call m"
      unfolding m_def by (intro nocall.rules nocall.steps_unproven)
    ultimately have "no_call w1 w'" by (simp add: steps_def)
    with calls1 show ?thesis by (simp add: no_call_def)
  qed
qed

definition doubtful_job0 :: code_match_job where
  "doubtful_job0 = job0\<lparr>jb_retry_sha := Some sha0, jb_retry_repo := Some ''acme/app''\<rparr>"

definition env_unavailable :: env where
  "env_unavailable = env0\<lparr>ev_commit := (\<lambda>_ _ _. Some (RequestError (Some 404) False False, ''404''))\<rparr>"

lemma doubtful_job0_run:
  "(case process_code_match_job env_unavailable doubtful_job0 world0 of
      None \<Rightarrow> False | Some (r, w') \<Rightarrow> is_ok r)"
  by code_simp

theorem doubtful_commit_is_proven_first_witness:
  "\<exists>r w'. process_code_match_job env_unavailable doubtful_job0 world0 = Some (r, w')
     \<and> w_calls w' = [CommitCall ''acme/app'' sha0]"
proof -
  obtain r w' where run: "process_code_match_job env_unavailable doubtful_job0 world0 = Some (r, w')"
    using doubtful_job0_run by (auto split: option.splits)
  have job: "jb_repo_full_name doubtful_job0 = Some ''acme/app''"
    "jb_default_branch doubtful_job0 = Some ''main''"
    "verification_retry doubtful_job0 = Some (sha0, ''acme/app'')"
    by (simp_all add: doubtful_job0_def job0_def verification_retry_def)
  from doubtful_commit_is_proven_first [OF job _ run] run show ?thesis
    by (auto simp: same_code_match_repo_def world0_def env_unavailable_def)
qed

end
