(* ===== verification/CodeMatchResolution.thy ===== *)
theory CodeMatchResolution
  imports CodeMatchWorkerCalls
begin

text \<open>
  The resolution of search hits against the pinned commit, and the settlement that follows: the
  loop ends, every candidate is accounted for, a verified hit stands in the file at the pinned
  commit, and what is stored meets the constraints of its tables.
\<close>

section \<open>One file\<close>

definition tracker_room :: "verification_tracker \<Rightarrow> nat \<Rightarrow> bool" where
  "tracker_room t n \<longleftrightarrow> vt_candidates_seen t + n \<le> usize_max \<and> vt_dropped_as_absent t + n \<le> usize_max"

definition settled :: "pinned_content \<Rightarrow> bool" where
  "settled content \<longleftrightarrow> (\<forall>kind. content \<noteq> PinnedIncomplete kind)"

text \<open>What one candidate becomes, given the content of its file.\<close>

definition candidate_from ::
  "string \<Rightarrow> pinned_content \<Rightarrow> github_candidate \<Rightarrow> code_search_candidate \<Rightarrow> bool" where
  "candidate_from file content c v \<longleftrightarrow> gc_file c = file
     \<and> (case content of
          PinnedText text \<Rightarrow> verify_against_pinned_content c text = Some v
        | PinnedMissing \<Rightarrow> v = into_file_not_found c
        | PinnedIncomplete kind \<Rightarrow> False)"

lemma observe_room:
  "tracker_room t (Suc n) \<Longrightarrow> tracker_room (observe_candidates 1 t) n"
  "tracker_room t (Suc n) \<Longrightarrow> tracker_room (observe_absent 1 (observe_candidates 1 t)) n"
  "tracker_room t (Suc n) \<Longrightarrow> vt_candidates_seen (observe_candidates 1 t) = Suc (vt_candidates_seen t)"
  "vt_dropped_as_absent (observe_candidates 1 t) = vt_dropped_as_absent t"
  "vt_unverified_dropped (observe_candidates 1 t) = vt_unverified_dropped t"
  "vt_candidates_seen (observe_absent 1 t) = vt_candidates_seen t"
  "tracker_room t (Suc n) \<Longrightarrow>
     vt_dropped_as_absent (observe_absent 1 (observe_candidates 1 t)) = Suc (vt_dropped_as_absent t)"
  "vt_unverified_dropped (observe_absent 1 t) = vt_unverified_dropped t"
  by (auto simp: tracker_room_def observe_candidates_def observe_absent_def usize_saturating_add_def)

lemma resolve_candidates_spec:
  assumes "settled content" and "tracker_room t (length (filter (\<lambda>c. gc_file c = path) cs))"
    and "resolve_candidates path content cs (left, res, t) = (left', res', t')"
  shows "left' = left @ filter (\<lambda>c. gc_file c \<noteq> path) cs
    \<and> vt_candidates_seen t' = vt_candidates_seen t + length (filter (\<lambda>c. gc_file c = path) cs)
    \<and> vt_dropped_as_absent t' + length res'
        = vt_dropped_as_absent t + length res + length (filter (\<lambda>c. gc_file c = path) cs)
    \<and> length res \<le> length res'
    \<and> vt_unverified_dropped t' = vt_unverified_dropped t
    \<and> (\<forall>v \<in> set res'. v \<in> set res \<or> (\<exists>c \<in> set cs. candidate_from path content c v))"
  using assms
proof (induction cs arbitrary: left res t)
  case (Cons c cs)
  show ?case
  proof (cases "gc_file c = path")
    case False
    with Cons.prems Cons.IH [of t "left @ [c]" res] show ?thesis by auto
  next
    case True
    let ?n = "length (filter (\<lambda>c. gc_file c = path) cs)"
    have room: "tracker_room t (Suc ?n)" using Cons.prems(2) True by simp
    note r = observe_room(1,2) [OF room] observe_room(3,7) [OF room] observe_room(4-6,8)
    show ?thesis
    proof (cases content)
      case (PinnedText body)
      show ?thesis
      proof (cases "verify_against_pinned_content c body")
        case None
        with True PinnedText Cons.prems(3)
        have "resolve_candidates path content cs (left, res, observe_absent 1 (observe_candidates 1 t))
            = (left', res', t')" by (simp add: Let_def)
        from Cons.IH [OF Cons.prems(1) r(2) this] show ?thesis using True r by auto
      next
        case (Some v)
        with True PinnedText Cons.prems(3)
        have "resolve_candidates path content cs (left, res @ [v], observe_candidates 1 t)
            = (left', res', t')" by (simp add: Let_def)
        from Cons.IH [OF Cons.prems(1) r(1) this] show ?thesis
          using True r PinnedText Some by (auto simp: candidate_from_def)
      qed
    next
      case PinnedMissing
      with True Cons.prems(3)
      have "resolve_candidates path content cs (left, res @ [into_file_not_found c], observe_candidates 1 t)
          = (left', res', t')" by (simp add: Let_def)
      from Cons.IH [OF Cons.prems(1) r(1) this] show ?thesis
        using True r PinnedMissing by (auto simp: candidate_from_def)
    next
      case PinnedIncomplete
      with Cons.prems(1) show ?thesis by (simp add: settled_def)
    qed
  qed
qed simp

lemma resolve_file_spec:
  assumes "settled content" and "length ps \<le> length ms"
    and "tracker_room t (length (filter (\<lambda>c. gc_file c = path) (concat (map pm_candidates ps))))"
    and "resolve_file path content ps ms t = (ps', ms', t')"
  shows "concat (map pm_candidates ps') = filter (\<lambda>c. gc_file c \<noteq> path) (concat (map pm_candidates ps))
    \<and> map pm_query ps' = map pm_query ps \<and> map m_query ms' = map m_query ms
    \<and> vt_candidates_seen t' = vt_candidates_seen t
        + length (filter (\<lambda>c. gc_file c = path) (concat (map pm_candidates ps)))
    \<and> vt_dropped_as_absent t' + length (all_candidates ms')
        = vt_dropped_as_absent t + length (all_candidates ms)
          + length (filter (\<lambda>c. gc_file c = path) (concat (map pm_candidates ps)))
    \<and> vt_unverified_dropped t' = vt_unverified_dropped t
    \<and> (\<forall>v \<in> set (all_candidates ms'). v \<in> set (all_candidates ms)
         \<or> (\<exists>c \<in> set (concat (map pm_candidates ps)). candidate_from path content c v))"
  using assms
proof (induction path content ps ms t arbitrary: ps' ms' t' rule: resolve_file.induct)
  case (1 path content p ps m ms t)
  obtain remaining resolved t1 where c1:
    "resolve_candidates path content (pm_candidates p) ([], m_candidates m, t) = (remaining, resolved, t1)"
    by (metis surj_pair)
  obtain ps2 ms2 t2 where c2: "resolve_file path content ps ms t1 = (ps2, ms2, t2)"
    by (metis surj_pair)
  have out: "ps' = p\<lparr>pm_candidates := remaining\<rparr> # ps2" "ms' = m\<lparr>m_candidates := resolved\<rparr> # ms2" "t' = t2"
    using 1(5) c1 c2 by auto
  let ?n = "length (filter (\<lambda>c. gc_file c = path) (pm_candidates p))"
  let ?m = "length (filter (\<lambda>c. gc_file c = path) (concat (map pm_candidates ps)))"
  have room: "tracker_room t ?n" using 1(4) by (auto simp: tracker_room_def)
  note s1 = resolve_candidates_spec [OF 1(2) room c1]
  have "tracker_room t1 ?m" using 1(4) s1 by (auto simp: tracker_room_def)
  then have s2: "concat (map pm_candidates ps2) = filter (\<lambda>c. gc_file c \<noteq> path) (concat (map pm_candidates ps))
    \<and> map pm_query ps2 = map pm_query ps \<and> map m_query ms2 = map m_query ms
    \<and> vt_candidates_seen t2 = vt_candidates_seen t1 + ?m
    \<and> vt_dropped_as_absent t2 + length (all_candidates ms2)
        = vt_dropped_as_absent t1 + length (all_candidates ms) + ?m
    \<and> vt_unverified_dropped t2 = vt_unverified_dropped t1
    \<and> (\<forall>v \<in> set (all_candidates ms2). v \<in> set (all_candidates ms)
         \<or> (\<exists>c \<in> set (concat (map pm_candidates ps)). candidate_from path content c v))"
    using 1(1) [OF c1 [symmetric] refl refl 1(2) _ _ c2] 1(3) by simp
  show ?case using s1 s2 unfolding out by auto
qed auto

section \<open>The loop\<close>

definition pending_balanced :: "pending_verification \<Rightarrow> bool" where
  "pending_balanced p \<longleftrightarrow> vt_candidates_seen (pv_tracker p)
     = vt_dropped_as_absent (pv_tracker p) + length (all_candidates (pv_resolved p))"

text \<open>All candidates of a verification, seen or still pending.\<close>

definition pending_total :: "pending_verification \<Rightarrow> nat" where
  "pending_total p = vt_candidates_seen (pv_tracker p) + length (pending_candidates p)"

definition pending_shaped :: "pending_verification \<Rightarrow> bool" where
  "pending_shaped p \<longleftrightarrow> length (pv_pending p) \<le> length (pv_resolved p)"

text \<open>The content of a file at the pinned commit: cached, or answered by GitHub.\<close>

definition from_pinned :: "env \<Rightarrow> string \<Rightarrow> string \<Rightarrow> world \<Rightarrow> string \<Rightarrow> pinned_content \<Rightarrow> bool" where
  "from_pinned env repo sha w path content \<longleftrightarrow>
     bt_contents (w_batch w) (content_key repo sha path) = Some content
     \<or> (\<exists>n. content = pinned_of_reply (ev_file env n repo path sha))"

definition cache_from :: "env \<Rightarrow> string \<Rightarrow> string \<Rightarrow> world \<Rightarrow> world \<Rightarrow> bool" where
  "cache_from env repo sha w w' \<longleftrightarrow>
     (\<forall>path content. from_pinned env repo sha w' path content \<longrightarrow> from_pinned env repo sha w path content)"

definition carries_on ::
  "env \<Rightarrow> string \<Rightarrow> string \<Rightarrow> world \<Rightarrow> pending_verification \<Rightarrow> pending_verification \<Rightarrow> bool" where
  "carries_on env repo sha w p p' \<longleftrightarrow>
     pending_shaped p' \<and> pending_balanced p' \<and> pending_total p' = pending_total p
     \<and> map pm_query (pv_pending p') = map pm_query (pv_pending p)
     \<and> map m_query (pv_resolved p') = map m_query (pv_resolved p)
     \<and> vt_unverified_dropped (pv_tracker p') = vt_unverified_dropped (pv_tracker p)
     \<and> set (pending_candidates p') \<subseteq> set (pending_candidates p)
     \<and> (\<forall>v \<in> set (all_candidates (pv_resolved p')).
          v \<in> set (all_candidates (pv_resolved p))
          \<or> (\<exists>c \<in> set (pending_candidates p). \<exists>content.
               from_pinned env repo sha w (gc_file c) content \<and> candidate_from (gc_file c) content c v))"

lemma carries_on_refl: "pending_shaped p \<Longrightarrow> pending_balanced p \<Longrightarrow> carries_on env repo sha w p p"
  by (simp add: carries_on_def)

lemma carries_on_trans:
  assumes "carries_on env repo sha w p q" and "carries_on env repo sha v q r" and "cache_from env repo sha w v"
  shows "carries_on env repo sha w p r"
  using assms unfolding carries_on_def cache_from_def by (auto 0 4)

lemma resolve_with_spec:
  assumes "pending_shaped p" and "pending_balanced p" and "pending_total p \<le> usize_max"
    and nxt: "next_pending_file p = Some path" and src: "from_pinned env repo sha w path content"
  shows "(\<exists>kind. content = PinnedIncomplete kind
           \<and> resolve_with path p content = ResolveDone (Unresolved
               (incomplete_pending_code_match_content p ''content_fetch'' (Some path)
                 (''GitHub pinned file could not be verified: '' @ show_file_failure kind))))
    \<or> (\<exists>p'. resolve_with path p content = ResolveMore p' \<and> carries_on env repo sha w p p'
         \<and> length (pending_candidates p') < length (pending_candidates p))"
proof (cases "settled content")
  case False
  then show ?thesis by (auto simp: settled_def resolve_with_def)
next
  case True
  obtain ps ms t where f: "resolve_file path content (pv_pending p) (pv_resolved p) (pv_tracker p) = (ps, ms, t)"
    by (metis surj_pair)
  let ?p' = "\<lparr>pv_pending = ps, pv_resolved = ms, pv_tracker = t\<rparr>"
  let ?hits = "filter (\<lambda>c. gc_file c = path) (pending_candidates p)"
  have room: "tracker_room (pv_tracker p) (length (filter (\<lambda>c. gc_file c = path)
      (concat (map pm_candidates (pv_pending p)))))"
    using assms(2,3) length_filter_le [of "\<lambda>c. gc_file c = path" "pending_candidates p"]
    unfolding tracker_room_def pending_balanced_def pending_total_def pending_candidates_def by linarith
  note s = resolve_file_spec [OF True _ room f] assms(1)
  have res_more: "resolve_with path p content = ResolveMore ?p'"
    using True f by (auto simp: resolve_with_def settled_def split: pinned_content.split)
  have parts: "length (pending_candidates p)
      = length ?hits + length (filter (\<lambda>c. gc_file c \<noteq> path) (pending_candidates p))"
    by (simp add: sum_length_filter_compl)
  have "?hits \<noteq> []"
    using nxt by (auto simp: next_pending_file_def split: list.split_asm)
  then have "length (pending_candidates ?p') < length (pending_candidates p)"
    using s parts by (auto simp: pending_shaped_def pending_candidates_def)
  moreover have "carries_on env repo sha w p ?p'"
  proof -
    have "length ps = length (pv_pending p)" "length ms = length (pv_resolved p)"
      using s by (metis length_map pending_shaped_def)+
    moreover have "\<exists>c \<in> set (pending_candidates p). \<exists>content.
        from_pinned env repo sha w (gc_file c) content \<and> candidate_from (gc_file c) content c v"
      if "v \<in> set (all_candidates ms)" "v \<notin> set (all_candidates (pv_resolved p))" for v
    proof -
      have "\<forall>v \<in> set (all_candidates ms). v \<in> set (all_candidates (pv_resolved p))
          \<or> (\<exists>c \<in> set (pending_candidates p). candidate_from path content c v)"
        using s unfolding pending_shaped_def pending_candidates_def by blast
      with that obtain c where "c \<in> set (pending_candidates p)" "candidate_from path content c v"
        by blast
      with src show ?thesis
        by (auto simp: candidate_from_def intro!: bexI [of _ c] exI [of _ content])
    qed
    moreover have "pending_candidates ?p' = filter (\<lambda>c. gc_file c \<noteq> path) (pending_candidates p)"
      using s by (simp add: pending_shaped_def pending_candidates_def)
    ultimately show ?thesis
      using s parts assms(2) unfolding carries_on_def pending_total_def pending_balanced_def
      by (simp add: pending_shaped_def flip: pending_candidates_def) blast
  qed
  ultimately show ?thesis using res_more by blast
qed

lemma cache_from_refl: "cache_from env repo sha w w"
  by (simp add: cache_from_def)

lemma cache_from_trans: "cache_from env repo sha u v \<Longrightarrow> cache_from env repo sha v w \<Longrightarrow> cache_from env repo sha u w"
  by (simp add: cache_from_def)

lemma content_key_path: "content_key repo sha path = content_key repo sha path' \<longleftrightarrow> path = path'"
  by (simp add: content_key_def)

text \<open>How a resolution of \<open>p\<close> can end.\<close>

fun resolution_of ::
  "env \<Rightarrow> string \<Rightarrow> string \<Rightarrow> world \<Rightarrow> pending_verification \<Rightarrow> resolution \<Rightarrow> bool" where
  "resolution_of env repo sha w p (Resolved ms t) =
     (\<exists>p'. carries_on env repo sha w p p' \<and> pending_candidates p' = []
           \<and> ms = pv_resolved p' \<and> t = pv_tracker p')"
| "resolution_of env repo sha w p (Unresolved ic) =
     (\<exists>p' path. carries_on env repo sha w p p' \<and> next_pending_file p' = Some path
           \<and> ((\<exists>error. ic = incomplete_pending_code_match_content p' ''content_budget'' None error)
              \<or> (\<exists>error. ic = incomplete_pending_code_match_content p' ''content_fetch'' (Some path) error)))"

lemma resolution_of_trans:
  assumes "carries_on env repo sha w p q" and "resolution_of env repo sha v q r" and "cache_from env repo sha w v"
  shows "resolution_of env repo sha w p r"
  using assms by (cases r) (auto intro: carries_on_trans)

definition step_of ::
  "env \<Rightarrow> string \<Rightarrow> string \<Rightarrow> world \<Rightarrow> pending_verification \<Rightarrow> resolve_next \<Rightarrow> bool" where
  "step_of env repo sha w p nxt \<longleftrightarrow>
     (case nxt of
        ResolveDone r \<Rightarrow> resolution_of env repo sha w p r
      | ResolveMore p' \<Rightarrow> carries_on env repo sha w p p'
          \<and> length (pending_candidates p') < length (pending_candidates p))"

lemma resolve_with_step:
  assumes "pending_shaped p" and "pending_balanced p" and "pending_total p \<le> usize_max"
    and "next_pending_file p = Some path" and "from_pinned env repo sha w path content"
  shows "step_of env repo sha w p (resolve_with path p content)"
  using resolve_with_spec [OF assms]
proof (elim disjE exE conjE)
  fix kind
  assume r: "resolve_with path p content = ResolveDone (Unresolved
     (incomplete_pending_code_match_content p ''content_fetch'' (Some path)
       (''GitHub pinned file could not be verified: '' @ show_file_failure kind)))"
  have "resolution_of env repo sha w p (Unresolved
     (incomplete_pending_code_match_content p ''content_fetch'' (Some path) error))" for error
    using carries_on_refl [OF assms(1,2)] assms(4)
    unfolding resolution_of.simps by blast
  with r show ?thesis by (simp add: step_of_def del: resolution_of.simps)
qed (simp add: step_of_def)

lemma resolve_step_spec:
  assumes "pending_shaped p" and "pending_balanced p" and "pending_total p \<le> usize_max"
  obtains nxt w1 where "resolve_step env repo sha p w = Some (Inr nxt, w1)"
    and "cache_from env repo sha w w1" and "step_of env repo sha w p nxt"
proof (cases "next_pending_file p")
  case None
  then have "pending_candidates p = []" by (simp add: next_pending_file_def split: list.split_asm)
  then have "step_of env repo sha w p (ResolveDone (Resolved (pv_resolved p) (pv_tracker p)))"
    using carries_on_refl [OF assms(1,2), of env repo sha w] by (auto simp: step_of_def)
  then show ?thesis
    using that [OF _ cache_from_refl] None by (simp add: resolve_step_def ret_def)
next
  case (Some path)
  note step = resolve_with_step [OF assms Some]
  show ?thesis
  proof (cases "bt_contents (w_batch w) (content_key repo sha path)")
    case (Some content)
    with \<open>next_pending_file p = Some path\<close> show ?thesis
      using that step [of env repo sha w content] cache_from_refl
      by (simp add: resolve_step_def bnd_get_batch ret_def from_pinned_def)
  next
    case None
    show ?thesis
    proof (cases "bt_content (w_batch w) = 0")
      case True
      let ?w1 = "w\<lparr>w_batch := (w_batch w)\<lparr>bt_content := 0\<rparr>\<rparr>"
      let ?nxt = "ResolveDone (Unresolved (incomplete_pending_code_match_content p
         ''content_budget'' None
         ''installation content-verification slice was exhausted; pending candidates were preserved''))"
      have "resolve_step env repo sha p w = Some (Inr ?nxt, ?w1)"
        using \<open>next_pending_file p = Some path\<close> None True
        by (simp add: resolve_step_def bnd_get_batch take_content_def bnd_def [of "put_batch f" for f]
            put_batch_def take_budget_def bnd_assoc bnd_ret ret_def)
      moreover have "cache_from env repo sha w ?w1" by (simp add: cache_from_def from_pinned_def)
      moreover have "step_of env repo sha w p ?nxt"
        using carries_on_refl [OF assms(1,2)] \<open>next_pending_file p = Some path\<close>
        unfolding step_of_def resolve_next.case resolution_of.simps by blast
      ultimately show ?thesis by (rule that)
    next
      case False
      define content where "content = pinned_of_reply (ev_file env (w_tick w) repo path sha)"
      define w1 where "w1 = w\<lparr>w_tick := Suc (w_tick w), w_calls := w_calls w @ [FileCall repo path sha],
         w_batch := (w_batch w)\<lparr>bt_content := bt_content (w_batch w) - 1,
           bt_contents := (bt_contents (w_batch w))(content_key repo sha path := Some content)\<rparr>\<rparr>"
      have src: "from_pinned env repo sha w path content" by (auto simp: from_pinned_def content_def)
      have "resolve_step env repo sha p w = Some (Inr (resolve_with path p content), w1)"
        using \<open>next_pending_file p = Some path\<close> None False
        by (simp add: resolve_step_def bnd_get_batch take_content_def bnd_def [of "put_batch f" for f]
            put_batch_def take_budget_def bnd_assoc bnd_ret bnd_github ret_def fetch_pinned_def
            store_content_def content_def w1_def)
      moreover have "cache_from env repo sha w w1"
        using src by (auto simp: cache_from_def from_pinned_def w1_def content_key_path split: if_split_asm)
      ultimately show ?thesis using that step [OF src] by blast
    qed
  qed
qed

lemma resolve_pending_spec:
  assumes "pending_shaped p" and "pending_balanced p" and "pending_total p \<le> usize_max"
  shows "\<exists>r w'. resolve_pending_code_search_candidates env repo sha p w = Some (Inr r, w')
    \<and> cache_from env repo sha w w' \<and> resolution_of env repo sha w p r"
  using assms
proof (induction "length (pending_candidates p)" arbitrary: p w rule: less_induct)
  case less
  obtain nxt w1 where s: "resolve_step env repo sha p w = Some (Inr nxt, w1)"
    "cache_from env repo sha w w1" "step_of env repo sha w p nxt"
    by (rule resolve_step_spec [OF less.prems])
  show ?case
  proof (cases nxt)
    case (ResolveDone r)
    with s show ?thesis
      by (simp add: resolve_pending_code_search_candidates.simps [of env repo sha p w] step_of_def)
  next
    case (ResolveMore p')
    with s(3) have c: "carries_on env repo sha w p p'"
      "length (pending_candidates p') < length (pending_candidates p)" by (auto simp: step_of_def)
    then have "\<exists>r w'. resolve_pending_code_search_candidates env repo sha p' w1 = Some (Inr r, w')
        \<and> cache_from env repo sha w1 w' \<and> resolution_of env repo sha w1 p' r"
      using less.prems by (intro less.hyps) (auto simp: carries_on_def)
    then obtain r w' where "resolve_pending_code_search_candidates env repo sha p' w1 = Some (Inr r, w')"
      "cache_from env repo sha w1 w'" "resolution_of env repo sha w1 p' r" by blast
    with s(1) ResolveMore cache_from_trans [OF s(2)] resolution_of_trans [OF c(1) _ s(2)] show ?thesis
      by (intro exI [of _ r] exI [of _ w'])
        (simp add: resolve_pending_code_search_candidates.simps [of env repo sha p w])
  qed
qed

section \<open>Settlement\<close>

text \<open>The completion a job's settlement stores, with or without provisional absences.\<close>

definition settled_completion ::
  "code_match_job \<Rightarrow> string \<Rightarrow> code_search_matches list \<Rightarrow> verification_tracker \<Rightarrow> code_match_completion" where
  "settled_completion job sha ms t =
     (if has_provisional_absence ms
      then completion_of job sha (fst (settle_file_not_found_candidates ms))
             (observe_absent (snd (settle_file_not_found_candidates ms)) t)
      else completion_of job sha ms t)"

lemma settle_complete:
  "settle_and_complete_code_match_job env job repo sha ms t count =
     (if has_provisional_absence ms
      then bnd (github (CommitCall repo sha) (\<lambda>n. ev_commit env n repo sha)) (\<lambda>reply.
             case reply of
               Some (e, message) \<Rightarrow>
                 release_code_match_after_unproven_pinned_commit env job sha repo
                   count (counts_toward_verification_ceiling (github_pinned_commit_failure_kind e))
                   (''GitHub pinned commit could not be verified: '' @ message)
             | None \<Rightarrow> complete_job env job (settled_completion job sha ms t))
      else complete_job env job (settled_completion job sha ms t))"
  unfolding settle_and_complete_code_match_job_def settled_completion_def split_beta Let_def
  by (cases "has_provisional_absence ms") simp_all

lemma has_provisional_absence_iff:
  "has_provisional_absence ms \<longleftrightarrow> (\<exists>c \<in> set (all_candidates ms). c_verification c = FileNotFound)"
  by (auto simp: has_provisional_absence_def list_ex_iff all_candidates_def is_file_not_found_def)

lemma settle_nothing:
  assumes "\<not> has_provisional_absence ms"
  shows "settle_file_not_found_candidates ms = (ms, 0)"
proof -
  have v: "c_verification c = Verified" if "m \<in> set ms" "c \<in> set (m_candidates m)" for m c
    using assms that not_verified by (auto simp: has_provisional_absence_iff all_candidates_def)
  have "filter (\<lambda>c. c_verification c = Verified) (m_candidates m) = m_candidates m" if "m \<in> set ms" for m
    using v [OF that] by (simp add: filter_id_conv)
  then have "map (\<lambda>m. m\<lparr>m_candidates := filter (\<lambda>c. c_verification c = Verified) (m_candidates m)\<rparr>) ms = ms"
    by (intro map_idI) simp
  moreover have "fold (\<lambda>c dropped. if c_verification c = Verified then dropped
      else usize_saturating_add dropped 1) cs 0 = 0" if "\<forall>c \<in> set cs. c_verification c = Verified" for cs
    using that by (induction cs) auto
  moreover have "\<forall>c \<in> set (all_candidates ms). c_verification c = Verified"
    using v by (auto simp: all_candidates_def)
  ultimately show ?thesis by (simp add: settle_file_not_found_candidates_def)
qed

lemma settled_completion_eq:
  assumes "int (vt_dropped_as_absent t) \<le> i64_max"
  shows "settled_completion job sha ms t = completion_of job sha
    (fst (settle_file_not_found_candidates ms))
    (observe_absent (snd (settle_file_not_found_candidates ms)) t)"
proof -
  have "observe_absent 0 t = t"
    using assms by (simp add: observe_absent_def usize_saturating_add_def usize_max_def i64_max_def)
  then show ?thesis by (simp add: settled_completion_def settle_nothing)
qed

lemma code_hints_verified:
  "is_array (code_hints_json hints) \<and> list_all path_verified (lax_items (code_hints_json hints))"
  by (auto simp: code_hints_json_def list_all_iff path_verified_def List.map_filter_def)

lemma stored_outcome_known: "stored_outcome hints n vo \<in> set HINT_OUTCOMES"
  by (simp add: stored_outcome_def HINT_OUTCOMES_def)

lemma settled_completion_ok:
  assumes "vt_candidates_seen t = vt_dropped_as_absent t + length (all_candidates ms)"
    and "int (vt_candidates_seen t) \<le> i64_max" and "sha_pattern sha" and "0 < jb_attempts job"
  defines "c \<equiv> settled_completion job sha ms t"
  shows "hint_row_ok \<lparr>ch_report_id = k, ch_computed_at_sha = cc_computed_at_sha c,
            ch_hints = cc_hints c, ch_outcome = Some (cc_outcome c), ch_created_at = now\<rparr>"
    and "verification_row_ok \<lparr>cv_id = i, cv_report_id = k, cv_attempt = cc_attempt c,
            cv_computed_at_sha = cc_computed_at_sha c, cv_outcome = cc_verification c\<rparr>"
proof -
  obtain ms' dropped where s: "settle_file_not_found_candidates ms = (ms', dropped)" by (metis surj_pair)
  have "int (vt_dropped_as_absent t) \<le> i64_max" using assms(1,2) by simp
  then have c: "c = completion_of job sha ms' (observe_absent dropped t)"
    using settled_completion_eq [of t job sha ms] s by (simp add: c_def)
  note a = settlement_accounts [OF assms(1,2) s refl]
  have nonneg: "0 \<le> bounded_count n" for n by (simp add: bounded_count_def i64_max_def)
  show "hint_row_ok \<lparr>ch_report_id = k, ch_computed_at_sha = cc_computed_at_sha c,
            ch_hints = cc_hints c, ch_outcome = Some (cc_outcome c), ch_created_at = now\<rparr>"
    using code_hints_verified stored_outcome_known assms(3)
    by (simp add: c completion_of_def hint_row_ok_def Let_def)
  show "verification_row_ok \<lparr>cv_id = i, cv_report_id = k, cv_attempt = cc_attempt c,
            cv_computed_at_sha = cc_computed_at_sha c, cv_outcome = cc_verification c\<rparr>"
    using a assms(3,4) nonneg
    by (simp add: c completion_of_def verification_row_ok_def Let_def)
      (simp add: tracker_finish_def Let_def)
qed

section \<open>Properties\<close>

text \<open>
  C5.  The resolution of search hits always returns, and no candidate is lost: a completed
  resolution has seen every candidate and split it into dropped and kept ones query by query, and
  an interrupted one keeps a payload with the same total, with work still to do and a positive
  demand for content fetches.
\<close>

theorem resolution_returns_and_loses_nothing:
  assumes "length (pv_pending p) \<le> length (pv_resolved p)"
    and "vt_candidates_seen (pv_tracker p)
           = vt_dropped_as_absent (pv_tracker p) + length (all_candidates (pv_resolved p))"
    and "pending_total p \<le> usize_max"
  shows "\<exists>r w'. resolve_pending_code_search_candidates env repo sha p w = Some (Inr r, w')
    \<and> (case r of
         Resolved ms t \<Rightarrow>
           vt_candidates_seen t = pending_total p
           \<and> vt_candidates_seen t = vt_dropped_as_absent t + length (all_candidates ms)
           \<and> map m_query ms = map m_query (pv_resolved p)
       | Unresolved ic \<Rightarrow>
           (\<exists>p'. ic_pending ic = Some (pending_to_value p') \<and> pending_total p' = pending_total p
              \<and> pending_candidates p' \<noteq> [] \<and> 0 < ic_required_content ic
              \<and> incomplete_counts_toward_ceiling ic))"
proof -
  obtain r w' where run: "resolve_pending_code_search_candidates env repo sha p w = Some (Inr r, w')"
    and r: "resolution_of env repo sha w p r"
    using resolve_pending_spec assms unfolding pending_shaped_def pending_balanced_def by blast
  show ?thesis
  proof (cases r)
    case (Resolved ms t)
    with r obtain p' where "carries_on env repo sha w p p'" "pending_candidates p' = []"
      "ms = pv_resolved p'" "t = pv_tracker p'" by auto
    with run Resolved show ?thesis
      by (auto simp: carries_on_def pending_total_def pending_balanced_def)
  next
    case (Unresolved ic)
    with r obtain p' path where c: "carries_on env repo sha w p p'" "next_pending_file p' = Some path"
      and ic: "ic_pending ic = Some (pending_to_value p')" "0 < ic_required_content ic"
      by (auto simp: incomplete_pending_code_match_content_def Let_def)
    from c have "pending_candidates p' \<noteq> []" "pending_total p' = pending_total p"
      by (auto simp: next_pending_file_def carries_on_def split: list.splits)
    with run Unresolved ic show ?thesis by (auto simp: incomplete_counts_toward_ceiling_def)
  qed
qed

lemma pending0_shape:
  "length (pv_pending pending0) \<le> length (pv_resolved pending0)
   \<and> vt_candidates_seen (pv_tracker pending0)
        = vt_dropped_as_absent (pv_tracker pending0) + length (all_candidates (pv_resolved pending0))
   \<and> pending_total pending0 = 1"
  by (simp add: pending0_def tracker_default_def pending_total_def pending_candidates_def)

lemma usize_max_pos: "1 \<le> usize_max"
  by (simp add: usize_max_def)

theorem resolution_returns_and_loses_nothing_witness:
  "\<exists>r w'. resolve_pending_code_search_candidates env0 ''acme/app'' sha0 pending0 world0 = Some (Inr r, w')
     \<and> (case r of Resolved ms t \<Rightarrow> vt_candidates_seen t = 1
                | Unresolved ic \<Rightarrow> 0 < ic_required_content ic)"
proof -
  have "pending_total pending0 \<le> usize_max" using pending0_shape usize_max_pos by simp
  from resolution_returns_and_loses_nothing [OF _ _ this, of env0 "''acme/app''" sha0 world0] pending0_shape
  obtain r w' where "resolve_pending_code_search_candidates env0 ''acme/app'' sha0 pending0 world0 = Some (Inr r, w')"
    and "case r of Resolved ms t \<Rightarrow> vt_candidates_seen t = pending_total pending0
         | Unresolved ic \<Rightarrow> 0 < ic_required_content ic"
    by (fastforce split: resolution.splits)
  with pending0_shape show ?thesis by (cases r) auto
qed

lemma pinned_of_reply_text: "pinned_of_reply reply = PinnedText body \<longleftrightarrow> reply = Inr body"
  by (cases reply) (simp_all add: pinned_of_reply_def pinned_file_content_for_failure_def)

text \<open>
  A hit that resolution verifies stands in the file at the pinned commit: it comes from
  a pending search candidate of the same file, the file's content was served for exactly this
  repository and commit (by GitHub now, or by the batch's cache under that key), and the content
  holds the candidate's fragment.
\<close>

theorem verified_hits_stand_in_the_pinned_file:
  assumes "length (pv_pending p) \<le> length (pv_resolved p)"
    and "vt_candidates_seen (pv_tracker p)
           = vt_dropped_as_absent (pv_tracker p) + length (all_candidates (pv_resolved p))"
    and "pending_total p \<le> usize_max"
    and "resolve_pending_code_search_candidates env repo sha p w = Some (Inr (Resolved ms t), w')"
    and "v \<in> set (all_candidates ms)" and "v \<notin> set (all_candidates (pv_resolved p))"
    and "c_verification v = Verified"
  shows "\<exists>c \<in> set (pending_candidates p). \<exists>content.
      gc_file c = c_file v
      \<and> (bt_contents (w_batch w) (content_key repo sha (c_file v)) = Some (PinnedText content)
         \<or> (\<exists>n. ev_file env n repo (c_file v) sha = Inr content))
      \<and> (\<forall>tm. gc_text_match c = Some tm \<longrightarrow> content_contains_fragment content (tm_fragment tm))"
proof -
  obtain r w'' where "resolve_pending_code_search_candidates env repo sha p w = Some (Inr r, w'')"
    and r: "resolution_of env repo sha w p r"
    using resolve_pending_spec assms(1-3) unfolding pending_shaped_def pending_balanced_def by blast
  with assms(4) have "resolution_of env repo sha w p (Resolved ms t)" by simp
  then obtain p' where p': "carries_on env repo sha w p p'" "ms = pv_resolved p'" by auto
  then obtain c content where c: "c \<in> set (pending_candidates p)"
    and src: "from_pinned env repo sha w (gc_file c) content" and v: "candidate_from (gc_file c) content c v"
    using assms(5,6) unfolding carries_on_def by blast
  then obtain body where body: "content = PinnedText body" "verify_against_pinned_content c body = Some v"
    using assms(7) by (auto simp: candidate_from_def into_file_not_found_def split: pinned_content.splits)
  then have same: "gc_file c = c_file v"
    by (auto simp: verify_against_pinned_content_def Let_def split: option.splits if_splits)
  have frag: "\<forall>tm. gc_text_match c = Some tm \<longrightarrow> content_contains_fragment body (tm_fragment tm)"
    using body(2) by (auto simp: verify_against_pinned_content_def split: if_splits)
  have "bt_contents (w_batch w) (content_key repo sha (gc_file c)) = Some (PinnedText body)
      \<or> (\<exists>n. ev_file env n repo (gc_file c) sha = Inr body)"
    using src body(1) pinned_of_reply_text unfolding from_pinned_def by metis
  with c same frag show ?thesis by (metis (no_types, lifting))
qed

definition hit0 :: code_search_candidate where
  "hit0 = \<lparr>c_file = ''a.rs'', c_line_start = Some 1, c_line_end = Some 1, c_verification = Verified\<rparr>"

lemma pending0_resolved:
  "case resolve_pending_code_search_candidates env0 ''acme/app'' sha0 pending0 world0 of
     None \<Rightarrow> False
   | Some (Inl e, w') \<Rightarrow> False
   | Some (Inr r, w') \<Rightarrow> (case r of Resolved ms t \<Rightarrow> all_candidates ms = [hit0] | Unresolved ic \<Rightarrow> False)"
  by code_simp

theorem verified_hits_stand_in_the_pinned_file_witness:
  "\<exists>c \<in> set (pending_candidates pending0). \<exists>content. gc_file c = ''a.rs''
      \<and> (\<exists>n. ev_file env0 n ''acme/app'' ''a.rs'' sha0 = Inr content)"
proof -
  obtain ms t w' where run: "resolve_pending_code_search_candidates env0 ''acme/app'' sha0 pending0 world0
      = Some (Inr (Resolved ms t), w')" and ms: "all_candidates ms = [hit0]"
    using pending0_resolved
    by (auto split: option.split_asm prod.split_asm sum.split_asm resolution.split_asm)
  have "pending_total pending0 \<le> usize_max" using pending0_shape usize_max_pos by simp
  from verified_hits_stand_in_the_pinned_file [OF _ _ this run, of hit0] pending0_shape ms
  show ?thesis by (fastforce simp: hit0_def pending0_def world0_def new_batch_def)
qed

text \<open>
  A settlement never breaks a constraint: with the counters a resolution leaves, a
  40-digit commit and a claimed job's positive attempt, completing the job either writes its hints
  (every one of them marked verified) and an analytics row whose counts add up, or finds the claim
  gone; it never fails.
\<close>

theorem settlement_never_violates_constraints:
  assumes "queue_inv db"
    and "vt_candidates_seen t = vt_dropped_as_absent t + length (all_candidates ms)"
    and "int (vt_candidates_seen t) \<le> i64_max" and "sha_pattern sha" and "0 < jb_attempts job"
  shows "\<exists>db'. complete_code_match_job new_id now (jb_report_id job) (jb_claim_token job)
            (settled_completion job sha ms t) db
        = Inr (queue_holder db (jb_report_id job) = Some (jb_claim_token job), db')
      \<and> queue_inv db'"
proof (cases "queue_holder db (jb_report_id job) = Some (jb_claim_token job)")
  case False
  with assms(1) show ?thesis by (simp add: complete_code_match_job_def owned_affected)
next
  case True
  let ?c = "settled_completion job sha ms t"
  obtain db1 where w: "write_settlement new_id now (jb_report_id job) (cc_attempt ?c)
      (cc_computed_at_sha ?c) (cc_hints ?c) (cc_outcome ?c) (cc_verification ?c) db = Inr db1"
    using settled_completion_ok [OF assms(2-5)] by (simp add: write_settlement_def Let_def)
  then obtain db' where run: "complete_code_match_job new_id now (jb_report_id job) (jb_claim_token job) ?c db
      = Inr (True, db')"
    using True assms(1) by (simp add: complete_code_match_job_def owned_affected)
  then have "queue_inv db'" using complete_effect [OF assms(1)] by (simp add: fenced_effect_def)
  with run True show ?thesis by auto
qed

theorem settlement_never_violates_constraints_witness:
  "\<exists>db'. complete_code_match_job 900 7 3 50 (settled_completion job0 sha0 [] tracker_default) claimed_db0
     = Inr (queue_holder claimed_db0 3 = Some 50, db')"
proof -
  have "sha_pattern sha0" by code_simp
  from settlement_never_violates_constraints [OF claimed_db0_inv _ _ this, of tracker_default "[]" job0]
  show ?thesis by (auto simp: tracker_default_def i64_max_def job0_def)
qed

end
