(* ===== verification/CodeMatchLiveness.thy ===== *)
theory CodeMatchLiveness
  imports CodeMatchResolution
begin

text \<open>
  A round of the code-match worker always returns and leaves no claim behind: every job it claimed
  has been settled, released or dead-lettered, or was taken over, whatever GitHub answers, whichever
  statement fails and whatever other workers do between two statements.
\<close>

section \<open>The loop ends on every payload of the right shape\<close>

lemma resolve_candidates_left:
  "fst (resolve_candidates path content cs (left, res, t)) = left @ filter (\<lambda>c. gc_file c \<noteq> path) cs"
  by (induction path content cs "(left, res, t)" arbitrary: left res t rule: resolve_candidates.induct)
    (auto simp: Let_def split: pinned_content.split option.split)

lemma resolve_file_left:
  assumes "length ps \<le> length ms" and "resolve_file path content ps ms t = (ps', ms', t')"
  shows "concat (map pm_candidates ps') = filter (\<lambda>c. gc_file c \<noteq> path) (concat (map pm_candidates ps))
    \<and> length ps' = length ps \<and> length ms' = length ms"
  using assms
proof (induction path content ps ms t arbitrary: ps' ms' t' rule: resolve_file.induct)
  case (1 path content p ps m ms t)
  obtain remaining resolved t1 where c1:
    "resolve_candidates path content (pm_candidates p) ([], m_candidates m, t) = (remaining, resolved, t1)"
    by (metis surj_pair)
  obtain ps2 ms2 t2 where c2: "resolve_file path content ps ms t1 = (ps2, ms2, t2)"
    by (metis surj_pair)
  have "remaining = filter (\<lambda>c. gc_file c \<noteq> path) (pm_candidates p)"
    using resolve_candidates_left [of path content "pm_candidates p" "[]"] c1 by (metis append_Nil fst_conv)
  moreover have "concat (map pm_candidates ps2) = filter (\<lambda>c. gc_file c \<noteq> path) (concat (map pm_candidates ps))
    \<and> length ps2 = length ps \<and> length ms2 = length ms"
    using 1(1) [OF c1 [symmetric] refl refl _ c2] 1(2) by simp
  ultimately show ?case using 1(3) c1 c2 by auto
qed auto

definition payload_shaped :: "json option \<Rightarrow> bool" where
  "payload_shaped v \<longleftrightarrow> opt_all (\<lambda>c. opt_all pending_shaped (pending_from_value c)) v"

lemma those_length: "those xs = Some ys \<Longrightarrow> length ys = length xs"
  by (induction xs arbitrary: ys) (auto split: option.splits)

lemma of_list_length: "of_list f (to_list g xs) = Some ys \<Longrightarrow> length ys = length xs"
  by (auto simp: to_list_def dest: those_length)

lemma payload_shaped_to_value: "pending_shaped p \<Longrightarrow> payload_shaped (Some (pending_to_value p))"
  by (auto simp: payload_shaped_def opt_all_iff pending_from_value_def pending_to_value_def
      bind_eq_Some_conv required_def pending_shaped_def dest!: of_list_length)

text \<open>What an ended or unfinished resolution leaves.\<close>

fun resolution_shaped :: "resolution \<Rightarrow> bool" where
  "resolution_shaped (Resolved ms t) = True"
| "resolution_shaped (Unresolved ic) = payload_shaped (ic_pending ic)"

lemma resolve_with_shaped:
  assumes "pending_shaped p" and "next_pending_file p = Some path"
  shows "case resolve_with path p content of
      ResolveDone r \<Rightarrow> resolution_shaped r
    | ResolveMore p' \<Rightarrow> pending_shaped p' \<and> length (pending_candidates p') < length (pending_candidates p)"
proof (cases "settled content")
  case False
  with assms show ?thesis
    by (auto simp: settled_def resolve_with_def incomplete_pending_code_match_content_def Let_def
        payload_shaped_to_value)
next
  case True
  obtain ps ms t where f: "resolve_file path content (pv_pending p) (pv_resolved p) (pv_tracker p) = (ps, ms, t)"
    by (metis surj_pair)
  have more: "resolve_with path p content = ResolveMore \<lparr>pv_pending = ps, pv_resolved = ms, pv_tracker = t\<rparr>"
    using True f by (auto simp: resolve_with_def settled_def split: pinned_content.split)
  have l: "concat (map pm_candidates ps)
      = filter (\<lambda>c. gc_file c \<noteq> path) (concat (map pm_candidates (pv_pending p)))
    \<and> length ps = length (pv_pending p) \<and> length ms = length (pv_resolved p)"
    using resolve_file_left [OF _ f] assms(1) by (simp add: pending_shaped_def)
  obtain c where c: "c \<in> set (pending_candidates p)" "gc_file c = path"
    using assms(2) by (auto simp: next_pending_file_def split: list.split_asm)
  have "length (filter (\<lambda>c. gc_file c \<noteq> path) (pending_candidates p)) < length (pending_candidates p)"
    using c by (intro length_filter_less) auto
  with more l assms(1) show ?thesis
    by (simp add: pending_shaped_def pending_candidates_def)
qed

lemma resolve_step_returns:
  assumes "pending_shaped p"
  obtains nxt w1 where "resolve_step env repo sha p w = Some (Inr nxt, w1)" and "w_db w1 = w_db w"
    and "case nxt of
      ResolveDone r \<Rightarrow> resolution_shaped r
    | ResolveMore p' \<Rightarrow> pending_shaped p' \<and> length (pending_candidates p') < length (pending_candidates p)"
proof (cases "next_pending_file p")
  case None
  then show ?thesis using that by (simp add: resolve_step_def ret_def)
next
  case (Some path)
  note shaped = resolve_with_shaped [OF assms Some]
  have budget: "resolution_shaped (Unresolved (incomplete_pending_code_match_content p r f e))" for r f e
    using payload_shaped_to_value [OF assms] by (simp add: incomplete_pending_code_match_content_def Let_def)
  show ?thesis
  proof (cases "bt_contents (w_batch w) (content_key repo sha path)")
    case (Some content)
    with \<open>next_pending_file p = Some path\<close> show ?thesis
      using that shaped [of content] by (simp add: resolve_step_def bnd_get_batch ret_def)
  next
    case None
    with \<open>next_pending_file p = Some path\<close> show ?thesis
      using that shaped budget
      by (cases "bt_content (w_batch w) = 0")
        (simp_all add: resolve_step_def bnd_get_batch take_content_def bnd_def [of "put_batch f" for f]
            put_batch_def take_budget_def bnd_assoc bnd_ret bnd_github ret_def fetch_pinned_def
            store_content_def del: resolution_shaped.simps)
  qed
qed

lemma resolve_returns:
  assumes "pending_shaped p"
  shows "\<exists>r w'. resolve_pending_code_search_candidates env repo sha p w = Some (Inr r, w')
    \<and> w_db w' = w_db w \<and> resolution_shaped r"
  using assms
proof (induction "length (pending_candidates p)" arbitrary: p w rule: less_induct)
  case less
  obtain nxt w1 where s: "resolve_step env repo sha p w = Some (Inr nxt, w1)" "w_db w1 = w_db w"
    "case nxt of ResolveDone r \<Rightarrow> resolution_shaped r
      | ResolveMore p' \<Rightarrow> pending_shaped p' \<and> length (pending_candidates p') < length (pending_candidates p)"
    by (rule resolve_step_returns [OF less.prems])
  show ?case
  proof (cases nxt)
    case (ResolveDone r)
    with s show ?thesis by (simp add: resolve_pending_code_search_candidates.simps [of env repo sha p w])
  next
    case (ResolveMore p')
    with s obtain r w' where "resolve_pending_code_search_candidates env repo sha p' w1 = Some (Inr r, w')"
      "w_db w' = w_db w1" "resolution_shaped r" using less.hyps [of p' w1] by auto
    with s ResolveMore show ?thesis
      by (simp add: resolve_pending_code_search_candidates.simps [of env repo sha p w])
  qed
qed

section \<open>Steps that return and give claims up\<close>

definition payloads_shaped :: "match_db \<Rightarrow> bool" where
  "payloads_shaped db \<longleftrightarrow> (\<forall>r \<in> set (md_queue db). payload_shaped (cq_candidates r))"

text \<open>The foreign key of \<open>code_match_queue.report_id\<close>.\<close>

definition reports_exist :: "match_db \<Rightarrow> bool" where
  "reports_exist db \<longleftrightarrow> (\<forall>r \<in> set (md_queue db). \<exists>rep \<in> set (md_reports db). rv_id rep = cq_report_id r)"

definition db_sound :: "match_db \<Rightarrow> bool" where
  "db_sound db \<longleftrightarrow> queue_inv db \<and> payloads_shaped db \<and> reports_exist db"

definition holds :: "uuid \<Rightarrow> match_db \<Rightarrow> uuid set" where
  "holds t db = {k. queue_holder db k = Some t}"

text \<open>The others keep the tables sound and never write this worker's token.\<close>

definition others_ok :: "env \<Rightarrow> uuid \<Rightarrow> bool" where
  "others_ok env t \<longleftrightarrow>
     (\<forall>n db. db_sound db \<longrightarrow> db_sound (ev_others env n db) \<and> holds t (ev_others env n db) \<subseteq> holds t db)"

text \<open>
  \<open>ends t m F Q\<close>: \<open>m\<close> returns, keeps the tables sound and claims no further row under the token;
  when it returns a value \<open>x\<close>, the value satisfies \<open>Q\<close> and none of the reports \<open>F x\<close> is held any more.
\<close>

definition ends :: "uuid \<Rightarrow> 'a act \<Rightarrow> ('a \<Rightarrow> uuid set) \<Rightarrow> ('a \<Rightarrow> bool) \<Rightarrow> bool" where
  "ends t m F Q \<longleftrightarrow>
     (\<forall>w. db_sound (w_db w) \<longrightarrow>
        (\<exists>r w'. m w = Some (r, w') \<and> db_sound (w_db w') \<and> holds t (w_db w') \<subseteq> holds t (w_db w)
           \<and> (\<forall>x. r = Inr x \<longrightarrow> Q x \<and> F x \<inter> holds t (w_db w') = {})))"

lemma ends_ret: "Q x \<Longrightarrow> F x = {} \<Longrightarrow> ends t (ret x) F Q"
  by (simp add: ends_def ret_def)

lemma ends_fail: "ends t (fail e) F Q"
  by (simp add: ends_def fail_def)

lemma ends_observe: "(\<And>n. Q (f n)) \<Longrightarrow> ends t (observe f) (\<lambda>_. {}) Q"
  by (simp add: ends_def observe_def)

lemma ends_github: "(\<And>n. Q (f n)) \<Longrightarrow> ends t (github c f) (\<lambda>_. {}) Q"
  by (simp add: ends_def github_def)

lemma ends_get_batch: "ends t get_batch (\<lambda>_. {}) (\<lambda>_. True)"
  by (simp add: ends_def get_batch_def)

lemma ends_put_batch: "ends t (put_batch f) (\<lambda>_. {}) (\<lambda>_. True)"
  by (simp add: ends_def put_batch_def)

lemma ends_weaken:
  assumes m: "ends t m F Q" and F: "\<And>x. Q x \<Longrightarrow> F' x \<subseteq> F x" and Q: "\<And>x. Q x \<Longrightarrow> Q' x"
  shows "ends t m F' Q'"
  unfolding ends_def
proof (intro allI impI)
  fix w :: world
  assume "db_sound (w_db w)"
  with m obtain r w' where m1: "m w = Some (r, w')" "db_sound (w_db w')" "holds t (w_db w') \<subseteq> holds t (w_db w)"
    "\<forall>x. r = Inr x \<longrightarrow> Q x \<and> F x \<inter> holds t (w_db w') = {}" unfolding ends_def by blast
  have "Q' x \<and> F' x \<inter> holds t (w_db w') = {}" if "r = Inr x" for x
    using m1(4) that F [of x] Q [of x] by blast
  with m1 show "\<exists>r w'. m w = Some (r, w') \<and> db_sound (w_db w') \<and> holds t (w_db w') \<subseteq> holds t (w_db w)
      \<and> (\<forall>x. r = Inr x \<longrightarrow> Q' x \<and> F' x \<inter> holds t (w_db w') = {})" by blast
qed

lemma ends_bnd:
  assumes m: "ends t m F P" and f: "\<And>x. P x \<Longrightarrow> ends t (f x) (\<lambda>y. G y - F x) Q"
  shows "ends t (bnd m f) G Q"
  unfolding ends_def
proof (intro allI impI)
  fix w :: world
  assume "db_sound (w_db w)"
  with m obtain r w1 where m1: "m w = Some (r, w1)" "db_sound (w_db w1)" "holds t (w_db w1) \<subseteq> holds t (w_db w)"
    "\<forall>x. r = Inr x \<longrightarrow> P x \<and> F x \<inter> holds t (w_db w1) = {}" unfolding ends_def by blast
  show "\<exists>r w'. bnd m f w = Some (r, w') \<and> db_sound (w_db w') \<and> holds t (w_db w') \<subseteq> holds t (w_db w)
      \<and> (\<forall>x. r = Inr x \<longrightarrow> Q x \<and> G x \<inter> holds t (w_db w') = {})"
  proof (cases r)
    case (Inl e)
    with m1 show ?thesis by (auto simp: bnd_def)
  next
    case (Inr x)
    with m1 have P: "P x" "F x \<inter> holds t (w_db w1) = {}" by auto
    with f m1(2) obtain r2 w2 where f2: "f x w1 = Some (r2, w2)" "db_sound (w_db w2)"
      "holds t (w_db w2) \<subseteq> holds t (w_db w1)"
      "\<forall>y. r2 = Inr y \<longrightarrow> Q y \<and> (G y - F x) \<inter> holds t (w_db w2) = {}" unfolding ends_def by blast
    moreover have "bnd m f w = Some (r2, w2)" using m1(1) Inr f2(1) by (simp add: bnd_def)
    moreover have "G y \<inter> holds t (w_db w2) = {}" if "r2 = Inr y" for y
      using f2(3,4) P(2) that by blast
    ultimately show ?thesis using m1(3) by blast
  qed
qed

text \<open>The common case: what the first step frees does not matter to the rest.\<close>

lemma ends_seq:
  "ends t m F P \<Longrightarrow> (\<And>x. P x \<Longrightarrow> ends t (f x) G Q) \<Longrightarrow> ends t (bnd m f) G Q"
  by (rule ends_bnd) (auto intro: ends_weaken)

lemma ends_for_each:
  assumes "\<And>x. x \<in> set xs \<Longrightarrow> ends t (f x) (\<lambda>_. F x) (\<lambda>_. True)"
  shows "ends t (for_each f xs) (\<lambda>_. \<Union>x \<in> set xs. F x) (\<lambda>_. True)"
  using assms
proof (induction xs)
  case (Cons x xs)
  have "ends t (for_each f xs) (\<lambda>_. (\<Union>y \<in> set (x # xs). F y) - F x) (\<lambda>_. True)"
    using Cons by (intro ends_weaken [OF Cons.IH]) auto
  then show ?case using Cons.prems by (auto intro: ends_bnd)
qed (simp add: ends_ret)

lemma ends_db_call:
  assumes "others_ok env t"
    and "\<And>n db x db'. db_sound db \<Longrightarrow> stmt n db = Inr (x, db') \<Longrightarrow>
           db_sound db' \<and> holds t db' \<subseteq> holds t db \<and> Q x \<and> F x \<inter> holds t db' = {}"
  shows "ends t (db_call env stmt) F Q"
  unfolding ends_def
proof (intro allI impI)
  fix w :: world
  assume "db_sound (w_db w)"
  then have o: "db_sound (ev_others env (w_tick w) (w_db w))"
    "holds t (ev_others env (w_tick w) (w_db w)) \<subseteq> holds t (w_db w)"
    using assms(1) unfolding others_ok_def by blast+
  then show "\<exists>r w'. db_call env stmt w = Some (r, w') \<and> db_sound (w_db w') \<and> holds t (w_db w') \<subseteq> holds t (w_db w)
      \<and> (\<forall>x. r = Inr x \<longrightarrow> Q x \<and> F x \<inter> holds t (w_db w') = {})"
    using assms(2) [OF o(1)]
    by (cases "stmt (w_tick w) (ev_others env (w_tick w) (w_db w))") (auto simp: db_call_def Let_def, blast+)
qed

section \<open>Statements of a claim's owner\<close>

text \<open>Every row after a statement stems from a row before it, and no payload is spoiled.\<close>

definition rows_kept :: "match_db \<Rightarrow> match_db \<Rightarrow> bool" where
  "rows_kept db db' \<longleftrightarrow>
     md_reports db' = md_reports db
     \<and> (\<forall>r' \<in> set (md_queue db'). \<exists>r \<in> set (md_queue db). cq_report_id r' = cq_report_id r
          \<and> (payload_shaped (cq_candidates r) \<longrightarrow> payload_shaped (cq_candidates r')))"

lemma rows_kept_sound:
  "rows_kept db db' \<Longrightarrow> queue_inv db' \<Longrightarrow> db_sound db \<Longrightarrow> db_sound db'"
  unfolding rows_kept_def db_sound_def payloads_shaped_def reports_exist_def by metis

lemma rows_kept_trans: "rows_kept a b \<Longrightarrow> rows_kept b c \<Longrightarrow> rows_kept a c"
  unfolding rows_kept_def by metis

lemma rows_kept_fenced:
  assumes "fenced_update k t f db = Inr (b, db')" and "\<And>r. cq_report_id (f r) = cq_report_id r"
    and "\<And>r. payload_shaped (cq_candidates r) \<Longrightarrow> payload_shaped (cq_candidates (f r))"
  shows "rows_kept db db'"
proof -
  have db': "db' = db\<lparr>md_queue := update_where (owned k t) f (md_queue db)\<rparr>"
    using assms(1) by (auto simp: fenced_update_def result_bind_Inr checked_update_Inr)
  have "\<exists>r \<in> set (md_queue db). cq_report_id r' = cq_report_id r
      \<and> (payload_shaped (cq_candidates r) \<longrightarrow> payload_shaped (cq_candidates r'))"
    if "r' \<in> set (update_where (owned k t) f (md_queue db))" for r'
  proof -
    from that obtain r where "r \<in> set (md_queue db)" "r' = r \<or> r' = f r"
      by (auto simp: row_simps)
    with assms(2,3) show ?thesis by (intro bexI [of _ r]) auto
  qed
  then show ?thesis by (simp add: rows_kept_def db')
qed

lemma rows_kept_settlement:
  "write_settlement i now k att sha hints outcome vo db = Inr db' \<Longrightarrow> rows_kept db db'"
  by (auto simp: write_settlement_def Let_def rows_kept_def split: if_split_asm)

fun op_shaped :: "lease_op \<Rightarrow> bool" where
  "op_shaped (VerificationRetry retry) =
     (case vr_target retry of PinnedCommit _ _ \<Rightarrow> True | Content _ _ _ _ _ c \<Rightarrow> payload_shaped c)"
| "op_shaped _ = True"

lemma payload_shaped_None [simp]: "payload_shaped None"
  by (simp add: payload_shaped_def opt_all_iff)

lemma lease_act_rows:
  assumes run: "lease_act a k t db = Inr (b, db')" and "op_shaped a"
  shows "rows_kept db db'"
proof (cases a)
  case (Complete i now c)
  show ?thesis
  proof (cases "rows_affected (owned k t) (md_queue db) = 0")
    case True
    with run Complete show ?thesis by (auto simp: complete_code_match_job_def rows_kept_def)
  next
    case False
    with run Complete obtain db1 where w: "write_settlement i now k (cc_attempt c) (cc_computed_at_sha c)
        (cc_hints c) (cc_outcome c) (cc_verification c) db = Inr db1"
      and "db' = db1\<lparr>md_queue := delete_where (owned k t) (md_queue db1)\<rparr>"
      by (auto simp: complete_code_match_job_def result_bind_Inr)
    then have "rows_kept db1 db'" by (auto simp: rows_kept_def row_simps)
    with rows_kept_settlement [OF w] show ?thesis by (rule rows_kept_trans)
  qed
next
  case (VerificationRetry retry)
  show ?thesis
    using assms(2) VerificationRetry
    by (intro rows_kept_fenced [OF run [unfolded VerificationRetry lease_act.simps
            release_code_match_for_verification_retry_def]])
      (cases "vr_target retry"; simp)+
next
  case (Terminal i now att sha reason)
  show ?thesis
  proof (cases "rows_affected (owned k t) (md_queue db) = 0")
    case True
    with run Terminal show ?thesis
      by (auto simp: terminally_dead_letter_code_match_verification_def rows_kept_def)
  next
    case False
    with run Terminal obtain f b1 db1 where u: "fenced_update k t f db = Inr (b1, db1)"
      and f: "f = (\<lambda>r. (clear_episode (unclaim r))\<lparr>cq_dead_lettered_at := Some now,
                 cq_last_error := Some (utf8_take MAX_ERROR_CHARS reason)\<rparr>)"
      and w: "write_settlement i now k att sha (JArr []) ''terminal_unverifiable''
             \<lparr>vo_candidates_seen = 0, vo_dropped_as_absent = 0, vo_kept_verified = 0,
              vo_kept_unverified = 0\<rparr> db1 = Inr db'"
      by (auto simp: terminally_dead_letter_code_match_verification_def result_bind_Inr)
    have "rows_kept db db1" by (rule rows_kept_fenced [OF u]) (simp_all add: f clear_episode_def)
    with rows_kept_settlement [OF w] show ?thesis by (blast intro: rows_kept_trans)
  qed
next
  case ClearMarker
  show ?thesis
    by (rule rows_kept_fenced [OF run [unfolded ClearMarker lease_act.simps
            clear_code_match_verification_retry_marker_def]]) simp_all
next
  case ResetEpisode
  show ?thesis
    by (rule rows_kept_fenced [OF run [unfolded ResetEpisode lease_act.simps
            reset_code_match_verification_retry_def]]) (simp_all add: clear_episode_def)
next
  case (DeadLetter now reason)
  show ?thesis
    by (rule rows_kept_fenced [OF run [unfolded DeadLetter lease_act.simps dead_letter_code_match_job_def]])
      (simp_all add: unclaim_def)
next
  case (Release available_at error)
  then obtain b1 where u: "fenced_update k t (\<lambda>r. (unclaim r)\<lparr>cq_available_at := available_at,
      cq_last_error := map_option (utf8_take MAX_ERROR_CHARS) error\<rparr>) db = Inr (b1, db')"
    using run by (auto simp: release_code_match_job_def result_bind_Inr)
  show ?thesis by (rule rows_kept_fenced [OF u]) (simp_all add: unclaim_def)
qed

lemma lease_act_ends:
  assumes sound: "db_sound db" and run: "lease_act a k t db = Inr (b, db')" and "op_shaped a"
  shows "db_sound db'" and "holds t db' \<subseteq> holds t db"
    and "lease_releases a \<or> \<not> b \<Longrightarrow> k \<notin> holds t db'"
proof -
  have inv: "queue_inv db" using sound by (simp add: db_sound_def)
  note e = lease_act_effect [OF inv run, unfolded fenced_effect_def]
  have inv': "queue_inv db'" using e by (elim conjE)
  have b: "b \<longleftrightarrow> queue_holder db k = Some t" using e by (elim conjE)
  have free: "lease_releases a \<and> b \<longrightarrow> queue_holder db' k = None" using e by (elim conjE)
  have hold: "queue_holder db' j = Some u \<longrightarrow> queue_holder db j = Some u" for j u
    using e by (elim conjE allE)
  show "db_sound db'" by (rule rows_kept_sound [OF lease_act_rows [OF run assms(3)] inv' sound])
  show "holds t db' \<subseteq> holds t db" using hold unfolding holds_def by blast
  show "k \<notin> holds t db'" if "lease_releases a \<or> \<not> b"
  proof (cases b)
    case True
    with that free show ?thesis by (simp add: holds_def)
  next
    case False
    with b hold [of k t] show ?thesis unfolding holds_def by blast
  qed
qed

lemma ends_lease:
  assumes "others_ok env t" and "\<And>n. lease_releases (a n) = rel" and "\<And>n. op_shaped (a n)"
  shows "ends t (db_call env (\<lambda>n. lease_act (a n) k t)) (\<lambda>b. if rel \<or> \<not> b then {k} else {}) (\<lambda>_. True)"
proof (rule ends_db_call [OF assms(1)])
  fix n db b db'
  assume "db_sound db" and "lease_act (a n) k t db = Inr (b, db')"
  note e = lease_act_ends [OF this assms(3)]
  have "(if rel \<or> \<not> b then {k} else {}) \<inter> holds t db' = {}"
    using e(3) unfolding assms(2) by auto
  with e(1,2) show "db_sound db' \<and> holds t db' \<subseteq> holds t db \<and> True
      \<and> (if rel \<or> \<not> b then {k} else {}) \<inter> holds t db' = {}" by blast
qed

section \<open>The worker gives every claim up\<close>

abbreviation gives_up :: "code_match_job \<Rightarrow> 'a act \<Rightarrow> ('a \<Rightarrow> bool) \<Rightarrow> bool" where
  "gives_up job m Q \<equiv> ends (jb_claim_token job) m (\<lambda>_. {jb_report_id job}) Q"

abbreviation goes_on :: "code_match_job \<Rightarrow> 'a act \<Rightarrow> ('a \<Rightarrow> bool) \<Rightarrow> bool" where
  "goes_on job m Q \<equiv> ends (jb_claim_token job) m (\<lambda>_. {}) Q"

abbreviation tame :: "env \<Rightarrow> code_match_job \<Rightarrow> bool" where
  "tame env job \<equiv> others_ok env (jb_claim_token job)"

lemma gives_up_then:
  assumes "gives_up job m P" and "\<And>x. P x \<Longrightarrow> goes_on job (f x) Q"
  shows "gives_up job (bnd m f) Q"
  using assms(2) by (intro ends_bnd [OF assms(1)]) (auto intro: ends_weaken)

lemma gives_up_ret: "gives_up job m (\<lambda>_. True) \<Longrightarrow> gives_up job (bnd m (\<lambda>x. ret (g x))) (\<lambda>_. True)"
  by (rule gives_up_then [where P = "\<lambda>_. True"]) (simp_all add: ends_ret)

lemma any_ends: "goes_on job (observe f) (\<lambda>_. True)" "goes_on job (github c g) (\<lambda>_. True)"
  by (simp_all add: ends_observe ends_github)

lemma goes_on_then:
  "goes_on job m P \<Longrightarrow> (\<And>x. P x \<Longrightarrow> ends (jb_claim_token job) (f x) F Q)
    \<Longrightarrow> ends (jb_claim_token job) (bnd m f) F Q"
  by (rule ends_seq)

lemma give_up_lease:
  assumes "tame env job" and "\<And>n. lease_releases (a n)" and "\<And>n. op_shaped (a n)"
    and "\<And>n db. stmt n db = lease_act (a n) (jb_report_id job) (jb_claim_token job) db"
  shows "gives_up job (db_call env stmt) (\<lambda>_. True)"
proof -
  have "stmt = (\<lambda>n. lease_act (a n) (jb_report_id job) (jb_claim_token job))"
    using assms(4) by (simp add: fun_eq_iff)
  with ends_lease [of env "jb_claim_token job" a True, OF assms(1) _ assms(3)] assms(2) show ?thesis by simp
qed

text \<open>Clearing a marker or an episode keeps the claim, unless it is lost already.\<close>

lemma keep_lease:
  assumes "tame env job" and "\<And>n. op_shaped (a n)" and "\<And>n. \<not> lease_releases (a n)"
    and "\<And>n db. stmt n db = lease_act (a n) (jb_report_id job) (jb_claim_token job) db"
  shows "ends (jb_claim_token job) (db_call env stmt) (\<lambda>b. if b then {} else {jb_report_id job}) (\<lambda>_. True)"
proof -
  have set: "(\<lambda>b. if b then {} else {k}) = (\<lambda>b. if False \<or> \<not> b then {k} else {})" for k :: uuid
    by (rule ext) simp
  have "stmt = (\<lambda>n. lease_act (a n) (jb_report_id job) (jb_claim_token job))"
    using assms(4) by (simp add: fun_eq_iff)
  then show ?thesis
    unfolding set using assms(3) by (simp only:) (rule ends_lease [OF assms(1) _ assms(2)], simp)
qed

lemma release_job_ends: "tame env job \<Longrightarrow> gives_up job (release_job env job until error) (\<lambda>_. True)"
proof -
  assume "tame env job"
  then have e: "gives_up job (db_call env (\<lambda>n. lease_act (Release until error) (jb_report_id job)
      (jb_claim_token job))) (\<lambda>_. True)"
    by (rule give_up_lease [where a = "\<lambda>_. Release until error"]) simp_all
  have "release_job env job until error = bnd (db_call env (\<lambda>n. lease_act (Release until error)
      (jb_report_id job) (jb_claim_token job))) (\<lambda>_. ret ())"
    by (auto simp: fun_eq_iff release_job_def bnd_def db_call_def Let_def ret_def release_code_match_job_def
        split: sum.split elim!: result_bind.elims)
  with gives_up_ret [OF e, of "\<lambda>_. ()"] show ?thesis by simp
qed

lemma dead_letter_ends:
  "tame env job \<Longrightarrow> gives_up job (dead_letter_owned_code_match_job env job reason) (\<lambda>_. True)"
  unfolding dead_letter_owned_code_match_job_def
  by (intro gives_up_ret give_up_lease [where a = "\<lambda>n. DeadLetter (ev_now env n) reason"]) simp_all

lemma retry_or_dead_letter_ends:
  "tame env job \<Longrightarrow> gives_up job (retry_or_dead_letter_code_match_job env job error) (\<lambda>_. True)"
  unfolding retry_or_dead_letter_code_match_job_def Let_def
  by (auto intro!: gives_up_ret dead_letter_ends release_job_ends goes_on_then [OF any_ends(1)])

lemma terminate_ends:
  "tame env job \<Longrightarrow> gives_up job (terminate_verification env job sha until reason) (\<lambda>_. True)"
  unfolding terminate_verification_def
  by (intro gives_up_ret give_up_lease
      [where a = "\<lambda>n. Terminal (ev_uuid env n) (ev_now env n) (jb_attempts job) sha reason"]) simp_all

lemma release_for_retry_ends:
  "tame env job \<Longrightarrow> (case target of PinnedCommit _ _ \<Rightarrow> True | Content _ _ _ _ _ c \<Rightarrow> payload_shaped c)
   \<Longrightarrow> gives_up job (release_for_retry env job target counts until error) (\<lambda>_. True)"
  unfolding release_for_retry_def
  by (intro gives_up_ret give_up_lease
      [where a = "\<lambda>n. VerificationRetry \<lparr>vr_target = target, vr_counts_toward_ceiling = counts,
         vr_available_at = until, vr_error = error\<rparr>"]) simp_all

lemma unproven_ends:
  "tame env job
   \<Longrightarrow> gives_up job (release_code_match_after_unproven_pinned_commit env job sha repo count counts error)
         (\<lambda>_. True)"
  unfolding release_code_match_after_unproven_pinned_commit_def Let_def
  by (auto intro!: goes_on_then [OF any_ends(1)] terminate_ends release_for_retry_ends)

lemma incomplete_ends:
  "tame env job \<Longrightarrow> payload_shaped (ic_pending ic)
   \<Longrightarrow> gives_up job (release_code_match_after_incomplete_content env job sha repo count ic) (\<lambda>_. True)"
  unfolding release_code_match_after_incomplete_content_def Let_def
  by (auto intro!: goes_on_then [OF any_ends(1)] terminate_ends release_for_retry_ends)

lemma take_ends: "goes_on job take_search (\<lambda>_. True)" "goes_on job take_content (\<lambda>_. True)"
  unfolding take_search_def take_content_def
  by (auto intro!: goes_on_then [OF ends_get_batch] goes_on_then [OF ends_put_batch] ends_ret
      split: prod.split)

lemma store_content_ends: "goes_on job (store_content key content) (\<lambda>_. True)"
  unfolding store_content_def by (rule ends_put_batch)

lemma record_call_ends: "tame env job \<Longrightarrow> goes_on job (record_call env job headroom hit) (\<lambda>_. True)"
  unfolding record_call_def
  by (rule ends_db_call)
    (auto simp: record_code_match_call_def Let_def db_sound_def queue_inv_def payloads_shaped_def
      reports_exist_def holds_def queue_holder_def queue_row_of_def split: if_split_asm)

section \<open>Preflights\<close>

fun stopped_verification :: "uuid \<Rightarrow> verification_preflight \<Rightarrow> uuid set" where
  "stopped_verification k (ProceedWith count) = {}"
| "stopped_verification k (StopVerification outcome) = {k}"

lemma verification_preflight_ends:
  assumes t: "tame env job"
  shows "ends (jb_claim_token job) (preflight_code_match_verification_retry env job repo)
    (stopped_verification (jb_report_id job)) (\<lambda>_. True)"
proof -
  have reset: "ends (jb_claim_token job)
      (bnd (db_call env (\<lambda>n. reset_code_match_verification_retry (jb_report_id job) (jb_claim_token job)))
         (\<lambda>cleared. ret (if cleared then ProceedWith 0 else StopVerification Continue)))
      (stopped_verification (jb_report_id job)) (\<lambda>_. True)"
    by (rule ends_bnd [OF keep_lease [OF t, where a = "\<lambda>_. ResetEpisode"]]) (auto intro: ends_ret)
  have clear: "ends (jb_claim_token job)
      (bnd (db_call env (\<lambda>n. clear_code_match_verification_retry_marker (jb_report_id job) (jb_claim_token job)))
         (\<lambda>cleared. ret (if cleared then ProceedWith (jb_retry_count job) else StopVerification Continue)))
      (stopped_verification (jb_report_id job)) (\<lambda>_. True)"
    by (rule ends_bnd [OF keep_lease [OF t, where a = "\<lambda>_. ClearMarker"]]) (auto intro: ends_ret)
  have stop: "ends (jb_claim_token job)
      (bnd (release_code_match_after_unproven_pinned_commit env job sha repo' count counts error)
         (\<lambda>outcome. ret (StopVerification outcome)))
      (stopped_verification (jb_report_id job)) (\<lambda>_. True)" for sha repo' count counts error
    by (rule ends_bnd [OF unproven_ends [OF t]]) (auto intro: ends_ret)
  show ?thesis
    unfolding preflight_code_match_verification_retry_def
    by (auto intro!: ends_ret reset clear stop goes_on_then [OF any_ends(2)] split: option.split)
qed

fun stopped_content :: "uuid \<Rightarrow> content_preflight \<Rightarrow> uuid set" where
  "stopped_content k (StopContent outcome) = {k}"
| "stopped_content k _ = {}"

fun preflight_shaped :: "content_preflight \<Rightarrow> bool" where
  "preflight_shaped (Resume sha count pending) = pending_shaped pending"
| "preflight_shaped _ = True"

lemma content_retry_candidates:
  "content_retry_of job = Some retry \<Longrightarrow> cr_candidates retry = jb_candidates job"
  by (auto simp: content_retry_of_def split: option.split_asm)

lemma refetch_ends:
  assumes t: "tame env job" and "payload_shaped (cr_candidates retry)"
  shows "ends (jb_claim_token job) (refetch_content env job retry)
    (\<lambda>stopped. case stopped of None \<Rightarrow> {} | Some outcome \<Rightarrow> {jb_report_id job}) (\<lambda>_. True)"
proof -
  have incomplete: "ends (jb_claim_token job)
      (bnd (release_code_match_after_incomplete_content env job sha repo count ic) (\<lambda>outcome. ret (Some outcome)))
      (\<lambda>stopped. case stopped of None \<Rightarrow> {} | Some outcome \<Rightarrow> {jb_report_id job}) (\<lambda>_. True)"
    if "ic_pending ic = cr_candidates retry" for sha repo count ic
    by (rule ends_bnd [OF incomplete_ends [OF t]]) (use that assms(2) in \<open>auto intro: ends_ret\<close>)
  have fetched: "ends (jb_claim_token job)
      (bnd (store_content key content) (\<lambda>_. ret None))
      (\<lambda>stopped. case stopped of None \<Rightarrow> {} | Some outcome \<Rightarrow> {jb_report_id job}) (\<lambda>_. True)" for key content
    by (rule goes_on_then [OF store_content_ends]) (simp add: ends_ret)
  show ?thesis
  proof (cases "cr_file retry")
    case None
    then show ?thesis by (simp add: refetch_content_def ends_fail)
  next
    case (Some path)
    have reply: "ends (jb_claim_token job)
        (case content of PinnedIncomplete kind \<Rightarrow>
           bnd (release_code_match_after_incomplete_content env job (cr_computed_at_sha retry)
                  (cr_repo_full_name retry) (jb_retry_count job)
                  \<lparr>ic_reason = ''content_fetch'', ic_file = Some path,
                   ic_required_content = cr_required_content retry, ic_pending = cr_candidates retry,
                   ic_error = message kind\<rparr>)
             (\<lambda>outcome. ret (Some outcome))
         | _ \<Rightarrow> bnd (store_content key content) (\<lambda>_. ret None))
        (\<lambda>stopped. case stopped of None \<Rightarrow> {} | Some outcome \<Rightarrow> {jb_report_id job}) (\<lambda>_. True)"
      for content key message
      by (cases content) (simp_all add: fetched incomplete)
    have "ends (jb_claim_token job) (if \<not> granted then fail message
        else bnd (github c f) (\<lambda>r. g (pinned_of_reply r)))
        (\<lambda>stopped. case stopped of None \<Rightarrow> {} | Some outcome \<Rightarrow> {jb_report_id job}) (\<lambda>_. True)"
      if "\<And>content. ends (jb_claim_token job) (g content)
        (\<lambda>stopped. case stopped of None \<Rightarrow> {} | Some outcome \<Rightarrow> {jb_report_id job}) (\<lambda>_. True)"
      for granted message c and f :: "nat \<Rightarrow> source_error + string" and g
      by (cases granted) (simp_all add: that goes_on_then [OF any_ends(2)] ends_fail)
    note fetch = this
    show ?thesis
      unfolding refetch_content_def Let_def Some option.case
      by (rule goes_on_then [OF take_ends(2)], rule fetch, rule reply)
  qed
qed

lemma content_preflight_ends:
  assumes t: "tame env job" and p: "payload_shaped (jb_candidates job)"
  shows "ends (jb_claim_token job) (preflight_code_match_content_retry env job repo count)
    (stopped_content (jb_report_id job)) preflight_shaped"
proof (cases "content_retry_of job")
  case None
  then show ?thesis by (simp add: preflight_code_match_content_retry_def ends_ret)
next
  case (Some retry)
  then have shaped: "payload_shaped (cr_candidates retry)" using content_retry_candidates p by simp
  have reset: "ends (jb_claim_token job)
      (bnd (db_call env (\<lambda>n. reset_code_match_verification_retry (jb_report_id job) (jb_claim_token job)))
         (\<lambda>cleared. ret (if cleared then Fresh 0 else StopContent Continue)))
      (stopped_content (jb_report_id job)) preflight_shaped"
    by (rule ends_bnd [OF keep_lease [OF t, where a = "\<lambda>_. ResetEpisode"]]) (auto intro: ends_ret)
  have stop: "ends (jb_claim_token job)
      (stop_content (release_code_match_after_incomplete_content env job sha repo' count ic))
      (stopped_content (jb_report_id job)) preflight_shaped"
    if "ic_pending ic = cr_candidates retry" for sha repo' count ic
    unfolding stop_content_def
    by (rule ends_bnd [OF incomplete_ends [OF t]]) (use that shaped in \<open>auto intro: ends_ret\<close>)
  have fetch: "ends (jb_claim_token job)
      (if cr_reason retry = ''content_fetch'' then refetch_content env job retry else ret None)
      (\<lambda>stopped. case stopped of None \<Rightarrow> {} | Some outcome \<Rightarrow> {jb_report_id job}) (\<lambda>_. True)"
    using refetch_ends [OF t shaped] by (simp add: ends_ret)
  have go_on: "ends (jb_claim_token job)
      (case cr_candidates retry of
         None \<Rightarrow> ret (RetrySha (cr_computed_at_sha retry) (jb_retry_count job))
       | Some candidates \<Rightarrow>
           (case pending_from_value candidates of
              None \<Rightarrow> fail message
            | Some pending \<Rightarrow> ret (Resume (cr_computed_at_sha retry) (jb_retry_count job) pending)))
      (stopped_content (jb_report_id job)) preflight_shaped" for message
    using shaped by (auto simp: payload_shaped_def opt_all_iff intro!: ends_ret ends_fail split: option.split)
  have work: "ends (jb_claim_token job)
      (bnd (if cr_reason retry = ''content_fetch'' then refetch_content env job retry else ret None)
         (\<lambda>stopped. case stopped of
             Some outcome \<Rightarrow> ret (StopContent outcome)
           | None \<Rightarrow>
               (case cr_candidates retry of
                  None \<Rightarrow> ret (RetrySha (cr_computed_at_sha retry) (jb_retry_count job))
                | Some candidates \<Rightarrow>
                    (case pending_from_value candidates of
                       None \<Rightarrow> fail ''code-match pending verification payload was invalid''
                     | Some pending \<Rightarrow>
                         ret (Resume (cr_computed_at_sha retry) (jb_retry_count job) pending)))))
      (stopped_content (jb_report_id job)) preflight_shaped"
  proof (rule ends_bnd [OF fetch], goal_cases)
    case (1 stopped)
    show ?case by (cases stopped) (auto simp: ends_ret intro: ends_weaken [OF go_on])
  qed
  have choice: "ends (jb_claim_token job) (if bt_content b < n then stop_content
        (release_code_match_after_incomplete_content env job sha repo' count ic) else m)
      (stopped_content (jb_report_id job)) preflight_shaped"
    if "ic_pending ic = cr_candidates retry"
      and "ends (jb_claim_token job) m (stopped_content (jb_report_id job)) preflight_shaped"
    for b n sha repo' count ic m
    using that stop by simp
  show ?thesis
  proof (cases "same_code_match_repo (cr_repo_full_name retry) repo")
    case False
    then show ?thesis using reset by (simp add: preflight_code_match_content_retry_def Some)
  next
    case True
    show ?thesis
      unfolding preflight_code_match_content_retry_def Some option.case Let_def
      by (simp only: True simp_thms if_False)
        (rule goes_on_then [OF ends_get_batch], rule choice, simp, rule work)
  qed
qed

section \<open>Searching, resolving and settling\<close>

fun stopped_search :: "uuid \<Rightarrow> search_next \<Rightarrow> uuid set" where
  "stopped_search k (SearchDone s) = {}"
| "stopped_search k (SearchReturn outcome) = {k}"

fun search_shaped :: "search_next \<Rightarrow> bool" where
  "search_shaped (SearchDone s) = pending_shaped (sp_pending s)"
| "search_shaped (SearchReturn outcome) = True"

lemma search_hit_ends:
  assumes "tame env job" and "pending_shaped (sp_pending s)"
  shows "goes_on job (search_hit env job query result s) (\<lambda>s'. pending_shaped (sp_pending s'))"
proof -
  have shaped: "pending_shaped \<lparr>pv_pending = pv_pending (sp_pending s) @ [x],
      pv_resolved = pv_resolved (sp_pending s) @ [y], pv_tracker = u\<rparr>" for x y u
    using assms(2) by (simp add: pending_shaped_def)
  show ?thesis
    unfolding search_hit_def Let_def
    by (rule goes_on_then [OF record_call_ends [OF assms(1)]], rule goes_on_then [OF any_ends(1)],
        rule goes_on_then [OF any_ends(1)], rule goes_on_then [OF any_ends(1)])
      (auto split: prod.split intro!: goes_on_then [OF ends_put_batch] ends_ret shaped)
qed

lemma search_failed_ends:
  assumes t: "tame env job" and s: "pending_shaped (sp_pending s)"
  shows "ends (jb_claim_token job) (search_failed env job e message s) (stopped_search (jb_report_id job))
    search_shaped"
proof -
  have stop: "ends (jb_claim_token job) (bnd m (\<lambda>x. ret (SearchReturn (g x))))
      (stopped_search (jb_report_id job)) search_shaped" if "gives_up job m (\<lambda>_. True)"
    for m :: "'c act" and g
    by (rule ends_bnd [OF that]) (simp add: ends_ret)
  have limited: "ends (jb_claim_token job) (bnd (observe f) (\<lambda>now.
      bnd (release_job env job (u now) err) (\<lambda>_. ret (SearchReturn (out now)))))
      (stopped_search (jb_report_id job)) search_shaped" for f :: "nat \<Rightarrow> time" and u err out
    by (rule goes_on_then [OF any_ends(1)], rule stop, rule release_job_ends [OF t])
  show ?thesis
    unfolding search_failed_def Let_def
    by (rule goes_on_then [OF record_call_ends [OF t]])
      (auto simp: s intro!: limited stop dead_letter_ends retry_or_dead_letter_ends t ends_ret)
qed

lemma search_once_ends:
  assumes t: "tame env job" and s: "pending_shaped (sp_pending s)"
  shows "ends (jb_claim_token job) (search_once env job query s) (stopped_search (jb_report_id job)) search_shaped"
proof -
  have hit: "ends (jb_claim_token job) (bnd (search_hit env job query result s) (\<lambda>s'. ret (SearchDone s')))
      (stopped_search (jb_report_id job)) search_shaped" for result
    by (rule goes_on_then [OF search_hit_ends [OF t s]]) (simp add: ends_ret)
  show ?thesis
    unfolding search_once_def
    by (rule goes_on_then [OF ends_get_batch], rule goes_on_then [OF any_ends(2)])
      (auto intro: hit search_failed_ends [OF t s] split: sum.split prod.split)
qed

lemma search_queries_ends:
  assumes t: "tame env job" and s: "pending_shaped (sp_pending s)"
  shows "ends (jb_claim_token job) (search_queries env job qs s) (stopped_search (jb_report_id job)) search_shaped"
  using s
proof (induction qs arbitrary: s)
  case (Cons q qs)
  have step: "ends (jb_claim_token job)
      (bnd (search_once env job q s) (\<lambda>nxt. case nxt of SearchReturn outcome \<Rightarrow> ret (SearchReturn outcome)
         | SearchDone s' \<Rightarrow> search_queries env job qs s'))
      (stopped_search (jb_report_id job)) search_shaped"
  proof (rule ends_bnd [OF search_once_ends [OF t Cons.prems]], goal_cases)
    case (1 nxt)
    then show ?case
      using Cons.IH by (cases nxt) (auto simp: ends_ret intro: ends_weaken)
  qed
  show ?case
    by simp (rule goes_on_then [OF take_ends(1)], use Cons.prems step in \<open>auto intro: ends_ret\<close>)
qed (simp add: ends_ret)

fun stopped_phase :: "uuid \<Rightarrow> pending_phase \<Rightarrow> uuid set" where
  "stopped_phase k (PhaseStop outcome) = {k}"
| "stopped_phase k (PhasePending p) = {}"

fun phase_shaped :: "pending_phase \<Rightarrow> bool" where
  "phase_shaped (PhasePending p) = pending_shaped p"
| "phase_shaped (PhaseStop outcome) = True"

lemma search_candidates_ends:
  assumes t: "tame env job"
  shows "ends (jb_claim_token job) (search_candidates env job repo) (stopped_phase (jb_report_id job)) phase_shaped"
proof -
  have start: "pending_shaped (sp_pending search_start)"
    by (simp add: search_start_def pending_shaped_def)
  have stop: "ends (jb_claim_token job) (bnd m (\<lambda>x. ret (PhaseStop (g x))))
      (stopped_phase (jb_report_id job)) phase_shaped" if "gives_up job m (\<lambda>_. True)"
    for m :: "'c act" and g
    by (rule ends_bnd [OF that]) (simp add: ends_ret)
  have quota: "ends (jb_claim_token job) (bnd get_batch (\<lambda>b. bnd (observe f) (\<lambda>now.
      bnd (release_job env job (u b now) (err b)) (\<lambda>_. ret (PhaseStop Continue)))))
      (stopped_phase (jb_report_id job)) phase_shaped" for f :: "nat \<Rightarrow> time" and u err
    by (rule goes_on_then [OF ends_get_batch], rule goes_on_then [OF any_ends(1)], rule stop,
        rule release_job_ends [OF t])
  show ?thesis
    unfolding search_candidates_def Let_def
  proof (rule ends_bnd [OF search_queries_ends [OF t start]], goal_cases)
    case (1 nxt)
    show ?case
    proof (cases nxt)
      case (SearchDone s)
      with 1 show ?thesis
        by (auto simp: Diff_empty intro!: stop quota dead_letter_ends t ends_ret)
    qed (simp add: ends_ret)
  qed
qed

lemma resolve_ends:
  assumes "pending_shaped p"
  shows "goes_on job (resolve_pending_code_search_candidates env repo sha p) resolution_shaped"
  unfolding ends_def using resolve_returns [OF assms, of env repo sha] by (metis Int_empty_left sum.inject(2) subset_refl)

lemma complete_ends: "tame env job \<Longrightarrow> gives_up job (complete_job env job c) (\<lambda>_. True)"
  unfolding complete_job_def
  by (intro gives_up_ret give_up_lease [where a = "\<lambda>n. Complete (ev_uuid env n) (ev_now env n) c"]) simp_all

lemma settle_ends:
  assumes t: "tame env job"
  shows "gives_up job (settle_and_complete_code_match_job env job repo sha ms u count) (\<lambda>_. True)"
  unfolding settle_and_complete_code_match_job_def
  by (auto intro!: goes_on_then [OF any_ends(2)] unproven_ends complete_ends t split: option.split prod.split)

lemma finish_ends:
  assumes t: "tame env job" and p: "pending_shaped p"
  shows "gives_up job (finish_job env job repo sha count p) (\<lambda>_. True)"
  unfolding finish_job_def
proof (rule goes_on_then [OF resolve_ends [OF p]], goal_cases)
  case (1 r)
  then show ?case by (cases r) (auto intro: settle_ends incomplete_ends t)
qed


section \<open>Processing and draining\<close>

fun stopped_commit :: "uuid \<Rightarrow> job_outcome + 'a \<Rightarrow> uuid set" where
  "stopped_commit k (Inl outcome) = {k}"
| "stopped_commit k (Inr x) = {}"

fun commit_shaped :: "job_outcome + string \<times> int \<times> pending_verification option \<Rightarrow> bool" where
  "commit_shaped (Inl outcome) = True"
| "commit_shaped (Inr (sha, count, resumed)) = opt_all pending_shaped resumed"

lemma head_sha_ends:
  assumes t: "tame env job"
  shows "ends (jb_claim_token job) (head_sha env job repo branch) (stopped_commit (jb_report_id job)) (\<lambda>_. True)"
proof -
  have stop: "ends (jb_claim_token job) (bnd (retry_or_dead_letter_code_match_job env job message)
      (\<lambda>x. ret (Inl (g x)))) (stopped_commit (jb_report_id job)) (\<lambda>_. True)"
    for message and g :: "time option \<Rightarrow> job_outcome"
    by (rule ends_bnd [OF retry_or_dead_letter_ends [OF t]]) (simp add: ends_ret)
  have store: "ends (jb_claim_token job) (bnd (put_batch f) (\<lambda>_. ret (Inr sha)))
      (stopped_commit (jb_report_id job)) (\<lambda>_. True)" for f sha
    by (rule goes_on_then [OF ends_put_batch]) (simp add: ends_ret)
  have lookup: "ends (jb_claim_token job)
      (case known of Some sha \<Rightarrow> ret (Inr sha) | None \<Rightarrow> m) (stopped_commit (jb_report_id job)) (\<lambda>_. True)"
    if "ends (jb_claim_token job) m (stopped_commit (jb_report_id job)) (\<lambda>_. True)" for known m
    using that by (auto simp: ends_ret split: option.split)
  show ?thesis
    unfolding head_sha_def Let_def
    by (rule goes_on_then [OF ends_get_batch], rule lookup, rule goes_on_then [OF any_ends(2)])
      (auto intro: stop store split: sum.split)
qed

lemma choose_commit_ends:
  assumes t: "tame env job" and p: "preflight_shaped cp"
  shows "ends (jb_claim_token job) (choose_commit env job repo branch cp)
    (\<lambda>y. stopped_commit (jb_report_id job) y - stopped_content (jb_report_id job) cp) commit_shaped"
proof (cases cp)
  case (Fresh count)
  have budget: "ends (jb_claim_token job)
      (bnd (release_code_match_after_incomplete_content env job sha repo count ic) (\<lambda>outcome. ret (Inl outcome)))
      (stopped_commit (jb_report_id job)) commit_shaped" if "ic_pending ic = None" for sha ic
    by (rule ends_bnd [OF incomplete_ends [OF t]]) (auto simp: that ends_ret)
  have enough: "ends (jb_claim_token job) (if bt_content b = 0
        then bnd (release_code_match_after_incomplete_content env job sha repo count ic) (\<lambda>outcome. ret (Inl outcome))
        else ret (Inr (sha, count, None)))
      (stopped_commit (jb_report_id job)) commit_shaped" if "ic_pending ic = None" for b sha ic
    using budget that by (simp add: ends_ret opt_all_iff)
  show ?thesis
    unfolding choose_commit_def Fresh content_preflight.case stopped_content.simps Diff_empty
  proof (rule ends_bnd [OF head_sha_ends [OF t]], goal_cases)
    case (1 head)
    show ?case
    proof (cases head)
      case (Inr sha)
      show ?thesis
        unfolding Inr sum.case stopped_commit.simps(2) Diff_empty
        by (rule goes_on_then [OF ends_get_batch], rule enough, simp)
    qed (simp add: ends_ret)
  qed
qed (use p in \<open>simp_all add: choose_commit_def ends_ret opt_all_iff\<close>)

lemma process_commit_ends:
  assumes t: "tame env job" and c: "commit_shaped commit"
  shows "ends (jb_claim_token job) (process_commit env job repo commit)
    (\<lambda>_. {jb_report_id job} - stopped_commit (jb_report_id job) commit) (\<lambda>_. True)"
proof (cases commit)
  case (Inr x)
  then obtain sha count resumed where x: "commit = Inr (sha, count, resumed)" by (cases x) auto
  show ?thesis
  proof (cases resumed)
    case (Some pending)
    then show ?thesis
      using c finish_ends [OF t] by (simp add: process_commit_def x opt_all_iff)
  next
    case None
    have "gives_up job (bnd (search_candidates env job repo) (\<lambda>phase.
        case phase of PhaseStop outcome \<Rightarrow> ret outcome
        | PhasePending pending \<Rightarrow> finish_job env job repo sha count pending)) (\<lambda>_. True)"
    proof (rule ends_bnd [OF search_candidates_ends [OF t]], goal_cases)
      case (1 phase)
      then show ?case by (cases phase) (simp_all add: ends_ret finish_ends t)
    qed
    with None show ?thesis by (simp add: process_commit_def x)
  qed
qed (simp add: process_commit_def ends_ret)

lemma process_content_ends:
  assumes t: "tame env job" and p: "preflight_shaped cp"
  shows "ends (jb_claim_token job) (process_content env job repo branch cp)
    (\<lambda>_. {jb_report_id job} - stopped_content (jb_report_id job) cp) (\<lambda>_. True)"
  unfolding process_content_def
proof (rule ends_bnd [OF choose_commit_ends [OF t p]], goal_cases)
  case (1 commit)
  show ?case by (rule ends_weaken [OF process_commit_ends [OF t 1]]) auto
qed

lemma process_with_repo_ends:
  assumes t: "tame env job" and p: "payload_shaped (jb_candidates job)"
  shows "gives_up job (process_with_repo env job repo branch) (\<lambda>_. True)"
  unfolding process_with_repo_def
proof (rule ends_bnd [OF verification_preflight_ends [OF t]], goal_cases)
  case (1 vp)
  show ?case
  proof (cases vp)
    case (ProceedWith count)
    have "gives_up job (bnd (preflight_code_match_content_retry env job repo count)
        (process_content env job repo branch)) (\<lambda>_. True)"
      by (rule ends_bnd [OF content_preflight_ends [OF t p]], rule process_content_ends [OF t])
    with ProceedWith show ?thesis by simp
  qed (simp add: ends_ret)
qed

lemma process_job_ends:
  "tame env job \<Longrightarrow> payload_shaped (jb_candidates job)
    \<Longrightarrow> gives_up job (process_code_match_job env job) (\<lambda>_. True)"
  by (auto simp: process_code_match_job_def intro: ends_fail process_with_repo_ends split: option.split)

definition claimed_ok :: "uuid \<Rightarrow> code_match_job \<Rightarrow> bool" where
  "claimed_ok t job \<longleftrightarrow> jb_claim_token job = t \<and> payload_shaped (jb_candidates job)"

lemma ends_for_each_job:
  assumes "list_all (claimed_ok t) jobs" and "\<And>job. claimed_ok t job \<Longrightarrow> gives_up job (f job) (\<lambda>_. True)"
  shows "ends t (for_each f jobs) (\<lambda>_. jb_report_id ` set jobs) (\<lambda>_. True)"
proof -
  have "ends t (f job) (\<lambda>_. {jb_report_id job}) (\<lambda>_. True)" if "job \<in> set jobs" for job
    using assms(2) [of job] assms(1) that by (auto simp: list_all_iff claimed_ok_def)
  from ends_for_each [OF this] show ?thesis by (simp add: UNION_singleton_eq_range)
qed

lemma process_jobs_ends:
  assumes t: "others_ok env t" and "list_all (claimed_ok t) jobs"
  shows "ends t (process_jobs env jobs) (\<lambda>_. jb_report_id ` set jobs) (\<lambda>_. True)"
  using assms(2)
proof (induction jobs)
  case (Cons job rest)
  have job: "ends t (process_code_match_job env job) (\<lambda>_. {jb_report_id job}) (\<lambda>_. True)"
    using Cons.prems t process_job_ends [of env job] by (auto simp: claimed_ok_def)
  have release: "ends t (for_each (\<lambda>pending. release_job env pending until (Some error)) rest)
      (\<lambda>_. jb_report_id ` set rest) (\<lambda>_. True)" for until error
  proof (rule ends_for_each_job)
    show "list_all (claimed_ok t) rest" using Cons.prems by simp
    show "claimed_ok t other \<Longrightarrow> gives_up other (release_job env other until (Some error)) (\<lambda>_. True)" for other
      using release_job_ends [of env other] t by (simp add: claimed_ok_def)
  qed
  show ?case
    unfolding process_jobs.simps
  proof (rule ends_bnd [OF job], goal_cases)
    case (1 outcome)
    show ?case
      using Cons.IH Cons.prems release by (cases outcome) (auto intro: ends_weaken)
  qed
qed (simp add: ends_ret)

lemma reset_and_retry_ends: "tame env job \<Longrightarrow> gives_up job (reset_and_retry env job message) (\<lambda>_. True)"
  unfolding reset_and_retry_def
  by (rule ends_bnd [OF keep_lease [where a = "\<lambda>_. ResetEpisode"]])
    (auto intro: ends_ret gives_up_ret retry_or_dead_letter_ends)

lemma release_after_token_failure_ends:
  assumes t: "tame env job" and p: "payload_shaped (jb_candidates job)"
  shows "gives_up job (release_after_token_failure env message job) (\<lambda>_. True)"
proof -
  have "payload_shaped (cr_candidates retry)" if "content_retry_of job = Some retry" for retry
    using content_retry_candidates that p by simp
  then show ?thesis
    unfolding release_after_token_failure_def
    by (auto intro!: reset_and_retry_ends gives_up_ret unproven_ends incomplete_ends
        retry_or_dead_letter_ends t split: option.split)
qed

lemma drain_installation_ends:
  assumes t: "others_ok env t" and jobs: "list_all (claimed_ok t) jobs"
  shows "ends t (drain_installation env (i, jobs)) (\<lambda>_. jb_report_id ` set jobs) (\<lambda>_. True)"
proof -
  have failed: "ends t (for_each (release_after_token_failure env message) jobs)
      (\<lambda>_. jb_report_id ` set jobs) (\<lambda>_. True)" for message
    using t by (intro ends_for_each_job [OF jobs])
      (auto simp: claimed_ok_def intro: release_after_token_failure_ends)
  have work: "ends t (bnd (observe f) (\<lambda>instant. bnd (put_batch (g instant)) (\<lambda>_. process_jobs env jobs)))
      (\<lambda>_. jb_report_id ` set jobs) (\<lambda>_. True)" for f :: "nat \<Rightarrow> time" and g
    by (rule ends_seq [OF ends_observe [where Q = "\<lambda>_. True"]], simp,
        rule ends_seq [OF ends_put_batch], rule process_jobs_ends [OF t jobs])
  show ?thesis
    unfolding drain_installation_def prod.case
    by (rule ends_seq [OF ends_github [where Q = "\<lambda>_. True"]], simp)
      (auto intro: failed work split: option.split)
qed

lemma drain_batch_ends:
  assumes t: "others_ok env t" and jobs: "list_all (claimed_ok t) jobs"
  shows "ends t (drain_code_match_batch env jobs) (\<lambda>_. jb_report_id ` set jobs) (\<lambda>_. True)"
proof -
  define lost where "lost job \<longleftrightarrow> active_installation_id job = None" for job
  have unmapped: "ends t (for_each (\<lambda>job. if active_installation_id job = None
        then dead_letter_owned_code_match_job env job message else ret ()) jobs)
      (\<lambda>_. \<Union>job \<in> set jobs. if lost job then {jb_report_id job} else {}) (\<lambda>_. True)" for message
    using dead_letter_ends [of env] jobs t
    by (intro ends_for_each) (auto simp: claimed_ok_def list_all_iff lost_def intro: ends_ret)
  have groups: "ends t (for_each (drain_installation env) (jobs_by_installation jobs))
      (\<lambda>_. \<Union>g \<in> set (jobs_by_installation jobs). jb_report_id ` set (snd g)) (\<lambda>_. True)"
  proof (rule ends_for_each)
    fix g
    assume "g \<in> set (jobs_by_installation jobs)"
    then obtain i where g: "g = (i, filter (\<lambda>j. active_installation_id j = Some i) jobs)"
      by (auto simp: jobs_by_installation_def)
    show "ends t (drain_installation env g) (\<lambda>_. jb_report_id ` set (snd g)) (\<lambda>_. True)"
      unfolding g snd_conv by (rule drain_installation_ends [OF t]) (use jobs in \<open>auto simp: list_all_iff\<close>)
  qed
  have cover: "jb_report_id ` set jobs - (\<Union>job \<in> set jobs. if lost job then {jb_report_id job} else {})
      \<subseteq> (\<Union>g \<in> set (jobs_by_installation jobs). jb_report_id ` set (snd g))"
  proof clarify
    fix job
    assume job: "job \<in> set jobs" and "jb_report_id job \<notin> (\<Union>job \<in> set jobs. if lost job then {jb_report_id job} else {})"
    then have "\<not> lost job" by auto
    then obtain i where i: "active_installation_id job = Some i" by (auto simp: lost_def)
    have "i \<in> set (List.map_filter active_installation_id jobs)"
      using job i by (force simp: List.map_filter_def)
    then have "(i, filter (\<lambda>j. active_installation_id j = Some i) jobs) \<in> set (jobs_by_installation jobs)"
      by (simp add: jobs_by_installation_def)
    then show "jb_report_id job \<in> (\<Union>g \<in> set (jobs_by_installation jobs). jb_report_id ` set (snd g))"
      using job i by force
  qed
  show ?thesis
    unfolding drain_code_match_batch_def
    by (rule ends_bnd [OF unmapped], rule ends_weaken [OF groups]) (use cover in auto)
qed


section \<open>A round\<close>

lemma claimed_jobs_cover:
  assumes "db_sound db"
  shows "holds t db \<subseteq> jb_report_id ` set (claimed_jobs t db)"
    and "list_all (claimed_ok t) (claimed_jobs t db)"
proof -
  show "holds t db \<subseteq> jb_report_id ` set (claimed_jobs t db)"
  proof
    fix k
    assume "k \<in> holds t db"
    then obtain r where r: "r \<in> set (md_queue db)" "cq_report_id r = k" "cq_claim_token r = Some t"
      using assms by (auto simp: holds_def queue_holder_iff db_sound_def owned_def)
    then have "find (\<lambda>rep. rv_id rep = cq_report_id r) (md_reports db) \<noteq> None"
      using assms by (auto simp: db_sound_def reports_exist_def find_None_iff)
    then obtain rep where "find (\<lambda>rep. rv_id rep = cq_report_id r) (md_reports db) = Some rep" by blast
    then have "job_of db t r rep \<in> set (claimed_jobs t db)"
      using r by (force simp: claimed_jobs_def)
    moreover have "jb_report_id (job_of db t r rep) = k" using r by (simp add: job_of_def Let_def)
    ultimately show "k \<in> jb_report_id ` set (claimed_jobs t db)" by (metis image_eqI)
  qed
  show "list_all (claimed_ok t) (claimed_jobs t db)"
    using assms
    by (auto simp: list_all_iff claimed_jobs_def claimed_ok_def job_of_def Let_def db_sound_def
        payloads_shaped_def split: option.splits)
qed

lemma claim_rows_kept:
  assumes "claim_code_match_batch t now locked limit stale_before db = Inr (jobs, db')"
  shows "rows_kept db db'"
proof (cases "0 < limit")
  case False
  with assms show ?thesis by (auto simp: claim_code_match_batch_def rows_kept_def)
next
  case True
  from claim_code_match_batch_Inr [OF assms True] obtain rows ids where
    "rows = update_where (stale_claim stale_before) unclaim (md_queue db)"
    "db' = db\<lparr>md_queue := update_where (\<lambda>r. cq_report_id r \<in> set ids) (claim_row t now) rows\<rparr>" by metis
  moreover have "cq_candidates (unclaim r) = cq_candidates r" "cq_candidates (claim_row t now r) = cq_candidates r"
    "cq_report_id (claim_row t now r) = cq_report_id r" for r
    by (simp_all add: unclaim_def claim_row_def)
  ultimately show ?thesis by (auto simp: rows_kept_def row_simps; metis)
qed

lemma claim_sound:
  assumes "db_sound db" and run: "claim_code_match_batch t now locked CODE_MATCH_BATCH_SIZE sb db = Inr (jobs, db')"
  shows "db_sound db'" and "jobs = claimed_jobs t db'"
proof -
  have limit: "0 < CODE_MATCH_BATCH_SIZE" by (simp add: CODE_MATCH_BATCH_SIZE_def)
  show "jobs = claimed_jobs t db'" using claim_code_match_batch_Inr [OF run limit] by metis
  have "queue_inv db" using assms(1) by (simp add: db_sound_def)
  from claim_effect(1) [OF this run] show "db_sound db'"
    by (rule rows_kept_sound [OF claim_rows_kept [OF run] _ assms(1)])
qed

text \<open>Giving a whole claim back cannot fail: no constraint speaks of the columns it writes.\<close>

lemma release_claim_frees:
  assumes "db_sound db"
  shows "\<exists>db'. release_code_match_claim t until error db = Inr ((), db') \<and> db_sound db' \<and> holds t db' = {}"
proof -
  define f where "f = (\<lambda>r. (unclaim r)\<lparr>cq_available_at := until,
    cq_last_error := Some (utf8_take MAX_ERROR_CHARS error)\<rparr>)"
  have inv: "queue_inv db" using assms by (simp add: db_sound_def)
  have ok: "queue_row_ok (f r)" if "r \<in> set (md_queue db)" for r
  proof -
    have "queue_row_ok r" using that inv by (auto simp: queue_inv_def list_all_iff)
    then show ?thesis by (simp add: queue_row_ok_def f_def unclaim_def content_retry_check_def)
  qed
  define db' where "db' = db\<lparr>md_queue := update_where (\<lambda>r. cq_claim_token r = Some t) f (md_queue db)\<rparr>"
  have run: "release_code_match_claim t until error db = Inr ((), db')"
    using ok by (simp add: release_code_match_claim_def result_bind_Inr checked_update_Inr f_def db'_def)
  have "rows_kept db db'" by (auto simp: rows_kept_def db'_def row_simps f_def unclaim_def)
  moreover have inv': "queue_inv db'" using release_claim_effect(1) [OF inv run] .
  ultimately have sound: "db_sound db'" using rows_kept_sound assms by blast
  have "\<not> owned k t r" if "r \<in> set (md_queue db')" for k r
    using that by (auto simp: db'_def row_simps f_def unclaim_def owned_def)
  then have "holds t db' = {}" using inv' by (auto simp: holds_def queue_holder_iff)
  with run sound show ?thesis by blast
qed

text \<open>Once a batch is drained, or has failed and was given back, nothing of it is held.\<close>

lemma drained_round:
  assumes o: "others_ok env t" and sound: "db_sound (w_db v)" and jobs: "list_all (claimed_ok t) (job # rest)"
    and held: "holds t (w_db v) \<subseteq> jb_report_id ` set (job # rest)"
  shows "\<exists>r w'. bnd (attempt (drain_code_match_batch env (job # rest))) (\<lambda>drained.
      case drained of Inr _ \<Rightarrow> ret ()
      | Inl error \<Rightarrow> bnd (observe (ev_now env)) (\<lambda>now.
          bnd (attempt (db_call env (\<lambda>n. release_code_match_claim (jb_claim_token job)
            (now + seconds 30) error))) (\<lambda>_. ret ()))) v = Some (r, w')
    \<and> db_sound (w_db w') \<and> holds t (w_db w') = {}"
proof -
  obtain r w2 where d: "drain_code_match_batch env (job # rest) v = Some (r, w2)" "db_sound (w_db w2)"
      "holds t (w_db w2) \<subseteq> holds t (w_db v)"
    and freed: "\<forall>x. r = Inr x \<longrightarrow> True \<and> jb_report_id ` set (job # rest) \<inter> holds t (w_db w2) = {}"
    using drain_batch_ends [OF o jobs] sound unfolding ends_def by blast
  show ?thesis
  proof (cases r)
    case (Inr x)
    then have "jb_report_id ` set (job # rest) \<inter> holds t (w_db w2) = {}" using freed by blast
    with d(3) held have "holds t (w_db w2) = {}" by blast
    with d Inr show ?thesis by (simp add: bnd_def attempt_def ret_def)
  next
    case (Inl error)
    define db where "db = ev_others env (Suc (w_tick w2)) (w_db w2)"
    have "db_sound db" using o d(2) unfolding others_ok_def db_def by blast
    moreover have "jb_claim_token job = t" using jobs by (simp add: claimed_ok_def)
    ultimately obtain db' where
      "release_code_match_claim (jb_claim_token job) (ev_now env (w_tick w2) + seconds 30) error db = Inr ((), db')"
      "db_sound db'" "holds t db' = {}"
      using release_claim_frees by metis
    with d(1) Inl show ?thesis
      by (simp add: bnd_def observe_def attempt_def db_call_def Let_def db_def ret_def)
  qed
qed

lemma claim_batch_run:
  assumes "db = ev_others env (Suc (w_tick w)) (w_db w)"
  shows "claim_batch env w =
    (case claim_code_match_batch (ev_uuid env (Suc (w_tick w))) (ev_now env (Suc (w_tick w)))
        (ev_locked env (Suc (w_tick w))) CODE_MATCH_BATCH_SIZE
        (ev_now env (w_tick w) - CODE_MATCH_STALE_CLAIM_AGE) db of
       Inl e \<Rightarrow> Some (Inl (err_message e), w\<lparr>w_tick := Suc (Suc (w_tick w)), w_db := db\<rparr>)
     | Inr (jobs, db') \<Rightarrow> Some (Inr jobs, w\<lparr>w_tick := Suc (Suc (w_tick w)), w_db := db'\<rparr>))"
  by (simp add: claim_batch_def bnd_observe db_call_def Let_def assms split: sum.split prod.split)

text \<open>
  C3.  No work is stranded.  A round of the worker always returns, whatever GitHub answers and
  whichever statement fails, and afterwards no job of the batch it claimed is still held under its
  token: each was settled, scheduled again, dead-lettered or taken over.  The database may change
  between any two statements, as long as the others keep the tables sound and do not write this
  worker's token; the token is fresh when the round claims.
\<close>

theorem round_leaves_no_claim:
  assumes "db_sound (w_db w)" and "t = ev_uuid env (Suc (w_tick w))"
    and "others_ok env t" and "\<forall>k. queue_holder (w_db w) k \<noteq> Some t"
  shows "\<exists>r w'. code_match_round env w = Some (r, w') \<and> db_sound (w_db w')
    \<and> (\<forall>k. queue_holder (w_db w') k \<noteq> Some t)"
proof -
  define db where "db = ev_others env (Suc (w_tick w)) (w_db w)"
  have db: "db_sound db" "holds t db = {}"
    using assms(1,3,4) unfolding others_ok_def db_def holds_def by blast+
  note claim = claim_batch_run [OF db_def, folded assms(2)]
  define c where "c = claim_code_match_batch t (ev_now env (Suc (w_tick w)))
        (ev_locked env (Suc (w_tick w))) CODE_MATCH_BATCH_SIZE
        (ev_now env (w_tick w) - CODE_MATCH_STALE_CLAIM_AGE) db"
  have "\<exists>r w'. code_match_round env w = Some (r, w') \<and> db_sound (w_db w') \<and> holds t (w_db w') = {}"
  proof (cases c)
    case (Inl e)
    with db claim show ?thesis
      by (simp add: code_match_round_def bnd_def attempt_def ret_def c_def [symmetric])
  next
    case (Inr p)
    then obtain jobs db' where c: "c = Inr (jobs, db')" by (cases p) auto
    note s = claim_sound [OF db(1) c [unfolded c_def]]
    note cover = claimed_jobs_cover [OF s(1), of t, folded s(2)]
    show ?thesis
    proof (cases jobs)
      case Nil
      with c claim cover s(1) show ?thesis
        by (simp add: code_match_round_def bnd_def attempt_def ret_def c_def [symmetric])
    next
      case (Cons job rest)
      have "attempt (claim_batch env) w
          = Some (Inr (Inr (job # rest)), w\<lparr>w_tick := Suc (Suc (w_tick w)), w_db := db'\<rparr>)"
        using c claim Cons by (simp add: attempt_def c_def [symmetric])
      with drained_round [OF assms(3) _ cover(2) [unfolded Cons],
          of "w\<lparr>w_tick := Suc (Suc (w_tick w)), w_db := db'\<rparr>"] s(1) cover(1) Cons
      show ?thesis by (simp add: code_match_round_def bnd_def [of "attempt (claim_batch env)"])
    qed
  qed
  then show ?thesis unfolding holds_def by blast
qed

text \<open>A round while another process enqueues the same report again before every statement.\<close>

definition busy_env :: env where
  "busy_env = env0\<lparr>ev_others := (\<lambda>n db.
     if \<exists>rep \<in> set (md_reports db). rv_id rep = 3 then enqueue_code_match_if_mapped (int n) 3 1 db else db)\<rparr>"

definition world1 :: world where
  "world1 = \<lparr>w_tick = 0, w_db = match_db0, w_calls = [], w_batch = new_batch 0\<rparr>"

lemma enqueue_sound:
  assumes "db_sound db" and "\<exists>rep \<in> set (md_reports db). rv_id rep = k"
  shows "db_sound (enqueue_code_match_if_mapped now k p db)"
  using assms enqueue_effect(1) [of db now k p]
  by (auto simp: db_sound_def payloads_shaped_def reports_exist_def enqueue_code_match_if_mapped_def)

lemma busy_env_others: "others_ok busy_env t"
proof -
  have "queue_inv db" if "db_sound db" for db using that by (simp add: db_sound_def)
  then show ?thesis
    by (auto simp: others_ok_def busy_env_def holds_def enqueue_effect(2) intro: enqueue_sound)
qed

lemma match_db0_sound: "db_sound match_db0"
  using match_db0_inv by (simp add: db_sound_def payloads_shaped_def reports_exist_def match_db0_def)

lemma busy_round_run:
  "(case code_match_round busy_env world1 of None \<Rightarrow> False
    | Some (r, w') \<Rightarrow> map_option ch_outcome (hint_of (w_db w') 3) = Some (Some ''matched'')
        \<and> filter is_fetch (w_calls w') \<noteq> [])"
  by code_simp

theorem round_leaves_no_claim_witness:
  "\<exists>r w'. code_match_round busy_env world1 = Some (r, w')
     \<and> map_option ch_outcome (hint_of (w_db w') 3) = Some (Some ''matched'')
     \<and> (\<forall>k. queue_holder (w_db w') k \<noteq> Some 1001)"
proof -
  have "db_sound (w_db world1)" by (simp add: world1_def match_db0_sound)
  moreover have "(1001 :: uuid) = ev_uuid busy_env (Suc (w_tick world1))"
    by (simp add: busy_env_def env0_def world1_def)
  moreover have "\<forall>k. queue_holder (w_db world1) k \<noteq> Some 1001"
    by (simp add: world1_def match_db0_def queue_holder_def queue_row_of_def)
  ultimately obtain r w' where "code_match_round busy_env world1 = Some (r, w')"
    "\<forall>k. queue_holder (w_db w') k \<noteq> Some 1001"
    using round_leaves_no_claim [OF _ _ busy_env_others] by blast
  with busy_round_run show ?thesis by auto
qed

end
