(* ===== verification/Bytes.thy ===== *)
theory Bytes
  imports Prelude
begin

text \<open>
  Byte strings the backend builds: integers in big-endian order (\<open>to_be_bytes\<close>, \<open>Uuid::as_bytes\<close>)
  and lower-case hexadecimal text.
\<close>

fun be_bytes :: "nat \<Rightarrow> nat \<Rightarrow> string" where
  "be_bytes 0 x = []"
| "be_bytes (Suc n) x = be_bytes n (x div 256) @ [char_of (x mod 256)]"

lemma length_be_bytes [simp]: "length (be_bytes n x) = n"
  by (induction n x rule: be_bytes.induct) auto

lemma char_of_byte_inject: "x < 256 \<Longrightarrow> y < 256 \<Longrightarrow> (char_of x :: char) = char_of y \<longleftrightarrow> x = (y :: nat)"
  by (metis byte_val_char_of)

lemma be_bytes_inject: "x < 256 ^ n \<Longrightarrow> y < 256 ^ n \<Longrightarrow> be_bytes n x = be_bytes n y \<longleftrightarrow> x = y"
proof (induction n arbitrary: x y)
  case (Suc n)
  have "x div 256 < 256 ^ n" "y div 256 < 256 ^ n"
    using Suc.prems by (simp_all add: less_mult_imp_div_less mult.commute)
  with Suc.IH have "be_bytes n (x div 256) = be_bytes n (y div 256) \<longleftrightarrow> x div 256 = y div 256" by blast
  moreover have "(char_of (x mod 256) :: char) = char_of (y mod 256) \<longleftrightarrow> x mod 256 = y mod 256"
    by (rule char_of_byte_inject) simp_all
  ultimately show ?case
    by (auto simp del: char_of_mod_256) (metis mod_mult_div_eq)
qed simp

text \<open>\<open>i64::to_be_bytes\<close>: two's complement.\<close>

definition i64_be :: "int \<Rightarrow> string" where
  "i64_be x = be_bytes 8 (nat (x mod 2 ^ 64))"

lemma i64_be_inject:
  assumes "- (2 ^ 63) \<le> x" "x < 2 ^ 63" "- (2 ^ 63) \<le> y" "y < 2 ^ 63"
  shows "i64_be x = i64_be y \<longleftrightarrow> x = y"
proof -
  have "nat (x mod 2 ^ 64) < 256 ^ 8" "nat (y mod 2 ^ 64) < 256 ^ 8" by (simp_all add: nat_less_iff)
  then have "i64_be x = i64_be y \<longleftrightarrow> x mod 2 ^ 64 = y mod 2 ^ 64"
    unfolding i64_be_def by (simp add: be_bytes_inject nat_eq_iff)
  moreover have "x mod 2 ^ 64 = y mod 2 ^ 64 \<longleftrightarrow> x = y"
  proof
    assume "x mod 2 ^ 64 = y mod 2 ^ 64"
    then obtain k where "x = y + 2 ^ 64 * k" by (metis mod_eqE)
    with assms show "x = y" by (cases "k = 0"; cases "k > 0"; simp)
  qed simp
  ultimately show ?thesis by simp
qed

lemma length_i64_be [simp]: "length (i64_be x) = 8"
  by (simp add: i64_be_def)

text \<open>Fixed-width fields can be told apart by their position.\<close>

lemma append_same_length: "length a = length c \<Longrightarrow> a @ b = c @ d \<longleftrightarrow> a = c \<and> b = d"
  by simp

definition hex_digit :: "nat \<Rightarrow> byte" where
  "hex_digit n = ''0123456789abcdef'' ! n"

definition hex_byte :: "byte \<Rightarrow> string" where
  "hex_byte c = [hex_digit (byte_val c div 16), hex_digit (byte_val c mod 16)]"

definition hex_of :: "string \<Rightarrow> string" where
  "hex_of s = concat (map hex_byte s)"

lemma hex_digit_props:
  assumes "n < 16"
  shows "is_hex_digit (hex_digit n)" and "\<not> is_upper (hex_digit n)"
    and "m < 16 \<Longrightarrow> hex_digit n = hex_digit m \<longleftrightarrow> n = m"
proof -
  have "\<forall>n < 16. is_hex_digit (hex_digit n) \<and> \<not> is_upper (hex_digit n)" by code_simp
  with assms show "is_hex_digit (hex_digit n)" "\<not> is_upper (hex_digit n)" by blast+
  have "\<forall>n < 16. \<forall>m < 16. hex_digit n = hex_digit m \<longrightarrow> n = m" by code_simp
  with assms show "m < 16 \<Longrightarrow> hex_digit n = hex_digit m \<longleftrightarrow> n = m" by blast
qed

lemma length_hex_of [simp]: "length (hex_of s) = 2 * length s"
  by (induction s) (auto simp: hex_of_def hex_byte_def)

lemma byte_nibbles: "byte_val c div 16 < 16" "byte_val c mod 16 < 16"
  using byte_val_less [of c] by linarith+

lemma hex_of_digits: "list_all (\<lambda>c. is_hex_digit c \<and> \<not> is_upper c) (hex_of s)"
  by (induction s) (auto simp: hex_of_def hex_byte_def hex_digit_props byte_nibbles)

lemma hex_of_inject: "hex_of s = hex_of t \<longleftrightarrow> s = t"
proof (induction s arbitrary: t)
  case Nil
  then show ?case by (cases t) (auto simp: hex_of_def hex_byte_def)
next
  case (Cons c s)
  show ?case
  proof (cases t)
    case (Cons d t')
    have "hex_byte c = hex_byte d \<longleftrightarrow> c = d"
    proof
      assume "hex_byte c = hex_byte d"
      then have "byte_val c div 16 = byte_val d div 16" "byte_val c mod 16 = byte_val d mod 16"
        by (simp_all add: hex_byte_def hex_digit_props(3) byte_nibbles)
      then have "byte_val c = byte_val d" by (metis mult_div_mod_eq)
      then show "c = d" by simp
    qed simp
    moreover have "hex_of (c # s) = hex_byte c @ hex_of s" "hex_of (d # t') = hex_byte d @ hex_of t'"
      by (simp_all add: hex_of_def)
    ultimately show ?thesis
      using Cons.IH [of t'] \<open>t = d # t'\<close> by (auto simp: hex_byte_def append_same_length)
  qed (simp add: hex_of_def hex_byte_def)
qed

end
