(* ===== verification/Security.thy ===== *)
theory Security
  imports Bytes ApiError GithubApi Json
begin

text \<open>
  \<open>backend/src/security.rs\<close>: the signed capability tokens that let an agent report on one
  interaction (\<open>afr2_\<close>) or answer one enrichment request (\<open>aqr1_\<close>), the request headers, and the
  refusal of sensitive fields.  Base64, HMAC, SHA-256, the UUID text form and the JSON text of the
  claims belong to libraries: they are the fields of a \<open>token_codec\<close>.
\<close>

section \<open>Claims and codecs\<close>

record capability_claims =
  cl_v :: nat
  cl_i :: uuid
  cl_iat :: int
  cl_exp :: int
  cl_n :: string
  cl_s :: "string option"
  cl_r :: "int option"

record enrichment_claims =
  ec_v :: nat
  ec_q :: uuid
  ec_i :: uuid
  ec_iat :: int
  ec_exp :: int
  ec_n :: string

record parsed_capability =
  pc_key_id :: uuid
  pc_claims :: capability_claims
  pc_signing_input :: string
  pc_signature :: string

record parsed_enrichment_capability =
  pe_key_id :: uuid
  pe_claims :: enrichment_claims
  pe_signing_input :: string
  pe_signature :: string

text \<open>
  \<open>tc_mac\<close> is \<open>None\<close> when the key is refused; \<open>tc_timestamp_ok\<close> tells the seconds that
  \<open>DateTime::from_timestamp\<close> accepts.
\<close>

record token_codec =
  tc_encode :: "string \<Rightarrow> string"
  tc_decode :: "string \<Rightarrow> string option"
  tc_mac :: "string \<Rightarrow> string \<Rightarrow> string option"
  tc_sha256 :: "string \<Rightarrow> string"
  tc_parse_uuid :: "string \<Rightarrow> uuid option"
  tc_simple_uuid :: "uuid \<Rightarrow> string"
  tc_claims_of :: "string \<Rightarrow> capability_claims option"
  tc_enrichment_json :: "enrichment_claims \<Rightarrow> string option"
  tc_enrichment_of :: "string \<Rightarrow> enrichment_claims option"
  tc_timestamp_ok :: "int \<Rightarrow> bool"

fun or_else :: "'a option \<Rightarrow> api_error \<Rightarrow> 'a result" where
  "or_else (Some x) e = Inr x"
| "or_else None e = Inl e"

lemma or_else_Inr [simp]: "or_else x e = Inr y \<longleftrightarrow> x = Some y"
  by (cases x) auto

section \<open>Parsing\<close>

text \<open>
  The parts of a token after its prefix.  \<open>split('.')\<close> yields at least one part; the token is
  refused unless there are exactly three.
\<close>

definition token_parts :: "string \<Rightarrow> string \<Rightarrow> (string \<times> string \<times> string) result" where
  "token_parts tag token =
     (case strip_prefix tag token of
        None \<Rightarrow> Inl unauthorized
      | Some encoded \<Rightarrow>
          (case split_on ((=) CHR ''.'') encoded of
             [key_id_text, payload, signature_text] \<Rightarrow> Inr (key_id_text, payload, signature_text)
           | _ \<Rightarrow> Inl unauthorized))"

definition parse_capability :: "token_codec \<Rightarrow> string \<Rightarrow> parsed_capability result" where
  "parse_capability k token =
     result_bind (token_parts ''afr2_'' token) (\<lambda>(key_id_text, payload, signature_text).
     result_bind (or_else (tc_parse_uuid k key_id_text) unauthorized) (\<lambda>key_id.
     result_bind (or_else (tc_decode k payload) unauthorized) (\<lambda>payload_bytes.
     result_bind (or_else (tc_claims_of k payload_bytes) unauthorized) (\<lambda>claims.
     result_bind (or_else (tc_decode k signature_text) unauthorized) (\<lambda>signature.
       Inr \<lparr>pc_key_id = key_id, pc_claims = claims,
            pc_signing_input = ''afr2_'' @ key_id_text @ ''.'' @ payload,
            pc_signature = signature\<rparr>)))))"

definition parse_enrichment_capability :: "token_codec \<Rightarrow> string \<Rightarrow> parsed_enrichment_capability result" where
  "parse_enrichment_capability k token =
     result_bind (token_parts ''aqr1_'' token) (\<lambda>(key_id_text, payload, signature_text).
     result_bind (or_else (tc_parse_uuid k key_id_text) unauthorized) (\<lambda>key_id.
     result_bind (or_else (tc_decode k payload) unauthorized) (\<lambda>payload_bytes.
     result_bind (or_else (tc_enrichment_of k payload_bytes) unauthorized) (\<lambda>claims.
     result_bind (or_else (tc_decode k signature_text) unauthorized) (\<lambda>signature.
       Inr \<lparr>pe_key_id = key_id, pe_claims = claims,
            pe_signing_input = ''aqr1_'' @ key_id_text @ ''.'' @ payload,
            pe_signature = signature\<rparr>)))))"

section \<open>Signing\<close>

definition to_seconds :: "time \<Rightarrow> int" where
  "to_seconds t = t div 1000000"

definition sign_enrichment_capability_with_nonce ::
  "token_codec \<Rightarrow> uuid \<Rightarrow> string \<Rightarrow> uuid \<Rightarrow> uuid \<Rightarrow> time \<Rightarrow> time \<Rightarrow> string \<Rightarrow> (string \<times> string) result" where
  "sign_enrichment_capability_with_nonce k key_id key_hash request_id interaction_id now expires_at nonce =
     (let claims = \<lparr>ec_v = 1, ec_q = request_id, ec_i = interaction_id, ec_iat = to_seconds now,
                    ec_exp = to_seconds expires_at, ec_n = nonce\<rparr>
      in result_bind (or_else (tc_enrichment_json k claims) internal_error) (\<lambda>json.
           let payload = tc_encode k json;
               signing_input = ''aqr1_'' @ tc_simple_uuid k key_id @ ''.'' @ payload
           in result_bind (or_else (tc_mac k key_hash signing_input) internal_error) (\<lambda>mac.
                Inr (signing_input @ ''.'' @ tc_encode k mac, tc_sha256 k nonce))))"

text \<open>What the deterministic nonce is derived from: one stretch of bytes, the updates in order.\<close>

definition nonce_message :: "uuid \<Rightarrow> uuid \<Rightarrow> time \<Rightarrow> time \<Rightarrow> string option \<Rightarrow> string" where
  "nonce_message request_id interaction_id issued_at expires_at contract_digest =
     ''epode-enrichment-capability-nonce-v1'' @ [CHR 0x00] @ be_bytes 16 request_id
     @ be_bytes 16 interaction_id @ i64_be (to_seconds issued_at) @ i64_be (to_seconds expires_at)
     @ (case contract_digest of
          None \<Rightarrow> []
        | Some digest \<Rightarrow> [CHR 0x00] @ ''contract-v1'' @ [CHR 0x00] @ digest)"

definition sign_deterministic_enrichment_capability ::
  "token_codec \<Rightarrow> uuid \<Rightarrow> string \<Rightarrow> uuid \<Rightarrow> uuid \<Rightarrow> time \<Rightarrow> time \<Rightarrow> string option
   \<Rightarrow> (string \<times> string) result" where
  "sign_deterministic_enrichment_capability k key_id key_hash request_id interaction_id issued_at
       expires_at contract_digest =
     result_bind
       (or_else (tc_mac k key_hash
          (nonce_message request_id interaction_id issued_at expires_at contract_digest)) internal_error)
       (\<lambda>mac. sign_enrichment_capability_with_nonce k key_id key_hash request_id interaction_id
                issued_at expires_at (tc_encode k mac))"

section \<open>Verifying\<close>

definition valid_consent_subject :: "string \<Rightarrow> bool" where
  "valid_consent_subject value =
     (case strip_prefix ''afsub1_'' value of
        None \<Rightarrow> False
      | Some rest \<Rightarrow> length rest = 43
          \<and> list_all (\<lambda>c. is_alnum c \<or> c = CHR ''-'' \<or> c = CHR ''_'') rest)"

text \<open>The checks on issue and expiry that both verifications make.\<close>

definition bad_times :: "time \<Rightarrow> time \<Rightarrow> time \<Rightarrow> bool" where
  "bad_times now issued_at expires_at \<longleftrightarrow>
     issued_at > now + minutes 5 \<or> expires_at \<le> now \<or> expires_at - issued_at > hours 2
     \<or> expires_at \<le> issued_at"

definition check_signature :: "token_codec \<Rightarrow> string \<Rightarrow> string \<Rightarrow> string \<Rightarrow> unit result" where
  "check_signature k key_hash signing_input signature =
     result_bind (or_else (tc_mac k key_hash signing_input) internal_error) (\<lambda>mac.
       if signature = mac then Inr () else Inl unauthorized)"

definition timestamp_of :: "token_codec \<Rightarrow> int \<Rightarrow> time result" where
  "timestamp_of k secs = (if tc_timestamp_ok k secs then Inr (seconds secs) else Inl unauthorized)"

definition verify_enrichment_capability ::
  "token_codec \<Rightarrow> parsed_enrichment_capability \<Rightarrow> string \<Rightarrow> time \<Rightarrow> enrichment_claims result" where
  "verify_enrichment_capability k parsed key_hash now =
     result_bind (check_signature k key_hash (pe_signing_input parsed) (pe_signature parsed)) (\<lambda>_.
       let c = pe_claims parsed
       in result_bind (timestamp_of k (ec_iat c)) (\<lambda>issued_at.
          result_bind (timestamp_of k (ec_exp c)) (\<lambda>expires_at.
            if ec_v c \<noteq> 1 \<or> length (ec_n c) < 16 \<or> length (ec_n c) > 128
               \<or> bad_times now issued_at expires_at
            then Inl unauthorized else Inr c)))"

definition verify_capability ::
  "token_codec \<Rightarrow> parsed_capability \<Rightarrow> string \<Rightarrow> time \<Rightarrow> capability_claims result" where
  "verify_capability k parsed key_hash now =
     result_bind (check_signature k key_hash (pc_signing_input parsed) (pc_signature parsed)) (\<lambda>_.
       let c = pc_claims parsed
       in result_bind (timestamp_of k (cl_iat c)) (\<lambda>issued_at.
          result_bind (timestamp_of k (cl_exp c)) (\<lambda>expires_at.
            if cl_v c \<noteq> 1 \<or> length (cl_n c) < 16 \<or> length (cl_n c) > 128
               \<or> (case cl_s c of None \<Rightarrow> False | Some s \<Rightarrow> \<not> valid_consent_subject s)
               \<or> (case cl_r c of None \<Rightarrow> False | Some r \<Rightarrow> r < 0)
               \<or> (cl_r c \<noteq> None \<and> cl_s c = None)
               \<or> bad_times now issued_at expires_at
            then Inl unauthorized else Inr c)))"

section \<open>Headers and cookies\<close>

text \<open>
  A request's headers are given by name: the first value, when it is visible ASCII text
  (\<open>HeaderMap::get\<close> and \<open>HeaderValue::to_str\<close>).
\<close>

definition nonempty_trimmed :: "string \<Rightarrow> string option" where
  "nonempty_trimmed value = (if trim value = [] then None else Some (trim value))"

definition bearer_token :: "(string \<Rightarrow> string option) \<Rightarrow> string option" where
  "bearer_token headers =
     (case Option.bind (Option.bind (headers ''authorization'') (strip_prefix ''Bearer '')) nonempty_trimmed of
        Some token \<Rightarrow> Some token
      | None \<Rightarrow> Option.bind (headers ''x-api-key'') nonempty_trimmed)"

text \<open>\<open>split_once('=')\<close>.\<close>

definition split_once :: "byte \<Rightarrow> string \<Rightarrow> (string \<times> string) option" where
  "split_once d s =
     (if d \<in> set s then Some (takeWhile ((\<noteq>) d) s, tl (dropWhile ((\<noteq>) d) s)) else None)"

definition cookie_part :: "string \<Rightarrow> string \<Rightarrow> string option" where
  "cookie_part name part =
     (case split_once (CHR ''='') (trim part) of
        None \<Rightarrow> None
      | Some (key, value) \<Rightarrow> (if key = name then Some value else None))"

definition cookie :: "(string \<Rightarrow> string option) \<Rightarrow> string \<Rightarrow> string option" where
  "cookie headers name =
     (case headers ''cookie'' of
        None \<Rightarrow> None
      | Some cookies \<Rightarrow>
          (case List.map_filter (cookie_part name) (split_on ((=) CHR '';'') cookies) of
             [] \<Rightarrow> None | value # _ \<Rightarrow> Some value))"

definition http_only_cookie :: "string \<Rightarrow> string \<Rightarrow> nat \<Rightarrow> bool \<Rightarrow> string" where
  "http_only_cookie name value max_age secure =
     name @ ''='' @ value @ ''; Path=/; HttpOnly; SameSite=Lax; Max-Age='' @ show_nat max_age
     @ (if secure then ''; Secure'' else [])"

definition clear_cookie :: "string \<Rightarrow> bool \<Rightarrow> string" where
  "clear_cookie name secure =
     name @ ''=; Path=/; HttpOnly; SameSite=Lax; Max-Age=0'' @ (if secure then ''; Secure'' else [])"

section \<open>Sensitive fields\<close>

definition FORBIDDEN_FIELDS :: "string list" where
  "FORBIDDEN_FIELDS =
     [''prompt'', ''prompts'', ''transcript'', ''messages'', ''raw_input'', ''raw_output'', ''tool_input'',
      ''tool_output'', ''secret'', ''api_key'', ''authorization'', ''customer_data'', ''email'', ''name'',
      ''user'', ''user_data'', ''personal_data'']"

text \<open>
  \<open>char::to_lowercase\<close> on UTF-8 bytes, as far as a comparison with ASCII words can see it: besides
  the ASCII letters, the Kelvin sign is the one character whose lower case is ASCII.
\<close>

fun lower_towards_ascii :: "string \<Rightarrow> string" where
  "lower_towards_ascii (a # b # c # s) =
     (if byte_val a = 226 \<and> byte_val b = 132 \<and> byte_val c = 170 then CHR ''k'' # lower_towards_ascii s
      else lower_byte a # lower_towards_ascii (b # c # s))"
| "lower_towards_ascii s = map lower_byte s"

definition normalized_key :: "string \<Rightarrow> string" where
  "normalized_key key = map (\<lambda>c. if c = CHR ''-'' then CHR ''_'' else c) (lower_towards_ascii key)"

definition sensitive_key :: "string \<Rightarrow> bool" where
  "sensitive_key key \<longleftrightarrow> normalized_key key \<in> set FORBIDDEN_FIELDS"

definition SENSITIVE_FIELDS_MESSAGE :: string where
  "SENSITIVE_FIELDS_MESSAGE =
     ''Raw prompts, transcripts, secrets, customer data, and tool payloads are not accepted''"

text \<open>The loop over the nested values stops at the first refusal.\<close>

fun first_refusal :: "(string + unit) list \<Rightarrow> string + unit" where
  "first_refusal [] = Inr ()"
| "first_refusal (Inl e # rs) = Inl e"
| "first_refusal (Inr u # rs) = first_refusal rs"

fun reject_sensitive_fields :: "json \<Rightarrow> string + unit" where
  "reject_sensitive_fields (JObj members) =
     (if list_ex (\<lambda>(key, _). sensitive_key key) members then Inl SENSITIVE_FIELDS_MESSAGE
      else first_refusal (map (\<lambda>(_, v). reject_sensitive_fields v) members))"
| "reject_sensitive_fields (JArr values) = first_refusal (map reject_sensitive_fields values)"
| "reject_sensitive_fields _ = Inr ()"

section \<open>What verification promises\<close>

lemma token_parts_Inr:
  "token_parts tag token = Inr (a, b, c) \<longleftrightarrow>
     token = tag @ a @ ''.'' @ b @ ''.'' @ c \<and> CHR ''.'' \<notin> set a \<union> set b \<union> set c"
proof
  assume "token_parts tag token = Inr (a, b, c)"
  then obtain encoded where e: "token = tag @ encoded" and p: "split_on ((=) CHR ''.'') encoded = [a, b, c]"
    by (auto simp: token_parts_def strip_prefix_Some split: option.split_asm list.split_asm)
  have "encoded = a @ ''.'' @ b @ ''.'' @ c" using join_split_on [of "CHR ''.''" encoded] p by simp
  moreover have "CHR ''.'' \<notin> set a \<union> set b \<union> set c"
    using p split_on_no_sep [of _ "(=) CHR ''.''" encoded] by auto
  ultimately show "token = tag @ a @ ''.'' @ b @ ''.'' @ c \<and> CHR ''.'' \<notin> set a \<union> set b \<union> set c" using e by simp
next
  assume r: "token = tag @ a @ ''.'' @ b @ ''.'' @ c \<and> CHR ''.'' \<notin> set a \<union> set b \<union> set c"
  have last: "CHR ''.'' \<notin> set w \<Longrightarrow> split_on ((=) CHR ''.'') w = [w]" for w by (induction w) auto
  have more: "CHR ''.'' \<notin> set w \<Longrightarrow> split_on ((=) CHR ''.'') (w @ CHR ''.'' # v) = w # split_on ((=) CHR ''.'') v" for w v
    by (induction w) auto
  have "split_on ((=) CHR ''.'') (a @ ''.'' @ b @ ''.'' @ c) = [a, b, c]" using r by (simp add: last more)
  moreover have "strip_prefix tag token = Some (a @ ''.'' @ b @ ''.'' @ c)" using r by (simp add: strip_prefix_Some)
  ultimately show "token_parts tag token = Inr (a, b, c)" by (simp add: token_parts_def)
qed

lemma check_signature_Inr:
  "check_signature k key_hash m sig = Inr u \<longleftrightarrow> tc_mac k key_hash m = Some sig"
  by (auto simp: check_signature_def result_bind_Inr)

lemma timestamp_of_Inr: "timestamp_of k s = Inr t \<longleftrightarrow> tc_timestamp_ok k s \<and> t = seconds s"
  by (auto simp: timestamp_of_def)

text \<open>What a capability that was accepted says.\<close>

definition capability_in_force :: "capability_claims \<Rightarrow> time \<Rightarrow> bool" where
  "capability_in_force c now \<longleftrightarrow>
     cl_v c = 1 \<and> 16 \<le> length (cl_n c) \<and> length (cl_n c) \<le> 128
     \<and> seconds (cl_iat c) \<le> now + minutes 5 \<and> now < seconds (cl_exp c)
     \<and> cl_iat c < cl_exp c \<and> cl_exp c - cl_iat c \<le> 7200
     \<and> (\<forall>s. cl_s c = Some s \<longrightarrow> valid_consent_subject s)
     \<and> (\<forall>r. cl_r c = Some r \<longrightarrow> 0 \<le> r \<and> cl_s c \<noteq> None)"

text \<open>
  C31.  A report capability is accepted only if its signature is the key's own over exactly the
  bytes before the last dot, the JSON between the dots is what the claims were read from, and the
  claims are in force: version 1, a nonce of 16 to 128 bytes, not issued more than five minutes
  ahead, not expired, valid for at most two hours, and a consent revision only together with a
  valid consent subject.  A token accepted here is never parsed as an enrichment capability.
\<close>

theorem accepted_capability_is_signed_and_in_force:
  assumes "parse_capability k token = Inr parsed" and "verify_capability k parsed key_hash now = Inr c"
  shows "capability_in_force c now
    \<and> (\<exists>key_text payload sig json.
         token = ''afr2_'' @ key_text @ ''.'' @ payload @ ''.'' @ sig
         \<and> tc_parse_uuid k key_text = Some (pc_key_id parsed)
         \<and> tc_decode k payload = Some json \<and> tc_claims_of k json = Some c
         \<and> tc_mac k key_hash (''afr2_'' @ key_text @ ''.'' @ payload) = tc_decode k sig
         \<and> tc_decode k sig \<noteq> None)
    \<and> parse_enrichment_capability k token = Inl unauthorized"
proof -
  obtain key_text payload sig json sigb where p: "token_parts ''afr2_'' token = Inr (key_text, payload, sig)"
    and k: "tc_parse_uuid k key_text = Some (pc_key_id parsed)" "tc_decode k payload = Some json"
      "tc_claims_of k json = Some (pc_claims parsed)" "tc_decode k sig = Some (pc_signature parsed)"
      "pc_signing_input parsed = ''afr2_'' @ key_text @ ''.'' @ payload"
    using assms(1) by (auto simp: parse_capability_def result_bind_Inr)
  have v: "tc_mac k key_hash (pc_signing_input parsed) = Some (pc_signature parsed)" "c = pc_claims parsed"
    "capability_in_force c now"
    using assms(2)
    by (auto simp: verify_capability_def result_bind_Inr check_signature_Inr timestamp_of_Inr Let_def
        capability_in_force_def bad_times_def seconds_def hours_def minutes_def
        split: if_split_asm option.split_asm)
  have "token = ''afr2_'' @ key_text @ ''.'' @ payload @ ''.'' @ sig" using p by (simp add: token_parts_Inr)
  moreover from this have "parse_enrichment_capability k token = Inl unauthorized"
    by (simp add: parse_enrichment_capability_def token_parts_def strip_prefix_def starts_with_def)
  ultimately show ?thesis
    using k v by (intro conjI exI [of _ key_text] exI [of _ payload] exI [of _ sig] exI [of _ json]) auto
qed

text \<open>
  What the code relies on in its libraries: base64 text is decoded back and holds no dot, a UUID's
  simple form is parsed back and holds no dot, claims are read back from the JSON they were written
  to, and a MAC in base64 has a length between 16 and 128 (43 for HMAC-SHA256).
\<close>

definition codec_ok :: "token_codec \<Rightarrow> bool" where
  "codec_ok k \<longleftrightarrow>
     (\<forall>x. tc_decode k (tc_encode k x) = Some x \<and> CHR ''.'' \<notin> set (tc_encode k x))
     \<and> (\<forall>u. tc_parse_uuid k (tc_simple_uuid k u) = Some u \<and> CHR ''.'' \<notin> set (tc_simple_uuid k u))
     \<and> (\<forall>c j. tc_enrichment_json k c = Some j \<longrightarrow> tc_enrichment_of k j = Some c)
     \<and> (\<forall>key m mac. tc_mac k key m = Some mac
           \<longrightarrow> 16 \<le> length (tc_encode k mac) \<and> length (tc_encode k mac) \<le> 128)"

text \<open>
  A capability signed for an enrichment request is accepted under the same key until it
  expires, and only for that request: parsing and verifying the token gives back the request, the
  interaction and the times it was signed for, and the nonce whose hash was returned with it.
\<close>

theorem signed_enrichment_capability_is_accepted:
  assumes "codec_ok k"
    and "sign_deterministic_enrichment_capability k key_id key_hash q i issued expires digest = Inr (token, nonce_hash)"
    and "tc_timestamp_ok k (to_seconds issued)" and "tc_timestamp_ok k (to_seconds expires)"
    and "issued \<le> now" and "now < seconds (to_seconds expires)"
    and "to_seconds expires - to_seconds issued \<le> 7200"
  shows "\<exists>parsed c. parse_enrichment_capability k token = Inr parsed \<and> pe_key_id parsed = key_id
    \<and> verify_enrichment_capability k parsed key_hash now = Inr c
    \<and> ec_q c = q \<and> ec_i c = i \<and> ec_iat c = to_seconds issued \<and> ec_exp c = to_seconds expires
    \<and> tc_sha256 k (ec_n c) = nonce_hash"
proof -
  obtain n where n: "tc_mac k key_hash (nonce_message q i issued expires digest) = Some n"
    and w: "sign_enrichment_capability_with_nonce k key_id key_hash q i issued expires (tc_encode k n)
      = Inr (token, nonce_hash)"
    using assms(2) by (auto simp: sign_deterministic_enrichment_capability_def result_bind_Inr)
  define c where "c = \<lparr>ec_v = 1, ec_q = q, ec_i = i, ec_iat = to_seconds issued, ec_exp = to_seconds expires,
    ec_n = tc_encode k n\<rparr>"
  define input where "input json = ''aqr1_'' @ tc_simple_uuid k key_id @ ''.'' @ tc_encode k json" for json
  obtain json mac where j: "tc_enrichment_json k c = Some json" and m: "tc_mac k key_hash (input json) = Some mac"
    and token: "token = input json @ ''.'' @ tc_encode k mac" and hash: "nonce_hash = tc_sha256 k (tc_encode k n)"
    using w by (auto simp: sign_enrichment_capability_with_nonce_def result_bind_Inr Let_def c_def input_def)
  have parts: "token_parts ''aqr1_'' token = Inr (tc_simple_uuid k key_id, tc_encode k json, tc_encode k mac)"
    using assms(1) by (simp add: token_parts_Inr token input_def codec_ok_def)
  have parse: "parse_enrichment_capability k token = Inr \<lparr>pe_key_id = key_id, pe_claims = c,
      pe_signing_input = input json, pe_signature = mac\<rparr>"
    using assms(1) j parts by (simp add: parse_enrichment_capability_def codec_ok_def input_def)
  have "seconds (to_seconds issued) \<le> issued" by (simp add: seconds_def to_seconds_def)
  with assms(5-7) have times: "\<not> bad_times now (seconds (to_seconds issued)) (seconds (to_seconds expires))"
    by (auto simp: bad_times_def seconds_def minutes_def hours_def)
  have len: "16 \<le> length (tc_encode k n)" "length (tc_encode k n) \<le> 128"
    using assms(1) n by (auto simp: codec_ok_def)
  have "verify_enrichment_capability k \<lparr>pe_key_id = key_id, pe_claims = c, pe_signing_input = input json,
      pe_signature = mac\<rparr> key_hash now = Inr c"
    using assms(3,4) times m len
    by (simp add: verify_enrichment_capability_def check_signature_def timestamp_of_def Let_def c_def)
  with parse hash show ?thesis by (auto simp: c_def)
qed

lemma decode_hex_of: "decode_hex_pairs (hex_of s) = Some (map byte_val s)"
proof (induction s)
  case (Cons c s)
  have "\<forall>n < 16. decode_hex_digit (hex_digit n) = Some n" by code_simp
  then have "decode_hex_digit (hex_digit (byte_val c div 16)) = Some (byte_val c div 16)"
    "decode_hex_digit (hex_digit (byte_val c mod 16)) = Some (byte_val c mod 16)"
    using byte_nibbles by blast+
  with Cons show ?case by (simp add: hex_of_def hex_byte_def)
qed (simp add: hex_of_def)

definition claims0 :: enrichment_claims where
  "claims0 = \<lparr>ec_v = 1, ec_q = 5, ec_i = 6, ec_iat = 100, ec_exp = 3700,
     ec_n = hex_of (replicate 20 (CHR ''m''))\<rparr>"

definition codec0 :: token_codec where
  "codec0 = \<lparr>tc_encode = hex_of, tc_decode = (\<lambda>s. map_option (map char_of) (decode_hex s)),
     tc_mac = (\<lambda>key m. Some (replicate 20 (CHR ''m''))), tc_sha256 = (\<lambda>s. s),
     tc_parse_uuid = (\<lambda>s. Some (length s)), tc_simple_uuid = (\<lambda>u. replicate u (CHR ''0'')),
     tc_claims_of = (\<lambda>_. None),
     tc_enrichment_json = (\<lambda>c. if c = claims0 then Some ''{}'' else None),
     tc_enrichment_of = (\<lambda>_. Some claims0), tc_timestamp_ok = (\<lambda>s. True)\<rparr>"

lemma codec0_ok: "codec_ok codec0"
proof -
  have hex: "CHR ''.'' \<notin> set (hex_of x)" for x
  proof -
    have "\<not> is_hex_digit (CHR ''.'')" by code_simp
    with hex_of_digits [of x] show ?thesis by (auto simp: list_all_iff)
  qed
  have "map_option (map char_of) (decode_hex (hex_of x)) = Some x" for x
    by (simp add: decode_hex_def decode_hex_of o_def char_of_byte_val)
  with hex show ?thesis by (auto simp: codec_ok_def codec0_def)
qed

lemma codec0_signs:
  "is_ok (sign_deterministic_enrichment_capability codec0 7 ''k'' 5 6 100000000 3700000000 None)"
  by (simp add: sign_deterministic_enrichment_capability_def sign_enrichment_capability_with_nonce_def
      codec0_def claims0_def to_seconds_def Let_def)

theorem signed_enrichment_capability_is_accepted_witness:
  "\<exists>token h parsed c.
     sign_deterministic_enrichment_capability codec0 7 ''k'' 5 6 100000000 3700000000 None = Inr (token, h)
     \<and> parse_enrichment_capability codec0 token = Inr parsed
     \<and> verify_enrichment_capability codec0 parsed ''k'' 200000000 = Inr c \<and> ec_q c = 5"
proof -
  obtain token h where s:
    "sign_deterministic_enrichment_capability codec0 7 ''k'' 5 6 100000000 3700000000 None = Inr (token, h)"
    using codec0_signs by (auto simp: is_ok_iff)
  have t: "tc_timestamp_ok codec0 x" for x by (simp add: codec0_def)
  have "(100000000 :: time) \<le> 200000000" "(200000000 :: time) < seconds (to_seconds 3700000000)"
    "to_seconds 3700000000 - to_seconds 100000000 \<le> 7200"
    by (simp_all add: seconds_def to_seconds_def)
  from signed_enrichment_capability_is_accepted [OF codec0_ok s t t this] s show ?thesis by blast
qed

definition capability0 :: capability_claims where
  "capability0 = \<lparr>cl_v = 1, cl_i = 6, cl_iat = 100, cl_exp = 3700, cl_n = replicate 16 (CHR ''n''),
     cl_s = Some (''afsub1_'' @ replicate 43 (CHR ''s'')), cl_r = Some 2\<rparr>"

definition codec1 :: token_codec where
  "codec1 = codec0\<lparr>tc_claims_of := (\<lambda>_. Some capability0)\<rparr>"

definition token1 :: string where
  "token1 = ''afr2_00.7b7d.'' @ hex_of (replicate 20 (CHR ''m''))"

lemma token1_runs:
  "(case parse_capability codec1 token1 of Inl e \<Rightarrow> False
    | Inr parsed \<Rightarrow> is_ok (verify_capability codec1 parsed ''k'' 200000000))"
  by code_simp

theorem accepted_capability_is_signed_and_in_force_witness:
  "\<exists>parsed c. parse_capability codec1 token1 = Inr parsed
     \<and> verify_capability codec1 parsed ''k'' 200000000 = Inr c \<and> capability_in_force c 200000000
     \<and> parse_enrichment_capability codec1 token1 = Inl unauthorized"
proof -
  obtain parsed c where run: "parse_capability codec1 token1 = Inr parsed"
    "verify_capability codec1 parsed ''k'' 200000000 = Inr c"
    using token1_runs by (auto simp: is_ok_iff split: sum.splits)
  from accepted_capability_is_signed_and_in_force [OF run] run show ?thesis by blast
qed

section \<open>The nonce is bound to the request\<close>

text \<open>
  The bytes a deterministic nonce is derived from determine the request they belong to: two
  requests with the same bytes agree in the request and interaction ids, in both times (to the
  second) and in the contract digest.
\<close>

theorem nonce_message_binds_the_request:
  assumes "q < 2 ^ 128" "q' < 2 ^ 128" "i < 2 ^ 128" "i' < 2 ^ 128"
    and "\<forall>t \<in> {t1, t2, t1', t2'}. \<bar>to_seconds t\<bar> < 2 ^ 63"
    and "nonce_message q i t1 t2 d = nonce_message q' i' t1' t2' d'"
  shows "q = q' \<and> i = i' \<and> to_seconds t1 = to_seconds t1' \<and> to_seconds t2 = to_seconds t2' \<and> d = d'"
proof -
  define tail :: "string option \<Rightarrow> string" where
    "tail d = (case d of None \<Rightarrow> [] | Some x \<Rightarrow> [CHR 0x00] @ ''contract-v1'' @ [CHR 0x00] @ x)" for d
  have "be_bytes 16 q = be_bytes 16 q' \<and> be_bytes 16 i = be_bytes 16 i' \<and> i64_be (to_seconds t1) = i64_be (to_seconds t1')
      \<and> i64_be (to_seconds t2) = i64_be (to_seconds t2') \<and> tail d = tail d'"
    using assms(6) unfolding nonce_message_def tail_def [symmetric] by (simp add: append_same_length)
  moreover have "tail d = tail d' \<Longrightarrow> d = d'" by (cases d; cases d') (simp_all add: tail_def)
  moreover have "be_bytes 16 x = be_bytes 16 y \<longleftrightarrow> x = y" if "x < 2 ^ 128" "y < 2 ^ 128" for x y :: nat
    by (rule be_bytes_inject) (use that in simp_all)
  moreover have "i64_be (to_seconds x) = i64_be (to_seconds y) \<longleftrightarrow> to_seconds x = to_seconds y"
    if "x \<in> {t1, t2, t1', t2'}" "y \<in> {t1, t2, t1', t2'}" for x y
  proof (rule i64_be_inject)
    have "\<bar>to_seconds x\<bar> < 2 ^ 63" "\<bar>to_seconds y\<bar> < 2 ^ 63" using assms(5) that by blast+
    then show "- (2 ^ 63) \<le> to_seconds x" "to_seconds x < 2 ^ 63" "- (2 ^ 63) \<le> to_seconds y" "to_seconds y < 2 ^ 63"
      by linarith+
  qed
  ultimately show ?thesis using assms(1-4) by auto
qed

theorem nonce_message_binds_the_request_witness:
  "nonce_message 5 6 100000000 3700000000 None \<noteq> nonce_message 5 6 100000000 3700000000 (Some [])"
proof
  assume same: "nonce_message 5 6 100000000 3700000000 None = nonce_message 5 6 100000000 3700000000 (Some [])"
  have "\<forall>t \<in> {100000000, 3700000000, 100000000, 3700000000}. \<bar>to_seconds t\<bar> < 2 ^ 63" by (simp add: to_seconds_def)
  from nonce_message_binds_the_request [OF _ _ _ _ this same] show False by simp
qed

section \<open>Sensitive fields\<close>

text \<open>A sensitive field anywhere in a value.\<close>

inductive carries_sensitive :: "json \<Rightarrow> bool" where
  here: "(key, v) \<in> set members \<Longrightarrow> sensitive_key key \<Longrightarrow> carries_sensitive (JObj members)"
| in_object: "(key, v) \<in> set members \<Longrightarrow> carries_sensitive v \<Longrightarrow> carries_sensitive (JObj members)"
| in_array: "v \<in> set values \<Longrightarrow> carries_sensitive v \<Longrightarrow> carries_sensitive (JArr values)"

inductive_simps carries_sensitive_simps:
  "carries_sensitive (JObj members)" "carries_sensitive (JArr values)" "carries_sensitive (JStr s)"
  "carries_sensitive (JNum n)" "carries_sensitive (JBool b)" "carries_sensitive JNull"

lemma first_refusal_iff:
  assumes "\<forall>r \<in> set rs. r = Inr () \<or> r = Inl e"
  shows "first_refusal rs = (if Inl e \<in> set rs then Inl e else Inr ())"
  using assms by (induction rs rule: first_refusal.induct) auto

text \<open>
  Refusing sensitive fields is complete: a value is accepted exactly when no object at any
  depth of it, inside arrays or objects, has a forbidden key, however the key is capitalised and
  whether it is written with dashes or underscores.
\<close>

theorem sensitive_fields_are_found_at_any_depth:
  "reject_sensitive_fields v = (if carries_sensitive v then Inl SENSITIVE_FIELDS_MESSAGE else Inr ())"
proof (induction v rule: reject_sensitive_fields.induct)
  case (1 members)
  show ?case
  proof (cases "list_ex (\<lambda>(key, _). sensitive_key key) members")
    case True
    then show ?thesis by (auto simp: list_ex_iff carries_sensitive_simps)
  next
    case False
    have ih: "reject_sensitive_fields v = (if carries_sensitive v then Inl SENSITIVE_FIELDS_MESSAGE else Inr ())"
      if "(key, v) \<in> set members" for key v
      using 1 [OF False that refl] by simp
    then have "first_refusal (map (\<lambda>(_, v). reject_sensitive_fields v) members)
        = (if Inl SENSITIVE_FIELDS_MESSAGE \<in> set (map (\<lambda>(_, v). reject_sensitive_fields v) members)
           then Inl SENSITIVE_FIELDS_MESSAGE else Inr ())"
      by (intro first_refusal_iff) auto
    moreover have "Inl SENSITIVE_FIELDS_MESSAGE \<in> set (map (\<lambda>(_, v). reject_sensitive_fields v) members)
        \<longleftrightarrow> carries_sensitive (JObj members)"
      using ih False by (force simp: carries_sensitive_simps list_ex_iff image_iff split: if_split_asm)
    ultimately show ?thesis using False by simp
  qed
next
  case (2 vs)
  then have "first_refusal (map reject_sensitive_fields vs)
      = (if Inl SENSITIVE_FIELDS_MESSAGE \<in> set (map reject_sensitive_fields vs)
         then Inl SENSITIVE_FIELDS_MESSAGE else Inr ())"
    by (intro first_refusal_iff) auto
  moreover have "Inl SENSITIVE_FIELDS_MESSAGE \<in> set (map reject_sensitive_fields vs) \<longleftrightarrow> carries_sensitive (JArr vs)"
    using 2 by (force simp: carries_sensitive_simps image_iff split: if_split_asm)
  ultimately show ?case by simp
qed (simp_all add: carries_sensitive_simps)

end
