(* ===== verification/FriendlyNames.thy ===== *)
theory FriendlyNames
  imports Bytes
begin

text \<open>
  \<open>backend/src/friendly_names.rs\<close>: the label of an anonymous customer, an adjective and an animal
  picked by the first two bytes of the customer's id.
\<close>

definition ADJECTIVES :: "string list" where
  "ADJECTIVES =
    [''Amber'', ''Bouncy'', ''Brave'', ''Bright'', ''Brisk'', ''Bubbly'', ''Calm'', ''Cheerful'',
     ''Clever'', ''Cozy'', ''Crisp'', ''Curious'', ''Daring'', ''Dapper'', ''Eager'', ''Earnest'',
     ''Fancy'', ''Fizzy'', ''Fleet'', ''Fluffy'', ''Gentle'', ''Giddy'', ''Glad'', ''Gleeful'',
     ''Graceful'', ''Happy'', ''Hardy'', ''Jolly'', ''Jumpy'', ''Keen'', ''Kind'', ''Lively'',
     ''Lucky'', ''Mellow'', ''Merry'', ''Mighty'', ''Nimble'', ''Noble'', ''Peppy'', ''Perky'',
     ''Playful'', ''Plucky'', ''Polite'', ''Proud'', ''Quick'', ''Quiet'', ''Quirky'', ''Rapid'',
     ''Rowdy'', ''Shiny'', ''Silly'', ''Sleek'', ''Snappy'', ''Snug'', ''Sparky'', ''Speedy'', ''Spry'',
     ''Steady'', ''Sunny'', ''Swift'', ''Tidy'', ''Trusty'', ''Velvet'', ''Wavy'', ''Whimsy'', ''Wily'',
     ''Witty'', ''Zany'', ''Zesty'']"

definition ANIMALS :: "string list" where
  "ANIMALS =
    [''Albatross'', ''Badger'', ''Beaver'', ''Bison'', ''Bobcat'', ''Cardinal'', ''Cheetah'',
     ''Chipmunk'', ''Condor'', ''Cougar'', ''Coyote'', ''Crane'', ''Dolphin'', ''Falcon'', ''Ferret'',
     ''Finch'', ''Fox'', ''Gazelle'', ''Gecko'', ''Gopher'', ''Heron'', ''Hedgehog'', ''Ibex'',
     ''Jackal'', ''Jaguar'', ''Koala'', ''Lark'', ''Lemur'', ''Lynx'', ''Marmot'', ''Mole'', ''Moose'',
     ''Newt'', ''Ocelot'', ''Opossum'', ''Orca'', ''Otter'', ''Owl'', ''Panda'', ''Panther'',
     ''Pelican'', ''Penguin'', ''Puffin'', ''Quail'', ''Rabbit'', ''Raccoon'', ''Raven'', ''Robin'',
     ''Salmon'', ''Seal'', ''Sparrow'', ''Stoat'', ''Stork'', ''Swift'', ''Tapir'', ''Tiger'', ''Toad'',
     ''Toucan'', ''Trout'', ''Turtle'', ''Viper'', ''Vole'', ''Walrus'', ''Weasel'', ''Wombat'',
     ''Wren'', ''Yak'', ''Zebra'']"

text \<open>\<open>Uuid::as_bytes\<close>.\<close>

definition uuid_bytes :: "uuid \<Rightarrow> string" where
  "uuid_bytes customer_id = be_bytes 16 customer_id"

definition friendly_customer_name :: "uuid \<Rightarrow> string" where
  "friendly_customer_name customer_id =
     (let bytes = uuid_bytes customer_id;
          adjective = ADJECTIVES ! (byte_val (bytes ! 0) mod length ADJECTIVES);
          animal = ANIMALS ! (byte_val (bytes ! 1) mod length ANIMALS)
      in adjective @ '' '' @ animal)"

definition is_generated_anonymous_label :: "string \<Rightarrow> bool" where
  "is_generated_anonymous_label name \<longleftrightarrow>
     name = ''Anonymous customer'' \<or> starts_with ''anonymous-'' name"

definition replace_generated_label :: "uuid option \<Rightarrow> string option \<Rightarrow> string option" where
  "replace_generated_label customer_id current =
     (case current of
        Some label \<Rightarrow>
          (if is_generated_anonymous_label label then map_option friendly_customer_name customer_id else None)
      | None \<Rightarrow> None)"

definition friendly_label_for :: "string option \<Rightarrow> uuid option \<Rightarrow> string option \<Rightarrow> string option" where
  "friendly_label_for identity_level customer_id current =
     (case replace_generated_label customer_id current of
        Some label \<Rightarrow> Some label
      | None \<Rightarrow>
          (if identity_level = Some ''pseudonymous'' \<and> current = None
           then map_option friendly_customer_name customer_id else None))"

definition friendly_label_for_placeholder :: "uuid option \<Rightarrow> string option \<Rightarrow> string option" where
  "friendly_label_for_placeholder customer_id current = replace_generated_label customer_id current"

text \<open>
  \<open>backend/src/store.rs\<close>: how the read models apply the labels.  Only the fields the functions
  touch are kept of a dashboard row.
\<close>

record session_label =
  sl_identity_level :: "string option"
  sl_customer_id :: "uuid option"
  sl_display_name :: "string option"

definition humanize_session_customer_names :: "session_label list \<Rightarrow> session_label list" where
  "humanize_session_customer_names sessions =
     map (\<lambda>s. case friendly_label_for (sl_identity_level s) (sl_customer_id s) (sl_display_name s) of
               Some label \<Rightarrow> s\<lparr>sl_display_name := Some label\<rparr>
             | None \<Rightarrow> s) sessions"

definition humanize_customer_summary_name :: "string \<Rightarrow> uuid \<Rightarrow> string \<Rightarrow> string" where
  "humanize_customer_summary_name identity_level customer_id display_name =
     (case friendly_label_for (Some identity_level) (Some customer_id) (Some display_name) of
        Some label \<Rightarrow> label
      | None \<Rightarrow> display_name)"

definition humanize_response_customer_name :: "uuid option \<Rightarrow> string option \<Rightarrow> string option" where
  "humanize_response_customer_name customer_id customer_name =
     (case friendly_label_for_placeholder customer_id customer_name of
        Some label \<Rightarrow> Some label
      | None \<Rightarrow> customer_name)"

section \<open>Labels are stable\<close>

lemma word_lists:
  "length ADJECTIVES = 69" "length ANIMALS = 68"
  "distinct ADJECTIVES" "distinct ANIMALS"
  "list_all (\<lambda>w. w \<noteq> [] \<and> is_upper (hd w) \<and> list_all is_lower (tl w)) ADJECTIVES"
  "list_all (\<lambda>w. w \<noteq> [] \<and> is_upper (hd w) \<and> list_all is_lower (tl w)) ANIMALS"
  "''Anonymous'' \<notin> set ADJECTIVES"
  by code_simp+

text \<open>Every id has a label of two capitalised words of the lists.\<close>

lemma friendly_name_words:
  "\<exists>a \<in> set ADJECTIVES. \<exists>b \<in> set ANIMALS. friendly_customer_name i = a @ '' '' @ b"
proof -
  have "ADJECTIVES ! (n mod length ADJECTIVES) \<in> set ADJECTIVES" "ANIMALS ! (n mod length ANIMALS) \<in> set ANIMALS" for n
    by (simp_all add: word_lists(1,2))
  then show ?thesis unfolding friendly_customer_name_def Let_def by blast
qed

lemma friendly_name_not_generated: "\<not> is_generated_anonymous_label (friendly_customer_name i)"
proof -
  obtain a b where ab: "a \<in> set ADJECTIVES" "friendly_customer_name i = a @ '' '' @ b"
    using friendly_name_words by blast
  then have a: "a \<noteq> []" "is_upper (hd a)" "list_all is_lower (tl a)" "a \<noteq> ''Anonymous''"
    using word_lists(5,7) by (auto simp: list_all_iff)
  have low: "\<not> is_upper (CHR ''a'')" "\<not> is_lower (CHR '' '')" by code_simp+
  have "\<not> starts_with ''anonymous-'' (a @ '' '' @ b)"
    using a(1,2) low(1) by (cases a) (auto simp: starts_with_def)
  moreover have "a @ '' '' @ b \<noteq> ''Anonymous customer''"
  proof
    assume eq: "a @ '' '' @ b = ''Anonymous customer''"
    have "takeWhile (\<lambda>c. c \<noteq> CHR '' '') (a @ '' '' @ b) = a"
    proof -
      have "CHR '' '' \<notin> set (tl a)" using a(3) low(2) by (auto simp: list_all_iff)
      moreover have "hd a \<noteq> CHR '' ''" using a(2) by (auto simp: is_upper_def) code_simp
      ultimately have "\<forall>c \<in> set a. c \<noteq> CHR '' ''" using a(1) by (cases a) auto
      then show ?thesis by simp
    qed
    then have "a = ''Anonymous''" unfolding eq by simp
    with a(4) show False by blast
  qed
  ultimately show ?thesis using ab(2) by (simp add: is_generated_anonymous_label_def)
qed

lemma friendly_label_stable:
  "friendly_label_for level i current = Some label \<Longrightarrow> friendly_label_for level i (Some label) = None"
  using friendly_name_not_generated
  by (auto simp: friendly_label_for_def replace_generated_label_def split: option.splits if_splits)

text \<open>
  Humanizing a page is idempotent and leaves given names alone: a second pass changes
  nothing, and a customer whose display name is not a generated placeholder keeps it.
\<close>

theorem humanizing_is_idempotent:
  "humanize_session_customer_names (humanize_session_customer_names sessions)
     = humanize_session_customer_names sessions
   \<and> (\<forall>s \<in> set sessions. \<forall>n. sl_display_name s = Some n \<and> \<not> is_generated_anonymous_label n
        \<longrightarrow> s \<in> set (humanize_session_customer_names sessions))"
proof -
  define h where "h s = (case friendly_label_for (sl_identity_level s) (sl_customer_id s) (sl_display_name s) of
      Some label \<Rightarrow> s\<lparr>sl_display_name := Some label\<rparr> | None \<Rightarrow> s)" for s :: session_label
  have map: "humanize_session_customer_names ss = map h ss" for ss
    by (simp add: humanize_session_customer_names_def h_def)
  have twice: "h (h s) = h s" for s
    by (cases "friendly_label_for (sl_identity_level s) (sl_customer_id s) (sl_display_name s)")
      (simp_all add: h_def friendly_label_stable)
  have "h s = s" if "sl_display_name s = Some n" "\<not> is_generated_anonymous_label n" for s n
    using that by (simp add: h_def friendly_label_for_def replace_generated_label_def)
  then show ?thesis unfolding map by (auto simp: twice) (metis image_eqI)
qed

theorem humanizing_is_idempotent_witness:
  "\<lparr>sl_identity_level = Some ''pseudonymous'', sl_customer_id = Some 5, sl_display_name = Some ''Acme''\<rparr>
     \<in> set (humanize_session_customer_names
         [\<lparr>sl_identity_level = Some ''pseudonymous'', sl_customer_id = Some 5, sl_display_name = Some ''Acme''\<rparr>,
          \<lparr>sl_identity_level = None, sl_customer_id = Some 6, sl_display_name = Some ''anonymous-x''\<rparr>])"
proof -
  have n: "\<not> is_generated_anonymous_label ''Acme''" by code_simp
  show ?thesis
    using humanizing_is_idempotent [of
        "[\<lparr>sl_identity_level = Some ''pseudonymous'', sl_customer_id = Some 5, sl_display_name = Some ''Acme''\<rparr>,
          \<lparr>sl_identity_level = None, sl_customer_id = Some 6, sl_display_name = Some ''anonymous-x''\<rparr>]"] n
    by simp
qed

end
