(* ===== verification/Grouping.thy ===== *)
theory Grouping
  imports Bytes "HOL-Library.Product_Lexorder"
begin

text \<open>
  \<open>backend/src/grouping.rs\<close>: the fingerprint that puts reports of the same trouble into one
  group.  SHA-256 and the text form of a UUID are library functions, passed as arguments.
\<close>

section \<open>Fingerprints\<close>

record finding_input =
  fi_kind :: string
  fi_topic :: string
  fi_severity :: "string option"
  fi_detail :: string

record group_input =
  gi_product_id :: uuid
  gi_operation :: string
  gi_surface :: string
  gi_status_code :: "int option"
  gi_findings :: "finding_input list"

record group_assignment =
  ga_group_key :: string
  ga_explanation :: string

definition severity_rank :: "string option \<Rightarrow> nat" where
  "severity_rank severity =
     (if severity = Some ''blocking'' then 3 else if severity = Some ''major'' then 2
      else if severity = Some ''minor'' then 1 else 0)"

definition kind_rank :: "string \<Rightarrow> nat" where
  "kind_rank kind =
     (if kind = ''defect'' then 7 else if kind = ''friction'' then 6 else if kind = ''gap'' then 5
      else if kind = ''uncertainty'' then 4 else if kind = ''suggestion'' then 3
      else if kind = ''other'' then 2 else if kind = ''strength'' then 1 else 0)"

definition finding_rank :: "finding_input \<Rightarrow> nat \<times> nat" where
  "finding_rank f = (severity_rank (fi_severity f), kind_rank (fi_kind f))"

text \<open>The loop of \<open>primary_finding\<close>: the best finding so far and its rank.\<close>

fun primary_loop ::
  "finding_input list \<Rightarrow> finding_input option \<Rightarrow> nat \<times> nat \<Rightarrow> finding_input option" where
  "primary_loop [] primary primary_rank = primary"
| "primary_loop (f # fs) primary primary_rank =
     (if primary = None \<or> finding_rank f > primary_rank
      then primary_loop fs (Some f) (finding_rank f)
      else primary_loop fs primary primary_rank)"

definition primary_finding :: "finding_input list \<Rightarrow> finding_input option" where
  "primary_finding findings = primary_loop findings None (0, 0)"

text \<open>Rust divides towards zero.\<close>

definition status_class :: "int option \<Rightarrow> string" where
  "status_class status_code =
     (case status_code of
        None \<Rightarrow> ''none''
      | Some code \<Rightarrow> show_int (if code < 0 then - (- code div 100) else code div 100) @ ''xx'')"

text \<open>The first 16 bytes of the digest in lower-case hexadecimal.\<close>

definition short_hex_sha256 :: "(string \<Rightarrow> string) \<Rightarrow> string \<Rightarrow> string" where
  "short_hex_sha256 sha256 text_value = hex_of (take 16 (sha256 text_value))"

definition finding_label :: "finding_input list \<Rightarrow> string \<times> string" where
  "finding_label findings =
     (case primary_finding findings of
        None \<Rightarrow> (''none'', ''none'') | Some f \<Rightarrow> (fi_kind f, fi_topic f))"

definition NUL :: string where
  "NUL = [CHR 0x00]"

definition canonical :: "(uuid \<Rightarrow> string) \<Rightarrow> group_input \<Rightarrow> string" where
  "canonical show_uuid input =
     (case finding_label (gi_findings input) of (kind, topic) \<Rightarrow>
        join NUL [show_uuid (gi_product_id input), gi_operation input, gi_surface input, kind, topic,
                  status_class (gi_status_code input)])"

text \<open>The middle dot between the parts of the explanation, in UTF-8.\<close>

definition DOT :: string where
  "DOT = '' '' @ [CHR 0xC2, CHR 0xB7] @ '' ''"

definition assign :: "(string \<Rightarrow> string) \<Rightarrow> (uuid \<Rightarrow> string) \<Rightarrow> group_input \<Rightarrow> group_assignment" where
  "assign sha256 show_uuid input =
     (case finding_label (gi_findings input) of (kind, topic) \<Rightarrow>
        \<lparr>ga_group_key = short_hex_sha256 sha256 (canonical show_uuid input),
         ga_explanation =
           ''product '' @ show_uuid (gi_product_id input) @ DOT @ ''operation '' @ gi_operation input
           @ DOT @ ''surface '' @ gi_surface input @ DOT @ kind @ ''/'' @ topic @ DOT
           @ status_class (gi_status_code input)\<rparr>)"

definition grouper_name :: string where
  "grouper_name = ''fingerprint''"

definition grouper_version :: int where
  "grouper_version = 1"

section \<open>The primary finding is the first of the highest rank\<close>

definition tops :: "finding_input list \<Rightarrow> finding_input \<Rightarrow> bool" where
  "tops fs f \<longleftrightarrow> (\<forall>g \<in> set fs. finding_rank g \<le> finding_rank f)"

text \<open>Of two findings in front, the one of lower rank can be left out.\<close>

lemma tops_front_left:
  assumes "finding_rank q < finding_rank f"
  shows "find (tops (q # f # fs)) (q # f # fs) = find (tops (f # fs)) (f # fs)"
proof -
  have "tops (q # f # fs) = tops (f # fs)" using assms by (auto simp: tops_def fun_eq_iff)
  moreover have "\<not> tops (q # f # fs) q" using assms by (auto simp: tops_def)
  ultimately show ?thesis by simp
qed

lemma tops_front_right:
  assumes "\<not> finding_rank q < finding_rank f"
  shows "find (tops (q # f # fs)) (q # f # fs) = find (tops (q # fs)) (q # fs)"
proof -
  have le: "finding_rank f \<le> finding_rank q" using assms by simp
  have eq: "tops (q # f # fs) = tops (q # fs)" using le by (auto simp: tops_def fun_eq_iff intro: order_trans)
  have "tops (q # fs) q" if "tops (q # fs) f"
    using that le by (auto simp: tops_def intro: order_trans)
  then show ?thesis unfolding eq by auto
qed

lemma primary_loop_some: "primary_loop fs (Some q) (finding_rank q) = find (tops (q # fs)) (q # fs)"
proof (induction fs arbitrary: q)
  case Nil
  then show ?case by (simp add: tops_def)
next
  case (Cons f fs)
  show ?case
  proof (cases "finding_rank q < finding_rank f")
    case True
    then show ?thesis unfolding tops_front_left [OF True] by (simp add: Cons.IH del: find.simps)
  next
    case False
    then show ?thesis unfolding tops_front_right [OF False] by (simp add: Cons.IH del: find.simps)
  qed
qed

lemma primary_finding_first: "primary_finding fs = find (tops fs) fs"
  by (cases fs) (simp_all add: primary_finding_def primary_loop_some del: find.simps, simp)

text \<open>
  The primary finding of a report is the first of those that no other finding outranks, by
  severity first and by kind among equally severe ones; a report with findings has one.
\<close>

theorem primary_finding_is_the_first_maximum:
  "primary_finding fs = find (\<lambda>f. list_all (\<lambda>g. finding_rank g \<le> finding_rank f) fs) fs
   \<and> (primary_finding fs = None \<longleftrightarrow> fs = [])"
proof -
  have "primary_loop fs (Some q) r \<noteq> None" for fs q r
    by (induction fs arbitrary: q r) auto
  then have "primary_finding fs = None \<longleftrightarrow> fs = []" by (cases fs) (simp_all add: primary_finding_def)
  moreover have "tops fs = (\<lambda>f. list_all (\<lambda>g. finding_rank g \<le> finding_rank f) fs)"
    by (simp add: tops_def list_all_iff fun_eq_iff)
  ultimately show ?thesis using primary_finding_first by metis
qed

lemma NUL_not_in_append_inject:
  "CHR 0x00 \<notin> set a \<Longrightarrow> CHR 0x00 \<notin> set b \<Longrightarrow> a @ CHR 0x00 # r = b @ CHR 0x00 # s \<longleftrightarrow> a = b \<and> r = s"
proof (induction a arbitrary: b)
  case Nil
  then show ?case by (cases b) auto
next
  case (Cons c a)
  then show ?case by (cases b) auto
qed

text \<open>A text column of the database holds no NUL.\<close>

definition nul_free :: "group_input \<Rightarrow> bool" where
  "nul_free input \<longleftrightarrow>
     CHR 0x00 \<notin> set (gi_operation input) \<union> set (gi_surface input)
     \<and> list_all (\<lambda>f. CHR 0x00 \<notin> set (fi_kind f) \<union> set (fi_topic f)) (gi_findings input)"

text \<open>
  The fingerprinted text separates its parts: for inputs without NUL, two reports have the
  same text exactly when they agree in product, operation, surface, kind and topic of the primary
  finding (the first one of the highest rank, by severity and then by kind), and status class; a
  shorter operation with a longer surface never collides.
\<close>

theorem fingerprint_separates_its_parts:
  assumes "nul_free x" and "nul_free y" and "inj show_uuid" and "\<forall>u. CHR 0x00 \<notin> set (show_uuid u)"
  shows "canonical show_uuid x = canonical show_uuid y \<longleftrightarrow>
      gi_product_id x = gi_product_id y \<and> gi_operation x = gi_operation y \<and> gi_surface x = gi_surface y
      \<and> finding_label (gi_findings x) = finding_label (gi_findings y)
      \<and> status_class (gi_status_code x) = status_class (gi_status_code y)"
proof -
  have label: "CHR 0x00 \<notin> set k \<union> set t" if "nul_free z" "finding_label (gi_findings z) = (k, t)" for z k t
    using that
    by (auto simp: finding_label_def primary_finding_first nul_free_def list_all_iff find_Some_iff
        split: option.split_asm)
  obtain kx tx ky ty where l: "finding_label (gi_findings x) = (kx, tx)" "finding_label (gi_findings y) = (ky, ty)"
    by (metis surj_pair)
  show ?thesis
    using label [OF assms(1) l(1)] label [OF assms(2) l(2)] assms l
    by (auto simp: canonical_def NUL_def NUL_not_in_append_inject nul_free_def inj_eq)
qed

definition input0 :: group_input where
  "input0 = \<lparr>gi_product_id = 3, gi_operation = ''ab'', gi_surface = ''c'', gi_status_code = Some 503,
     gi_findings = [\<lparr>fi_kind = ''friction'', fi_topic = ''login'', fi_severity = Some ''minor'', fi_detail = []\<rparr>,
       \<lparr>fi_kind = ''defect'', fi_topic = ''search'', fi_severity = Some ''minor'', fi_detail = []\<rparr>]\<rparr>"

theorem fingerprint_separates_its_parts_witness:
  "canonical (\<lambda>u. replicate u (CHR ''u'')) input0
     \<noteq> canonical (\<lambda>u. replicate u (CHR ''u'')) (input0\<lparr>gi_operation := ''a'', gi_surface := ''bc''\<rparr>)"
proof -
  have "nul_free input0" "nul_free (input0\<lparr>gi_operation := ''a'', gi_surface := ''bc''\<rparr>)" by code_simp+
  moreover have "inj (\<lambda>u. replicate u (CHR ''u''))" by (rule injI) (metis length_replicate)
  moreover have "\<forall>u. CHR 0x00 \<notin> set (replicate u (CHR ''u''))" by simp
  ultimately show ?thesis
    using fingerprint_separates_its_parts
      [of input0 "input0\<lparr>gi_operation := ''a'', gi_surface := ''bc''\<rparr>" "\<lambda>u. replicate u (CHR ''u'')"]
    by (simp add: input0_def)
qed

end
