(* ===== verification/GroupIssues.thy ===== *)
theory GroupIssues
  imports GithubMapping Grouping Sql Lease "HOL-Library.List_Lexorder" "HOL-Library.Char_ord"
begin

text \<open>
  \<open>backend/src/store.rs\<close>, feedback groups and the GitHub issue of a group: the filing claim, its
  reconciliation, evidence counters, and the merge of two groups (tables \<open>report_groups\<close> and
  \<open>group_github_issues\<close> of migrations 0025 to 0027).  Each operation is one transaction; the
  advisory locks of a filing claim and of a merge make them exclude each other.
\<close>

section \<open>Tables\<close>

record group_row =
  gr_id :: uuid
  gr_workspace :: uuid
  gr_product :: uuid
  gr_key :: string
  gr_grouper_name :: string
  gr_grouper_version :: int
  gr_explanation :: string
  gr_updated_at :: time
  gr_merged_into :: "string option"
  gr_merged_at :: "time option"
  gr_merged_by :: "string option"

datatype filing_state = Pending | NeedsReconciliation | Filed

record issue_row =
  is_key :: string
  is_workspace :: uuid
  is_installation_id :: int
  is_repo_full_name :: string
  is_number :: "int option"
  is_url :: "string option"
  is_state :: "string option"
  is_filing_state :: filing_state
  is_claimed_at :: time
  is_created_by :: string
  is_last_commented :: int
  is_refreshed_at :: "time option"

text \<open>
  A report joined with its interaction and the product of the interaction's environment; the joins
  are outer, so each of these can be missing.  \<open>gq_findings\<close> is what \<open>serde\<close> reads from the stored
  findings, nothing when they are unreadable.
\<close>

record group_report =
  gq_id :: uuid
  gq_workspace :: uuid
  gq_group :: "uuid option"
  gq_product :: "uuid option"
  gq_operation :: "string option"
  gq_surface :: "string option"
  gq_status_code :: "int option"
  gq_findings :: "finding_input list option"
  gq_created_at :: time
  gq_occurred_at :: time

record issue_db =
  gd_groups :: "group_row list"
  gd_issues :: "issue_row list"
  gd_reports :: "group_report list"
  gd_github :: github_db

definition issue_row_ok :: "issue_row \<Rightarrow> bool" where
  "issue_row_ok r \<longleftrightarrow>
     is_filing_state r = Filed
       \<longrightarrow> is_number r \<noteq> None \<and> is_url r \<noteq> None \<and> is_state r \<noteq> None"

text \<open>The unique index on repository and number, where a null number equals nothing.\<close>

definition numbered :: "issue_row list \<Rightarrow> (string \<times> int) list" where
  "numbered rows =
     List.map_filter (\<lambda>r. map_option (\<lambda>n. (is_repo_full_name r, n)) (is_number r)) rows"

definition issues_ok :: "issue_row list \<Rightarrow> bool" where
  "issues_ok rows \<longleftrightarrow>
     distinct (map is_key rows) \<and> distinct (numbered rows) \<and> list_all issue_row_ok rows"

definition write_issues :: "issue_row list \<Rightarrow> issue_db \<Rightarrow> issue_db result" where
  "write_issues rows db = (if issues_ok rows then Inr (db\<lparr>gd_issues := rows\<rparr>) else Inl internal_error)"

section \<open>Lookups\<close>

definition group_of :: "uuid \<Rightarrow> string \<Rightarrow> issue_db \<Rightarrow> group_row option" where
  "group_of workspace_id group_key db =
     find (\<lambda>g. gr_workspace g = workspace_id \<and> gr_key g = group_key
             \<and> product_in_workspace workspace_id (gr_product g) (gd_github db)) (gd_groups db)"

definition group_exists :: "uuid \<Rightarrow> string \<Rightarrow> issue_db \<Rightarrow> bool" where
  "group_exists workspace_id group_key db \<longleftrightarrow>
     (\<exists>g \<in> set (gd_groups db). gr_workspace g = workspace_id \<and> gr_key g = group_key)"

definition of_issue :: "uuid \<Rightarrow> string \<Rightarrow> issue_row \<Rightarrow> bool" where
  "of_issue workspace_id group_key r \<longleftrightarrow> is_workspace r = workspace_id \<and> is_key r = group_key"

definition issue_of :: "uuid \<Rightarrow> string \<Rightarrow> issue_db \<Rightarrow> issue_row option" where
  "issue_of workspace_id group_key db = find (of_issue workspace_id group_key) (gd_issues db)"

record issue_link =
  il_repo_full_name :: string
  il_number :: int
  il_url :: string
  il_state :: string

text \<open>A row whose columns are all present, as the filed ones are.\<close>

definition link_of :: "issue_row \<Rightarrow> issue_link option" where
  "link_of r =
     (case (is_number r, is_url r, is_state r) of
        (Some n, Some u, Some s) \<Rightarrow>
          Some \<lparr>il_repo_full_name = is_repo_full_name r, il_number = n, il_url = u, il_state = s\<rparr>
      | _ \<Rightarrow> None)"

definition get_group_github_issue :: "uuid \<Rightarrow> string \<Rightarrow> issue_db \<Rightarrow> issue_link option" where
  "get_group_github_issue workspace_id group_key db =
     (if group_exists workspace_id group_key db
      then Option.bind
        (find (\<lambda>r. of_issue workspace_id group_key r \<and> is_filing_state r = Filed) (gd_issues db)) link_of
      else None)"

definition scoped_reports :: "group_row \<Rightarrow> issue_db \<Rightarrow> group_report list" where
  "scoped_reports g db =
     filter (\<lambda>r. gq_group r = Some (gr_id g) \<and> gq_workspace r = gr_workspace g
               \<and> gq_product r = Some (gr_product g)) (gd_reports db)"

text \<open>The part of the issue context that decides about filing; the rest renders the issue text.\<close>

record issue_context =
  xc_merged_into :: "string option"
  xc_installation_id :: "int option"
  xc_repo_full_name :: "string option"
  xc_installation_active :: bool
  xc_report_count :: int

definition group_issue_context :: "uuid \<Rightarrow> string \<Rightarrow> issue_db \<Rightarrow> issue_context option" where
  "group_issue_context workspace_id group_key db =
     map_option (\<lambda>g.
       let mapping = find (\<lambda>m. rp_product m = gr_product g \<and> rp_workspace m = workspace_id)
                       (product_repos (gd_github db))
       in \<lparr>xc_merged_into = gr_merged_into g,
           xc_installation_id = map_option rp_installation_id mapping,
           xc_repo_full_name = map_option rp_repo_full_name mapping,
           xc_installation_active =
             (case mapping of None \<Rightarrow> False
              | Some m \<Rightarrow> active_installation workspace_id (rp_installation_id m) (gd_github db)),
           xc_report_count = int (length (scoped_reports g db))\<rparr>)
     (group_of workspace_id group_key db)"

section \<open>The filing claim\<close>

datatype filing_claim =
    Claimed
  | AlreadyFiled issue_link
  | InProgress
  | ReconciliationNeeded

record filing_request =
  fr_workspace_id :: uuid
  fr_group_key :: string
  fr_installation_id :: int
  fr_repo_full_name :: string
  fr_created_by :: string
  fr_claim_report_count :: int

definition pending_row :: "time \<Rightarrow> filing_request \<Rightarrow> issue_row" where
  "pending_row now req =
     \<lparr>is_key = fr_group_key req, is_workspace = fr_workspace_id req,
      is_installation_id = fr_installation_id req, is_repo_full_name = fr_repo_full_name req,
      is_number = None, is_url = None, is_state = None, is_filing_state = Pending,
      is_claimed_at = now, is_created_by = fr_created_by req,
      is_last_commented = fr_claim_report_count req, is_refreshed_at = None\<rparr>"

definition to_quarantine :: "issue_row \<Rightarrow> issue_row" where
  "to_quarantine r = r\<lparr>is_filing_state := NeedsReconciliation, is_refreshed_at := None\<rparr>"

definition merged_message :: "string \<Rightarrow> string" where
  "merged_message target =
     ''Feedback group was merged into '' @ target @ ''; file the target group instead''"

text \<open>\<open>INSERT .. SELECT .. ON CONFLICT (group_key) DO NOTHING\<close>.\<close>

definition inserts_claim :: "filing_request \<Rightarrow> issue_db \<Rightarrow> bool" where
  "inserts_claim req db \<longleftrightarrow>
     group_of (fr_workspace_id req) (fr_group_key req) db \<noteq> None
     \<and> (\<forall>r \<in> set (gd_issues db). is_key r \<noteq> fr_group_key req)"

definition claim_group_issue_filing ::
  "time \<Rightarrow> filing_request \<Rightarrow> time \<Rightarrow> issue_db \<Rightarrow> (filing_claim \<times> issue_db) result" where
  "claim_group_issue_filing now req stale_cutoff db =
     (let ws = fr_workspace_id req; key = fr_group_key req
      in case Option.bind (group_of ws key db) gr_merged_into of
           Some target \<Rightarrow> Inl (conflict (merged_message target))
         | None \<Rightarrow>
             (if inserts_claim req db
              then result_bind (write_issues (gd_issues db @ [pending_row now req]) db)
                     (\<lambda>db'. Inr (Claimed, db'))
              else
                (case get_group_github_issue ws key db of
                   Some existing \<Rightarrow> Inr (AlreadyFiled existing, db)
                 | None \<Rightarrow>
                     (if \<exists>r \<in> set (gd_issues db). of_issue ws key r \<and> is_filing_state r = NeedsReconciliation
                      then Inr (ReconciliationNeeded, db)
                      else
                        (let stale = (\<lambda>r. of_issue ws key r \<and> is_filing_state r = Pending
                                        \<and> is_claimed_at r \<le> stale_cutoff)
                         in Inr (if \<exists>r \<in> set (gd_issues db). stale r then ReconciliationNeeded else InProgress,
                                 db\<lparr>gd_issues := update_where stale to_quarantine (gd_issues db)\<rparr>))))))"

definition filed :: "time \<Rightarrow> issue_link \<Rightarrow> int \<Rightarrow> issue_row \<Rightarrow> issue_row" where
  "filed now link report_count r =
     r\<lparr>is_number := Some (il_number link), is_url := Some (il_url link), is_state := Some (il_state link),
       is_filing_state := Filed, is_last_commented := report_count, is_refreshed_at := Some now\<rparr>"

text \<open>An \<open>UPDATE\<close> of the rows with \<open>p\<close>: whether one row was affected, and the new table.\<close>

definition update_issues ::
  "(issue_row \<Rightarrow> bool) \<Rightarrow> (issue_row \<Rightarrow> issue_row) \<Rightarrow> issue_db \<Rightarrow> (bool \<times> issue_db) result" where
  "update_issues p f db =
     result_bind (write_issues (update_where p f (gd_issues db)) db)
       (\<lambda>db'. Inr (rows_affected p (gd_issues db) = 1, db'))"

definition pending_claim :: "uuid \<Rightarrow> string \<Rightarrow> issue_row \<Rightarrow> bool" where
  "pending_claim workspace_id group_key r \<longleftrightarrow>
     of_issue workspace_id group_key r \<and> is_filing_state r = Pending"

definition complete_group_issue_filing ::
  "time \<Rightarrow> uuid \<Rightarrow> string \<Rightarrow> issue_link \<Rightarrow> int \<Rightarrow> issue_db \<Rightarrow> (issue_link \<times> issue_db) result" where
  "complete_group_issue_filing now workspace_id group_key link report_count db =
     result_bind (update_issues (pending_claim workspace_id group_key) (filed now link report_count) db)
       (\<lambda>(claimed, db').
          case Option.bind (if claimed then issue_of workspace_id group_key db' else None) link_of of
            Some stored \<Rightarrow> Inr (stored, db')
          | None \<Rightarrow> Inl internal_error)"

definition release_group_issue_filing_claim :: "uuid \<Rightarrow> string \<Rightarrow> issue_db \<Rightarrow> (unit \<times> issue_db) result" where
  "release_group_issue_filing_claim workspace_id group_key db =
     Inr ((), db\<lparr>gd_issues := delete_where (pending_claim workspace_id group_key) (gd_issues db)\<rparr>)"

definition mark_group_issue_filing_for_reconciliation ::
  "uuid \<Rightarrow> string \<Rightarrow> issue_db \<Rightarrow> (bool \<times> issue_db) result" where
  "mark_group_issue_filing_for_reconciliation workspace_id group_key =
     update_issues (pending_claim workspace_id group_key) to_quarantine"

section \<open>Reconciliation\<close>

record reconciliation_context =
  rc_installation_id :: int
  rc_repo_full_name :: string
  rc_needs_reconciliation_since :: time
  rc_claimed_at :: time
  rc_claim_report_count :: int

definition reconcilable :: "uuid \<Rightarrow> string \<Rightarrow> issue_db \<Rightarrow> time \<Rightarrow> issue_row \<Rightarrow> bool" where
  "reconcilable workspace_id group_key db refresh_cutoff r \<longleftrightarrow>
     of_issue workspace_id group_key r \<and> is_filing_state r = NeedsReconciliation
     \<and> group_of workspace_id group_key db \<noteq> None
     \<and> active_installation workspace_id (is_installation_id r) (gd_github db)
     \<and> (case is_refreshed_at r of None \<Rightarrow> True | Some t \<Rightarrow> t \<le> refresh_cutoff)"

definition claim_group_issue_reconciliation ::
  "time \<Rightarrow> uuid \<Rightarrow> string \<Rightarrow> time \<Rightarrow> issue_db \<Rightarrow> (reconciliation_context option \<times> issue_db) result" where
  "claim_group_issue_reconciliation now workspace_id group_key refresh_cutoff db =
     (let p = reconcilable workspace_id group_key db refresh_cutoff
      in result_bind (write_issues (update_where p (\<lambda>r. r\<lparr>is_refreshed_at := Some now\<rparr>) (gd_issues db)) db)
           (\<lambda>db'. Inr (map_option (\<lambda>r.
                \<lparr>rc_installation_id = is_installation_id r, rc_repo_full_name = is_repo_full_name r,
                 rc_needs_reconciliation_since = is_claimed_at r, rc_claimed_at = now,
                 rc_claim_report_count = is_last_commented r\<rparr>) (find p (gd_issues db)), db')))"

definition reconciling :: "uuid \<Rightarrow> string \<Rightarrow> time \<Rightarrow> issue_row \<Rightarrow> bool" where
  "reconciling workspace_id group_key claimed_at r \<longleftrightarrow>
     of_issue workspace_id group_key r \<and> is_filing_state r = NeedsReconciliation
     \<and> is_refreshed_at r = Some claimed_at"

definition complete_group_issue_reconciliation ::
  "time \<Rightarrow> uuid \<Rightarrow> string \<Rightarrow> time \<Rightarrow> issue_link \<Rightarrow> int \<Rightarrow> issue_db \<Rightarrow> (bool \<times> issue_db) result" where
  "complete_group_issue_reconciliation now workspace_id group_key claimed_at link claim_report_count =
     update_issues (reconciling workspace_id group_key claimed_at) (filed now link claim_report_count)"

definition release_group_issue_reconciliation_claim ::
  "uuid \<Rightarrow> string \<Rightarrow> time \<Rightarrow> issue_db \<Rightarrow> (bool \<times> issue_db) result" where
  "release_group_issue_reconciliation_claim workspace_id group_key claimed_at db =
     (let p = reconciling workspace_id group_key claimed_at
      in Inr (rows_affected p (gd_issues db) = 1, db\<lparr>gd_issues := delete_where p (gd_issues db)\<rparr>))"

section \<open>Evidence and state of a filed issue\<close>

record sync_context =
  sc_installation_id :: int
  sc_repo_full_name :: string
  sc_issue_number :: int
  sc_observed :: int
  sc_current :: int
  sc_earliest_new :: "time option"
  sc_latest_new :: "time option"
  sc_refreshed_at :: "time option"

text \<open>\<open>ROW_NUMBER() OVER (ORDER BY created_at, id)\<close>: the reports after the counted ones are new.\<close>

definition ordered_reports :: "group_row \<Rightarrow> issue_db \<Rightarrow> group_report list" where
  "ordered_reports g db = sort_key (\<lambda>r. (gq_created_at r, gq_id r)) (scoped_reports g db)"

definition list_min :: "time list \<Rightarrow> time option" where
  "list_min ts = (case ts of [] \<Rightarrow> None | t # us \<Rightarrow> Some (fold min us t))"

definition list_max :: "time list \<Rightarrow> time option" where
  "list_max ts = (case ts of [] \<Rightarrow> None | t # us \<Rightarrow> Some (fold max us t))"

definition filed_issue :: "uuid \<Rightarrow> string \<Rightarrow> issue_row \<Rightarrow> bool" where
  "filed_issue workspace_id group_key r \<longleftrightarrow>
     of_issue workspace_id group_key r \<and> is_filing_state r = Filed"

definition group_issue_sync_context :: "uuid \<Rightarrow> string \<Rightarrow> issue_db \<Rightarrow> sync_context option" where
  "group_issue_sync_context workspace_id group_key db =
     (case (group_of workspace_id group_key db, find (filed_issue workspace_id group_key) (gd_issues db)) of
        (Some g, Some r) \<Rightarrow>
          (if active_installation workspace_id (is_installation_id r) (gd_github db)
           then map_option (\<lambda>n.
             let reports = ordered_reports g db;
                 new = map gq_occurred_at (drop (nat (is_last_commented r)) reports)
             in \<lparr>sc_installation_id = is_installation_id r, sc_repo_full_name = is_repo_full_name r,
                 sc_issue_number = n, sc_observed = is_last_commented r,
                 sc_current = int (length reports), sc_earliest_new = list_min new,
                 sc_latest_new = list_max new, sc_refreshed_at = is_refreshed_at r\<rparr>) (is_number r)
           else None)
      | _ \<Rightarrow> None)"

definition bump_last_commented_report_count ::
  "uuid \<Rightarrow> string \<Rightarrow> int \<Rightarrow> int \<Rightarrow> issue_db \<Rightarrow> (bool \<times> issue_db) result" where
  "bump_last_commented_report_count workspace_id group_key observed current db =
     update_issues
       (\<lambda>r. filed_issue workspace_id group_key r \<and> group_exists workspace_id group_key db
          \<and> is_last_commented r = observed \<and> current > observed)
       (\<lambda>r. r\<lparr>is_last_commented := current\<rparr>) db"

definition revert_last_commented_report_count ::
  "uuid \<Rightarrow> string \<Rightarrow> int \<Rightarrow> int \<Rightarrow> issue_db \<Rightarrow> (bool \<times> issue_db) result" where
  "revert_last_commented_report_count workspace_id group_key observed claimed db =
     update_issues
       (\<lambda>r. filed_issue workspace_id group_key r \<and> group_exists workspace_id group_key db
          \<and> is_last_commented r = claimed)
       (\<lambda>r. r\<lparr>is_last_commented := observed\<rparr>) db"

definition claim_group_issue_state_refresh ::
  "time \<Rightarrow> uuid \<Rightarrow> string \<Rightarrow> time \<Rightarrow> issue_db \<Rightarrow> (bool \<times> issue_db) result" where
  "claim_group_issue_state_refresh now workspace_id group_key refresh_cutoff db =
     update_issues
       (\<lambda>r. filed_issue workspace_id group_key r \<and> group_exists workspace_id group_key db
          \<and> (case is_refreshed_at r of None \<Rightarrow> True | Some t \<Rightarrow> t \<le> refresh_cutoff))
       (\<lambda>r. r\<lparr>is_refreshed_at := Some now\<rparr>) db"

definition update_group_issue_state ::
  "time \<Rightarrow> uuid \<Rightarrow> string \<Rightarrow> string \<Rightarrow> issue_db \<Rightarrow> (bool \<times> issue_db) result" where
  "update_group_issue_state now workspace_id group_key state db =
     update_issues
       (\<lambda>r. filed_issue workspace_id group_key r \<and> group_exists workspace_id group_key db)
       (\<lambda>r. r\<lparr>is_state := Some state, is_refreshed_at := Some now\<rparr>) db"

section \<open>Merging two groups\<close>

fun show_filing_state :: "filing_state \<Rightarrow> string" where
  "show_filing_state Pending = ''pending''"
| "show_filing_state NeedsReconciliation = ''needs_reconciliation''"
| "show_filing_state Filed = ''filed''"

definition keyed_group :: "uuid \<Rightarrow> string \<Rightarrow> issue_db \<Rightarrow> group_row option" where
  "keyed_group workspace_id group_key db =
     find (\<lambda>g. gr_workspace g = workspace_id \<and> gr_key g = group_key) (gd_groups db)"

text \<open>Why a merge is refused, in the order of the checks.\<close>

definition merge_refusal :: "uuid \<Rightarrow> group_row \<Rightarrow> group_row \<Rightarrow> issue_db \<Rightarrow> api_error option" where
  "merge_refusal workspace_id source target db =
     (let rows = filter (\<lambda>r. of_issue workspace_id (gr_key source) r \<or> of_issue workspace_id (gr_key target) r)
                   (sort_key is_key (gd_issues db));
          number_of = (\<lambda>key. Option.bind (issue_of workspace_id key db) is_number)
      in if gr_product source \<noteq> gr_product target
         then Some (conflict ''Source and target feedback groups belong to different products'')
         else case gr_merged_into source of
           Some final \<Rightarrow> Some (conflict (''Source feedback group is already merged into '' @ final))
         | None \<Rightarrow>
          (case gr_merged_into target of
             Some final \<Rightarrow>
               Some (conflict (''Target feedback group is already merged into '' @ final
                      @ ''; merge into that final target directly''))
           | None \<Rightarrow>
              (if \<exists>g \<in> set (gd_groups db). gr_workspace g = workspace_id
                    \<and> gr_merged_into g = Some (gr_key source)
               then Some (conflict ''Source feedback group is already the final target of another merge and cannot be merged away'')
               else case find (\<lambda>r. is_filing_state r \<noteq> Filed) rows of
                 Some r \<Rightarrow>
                   Some (conflict (''A GitHub issue filing is still in progress for '' @ is_key r @ '' (''
                          @ show_filing_state (is_filing_state r) @ ''); retry the merge once it settles''))
               | None \<Rightarrow>
                  (case (number_of (gr_key source), number_of (gr_key target)) of
                     (Some n, Some m) \<Rightarrow>
                       Some (conflict (''Source GitHub issue #'' @ show_int n @ '' and target GitHub issue #''
                              @ show_int m @ '' are both filed; close one on GitHub before merging''))
                   | _ \<Rightarrow> None))))"

text \<open>The writes of a merge: the reports move, then the issue, then the lineage is recorded.\<close>

definition merge_writes :: "time \<Rightarrow> uuid \<Rightarrow> string \<Rightarrow> group_row \<Rightarrow> group_row \<Rightarrow> issue_db \<Rightarrow> issue_db result" where
  "merge_writes now workspace_id actor source target db =
     (let moved = update_where (\<lambda>r. gq_workspace r = workspace_id \<and> gq_group r = Some (gr_id source))
                    (\<lambda>r. r\<lparr>gq_group := Some (gr_id target)\<rparr>) (gd_reports db);
          issues = (if Option.bind (issue_of workspace_id (gr_key source) db) is_number = None
                    then gd_issues db
                    else update_where (of_issue workspace_id (gr_key source))
                           (\<lambda>r. r\<lparr>is_key := gr_key target, is_last_commented := 0\<rparr>) (gd_issues db));
          groups = update_where (\<lambda>g. gr_workspace g = workspace_id \<and> gr_id g = gr_id source
                                   \<and> gr_merged_into g = None)
                     (\<lambda>g. g\<lparr>gr_merged_into := Some (gr_key target), gr_merged_at := Some now,
                            gr_merged_by := Some actor, gr_updated_at := now\<rparr>) (gd_groups db)
      in result_bind (write_issues issues db)
           (\<lambda>db'. Inr (db'\<lparr>gd_reports := moved, gd_groups := groups\<rparr>)))"

definition merge_report_groups ::
  "time \<Rightarrow> uuid \<Rightarrow> string \<Rightarrow> string \<Rightarrow> string \<Rightarrow> issue_db \<Rightarrow> ((int \<times> string) \<times> issue_db) result" where
  "merge_report_groups now workspace_id source_key target_key actor db =
     (if source_key = target_key
      then Inl (bad_request ''Source and target feedback groups must be different'')
      else case keyed_group workspace_id source_key db of
        None \<Rightarrow> Inl (not_found ''Source feedback group not found for this team'')
      | Some source \<Rightarrow>
          (case keyed_group workspace_id target_key db of
             None \<Rightarrow> Inl (not_found ''Target feedback group not found for this team'')
           | Some target \<Rightarrow>
               (case merge_refusal workspace_id source target db of
                  Some e \<Rightarrow> Inl e
                | None \<Rightarrow>
                    result_bind (merge_writes now workspace_id actor source target db)
                      (\<lambda>db'.
                       if rows_affected (\<lambda>g. gr_workspace g = workspace_id \<and> gr_id g = gr_id source
                            \<and> gr_merged_into g = None) (gd_groups db) \<noteq> 1
                       then Inl (conflict ''Source feedback group was merged concurrently'')
                       else Inr ((int (rows_affected (\<lambda>r. gq_workspace r = workspace_id
                                           \<and> gq_group r = Some (gr_id source)) (gd_reports db)),
                                   target_key), db')))))"

section \<open>Listing a product's groups\<close>

record listed_group =
  lg_key :: string
  lg_explanation :: string
  lg_report_count :: int
  lg_latest :: "time option"
  lg_issue :: "issue_link option"
  lg_last_commented :: "int option"
  lg_refreshed_at :: "time option"
  lg_needs_reconciliation :: bool

definition listed_group_of :: "uuid \<Rightarrow> issue_db \<Rightarrow> group_row \<Rightarrow> listed_group" where
  "listed_group_of workspace_id db g =
     (let reports = scoped_reports g db; issue = issue_of workspace_id (gr_key g) db
      in \<lparr>lg_key = gr_key g, lg_explanation = gr_explanation g,
          lg_report_count = int (length reports), lg_latest = list_max (map gq_occurred_at reports),
          lg_issue = Option.bind issue link_of,
          lg_last_commented = map_option is_last_commented issue,
          lg_refreshed_at = Option.bind issue is_refreshed_at,
          lg_needs_reconciliation = (case issue of None \<Rightarrow> False
             | Some r \<Rightarrow> is_filing_state r = NeedsReconciliation)\<rparr>)"

text \<open>\<open>ORDER BY MAX(occurred_at) DESC NULLS LAST, updated_at DESC, group_key\<close>.\<close>

definition listing_key :: "uuid \<Rightarrow> issue_db \<Rightarrow> group_row \<Rightarrow> (nat \<times> int) \<times> int \<times> string" where
  "listing_key workspace_id db g =
     (case lg_latest (listed_group_of workspace_id db g) of
        Some t \<Rightarrow> ((0, - t), - gr_updated_at g, gr_key g)
      | None \<Rightarrow> ((1, 0), - gr_updated_at g, gr_key g))"

definition list_product_groups ::
  "uuid \<Rightarrow> uuid \<Rightarrow> int \<Rightarrow> int \<Rightarrow> issue_db \<Rightarrow> (listed_group list \<times> bool) result" where
  "list_product_groups workspace_id product_id limit offset db =
     result_bind (ensure_product_in_workspace workspace_id product_id (gd_github db)) (\<lambda>_.
       let limit = nat (clamp 1 100 limit); offset = nat (max offset 0);
           groups = filter (\<lambda>g. gr_workspace g = workspace_id \<and> gr_product g = product_id
                      \<and> gr_merged_into g = None) (gd_groups db);
           rows = take (limit + 1) (drop offset (sort_key (listing_key workspace_id db) groups))
       in Inr (map (listed_group_of workspace_id db) (take limit rows), length rows > limit))"

end
