(* ===== verification/GroupIssueFacts.thy ===== *)
theory GroupIssueFacts
  imports GroupIssues
begin

text \<open>
  What the operations on group issues keep: the table's constraints, the rows of the other groups,
  and the fencing of a reconciliation attempt by the time it was claimed at, an instance of
  \<open>fenced_lease\<close>; then the lineage and the reports of merged groups.
\<close>

section \<open>Rows after a statement\<close>

lemma issue_of_iff:
  assumes "issues_ok (gd_issues db)"
  shows "issue_of ws key db = Some r \<longleftrightarrow> r \<in> set (gd_issues db) \<and> of_issue ws key r"
proof
  assume "issue_of ws key db = Some r"
  then show "r \<in> set (gd_issues db) \<and> of_issue ws key r" by (auto simp: issue_of_def dest: find_SomeD)
next
  assume r: "r \<in> set (gd_issues db) \<and> of_issue ws key r"
  then obtain s where s: "issue_of ws key db = Some s" by (cases "issue_of ws key db") (auto simp: issue_of_def find_None_iff)
  then have "s \<in> set (gd_issues db)" "of_issue ws key s" by (auto simp: issue_of_def dest: find_SomeD)
  with r assms have "s = r" by (auto simp: issues_ok_def of_issue_def dest: distinct_map_eq)
  with s show "issue_of ws key db = Some r" by simp
qed

lemma find_update_where_pred:
  "(\<And>r. p r \<Longrightarrow> q (f r) = q r) \<Longrightarrow>
   find q (update_where p f rs) = map_option (\<lambda>r. if p r then f r else r) (find q rs)"
  by (induction rs) (auto simp: update_where_def)

lemma update_issues_Inr:
  "update_issues p f db = Inr (b, db') \<longleftrightarrow>
     issues_ok (update_where p f (gd_issues db)) \<and> db' = db\<lparr>gd_issues := update_where p f (gd_issues db)\<rparr>
     \<and> (b \<longleftrightarrow> rows_affected p (gd_issues db) = 1)"
  by (auto simp: update_issues_def write_issues_def result_bind_Inr)

lemma issue_of_update:
  assumes "update_issues p f db = Inr (b, db')" and "\<And>r. p r \<Longrightarrow> of_issue ws key (f r) = of_issue ws key r"
  shows "issue_of ws key db' = map_option (\<lambda>r. if p r then f r else r) (issue_of ws key db)"
  using assms by (auto simp: update_issues_Inr issue_of_def intro: find_update_where_pred)

lemma affected_iff:
  assumes "issues_ok (gd_issues db)" and "\<And>r. p r \<Longrightarrow> of_issue ws key r"
  shows "rows_affected p (gd_issues db) = (if opt_all p (issue_of ws key db) \<and> issue_of ws key db \<noteq> None then 1 else 0)"
proof -
  have "rows_affected p (gd_issues db) \<le> 1"
    using assms by (intro rows_affected_key [where k = is_key]) (auto simp: issues_ok_def of_issue_def)
  moreover have "rows_affected p (gd_issues db) = 0 \<longleftrightarrow> \<not> (opt_all p (issue_of ws key db) \<and> issue_of ws key db \<noteq> None)"
  proof (cases "issue_of ws key db")
    case None
    then have "\<not> p r" if "r \<in> set (gd_issues db)" for r
      using that assms(2) [of r] by (auto simp: issue_of_def find_None_iff)
    with None show ?thesis by (auto simp: row_simps)
  next
    case (Some r)
    then have r: "r \<in> set (gd_issues db)" "of_issue ws key r" using issue_of_iff [OF assms(1)] by auto
    have "s = r" if "s \<in> set (gd_issues db)" "p s" for s
    proof -
      have "issue_of ws key db = Some s" using that assms(2) issue_of_iff [OF assms(1)] by blast
      with Some show ?thesis by simp
    qed
    with r Some show ?thesis by (auto simp: row_simps)
  qed
  ultimately show ?thesis by auto
qed

lemma numbered_Cons [simp]:
  "numbered (r # rows) = (case is_number r of None \<Rightarrow> numbered rows
     | Some n \<Rightarrow> (is_repo_full_name r, n) # numbered rows)"
  by (simp add: numbered_def List.map_filter_def split: option.split)

lemma numbered_Nil [simp]: "numbered [] = []"
  by (simp add: numbered_def List.map_filter_def)

lemma numbered_append [simp]: "numbered (a @ b) = numbered a @ numbered b"
  by (induction a) (auto split: option.split)

lemma subseq_numbered: "subseq (numbered (delete_where p rows)) (numbered rows)"
  by (induction rows) (auto simp: delete_where_def split: option.split)

lemma issues_ok_delete:
  assumes "issues_ok rows"
  shows "issues_ok (delete_where p rows)"
proof -
  have "distinct (numbered (delete_where p rows))"
    using assms subseq_numbered distinct_subseq by (metis issues_ok_def)
  with assms show ?thesis
    by (auto simp: issues_ok_def list_all_iff row_simps delete_where_distinct)
qed

lemma issue_of_delete:
  assumes "issues_ok (gd_issues db)"
  shows "issue_of ws key (db\<lparr>gd_issues := delete_where p (gd_issues db)\<rparr>)
    = (case issue_of ws key db of None \<Rightarrow> None | Some r \<Rightarrow> if p r then None else Some r)"
proof (rule option_eqI)
  fix r
  have "issues_ok (gd_issues (db\<lparr>gd_issues := delete_where p (gd_issues db)\<rparr>))"
    using issues_ok_delete [OF assms] by simp
  note iff = issue_of_iff [OF this, of ws key r] issue_of_iff [OF assms, of ws key]
  show "issue_of ws key (db\<lparr>gd_issues := delete_where p (gd_issues db)\<rparr>) = Some r
      \<longleftrightarrow> (case issue_of ws key db of None \<Rightarrow> None | Some r \<Rightarrow> if p r then None else Some r) = Some r"
  proof (cases "issue_of ws key db")
    case None
    with iff show ?thesis by (auto simp: row_simps)
  next
    case (Some s)
    with iff(2) [of s] iff(2) [of r] iff(1) show ?thesis by (auto simp: row_simps)
  qed
qed

section \<open>A reconciliation attempt is a lease\<close>

type_synonym issue_key = "uuid \<times> string"

definition attempt_holder :: "issue_db \<Rightarrow> issue_key \<Rightarrow> time option" where
  "attempt_holder db k =
     Option.bind (issue_of (fst k) (snd k) db)
       (\<lambda>r. if is_filing_state r = NeedsReconciliation then is_refreshed_at r else None)"

definition issue_view :: "issue_db \<Rightarrow> issue_key \<Rightarrow> issue_row option" where
  "issue_view db k = issue_of (fst k) (snd k) db"

definition issue_inv :: "issue_db \<Rightarrow> bool" where
  "issue_inv db \<longleftrightarrow> issues_ok (gd_issues db)"

datatype attempt_op =
    Adopt time issue_link int
  | Abandon

fun attempt_act :: "attempt_op \<Rightarrow> issue_key \<Rightarrow> time \<Rightarrow> issue_db \<Rightarrow> (bool \<times> issue_db) result" where
  "attempt_act (Adopt now link count) k t db =
     complete_group_issue_reconciliation now (fst k) (snd k) t link count db"
| "attempt_act Abandon k t db = release_group_issue_reconciliation_claim (fst k) (snd k) t db"

datatype issue_event =
    ClaimFiling time filing_request time
  | CompleteFiling time uuid string issue_link int
  | ReleaseFiling uuid string
  | MarkFiling uuid string
  | ClaimReconciliation time uuid string time
  | Bump uuid string int int
  | Revert uuid string int int
  | ClaimRefresh time uuid string time
  | SetState time uuid string string
  | Merge time uuid string string string
  | Surroundings "group_row list" "group_report list" github_db

fun issue_other :: "issue_event \<Rightarrow> issue_db \<Rightarrow> issue_db result" where
  "issue_other (ClaimFiling now req cutoff) db = map_sum id snd (claim_group_issue_filing now req cutoff db)"
| "issue_other (CompleteFiling now ws key link n) db =
     map_sum id snd (complete_group_issue_filing now ws key link n db)"
| "issue_other (ReleaseFiling ws key) db = map_sum id snd (release_group_issue_filing_claim ws key db)"
| "issue_other (MarkFiling ws key) db = map_sum id snd (mark_group_issue_filing_for_reconciliation ws key db)"
| "issue_other (ClaimReconciliation now ws key cutoff) db =
     map_sum id snd (claim_group_issue_reconciliation now ws key cutoff db)"
| "issue_other (Bump ws key n m) db = map_sum id snd (bump_last_commented_report_count ws key n m db)"
| "issue_other (Revert ws key n m) db = map_sum id snd (revert_last_commented_report_count ws key n m db)"
| "issue_other (ClaimRefresh now ws key cutoff) db =
     map_sum id snd (claim_group_issue_state_refresh now ws key cutoff db)"
| "issue_other (SetState now ws key st) db = map_sum id snd (update_group_issue_state now ws key st db)"
| "issue_other (Merge now ws src tgt actor) db = map_sum id snd (merge_report_groups now ws src tgt actor db)"
| "issue_other (Surroundings groups reports g) db =
     Inr (db\<lparr>gd_groups := groups, gd_reports := reports, gd_github := g\<rparr>)"

fun attempt_grants :: "issue_event \<Rightarrow> time option" where
  "attempt_grants (ClaimReconciliation now ws key cutoff) = Some now"
| "attempt_grants _ = None"

lemma map_sum_snd_Inr: "map_sum id snd r = Inr db' \<longleftrightarrow> (\<exists>x. r = Inr (x, db'))"
  by (cases r) auto

text \<open>What an update does to the attempts: none is granted unless the update says so.\<close>

lemma update_issues_attempts:
  assumes inv: "issue_inv db" and u: "update_issues p f db = Inr (b, db')"
    and "\<And>r. p r \<Longrightarrow> is_key (f r) = is_key r \<and> is_workspace (f r) = is_workspace r"
    and "\<And>r. p r \<Longrightarrow> is_filing_state (f r) = NeedsReconciliation
           \<Longrightarrow> is_refreshed_at (f r) = None \<or> is_refreshed_at (f r) = g"
  shows "issue_inv db' \<and> (attempt_holder db' j = Some t \<longrightarrow> attempt_holder db j = Some t \<or> g = Some t)"
proof -
  have row: "issue_of (fst j) (snd j) db' = map_option (\<lambda>r. if p r then f r else r) (issue_of (fst j) (snd j) db)"
    using assms(3) by (intro issue_of_update [OF u]) (simp add: of_issue_def)
  have "attempt_holder db j = Some t \<or> g = Some t" if held: "attempt_holder db' j = Some t"
  proof -
    obtain r where r: "issue_of (fst j) (snd j) db = Some r" and s: "is_filing_state (if p r then f r else r) = NeedsReconciliation"
      "is_refreshed_at (if p r then f r else r) = Some t"
      using held row by (auto simp: attempt_holder_def bind_eq_Some_conv split: if_split_asm)
    show ?thesis
    proof (cases "p r")
      case True
      with s assms(4) [OF True] show ?thesis by auto
    next
      case False
      with r s show ?thesis by (simp add: attempt_holder_def)
    qed
  qed
  moreover have "issue_inv db'" using u by (simp add: update_issues_Inr issue_inv_def)
  ultimately show ?thesis by blast
qed

lemma pending_row_attempts:
  assumes "issue_inv db" and "inserts_claim req db"
    and "write_issues (gd_issues db @ [pending_row now req]) db = Inr db'"
  shows "issue_inv db'" and "attempt_holder db' j = attempt_holder db j"
  using assms
  by (auto simp: write_issues_def issue_inv_def attempt_holder_def issue_of_def find_append pending_row_def
      inserts_claim_def bind_eq_None_conv of_issue_def split: if_split_asm option.split)

lemma claim_filing_cases:
  assumes "claim_group_issue_filing now req cutoff db = Inr (c, db')"
  obtains (inserted) "c = Claimed" "inserts_claim req db"
      "Option.bind (group_of (fr_workspace_id req) (fr_group_key req) db) gr_merged_into = None"
      "write_issues (gd_issues db @ [pending_row now req]) db = Inr db'"
    | (same) "c \<noteq> Claimed" "\<not> inserts_claim req db" "db' = db"
    | (quarantine) "c \<noteq> Claimed" "\<not> inserts_claim req db"
      "db' = db\<lparr>gd_issues := update_where (\<lambda>r. of_issue (fr_workspace_id req) (fr_group_key req) r
         \<and> is_filing_state r = Pending \<and> is_claimed_at r \<le> cutoff) to_quarantine (gd_issues db)\<rparr>"
  using assms
  by (auto simp: claim_group_issue_filing_def Let_def result_bind_Inr split: option.split_asm if_split_asm)

lemma issues_ok_update:
  assumes "issues_ok rows" and "\<And>r. p r \<Longrightarrow> is_key (f r) = is_key r \<and> is_repo_full_name (f r) = is_repo_full_name r
      \<and> is_number (f r) = is_number r"
    and "\<And>r. p r \<Longrightarrow> issue_row_ok r \<Longrightarrow> issue_row_ok (f r)"
  shows "issues_ok (update_where p f rows)"
proof -
  have "numbered (update_where p f rows) = numbered rows"
    using assms(2) by (induction rows) (auto simp: update_where_def split: option.split)
  moreover have "map is_key (update_where p f rows) = map is_key rows"
    using assms(2) by (intro update_where_keys) simp
  ultimately show ?thesis
    using assms(1,3) by (auto simp: issues_ok_def list_all_iff row_simps)
qed

lemma quarantine_is_update:
  assumes "issue_inv db" and "\<And>r. p r \<Longrightarrow> is_filing_state r = Pending"
  shows "update_issues p to_quarantine db
    = Inr (rows_affected p (gd_issues db) = 1, db\<lparr>gd_issues := update_where p to_quarantine (gd_issues db)\<rparr>)"
proof -
  have "issues_ok (update_where p to_quarantine (gd_issues db))"
    using assms(1) by (intro issues_ok_update) (auto simp: issue_inv_def to_quarantine_def issue_row_ok_def)
  then show ?thesis by (simp add: update_issues_def write_issues_def)
qed

lemma merge_cases:
  assumes "merge_report_groups now ws skey tkey actor db = Inr (x, db')"
  obtains source target where "skey \<noteq> tkey" "keyed_group ws skey db = Some source"
    "keyed_group ws tkey db = Some target" "merge_refusal ws source target db = None"
    "merge_writes now ws actor source target db = Inr db'"
  using assms
  by (auto simp: merge_report_groups_def result_bind_Inr split: option.split_asm if_split_asm)

lemma merge_refusal_None:
  assumes "merge_refusal ws source target db = None"
  shows "gr_product source = gr_product target" and "gr_merged_into source = None" and "gr_merged_into target = None"
    and "\<forall>g \<in> set (gd_groups db). gr_workspace g = ws \<longrightarrow> gr_merged_into g \<noteq> Some (gr_key source)"
    and "\<forall>r \<in> set (gd_issues db). of_issue ws (gr_key source) r \<or> of_issue ws (gr_key target) r
          \<longrightarrow> is_filing_state r = Filed"
    and "Option.bind (issue_of ws (gr_key source) db) is_number = None
         \<or> Option.bind (issue_of ws (gr_key target) db) is_number = None"
  using assms by (auto simp: merge_refusal_def Let_def find_None_iff split: if_split_asm option.split_asm)

lemma keyed_group_key: "keyed_group ws key db = Some g \<Longrightarrow> gr_key g = key \<and> gr_workspace g = ws \<and> g \<in> set (gd_groups db)"
  by (auto simp: keyed_group_def dest: find_SomeD)

definition merged_issues :: "uuid \<Rightarrow> group_row \<Rightarrow> group_row \<Rightarrow> issue_db \<Rightarrow> issue_row list" where
  "merged_issues ws source target db =
     update_where (\<lambda>r. of_issue ws (gr_key source) r \<and> Option.bind (issue_of ws (gr_key source) db) is_number \<noteq> None)
       (\<lambda>r. r\<lparr>is_key := gr_key target, is_last_commented := 0\<rparr>) (gd_issues db)"

definition merged_reports :: "uuid \<Rightarrow> group_row \<Rightarrow> group_row \<Rightarrow> issue_db \<Rightarrow> group_report list" where
  "merged_reports ws source target db =
     update_where (\<lambda>r. gq_workspace r = ws \<and> gq_group r = Some (gr_id source))
       (\<lambda>r. r\<lparr>gq_group := Some (gr_id target)\<rparr>) (gd_reports db)"

definition merged_groups :: "time \<Rightarrow> uuid \<Rightarrow> string \<Rightarrow> group_row \<Rightarrow> group_row \<Rightarrow> issue_db \<Rightarrow> group_row list" where
  "merged_groups now ws actor source target db =
     update_where (\<lambda>g. gr_workspace g = ws \<and> gr_id g = gr_id source \<and> gr_merged_into g = None)
       (\<lambda>g. g\<lparr>gr_merged_into := Some (gr_key target), gr_merged_at := Some now,
              gr_merged_by := Some actor, gr_updated_at := now\<rparr>) (gd_groups db)"

lemma merged_issues_eq:
  "(if Option.bind (issue_of ws (gr_key source) db) is_number = None then gd_issues db
    else update_where (of_issue ws (gr_key source)) (\<lambda>r. r\<lparr>is_key := gr_key target, is_last_commented := 0\<rparr>) (gd_issues db))
   = merged_issues ws source target db"
  unfolding merged_issues_def update_where_def by simp

lemma merge_writes_Inr:
  "merge_writes now ws actor source target db = Inr db' \<longleftrightarrow>
     issues_ok (merged_issues ws source target db)
     \<and> db' = db\<lparr>gd_issues := merged_issues ws source target db, gd_reports := merged_reports ws source target db,
                gd_groups := merged_groups now ws actor source target db\<rparr>"
  unfolding merge_writes_def Let_def merged_issues_eq
  by (auto simp: write_issues_def merged_reports_def merged_groups_def)

lemma merge_attempts:
  assumes inv: "issue_inv db" and run: "merge_report_groups now ws skey tkey actor db = Inr (x, db')"
  shows "issue_inv db' \<and> (attempt_holder db' j = Some t \<longrightarrow> attempt_holder db j = Some t)"
proof -
  from merge_cases [OF run] obtain source target where
    ref: "merge_refusal ws source target db = None" and w: "merge_writes now ws actor source target db = Inr db'" by metis
  from w have inv': "issue_inv db'" and iss: "gd_issues db' = merged_issues ws source target db"
    by (auto simp: merge_writes_Inr issue_inv_def)
  have "attempt_holder db j = Some t" if held: "attempt_holder db' j = Some t"
  proof -
    obtain r' where r': "r' \<in> set (gd_issues db')" "of_issue (fst j) (snd j) r'"
      "is_filing_state r' = NeedsReconciliation" "is_refreshed_at r' = Some t"
      using held inv' by (auto simp: attempt_holder_def bind_eq_Some_conv issue_of_iff issue_inv_def split: if_split_asm)
    obtain r where r: "r \<in> set (gd_issues db)" "is_filing_state r = NeedsReconciliation \<longrightarrow> r' = r"
      "is_filing_state r' = is_filing_state r"
      using r'(1) merge_refusal_None(5) [OF ref] unfolding iss merged_issues_def by (auto simp: update_where_def)
    with r'(3) have "r' = r" by simp
    with r(1) r' inv have "issue_of (fst j) (snd j) db = Some r'" by (simp add: issue_of_iff issue_inv_def)
    with r' show ?thesis by (simp add: attempt_holder_def)
  qed
  with inv' show ?thesis by blast
qed

lemma attempt_holder_iff:
  assumes "issue_inv db"
  shows "attempt_holder db k = Some t
    \<longleftrightarrow> (\<exists>r \<in> set (gd_issues db). reconciling (fst k) (snd k) t r)"
  using assms by (auto simp: attempt_holder_def bind_eq_Some_conv issue_of_iff issue_inv_def reconciling_def)

lemma update_where_none: "\<forall>r \<in> set rs. \<not> p r \<Longrightarrow> update_where p f rs = rs"
  by (induction rs) (auto simp: update_where_def)

lemma delete_where_none: "\<forall>r \<in> set rs. \<not> p r \<Longrightarrow> delete_where p rs = rs"
  by (auto simp: delete_where_def filter_id_conv)

lemma attempt_reject:
  assumes "issue_inv db" and "attempt_holder db k \<noteq> Some t"
  shows "attempt_act a k t db = Inr (False, db)"
proof -
  have none: "\<forall>r \<in> set (gd_issues db). \<not> reconciling (fst k) (snd k) t r"
    using assms attempt_holder_iff by blast
  then have "rows_affected (reconciling (fst k) (snd k) t) (gd_issues db) = 0" by (simp add: row_simps)
  with none assms(1) show ?thesis
    by (cases a) (simp_all add: complete_group_issue_reconciliation_def release_group_issue_reconciliation_claim_def
        update_issues_def write_issues_def update_where_none delete_where_none issue_inv_def)
qed

lemma attempt_affected:
  assumes "issue_inv db" and "attempt_holder db k = Some t"
  shows "rows_affected (reconciling (fst k) (snd k) t) (gd_issues db) = 1"
proof -
  obtain r where r: "r \<in> set (gd_issues db)" "reconciling (fst k) (snd k) t r"
    using assms attempt_holder_iff by blast
  then have "issue_of (fst k) (snd k) db = Some r"
    using assms(1) by (simp add: issue_of_iff issue_inv_def reconciling_def)
  moreover have "rows_affected (reconciling (fst k) (snd k) t) (gd_issues db)
    = (if opt_all (reconciling (fst k) (snd k) t) (issue_of (fst k) (snd k) db) \<and> issue_of (fst k) (snd k) db \<noteq> None
       then 1 else 0)"
    using assms(1) by (intro affected_iff) (simp_all add: issue_inv_def reconciling_def)
  ultimately show ?thesis using r(2) by simp
qed

lemma attempt_accept:
  assumes "issue_inv db" and "attempt_holder db k = Some t" and "attempt_act a k t db = Inr (b, db')"
  shows b
  using assms attempt_affected [OF assms(1,2)]
  by (cases a) (auto simp: complete_group_issue_reconciliation_def update_issues_Inr
      release_group_issue_reconciliation_claim_def)

text \<open>The row an attempt wrote to, seen from every key.\<close>

lemma attempt_view:
  assumes inv: "issue_inv db" and run: "attempt_act a k t db = Inr (b, db')"
  shows "issue_inv db' \<and> issue_view db' j =
    (case issue_view db j of None \<Rightarrow> None
     | Some r \<Rightarrow> if reconciling (fst k) (snd k) t r
         then (case a of Adopt now link n \<Rightarrow> Some (filed now link n r) | Abandon \<Rightarrow> None) else Some r)"
proof (cases a)
  case (Adopt now link n)
  have u: "update_issues (reconciling (fst k) (snd k) t) (filed now link n) db = Inr (b, db')"
    using run Adopt by (simp add: complete_group_issue_reconciliation_def)
  then have "issue_view db' j = map_option (\<lambda>r. if reconciling (fst k) (snd k) t r then filed now link n r else r) (issue_view db j)"
    unfolding issue_view_def by (rule issue_of_update) (simp add: of_issue_def filed_def)
  with u Adopt show ?thesis
    by (cases "issue_view db j") (simp_all add: update_issues_Inr issue_inv_def)
next
  case Abandon
  with run have db': "db' = db\<lparr>gd_issues := delete_where (reconciling (fst k) (snd k) t) (gd_issues db)\<rparr>"
    by (auto simp: release_group_issue_reconciliation_claim_def Let_def)
  then show ?thesis
    using inv Abandon issue_of_delete issues_ok_delete
    by (cases "issue_view db j") (simp_all add: issue_view_def issue_inv_def)
qed

lemma attempt_holder_view:
  "attempt_holder db k = Option.bind (issue_view db k)
     (\<lambda>r. if is_filing_state r = NeedsReconciliation then is_refreshed_at r else None)"
  by (simp add: attempt_holder_def issue_view_def)

lemma issue_view_of: "issue_inv db \<Longrightarrow> issue_view db k = Some r \<Longrightarrow> of_issue (fst k) (snd k) r"
  by (simp add: issue_view_def issue_inv_def issue_of_iff)

lemma attempt_release:
  assumes "issue_inv db" and "attempt_act a k t db = Inr (True, db')"
  shows "attempt_holder db' k = None"
proof -
  have "attempt_holder db k = Some t" using assms attempt_reject [OF assms(1), of k t a] by fastforce
  then obtain r where "issue_view db k = Some r" "is_filing_state r = NeedsReconciliation" "is_refreshed_at r = Some t"
    by (auto simp: attempt_holder_view bind_eq_Some_conv split: if_split_asm)
  with issue_view_of [OF assms(1), of k r] have "issue_view db k = Some r" "reconciling (fst k) (snd k) t r"
    by (simp_all add: reconciling_def)
  with attempt_view [OF assms, of k] show ?thesis
    by (cases a) (simp_all add: attempt_holder_view filed_def)
qed

lemma attempt_hold:
  assumes "issue_inv db" and "attempt_act a k t db = Inr (b, db')" and "attempt_holder db' j = Some u"
  shows "attempt_holder db j = Some u"
  using assms(3) attempt_view [OF assms(1,2), of j]
  by (cases "issue_view db j"; cases a) (auto simp: attempt_holder_view filed_def split: if_split_asm)

lemma attempt_frame:
  assumes "issue_inv db" and "attempt_act a k t db = Inr (b, db')" and "j \<noteq> k"
  shows "issue_view db' j = issue_view db j"
proof (cases "issue_view db j")
  case None
  with attempt_view [OF assms(1,2), of j] show ?thesis by simp
next
  case (Some r)
  with issue_view_of [OF assms(1)] have "of_issue (fst j) (snd j) r" by blast
  with assms(3) have "\<not> reconciling (fst k) (snd k) t r"
    by (auto simp: reconciling_def of_issue_def prod_eq_iff)
  with attempt_view [OF assms(1,2), of j] Some show ?thesis by simp
qed

lemma claim_filing_attempts:
  assumes inv: "issue_inv db" and run: "claim_group_issue_filing now req cutoff db = Inr (c, db')"
  shows "issue_inv db' \<and> (attempt_holder db' j = Some t \<longrightarrow> attempt_holder db j = Some t)"
  using run
proof (cases rule: claim_filing_cases)
  case inserted
  with pending_row_attempts [OF inv] show ?thesis by metis
next
  case same
  with inv show ?thesis by simp
next
  case quarantine
  define p where "p = (\<lambda>r. of_issue (fr_workspace_id req) (fr_group_key req) r
         \<and> is_filing_state r = Pending \<and> is_claimed_at r \<le> cutoff)"
  have "update_issues p to_quarantine db = Inr (rows_affected p (gd_issues db) = 1, db')"
    using quarantine_is_update [OF inv, of p] quarantine(3) by (simp add: p_def)
  then have "issue_inv db' \<and> (attempt_holder db' j = Some t \<longrightarrow> attempt_holder db j = Some t \<or> None = Some t)"
    by (rule update_issues_attempts [OF inv]) (simp_all add: to_quarantine_def)
  then show ?thesis by simp
qed

lemma claim_reconciliation_is_update:
  "claim_group_issue_reconciliation now ws key cutoff db = Inr (c, db') \<Longrightarrow>
   update_issues (reconcilable ws key db cutoff) (\<lambda>r. r\<lparr>is_refreshed_at := Some now\<rparr>) db
   = Inr (rows_affected (reconcilable ws key db cutoff) (gd_issues db) = 1, db')"
  by (auto simp: claim_group_issue_reconciliation_def update_issues_def Let_def result_bind_Inr)

lemma delete_attempts:
  assumes "issue_inv db"
  shows "issue_inv (db\<lparr>gd_issues := delete_where p (gd_issues db)\<rparr>)
    \<and> (attempt_holder (db\<lparr>gd_issues := delete_where p (gd_issues db)\<rparr>) j = Some t \<longrightarrow> attempt_holder db j = Some t)"
  using assms issues_ok_delete
  by (cases "issue_of (fst j) (snd j) db") (auto simp: issue_inv_def attempt_holder_def issue_of_delete split: if_split_asm)

lemma event_attempts:
  assumes inv: "issue_inv db" and run: "issue_other e db = Inr db'"
  shows "issue_inv db' \<and> (attempt_holder db' j = Some t \<longrightarrow> attempt_holder db j = Some t \<or> attempt_grants e = Some t)"
proof (cases e)
  case (ClaimFiling now req cutoff)
  with run obtain c where "claim_group_issue_filing now req cutoff db = Inr (c, db')" by (auto simp: map_sum_snd_Inr)
  from claim_filing_attempts [OF inv this] show ?thesis by blast
next
  case (CompleteFiling now ws key link n)
  with run obtain b where "update_issues (pending_claim ws key) (filed now link n) db = Inr (b, db')"
    by (auto simp: map_sum_snd_Inr complete_group_issue_filing_def result_bind_Inr split: option.split_asm prod.split_asm if_split_asm)
  from update_issues_attempts [OF inv this, of None] show ?thesis by (auto simp: filed_def)
next
  case (ReleaseFiling ws key)
  with run delete_attempts [OF inv, of _ j t] show ?thesis by (auto simp: map_sum_snd_Inr release_group_issue_filing_claim_def)
next
  case (MarkFiling ws key)
  with run obtain b where "update_issues (pending_claim ws key) to_quarantine db = Inr (b, db')"
    by (auto simp: map_sum_snd_Inr mark_group_issue_filing_for_reconciliation_def)
  from update_issues_attempts [OF inv this, of None] show ?thesis by (auto simp: to_quarantine_def)
next
  case (ClaimReconciliation now ws key cutoff)
  with run obtain c where "claim_group_issue_reconciliation now ws key cutoff db = Inr (c, db')"
    by (auto simp: map_sum_snd_Inr)
  from update_issues_attempts [OF inv claim_reconciliation_is_update [OF this], of "Some now"] ClaimReconciliation
  show ?thesis by auto
next
  case (Bump ws key n m)
  with run obtain b where u: "bump_last_commented_report_count ws key n m db = Inr (b, db')" by (auto simp: map_sum_snd_Inr)
  from update_issues_attempts [OF inv u [unfolded bump_last_commented_report_count_def], of None] show ?thesis
    by (auto simp: filed_issue_def)
next
  case (Revert ws key n m)
  with run obtain b where u: "revert_last_commented_report_count ws key n m db = Inr (b, db')" by (auto simp: map_sum_snd_Inr)
  from update_issues_attempts [OF inv u [unfolded revert_last_commented_report_count_def], of None] show ?thesis
    by (auto simp: filed_issue_def)
next
  case (ClaimRefresh now ws key cutoff)
  with run obtain b where u: "claim_group_issue_state_refresh now ws key cutoff db = Inr (b, db')" by (auto simp: map_sum_snd_Inr)
  from update_issues_attempts [OF inv u [unfolded claim_group_issue_state_refresh_def], of None] show ?thesis
    by (auto simp: filed_issue_def)
next
  case (SetState now ws key st)
  with run obtain b where u: "update_group_issue_state now ws key st db = Inr (b, db')" by (auto simp: map_sum_snd_Inr)
  from update_issues_attempts [OF inv u [unfolded update_group_issue_state_def], of None] show ?thesis
    by (auto simp: filed_issue_def)
next
  case (Merge now ws src tgt actor)
  with run merge_attempts [OF inv, of _ _ _ _ _ _ _ j t] show ?thesis by (auto simp: map_sum_snd_Inr)
next
  case (Surroundings groups reports g)
  with run inv show ?thesis by (auto simp: issue_inv_def attempt_holder_def issue_of_def)
qed

interpretation gi: fenced_lease issue_inv attempt_holder issue_view attempt_act "\<lambda>_. True" issue_other attempt_grants
proof
  fix db :: issue_db and k j :: issue_key and a t b db' u e
  assume inv: "issue_inv db"
  show "attempt_holder db k \<noteq> Some t \<Longrightarrow> attempt_act a k t db = Inr (False, db)" by (rule attempt_reject [OF inv])
  show "attempt_holder db k = Some t \<Longrightarrow> attempt_act a k t db = Inr (b, db') \<Longrightarrow> b" by (rule attempt_accept [OF inv])
  show "attempt_act a k t db = Inr (b, db') \<Longrightarrow> issue_inv db'" using attempt_view [OF inv] by blast
  show "True \<Longrightarrow> attempt_act a k t db = Inr (True, db') \<Longrightarrow> attempt_holder db' k = None" using attempt_release [OF inv] by blast
  show "attempt_act a k t db = Inr (b, db') \<Longrightarrow> attempt_holder db' j = Some u \<Longrightarrow> attempt_holder db j = Some u"
    by (rule attempt_hold [OF inv])
  show "attempt_act a k t db = Inr (b, db') \<Longrightarrow> j \<noteq> k \<Longrightarrow> issue_view db' j = issue_view db j" by (rule attempt_frame [OF inv])
  show "issue_other e db = Inr db' \<Longrightarrow> issue_inv db'" using event_attempts [OF inv] by blast
  show "issue_other e db = Inr db' \<Longrightarrow> attempt_holder db' j = Some u \<Longrightarrow> attempt_holder db j = Some u \<or> attempt_grants e = Some u"
    using event_attempts [OF inv] by blast
qed

definition sample_attempt_row :: issue_row where
  "sample_attempt_row =
     \<lparr>is_key = ''k'', is_workspace = 1, is_installation_id = 9, is_repo_full_name = ''o/r'', is_number = None,
      is_url = None, is_state = None, is_filing_state = NeedsReconciliation, is_claimed_at = 3,
      is_created_by = ''u'', is_last_commented = 2, is_refreshed_at = Some 5\<rparr>"

definition sample_link :: issue_link where
  "sample_link = \<lparr>il_repo_full_name = ''o/r'', il_number = 4, il_url = ''url'', il_state = ''open''\<rparr>"

definition sample_attempts :: "(attempt_op, issue_key, time, issue_event) lease_event list" where
  "sample_attempts = [Act (Adopt 6 sample_link 2) (1, ''k'') 5, Act Abandon (1, ''k'') 5, Other (MarkFiling 1 ''k'')]"

text \<open>
  C6.  However the settlements of reconciliation attempts interleave with filings, comments, state
  refreshes, merges and each other, one attempt, named by the time it was claimed at, settles at most
  once, and no statement breaks a constraint of the table of issues.
\<close>

theorem reconciliation_settles_at_most_once:
  assumes "issues_ok (gd_issues db)" and "distinct (grants_of attempt_grants evs)"
    and "(\<exists>r \<in> set (gd_issues db). reconciling ws key claimed_at r) \<longrightarrow> claimed_at \<notin> set (grants_of attempt_grants evs)"
  shows "settlements (\<lambda>_. True) (ws, key) claimed_at evs (fst (run_leases attempt_act issue_other evs db)) \<le> 1
    \<and> issues_ok (gd_issues (snd (run_leases attempt_act issue_other evs db)))"
proof -
  have inv: "issue_inv db" using assms(1) by (simp add: issue_inv_def)
  have "attempt_holder db (ws, key) = Some claimed_at \<longrightarrow> claimed_at \<notin> set (grants_of attempt_grants evs)"
    using assms(3) attempt_holder_iff [OF inv, of "(ws, key)" claimed_at] by simp
  with gi.one_settlement [OF inv assms(2)] gi.run_inv [OF inv] show ?thesis by (simp add: issue_inv_def)
qed

definition sample_github :: github_db where
  "sample_github = \<lparr>installations = [], products = [], product_repos = []\<rparr>"

theorem reconciliation_settles_at_most_once_witness:
  "settlements (\<lambda>_. True) (1, ''k'') 5 sample_attempts (fst (run_leases attempt_act issue_other sample_attempts
      \<lparr>gd_groups = [], gd_issues = [sample_attempt_row], gd_reports = [], gd_github = sample_github\<rparr>)) \<le> 1"
proof -
  have "issues_ok [sample_attempt_row]" by (simp add: issues_ok_def numbered_def List.map_filter_def sample_attempt_row_def issue_row_ok_def)
  then show ?thesis
    using reconciliation_settles_at_most_once
      [of "\<lparr>gd_groups = [], gd_issues = [sample_attempt_row], gd_reports = [], gd_github = sample_github\<rparr>"
          sample_attempts 1 "''k''" 5]
    by (simp add: sample_attempts_def)
qed

end
