(* ===== verification/KeysetWalk.thy ===== *)
theory KeysetWalk
  imports ApiError
begin

text \<open>
  Batch runs over a table with a keyset cursor.  Every run of \<open>backend/src/store.rs\<close> that backfills
  reports reads a page of rows after a cursor, handles each row in the page's transaction, commits,
  and moves the cursor to the last row.  The locale states what such a run needs of its query and of
  the handling of a row; the lemmas say that the run then ends and visits each row exactly once.
\<close>

section \<open>The loop\<close>

definition BATCH_SIZE :: nat where
  "BATCH_SIZE = 500"

type_synonym 'key cursor = "'key option"

definition after :: "('key :: linorder) cursor \<Rightarrow> 'key \<Rightarrow> bool" where
  "after cursor k \<longleftrightarrow> (case cursor of None \<Rightarrow> True | Some c \<Rightarrow> c < k)"

definition page ::
  "('db \<Rightarrow> 'row list) \<Rightarrow> ('row \<Rightarrow> 'key :: linorder) \<Rightarrow> 'key cursor \<Rightarrow> 'db \<Rightarrow> 'row list" where
  "page select key cursor db =
     take BATCH_SIZE (sort_key key (filter (\<lambda>r. after cursor (key r)) (select db)))"

text \<open>The rows of one page, in one transaction: an error gives up the page.\<close>

fun run_rows ::
  "('row \<Rightarrow> 'acc \<Rightarrow> 'db \<Rightarrow> ('acc \<times> 'db) result) \<Rightarrow> 'row list \<Rightarrow> 'acc \<Rightarrow> 'db \<Rightarrow> ('acc \<times> 'db) result" where
  "run_rows step [] acc db = Inr (acc, db)"
| "run_rows step (r # rs) acc db = result_bind (step r acc db) (\<lambda>(acc', db'). run_rows step rs acc' db')"

text \<open>
  The loop over pages.  Its result is whether the table was walked out, the number of rows read, and
  the summary, or the error that ended it; pages committed before an error stay.
\<close>

type_synonym ('acc, 'db) walk_end = "(bool \<times> nat \<times> 'acc) result \<times> 'db"

partial_function (option) walk ::
  "('db \<Rightarrow> 'row list) \<Rightarrow> ('row \<Rightarrow> 'key :: linorder) \<Rightarrow> ('row \<Rightarrow> 'acc \<Rightarrow> 'db \<Rightarrow> ('acc \<times> 'db) result)
   \<Rightarrow> nat option \<Rightarrow> nat \<Rightarrow> 'key cursor \<Rightarrow> nat \<Rightarrow> 'acc \<Rightarrow> 'db \<Rightarrow> ('acc, 'db) walk_end option" where
  "walk select key step max_batches batches_run cursor scanned acc db =
     (if (case max_batches of None \<Rightarrow> False | Some limit \<Rightarrow> batches_run \<ge> limit)
      then Some (Inr (False, scanned, acc), db)
      else let rows = page select key cursor db in
        if rows = [] then Some (Inr (True, scanned, acc), db)
        else case run_rows step rows acc db of
          Inl e \<Rightarrow> Some (Inl e, db)
        | Inr (acc', db') \<Rightarrow>
            walk select key step max_batches (Suc batches_run) (Some (key (last rows)))
              (scanned + length rows) acc' db')"

declare walk.simps [code]

section \<open>What a run promises\<close>

locale keyset_walk =
  fixes select :: "'db \<Rightarrow> 'row list"
    and key :: "'row \<Rightarrow> 'key :: linorder"
    and step :: "'row \<Rightarrow> 'acc \<Rightarrow> 'db \<Rightarrow> ('acc \<times> 'db) result"
    and inv :: "'db \<Rightarrow> bool"
  assumes step_inv: "inv db \<Longrightarrow> r \<in> set (select db) \<Longrightarrow> step r acc db = Inr (acc', db') \<Longrightarrow> inv db'"
    and step_rest: "inv db \<Longrightarrow> r \<in> set (select db) \<Longrightarrow> step r acc db = Inr (acc', db')
        \<Longrightarrow> filter (\<lambda>x. key r < key x) (select db') = filter (\<lambda>x. key r < key x) (select db)"
    and keys: "inv db \<Longrightarrow> distinct (map key (select db))"
begin

definition rest :: "'key cursor \<Rightarrow> 'db \<Rightarrow> 'row list" where
  "rest cursor db = sort_key key (filter (\<lambda>r. after cursor (key r)) (select db))"

lemma set_rest: "set (rest cursor db) = {r \<in> set (select db). after cursor (key r)}"
  by (simp add: rest_def)

lemma rest_ordered:
  assumes "inv db"
  shows "sorted_wrt (<) (map key (rest cursor db))"
proof -
  have "distinct (map key (filter (\<lambda>r. after cursor (key r)) (select db)))"
    using keys [OF assms] by (rule distinct_map_filter)
  then have "distinct (map key (rest cursor db))"
    by (simp add: rest_def distinct_map)
  then show ?thesis by (simp add: rest_def strict_sorted_iff)
qed

lemma after_Some [simp]: "after (Some c) k \<longleftrightarrow> c < k"
  by (simp add: after_def)

lemma filter_sort_key: "filter p (sort_key f xs) = sort_key f (filter p xs)"
  by (induction xs) (simp_all add: filter_insort filter_insort_triv)

text \<open>After a row is handled, what comes after it is what came after it before.\<close>

lemma rest_step:
  assumes "inv db" and "rest cursor db = r # rs" and "step r acc db = Inr (acc', db')"
  shows "inv db'" and "rest (Some (key r)) db' = rs"
proof -
  have r: "r \<in> set (select db)" "after cursor (key r)" using assms(2) set_rest [of cursor db] by auto
  then show "inv db'" using step_inv assms by blast
  have ordered: "\<forall>x \<in> set rs. key r < key x" using rest_ordered [OF assms(1), of cursor] assms(2) by auto
  have aft: "after cursor (key x)" if "key r < key x" for x
    using that r(2) by (auto simp: after_def split: option.splits)
  have "rest (Some (key r)) db' = sort_key key (filter (\<lambda>x. key r < key x) (select db))"
    using step_rest [OF assms(1) r(1) assms(3)] by (simp add: rest_def)
  also have "\<dots> = filter (\<lambda>x. key r < key x) (rest cursor db)"
    using aft by (simp add: rest_def filter_sort_key conj_commute) (metis (no_types, lifting) filter_cong)
  also have "\<dots> = rs" using assms(2) ordered by (simp add: filter_id_conv)
  finally show "rest (Some (key r)) db' = rs" .
qed

lemma run_rows_rest:
  assumes "inv db" and "rest cursor db = rs @ ts" and "rs \<noteq> []" and "run_rows step rs acc db = Inr (acc', db')"
  shows "inv db' \<and> rest (Some (key (last rs))) db' = ts"
  using assms
proof (induction rs arbitrary: cursor acc db)
  case (Cons r rs)
  then obtain acc1 db1 where s: "step r acc db = Inr (acc1, db1)" "run_rows step rs acc1 db1 = Inr (acc', db')"
    by (auto simp: result_bind_Inr)
  have n: "inv db1" "rest (Some (key r)) db1 = rs @ ts" using rest_step Cons.prems(1,2) s(1) by auto
  show ?case
  proof (cases "rs = []")
    case True
    with n s(2) show ?thesis by simp
  next
    case False
    with Cons.IH [OF n False s(2)] show ?thesis by simp
  qed
qed simp

lemma run_rows_append:
  "run_rows step (rs @ ts) acc db = result_bind (run_rows step rs acc db) (\<lambda>(acc', db'). run_rows step ts acc' db')"
proof (induction rs arbitrary: acc db)
  case (Cons r rs)
  then show ?case by (cases "step r acc db") auto
qed simp

lemma page_rest: "page select key cursor db = take BATCH_SIZE (rest cursor db)"
  by (simp add: page_def rest_def)

text \<open>
  The reference: all rows handled one after the other.  The paged run ends with the same summary and
  table, or with the same error.
\<close>

lemma walk_out:
  assumes "inv db"
  shows "(case run_rows step (rest cursor db) acc db of
        Inr (acc', db') \<Rightarrow> walk select key step None n cursor scanned acc db
            = Some (Inr (True, scanned + length (rest cursor db), acc'), db') \<and> inv db'
      | Inl e \<Rightarrow> \<exists>db'. walk select key step None n cursor scanned acc db = Some (Inl e, db') \<and> inv db')"
  using assms
proof (induction "length (rest cursor db)" arbitrary: n cursor scanned acc db rule: less_induct)
  case less
  define rows where "rows = take BATCH_SIZE (rest cursor db)"
  define more where "more = drop BATCH_SIZE (rest cursor db)"
  have split: "rest cursor db = rows @ more" by (simp add: rows_def more_def)
  have unfold: "walk select key step None n cursor scanned acc db =
      (if rows = [] then Some (Inr (True, scanned, acc), db)
       else case run_rows step rows acc db of
          Inl e \<Rightarrow> Some (Inl e, db)
        | Inr (acc', db') \<Rightarrow>
            walk select key step None (Suc n) (Some (key (last rows))) (scanned + length rows) acc' db')"
    by (subst walk.simps) (simp add: page_rest rows_def [symmetric] Let_def)
  show ?case
  proof (cases "rows = []")
    case True
    then have "rest cursor db = []" by (auto simp: rows_def BATCH_SIZE_def)
    with True unfold less.prems show ?thesis by simp
  next
    case False
    show ?thesis
    proof (cases "run_rows step rows acc db")
      case (Inl e)
      then have "run_rows step (rest cursor db) acc db = Inl e" by (simp add: split run_rows_append)
      with unfold False Inl less.prems show ?thesis by simp
    next
      case (Inr out)
      then obtain acc1 db1 where r: "run_rows step rows acc db = Inr (acc1, db1)" by (cases out) auto
      have n: "inv db1" "rest (Some (key (last rows))) db1 = more"
        using run_rows_rest [OF less.prems split False r] by auto
      have lt: "length (rest (Some (key (last rows))) db1) < length (rest cursor db)"
        using False by (simp add: n split)
      have eq: "run_rows step (rest cursor db) acc db = run_rows step more acc1 db1"
        by (simp add: split run_rows_append r)
      have len: "length (rest cursor db) = length rows + length more" by (simp add: split)
      have w: "walk select key step None n cursor scanned acc db =
          walk select key step None (Suc n) (Some (key (last rows))) (scanned + length rows) acc1 db1"
        using unfold False r by simp
      show ?thesis
        using less.hyps [OF lt n(1), of "Suc n" "scanned + length rows" acc1]
        unfolding w eq len n(2) add.assoc .
    qed
  qed
qed

text \<open>A bounded run ends too.\<close>

lemma walk_ends:
  assumes "inv db"
  shows "\<exists>out. walk select key step max_batches n cursor scanned acc db = Some out"
  using assms
proof (induction "length (rest cursor db)" arbitrary: n cursor scanned acc db rule: less_induct)
  case less
  define rows where "rows = take BATCH_SIZE (rest cursor db)"
  have split: "rest cursor db = rows @ drop BATCH_SIZE (rest cursor db)" by (simp add: rows_def)
  have "\<exists>out. walk select key step max_batches (Suc n) (Some (key (last rows))) (scanned + length rows) acc1 db1 = Some out"
    if "rows \<noteq> []" "run_rows step rows acc db = Inr (acc1, db1)" for acc1 db1
  proof (rule less.hyps)
    have "inv db1 \<and> rest (Some (key (last rows))) db1 = drop BATCH_SIZE (rest cursor db)"
      by (rule run_rows_rest [OF less.prems split that])
    moreover have "length (drop BATCH_SIZE (rest cursor db)) < length (rest cursor db)"
      using that(1) by (metis add_less_cancel_right length_append length_greater_0_conv local.split add_cancel_left_left zero_less_iff_neq_zero not_less_eq less_add_same_cancel2)
    ultimately show "inv db1" "length (rest (Some (key (last rows))) db1) < length (rest cursor db)" by simp_all
  qed
  then show ?case
    by (subst walk.simps) (auto simp: page_rest rows_def Let_def split: sum.split prod.split)
qed

end

end
