(* ===== verification/ReportGroups.thy ===== *)
theory ReportGroups
  imports GroupIssueFacts KeysetWalk
begin

text \<open>
  \<open>backend/src/store.rs\<close>, how reports get into groups: \<open>assign_report_group\<close> for a new report,
  the backfill of reports without a group, the regrouping of all reports, and how both follow the
  lineage that \<open>merge_report_groups\<close> leaves.  The fingerprint is \<open>Grouping.assign\<close>.
\<close>

section \<open>Assigning one report\<close>

text \<open>
  What a run draws from outside: the digest, the text of a UUID, and for each report the UUID drawn
  for a group it may need and the \<open>NOW()\<close> of the transaction that handles it.
\<close>

record group_env =
  ge_sha256 :: "string \<Rightarrow> string"
  ge_show_uuid :: "uuid \<Rightarrow> string"
  ge_new_id :: "uuid \<Rightarrow> uuid"
  ge_now :: "uuid \<Rightarrow> time"

definition refreshed_group :: "time \<Rightarrow> group_assignment \<Rightarrow> group_row \<Rightarrow> group_row" where
  "refreshed_group now a g =
     g\<lparr>gr_grouper_name := grouper_name, gr_grouper_version := grouper_version,
       gr_explanation := ga_explanation a, gr_updated_at := now\<rparr>"

definition new_group :: "time \<Rightarrow> uuid \<Rightarrow> uuid \<Rightarrow> uuid \<Rightarrow> group_assignment \<Rightarrow> group_row" where
  "new_group now fresh workspace_id product_id a =
     \<lparr>gr_id = fresh, gr_workspace = workspace_id, gr_product = product_id, gr_key = ga_group_key a,
      gr_grouper_name = grouper_name, gr_grouper_version = grouper_version,
      gr_explanation = ga_explanation a, gr_updated_at = now,
      gr_merged_into = None, gr_merged_at = None, gr_merged_by = None\<rparr>"

text \<open>The upsert: the row it returns and the table it leaves.\<close>

definition upsert_group ::
  "time \<Rightarrow> uuid \<Rightarrow> uuid \<Rightarrow> uuid \<Rightarrow> group_assignment \<Rightarrow> group_row list \<Rightarrow> (group_row \<times> group_row list) result" where
  "upsert_group now fresh workspace_id product_id a gs =
     (case find (\<lambda>g. gr_key g = ga_group_key a) gs of
        Some g \<Rightarrow> Inr (refreshed_group now a g,
                       update_where (\<lambda>h. gr_key h = ga_group_key a) (refreshed_group now a) gs)
      | None \<Rightarrow>
          (if fresh \<in> gr_id ` set gs then Inl internal_error
           else Inr (new_group now fresh workspace_id product_id a,
                     gs @ [new_group now fresh workspace_id product_id a])))"

text \<open>
  The group a merged group's reports belong to.  The query reads the table as it was before the
  upsert, which changes none of these columns.
\<close>

definition merge_target :: "group_row \<Rightarrow> group_row list \<Rightarrow> group_row option" where
  "merge_target g gs =
     Option.bind (gr_merged_into g) (\<lambda>key.
       find (\<lambda>h. gr_key h = key \<and> gr_workspace h = gr_workspace g \<and> gr_product h = gr_product g
               \<and> gr_merged_into h = None) gs)"

definition set_report_group :: "uuid \<Rightarrow> uuid \<Rightarrow> uuid \<Rightarrow> issue_db \<Rightarrow> (uuid \<times> issue_db) result" where
  "set_report_group workspace_id report_id group_id db =
     (let p = (\<lambda>r. gq_id r = report_id \<and> gq_workspace r = workspace_id)
      in if rows_affected p (gd_reports db) \<noteq> 1 then Inl internal_error
         else Inr (group_id, db\<lparr>gd_reports :=
                update_where p (\<lambda>r. r\<lparr>gq_group := Some group_id\<rparr>) (gd_reports db)\<rparr>))"

definition assign_report_group ::
  "group_env \<Rightarrow> uuid \<Rightarrow> uuid \<Rightarrow> group_input \<Rightarrow> issue_db \<Rightarrow> (uuid \<times> issue_db) result" where
  "assign_report_group env workspace_id report_id input db =
     (let assignment = assign (ge_sha256 env) (ge_show_uuid env) input
      in result_bind (upsert_group (ge_now env report_id) (ge_new_id env report_id) workspace_id
             (gi_product_id input) assignment (gd_groups db))
           (\<lambda>(assigned, groups).
              set_report_group workspace_id report_id
                (case merge_target assigned (gd_groups db) of None \<Rightarrow> gr_id assigned | Some h \<Rightarrow> gr_id h)
                (db\<lparr>gd_groups := groups\<rparr>)))"

definition assign_report_to_lineage_target ::
  "uuid \<Rightarrow> uuid \<Rightarrow> uuid \<Rightarrow> string \<Rightarrow> issue_db \<Rightarrow> (uuid \<times> issue_db) result" where
  "assign_report_to_lineage_target workspace_id product_id report_id target_key db =
     (case find (\<lambda>h. gr_workspace h = workspace_id \<and> gr_product h = product_id
                   \<and> gr_key h = target_key \<and> gr_merged_into h = None) (gd_groups db) of
        None \<Rightarrow> Inl internal_error
      | Some h \<Rightarrow> set_report_group workspace_id report_id (gr_id h) db)"

section \<open>Backfill and regroup\<close>

text \<open>The input of the fingerprint, when the joined row has what it needs.\<close>

definition located :: "group_report \<Rightarrow> (uuid \<times> string \<times> string) option" where
  "located r =
     (case (gq_product r, gq_operation r, gq_surface r) of
        (Some p, Some operation, Some surface) \<Rightarrow> Some (p, operation, surface)
      | _ \<Rightarrow> None)"

definition input_of :: "group_report \<Rightarrow> (uuid \<times> string \<times> string) \<Rightarrow> finding_input list \<Rightarrow> group_input" where
  "input_of r loc findings =
     (case loc of (p, operation, surface) \<Rightarrow>
        \<lparr>gi_product_id = p, gi_operation = operation, gi_surface = surface,
         gi_status_code = gq_status_code r, gi_findings = findings\<rparr>)"

record backfill_summary =
  bs_grouped :: nat
  bs_skipped :: nat
  bs_skipped_findings :: nat

definition ungrouped :: "issue_db \<Rightarrow> group_report list" where
  "ungrouped db = filter (\<lambda>r. gq_group r = None) (gd_reports db)"

definition report_key :: "group_report \<Rightarrow> time \<times> uuid" where
  "report_key r = (gq_created_at r, gq_id r)"

definition backfill_row ::
  "group_env \<Rightarrow> group_report \<Rightarrow> backfill_summary \<Rightarrow> issue_db \<Rightarrow> (backfill_summary \<times> issue_db) result" where
  "backfill_row env r s db =
     (case located r of
        None \<Rightarrow> Inr (s\<lparr>bs_skipped := bs_skipped s + 1\<rparr>, db)
      | Some loc \<Rightarrow>
          (case gq_findings r of
             None \<Rightarrow> Inr (s\<lparr>bs_skipped := bs_skipped s + 1,
                           bs_skipped_findings := bs_skipped_findings s + 1\<rparr>, db)
           | Some findings \<Rightarrow>
               result_bind (assign_report_group env (gq_workspace r) (gq_id r) (input_of r loc findings) db)
                 (\<lambda>(_, db'). Inr (s\<lparr>bs_grouped := bs_grouped s + 1\<rparr>, db'))))"

definition no_backfill :: backfill_summary where
  "no_backfill = \<lparr>bs_grouped = 0, bs_skipped = 0, bs_skipped_findings = 0\<rparr>"

definition backfill_report_groups ::
  "group_env \<Rightarrow> nat option \<Rightarrow> issue_db \<Rightarrow> (backfill_summary, issue_db) walk_end option" where
  "backfill_report_groups env max_batches db =
     walk ungrouped report_key (backfill_row env) max_batches 0 None 0 no_backfill db"

record regroup_summary =
  rs_moved :: nat
  rs_unchanged :: nat
  rs_skipped :: nat
  rs_skipped_findings :: nat

definition current_group :: "group_row list \<Rightarrow> group_report \<Rightarrow> group_row option" where
  "current_group gs r =
     Option.bind (gq_group r) (\<lambda>i. find (\<lambda>g. gr_id g = i \<and> gr_workspace g = gq_workspace r) gs)"

definition grouped_rows :: "issue_db \<Rightarrow> (group_report \<times> string option) list" where
  "grouped_rows db =
     map (\<lambda>r. (r, Option.bind (current_group (gd_groups db) r) gr_merged_into))
       (filter (\<lambda>r. current_group (gd_groups db) r \<noteq> None) (gd_reports db))"

definition regroup_row ::
  "group_env \<Rightarrow> group_report \<times> string option \<Rightarrow> regroup_summary \<Rightarrow> issue_db
   \<Rightarrow> (regroup_summary \<times> issue_db) result" where
  "regroup_row env row s db =
     (case row of (r, current_merged_into) \<Rightarrow>
      (case located r of
        None \<Rightarrow> Inr (s\<lparr>rs_skipped := rs_skipped s + 1\<rparr>, db)
      | Some loc \<Rightarrow>
          (case gq_findings r of
             None \<Rightarrow> Inr (s\<lparr>rs_skipped := rs_skipped s + 1,
                           rs_skipped_findings := rs_skipped_findings s + 1\<rparr>, db)
           | Some findings \<Rightarrow>
               result_bind
                 (case current_merged_into of
                    Some target \<Rightarrow>
                      assign_report_to_lineage_target (gq_workspace r) (fst loc) (gq_id r) target db
                  | None \<Rightarrow>
                      assign_report_group env (gq_workspace r) (gq_id r) (input_of r loc findings) db)
                 (\<lambda>(group_id, db').
                    Inr (if Some group_id \<noteq> gq_group r then s\<lparr>rs_moved := rs_moved s + 1\<rparr>
                         else s\<lparr>rs_unchanged := rs_unchanged s + 1\<rparr>, db')))))"

definition no_regroup :: regroup_summary where
  "no_regroup = \<lparr>rs_moved = 0, rs_unchanged = 0, rs_skipped = 0, rs_skipped_findings = 0\<rparr>"

definition regroup_report_groups :: "group_env \<Rightarrow> issue_db \<Rightarrow> (regroup_summary, issue_db) walk_end option" where
  "regroup_report_groups env db =
     walk grouped_rows (report_key \<circ> fst) (regroup_row env) None 0 None 0 no_regroup db"

end
