(* ===== verification/ReportGroupFacts.thy ===== *)
theory ReportGroupFacts
  imports ReportGroups
begin

text \<open>
  What grouping keeps: the lineage of merged groups is one hop and their reports are in the final
  target; the backfill walks the table out and groups every report it can read; a second regrouping
  moves nothing.
\<close>

section \<open>Statements on one report\<close>

definition is_report :: "uuid \<Rightarrow> uuid \<Rightarrow> group_report \<Rightarrow> bool" where
  "is_report ws rid r \<longleftrightarrow> gq_id r = rid \<and> gq_workspace r = ws"

definition reports_ok :: "issue_db \<Rightarrow> bool" where
  "reports_ok db \<longleftrightarrow> distinct (map gq_id (gd_reports db))"

lemma set_report_group_Inr:
  "set_report_group ws rid gid db = Inr (i, db') \<longleftrightarrow>
     i = gid \<and> rows_affected (is_report ws rid) (gd_reports db) = 1
     \<and> db' = db\<lparr>gd_reports := update_where (is_report ws rid) (\<lambda>r. r\<lparr>gq_group := Some gid\<rparr>) (gd_reports db)\<rparr>"
  by (auto simp: set_report_group_def Let_def is_report_def [abs_def])

lemma one_report:
  assumes "reports_ok db" and "r \<in> set (gd_reports db)"
  shows "rows_affected (is_report (gq_workspace r) (gq_id r)) (gd_reports db) = 1"
proof -
  have "rows_affected (is_report (gq_workspace r) (gq_id r)) (gd_reports db) \<le> 1"
    using assms(1) by (intro rows_affected_key [where k = gq_id]) (auto simp: reports_ok_def is_report_def)
  moreover have "rows_affected (is_report (gq_workspace r) (gq_id r)) (gd_reports db) \<noteq> 0"
    using assms(2) by (auto simp: row_simps is_report_def)
  ultimately show ?thesis by simp
qed

lemma is_report_unique:
  assumes "reports_ok db" and "r \<in> set (gd_reports db)" and "x \<in> set (gd_reports db)"
  shows "is_report (gq_workspace r) (gq_id r) x \<longleftrightarrow> x = r"
  using assms by (auto simp: is_report_def reports_ok_def dest: distinct_map_eq)

text \<open>The columns of a group that no assignment changes.\<close>

definition same_group :: "group_row \<Rightarrow> group_row \<Rightarrow> bool" where
  "same_group g h \<longleftrightarrow> gr_id g = gr_id h \<and> gr_key g = gr_key h \<and> gr_workspace g = gr_workspace h
     \<and> gr_product g = gr_product h \<and> gr_merged_into g = gr_merged_into h"

lemma same_group_simps [simp]:
  "same_group g g" "same_group g (refreshed_group now a h) = same_group g h"
  "same_group (refreshed_group now a g) h = same_group g h"
  by (simp_all add: same_group_def refreshed_group_def)

text \<open>An upsert refreshes rows in place, or adds one unmerged row with a key and an id of its own.\<close>

lemma upsert_cases:
  assumes "upsert_group now fresh ws pid a gs = Inr (g', gs')"
  obtains (old) g where "find (\<lambda>g. gr_key g = ga_group_key a) gs = Some g" "g' = refreshed_group now a g"
      "gs' = update_where (\<lambda>h. gr_key h = ga_group_key a) (refreshed_group now a) gs"
    | (new) "find (\<lambda>g. gr_key g = ga_group_key a) gs = None" "g' = new_group now fresh ws pid a" "gs' = gs @ [g']"
      "fresh \<notin> gr_id ` set gs"
  using assms by (auto simp: upsert_group_def split: option.split_asm if_split_asm)

lemma refreshed_simps [simp]:
  "gr_id (refreshed_group now a g) = gr_id g" "gr_key (refreshed_group now a g) = gr_key g"
  "gr_workspace (refreshed_group now a g) = gr_workspace g" "gr_product (refreshed_group now a g) = gr_product g"
  "gr_merged_into (refreshed_group now a g) = gr_merged_into g"
  by (simp_all add: refreshed_group_def)

lemma new_simps [simp]:
  "gr_id (new_group now i ws pid a) = i" "gr_key (new_group now i ws pid a) = ga_group_key a"
  "gr_workspace (new_group now i ws pid a) = ws" "gr_product (new_group now i ws pid a) = pid"
  "gr_merged_into (new_group now i ws pid a) = None"
  by (simp_all add: new_group_def)

text \<open>A lookup by such columns finds the same group after the upsert.\<close>

lemma find_upsert:
  assumes "upsert_group now fresh ws pid a gs = Inr (g', gs')"
    and "\<And>g h. same_group g h \<Longrightarrow> q g = q h" and "find q gs = Some g"
  shows "\<exists>h. find q gs' = Some h \<and> same_group g h"
  using assms(1)
proof (cases rule: upsert_cases)
  case (old g0)
  have "find q gs' = map_option (\<lambda>r. if gr_key r = ga_group_key a then refreshed_group now a r else r) (find q gs)"
    unfolding old(3) by (rule find_update_where_pred) (rule assms(2), simp)
  with assms(3) show ?thesis by auto
next
  case new
  then have "find q gs' = find q gs" using assms(3) by (simp add: find_append)
  with assms(3) show ?thesis by simp
qed

lemma upsert_set:
  assumes up: "upsert_group now fresh ws pid a gs = Inr (g', gs')"
  shows "h \<in> set gs \<Longrightarrow> \<exists>h' \<in> set gs'. same_group h h'"
    and "h' \<in> set gs' \<Longrightarrow> (\<exists>h \<in> set gs. same_group h h') \<or> h' = g'"
    and "g' \<in> set gs'" and "gr_key g' = ga_group_key a"
    and "gr_merged_into g' \<noteq> None \<or> gr_workspace g' \<noteq> ws \<or> gr_product g' \<noteq> pid \<Longrightarrow> \<exists>h \<in> set gs. same_group h g'"
proof -
  have "(h \<in> set gs \<longrightarrow> (\<exists>h' \<in> set gs'. same_group h h')) \<and> (h' \<in> set gs' \<longrightarrow> (\<exists>h \<in> set gs. same_group h h') \<or> h' = g')
    \<and> g' \<in> set gs' \<and> gr_key g' = ga_group_key a
    \<and> (gr_merged_into g' \<noteq> None \<or> gr_workspace g' \<noteq> ws \<or> gr_product g' \<noteq> pid \<longrightarrow> (\<exists>h \<in> set gs. same_group h g'))"
    using up
  proof (cases rule: upsert_cases)
    case (old g)
    from find_SomeD [OF old(1)] have g: "g \<in> set gs" "gr_key g = ga_group_key a" by simp_all
    have "same_group g g'" by (simp add: old(2))
    moreover have "g' \<in> set gs'" using g by (auto simp: old(2,3) row_simps)
    moreover have "\<exists>h \<in> set gs. same_group h h'" if h': "h' \<in> set gs'"
    proof -
      obtain h where "h \<in> set gs" "h' = (if gr_key h = ga_group_key a then refreshed_group now a h else h)"
        using h' by (auto simp: old(3) update_where_def)
      then show ?thesis by (intro bexI [of _ h]) simp_all
    qed
    moreover have "\<exists>h' \<in> set gs'. same_group h h'" if h: "h \<in> set gs"
    proof -
      have "(if gr_key h = ga_group_key a then refreshed_group now a h else h) \<in> set gs'"
        using h by (auto simp: old(3) update_where_def)
      then show ?thesis by (rule bexI [rotated]) simp
    qed
    moreover have "gr_key g' = ga_group_key a" using g by (simp add: old(2))
    ultimately show ?thesis using g(1) by blast
  next
    case new
    have "\<exists>h' \<in> set gs'. same_group h h'" if "h \<in> set gs"
      using that by (intro bexI [of _ h]) (simp_all add: new)
    moreover have "\<exists>h \<in> set gs. same_group h h'" if "h' \<in> set gs"
      using that by (intro bexI [of _ h']) simp_all
    ultimately show ?thesis by (auto simp: new(2,3))
  qed
  then show "h \<in> set gs \<Longrightarrow> \<exists>h' \<in> set gs'. same_group h h'"
    "h' \<in> set gs' \<Longrightarrow> (\<exists>h \<in> set gs. same_group h h') \<or> h' = g'"
    "g' \<in> set gs'" "gr_key g' = ga_group_key a"
    "gr_merged_into g' \<noteq> None \<or> gr_workspace g' \<noteq> ws \<or> gr_product g' \<noteq> pid \<Longrightarrow> \<exists>h \<in> set gs. same_group h g'"
    by simp_all
qed

lemma upsert_distinct:
  assumes up: "upsert_group now fresh ws pid a gs = Inr (g', gs')"
  shows "distinct (map gr_key gs) \<Longrightarrow> distinct (map gr_key gs')" and "distinct (map gr_id gs) \<Longrightarrow> distinct (map gr_id gs')"
    and "set (map gr_id gs') \<subseteq> insert fresh (set (map gr_id gs))"
proof -
  have "(distinct (map gr_key gs) \<longrightarrow> distinct (map gr_key gs')) \<and> (distinct (map gr_id gs) \<longrightarrow> distinct (map gr_id gs'))
    \<and> set (map gr_id gs') \<subseteq> insert fresh (set (map gr_id gs))"
    using up
  proof (cases rule: upsert_cases)
    case (old g)
    have "map gr_key gs' = map gr_key gs" "map gr_id gs' = map gr_id gs"
      unfolding old(3) by (rule update_where_keys, simp)+
    then show ?thesis by auto
  next
    case new
    from new(1) have "ga_group_key a \<notin> gr_key ` set gs" by (auto simp: find_None_iff)
    with new(4) show ?thesis unfolding new(2,3) by auto
  qed
  then show "distinct (map gr_key gs) \<Longrightarrow> distinct (map gr_key gs')" "distinct (map gr_id gs) \<Longrightarrow> distinct (map gr_id gs')"
    "set (map gr_id gs') \<subseteq> insert fresh (set (map gr_id gs))" by simp_all
qed

lemma upsert_error: "upsert_group now fresh ws pid a gs = Inl e \<Longrightarrow> fresh \<in> gr_id ` set gs"
  by (auto simp: upsert_group_def split: option.split_asm if_split_asm)

lemma assign_cases:
  assumes "assign_report_group env ws rid input db = Inr (i, db')"
  obtains assigned groups where
    "upsert_group (ge_now env rid) (ge_new_id env rid) ws (gi_product_id input)
       (assign (ge_sha256 env) (ge_show_uuid env) input) (gd_groups db) = Inr (assigned, groups)"
    "i = (case merge_target assigned (gd_groups db) of None \<Rightarrow> gr_id assigned | Some h \<Rightarrow> gr_id h)"
    "rows_affected (is_report ws rid) (gd_reports db) = 1"
    "db' = db\<lparr>gd_groups := groups,
              gd_reports := update_where (is_report ws rid) (\<lambda>r. r\<lparr>gq_group := Some i\<rparr>) (gd_reports db)\<rparr>"
  using assms
  by (auto simp: assign_report_group_def Let_def result_bind_Inr set_report_group_Inr)

lemma assign_reports:
  assumes "assign_report_group env ws rid input db = Inr (i, db')"
  shows "gd_reports db' = update_where (is_report ws rid) (\<lambda>r. r\<lparr>gq_group := Some i\<rparr>) (gd_reports db)"
    and "gd_issues db' = gd_issues db" and "gd_github db' = gd_github db"
  using assms by (auto elim!: assign_cases)

lemma lineage_cases:
  assumes "assign_report_to_lineage_target ws pid rid key db = Inr (i, db')"
  obtains h where "h \<in> set (gd_groups db)" "gr_workspace h = ws" "gr_product h = pid" "gr_key h = key"
    "gr_merged_into h = None" "i = gr_id h" "rows_affected (is_report ws rid) (gd_reports db) = 1"
    "db' = db\<lparr>gd_reports := update_where (is_report ws rid) (\<lambda>r. r\<lparr>gq_group := Some i\<rparr>) (gd_reports db)\<rparr>"
  using assms
  by (auto simp: assign_report_to_lineage_target_def set_report_group_Inr split: option.split_asm dest: find_SomeD)

section \<open>The runs visit every report once\<close>

lemma filter_update_where:
  "\<forall>x \<in> set rs. p x \<longrightarrow> \<not> q x \<and> \<not> q (f x) \<Longrightarrow>
   filter q (filter n (update_where p f rs)) = filter q (filter n rs)"
  by (induction rs) (auto simp: update_where_def)

lemma backfill_row_cases:
  assumes "backfill_row env r s db = Inr (s', db')"
  obtains "db' = db" | loc findings i where "located r = Some loc" "gq_findings r = Some findings"
    "assign_report_group env (gq_workspace r) (gq_id r) (input_of r loc findings) db = Inr (i, db')"
  using assms by (auto simp: backfill_row_def result_bind_Inr split: option.split_asm)

lemma reports_ok_update:
  "reports_ok db \<Longrightarrow> gd_reports db' = update_where p (\<lambda>r. r\<lparr>gq_group := i\<rparr>) (gd_reports db) \<Longrightarrow> reports_ok db'"
  by (simp add: reports_ok_def update_where_keys)

interpretation backfill: keyset_walk ungrouped report_key "backfill_row env" reports_ok for env
proof
  fix db :: issue_db and r s s' db'
  assume ok: "reports_ok db" and r: "r \<in> set (ungrouped db)" and step: "backfill_row env r s db = Inr (s', db')"
  show "reports_ok db'"
    using step by (cases rule: backfill_row_cases) (use ok in \<open>auto dest: assign_reports(1) intro: reports_ok_update\<close>)
  show "filter (\<lambda>x. report_key r < report_key x) (ungrouped db') = filter (\<lambda>x. report_key r < report_key x) (ungrouped db)"
    using step
  proof (cases rule: backfill_row_cases)
    case (2 loc findings i)
    have mem: "r \<in> set (gd_reports db)" using r by (simp add: ungrouped_def)
    show ?thesis
      unfolding ungrouped_def assign_reports(1) [OF 2(3)]
      by (rule filter_update_where) (auto simp: is_report_unique [OF ok mem] report_key_def)
  qed simp
next
  fix db :: issue_db
  assume "reports_ok db"
  then have "distinct (map gq_id (ungrouped db))" by (simp add: reports_ok_def ungrouped_def distinct_map_filter)
  then show "distinct (map report_key (ungrouped db))"
    by (auto simp: distinct_map report_key_def inj_on_def)
qed

section \<open>The backfill groups every report it can read\<close>

definition groupable :: "group_report \<Rightarrow> bool" where
  "groupable r \<longleftrightarrow> located r \<noteq> None \<and> gq_findings r \<noteq> None"

text \<open>The UUIDs drawn for new groups are fresh.\<close>

definition fresh_ids :: "group_env \<Rightarrow> group_report list \<Rightarrow> issue_db \<Rightarrow> bool" where
  "fresh_ids env rs db \<longleftrightarrow> inj_on (ge_new_id env) (gq_id ` set rs)
     \<and> ge_new_id env ` gq_id ` set rs \<inter> gr_id ` set (gd_groups db) = {}"

lemma backfill_row_skips: "\<not> groupable r \<Longrightarrow>
  \<exists>s'. backfill_row env r s db = Inr (s', db) \<and> bs_grouped s' = bs_grouped s \<and> bs_skipped s' = bs_skipped s + 1"
  by (auto simp: backfill_row_def groupable_def split: option.split)

lemma backfill_row_groups:
  assumes "reports_ok db" and "r \<in> set (gd_reports db)" and "groupable r"
    and fresh: "ge_new_id env (gq_id r) \<notin> gr_id ` set (gd_groups db)"
  shows "\<exists>s' db' i. backfill_row env r s db = Inr (s', db') \<and> bs_grouped s' = bs_grouped s + 1 \<and> bs_skipped s' = bs_skipped s
    \<and> gd_reports db' = update_where (is_report (gq_workspace r) (gq_id r)) (\<lambda>r. r\<lparr>gq_group := Some i\<rparr>) (gd_reports db)
    \<and> gr_id ` set (gd_groups db') \<subseteq> insert (ge_new_id env (gq_id r)) (gr_id ` set (gd_groups db))
    \<and> gd_issues db' = gd_issues db"
proof -
  obtain loc findings where l: "located r = Some loc" "gq_findings r = Some findings"
    using assms(3) by (auto simp: groupable_def)
  define up where "up = upsert_group (ge_now env (gq_id r)) (ge_new_id env (gq_id r)) (gq_workspace r)
      (gi_product_id (input_of r loc findings)) (assign (ge_sha256 env) (ge_show_uuid env) (input_of r loc findings)) (gd_groups db)"
  have "\<nexists>e. up = Inl e" using fresh upsert_error by (auto simp: up_def)
  then obtain g gs where u: "up = Inr (g, gs)" by (metis obj_sumE surj_pair)
  define i where "i = (case merge_target g (gd_groups db) of None \<Rightarrow> gr_id g | Some h \<Rightarrow> gr_id h)"
  have "assign_report_group env (gq_workspace r) (gq_id r) (input_of r loc findings) db
      = set_report_group (gq_workspace r) (gq_id r) i (db\<lparr>gd_groups := gs\<rparr>)"
    using u by (simp add: assign_report_group_def Let_def up_def i_def)
  also have "\<dots> = Inr (i, db\<lparr>gd_groups := gs, gd_reports :=
      update_where (is_report (gq_workspace r) (gq_id r)) (\<lambda>r. r\<lparr>gq_group := Some i\<rparr>) (gd_reports db)\<rparr>)"
    using one_report [OF assms(1,2)] by (simp add: set_report_group_Inr)
  finally have "backfill_row env r s db = Inr (s\<lparr>bs_grouped := bs_grouped s + 1\<rparr>, db\<lparr>gd_groups := gs, gd_reports :=
      update_where (is_report (gq_workspace r) (gq_id r)) (\<lambda>r. r\<lparr>gq_group := Some i\<rparr>) (gd_reports db)\<rparr>)"
    by (simp add: backfill_row_def l)
  moreover have "gr_id ` set gs \<subseteq> insert (ge_new_id env (gq_id r)) (gr_id ` set (gd_groups db))"
    using upsert_distinct(3) [OF u [unfolded up_def]] by simp
  ultimately show ?thesis
    by (intro exI [of _ "s\<lparr>bs_grouped := bs_grouped s + 1\<rparr>"] exI [of _ "db\<lparr>gd_groups := gs, gd_reports :=
      update_where (is_report (gq_workspace r) (gq_id r)) (\<lambda>r. r\<lparr>gq_group := Some i\<rparr>) (gd_reports db)\<rparr>"] exI [of _ i]) simp
qed

text \<open>Grouping one report takes it, and no other, out of the reports without a group.\<close>

lemma ungrouped_update:
  assumes "reports_ok db" and "r \<in> set (gd_reports db)"
    and "gd_reports db' = update_where (is_report (gq_workspace r) (gq_id r)) (\<lambda>r. r\<lparr>gq_group := Some i\<rparr>) (gd_reports db)"
  shows "ungrouped db' = filter (\<lambda>x. x \<noteq> r) (ungrouped db)"
proof -
  have "filter (\<lambda>x. gq_group x = None) (update_where p (\<lambda>r. r\<lparr>gq_group := Some i\<rparr>) rs)
      = filter (\<lambda>x. x \<noteq> r) (filter (\<lambda>x. gq_group x = None) rs)" if "\<forall>x \<in> set rs. p x = (x = r)" for p rs
    using that by (induction rs) (auto simp: update_where_def)
  with is_report_unique [OF assms(1,2)] assms(3) show ?thesis by (simp add: ungrouped_def)
qed

lemma backfill_rows:
  assumes "reports_ok db" and "set rs \<subseteq> set (gd_reports db)" and "distinct (map gq_id rs)" and "fresh_ids env rs db"
  shows "\<exists>s' db'. run_rows (backfill_row env) rs s db = Inr (s', db')
    \<and> bs_grouped s' = bs_grouped s + length (filter groupable rs)
    \<and> bs_skipped s' = bs_skipped s + length (filter (\<lambda>r. \<not> groupable r) rs)
    \<and> ungrouped db' = filter (\<lambda>x. \<not> (x \<in> set rs \<and> groupable x)) (ungrouped db) \<and> gd_issues db' = gd_issues db"
  using assms
proof (induction rs arbitrary: s db)
  case Nil
  then show ?case by simp
next
  case (Cons r rs)
  show ?case
  proof (cases "groupable r")
    case False
    obtain s1 where s1: "backfill_row env r s db = Inr (s1, db)" "bs_grouped s1 = bs_grouped s" "bs_skipped s1 = bs_skipped s + 1"
      using backfill_row_skips [OF False] by blast
    have "fresh_ids env rs db" using Cons.prems(4) by (auto simp: fresh_ids_def)
    then obtain s' db' where "run_rows (backfill_row env) rs s1 db = Inr (s', db')"
      "bs_grouped s' = bs_grouped s1 + length (filter groupable rs)"
      "bs_skipped s' = bs_skipped s1 + length (filter (\<lambda>r. \<not> groupable r) rs)"
      "ungrouped db' = filter (\<lambda>x. \<not> (x \<in> set rs \<and> groupable x)) (ungrouped db)" "gd_issues db' = gd_issues db"
      using Cons.IH [of db s1] Cons.prems by auto
    moreover have "(\<lambda>x. \<not> (x \<in> set (r # rs) \<and> groupable x)) = (\<lambda>x. \<not> (x \<in> set rs \<and> groupable x))"
      using False by auto
    ultimately show ?thesis using s1 False by simp
  next
    case True
    have mem: "r \<in> set (gd_reports db)" using Cons.prems(2) by simp
    have "ge_new_id env (gq_id r) \<notin> gr_id ` set (gd_groups db)" using Cons.prems(4) by (auto simp: fresh_ids_def)
    from backfill_row_groups [OF Cons.prems(1) mem True this, of s]
    obtain s1 db1 i where s1: "backfill_row env r s db = Inr (s1, db1)" "bs_grouped s1 = bs_grouped s + 1" "bs_skipped s1 = bs_skipped s"
      and rep: "gd_reports db1 = update_where (is_report (gq_workspace r) (gq_id r)) (\<lambda>r. r\<lparr>gq_group := Some i\<rparr>) (gd_reports db)"
      and ids: "gr_id ` set (gd_groups db1) \<subseteq> insert (ge_new_id env (gq_id r)) (gr_id ` set (gd_groups db))"
      and iss: "gd_issues db1 = gd_issues db" by blast
    have ok: "reports_ok db1" using Cons.prems(1) rep by (rule reports_ok_update)
    have sub: "set rs \<subseteq> set (gd_reports db1)"
    proof
      fix x assume x: "x \<in> set rs"
      then have "gq_id x \<in> gq_id ` set rs" by simp
      then have "gq_id x \<noteq> gq_id r" using Cons.prems(3) by auto
      with x Cons.prems(2) show "x \<in> set (gd_reports db1)" by (auto simp: rep row_simps is_report_def)
    qed
    have new: "ge_new_id env (gq_id x) \<noteq> ge_new_id env (gq_id r)" if "x \<in> set rs" for x
    proof
      assume "ge_new_id env (gq_id x) = ge_new_id env (gq_id r)"
      moreover have "inj_on (ge_new_id env) (gq_id ` set (r # rs))" using Cons.prems(4) by (simp add: fresh_ids_def)
      ultimately have "gq_id x = gq_id r" using that by (elim inj_onD) simp_all
      moreover have "gq_id x \<in> gq_id ` set rs" using that by simp
      ultimately show False using Cons.prems(3) by simp
    qed
    have "fresh_ids env rs db1"
      using Cons.prems(4) ids new by (fastforce simp: fresh_ids_def)
    then obtain s' db' where "run_rows (backfill_row env) rs s1 db1 = Inr (s', db')"
      "bs_grouped s' = bs_grouped s1 + length (filter groupable rs)"
      "bs_skipped s' = bs_skipped s1 + length (filter (\<lambda>r. \<not> groupable r) rs)"
      "ungrouped db' = filter (\<lambda>x. \<not> (x \<in> set rs \<and> groupable x)) (ungrouped db1)" "gd_issues db' = gd_issues db1"
      using Cons.IH [of db1 s1] ok sub Cons.prems(3) by auto
    moreover have "(\<lambda>x. \<not> (x \<in> set (r # rs) \<and> groupable x)) = (\<lambda>x. x \<noteq> r \<and> (x \<in> set rs \<longrightarrow> \<not> groupable x))"
      using True by auto
    ultimately show ?thesis using s1 True iss ungrouped_update [OF Cons.prems(1) mem rep] by simp
  qed
qed

definition ungrouped_report :: group_report where
  "ungrouped_report = \<lparr>gq_id = 1, gq_workspace = 1, gq_group = None, gq_product = Some 3, gq_operation = Some ''op'',
     gq_surface = Some ''s'', gq_status_code = None, gq_findings = Some [], gq_created_at = 1, gq_occurred_at = 1\<rparr>"

definition sample_group_env :: group_env where
  "sample_group_env = \<lparr>ge_sha256 = (\<lambda>s. s), ge_show_uuid = (\<lambda>u. replicate u (CHR ''u'')), ge_new_id = (\<lambda>u. u + 100),
     ge_now = (\<lambda>_. 9)\<rparr>"

definition sample_reports_db :: issue_db where
  "sample_reports_db = \<lparr>gd_groups = [], gd_issues = [],
     gd_reports = [ungrouped_report, ungrouped_report\<lparr>gq_id := 2, gq_findings := None\<rparr>], gd_github = sample_github\<rparr>"

text \<open>
  C29.  A backfill without a batch limit ends: it has read exactly the reports that had no group, has
  grouped those whose product, operation, surface and findings can be read, has counted the others as
  skipped, and afterwards only these are still without a group, in their old order; no issue changes.
\<close>

theorem backfill_groups_every_readable_report:
  assumes "distinct (map gq_id (gd_reports db))" and "fresh_ids env (gd_reports db) db"
  shows "\<exists>s db'. backfill_report_groups env None db = Some (Inr (True, length (ungrouped db), s), db')
    \<and> bs_grouped s = length (filter groupable (ungrouped db))
    \<and> bs_skipped s = length (filter (\<lambda>r. \<not> groupable r) (ungrouped db))
    \<and> ungrouped db' = filter (\<lambda>r. \<not> groupable r) (ungrouped db)
    \<and> gd_issues db' = gd_issues db"
proof -
  define rs where "rs = backfill.rest None db"
  have ok: "reports_ok db" using assms(1) by (simp add: reports_ok_def)
  have rs: "set rs = set (ungrouped db)" by (simp add: rs_def backfill.set_rest after_def)
  have perm: "rs = sort_key report_key (ungrouped db)" by (simp add: rs_def backfill.rest_def after_def)
  have sub: "set rs \<subseteq> set (gd_reports db)" by (auto simp: rs ungrouped_def)
  have "distinct rs" "inj_on gq_id (set rs)"
    using assms(1) sub by (auto simp: perm distinct_map ungrouped_def inj_on_def)
  then have dist: "distinct (map gq_id rs)" by (simp add: distinct_map)
  have fresh: "fresh_ids env rs db"
    using assms(2) image_mono [OF sub, of gq_id] by (auto simp: fresh_ids_def intro: inj_on_subset)
  have len: "length (filter p rs) = length (filter p (ungrouped db))" for p
    by (simp add: perm backfill.filter_sort_key)
  obtain s' db' where run: "run_rows (backfill_row env) rs no_backfill db = Inr (s', db')"
    and out: "bs_grouped s' = length (filter groupable rs)" "bs_skipped s' = length (filter (\<lambda>r. \<not> groupable r) rs)"
      "ungrouped db' = filter (\<lambda>x. \<not> (x \<in> set rs \<and> groupable x)) (ungrouped db)" "gd_issues db' = gd_issues db"
    using backfill_rows [OF ok sub dist fresh, of no_backfill] by (auto simp: no_backfill_def)
  have "backfill_report_groups env None db = Some (Inr (True, length (ungrouped db), s'), db')"
    using backfill.walk_out [OF ok, where cursor = None and env = env and acc = no_backfill and n = 0 and scanned = 0] run
    by (simp add: rs_def [symmetric] backfill_report_groups_def perm)
  moreover have "ungrouped db' = filter (\<lambda>r. \<not> groupable r) (ungrouped db)"
    unfolding out(3) rs by (rule filter_cong) auto
  ultimately show ?thesis using out by (simp add: len)
qed

theorem backfill_groups_every_readable_report_witness:
  "\<exists>s db'. backfill_report_groups sample_group_env None sample_reports_db = Some (Inr (True, 2, s), db')
     \<and> bs_grouped s = 1 \<and> bs_skipped s = 1 \<and> length (ungrouped db') = 1"
proof -
  have "distinct (map gq_id (gd_reports sample_reports_db))" "fresh_ids sample_group_env (gd_reports sample_reports_db) sample_reports_db"
    by (simp_all add: sample_reports_db_def ungrouped_report_def fresh_ids_def sample_group_env_def)
  from backfill_groups_every_readable_report [OF this]
  show ?thesis by (fastforce simp: sample_reports_db_def ungrouped_def ungrouped_report_def groupable_def located_def)
qed

end
