(* ===== verification/GroupLineage.thy ===== *)
theory GroupLineage
  imports ReportGroupFacts
begin

text \<open>
  The lineage of merged groups: it stays one hop, reports stay in final groups, and a merge moves the
  reports and the one issue of its source to its target.
\<close>

section \<open>The invariant\<close>

text \<open>
  \<open>owner\<close> gives the workspace and product a group key stands for: the fingerprint includes the
  product, so two products share a key only when their digests collide.
\<close>

definition lineage_ok :: "issue_db \<Rightarrow> bool" where
  "lineage_ok db \<longleftrightarrow> (\<forall>g \<in> set (gd_groups db). \<forall>k. gr_merged_into g = Some k \<longrightarrow>
     (\<exists>h \<in> set (gd_groups db). gr_key h = k \<and> gr_workspace h = gr_workspace g
        \<and> gr_product h = gr_product g \<and> gr_merged_into h = None))"

definition homes_ok :: "issue_db \<Rightarrow> bool" where
  "homes_ok db \<longleftrightarrow> (\<forall>r \<in> set (gd_reports db). \<forall>i. gq_group r = Some i \<longrightarrow>
     (\<exists>g \<in> set (gd_groups db). gr_id g = i \<and> gr_workspace g = gq_workspace r \<and> gr_merged_into g = None))"

definition owners_ok :: "(string \<Rightarrow> uuid \<times> uuid) \<Rightarrow> issue_db \<Rightarrow> bool" where
  "owners_ok owner db \<longleftrightarrow> (\<forall>g \<in> set (gd_groups db). owner (gr_key g) = (gr_workspace g, gr_product g))"

definition groups_ok :: "(string \<Rightarrow> uuid \<times> uuid) \<Rightarrow> issue_db \<Rightarrow> bool" where
  "groups_ok owner db \<longleftrightarrow> distinct (map gr_key (gd_groups db)) \<and> distinct (map gr_id (gd_groups db))
     \<and> lineage_ok db \<and> homes_ok db \<and> owners_ok owner db"

definition key_of :: "group_env \<Rightarrow> group_input \<Rightarrow> string" where
  "key_of env input = ga_group_key (assign (ge_sha256 env) (ge_show_uuid env) input)"

section \<open>An assignment\<close>

lemma merge_target_iff:
  assumes "lineage_ok db" and h: "h \<in> set (gd_groups db)" "same_group h g" and "gr_merged_into g \<noteq> None"
  shows "merge_target g (gd_groups db) \<noteq> None"
proof -
  obtain k where k: "gr_merged_into g = Some k" using assms(4) by blast
  then have "gr_merged_into h = Some k" using h(2) by (simp add: same_group_def)
  then obtain t where "t \<in> set (gd_groups db)" "gr_key t = k" "gr_workspace t = gr_workspace h"
    "gr_product t = gr_product h" "gr_merged_into t = None"
    using assms(1) h(1) unfolding lineage_ok_def by blast
  with k h(2) show ?thesis by (auto simp: merge_target_def find_None_iff same_group_def)
qed

lemma merge_target_Some:
  "merge_target g gs = Some h \<Longrightarrow> h \<in> set gs \<and> gr_merged_into h = None \<and> gr_workspace h = gr_workspace g
     \<and> gr_product h = gr_product g \<and> gr_merged_into g = Some (gr_key h)"
  by (auto simp: merge_target_def bind_eq_Some_conv dest: find_SomeD)

text \<open>An upsert keeps the lineage and the owners, and returns a row whose lineage resolves.\<close>

lemma upsert_lineage:
  assumes up: "upsert_group now fresh ws pid a (gd_groups db) = Inr (g, gs)"
    and ok: "groups_ok owner db" and own: "owner (ga_group_key a) = (ws, pid)"
  shows "lineage_ok (db\<lparr>gd_groups := gs\<rparr>)" and "homes_ok (db\<lparr>gd_groups := gs\<rparr>)"
    and "owners_ok owner (db\<lparr>gd_groups := gs\<rparr>)" and "gr_workspace g = ws" and "gr_product g = pid"
    and "merge_target g (gd_groups db) = None \<Longrightarrow> gr_merged_into g = None"
proof -
  note set_up = upsert_set [OF up]
  have old: "\<exists>h \<in> set (gd_groups db). same_group h x" if "x \<in> set gs" "gr_merged_into x \<noteq> None" for x
    using set_up(2) [OF that(1)] set_up(5) that(2) by blast
  show "lineage_ok (db\<lparr>gd_groups := gs\<rparr>)"
    unfolding lineage_ok_def
  proof (intro ballI allI impI)
    fix x k assume x: "x \<in> set (gd_groups (db\<lparr>gd_groups := gs\<rparr>))" "gr_merged_into x = Some k"
    then obtain y where y: "y \<in> set (gd_groups db)" "same_group y x" using old by auto
    then obtain h where h: "h \<in> set (gd_groups db)" "gr_key h = k" "gr_workspace h = gr_workspace x"
      "gr_product h = gr_product x" "gr_merged_into h = None"
      using ok x(2) by (fastforce simp: groups_ok_def lineage_ok_def same_group_def)
    with set_up(1) [OF h(1)] show "\<exists>h \<in> set (gd_groups (db\<lparr>gd_groups := gs\<rparr>)). gr_key h = k \<and>
        gr_workspace h = gr_workspace x \<and> gr_product h = gr_product x \<and> gr_merged_into h = None"
      by (auto simp: same_group_def)
  qed
  show "homes_ok (db\<lparr>gd_groups := gs\<rparr>)"
    unfolding homes_ok_def
  proof (intro ballI allI impI)
    fix r i assume r: "r \<in> set (gd_reports (db\<lparr>gd_groups := gs\<rparr>))" "gq_group r = Some i"
    then obtain h where h: "h \<in> set (gd_groups db)" "gr_id h = i" "gr_workspace h = gq_workspace r" "gr_merged_into h = None"
      using ok by (auto simp: groups_ok_def homes_ok_def)
    with set_up(1) [OF h(1)] show "\<exists>g \<in> set (gd_groups (db\<lparr>gd_groups := gs\<rparr>)). gr_id g = i \<and>
        gr_workspace g = gq_workspace r \<and> gr_merged_into g = None"
      by (auto simp: same_group_def)
  qed
  have owns: "owner (gr_key x) = (gr_workspace x, gr_product x)" if x: "x \<in> set gs" for x
  proof (cases "\<exists>h \<in> set (gd_groups db). same_group h x")
    case True
    with ok show ?thesis by (fastforce simp: groups_ok_def owners_ok_def same_group_def)
  next
    case False
    with set_up(2) [OF x] have "x = g" by blast
    with False set_up(4,5) own show ?thesis by auto
  qed
  then show "owners_ok owner (db\<lparr>gd_groups := gs\<rparr>)" by (simp add: owners_ok_def)
  from owns [OF set_up(3)] set_up(4) own show "gr_workspace g = ws" "gr_product g = pid" by auto
  show "gr_merged_into g = None" if "merge_target g (gd_groups db) = None"
    using that old [OF set_up(3)] merge_target_iff ok by (metis groups_ok_def)
qed

text \<open>The group a report is put in: unmerged, in the report's workspace, and in the new table.\<close>

lemma assigned_home:
  assumes up: "upsert_group now fresh ws pid a (gd_groups db) = Inr (g, gs)"
    and ok: "groups_ok owner db" and own: "owner (ga_group_key a) = (ws, pid)"
    and i: "i = (case merge_target g (gd_groups db) of None \<Rightarrow> gr_id g | Some h \<Rightarrow> gr_id h)"
  shows "\<exists>h \<in> set gs. gr_id h = i \<and> gr_workspace h = ws \<and> gr_product h = pid \<and> gr_merged_into h = None"
proof (cases "merge_target g (gd_groups db)")
  case None
  with upsert_lineage(4,5,6) [OF up ok own] upsert_set(3) [OF up] i show ?thesis by auto
next
  case (Some h)
  from merge_target_Some [OF Some] upsert_lineage(4,5) [OF up ok own]
  have h: "h \<in> set (gd_groups db)" "gr_merged_into h = None" "gr_workspace h = ws" "gr_product h = pid" by auto
  with upsert_set(1) [OF up h(1)] Some i show ?thesis by (auto simp: same_group_def)
qed

lemma homes_update:
  assumes "homes_ok db" and "\<exists>g \<in> set (gd_groups db). gr_id g = i \<and> gr_workspace g = ws \<and> gr_merged_into g = None"
    and "\<And>r. p r \<Longrightarrow> gq_workspace r = ws"
  shows "homes_ok (db\<lparr>gd_reports := update_where p (\<lambda>r. r\<lparr>gq_group := Some i\<rparr>) (gd_reports db)\<rparr>)"
  using assms by (auto simp: homes_ok_def row_simps)

lemma assign_keeps_groups:
  assumes run: "assign_report_group env ws rid input db = Inr (i, db')"
    and ok: "groups_ok owner db" and own: "owner (key_of env input) = (ws, gi_product_id input)"
  shows "groups_ok owner db'"
  using run
proof (rule assign_cases)
  fix g gs
  assume up: "upsert_group (ge_now env rid) (ge_new_id env rid) ws (gi_product_id input)
      (assign (ge_sha256 env) (ge_show_uuid env) input) (gd_groups db) = Inr (g, gs)"
    and i: "i = (case merge_target g (gd_groups db) of None \<Rightarrow> gr_id g | Some h \<Rightarrow> gr_id h)"
    and db': "db' = db\<lparr>gd_groups := gs,
      gd_reports := update_where (is_report ws rid) (\<lambda>r. r\<lparr>gq_group := Some i\<rparr>) (gd_reports db)\<rparr>"
  note own = own [unfolded key_of_def]
  note keeps = upsert_lineage(1,2,3) [OF up ok own]
  have "homes_ok (db\<lparr>gd_groups := gs,
      gd_reports := update_where (is_report ws rid) (\<lambda>r. r\<lparr>gq_group := Some i\<rparr>) (gd_reports db)\<rparr>)"
    using homes_update [OF keeps(2), of i ws "is_report ws rid"] assigned_home [OF up ok own i]
    by (auto simp: is_report_def)
  then show ?thesis
    using keeps(1,3) upsert_distinct(1,2) [OF up] ok
    by (simp add: groups_ok_def db' lineage_ok_def owners_ok_def)
qed

lemma lineage_target_keeps_groups:
  assumes run: "assign_report_to_lineage_target ws pid rid key db = Inr (i, db')" and ok: "groups_ok owner db"
  shows "groups_ok owner db'"
  using run
proof (rule lineage_cases)
  fix h
  assume h: "h \<in> set (gd_groups db)" "gr_workspace h = ws" "gr_merged_into h = None" "i = gr_id h"
    and db': "db' = db\<lparr>gd_reports := update_where (is_report ws rid) (\<lambda>r. r\<lparr>gq_group := Some i\<rparr>) (gd_reports db)\<rparr>"
  have "homes_ok db'"
    unfolding db' using ok h by (intro homes_update [where ws = ws]) (auto simp: groups_ok_def is_report_def)
  with ok show ?thesis by (simp add: groups_ok_def db' lineage_ok_def owners_ok_def)
qed

section \<open>A merge\<close>

lemma merge_Inr:
  assumes "merge_report_groups now ws skey tkey actor db = Inr ((n, k), db')"
  obtains source target where "skey \<noteq> tkey" "source \<in> set (gd_groups db)" "target \<in> set (gd_groups db)"
    "gr_key source = skey" "gr_key target = tkey" "gr_workspace source = ws" "gr_workspace target = ws"
    "merge_refusal ws source target db = None" "k = tkey"
    "n = int (rows_affected (\<lambda>r. gq_workspace r = ws \<and> gq_group r = Some (gr_id source)) (gd_reports db))"
    "keyed_group ws skey db = Some source" "keyed_group ws tkey db = Some target"
    "issues_ok (merged_issues ws source target db)"
    "db' = db\<lparr>gd_issues := merged_issues ws source target db, gd_reports := merged_reports ws source target db,
                gd_groups := merged_groups now ws actor source target db\<rparr>"
proof -
  obtain source target where st: "skey \<noteq> tkey" "keyed_group ws skey db = Some source" "keyed_group ws tkey db = Some target"
    "merge_refusal ws source target db = None" "merge_writes now ws actor source target db = Inr db'"
    "k = tkey" "n = int (rows_affected (\<lambda>r. gq_workspace r = ws \<and> gq_group r = Some (gr_id source)) (gd_reports db))"
    using assms by (auto simp: merge_report_groups_def result_bind_Inr split: option.split_asm if_split_asm)
  from keyed_group_key [OF st(2)] keyed_group_key [OF st(3)] have
    "source \<in> set (gd_groups db)" "target \<in> set (gd_groups db)" "gr_key source = skey" "gr_key target = tkey"
    "gr_workspace source = ws" "gr_workspace target = ws" by simp_all
  note that [OF st(1) this st(4,6,7,2,3)]
  with st(5) show ?thesis unfolding merge_writes_Inr by blast
qed

lemma merge_keeps_groups:
  assumes run: "merge_report_groups now ws skey tkey actor db = Inr ((n, k), db')" and ok: "groups_ok owner db"
  shows "groups_ok owner db'"
  using run
proof (rule merge_Inr)
  fix source target
  assume st: "skey \<noteq> tkey" "source \<in> set (gd_groups db)" "target \<in> set (gd_groups db)"
    "gr_key source = skey" "gr_key target = tkey" "gr_workspace source = ws" "gr_workspace target = ws"
    and ref: "merge_refusal ws source target db = None"
    and db': "db' = db\<lparr>gd_issues := merged_issues ws source target db, gd_reports := merged_reports ws source target db,
                gd_groups := merged_groups now ws actor source target db\<rparr>"
  note refused = merge_refusal_None [OF ref]
  define f where "f g = (if g = source then g\<lparr>gr_merged_into := Some tkey, gr_merged_at := Some now,
      gr_merged_by := Some actor, gr_updated_at := now\<rparr> else g)" for g :: group_row
  have only: "gr_workspace g = ws \<and> gr_id g = gr_id source \<and> gr_merged_into g = None \<longleftrightarrow> g = source"
    if "g \<in> set (gd_groups db)" for g
    using that st refused(2) ok by (auto simp: groups_ok_def dest: distinct_map_eq)
  have gs: "gd_groups db' = map f (gd_groups db)"
    using only st(5) by (auto simp: db' merged_groups_def update_where_def f_def)
  have f: "gr_id (f g) = gr_id g" "gr_key (f g) = gr_key g" "gr_workspace (f g) = gr_workspace g" "gr_product (f g) = gr_product g" for g
    by (simp_all add: f_def)
  have final: "f g = g" if "gr_merged_into g = None" "g \<noteq> source" for g using that by (simp add: f_def)
  have ts: "target \<noteq> source" using st by auto
  have "distinct (map gr_key (gd_groups db'))" "distinct (map gr_id (gd_groups db'))"
    using ok by (simp_all add: groups_ok_def gs comp_def f)
  moreover have "lineage_ok db'"
    unfolding lineage_ok_def
  proof (intro ballI allI impI)
    fix x j assume x: "x \<in> set (gd_groups db')" "gr_merged_into x = Some j"
    then obtain g where g: "g \<in> set (gd_groups db)" "x = f g" by (auto simp: gs)
    have "\<exists>h \<in> set (gd_groups db). gr_key h = j \<and> gr_workspace h = gr_workspace g \<and> gr_product h = gr_product g
        \<and> gr_merged_into h = None \<and> h \<noteq> source"
    proof (cases "g = source")
      case True
      with x g st ref refused ts show ?thesis by (intro bexI [of _ target]) (auto simp: f_def)
    next
      case False
      then have "gr_merged_into g = Some j" using x g by (simp add: f_def)
      moreover from this obtain h where "h \<in> set (gd_groups db)" "gr_key h = j" "gr_workspace h = gr_workspace g"
        "gr_product h = gr_product g" "gr_merged_into h = None"
        using ok g(1) unfolding groups_ok_def lineage_ok_def by blast
      ultimately show ?thesis using refused(4) g(1) st(6) by (intro bexI [of _ h]) auto
    qed
    then obtain h where h: "h \<in> set (gd_groups db)" "gr_key h = j" "gr_workspace h = gr_workspace g"
      "gr_product h = gr_product g" "gr_merged_into h = None" "h \<noteq> source" by blast
    then have "h \<in> set (gd_groups db')" using final by (auto simp: gs intro: rev_image_eqI)
    with h g show "\<exists>h \<in> set (gd_groups db'). gr_key h = j \<and> gr_workspace h = gr_workspace x \<and>
        gr_product h = gr_product x \<and> gr_merged_into h = None" by (auto simp: f)
  qed
  moreover have "homes_ok db'"
    unfolding homes_ok_def
  proof (intro ballI allI impI)
    fix r' i assume r': "r' \<in> set (gd_reports db')" "gq_group r' = Some i"
    obtain r where r: "r \<in> set (gd_reports db)" "r' = (if gq_workspace r = ws \<and> gq_group r = Some (gr_id source)
        then r\<lparr>gq_group := Some (gr_id target)\<rparr> else r)"
      using r'(1) by (auto simp: db' merged_reports_def update_where_def)
    have "\<exists>g \<in> set (gd_groups db). gr_id g = i \<and> gr_workspace g = gq_workspace r' \<and> gr_merged_into g = None \<and> g \<noteq> source"
    proof (cases "gq_workspace r = ws \<and> gq_group r = Some (gr_id source)")
      case True
      with r r' st refused(3) ts show ?thesis by (intro bexI [of _ target]) auto
    next
      case False
      then have "r' = r" using r(2) by (simp only: if_False)
      then obtain g where g: "g \<in> set (gd_groups db)" "gr_id g = i" "gr_workspace g = gq_workspace r" "gr_merged_into g = None"
        using ok r r'(2) unfolding groups_ok_def homes_ok_def by blast
      moreover have "g \<noteq> source" using False g \<open>r' = r\<close> r'(2) st(6) by auto
      ultimately show ?thesis using \<open>r' = r\<close> by blast
    qed
    then obtain g where g: "g \<in> set (gd_groups db)" "gr_id g = i" "gr_workspace g = gq_workspace r'"
      "gr_merged_into g = None" "g \<noteq> source" by blast
    then have "g \<in> set (gd_groups db')" using final by (auto simp: gs intro: rev_image_eqI)
    with g show "\<exists>g \<in> set (gd_groups db'). gr_id g = i \<and> gr_workspace g = gq_workspace r' \<and> gr_merged_into g = None" by blast
  qed
  moreover have "owners_ok owner db'" using ok by (auto simp: groups_ok_def owners_ok_def gs f)
  ultimately show ?thesis by (simp add: groups_ok_def)
qed

section \<open>Any order of events\<close>

inductive group_step :: "(string \<Rightarrow> uuid \<times> uuid) \<Rightarrow> issue_db \<Rightarrow> issue_db \<Rightarrow> bool" for owner where
  arrives: "gq_group r = None \<Longrightarrow> group_step owner db (db\<lparr>gd_reports := gd_reports db @ [r]\<rparr>)"
| assigned: "assign_report_group env ws rid input db = Inr (i, db')
    \<Longrightarrow> owner (key_of env input) = (ws, gi_product_id input) \<Longrightarrow> group_step owner db db'"
| redirected: "assign_report_to_lineage_target ws pid rid key db = Inr (i, db') \<Longrightarrow> group_step owner db db'"
| merged: "merge_report_groups now ws skey tkey actor db = Inr ((n, k), db') \<Longrightarrow> group_step owner db db'"
| elsewhere: "gd_groups db' = gd_groups db \<Longrightarrow> gd_reports db' = gd_reports db \<Longrightarrow> group_step owner db db'"

lemma group_step_keeps: "group_step owner db db' \<Longrightarrow> groups_ok owner db \<Longrightarrow> groups_ok owner db'"
proof (induction rule: group_step.induct)
  case (arrives r db)
  then show ?case by (auto simp: groups_ok_def lineage_ok_def homes_ok_def owners_ok_def)
next
  case (elsewhere db' db)
  then show ?case by (simp add: groups_ok_def lineage_ok_def homes_ok_def owners_ok_def)
qed (blast intro: assign_keeps_groups lineage_target_keeps_groups merge_keeps_groups)+

definition lineage_group :: "uuid \<Rightarrow> string \<Rightarrow> group_row" where
  "lineage_group i key = \<lparr>gr_id = i, gr_workspace = 1, gr_product = 3, gr_key = key, gr_grouper_name = grouper_name,
     gr_grouper_version = 1, gr_explanation = [], gr_updated_at = 0, gr_merged_into = None, gr_merged_at = None,
     gr_merged_by = None\<rparr>"

definition lineage_issue :: issue_row where
  "lineage_issue = \<lparr>is_key = ''a'', is_workspace = 1, is_installation_id = 9, is_repo_full_name = ''o/r'', is_number = Some 4,
     is_url = Some ''url'', is_state = Some ''open'', is_filing_state = Filed, is_claimed_at = 3, is_created_by = ''u'',
     is_last_commented = 2, is_refreshed_at = None\<rparr>"

definition lineage_db :: issue_db where
  "lineage_db = \<lparr>gd_groups = [lineage_group 10 ''a'', lineage_group 11 ''b''], gd_issues = [lineage_issue],
     gd_reports = [ungrouped_report\<lparr>gq_group := Some 10\<rparr>], gd_github = sample_github\<rparr>"

definition lineage_merged_db :: issue_db where
  "lineage_merged_db = \<lparr>gd_groups = [(lineage_group 10 ''a'')\<lparr>gr_merged_into := Some ''b'', gr_merged_at := Some 7,
       gr_merged_by := Some ''u'', gr_updated_at := 7\<rparr>, lineage_group 11 ''b''],
     gd_issues = [lineage_issue\<lparr>is_key := ''b'', is_last_commented := 0\<rparr>],
     gd_reports = [ungrouped_report\<lparr>gq_group := Some 11\<rparr>], gd_github = sample_github\<rparr>"

lemma lineage_merge: "merge_report_groups 7 1 ''a'' ''b'' ''u'' lineage_db = Inr ((1, ''b''), lineage_merged_db)"
  by code_simp

lemma lineage_db_ok: "groups_ok (\<lambda>_. (1, 3)) lineage_db"
  by (simp add: groups_ok_def lineage_db_def lineage_group_def lineage_ok_def homes_ok_def owners_ok_def ungrouped_report_def)

text \<open>
  C28.  Whatever the order of arrivals, assignments, merges and the work on issues, the lineage of a
  merged group is one hop, to a group of the same workspace and product that is not merged itself, and
  every grouped report is in a group of its workspace that is not merged away.
\<close>

theorem merge_lineage_stays_one_hop:
  assumes "(group_step owner)\<^sup>*\<^sup>* db db'" and "groups_ok owner db"
  shows "(\<forall>g \<in> set (gd_groups db'). case gr_merged_into g of None \<Rightarrow> True
      | Some k \<Rightarrow> \<exists>h \<in> set (gd_groups db'). gr_key h = k \<and> gr_workspace h = gr_workspace g
          \<and> gr_product h = gr_product g \<and> gr_merged_into h = None)
    \<and> (\<forall>r \<in> set (gd_reports db'). case gq_group r of None \<Rightarrow> True
      | Some i \<Rightarrow> \<exists>g \<in> set (gd_groups db'). gr_id g = i \<and> gr_workspace g = gq_workspace r \<and> gr_merged_into g = None)"
proof -
  from assms have "groups_ok owner db'"
    by (induction rule: rtranclp_induct) (auto intro: group_step_keeps)
  then have "lineage_ok db'" "homes_ok db'" by (simp_all add: groups_ok_def)
  then show ?thesis unfolding lineage_ok_def homes_ok_def option.case_eq_if
    by (metis option.exhaust_sel)
qed

theorem merge_lineage_stays_one_hop_witness:
  "\<exists>db'. merge_report_groups 7 1 ''a'' ''b'' ''u'' lineage_db = Inr ((1, ''b''), db')
     \<and> (\<forall>r \<in> set (gd_reports db'). case gq_group r of None \<Rightarrow> True
      | Some i \<Rightarrow> \<exists>g \<in> set (gd_groups db'). gr_id g = i \<and> gr_workspace g = gq_workspace r \<and> gr_merged_into g = None)"
proof -
  have "group_step (\<lambda>_. (1, 3)) lineage_db lineage_merged_db" using lineage_merge by (rule merged)
  then have "(group_step (\<lambda>_. (1, 3)))\<^sup>*\<^sup>* lineage_db lineage_merged_db" by blast
  from merge_lineage_stays_one_hop [OF this lineage_db_ok] lineage_merge show ?thesis by blast
qed

definition in_group :: "uuid \<Rightarrow> group_row \<Rightarrow> group_report \<Rightarrow> bool" where
  "in_group ws g r \<longleftrightarrow> gq_workspace r = ws \<and> gq_group r = Some (gr_id g)"

lemma moved_reports:
  assumes "gr_id source \<noteq> gr_id target"
  shows "filter (in_group ws source) (merged_reports ws source target db) = []"
    and "map gq_id (filter (in_group ws target) (merged_reports ws source target db))
      = map gq_id (filter (\<lambda>r. in_group ws source r \<or> in_group ws target r) (gd_reports db))"
proof -
  define f :: "group_report \<Rightarrow> group_report" where "f r = r\<lparr>gq_group := Some (gr_id target)\<rparr>" for r
  have f: "gq_id (f r) = gq_id r" "in_group ws source r \<Longrightarrow> in_group ws target (f r)" "in_group ws source (f r) = False" for r
    using assms by (simp_all add: f_def in_group_def)
  have m: "merged_reports ws source target db = update_where (in_group ws source) f (gd_reports db)"
    by (simp add: merged_reports_def in_group_def [abs_def] f_def [abs_def])
  have "filter (in_group ws source) (update_where (in_group ws source) f rs) = []" for rs
    by (induction rs) (simp_all add: update_where_def f)
  then show "filter (in_group ws source) (merged_reports ws source target db) = []" by (simp add: m)
  have "map gq_id (filter (in_group ws target) (update_where (in_group ws source) f rs))
      = map gq_id (filter (\<lambda>r. in_group ws source r \<or> in_group ws target r) rs)" for rs
    by (induction rs) (auto simp: update_where_def f)
  then show "map gq_id (filter (in_group ws target) (merged_reports ws source target db))
      = map gq_id (filter (\<lambda>r. in_group ws source r \<or> in_group ws target r) (gd_reports db))" by (simp add: m)
qed

lemma moved_issue:
  assumes ok: "issues_ok (gd_issues db)" and ref: "merge_refusal ws source target db = None"
    and ne: "gr_key source \<noteq> gr_key target" and ok': "issues_ok (merged_issues ws source target db)"
    and iss: "gd_issues db' = merged_issues ws source target db"
  shows "issue_of ws (gr_key source) db' = None \<and> issue_of ws (gr_key target) db' = (case issue_of ws (gr_key source) db of
          Some r \<Rightarrow> Some (r\<lparr>is_key := gr_key target, is_last_commented := 0\<rparr>) | None \<Rightarrow> issue_of ws (gr_key target) db)"
proof (cases "issue_of ws (gr_key source) db")
  case None
  then have "merged_issues ws source target db = gd_issues db" by (simp add: merged_issues_def update_where_none)
  with None show ?thesis by (simp add: issue_of_def iss)
next
  case (Some r)
  then have r: "r \<in> set (gd_issues db)" "of_issue ws (gr_key source) r" using issue_of_iff [OF ok] by auto
  have "is_filing_state r = Filed" using merge_refusal_None(5) [OF ref] r by blast
  then have num: "is_number r \<noteq> None" using ok r(1) by (auto simp: issues_ok_def issue_row_ok_def list_all_iff)
  define f :: "issue_row \<Rightarrow> issue_row" where "f r = r\<lparr>is_key := gr_key target, is_last_commented := 0\<rparr>" for r
  have rows: "gd_issues db' = update_where (of_issue ws (gr_key source)) f (gd_issues db)"
    using Some num by (simp add: iss merged_issues_def f_def [abs_def])
  have f: "of_issue ws (gr_key source) (f x) = False" "of_issue ws (gr_key source) x \<Longrightarrow> of_issue ws (gr_key target) (f x)" for x
    using ne by (simp_all add: of_issue_def f_def)
  have "f r \<in> set (gd_issues db')" using r unfolding rows row_simps by blast
  then have "issue_of ws (gr_key target) db' = Some (f r)"
    using issue_of_iff [of db'] ok' f(2) [OF r(2)] by (simp add: iss)
  moreover have "issue_of ws (gr_key source) db' = None"
    unfolding issue_of_def find_None_iff rows row_simps using f(1) by blast
  ultimately show ?thesis using Some by (simp add: f_def)
qed

text \<open>
  A successful merge moves every report of the source, in place, into the target and counts
  them; the source is left without an issue, and the target has the source's issue, with its evidence
  counter reset, or else the issue it had.
\<close>

theorem merge_moves_reports_and_issue:
  assumes "issues_ok (gd_issues db)" and "gr_id source \<noteq> gr_id target"
    and "keyed_group ws skey db = Some source" and "keyed_group ws tkey db = Some target"
    and run: "merge_report_groups now ws skey tkey actor db = Inr ((n, k), db')"
  shows "k = tkey \<and> n = int (length (filter (in_group ws source) (gd_reports db)))
    \<and> filter (in_group ws source) (gd_reports db') = []
    \<and> map gq_id (filter (in_group ws target) (gd_reports db'))
        = map gq_id (filter (\<lambda>r. in_group ws source r \<or> in_group ws target r) (gd_reports db))
    \<and> issue_of ws skey db' = None
    \<and> issue_of ws tkey db' = (case issue_of ws skey db of
          Some r \<Rightarrow> Some (r\<lparr>is_key := tkey, is_last_commented := 0\<rparr>) | None \<Rightarrow> issue_of ws tkey db)"
proof -
  from run obtain x y where xy: "keyed_group ws skey db = Some x" "keyed_group ws tkey db = Some y"
    and keys: "skey \<noteq> tkey" "gr_key x = skey" "gr_key y = tkey" "k = tkey"
    and ref: "merge_refusal ws x y db = None"
    and n: "n = int (rows_affected (\<lambda>r. gq_workspace r = ws \<and> gq_group r = Some (gr_id x)) (gd_reports db))"
    and ok': "issues_ok (merged_issues ws x y db)"
    and db': "db' = db\<lparr>gd_issues := merged_issues ws x y db, gd_reports := merged_reports ws x y db,
                gd_groups := merged_groups now ws actor x y db\<rparr>"
    by (rule merge_Inr)
  from xy assms(3,4) have "x = source" "y = target" by simp_all
  note keys = keys [unfolded this] and ref = ref [unfolded this] and n = n [unfolded this] and ok' = ok' [unfolded this]
    and db' = db' [unfolded this]
  have n': "n = int (length (filter (in_group ws source) (gd_reports db)))"
    by (simp add: n rows_affected_def in_group_def [abs_def])
  have "gd_issues db' = merged_issues ws source target db" and reps: "gd_reports db' = merged_reports ws source target db"
    by (simp_all add: db')
  from moved_issue [OF assms(1) ref _ ok' this(1)] keys(1)
  have "issue_of ws skey db' = None \<and> issue_of ws tkey db' = (case issue_of ws skey db of
          Some r \<Rightarrow> Some (r\<lparr>is_key := tkey, is_last_commented := 0\<rparr>) | None \<Rightarrow> issue_of ws tkey db)"
    unfolding keys(2,3) by blast
  with n' moved_reports [OF assms(2)] keys(4) show ?thesis unfolding reps by blast
qed

theorem merge_moves_reports_and_issue_witness:
  "issue_of 1 ''a'' lineage_merged_db = None
   \<and> issue_of 1 ''b'' lineage_merged_db = Some (lineage_issue\<lparr>is_key := ''b'', is_last_commented := 0\<rparr>)"
proof -
  have "issues_ok (gd_issues lineage_db)" by code_simp
  moreover have "keyed_group 1 ''a'' lineage_db = Some (lineage_group 10 ''a'')"
    "keyed_group 1 ''b'' lineage_db = Some (lineage_group 11 ''b'')" "issue_of 1 ''a'' lineage_db = Some lineage_issue"
    by code_simp+
  moreover have "gr_id (lineage_group 10 ''a'') \<noteq> gr_id (lineage_group 11 ''b'')" by (simp add: lineage_group_def)
  ultimately show ?thesis
    using merge_moves_reports_and_issue [of lineage_db "lineage_group 10 ''a''" "lineage_group 11 ''b''" 1 "''a''" "''b''"]
      lineage_merge by simp
qed

end
