(* ===== verification/Regroup.thy ===== *)
theory Regroup
  imports GroupLineage
begin

text \<open>
  Regrouping: a run visits every grouped report once, leaves each readable one in the group of its
  fingerprint or in the target that group was merged into, and a second run moves nothing.
\<close>

section \<open>The home of a report\<close>

definition home :: "group_env \<Rightarrow> group_row list \<Rightarrow> group_input \<Rightarrow> uuid option" where
  "home env gs input =
     map_option (\<lambda>g. case merge_target g gs of None \<Rightarrow> gr_id g | Some h \<Rightarrow> gr_id h)
       (find (\<lambda>g. gr_key g = key_of env input) gs)"

definition settled :: "group_env \<Rightarrow> group_row list \<Rightarrow> group_report \<Rightarrow> bool" where
  "settled env gs r \<longleftrightarrow> (\<forall>loc f. located r = Some loc \<longrightarrow> gq_findings r = Some f
     \<longrightarrow> gq_group r \<noteq> None \<and> gq_group r = home env gs (input_of r loc f))"

text \<open>The keys of the reports' fingerprints have the owners of the reports.\<close>

definition keys_owned :: "group_env \<Rightarrow> (string \<Rightarrow> uuid \<times> uuid) \<Rightarrow> issue_db \<Rightarrow> bool" where
  "keys_owned env owner db \<longleftrightarrow> (\<forall>r \<in> set (gd_reports db). \<forall>loc f. located r = Some loc \<longrightarrow> gq_findings r = Some f
     \<longrightarrow> owner (key_of env (input_of r loc f)) = (gq_workspace r, fst loc))"

definition regroup_inv :: "group_env \<Rightarrow> (string \<Rightarrow> uuid \<times> uuid) \<Rightarrow> issue_db \<Rightarrow> bool" where
  "regroup_inv env owner db \<longleftrightarrow> reports_ok db \<and> groups_ok owner db \<and> keys_owned env owner db"

lemma input_product [simp]: "gi_product_id (input_of r loc f) = fst loc"
  by (simp add: input_of_def split: prod.split)

lemma regrouped_columns [simp]:
  "located (r\<lparr>gq_group := g\<rparr>) = located r" "input_of (r\<lparr>gq_group := g\<rparr>) = input_of r"
  by (simp_all add: located_def input_of_def [abs_def])

text \<open>The lineage of a row resolves in the table after an upsert as it did before.\<close>

lemma merge_target_upsert:
  assumes up: "upsert_group now fresh ws pid a (gd_groups db) = Inr (x, gs)" and ok: "groups_ok owner db"
    and g: "g \<in> set (gd_groups db)" "same_group g h"
  shows "(case merge_target h gs of None \<Rightarrow> gr_id h | Some t \<Rightarrow> gr_id t)
    = (case merge_target g (gd_groups db) of None \<Rightarrow> gr_id g | Some t \<Rightarrow> gr_id t)"
proof (cases "merge_target g (gd_groups db)")
  case None
  with merge_target_iff [of db g g] ok g(1) have "gr_merged_into g = None"
    unfolding groups_ok_def using same_group_simps(1) by blast
  with g(2) None show ?thesis by (simp add: same_group_def merge_target_def)
next
  case (Some t)
  define q where "q x \<longleftrightarrow> gr_key x = gr_key t \<and> gr_workspace x = gr_workspace g \<and> gr_product x = gr_product g
      \<and> gr_merged_into x = None" for x :: group_row
  have k: "gr_merged_into g = Some (gr_key t)" using merge_target_Some [OF Some] by blast
  have "merge_target g (gd_groups db) = find q (gd_groups db)" "merge_target h gs = find q gs"
    using k g(2) unfolding merge_target_def q_def [abs_def] same_group_def by simp_all
  note eqs = this
  from eqs Some obtain t' where "find q gs = Some t'" "same_group t t'"
    using find_upsert [OF up, of q t] by (auto simp: q_def same_group_def)
  with eqs(2) Some show ?thesis by (simp add: same_group_def)
qed

lemma home_upsert:
  assumes up: "upsert_group now fresh ws pid a (gd_groups db) = Inr (x, gs)" and ok: "groups_ok owner db"
    and "home env (gd_groups db) input = Some i"
  shows "home env gs input = Some i"
proof -
  obtain g where g: "find (\<lambda>g. gr_key g = key_of env input) (gd_groups db) = Some g"
    "i = (case merge_target g (gd_groups db) of None \<Rightarrow> gr_id g | Some h \<Rightarrow> gr_id h)"
    using assms(3) by (auto simp: home_def)
  then obtain h where h: "find (\<lambda>g. gr_key g = key_of env input) gs = Some h" "same_group g h"
    using find_upsert [OF up, of "\<lambda>g. gr_key g = key_of env input" g] by (auto simp: same_group_def)
  have "g \<in> set (gd_groups db)" using g(1) by (auto dest: find_SomeD)
  from merge_target_upsert [OF up ok this h(2)] h(1) g(2) show ?thesis by (simp add: home_def)
qed

lemma find_key: "distinct (map k xs) \<Longrightarrow> x \<in> set xs \<Longrightarrow> find (\<lambda>y. k y = k x) xs = Some x"
  by (induction xs) auto

lemma assign_home:
  assumes up: "upsert_group now fresh ws pid (assign (ge_sha256 env) (ge_show_uuid env) input) (gd_groups db) = Inr (g, gs)"
    and ok: "groups_ok owner db"
    and own: "owner (key_of env input) = (ws, pid)"
  shows "home env gs input = Some (case merge_target g (gd_groups db) of None \<Rightarrow> gr_id g | Some h \<Rightarrow> gr_id h)"
proof -
  have key: "gr_key g = key_of env input" using upsert_set(4) [OF up] by (simp add: key_of_def)
  have "find (\<lambda>y. gr_key y = key_of env input) gs = Some g"
    using find_key [of gr_key gs g] upsert_distinct(1) [OF up] upsert_set(3) [OF up] ok key by (simp add: groups_ok_def)
  then have home: "home env gs input = Some (case merge_target g gs of None \<Rightarrow> gr_id g | Some h \<Rightarrow> gr_id h)"
    by (simp add: home_def)
  show ?thesis
  proof (cases "\<exists>h \<in> set (gd_groups db). same_group h g")
    case True
    then obtain h where h: "h \<in> set (gd_groups db)" "same_group h g" by blast
    have "merge_target h (gd_groups db) = merge_target g (gd_groups db)" "gr_id h = gr_id g"
      using h(2) by (simp_all add: merge_target_def same_group_def)
    with merge_target_upsert [OF up ok h] home show ?thesis by (simp cong: option.case_cong)
  next
    case False
    with upsert_set(5) [OF up] have "gr_merged_into g = None" by blast
    with home show ?thesis by (simp add: merge_target_def)
  qed
qed

section \<open>The rows of a run\<close>

lemma grouped_rows_eq:
  assumes "groups_ok owner db"
  shows "grouped_rows db = map (\<lambda>r. (r, None)) (filter (\<lambda>r. gq_group r \<noteq> None) (gd_reports db))"
proof -
  have "(current_group (gd_groups db) r \<noteq> None \<longleftrightarrow> gq_group r \<noteq> None)
      \<and> Option.bind (current_group (gd_groups db) r) gr_merged_into = None" if r: "r \<in> set (gd_reports db)" for r
  proof (cases "gq_group r")
    case None
    then show ?thesis by (simp add: current_group_def)
  next
    case (Some i)
    then obtain g where g: "g \<in> set (gd_groups db)" "gr_id g = i" "gr_workspace g = gq_workspace r" "gr_merged_into g = None"
      using assms r unfolding groups_ok_def homes_ok_def by blast
    then obtain x where x: "find (\<lambda>g. gr_id g = i \<and> gr_workspace g = gq_workspace r) (gd_groups db) = Some x"
      by (cases "find (\<lambda>g. gr_id g = i \<and> gr_workspace g = gq_workspace r) (gd_groups db)") (auto simp: find_None_iff)
    then have "x \<in> set (gd_groups db)" "gr_id x = i" by (auto dest: find_SomeD)
    with g assms have "x = g" by (auto simp: groups_ok_def dest: distinct_map_eq)
    with x g(4) Some show ?thesis by (simp add: current_group_def)
  qed
  then show ?thesis unfolding grouped_rows_def
    by (auto intro!: map_cong filter_cong)
qed

lemma regroup_row_None_cases:
  assumes "regroup_row env (r, None) s db = Inr (s', db')"
  obtains (skipped) "db' = db" "\<not> groupable r"
    | (regrouped) loc f i where "located r = Some loc" "gq_findings r = Some f"
      "assign_report_group env (gq_workspace r) (gq_id r) (input_of r loc f) db = Inr (i, db')"
  using assms by (auto simp: regroup_row_def groupable_def result_bind_Inr split: option.split_asm)

lemma regroup_step_inv:
  assumes inv: "regroup_inv env owner db" and r: "r \<in> set (gd_reports db)"
    and step: "regroup_row env (r, None) s db = Inr (s', db')"
  shows "regroup_inv env owner db'"
  using step
proof (cases rule: regroup_row_None_cases)
  case skipped
  with inv show ?thesis by simp
next
  case (regrouped loc f i)
  have "owner (key_of env (input_of r loc f)) = (gq_workspace r, fst loc)"
    using inv r regrouped(1,2) unfolding regroup_inv_def keys_owned_def by blast
  then have "groups_ok owner db'"
    using assign_keeps_groups [OF regrouped(3)] inv by (simp add: regroup_inv_def)
  moreover have "keys_owned env owner db'"
    unfolding keys_owned_def
  proof (intro ballI allI impI)
    fix x' l g assume x': "x' \<in> set (gd_reports db')" "located x' = Some l" "gq_findings x' = Some g"
    obtain x where x: "x \<in> set (gd_reports db)" "x' = x \<or> x' = x\<lparr>gq_group := Some i\<rparr>"
      using x'(1) unfolding assign_reports(1) [OF regrouped(3)] by (auto simp: row_simps)
    with x'(2,3) have "located x = Some l" "gq_findings x = Some g" by auto
    with inv x(1) have "owner (key_of env (input_of x l g)) = (gq_workspace x, fst l)"
      unfolding regroup_inv_def keys_owned_def by blast
    with x(2) show "owner (key_of env (input_of x' l g)) = (gq_workspace x', fst l)" by auto
  qed
  ultimately show ?thesis
    using inv assign_reports(1) [OF regrouped(3)] by (auto simp: regroup_inv_def intro: reports_ok_update)
qed

interpretation regroup: keyset_walk grouped_rows "report_key \<circ> fst" "regroup_row env" "regroup_inv env owner" for env owner
proof
  fix db :: issue_db and w s s' db'
  assume inv: "regroup_inv env owner db" and w: "w \<in> set (grouped_rows db)" and step: "regroup_row env w s db = Inr (s', db')"
  have ok: "groups_ok owner db" "reports_ok db" using inv by (simp_all add: regroup_inv_def)
  obtain r where r: "w = (r, None)" "r \<in> set (gd_reports db)" using w by (auto simp: grouped_rows_eq [OF ok(1)])
  show inv': "regroup_inv env owner db'" using regroup_step_inv [OF inv r(2)] step r(1) by blast
  have "filter (\<lambda>x. report_key r < report_key x) (filter (\<lambda>r. gq_group r \<noteq> None) (gd_reports db'))
      = filter (\<lambda>x. report_key r < report_key x) (filter (\<lambda>r. gq_group r \<noteq> None) (gd_reports db))"
    using step unfolding r(1)
  proof (cases rule: regroup_row_None_cases)
    case (regrouped loc f i)
    show ?thesis
      unfolding assign_reports(1) [OF regrouped(3)]
      by (rule filter_update_where) (auto simp: is_report_unique [OF ok(2) r(2)] report_key_def)
  qed simp
  moreover have "groups_ok owner db'" using inv' by (simp add: regroup_inv_def)
  ultimately show "filter (\<lambda>x. (report_key \<circ> fst) w < (report_key \<circ> fst) x) (grouped_rows db')
      = filter (\<lambda>x. (report_key \<circ> fst) w < (report_key \<circ> fst) x) (grouped_rows db)"
    by (simp add: grouped_rows_eq [OF ok(1)] grouped_rows_eq r(1) filter_map comp_def)
next
  fix db :: issue_db
  assume inv: "regroup_inv env owner db"
  then have "distinct (map gq_id (filter (\<lambda>r. gq_group r \<noteq> None) (gd_reports db)))"
    by (simp add: regroup_inv_def reports_ok_def distinct_map_filter)
  then have "distinct (map report_key (filter (\<lambda>r. gq_group r \<noteq> None) (gd_reports db)))"
    by (auto simp: distinct_map report_key_def inj_on_def)
  moreover have "groups_ok owner db" using inv by (simp add: regroup_inv_def)
  ultimately show "distinct (map (report_key \<circ> fst) (grouped_rows db))"
    by (simp add: grouped_rows_eq comp_def)
qed

section \<open>One run settles, the next one moves nothing\<close>

text \<open>A report that was regrouped is settled, and a settled one stays settled.\<close>

lemma regroup_step_settles:
  assumes inv: "regroup_inv env owner db" and r: "r \<in> set (gd_reports db)" "gq_group r \<noteq> None"
    and step: "regroup_row env (r, None) s db = Inr (s', db')" and x': "x' \<in> set (gd_reports db')"
    and old: "\<And>x. x \<in> set (gd_reports db) \<Longrightarrow> P (gq_id x) \<Longrightarrow> settled env (gd_groups db) x"
    and p: "P (gq_id x') \<or> gq_id x' = gq_id r"
  shows "settled env (gd_groups db') x'"
  using step
proof (cases rule: regroup_row_None_cases)
  case skipped
  show ?thesis
  proof (cases "gq_id x' = gq_id r")
    case True
    then have "x' = r" using inv r(1) x' skipped(1) by (auto simp: regroup_inv_def reports_ok_def dest: distinct_map_eq)
    with skipped(2) show ?thesis by (auto simp: settled_def groupable_def)
  next
    case False
    with p old [of x'] x' skipped(1) show ?thesis by simp
  qed
next
  case (regrouped loc f i)
  have ok: "groups_ok owner db" "reports_ok db" using inv by (simp_all add: regroup_inv_def)
  have own: "owner (key_of env (input_of r loc f)) = (gq_workspace r, fst loc)"
    using inv r(1) regrouped(1,2) unfolding regroup_inv_def keys_owned_def by blast
  from regrouped(3) show ?thesis
  proof (rule assign_cases)
    fix g gs
    assume up: "upsert_group (ge_now env (gq_id r)) (ge_new_id env (gq_id r)) (gq_workspace r)
        (gi_product_id (input_of r loc f)) (assign (ge_sha256 env) (ge_show_uuid env) (input_of r loc f)) (gd_groups db) = Inr (g, gs)"
      and i: "i = (case merge_target g (gd_groups db) of None \<Rightarrow> gr_id g | Some h \<Rightarrow> gr_id h)"
      and db': "db' = db\<lparr>gd_groups := gs, gd_reports :=
        update_where (is_report (gq_workspace r) (gq_id r)) (\<lambda>r. r\<lparr>gq_group := Some i\<rparr>) (gd_reports db)\<rparr>"
    have hi: "home env gs (input_of r loc f) = Some i"
      using assign_home [OF up ok(1)] own i by simp
    have gs: "gd_groups db' = gs" by (simp add: db')
    obtain x where x: "x \<in> set (gd_reports db)" "x' = (if x = r then x\<lparr>gq_group := Some i\<rparr> else x)"
      using x' is_report_unique [OF ok(2) r(1)] by (auto simp: db' update_where_def)
    show ?thesis
    proof (cases "x = r")
      case True
      with x(2) regrouped(1,2) hi show ?thesis by (auto simp: settled_def gs)
    next
      case False
      then have eq: "x' = x" using x(2) by simp
      have "gq_id x \<noteq> gq_id r" using False x(1) r(1) ok(2) by (auto simp: reports_ok_def dest: distinct_map_eq)
      with p eq old [OF x(1)] have old_x: "settled env (gd_groups db) x" by blast
      show ?thesis
        unfolding settled_def
      proof (intro allI impI)
        fix l fs assume a: "located x' = Some l" "gq_findings x' = Some fs"
        with old_x eq have h: "gq_group x \<noteq> None" "gq_group x = home env (gd_groups db) (input_of x l fs)"
          unfolding settled_def by blast+
        then obtain j where j: "gq_group x = Some j" by blast
        with h(2) have "home env (gd_groups db) (input_of x l fs) = Some j" by simp
        then have "home env gs (input_of x l fs) = Some j" by (rule home_upsert [OF up ok(1)])
        with j eq show "gq_group x' \<noteq> None \<and> gq_group x' = home env (gd_groups db') (input_of x' l fs)" by (simp add: gs)
      qed
    qed
  qed
qed

text \<open>The other reports keep their rows.\<close>

lemma regroup_step_others:
  assumes inv: "regroup_inv env owner db" and r: "r \<in> set (gd_reports db)"
    and step: "regroup_row env (r, None) s db = Inr (s', db')" and x: "x \<in> set (gd_reports db)" "gq_id x \<noteq> gq_id r"
  shows "x \<in> set (gd_reports db')"
  using step
proof (cases rule: regroup_row_None_cases)
  case (regrouped loc f i)
  with x show ?thesis by (auto simp: assign_reports(1) [OF regrouped(3)] row_simps is_report_def)
qed (simp add: x)

lemma regroup_rows_settle:
  assumes "regroup_inv env owner db" and "\<forall>r \<in> set rs. r \<in> set (gd_reports db) \<and> gq_group r \<noteq> None"
    and "distinct (map gq_id rs)" and "run_rows (regroup_row env) (map (\<lambda>r. (r, None)) rs) s db = Inr (s', db')"
    and "\<And>x. x \<in> set (gd_reports db) \<Longrightarrow> P (gq_id x) \<Longrightarrow> settled env (gd_groups db) x"
  shows "regroup_inv env owner db' \<and>
    (\<forall>x \<in> set (gd_reports db'). P (gq_id x) \<or> gq_id x \<in> gq_id ` set rs \<longrightarrow> settled env (gd_groups db') x)"
  using assms
proof (induction rs arbitrary: s db P)
  case Nil
  then show ?case by auto
next
  case (Cons r rs)
  obtain s1 db1 where s1: "regroup_row env (r, None) s db = Inr (s1, db1)"
    "run_rows (regroup_row env) (map (\<lambda>r. (r, None)) rs) s1 db1 = Inr (s', db')"
    using Cons.prems(4) by (auto simp: result_bind_Inr)
  have r: "r \<in> set (gd_reports db)" "gq_group r \<noteq> None" using Cons.prems(2) by auto
  define Q where "Q j \<longleftrightarrow> P j \<or> j = gq_id r" for j
  have "regroup_inv env owner db1" by (rule regroup_step_inv [OF Cons.prems(1) r(1) s1(1)])
  moreover have "\<forall>x \<in> set rs. x \<in> set (gd_reports db1) \<and> gq_group x \<noteq> None"
  proof
    fix x assume x: "x \<in> set rs"
    then have "gq_id x \<in> gq_id ` set rs" by simp
    then have "gq_id x \<noteq> gq_id r" using Cons.prems(3) by auto
    with x Cons.prems(2) show "x \<in> set (gd_reports db1) \<and> gq_group x \<noteq> None"
      using regroup_step_others [OF Cons.prems(1) r(1) s1(1)] by simp
  qed
  moreover have "settled env (gd_groups db1) x" if "x \<in> set (gd_reports db1)" "Q (gq_id x)" for x
    using regroup_step_settles [OF Cons.prems(1) r s1(1) that(1), of P] Cons.prems(5) that(2) by (simp add: Q_def)
  ultimately have "regroup_inv env owner db' \<and>
      (\<forall>x \<in> set (gd_reports db'). Q (gq_id x) \<or> gq_id x \<in> gq_id ` set rs \<longrightarrow> settled env (gd_groups db') x)"
    using Cons.IH [of db1 s1 Q] Cons.prems(3) s1(2) by simp
  then show ?case by (auto simp: Q_def)
qed

definition same_digest :: "group_env \<Rightarrow> group_env \<Rightarrow> bool" where
  "same_digest env env' \<longleftrightarrow> ge_sha256 env' = ge_sha256 env \<and> ge_show_uuid env' = ge_show_uuid env"

lemma same_digest_key: "same_digest env env' \<Longrightarrow> key_of env' input = key_of env input"
  by (simp add: key_of_def same_digest_def)

lemma same_digest_home: "same_digest env env' \<Longrightarrow> home env' gs input = home env gs input"
  by (simp add: home_def key_of_def same_digest_def)

text \<open>A settled report is written the group it has.\<close>

lemma regroup_settled_row:
  assumes inv: "regroup_inv env owner db" and r: "r \<in> set (gd_reports db)" "gq_group r \<noteq> None"
    and set_r: "settled env (gd_groups db) r"
  shows "\<exists>s' gs. regroup_row env (r, None) s db = Inr (s', db\<lparr>gd_groups := gs\<rparr>) \<and> rs_moved s' = rs_moved s"
proof (cases "groupable r")
  case False
  then have "\<exists>s'. regroup_row env (r, None) s db = Inr (s', db\<lparr>gd_groups := gd_groups db\<rparr>) \<and> rs_moved s' = rs_moved s"
    by (auto simp: regroup_row_def groupable_def split: option.split)
  then show ?thesis by blast
next
  case True
  then obtain loc f where l: "located r = Some loc" "gq_findings r = Some f" by (auto simp: groupable_def)
  define inp where "inp = input_of r loc f"
  obtain i where i: "gq_group r = Some i" using r(2) by blast
  with set_r l have h: "home env (gd_groups db) inp = Some i" unfolding settled_def inp_def by auto
  have ok: "groups_ok owner db" "reports_ok db" using inv by (simp_all add: regroup_inv_def)
  obtain g where g: "find (\<lambda>g. gr_key g = key_of env inp) (gd_groups db) = Some g"
    "i = (case merge_target g (gd_groups db) of None \<Rightarrow> gr_id g | Some h \<Rightarrow> gr_id h)"
    using h by (auto simp: home_def)
  define a where "a = assign (ge_sha256 env) (ge_show_uuid env) inp"
  define gs where "gs = update_where (\<lambda>h. gr_key h = ga_group_key a) (refreshed_group (ge_now env (gq_id r)) a) (gd_groups db)"
  have up: "upsert_group (ge_now env (gq_id r)) (ge_new_id env (gq_id r)) (gq_workspace r) (gi_product_id inp) a (gd_groups db)
      = Inr (refreshed_group (ge_now env (gq_id r)) a g, gs)"
    using g(1) by (simp add: upsert_group_def key_of_def a_def gs_def)
  have "merge_target (refreshed_group (ge_now env (gq_id r)) a g) (gd_groups db) = merge_target g (gd_groups db)"
    by (simp add: merge_target_def)
  then have "assign_report_group env (gq_workspace r) (gq_id r) inp db
      = set_report_group (gq_workspace r) (gq_id r) i (db\<lparr>gd_groups := gs\<rparr>)"
    using up g(2) by (simp add: assign_report_group_def Let_def a_def cong: option.case_cong)
  moreover have "update_where (is_report (gq_workspace r) (gq_id r)) (\<lambda>r. r\<lparr>gq_group := Some i\<rparr>) (gd_reports db) = gd_reports db"
    using is_report_unique [OF ok(2) r(1)] i by (auto simp: update_where_def intro!: map_idI)
  ultimately have "assign_report_group env (gq_workspace r) (gq_id r) inp db = Inr (i, db\<lparr>gd_groups := gs\<rparr>)"
    using one_report [OF ok(2) r(1)] by (simp add: set_report_group_Inr)
  then have "regroup_row env (r, None) s db = Inr (s\<lparr>rs_unchanged := rs_unchanged s + 1\<rparr>, db\<lparr>gd_groups := gs\<rparr>)"
    using l i by (simp add: regroup_row_def inp_def)
  then show ?thesis by force
qed

lemma regroup_rows_settled:
  assumes "regroup_inv env owner db" and "\<forall>r \<in> set rs. r \<in> set (gd_reports db) \<and> gq_group r \<noteq> None"
    and "\<forall>x \<in> set (gd_reports db). gq_group x \<noteq> None \<longrightarrow> settled env (gd_groups db) x"
  shows "\<exists>s' gs. run_rows (regroup_row env) (map (\<lambda>r. (r, None)) rs) s db = Inr (s', db\<lparr>gd_groups := gs\<rparr>)
    \<and> rs_moved s' = rs_moved s"
  using assms
proof (induction rs arbitrary: s db)
  case Nil
  show ?case by (rule exI [of _ s], rule exI [of _ "gd_groups db"]) simp
next
  case (Cons r rs)
  have r: "r \<in> set (gd_reports db)" "gq_group r \<noteq> None" using Cons.prems(2) by auto
  then have "settled env (gd_groups db) r" using Cons.prems(3) by blast
  then obtain s1 gs where s1: "regroup_row env (r, None) s db = Inr (s1, db\<lparr>gd_groups := gs\<rparr>)" "rs_moved s1 = rs_moved s"
    using regroup_settled_row [OF Cons.prems(1) r, of s] by blast
  have inv: "regroup_inv env owner (db\<lparr>gd_groups := gs\<rparr>)" by (rule regroup_step_inv [OF Cons.prems(1) r(1) s1(1)])
  have "settled env gs x" if "x \<in> set (gd_reports db)" "gq_group x \<noteq> None" for x
    using regroup_step_settles [OF Cons.prems(1) r s1(1), of x "\<lambda>j. j = gq_id x"] that Cons.prems(1,3)
    by (auto simp: regroup_inv_def reports_ok_def dest: distinct_map_eq)
  then obtain s' gs' where "run_rows (regroup_row env) (map (\<lambda>r. (r, None)) rs) s1 (db\<lparr>gd_groups := gs\<rparr>)
      = Inr (s', (db\<lparr>gd_groups := gs\<rparr>)\<lparr>gd_groups := gs'\<rparr>)" "rs_moved s' = rs_moved s1"
    using Cons.IH [OF inv, of s1] Cons.prems(2) by auto
  with s1 show ?case by (intro exI [of _ s'] exI [of _ gs']) simp
qed

lemma insort_key_map: "insort_key f (g x) (map g xs) = map g (insort_key (\<lambda>x. f (g x)) x xs)"
  by (induction xs) auto

lemma sort_key_map: "sort_key f (map g xs) = map g (sort_key (\<lambda>x. f (g x)) xs)"
  by (induction xs) (simp_all add: insort_key_map)

text \<open>No report gains or loses a group.\<close>

definition shape :: "group_report \<Rightarrow> uuid \<times> bool" where
  "shape r = (gq_id r, gq_group r \<noteq> None)"

lemma regroup_step_shape:
  assumes inv: "regroup_inv env owner db" and r: "r \<in> set (gd_reports db)" "gq_group r \<noteq> None"
    and step: "regroup_row env (r, None) s db = Inr (s', db')"
  shows "map shape (gd_reports db') = map shape (gd_reports db)"
  using step
proof (cases rule: regroup_row_None_cases)
  case (regrouped loc f i)
  have "is_report (gq_workspace r) (gq_id r) x \<Longrightarrow> x \<in> set (gd_reports db) \<Longrightarrow> gq_group x \<noteq> None" for x
    using is_report_unique [of db r x] inv r by (auto simp: regroup_inv_def)
  then show ?thesis
    by (auto simp: assign_reports(1) [OF regrouped(3)] update_where_def shape_def)
qed simp

lemma regroup_rows_shape:
  assumes "regroup_inv env owner db" and "\<forall>r \<in> set rs. r \<in> set (gd_reports db) \<and> gq_group r \<noteq> None"
    and "distinct (map gq_id rs)" and "run_rows (regroup_row env) (map (\<lambda>r. (r, None)) rs) s db = Inr (s', db')"
  shows "map shape (gd_reports db') = map shape (gd_reports db)"
  using assms
proof (induction rs arbitrary: s db)
  case Nil
  then show ?case by simp
next
  case (Cons r rs)
  obtain s1 db1 where s1: "regroup_row env (r, None) s db = Inr (s1, db1)"
    "run_rows (regroup_row env) (map (\<lambda>r. (r, None)) rs) s1 db1 = Inr (s', db')"
    using Cons.prems(4) by (auto simp: result_bind_Inr)
  have r: "r \<in> set (gd_reports db)" "gq_group r \<noteq> None" using Cons.prems(2) by auto
  have inv1: "regroup_inv env owner db1" by (rule regroup_step_inv [OF Cons.prems(1) r(1) s1(1)])
  have "x \<in> set (gd_reports db1)" if "x \<in> set rs" for x
    using regroup_step_others [OF Cons.prems(1) r(1) s1(1)] that Cons.prems(2,3)
    by (metis (no_types, lifting) distinct.simps(2) image_eqI list.set_map list.simps(9) list.set_intros(2))
  then have "map shape (gd_reports db') = map shape (gd_reports db1)"
    using Cons.IH [OF inv1 _ _ s1(2)] Cons.prems(2,3) by simp
  with regroup_step_shape [OF Cons.prems(1) r s1(1)] show ?case by simp
qed

lemma shape_grouped:
  assumes "map shape (gd_reports db') = map shape (gd_reports db)"
  shows "map gq_id (filter (\<lambda>r. gq_group r \<noteq> None) (gd_reports db')) = map gq_id (filter (\<lambda>r. gq_group r \<noteq> None) (gd_reports db))"
proof -
  have "map gq_id (filter (\<lambda>r. gq_group r \<noteq> None) rs) = map fst (filter snd (map shape rs))" for rs
    by (induction rs) (auto simp: shape_def)
  with assms show ?thesis by simp
qed

text \<open>
  C30.  Regrouping twice: after a run that ended without error, a second run, with whatever new UUIDs
  and times it draws, reads the same number of reports, moves none of them, and leaves the table of
  reports as it is.
\<close>

theorem second_regroup_moves_nothing:
  assumes "distinct (map gq_id (gd_reports db))" and "groups_ok owner db" and "keys_owned env owner db"
    and run: "regroup_report_groups env db = Some (Inr (walked, n, s1), db1)" and same: "same_digest env env'"
  shows "\<exists>s2 db2. regroup_report_groups env' db1 = Some (Inr (True, n, s2), db2)
    \<and> rs_moved s2 = 0 \<and> gd_reports db2 = gd_reports db1"
proof -
  have inv: "regroup_inv env owner db" using assms(1,2,3) by (simp add: regroup_inv_def reports_ok_def)
  have ok: "reports_ok db" "groups_ok owner db" using inv by (simp_all add: regroup_inv_def)
  define rows where "rows d = sort_key report_key (filter (\<lambda>r. gq_group r \<noteq> None) (gd_reports d))" for d :: issue_db
  have rest: "regroup.rest None d = map (\<lambda>r. (r, None)) (rows d)" if "groups_ok owner d" for d
    unfolding regroup.rest_def grouped_rows_eq [OF that] rows_def by (simp add: after_def filter_map comp_def sort_key_map)
  have rows: "\<forall>r \<in> set (rows d). r \<in> set (gd_reports d) \<and> gq_group r \<noteq> None" for d by (auto simp: rows_def)
  have dist: "distinct (map gq_id (rows db))"
    using ok(1) by (simp add: rows_def reports_ok_def distinct_map inj_on_def)
  have out: "n = length (rows db) \<and> run_rows (regroup_row env) (map (\<lambda>r. (r, None)) (rows db)) no_regroup db = Inr (s1, db1)"
  proof (cases "run_rows (regroup_row env) (map (\<lambda>r. (r, None)) (rows db)) no_regroup db")
    case (Inl e)
    with regroup.walk_out [OF inv, where cursor = None and acc = no_regroup and n = 0 and scanned = 0] run
    show ?thesis unfolding regroup_report_groups_def rest [OF ok(2)] by auto
  next
    case (Inr res)
    with regroup.walk_out [OF inv, where cursor = None and acc = no_regroup and n = 0 and scanned = 0] run
    show ?thesis unfolding regroup_report_groups_def rest [OF ok(2)] by (cases res) simp
  qed
  from regroup_rows_settle [OF inv rows dist conjunct2 [OF out], of "\<lambda>_. False"]
  have inv1: "regroup_inv env owner db1"
    and set1: "\<forall>x \<in> set (gd_reports db1). gq_id x \<in> gq_id ` set (rows db) \<longrightarrow> settled env (gd_groups db1) x" by auto
  have ids: "map gq_id (filter (\<lambda>r. gq_group r \<noteq> None) (gd_reports db1)) = map gq_id (filter (\<lambda>r. gq_group r \<noteq> None) (gd_reports db))"
    by (rule shape_grouped, rule regroup_rows_shape [OF inv rows dist conjunct2 [OF out]])
  have len: "length (rows db1) = length (rows db)" using arg_cong [OF ids, of length] by (simp add: rows_def)
  have mem: "gq_id x \<in> gq_id ` set (rows db)" if "x \<in> set (gd_reports db1)" "gq_group x \<noteq> None" for x
  proof -
    have "gq_id x \<in> set (map gq_id (filter (\<lambda>r. gq_group r \<noteq> None) (gd_reports db1)))" using that by simp
    then show ?thesis unfolding ids by (simp add: rows_def)
  qed
  have "\<forall>x \<in> set (gd_reports db1). gq_group x \<noteq> None \<longrightarrow> settled env' (gd_groups db1) x"
  proof (intro ballI impI)
    fix x assume x: "x \<in> set (gd_reports db1)" "gq_group x \<noteq> None"
    with set1 mem have "settled env (gd_groups db1) x" by blast
    then show "settled env' (gd_groups db1) x" unfolding settled_def same_digest_home [OF same] .
  qed
  moreover have inv1': "regroup_inv env' owner db1"
    using inv1 unfolding regroup_inv_def keys_owned_def same_digest_key [OF same] .
  ultimately obtain s2 gs where run2: "run_rows (regroup_row env') (map (\<lambda>r. (r, None)) (rows db1)) no_regroup db1
      = Inr (s2, db1\<lparr>gd_groups := gs\<rparr>)" "rs_moved s2 = 0"
    using regroup_rows_settled [OF inv1' rows, of no_regroup] by (auto simp: no_regroup_def)
  have "groups_ok owner db1" using inv1 by (simp add: regroup_inv_def)
  from rest [OF this] regroup.walk_out [OF inv1', where cursor = None and acc = no_regroup and n = 0 and scanned = 0] run2
  have "regroup_report_groups env' db1 = Some (Inr (True, length (rows db1), s2), db1\<lparr>gd_groups := gs\<rparr>)"
    unfolding regroup_report_groups_def by simp
  with run2(2) len out show ?thesis by (intro exI [of _ s2] exI [of _ "db1\<lparr>gd_groups := gs\<rparr>"]) simp
qed

definition regroup_db :: issue_db where
  "regroup_db = \<lparr>gd_groups = [lineage_group 10 ''zz''], gd_issues = [],
     gd_reports = [ungrouped_report\<lparr>gq_group := Some 10\<rparr>], gd_github = sample_github\<rparr>"

definition sample_first_run :: bool where
  "sample_first_run = (case regroup_report_groups sample_group_env regroup_db of
      Some (Inr (walked, n, s), db1) \<Rightarrow> n = 1 \<and> rs_moved s = 1 | _ \<Rightarrow> False)"

theorem second_regroup_moves_nothing_witness:
  "\<exists>walked n s1 db1 s2 db2. regroup_report_groups sample_group_env regroup_db = Some (Inr (walked, n, s1), db1)
     \<and> rs_moved s1 = 1 \<and> regroup_report_groups sample_group_env db1 = Some (Inr (True, 1, s2), db2) \<and> rs_moved s2 = 0"
proof -
  have "sample_first_run" by code_simp
  then obtain walked s1 db1 where run: "regroup_report_groups sample_group_env regroup_db = Some (Inr (walked, 1, s1), db1)"
    "rs_moved s1 = 1" by (auto simp: sample_first_run_def split: option.split_asm sum.split_asm prod.split_asm)
  have "distinct (map gq_id (gd_reports regroup_db))" "same_digest sample_group_env sample_group_env"
    by (simp_all add: regroup_db_def same_digest_def)
  moreover have "groups_ok (\<lambda>_. (1, 3)) regroup_db"
    by (simp add: groups_ok_def regroup_db_def lineage_group_def lineage_ok_def homes_ok_def owners_ok_def ungrouped_report_def)
  moreover have "keys_owned sample_group_env (\<lambda>_. (1, 3)) regroup_db"
    by (simp add: keys_owned_def regroup_db_def ungrouped_report_def located_def)
  ultimately obtain s2 db2 where "regroup_report_groups sample_group_env db1 = Some (Inr (True, 1, s2), db2)" "rs_moved s2 = 0"
    using second_regroup_moves_nothing [of regroup_db _ sample_group_env, OF _ _ _ run(1)] by blast
  with run show ?thesis by blast
qed

end
