(* ===== verification/GroupIssueFiling.thy ===== *)
theory GroupIssueFiling
  imports GroupIssueFacts GithubApi
begin

text \<open>
  \<open>backend/src/main.rs\<close>, filing and synchronizing the GitHub issue of a group: the request handler,
  the reconciliation of an ambiguous filing, the evidence comment and the state refresh.  With them
  the issue calls of \<open>github.rs\<close>, including the paging of the reconciliation listing, and the group
  marker of \<open>issue_template.rs\<close>.  What GitHub answers is an argument; the issue text is left out.
\<close>

section \<open>Constants\<close>

definition MAX_GROUP_ISSUE_SYNCS_PER_REQUEST :: nat where
  "MAX_GROUP_ISSUE_SYNCS_PER_REQUEST = 5"

definition GROUP_ISSUE_STATE_REFRESH_INTERVAL_MINUTES :: int where
  "GROUP_ISSUE_STATE_REFRESH_INTERVAL_MINUTES = 15"

definition GROUP_ISSUE_RECONCILIATION_RETRY_MINUTES :: int where
  "GROUP_ISSUE_RECONCILIATION_RETRY_MINUTES = 1"

definition GROUP_ISSUE_RECONCILIATION_CLOCK_SKEW_MINUTES :: int where
  "GROUP_ISSUE_RECONCILIATION_CLOCK_SKEW_MINUTES = 5"

definition GROUP_ISSUE_FILING_CLAIM_STALE_MINUTES :: int where
  "GROUP_ISSUE_FILING_CLAIM_STALE_MINUTES = 5"

definition ISSUES_PER_PAGE :: nat where
  "ISSUES_PER_PAGE = 100"

definition MAX_RECONCILIATION_ISSUE_PAGES :: nat where
  "MAX_RECONCILIATION_ISSUE_PAGES = 10"

section \<open>Markers\<close>

definition group_marker :: "string \<Rightarrow> string" where
  "group_marker group_key = CHR ''g'' # hex_of group_key"

definition group_marker_comment :: "string \<Rightarrow> string" where
  "group_marker_comment group_key = ''<!-- epode-group: '' @ group_marker group_key @ '' -->''"

section \<open>GitHub's issue calls\<close>

record github_issue =
  ri_number :: int
  ri_html_url :: string
  ri_state :: string
  ri_body :: "string option"
  ri_created_at :: time
  ri_is_pull_request :: bool

record issue_list_error =
  le_kind :: issue_list_failure
  le_page :: nat

text \<open>
  What GitHub answers: whether an installation can be read and a token minted, the answers to the
  creation, listing, comment and read requests, and what other requests do to the database while the
  answer is on its way.
\<close>

record issue_env =
  ie_installation :: "int \<Rightarrow> bool"
  ie_token :: "int \<Rightarrow> bool"
  ie_create :: "int \<Rightarrow> string \<Rightarrow> issue_creation_failure + github_issue"
  ie_page :: "int \<Rightarrow> string \<Rightarrow> time \<Rightarrow> nat \<Rightarrow> issue_list_failure + github_issue list"
  ie_comment :: "int \<Rightarrow> string \<Rightarrow> int \<Rightarrow> bool"
  ie_issue :: "int \<Rightarrow> string \<Rightarrow> int \<Rightarrow> github_issue option"
  ie_others :: "issue_db \<Rightarrow> issue_db"

definition create_issue :: "issue_env \<Rightarrow> int \<Rightarrow> string \<Rightarrow> issue_creation_outcome + github_issue" where
  "create_issue env installation_id repo_full_name =
     (if \<not> validate_repo_full_name repo_full_name then Inl DefiniteFailure
      else if \<not> ie_token env installation_id then Inl DefiniteFailure
      else map_sum creation_outcome id (ie_create env installation_id repo_full_name))"

text \<open>The pages from \<open>page\<close> on; \<open>pages_left\<close> counts down to the cap.\<close>

fun listing_pages ::
  "(nat \<Rightarrow> issue_list_failure + github_issue list) \<Rightarrow> nat \<Rightarrow> nat \<Rightarrow> github_issue list
   \<Rightarrow> issue_list_error + github_issue list" where
  "listing_pages fetch 0 page issues = Inl \<lparr>le_kind = ListPaginationCap, le_page = page - 1\<rparr>"
| "listing_pages fetch (Suc pages_left) page issues =
     (case fetch page of
        Inl kind \<Rightarrow> Inl \<lparr>le_kind = kind, le_page = page\<rparr>
      | Inr response \<Rightarrow>
          (if length response < ISSUES_PER_PAGE then Inr (issues @ response)
           else listing_pages fetch pages_left (page + 1) (issues @ response)))"

definition reconciliation_issues ::
  "issue_env \<Rightarrow> int \<Rightarrow> string \<Rightarrow> time \<Rightarrow> issue_list_error + github_issue list" where
  "reconciliation_issues env installation_id repo_full_name since =
     (if \<not> validate_repo_full_name repo_full_name then Inl \<lparr>le_kind = ListAccess, le_page = 0\<rparr>
      else if \<not> ie_installation env installation_id then Inl \<lparr>le_kind = ListInstallation, le_page = 0\<rparr>
      else if \<not> ie_token env installation_id then Inl \<lparr>le_kind = ListAccess, le_page = 0\<rparr>
      else listing_pages (ie_page env installation_id repo_full_name since) MAX_RECONCILIATION_ISSUE_PAGES 1 [])"

definition create_issue_comment :: "issue_env \<Rightarrow> int \<Rightarrow> string \<Rightarrow> int \<Rightarrow> bool" where
  "create_issue_comment env installation_id repo_full_name issue_number \<longleftrightarrow>
     validate_repo_full_name repo_full_name \<and> ie_token env installation_id
     \<and> ie_comment env installation_id repo_full_name issue_number"

definition read_issue :: "issue_env \<Rightarrow> int \<Rightarrow> string \<Rightarrow> int \<Rightarrow> github_issue option" where
  "read_issue env installation_id repo_full_name issue_number =
     (if validate_repo_full_name repo_full_name \<and> ie_token env installation_id
      then ie_issue env installation_id repo_full_name issue_number else None)"

section \<open>Decisions\<close>

definition group_issue_reconciliation_retry_due :: "time option \<Rightarrow> time \<Rightarrow> bool" where
  "group_issue_reconciliation_retry_due state_refreshed_at now \<longleftrightarrow>
     opt_all (\<lambda>last_attempt. last_attempt \<le> now - minutes GROUP_ISSUE_RECONCILIATION_RETRY_MINUTES) state_refreshed_at"

definition group_issue_state_refresh_due :: "time option \<Rightarrow> time \<Rightarrow> bool" where
  "group_issue_state_refresh_due state_refreshed_at now \<longleftrightarrow>
     opt_all (\<lambda>last_refreshed. last_refreshed \<le> now - minutes GROUP_ISSUE_STATE_REFRESH_INTERVAL_MINUTES) state_refreshed_at"

definition group_issue_sync_needed ::
  "bool \<Rightarrow> bool \<Rightarrow> int \<Rightarrow> int option \<Rightarrow> time option \<Rightarrow> time \<Rightarrow> bool" where
  "group_issue_sync_needed has_github_issue needs_reconciliation current_report_count
     last_commented_report_count state_refreshed_at now =
     (if needs_reconciliation then group_issue_reconciliation_retry_due state_refreshed_at now
      else if \<not> has_github_issue then False
      else (case last_commented_report_count of None \<Rightarrow> False | Some n \<Rightarrow> current_report_count > n)
           \<or> group_issue_state_refresh_due state_refreshed_at now)"

datatype reconciliation_decision = Adopts | KeepWaiting | Releases

datatype reconciliation_inconclusive =
    RateLimited | TimedOut | NotFoundReply | PaginationCap | IncompletePagination
  | ServerReply | InstallationAccess | InvalidResponse | TransportFailure

datatype reconciliation_evidence =
    Complete "github_issue list"
  | Inconclusive reconciliation_inconclusive

record reconciliation_resolution =
  rr_decision :: reconciliation_decision
  rr_issue :: "github_issue option"
  rr_matching :: nat

definition carries_marker :: "string \<Rightarrow> github_issue \<Rightarrow> bool" where
  "carries_marker group_key i \<longleftrightarrow> \<not> ri_is_pull_request i
     \<and> (case ri_body i of None \<Rightarrow> False | Some body \<Rightarrow> contains_sub body (group_marker_comment group_key))"

definition issue_age :: "github_issue \<Rightarrow> time \<times> int" where
  "issue_age i = (ri_created_at i, ri_number i)"

text \<open>The loop over the marked issues: the oldest so far and their number.\<close>

fun oldest_loop :: "github_issue list \<Rightarrow> github_issue option \<Rightarrow> nat \<Rightarrow> github_issue option \<times> nat" where
  "oldest_loop [] oldest n = (oldest, n)"
| "oldest_loop (i # is) oldest n =
     oldest_loop is
       (case oldest of None \<Rightarrow> Some i | Some current \<Rightarrow> if issue_age i < issue_age current then Some i else oldest)
       (n + 1)"

definition group_issue_reconciliation_resolution ::
  "reconciliation_evidence \<Rightarrow> string \<Rightarrow> reconciliation_resolution" where
  "group_issue_reconciliation_resolution evidence group_key =
     (case evidence of
        Inconclusive reason \<Rightarrow> \<lparr>rr_decision = KeepWaiting, rr_issue = None, rr_matching = 0\<rparr>
      | Complete issues \<Rightarrow>
          (case oldest_loop (filter (carries_marker group_key) issues) None 0 of
             (oldest, n) \<Rightarrow>
               \<lparr>rr_decision = (if oldest \<noteq> None then Adopts else Releases), rr_issue = oldest, rr_matching = n\<rparr>))"

definition reconciliation_inconclusive_reason :: "issue_list_error \<Rightarrow> reconciliation_inconclusive" where
  "reconciliation_inconclusive_reason e =
     (if le_kind e = ListPaginationCap then PaginationCap
      else if le_page e > 1 then IncompletePagination
      else case le_kind e of
        ListRateLimit \<Rightarrow> RateLimited | ListTimeout \<Rightarrow> TimedOut | ListNotFound \<Rightarrow> NotFoundReply
      | ListPaginationCap \<Rightarrow> PaginationCap | ListInstallation \<Rightarrow> InstallationAccess
      | ListAccess \<Rightarrow> InstallationAccess | ListServer \<Rightarrow> ServerReply
      | ListInvalidResponse \<Rightarrow> InvalidResponse | ListTransport \<Rightarrow> TransportFailure)"

definition evidence_of :: "issue_list_error + github_issue list \<Rightarrow> reconciliation_evidence" where
  "evidence_of read =
     (case read of Inr issues \<Rightarrow> Complete issues | Inl e \<Rightarrow> Inconclusive (reconciliation_inconclusive_reason e))"

section \<open>The request that files an issue\<close>

definition validate_group_repo_mapping :: "issue_context \<Rightarrow> (int \<times> string) result" where
  "validate_group_repo_mapping c =
     (case xc_installation_id c of
        None \<Rightarrow> Inl (conflict ''The product has no GitHub repository mapping'')
      | Some installation_id \<Rightarrow>
         (case xc_repo_full_name c of
            None \<Rightarrow> Inl (conflict ''The product has no GitHub repository mapping'')
          | Some repo_full_name \<Rightarrow>
              (if \<not> xc_installation_active c
               then Inl (conflict ''The product GitHub repository mapping has no active installation for this team'')
               else Inr (installation_id, repo_full_name))))"

definition bad_gateway :: "string \<Rightarrow> api_error" where
  "bad_gateway message = api_error_new 502 message"

text \<open>
  The reply, whether a synchronization was spawned, and the database.  An error of a statement after
  the failed creation is only logged.
\<close>

record filing_end =
  fx_reply :: "(nat \<times> issue_link) result"
  fx_spawned :: bool
  fx_created :: bool
  fx_db :: issue_db

definition settle_filing ::
  "time \<Rightarrow> uuid \<Rightarrow> string \<Rightarrow> string \<Rightarrow> int \<Rightarrow> issue_creation_outcome + github_issue \<Rightarrow> issue_db \<Rightarrow> filing_end" where
  "settle_filing now workspace_id group_key repo_full_name report_count answer db =
     (case answer of
        Inl DefiniteFailure \<Rightarrow>
          \<lparr>fx_reply = Inl (bad_gateway ''GitHub did not accept the issue creation request''), fx_spawned = False,
           fx_created = True,
           fx_db = (case release_group_issue_filing_claim workspace_id group_key db of Inl _ \<Rightarrow> db | Inr (_, db') \<Rightarrow> db')\<rparr>
      | Inl AmbiguousFailure \<Rightarrow>
          \<lparr>fx_reply = Inl (bad_gateway ''GitHub issue filing is being reconciled; retry shortly''), fx_spawned = True,
           fx_created = True,
           fx_db = (case mark_group_issue_filing_for_reconciliation workspace_id group_key db of Inl _ \<Rightarrow> db | Inr (_, db') \<Rightarrow> db')\<rparr>
      | Inr issue \<Rightarrow>
          (case complete_group_issue_filing now workspace_id group_key
                  \<lparr>il_repo_full_name = repo_full_name, il_number = ri_number issue, il_url = ri_html_url issue,
                   il_state = ri_state issue\<rparr> report_count db of
             Inl e \<Rightarrow> \<lparr>fx_reply = Inl e, fx_spawned = False, fx_created = True, fx_db = db\<rparr>
           | Inr (stored, db') \<Rightarrow> \<lparr>fx_reply = Inr (201, stored), fx_spawned = False, fx_created = True, fx_db = db'\<rparr>))"

definition filing_refused :: "api_error \<Rightarrow> bool \<Rightarrow> issue_db \<Rightarrow> filing_end" where
  "filing_refused e spawned db = \<lparr>fx_reply = Inl e, fx_spawned = spawned, fx_created = False, fx_db = db\<rparr>"

definition already_filed :: "issue_link \<Rightarrow> issue_db \<Rightarrow> filing_end" where
  "already_filed link db = \<lparr>fx_reply = Inr (200, link), fx_spawned = True, fx_created = False, fx_db = db\<rparr>"

definition file_claimed ::
  "issue_env \<Rightarrow> time \<Rightarrow> time \<Rightarrow> uuid \<Rightarrow> string \<Rightarrow> string \<Rightarrow> int \<Rightarrow> int \<Rightarrow> string \<Rightarrow> issue_db \<Rightarrow> filing_end" where
  "file_claimed env now settled_at workspace_id group_key user_id report_count installation_id repo_full_name db =
     (case claim_group_issue_filing now
             \<lparr>fr_workspace_id = workspace_id, fr_group_key = group_key, fr_installation_id = installation_id,
              fr_repo_full_name = repo_full_name, fr_created_by = user_id, fr_claim_report_count = report_count\<rparr>
             (now - minutes GROUP_ISSUE_FILING_CLAIM_STALE_MINUTES) db of
        Inl e \<Rightarrow> filing_refused e False db
      | Inr (AlreadyFiled existing, db') \<Rightarrow> already_filed existing db'
      | Inr (InProgress, db') \<Rightarrow>
          filing_refused (conflict ''A GitHub issue is already being filed for this feedback group'') False db'
      | Inr (ReconciliationNeeded, db') \<Rightarrow>
          filing_refused (conflict ''GitHub issue reconciliation is in progress for this feedback group'') True db'
      | Inr (Claimed, db') \<Rightarrow>
          settle_filing settled_at workspace_id group_key repo_full_name report_count
            (create_issue env installation_id repo_full_name) (ie_others env db'))"

definition file_group_github_issue_handler ::
  "issue_env \<Rightarrow> bool \<Rightarrow> time \<Rightarrow> time \<Rightarrow> uuid \<Rightarrow> string \<Rightarrow> string \<Rightarrow> issue_db \<Rightarrow> filing_end" where
  "file_group_github_issue_handler env configured now settled_at workspace_id group_key user_id db =
     (case group_issue_context workspace_id group_key db of
        None \<Rightarrow> filing_refused (not_found ''Feedback group not found for this team'') False db
      | Some c \<Rightarrow>
         (case xc_merged_into c of
            Some target \<Rightarrow> filing_refused (conflict (''This feedback group was merged into '' @ target
                @ ''; file the issue on that group instead'')) False db
          | None \<Rightarrow>
             (case get_group_github_issue workspace_id group_key db of
                Some existing \<Rightarrow> already_filed existing db
              | None \<Rightarrow>
                 (case validate_group_repo_mapping c of
                    Inl e \<Rightarrow> filing_refused e False db
                  | Inr (installation_id, repo_full_name) \<Rightarrow>
                     (if \<not> configured
                      then filing_refused (api_error_new 503 ''GitHub App integration is not configured'') False db
                      else file_claimed env now settled_at workspace_id group_key user_id (xc_report_count c)
                             installation_id repo_full_name db)))))"

section \<open>Synchronization\<close>

text \<open>Reconciliation: whether a quarantined claim was handled, and the database; an error is a failed statement.\<close>

definition settle_reconciliation ::
  "time \<Rightarrow> uuid \<Rightarrow> string \<Rightarrow> reconciliation_context \<Rightarrow> reconciliation_resolution \<Rightarrow> issue_db \<Rightarrow> issue_db result" where
  "settle_reconciliation now workspace_id group_key c r db =
     (case rr_decision r of
        Adopts \<Rightarrow>
          (case rr_issue r of
             None \<Rightarrow> Inr db
           | Some issue \<Rightarrow>
               map_sum id snd (complete_group_issue_reconciliation now workspace_id group_key (rc_claimed_at c)
                 \<lparr>il_repo_full_name = rc_repo_full_name c, il_number = ri_number issue, il_url = ri_html_url issue,
                  il_state = ri_state issue\<rparr> (rc_claim_report_count c) db))
      | KeepWaiting \<Rightarrow> Inr db
      | Releases \<Rightarrow> map_sum id snd (release_group_issue_reconciliation_claim workspace_id group_key (rc_claimed_at c) db))"

definition listing_since :: "reconciliation_context \<Rightarrow> time" where
  "listing_since c = rc_needs_reconciliation_since c - minutes GROUP_ISSUE_RECONCILIATION_CLOCK_SKEW_MINUTES"

definition reconcile_group_github_issue ::
  "issue_env \<Rightarrow> time \<Rightarrow> time \<Rightarrow> uuid \<Rightarrow> string \<Rightarrow> issue_db \<Rightarrow> (bool \<times> issue_db) result" where
  "reconcile_group_github_issue env now settled_at workspace_id group_key db =
     result_bind (claim_group_issue_reconciliation now workspace_id group_key
         (now - minutes GROUP_ISSUE_RECONCILIATION_RETRY_MINUTES) db)
       (\<lambda>(c, db1).
          case c of
            None \<Rightarrow> Inr (False, db1)
          | Some c \<Rightarrow>
              result_bind (settle_reconciliation settled_at workspace_id group_key c
                  (group_issue_reconciliation_resolution
                     (evidence_of (reconciliation_issues env (rc_installation_id c) (rc_repo_full_name c) (listing_since c)))
                     group_key) (ie_others env db1))
                (\<lambda>db2. Inr (True, db2)))"

text \<open>A failed comment takes the counter back when it still has the claimed value.\<close>

definition post_group_evidence_comment ::
  "issue_env \<Rightarrow> uuid \<Rightarrow> string \<Rightarrow> sync_context \<Rightarrow> issue_db \<Rightarrow> issue_db" where
  "post_group_evidence_comment env workspace_id group_key c db =
     (let ok = create_issue_comment env (sc_installation_id c) (sc_repo_full_name c) (sc_issue_number c);
          db1 = ie_others env db
      in if ok then db1
         else case revert_last_commented_report_count workspace_id group_key (sc_observed c) (sc_current c) db1 of
           Inl _ \<Rightarrow> db1 | Inr (_, db2) \<Rightarrow> db2)"

definition refresh_group_issue_state ::
  "issue_env \<Rightarrow> time \<Rightarrow> uuid \<Rightarrow> string \<Rightarrow> sync_context \<Rightarrow> issue_db \<Rightarrow> issue_db" where
  "refresh_group_issue_state env now workspace_id group_key c db =
     (let db1 = ie_others env db
      in case read_issue env (sc_installation_id c) (sc_repo_full_name c) (sc_issue_number c) of
           None \<Rightarrow> db1
         | Some issue \<Rightarrow>
             (case update_group_issue_state now workspace_id group_key (ri_state issue) db1 of
                Inl _ \<Rightarrow> db1 | Inr (_, db2) \<Rightarrow> db2))"

definition comment_and_refresh ::
  "issue_env \<Rightarrow> time \<Rightarrow> uuid \<Rightarrow> string \<Rightarrow> sync_context \<Rightarrow> issue_db \<Rightarrow> issue_db result" where
  "comment_and_refresh env now workspace_id group_key c db =
     result_bind (if sc_current c > sc_observed c
                  then bump_last_commented_report_count workspace_id group_key (sc_observed c) (sc_current c) db
                  else Inr (False, db))
       (\<lambda>(claimed, db1).
          let db2 = (if claimed then post_group_evidence_comment env workspace_id group_key c db1 else db1)
          in if group_issue_state_refresh_due (sc_refreshed_at c) now
             then result_bind (claim_group_issue_state_refresh now workspace_id group_key
                      (now - minutes GROUP_ISSUE_STATE_REFRESH_INTERVAL_MINUTES) db2)
                    (\<lambda>(due, db3). Inr (if due then refresh_group_issue_state env now workspace_id group_key c db3 else db3))
             else Inr db2)"

definition sync_group_github_issue ::
  "issue_env \<Rightarrow> bool \<Rightarrow> time \<Rightarrow> time \<Rightarrow> uuid \<Rightarrow> string \<Rightarrow> issue_db \<Rightarrow> issue_db result" where
  "sync_group_github_issue env configured now settled_at workspace_id group_key db =
     (if \<not> configured then Inr db
      else result_bind (reconcile_group_github_issue env now settled_at workspace_id group_key db)
        (\<lambda>(handled, db1).
           if handled then Inr db1
           else case group_issue_sync_context workspace_id group_key db1 of
             None \<Rightarrow> Inr db1
           | Some c \<Rightarrow> comment_and_refresh env settled_at workspace_id group_key c db1))"

section \<open>The listing that spawns synchronizations\<close>

definition listed_needs_sync :: "time \<Rightarrow> listed_group \<Rightarrow> bool" where
  "listed_needs_sync now g =
     group_issue_sync_needed (lg_issue g \<noteq> None) (lg_needs_reconciliation g) (lg_report_count g)
       (lg_last_commented g) (lg_refreshed_at g) now"

definition product_groups_handler ::
  "time \<Rightarrow> uuid \<Rightarrow> uuid \<Rightarrow> int option \<Rightarrow> int option \<Rightarrow> issue_db
   \<Rightarrow> (listed_group list \<times> bool \<times> string list) result" where
  "product_groups_handler now workspace_id product_id limit offset db =
     (let limit = (case limit of None \<Rightarrow> 50 | Some n \<Rightarrow> n); offset = (case offset of None \<Rightarrow> 0 | Some n \<Rightarrow> n)
      in if \<not> (1 \<le> limit \<and> limit \<le> 100) \<or> offset < 0
         then Inl (bad_request ''Group pagination must use a limit from 1 to 100 and a non-negative offset'')
         else result_bind (list_product_groups workspace_id product_id limit offset db)
           (\<lambda>(groups, has_more).
              Inr (groups, has_more,
                   take MAX_GROUP_ISSUE_SYNCS_PER_REQUEST
                     (map lg_key (filter (listed_needs_sync now) groups)))))"

definition valid_report_group_key :: "string \<Rightarrow> bool" where
  "valid_report_group_key group_key \<longleftrightarrow>
     length group_key = 32 \<and> list_all (\<lambda>c. is_digit c \<or> (97 \<le> byte_val c \<and> byte_val c \<le> 102)) group_key"

definition merge_report_groups_handler ::
  "time \<Rightarrow> uuid \<Rightarrow> string \<Rightarrow> string \<Rightarrow> string \<Rightarrow> issue_db \<Rightarrow> ((int \<times> string) \<times> issue_db) result" where
  "merge_report_groups_handler now workspace_id source_key into_key user_id db =
     (if \<not> valid_report_group_key source_key \<or> \<not> valid_report_group_key into_key
      then Inl (bad_request ''Report group keys must be 32 lowercase hexadecimal characters'')
      else merge_report_groups now workspace_id source_key into_key user_id db)"

end
