(* ===== verification/GroupIssueDecision.thy ===== *)
theory GroupIssueDecision
  imports GroupIssueFiling
begin

text \<open>
  The decision of a reconciliation: it gives a quarantined claim up only on a complete listing without
  the marker, and adopts the oldest marked issue.
\<close>

section \<open>The decision of a reconciliation\<close>

lemma oldest_loop_count: "snd (oldest_loop is o1 n) = n + length is"
  by (induction "is" arbitrary: o1 n) auto

lemma oldest_loop_None: "fst (oldest_loop is o1 n) = None \<longleftrightarrow> is = [] \<and> o1 = None"
  by (induction "is" arbitrary: o1 n) (auto split: option.split)

lemma oldest_loop_Some:
  "fst (oldest_loop is o1 n) = Some i \<Longrightarrow>
     (i \<in> set is \<or> o1 = Some i) \<and> (\<forall>j \<in> set is. issue_age i \<le> issue_age j)
     \<and> (\<forall>j. o1 = Some j \<longrightarrow> issue_age i \<le> issue_age j)"
proof (induction "is" arbitrary: o1 n)
  case (Cons x xs)
  show ?case
  proof (cases o1)
    case None
    with Cons.IH [of "Some x" "n + 1"] Cons.prems show ?thesis by auto
  next
    case (Some c)
    show ?thesis
    proof (cases "issue_age x < issue_age c")
      case True
      with Some Cons.IH [of "Some x" "n + 1"] Cons.prems show ?thesis by (auto intro: order_trans less_imp_le)
    next
      case False
      with Some Cons.IH [of "Some c" "n + 1"] Cons.prems have
        "(i \<in> set xs \<or> c = i) \<and> (\<forall>j \<in> set xs. issue_age i \<le> issue_age j) \<and> issue_age i \<le> issue_age c" by auto
      with False Some show ?thesis by (auto intro: order_trans)
    qed
  qed
qed auto

text \<open>The pages fetched and their issues, when the listing ran to an incomplete page.\<close>

lemma listing_pages_Inr:
  "listing_pages fetch n pg acc = Inr issues \<Longrightarrow>
   \<exists>k < n. \<exists>pages. length pages = Suc k \<and> (\<forall>j \<le> k. fetch (pg + j) = Inr (pages ! j))
     \<and> (\<forall>j < k. ISSUES_PER_PAGE \<le> length (pages ! j)) \<and> length (pages ! k) < ISSUES_PER_PAGE
     \<and> issues = acc @ concat pages"
proof (induction n arbitrary: pg acc)
  case (Suc n)
  obtain response where f: "fetch pg = Inr response" using Suc.prems by (auto split: sum.split_asm)
  show ?case
  proof (cases "length response < ISSUES_PER_PAGE")
    case True
    with f Suc.prems show ?thesis by (intro exI [of _ 0] conjI exI [of _ "[response]"]) auto
  next
    case False
    with f Suc.prems have "listing_pages fetch n (pg + 1) (acc @ response) = Inr issues" by simp
    from Suc.IH [OF this] obtain k pages where k: "k < n" "length pages = Suc k"
      "\<forall>j \<le> k. fetch (pg + 1 + j) = Inr (pages ! j)" "\<forall>j < k. ISSUES_PER_PAGE \<le> length (pages ! j)"
      "length (pages ! k) < ISSUES_PER_PAGE" "issues = (acc @ response) @ concat pages" by blast
    have "\<forall>j \<le> Suc k. fetch (pg + j) = Inr ((response # pages) ! j)"
    proof (intro allI impI)
      fix j assume "j \<le> Suc k"
      with f k(3) show "fetch (pg + j) = Inr ((response # pages) ! j)" by (cases j) auto
    qed
    moreover have "\<forall>j < Suc k. ISSUES_PER_PAGE \<le> length ((response # pages) ! j)"
      using k(4) False by (auto simp: less_Suc_eq_0_disj)
    ultimately show ?thesis using k by (intro exI [of _ "Suc k"] conjI exI [of _ "response # pages"]) simp_all
  qed
qed simp

text \<open>
  A quarantined filing is given up only on proof of absence: GitHub answered every page of the
  listing, the last of at most ten pages was incomplete, and no listed issue carries the marker.
\<close>

theorem reconciliation_releases_only_on_absence:
  assumes "rr_decision (group_issue_reconciliation_resolution
      (evidence_of (reconciliation_issues env installation_id repo_full_name since)) key) = Releases"
  shows "\<exists>k pages. k < 10 \<and> length pages = Suc k
    \<and> (\<forall>j \<le> k. ie_page env installation_id repo_full_name since (1 + j) = Inr (pages ! j))
    \<and> length (pages ! k) < 100 \<and> (\<forall>i \<in> set (concat pages). \<not> carries_marker key i)"
proof (cases "reconciliation_issues env installation_id repo_full_name since")
  case (Inl e)
  with assms show ?thesis by (simp add: evidence_of_def group_issue_reconciliation_resolution_def)
next
  case (Inr issues)
  then have "listing_pages (ie_page env installation_id repo_full_name since) MAX_RECONCILIATION_ISSUE_PAGES 1 [] = Inr issues"
    by (simp add: reconciliation_issues_def split: if_split_asm)
  from listing_pages_Inr [OF this] obtain k pages where k: "k < 10" "length pages = Suc k"
    "\<forall>j \<le> k. ie_page env installation_id repo_full_name since (1 + j) = Inr (pages ! j)"
    "length (pages ! k) < 100" "issues = concat pages"
    by (auto simp: MAX_RECONCILIATION_ISSUE_PAGES_def ISSUES_PER_PAGE_def)
  have "fst (oldest_loop (filter (carries_marker key) issues) None 0) = None"
    using assms Inr by (simp add: evidence_of_def group_issue_reconciliation_resolution_def split_beta split: if_split_asm)
  then have "\<forall>i \<in> set (concat pages). \<not> carries_marker key i"
    unfolding oldest_loop_None k(5) by (simp add: filter_empty_conv)
  with k show ?thesis by blast
qed

definition marked_issue :: "int \<Rightarrow> string \<Rightarrow> time \<Rightarrow> github_issue" where
  "marked_issue n key at = \<lparr>ri_number = n, ri_html_url = ''url'', ri_state = ''open'',
     ri_body = Some (''text '' @ group_marker_comment key), ri_created_at = at, ri_is_pull_request = False\<rparr>"

definition sample_issue_env :: issue_env where
  "sample_issue_env = \<lparr>ie_installation = (\<lambda>_. True), ie_token = (\<lambda>_. True), ie_create = (\<lambda>_ _. Inl CreationTimeout),
     ie_page = (\<lambda>_ _ _ _. Inr [marked_issue 4 ''other'' 0]), ie_comment = (\<lambda>_ _ _. True), ie_issue = (\<lambda>_ _ _. None),
     ie_others = (\<lambda>db. db)\<rparr>"

theorem reconciliation_releases_only_on_absence_witness:
  "\<exists>k pages. k < 10 \<and> length pages = Suc k
    \<and> (\<forall>j \<le> k. ie_page sample_issue_env 9 ''o/r'' 0 (1 + j) = Inr (pages ! j))
    \<and> length (pages ! k) < 100 \<and> (\<forall>i \<in> set (concat pages). \<not> carries_marker ''k'' i)"
proof -
  have "rr_decision (group_issue_reconciliation_resolution
      (evidence_of (reconciliation_issues sample_issue_env 9 ''o/r'' 0)) ''k'') = Releases"
    by code_simp
  from reconciliation_releases_only_on_absence [OF this] show ?thesis .
qed

text \<open>
  When the marker is found, the oldest issue that carries it is adopted, by creation time and
  then by number, and all that carry it are counted; pull requests never match.
\<close>

theorem reconciliation_adopts_the_oldest:
  assumes "rr_decision (group_issue_reconciliation_resolution (Complete issues) key) = Adopts"
  shows "\<exists>i \<in> set issues. rr_issue (group_issue_reconciliation_resolution (Complete issues) key) = Some i
    \<and> carries_marker key i \<and> \<not> ri_is_pull_request i
    \<and> (\<forall>j \<in> set issues. carries_marker key j \<longrightarrow> (ri_created_at i, ri_number i) \<le> (ri_created_at j, ri_number j))
    \<and> rr_matching (group_issue_reconciliation_resolution (Complete issues) key) = length (filter (carries_marker key) issues)"
proof -
  obtain oldest n where o: "oldest_loop (filter (carries_marker key) issues) None 0 = (oldest, n)" by (metis surj_pair)
  with assms obtain i where i: "oldest = Some i"
    by (auto simp: group_issue_reconciliation_resolution_def split: if_split_asm)
  with o have "fst (oldest_loop (filter (carries_marker key) issues) None 0) = Some i" by simp
  from oldest_loop_Some [OF this] have "i \<in> set issues" "carries_marker key i"
    "\<forall>j \<in> set issues. carries_marker key j \<longrightarrow> issue_age i \<le> issue_age j" by auto
  moreover have "n = length (filter (carries_marker key) issues)"
    using oldest_loop_count [of "filter (carries_marker key) issues" None 0] o by simp
  moreover have "\<not> ri_is_pull_request i" using \<open>carries_marker key i\<close> by (simp add: carries_marker_def)
  ultimately show ?thesis using o i by (intro bexI [of _ i]) (simp_all add: group_issue_reconciliation_resolution_def issue_age_def)
qed

theorem reconciliation_adopts_the_oldest_witness:
  "rr_issue (group_issue_reconciliation_resolution
     (Complete [marked_issue 7 ''k'' 5, marked_issue 4 ''k'' 3, marked_issue 1 ''other'' 0]) ''k'') = Some (marked_issue 4 ''k'' 3)"
proof -
  let ?is = "[marked_issue 7 ''k'' 5, marked_issue 4 ''k'' 3, marked_issue 1 ''other'' 0]"
  have "rr_decision (group_issue_reconciliation_resolution (Complete ?is) ''k'') = Adopts" by code_simp
  from reconciliation_adopts_the_oldest [OF this] obtain i where
    i: "i \<in> set ?is" "rr_issue (group_issue_reconciliation_resolution (Complete ?is) ''k'') = Some i" "carries_marker ''k'' i"
    "\<forall>j \<in> set ?is. carries_marker ''k'' j \<longrightarrow> (ri_created_at i, ri_number i) \<le> (ri_created_at j, ri_number j)" by blast
  have "carries_marker ''k'' (marked_issue 4 ''k'' 3)" "\<not> carries_marker ''k'' (marked_issue 1 ''other'' 0)" by code_simp+
  with i(1,3,4) have "i = marked_issue 4 ''k'' 3" by (auto simp: marked_issue_def)
  with i(2) show ?thesis by simp
qed

end
