(* ===== verification/FilingProtocol.thy ===== *)
theory FilingProtocol
  imports GroupIssueDecision GroupLineage
begin

text \<open>
  The filing protocol of one group as a step relation.  Any number of requests file, time out, crash
  and reconcile, other requests quarantine stale claims, groups are merged, and the rest of the
  service works on; the store operations are those of \<open>GroupIssues\<close>.  A creation request outlives
  the handler that sent it: GitHub may act on it at any time after the claim, also when the handler
  has timed out or crashed and others have reconciled its claim.  A creation is late when it lands
  after a reconciliation of that very claim has listed the repository (one that lands while the pages
  are read and is missed by them is ordered after the listing).  Two facts about the outside are
  assumed by the rules: a handler writes to the database within the five minutes after its claim (its
  own requests time out after fifteen seconds), and a complete listing contains every marked issue of
  the repository since a given time, with clocks at most five minutes apart.
\<close>

section \<open>World\<close>

record filer =
  fl_claimed :: time
  fl_repo :: string
  fl_created :: bool
  fl_gone :: bool
  fl_listed :: bool

record reconciler =
  ro_context :: reconciliation_context
  ro_resolution :: "reconciliation_resolution option"

record filing_world =
  fw_now :: time
  fw_db :: issue_db
  fw_filers :: "filer list"
  fw_reconcilers :: "reconciler list"
  fw_issues :: "(string \<times> github_issue) list"
  fw_late :: "(string \<times> github_issue) list"

abbreviation STALE :: time where
  "STALE \<equiv> minutes GROUP_ISSUE_FILING_CLAIM_STALE_MINUTES"

abbreviation SKEW :: time where
  "SKEW \<equiv> minutes GROUP_ISSUE_RECONCILIATION_CLOCK_SKEW_MINUTES"

text \<open>A handler that still runs may write; its request may be carried out long after.\<close>

definition active :: "time \<Rightarrow> filer \<Rightarrow> bool" where
  "active now f \<longleftrightarrow> \<not> fl_gone f \<and> now < fl_claimed f + STALE"

definition creating :: "filer \<Rightarrow> filer \<Rightarrow> filer" where
  "creating f g = (if g = f then g\<lparr>fl_created := True\<rparr> else g)"

definition leaving :: "filer \<Rightarrow> filer \<Rightarrow> filer" where
  "leaving f g = (if g = f then g\<lparr>fl_gone := True\<rparr> else g)"

text \<open>A complete listing is read for the claim that its reconciler has taken over.\<close>

definition listed_by :: "reconciliation_evidence \<Rightarrow> reconciler \<Rightarrow> filer \<Rightarrow> filer" where
  "listed_by e q f = (case e of
     Complete _ \<Rightarrow> if fl_claimed f = rc_needs_reconciliation_since (ro_context q) then f\<lparr>fl_listed := True\<rparr> else f
   | Inconclusive _ \<Rightarrow> f)"

definition github_issues :: "filing_world \<Rightarrow> (string \<times> github_issue) list" where
  "github_issues w = fw_late w @ fw_issues w"

definition new_filer :: "time \<Rightarrow> string \<Rightarrow> filer" where
  "new_filer now repo = \<lparr>fl_claimed = now, fl_repo = repo, fl_created = False, fl_gone = False, fl_listed = False\<rparr>"

definition marked :: "string \<Rightarrow> (string \<times> github_issue) list \<Rightarrow> (string \<times> github_issue) list" where
  "marked key issues = filter (\<lambda>(repo, i). carries_marker key i) issues"

text \<open>No claim can be inserted: the group is gone or merged away.\<close>

definition group_closed :: "uuid \<Rightarrow> string \<Rightarrow> issue_db \<Rightarrow> bool" where
  "group_closed ws key db \<longleftrightarrow> (case group_of ws key db of None \<Rightarrow> True | Some g \<Rightarrow> gr_merged_into g \<noteq> None)"

text \<open>A failed statement leaves the database as it was.\<close>

definition then_db :: "issue_db \<Rightarrow> issue_db result \<Rightarrow> issue_db" where
  "then_db db r = (case r of Inl _ \<Rightarrow> db | Inr db' \<Rightarrow> db')"

definition filed_opt :: "issue_row option \<Rightarrow> bool" where
  "filed_opt r \<longleftrightarrow> (case r of None \<Rightarrow> False | Some r \<Rightarrow> is_filing_state r = Filed)"

inductive filing_step :: "uuid \<Rightarrow> string \<Rightarrow> filing_world \<Rightarrow> filing_world \<Rightarrow> bool" for ws key where
  claims: "claim_group_issue_filing (fw_now w) req (fw_now w - STALE) (fw_db w) = Inr (c, db')
    \<Longrightarrow> fr_workspace_id req = ws \<Longrightarrow> fr_group_key req = key \<Longrightarrow> fw_now w < t
    \<Longrightarrow> filing_step ws key w (w\<lparr>fw_now := t, fw_db := db', fw_filers :=
          (if c = Claimed then new_filer (fw_now w) (fr_repo_full_name req) # fw_filers w else fw_filers w)\<rparr>)"
| creates: "f \<in> set (fw_filers w) \<Longrightarrow> \<not> fl_created f \<Longrightarrow> \<not> fl_listed f \<Longrightarrow> carries_marker key i
    \<Longrightarrow> fw_now w - SKEW \<le> ri_created_at i
    \<Longrightarrow> fw_now w < t \<Longrightarrow> filing_step ws key w (w\<lparr>fw_now := t, fw_issues := (fl_repo f, i) # fw_issues w,
          fw_filers := map (creating f) (fw_filers w)\<rparr>)"
| lands_late: "f \<in> set (fw_filers w) \<Longrightarrow> \<not> fl_created f \<Longrightarrow> fl_listed f \<Longrightarrow> carries_marker key i
    \<Longrightarrow> fw_now w - SKEW \<le> ri_created_at i
    \<Longrightarrow> fw_now w < t \<Longrightarrow> filing_step ws key w (w\<lparr>fw_now := t, fw_late := (fl_repo f, i) # fw_late w,
          fw_filers := map (creating f) (fw_filers w)\<rparr>)"
| completes: "f \<in> set (fw_filers w) \<Longrightarrow> active (fw_now w) f \<Longrightarrow> fl_created f \<Longrightarrow> fw_now w < t
    \<Longrightarrow> filing_step ws key w (w\<lparr>fw_now := t, fw_filers := remove1 f (fw_filers w), fw_db :=
          then_db (fw_db w) (map_sum id snd (complete_group_issue_filing (fw_now w) ws key link n (fw_db w)))\<rparr>)"
| rejected: "f \<in> set (fw_filers w) \<Longrightarrow> active (fw_now w) f \<Longrightarrow> \<not> fl_created f \<Longrightarrow> fw_now w < t
    \<Longrightarrow> filing_step ws key w (w\<lparr>fw_now := t, fw_filers := remove1 f (fw_filers w), fw_db :=
          then_db (fw_db w) (map_sum id snd (release_group_issue_filing_claim ws key (fw_db w)))\<rparr>)"
| doubtful: "f \<in> set (fw_filers w) \<Longrightarrow> active (fw_now w) f \<Longrightarrow> fw_now w < t
    \<Longrightarrow> filing_step ws key w (w\<lparr>fw_now := t, fw_filers := map (leaving f) (fw_filers w), fw_db :=
          then_db (fw_db w) (map_sum id snd (mark_group_issue_filing_for_reconciliation ws key (fw_db w)))\<rparr>)"
| reconciles: "claim_group_issue_reconciliation (fw_now w) ws key cutoff (fw_db w) = Inr (c, db') \<Longrightarrow> fw_now w < t
    \<Longrightarrow> filing_step ws key w (w\<lparr>fw_now := t, fw_db := db', fw_reconcilers :=
          (case c of None \<Rightarrow> fw_reconcilers w | Some c \<Rightarrow> \<lparr>ro_context = c, ro_resolution = None\<rparr> # fw_reconcilers w)\<rparr>)"
| lists: "q \<in> set (fw_reconcilers w)
    \<Longrightarrow> (\<And>issues. e = Complete issues \<Longrightarrow>
          (\<forall>(repo, i) \<in> set (github_issues w). repo = rc_repo_full_name (ro_context q)
             \<and> listing_since (ro_context q) \<le> ri_created_at i \<longrightarrow> i \<in> set issues))
    \<Longrightarrow> fw_now w < t \<Longrightarrow> filing_step ws key w (w\<lparr>fw_now := t, fw_filers := map (listed_by e q) (fw_filers w), fw_reconcilers :=
          q\<lparr>ro_resolution := Some (group_issue_reconciliation_resolution e key)\<rparr> # remove1 q (fw_reconcilers w)\<rparr>)"
| settles: "q \<in> set (fw_reconcilers w) \<Longrightarrow> ro_resolution q = Some r \<Longrightarrow> fw_now w < t
    \<Longrightarrow> filing_step ws key w (w\<lparr>fw_now := t, fw_reconcilers := remove1 q (fw_reconcilers w), fw_db :=
          then_db (fw_db w) (settle_reconciliation (fw_now w) ws key (ro_context q) r (fw_db w))\<rparr>)"
| merges: "merge_report_groups (fw_now w) ws source_key target_key actor (fw_db w) = Inr ((n, k), db') \<Longrightarrow> fw_now w < t
    \<Longrightarrow> filing_step ws key w (w\<lparr>fw_now := t, fw_db := db'\<rparr>)"
| foreign: "\<not> carries_marker key i \<Longrightarrow> fw_now w < t
    \<Longrightarrow> filing_step ws key w (w\<lparr>fw_now := t, fw_issues := (repo, i) # fw_issues w\<rparr>)"
| elsewhere: "issue_of ws key db' = issue_of ws key (fw_db w)
      \<or> filed_opt (issue_of ws key db') \<and> filed_opt (issue_of ws key (fw_db w))
    \<Longrightarrow> issues_ok (gd_issues db') \<Longrightarrow> distinct (map gr_key (gd_groups db'))
    \<Longrightarrow> (group_closed ws key (fw_db w) \<longrightarrow> group_closed ws key db') \<Longrightarrow> fw_now w < t
    \<Longrightarrow> filing_step ws key w (w\<lparr>fw_now := t, fw_db := db'\<rparr>)"

section \<open>What holds throughout\<close>

text \<open>An issue is accounted for by the row of its group.\<close>

definition accounted :: "time \<Rightarrow> bool \<Rightarrow> issue_row option \<Rightarrow> filer list \<Rightarrow> string \<times> github_issue \<Rightarrow> bool" where
  "accounted now closed row fs x \<longleftrightarrow>
     (case row of
        None \<Rightarrow> closed
      | Some r \<Rightarrow> is_filing_state r = Filed
          \<or> (fst x = is_repo_full_name r \<and> is_claimed_at r - SKEW \<le> ri_created_at (snd x)
             \<and> (is_filing_state r = Pending \<longrightarrow> (\<forall>f \<in> set fs. active now f \<longrightarrow> fl_created f))))"

text \<open>A live filer owns the pending row.\<close>

definition owns :: "time \<Rightarrow> issue_row option \<Rightarrow> filer \<Rightarrow> bool" where
  "owns now row f \<longleftrightarrow> (active now f \<longrightarrow>
     (\<exists>r. row = Some r \<and> is_filing_state r = Pending \<and> is_claimed_at r = fl_claimed f \<and> is_repo_full_name r = fl_repo f))"

text \<open>A request that GitHub may still carry out in time holds its row unfiled, whatever became of its handler.\<close>

definition waiting :: "filer \<Rightarrow> bool" where
  "waiting f \<longleftrightarrow> \<not> fl_created f \<and> \<not> fl_listed f"

definition expects :: "issue_row option \<Rightarrow> (string \<times> github_issue) list \<Rightarrow> filer \<Rightarrow> bool" where
  "expects row G f \<longleftrightarrow> (waiting f \<longrightarrow> G = [] \<and>
     (\<exists>r. row = Some r \<and> is_filing_state r \<noteq> Filed \<and> is_claimed_at r = fl_claimed f \<and> is_repo_full_name r = fl_repo f))"

text \<open>
  A reconciler that still holds the row knows it, decides only when it has listed the repository for
  the row's claim, and releases it only when there is no issue.
\<close>

definition informed :: "issue_row option \<Rightarrow> filer list \<Rightarrow> (string \<times> github_issue) list \<Rightarrow> reconciler \<Rightarrow> bool" where
  "informed row fs G q \<longleftrightarrow> (\<forall>r. row = Some r \<longrightarrow> is_filing_state r = NeedsReconciliation
     \<longrightarrow> is_refreshed_at r = Some (rc_claimed_at (ro_context q))
     \<longrightarrow> rc_repo_full_name (ro_context q) = is_repo_full_name r
        \<and> rc_needs_reconciliation_since (ro_context q) = is_claimed_at r
        \<and> (\<forall>res. ro_resolution q = Some res \<longrightarrow> rr_decision res \<noteq> KeepWaiting
             \<longrightarrow> (\<forall>f \<in> set fs. fl_claimed f = is_claimed_at r \<longrightarrow> fl_listed f) \<and> (rr_decision res = Releases \<longrightarrow> G = [])))"

definition filing_ok ::
  "time \<Rightarrow> bool \<Rightarrow> issue_row option \<Rightarrow> filer list \<Rightarrow> reconciler list \<Rightarrow> (string \<times> github_issue) list \<Rightarrow> bool" where
  "filing_ok now closed row fs qs G \<longleftrightarrow>
     length G \<le> 1 \<and> (\<forall>x \<in> set G. accounted now closed row fs x)
     \<and> distinct (map fl_claimed fs) \<and> (\<forall>f \<in> set fs. fl_claimed f < now \<and> owns now row f \<and> expects row G f)
     \<and> (\<forall>q \<in> set qs. rc_claimed_at (ro_context q) < now \<and> informed row fs G q)"

lemma filing_ok_later:
  assumes "filing_ok now closed row fs qs G" and "now \<le> t"
  shows "filing_ok t closed row fs qs G"
  using assms
  by (fastforce simp: filing_ok_def accounted_def owns_def active_def split: option.split_asm option.split)

lemma same_claim:
  assumes "filing_ok now closed row fs qs G" and "f \<in> set fs" "g \<in> set fs" "active now f \<or> waiting f" "active now g \<or> waiting g"
  shows "f = g"
proof -
  have "owns now row f" "owns now row g" "expects row G f" "expects row G g" using assms(1-3) by (auto simp: filing_ok_def)
  with assms(4,5) have "fl_claimed f = fl_claimed g" by (auto simp: owns_def expects_def)
  with assms(1-3) show ?thesis by (auto simp: filing_ok_def dest: distinct_map_eq)
qed

text \<open>Fewer filers and reconcilers, and a row that no filer owns or expects any more.\<close>

lemma filing_ok_fewer:
  assumes "filing_ok now closed row fs qs G" and "set fs' \<subseteq> set fs" "distinct (map fl_claimed fs')" "set qs' \<subseteq> set qs"
  shows "filing_ok now closed row fs' qs' G"
  using assms unfolding filing_ok_def accounted_def informed_def
  by (fastforce split: option.split_asm option.split)

lemma filing_ok_row:
  assumes ok: "filing_ok now closed row fs qs G" and idle: "\<forall>f \<in> set fs. \<not> active now f" and exp: "\<forall>f \<in> set fs. expects row' G f"
    and acc: "\<forall>x \<in> set G. accounted now closed' row' fs x" and inf: "\<forall>q \<in> set qs. informed row' fs G q"
  shows "filing_ok now closed' row' fs qs G"
  using assms by (simp add: filing_ok_def owns_def)

lemma informed_unless:
  "(\<And>r. row = Some r \<Longrightarrow> is_filing_state r = NeedsReconciliation \<Longrightarrow> is_refreshed_at r \<noteq> Some (rc_claimed_at (ro_context q)))
   \<Longrightarrow> informed row fs G q"
  by (auto simp: informed_def)

text \<open>The filer of a live claim is the only one, and until it has created its issue there is none.\<close>

lemma live_filer:
  assumes ok: "filing_ok now closed row fs qs G" and f: "f \<in> set fs" "active now f"
  obtains r where "row = Some r" "is_filing_state r = Pending" "is_claimed_at r = fl_claimed f"
    "is_repo_full_name r = fl_repo f" "\<forall>g \<in> set fs. g \<noteq> f \<longrightarrow> \<not> active now g \<and> \<not> waiting g" "\<not> fl_created f \<longrightarrow> G = []"
proof -
  obtain r where r: "row = Some r" "is_filing_state r = Pending" "is_claimed_at r = fl_claimed f" "is_repo_full_name r = fl_repo f"
    using ok f by (auto simp: filing_ok_def owns_def)
  have "\<forall>g \<in> set fs. g \<noteq> f \<longrightarrow> \<not> active now g \<and> \<not> waiting g" using same_claim [OF ok f(1)] f(2) by blast
  moreover have "G = []" if "\<not> fl_created f"
  proof (rule ccontr)
    assume "G \<noteq> []"
    then obtain x where "x \<in> set G" by (cases G) auto
    with ok have "accounted now closed row fs x" by (simp add: filing_ok_def)
    with r f that show False by (auto simp: accounted_def)
  qed
  ultimately show ?thesis using r that by blast
qed

section \<open>What the store operations do to the row of the group\<close>

lemma update_row:
  assumes "update_issues p f db = Inr (b, db')" and "\<And>r. p r \<Longrightarrow> of_issue ws key (f r) = of_issue ws key r"
  shows "issue_of ws key db' = map_option (\<lambda>r. if p r then f r else r) (issue_of ws key db)"
    and "issues_ok (gd_issues db')" and "gd_groups db' = gd_groups db" and "group_closed ws key db' = group_closed ws key db"
  using assms issue_of_update [OF assms] by (auto simp: update_issues_Inr group_closed_def group_of_def)

text \<open>An operation that leaves the groups alone and keeps the table's constraints.\<close>

definition rows_only :: "uuid \<Rightarrow> string \<Rightarrow> issue_db \<Rightarrow> issue_db \<Rightarrow> bool" where
  "rows_only ws key db db' \<longleftrightarrow> issues_ok (gd_issues db') \<and> gd_groups db' = gd_groups db
     \<and> group_closed ws key db' = group_closed ws key db"

lemma rows_only_refl: "issues_ok (gd_issues db) \<Longrightarrow> rows_only ws key db db"
  by (simp add: rows_only_def)

lemma pending_iff:
  assumes "issues_ok (gd_issues db)" and "issue_of ws key db = Some r"
  shows "pending_claim ws key r \<longleftrightarrow> is_filing_state r = Pending"
  using assms by (simp add: issue_of_iff pending_claim_def)

lemma completed_row:
  assumes ok: "issues_ok (gd_issues db)" and row: "issue_of ws key db = Some r" "is_filing_state r = Pending"
  shows "let db' = then_db db (map_sum id snd (complete_group_issue_filing now ws key link n db))
    in rows_only ws key db db' \<and> (issue_of ws key db' = Some r \<and> db' = db \<or> issue_of ws key db' = Some (filed now link n r))"
proof (cases "complete_group_issue_filing now ws key link n db")
  case (Inl e)
  then show ?thesis using ok row by (simp add: then_db_def rows_only_def)
next
  case (Inr res)
  obtain stored db' where res: "res = (stored, db')" by (cases res)
  obtain b where u: "update_issues (pending_claim ws key) (filed now link n) db = Inr (b, db')"
    using Inr res by (auto simp: complete_group_issue_filing_def result_bind_Inr split: option.split_asm prod.split_asm if_split_asm)
  have f: "of_issue ws key (filed now link n x) = of_issue ws key x" for x by (simp add: of_issue_def filed_def)
  from update_row [OF u f] row pending_iff [OF ok row(1)] have "issue_of ws key db' = Some (filed now link n r)" by simp
  with Inr res update_row(2-4) [OF u f] show ?thesis by (simp add: then_db_def rows_only_def)
qed

lemma release_row:
  assumes ok: "issues_ok (gd_issues db)" and row: "issue_of ws key db = Some r" "is_filing_state r = Pending"
  shows "let db' = then_db db (map_sum id snd (release_group_issue_filing_claim ws key db))
    in rows_only ws key db db' \<and> issue_of ws key db' = None"
  using row issues_ok_delete [OF ok] pending_iff [OF ok row(1)]
  by (simp add: release_group_issue_filing_claim_def then_db_def rows_only_def issue_of_delete [OF ok] group_closed_def group_of_def)

lemma mark_row:
  assumes ok: "issues_ok (gd_issues db)" and row: "issue_of ws key db = Some r" "is_filing_state r = Pending"
  shows "let db' = then_db db (map_sum id snd (mark_group_issue_filing_for_reconciliation ws key db))
    in rows_only ws key db db' \<and> issue_of ws key db' = Some (to_quarantine r)"
proof -
  have "update_issues (pending_claim ws key) to_quarantine db = Inr (rows_affected (pending_claim ws key) (gd_issues db) = 1,
      db\<lparr>gd_issues := update_where (pending_claim ws key) to_quarantine (gd_issues db)\<rparr>)" (is "_ = Inr (_, ?d)")
    using ok by (intro quarantine_is_update) (simp_all add: issue_inv_def pending_claim_def)
  from update_row [OF this, of ws key] row pending_iff [OF ok row(1)] this show ?thesis
    by (simp add: mark_group_issue_filing_for_reconciliation_def then_db_def rows_only_def of_issue_def to_quarantine_def)
qed

lemma reconciliation_claim_row:
  assumes ok: "issues_ok (gd_issues db)" and run: "claim_group_issue_reconciliation now ws key cutoff db = Inr (c, db')"
  shows "rows_only ws key db db'"
    and "c = None \<Longrightarrow> issue_of ws key db' = issue_of ws key db"
    and "c = Some x \<Longrightarrow> \<exists>r. issue_of ws key db = Some r \<and> is_filing_state r = NeedsReconciliation
      \<and> issue_of ws key db' = Some (r\<lparr>is_refreshed_at := Some now\<rparr>) \<and> rc_claimed_at x = now
      \<and> rc_repo_full_name x = is_repo_full_name r \<and> rc_needs_reconciliation_since x = is_claimed_at r"
proof -
  note u = claim_reconciliation_is_update [OF run]
  have row: "issue_of ws key db' = map_option (\<lambda>r. if reconcilable ws key db cutoff r then r\<lparr>is_refreshed_at := Some now\<rparr> else r)
      (issue_of ws key db)" and keep: "rows_only ws key db db'"
    using update_row [OF u, of ws key] by (simp_all add: of_issue_def rows_only_def)
  show "rows_only ws key db db'" by (rule keep)
  have c: "c = map_option (\<lambda>r. \<lparr>rc_installation_id = is_installation_id r, rc_repo_full_name = is_repo_full_name r,
                 rc_needs_reconciliation_since = is_claimed_at r, rc_claimed_at = now,
                 rc_claim_report_count = is_last_commented r\<rparr>) (find (reconcilable ws key db cutoff) (gd_issues db))"
    using run by (auto simp: claim_group_issue_reconciliation_def Let_def result_bind_Inr)
  show "issue_of ws key db' = issue_of ws key db" if "c = None"
  proof (cases "issue_of ws key db")
    case (Some r)
    then have "r \<in> set (gd_issues db)" using ok by (simp add: issue_of_iff)
    with that c have "\<not> reconcilable ws key db cutoff r" by (auto simp: find_None_iff)
    with row Some show ?thesis by simp
  qed (simp add: row)
  show "\<exists>r. issue_of ws key db = Some r \<and> is_filing_state r = NeedsReconciliation
      \<and> issue_of ws key db' = Some (r\<lparr>is_refreshed_at := Some now\<rparr>) \<and> rc_claimed_at x = now
      \<and> rc_repo_full_name x = is_repo_full_name r \<and> rc_needs_reconciliation_since x = is_claimed_at r" if cx: "c = Some x"
  proof -
    obtain r where r: "find (reconcilable ws key db cutoff) (gd_issues db) = Some r" "x = \<lparr>rc_installation_id = is_installation_id r,
        rc_repo_full_name = is_repo_full_name r, rc_needs_reconciliation_since = is_claimed_at r, rc_claimed_at = now,
        rc_claim_report_count = is_last_commented r\<rparr>" using c cx by (cases "find (reconcilable ws key db cutoff) (gd_issues db)") auto
    then have p: "r \<in> set (gd_issues db)" "reconcilable ws key db cutoff r" by (auto dest: find_SomeD)
    then have "issue_of ws key db = Some r" "is_filing_state r = NeedsReconciliation"
      using ok by (simp_all add: issue_of_iff reconcilable_def)
    with row p(2) r(2) show ?thesis by simp
  qed
qed

lemma settle_row:
  assumes ok: "issues_ok (gd_issues db)"
  shows "let db' = then_db db (settle_reconciliation now ws key c res db) in rows_only ws key db db'
    \<and> (issue_of ws key db' = issue_of ws key db
       \<or> (\<exists>r. issue_of ws key db = Some r \<and> reconciling ws key (rc_claimed_at c) r
            \<and> (rr_decision res = Adopts \<and> (\<exists>link n. issue_of ws key db' = Some (filed now link n r))
               \<or> rr_decision res = Releases \<and> issue_of ws key db' = None)))"
proof (cases "settle_reconciliation now ws key c res db")
  case (Inl e)
  then show ?thesis using ok by (simp add: then_db_def rows_only_def)
next
  case (Inr db')
  then consider (same) "db' = db"
    | (adopt) b link n where "rr_decision res = Adopts" "complete_group_issue_reconciliation now ws key (rc_claimed_at c) link n db = Inr (b, db')"
    | (gone) b where "rr_decision res = Releases" "release_group_issue_reconciliation_claim ws key (rc_claimed_at c) db = Inr (b, db')"
    by (auto simp: settle_reconciliation_def map_sum_snd_Inr split: reconciliation_decision.split_asm option.split_asm)
  then show ?thesis
  proof cases
    case same
    with Inr ok show ?thesis by (simp add: then_db_def rows_only_def)
  next
    case adopt
    then have u: "update_issues (reconciling ws key (rc_claimed_at c)) (filed now link n) db = Inr (b, db')"
      by (simp add: complete_group_issue_reconciliation_def)
    have f: "of_issue ws key (filed now link n x) = of_issue ws key x" for x by (simp add: of_issue_def filed_def)
    from update_row [OF u f] Inr adopt(1) show ?thesis
      by (cases "issue_of ws key db") (auto simp: then_db_def rows_only_def)
  next
    case gone
    then have db': "db' = db\<lparr>gd_issues := delete_where (reconciling ws key (rc_claimed_at c)) (gd_issues db)\<rparr>"
      by (auto simp: release_group_issue_reconciliation_claim_def Let_def)
    have "rows_only ws key db db'"
      using issues_ok_delete [OF ok] by (simp add: rows_only_def db' group_closed_def group_of_def)
    with issue_of_delete [OF ok, of ws key] Inr gone(1) show ?thesis
      by (cases "issue_of ws key db") (auto simp: then_db_def db')
  qed
qed

lemma claim_row:
  assumes ok: "issues_ok (gd_issues db)"
    and run: "claim_group_issue_filing now req cutoff db = Inr (c, db')"
    and req: "fr_workspace_id req = ws" "fr_group_key req = key"
  shows "rows_only ws key db db'"
    and "c = Claimed \<Longrightarrow> issue_of ws key db = None \<and> \<not> group_closed ws key db \<and> issue_of ws key db' = Some (pending_row now req)"
    and "c \<noteq> Claimed \<Longrightarrow> issue_of ws key db' = issue_of ws key db \<or>
      (\<exists>r. issue_of ws key db = Some r \<and> is_filing_state r = Pending \<and> is_claimed_at r \<le> cutoff
         \<and> issue_of ws key db' = Some (to_quarantine r))"
proof -
  have "rows_only ws key db db' \<and> (c = Claimed \<longrightarrow> issue_of ws key db = None \<and> \<not> group_closed ws key db
      \<and> issue_of ws key db' = Some (pending_row now req))
    \<and> (c \<noteq> Claimed \<longrightarrow> issue_of ws key db' = issue_of ws key db \<or>
      (\<exists>r. issue_of ws key db = Some r \<and> is_filing_state r = Pending \<and> is_claimed_at r \<le> cutoff
         \<and> issue_of ws key db' = Some (to_quarantine r)))"
    using run
  proof (cases rule: claim_filing_cases)
    case inserted
    have db': "db' = db\<lparr>gd_issues := gd_issues db @ [pending_row now req]\<rparr>" "issues_ok (gd_issues db')"
      using inserted(4) by (auto simp: write_issues_def split: if_split_asm)
    have none: "issue_of ws key db = None" using inserted(2) req by (auto simp: issue_of_def find_None_iff of_issue_def inserts_claim_def)
    then have "issue_of ws key db' = Some (pending_row now req)"
      using req by (simp add: db'(1) issue_of_def find_append of_issue_def pending_row_def)
    moreover have "\<not> group_closed ws key db" using inserted(2,3) req by (auto simp: group_closed_def inserts_claim_def)
    moreover have "rows_only ws key db db'" using db' by (simp add: rows_only_def group_closed_def group_of_def)
    ultimately show ?thesis using inserted(1) none by blast
  next
    case same
    with ok show ?thesis by (simp add: rows_only_def)
  next
    case quarantine
    define p where "p = (\<lambda>r. of_issue (fr_workspace_id req) (fr_group_key req) r
         \<and> is_filing_state r = Pending \<and> is_claimed_at r \<le> cutoff)"
    have u: "update_issues p to_quarantine db = Inr (rows_affected p (gd_issues db) = 1, db')"
      using quarantine_is_update [of db p] quarantine(3) ok by (simp add: p_def issue_inv_def)
    have f: "of_issue ws key (to_quarantine x) = of_issue ws key x" for x by (simp add: of_issue_def to_quarantine_def)
    from update_row [OF u f] quarantine(1) show ?thesis
      by (cases "issue_of ws key db") (auto simp: rows_only_def p_def)
  qed
  then show "rows_only ws key db db'"
    "c = Claimed \<Longrightarrow> issue_of ws key db = None \<and> \<not> group_closed ws key db \<and> issue_of ws key db' = Some (pending_row now req)"
    "c \<noteq> Claimed \<Longrightarrow> issue_of ws key db' = issue_of ws key db \<or>
      (\<exists>r. issue_of ws key db = Some r \<and> is_filing_state r = Pending \<and> is_claimed_at r \<le> cutoff
         \<and> issue_of ws key db' = Some (to_quarantine r))" by blast+
qed

text \<open>A merge moves only settled rows, and closes its source.\<close>

lemma merged_closed:
  assumes run: "merge_report_groups now ws skey tkey actor db = Inr ((n, k), db')"
    and keys: "distinct (map gr_key (gd_groups db))"
  shows "distinct (map gr_key (gd_groups db'))" and "group_closed ws key db \<Longrightarrow> group_closed ws key db'"
    and "group_closed ws skey db'"
proof -
  from run obtain x y where xy: "x \<in> set (gd_groups db)" "gr_key x = skey" "gr_workspace x = ws"
    and ref: "merge_refusal ws x y db = None"
    and db': "db' = db\<lparr>gd_issues := merged_issues ws x y db, gd_reports := merged_reports ws x y db,
                gd_groups := merged_groups now ws actor x y db\<rparr>"
    by (rule merge_Inr)
  define p :: "group_row \<Rightarrow> bool" where "p = (\<lambda>g. gr_workspace g = ws \<and> gr_id g = gr_id x \<and> gr_merged_into g = None)"
  define f :: "group_row \<Rightarrow> group_row" where "f = (\<lambda>g. g\<lparr>gr_merged_into := Some (gr_key y), gr_merged_at := Some now,
              gr_merged_by := Some actor, gr_updated_at := now\<rparr>)"
  have gs: "gd_groups db' = update_where p f (gd_groups db)" by (simp add: db' merged_groups_def p_def f_def)
  have fk: "gr_key (f g) = gr_key g" "gr_workspace (f g) = gr_workspace g" "gr_product (f g) = gr_product g" "gr_merged_into (f g) \<noteq> None" for g
    by (simp_all add: f_def)
  show "distinct (map gr_key (gd_groups db'))" using keys fk(1) by (simp add: gs update_where_keys)
  have find: "group_of ws j db' = map_option (\<lambda>g. if p g then f g else g) (group_of ws j db)" for j
    unfolding group_of_def gs by (simp add: db') (rule find_update_where_pred, simp add: fk)
  show "group_closed ws key db'" if "group_closed ws key db"
    using that fk(4) by (auto simp: group_closed_def find split: option.split)
  show "group_closed ws skey db'"
  proof (cases "group_of ws skey db")
    case None
    then show ?thesis by (simp add: group_closed_def find)
  next
    case (Some g)
    then have "g \<in> set (gd_groups db)" "gr_key g = skey" by (auto simp: group_of_def dest: find_SomeD)
    then have "g = x" using xy keys by (auto dest: distinct_map_eq)
    with merge_refusal_None(2) [OF ref] xy(3) have "p g" by (simp add: p_def)
    with Some fk(4) show ?thesis by (simp add: group_closed_def find)
  qed
qed

lemma merged_row:
  assumes run: "merge_report_groups now ws skey tkey actor db = Inr ((n, k), db')" and ok: "issues_ok (gd_issues db)"
  shows "issues_ok (gd_issues db')"
    and "issue_of ws key db' = issue_of ws key db
      \<or> key = skey \<and> filed_opt (issue_of ws key db) \<and> issue_of ws key db' = None
      \<or> issue_of ws key db = None \<and> filed_opt (issue_of ws key db')"
proof -
  from run obtain x y where xy: "gr_key x = skey" "gr_key y = tkey" "skey \<noteq> tkey"
    and ref: "merge_refusal ws x y db = None" and ok': "issues_ok (merged_issues ws x y db)"
    and db': "db' = db\<lparr>gd_issues := merged_issues ws x y db, gd_reports := merged_reports ws x y db,
                gd_groups := merged_groups now ws actor x y db\<rparr>"
    by (rule merge_Inr)
  show ok2: "issues_ok (gd_issues db')" using ok' by (simp add: db')
  have iss: "gd_issues db' = merged_issues ws x y db" by (simp add: db')
  note refused = merge_refusal_None(5,6) [OF ref, unfolded xy]
  have settled: "is_filing_state r = Filed \<and> is_number r \<noteq> None" if "issue_of ws j db = Some r" "j = skey \<or> j = tkey" for j r
  proof -
    have r: "r \<in> set (gd_issues db)" "of_issue ws j r" using that(1) ok by (simp_all add: issue_of_iff)
    with refused(1) that(2) have "is_filing_state r = Filed" by blast
    with r(1) ok show ?thesis by (auto simp: issues_ok_def issue_row_ok_def list_all_iff)
  qed
  note moved = moved_issue [OF ok ref _ ok' iss, unfolded xy, OF xy(3)]
  consider (source) "key = skey" | (target) "key = tkey" | (other) "key \<noteq> skey" "key \<noteq> tkey" by blast
  then show "issue_of ws key db' = issue_of ws key db
      \<or> key = skey \<and> filed_opt (issue_of ws key db) \<and> issue_of ws key db' = None
      \<or> issue_of ws key db = None \<and> filed_opt (issue_of ws key db')"
  proof cases
    case source
    with moved settled [of skey] show ?thesis by (cases "issue_of ws skey db") (auto simp: filed_opt_def)
  next
    case target
    show ?thesis
    proof (cases "issue_of ws skey db")
      case None
      with moved target show ?thesis by simp
    next
      case (Some r)
      have "issue_of ws tkey db = None"
      proof (rule ccontr)
        assume "issue_of ws tkey db \<noteq> None"
        then obtain q where "issue_of ws tkey db = Some q" by blast
        with Some refused(2) settled [of skey r] settled [of tkey q] show False by auto
      qed
      with Some moved target settled [of skey r] show ?thesis by (simp add: filed_opt_def)
    qed
  next
    case other
    define p where "p = (\<lambda>r. of_issue ws skey r \<and> Option.bind (issue_of ws skey db) is_number \<noteq> None)"
    define f :: "issue_row \<Rightarrow> issue_row" where "f = (\<lambda>r. r\<lparr>is_key := tkey, is_last_commented := 0\<rparr>)"
    have "issue_of ws key db' = map_option (\<lambda>r. if p r then f r else r) (issue_of ws key db)"
    proof -
      have "gd_issues db' = update_where p f (gd_issues db)" unfolding iss merged_issues_def xy p_def f_def ..
      moreover have "find (of_issue ws key) (update_where p f rs)
          = map_option (\<lambda>r. if p r then f r else r) (find (of_issue ws key) rs)" for rs
        by (rule find_update_where_pred) (use other in \<open>auto simp: p_def f_def of_issue_def\<close>)
      ultimately show ?thesis by (simp add: issue_of_def)
    qed
    moreover have "\<not> p r" if "issue_of ws key db = Some r" for r
      using that ok other by (auto simp: p_def of_issue_def issue_of_iff)
    ultimately show ?thesis by (cases "issue_of ws key db") simp_all
  qed
qed

section \<open>Every step keeps the invariant\<close>

definition world_ok :: "uuid \<Rightarrow> string \<Rightarrow> filing_world \<Rightarrow> bool" where
  "world_ok ws key w \<longleftrightarrow> issues_ok (gd_issues (fw_db w)) \<and> distinct (map gr_key (gd_groups (fw_db w)))
     \<and> filing_ok (fw_now w) (group_closed ws key (fw_db w)) (issue_of ws key (fw_db w)) (fw_filers w) (fw_reconcilers w)
         (marked key (fw_issues w))"

lemma world_okI:
  assumes "rows_only ws key (fw_db w) (fw_db w')" and "distinct (map gr_key (gd_groups (fw_db w)))" and "fw_now w \<le> fw_now w'"
    and "filing_ok (fw_now w) (group_closed ws key (fw_db w)) (issue_of ws key (fw_db w')) (fw_filers w') (fw_reconcilers w')
         (marked key (fw_issues w'))"
  shows "world_ok ws key w'"
  using assms filing_ok_later by (simp add: world_ok_def rows_only_def)

lemma world_okD:
  assumes "world_ok ws key w"
  shows "issues_ok (gd_issues (fw_db w))" and "distinct (map gr_key (gd_groups (fw_db w)))"
    and "filing_ok (fw_now w) (group_closed ws key (fw_db w)) (issue_of ws key (fw_db w))
      (fw_filers w) (fw_reconcilers w) (marked key (fw_issues w))"
  using assms by (simp_all add: world_ok_def)

text \<open>
  When a live filer acts, no other one is live or waiting, and the row it owned gives way to another.
  The filers that stay are the others, and possibly itself, gone.
\<close>

lemma filing_ok_acts:
  assumes ok: "filing_ok now closed row fs qs G" and f: "f \<in> set fs" "active now f"
    and fs': "\<And>g. g \<in> set fs' \<Longrightarrow> \<exists>h \<in> set fs. fl_claimed g = fl_claimed h \<and> (g = h \<and> h \<noteq> f \<or> h = f \<and> fl_gone g \<and> expects row' G g)"
    and dist: "distinct (map fl_claimed fs')"
    and acc: "\<And>x. x \<in> set G \<Longrightarrow> accounted now closed row' fs' x"
    and inf: "\<And>q. q \<in> set qs \<Longrightarrow> informed row' fs' G q"
  shows "filing_ok now closed row' fs' qs G"
proof -
  have others: "\<forall>g \<in> set fs. g \<noteq> f \<longrightarrow> \<not> active now g \<and> \<not> waiting g" by (rule live_filer [OF ok f])
  have "fl_claimed g < now \<and> owns now row' g \<and> expects row' G g" if g: "g \<in> set fs'" for g
  proof -
    obtain h where h: "h \<in> set fs" "fl_claimed g = fl_claimed h" "g = h \<and> h \<noteq> f \<or> h = f \<and> fl_gone g \<and> expects row' G g"
      using fs' [OF g] by blast
    have "fl_claimed h < now" using ok h(1) unfolding filing_ok_def by blast
    with h others show ?thesis by (auto simp: owns_def expects_def active_def)
  qed
  then show ?thesis using ok dist acc inf unfolding filing_ok_def by blast
qed

lemma idle_pending:
  assumes "filing_ok now closed (Some r) fs qs G" and "is_filing_state r = Pending" and "is_claimed_at r \<le> now - STALE"
  shows "\<forall>f \<in> set fs. \<not> active now f"
  using assms by (auto simp: filing_ok_def owns_def active_def)

lemma idle_other:
  assumes "filing_ok now closed row fs qs G" and "\<And>r. row = Some r \<Longrightarrow> is_filing_state r \<noteq> Pending"
  shows "\<forall>f \<in> set fs. \<not> active now f"
  using assms by (auto simp: filing_ok_def owns_def)

lemma quiet_other:
  assumes "filing_ok now closed row fs qs G" and "\<And>r. row = Some r \<Longrightarrow> is_filing_state r = Filed"
  shows "\<forall>f \<in> set fs. \<not> waiting f"
  using assms by (fastforce simp: filing_ok_def expects_def)

lemma step_claims:
  assumes w: "world_ok ws key w" and run: "claim_group_issue_filing (fw_now w) req (fw_now w - STALE) (fw_db w) = Inr (c, db')"
    and req: "fr_workspace_id req = ws" "fr_group_key req = key" and t: "fw_now w < t"
  shows "world_ok ws key (w\<lparr>fw_now := t, fw_db := db', fw_filers :=
          (if c = Claimed then new_filer (fw_now w) (fr_repo_full_name req) # fw_filers w else fw_filers w)\<rparr>)"
proof -
  have ok: "issues_ok (gd_issues (fw_db w))" "filing_ok (fw_now w) (group_closed ws key (fw_db w)) (issue_of ws key (fw_db w))
      (fw_filers w) (fw_reconcilers w) (marked key (fw_issues w))" "distinct (map gr_key (gd_groups (fw_db w)))"
    using w by (simp_all add: world_ok_def)
  note row = claim_row [OF ok(1) run req]
  show ?thesis
  proof (cases "c = Claimed")
    case True
    from row(2) [OF True] have none: "issue_of ws key (fw_db w) = None" "\<not> group_closed ws key (fw_db w)"
      "issue_of ws key db' = Some (pending_row (fw_now w) req)" by auto
    have G: "marked key (fw_issues w) = []"
      using ok(2) none(1,2) by (cases "marked key (fw_issues w)") (auto simp: filing_ok_def accounted_def)
    have idle: "\<forall>f \<in> set (fw_filers w). \<not> active (fw_now w) f" using ok(2) none(1) by (intro idle_other) auto
    have quiet: "\<forall>f \<in> set (fw_filers w). \<not> waiting f" using ok(2) by (rule quiet_other) (use none(1) in simp)
    let ?f = "new_filer (fw_now w) (fr_repo_full_name req)"
    have old: "\<forall>f \<in> set (fw_filers w). fl_claimed f < fw_now w" "distinct (map fl_claimed (fw_filers w))"
      "\<forall>q \<in> set (fw_reconcilers w). rc_claimed_at (ro_context q) < fw_now w" using ok(2) unfolding filing_ok_def by blast+
    have "\<forall>f \<in> set (?f # fw_filers w). fl_claimed f < t \<and> owns t (issue_of ws key db') f \<and> expects (issue_of ws key db') [] f"
      using old(1) idle quiet t none(3) by (fastforce simp: owns_def expects_def active_def pending_row_def new_filer_def)
    moreover have "distinct (map fl_claimed (?f # fw_filers w))" using old(1,2) by (auto simp: new_filer_def)
    moreover have "\<forall>q \<in> set (fw_reconcilers w). rc_claimed_at (ro_context q) < t
        \<and> informed (issue_of ws key db') (?f # fw_filers w) [] q"
      using old(3) t none(3) by (auto simp: informed_def pending_row_def)
    ultimately have "filing_ok t (group_closed ws key (fw_db w)) (issue_of ws key db') (?f # fw_filers w) (fw_reconcilers w) []"
      unfolding filing_ok_def by simp
    then show ?thesis
      using row(1) ok(3) True by (simp add: world_ok_def G rows_only_def)
  next
    case False
    have "filing_ok (fw_now w) (group_closed ws key (fw_db w)) (issue_of ws key db') (fw_filers w) (fw_reconcilers w) (marked key (fw_issues w))"
    proof (cases "issue_of ws key db' = issue_of ws key (fw_db w)")
      case True
      with ok(2) show ?thesis by simp
    next
      case changed: False
      with row(3) [OF False] obtain r where r: "issue_of ws key (fw_db w) = Some r" "is_filing_state r = Pending"
        "is_claimed_at r \<le> fw_now w - STALE" "issue_of ws key db' = Some (to_quarantine r)" by blast
      have "\<forall>f \<in> set (fw_filers w). \<not> active (fw_now w) f" using idle_pending ok(2) r by metis
      with ok(2) show ?thesis
      proof (rule filing_ok_row)
        show "\<forall>f \<in> set (fw_filers w). expects (issue_of ws key db') (marked key (fw_issues w)) f"
          using ok(2) r by (auto simp: filing_ok_def expects_def to_quarantine_def)
        show "\<forall>x \<in> set (marked key (fw_issues w)). accounted (fw_now w) (group_closed ws key (fw_db w)) (issue_of ws key db') (fw_filers w) x"
          using ok(2) r by (auto simp: filing_ok_def accounted_def to_quarantine_def)
        show "\<forall>q \<in> set (fw_reconcilers w). informed (issue_of ws key db') (fw_filers w) (marked key (fw_issues w)) q"
          by (auto simp: r(4) to_quarantine_def informed_def)
      qed
    qed
    with False row(1) ok(3) t show ?thesis by (intro world_okI [where w = w]) simp_all
  qed
qed

lemma creating_simps [simp]:
  "fl_claimed (creating f g) = fl_claimed g" "fl_repo (creating f g) = fl_repo g"
  "active now (creating f g) = active now g" "fl_created (creating f f)" "fl_created g \<Longrightarrow> fl_created (creating f g)"
  "fl_listed (creating f g) = fl_listed g" "owns now row (creating f g) = owns now row g"
  by (simp_all add: creating_def active_def owns_def)

lemma waiting_creating: "waiting (creating f g) \<Longrightarrow> waiting g \<and> g \<noteq> f"
  by (auto simp: waiting_def creating_def split: if_split_asm)

lemma informed_creating: "informed row fs G q \<Longrightarrow> informed row (map (creating f) fs) G q"
  by (simp add: informed_def)

text \<open>A creation in time finds no issue there and the row unfiled; a late one changes no row.\<close>

lemma filing_ok_creates:
  assumes ok: "filing_ok now closed row fs qs G" and f: "f \<in> set fs" "waiting f" and i: "now - SKEW \<le> ri_created_at i"
  shows "G = []" and "filing_ok now closed row (map (creating f) fs) qs [(fl_repo f, i)]"
proof -
  have "expects row G f" using ok f(1) unfolding filing_ok_def by blast
  with f(2) obtain r where G: "G = []" and r: "row = Some r" "is_filing_state r \<noteq> Filed" "is_claimed_at r = fl_claimed f"
    "is_repo_full_name r = fl_repo f" by (auto simp: expects_def)
  show "G = []" by (rule G)
  have old: "\<forall>g \<in> set fs. fl_claimed g < now \<and> owns now row g"
    "\<forall>q \<in> set qs. rc_claimed_at (ro_context q) < now \<and> informed row fs G q" "distinct (map fl_claimed fs)"
    using ok unfolding filing_ok_def by blast+
  have only: "g = f" if "g \<in> set fs" "active now g \<or> waiting g" for g using same_claim [OF ok that(1) f(1)] that(2) f(2) by blast
  have "fl_created g'" if g': "g' \<in> set (map (creating f) fs)" "active now g'" for g'
  proof -
    obtain g where "g \<in> set fs" "g' = creating f g" using g'(1) by auto
    with g'(2) only have "g' = creating f f" by simp
    then show ?thesis by simp
  qed
  then have all: "\<forall>g' \<in> set (map (creating f) fs). active now g' \<longrightarrow> fl_created g'" by blast
  have "is_claimed_at r - SKEW \<le> ri_created_at i"
  proof -
    have "fl_claimed f < now" using old(1) f(1) by blast
    with r(3) i show ?thesis by linarith
  qed
  with all r have acc: "accounted now closed row (map (creating f) fs) (fl_repo f, i)" unfolding accounted_def by simp
  have "\<not> waiting g'" if g': "g' \<in> set (map (creating f) fs)" for g'
  proof -
    obtain g where "g \<in> set fs" "g' = creating f g" using g' by auto
    with only show ?thesis using waiting_creating by blast
  qed
  then have exp: "\<forall>g \<in> set (map (creating f) fs). fl_claimed g < now \<and> owns now row g \<and> expects row [(fl_repo f, i)] g"
    using old(1) by (auto simp: expects_def)
  have inf: "informed row (map (creating f) fs) [(fl_repo f, i)] q" if q: "q \<in> set qs" for q
    using old(2) q r f unfolding informed_def waiting_def by fastforce
  have "distinct (map fl_claimed (map (creating f) fs))" using old(3) by (simp add: comp_def)
  with exp acc inf old(2) show "filing_ok now closed row (map (creating f) fs) qs [(fl_repo f, i)]"
    unfolding filing_ok_def by simp
qed

lemma filing_ok_late:
  assumes ok: "filing_ok now closed row fs qs G"
  shows "filing_ok now closed row (map (creating f) fs) qs G"
proof -
  have "accounted now closed row (map (creating f) fs) x" if "accounted now closed row fs x" for x
    using that by (auto simp: accounted_def split: option.splits)
  moreover have "expects row G (creating f g)" if "expects row G g" for g
    using that by (auto simp: expects_def dest: waiting_creating)
  moreover have "distinct (map fl_claimed (map (creating f) fs)) = distinct (map fl_claimed fs)" by (simp add: comp_def)
  ultimately show ?thesis using ok informed_creating [of row fs G _ f] unfolding filing_ok_def by simp
qed

lemma step_creates:
  assumes w: "world_ok ws key w" and f: "f \<in> set (fw_filers w)" "\<not> fl_created f" "\<not> fl_listed f"
    and i: "carries_marker key i" "fw_now w - SKEW \<le> ri_created_at i" and t: "fw_now w < t"
  shows "world_ok ws key (w\<lparr>fw_now := t, fw_issues := (fl_repo f, i) # fw_issues w,
          fw_filers := map (creating f) (fw_filers w)\<rparr>)"
proof -
  note ok = world_okD [OF w]
  have "waiting f" using f(2,3) by (simp add: waiting_def)
  note new = filing_ok_creates [OF ok(3) f(1) this i(2)]
  have m: "marked key ((fl_repo f, i) # fw_issues w) = [(fl_repo f, i)]" using i(1) new(1) by (simp add: marked_def)
  from filing_ok_later [OF new(2) less_imp_le [OF t]] ok(1,2) m show ?thesis by (simp add: world_ok_def)
qed

lemma step_lands_late:
  assumes w: "world_ok ws key w" and t: "fw_now w < t"
  shows "world_ok ws key (w\<lparr>fw_now := t, fw_late := x # fw_late w, fw_filers := map (creating f) (fw_filers w)\<rparr>)"
proof -
  note ok = world_okD [OF w]
  from filing_ok_later [OF filing_ok_late [OF ok(3)] less_imp_le [OF t]] ok(1,2) show ?thesis by (simp add: world_ok_def)
qed

lemma distinct_claims:
  "distinct (map fl_claimed fs) \<Longrightarrow> distinct (map fl_claimed (remove1 f fs))"
  "map fl_claimed (map (leaving f) fs) = map fl_claimed fs"
  by (auto simp: distinct_map inj_on_def leaving_def dest: in_set_remove1)

text \<open>A filer's own write: its row becomes filed, quarantined, or goes away when no issue was made.\<close>

lemma step_acts:
  assumes w: "world_ok ws key w" and f: "f \<in> set (fw_filers w)" "active (fw_now w) f" and t: "fw_now w < t"
    and keep: "rows_only ws key (fw_db w) db'"
    and fs': "fs' = remove1 f (fw_filers w) \<or> fs' = map (leaving f) (fw_filers w) \<and> \<not> filed_opt (issue_of ws key db') \<and> issue_of ws key db' \<noteq> None"
    and row: "\<And>r. issue_of ws key (fw_db w) = Some r \<Longrightarrow> is_filing_state r = Pending \<Longrightarrow>
      db' = fw_db w \<or> filed_opt (issue_of ws key db') \<or> issue_of ws key db' = Some (to_quarantine r)
      \<or> issue_of ws key db' = None \<and> \<not> fl_created f"
  shows "world_ok ws key (w\<lparr>fw_now := t, fw_filers := fs', fw_db := db'\<rparr>)"
proof -
  note ok = world_okD [OF w]
  let ?row = "issue_of ws key db'"
  obtain r where r: "issue_of ws key (fw_db w) = Some r" "is_filing_state r = Pending" "is_claimed_at r = fl_claimed f"
    "is_repo_full_name r = fl_repo f" and idle: "\<forall>g \<in> set (fw_filers w). g \<noteq> f \<longrightarrow> \<not> active (fw_now w) g \<and> \<not> waiting g"
    and none: "\<not> fl_created f \<longrightarrow> marked key (fw_issues w) = []"
    by (rule live_filer [OF ok(3) f])
  have dist: "distinct (map fl_claimed (fw_filers w))" "distinct (fw_filers w)"
    using ok(3) by (auto simp: filing_ok_def distinct_map)
  have stays: "\<exists>h \<in> set (fw_filers w). fl_claimed g = fl_claimed h
      \<and> (g = h \<and> h \<noteq> f \<or> h = f \<and> fl_gone g \<and> expects ?row (marked key (fw_issues w)) g)"
    if g: "g \<in> set fs'" for g
  proof (cases "g \<in> set (remove1 f (fw_filers w))")
    case True
    with dist(2) show ?thesis by auto
  next
    case False
    with g fs' dist(2) obtain h where h: "h \<in> set (fw_filers w)" "g = leaving f h" "\<not> filed_opt ?row" "?row \<noteq> None" by auto
    have hf: "h = f"
    proof (rule ccontr)
      assume "h \<noteq> f"
      with h(1,2) False show False by (simp add: leaving_def in_set_remove1)
    qed
    have "?row = Some r \<or> ?row = Some (to_quarantine r)" using row [OF r(1,2)] r(1) h(3,4) by auto
    then have "expects ?row (marked key (fw_issues w)) g"
      using r none h(2) hf by (auto simp: expects_def waiting_def leaving_def to_quarantine_def)
    with h hf show ?thesis by (auto simp: leaving_def)
  qed
  then have quiet: "\<not> active (fw_now w) g" if "g \<in> set fs'" for g using that idle by (fastforce simp: active_def)
  have acc: "accounted (fw_now w) (group_closed ws key (fw_db w)) ?row fs' x" if x: "x \<in> set (marked key (fw_issues w))" for x
  proof -
    have "accounted (fw_now w) (group_closed ws key (fw_db w)) (Some r) (fw_filers w) x"
      using ok(3) x r(1) by (simp add: filing_ok_def)
    with r(2) have old: "fst x = is_repo_full_name r" "is_claimed_at r - SKEW \<le> ri_created_at (snd x)"
      by (simp_all add: accounted_def)
    from row [OF r(1,2)] show ?thesis
    proof (elim disjE)
      assume "db' = fw_db w"
      with r old quiet show ?thesis by (simp add: accounted_def)
    next
      assume "filed_opt ?row"
      then show ?thesis by (simp add: accounted_def filed_opt_def split: option.split_asm)
    next
      assume "?row = Some (to_quarantine r)"
      with old show ?thesis by (simp add: accounted_def to_quarantine_def)
    next
      assume "?row = None \<and> \<not> fl_created f"
      with none x show ?thesis by simp
    qed
  qed
  have inf: "informed ?row fs' (marked key (fw_issues w)) q" for q
    using row [OF r(1,2)] r by (auto simp: informed_def filed_opt_def to_quarantine_def)
  have "distinct (map fl_claimed fs')" using fs' dist(1) distinct_claims(1) [of "fw_filers w" f] distinct_claims(2) [of f "fw_filers w"] by metis
  from filing_ok_acts [OF ok(3) f stays this acc inf]
  have "filing_ok (fw_now w) (group_closed ws key (fw_db w)) ?row fs' (fw_reconcilers w) (marked key (fw_issues w))" by blast
  with keep ok(2) t show ?thesis by (intro world_okI [where w = w]) simp_all
qed

lemma step_reconciles:
  assumes w: "world_ok ws key w" and run: "claim_group_issue_reconciliation (fw_now w) ws key cutoff (fw_db w) = Inr (c, db')"
    and t: "fw_now w < t"
  shows "world_ok ws key (w\<lparr>fw_now := t, fw_db := db', fw_reconcilers :=
          (case c of None \<Rightarrow> fw_reconcilers w | Some c \<Rightarrow> \<lparr>ro_context = c, ro_resolution = None\<rparr> # fw_reconcilers w)\<rparr>)"
proof (cases c)
  case None
  with reconciliation_claim_row [OF world_okD(1) [OF w] run] world_okD [OF w] t show ?thesis
    by (intro world_okI [where w = w]) simp_all
next
  case (Some x)
  note ok = world_okD [OF w]
  from reconciliation_claim_row(3) [OF ok(1) run Some] obtain r where
    r: "issue_of ws key (fw_db w) = Some r" "is_filing_state r = NeedsReconciliation"
    "issue_of ws key db' = Some (r\<lparr>is_refreshed_at := Some (fw_now w)\<rparr>)" and
    x: "rc_claimed_at x = fw_now w" "rc_repo_full_name x = is_repo_full_name r" "rc_needs_reconciliation_since x = is_claimed_at r"
    by blast
  note keep = reconciliation_claim_row(1) [OF ok(1) run]
  have idle: "\<forall>f \<in> set (fw_filers w). \<not> active (fw_now w) f" using ok(3) by (rule idle_other) (use r in auto)
  have acc: "\<forall>y \<in> set (marked key (fw_issues w)). accounted (fw_now w) (group_closed ws key (fw_db w)) (issue_of ws key db') (fw_filers w) y"
    using ok(3) r by (auto simp: filing_ok_def accounted_def)
  have exp: "\<forall>f \<in> set (fw_filers w). expects (issue_of ws key db') (marked key (fw_issues w)) f"
    using ok(3) r by (auto simp: filing_ok_def expects_def)
  have inf: "\<forall>q \<in> set (fw_reconcilers w). informed (issue_of ws key db') (fw_filers w) (marked key (fw_issues w)) q"
    using ok(3) by (auto simp: filing_ok_def informed_def r(3))
  have "filing_ok t (group_closed ws key (fw_db w)) (issue_of ws key db') (fw_filers w) (fw_reconcilers w) (marked key (fw_issues w))"
    using filing_ok_later [OF filing_ok_row [OF ok(3) idle exp acc inf]] t by simp
  moreover have "informed (issue_of ws key db') (fw_filers w) (marked key (fw_issues w)) \<lparr>ro_context = x, ro_resolution = None\<rparr>"
    by (simp add: informed_def r(3) x)
  ultimately have "filing_ok t (group_closed ws key (fw_db w)) (issue_of ws key db') (fw_filers w)
      (\<lparr>ro_context = x, ro_resolution = None\<rparr> # fw_reconcilers w) (marked key (fw_issues w))"
    using t x(1) by (simp add: filing_ok_def)
  with keep ok(2) Some show ?thesis by (simp add: world_ok_def rows_only_def)
qed

text \<open>A complete listing shows a reconciler that holds the row every issue made in time.\<close>

lemma listed_by_simps [simp]:
  "fl_claimed (listed_by e q f) = fl_claimed f" "fl_created (listed_by e q f) = fl_created f" "fl_repo (listed_by e q f) = fl_repo f"
  "active now (listed_by e q f) = active now f" "fl_listed f \<Longrightarrow> fl_listed (listed_by e q f)"
  by (simp_all add: listed_by_def active_def split: reconciliation_evidence.split)

lemma listed_by_fewer:
  "owns now row (listed_by e q f) = owns now row f" "expects row G f \<Longrightarrow> expects row G (listed_by e q f)"
  "accounted now closed row (map (listed_by e q) fs) x = accounted now closed row fs x"
  "informed row fs G p \<Longrightarrow> informed row (map (listed_by e q) fs) G p"
  by (auto simp: owns_def expects_def waiting_def accounted_def informed_def split: option.split)

lemma listing_informs:
  assumes ok: "filing_ok now closed row fs qs (marked key issues)" and q: "informed row fs (marked key issues) q"
    and complete: "\<And>shown. e = Complete shown \<Longrightarrow> (\<forall>(repo, i) \<in> set issues. repo = rc_repo_full_name (ro_context q)
             \<and> listing_since (ro_context q) \<le> ri_created_at i \<longrightarrow> i \<in> set shown)"
  shows "informed row (map (listed_by e q) fs) (marked key issues)
    (q\<lparr>ro_resolution := Some (group_issue_reconciliation_resolution e key)\<rparr>)"
proof -
  have "marked key issues = []" if r: "row = Some r" "is_filing_state r = NeedsReconciliation"
    "is_refreshed_at r = Some (rc_claimed_at (ro_context q))"
    "rr_decision (group_issue_reconciliation_resolution e key) = Releases" for r
  proof (rule ccontr)
    assume "marked key issues \<noteq> []"
    then obtain repo i where x: "(repo, i) \<in> set (marked key issues)" by (cases "marked key issues") auto
    then have mem: "(repo, i) \<in> set issues" "carries_marker key i" by (auto simp: marked_def)
    have "accounted now closed row fs (repo, i)" using ok x by (auto simp: filing_ok_def)
    with r have "repo = is_repo_full_name r" "is_claimed_at r - SKEW \<le> ri_created_at i" by (simp_all add: accounted_def)
    with q r have here: "repo = rc_repo_full_name (ro_context q)" "listing_since (ro_context q) \<le> ri_created_at i"
      by (simp_all add: informed_def listing_since_def)
    obtain shown where e: "e = Complete shown" "fst (oldest_loop (filter (carries_marker key) shown) None 0) = None"
      using r(4) by (auto simp: group_issue_reconciliation_resolution_def split_beta split: reconciliation_evidence.split_asm if_split_asm)
    then have "i \<in> set shown" using complete [OF e(1)] mem(1) here by blast
    with e(2) mem(2) show False by (auto simp: oldest_loop_None filter_empty_conv)
  qed
  moreover have "fl_listed (listed_by e q f)"
    if "fl_claimed f = rc_needs_reconciliation_since (ro_context q)"
      "rr_decision (group_issue_reconciliation_resolution e key) \<noteq> KeepWaiting" for f
    using that by (auto simp: listed_by_def group_issue_reconciliation_resolution_def split: reconciliation_evidence.splits)
  ultimately show ?thesis using q by (simp add: informed_def)
qed

lemma step_lists:
  assumes w: "world_ok ws key w" and q: "q \<in> set (fw_reconcilers w)" and t: "fw_now w < t"
    and complete: "\<And>shown. e = Complete shown \<Longrightarrow> (\<forall>(repo, i) \<in> set (github_issues w). repo = rc_repo_full_name (ro_context q)
             \<and> listing_since (ro_context q) \<le> ri_created_at i \<longrightarrow> i \<in> set shown)"
  shows "world_ok ws key (w\<lparr>fw_now := t, fw_filers := map (listed_by e q) (fw_filers w), fw_reconcilers :=
          q\<lparr>ro_resolution := Some (group_issue_reconciliation_resolution e key)\<rparr> # remove1 q (fw_reconcilers w)\<rparr>)"
proof -
  note ok = world_okD [OF w]
  let ?fs = "map (listed_by e q) (fw_filers w)" and ?row = "issue_of ws key (fw_db w)" and ?G = "marked key (fw_issues w)"
  have old: "\<forall>p \<in> set (fw_reconcilers w). rc_claimed_at (ro_context p) < fw_now w \<and> informed ?row (fw_filers w) ?G p"
    "\<forall>f \<in> set (fw_filers w). fl_claimed f < fw_now w \<and> owns (fw_now w) ?row f \<and> expects ?row ?G f"
    "\<forall>x \<in> set ?G. accounted (fw_now w) (group_closed ws key (fw_db w)) ?row (fw_filers w) x"
    "distinct (map fl_claimed (fw_filers w))" "length ?G \<le> 1"
    using ok(3) unfolding filing_ok_def by blast+
  with q have held: "informed ?row (fw_filers w) ?G q" by blast
  have new: "informed ?row ?fs ?G (q\<lparr>ro_resolution := Some (group_issue_reconciliation_resolution e key)\<rparr>)"
    by (rule listing_informs [OF ok(3) held]) (use complete in \<open>auto simp: github_issues_def\<close>)
  have "\<forall>p \<in> set (remove1 q (fw_reconcilers w)). rc_claimed_at (ro_context p) < fw_now w \<and> informed ?row ?fs ?G p"
    using old(1) set_remove1_subset [of q "fw_reconcilers w"] listed_by_fewer(4) by blast
  moreover have "\<forall>f \<in> set ?fs. fl_claimed f < fw_now w \<and> owns (fw_now w) ?row f \<and> expects ?row ?G f"
    using old(2) listed_by_fewer(1,2) by auto
  moreover have "distinct (map fl_claimed ?fs)" using old(4) by (simp add: comp_def)
  ultimately have "filing_ok (fw_now w) (group_closed ws key (fw_db w)) ?row ?fs
      (q\<lparr>ro_resolution := Some (group_issue_reconciliation_resolution e key)\<rparr> # remove1 q (fw_reconcilers w)) ?G"
    using old(1,3,5) q new unfolding filing_ok_def listed_by_fewer(3) by simp
  with ok(1,2) t show ?thesis by (intro world_okI [where w = w]) (simp_all add: rows_only_refl)
qed

lemma step_settles:
  assumes w: "world_ok ws key w" and q: "q \<in> set (fw_reconcilers w)" "ro_resolution q = Some r" and t: "fw_now w < t"
  shows "world_ok ws key (w\<lparr>fw_now := t, fw_reconcilers := remove1 q (fw_reconcilers w), fw_db :=
          then_db (fw_db w) (settle_reconciliation (fw_now w) ws key (ro_context q) r (fw_db w))\<rparr>)"
proof -
  note ok = world_okD [OF w]
  define db' where "db' = then_db (fw_db w) (settle_reconciliation (fw_now w) ws key (ro_context q) r (fw_db w))"
  note settled = settle_row [OF ok(1), of "fw_now w" ws key "ro_context q" r, unfolded Let_def, folded db'_def]
  have keep: "rows_only ws key (fw_db w) db'" using settled by blast
  have few: "filing_ok (fw_now w) (group_closed ws key (fw_db w)) (issue_of ws key (fw_db w)) (fw_filers w)
      (remove1 q (fw_reconcilers w)) (marked key (fw_issues w))"
    by (rule filing_ok_fewer [OF ok(3) subset_refl _ set_remove1_subset]) (use ok(3) in \<open>simp add: filing_ok_def\<close>)
  have "filing_ok (fw_now w) (group_closed ws key (fw_db w)) (issue_of ws key db') (fw_filers w)
      (remove1 q (fw_reconcilers w)) (marked key (fw_issues w))"
  proof (cases "issue_of ws key db' = issue_of ws key (fw_db w)")
    case True
    with few show ?thesis by simp
  next
    case False
    with settled obtain x where x: "issue_of ws key (fw_db w) = Some x" "reconciling ws key (rc_claimed_at (ro_context q)) x"
      "rr_decision r = Adopts \<and> (\<exists>link n. issue_of ws key db' = Some (filed (fw_now w) link n x)) \<or> rr_decision r = Releases \<and> issue_of ws key db' = None"
      by blast
    have "informed (issue_of ws key (fw_db w)) (fw_filers w) (marked key (fw_issues w)) q" using ok(3) q(1) unfolding filing_ok_def by blast
    with x q(2) have none: "rr_decision r = Releases \<Longrightarrow> marked key (fw_issues w) = []"
      and listed: "rr_decision r \<noteq> KeepWaiting \<Longrightarrow> \<forall>f \<in> set (fw_filers w). fl_claimed f = is_claimed_at x \<longrightarrow> fl_listed f"
      by (simp_all add: informed_def reconciling_def)
    have "\<forall>f \<in> set (fw_filers w). expects (issue_of ws key (fw_db w)) (marked key (fw_issues w)) f"
      using ok(3) unfolding filing_ok_def by blast
    with listed x(1,3) have quiet: "\<forall>f \<in> set (fw_filers w). \<not> waiting f"
      by (fastforce simp: expects_def waiting_def)
    show ?thesis
    proof (rule filing_ok_row [OF few])
      show "\<forall>f \<in> set (fw_filers w). expects (issue_of ws key db') (marked key (fw_issues w)) f"
        using quiet by (simp add: expects_def)
      show "\<forall>f \<in> set (fw_filers w). \<not> active (fw_now w) f"
        using ok(3) by (rule idle_other) (use x(1,2) in \<open>auto simp: reconciling_def\<close>)
      show "\<forall>y \<in> set (marked key (fw_issues w)). accounted (fw_now w) (group_closed ws key (fw_db w)) (issue_of ws key db') (fw_filers w) y"
        using x(3) none by (auto simp: accounted_def filed_def)
      show "\<forall>p \<in> set (remove1 q (fw_reconcilers w)). informed (issue_of ws key db') (fw_filers w) (marked key (fw_issues w)) p"
        using x(3) by (auto simp: informed_def filed_def)
    qed
  qed
  with keep ok(2) t show ?thesis unfolding db'_def by (intro world_okI [where w = w]) simp_all
qed

text \<open>Work that leaves the row alone, moves a filed row, or files one where none was.\<close>

lemma step_moves:
  assumes w: "world_ok ws key w" and t: "fw_now w < t"
    and keep: "issues_ok (gd_issues db')" "distinct (map gr_key (gd_groups db'))"
      "group_closed ws key (fw_db w) \<longrightarrow> group_closed ws key db'"
    and row: "issue_of ws key db' = issue_of ws key (fw_db w)
      \<or> filed_opt (issue_of ws key (fw_db w)) \<and> issue_of ws key db' = None \<and> group_closed ws key db'
      \<or> (issue_of ws key (fw_db w) = None \<or> filed_opt (issue_of ws key (fw_db w))) \<and> filed_opt (issue_of ws key db')"
  shows "world_ok ws key (w\<lparr>fw_now := t, fw_db := db'\<rparr>)"
proof -
  note ok = world_okD [OF w]
  have "filing_ok (fw_now w) (group_closed ws key db') (issue_of ws key db') (fw_filers w) (fw_reconcilers w) (marked key (fw_issues w))"
  proof (cases "issue_of ws key db' = issue_of ws key (fw_db w)")
    case True
    with ok(3) keep(3) show ?thesis by (auto simp: filing_ok_def accounted_def split: option.split_asm option.split)
  next
    case False
    have quiet: "\<forall>f \<in> set (fw_filers w). \<not> waiting f"
      using ok(3) by (rule quiet_other) (use False row in \<open>auto simp: filed_opt_def\<close>)
    show ?thesis
    proof (rule filing_ok_row [OF ok(3)])
      show "\<forall>f \<in> set (fw_filers w). expects (issue_of ws key db') (marked key (fw_issues w)) f"
        using quiet by (simp add: expects_def)
      show "\<forall>f \<in> set (fw_filers w). \<not> active (fw_now w) f"
        using ok(3) by (rule idle_other) (use False row in \<open>auto simp: filed_opt_def\<close>)
      show "\<forall>y \<in> set (marked key (fw_issues w)). accounted (fw_now w) (group_closed ws key db') (issue_of ws key db') (fw_filers w) y"
        using False row by (auto simp: accounted_def filed_opt_def split: option.split_asm)
      show "\<forall>p \<in> set (fw_reconcilers w). informed (issue_of ws key db') (fw_filers w) (marked key (fw_issues w)) p"
        using False row by (auto simp: informed_def filed_opt_def)
    qed
  qed
  with filing_ok_later [OF this less_imp_le [OF t]] keep(1,2) show ?thesis by (simp add: world_ok_def)
qed

lemma filing_step_keeps:
  assumes "filing_step ws key w w'" and "world_ok ws key w"
  shows "world_ok ws key w'"
  using assms
proof (induction rule: filing_step.induct)
  case (claims w req c db' t)
  then show ?case by (intro step_claims)
next
  case (creates f w i t)
  then show ?case by (intro step_creates)
next
  case (completes f w t link n)
  note ok = world_okD [OF completes(5)]
  obtain r where r: "issue_of ws key (fw_db w) = Some r" "is_filing_state r = Pending" by (rule live_filer [OF ok(3) completes(1,2)])
  from completed_row [OF ok(1) r, of "fw_now w" link n, unfolded Let_def] show ?case
    by (intro step_acts [OF completes(5,1,2,4)]) (auto simp: filed_opt_def filed_def)
next
  case (rejected f w t)
  note ok = world_okD [OF rejected(5)]
  obtain r where r: "issue_of ws key (fw_db w) = Some r" "is_filing_state r = Pending" by (rule live_filer [OF ok(3) rejected(1,2)])
  from release_row [OF ok(1) r, unfolded Let_def] rejected(3) show ?case
    by (intro step_acts [OF rejected(5,1,2,4)]) simp_all
next
  case (lands_late f w i t)
  then show ?case by (intro step_lands_late)
next
  case (doubtful f w t)
  note ok = world_okD [OF doubtful(4)]
  obtain r where r: "issue_of ws key (fw_db w) = Some r" "is_filing_state r = Pending" by (rule live_filer [OF ok(3) doubtful(1,2)])
  from mark_row [OF ok(1) r, unfolded Let_def] r show ?case
    by (intro step_acts [OF doubtful(4,1,2,3)]) (simp_all add: filed_opt_def to_quarantine_def)
next
  case (reconciles w cutoff c db' t)
  then show ?case by (intro step_reconciles)
next
  case (lists q w e t)
  show ?case by (rule step_lists [OF lists(4,1,3)]) (use lists(2) in blast)
next
  case (settles q w r t)
  then show ?case by (intro step_settles)
next
  case (merges w source_key target_key actor n k db' t)
  note ok = world_okD [OF merges(3)]
  show ?case
    by (rule step_moves [OF merges(3,2) merged_row(1) [OF merges(1) ok(1)] merged_closed(1) [OF merges(1) ok(2)]])
      (use merged_row(2) [OF merges(1) ok(1), of key] merged_closed(2,3) [OF merges(1) ok(2)] in blast)+
next
  case (foreign i w t repo)
  then have "marked key ((repo, i) # fw_issues w) = marked key (fw_issues w)" by (simp add: marked_def)
  with world_okD [OF foreign(3)] foreign(2) show ?case by (intro world_okI [where w = w]) (simp_all add: rows_only_refl)
next
  case (elsewhere db' w t)
  show ?case by (rule step_moves [OF elsewhere(6,5,2,3,4)]) (use elsewhere(1) in blast)
qed

section \<open>At most one issue\<close>

definition filing_github :: github_db where
  "filing_github = \<lparr>installations = [\<lparr>in_id = 1, in_workspace = 1, in_installation_id = 9, in_account_login = ''o'', in_account_type = ''User'',
       in_created_at = 0, in_revoked_at = None\<rparr>],
     products = [\<lparr>pr_id = 3, pr_workspace = 1\<rparr>], product_repos = []\<rparr>"

definition filing_db :: issue_db where
  "filing_db = \<lparr>gd_groups = [lineage_group 10 ''a''], gd_issues = [], gd_reports = [], gd_github = filing_github\<rparr>"

definition filing_world0 :: filing_world where
  "filing_world0 = \<lparr>fw_now = 0, fw_db = filing_db, fw_filers = [], fw_reconcilers = [], fw_issues = [], fw_late = []\<rparr>"

definition request_a :: filing_request where
  "request_a = \<lparr>fr_workspace_id = 1, fr_group_key = ''a'', fr_installation_id = 9, fr_repo_full_name = ''o/r'',
     fr_created_by = ''u'', fr_claim_report_count = 2\<rparr>"

text \<open>
  C4.  Whatever requests to file, timeouts, crashes, quarantines, listings, reconciliations, merges
  and other work come in whatever order, GitHub has at most one issue of a group, and one more for
  each creation that landed late: after a reconciliation of its own claim had listed the repository.
  So a group gets at most one issue as long as no creation lands late, however long after its
  handler's timeout or crash it lands.  The handlers write within five minutes of their claim, and a
  complete listing is complete.
\<close>

theorem a_group_gets_at_most_one_issue:
  assumes "(filing_step ws key)\<^sup>*\<^sup>* w w'" and "fw_filers w = []" and "fw_reconcilers w = []" and "fw_late w = []"
    and "marked key (github_issues w) = []" and "issues_ok (gd_issues (fw_db w))" and "distinct (map gr_key (gd_groups (fw_db w)))"
  shows "length (marked key (github_issues w')) \<le> 1 + length (fw_late w')"
proof -
  have "world_ok ws key w" using assms(2-) by (simp add: world_ok_def filing_ok_def github_issues_def marked_def)
  with assms(1) have "world_ok ws key w'" by (induction rule: rtranclp_induct) (auto intro: filing_step_keeps)
  then have "length (marked key (fw_issues w')) \<le> 1" by (simp add: world_ok_def filing_ok_def)
  moreover have "length (marked key (fw_late w')) \<le> length (fw_late w')" by (simp add: marked_def)
  ultimately show ?thesis unfolding github_issues_def marked_def filter_append length_append by linarith
qed

text \<open>
  A handler gives up after fifteen seconds and marks its claim, and the reconciliation it starts lists
  the repository at once.  The rows of the claim on the way, and the reconciler's context.
\<close>

definition claimed_db :: "time \<Rightarrow> issue_db" where
  "claimed_db now = filing_db\<lparr>gd_issues := [pending_row now request_a]\<rparr>"

definition marked_db :: issue_db where
  "marked_db = filing_db\<lparr>gd_issues := [to_quarantine (pending_row 0 request_a)]\<rparr>"

definition attempted_db :: issue_db where
  "attempted_db = filing_db\<lparr>gd_issues := [(to_quarantine (pending_row 0 request_a))\<lparr>is_refreshed_at := Some (seconds 16)\<rparr>]\<rparr>"

definition context_a :: reconciliation_context where
  "context_a = \<lparr>rc_installation_id = 9, rc_repo_full_name = ''o/r'', rc_needs_reconciliation_since = 0,
     rc_claimed_at = seconds 16, rc_claim_report_count = 2\<rparr>"

lemma first_claim: "claim_group_issue_filing 0 request_a (0 - STALE) filing_db = Inr (Claimed, claimed_db 0)"
  by code_simp

lemma timeout_mark:
  "then_db (claimed_db 0) (map_sum id snd (mark_group_issue_filing_for_reconciliation 1 ''a'' (claimed_db 0))) = marked_db"
  by code_simp

lemma timeout_attempt:
  "claim_group_issue_reconciliation (seconds 16) 1 ''a'' (seconds 16 - minutes GROUP_ISSUE_RECONCILIATION_RETRY_MINUTES) marked_db = Inr (Some context_a, attempted_db)"
  by code_simp

lemma timeout_release:
  "then_db attempted_db (settle_reconciliation (seconds 18) 1 ''a'' context_a
     (group_issue_reconciliation_resolution (Complete []) ''a'') attempted_db) = filing_db"
  by code_simp

lemma second_claim:
  "claim_group_issue_filing (seconds 20) request_a (seconds 20 - STALE) filing_db = Inr (Claimed, claimed_db (seconds 20))"
  by code_simp

lemmas filing_times = GROUP_ISSUE_FILING_CLAIM_STALE_MINUTES_def GROUP_ISSUE_RECONCILIATION_CLOCK_SKEW_MINUTES_def
  minutes_def seconds_def

lemma marked_issues_a: "carries_marker ''a'' (marked_issue 4 ''a'' 5)" "carries_marker ''a'' (marked_issue 7 ''a'' (seconds 20))"
  by code_simp+

text \<open>The run up to the mark after the timeout.\<close>

definition timed_out_world :: filing_world where
  "timed_out_world = filing_world0\<lparr>fw_now := seconds 16, fw_db := marked_db,
     fw_filers := [(new_filer 0 ''o/r'')\<lparr>fl_gone := True\<rparr>]\<rparr>"

lemma timed_out_run: "(filing_step 1 ''a'')\<^sup>*\<^sup>* filing_world0 timed_out_world"
proof -
  define w1 where "w1 = filing_world0\<lparr>fw_now := seconds 15, fw_db := claimed_db 0, fw_filers := [new_filer 0 ''o/r'']\<rparr>"
  have "filing_step 1 ''a'' filing_world0 w1"
    using filing_step.claims [of filing_world0 request_a Claimed "claimed_db 0" 1 "''a''" "seconds 15"] first_claim
    by (simp add: w1_def filing_world0_def request_a_def seconds_def)
  moreover have "filing_step 1 ''a'' w1 timed_out_world"
    using filing_step.doubtful [of "new_filer 0 ''o/r''" w1 "seconds 16" 1 "''a''"] timeout_mark
    by (simp add: w1_def timed_out_world_def filing_world0_def active_def leaving_def filing_times, simp add: new_filer_def)
  ultimately show ?thesis by (rule converse_rtranclp_into_rtranclp [OF _ r_into_rtranclp])
qed

text \<open>A creation that lands after the timeout and before any listing is in time.\<close>

theorem a_group_gets_at_most_one_issue_witness:
  "\<exists>w'. (filing_step 1 ''a'')\<^sup>*\<^sup>* filing_world0 w' \<and> fw_late w' = []
     \<and> marked ''a'' (github_issues w') = [(''o/r'', marked_issue 4 ''a'' 5)]
     \<and> length (marked ''a'' (github_issues w')) \<le> 1 + length (fw_late w')"
proof -
  let ?f = "(new_filer 0 ''o/r'')\<lparr>fl_gone := True\<rparr>"
  define w where "w = timed_out_world\<lparr>fw_now := seconds 17, fw_issues := [(''o/r'', marked_issue 4 ''a'' 5)],
      fw_filers := map (creating ?f) [?f]\<rparr>"
  have "filing_step 1 ''a'' timed_out_world w"
    using filing_step.creates [of ?f timed_out_world "''a''" "marked_issue 4 ''a'' 5" "seconds 17" 1] marked_issues_a(1)
    by (simp add: w_def timed_out_world_def filing_world0_def new_filer_def marked_issue_def filing_times)
  with timed_out_run have run: "(filing_step 1 ''a'')\<^sup>*\<^sup>* filing_world0 w" by (rule rtranclp.rtrancl_into_rtrancl)
  have "length (marked ''a'' (github_issues w)) \<le> 1 + length (fw_late w)"
    by (rule a_group_gets_at_most_one_issue [OF run])
      (simp_all add: filing_world0_def marked_def filing_db_def issues_ok_def github_issues_def)
  moreover have "fw_late w = []" "marked ''a'' (github_issues w) = [(''o/r'', marked_issue 4 ''a'' 5)]"
    using marked_issues_a(1) by (simp_all add: marked_def w_def timed_out_world_def filing_world0_def github_issues_def)
  ultimately show ?thesis using run by blast
qed

text \<open>The reconciliation that the timeout has started lists the repository, finds nothing and releases the claim.\<close>

definition released_world :: filing_world where
  "released_world = timed_out_world\<lparr>fw_now := seconds 20, fw_db := filing_db,
     fw_filers := [(new_filer 0 ''o/r'')\<lparr>fl_gone := True, fl_listed := True\<rparr>]\<rparr>"

lemma released_run: "(filing_step 1 ''a'')\<^sup>*\<^sup>* timed_out_world released_world"
proof -
  let ?q = "\<lparr>ro_context = context_a, ro_resolution = None\<rparr>"
  let ?r = "group_issue_reconciliation_resolution (Complete []) ''a''"
  define w1 where "w1 = timed_out_world\<lparr>fw_now := seconds 17, fw_db := attempted_db, fw_reconcilers := [?q]\<rparr>"
  define w2 where "w2 = w1\<lparr>fw_now := seconds 18, fw_filers := [(new_filer 0 ''o/r'')\<lparr>fl_gone := True, fl_listed := True\<rparr>],
      fw_reconcilers := [?q\<lparr>ro_resolution := Some ?r\<rparr>]\<rparr>"
  have "filing_step 1 ''a'' timed_out_world w1"
    using filing_step.reconciles [of timed_out_world 1 "''a''" "seconds 16 - minutes GROUP_ISSUE_RECONCILIATION_RETRY_MINUTES"
        "Some context_a" attempted_db "seconds 17"] timeout_attempt
    by (simp add: w1_def timed_out_world_def filing_world0_def seconds_def)
  moreover have "filing_step 1 ''a'' w1 w2"
    using filing_step.lists [of ?q w1 "Complete []" "seconds 18" 1 "''a''"]
    by (simp add: w1_def w2_def timed_out_world_def filing_world0_def github_issues_def listed_by_def new_filer_def context_a_def seconds_def)
  moreover have "filing_step 1 ''a'' w2 released_world"
    using filing_step.settles [of "?q\<lparr>ro_resolution := Some ?r\<rparr>" w2 ?r "seconds 20" 1 "''a''"] timeout_release
    by (simp add: w1_def w2_def released_world_def timed_out_world_def filing_world0_def seconds_def)
  ultimately show ?thesis by (meson converse_rtranclp_into_rtranclp r_into_rtranclp)
qed

text \<open>
  C36.  A late creation files twice: a handler times out and marks its claim, the reconciliation that
  the timeout starts lists the repository before GitHub has created the issue, releases the claim, and
  the next request files another issue; the first one lands after all.  The group then has two issues,
  for two claims that both followed the protocol.
\<close>

theorem a_late_creation_files_twice:
  "\<exists>w. (filing_step 1 ''a'')\<^sup>*\<^sup>* filing_world0 w \<and> fw_late w = [(''o/r'', marked_issue 4 ''a'' 5)]
     \<and> marked ''a'' (github_issues w) = [(''o/r'', marked_issue 4 ''a'' 5), (''o/r'', marked_issue 7 ''a'' (seconds 20))]"
proof -
  let ?old = "(new_filer 0 ''o/r'')\<lparr>fl_gone := True, fl_listed := True\<rparr>" and ?new = "new_filer (seconds 20) ''o/r''"
  define w1 where "w1 = released_world\<lparr>fw_now := seconds 21, fw_db := claimed_db (seconds 20), fw_filers := [?new, ?old]\<rparr>"
  define w2 where "w2 = w1\<lparr>fw_now := seconds 22, fw_issues := [(''o/r'', marked_issue 7 ''a'' (seconds 20))],
      fw_filers := map (creating ?new) [?new, ?old]\<rparr>"
  define w3 where "w3 = w2\<lparr>fw_now := seconds 23, fw_late := [(''o/r'', marked_issue 4 ''a'' 5)],
      fw_filers := map (creating ?old) (fw_filers w2)\<rparr>"
  note world = w1_def released_world_def timed_out_world_def filing_world0_def
  have "filing_step 1 ''a'' released_world w1"
    using filing_step.claims [of released_world request_a Claimed "claimed_db (seconds 20)" 1 "''a''" "seconds 21"] second_claim
    by (simp add: world request_a_def seconds_def)
  moreover have "filing_step 1 ''a'' w1 w2"
    using filing_step.creates [of ?new w1 "''a''" "marked_issue 7 ''a'' (seconds 20)" "seconds 22" 1] marked_issues_a(2)
    by (simp add: w2_def world new_filer_def marked_issue_def filing_times)
  moreover have "filing_step 1 ''a'' w2 w3"
    using filing_step.lands_late [of ?old w2 "''a''" "marked_issue 4 ''a'' 5" "seconds 23" 1] marked_issues_a(1)
    by (simp add: w3_def w2_def world new_filer_def creating_def marked_issue_def filing_times)
  ultimately have "(filing_step 1 ''a'')\<^sup>*\<^sup>* released_world w3" by (meson converse_rtranclp_into_rtranclp r_into_rtranclp)
  then have "(filing_step 1 ''a'')\<^sup>*\<^sup>* filing_world0 w3" using timed_out_run released_run by (meson rtranclp_trans)
  moreover have "fw_late w3 = [(''o/r'', marked_issue 4 ''a'' 5)]"
    "marked ''a'' (github_issues w3) = [(''o/r'', marked_issue 4 ''a'' 5), (''o/r'', marked_issue 7 ''a'' (seconds 20))]"
    using marked_issues_a by (simp_all add: w3_def w2_def marked_def github_issues_def)
  ultimately show ?thesis by blast
qed

text \<open>
  Without the bound on a handler's delay the claim is not fenced: its release and completion only ask
  whether some claim is pending.  Here a first filer is quarantined and reconciled away, a second one
  claims, and the late release of the first lets a third one claim while the second is still filing.
\<close>

definition late_release :: "bool list result" where
  "late_release =
     (let claim = (\<lambda>now db. claim_group_issue_filing now request_a (now - STALE) db)
      in result_bind (claim 0 filing_db) (\<lambda>(c1, db).
         result_bind (claim (minutes 6) db) (\<lambda>(c2, db).
         result_bind (claim_group_issue_reconciliation (minutes 7) 1 ''a'' (minutes 6) db) (\<lambda>(_, db).
         result_bind (release_group_issue_reconciliation_claim 1 ''a'' (minutes 7) db) (\<lambda>(released, db).
         result_bind (claim (minutes 8) db) (\<lambda>(c3, db).
         result_bind (release_group_issue_filing_claim 1 ''a'' db) (\<lambda>(_, db).
         result_bind (claim (minutes 9) db) (\<lambda>(c4, db).
           Inr [c1 = Claimed, c2 = ReconciliationNeeded, released, c3 = Claimed, c4 = Claimed]))))))))"

lemma late_release_lets_a_third_filer_in: "late_release = Inr [True, True, True, True, True]"
  by code_simp

end
