(* ===== verification/StoreText.thy ===== *)
theory StoreText
  imports ApiError
begin

text \<open>
  The text helpers at the head of \<open>backend/src/store.rs\<close> that every operation storing a name uses:
  \<open>clean\<close>, \<open>slug\<close>, \<open>validated_name\<close>, and the two printed forms of a UUID.  The full Unicode
  \<open>str::to_lowercase\<close> is a parameter \<open>lower\<close>: its case tables are not part of the sources.
\<close>

section \<open>Words of a text\<close>

text \<open>\<open>split_whitespace\<close>: the maximal runs without white space; the first argument collects a run.\<close>

function words_from :: "string \<Rightarrow> string \<Rightarrow> string list" where
  "words_from run s =
     (if s = [] then (if run = [] then [] else [rev run])
      else if ws_len s = 0 then words_from (hd s # run) (tl s)
      else (if run = [] then [] else [rev run]) @ words_from [] (drop (ws_len s) s))"
  by pat_completeness auto
termination
  by (relation "measure (\<lambda>(_, s). length s)") auto

declare words_from.simps [simp del]

definition split_whitespace :: "string \<Rightarrow> string list" where
  "split_whitespace s = words_from [] s"

definition clean :: "string \<Rightarrow> nat \<Rightarrow> string" where
  "clean v n = utf8_take n (join '' '' (split_whitespace v))"

lemma clean_length: "utf8_count (clean v n) \<le> n"
  by (simp add: clean_def utf8_count_take)

text \<open>\<open>value.chars().any(char::is_whitespace)\<close>\<close>

fun has_whitespace :: "string \<Rightarrow> bool" where
  "has_whitespace [] \<longleftrightarrow> False"
| "has_whitespace (c # s) \<longleftrightarrow> ws_len (c # s) \<noteq> 0 \<or> has_whitespace s"

section \<open>Printed UUIDs\<close>

definition hex_char :: "nat \<Rightarrow> byte" where
  "hex_char d = (if d < 10 then char_of (48 + d) else char_of (87 + d))"

fun hex_fixed :: "nat \<Rightarrow> nat \<Rightarrow> string" where
  "hex_fixed 0 n = []"
| "hex_fixed (Suc k) n = hex_fixed k (n div 16) @ [hex_char (n mod 16)]"

definition uuid_simple :: "uuid \<Rightarrow> string" where
  "uuid_simple u = hex_fixed 32 u"

definition uuid_text :: "uuid \<Rightarrow> string" where
  "uuid_text u =
     (let s = uuid_simple u
      in join ''-'' [take 8 s, take 4 (drop 8 s), take 4 (drop 12 s), take 4 (drop 16 s), drop 20 s])"

lemma length_hex_fixed [simp]: "length (hex_fixed k n) = k"
  by (induction k arbitrary: n) auto

lemma hex_char_inject:
  assumes "a < 16" "b < 16"
  shows "hex_char a = hex_char b \<longleftrightarrow> a = b"
proof
  assume eq: "hex_char a = hex_char b"
  have v: "byte_val (hex_char d) = (if d < 10 then 48 + d else 87 + d)" if "d < 16" for d
    using that by (simp add: hex_char_def)
  from eq have "(if a < 10 then 48 + a else 87 + a) = (if b < 10 then 48 + b else 87 + b)"
    using v [OF assms(1)] v [OF assms(2)] by metis
  then show "a = b" by (simp split: if_split_asm)
qed simp

lemma hex_fixed_inject:
  "m < 16 ^ k \<Longrightarrow> n < 16 ^ k \<Longrightarrow> hex_fixed k m = hex_fixed k n \<longleftrightarrow> m = n"
proof (induction k arbitrary: m n)
  case (Suc k)
  have "m div 16 < 16 ^ k" "n div 16 < 16 ^ k"
    using Suc.prems by (simp_all add: less_mult_imp_div_less mult.commute)
  with Suc.IH have "hex_fixed k (m div 16) = hex_fixed k (n div 16) \<longleftrightarrow> m div 16 = n div 16" by blast
  moreover have "hex_char (m mod 16) = hex_char (n mod 16) \<longleftrightarrow> m mod 16 = n mod 16"
    by (rule hex_char_inject) simp_all
  ultimately have "hex_fixed (Suc k) m = hex_fixed (Suc k) n
      \<longleftrightarrow> m div 16 = n div 16 \<and> m mod 16 = n mod 16"
    by (simp only: hex_fixed.simps append1_eq_conv)
  also have "\<dots> \<longleftrightarrow> m = n" by (metis mult_div_mod_eq)
  finally show ?case .
qed simp

lemma uuid_simple_inject: "u < 2 ^ 128 \<Longrightarrow> v < 2 ^ 128 \<Longrightarrow> uuid_simple u = uuid_simple v \<longleftrightarrow> u = v"
  unfolding uuid_simple_def by (rule hex_fixed_inject) simp_all

lemma length_uuid_simple [simp]: "length (uuid_simple u) = 32"
  by (simp add: uuid_simple_def)

section \<open>Slugs and names\<close>

text \<open>
  Every character that is not an ASCII letter or digit becomes a dash; the empty pieces between
  dashes are dropped.  The six random digits come from a fresh UUID.
\<close>

definition slug_base :: "string \<Rightarrow> string" where
  "slug_base lowered =
     join ''-'' (filter (\<lambda>part. part \<noteq> [])
       (split_on ((=) CHR ''-'')
         (map (\<lambda>c. if is_alnum c then c else CHR ''-'') (filter (\<lambda>c. \<not> utf8_cont c) lowered))))"

definition slug :: "(string \<Rightarrow> string) \<Rightarrow> uuid \<Rightarrow> string \<Rightarrow> string" where
  "slug lower fresh v =
     (let base = slug_base (lower v)
      in (if base = [] then ''workspace'' else take 36 base) @ ''-'' @ take 6 (uuid_simple fresh))"

definition validated_name :: "string \<Rightarrow> string \<Rightarrow> string result" where
  "validated_name v entity =
     (let name = clean v 80
      in if utf8_count name < 2
         then Inl (bad_request (entity @ '' name must contain at least 2 characters''))
         else Inr name)"

lemma validated_name_length:
  "validated_name v entity = Inr name \<Longrightarrow> 2 \<le> utf8_count name \<and> utf8_count name \<le> 80"
  using clean_length [of v 80] by (auto simp: validated_name_def Let_def split: if_split_asm)

text \<open>
  \<open>database_conflict\<close>: a violated unique index (code 23505) becomes a conflict with the given
  message, every other failure of the statement an internal error.
\<close>

datatype db_failure = UniqueViolation | OtherFailure

fun database_conflict :: "db_failure \<Rightarrow> string \<Rightarrow> api_error" where
  "database_conflict UniqueViolation message = conflict message"
| "database_conflict OtherFailure message = internal_error"

end
