(* ===== verification/Teams.thy ===== *)
theory Teams
  imports StoreText "HOL-Library.Product_Lexorder"
begin

text \<open>
  \<open>backend/src/store.rs\<close>: teams (workspaces), their members and invitations; tables \<open>workspaces\<close>,
  \<open>workspace_members\<close> and \<open>workspace_invitations\<close> with the constraints of migrations 0001, 0002,
  0010, 0011 and 0018.  An operation returns its result and the tables it leaves: one that runs
  outside a transaction keeps the statements before the failing one.

  Parameters: the clock, new random UUIDs, \<open>lower\<close> for \<open>str::to_lowercase\<close>, \<open>sql_lower\<close> for SQL's
  \<open>LOWER\<close> and \<open>collate\<close> for the rank of a text in an \<open>ORDER BY\<close> (both depend on the database's
  collation).  Statements of one operation see one time.
\<close>

section \<open>Tables\<close>

datatype team_role = Owner | Admin | Plain_Member

datatype invitee_kind = By_Email | By_Handle | By_Link

record os_user =
  ou_id :: string
  ou_handle :: string
  ou_email :: "string option"
  ou_display_name :: "string option"

record workspace_row =
  ws_id :: uuid
  ws_os_user :: string
  ws_name :: string
  ws_slug :: string
  ws_feedback_mode :: string
  ws_collect_event_summaries :: bool
  ws_retention_days :: int
  ws_created_at :: time
  ws_updated_at :: time

record member_row =
  tm_workspace :: uuid
  tm_user :: string
  tm_handle :: string
  tm_email :: "string option"
  tm_display_name :: string
  tm_role :: team_role
  tm_joined_at :: time
  tm_updated_at :: time

record invitation_row =
  ti_id :: uuid
  ti_workspace :: uuid
  ti_invited_by :: string
  ti_kind :: invitee_kind
  ti_value :: string
  ti_role :: team_role
  ti_created_at :: time
  ti_expires_at :: time
  ti_accepted_at :: "time option"
  ti_accepted_by :: "string option"
  ti_revoked_at :: "time option"

record team_db =
  td_workspaces :: "workspace_row list"
  td_members :: "member_row list"
  td_invitations :: "invitation_row list"

text \<open>
  \<open>DashboardContext\<close>, as the authentication of a request resolved it: what the operations on teams
  read of it, the ids of the user and of the workspace and the role.
\<close>

record dashboard_context =
  dc_user :: string
  dc_workspace :: uuid
  dc_role :: team_role

type_synonym 'a team_op = "team_db \<Rightarrow> 'a result \<times> team_db"

text \<open>\<open>CHECK (os_user_id ~ '^usr_')\<close>\<close>

definition user_shape :: "string \<Rightarrow> bool" where
  "user_shape user = starts_with ''usr_'' user"

definition is_member :: "uuid \<Rightarrow> string \<Rightarrow> member_row \<Rightarrow> bool" where
  "is_member workspace_id user m \<longleftrightarrow> tm_workspace m = workspace_id \<and> tm_user m = user"

definition is_open :: "invitation_row \<Rightarrow> bool" where
  "is_open i \<longleftrightarrow> ti_accepted_at i = None \<and> ti_revoked_at i = None"

definition available :: "time \<Rightarrow> invitation_row \<Rightarrow> bool" where
  "available now i \<longleftrightarrow> is_open i \<and> ti_expires_at i > now"

definition workspace_exists :: "uuid \<Rightarrow> team_db \<Rightarrow> bool" where
  "workspace_exists workspace_id db \<longleftrightarrow> (\<exists>w \<in> set (td_workspaces db). ws_id w = workspace_id)"

definition member_of :: "uuid \<Rightarrow> string \<Rightarrow> team_db \<Rightarrow> member_row option" where
  "member_of workspace_id user db = find (is_member workspace_id user) (td_members db)"

definition display_name_of :: "os_user \<Rightarrow> string" where
  "display_name_of u = (case ou_display_name u of Some d \<Rightarrow> d | None \<Rightarrow> ou_handle u)"

definition email_of :: "(string \<Rightarrow> string) \<Rightarrow> os_user \<Rightarrow> string option" where
  "email_of lower u = map_option (\<lambda>e. lower (trim e)) (ou_email u)"

section \<open>Workspaces and members\<close>

text \<open>
  \<open>INSERT .. ON CONFLICT (workspace_id, os_user_id) DO UPDATE\<close>: the names of an existing row are
  refreshed, its role becomes the given function of the stored one.  A user id of the wrong shape or
  a workspace that does not exist violates a constraint.
\<close>

definition upsert_member ::
  "(team_role \<Rightarrow> team_role) \<Rightarrow> time \<Rightarrow> (string \<Rightarrow> string) \<Rightarrow> uuid \<Rightarrow> os_user \<Rightarrow> team_role \<Rightarrow> unit team_op"
where
  "upsert_member kept now lower workspace_id u role db =
     (if \<not> user_shape (ou_id u) \<or> \<not> workspace_exists workspace_id db then (Inl internal_error, db)
      else
        (let handle = clean (ou_handle u) 80; email = email_of lower u;
             display = clean (display_name_of u) 100
         in if member_of workspace_id (ou_id u) db = None
            then (Inr (), db\<lparr>td_members := td_members db @
                   [\<lparr>tm_workspace = workspace_id, tm_user = ou_id u, tm_handle = handle,
                     tm_email = email, tm_display_name = display, tm_role = role,
                     tm_joined_at = now, tm_updated_at = now\<rparr>]\<rparr>)
            else (Inr (), db\<lparr>td_members :=
                   update_where (is_member workspace_id (ou_id u))
                     (\<lambda>m. m\<lparr>tm_handle := handle, tm_email := email, tm_display_name := display,
                            tm_role := kept (tm_role m), tm_updated_at := now\<rparr>) (td_members db)\<rparr>)))"

definition upsert_workspace_member ::
  "time \<Rightarrow> (string \<Rightarrow> string) \<Rightarrow> uuid \<Rightarrow> os_user \<Rightarrow> team_role \<Rightarrow> unit team_op" where
  "upsert_workspace_member = upsert_member (\<lambda>stored. stored)"

text \<open>
  Inside one step the \<open>ON CONFLICT (os_user_id)\<close> of the insertion cannot apply: the preceding
  \<open>SELECT\<close> found no workspace of the user.  The remaining unique indexes (id, slug) and the
  \<open>CHECK\<close> on the user id make the statement fail.
\<close>

definition insert_workspace ::
  "time \<Rightarrow> uuid \<Rightarrow> uuid \<Rightarrow> (string \<Rightarrow> string) \<Rightarrow> os_user \<Rightarrow> workspace_row team_op" where
  "insert_workspace now new_id slug_id lower u db =
     (let display = display_name_of u;
          row = \<lparr>ws_id = new_id, ws_os_user = ou_id u, ws_name = clean display 70 @ '' workspace'',
                 ws_slug = slug lower slug_id display, ws_feedback_mode = ''auto'',
                 ws_collect_event_summaries = True, ws_retention_days = 30, ws_created_at = now, ws_updated_at = now\<rparr>
      in if user_shape (ou_id u)
            \<and> (\<forall>w \<in> set (td_workspaces db). ws_id w \<noteq> new_id \<and> ws_slug w \<noteq> ws_slug row)
         then (Inr row, db\<lparr>td_workspaces := td_workspaces db @ [row]\<rparr>)
         else (Inl internal_error, db))"

text \<open>Running one statement after the other, stopping at the first error.\<close>

definition andthen :: "'a team_op \<Rightarrow> ('a \<Rightarrow> 'b team_op) \<Rightarrow> 'b team_op" where
  "andthen f g db = (case f db of (Inl e, db') \<Rightarrow> (Inl e, db') | (Inr x, db') \<Rightarrow> g x db')"

definition give :: "'a \<Rightarrow> 'a team_op" where
  "give x db = (Inr x, db)"

definition refuse :: "api_error \<Rightarrow> 'a team_op" where
  "refuse e db = (Inl e, db)"

definition get_or_create_workspace ::
  "time \<Rightarrow> uuid \<Rightarrow> uuid \<Rightarrow> (string \<Rightarrow> string) \<Rightarrow> os_user \<Rightarrow> workspace_row team_op" where
  "get_or_create_workspace now new_id slug_id lower u db =
     andthen
       (case find (\<lambda>w. ws_os_user w = ou_id u) (td_workspaces db) of
          Some w \<Rightarrow> give w
        | None \<Rightarrow> insert_workspace now new_id slug_id lower u)
       (\<lambda>w. andthen (upsert_workspace_member now lower (ws_id w) u Owner) (\<lambda>_. give w)) db"

section \<open>Accepting invitations\<close>

definition eq_ignore_ascii_case :: "string \<Rightarrow> string \<Rightarrow> bool" where
  "eq_ignore_ascii_case a b \<longleftrightarrow> to_ascii_lowercase a = to_ascii_lowercase b"

definition without_at :: "string \<Rightarrow> string" where
  "without_at handle = dropWhile ((=) CHR ''@'') handle"

definition invitation_matches :: "invitation_row \<Rightarrow> os_user \<Rightarrow> bool" where
  "invitation_matches i u =
     (case ti_kind i of
        By_Email \<Rightarrow> (case ou_email u of None \<Rightarrow> False
                    | Some email \<Rightarrow> eq_ignore_ascii_case (trim email) (ti_value i))
      | By_Handle \<Rightarrow> eq_ignore_ascii_case (without_at (ou_handle u)) (ti_value i)
      | By_Link \<Rightarrow> True)"

definition GONE_INVITATION :: string where
  "GONE_INVITATION = ''This team invitation is no longer available''"

fun role_after_invitation :: "team_role \<Rightarrow> team_role \<Rightarrow> team_role" where
  "role_after_invitation invited Owner = Owner"
| "role_after_invitation invited Admin = Admin"
| "role_after_invitation invited Plain_Member = invited"

text \<open>\<open>UPDATE workspace_invitations\<close>: a link stays open, any other invitation is used up.\<close>

definition mark_accepted :: "time \<Rightarrow> string \<Rightarrow> invitation_row \<Rightarrow> invitation_row" where
  "mark_accepted now user i =
     (if ti_kind i = By_Link then i\<lparr>ti_accepted_at := None, ti_accepted_by := None\<rparr>
      else i\<lparr>ti_accepted_at := Some now, ti_accepted_by := Some user\<rparr>)"

definition accept_invitation ::
  "time \<Rightarrow> (string \<Rightarrow> string) \<Rightarrow> os_user \<Rightarrow> invitation_row \<Rightarrow> uuid team_op" where
  "accept_invitation now lower u i db =
     (if \<not> invitation_matches i u
      then (Inl (forbidden ''This invitation was created for a different email address''), db)
      else
        (case upsert_member (role_after_invitation (ti_role i)) now lower (ti_workspace i) u (ti_role i) db of
           (Inl e, _) \<Rightarrow> (Inl e, db)
         | (Inr _, db') \<Rightarrow>
             (let p = (\<lambda>r. ti_id r = ti_id i \<and> available now r)
              in if rows_affected p (td_invitations db') \<noteq> 1 then (Inl (gone GONE_INVITATION), db)
                 else (Inr (ti_workspace i),
                       db'\<lparr>td_invitations :=
                         update_where p (mark_accepted now (ou_id u)) (td_invitations db')\<rparr>))))"

definition accept_team_invitation ::
  "time \<Rightarrow> (string \<Rightarrow> string) \<Rightarrow> os_user \<Rightarrow> uuid \<Rightarrow> uuid team_op" where
  "accept_team_invitation now lower u invitation_id db =
     (case find (\<lambda>i. ti_id i = invitation_id \<and> available now i) (td_invitations db) of
        None \<Rightarrow> (Inl (gone GONE_INVITATION), db)
      | Some i \<Rightarrow> accept_invitation now lower u i db)"

fun accept_each ::
  "time \<Rightarrow> (string \<Rightarrow> string) \<Rightarrow> os_user \<Rightarrow> invitation_row list \<Rightarrow> unit team_op" where
  "accept_each now lower u [] = give ()"
| "accept_each now lower u (i # is) =
     andthen (accept_invitation now lower u i) (\<lambda>_. accept_each now lower u is)"

definition accept_matching_invitations ::
  "time \<Rightarrow> (string \<Rightarrow> string) \<Rightarrow> os_user \<Rightarrow> unit team_op" where
  "accept_matching_invitations now lower u db =
     accept_each now lower u
       (filter (\<lambda>i. available now i
            \<and> (ti_kind i = By_Handle \<and> ti_value i = lower (without_at (ou_handle u))
               \<or> ti_kind i = By_Email \<and> Some (ti_value i) = email_of lower u))
          (td_invitations db)) db"

section \<open>Access of a request\<close>

fun role_rank :: "team_role \<Rightarrow> nat" where
  "role_rank Owner = 0"
| "role_rank Admin = 1"
| "role_rank Plain_Member = 2"

definition refresh_names :: "time \<Rightarrow> (string \<Rightarrow> string) \<Rightarrow> os_user \<Rightarrow> team_db \<Rightarrow> team_db" where
  "refresh_names now lower u db =
     db\<lparr>td_members := update_where (\<lambda>m. tm_user m = ou_id u)
       (\<lambda>m. m\<lparr>tm_handle := clean (ou_handle u) 80, tm_email := email_of lower u,
              tm_display_name := clean (display_name_of u) 100, tm_updated_at := now\<rparr>)
       (td_members db)\<rparr>"

definition memberships_of :: "(string \<Rightarrow> nat) \<Rightarrow> string \<Rightarrow> team_db \<Rightarrow> (workspace_row \<times> member_row) list" where
  "memberships_of collate user db =
     sort_key (\<lambda>(w, m). (role_rank (tm_role m), tm_joined_at m, collate (ws_name w)))
       (filter (\<lambda>(w, m). ws_id w = tm_workspace m \<and> tm_user m = user)
          (List.product (td_workspaces db) (td_members db)))"

definition select_membership ::
  "uuid option \<Rightarrow> uuid \<Rightarrow> (workspace_row \<times> member_row) list \<Rightarrow> (workspace_row \<times> member_row) result" where
  "select_membership requested personal memberships =
     (case requested of
        Some workspace_id \<Rightarrow>
          (case find (\<lambda>(w, m). ws_id w = workspace_id) memberships of
             Some s \<Rightarrow> Inr s
           | None \<Rightarrow> Inl (forbidden ''You are not a member of this team''))
      | None \<Rightarrow>
          (case find (\<lambda>(w, m). ws_id w = personal) memberships of
             Some s \<Rightarrow> Inr s
           | None \<Rightarrow>
               (case memberships of
                  s # _ \<Rightarrow> Inr s
                | [] \<Rightarrow> Inl (forbidden ''No team membership is available''))))"

definition resolve_workspace_access ::
  "time \<Rightarrow> uuid \<Rightarrow> uuid \<Rightarrow> (string \<Rightarrow> string) \<Rightarrow> (string \<Rightarrow> nat) \<Rightarrow> os_user \<Rightarrow> uuid option
   \<Rightarrow> (workspace_row \<times> team_role \<times> (workspace_row \<times> member_row) list) team_op" where
  "resolve_workspace_access now new_id slug_id lower collate u requested =
     andthen (get_or_create_workspace now new_id slug_id lower u) (\<lambda>personal.
     andthen (accept_matching_invitations now lower u) (\<lambda>_ db.
       let db' = refresh_names now lower u db;
           memberships = memberships_of collate (ou_id u) db'
       in (case select_membership requested (ws_id personal) memberships of
             Inl e \<Rightarrow> (Inl e, db')
           | Inr (w, m) \<Rightarrow> (Inr (w, tm_role m, memberships), db'))))"

section \<open>Inviting\<close>

definition normalize_invitee_email :: "(string \<Rightarrow> string) \<Rightarrow> string \<Rightarrow> string result" where
  "normalize_invitee_email lower v =
     (let email = lower (trim v)
      in if 3 \<le> length email \<and> length email \<le> 160 \<and> \<not> has_whitespace email
            \<and> length (split_on ((=) CHR ''@'') email) = 2
            \<and> \<not> starts_with ''@'' email \<and> \<not> ends_with ''@'' email
         then Inr email
         else Inl (bad_request ''Enter a valid email address''))"

definition validate_team_role :: "string \<Rightarrow> team_role result" where
  "validate_team_role role =
     (if role = ''admin'' then Inr Admin
      else if role = ''member'' then Inr Plain_Member
      else Inl (bad_request ''Role must be admin or member''))"

definition revoke_expired :: "time \<Rightarrow> uuid \<Rightarrow> (invitation_row \<Rightarrow> bool) \<Rightarrow> team_db \<Rightarrow> team_db" where
  "revoke_expired now workspace_id target db =
     db\<lparr>td_invitations :=
       update_where (\<lambda>i. ti_workspace i = workspace_id \<and> target i \<and> is_open i \<and> ti_expires_at i \<le> now)
         (\<lambda>i. i\<lparr>ti_revoked_at := Some now\<rparr>) (td_invitations db)\<rparr>"

text \<open>The primary key and the unique index on the open invitations of one target.\<close>

definition taken_target :: "invitation_row \<Rightarrow> invitation_row \<Rightarrow> bool" where
  "taken_target new i \<longleftrightarrow> ti_id i = ti_id new
     \<or> (is_open i \<and> ti_workspace i = ti_workspace new \<and> ti_kind i = ti_kind new
        \<and> ti_value i = ti_value new)"

definition open_link :: "uuid \<Rightarrow> invitation_row \<Rightarrow> bool" where
  "open_link workspace_id i \<longleftrightarrow> ti_workspace i = workspace_id \<and> ti_kind i = By_Link \<and> is_open i"

definition new_invitation ::
  "time \<Rightarrow> uuid \<Rightarrow> dashboard_context \<Rightarrow> invitee_kind \<Rightarrow> string \<Rightarrow> team_role \<Rightarrow> time \<Rightarrow> invitation_row" where
  "new_invitation now new_id ctx kind v role expires_at =
     \<lparr>ti_id = new_id, ti_workspace = dc_workspace ctx, ti_invited_by = dc_user ctx, ti_kind = kind,
      ti_value = v, ti_role = role, ti_created_at = now, ti_expires_at = expires_at,
      ti_accepted_at = None, ti_accepted_by = None, ti_revoked_at = None\<rparr>"

definition latest :: "invitation_row list \<Rightarrow> invitation_row option" where
  "latest is = (case sort_key (\<lambda>i. - ti_created_at i) is of [] \<Rightarrow> None | i # _ \<Rightarrow> Some i)"

definition create_invite_link :: "time \<Rightarrow> uuid \<Rightarrow> dashboard_context \<Rightarrow> invitation_row team_op" where
  "create_invite_link now new_id ctx db =
     (let db' = revoke_expired now (dc_workspace ctx) (\<lambda>i. ti_kind i = By_Link) db;
          row = new_invitation now new_id ctx By_Link (uuid_text new_id) Plain_Member (now + hours 24)
      in if \<not> user_shape (dc_user ctx) then (Inl internal_error, db')
         else if list_ex (open_link (dc_workspace ctx)) (td_invitations db')
         then (case latest (filter (\<lambda>i. open_link (dc_workspace ctx) i \<and> ti_role i = Plain_Member
                                      \<and> ti_expires_at i > now) (td_invitations db')) of
                 Some i \<Rightarrow> (Inr i, db')
               | None \<Rightarrow> (Inl (conflict ''Could not create the team invite link''), db'))
         else if list_ex (taken_target row) (td_invitations db') \<or> \<not> workspace_exists (dc_workspace ctx) db'
         then (Inl internal_error, db')
         else (Inr row, db'\<lparr>td_invitations := td_invitations db' @ [row]\<rparr>))"

definition create_email_invitation ::
  "time \<Rightarrow> uuid \<Rightarrow> (string \<Rightarrow> string) \<Rightarrow> (string \<Rightarrow> string) \<Rightarrow> dashboard_context \<Rightarrow> string \<Rightarrow> team_role
   \<Rightarrow> invitation_row team_op" where
  "create_email_invitation now new_id lower sql_lower ctx invitee role db =
     (case normalize_invitee_email lower invitee of
        Inl e \<Rightarrow> (Inl e, db)
      | Inr email \<Rightarrow>
          if list_ex (\<lambda>m. tm_workspace m = dc_workspace ctx
                \<and> map_option sql_lower (tm_email m) = Some email) (td_members db)
          then (Inl (conflict ''This person is already a team member''), db)
          else
            (let db' = revoke_expired now (dc_workspace ctx)
                         (\<lambda>i. ti_kind i = By_Email \<and> ti_value i = email) db;
                 row = new_invitation now new_id ctx By_Email email role (now + days 7)
             in if \<not> user_shape (dc_user ctx) then (Inl internal_error, db')
                else if list_ex (taken_target row) (td_invitations db')
                then (Inl (database_conflict UniqueViolation ''An active invitation already exists''), db')
                else if \<not> workspace_exists (dc_workspace ctx) db'
                then (Inl (database_conflict OtherFailure ''An active invitation already exists''), db')
                else (Inr row, db'\<lparr>td_invitations := td_invitations db' @ [row]\<rparr>)))"

definition create_team_invitation ::
  "time \<Rightarrow> uuid \<Rightarrow> (string \<Rightarrow> string) \<Rightarrow> (string \<Rightarrow> string) \<Rightarrow> dashboard_context \<Rightarrow> string option \<Rightarrow> string
   \<Rightarrow> invitation_row team_op" where
  "create_team_invitation now new_id lower sql_lower ctx invitee role_text =
     (if dc_role ctx \<noteq> Owner \<and> dc_role ctx \<noteq> Admin
      then refuse (forbidden ''Only owners and admins can invite members'')
      else
        (case validate_team_role (trim role_text) of
           Inl e \<Rightarrow> refuse e
         | Inr role \<Rightarrow>
             if dc_role ctx = Admin \<and> role \<noteq> Plain_Member
             then refuse (forbidden ''Admins can only invite members'')
             else (case invitee of
                     None \<Rightarrow>
                       if role \<noteq> Plain_Member
                       then refuse (bad_request ''Shareable invite links can only grant the member role'')
                       else create_invite_link now new_id ctx
                   | Some v \<Rightarrow> create_email_invitation now new_id lower sql_lower ctx v role)))"

definition revoke_team_invitation :: "time \<Rightarrow> dashboard_context \<Rightarrow> uuid \<Rightarrow> unit team_op" where
  "revoke_team_invitation now ctx invitation_id db =
     (if dc_role ctx \<noteq> Owner \<and> dc_role ctx \<noteq> Admin
      then refuse (forbidden ''Only owners and admins can revoke invitations'') db
      else
        (case find (\<lambda>i. ti_id i = invitation_id \<and> ti_workspace i = dc_workspace ctx \<and> is_open i)
                (td_invitations db) of
           None \<Rightarrow> refuse (not_found ''Invitation not found'') db
         | Some i \<Rightarrow>
             if dc_role ctx = Admin \<and> ti_role i \<noteq> Plain_Member
             then refuse (forbidden ''Admins can only revoke member invitations'') db
             else (Inr (), db\<lparr>td_invitations :=
                     update_where (\<lambda>r. ti_id r = invitation_id) (\<lambda>r. r\<lparr>ti_revoked_at := Some now\<rparr>)
                       (td_invitations db)\<rparr>)))"

section \<open>Managing members\<close>

text \<open>
  Changing a role and removing a member are two statements without a transaction: a \<open>SELECT\<close>
  with the checks on the row it read, and the write, which does not repeat them.
\<close>

definition check_member_role_update :: "dashboard_context \<Rightarrow> string \<Rightarrow> string \<Rightarrow> team_db \<Rightarrow> team_role result"
where
  "check_member_role_update ctx user role_text db =
     (if dc_role ctx \<noteq> Owner then Inl (forbidden ''Only the owner can change member roles'')
      else result_bind (validate_team_role (trim role_text)) (\<lambda>role.
        case member_of (dc_workspace ctx) user db of
          None \<Rightarrow> Inl (not_found ''Team member not found'')
        | Some target \<Rightarrow>
            if tm_role target = Owner then Inl (forbidden ''The owner role cannot be changed'')
            else Inr role))"

definition write_member_role :: "time \<Rightarrow> uuid \<Rightarrow> string \<Rightarrow> team_role \<Rightarrow> member_row team_op" where
  "write_member_role now workspace_id user role db =
     (let f = (\<lambda>m. m\<lparr>tm_role := role, tm_updated_at := now\<rparr>);
          db' = db\<lparr>td_members := update_where (is_member workspace_id user) f (td_members db)\<rparr>
      in (case member_of workspace_id user db of
            None \<Rightarrow> (Inl internal_error, db)
          | Some m \<Rightarrow> (Inr (f m), db')))"

definition update_team_member_role ::
  "time \<Rightarrow> dashboard_context \<Rightarrow> string \<Rightarrow> string \<Rightarrow> member_row team_op" where
  "update_team_member_role now ctx user role_text db =
     (case check_member_role_update ctx user role_text db of
        Inl e \<Rightarrow> (Inl e, db)
      | Inr role \<Rightarrow> write_member_role now (dc_workspace ctx) user role db)"

definition check_member_removal :: "dashboard_context \<Rightarrow> string \<Rightarrow> team_db \<Rightarrow> unit result" where
  "check_member_removal ctx user db =
     (if dc_role ctx \<noteq> Owner \<and> dc_role ctx \<noteq> Admin
      then Inl (forbidden ''Only owners and admins can remove members'')
      else
        (case member_of (dc_workspace ctx) user db of
           None \<Rightarrow> Inl (not_found ''Team member not found'')
         | Some target \<Rightarrow>
             if tm_role target = Owner then Inl (forbidden ''The team owner cannot be removed'')
             else if dc_role ctx = Admin \<and> tm_role target \<noteq> Plain_Member
             then Inl (forbidden ''Admins can only remove members'')
             else if tm_user target = dc_user ctx then Inl (forbidden ''You cannot remove yourself'')
             else Inr ()))"

definition delete_member :: "uuid \<Rightarrow> string \<Rightarrow> team_db \<Rightarrow> team_db" where
  "delete_member workspace_id user db =
     db\<lparr>td_members := delete_where (is_member workspace_id user) (td_members db)\<rparr>"

definition remove_team_member :: "dashboard_context \<Rightarrow> string \<Rightarrow> unit team_op" where
  "remove_team_member ctx user db =
     (case check_member_removal ctx user db of
        Inl e \<Rightarrow> (Inl e, db)
      | Inr _ \<Rightarrow> (Inr (), delete_member (dc_workspace ctx) user db))"

fun swapped_role :: "string \<Rightarrow> string \<Rightarrow> member_row \<Rightarrow> team_role" where
  "swapped_role old_owner new_owner m =
     (if tm_user m = old_owner then Admin else if tm_user m = new_owner then Owner else tm_role m)"

definition transfer_team_ownership :: "time \<Rightarrow> dashboard_context \<Rightarrow> string \<Rightarrow> unit team_op" where
  "transfer_team_ownership now ctx new_owner db =
     (if dc_role ctx \<noteq> Owner then (Inl (forbidden ''Only the current owner can transfer ownership''), db)
      else if new_owner = dc_user ctx then (Inl (bad_request ''Choose another team member''), db)
      else
        (case member_of (dc_workspace ctx) new_owner db of
           None \<Rightarrow> (Inl (not_found ''Team member not found''), db)
         | Some target \<Rightarrow>
             if tm_role target = Owner then (Inl (conflict ''This member already owns the team''), db)
             else
               (case find (\<lambda>m. tm_workspace m = dc_workspace ctx \<and> tm_role m = Owner) (td_members db) of
                  None \<Rightarrow> (Inl internal_error, db)
                | Some current \<Rightarrow>
                    if tm_user current \<noteq> dc_user ctx
                    then (Inl (conflict ''Team ownership changed; refresh and try again''), db)
                    else (Inr (), db\<lparr>td_members :=
                      update_where (\<lambda>m. tm_workspace m = dc_workspace ctx
                                      \<and> (tm_user m = dc_user ctx \<or> tm_user m = new_owner))
                        (\<lambda>m. m\<lparr>tm_role := swapped_role (dc_user ctx) new_owner m, tm_updated_at := now\<rparr>)
                        (td_members db)\<rparr>))))"

section \<open>Roles in the handlers of \<open>main.rs\<close>\<close>

definition require_workspace_editor :: "dashboard_context \<Rightarrow> unit result" where
  "require_workspace_editor ctx =
     (if dc_role ctx = Owner \<or> dc_role ctx = Admin then Inr ()
      else Inl (forbidden ''Your team role does not allow configuration changes''))"

section \<open>What the dashboard lists\<close>

definition dashboard_team_members :: "(string \<Rightarrow> nat) \<Rightarrow> uuid \<Rightarrow> team_db \<Rightarrow> member_row list" where
  "dashboard_team_members collate_lower workspace_id db =
     sort_key (\<lambda>m. (role_rank (tm_role m), collate_lower (tm_display_name m), tm_joined_at m))
       (filter (\<lambda>m. tm_workspace m = workspace_id) (td_members db))"

definition dashboard_team_invitations :: "time \<Rightarrow> dashboard_context \<Rightarrow> team_db \<Rightarrow> invitation_row list" where
  "dashboard_team_invitations now ctx db =
     (if dc_role ctx = Owner \<or> dc_role ctx = Admin
      then sort_key (\<lambda>i. - ti_created_at i)
             (filter (\<lambda>i. ti_workspace i = dc_workspace ctx \<and> available now i \<and> ti_kind i \<noteq> By_Link)
                (td_invitations db))
      else [])"

section \<open>Renaming\<close>

definition rename_workspace ::
  "time \<Rightarrow> uuid \<Rightarrow> (string \<Rightarrow> string) \<Rightarrow> uuid \<Rightarrow> string \<Rightarrow> workspace_row team_op" where
  "rename_workspace now slug_id lower workspace_id name_text db =
     (case validated_name name_text ''Team'' of
        Inl e \<Rightarrow> (Inl e, db)
      | Inr name \<Rightarrow>
          (let s = slug lower slug_id name;
               f = (\<lambda>w. w\<lparr>ws_name := name, ws_slug := s, ws_updated_at := now\<rparr>)
           in (case find (\<lambda>w. ws_id w = workspace_id) (td_workspaces db) of
                 None \<Rightarrow> (Inl (not_found ''Team not found''), db)
               | Some w \<Rightarrow>
                   if \<exists>v \<in> set (td_workspaces db). ws_id v \<noteq> workspace_id \<and> ws_slug v = s
                   then (Inl (database_conflict UniqueViolation ''A team with this name already exists''), db)
                   else (Inr (f w), db\<lparr>td_workspaces :=
                          update_where (\<lambda>w. ws_id w = workspace_id) f (td_workspaces db)\<rparr>))))"

end
