(* ===== verification/TeamProtocol.thy ===== *)
theory TeamProtocol
  imports Teams
begin

text \<open>
  What the operations of \<open>Teams\<close> promise, as a protocol over founders, roles and open offers, and
  the proof that every request on the tables is a sequence of its moves.  The guarantees on owners
  and promotions are shown on the protocol and carried over to the tables.
\<close>

named_theorems team_defs \<open>definitions of the operations on teams\<close>

section \<open>The protocol\<close>

record team_spec =
  sp_founder :: "uuid \<Rightarrow> string option"
  sp_role :: "uuid \<Rightarrow> string \<Rightarrow> team_role option"
  sp_offers :: "(uuid \<times> team_role) set"

definition set_role :: "uuid \<Rightarrow> string \<Rightarrow> team_role option \<Rightarrow> team_spec \<Rightarrow> team_spec" where
  "set_role w u r s = s\<lparr>sp_role := (sp_role s)(w := (sp_role s w)(u := r))\<rparr>"

text \<open>
  \<open>auth\<close> are the teams the request was made for as their owner, \<open>leavers\<close> the members it removes.
\<close>

inductive team_move ::
  "uuid set \<Rightarrow> (uuid \<times> string) set \<Rightarrow> team_spec \<Rightarrow> team_spec \<Rightarrow> bool" for auth leavers
where
  founds: "sp_founder s w = None \<Longrightarrow> (\<And>v. sp_role s w v = None) \<Longrightarrow>
    team_move auth leavers s (set_role w u (Some Owner) (s\<lparr>sp_founder := (sp_founder s)(w := Some u)\<rparr>))"
| returns_home: "sp_founder s w = Some u \<Longrightarrow> sp_role s w u = None \<Longrightarrow>
    team_move auth leavers s (set_role w u (Some Owner) s)"
| offers: "r = Plain_Member \<or> (r = Admin \<and> w \<in> auth) \<Longrightarrow>
    team_move auth leavers s (s\<lparr>sp_offers := insert (w, r) (sp_offers s)\<rparr>)"
| withdraws: "offers' \<subseteq> sp_offers s \<Longrightarrow> team_move auth leavers s (s\<lparr>sp_offers := offers'\<rparr>)"
| joins: "(w, r) \<in> sp_offers s \<Longrightarrow> sp_role s w u = None \<or> sp_role s w u = Some Plain_Member \<Longrightarrow>
    sp_founder s w \<noteq> None \<Longrightarrow> team_move auth leavers s (set_role w u (Some r) s)"
| assigns: "w \<in> auth \<Longrightarrow> sp_role s w u = Some x \<Longrightarrow> x \<noteq> Owner \<Longrightarrow> r \<noteq> Owner \<Longrightarrow>
    team_move auth leavers s (set_role w u (Some r) s)"
| leaves: "(w, u) \<in> leavers \<Longrightarrow> sp_role s w u = Some x \<Longrightarrow> x \<noteq> Owner \<Longrightarrow>
    team_move auth leavers s (set_role w u None s)"
| hands_over: "w \<in> auth \<Longrightarrow> sp_role s w a = Some Owner \<Longrightarrow> sp_role s w b = Some x \<Longrightarrow> x \<noteq> Owner \<Longrightarrow>
    team_move auth leavers s (set_role w a (Some Admin) (set_role w b (Some Owner) s))"

abbreviation team_moves ::
  "uuid set \<Rightarrow> (uuid \<times> string) set \<Rightarrow> team_spec \<Rightarrow> team_spec \<Rightarrow> bool" where
  "team_moves auth leavers \<equiv> (team_move auth leavers)\<^sup>*\<^sup>*"

lemma set_role_simps [simp]:
  "sp_role (set_role w u r s) w' u' = (if w' = w \<and> u' = u then r else sp_role s w' u')"
  "sp_founder (set_role w u r s) = sp_founder s"
  "sp_offers (set_role w u r s) = sp_offers s"
  by (simp_all add: set_role_def)

lemma set_role_same: "sp_role s w u = r \<Longrightarrow> set_role w u r s = s"
  by (auto simp: set_role_def)

subsection \<open>Owners\<close>

text \<open>
  Every founded team has an owner, teams not founded have no members, and no offer makes an owner.
  While its founder never leaves, a team has one owner.
\<close>

definition owned_spec :: "team_spec \<Rightarrow> bool" where
  "owned_spec s \<longleftrightarrow>
     (\<forall>w. sp_founder s w \<noteq> None \<longrightarrow> (\<exists>u. sp_role s w u = Some Owner))
     \<and> (\<forall>w u. sp_founder s w = None \<longrightarrow> sp_role s w u = None)
     \<and> (\<forall>w. (w, Owner) \<notin> sp_offers s)"

definition owners_of :: "team_spec \<Rightarrow> uuid \<Rightarrow> string set" where
  "owners_of s w = {u. sp_role s w u = Some Owner}"

definition one_owner :: "uuid \<Rightarrow> team_spec \<Rightarrow> bool" where
  "one_owner w s \<longleftrightarrow>
     (\<forall>f. sp_founder s w = Some f \<longrightarrow> sp_role s w f \<noteq> None \<and> (\<exists>u. owners_of s w = {u}))"

lemma owners_set_role:
  "owners_of (set_role w u r s) v =
     (if v = w then (if r = Some Owner then insert u (owners_of s w) else owners_of s w - {u})
      else owners_of s v)"
  by (auto simp: owners_of_def)

lemma owned_set_role:
  assumes "owned_spec s" "sp_founder s w \<noteq> None"
    and "sp_role s w u \<noteq> Some Owner \<or> r = Some Owner \<or> (\<exists>v. v \<noteq> u \<and> sp_role s w v = Some Owner)"
  shows "owned_spec (set_role w u r s)"
proof -
  have "\<exists>x. sp_role (set_role w u r s) v x = Some Owner" if f: "sp_founder s v \<noteq> None" for v
  proof -
    from assms(1) f obtain x where x: "sp_role s v x = Some Owner" by (auto simp: owned_spec_def)
    show ?thesis
    proof (cases "v = w \<and> x = u")
      case True
      then consider "r = Some Owner" | y where "y \<noteq> u" "sp_role s w y = Some Owner"
        using assms(3) x by auto
      then show ?thesis
      proof cases
        case 1
        with True show ?thesis by (intro exI [of _ x]) simp
      next
        case 2
        with True show ?thesis by (intro exI [of _ y]) simp
      qed
    next
      case False
      with x show ?thesis by (intro exI [of _ x]) auto
    qed
  qed
  with assms(1,2) show ?thesis by (auto simp: owned_spec_def)
qed

lemma owned_founder: "owned_spec s \<Longrightarrow> sp_role s w u \<noteq> None \<Longrightarrow> sp_founder s w \<noteq> None"
  by (auto simp: owned_spec_def)

lemma owned_move: "team_move auth leavers s s' \<Longrightarrow> owned_spec s \<Longrightarrow> owned_spec s'"
proof (induction rule: team_move.induct)
  case (founds s w u)
  then show ?case by (simp add: owned_spec_def)
next
  case (returns_home s w u)
  then show ?case by (intro owned_set_role) auto
next
  case (offers r w s)
  then show ?case by (auto simp: owned_spec_def)
next
  case (withdraws offers' s)
  then show ?case by (auto simp: owned_spec_def)
next
  case (joins w r s u)
  then show ?case by (intro owned_set_role) auto
next
  case (assigns w s u x r)
  then show ?case by (intro owned_set_role owned_founder) auto
next
  case (leaves w u s x)
  then show ?case by (intro owned_set_role owned_founder) auto
next
  case (hands_over w s a b x)
  have "a \<noteq> b" using hands_over by auto
  moreover have "sp_founder s w \<noteq> None" using owned_founder hands_over by blast
  ultimately show ?case
    using hands_over by (intro owned_set_role) auto
qed

text \<open>A team whose founder does not leave keeps one owner.\<close>

lemma one_owner_move:
  "team_move auth leavers s s' \<Longrightarrow> owned_spec s \<Longrightarrow> one_owner w s \<Longrightarrow>
   (\<And>f. sp_founder s w = Some f \<Longrightarrow> (w, f) \<notin> leavers) \<Longrightarrow> one_owner w s'"
proof (induction rule: team_move.induct)
  case (founds s v u)
  then show ?case by (auto simp: one_owner_def owners_of_def)
next
  case (returns_home s v u)
  then show ?case by (auto simp: one_owner_def owners_set_role)
next
  case (offers r v s)
  then show ?case by (simp add: one_owner_def owners_of_def)
next
  case (withdraws offers' s)
  then show ?case by (simp add: one_owner_def owners_of_def)
next
  case (joins v r s u)
  then have "r \<noteq> Owner" "u \<notin> owners_of s v" by (auto simp: owned_spec_def owners_of_def)
  with joins.prems(2) show ?case by (auto simp: one_owner_def owners_set_role)
next
  case (assigns v s u x r)
  then have "r \<noteq> Owner" "u \<notin> owners_of s v" by (auto simp: owners_of_def)
  with assigns.prems(2) show ?case by (auto simp: one_owner_def owners_set_role)
next
  case (leaves v u s x)
  then have "u \<notin> owners_of s v" "sp_founder s w = Some u \<longrightarrow> v \<noteq> w" by (auto simp: owners_of_def)
  with leaves.prems(2) show ?case by (auto simp: one_owner_def owners_set_role)
next
  case (hands_over v s a b x)
  show ?case
  proof (cases "v = w")
    case False
    then show ?thesis using hands_over.prems(2) by (simp add: one_owner_def owners_set_role)
  next
    case True
    have "a \<noteq> b" "a \<in> owners_of s w" using hands_over.hyps True by (auto simp: owners_of_def)
    moreover from this have "{b, a} - {a} = {b}" by auto
    ultimately show ?thesis
      using hands_over.prems(2) hands_over.hyps(2) True
      by (auto simp: one_owner_def owners_set_role)
  qed
qed

subsection \<open>Promotions\<close>

text \<open>
  Without an owner's request for team \<open>w\<close>, and with no open admin invitation, nobody but the
  founder rises above a plain member.
\<close>

definition ranks_above :: "uuid \<Rightarrow> team_spec \<Rightarrow> string set" where
  "ranks_above w s = {u. sp_role s w u = Some Owner \<or> sp_role s w u = Some Admin}"

definition unpromoted :: "uuid \<Rightarrow> string set \<Rightarrow> team_spec \<Rightarrow> bool" where
  "unpromoted w ranked s \<longleftrightarrow>
     (w, Admin) \<notin> sp_offers s \<and> (\<forall>u \<in> ranks_above w s. u \<in> ranked \<or> sp_founder s w = Some u)"

lemma unpromoted_move:
  "team_move auth leavers s s' \<Longrightarrow> owned_spec s \<Longrightarrow> w \<notin> auth \<Longrightarrow> unpromoted w ranked s \<Longrightarrow>
   unpromoted w ranked s'"
proof (induction rule: team_move.induct)
  case (founds s v u)
  then show ?case by (auto simp: unpromoted_def ranks_above_def)
next
  case (returns_home s v u)
  then show ?case by (auto simp: unpromoted_def ranks_above_def)
next
  case (offers r v s)
  then show ?case by (auto simp: unpromoted_def ranks_above_def)
next
  case (withdraws offers' s)
  then show ?case by (auto simp: unpromoted_def ranks_above_def)
next
  case (joins v r s u)
  then have "v = w \<longrightarrow> r = Plain_Member"
    by (cases r) (auto simp: owned_spec_def unpromoted_def)
  with joins.prems(3) show ?case by (auto simp: unpromoted_def ranks_above_def)
next
  case (assigns v s u x r)
  then show ?case by (auto simp: unpromoted_def ranks_above_def)
next
  case (leaves v u s x)
  then show ?case by (auto simp: unpromoted_def ranks_above_def)
next
  case (hands_over v s a b x)
  then show ?case by (auto simp: unpromoted_def ranks_above_def)
qed

lemma founder_stays: "team_move auth leavers s s' \<Longrightarrow> sp_founder s w = Some f \<Longrightarrow> sp_founder s' w = Some f"
  by (induction rule: team_move.induct) (auto split: if_splits)

end
