(* ===== verification/TeamRequests.thy ===== *)
theory TeamRequests
  imports TeamProtocol
begin

text \<open>
  The requests on teams, and the simulation: what a request does to the tables of \<open>Teams\<close> is, seen
  through \<open>team_view\<close>, a sequence of moves of the protocol.
\<close>

section \<open>The view and the table constraints\<close>

definition role_of :: "uuid \<Rightarrow> string \<Rightarrow> team_db \<Rightarrow> team_role option" where
  "role_of w u db = map_option tm_role (member_of w u db)"

definition founder_of :: "uuid \<Rightarrow> team_db \<Rightarrow> string option" where
  "founder_of w db = map_option ws_os_user (find (\<lambda>r. ws_id r = w) (td_workspaces db))"

definition open_offers :: "invitation_row list \<Rightarrow> (uuid \<times> team_role) set" where
  "open_offers is = (\<lambda>i. (ti_workspace i, ti_role i)) ` {i \<in> set is. is_open i}"

definition team_view :: "team_db \<Rightarrow> team_spec" where
  "team_view db =
     \<lparr>sp_founder = (\<lambda>w. founder_of w db), sp_role = (\<lambda>w u. role_of w u db),
      sp_offers = open_offers (td_invitations db)\<rparr>"

lemma team_view_simps [simp]:
  "sp_founder (team_view db) w = founder_of w db"
  "sp_role (team_view db) w u = role_of w u db"
  "sp_offers (team_view db) = open_offers (td_invitations db)"
  by (simp_all add: team_view_def)

lemma team_view_eqI:
  assumes "\<And>w. founder_of w db = sp_founder s w" "\<And>w u. role_of w u db = sp_role s w u"
    "open_offers (td_invitations db) = sp_offers s"
  shows "team_view db = s"
proof -
  have "sp_founder (team_view db) = sp_founder s" "sp_role (team_view db) = sp_role s"
    "sp_offers (team_view db) = sp_offers s"
    using assms by (auto simp: fun_eq_iff)
  then show ?thesis by (cases s; cases "team_view db") simp
qed

definition member_key :: "member_row \<Rightarrow> uuid \<times> string" where
  "member_key m = (tm_workspace m, tm_user m)"

definition team_inv :: "team_db \<Rightarrow> bool" where
  "team_inv db \<longleftrightarrow>
     distinct (map member_key (td_members db))
     \<and> distinct (map ws_id (td_workspaces db))
     \<and> distinct (map ws_os_user (td_workspaces db))
     \<and> distinct (map ti_id (td_invitations db))
     \<and> (\<forall>m \<in> set (td_members db). workspace_exists (tm_workspace m) db)
     \<and> (\<forall>i \<in> set (td_invitations db). workspace_exists (ti_workspace i) db \<and> ti_role i \<noteq> Owner)"

lemma is_member_key: "is_member w u m \<longleftrightarrow> member_key m = (w, u)"
  by (auto simp: is_member_def member_key_def)

lemma member_of_iff:
  "team_inv db \<Longrightarrow> member_of w u db = Some m \<longleftrightarrow> m \<in> set (td_members db) \<and> member_key m = (w, u)"
  unfolding member_of_def is_member_key by (rule find_key_iff) (simp add: team_inv_def)

lemma role_of_iff:
  "team_inv db \<Longrightarrow> role_of w u db = Some r \<longleftrightarrow>
     (\<exists>m \<in> set (td_members db). tm_workspace m = w \<and> tm_user m = u \<and> tm_role m = r)"
  by (auto simp: role_of_def member_of_iff member_key_def)

lemma founder_of_iff:
  "team_inv db \<Longrightarrow> founder_of w db = Some f \<longleftrightarrow>
     (\<exists>r \<in> set (td_workspaces db). ws_id r = w \<and> ws_os_user r = f)"
  by (auto simp: founder_of_def team_inv_def find_key_iff [where k = ws_id])

lemma founder_of_None: "founder_of w db = None \<longleftrightarrow> \<not> workspace_exists w db"
  by (auto simp: founder_of_def find_None_iff workspace_exists_def)

lemma role_needs_workspace: "team_inv db \<Longrightarrow> \<not> workspace_exists w db \<Longrightarrow> role_of w u db = None"
  by (cases "role_of w u db") (auto simp: role_of_iff team_inv_def)

section \<open>Effects on the view\<close>

lemma role_of_members: "td_members db' = td_members db \<Longrightarrow> role_of w u db' = role_of w u db"
  by (simp add: role_of_def member_of_def)

lemma founder_of_workspaces:
  "td_workspaces db' = td_workspaces db \<Longrightarrow> founder_of w db' = founder_of w db"
  by (simp add: founder_of_def)

lemma exists_workspaces:
  "td_workspaces db' = td_workspaces db \<Longrightarrow> workspace_exists w db' = workspace_exists w db"
  by (simp add: workspace_exists_def)

lemma role_of_update:
  assumes "\<And>m. p m \<Longrightarrow> member_key (f m) = member_key m"
  shows "role_of w u (db\<lparr>td_members := update_where p f (td_members db)\<rparr>)
    = map_option (\<lambda>m. tm_role (if p m then f m else m)) (member_of w u db)"
  unfolding role_of_def member_of_def is_member_key
  using find_update_where_key [of p member_key f "(w, u)" "td_members db"] assms
  by (simp add: option.map_comp comp_def)

lemma member_of_key: "member_of w u db = Some m \<Longrightarrow> member_key m = (w, u)"
  by (auto simp: member_of_def is_member_key dest!: find_SomeD)

lemma inv_update_members:
  assumes "team_inv db" "\<And>m. p m \<Longrightarrow> member_key (f m) = member_key m"
  shows "team_inv (db\<lparr>td_members := update_where p f (td_members db)\<rparr>)"
proof -
  have "map member_key (update_where p f (td_members db)) = map member_key (td_members db)"
    using assms(2) by (rule update_where_keys)
  moreover have "tm_workspace (f m) = tm_workspace m" if "p m" for m
    using assms(2) [OF that] by (simp add: member_key_def)
  ultimately show ?thesis
    using assms(1) by (auto simp: team_inv_def workspace_exists_def row_simps)
qed

lemma upsert_member_cases:
  assumes inv: "team_inv db" and up: "upsert_member kept now lower w u role db = (Inr (), db')"
  shows "team_inv db'" and "td_invitations db' = td_invitations db"
    and "td_workspaces db' = td_workspaces db" and "workspace_exists w db"
    and "team_view db' = set_role w (ou_id u)
      (Some (case role_of w (ou_id u) db of None \<Rightarrow> role | Some r \<Rightarrow> kept r)) (team_view db)"
proof -
  from up have ok: "user_shape (ou_id u)" and ws: "workspace_exists w db"
    by (auto simp: upsert_member_def split: if_split_asm)
  show "workspace_exists w db" by fact
  have "team_inv db' \<and> td_invitations db' = td_invitations db \<and> td_workspaces db' = td_workspaces db
    \<and> team_view db' = set_role w (ou_id u)
      (Some (case role_of w (ou_id u) db of None \<Rightarrow> role | Some r \<Rightarrow> kept r)) (team_view db)"
  proof (cases "member_of w (ou_id u) db")
    case None
    define row where "row = \<lparr>tm_workspace = w, tm_user = ou_id u, tm_handle = clean (ou_handle u) 80,
      tm_email = email_of lower u, tm_display_name = clean (display_name_of u) 100, tm_role = role,
      tm_joined_at = now, tm_updated_at = now\<rparr>"
    have db': "db' = db\<lparr>td_members := td_members db @ [row]\<rparr>"
      using up ok ws None by (simp add: upsert_member_def Let_def row_def)
    have key: "member_key row = (w, ou_id u)" by (simp add: row_def member_key_def)
    have new: "(w, ou_id u) \<notin> member_key ` set (td_members db)"
      using None by (auto simp: member_of_def find_None_iff is_member_key)
    have "team_inv db'"
      using inv ws new key by (auto simp: team_inv_def db' workspace_exists_def row_def)
    moreover have "role_of v x db' = (if v = w \<and> x = ou_id u then Some role else role_of v x db)" for v x
      using None key
      by (auto simp: role_of_def member_of_def db' find_append is_member_key row_def split: option.split)
    ultimately show ?thesis
      using None by (auto simp: db' role_of_def intro!: team_view_eqI founder_of_workspaces)
  next
    case (Some m)
    define f where "f = (\<lambda>m :: member_row. m\<lparr>tm_handle := clean (ou_handle u) 80, tm_email := email_of lower u,
      tm_display_name := clean (display_name_of u) 100, tm_role := kept (tm_role m), tm_updated_at := now\<rparr>)"
    have db': "db' = db\<lparr>td_members := update_where (is_member w (ou_id u)) f (td_members db)\<rparr>"
      using up ok ws Some by (simp add: upsert_member_def Let_def f_def)
    have key: "member_key (f m) = member_key m" for m by (simp add: f_def member_key_def)
    have "role_of v x db' = (if v = w \<and> x = ou_id u then Some (kept (tm_role m)) else role_of v x db)"
      for v x
    proof -
      have "role_of v x db' = map_option (\<lambda>m. tm_role (if is_member w (ou_id u) m then f m else m))
          (member_of v x db)"
        unfolding db' by (rule role_of_update) (rule key)
      also have "\<dots> = (if v = w \<and> x = ou_id u then Some (kept (tm_role m)) else role_of v x db)"
        using Some
        by (cases "member_of v x db") (auto simp: role_of_def is_member_key f_def dest: member_of_key)
      finally show ?thesis .
    qed
    moreover have "team_inv db'" unfolding db' by (rule inv_update_members [OF inv]) (rule key)
    ultimately show ?thesis
      using Some by (auto simp: db' role_of_def intro!: team_view_eqI founder_of_workspaces)
  qed
  then show "team_inv db'" "td_invitations db' = td_invitations db"
    "td_workspaces db' = td_workspaces db"
    "team_view db' = set_role w (ou_id u)
      (Some (case role_of w (ou_id u) db of None \<Rightarrow> role | Some r \<Rightarrow> kept r)) (team_view db)"
    by blast+
qed

lemma upsert_member_error: "upsert_member kept now lower w u role db = (Inl e, db') \<Longrightarrow> db' = db"
  by (auto simp: upsert_member_def Let_def split: if_split_asm)

section \<open>Simulation of the operations\<close>

definition simulates ::
  "uuid set \<Rightarrow> (uuid \<times> string) set \<Rightarrow> team_db \<Rightarrow> team_db \<Rightarrow> bool" where
  "simulates auth leavers db db' \<longleftrightarrow>
     team_inv db' \<and> team_moves auth leavers (team_view db) (team_view db')"

lemma sim_refl: "team_inv db \<Longrightarrow> simulates auth leavers db db"
  by (simp add: simulates_def)

lemma sim_same: "team_inv db \<Longrightarrow> db' = db \<Longrightarrow> simulates auth leavers db db'"
  by (simp add: sim_refl)

lemma sim_trans:
  "simulates auth leavers db db' \<Longrightarrow> simulates auth leavers db' db'' \<Longrightarrow> simulates auth leavers db db''"
  by (auto simp: simulates_def)

lemma sim_move:
  "team_inv db' \<Longrightarrow> team_move auth leavers (team_view db) (team_view db') \<Longrightarrow>
   simulates auth leavers db db'"
  by (auto simp: simulates_def)

lemma sim_view: "team_inv db' \<Longrightarrow> team_view db' = team_view db \<Longrightarrow> simulates auth leavers db db'"
  by (simp add: simulates_def)

subsection \<open>Workspaces\<close>

lemma founder_insert:
  assumes "insert_workspace now new_id slug_id lower u db = (Inr w, db')"
  shows "ws_id w = new_id" "ws_os_user w = ou_id u" "user_shape (ou_id u)"
    "\<not> workspace_exists new_id db" "td_workspaces db' = td_workspaces db @ [w]"
    "td_members db' = td_members db" "td_invitations db' = td_invitations db"
  using assms by (auto simp: insert_workspace_def Let_def workspace_exists_def split: if_split_asm)

lemma get_or_create_existing:
  assumes "find (\<lambda>w. ws_os_user w = ou_id u) (td_workspaces db) = Some w"
  shows "get_or_create_workspace now new_id slug_id lower u db =
    (case upsert_workspace_member now lower (ws_id w) u Owner db of
       (Inl e, db') \<Rightarrow> (Inl e, db') | (Inr _, db') \<Rightarrow> (Inr w, db'))"
  using assms by (auto simp: get_or_create_workspace_def andthen_def give_def split: prod.split sum.split)

lemma upsert_existing_founder:
  assumes inv: "team_inv db" and f: "founder_of w db = Some (ou_id u)"
    and up: "upsert_workspace_member now lower w u Owner db = (r, db')"
  shows "simulates auth leavers db db' \<and> founder_of w db' = Some (ou_id u)"
proof (cases r)
  case (Inl e)
  then show ?thesis
    using up inv f upsert_member_error unfolding upsert_workspace_member_def by (metis sim_refl)
next
  case (Inr x)
  then have up': "upsert_member (\<lambda>stored. stored) now lower w u Owner db = (Inr (), db')"
    using up by (simp add: upsert_workspace_member_def)
  note c = upsert_member_cases [OF inv up']
  have "simulates auth leavers db db'"
  proof (cases "role_of w (ou_id u) db")
    case None
    then show ?thesis
      using c(1,5) f by (intro sim_move) (simp_all add: team_move.returns_home)
  next
    case (Some x)
    then have "team_view db' = team_view db"
      using c(5) by (simp add: set_role_same)
    then show ?thesis using c(1) by (intro sim_view)
  qed
  then show ?thesis using f by (simp add: founder_of_workspaces [OF c(3)])
qed

lemma sim_get_or_create:
  assumes inv: "team_inv db" and run: "get_or_create_workspace now new_id slug_id lower u db = (r, db')"
  shows "simulates auth leavers db db'"
proof (cases "find (\<lambda>w. ws_os_user w = ou_id u) (td_workspaces db)")
  case (Some w)
  obtain q where q: "upsert_workspace_member now lower (ws_id w) u Owner db = (q, db')"
    using run get_or_create_existing [OF Some, of now new_id slug_id lower]
    by (auto split: prod.split_asm sum.split_asm)
  from Some have "w \<in> set (td_workspaces db)" "ws_os_user w = ou_id u" by (auto dest!: find_SomeD)
  then have "founder_of (ws_id w) db = Some (ou_id u)" by (auto simp: founder_of_iff [OF inv])
  from upsert_existing_founder [OF inv this q] show ?thesis by blast
next
  case None
  obtain i where i: "insert_workspace now new_id slug_id lower u db = i" by blast
  show ?thesis
  proof (cases "fst i")
    case (Inl e)
    then have "db' = db"
      using run None i
      by (auto simp: get_or_create_workspace_def andthen_def insert_workspace_def Let_def
          split: if_split_asm)
    then show ?thesis by (rule sim_same [OF inv])
  next
    case (Inr w)
    then obtain mid where ins: "insert_workspace now new_id slug_id lower u db = (Inr w, mid)"
      using i by (cases i) auto
    note w = founder_insert [OF ins]
    have new: "ou_id u \<notin> ws_os_user ` set (td_workspaces db)"
      using None by (auto simp: find_None_iff)
    have inv_mid: "team_inv mid"
      using inv w new by (auto simp: team_inv_def workspace_exists_def)
    have fresh: "role_of new_id v db = None" for v
      using role_needs_workspace [OF inv] w(4) by blast
    obtain q where q: "upsert_workspace_member now lower new_id u Owner mid = (q, db')"
      using run None ins w(1)
      by (auto simp: get_or_create_workspace_def andthen_def give_def split: prod.split_asm sum.split_asm)
    have "workspace_exists new_id mid" using w(1,5) by (simp add: workspace_exists_def)
    then have "q = Inr ()"
      using q w(3) by (auto simp: upsert_workspace_member_def upsert_member_def Let_def split: if_split_asm)
    with q have up: "upsert_member (\<lambda>stored. stored) now lower new_id u Owner mid = (Inr (), db')"
      by (simp add: upsert_workspace_member_def)
    note c = upsert_member_cases [OF inv_mid up]
    have "founder_of v mid = (if v = new_id then Some (ou_id u) else founder_of v db)" for v
    proof -
      have none: "find (\<lambda>r. ws_id r = new_id) (td_workspaces db) = None"
        using w(4) by (auto simp: find_None_iff workspace_exists_def)
      show ?thesis
        using w(1,2) none by (auto simp: founder_of_def w(5) find_append split: option.split)
    qed
    moreover have "role_of v x mid = role_of v x db" for v x
      using w(6) by (rule role_of_members)
    ultimately have "team_view mid =
        (team_view db)\<lparr>sp_founder := (sp_founder (team_view db))(new_id := Some (ou_id u))\<rparr>"
      using w(7) by (intro team_view_eqI) (auto simp: fun_eq_iff)
    moreover have "role_of new_id (ou_id u) mid = None"
      using fresh by (simp add: role_of_members [OF w(6)])
    ultimately have "team_view db' = set_role new_id (ou_id u) (Some Owner)
        ((team_view db)\<lparr>sp_founder := (sp_founder (team_view db))(new_id := Some (ou_id u))\<rparr>)"
      using c(5) by simp
    then have "team_move auth leavers (team_view db) (team_view db')"
      using w(4) fresh by (simp add: team_move.founds founder_of_None)
    with c(1) show ?thesis by (rule sim_move)
  qed
qed

subsection \<open>Invitations\<close>

definition offer_key :: "invitation_row \<Rightarrow> uuid \<times> uuid \<times> team_role" where
  "offer_key i = (ti_id i, ti_workspace i, ti_role i)"

lemma offer_keyD:
  "offer_key i = offer_key j \<Longrightarrow> ti_id i = ti_id j \<and> ti_workspace i = ti_workspace j \<and> ti_role i = ti_role j"
  by (simp add: offer_key_def)

lemma sim_withdraw:
  assumes inv: "team_inv db" and key: "\<And>i. p i \<Longrightarrow> offer_key (f i) = offer_key i"
    and closes: "\<And>i. p i \<Longrightarrow> is_open (f i) \<Longrightarrow> is_open i"
    and db': "db' = db\<lparr>td_invitations := update_where p f (td_invitations db)\<rparr>"
  shows "simulates auth leavers db db'"
proof (rule sim_move)
  have keys: "map offer_key (td_invitations db') = map offer_key (td_invitations db)"
    unfolding db' using update_where_keys [of p offer_key f] key by simp
  then have "map (fst o offer_key) (td_invitations db') = map (fst o offer_key) (td_invitations db)"
    by (metis map_map)
  then have "distinct (map ti_id (td_invitations db'))"
    using inv by (simp add: team_inv_def offer_key_def comp_def)
  moreover have "workspace_exists (ti_workspace i) db \<and> ti_role i \<noteq> Owner"
    if "i \<in> set (td_invitations db')" for i
  proof -
    from that keys obtain j where "j \<in> set (td_invitations db)" "offer_key i = offer_key j"
      by (metis image_iff list.set_map)
    with inv show ?thesis by (auto simp: team_inv_def dest!: offer_keyD)
  qed
  ultimately show "team_inv db'"
    using inv by (auto simp: team_inv_def db' workspace_exists_def)
  have "open_offers (td_invitations db') \<subseteq> open_offers (td_invitations db)"
  proof
    fix x assume "x \<in> open_offers (td_invitations db')"
    then obtain i where i: "i \<in> set (td_invitations db)"
      "x = (ti_workspace (if p i then f i else i), ti_role (if p i then f i else i))"
      "is_open (if p i then f i else i)"
      by (auto simp: open_offers_def db' update_where_def)
    have "is_open i" "x = (ti_workspace i, ti_role i)"
      using i(2,3) offer_keyD [OF key [of i]] closes [of i] by (auto split: if_split_asm)
    with i(1) show "x \<in> open_offers (td_invitations db)" by (auto simp: open_offers_def)
  qed
  moreover have "team_view db' = (team_view db)\<lparr>sp_offers := open_offers (td_invitations db')\<rparr>"
    by (rule team_view_eqI) (auto simp: db' role_of_def member_of_def founder_of_def)
  ultimately show "team_move auth leavers (team_view db) (team_view db')"
    by (simp add: team_move.withdraws)
qed

lemma mark_accepted_key: "offer_key (mark_accepted now u i) = offer_key i"
  by (simp add: mark_accepted_def offer_key_def)

lemma accept_invitation_cases:
  assumes "accept_invitation now lower u i db = (Inr w, db')"
  obtains mid where "upsert_member (role_after_invitation (ti_role i)) now lower (ti_workspace i) u
      (ti_role i) db = (Inr (), mid)"
    "rows_affected (\<lambda>r. ti_id r = ti_id i \<and> available now r) (td_invitations mid) = 1"
    "db' = mid\<lparr>td_invitations := update_where (\<lambda>r. ti_id r = ti_id i \<and> available now r)
       (mark_accepted now (ou_id u)) (td_invitations mid)\<rparr>"
    "invitation_matches i u" "w = ti_workspace i"
  using assms
  by (auto simp: accept_invitation_def Let_def split: if_split_asm prod.split_asm sum.split_asm)

lemma accept_invitation_error: "accept_invitation now lower u i db = (Inl e, db') \<Longrightarrow> db' = db"
  by (auto simp: accept_invitation_def Let_def split: if_split_asm prod.split_asm sum.split_asm)

definition offered :: "invitation_row \<Rightarrow> team_db \<Rightarrow> bool" where
  "offered i db \<longleftrightarrow> (\<forall>r \<in> set (td_invitations db). ti_id r = ti_id i \<longrightarrow> offer_key r = offer_key i)"

lemma sim_accept_invitation:
  assumes inv: "team_inv db" and off: "offered i db"
    and run: "accept_invitation now lower u i db = (r, db')"
  shows "simulates auth leavers db db'"
    and "offer_key ` set (td_invitations db') = offer_key ` set (td_invitations db)"
proof -
  have "simulates auth leavers db db'
    \<and> offer_key ` set (td_invitations db') = offer_key ` set (td_invitations db)"
  proof (cases r)
    case (Inl e)
    then have "db' = db" using run accept_invitation_error by simp
    then show ?thesis using inv by (simp add: sim_refl)
  next
    case (Inr w)
    with run have run': "accept_invitation now lower u i db = (Inr w, db')" by simp
    obtain mid where mid: "upsert_member (role_after_invitation (ti_role i)) now lower (ti_workspace i) u
        (ti_role i) db = (Inr (), mid)"
      "rows_affected (\<lambda>r. ti_id r = ti_id i \<and> available now r) (td_invitations mid) = 1"
      "db' = mid\<lparr>td_invitations := update_where (\<lambda>r. ti_id r = ti_id i \<and> available now r)
         (mark_accepted now (ou_id u)) (td_invitations mid)\<rparr>"
      by (rule accept_invitation_cases [OF run'])
    note c = upsert_member_cases [OF inv mid(1)]
    have "\<not> (\<forall>j \<in> set (td_invitations db). \<not> (ti_id j = ti_id i \<and> available now j))"
      using mid(2) rows_affected_0 [of "\<lambda>r. ti_id r = ti_id i \<and> available now r" "td_invitations mid"]
      by (simp add: c(2))
    then obtain j where j: "j \<in> set (td_invitations db)" "ti_id j = ti_id i" "is_open j"
      by (auto simp: available_def)
    have "offer_key j = offer_key i" using off j unfolding offered_def by blast
    from offer_keyD [OF this] j
    have offer: "(ti_workspace i, ti_role i) \<in> open_offers (td_invitations db)"
      unfolding open_offers_def by (intro image_eqI [of _ _ j]) auto
    have "simulates auth leavers db mid"
    proof (cases "role_of (ti_workspace i) (ou_id u) db = None
        \<or> role_of (ti_workspace i) (ou_id u) db = Some Plain_Member")
      case True
      have "team_move auth leavers (team_view db)
          (set_role (ti_workspace i) (ou_id u) (Some (ti_role i)) (team_view db))"
        using True offer c(4) by (intro team_move.joins) (auto simp: founder_of_None)
      moreover have "team_view mid = set_role (ti_workspace i) (ou_id u) (Some (ti_role i)) (team_view db)"
        using True c(5) by auto
      ultimately show ?thesis using c(1) by (simp add: sim_move)
    next
      case False
      then obtain x where x: "role_of (ti_workspace i) (ou_id u) db = Some x" by auto
      with False have "role_after_invitation (ti_role i) x = x" by (cases x) auto
      with x have "team_view mid = team_view db" using c(5) by (simp add: set_role_same)
      with c(1) show ?thesis by (rule sim_view)
    qed
    moreover have "simulates auth leavers mid db'"
      by (rule sim_withdraw [OF c(1) _ _ mid(3)]) (auto simp: mark_accepted_key available_def)
    moreover have "offer_key ` set (td_invitations db') = offer_key ` set (td_invitations mid)"
      using update_where_keys [of "\<lambda>r. ti_id r = ti_id i \<and> available now r" offer_key
          "mark_accepted now (ou_id u)" "td_invitations mid"]
      unfolding list.set_map [symmetric] mid(3) by (simp add: mark_accepted_key)
    ultimately show ?thesis
      unfolding c(2) [symmetric] by (blast intro: sim_trans)
  qed
  then show "simulates auth leavers db db'"
    "offer_key ` set (td_invitations db') = offer_key ` set (td_invitations db)" by blast+
qed

lemma offered_cong:
  "offer_key ` set (td_invitations db') = offer_key ` set (td_invitations db) \<Longrightarrow>
   offered i db \<Longrightarrow> offered i db'"
proof -
  assume keys: "offer_key ` set (td_invitations db') = offer_key ` set (td_invitations db)"
    and off: "offered i db"
  show "offered i db'"
    unfolding offered_def
  proof (intro ballI impI)
    fix r assume r: "r \<in> set (td_invitations db')" "ti_id r = ti_id i"
    from r(1) keys obtain s where s: "s \<in> set (td_invitations db)" "offer_key s = offer_key r"
      by (metis image_iff)
    then have "ti_id s = ti_id i" using r(2) by (simp add: offer_key_def)
    with s off show "offer_key r = offer_key i" by (auto simp: offered_def)
  qed
qed

lemma offered_member: "team_inv db \<Longrightarrow> i \<in> set (td_invitations db) \<Longrightarrow> offered i db"
  by (auto simp: offered_def team_inv_def dest: distinct_map_eq)

lemma sim_accept_each:
  "team_inv db \<Longrightarrow> \<forall>i \<in> set is. offered i db \<Longrightarrow> accept_each now lower u is db = (r, db') \<Longrightarrow>
   simulates auth leavers db db'"
proof (induction "is" arbitrary: db)
  case Nil
  then show ?case by (simp add: give_def sim_refl)
next
  case (Cons i "is")
  obtain q mid where q: "accept_invitation now lower u i db = (q, mid)" by fastforce
  have off: "offered i db" using Cons.prems(2) by simp
  note s = sim_accept_invitation [OF Cons.prems(1) off q]
  show ?case
  proof (cases q)
    case (Inl e)
    then have "db' = mid" using Cons.prems(3) q by (simp add: andthen_def)
    with s(1) show ?thesis by simp
  next
    case (Inr w)
    then have rest: "accept_each now lower u is mid = (r, db')"
      using Cons.prems(3) q by (simp add: andthen_def)
    have "\<forall>i \<in> set is. offered i mid"
      using Cons.prems(2) offered_cong [OF s(2)] by simp
    moreover have "team_inv mid" using s(1) [where auth = auth and leavers = leavers] by (simp add: simulates_def)
    ultimately have "simulates auth leavers mid db'" using Cons.IH rest by blast
    with s(1) show ?thesis by (rule sim_trans)
  qed
qed

lemma sim_offer:
  assumes inv: "team_inv db" and ws: "workspace_exists (ti_workspace i) db" and "is_open i"
    and new: "\<not> list_ex (taken_target i) (td_invitations db)"
    and r: "ti_role i = Plain_Member \<or> (ti_role i = Admin \<and> ti_workspace i \<in> auth)"
  shows "simulates auth leavers db (db\<lparr>td_invitations := td_invitations db @ [i]\<rparr>)" (is "simulates _ _ _ ?db'")
proof (rule sim_move)
  have "ti_id i \<notin> ti_id ` set (td_invitations db)"
    using new by (auto simp: list_ex_iff taken_target_def)
  then show "team_inv ?db'"
    using inv ws r by (auto simp: team_inv_def workspace_exists_def)
  have view: "team_view ?db' = (team_view db)\<lparr>sp_offers :=
      insert (ti_workspace i, ti_role i) (sp_offers (team_view db))\<rparr>"
    using \<open>is_open i\<close>
    by (intro team_view_eqI) (auto simp: role_of_def member_of_def founder_of_def open_offers_def)
  show "team_move auth leavers (team_view db) (team_view ?db')"
    unfolding view by (rule team_move.offers) (use r in blast)
qed

lemma sim_revoke_expired:
  "team_inv db \<Longrightarrow> simulates auth leavers db (revoke_expired now w target db)"
  by (rule sim_withdraw [where db' = "revoke_expired now w target db"])
    (auto simp: revoke_expired_def offer_key_def)

lemma new_invitation_simps [simp]:
  "ti_workspace (new_invitation now new_id ctx kind v role exp) = dc_workspace ctx"
  "ti_role (new_invitation now new_id ctx kind v role exp) = role"
  "ti_kind (new_invitation now new_id ctx kind v role exp) = kind"
  "ti_value (new_invitation now new_id ctx kind v role exp) = v"
  "ti_id (new_invitation now new_id ctx kind v role exp) = new_id"
  "is_open (new_invitation now new_id ctx kind v role exp)"
  by (simp_all add: new_invitation_def is_open_def)

definition authority :: "dashboard_context \<Rightarrow> uuid set" where
  "authority ctx = (if dc_role ctx = Owner then {dc_workspace ctx} else {})"

lemma sim_invite_after_revoking:
  assumes inv: "team_inv db" and mid: "mid = revoke_expired now w target db"
    and cases: "db' = mid \<or> (db' = mid\<lparr>td_invitations := td_invitations mid @ [i]\<rparr>
      \<and> workspace_exists (ti_workspace i) mid \<and> is_open i \<and> \<not> list_ex (taken_target i) (td_invitations mid)
      \<and> (ti_role i = Plain_Member \<or> (ti_role i = Admin \<and> ti_workspace i \<in> auth)))"
  shows "simulates auth leavers db db'"
proof -
  have s: "simulates auth leavers db mid" unfolding mid using inv by (rule sim_revoke_expired)
  then have inv_mid: "team_inv mid" by (simp add: simulates_def)
  from cases show ?thesis
  proof
    assume "db' = mid" with s show ?thesis by simp
  next
    assume c: "db' = mid\<lparr>td_invitations := td_invitations mid @ [i]\<rparr>
      \<and> workspace_exists (ti_workspace i) mid \<and> is_open i \<and> \<not> list_ex (taken_target i) (td_invitations mid)
      \<and> (ti_role i = Plain_Member \<or> (ti_role i = Admin \<and> ti_workspace i \<in> auth))"
    then have "simulates auth leavers mid db'"
      using sim_offer [OF inv_mid] by blast
    with s show ?thesis by (rule sim_trans)
  qed
qed

lemma sim_create_link:
  assumes "team_inv db" "create_invite_link now new_id ctx db = (r, db')"
  shows "simulates auth leavers db db'"
  using assms(2)
  by (intro sim_invite_after_revoking [OF assms(1) refl, where
        i = "new_invitation now new_id ctx By_Link (uuid_text new_id) Plain_Member (now + hours 24)"])
    (auto simp: create_invite_link_def Let_def split: if_split_asm option.split_asm)

lemma sim_create_email:
  assumes "team_inv db" "create_email_invitation now new_id lower sql_lower ctx invitee role db = (r, db')"
    and "role = Plain_Member \<or> (role = Admin \<and> dc_workspace ctx \<in> auth)"
  shows "simulates auth leavers db db'"
proof (cases "normalize_invitee_email lower invitee")
  case (Inl e)
  then show ?thesis using assms by (simp add: create_email_invitation_def sim_refl)
next
  case (Inr email)
  show ?thesis
  proof (cases "list_ex (\<lambda>m. tm_workspace m = dc_workspace ctx
      \<and> map_option sql_lower (tm_email m) = Some email) (td_members db)")
    case True
    then show ?thesis using assms Inr by (simp add: create_email_invitation_def sim_refl)
  next
    case False
    then show ?thesis
      using assms(2,3) Inr
      by (intro sim_invite_after_revoking [OF assms(1) refl, where
            i = "new_invitation now new_id ctx By_Email email role (now + days 7)"])
        (auto simp: create_email_invitation_def Let_def split: if_split_asm)
  qed
qed

lemma validate_team_role_Inr: "validate_team_role t = Inr r \<Longrightarrow> r = Admin \<or> r = Plain_Member"
  by (auto simp: validate_team_role_def split: if_split_asm)

lemma sim_create_invitation:
  assumes inv: "team_inv db"
    and run: "create_team_invitation now new_id lower sql_lower ctx invitee role_text db = (r, db')"
  shows "simulates (authority ctx) leavers db db'"
proof (cases "validate_team_role (trim role_text)")
  case (Inl e)
  then have "db' = db" using run by (auto simp: create_team_invitation_def refuse_def split: if_split_asm)
  then show ?thesis by (rule sim_same [OF inv])
next
  case (Inr role)
  have role: "role = Plain_Member \<or> (role = Admin \<and> dc_workspace ctx \<in> authority ctx)"
    if "\<not> (dc_role ctx \<noteq> Owner \<and> dc_role ctx \<noteq> Admin)" "\<not> (dc_role ctx = Admin \<and> role \<noteq> Plain_Member)"
    using validate_team_role_Inr [OF Inr] that by (auto simp: authority_def)
  consider "db' = db" | "create_invite_link now new_id ctx db = (r, db')"
    | v where "create_email_invitation now new_id lower sql_lower ctx v role db = (r, db')"
      "role = Plain_Member \<or> (role = Admin \<and> dc_workspace ctx \<in> authority ctx)"
    using run Inr role
    by (auto simp: create_team_invitation_def refuse_def split: if_split_asm option.split_asm)
  then show ?thesis
  proof cases
    case 1
    then show ?thesis by (rule sim_same [OF inv])
  next
    case 2
    then show ?thesis by (rule sim_create_link [OF inv])
  next
    case 3
    then show ?thesis by (rule sim_create_email [OF inv])
  qed
qed

lemma sim_revoke_invitation:
  assumes inv: "team_inv db" and run: "revoke_team_invitation now ctx invitation_id db = (r, db')"
  shows "simulates auth leavers db db'"
proof -
  consider "db' = db" | "db' = db\<lparr>td_invitations := update_where (\<lambda>r. ti_id r = invitation_id)
      (\<lambda>r. r\<lparr>ti_revoked_at := Some now\<rparr>) (td_invitations db)\<rparr>"
    using run by (auto simp: revoke_team_invitation_def refuse_def split: if_split_asm option.split_asm)
  then show ?thesis
  proof cases
    case 1
    then show ?thesis by (rule sim_same [OF inv])
  next
    case 2
    show ?thesis
      by (rule sim_withdraw [OF inv _ _ 2]) (auto simp: offer_key_def is_open_def)
  qed
qed

end
