(* ===== verification/TeamGuarantees.thy ===== *)
theory TeamGuarantees
  imports TeamRequests
begin

text \<open>
  Managing members as protocol moves, the requests a client can send, and what holds after any
  sequence of them: every team keeps an owner, and only an owner's requests promote anybody.
\<close>

section \<open>Managing members\<close>

lemma member_role: "member_of w u db = Some m \<Longrightarrow> role_of w u db = Some (tm_role m)"
  by (simp add: role_of_def)

lemma write_role_view:
  assumes inv: "team_inv db" and m: "member_of w u db = Some m"
    and run: "write_member_role now w u r db = (q, db')"
  shows "team_inv db'" "team_view db' = set_role w u (Some r) (team_view db)" "is_ok q"
proof -
  define f where "f = (\<lambda>m :: member_row. m\<lparr>tm_role := r, tm_updated_at := now\<rparr>)"
  have db': "db' = db\<lparr>td_members := update_where (is_member w u) f (td_members db)\<rparr>"
    using run m by (simp add: write_member_role_def Let_def f_def)
  have key: "member_key (f m) = member_key m" for m by (simp add: f_def member_key_def)
  have "role_of v x db' = (if v = w \<and> x = u then Some r else role_of v x db)" for v x
    using m unfolding db' role_of_update [of "is_member w u", OF key]
    by (cases "member_of v x db") (auto simp: role_of_def is_member_key f_def dest: member_of_key)
  then show "team_view db' = set_role w u (Some r) (team_view db)"
    by (intro team_view_eqI) (auto simp: db' founder_of_def)
  show "team_inv db'" unfolding db' by (rule inv_update_members [OF inv]) (rule key)
  show "is_ok q" using run m by (auto simp: write_member_role_def Let_def)
qed

lemma sim_role_update:
  assumes inv: "team_inv db" and "w \<in> auth" and m: "member_of w u db = Some m" "tm_role m \<noteq> Owner"
    and r: "r \<noteq> Owner" and run: "write_member_role now w u r db = (q, db')"
  shows "simulates auth leavers db db'"
proof (rule sim_move)
  note v = write_role_view [OF inv m(1) run]
  show "team_inv db'" by (rule v)
  show "team_move auth leavers (team_view db) (team_view db')"
    unfolding v(2) using team_move.assigns [of w auth "team_view db" u "tm_role m" r leavers] assms(2) m r
    by (simp add: member_role)
qed

lemma sim_change_role:
  assumes inv: "team_inv db" and run: "update_team_member_role now ctx u role_text db = (q, db')"
  shows "simulates (authority ctx) leavers db db'"
proof (cases "check_member_role_update ctx u role_text db")
  case (Inl e)
  then show ?thesis using run inv by (simp add: update_team_member_role_def sim_refl)
next
  case (Inr r)
  then obtain m where m: "dc_role ctx = Owner" "member_of (dc_workspace ctx) u db = Some m"
      "tm_role m \<noteq> Owner" "validate_team_role (trim role_text) = Inr r"
    by (auto simp: check_member_role_update_def result_bind_Inr split: if_split_asm option.split_asm)
  moreover have "r \<noteq> Owner" using validate_team_role_Inr [OF m(4)] by auto
  moreover have "dc_workspace ctx \<in> authority ctx" using m(1) by (simp add: authority_def)
  moreover have "write_member_role now (dc_workspace ctx) u r db = (q, db')"
    using run Inr by (simp add: update_team_member_role_def)
  ultimately show ?thesis using sim_role_update [OF inv] by blast
qed

lemma sim_delete:
  assumes inv: "team_inv db" and m: "role_of w u db \<noteq> Some Owner"
  shows "simulates auth {(w, u)} db (delete_member w u db)"
proof -
  let ?db = "delete_member w u db"
  have "find (is_member v x) (delete_where (is_member w u) ms)
      = (if v = w \<and> x = u then None else find (is_member v x) ms)" for v x ms
    by (induction ms) (auto simp: delete_where_def is_member_key)
  then have role: "role_of v x ?db = (if v = w \<and> x = u then None else role_of v x db)" for v x
    by (simp add: delete_member_def role_of_def member_of_def)
  then have view: "team_view ?db = set_role w u None (team_view db)"
    by (intro team_view_eqI) (auto simp: delete_member_def founder_of_def)
  have inv': "team_inv ?db"
    using inv by (auto simp: team_inv_def delete_member_def workspace_exists_def set_delete_where
        intro: delete_where_distinct)
  show ?thesis
  proof (cases "role_of w u db")
    case None
    then have "team_view ?db = team_view db"
      using role by (intro team_view_eqI) (auto simp: delete_member_def founder_of_def)
    with inv' show ?thesis by (rule sim_view)
  next
    case (Some r)
    then have "team_move auth {(w, u)} (team_view db) (team_view ?db)"
      using team_move.leaves [of w u "{(w, u)}" "team_view db" r auth] m view by simp
    with inv' show ?thesis by (rule sim_move)
  qed
qed

lemma sim_remove:
  assumes inv: "team_inv db" and run: "remove_team_member ctx u db = (q, db')"
  shows "simulates auth {(dc_workspace ctx, u)} db db'"
proof (cases "check_member_removal ctx u db")
  case (Inl e)
  then show ?thesis using run inv by (simp add: remove_team_member_def sim_refl)
next
  case (Inr x)
  then have "role_of (dc_workspace ctx) u db \<noteq> Some Owner"
    by (auto simp: check_member_removal_def role_of_def split: if_split_asm option.split_asm)
  moreover have "db' = delete_member (dc_workspace ctx) u db" using run Inr by (simp add: remove_team_member_def)
  ultimately show ?thesis using sim_delete [OF inv] by blast
qed

lemma transfer_view:
  assumes inv: "team_inv db" and run: "transfer_team_ownership now ctx new_owner db = (Inr x, db')"
  shows "dc_role ctx = Owner" "role_of (dc_workspace ctx) (dc_user ctx) db = Some Owner"
    "\<exists>r. role_of (dc_workspace ctx) new_owner db = Some r \<and> r \<noteq> Owner" "new_owner \<noteq> dc_user ctx"
    "team_view db' = set_role (dc_workspace ctx) (dc_user ctx) (Some Admin)
      (set_role (dc_workspace ctx) new_owner (Some Owner) (team_view db))"
    "team_inv db'"
proof -
  let ?w = "dc_workspace ctx" and ?a = "dc_user ctx"
  define f where "f = (\<lambda>m :: member_row.
    m\<lparr>tm_role := swapped_role ?a new_owner m, tm_updated_at := now\<rparr>)"
  let ?p = "\<lambda>m. tm_workspace m = ?w \<and> (tm_user m = ?a \<or> tm_user m = new_owner)"
  obtain t c where *: "dc_role ctx = Owner" "new_owner \<noteq> ?a" "member_of ?w new_owner db = Some t"
      "tm_role t \<noteq> Owner" "find (\<lambda>m. tm_workspace m = ?w \<and> tm_role m = Owner) (td_members db) = Some c"
      "tm_user c = ?a" "db' = db\<lparr>td_members := update_where ?p f (td_members db)\<rparr>"
    using run
    by (auto simp: transfer_team_ownership_def f_def split: if_split_asm option.split_asm)
  have owner: "role_of ?w ?a db = Some Owner"
    using *(5,6) by (auto simp: role_of_iff [OF inv] dest!: find_SomeD)
  have key: "member_key (f m) = member_key m" for m by (simp add: f_def member_key_def)
  have "role_of v x db' = (if v = ?w \<and> x = ?a then Some Admin
      else if v = ?w \<and> x = new_owner then Some Owner else role_of v x db)" for v x
  proof (cases "member_of v x db")
    case None
    then have "\<not> (v = ?w \<and> x = ?a)" "\<not> (v = ?w \<and> x = new_owner)"
      using owner *(3) by (auto simp: role_of_def)
    with None show ?thesis unfolding *(7) role_of_update [of ?p, OF key] by (simp add: role_of_def)
  next
    case (Some m)
    with member_of_key [OF Some] *(2) show ?thesis
      unfolding *(7) role_of_update [of ?p, OF key] by (auto simp: role_of_def member_key_def f_def)
  qed
  then show "team_view db' = set_role ?w ?a (Some Admin) (set_role ?w new_owner (Some Owner) (team_view db))"
    by (intro team_view_eqI) (auto simp: *(7) founder_of_def)
  show "team_inv db'" unfolding *(7) by (rule inv_update_members [OF inv]) (rule key)
  show "dc_role ctx = Owner" "role_of ?w ?a db = Some Owner" "new_owner \<noteq> ?a" by fact+
  show "\<exists>r. role_of ?w new_owner db = Some r \<and> r \<noteq> Owner" using *(3,4) by (auto simp: member_role)
qed

lemma sim_transfer:
  assumes inv: "team_inv db" and run: "transfer_team_ownership now ctx new_owner db = (q, db')"
  shows "simulates (authority ctx) leavers db db'"
proof (cases q)
  case (Inl e)
  then have "db' = db"
    using run by (auto simp: transfer_team_ownership_def split: if_split_asm option.split_asm)
  then show ?thesis by (rule sim_same [OF inv])
next
  case (Inr x)
  note v = transfer_view [OF inv run [unfolded Inr]]
  obtain r where r: "role_of (dc_workspace ctx) new_owner db = Some r" "r \<noteq> Owner" using v(3) by blast
  have "team_move (authority ctx) leavers (team_view db) (team_view db')"
    unfolding v(5) using team_move.hands_over [of "dc_workspace ctx" "authority ctx" "team_view db" "dc_user ctx"
        new_owner r leavers] v(1,2) r by (simp add: authority_def)
  with v(6) show ?thesis by (rule sim_move)
qed

lemma sim_refresh:
  assumes inv: "team_inv db" shows "simulates auth leavers db (refresh_names now lower u db)"
proof -
  define f where "f = (\<lambda>m :: member_row. m\<lparr>tm_handle := clean (ou_handle u) 80, tm_email := email_of lower u,
    tm_display_name := clean (display_name_of u) 100, tm_updated_at := now\<rparr>)"
  let ?p = "\<lambda>m. tm_user m = ou_id u"
  have key: "member_key (f m) = member_key m" for m by (simp add: f_def member_key_def)
  have db': "refresh_names now lower u db = db\<lparr>td_members := update_where ?p f (td_members db)\<rparr>"
    by (simp add: refresh_names_def f_def)
  have "role_of v x (refresh_names now lower u db) = role_of v x db" for v x
    unfolding db' role_of_update [of ?p, OF key] by (cases "member_of v x db") (auto simp: role_of_def f_def)
  then have "team_view (refresh_names now lower u db) = team_view db"
    by (intro team_view_eqI) (auto simp: refresh_names_def founder_of_def)
  moreover have "team_inv (refresh_names now lower u db)"
    unfolding db' by (rule inv_update_members [OF inv]) (rule key)
  ultimately show ?thesis by (intro sim_view)
qed

lemma sim_rename:
  assumes inv: "team_inv db" and run: "rename_workspace now slug_id lower w name db = (q, db')"
  shows "simulates auth leavers db db'"
proof -
  obtain f where f: "db' = db \<or> db' = db\<lparr>td_workspaces :=
        update_where (\<lambda>r. ws_id r = w) f (td_workspaces db)\<rparr>"
      "\<And>r. ws_id (f r) = ws_id r \<and> ws_os_user (f r) = ws_os_user r"
  proof -
    define g where "g = (\<lambda>n r :: workspace_row. r\<lparr>ws_name := n, ws_slug := slug lower slug_id n,
      ws_updated_at := now\<rparr>)"
    have "ws_id (g n r) = ws_id r \<and> ws_os_user (g n r) = ws_os_user r" for n r by (simp add: g_def)
    moreover have "\<exists>n. db' = db \<or> db' = db\<lparr>td_workspaces :=
        update_where (\<lambda>r. ws_id r = w) (g n) (td_workspaces db)\<rparr>"
      using run
      by (auto simp: rename_workspace_def Let_def g_def split: sum.split_asm option.split_asm if_split_asm)
    ultimately show ?thesis using that by blast
  qed
  show ?thesis
  proof (cases "db' = db")
    case False
    with f have db': "db' = db\<lparr>td_workspaces := update_where (\<lambda>r. ws_id r = w) f (td_workspaces db)\<rparr>"
      by blast
    have "map ws_id (td_workspaces db') = map ws_id (td_workspaces db)"
      "map ws_os_user (td_workspaces db') = map ws_os_user (td_workspaces db)"
      using f(2) by (simp_all add: db' update_where_def)
    moreover from this(1) have "workspace_exists v db' = workspace_exists v db" for v
      by (metis (no_types) image_iff list.set_map workspace_exists_def)
    ultimately have "team_inv db'" using inv by (auto simp: team_inv_def db')
    moreover have "founder_of v db' = founder_of v db" for v
      using find_update_where_key [of "\<lambda>r. ws_id r = w" ws_id f v "td_workspaces db"] f(2)
      by (cases "find (\<lambda>r. ws_id r = v) (td_workspaces db)") (auto simp: founder_of_def db')
    then have "team_view db' = team_view db"
      by (intro team_view_eqI) (auto simp: db' role_of_def member_of_def)
    ultimately show ?thesis by (intro sim_view)
  qed (rule sim_same [OF inv])
qed

section \<open>Requests\<close>

record team_env =
  te_lower :: "string \<Rightarrow> string"
  te_sql_lower :: "string \<Rightarrow> string"
  te_collate :: "string \<Rightarrow> nat"

text \<open>
  The requests of the handlers, with the clock and the random UUIDs they draw.  A request on a team
  carries the context its authentication resolved, which other requests may have outdated since.
\<close>

datatype team_request =
  Sign_In time uuid uuid os_user
| Access time uuid uuid os_user "uuid option"
| Accept_Invitation time os_user uuid
| Invite time uuid dashboard_context "string option" string
| Revoke_Invitation time dashboard_context uuid
| Change_Role time dashboard_context string string
| Remove_Member dashboard_context string
| Transfer_Ownership time dashboard_context string
| Rename_Team time uuid uuid string

fun serve :: "team_env \<Rightarrow> team_request \<Rightarrow> team_db \<Rightarrow> team_db" where
  "serve env (Sign_In now new_id slug_id u) db =
     snd (get_or_create_workspace now new_id slug_id (te_lower env) u db)"
| "serve env (Access now new_id slug_id u requested) db =
     snd (resolve_workspace_access now new_id slug_id (te_lower env) (te_collate env) u requested db)"
| "serve env (Accept_Invitation now u invitation_id) db =
     snd (accept_team_invitation now (te_lower env) u invitation_id db)"
| "serve env (Invite now new_id ctx invitee role_text) db =
     snd (create_team_invitation now new_id (te_lower env) (te_sql_lower env) ctx invitee role_text db)"
| "serve env (Revoke_Invitation now ctx invitation_id) db =
     snd (revoke_team_invitation now ctx invitation_id db)"
| "serve env (Change_Role now ctx u role_text) db = snd (update_team_member_role now ctx u role_text db)"
| "serve env (Remove_Member ctx u) db = snd (remove_team_member ctx u db)"
| "serve env (Transfer_Ownership now ctx u) db = snd (transfer_team_ownership now ctx u db)"
| "serve env (Rename_Team now slug_id w name) db = snd (rename_workspace now slug_id (te_lower env) w name db)"

definition serve_all :: "team_env \<Rightarrow> team_request list \<Rightarrow> team_db \<Rightarrow> team_db" where
  "serve_all env reqs db = fold (serve env) reqs db"

fun request_authority :: "team_request \<Rightarrow> uuid set" where
  "request_authority (Invite now new_id ctx invitee role_text) = authority ctx"
| "request_authority (Change_Role now ctx u role_text) = authority ctx"
| "request_authority (Transfer_Ownership now ctx u) = authority ctx"
| "request_authority _ = {}"

fun removed_members :: "team_request \<Rightarrow> (uuid \<times> string) set" where
  "removed_members (Remove_Member ctx u) = {(dc_workspace ctx, u)}"
| "removed_members _ = {}"

lemma sim_accept_team:
  assumes inv: "team_inv db" and run: "accept_team_invitation now lower u i db = (r, db')"
  shows "simulates auth leavers db db'"
proof (cases "find (\<lambda>j. ti_id j = i \<and> available now j) (td_invitations db)")
  case None
  then show ?thesis using run inv by (simp add: accept_team_invitation_def sim_refl)
next
  case (Some j)
  then have "j \<in> set (td_invitations db)" by (auto dest!: find_SomeD)
  then have "offered j db" by (rule offered_member [OF inv])
  then show ?thesis
    using sim_accept_invitation(1) [OF inv] run Some by (simp add: accept_team_invitation_def)
qed

lemma sim_accept_matching:
  assumes inv: "team_inv db" and run: "accept_matching_invitations now lower u db = (r, db')"
  shows "simulates auth leavers db db'"
  using inv offered_member [OF inv] run unfolding accept_matching_invitations_def
  by (intro sim_accept_each [OF inv]) auto

lemma sim_access:
  assumes inv: "team_inv db"
    and run: "resolve_workspace_access now new_id slug_id lower collate u requested db = (r, db')"
  shows "simulates auth leavers db db'"
proof -
  obtain q1 db1 where g: "get_or_create_workspace now new_id slug_id lower u db = (q1, db1)" by fastforce
  have s1: "simulates auth leavers db db1" by (rule sim_get_or_create [OF inv g])
  then have inv1: "team_inv db1" by (simp add: simulates_def)
  obtain q2 db2 where a: "accept_matching_invitations now lower u db1 = (q2, db2)" by fastforce
  have s2: "simulates auth leavers db1 db2" by (rule sim_accept_matching [OF inv1 a])
  then have "team_inv db2" by (simp add: simulates_def)
  then have s3: "simulates auth leavers db2 (refresh_names now lower u db2)" by (rule sim_refresh)
  have "db' = db1 \<or> db' = db2 \<or> db' = refresh_names now lower u db2"
    using run g a
    by (auto simp: resolve_workspace_access_def andthen_def Let_def split: sum.split_asm prod.split_asm)
  then show ?thesis using s1 s2 s3 by (blast intro: sim_trans)
qed

lemma serve_simulates:
  assumes inv: "team_inv db"
  shows "simulates (request_authority req) (removed_members req) db (serve env req db)"
proof (cases req)
  case (Sign_In now new_id slug_id u)
  then show ?thesis by (auto intro: sim_get_or_create [OF inv] simp: prod_eq_iff)
next
  case (Access now new_id slug_id u requested)
  then show ?thesis by (auto intro: sim_access [OF inv] simp: prod_eq_iff)
next
  case (Accept_Invitation now u invitation_id)
  then show ?thesis by (auto intro: sim_accept_team [OF inv] simp: prod_eq_iff)
next
  case (Invite now new_id ctx invitee role_text)
  then show ?thesis by (auto intro: sim_create_invitation [OF inv] simp: prod_eq_iff)
next
  case (Revoke_Invitation now ctx invitation_id)
  then show ?thesis by (auto intro: sim_revoke_invitation [OF inv] simp: prod_eq_iff)
next
  case (Change_Role now ctx u role_text)
  then show ?thesis by (auto intro: sim_change_role [OF inv] simp: prod_eq_iff)
next
  case (Remove_Member ctx u)
  then show ?thesis by (auto intro: sim_remove [OF inv] simp: prod_eq_iff)
next
  case (Transfer_Ownership now ctx u)
  then show ?thesis by (auto intro: sim_transfer [OF inv] simp: prod_eq_iff)
next
  case (Rename_Team now slug_id w name)
  then show ?thesis by (auto intro: sim_rename [OF inv] simp: prod_eq_iff)
qed

section \<open>Guarantees\<close>

definition empty_teams :: team_db where
  "empty_teams = \<lparr>td_workspaces = [], td_members = [], td_invitations = []\<rparr>"

text \<open>C26. Every request on teams is, seen through founders, roles and open offers, a sequence of moves of the team protocol, made with no more authority than the request carries and removing nobody but the member it names; and the table constraints hold again afterwards.\<close>
theorem requests_follow_the_team_protocol:
  assumes "team_inv db"
  shows "team_inv (serve env req db)
    \<and> team_moves (request_authority req) (removed_members req) (team_view db) (team_view (serve env req db))"
  using serve_simulates [OF assms] by (simp add: simulates_def)

lemma moves_keep:
  assumes "team_moves auth leavers s s'"
  shows "owned_spec s \<Longrightarrow> owned_spec s'"
    and "sp_founder s w = Some f \<Longrightarrow> sp_founder s' w = Some f"
    and "owned_spec s \<Longrightarrow> one_owner w s \<Longrightarrow> (\<And>f. sp_founder s' w = Some f \<Longrightarrow> (w, f) \<notin> leavers) \<Longrightarrow> one_owner w s'"
    and "owned_spec s \<Longrightarrow> w \<notin> auth \<Longrightarrow> unpromoted w ranked s \<Longrightarrow> unpromoted w ranked s'"
proof -
  show owned: "owned_spec s \<Longrightarrow> owned_spec s'"
    using assms by (induction rule: rtranclp_induct) (blast intro: owned_move)+
  show "sp_founder s w = Some f \<Longrightarrow> sp_founder s' w = Some f"
    using assms by (induction rule: rtranclp_induct) (blast intro: founder_stays)+
  show "one_owner w s'"
    if "owned_spec s" "one_owner w s" "\<And>f. sp_founder s' w = Some f \<Longrightarrow> (w, f) \<notin> leavers"
  proof -
    from assms that have "owned_spec s' \<and> one_owner w s'"
    proof (induction rule: rtranclp_induct)
      case (step y z)
      have stay: "(w, f) \<notin> leavers" if "sp_founder y w = Some f" for f
        using founder_stays [OF step.hyps(2) that] step.prems(3) by blast
      have y: "owned_spec y \<and> one_owner w y"
      proof (rule step.IH)
        show "owned_spec s" "one_owner w s" by fact+
      qed (rule stay)
      then show ?case using owned_move [OF step.hyps(2)] one_owner_move [OF step.hyps(2)] stay by blast
    qed blast
    then show ?thesis by blast
  qed
  show "unpromoted w ranked s'" if "owned_spec s" "w \<notin> auth" "unpromoted w ranked s"
  proof -
    from assms that have "owned_spec s' \<and> unpromoted w ranked s'"
      by (induction rule: rtranclp_induct) (blast intro: owned_move unpromoted_move)+
    then show ?thesis by blast
  qed
qed

lemma serve_all_simps [simp]:
  "serve_all env [] db = db"
  "serve_all env (r # rs) db = serve_all env rs (serve env r db)"
  by (simp_all add: serve_all_def)

lemma served_keeps:
  assumes "team_inv db" "owned_spec (team_view db)"
  shows "team_inv (serve_all env reqs db) \<and> owned_spec (team_view (serve_all env reqs db))"
  using assms
proof (induction reqs arbitrary: db)
  case (Cons r reqs)
  have "team_inv (serve env r db)" "owned_spec (team_view (serve env r db))"
    using serve_simulates [OF Cons.prems(1), of r env]
      moves_keep(1) [of "request_authority r" "removed_members r" "team_view db"] Cons.prems(2)
    by (auto simp: simulates_def)
  with Cons.IH show ?case by simp
qed simp

lemma served_founder:
  "team_inv db \<Longrightarrow> founder_of w db = Some f \<Longrightarrow> founder_of w (serve_all env reqs db) = Some f"
proof (induction reqs arbitrary: db)
  case (Cons r reqs)
  have "team_inv (serve env r db)" "founder_of w (serve env r db) = Some f"
    using serve_simulates [OF Cons.prems(1), of r env]
      moves_keep(2) [of _ _ "team_view db" "team_view (serve env r db)" w f] Cons.prems(2)
    by (auto simp: simulates_def)
  with Cons.IH show ?case by simp
qed simp

lemma served_one_owner:
  assumes "team_inv db" "owned_spec (team_view db)" "one_owner w (team_view db)"
    and "\<And>req f. req \<in> set reqs \<Longrightarrow> founder_of w (serve_all env reqs db) = Some f \<Longrightarrow>
      (w, f) \<notin> removed_members req"
  shows "one_owner w (team_view (serve_all env reqs db))"
  using assms
proof (induction reqs arbitrary: db)
  case (Cons r reqs)
  let ?db = "serve env r db"
  have sim: "team_inv ?db" "team_moves (request_authority r) (removed_members r) (team_view db) (team_view ?db)"
    using serve_simulates [OF Cons.prems(1)] by (auto simp: simulates_def)
  have "one_owner w (team_view ?db)"
  proof (rule moves_keep(3) [OF sim(2) Cons.prems(2,3)])
    fix f assume "sp_founder (team_view ?db) w = Some f"
    then have "founder_of w (serve_all env (r # reqs) db) = Some f"
      using served_founder [OF sim(1)] by simp
    then show "(w, f) \<notin> removed_members r" by (intro Cons.prems(4)) simp
  qed
  moreover have "owned_spec (team_view ?db)" using moves_keep(1) [OF sim(2) Cons.prems(2)] .
  ultimately show ?case using Cons.IH [OF sim(1)] Cons.prems(4) by simp
qed simp

lemma empty_teams_ok:
  "team_inv empty_teams" "owned_spec (team_view empty_teams)" "one_owner w (team_view empty_teams)"
  by (simp_all add: team_inv_def empty_teams_def owned_spec_def one_owner_def open_offers_def
      founder_of_def role_of_def member_of_def)

text \<open>
  Changing a role and removing a member check the member in one statement and write in another one,
  outside of any transaction; other requests may be served in between.
\<close>

datatype member_write = Role_Write uuid string team_role | Removal_Write uuid string

fun write_target :: "member_write \<Rightarrow> uuid \<times> string" where
  "write_target (Role_Write w u r) = (w, u)"
| "write_target (Removal_Write w u) = (w, u)"

fun perform :: "time \<Rightarrow> member_write \<Rightarrow> team_db \<Rightarrow> team_db" where
  "perform now (Role_Write w u r) db = snd (write_member_role now w u r db)"
| "perform now (Removal_Write w u) db = delete_member w u db"

record team_world =
  tw_db :: team_db
  tw_pending :: "member_write list"

datatype team_event =
  Served team_request
| Role_Checked dashboard_context string string
| Removal_Checked dashboard_context string
| Written time nat

fun happen :: "team_env \<Rightarrow> team_event \<Rightarrow> team_world \<Rightarrow> team_world" where
  "happen env (Served req) x = x\<lparr>tw_db := serve env req (tw_db x)\<rparr>"
| "happen env (Role_Checked ctx u role_text) x =
     (case check_member_role_update ctx u role_text (tw_db x) of
        Inl e \<Rightarrow> x
      | Inr r \<Rightarrow> x\<lparr>tw_pending := tw_pending x @ [Role_Write (dc_workspace ctx) u r]\<rparr>)"
| "happen env (Removal_Checked ctx u) x =
     (case check_member_removal ctx u (tw_db x) of
        Inl e \<Rightarrow> x
      | Inr _ \<Rightarrow> x\<lparr>tw_pending := tw_pending x @ [Removal_Write (dc_workspace ctx) u]\<rparr>)"
| "happen env (Written now n) x =
     (if n < length (tw_pending x)
      then x\<lparr>tw_db := perform now (tw_pending x ! n) (tw_db x),
             tw_pending := take n (tw_pending x) @ drop (Suc n) (tw_pending x)\<rparr>
      else x)"

definition happen_all :: "team_env \<Rightarrow> team_event list \<Rightarrow> team_world \<Rightarrow> team_world" where
  "happen_all env es x = fold (happen env) es x"

text \<open>A write comes too late when its target has become the owner since its check.\<close>

fun too_late :: "team_event \<Rightarrow> team_world \<Rightarrow> bool" where
  "too_late (Written now n) x \<longleftrightarrow> n < length (tw_pending x)
     \<and> (case write_target (tw_pending x ! n) of (w, u) \<Rightarrow> role_of w u (tw_db x) = Some Owner)"
| "too_late _ x \<longleftrightarrow> False"

fun never_too_late :: "team_env \<Rightarrow> team_event list \<Rightarrow> team_world \<Rightarrow> bool" where
  "never_too_late env [] x \<longleftrightarrow> True"
| "never_too_late env (e # es) x \<longleftrightarrow> \<not> too_late e x \<and> never_too_late env es (happen env e x)"

fun removal_attempts :: "team_event \<Rightarrow> (uuid \<times> string) set" where
  "removal_attempts (Served req) = removed_members req"
| "removal_attempts (Removal_Checked ctx u) = {(dc_workspace ctx, u)}"
| "removal_attempts _ = {}"

fun pending_removal :: "member_write \<Rightarrow> (uuid \<times> string) set" where
  "pending_removal (Removal_Write w u) = {(w, u)}"
| "pending_removal (Role_Write w u r) = {}"

definition team_world0 :: team_world where
  "team_world0 = \<lparr>tw_db = empty_teams, tw_pending = []\<rparr>"

definition world_inv :: "team_world \<Rightarrow> bool" where
  "world_inv x \<longleftrightarrow> team_inv (tw_db x) \<and> owned_spec (team_view (tw_db x))
     \<and> (\<forall>w u r. Role_Write w u r \<in> set (tw_pending x) \<longrightarrow> r \<noteq> Owner)"

lemma happen_all_simps [simp]:
  "happen_all env [] x = x"
  "happen_all env (e # es) x = happen_all env es (happen env e x)"
  by (simp_all add: happen_all_def)

lemma checked_role: "check_member_role_update ctx u role_text db = Inr r \<Longrightarrow> r \<noteq> Owner"
  using validate_team_role_Inr
  by (auto simp: check_member_role_update_def result_bind_Inr split: if_split_asm option.split_asm)

lemma sim_any_authority:
  assumes "simulates auth leavers db db'"
  shows "simulates UNIV leavers db db'"
proof -
  have move: "team_move auth leavers s s' \<Longrightarrow> team_move UNIV leavers s s'" for s s'
    by (induction rule: team_move.induct) (blast intro: team_move.intros)+
  have "team_moves UNIV leavers s s'" if "team_moves auth leavers s s'" for s s'
    using that by (induction rule: rtranclp_induct) (auto intro: rtranclp.rtrancl_into_rtrancl move)
  with assms show ?thesis by (simp add: simulates_def)
qed

lemma perform_simulates:
  assumes inv: "team_inv db" and target: "write_target x = (w, u)" "role_of w u db \<noteq> Some Owner"
    and r: "\<And>r. x = Role_Write w u r \<Longrightarrow> r \<noteq> Owner"
  shows "simulates UNIV (pending_removal x) db (perform now x db)"
proof (cases x)
  case (Role_Write v y r)
  with target have v: "v = w" "y = u" by simp_all
  show ?thesis
  proof (cases "member_of w u db")
    case None
    then show ?thesis using inv Role_Write v by (simp add: write_member_role_def Let_def sim_refl)
  next
    case (Some m)
    then have "tm_role m \<noteq> Owner" using target(2) by (simp add: role_of_def)
    moreover obtain q db' where run: "write_member_role now w u r db = (q, db')" by fastforce
    ultimately show ?thesis
      using sim_role_update [OF inv UNIV_I Some _ _ run] assms(4) Role_Write v by simp
  qed
next
  case (Removal_Write v y)
  with target sim_delete [OF inv, of w u] show ?thesis by simp
qed

definition removals_pending :: "team_world \<Rightarrow> (uuid \<times> string) set" where
  "removals_pending x = (\<Union>p \<in> set (tw_pending x). pending_removal p)"

lemma happen_simulates:
  assumes inv: "world_inv x" and late: "\<not> too_late e x"
  shows "\<exists>leavers \<subseteq> removal_attempts e \<union> removals_pending x.
    simulates UNIV leavers (tw_db x) (tw_db (happen env e x))"
    and "\<forall>w u r. Role_Write w u r \<in> set (tw_pending (happen env e x)) \<longrightarrow> r \<noteq> Owner"
    and "removals_pending (happen env e x) \<subseteq> removal_attempts e \<union> removals_pending x"
proof -
  have tinv: "team_inv (tw_db x)" using inv by (simp add: world_inv_def)
  have pend: "\<And>w u r. Role_Write w u r \<in> set (tw_pending x) \<Longrightarrow> r \<noteq> Owner" using inv by (simp add: world_inv_def)
  have fewer: "p \<in> set (tw_pending x)" if "p \<in> set (take n (tw_pending x) @ drop (Suc n) (tw_pending x))" for n p
    using that by (auto dest: in_set_takeD in_set_dropD)
  show "\<forall>w u r. Role_Write w u r \<in> set (tw_pending (happen env e x)) \<longrightarrow> r \<noteq> Owner"
    using pend by (cases e) (auto split: sum.split dest: checked_role in_set_takeD in_set_dropD)
  show "removals_pending (happen env e x) \<subseteq> removal_attempts e \<union> removals_pending x"
    unfolding removals_pending_def
    by (cases e) (auto split: sum.split_asm if_split_asm dest: in_set_takeD in_set_dropD)
  show "\<exists>leavers \<subseteq> removal_attempts e \<union> removals_pending x.
      simulates UNIV leavers (tw_db x) (tw_db (happen env e x))"
  proof (cases e)
    case (Served req)
    have "simulates UNIV (removed_members req) (tw_db x) (serve env req (tw_db x))"
      using serve_simulates [OF tinv, of req env] sim_any_authority by blast
    with Served show ?thesis by (intro exI [of _ "removed_members req"]) simp
  next
    case (Written now n)
    show ?thesis
    proof (cases "n < length (tw_pending x)")
      case True
      obtain w u where t: "write_target (tw_pending x ! n) = (w, u)" by fastforce
      have mem: "tw_pending x ! n \<in> set (tw_pending x)" using True by simp
      have "simulates UNIV (pending_removal (tw_pending x ! n)) (tw_db x) (perform now (tw_pending x ! n) (tw_db x))"
      proof (rule perform_simulates [OF tinv t])
        show "role_of w u (tw_db x) \<noteq> Some Owner" using late Written True t by simp
        show "r \<noteq> Owner" if "tw_pending x ! n = Role_Write w u r" for r using pend mem that by metis
      qed
      moreover have "pending_removal (tw_pending x ! n) \<subseteq> removals_pending x" using mem by (auto simp: removals_pending_def)
      ultimately show ?thesis using Written True by (intro exI [of _ "pending_removal (tw_pending x ! n)"]) auto
    next
      case False
      with Written show ?thesis using sim_refl [OF tinv] by auto
    qed
  qed (use sim_refl [OF tinv] in \<open>auto split: sum.split\<close>)
qed

lemma happen_keeps:
  assumes inv: "world_inv x" and late: "\<not> too_late e x"
  shows "world_inv (happen env e x)"
    and "founder_of w (tw_db x) = Some f \<Longrightarrow> founder_of w (tw_db (happen env e x)) = Some f"
    and "one_owner w (team_view (tw_db x)) \<Longrightarrow>
      (\<And>f. founder_of w (tw_db (happen env e x)) = Some f \<Longrightarrow> (w, f) \<notin> removal_attempts e \<union> removals_pending x) \<Longrightarrow>
      one_owner w (team_view (tw_db (happen env e x)))"
proof -
  let ?y = "happen env e x"
  obtain leavers where l: "leavers \<subseteq> removal_attempts e \<union> removals_pending x"
    "team_inv (tw_db ?y)" "team_moves UNIV leavers (team_view (tw_db x)) (team_view (tw_db ?y))"
    using happen_simulates(1) [OF inv late] by (auto simp: simulates_def)
  note k = moves_keep [OF l(3)]
  show "world_inv ?y"
    using inv l(2) k(1) happen_simulates(2) [OF inv late] by (simp add: world_inv_def)
  show "founder_of w (tw_db ?y) = Some f" if "founder_of w (tw_db x) = Some f" using k(2) that by simp
  show "one_owner w (team_view (tw_db ?y))" if "one_owner w (team_view (tw_db x))"
    "\<And>f. founder_of w (tw_db ?y) = Some f \<Longrightarrow> (w, f) \<notin> removal_attempts e \<union> removals_pending x"
    by (rule k(3)) (use inv that l(1) in \<open>auto simp: world_inv_def\<close>)
qed

lemma happened_founder:
  assumes "world_inv x" "never_too_late env es x" "founder_of w (tw_db x) = Some f"
  shows "founder_of w (tw_db (happen_all env es x)) = Some f"
  using assms
proof (induction es arbitrary: x)
  case (Cons e es)
  then show ?case using happen_keeps(1,2) [of x e] by simp
qed simp

lemma happened_inv:
  assumes "world_inv x" "never_too_late env es x"
  shows "world_inv (happen_all env es x)"
  using assms by (induction es arbitrary: x) (simp_all add: happen_keeps(1))

lemma happened_one_owner:
  assumes "world_inv x" "never_too_late env es x" "one_owner w (team_view (tw_db x))"
    and "\<And>f. founder_of w (tw_db (happen_all env es x)) = Some f \<Longrightarrow>
      (w, f) \<notin> removals_pending x \<and> (\<forall>e \<in> set es. (w, f) \<notin> removal_attempts e)"
  shows "one_owner w (team_view (tw_db (happen_all env es x)))"
  using assms
proof (induction es arbitrary: x)
  case (Cons e es)
  let ?y = "happen env e x"
  have late: "\<not> too_late e x" "never_too_late env es ?y" using Cons.prems(2) by simp_all
  note y = happen_keeps [OF Cons.prems(1) late(1)]
  have stays: "(w, f) \<notin> removal_attempts e \<union> removals_pending x" "(w, f) \<notin> removals_pending ?y"
    if "founder_of w (tw_db (happen_all env es ?y)) = Some f" for f
    using Cons.prems(4) that happen_simulates(3) [OF Cons.prems(1) late(1), of env] by auto
  have "one_owner w (team_view (tw_db ?y))"
    by (rule y(3) [OF Cons.prems(3)]) (use stays(1) happened_founder [OF y(1) late(2)] in blast)
  then have "one_owner w (team_view (tw_db (happen_all env es ?y)))"
    by (rule Cons.IH [OF y(1) late(2)]) (use stays(2) Cons.prems(4) in auto)
  then show ?case by simp
qed simp

lemma team_world0_ok: "world_inv team_world0" "removals_pending team_world0 = {}" "one_owner w (team_view (tw_db team_world0))"
  using empty_teams_ok by (simp_all add: world_inv_def team_world0_def removals_pending_def)

text \<open>
  C7.  Requests are served one after another, but the check and the write of a role change or of a
  removal may have any other requests in between.  As long as no such write finds that its target has
  become the owner since the check, every team has an owner; and a team whose founder nobody asked to
  remove has exactly one.
\<close>

theorem every_team_keeps_its_owner:
  assumes w: "w \<in> set (td_workspaces db)" and db: "db = tw_db (happen_all env es team_world0)"
    and timely: "never_too_late env es team_world0"
  shows "(\<exists>m \<in> set (td_members db). tm_workspace m = ws_id w \<and> tm_role m = Owner)
    \<and> ((\<forall>e \<in> set es. (ws_id w, ws_os_user w) \<notin> removal_attempts e) \<longrightarrow>
        (\<exists>!m. m \<in> set (td_members db) \<and> tm_workspace m = ws_id w \<and> tm_role m = Owner))"
proof -
  have inv: "team_inv db" "owned_spec (team_view db)"
    using happened_inv [OF team_world0_ok(1) timely] by (simp_all add: world_inv_def db)
  have f: "founder_of (ws_id w) db = Some (ws_os_user w)"
    using w by (auto simp: founder_of_iff [OF inv(1)])
  then obtain u where "role_of (ws_id w) u db = Some Owner" using inv(2) by (auto simp: owned_spec_def)
  then have "\<exists>m \<in> set (td_members db). tm_workspace m = ws_id w \<and> tm_role m = Owner"
    by (auto simp: role_of_iff [OF inv(1)])
  moreover have "\<exists>!m. m \<in> set (td_members db) \<and> tm_workspace m = ws_id w \<and> tm_role m = Owner"
    if stays: "\<forall>e \<in> set es. (ws_id w, ws_os_user w) \<notin> removal_attempts e"
  proof -
    have "one_owner (ws_id w) (team_view db)"
      unfolding db
      by (rule happened_one_owner [OF team_world0_ok(1) timely team_world0_ok(3)])
        (use f stays team_world0_ok(2) in \<open>auto simp: db\<close>)
    then obtain x where x: "owners_of (team_view db) (ws_id w) = {x}" using f by (auto simp: one_owner_def)
    then have "role_of (ws_id w) x db = Some Owner" by (auto simp: owners_of_def)
    then obtain m where m: "m \<in> set (td_members db)" "member_key m = (ws_id w, x)" "tm_role m = Owner"
      unfolding role_of_iff [OF inv(1)] member_key_def by blast
    have "n = m" if "n \<in> set (td_members db)" "tm_workspace n = ws_id w" "tm_role n = Owner" for n
    proof -
      have "role_of (ws_id w) (tm_user n) db = Some Owner"
        using that unfolding role_of_iff [OF inv(1)] by blast
      then have "tm_user n \<in> owners_of (team_view db) (ws_id w)" by (simp add: owners_of_def)
      then have "member_key n = member_key m" using x m(2) that(2) by (auto simp: member_key_def)
      moreover have "distinct (map member_key (td_members db))" using inv(1) by (simp add: team_inv_def)
      ultimately show ?thesis using that(1) m(1) by (blast intro: distinct_map_eq)
    qed
    moreover have "tm_workspace m = ws_id w" using m(2) by (simp add: member_key_def)
    ultimately show ?thesis using m(1,3) by blast
  qed
  ultimately show ?thesis by blast
qed

definition team_env0 :: team_env where
  "team_env0 = \<lparr>te_lower = to_ascii_lowercase, te_sql_lower = to_ascii_lowercase, te_collate = length\<rparr>"

definition alice :: os_user where
  "alice = \<lparr>ou_id = ''usr_a'', ou_handle = ''alice'', ou_email = Some ''a@x.io'', ou_display_name = None\<rparr>"

definition bob :: os_user where
  "bob = \<lparr>ou_id = ''usr_b'', ou_handle = ''@bob'', ou_email = Some '' B@x.io'', ou_display_name = Some ''Bob B''\<rparr>"

definition context_of :: "string \<Rightarrow> uuid \<Rightarrow> team_role \<Rightarrow> dashboard_context" where
  "context_of u w r = \<lparr>dc_user = u, dc_workspace = w, dc_role = r\<rparr>"

text \<open>Alice founds a team, Bob joins it by invitation, and Alice hands it over to him.\<close>

definition hand_over0 :: "team_request list" where
  "hand_over0 =
     [Access 1 1 10 alice None, Access 2 2 20 bob None,
      Invite 3 3 (context_of ''usr_a'' 1 Owner) (Some ''b@x.io'') ''member'', Access 4 4 40 bob (Some 1),
      Transfer_Ownership 5 (context_of ''usr_a'' 1 Owner) ''usr_b'']"

definition teams0 :: team_db where
  "teams0 = serve_all team_env0 hand_over0 empty_teams"

lemma teams0_run:
  "map (\<lambda>m. (tm_workspace m, tm_user m, tm_role m)) (td_members teams0)
     = [(1, ''usr_a'', Admin), (2, ''usr_b'', Owner), (1, ''usr_b'', Owner)]
   \<and> map (\<lambda>w. (ws_id w, ws_os_user w)) (td_workspaces teams0) = [(1, ''usr_a''), (2, ''usr_b'')]
   \<and> list_all (\<lambda>i. ti_workspace i = 1 \<and> ti_accepted_by i = Some ''usr_b'') (td_invitations teams0)
   \<and> list_all (\<lambda>req. (1, ''usr_a'') \<notin> removed_members req) hand_over0"
  by code_simp

text \<open>The facts of this run the witnesses use.\<close>

lemma teams0_reached: "team_inv teams0" "owned_spec (team_view teams0)"
  using served_keeps [OF empty_teams_ok(1,2)] by (simp_all add: teams0_def)

lemma requests_follow_the_team_protocol_witness:
  "team_moves {} {} (team_view empty_teams) (team_view (serve team_env0 (Access 1 1 10 alice None) empty_teams))
   \<and> role_of 1 ''usr_a'' (serve team_env0 (Access 1 1 10 alice None) empty_teams) = Some Owner"
proof
  show "team_moves {} {} (team_view empty_teams) (team_view (serve team_env0 (Access 1 1 10 alice None) empty_teams))"
    using requests_follow_the_team_protocol [OF empty_teams_ok(1), of team_env0 "Access 1 1 10 alice None"] by simp
  show "role_of 1 ''usr_a'' (serve team_env0 (Access 1 1 10 alice None) empty_teams) = Some Owner"
    by code_simp
qed

text \<open>The run with a role change of Bob checked before the hand-over and written in time.\<close>

definition split_run0 :: "team_event list" where
  "split_run0 = map Served (take 4 hand_over0)
     @ [Role_Checked (context_of ''usr_a'' 1 Owner) ''usr_b'' ''admin'', Written 5 0,
        Served (Transfer_Ownership 6 (context_of ''usr_a'' 1 Owner) ''usr_b'')]"

lemma split_run0_run:
  "never_too_late team_env0 split_run0 team_world0"
  "list_all (\<lambda>e. (1, ''usr_a'') \<notin> removal_attempts e) split_run0"
  "map (\<lambda>m. (tm_workspace m, tm_user m, tm_role m)) (td_members (tw_db (happen_all team_env0 split_run0 team_world0)))
     = [(1, ''usr_a'', Admin), (2, ''usr_b'', Owner), (1, ''usr_b'', Owner)]"
  "map (\<lambda>w. (ws_id w, ws_os_user w)) (td_workspaces (tw_db (happen_all team_env0 split_run0 team_world0)))
     = [(1, ''usr_a''), (2, ''usr_b'')]"
  by code_simp+

lemma every_team_keeps_its_owner_witness:
  "\<exists>!m. m \<in> set (td_members (tw_db (happen_all team_env0 split_run0 team_world0)))
     \<and> tm_workspace m = 1 \<and> tm_role m = Owner"
proof -
  let ?db = "tw_db (happen_all team_env0 split_run0 team_world0)"
  have "(1, ''usr_a'') \<in> (\<lambda>w. (ws_id w, ws_os_user w)) ` set (td_workspaces ?db)"
    unfolding list.set_map [symmetric] split_run0_run(4) by simp
  then obtain w where w: "w \<in> set (td_workspaces ?db)" "ws_id w = 1" "ws_os_user w = ''usr_a''" by auto
  have "\<forall>e \<in> set split_run0. (ws_id w, ws_os_user w) \<notin> removal_attempts e"
    using split_run0_run(2) w(2,3) by (simp add: list_all_iff)
  with every_team_keeps_its_owner [OF w(1) refl split_run0_run(1)] w(2) show ?thesis by simp
qed

lemma served_unpromoted:
  assumes "team_inv db" "owned_spec (team_view db)" "\<forall>req \<in> set reqs. w \<notin> request_authority req"
    and "unpromoted w ranked (team_view db)"
  shows "unpromoted w ranked (team_view (serve_all env reqs db))"
  using assms
proof (induction reqs arbitrary: db)
  case (Cons q qs)
  have sim: "team_inv (serve env q db)"
    "team_moves (request_authority q) (removed_members q) (team_view db) (team_view (serve env q db))"
    using serve_simulates [OF Cons.prems(1)] by (auto simp: simulates_def)
  have "w \<notin> request_authority q" using Cons.prems(3) by simp
  from moves_keep(4) [OF sim(2) Cons.prems(2) this Cons.prems(4)] moves_keep(1) [OF sim(2) Cons.prems(2)]
  show ?case using Cons.IH [OF sim(1)] Cons.prems(3) by simp
qed simp

text \<open>Requests made without the owner's authority over a team promote nobody in it: when none of its open invitations grants the admin role, every owner and admin afterwards is the team's founder or was an owner or admin before.\<close>
theorem only_the_owner_promotes:
  assumes "team_inv db" "owned_spec (team_view db)"
    and "\<forall>req \<in> set reqs. w \<notin> request_authority req"
    and "\<forall>i \<in> set (td_invitations db). is_open i \<and> ti_workspace i = w \<longrightarrow> ti_role i \<noteq> Admin"
    and "role_of w u (serve_all env reqs db) = Some r" "r = Owner \<or> r = Admin"
  shows "founder_of w (serve_all env reqs db) = Some u
    \<or> role_of w u db = Some Owner \<or> role_of w u db = Some Admin"
proof -
  have "unpromoted w (ranks_above w (team_view db)) (team_view db)"
    using assms(4) by (auto simp: unpromoted_def open_offers_def)
  from served_unpromoted [OF assms(1-3) this]
  have "unpromoted w (ranks_above w (team_view db)) (team_view (serve_all env reqs db))" .
  then show ?thesis using assms(5,6) by (auto simp: unpromoted_def ranks_above_def)
qed

lemma only_the_owner_promotes_witness:
  "founder_of 1 (serve_all team_env0 [Rename_Team 6 60 1 ''Acme'', Access 7 7 70 bob None] teams0) = Some ''usr_b''
   \<or> role_of 1 ''usr_b'' teams0 = Some Owner \<or> role_of 1 ''usr_b'' teams0 = Some Admin"
proof (rule only_the_owner_promotes [OF teams0_reached])
  show "\<forall>req \<in> set [Rename_Team 6 60 1 ''Acme'', Access 7 7 70 bob None]. 1 \<notin> request_authority req" by simp
  have "list_all (\<lambda>i. is_open i \<and> ti_workspace i = 1 \<longrightarrow> ti_role i \<noteq> Admin) (td_invitations teams0)"
    by code_simp
  then show "\<forall>i \<in> set (td_invitations teams0). is_open i \<and> ti_workspace i = 1 \<longrightarrow> ti_role i \<noteq> Admin"
    by (simp add: list_all_iff)
  show "role_of 1 ''usr_b'' (serve_all team_env0 [Rename_Team 6 60 1 ''Acme'', Access 7 7 70 bob None] teams0)
      = Some Owner"
    by code_simp
qed simp

text \<open>C34. A member removed from the team it founded becomes an owner of it again with its next sign-in, beside the owner the team was handed over to.\<close>
theorem a_removed_founder_returns_as_owner:
  assumes inv: "team_inv db" and f: "founder_of w db = Some (ou_id u)"
    and gone: "role_of w (ou_id u) db = None" and shape: "user_shape (ou_id u)"
    and run: "get_or_create_workspace now new_id slug_id lower u db = (r, db')"
  shows "is_ok r \<and> role_of w (ou_id u) db' = Some Owner
    \<and> (\<forall>v. v \<noteq> ou_id u \<longrightarrow> role_of w v db' = role_of w v db)"
proof -
  obtain x where x: "x \<in> set (td_workspaces db)" "ws_id x = w" "ws_os_user x = ou_id u"
    using f by (auto simp: founder_of_iff [OF inv])
  have "distinct (map ws_os_user (td_workspaces db))" using inv by (simp add: team_inv_def)
  with find_unique_key [OF this x(1)] x(3)
  have found: "find (\<lambda>w. ws_os_user w = ou_id u) (td_workspaces db) = Some x" by simp
  obtain q where q: "upsert_workspace_member now lower w u Owner db = (q, db')"
    and r: "is_ok q \<longrightarrow> is_ok r"
    using run get_or_create_existing [OF found, of now new_id slug_id lower] x(2)
    by (auto split: prod.split_asm sum.split_asm)
  have "workspace_exists w db" using x(1,2) by (auto simp: workspace_exists_def)
  then have ok: "q = Inr ()"
    using q shape by (auto simp: upsert_workspace_member_def upsert_member_def Let_def split: if_split_asm)
  then have up: "upsert_member (\<lambda>stored. stored) now lower w u Owner db = (Inr (), db')"
    using q by (simp add: upsert_workspace_member_def)
  have view: "team_view db' = set_role w (ou_id u) (Some Owner) (team_view db)"
    using upsert_member_cases(5) [OF inv up] gone by simp
  have "role_of v y db' = sp_role (team_view db') v y" for v y by simp
  then have "role_of v y db' = (if v = w \<and> y = ou_id u then Some Owner else role_of v y db)" for v y
    unfolding view by simp
  with r ok show ?thesis by simp
qed

lemma a_removed_founder_returns_as_owner_witness:
  "\<exists>db db'. db = serve team_env0 (Remove_Member (context_of ''usr_b'' 1 Owner) ''usr_a'') teams0
     \<and> db' = snd (get_or_create_workspace 7 9 90 to_ascii_lowercase alice db)
     \<and> role_of 1 ''usr_a'' db = None
     \<and> role_of 1 ''usr_a'' db' = Some Owner \<and> role_of 1 ''usr_b'' db' = Some Owner"
proof -
  define db where "db = serve team_env0 (Remove_Member (context_of ''usr_b'' 1 Owner) ''usr_a'') teams0"
  obtain r db' where run: "get_or_create_workspace 7 9 90 to_ascii_lowercase alice db = (r, db')" by fastforce
  have inv: "team_inv db"
    unfolding db_def by (rule conjunct1 [OF serve_simulates [OF teams0_reached(1), unfolded simulates_def]])
  have facts: "founder_of 1 db = Some (ou_id alice)" "role_of 1 (ou_id alice) db = None"
      "user_shape (ou_id alice)" "role_of 1 ''usr_b'' db = Some Owner"
    unfolding db_def by code_simp+
  have "ou_id alice = ''usr_a''" by (simp add: alice_def)
  with a_removed_founder_returns_as_owner [OF inv facts(1-3) run] facts run
  show ?thesis by (intro exI [of _ db] exI [of _ db']) (auto simp: db_def)
qed

text \<open>C35. Changing a role checks the member and writes in separate statements: when the team is handed over to that member in between, the write strips the only owner, and the team is left with none.\<close>
theorem a_late_role_change_leaves_no_owner:
  assumes inv: "team_inv db" and one: "one_owner w (team_view db)" and w: "dc_workspace ctx = w"
    and check: "check_member_role_update ctx u role_text db = Inr r"
    and transfer: "transfer_team_ownership now ctx u db = (Inr (), mid)"
    and late: "write_member_role now' w u r mid = (q, db')"
  shows "is_ok q \<and> (\<forall>v. role_of w v db' \<noteq> Some Owner)"
proof -
  note t = transfer_view [OF inv transfer, unfolded w]
  have "role_of w v mid = sp_role (team_view mid) w v" for v by simp
  then have mid: "role_of w v mid = (if v = dc_user ctx then Some Admin else if v = u then Some Owner
      else role_of w v db)" for v
    unfolding t(5) by simp
  then have "role_of w u mid = Some Owner" using t(4) by simp
  then obtain m where m: "member_of w u mid = Some m" by (auto simp: role_of_def)
  note v = write_role_view [OF t(6) m late]
  have "role_of w x db' = sp_role (team_view db') w x" for x by simp
  then have db': "role_of w x db' = (if x = u then Some r else role_of w x mid)" for x unfolding v(2) by simp
  have r: "r \<noteq> Owner"
    using check validate_team_role_Inr
    by (auto simp: check_member_role_update_def result_bind_Inr split: if_split_asm option.split_asm)
  obtain f where "founder_of w db = Some f"
    using role_needs_workspace [OF inv, of w] t(2) founder_of_None [of w db] by (cases "founder_of w db") auto
  then obtain y where y: "owners_of (team_view db) w = {y}" using one by (auto simp: one_owner_def)
  then have "dc_user ctx = y" using t(2) by (auto simp: owners_of_def)
  then have "role_of w x db \<noteq> Some Owner" if "x \<noteq> dc_user ctx" for x
    using y that by (auto simp: owners_of_def set_eq_iff)
  with v(3) r show ?thesis by (auto simp: db' mid)
qed

lemma a_late_role_change_leaves_no_owner_witness:
  "\<exists>mid q db'. transfer_team_ownership 6 (context_of ''usr_b'' 1 Owner) ''usr_a'' teams0 = (Inr (), mid)
     \<and> write_member_role 7 1 ''usr_a'' Plain_Member mid = (q, db')
     \<and> is_ok q \<and> (\<forall>v. role_of 1 v db' \<noteq> Some Owner)"
proof -
  let ?ctx = "context_of ''usr_b'' 1 Owner"
  obtain x mid where t: "transfer_team_ownership 6 ?ctx ''usr_a'' teams0 = (x, mid)" by fastforce
  have "fst (transfer_team_ownership 6 ?ctx ''usr_a'' teams0) = Inr ()" by code_simp
  with t have t': "transfer_team_ownership 6 ?ctx ''usr_a'' teams0 = (Inr (), mid)" by simp
  obtain q db' where l: "write_member_role 7 1 ''usr_a'' Plain_Member mid = (q, db')" by fastforce
  have c: "check_member_role_update ?ctx ''usr_a'' ''member'' teams0 = Inr Plain_Member" by code_simp
  have "one_owner 1 (team_view teams0)"
    unfolding teams0_def
  proof (rule served_one_owner [OF empty_teams_ok])
    fix req f assume "req \<in> set hand_over0"
    then have "removed_members req = {}" by (auto simp: hand_over0_def)
    then show "(1, f) \<notin> removed_members req" by simp
  qed
  moreover have "dc_workspace ?ctx = 1" by (simp add: context_of_def)
  ultimately show ?thesis
    using a_late_role_change_leaves_no_owner [OF teams0_reached(1) _ _ c t' l] t' l by blast
qed

text \<open>Accepting an invitation succeeds exactly for a user it names while it is open and not expired, and an accepted invitation that is not a link admits nobody afterwards.\<close>
theorem an_invitation_admits_whom_it_names:
  assumes inv: "team_inv db" and run: "accept_team_invitation now lower u invitation_id db = (r, db')"
  shows "(is_ok r \<longleftrightarrow> user_shape (ou_id u)
            \<and> (\<exists>i \<in> set (td_invitations db). ti_id i = invitation_id \<and> available now i \<and> invitation_matches i u))
    \<and> (is_ok r \<and> (\<forall>i \<in> set (td_invitations db). ti_id i = invitation_id \<longrightarrow> ti_kind i \<noteq> By_Link) \<longrightarrow>
         (\<forall>later v. accept_team_invitation later lower v invitation_id db' = (Inl (gone GONE_INVITATION), db')))"
proof (cases "find (\<lambda>i. ti_id i = invitation_id \<and> available now i) (td_invitations db)")
  case None
  then have "r = Inl (gone GONE_INVITATION)" using run by (simp add: accept_team_invitation_def)
  then show ?thesis using None by (auto simp: find_None_iff)
next
  case (Some i)
  have i: "i \<in> set (td_invitations db)" "ti_id i = invitation_id" "available now i"
    using Some by (auto dest!: find_SomeD)
  have dist: "distinct (map ti_id (td_invitations db))" using inv by (simp add: team_inv_def)
  have only: "j = i" if "j \<in> set (td_invitations db)" "ti_id j = invitation_id" for j
    using distinct_map_eq [OF dist that(1) i(1)] that(2) i(2) by simp
  have acc: "accept_invitation now lower u i db = (r, db')"
    using run Some by (simp add: accept_team_invitation_def)
  let ?p = "\<lambda>r. ti_id r = ti_id i \<and> available now r"
  have ws: "workspace_exists (ti_workspace i) db" using inv i(1) by (auto simp: team_inv_def)
  have one: "rows_affected ?p (td_invitations db) = 1"
  proof -
    have "rows_affected ?p (td_invitations db) \<le> 1" by (rule rows_affected_key [OF dist]) auto
    moreover have "rows_affected ?p (td_invitations db) \<noteq> 0"
      unfolding rows_affected_0 using i by blast
    ultimately show ?thesis by simp
  qed
  have ok: "is_ok r \<longleftrightarrow> user_shape (ou_id u) \<and> invitation_matches i u"
    using acc ws one
    by (auto simp: accept_invitation_def upsert_member_def Let_def split: if_split_asm)
  have "accept_team_invitation later lower v invitation_id db' = (Inl (gone GONE_INVITATION), db')"
    if "is_ok r" "ti_kind i \<noteq> By_Link" for later v
  proof -
    obtain w where "accept_invitation now lower u i db = (Inr w, db')" using acc \<open>is_ok r\<close> by (auto simp: is_ok_iff)
    then obtain mid where mid: "upsert_member (role_after_invitation (ti_role i)) now lower (ti_workspace i) u
        (ti_role i) db = (Inr (), mid)"
      "db' = mid\<lparr>td_invitations := update_where ?p (mark_accepted now (ou_id u)) (td_invitations mid)\<rparr>"
      by (rule accept_invitation_cases) blast
    have "\<not> available later j" if "j \<in> set (td_invitations db')" "ti_id j = invitation_id" for j
    proof -
      have "td_invitations mid = td_invitations db" by (rule upsert_member_cases(2) [OF inv mid(1)])
      with that(1) obtain k where k: "k \<in> set (td_invitations db)"
          "j = (if ?p k then mark_accepted now (ou_id u) k else k)"
        by (auto simp: mid(2) update_where_def)
      then have "ti_id k = invitation_id" using that(2) by (auto simp: mark_accepted_def split: if_split_asm)
      then have "k = i" by (rule only [OF k(1)])
      then show ?thesis
        using k(2) i(2,3) \<open>ti_kind i \<noteq> By_Link\<close> by (simp add: mark_accepted_def available_def is_open_def)
    qed
    then show ?thesis by (auto simp: accept_team_invitation_def find_None_iff split: option.split dest!: find_SomeD)
  qed
  moreover have "(\<exists>j \<in> set (td_invitations db). ti_id j = invitation_id \<and> available now j \<and> invitation_matches j u)
      \<longleftrightarrow> invitation_matches i u"
    using i only by blast
  ultimately show ?thesis using ok i(1,2) by blast
qed

lemma an_invitation_admits_whom_it_names_witness:
  "\<exists>db db'. db = serve_all team_env0 (take 3 hand_over0) empty_teams
     \<and> accept_team_invitation 4 to_ascii_lowercase bob 3 db = (Inr 1, db')
     \<and> fst (accept_team_invitation 5 to_ascii_lowercase bob 3 db') = Inl (gone GONE_INVITATION)"
proof -
  define db where "db = serve_all team_env0 (take 3 hand_over0) empty_teams"
  have inv: "team_inv db" using served_keeps [OF empty_teams_ok(1,2)] by (simp add: db_def)
  obtain r db' where run: "accept_team_invitation 4 to_ascii_lowercase bob 3 db = (r, db')" by fastforce
  have "fst (accept_team_invitation 4 to_ascii_lowercase bob 3 db) = Inr 1" unfolding db_def by code_simp
  with run have r: "r = Inr 1" by simp
  have "list_all (\<lambda>i. ti_kind i \<noteq> By_Link) (td_invitations db)" unfolding db_def by code_simp
  with an_invitation_admits_whom_it_names [OF inv run] r
  have "accept_team_invitation 5 to_ascii_lowercase bob 3 db' = (Inl (gone GONE_INVITATION), db')"
    by (simp add: list_all_iff)
  with run r show ?thesis by (intro exI [of _ db] exI [of _ db']) (simp add: db_def)
qed

end
