(* ===== verification/ApiKeys.thy ===== *)
theory ApiKeys
  imports StoreText
begin

text \<open>
  \<open>backend/src/store.rs\<close>: products with their default environment, the activation milestones of a
  product, and the API keys of an environment; tables \<open>products\<close>, \<open>product_environments\<close>,
  \<open>product_activation_milestones\<close> and \<open>api_keys\<close> (migrations 0001, 0003, 0008, 0012, 0013, 0030).
  The operations that write more than one row are transactions, so an error leaves the tables as
  they were.  Parameters: the clock, random UUIDs and tokens, \<open>sha\<close> for SHA-256, \<open>lower\<close> for
  \<open>str::to_lowercase\<close> and \<open>sql_lower\<close> for SQL's \<open>LOWER\<close>.
\<close>

section \<open>Tables\<close>

text \<open>
  Settings columns of an environment that only other operations use (feedback and consent mode,
  retention) are left out; a workspace is its id.
\<close>

datatype key_kind = Write_Key | Read_Key

record catalog_product =
  cp_id :: uuid
  cp_workspace :: uuid
  cp_name :: string
  cp_slug :: string
  cp_created_at :: time
  cp_updated_at :: time

record environment_row =
  en_id :: uuid
  en_workspace :: uuid
  en_product :: uuid
  en_name :: string
  en_slug :: string
  en_created_at :: time

record milestone_row =
  ms_product :: uuid
  ms_workspace :: uuid
  ms_first_opportunity_at :: "time option"
  ms_first_confirmed_at :: "time option"
  ms_first_report_at :: "time option"
  ms_updated_at :: time

record api_key_row =
  ak_id :: uuid
  ak_workspace :: uuid
  ak_environment :: uuid
  ak_label :: string
  ak_prefix :: string
  ak_kind :: key_kind
  ak_hash :: string
  ak_created_at :: time
  ak_last_used_at :: "time option"
  ak_revoked_at :: "time option"
  ak_expires_at :: "time option"

record catalog =
  ca_workspaces :: "uuid list"
  ca_products :: "catalog_product list"
  ca_environments :: "environment_row list"
  ca_milestones :: "milestone_row list"
  ca_keys :: "api_key_row list"

record product_auth =
  pa_workspace :: uuid
  pa_environment :: environment_row
  pa_key :: uuid

section \<open>Activation milestones\<close>

definition coalesce :: "'a option \<Rightarrow> 'a option \<Rightarrow> 'a option" where
  "coalesce a b = (case a of Some x \<Rightarrow> Some x | None \<Rightarrow> b)"

definition stamp :: "bool \<Rightarrow> time \<Rightarrow> time option" where
  "stamp b now = (if b then Some now else None)"

text \<open>\<open>INSERT .. ON CONFLICT (product_id) DO UPDATE .. WHERE\<close> some missing time becomes known.\<close>

definition milestone_merge :: "time \<Rightarrow> milestone_row \<Rightarrow> milestone_row \<Rightarrow> milestone_row" where
  "milestone_merge now new old =
     (if (ms_first_opportunity_at old = None \<and> ms_first_opportunity_at new \<noteq> None)
         \<or> (ms_first_confirmed_at old = None \<and> ms_first_confirmed_at new \<noteq> None)
         \<or> (ms_first_report_at old = None \<and> ms_first_report_at new \<noteq> None)
      then old\<lparr>ms_first_opportunity_at := coalesce (ms_first_opportunity_at old) (ms_first_opportunity_at new),
               ms_first_confirmed_at := coalesce (ms_first_confirmed_at old) (ms_first_confirmed_at new),
               ms_first_report_at := coalesce (ms_first_report_at old) (ms_first_report_at new),
               ms_updated_at := now\<rparr>
      else old)"

definition record_product_activation ::
  "time \<Rightarrow> uuid \<Rightarrow> uuid \<Rightarrow> bool \<Rightarrow> bool \<Rightarrow> bool \<Rightarrow> catalog \<Rightarrow> catalog" where
  "record_product_activation now workspace_id product_id opportunity confirmed report db =
     (let confirmed' = (confirmed \<or> report);
          opportunity' = (opportunity \<or> confirmed');
          new = \<lparr>ms_product = product_id, ms_workspace = workspace_id,
                 ms_first_opportunity_at = stamp opportunity' now,
                 ms_first_confirmed_at = stamp confirmed' now,
                 ms_first_report_at = stamp report now, ms_updated_at = now\<rparr>;
          p = (\<lambda>r. ms_product r = product_id)
      in if list_ex p (ca_milestones db)
         then db\<lparr>ca_milestones := update_where p (milestone_merge now new) (ca_milestones db)\<rparr>
         else db\<lparr>ca_milestones := ca_milestones db @ [new]\<rparr>)"

section \<open>Products\<close>

definition PRODUCT_LIMIT :: nat where
  "PRODUCT_LIMIT = 25"

text \<open>The primary key and the unique indexes on slug and lower-cased name of a team's products.\<close>

definition product_clash :: "(string \<Rightarrow> string) \<Rightarrow> catalog_product \<Rightarrow> catalog_product \<Rightarrow> bool" where
  "product_clash sql_lower new p \<longleftrightarrow> cp_id p = cp_id new
     \<or> (cp_workspace p = cp_workspace new
        \<and> (cp_slug p = cp_slug new \<or> sql_lower (cp_name p) = sql_lower (cp_name new)))"

definition environment_clash ::
  "(string \<Rightarrow> string) \<Rightarrow> environment_row \<Rightarrow> environment_row \<Rightarrow> bool" where
  "environment_clash sql_lower new e \<longleftrightarrow> en_id e = en_id new
     \<or> (en_product e = en_product new
        \<and> (en_slug e = en_slug new \<or> sql_lower (en_name e) = sql_lower (en_name new)))"

text \<open>
  The statements \<open>create_product\<close> and \<open>create_product_with_default_key\<close> share: the name, the team's
  row lock, the limit, and the two insertions.  The last argument is the error of a refused
  environment.
\<close>

definition insert_product ::
  "time \<Rightarrow> uuid \<Rightarrow> uuid \<Rightarrow> uuid \<Rightarrow> (string \<Rightarrow> string) \<Rightarrow> (string \<Rightarrow> string) \<Rightarrow> api_error \<Rightarrow> uuid \<Rightarrow> string
   \<Rightarrow> catalog \<Rightarrow> (catalog_product \<times> environment_row \<times> catalog) result" where
  "insert_product now new_product new_environment slug_id lower sql_lower refused workspace_id name_text db =
     result_bind (validated_name name_text ''Product'') (\<lambda>name.
       if workspace_id \<notin> set (ca_workspaces db) then Inl (not_found ''Team not found'')
       else if length (filter (\<lambda>p. cp_workspace p = workspace_id) (ca_products db)) \<ge> PRODUCT_LIMIT
       then Inl (conflict ''This workspace already has 25 products'')
       else
         (let product = \<lparr>cp_id = new_product, cp_workspace = workspace_id, cp_name = name,
                         cp_slug = slug lower slug_id name, cp_created_at = now, cp_updated_at = now\<rparr>;
              environment = \<lparr>en_id = new_environment, en_workspace = workspace_id, en_product = new_product,
                             en_name = ''Default'', en_slug = ''default'', en_created_at = now\<rparr>
          in if list_ex (product_clash sql_lower product) (ca_products db)
             then Inl (database_conflict UniqueViolation ''A product with this name already exists'')
             else if list_ex (environment_clash sql_lower environment) (ca_environments db)
             then Inl refused
             else Inr (product, environment,
                       db\<lparr>ca_products := ca_products db @ [product],
                          ca_environments := ca_environments db @ [environment]\<rparr>)))"

definition create_product ::
  "time \<Rightarrow> uuid \<Rightarrow> uuid \<Rightarrow> uuid \<Rightarrow> (string \<Rightarrow> string) \<Rightarrow> (string \<Rightarrow> string) \<Rightarrow> uuid \<Rightarrow> string
   \<Rightarrow> catalog \<Rightarrow> (catalog_product \<times> environment_row \<times> catalog) result" where
  "create_product now new_product new_environment slug_id lower sql_lower workspace_id name_text db =
     result_bind
       (insert_product now new_product new_environment slug_id lower sql_lower
          (database_conflict UniqueViolation ''This product already exists'') workspace_id name_text db)
       (\<lambda>(product, environment, db').
          Inr (product, environment,
               record_product_activation now workspace_id (cp_id product) False False False db'))"

definition key_clash :: "api_key_row \<Rightarrow> api_key_row \<Rightarrow> bool" where
  "key_clash new k \<longleftrightarrow> ak_id k = ak_id new \<or> ak_hash k = ak_hash new"

definition insert_key :: "api_key_row \<Rightarrow> catalog \<Rightarrow> catalog result" where
  "insert_key row db =
     (if list_ex (key_clash row) (ca_keys db) then Inl internal_error
      else Inr (db\<lparr>ca_keys := ca_keys db @ [row]\<rparr>))"

definition write_secret :: "uuid \<Rightarrow> uuid \<Rightarrow> string \<Rightarrow> string" where
  "write_secret key_id environment_id random =
     ''af_live_'' @ uuid_simple key_id @ ''_'' @ uuid_simple environment_id @ ''_'' @ random"

definition new_key_row ::
  "time \<Rightarrow> (string \<Rightarrow> string) \<Rightarrow> uuid \<Rightarrow> uuid \<Rightarrow> uuid \<Rightarrow> string \<Rightarrow> key_kind \<Rightarrow> string \<Rightarrow> time option \<Rightarrow> api_key_row"
where
  "new_key_row now sha key_id workspace_id environment_id label kind secret expires_at =
     \<lparr>ak_id = key_id, ak_workspace = workspace_id, ak_environment = environment_id, ak_label = label,
      ak_prefix = utf8_take 16 secret, ak_kind = kind, ak_hash = sha secret, ak_created_at = now,
      ak_last_used_at = None, ak_revoked_at = None, ak_expires_at = expires_at\<rparr>"

definition create_product_with_default_key ::
  "time \<Rightarrow> uuid \<Rightarrow> uuid \<Rightarrow> uuid \<Rightarrow> uuid \<Rightarrow> string \<Rightarrow> (string \<Rightarrow> string) \<Rightarrow> (string \<Rightarrow> string) \<Rightarrow> (string \<Rightarrow> string)
   \<Rightarrow> uuid \<Rightarrow> string \<Rightarrow> catalog \<Rightarrow> (catalog_product \<times> environment_row \<times> api_key_row \<times> string \<times> catalog) result"
where
  "create_product_with_default_key now new_product new_environment slug_id key_id random sha lower sql_lower
       workspace_id name_text db =
     (case insert_product now new_product new_environment slug_id lower sql_lower internal_error
             workspace_id name_text db of
        Inl e \<Rightarrow> Inl e
      | Inr (product, environment, db') \<Rightarrow>
          (let secret = write_secret key_id (en_id environment) random;
               row = new_key_row now sha key_id workspace_id (en_id environment) ''Default product key''
                       Write_Key secret None
           in (case insert_key row db' of
                 Inl e \<Rightarrow> Inl e
               | Inr db'' \<Rightarrow>
                   Inr (product, environment, row, secret,
                        record_product_activation now workspace_id (cp_id product) False False False db''))))"

definition rename_product ::
  "time \<Rightarrow> uuid \<Rightarrow> (string \<Rightarrow> string) \<Rightarrow> (string \<Rightarrow> string) \<Rightarrow> uuid \<Rightarrow> uuid \<Rightarrow> string \<Rightarrow> catalog
   \<Rightarrow> (catalog_product \<times> catalog) result" where
  "rename_product now slug_id lower sql_lower workspace_id product_id name_text db =
     result_bind (validated_name name_text ''Product'') (\<lambda>name.
       (let f = (\<lambda>p. p\<lparr>cp_name := name, cp_slug := slug lower slug_id name, cp_updated_at := now\<rparr>);
            q = (\<lambda>p. cp_id p = product_id \<and> cp_workspace p = workspace_id)
        in case find q (ca_products db) of
             None \<Rightarrow> Inl (not_found ''Product not found'')
           | Some p \<Rightarrow>
               if list_ex (\<lambda>o'. cp_id o' \<noteq> product_id \<and> product_clash sql_lower (f p) o') (ca_products db)
               then Inl (database_conflict UniqueViolation ''A product with this name already exists'')
               else Inr (f p, db\<lparr>ca_products := update_where q f (ca_products db)\<rparr>)))"

text \<open>
  Deleting a product deletes, by the foreign keys, its environments, milestones and the keys of its
  environments.  Interactions, reports, issue groups and mappings go the same way in their tables.
\<close>

definition delete_product ::
  "uuid \<Rightarrow> uuid \<Rightarrow> string \<Rightarrow> catalog \<Rightarrow> (catalog_product \<times> catalog) result" where
  "delete_product workspace_id product_id confirmation db =
     (case find (\<lambda>p. cp_id p = product_id \<and> cp_workspace p = workspace_id) (ca_products db) of
        None \<Rightarrow> Inl (not_found ''Product not found'')
      | Some p \<Rightarrow>
          if trim confirmation \<noteq> cp_name p
          then Inl (bad_request ''Type the exact product name to confirm deletion'')
          else
            (let mine = (\<lambda>e. en_product e = product_id)
             in Inr (p, db\<lparr>ca_products := delete_where (\<lambda>p. cp_id p = product_id) (ca_products db),
                  ca_environments := delete_where mine (ca_environments db),
                  ca_milestones := delete_where (\<lambda>m. ms_product m = product_id) (ca_milestones db),
                  ca_keys := delete_where
                    (\<lambda>k. \<exists>e \<in> set (ca_environments db). mine e \<and> en_id e = ak_environment k) (ca_keys db)\<rparr>)))"

section \<open>API keys\<close>

definition KEY_LIMIT :: nat where
  "KEY_LIMIT = 10"

fun kind_of_text :: "string option \<Rightarrow> key_kind option" where
  "kind_of_text None = Some Write_Key"
| "kind_of_text (Some t) =
     (if t = ''write'' then Some Write_Key else if t = ''read'' then Some Read_Key else None)"

fun key_prefix :: "key_kind \<Rightarrow> string" where
  "key_prefix Write_Key = ''af_live_''"
| "key_prefix Read_Key = ''af_read_''"

definition new_secret :: "key_kind \<Rightarrow> uuid \<Rightarrow> uuid \<Rightarrow> string \<Rightarrow> string" where
  "new_secret kind key_id environment_id random =
     (if kind = Write_Key
      then key_prefix kind @ uuid_simple key_id @ ''_'' @ uuid_simple environment_id @ ''_'' @ random
      else key_prefix kind @ uuid_simple key_id @ ''_'' @ random)"

definition live_key :: "time \<Rightarrow> api_key_row \<Rightarrow> bool" where
  "live_key now k \<longleftrightarrow> ak_revoked_at k = None \<and> opt_all (\<lambda>t. t > now) (ak_expires_at k)"

definition live_keys :: "time \<Rightarrow> uuid \<Rightarrow> key_kind \<Rightarrow> catalog \<Rightarrow> api_key_row list" where
  "live_keys now environment_id kind db =
     filter (\<lambda>k. ak_environment k = environment_id \<and> ak_kind k = kind \<and> live_key now k) (ca_keys db)"

definition key_expiry :: "time \<Rightarrow> int option \<Rightarrow> time option result" where
  "key_expiry now expires_in_seconds =
     (case expires_in_seconds of
        None \<Rightarrow> Inr None
      | Some n \<Rightarrow>
          if 60 \<le> n \<and> n \<le> 365 * 24 * 60 * 60 then Inr (Some (now + seconds n))
          else Inl (bad_request ''expiresInSeconds must be between 60 seconds and 365 days''))"

definition label_or_default :: "string option \<Rightarrow> string" where
  "label_or_default label = clean (case label of Some l \<Rightarrow> l | None \<Rightarrow> ''Production'') 60"

definition create_api_key ::
  "time \<Rightarrow> uuid \<Rightarrow> string \<Rightarrow> (string \<Rightarrow> string) \<Rightarrow> uuid \<Rightarrow> uuid \<Rightarrow> string option \<Rightarrow> string option \<Rightarrow> int option
   \<Rightarrow> catalog \<Rightarrow> (api_key_row \<times> string \<times> catalog) result" where
  "create_api_key now key_id random sha workspace_id environment_id label kind_text expires_in db =
     (case kind_of_text kind_text of
        None \<Rightarrow> Inl (bad_request ''kind must be write or read'')
      | Some kind \<Rightarrow>
          result_bind (key_expiry now expires_in) (\<lambda>expires_at.
            if \<not> (\<exists>e \<in> set (ca_environments db). en_id e = environment_id \<and> en_workspace e = workspace_id)
            then Inl (not_found ''Product environment not found'')
            else if length (live_keys now environment_id kind db) \<ge> KEY_LIMIT
            then Inl (conflict ''Revoke an existing API key before creating another'')
            else
              (let secret = new_secret kind key_id environment_id random;
                   row = new_key_row now sha key_id workspace_id environment_id (label_or_default label)
                           kind secret expires_at
               in result_bind (insert_key row db) (\<lambda>db'. Inr (row, secret, db')))))"

definition revoke_api_key :: "time \<Rightarrow> uuid \<Rightarrow> uuid \<Rightarrow> catalog \<Rightarrow> catalog result" where
  "revoke_api_key now workspace_id key_id db =
     (let p = (\<lambda>k. ak_id k = key_id \<and> ak_workspace k = workspace_id \<and> ak_revoked_at k = None)
      in if rows_affected p (ca_keys db) = 0 then Inl (not_found ''API key not found'')
         else Inr (db\<lparr>ca_keys := update_where p (\<lambda>k. k\<lparr>ak_revoked_at := Some now\<rparr>) (ca_keys db)\<rparr>))"

definition shorten_expiry :: "time \<Rightarrow> api_key_row \<Rightarrow> api_key_row" where
  "shorten_expiry t k =
     k\<lparr>ak_expires_at :=
        (case ak_expires_at k of None \<Rightarrow> Some t | Some e \<Rightarrow> if e > t then Some t else Some e)\<rparr>"

definition rotate_api_key ::
  "time \<Rightarrow> uuid \<Rightarrow> string \<Rightarrow> (string \<Rightarrow> string) \<Rightarrow> uuid \<Rightarrow> uuid \<Rightarrow> catalog
   \<Rightarrow> (api_key_row \<times> string \<times> time \<times> catalog) result" where
  "rotate_api_key now successor_id random sha workspace_id key_id db =
     (case find (\<lambda>k. ak_id k = key_id \<and> ak_workspace k = workspace_id \<and> live_key now k) (ca_keys db) of
        None \<Rightarrow> Inl (not_found ''API key not found'')
      | Some old \<Rightarrow>
          (let secret = new_secret (ak_kind old) successor_id (ak_environment old) random;
               expires_at = (if ak_kind old = Read_Key then Some (now + days 90) else None);
               row = new_key_row now sha successor_id workspace_id (ak_environment old)
                       (label_or_default (Some (ak_label old))) (ak_kind old) secret expires_at;
               overlap = now + hours 1
           in result_bind (insert_key row db) (\<lambda>db'.
                Inr (row, secret, overlap,
                     db'\<lparr>ca_keys := update_where (\<lambda>k. ak_id k = key_id \<and> ak_workspace k = workspace_id)
                       (shorten_expiry overlap) (ca_keys db')\<rparr>))))"

section \<open>Authenticating a request by its key\<close>

definition invalid_api_key :: api_error where
  "invalid_api_key = api_error_new 401 ''Invalid API key''"

definition expired_api_key :: api_error where
  "expired_api_key = api_error_new 401 ''API key expired''"

definition product_auth_for_key ::
  "time \<Rightarrow> string \<Rightarrow> key_kind option \<Rightarrow> catalog \<Rightarrow> (product_auth \<times> catalog) result" where
  "product_auth_for_key now key_hash required_kind db =
     (case find (\<lambda>k. ak_hash k = key_hash \<and> ak_revoked_at k = None \<and> opt_all (\<lambda>q. ak_kind k = q) required_kind)
             (ca_keys db) of
        None \<Rightarrow> Inl invalid_api_key
      | Some k \<Rightarrow>
          if \<not> opt_all (\<lambda>t. t > now) (ak_expires_at k) then Inl expired_api_key
          else if ak_workspace k \<notin> set (ca_workspaces db) then Inl internal_error
          else
            (case find (\<lambda>e. en_id e = ak_environment k \<and> en_workspace e = ak_workspace k) (ca_environments db) of
               None \<Rightarrow> Inl internal_error
             | Some e \<Rightarrow>
                 Inr (\<lparr>pa_workspace = ak_workspace k, pa_environment = e, pa_key = ak_id k\<rparr>,
                      db\<lparr>ca_keys := update_where (\<lambda>k. ak_hash k = key_hash)
                        (\<lambda>k. k\<lparr>ak_last_used_at := Some now\<rparr>) (ca_keys db)\<rparr>)))"

text \<open>\<open>bearer\<close> is the token of the request's \<open>Authorization\<close> header.\<close>

definition agent_product_auth ::
  "time \<Rightarrow> (string \<Rightarrow> string) \<Rightarrow> string option \<Rightarrow> catalog \<Rightarrow> (product_auth \<times> catalog) result" where
  "agent_product_auth now sha bearer db =
     (case bearer of
        Some token \<Rightarrow>
          if starts_with ''af_live_'' token then product_auth_for_key now (sha token) None db
          else Inl invalid_api_key
      | None \<Rightarrow> Inl invalid_api_key)"

definition read_product_auth ::
  "time \<Rightarrow> (string \<Rightarrow> string) \<Rightarrow> string option \<Rightarrow> catalog \<Rightarrow> (product_auth \<times> catalog) result" where
  "read_product_auth now sha bearer db =
     (case bearer of
        Some token \<Rightarrow>
          if starts_with ''af_read_'' token then product_auth_for_key now (sha token) (Some Read_Key) db
          else Inl invalid_api_key
      | None \<Rightarrow> Inl invalid_api_key)"

end
