(* ===== verification/ApiKeyFacts.thy ===== *)
theory ApiKeyFacts
  imports ApiKeys
begin

text \<open>
  What holds of products and API keys after any sequence of operations, and what authentication by
  a key and the rotation of a key promise.
\<close>

section \<open>Constraints and reachable catalogs\<close>

text \<open>
  \<open>key_ok\<close>: a key belongs to an environment of its own team, and its hash is the hash of a secret
  that starts with the prefix of its kind.
\<close>

definition key_ok :: "(string \<Rightarrow> string) \<Rightarrow> catalog \<Rightarrow> api_key_row \<Rightarrow> bool" where
  "key_ok sha db k \<longleftrightarrow> ak_workspace k \<in> set (ca_workspaces db)
     \<and> (\<exists>e \<in> set (ca_environments db). en_id e = ak_environment k \<and> en_workspace e = ak_workspace k)
     \<and> (\<exists>secret. starts_with (key_prefix (ak_kind k)) secret \<and> ak_hash k = sha secret)"

definition products_of :: "uuid \<Rightarrow> catalog \<Rightarrow> catalog_product list" where
  "products_of workspace_id db = filter (\<lambda>p. cp_workspace p = workspace_id) (ca_products db)"

definition catalog_inv :: "(string \<Rightarrow> string) \<Rightarrow> (string \<Rightarrow> string) \<Rightarrow> catalog \<Rightarrow> bool" where
  "catalog_inv sha sql_lower db \<longleftrightarrow>
     distinct (map ak_id (ca_keys db)) \<and> distinct (map ak_hash (ca_keys db))
     \<and> distinct (map en_id (ca_environments db)) \<and> distinct (map cp_id (ca_products db))
     \<and> (\<forall>k \<in> set (ca_keys db). key_ok sha db k)
     \<and> (\<forall>w. length (products_of w db) \<le> PRODUCT_LIMIT
           \<and> distinct (map (\<lambda>p. sql_lower (cp_name p)) (products_of w db)))
     \<and> (\<forall>e \<in> set (ca_environments db). en_workspace e \<in> set (ca_workspaces db)
           \<and> (\<exists>p \<in> set (ca_products db). cp_id p = en_product e))
     \<and> (\<forall>p \<in> set (ca_products db). cp_workspace p \<in> set (ca_workspaces db))"

inductive catalog_step ::
  "(string \<Rightarrow> string) \<Rightarrow> (string \<Rightarrow> string) \<Rightarrow> (string \<Rightarrow> string) \<Rightarrow> catalog \<Rightarrow> catalog \<Rightarrow> bool"
  for sha lower sql_lower
where
  new_team: "catalog_step sha lower sql_lower db (db\<lparr>ca_workspaces := w # ca_workspaces db\<rparr>)"
| create: "create_product now p e s lower sql_lower w name db = Inr (x, y, db') \<Longrightarrow>
    catalog_step sha lower sql_lower db db'"
| create_keyed: "create_product_with_default_key now p e s k random sha lower sql_lower w name db
      = Inr (x, y, z, secret, db') \<Longrightarrow> catalog_step sha lower sql_lower db db'"
| rename: "rename_product now s lower sql_lower w p name db = Inr (x, db') \<Longrightarrow>
    catalog_step sha lower sql_lower db db'"
| delete: "delete_product w p confirmation db = Inr (x, db') \<Longrightarrow> catalog_step sha lower sql_lower db db'"
| new_key: "create_api_key now k random sha w e label kind expires db = Inr (x, secret, db') \<Longrightarrow>
    catalog_step sha lower sql_lower db db'"
| revoke: "revoke_api_key now w k db = Inr db' \<Longrightarrow> catalog_step sha lower sql_lower db db'"
| rotate: "rotate_api_key now k random sha w old db = Inr (x, secret, t, db') \<Longrightarrow>
    catalog_step sha lower sql_lower db db'"
| agent: "agent_product_auth now sha bearer db = Inr (auth, db') \<Longrightarrow> catalog_step sha lower sql_lower db db'"
| reader: "read_product_auth now sha bearer db = Inr (auth, db') \<Longrightarrow> catalog_step sha lower sql_lower db db'"
| activity: "catalog_step sha lower sql_lower db (record_product_activation now w p o' c r db)"

subsection \<open>Keys\<close>

text \<open>Only the keys change, and each of them keeps what identifies it.\<close>

definition key_identity :: "api_key_row \<Rightarrow> uuid \<times> uuid \<times> uuid \<times> key_kind \<times> string" where
  "key_identity k = (ak_id k, ak_workspace k, ak_environment k, ak_kind k, ak_hash k)"

lemma key_ok_cong:
  "key_identity k = key_identity k' \<Longrightarrow> key_ok sha db k = key_ok sha db k'"
  by (auto simp: key_ok_def key_identity_def)

lemma key_ok_db:
  "ca_workspaces db' = ca_workspaces db \<Longrightarrow> ca_environments db' = ca_environments db \<Longrightarrow>
   key_ok sha db' k = key_ok sha db k"
  by (simp add: key_ok_def)

lemma inv_update_keys:
  assumes inv: "catalog_inv sha sql_lower db" and f: "\<And>k. p k \<Longrightarrow> key_identity (f k) = key_identity k"
  shows "catalog_inv sha sql_lower (db\<lparr>ca_keys := update_where p f (ca_keys db)\<rparr>)"
proof -
  have ids: "map key_identity (update_where p f (ca_keys db)) = map key_identity (ca_keys db)"
    using f by (rule update_where_keys)
  have "map ak_id (update_where p f (ca_keys db)) = map ak_id (ca_keys db)"
    "map ak_hash (update_where p f (ca_keys db)) = map ak_hash (ca_keys db)"
    using f by (auto intro!: update_where_keys simp: key_identity_def)
  moreover have "key_ok sha db k" if k: "k \<in> set (update_where p f (ca_keys db))" for k
  proof -
    obtain k' where k': "k' \<in> set (ca_keys db)" "k = (if p k' then f k' else k')"
      using k unfolding update_where_def set_map by blast
    then have "key_identity k = key_identity k'" using f by simp
    note k'(1) this
    with inv show ?thesis using key_ok_cong [of k k' sha db] by (simp add: catalog_inv_def)
  qed
  ultimately show ?thesis
    using inv by (simp add: catalog_inv_def products_of_def key_ok_db [of "db\<lparr>ca_keys := update_where p f (ca_keys db)\<rparr>" db])
qed

lemma insert_key_inv:
  assumes inv: "catalog_inv sha sql_lower db" and ins: "insert_key row db = Inr db'" and ok: "key_ok sha db row"
  shows "catalog_inv sha sql_lower db'"
proof -
  have "ak_id row \<notin> ak_id ` set (ca_keys db)" "ak_hash row \<notin> ak_hash ` set (ca_keys db)"
    and db': "db' = db\<lparr>ca_keys := ca_keys db @ [row]\<rparr>"
    using ins by (auto simp: insert_key_def list_ex_iff key_clash_def split: if_split_asm)
  with inv ok show ?thesis by (auto simp: catalog_inv_def products_of_def key_ok_def)
qed

lemma starts_with_append [simp]: "starts_with p (p @ s)"
  by (simp add: starts_with_def)

lemma new_secret_prefix: "starts_with (key_prefix kind) (new_secret kind k e random)"
  by (simp add: new_secret_def del: key_prefix.simps)

lemma new_key_simps [simp]:
  "ak_id (new_key_row now sha k w e label kind secret t) = k"
  "ak_workspace (new_key_row now sha k w e label kind secret t) = w"
  "ak_environment (new_key_row now sha k w e label kind secret t) = e"
  "ak_kind (new_key_row now sha k w e label kind secret t) = kind"
  "ak_hash (new_key_row now sha k w e label kind secret t) = sha secret"
  "ak_revoked_at (new_key_row now sha k w e label kind secret t) = None"
  "ak_expires_at (new_key_row now sha k w e label kind secret t) = t"
  by (simp_all add: new_key_row_def)

lemma create_key_inv:
  assumes inv: "catalog_inv sha sql_lower db"
    and run: "create_api_key now k random sha w e label kind_text expires db = Inr (row, secret, db')"
  shows "catalog_inv sha sql_lower db'"
proof -
  obtain kind t where row: "\<exists>x \<in> set (ca_environments db). en_id x = e \<and> en_workspace x = w"
      "row = new_key_row now sha k w e (label_or_default label) kind (new_secret kind k e random) t"
      "insert_key row db = Inr db'"
    using run
    by (auto simp: create_api_key_def result_bind_Inr Let_def split: option.split_asm if_split_asm)
  from row(1) obtain x where x: "x \<in> set (ca_environments db)" "en_id x = e" "en_workspace x = w" by blast
  then have "w \<in> set (ca_workspaces db)" using inv by (auto simp: catalog_inv_def)
  then have "key_ok sha db row"
    using x new_secret_prefix [of kind k e random] unfolding key_ok_def row(2) by auto
  with inv row(3) show ?thesis by (rule insert_key_inv)
qed

lemma find_live:
  assumes "find (\<lambda>k. ak_id k = key_id \<and> ak_workspace k = w \<and> live_key now k) (ca_keys db) = Some old"
  shows "old \<in> set (ca_keys db)" "ak_id old = key_id" "ak_workspace old = w" "live_key now old"
  using assms by (auto dest!: find_SomeD)

lemma rotate_cases:
  assumes "rotate_api_key now k random sha w key_id db = Inr (row, secret, overlap, db')"
  obtains old mid where "old \<in> set (ca_keys db)" "ak_id old = key_id" "ak_workspace old = w" "live_key now old"
    "secret = new_secret (ak_kind old) k (ak_environment old) random"
    "row = new_key_row now sha k w (ak_environment old) (label_or_default (Some (ak_label old))) (ak_kind old)
       secret (if ak_kind old = Read_Key then Some (now + days 90) else None)"
    "overlap = now + hours 1" "insert_key row db = Inr mid"
    "db' = mid\<lparr>ca_keys := update_where (\<lambda>k. ak_id k = key_id \<and> ak_workspace k = w)
       (shorten_expiry overlap) (ca_keys mid)\<rparr>"
proof -
  obtain old where old: "find (\<lambda>k. ak_id k = key_id \<and> ak_workspace k = w \<and> live_key now k) (ca_keys db) = Some old"
    using assms by (auto simp: rotate_api_key_def split: option.split_asm)
  have eqs: "secret = new_secret (ak_kind old) k (ak_environment old) random"
    "row = new_key_row now sha k w (ak_environment old) (label_or_default (Some (ak_label old))) (ak_kind old)
       secret (if ak_kind old = Read_Key then Some (now + days 90) else None)"
    "overlap = now + hours 1"
    "\<exists>mid. insert_key row db = Inr mid
      \<and> db' = mid\<lparr>ca_keys := update_where (\<lambda>k. ak_id k = key_id \<and> ak_workspace k = w)
         (shorten_expiry overlap) (ca_keys mid)\<rparr>"
    using assms old by (auto simp: rotate_api_key_def Let_def result_bind_Inr)
  then obtain mid where "insert_key row db = Inr mid"
    "db' = mid\<lparr>ca_keys := update_where (\<lambda>k. ak_id k = key_id \<and> ak_workspace k = w)
       (shorten_expiry overlap) (ca_keys mid)\<rparr>" by blast
  with that [of old mid] find_live [OF old] eqs(1-3) show thesis by blast
qed

lemma shorten_identity: "key_identity (shorten_expiry t k) = key_identity k"
  by (simp add: shorten_expiry_def key_identity_def)

lemma rotate_inv:
  assumes inv: "catalog_inv sha sql_lower db"
    and run: "rotate_api_key now k random sha w key_id db = Inr (row, secret, overlap, db')"
  shows "catalog_inv sha sql_lower db'"
  using run
proof (rule rotate_cases)
  fix old mid
  assume old: "old \<in> set (ca_keys db)" "ak_id old = key_id" "ak_workspace old = w" "live_key now old"
    and secret: "secret = new_secret (ak_kind old) k (ak_environment old) random"
    and row: "row = new_key_row now sha k w (ak_environment old) (label_or_default (Some (ak_label old)))
       (ak_kind old) secret (if ak_kind old = Read_Key then Some (now + days 90) else None)"
    and ins: "insert_key row db = Inr mid"
    and db': "db' = mid\<lparr>ca_keys := update_where (\<lambda>k. ak_id k = key_id \<and> ak_workspace k = w)
       (shorten_expiry overlap) (ca_keys mid)\<rparr>"
  have "key_ok sha db old" using inv old(1) by (simp add: catalog_inv_def)
  then have "key_ok sha db row"
    using old(3) new_secret_prefix [of "ak_kind old" k "ak_environment old" random]
    unfolding key_ok_def row secret by auto
  then have "catalog_inv sha sql_lower mid" by (rule insert_key_inv [OF inv ins])
  then show ?thesis unfolding db' by (rule inv_update_keys) (rule shorten_identity)
qed

lemma revoke_inv:
  assumes inv: "catalog_inv sha sql_lower db" and run: "revoke_api_key now w k db = Inr db'"
  shows "catalog_inv sha sql_lower db'"
proof -
  have "db' = db\<lparr>ca_keys := update_where (\<lambda>r. ak_id r = k \<and> ak_workspace r = w \<and> ak_revoked_at r = None)
      (\<lambda>k. k\<lparr>ak_revoked_at := Some now\<rparr>) (ca_keys db)\<rparr>"
    using run by (auto simp: revoke_api_key_def Let_def split: if_split_asm)
  then show ?thesis using inv_update_keys [OF inv] by (simp add: key_identity_def)
qed

subsection \<open>Authentication\<close>

lemma auth_cases:
  assumes "product_auth_for_key now h kind db = Inr (auth, db')"
  obtains k e where "find (\<lambda>k. ak_hash k = h \<and> ak_revoked_at k = None \<and> opt_all (\<lambda>q. ak_kind k = q) kind)
      (ca_keys db) = Some k" "opt_all (\<lambda>t. t > now) (ak_expires_at k)"
    "e \<in> set (ca_environments db)" "en_id e = ak_environment k" "en_workspace e = ak_workspace k"
    "auth = \<lparr>pa_workspace = ak_workspace k, pa_environment = e, pa_key = ak_id k\<rparr>"
    "db' = db\<lparr>ca_keys := update_where (\<lambda>k. ak_hash k = h) (\<lambda>k. k\<lparr>ak_last_used_at := Some now\<rparr>) (ca_keys db)\<rparr>"
  using assms
  by (auto simp: product_auth_for_key_def split: option.split_asm if_split_asm dest!: find_SomeD)

lemma auth_inv:
  assumes inv: "catalog_inv sha sql_lower db" and run: "product_auth_for_key now h kind db = Inr (auth, db')"
  shows "catalog_inv sha sql_lower db'"
  using run
proof (rule auth_cases)
  assume db': "db' = db\<lparr>ca_keys := update_where (\<lambda>k. ak_hash k = h)
      (\<lambda>k. k\<lparr>ak_last_used_at := Some now\<rparr>) (ca_keys db)\<rparr>"
  show ?thesis unfolding db' by (rule inv_update_keys [OF inv]) (simp add: key_identity_def)
qed

text \<open>Given the constraints, a token is accepted exactly while its key is live.\<close>

lemma auth_ok_iff:
  assumes inv: "catalog_inv sha sql_lower db"
  shows "is_ok (product_auth_for_key now h kind db) \<longleftrightarrow>
    (\<exists>k \<in> set (ca_keys db). ak_hash k = h \<and> live_key now k \<and> opt_all (\<lambda>q. ak_kind k = q) kind)"
proof
  assume "is_ok (product_auth_for_key now h kind db)"
  then obtain x where "product_auth_for_key now h kind db = Inr x" by (auto simp: is_ok_iff)
  moreover obtain a d where "x = (a, d)" by (cases x)
  ultimately have "product_auth_for_key now h kind db = Inr (a, d)" by simp
  then show "\<exists>k \<in> set (ca_keys db). ak_hash k = h \<and> live_key now k \<and> opt_all (\<lambda>q. ak_kind k = q) kind"
    by (rule auth_cases) (auto simp: live_key_def dest!: find_SomeD)
next
  assume "\<exists>k \<in> set (ca_keys db). ak_hash k = h \<and> live_key now k \<and> opt_all (\<lambda>q. ak_kind k = q) kind"
  then obtain k where k: "k \<in> set (ca_keys db)" "ak_hash k = h" "live_key now k" "opt_all (\<lambda>q. ak_kind k = q) kind"
    by blast
  let ?p = "\<lambda>k. ak_hash k = h \<and> ak_revoked_at k = None \<and> opt_all (\<lambda>q. ak_kind k = q) kind"
  have "find ?p (ca_keys db) \<noteq> None" using k by (auto simp: find_None_iff live_key_def)
  then obtain k' where f: "find ?p (ca_keys db) = Some k'" by auto
  have "distinct (map ak_hash (ca_keys db))" using inv by (simp add: catalog_inv_def)
  then have "k' = k" using f k(1,2) by (intro distinct_map_eq [of ak_hash]) (auto dest!: find_SomeD)
  moreover have ok: "key_ok sha db k" using inv k(1) by (simp add: catalog_inv_def)
  moreover from ok have "find (\<lambda>e. en_id e = ak_environment k \<and> en_workspace e = ak_workspace k)
      (ca_environments db) \<noteq> None" by (auto simp: find_None_iff key_ok_def)
  ultimately show "is_ok (product_auth_for_key now h kind db)"
    using f k(3) by (auto simp: product_auth_for_key_def live_key_def key_ok_def)
qed

lemma auth_of_key:
  assumes inv: "catalog_inv sha sql_lower db" and k: "k \<in> set (ca_keys db)"
  shows "is_ok (product_auth_for_key now (ak_hash k) kind db) \<longleftrightarrow>
    live_key now k \<and> opt_all (\<lambda>q. ak_kind k = q) kind"
proof -
  have "distinct (map ak_hash (ca_keys db))" using inv by (simp add: catalog_inv_def)
  then have "k' = k" if "k' \<in> set (ca_keys db)" "ak_hash k' = ak_hash k" for k'
    using distinct_map_eq that k by metis
  with k show ?thesis unfolding auth_ok_iff [OF inv] by blast
qed

subsection \<open>Products\<close>

lemma inv_milestones:
  "catalog_inv sha sql_lower (db\<lparr>ca_milestones := ms\<rparr>) \<longleftrightarrow> catalog_inv sha sql_lower db"
  by (simp add: catalog_inv_def products_of_def key_ok_def)

lemma activation_is_milestones:
  "\<exists>ms. record_product_activation now w p o' c r db = db\<lparr>ca_milestones := ms\<rparr>"
  by (auto simp: record_product_activation_def Let_def)

lemma activation_inv:
  "catalog_inv sha sql_lower db \<Longrightarrow> catalog_inv sha sql_lower (record_product_activation now w p o' c r db)"
  using activation_is_milestones [of now w p o' c r db] inv_milestones by metis

lemma insert_product_inv:
  assumes inv: "catalog_inv sha sql_lower db"
    and run: "insert_product now p e s lower sql_lower refused w name db = Inr (product, environment, db')"
  shows "catalog_inv sha sql_lower db'" "environment \<in> set (ca_environments db')"
    "en_workspace environment = w" "w \<in> set (ca_workspaces db')"
proof -
  from run have w: "w \<in> set (ca_workspaces db)"
    and few: "length (products_of w db) < PRODUCT_LIMIT"
    and new: "\<not> list_ex (product_clash sql_lower product) (ca_products db)"
      "\<not> list_ex (environment_clash sql_lower environment) (ca_environments db)"
    and rows: "cp_id product = p" "cp_workspace product = w" "en_id environment = e"
      "en_workspace environment = w" "en_product environment = p"
    and db': "db' = db\<lparr>ca_products := ca_products db @ [product],
      ca_environments := ca_environments db @ [environment]\<rparr>"
    by (auto simp: insert_product_def result_bind_Inr Let_def products_of_def split: if_split_asm)
  have fresh: "p \<notin> cp_id ` set (ca_products db)" "e \<notin> en_id ` set (ca_environments db)"
    "sql_lower (cp_name product) \<notin> (\<lambda>p. sql_lower (cp_name p)) ` set (products_of w db)"
    using new rows by (auto simp: list_ex_iff product_clash_def environment_clash_def products_of_def)
  have mine: "products_of v db' = (if v = w then products_of v db @ [product] else products_of v db)" for v
    using rows by (simp add: products_of_def db')
  have "key_ok sha db' k" if "k \<in> set (ca_keys db')" for k
    using inv that unfolding catalog_inv_def key_ok_def db' by simp
  moreover have "length (products_of v db') \<le> PRODUCT_LIMIT
      \<and> distinct (map (\<lambda>p. sql_lower (cp_name p)) (products_of v db'))" for v
    using inv few fresh(3) by (auto simp: mine catalog_inv_def)
  ultimately show "catalog_inv sha sql_lower db'"
    using inv w rows fresh(1,2) unfolding catalog_inv_def db' by auto
  show "environment \<in> set (ca_environments db')" "en_workspace environment = w" "w \<in> set (ca_workspaces db')"
    using w rows by (simp_all add: db')
qed

lemma create_product_inv:
  assumes inv: "catalog_inv sha sql_lower db"
    and run: "create_product now p e s lower sql_lower w name db = Inr (x, y, db')"
  shows "catalog_inv sha sql_lower db'"
  using run insert_product_inv(1) [OF inv] activation_inv
  by (auto simp: create_product_def result_bind_Inr)

lemma create_keyed_inv:
  assumes inv: "catalog_inv sha sql_lower db"
    and run: "create_product_with_default_key now p e s k random sha lower sql_lower w name db
      = Inr (x, y, row, secret, db')"
  shows "catalog_inv sha sql_lower db'"
proof -
  obtain mid mid' where r: "insert_product now p e s lower sql_lower internal_error w name db = Inr (x, y, mid)"
      "row = new_key_row now sha k w (en_id y) ''Default product key'' Write_Key (write_secret k (en_id y) random) None"
      "insert_key row mid = Inr mid'" "db' = record_product_activation now w (cp_id x) False False False mid'"
    using run by (auto simp: create_product_with_default_key_def Let_def split: sum.split_asm)
  note i = insert_product_inv [OF inv r(1)]
  have "starts_with (key_prefix Write_Key) (write_secret k (en_id y) random)"
    unfolding write_secret_def key_prefix.simps by (rule starts_with_append)
  then have "key_ok sha mid row" using i(2-4) unfolding key_ok_def r(2) by auto
  with i(1) r(3) have "catalog_inv sha sql_lower mid'" by (rule insert_key_inv)
  then show ?thesis unfolding r(4) by (rule activation_inv)
qed

lemma rename_product_inv:
  assumes inv: "catalog_inv sha sql_lower db"
    and run: "rename_product now s lower sql_lower w p name db = Inr (x, db')"
  shows "catalog_inv sha sql_lower db'"
proof -
  obtain name' old where r: "find (\<lambda>q. cp_id q = p \<and> cp_workspace q = w) (ca_products db) = Some old"
    "x = old\<lparr>cp_name := name', cp_slug := slug lower s name', cp_updated_at := now\<rparr>"
    "\<not> list_ex (\<lambda>o'. cp_id o' \<noteq> p \<and> product_clash sql_lower x o') (ca_products db)"
    "db' = db\<lparr>ca_products := update_where (\<lambda>q. cp_id q = p \<and> cp_workspace q = w)
      (\<lambda>q. q\<lparr>cp_name := name', cp_slug := slug lower s name', cp_updated_at := now\<rparr>) (ca_products db)\<rparr>"
    using run
    by (auto simp: rename_product_def result_bind_Inr Let_def split: option.split_asm if_split_asm)
  define f where "f = (\<lambda>q :: catalog_product. q\<lparr>cp_name := name', cp_slug := slug lower s name', cp_updated_at := now\<rparr>)"
  let ?q = "\<lambda>q. cp_id q = p \<and> cp_workspace q = w"
  have db': "db' = db\<lparr>ca_products := update_where ?q f (ca_products db)\<rparr>" using r(4) by (simp add: f_def)
  have old: "old \<in> set (ca_products db)" "cp_id old = p" "cp_workspace old = w" using r(1) by (auto dest!: find_SomeD)
  have keep: "cp_id (f q) = cp_id q" "cp_workspace (f q) = cp_workspace q" for q by (simp_all add: f_def)
  have dist: "distinct (map cp_id (ca_products db))" using inv by (simp add: catalog_inv_def)
  have mine: "products_of v db' = update_where ?q f (products_of v db)" for v
  proof -
    have "filter (\<lambda>p. cp_workspace p = v) (update_where ?q f ps)
        = update_where ?q f (filter (\<lambda>p. cp_workspace p = v) ps)" for ps
      by (induction ps) (auto simp: update_where_def keep)
    then show ?thesis by (simp add: products_of_def db')
  qed
  have names: "distinct (map (\<lambda>p. sql_lower (cp_name p)) (update_where ?q f (products_of v db)))" for v
  proof -
    let ?g = "\<lambda>p. sql_lower (cp_name p)" and ?ps = "products_of v db"
    have d: "distinct (map ?g ?ps)" "distinct ?ps"
      using inv dist by (auto simp: catalog_inv_def products_of_def distinct_map)
    have "inj_on (\<lambda>q. ?g (if ?q q then f q else q)) (set ?ps)"
    proof (rule inj_onI)
      fix a b
      assume ab: "a \<in> set ?ps" "b \<in> set ?ps" "?g (if ?q a then f a else a) = ?g (if ?q b then f b else b)"
      have clash: "?g x \<noteq> ?g o'" if "o' \<in> set ?ps" "cp_id o' \<noteq> p" "v = w" for o'
      proof -
        have o': "o' \<in> set (ca_products db)" "cp_workspace o' = w" using that by (auto simp: products_of_def)
        then have "\<not> product_clash sql_lower x o'" using r(3) that(2) by (auto simp: list_ex_iff)
        moreover have "cp_workspace x = w" by (simp add: r(2) old(3))
        ultimately show ?thesis unfolding product_clash_def using o'(2) by metis
      qed
      have fx: "?g (f q) = ?g x" for q by (simp add: f_def r(2))
      have mem: "a \<in> set (ca_products db)" "b \<in> set (ca_products db)" "cp_workspace a = v" "cp_workspace b = v"
        using ab by (auto simp: products_of_def)
      consider "?q a" "?q b" | "?q a" "\<not> ?q b" | "\<not> ?q a" "?q b" | "\<not> ?q a" "\<not> ?q b" by blast
      then show "a = b"
      proof cases
        case 1
        then show ?thesis using distinct_map_eq [OF dist mem(1,2)] by simp
      next
        case 2
        then have "v = w" "cp_id b \<noteq> p" using mem by auto
        from clash [OF ab(2) this(2,1)] ab(3) [unfolded if_P [OF 2(1)] if_not_P [OF 2(2)] fx]
        show ?thesis by blast
      next
        case 3
        then have "v = w" "cp_id a \<noteq> p" using mem by auto
        from clash [OF ab(1) this(2,1)] ab(3) [unfolded if_P [OF 3(2)] if_not_P [OF 3(1)] fx]
        show ?thesis by metis
      next
        case 4
        note ab(3) [unfolded if_not_P [OF 4(1)] if_not_P [OF 4(2)]]
        with d(1) ab(1,2) show ?thesis by (auto simp: distinct_map dest: inj_onD)
      qed
    qed
    with d(2) show ?thesis by (simp add: update_where_def distinct_map comp_def)
  qed
  have ids: "map cp_id (ca_products db') = map cp_id (ca_products db)"
    by (simp add: db' update_where_keys keep)
  have "cp_workspace q \<in> set (ca_workspaces db)" if "q \<in> set (ca_products db')" for q
    using that inv by (auto simp: db' row_simps keep catalog_inv_def)
  moreover have "\<exists>q \<in> set (ca_products db'). cp_id q = i" if "\<exists>q \<in> set (ca_products db). cp_id q = i" for i
    using that ids by (metis image_iff list.set_map)
  ultimately show ?thesis
    using inv names ids by (simp add: catalog_inv_def mine key_ok_def) (simp add: db' key_ok_def)
qed

lemma delete_product_inv:
  assumes inv: "catalog_inv sha sql_lower db" and run: "delete_product w p confirmation db = Inr (x, db')"
  shows "catalog_inv sha sql_lower db'"
proof -
  let ?gone = "\<lambda>k. \<exists>e \<in> set (ca_environments db). en_product e = p \<and> en_id e = ak_environment k"
  have db': "db' = db\<lparr>ca_products := delete_where (\<lambda>q. cp_id q = p) (ca_products db),
      ca_environments := delete_where (\<lambda>e. en_product e = p) (ca_environments db),
      ca_milestones := delete_where (\<lambda>m. ms_product m = p) (ca_milestones db),
      ca_keys := delete_where ?gone (ca_keys db)\<rparr>"
    using run by (auto simp: delete_product_def Let_def split: option.split_asm if_split_asm)
  have mine: "products_of v db' = delete_where (\<lambda>q. cp_id q = p) (products_of v db)" for v
    by (simp add: products_of_def db' delete_where_def conj_commute)
  have "key_ok sha db' k" if "k \<in> set (ca_keys db')" for k
  proof -
    from that have k: "k \<in> set (ca_keys db)" "\<not> ?gone k" by (auto simp: db' row_simps)
    then have ok: "key_ok sha db k" using inv by (simp add: catalog_inv_def)
    then obtain e where e: "e \<in> set (ca_environments db)" "en_id e = ak_environment k"
        "en_workspace e = ak_workspace k" by (auto simp: key_ok_def)
    then have "e \<in> set (ca_environments db')" using k(2) by (auto simp: db' row_simps)
    moreover have "ca_workspaces db' = ca_workspaces db" by (simp add: db')
    ultimately show ?thesis using ok e unfolding key_ok_def by auto
  qed
  moreover have "length (products_of v db') \<le> PRODUCT_LIMIT
      \<and> distinct (map (\<lambda>p. sql_lower (cp_name p)) (products_of v db'))" for v
    using inv order_trans [OF length_filter_le [of _ "products_of v db"]]
    by (simp add: mine catalog_inv_def delete_where_distinct) (simp add: delete_where_def)
  moreover have "\<exists>q \<in> set (ca_products db'). cp_id q = en_product e"
    if "e \<in> set (ca_environments db')" for e
  proof -
    have e: "e \<in> set (ca_environments db)" "en_product e \<noteq> p" using that by (auto simp: db' row_simps)
    then obtain q where "q \<in> set (ca_products db)" "cp_id q = en_product e"
      using inv by (auto simp: catalog_inv_def)
    with e(2) show ?thesis by (intro bexI [of _ q]) (auto simp: db' row_simps)
  qed
  ultimately show ?thesis
    using inv unfolding catalog_inv_def
    by (simp add: db' delete_where_distinct) (simp add: row_simps)
qed

lemma catalog_step_inv:
  "catalog_step sha lower sql_lower db db' \<Longrightarrow> catalog_inv sha sql_lower db \<Longrightarrow> catalog_inv sha sql_lower db'"
proof (induction rule: catalog_step.induct)
  case (new_team db w)
  then show ?case by (auto simp: catalog_inv_def products_of_def key_ok_def)
next
  case (agent now bearer db auth db')
  then show ?case
    by (auto simp: agent_product_auth_def intro: auth_inv split: option.split_asm if_split_asm)
next
  case (reader now bearer db auth db')
  then show ?case
    by (auto simp: read_product_auth_def intro: auth_inv split: option.split_asm if_split_asm)
qed (blast intro: create_product_inv create_keyed_inv rename_product_inv delete_product_inv
    create_key_inv revoke_inv rotate_inv activation_inv)+

definition catalog_reachable ::
  "(string \<Rightarrow> string) \<Rightarrow> (string \<Rightarrow> string) \<Rightarrow> (string \<Rightarrow> string) \<Rightarrow> catalog \<Rightarrow> bool" where
  "catalog_reachable sha lower sql_lower db \<longleftrightarrow>
     (catalog_step sha lower sql_lower)\<^sup>*\<^sup>*
       \<lparr>ca_workspaces = [], ca_products = [], ca_environments = [], ca_milestones = [], ca_keys = []\<rparr> db"

lemma reachable_catalog_inv:
  assumes "catalog_reachable sha lower sql_lower db"
  shows "catalog_inv sha sql_lower db"
  using assms unfolding catalog_reachable_def
proof (induction rule: rtranclp_induct)
  case base
  then show ?case by (simp add: catalog_inv_def products_of_def)
next
  case (step y z)
  then show ?case by (blast intro: catalog_step_inv)
qed

section \<open>Guarantees\<close>

text \<open>In every reachable catalog a token that authenticates belongs to a live key of the kind its caller needs, the request is confined to the environment and team of that key.\<close>
theorem authentication_is_confined_to_a_live_key:
  assumes reach: "catalog_reachable sha lower sql_lower db" and "inj sha"
    and run: "agent_product_auth now sha bearer db = Inr (auth, db') \<and> kind = Write_Key
      \<or> read_product_auth now sha bearer db = Inr (auth, db') \<and> kind = Read_Key"
  shows "\<exists>token k. bearer = Some token \<and> k \<in> set (ca_keys db) \<and> ak_hash k = sha token \<and> live_key now k
      \<and> ak_kind k = kind \<and> pa_key auth = ak_id k \<and> pa_workspace auth = ak_workspace k
      \<and> en_id (pa_environment auth) = ak_environment k \<and> en_workspace (pa_environment auth) = ak_workspace k
      \<and> pa_environment auth \<in> set (ca_environments db)"
proof -
  have inv: "catalog_inv sha sql_lower db" by (rule reachable_catalog_inv [OF reach])
  obtain token q where t: "bearer = Some token" "starts_with (key_prefix kind) token"
      "product_auth_for_key now (sha token) q db = Inr (auth, db')"
    using run
    by (auto simp: agent_product_auth_def read_product_auth_def split: option.split_asm if_split_asm)
  from t(3) obtain k e where k: "k \<in> set (ca_keys db)" "ak_hash k = sha token" "live_key now k"
      "e \<in> set (ca_environments db)" "en_id e = ak_environment k" "en_workspace e = ak_workspace k"
      "auth = \<lparr>pa_workspace = ak_workspace k, pa_environment = e, pa_key = ak_id k\<rparr>"
    by (rule auth_cases) (auto simp: live_key_def dest!: find_SomeD)
  have "key_ok sha db k" using inv k(1) by (simp add: catalog_inv_def)
  then obtain secret where s: "starts_with (key_prefix (ak_kind k)) secret" "ak_hash k = sha secret"
    by (auto simp: key_ok_def)
  with k(2) have "secret = token" using \<open>inj sha\<close> by (auto dest: injD)
  then have "ak_kind k = kind"
    using s(1) t(2) by (cases "ak_kind k"; cases kind) (auto simp: starts_with_def dest: arg_cong [of _ _ "take 8"])
  with k t(1) show ?thesis by (intro exI [of _ token] exI [of _ k]) simp
qed

lemma products_within_limit:
  "catalog_reachable sha lower sql_lower db \<Longrightarrow>
   length (products_of w db) \<le> 25 \<and> distinct (map (\<lambda>p. sql_lower (cp_name p)) (products_of w db))"
  using reachable_catalog_inv [of sha lower sql_lower db] by (auto simp: catalog_inv_def PRODUCT_LIMIT_def)

text \<open>
  Rotation: what the shortened expiry does to the liveness of the rotated key, and what the new
  row adds.
\<close>

lemma live_shorten: "live_key t (shorten_expiry s k) \<longleftrightarrow> live_key t k \<and> t < s"
  by (auto simp: live_key_def shorten_expiry_def split: option.split)

lemma live_keys_rotated:
  assumes "now < s" "\<And>k. p k \<Longrightarrow> key_identity (f k) = key_identity k"
    and f: "\<And>k. live_key now (f k) \<longleftrightarrow> live_key now k"
  shows "length (live_keys now e kind (db\<lparr>ca_keys := update_where p f ks\<rparr>))
    = length (live_keys now e kind (db\<lparr>ca_keys := ks\<rparr>))"
proof -
  have "ak_environment (if p k then f k else k) = ak_environment k"
    "ak_kind (if p k then f k else k) = ak_kind k" for k
    using assms(2) [of k] by (auto simp: key_identity_def)
  then show ?thesis
    by (simp add: live_keys_def update_where_def filter_map comp_def if_distrib [of "live_key now"] f cong: if_cong)
qed

text \<open>C32. Rotating a live key keeps it accepted for one more hour at most and never longer than before, gives a secret that is accepted for 90 days when the key was a read key and without end when it was a write key, and leaves one live key more than there was, whatever the number of live keys.\<close>
theorem rotation_overlaps_for_an_hour:
  assumes inv: "catalog_inv sha sql_lower db"
    and run: "rotate_api_key now k random sha w key_id db = Inr (row, secret, overlap, db')"
    and old: "old \<in> set (ca_keys db)" "ak_id old = key_id"
  shows "(\<forall>t \<ge> now. is_ok (product_auth_for_key t (ak_hash old) kind db') \<longleftrightarrow>
            is_ok (product_auth_for_key t (ak_hash old) kind db) \<and> t < now + hours 1)
    \<and> (\<forall>t \<ge> now. is_ok (product_auth_for_key t (sha secret) None db') \<longleftrightarrow>
            ak_kind old = Write_Key \<or> t < now + days 90)
    \<and> length (live_keys now (ak_environment old) (ak_kind old) db')
        = Suc (length (live_keys now (ak_environment old) (ak_kind old) db))"
proof -
  have inv': "catalog_inv sha sql_lower db'" by (rule rotate_inv [OF inv run])
  obtain o' mid where o': "o' \<in> set (ca_keys db)" "ak_id o' = key_id" "ak_workspace o' = w" "live_key now o'"
    "row = new_key_row now sha k w (ak_environment o') (label_or_default (Some (ak_label o'))) (ak_kind o')
       secret (if ak_kind o' = Read_Key then Some (now + days 90) else None)"
    "overlap = now + hours 1" "insert_key row db = Inr mid"
    "db' = mid\<lparr>ca_keys := update_where (\<lambda>k. ak_id k = key_id \<and> ak_workspace k = w)
       (shorten_expiry overlap) (ca_keys mid)\<rparr>"
    using run by (rule rotate_cases)
  have "distinct (map ak_id (ca_keys db))" using inv by (simp add: catalog_inv_def)
  then have o: "o' = old" using distinct_map_eq [of ak_id "ca_keys db" o' old] o'(1,2) old by simp
  have mid: "mid = db\<lparr>ca_keys := ca_keys db @ [row]\<rparr>" and new: "\<not> list_ex (key_clash row) (ca_keys db)"
    using o'(7) by (auto simp: insert_key_def split: if_split_asm)
  let ?p = "\<lambda>k. ak_id k = key_id \<and> ak_workspace k = w"
  have fresh: "ak_id row \<noteq> key_id" "ak_hash row \<noteq> ak_hash old"
    using new old by (auto simp: list_ex_iff key_clash_def)
  have keys': "ca_keys db' = update_where ?p (shorten_expiry overlap) (ca_keys db) @ [row]"
    using fresh by (simp add: o'(8) mid update_where_def)
  have short_mem: "shorten_expiry overlap old \<in> set (ca_keys db')"
    using old o'(3) by (auto simp: keys' row_simps o)
  have simps: "ak_hash (shorten_expiry overlap old) = ak_hash old" "ak_kind (shorten_expiry overlap old) = ak_kind old"
    using shorten_identity [of overlap old] by (simp_all add: key_identity_def)
  have one: "is_ok (product_auth_for_key t (ak_hash old) kind db') \<longleftrightarrow>
      is_ok (product_auth_for_key t (ak_hash old) kind db) \<and> t < now + hours 1" for t
  proof -
    have "is_ok (product_auth_for_key t (ak_hash old) kind db') \<longleftrightarrow>
        live_key t (shorten_expiry overlap old) \<and> opt_all (\<lambda>q. ak_kind old = q) kind"
      using auth_of_key [OF inv' short_mem] unfolding simps .
    moreover have "is_ok (product_auth_for_key t (ak_hash old) kind db) \<longleftrightarrow>
        live_key t old \<and> opt_all (\<lambda>q. ak_kind old = q) kind"
      by (rule auth_of_key [OF inv old(1)])
    ultimately show ?thesis by (auto simp: live_shorten o'(6))
  qed
  have row_mem: "row \<in> set (ca_keys db')" by (simp add: keys')
  have two: "is_ok (product_auth_for_key t (sha secret) None db') \<longleftrightarrow> ak_kind old = Write_Key \<or> t < now + days 90"
    if "t \<ge> now" for t
  proof -
    have "ak_hash row = sha secret" by (simp add: o'(5))
    then have "is_ok (product_auth_for_key t (sha secret) None db') \<longleftrightarrow> live_key t row"
      using auth_of_key [OF inv' row_mem, of t None] by simp
    then show ?thesis using o by (cases "ak_kind old") (auto simp: o'(5) live_key_def)
  qed
  have "live_key now (shorten_expiry overlap k) \<longleftrightarrow> live_key now k" for k
    by (simp add: live_shorten o'(6) hours_def minutes_def seconds_def)
  then have "length (live_keys now (ak_environment old) (ak_kind old) db')
      = length (live_keys now (ak_environment old) (ak_kind old) mid)"
    using live_keys_rotated [where now = now and s = overlap and p = ?p and f = "shorten_expiry overlap"
        and e = "ak_environment old" and kind = "ak_kind old" and db = mid and ks = "ca_keys mid"] shorten_identity
    by (simp add: o'(6,8) hours_def minutes_def seconds_def)
  moreover have "live_key now row"
    by (simp add: o'(5) live_key_def days_def hours_def minutes_def seconds_def)
  ultimately have three: "length (live_keys now (ak_environment old) (ak_kind old) db')
      = Suc (length (live_keys now (ak_environment old) (ak_kind old) db))"
    using o by (simp add: live_keys_def mid o'(5))
  from one two three show ?thesis by blast
qed

section \<open>Activation milestones are first times\<close>

text \<open>What the callers of \<open>record_product_activation\<close> observe: a time and the three flags.\<close>

type_synonym activity = "time \<times> bool \<times> bool \<times> bool"

definition record_activities :: "uuid \<Rightarrow> uuid \<Rightarrow> activity list \<Rightarrow> catalog \<Rightarrow> catalog" where
  "record_activities w p acts db =
     fold (\<lambda>(now, opp, conf, rep). record_product_activation now w p opp conf rep) acts db"

definition first_time :: "(activity \<Rightarrow> bool) \<Rightarrow> activity list \<Rightarrow> time option" where
  "first_time P acts = map_option fst (find P acts)"

definition milestones_are :: "uuid \<Rightarrow> catalog \<Rightarrow> (time option \<times> time option \<times> time option) option \<Rightarrow> bool" where
  "milestones_are p db x \<longleftrightarrow>
     map_option (\<lambda>m. (ms_first_opportunity_at m, ms_first_confirmed_at m, ms_first_report_at m))
       (find (\<lambda>m. ms_product m = p) (ca_milestones db)) = x"

lemma milestone_merge_fields:
  "ms_first_opportunity_at (milestone_merge now new old)
     = coalesce (ms_first_opportunity_at old) (ms_first_opportunity_at new)"
  "ms_first_confirmed_at (milestone_merge now new old)
     = coalesce (ms_first_confirmed_at old) (ms_first_confirmed_at new)"
  "ms_first_report_at (milestone_merge now new old)
     = coalesce (ms_first_report_at old) (ms_first_report_at new)"
  "ms_product (milestone_merge now new old) = ms_product old"
  by (auto simp: milestone_merge_def coalesce_def split: option.splits)

lemma record_activation_step:
  assumes "milestones_are p db x"
  shows "milestones_are p (record_product_activation now w p opp conf rep db)
    (case x of
       None \<Rightarrow> Some (stamp (opp \<or> conf \<or> rep) now, stamp (conf \<or> rep) now, stamp rep now)
     | Some (a, b, c) \<Rightarrow> Some (coalesce a (stamp (opp \<or> conf \<or> rep) now), coalesce b (stamp (conf \<or> rep) now),
                              coalesce c (stamp rep now)))"
proof (cases "find (\<lambda>m. ms_product m = p) (ca_milestones db)")
  case None
  then have "\<not> list_ex (\<lambda>m. ms_product m = p) (ca_milestones db)" by (auto simp: list_ex_iff find_None_iff)
  with None assms show ?thesis
    by (simp add: record_product_activation_def Let_def milestones_are_def find_append)
next
  case (Some m)
  then have "list_ex (\<lambda>m. ms_product m = p) (ca_milestones db)" by (auto simp: list_ex_iff dest!: find_SomeD)
  moreover have "ms_product m = p" using Some by (auto dest!: find_SomeD)
  ultimately show ?thesis
    using Some assms
    by (auto simp: record_product_activation_def Let_def milestones_are_def milestone_merge_fields
        find_update_where_key [where k = ms_product])
qed

lemma coalesce_assoc: "coalesce (coalesce a b) c = coalesce a (coalesce b c)"
  by (simp add: coalesce_def split: option.split)

lemma first_time_Cons: "first_time P ((now, q) # acts) = coalesce (stamp (P (now, q)) now) (first_time P acts)"
  by (simp add: first_time_def stamp_def coalesce_def)

lemma record_activities_known:
  "milestones_are p db (Some (a, b, c)) \<Longrightarrow> milestones_are p (record_activities w p acts db)
     (Some (coalesce a (first_time (\<lambda>(t, opp, conf, rep). opp \<or> conf \<or> rep) acts),
            coalesce b (first_time (\<lambda>(t, opp, conf, rep). conf \<or> rep) acts),
            coalesce c (first_time (\<lambda>(t, opp, conf, rep). rep) acts)))"
proof (induction acts arbitrary: db a b c)
  case Nil
  have "coalesce x None = x" for x :: "time option" by (simp add: coalesce_def split: option.split)
  with Nil show ?case by (simp add: record_activities_def first_time_def)
next
  case (Cons act acts)
  obtain now opp conf rep where act: "act = (now, opp, conf, rep)" by (metis prod_cases4)
  from Cons.IH [OF record_activation_step [OF Cons.prems, of now w opp conf rep, simplified]]
  show ?case by (simp add: record_activities_def act first_time_Cons coalesce_assoc)
qed

text \<open>After any sequence of activities the milestones of a product are the times of its first opportunity, first confirmed interaction and first report, where a report counts as a confirmed interaction and both as an opportunity; later activities never move them.\<close>
theorem milestones_are_first_times:
  assumes new: "\<forall>m \<in> set (ca_milestones db). ms_product m \<noteq> p" and "acts \<noteq> []"
  shows "milestones_are p (record_activities w p acts db)
    (Some (first_time (\<lambda>(t, opp, conf, rep). opp \<or> conf \<or> rep) acts,
           first_time (\<lambda>(t, opp, conf, rep). conf \<or> rep) acts,
           first_time (\<lambda>(t, opp, conf, rep). rep) acts))"
proof -
  obtain now opp conf rep acts' where acts: "acts = (now, opp, conf, rep) # acts'"
    using \<open>acts \<noteq> []\<close> by (metis list.exhaust prod_cases4)
  have "milestones_are p db None" using new by (auto simp: milestones_are_def find_None_iff)
  from record_activities_known [OF record_activation_step [OF this, of now w opp conf rep, simplified]]
  show ?thesis by (simp add: record_activities_def acts first_time_Cons)
qed

section \<open>Witnesses\<close>

definition no_catalog :: catalog where
  "no_catalog = \<lparr>ca_workspaces = [], ca_products = [], ca_environments = [], ca_milestones = [], ca_keys = []\<rparr>"

lemma name0: "validated_name '' Web  shop '' ''Product'' = Inr ''Web shop''"
  by code_simp

definition shop0 :: "(catalog_product \<times> environment_row \<times> api_key_row \<times> string \<times> catalog) result" where
  "shop0 = create_product_with_default_key 10 21 31 5 41 ''r1'' id to_ascii_lowercase to_ascii_lowercase 1
     '' Web  shop '' (no_catalog\<lparr>ca_workspaces := [1]\<rparr>)"

definition shop_secret :: string where
  "shop_secret = write_secret 41 31 ''r1''"

lemma shop0_run:
  obtains p e k db where "shop0 = Inr (p, e, k, shop_secret, db)" "ca_keys db = [k]" "ak_id k = 41"
    "ak_hash k = shop_secret" "ak_kind k = Write_Key" "ak_workspace k = 1" "\<And>t. live_key t k"
    "ak_environment k = 31"
proof -
  have "\<exists>p e k db. shop0 = Inr (p, e, k, shop_secret, db) \<and> ca_keys db = [k] \<and> ak_id k = 41
    \<and> ak_hash k = shop_secret \<and> ak_kind k = Write_Key \<and> ak_workspace k = 1 \<and> (\<forall>t. live_key t k)
    \<and> ak_environment k = 31"
    by (simp add: shop0_def create_product_with_default_key_def insert_product_def name0 Let_def no_catalog_def
        insert_key_def record_product_activation_def PRODUCT_LIMIT_def live_key_def shop_secret_def)
  with that show thesis by blast
qed

lemma shop_reachable:
  assumes "shop0 = Inr (p, e, k, s, db)"
  shows "catalog_reachable id to_ascii_lowercase to_ascii_lowercase db"
proof -
  let ?step = "catalog_step id to_ascii_lowercase to_ascii_lowercase"
  have "?step no_catalog (no_catalog\<lparr>ca_workspaces := 1 # ca_workspaces no_catalog\<rparr>)"
    by (rule catalog_step.new_team)
  then have "?step no_catalog (no_catalog\<lparr>ca_workspaces := [1]\<rparr>)" by (simp add: no_catalog_def)
  moreover have "?step (no_catalog\<lparr>ca_workspaces := [1]\<rparr>) db"
    using assms unfolding shop0_def by (rule catalog_step.create_keyed)
  ultimately have "?step\<^sup>*\<^sup>* no_catalog db" by (blast intro: rtranclp.rtrancl_into_rtrancl)
  then show ?thesis by (simp add: catalog_reachable_def no_catalog_def)
qed

lemma shop_secret_prefix: "starts_with ''af_live_'' shop_secret"
  unfolding shop_secret_def write_secret_def by (rule starts_with_append)

lemma authentication_is_confined_to_a_live_key_witness:
  "\<exists>db auth db'. agent_product_auth 20 id (Some shop_secret) db = Inr (auth, db')
     \<and> (\<exists>k \<in> set (ca_keys db). pa_key auth = ak_id k \<and> ak_kind k = Write_Key \<and> live_key 20 k)"
proof (rule shop0_run)
  fix p e k db
  assume run: "shop0 = Inr (p, e, k, shop_secret, db)" "ca_keys db = [k]" "ak_hash k = shop_secret"
    and live: "\<And>t. live_key t k"
  note reach = shop_reachable [OF run(1)]
  have "is_ok (product_auth_for_key 20 shop_secret None db)"
    using auth_of_key [OF reachable_catalog_inv [OF reach], of k 20 None] run live by simp
  then obtain x where "agent_product_auth 20 id (Some shop_secret) db = Inr x"
    by (auto simp: agent_product_auth_def shop_secret_prefix is_ok_iff)
  then obtain auth db' where auth: "agent_product_auth 20 id (Some shop_secret) db = Inr (auth, db')"
    by (cases x) simp
  have "inj (id :: string \<Rightarrow> string)" by simp
  from authentication_is_confined_to_a_live_key [OF reach this, of 20 "Some shop_secret" auth db' Write_Key] auth
  show ?thesis by (intro exI [of _ db] exI [of _ auth] exI [of _ db']) auto
qed

lemma rotation_overlaps_for_an_hour_witness:
  "\<exists>db row secret overlap db'. rotate_api_key 20 42 ''r2'' id 1 41 db = Inr (row, secret, overlap, db')
     \<and> is_ok (product_auth_for_key 21 shop_secret None db')
     \<and> \<not> is_ok (product_auth_for_key (20 + hours 1) shop_secret None db')
     \<and> is_ok (product_auth_for_key (20 + hours 1) secret None db')"
proof (rule shop0_run)
  fix p e k db
  assume run: "shop0 = Inr (p, e, k, shop_secret, db)" "ca_keys db = [k]" "ak_id k = 41" "ak_hash k = shop_secret"
    "ak_kind k = Write_Key" "ak_workspace k = 1" "\<And>t. live_key t k" "ak_environment k = 31"
  note inv = reachable_catalog_inv [OF shop_reachable [OF run(1)]]
  have "uuid_simple 42 \<noteq> uuid_simple 41" by (subst uuid_simple_inject) simp_all
  then have "new_secret Write_Key 42 31 ''r2'' \<noteq> shop_secret"
    by (auto simp: new_secret_def shop_secret_def write_secret_def)
  then have "\<exists>x. rotate_api_key 20 42 ''r2'' id 1 41 db = Inr x"
    using run by (auto simp: rotate_api_key_def Let_def insert_key_def key_clash_def)
  then obtain row secret overlap db' where rot: "rotate_api_key 20 42 ''r2'' id 1 41 db = Inr (row, secret, overlap, db')"
    by (metis prod_cases4)
  have k: "k \<in> set (ca_keys db)" using run(2) by simp
  have now: "is_ok (product_auth_for_key 21 shop_secret None db)"
    using auth_of_key [OF inv k, of 21 None] run by simp
  have t: "(20 :: int) \<le> 21" "(20 :: int) \<le> 20 + hours 1" "(21 :: int) < 20 + hours 1"
    by (simp_all add: hours_def minutes_def seconds_def)
  note r = rotation_overlaps_for_an_hour [OF inv rot k run(3), of None, unfolded run(4,5) id_apply]
  show ?thesis
    using r rot now t by (intro exI [of _ db] exI [of _ row] exI [of _ secret] exI [of _ overlap] exI [of _ db']) simp
qed

lemma milestones_are_first_times_witness:
  "milestones_are 7 (record_activities 1 7 [(10, True, False, False), (20, False, False, True), (30, False, True, False)] no_catalog)
     (Some (Some 10, Some 20, Some 20))"
  using milestones_are_first_times [of no_catalog 7
      "[(10, True, False, False), (20, False, False, True), (30, False, True, False)]" 1]
  by (simp add: no_catalog_def first_time_def)

end
