(* ===== verification/SensitiveText.thy ===== *)
theory SensitiveText
  imports Complex_Main Json GithubApi Security StoreText
begin

text \<open>
  \<open>backend/src/issue_template.rs\<close>, the two policies on customer text: \<open>contains_sensitive_report_text\<close>,
  which refuses a report at ingest, and \<open>must_redact_before_publishing\<close>, which omits a field from a
  public issue.

  Library functions are arguments: \<open>serde_json\<close>'s parser, \<open>reqwest\<close>'s URL parser and the four base64
  decoders.  The entropy is over the reals, where the code computes it in \<open>f64\<close>.
\<close>

section \<open>Searching text\<close>

text \<open>What follows each match of \<open>match_indices\<close>: matches do not overlap.\<close>

function after_matches :: "string \<Rightarrow> string \<Rightarrow> string list" where
  "after_matches pat s =
     (if s = [] \<or> pat = [] then []
      else if starts_with pat s then drop (length pat) s # after_matches pat (drop (length pat) s)
      else after_matches pat (tl s))"
  by pat_completeness auto
termination
  by (relation "measure (\<lambda>(pat, s). length s)") (auto simp: neq_Nil_conv)

declare after_matches.simps [simp del]

text \<open>\<open>split\<close> at white space and at the given ASCII characters; empty parts are kept.\<close>

function parts_from :: "(byte \<Rightarrow> bool) \<Rightarrow> string \<Rightarrow> string \<Rightarrow> string list" where
  "parts_from p run s =
     (if s = [] then [rev run]
      else if ws_len s \<noteq> 0 then rev run # parts_from p [] (drop (ws_len s) s)
      else if p (hd s) then rev run # parts_from p [] (tl s)
      else parts_from p (hd s # run) (tl s))"
  by pat_completeness auto
termination
  by (relation "measure (\<lambda>(p, run, s). length s)") auto

declare parts_from.simps [simp del]

definition eq_ignore_case :: "string \<Rightarrow> string \<Rightarrow> bool" where
  "eq_ignore_case a b \<longleftrightarrow> to_ascii_lowercase a = to_ascii_lowercase b"

section \<open>The ingest policy\<close>

text \<open>The characters of a credential: ASCII letters, digits and \<open>-._~+/=\<close>.\<close>

definition credential_byte :: "byte \<Rightarrow> bool" where
  "credential_byte c \<longleftrightarrow> is_alnum c \<or> c \<in> set ''-._~+/=''"

definition email_byte :: "byte \<Rightarrow> bool" where
  "email_byte c \<longleftrightarrow> is_alnum c \<or> c \<in> set ''@._+-''"

definition aws_access_key :: "string \<Rightarrow> bool" where
  "aws_access_key v \<longleftrightarrow>
     list_ex (\<lambda>pat. list_ex (\<lambda>suffix. length suffix \<ge> 12
          \<and> list_all (\<lambda>c. is_upper c \<or> is_digit c) (take 12 suffix)) (after_matches pat v))
       [''AKIA'', ''ASIA'']"

definition FORBIDDEN_PATTERNS :: "string list" where
  "FORBIDDEN_PATTERNS =
     [''af_live_'', ''af_read_'', ''github_pat_'', ''ghp_'', ''aws_secret'', ''sk-ant-'', ''-----begin '', ''xoxb-'',
      ''xoxp-'', ''sk-proj-'', ''api key'', ''password'', ''prompt was'', ''user asked'', ''transcript:'',
      ''prompt:'', ''raw input:'', ''raw output:'']"

definition email_like :: "string \<Rightarrow> bool" where
  "email_like v \<longleftrightarrow>
     list_ex (\<lambda>word.
       (case split_once CHR ''@'' (trim_matches (\<lambda>c. \<not> email_byte c) word) of
          Some (local, domain) \<Rightarrow> local \<noteq> [] \<and> CHR ''.'' \<in> set domain
        | None \<Rightarrow> False)) (split_whitespace v)"

definition bearer_credential :: "string \<Rightarrow> bool" where
  "bearer_credential v \<longleftrightarrow>
     list_ex (\<lambda>suffix.
       let word = (case split_whitespace suffix of [] \<Rightarrow> [] | w # _ \<Rightarrow> w);
           candidate = trim_matches (\<lambda>c. \<not> credential_byte c) word
       in length candidate \<ge> 20 \<and> list_all credential_byte candidate) (after_matches ''bearer '' v)"

definition contains_sensitive_report_text :: "string \<Rightarrow> bool" where
  "contains_sensitive_report_text v \<longleftrightarrow>
     (let lower = to_ascii_lowercase v
      in list_ex (contains_sub lower) FORBIDDEN_PATTERNS \<or> bearer_credential lower \<or> email_like lower
         \<or> aws_access_key v)"

section \<open>Credential keys and assignments\<close>

definition PUBLISH_ONLY_PATTERNS :: "string list" where
  "PUBLISH_ONLY_PATTERNS =
     [''ghp_'', ''gho_'', ''ghs_'', ''ghr_'', ''akia'', ''asia'', ''xoxa-'', ''xapp-'', ''sk-ant-'', ''apikey'', ''api_key'',
      ''secret'', ''passwd'', ''authorization:'']"

definition contains_publish_only_pattern :: "string \<Rightarrow> bool" where
  "contains_publish_only_pattern v \<longleftrightarrow> list_ex (contains_sub (to_ascii_lowercase v)) PUBLISH_ONLY_PATTERNS"

definition CREDENTIAL_KEYS :: "string list" where
  "CREDENTIAL_KEYS =
     [''token'', ''access_token'', ''api_key'', ''apikey'', ''key'', ''secret'', ''password'', ''signature'', ''sig'',
      ''auth'', ''code'', ''session'', ''id_token'', ''refresh_token'']"

definition is_credential_key :: "string \<Rightarrow> bool" where
  "is_credential_key v \<longleftrightarrow> list_ex (eq_ignore_case v) CREDENTIAL_KEYS"

definition contains_sensitive_assignment :: "string \<Rightarrow> bool" where
  "contains_sensitive_assignment v \<longleftrightarrow>
     list_ex (\<lambda>part.
       (case split_once CHR ''='' part of
          Some (key, assigned) \<Rightarrow>
            is_credential_key (trim_matches (\<lambda>c. c \<in> set [CHR 0x27, CHR 0x22, CHR 0x60, CHR ''<'', CHR ''>'']) key)
            \<and> assigned \<noteq> []
        | None \<Rightarrow> False)) (parts_from (\<lambda>c. c \<in> set ''&;,()[]{}'') [] v)"

section \<open>Opaque tokens\<close>

record opaque_segment =
  os_value :: string
  os_start :: nat
  os_end :: nat

text \<open>The maximal runs of credential characters with their byte range; \<open>run\<close> is reversed.\<close>

fun segments_from :: "nat \<Rightarrow> string \<Rightarrow> string \<Rightarrow> opaque_segment list" where
  "segments_from i run [] =
     (if run = [] then [] else [\<lparr>os_value = rev run, os_start = i - length run, os_end = i\<rparr>])"
| "segments_from i run (c # s) =
     (if credential_byte c then segments_from (Suc i) (c # run) s
      else (if run = [] then [] else [\<lparr>os_value = rev run, os_start = i - length run, os_end = i\<rparr>])
           @ segments_from (Suc i) [] s)"

definition opaque_segments :: "string \<Rightarrow> opaque_segment list" where
  "opaque_segments v = segments_from 0 [] v"

definition word_part :: "string \<Rightarrow> bool" where
  "word_part part \<longleftrightarrow> list_all is_alpha part"

definition looks_like_word_identifier :: "string \<Rightarrow> bool" where
  "looks_like_word_identifier token \<longleftrightarrow>
     list_all (\<lambda>c. is_alnum c \<or> c \<in> set ''_- .'') token
     \<and> (let parts = filter (\<lambda>part. part \<noteq> []) (split_on (\<lambda>c. c \<in> set ''_-.'') token);
            alpha = filter word_part parts;
            short_mixed = length (filter (\<lambda>part. list_ex is_alpha part \<and> list_ex is_digit part
                                             \<and> length part \<le> 4) parts);
            wordlike = length (filter (\<lambda>part. list_ex (\<lambda>c. c \<in> set ''aeiouAEIOU'') part) alpha)
        in length alpha \<ge> 3 \<and> short_mixed \<le> 1 \<and> wordlike * 2 \<ge> length alpha
           \<and> list_all (\<lambda>part. word_part part \<or> list_all is_digit part
                          \<or> (length part \<le> 4 \<and> list_all is_alnum part)) parts)"

text \<open>The entries of the byte histogram that are not zero.\<close>

definition byte_counts :: "string \<Rightarrow> nat list" where
  "byte_counts v = map (count_list v) (remdups v)"

definition shannon_entropy_bits_per_char :: "string \<Rightarrow> real" where
  "shannon_entropy_bits_per_char v =
     (if v = [] then 0
      else sum_list (map (\<lambda>k. - (real k / real (length v)) * log 2 (real k / real (length v))) (byte_counts v)))"

definition enough_entropy :: "string \<Rightarrow> bool" where
  "enough_entropy v \<longleftrightarrow> shannon_entropy_bits_per_char v \<ge> 3"

definition MIN_TOKEN_LEN :: nat where
  "MIN_TOKEN_LEN = 32"

definition looks_like_secret_token :: "string \<Rightarrow> bool" where
  "looks_like_secret_token word \<longleftrightarrow>
     (let token = trim_matches (\<lambda>c. \<not> credential_byte c) word
      in length token \<ge> MIN_TOKEN_LEN \<and> \<not> contains_sub token ''://'' \<and> list_all credential_byte token
         \<and> list_ex is_alpha token \<and> list_ex is_digit token \<and> \<not> looks_like_word_identifier token
         \<and> enough_entropy token)"

text \<open>
  The inner loop over at most \<open>n\<close> adjacent segments: \<open>joined\<close> is what was appended so far and
  \<open>prev\<close> the end of the previous segment.
\<close>

fun joined_secret :: "nat \<Rightarrow> string \<Rightarrow> nat option \<Rightarrow> opaque_segment list \<Rightarrow> bool" where
  "joined_secret 0 joined prev segs = False"
| "joined_secret (Suc n) joined prev [] = False"
| "joined_secret (Suc n) joined prev (seg # segs) =
     (if length (os_value seg) < 4 then False
      else if opt_all (\<lambda>e. os_start seg - e > 3) prev \<and> prev \<noteq> None then False
      else (let joined' = joined @ os_value seg
            in (prev \<noteq> None \<and> looks_like_secret_token joined')
               \<or> joined_secret n joined' (Some (os_end seg)) segs))"

definition contains_secret_shape :: "string \<Rightarrow> bool" where
  "contains_secret_shape v \<longleftrightarrow>
     (let segs = opaque_segments v
      in list_ex (\<lambda>seg. looks_like_secret_token (os_value seg)) segs
         \<or> list_ex (\<lambda>start. joined_secret 8 [] None (drop start segs)) [0..<length segs])"

section \<open>URLs\<close>

record parsed_url =
  pu_username :: string
  pu_password :: "string option"
  pu_query :: "(string \<times> string) list"
  pu_path :: "string list option"

datatype base64_engine = Standard | Standard_No_Pad | Url_Safe | Url_Safe_No_Pad

record text_codecs =
  tc_json :: "string \<Rightarrow> json option"
  tc_url :: "string \<Rightarrow> parsed_url option"
  tc_base64 :: "base64_engine \<Rightarrow> string \<Rightarrow> string option"

text \<open>\<open>String::from_utf8\<close>: the well-formed UTF-8 sequences.\<close>

definition continues :: "string \<Rightarrow> nat \<Rightarrow> nat \<Rightarrow> nat \<Rightarrow> bool" where
  "continues s k lo hi \<longleftrightarrow> length s > k \<and> lo \<le> byte_val (s ! 1) \<and> byte_val (s ! 1) \<le> hi
     \<and> (\<forall>i \<in> {2..<Suc k}. utf8_cont (s ! i))"

definition utf8_char_len :: "string \<Rightarrow> nat" where
  "utf8_char_len s =
     (case s of [] \<Rightarrow> 0 | c # _ \<Rightarrow>
       (let a = byte_val c
        in if a < 128 then 1
           else if 194 \<le> a \<and> a \<le> 223 then (if continues s 1 128 191 then 2 else 0)
           else if a = 224 then (if continues s 2 160 191 then 3 else 0)
           else if a = 237 then (if continues s 2 128 159 then 3 else 0)
           else if 225 \<le> a \<and> a \<le> 239 then (if continues s 2 128 191 then 3 else 0)
           else if a = 240 then (if continues s 3 144 191 then 4 else 0)
           else if 241 \<le> a \<and> a \<le> 243 then (if continues s 3 128 191 then 4 else 0)
           else if a = 244 then (if continues s 3 128 143 then 4 else 0)
           else 0))"

function valid_utf8 :: "string \<Rightarrow> bool" where
  "valid_utf8 s =
     (if s = [] then True else if utf8_char_len s = 0 then False else valid_utf8 (drop (utf8_char_len s) s))"
  by pat_completeness auto
termination
  by (relation "measure length") auto

declare valid_utf8.simps [simp del]

definition from_utf8 :: "string \<Rightarrow> string option" where
  "from_utf8 bytes = (if valid_utf8 bytes then Some bytes else None)"

definition hex_value :: "byte \<Rightarrow> nat option" where
  "hex_value c =
     (if is_digit c then Some (byte_val c - 48)
      else if 97 \<le> byte_val c \<and> byte_val c \<le> 102 then Some (byte_val c - 97 + 10)
      else if 65 \<le> byte_val c \<and> byte_val c \<le> 70 then Some (byte_val c - 65 + 10)
      else None)"

text \<open>The decoded bytes and whether an escape was found.\<close>

function percent_bytes :: "string \<Rightarrow> string \<times> bool" where
  "percent_bytes [] = ([], False)"
| "percent_bytes (c # s) =
     (case (if c = CHR ''%'' \<and> length s \<ge> 2 then (hex_value (s ! 0), hex_value (s ! 1)) else (None, None)) of
        (Some high, Some low) \<Rightarrow> (char_of (high * 16 + low) # fst (percent_bytes (drop 2 s)), True)
      | _ \<Rightarrow> (case percent_bytes s of (d, changed) \<Rightarrow> (c # d, changed)))"
  by pat_completeness auto
termination
  by (relation "measure length") auto

definition percent_decode_text :: "string \<Rightarrow> string option" where
  "percent_decode_text v = (case percent_bytes v of (d, changed) \<Rightarrow> if changed then from_utf8 d else None)"

definition url_end :: "string \<Rightarrow> bool" where
  "url_end s \<longleftrightarrow> ws_len s \<noteq> 0 \<or> hd s \<in> set [CHR 0x27, CHR 0x22, CHR ''<'', CHR ''>'', CHR 0x60]"

fun until_url_end :: "string \<Rightarrow> string" where
  "until_url_end [] = []"
| "until_url_end (c # s) = (if url_end (c # s) then [] else c # until_url_end s)"

definition min_option :: "nat option \<Rightarrow> nat option \<Rightarrow> nat option" where
  "min_option a b =
     (case (a, b) of (Some x, Some y) \<Rightarrow> Some (min x y) | (Some x, None) \<Rightarrow> Some x | (None, y) \<Rightarrow> y)"

definition url_start :: "string \<Rightarrow> nat option" where
  "url_start s =
     (let lower = to_ascii_lowercase s
      in min_option (find_sub lower ''http://'') (find_sub lower ''https://''))"

text \<open>The candidates the loop cuts out of the text, before parsing.\<close>

function url_candidates :: "string \<Rightarrow> string list" where
  "url_candidates s =
     (if s = [] then []
      else (case url_start s of
        None \<Rightarrow> []
      | Some i \<Rightarrow>
          (let t = drop i s; found = until_url_end t
           in rev (dropWhile (\<lambda>c. c \<in> set '',;!?)]}'') (rev found))
              # url_candidates (drop (max (length found) 1) t))))"
  by pat_completeness auto
termination
  by (relation "measure length") (auto intro!: diff_less simp: less_max_iff_disj)

declare url_candidates.simps [simp del]

definition sensitive_url :: "parsed_url \<Rightarrow> bool" where
  "sensitive_url url \<longleftrightarrow>
     pu_username url \<noteq> [] \<or> pu_password url \<noteq> None
     \<or> list_ex (\<lambda>(key, _). is_credential_key key) (pu_query url)
     \<or> (case pu_path url of None \<Rightarrow> False
        | Some segments \<Rightarrow>
            list_ex (\<lambda>segment. contains_secret_shape
              (case percent_decode_text segment of Some d \<Rightarrow> d | None \<Rightarrow> segment)) segments)"

definition contains_sensitive_url :: "text_codecs \<Rightarrow> string \<Rightarrow> bool" where
  "contains_sensitive_url codecs v \<longleftrightarrow>
     list_ex (\<lambda>c. case tc_url codecs c of None \<Rightarrow> False | Some url \<Rightarrow> sensitive_url url) (url_candidates v)"

section \<open>Encoded text\<close>

fun first_some :: "'a option list \<Rightarrow> 'a option" where
  "first_some [] = None"
| "first_some (None # xs) = first_some xs"
| "first_some (Some x # xs) = Some x"

text \<open>No control character except white space: \<open>!is_control() || is_whitespace()\<close>.\<close>

fun printable_text :: "string \<Rightarrow> bool" where
  "printable_text [] \<longleftrightarrow> True"
| "printable_text (c # s) \<longleftrightarrow>
     (ws_len (c # s) \<noteq> 0
      \<or> \<not> (byte_val c < 32 \<or> byte_val c = 127
           \<or> (byte_val c = 194 \<and> (case s of [] \<Rightarrow> False | d # _ \<Rightarrow> 128 \<le> byte_val d \<and> byte_val d < 160))))
     \<and> printable_text s"

definition decoded_base64_texts :: "text_codecs \<Rightarrow> string \<Rightarrow> string list" where
  "decoded_base64_texts codecs v =
     concat (map (\<lambda>seg.
       (let s = os_value seg; unpadded = rev (dropWhile ((=) CHR ''='') (rev s))
        in if length s < 16 then []
           else (case first_some
                   (concat (map (\<lambda>candidate.
                      map (\<lambda>engine. Option.bind (tc_base64 codecs engine candidate) from_utf8)
                        [Standard, Standard_No_Pad, Url_Safe, Url_Safe_No_Pad]) [s, unpadded])) of
                   Some d \<Rightarrow> if d \<noteq> [] \<and> printable_text d then [d] else []
                 | None \<Rightarrow> [])))
       (opaque_segments v))"

section \<open>The publication policy\<close>

text \<open>The tree of a JSON value, with the test for its strings as an argument.\<close>

fun json_value_is_sensitive :: "(string \<Rightarrow> bool) \<Rightarrow> json \<Rightarrow> bool" where
  "json_value_is_sensitive text (JObj members) =
     list_ex (\<lambda>(key, v). (is_credential_key key \<and> v \<noteq> JNull) \<or> json_value_is_sensitive text v) members"
| "json_value_is_sensitive text (JArr vs) = list_ex (json_value_is_sensitive text) vs"
| "json_value_is_sensitive text (JStr v) = text v"
| "json_value_is_sensitive text _ = False"

text \<open>
  The mutual recursion of \<open>publication_text_is_sensitive\<close> and \<open>contains_sensitive_json\<close>.  Only the
  decoders are stopped by the depth; a JSON string is looked into at any depth, and ends because it is
  shorter than its text.  The first argument bounds the calls in flight: \<open>redaction_fuel\<close> is enough
  (\<open>enough_redaction_fuel\<close>), so the branch without fuel is not reached.
\<close>

fun publication_text_is_sensitive :: "text_codecs \<Rightarrow> nat \<Rightarrow> string \<Rightarrow> nat \<Rightarrow> bool" where
  "publication_text_is_sensitive codecs 0 v depth = True"
| "publication_text_is_sensitive codecs (Suc fuel) v depth =
     (contains_sensitive_report_text v \<or> contains_publish_only_pattern v
      \<or> contains_sensitive_url codecs v \<or> contains_sensitive_assignment v
      \<or> (case tc_json codecs v of None \<Rightarrow> False
         | Some j \<Rightarrow> json_value_is_sensitive (\<lambda>s. publication_text_is_sensitive codecs fuel s (depth + 1)) j)
      \<or> contains_secret_shape v
      \<or> (depth < 2
         \<and> ((case percent_decode_text v of None \<Rightarrow> False
             | Some d \<Rightarrow> publication_text_is_sensitive codecs fuel d (depth + 1))
            \<or> list_ex (\<lambda>d. publication_text_is_sensitive codecs fuel d (depth + 1)) (decoded_base64_texts codecs v))))"

definition redaction_fuel :: "string \<Rightarrow> nat" where
  "redaction_fuel v = length v + 1"

definition must_redact_before_publishing :: "text_codecs \<Rightarrow> string \<Rightarrow> bool" where
  "must_redact_before_publishing codecs v = publication_text_is_sensitive codecs (redaction_fuel v) v 0"

end
