(* ===== verification/IssueTemplate.thy ===== *)
theory IssueTemplate
  imports SensitiveText GroupIssueFiling
begin

text \<open>
  \<open>backend/src/issue_template.rs\<close>: title, body and evidence comment of a group's GitHub issue, the
  redaction of adjacent fields, and the neutralization and truncation of customer text.  A policy is
  the test \<open>must_redact\<close>; \<open>chrono\<close>'s formatting of an instant is the argument \<open>fmt\<close>.
\<close>

section \<open>Texts with characters beyond ASCII\<close>

definition ZERO_WIDTH_SPACE :: string where
  "ZERO_WIDTH_SPACE = [CHR 0xE2, CHR 0x80, CHR 0x8B]"

definition ELLIPSIS :: string where
  "ELLIPSIS = [CHR 0xE2, CHR 0x80, CHR 0xA6]"

definition RIGHT_ARROW :: string where
  "RIGHT_ARROW = [CHR 0xE2, CHR 0x86, CHR 0x92]"

definition NEWLINE :: string where
  "NEWLINE = [CHR 0x0A]"

definition FENCE :: string where
  "FENCE = [CHR 0x60, CHR 0x60, CHR 0x60]"

definition line :: "string \<Rightarrow> string" where
  "line s = s @ NEWLINE"

section \<open>Limits\<close>

definition GITHUB_BODY_LIMIT :: nat where
  "GITHUB_BODY_LIMIT = 65536"

definition MAX_IMPACT_VALUES :: nat where
  "MAX_IMPACT_VALUES = 20"

definition MAX_FINDING_GROUPS :: nat where
  "MAX_FINDING_GROUPS = 25"

definition MAX_DETAILS_PER_FINDING :: nat where
  "MAX_DETAILS_PER_FINDING = 3"

definition MAX_WORKAROUNDS :: nat where
  "MAX_WORKAROUNDS = 20"

definition MAX_WHERE_VALUES :: nat where
  "MAX_WHERE_VALUES = 20"

definition MAX_ADJACENT_PUBLICATION_FIELDS :: nat where
  "MAX_ADJACENT_PUBLICATION_FIELDS = 4"

section \<open>Template data\<close>

record issue_count =
  ic_value :: string
  ic_count :: int

record issue_finding_rollup =
  if_kind :: string
  if_topic :: string
  if_count :: int
  if_detail_count :: int
  if_details :: "string list"

record issue_template_data =
  it_group_key :: string
  it_explanation :: string
  it_primary_kind :: string
  it_primary_topic :: string
  it_primary_operation :: string
  it_impacts :: "issue_count list"
  it_findings :: "issue_finding_rollup list"
  it_workarounds :: "json list"
  it_operations :: "string list"
  it_surfaces :: "string list"
  it_status_codes :: "int list"
  it_earliest :: "time option"
  it_latest :: "time option"
  it_report_count :: int
  it_backlink :: string

section \<open>Redaction of adjacent fields\<close>

definition is_credential_field_fragment :: "string \<Rightarrow> bool" where
  "is_credential_field_fragment v \<longleftrightarrow> v \<noteq> [] \<and> list_all credential_byte v"

definition windows :: "nat \<Rightarrow> 'a list \<Rightarrow> 'a list list" where
  "windows n xs = map (\<lambda>i. take n (drop i xs)) [0..<Suc (length xs) - n]"

definition mark_sensitive_adjacent_windows :: "(string \<Rightarrow> bool) \<Rightarrow> string list \<Rightarrow> string list" where
  "mark_sensitive_adjacent_windows sensitive texts =
     concat (map (\<lambda>n.
       concat (filter (\<lambda>window. list_all is_credential_field_fragment window \<and> sensitive (concat window))
                (windows n texts)))
       [2..<Suc (min MAX_ADJACENT_PUBLICATION_FIELDS (length texts))])"

definition json_str :: "json \<Rightarrow> string option" where
  "json_str v = (case v of JStr s \<Rightarrow> Some s | _ \<Rightarrow> None)"

definition workaround_detail :: "json \<Rightarrow> string option" where
  "workaround_detail w = Option.bind (json_field ''detail'' w) json_str"

definition workaround_used :: "json \<Rightarrow> bool" where
  "workaround_used w \<longleftrightarrow> json_field ''used'' w = Some (JBool True)"

definition finding_details :: "issue_template_data \<Rightarrow> string list" where
  "finding_details d = concat (map if_details (take MAX_FINDING_GROUPS (it_findings d)))"

definition rendered_fields :: "issue_template_data \<Rightarrow> string list" where
  "rendered_fields d =
     [it_primary_kind d, it_primary_topic d, it_primary_operation d, it_explanation d]
     @ map ic_value (take MAX_IMPACT_VALUES (it_impacts d))
     @ concat (map (\<lambda>f. if_kind f # if_topic f # if_details f) (take MAX_FINDING_GROUPS (it_findings d)))
     @ List.map_filter workaround_detail (take MAX_WORKAROUNDS (it_workarounds d))
     @ take MAX_WHERE_VALUES (it_operations d)
     @ take MAX_WHERE_VALUES (it_surfaces d)"

definition publication_redactions :: "(string \<Rightarrow> bool) \<Rightarrow> issue_template_data \<Rightarrow> string list" where
  "publication_redactions sensitive d =
     mark_sensitive_adjacent_windows sensitive (rendered_fields d)
     @ mark_sensitive_adjacent_windows sensitive (finding_details d)"

definition must_redact :: "(string \<Rightarrow> bool) \<Rightarrow> issue_template_data \<Rightarrow> string \<Rightarrow> bool" where
  "must_redact sensitive d v \<longleftrightarrow> v \<in> set (publication_redactions sensitive d) \<or> sensitive v"

section \<open>Cleaning text\<close>

definition truncate_chars :: "string \<Rightarrow> nat \<Rightarrow> string" where
  "truncate_chars v n = (if utf8_count v \<le> n then v else utf8_take (n - 1) v @ ELLIPSIS)"

definition clean_text :: "string \<Rightarrow> nat \<Rightarrow> string" where
  "clean_text v n = truncate_chars (join '' '' (split_whitespace v)) n"

text \<open>\<open>str::replace\<close> of a pattern, from left to right.\<close>

function replace_sub :: "string \<Rightarrow> string \<Rightarrow> string \<Rightarrow> string" where
  "replace_sub pat r s =
     (if s = [] \<or> pat = [] then s
      else if starts_with pat s then r @ replace_sub pat r (drop (length pat) s)
      else hd s # replace_sub pat r (tl s))"
  by pat_completeness auto
termination
  by (relation "measure (\<lambda>(pat, r, s). length s)") (auto simp: neq_Nil_conv)

declare replace_sub.simps [simp del]

function neutralize_www :: "string \<Rightarrow> string" where
  "neutralize_www s =
     (if s = [] then []
      else if starts_with ''www.'' (to_ascii_lowercase s)
      then take 3 s @ ZERO_WIDTH_SPACE @ ''.'' @ neutralize_www (drop 4 s)
      else hd s # neutralize_www (tl s))"
  by pat_completeness auto
termination
  by (relation "measure length") auto

declare neutralize_www.simps [simp del]

definition neutralize_github_references :: "string \<Rightarrow> string" where
  "neutralize_github_references v =
     neutralize_www
       (replace_sub ''://'' ('':'' @ ZERO_WIDTH_SPACE @ ''//'')
         (replace_byte CHR ''#'' (''#'' @ ZERO_WIDTH_SPACE)
           (replace_byte CHR ''@'' (''@'' @ ZERO_WIDTH_SPACE) v)))"

definition markdown_byte :: "byte \<Rightarrow> bool" where
  "markdown_byte c \<longleftrightarrow> c \<in> set (CHR 0x5C # CHR 0x60 # ''*_~[]()<>|!'')"

text \<open>A backslash before every Markdown character, and before a list marker that starts the text.\<close>

fun escape_markdown :: "bool \<Rightarrow> string \<Rightarrow> string" where
  "escape_markdown first [] = []"
| "escape_markdown first (c # s) =
     (if markdown_byte c \<or> (first \<and> c \<in> set ''-+>'') then [CHR 0x5C, c] else [c]) @ escape_markdown False s"

definition safe_customer_title_text :: "(string \<Rightarrow> bool) \<Rightarrow> string \<Rightarrow> nat \<Rightarrow> string" where
  "safe_customer_title_text red v n =
     (if red v then ''[redacted]'' else neutralize_github_references (clean_text v n))"

definition safe_customer_inline_text :: "(string \<Rightarrow> bool) \<Rightarrow> string \<Rightarrow> nat \<Rightarrow> string" where
  "safe_customer_inline_text red v n =
     (if red v then ''[redacted]''
      else escape_markdown True (neutralize_github_references (clean_text v n)))"

definition clean_code_text :: "(string \<Rightarrow> bool) \<Rightarrow> string \<Rightarrow> nat \<Rightarrow> string" where
  "clean_code_text red v n =
     (if red v then ''redacted''
      else replace_byte CHR 0x60 [CHR 0x27] (neutralize_github_references (clean_text v n)))"

definition render_fenced_detail :: "string \<Rightarrow> string \<Rightarrow> string \<Rightarrow> nat \<Rightarrow> string" where
  "render_fenced_detail before label detail n =
     (let detail' = clean_text (replace_sub FENCE [] detail) n; indent = before @ ''  ''
      in line (before @ ''- '' @ label @ '':'') @ line (indent @ FENCE @ ''text'')
         @ line (indent @ detail') @ line (indent @ FENCE))"

definition clean_link :: "string \<Rightarrow> string" where
  "clean_link v = truncate_chars (filter (\<lambda>c. c \<notin> set ''() '') v) 2048"

definition group_backlink :: "string \<Rightarrow> string \<Rightarrow> string" where
  "group_backlink web_app_url group_key =
     rev (dropWhile ((=) CHR ''/'') (rev web_app_url)) @ ''/?view=feedback&group='' @ group_key"

section \<open>Sections of the body\<close>

definition append_more_line :: "nat \<Rightarrow> nat \<Rightarrow> string \<Rightarrow> string" where
  "append_more_line actual shown noun =
     (if actual > shown
      then line (''- '' @ ELLIPSIS @ '' and '' @ show_nat (actual - shown) @ '' more '' @ noun @ ''.'') else [])"

definition impact_section :: "(string \<Rightarrow> bool) \<Rightarrow> issue_count list \<Rightarrow> string" where
  "impact_section red impacts =
     NEWLINE @ line ''## Impact'' @
     (if impacts = [] then line ''- No impact reported.''
      else concat (map (\<lambda>i. line (''- '' @ safe_customer_inline_text red (ic_value i) 100 @ '': ''
                                   @ show_int (ic_count i)))
                   (take MAX_IMPACT_VALUES impacts))
           @ append_more_line (length impacts) MAX_IMPACT_VALUES ''impact values'')"

definition i64_saturating_sub :: "int \<Rightarrow> int \<Rightarrow> int" where
  "i64_saturating_sub a b = max (- i64_max - 1) (min i64_max (a - b))"

text \<open>
  The loop over the details of a finding: the text so far, the emitted and the sensitive details,
  and those already seen.
\<close>

fun detail_loop ::
  "(string \<Rightarrow> bool) \<Rightarrow> string list \<Rightarrow> string list \<Rightarrow> string \<Rightarrow> int \<Rightarrow> int \<Rightarrow> string \<times> int \<times> int" where
  "detail_loop red [] seen out emitted sensitive = (out, emitted, sensitive)"
| "detail_loop red (detail # details) seen out emitted sensitive =
     (if detail \<in> set seen then detail_loop red details seen out emitted sensitive
      else if red detail then detail_loop red details (detail # seen) out emitted (sensitive + 1)
      else (let out' = out @ render_fenced_detail ''  '' ''Detail'' detail 300
            in if emitted + 1 \<ge> int MAX_DETAILS_PER_FINDING then (out', emitted + 1, sensitive)
               else detail_loop red details (detail # seen) out' (emitted + 1) sensitive))"

definition render_finding :: "(string \<Rightarrow> bool) \<Rightarrow> issue_finding_rollup \<Rightarrow> string" where
  "render_finding red f =
     (case detail_loop red (if_details f) [] [] 0 0 of
        (details, emitted, sensitive) \<Rightarrow>
          (let remaining = i64_saturating_sub (i64_saturating_sub (if_detail_count f) emitted) sensitive
           in line (''- '' @ [CHR 0x60] @ clean_code_text red (if_kind f) 100 @ ''/''
                    @ clean_code_text red (if_topic f) 100 @ [CHR 0x60] @ '': '' @ show_int (if_count f) @ '' report(s)'')
              @ details
              @ (if sensitive > 0 then line (''  - '' @ show_int sensitive @ '' sensitive detail(s) omitted.'') else [])
              @ (if remaining > 0
                 then line (''  - '' @ ELLIPSIS @ '' and '' @ show_int remaining @ '' more detail(s).'') else [])))"

definition findings_section :: "(string \<Rightarrow> bool) \<Rightarrow> issue_finding_rollup list \<Rightarrow> string" where
  "findings_section red findings =
     NEWLINE @ line ''## Findings'' @
     (if findings = [] then line ''- No findings reported.''
      else concat (map (render_finding red) (take MAX_FINDING_GROUPS findings))
           @ append_more_line (length findings) MAX_FINDING_GROUPS ''finding groups'')"

definition render_workaround :: "(string \<Rightarrow> bool) \<Rightarrow> json \<Rightarrow> string" where
  "render_workaround red w =
     (case workaround_detail w of
        Some detail \<Rightarrow>
          if red detail
          then line (''- '' @ (if workaround_used w then ''Used.'' else ''Reported.'') @ '' Sensitive detail omitted.'')
          else render_fenced_detail [] (if workaround_used w then ''Used'' else ''Reported'') detail 350
      | None \<Rightarrow>
          line (''- '' @ (if workaround_used w then ''A workaround was used; no detail was provided.''
                        else ''No workaround was used.'')))"

definition workaround_section :: "(string \<Rightarrow> bool) \<Rightarrow> json list \<Rightarrow> string" where
  "workaround_section red workarounds =
     NEWLINE @ line ''## Workaround'' @
     (if workarounds = [] then line ''- No workaround reported.''
      else concat (map (render_workaround red) (take MAX_WORKAROUNDS workarounds))
           @ append_more_line (length workarounds) MAX_WORKAROUNDS ''workarounds'')"

definition render_values :: "(string \<Rightarrow> bool) \<Rightarrow> string list \<Rightarrow> nat \<Rightarrow> string" where
  "render_values red vs limit =
     (if vs = [] then ''unknown''
      else join '', '' (map (\<lambda>v. safe_customer_inline_text red v 100) (take limit vs))
           @ (if length vs > limit
              then '', '' @ ELLIPSIS @ '' and '' @ show_nat (length vs - limit) @ '' more'' else []))"

definition where_section :: "(string \<Rightarrow> bool) \<Rightarrow> issue_template_data \<Rightarrow> string" where
  "where_section red d =
     NEWLINE @ line ''## Where''
     @ line (''- Operation: '' @ render_values red (it_operations d) MAX_WHERE_VALUES)
     @ line (''- Surface: '' @ render_values red (it_surfaces d) MAX_WHERE_VALUES)
     @ line (''- Status codes: ''
             @ (if it_status_codes d = [] then ''none'' else join '', '' (map show_int (it_status_codes d))))"

definition time_range :: "(time \<Rightarrow> string) \<Rightarrow> time option \<Rightarrow> time option \<Rightarrow> string \<Rightarrow> string" where
  "time_range fmt earliest latest missing =
     (case (earliest, latest) of
        (Some a, Some b) \<Rightarrow> fmt a @ '' '' @ RIGHT_ARROW @ '' '' @ fmt b
      | _ \<Rightarrow> missing)"

definition issue_footer :: "string \<Rightarrow> string \<Rightarrow> string" where
  "issue_footer group_key backlink =
     NEWLINE @ NEWLINE @ group_marker_comment group_key @ NEWLINE @ NEWLINE
     @ ''[View this feedback group in Epode]('' @ backlink @ '')''"

section \<open>The size limit\<close>

definition is_char_boundary :: "string \<Rightarrow> nat \<Rightarrow> bool" where
  "is_char_boundary s i \<longleftrightarrow> i = 0 \<or> i = length s \<or> (i < length s \<and> \<not> utf8_cont (s ! i))"

fun floor_boundary :: "string \<Rightarrow> nat \<Rightarrow> nat" where
  "floor_boundary s 0 = 0"
| "floor_boundary s (Suc n) = (if is_char_boundary s (Suc n) then Suc n else floor_boundary s n)"

definition fence_count :: "string \<Rightarrow> nat" where
  "fence_count s = length (after_matches FENCE s)"

definition OMITTED_NOTICE :: string where
  "OMITTED_NOTICE = NEWLINE @ NEWLINE @ ELLIPSIS @ '' and additional content was omitted.''"

definition cap_body :: "string \<Rightarrow> string \<Rightarrow> string" where
  "cap_body body footer =
     (if length body \<le> GITHUB_BODY_LIMIT then body
      else (let suffix = OMITTED_NOTICE @ footer; fence_close = NEWLINE @ FENCE;
                prefix_limit = GITHUB_BODY_LIMIT - (length suffix + length fence_close);
                cut = take (floor_boundary body (min prefix_limit (length body))) body
            in (if fence_count cut mod 2 = 1 then cut @ fence_close else cut) @ suffix))"

section \<open>Title, body and comment\<close>

definition render_title_with :: "(string \<Rightarrow> bool) \<Rightarrow> issue_template_data \<Rightarrow> string" where
  "render_title_with red d =
     truncate_chars
       (''[epode] '' @ safe_customer_title_text red (it_primary_kind d) 40 @ '': ''
        @ safe_customer_title_text red (it_primary_topic d) 48 @ '' in ''
        @ safe_customer_title_text red (it_primary_operation d) 48) 120"

definition render_issue_title :: "text_codecs \<Rightarrow> issue_template_data \<Rightarrow> string" where
  "render_issue_title codecs d = render_title_with (must_redact (must_redact_before_publishing codecs) d) d"

definition body_text :: "(time \<Rightarrow> string) \<Rightarrow> (string \<Rightarrow> bool) \<Rightarrow> issue_template_data \<Rightarrow> string" where
  "body_text fmt red d =
     line (safe_customer_inline_text red (it_explanation d) 1000)
     @ impact_section red (it_impacts d)
     @ findings_section red (it_findings d)
     @ workaround_section red (it_workarounds d)
     @ where_section red d
     @ NEWLINE @ line ''## When''
     @ line (time_range fmt (it_earliest d) (it_latest d) ''No occurrence time available.'')
     @ NEWLINE @ line ''## Volume''
     @ line (show_int (it_report_count d) @ '' report(s)'')"

definition render_body_with :: "(time \<Rightarrow> string) \<Rightarrow> (string \<Rightarrow> bool) \<Rightarrow> issue_template_data \<Rightarrow> string" where
  "render_body_with fmt red d =
     (let footer = issue_footer (it_group_key d) (clean_link (it_backlink d))
      in cap_body (body_text fmt red d @ footer) footer)"

definition render_issue_body :: "text_codecs \<Rightarrow> (time \<Rightarrow> string) \<Rightarrow> issue_template_data \<Rightarrow> string" where
  "render_issue_body codecs fmt d = render_body_with fmt (must_redact (must_redact_before_publishing codecs) d) d"

definition render_evidence_comment :: "(time \<Rightarrow> string) \<Rightarrow> int \<Rightarrow> time option \<Rightarrow> time option \<Rightarrow> string" where
  "render_evidence_comment fmt new_reports earliest latest =
     show_int new_reports @ '' new report(s) since the last update (''
     @ time_range fmt earliest latest ''occurrence time unavailable'' @ '').''"

end
