(* ===== verification/SensitiveTextFacts.thy ===== *)
theory SensitiveTextFacts
  imports SensitiveText
begin

text \<open>
  What the two policies of \<open>SensitiveText\<close> compute: the entropy threshold is a comparison of integers,
  and the recursion through JSON strings and decoders ends within \<open>redaction_fuel\<close>.
\<close>

section \<open>The entropy threshold\<close>

lemma sum_byte_counts: "sum_list (byte_counts v) = length v"
proof -
  have "sum_list (byte_counts v) = (\<Sum>c \<in> set v. count_list v c)"
    unfolding byte_counts_def by (subst sum_list_distinct_conv_sum_set) auto
  then show ?thesis using sum_count_set [of v "set v"] by simp
qed

lemma byte_counts_pos: "k \<in> set (byte_counts v) \<Longrightarrow> 0 < k"
  by (auto simp: byte_counts_def intro!: gr0I) (metis count_list_0_iff)

definition self_powers :: "nat list \<Rightarrow> nat" where
  "self_powers ks = prod_list (map (\<lambda>k. k ^ k) ks)"

lemma self_powers_Cons [simp]: "self_powers (k # ks) = k ^ k * self_powers ks"
  by (simp add: self_powers_def)

lemma log_self_powers:
  "(\<And>k. k \<in> set ks \<Longrightarrow> 0 < k) \<Longrightarrow>
     0 < self_powers ks \<and> log 2 (real (self_powers ks)) = sum_list (map (\<lambda>k. real k * log 2 (real k)) ks)"
proof (induction ks)
  case (Cons k ks)
  then have k: "0 < k" and ks: "0 < self_powers ks"
    "log 2 (real (self_powers ks)) = sum_list (map (\<lambda>k. real k * log 2 (real k)) ks)" by auto
  have "real (self_powers (k # ks)) = real k ^ k * real (self_powers ks)" by simp
  with k ks show ?case by (simp add: log_mult log_nat_power)
qed (simp add: self_powers_def)

lemma entropy_split:
  assumes "\<And>k. k \<in> set ks \<Longrightarrow> 0 < k" "0 < n"
  shows "real n * sum_list (map (\<lambda>k. - (real k / real n) * log 2 (real k / real n)) ks)
    = real (sum_list ks) * log 2 (real n) - sum_list (map (\<lambda>k. real k * log 2 (real k)) ks)"
  using assms
proof (induction ks)
  case (Cons k ks)
  then have k: "0 < k" by simp
  have "real n * (- (real k / real n) * log 2 (real k / real n)) = - real k * log 2 (real k / real n)"
    using Cons.prems by simp
  also have "\<dots> = real k * log 2 (real n) - real k * log 2 (real k)"
    using k Cons.prems by (simp add: log_divide algebra_simps)
  finally show ?case using Cons by (simp add: algebra_simps)
qed simp

definition entropy_bound :: "string \<Rightarrow> bool" where
  "entropy_bound v \<longleftrightarrow> v \<noteq> [] \<and> 8 ^ length v * self_powers (byte_counts v) \<le> length v ^ length v"

lemma enough_entropy_code [code]: "enough_entropy v = entropy_bound v"
proof (cases "v = []")
  case False
  let ?n = "length v" and ?ks = "byte_counts v"
  have n: "0 < ?n" using False by simp
  note pos = log_self_powers [OF byte_counts_pos [of _ v]]
  have "enough_entropy v \<longleftrightarrow> 3 \<le> shannon_entropy_bits_per_char v" by (simp add: enough_entropy_def)
  also have "\<dots> \<longleftrightarrow> real ?n * 3 \<le> real ?n * shannon_entropy_bits_per_char v" using n by simp
  also have "real ?n * shannon_entropy_bits_per_char v
      = real ?n * log 2 (real ?n) - log 2 (real (self_powers ?ks))"
    using False entropy_split [OF byte_counts_pos [of _ v] n] pos
    by (simp add: shannon_entropy_bits_per_char_def sum_byte_counts)
  also have "real ?n * 3 \<le> \<dots> \<longleftrightarrow> log 2 (8 ^ ?n * real (self_powers ?ks)) \<le> log 2 (real ?n ^ ?n)"
  proof -
    have "log 2 ((8::real) ^ ?n) = real ?n * 3"
      using log_nat_power [of "8::real" 2 ?n] log_nat_power [of "2::real" 2 3] by simp
    moreover have "log 2 (real ?n ^ ?n) = real ?n * log 2 (real ?n)" using n by (simp add: log_nat_power)
    ultimately show ?thesis using pos by (simp add: log_mult algebra_simps)
  qed
  also have "\<dots> \<longleftrightarrow> 8 ^ ?n * real (self_powers ?ks) \<le> real ?n ^ ?n" using n pos by simp
  also have "\<dots> \<longleftrightarrow> 8 ^ ?n * self_powers ?ks \<le> ?n ^ ?n"
    using of_nat_le_iff [where 'a = real, of "8 ^ ?n * self_powers ?ks" "?n ^ ?n"] by simp
  finally show ?thesis using False by (simp add: entropy_bound_def)
qed (simp add: enough_entropy_def shannon_entropy_bits_per_char_def entropy_bound_def)


text \<open>
  C32.  The entropy test of \<open>looks_like_secret_token\<close> is exact in integers: a text of \<open>n\<close> bytes whose
  distinct bytes occur \<open>k\<^sub>1, \<dots>, k\<^sub>m\<close> times has at least 3 bits of entropy per byte exactly when
  \<open>8\<^sup>n \<cdot> k\<^sub>1\<^sup>k\<^sub>1 \<cdots> k\<^sub>m\<^sup>k\<^sub>m \<le> n\<^sup>n\<close>; the empty text has not.
\<close>

theorem entropy_test_is_an_integer_comparison:
  "enough_entropy v \<longleftrightarrow>
     v \<noteq> [] \<and> 8 ^ length v * prod_list (map (\<lambda>c. count_list v c ^ count_list v c) (remdups v))
               \<le> length v ^ length v"
  by (simp add: enough_entropy_code entropy_bound_def self_powers_def byte_counts_def comp_def)

section \<open>The recursion ends\<close>

fun json_strings :: "json \<Rightarrow> string list" where
  "json_strings (JObj members) = concat (map (\<lambda>(key, v). json_strings v) members)"
| "json_strings (JArr vs) = concat (map json_strings vs)"
| "json_strings (JStr s) = [s]"
| "json_strings _ = []"

lemma json_value_cong:
  "(\<And>s. s \<in> set (json_strings j) \<Longrightarrow> f s = g s) \<Longrightarrow>
     json_value_is_sensitive f j = json_value_is_sensitive g j"
proof (induction f j rule: json_value_is_sensitive.induct)
  case (1 f members)
  have "json_value_is_sensitive f v = json_value_is_sensitive g v" if "(key, v) \<in> set members" for key v
    using 1(1) [OF that refl] 1(2) that by force
  then show ?case by (auto simp: list_ex_iff)
next
  case (2 f vs)
  have "json_value_is_sensitive f v = json_value_is_sensitive g v" if "v \<in> set vs" for v
    using 2(1) [OF that] 2(2) that by force
  then show ?case by (auto simp: list_ex_iff)
qed auto

text \<open>A JSON string is shorter than its text, and base64 decodes four characters to three bytes at most.\<close>

definition shrinking_codecs :: "text_codecs \<Rightarrow> bool" where
  "shrinking_codecs codecs \<longleftrightarrow>
     (\<forall>v j s. tc_json codecs v = Some j \<longrightarrow> s \<in> set (json_strings j) \<longrightarrow> length s < length v)
     \<and> (\<forall>e v d. tc_base64 codecs e v = Some d \<longrightarrow> 4 * length d \<le> 3 * length v)"

lemma percent_bytes_length:
  "length (fst (percent_bytes v)) \<le> length v
   \<and> (snd (percent_bytes v) \<longrightarrow> length (fst (percent_bytes v)) < length v)"
proof (induction v rule: length_induct)
  case (1 v)
  show ?case
  proof (cases v)
    case (Cons c s)
    then have "length (fst (percent_bytes s)) \<le> length s
        \<and> (snd (percent_bytes s) \<longrightarrow> length (fst (percent_bytes s)) < length s)"
      and "length (fst (percent_bytes (drop 2 s))) \<le> length s - 2"
      using 1 by (simp, metis Cons diff_less_Suc length_Cons length_drop)
    with Cons show ?thesis by (auto split: option.split prod.split)
  qed simp
qed

lemma percent_decode_shorter: "percent_decode_text v = Some d \<Longrightarrow> length d < length v"
  using percent_bytes_length [of v]
  by (auto simp: percent_decode_text_def from_utf8_def split: prod.splits if_splits)

lemma first_some_in: "first_some xs = Some x \<Longrightarrow> Some x \<in> set xs"
  by (induction xs rule: first_some.induct) auto

lemma first_some_concat:
  assumes "first_some (concat (map f xs)) = Some d"
  obtains x where "x \<in> set xs" "Some d \<in> set (f x)"
  using first_some_in [OF assms] by auto

lemma segment_length:
  "seg \<in> set (segments_from i run s) \<Longrightarrow> length (os_value seg) \<le> length run + length s"
  by (induction i run s rule: segments_from.induct) (fastforce split: if_splits)+

lemma length_dropWhile_rev_le: "length (rev (dropWhile p (rev s))) \<le> length s"
  using length_dropWhile_le [of p "rev s"] by simp

lemma base64_shorter:
  assumes "shrinking_codecs codecs" "d \<in> set (decoded_base64_texts codecs v)"
  shows "length d < length v"
proof -
  obtain seg where seg: "seg \<in> set (opaque_segments v)" "16 \<le> length (os_value seg)"
    and d: "first_some (concat (map (\<lambda>candidate. map (\<lambda>engine. Option.bind (tc_base64 codecs engine candidate) from_utf8)
        [Standard, Standard_No_Pad, Url_Safe, Url_Safe_No_Pad])
        [os_value seg, rev (dropWhile ((=) CHR ''='') (rev (os_value seg)))])) = Some d"
    using assms(2) unfolding decoded_base64_texts_def
    by (auto simp: Let_def simp del: concat.simps list.map split: if_splits option.splits)
  from d obtain candidate where
      "candidate \<in> set [os_value seg, rev (dropWhile ((=) CHR ''='') (rev (os_value seg)))]"
      "Some d \<in> set (map (\<lambda>engine. Option.bind (tc_base64 codecs engine candidate) from_utf8)
        [Standard, Standard_No_Pad, Url_Safe, Url_Safe_No_Pad])"
    by (rule first_some_concat)
  moreover from this(2) obtain engine where
      "Option.bind (tc_base64 codecs engine candidate) from_utf8 = Some d"
    by (auto dest: sym)
  ultimately have "length candidate \<le> length (os_value seg)"
      "tc_base64 codecs engine candidate \<noteq> None \<and> from_utf8 (the (tc_base64 codecs engine candidate)) = Some d"
    using length_dropWhile_rev_le [of "(=) CHR ''=''" "os_value seg"] by (auto simp: bind_eq_Some_conv)
  moreover obtain d' where "tc_base64 codecs engine candidate = Some d'"
    using calculation(2) by blast
  ultimately have c: "length candidate \<le> length (os_value seg)" "tc_base64 codecs engine candidate = Some d"
    by (simp_all add: from_utf8_def split: if_split_asm)
  have "4 * length d \<le> 3 * length candidate" using assms(1) c by (simp add: shrinking_codecs_def)
  moreover have "length (os_value seg) \<le> length v"
    using segment_length [of seg 0 "[]" v] seg by (simp add: opaque_segments_def)
  ultimately show ?thesis using c seg(2) by linarith
qed

lemma redaction_fuel_irrelevant:
  assumes "shrinking_codecs codecs"
  shows "length v < m \<Longrightarrow> length v < n \<Longrightarrow>
    publication_text_is_sensitive codecs m v depth = publication_text_is_sensitive codecs n v depth"
proof (induction "length v" arbitrary: v m n depth rule: less_induct)
  case less
  obtain m' n' where mn: "m = Suc m'" "n = Suc n'" using less.prems by (metis not_less_zero old.nat.exhaust)
  have eq: "publication_text_is_sensitive codecs m' s (depth + 1) = publication_text_is_sensitive codecs n' s (depth + 1)"
    if "length s < length v" for s
    using less.hyps [OF that, of m' n' "depth + 1"] that less.prems mn by simp
  have "json_value_is_sensitive (\<lambda>s. publication_text_is_sensitive codecs m' s (depth + 1)) j
      = json_value_is_sensitive (\<lambda>s. publication_text_is_sensitive codecs n' s (depth + 1)) j"
    if "tc_json codecs v = Some j" for j
    using that assms by (intro json_value_cong eq) (auto simp: shrinking_codecs_def)
  moreover have "list_ex (\<lambda>d. publication_text_is_sensitive codecs m' d (depth + 1)) (decoded_base64_texts codecs v)
      = list_ex (\<lambda>d. publication_text_is_sensitive codecs n' d (depth + 1)) (decoded_base64_texts codecs v)"
    using eq base64_shorter [OF assms] by (auto simp: list_ex_iff)
  ultimately show ?case
    using eq [OF percent_decode_shorter] unfolding mn publication_text_is_sensitive.simps
    by (auto split: option.splits)
qed

text \<open>
  C24.  The publication policy always answers: with decoders that shrink their text, any fuel above
  the length of the text gives the answer of \<open>must_redact_before_publishing\<close>, so the nesting of JSON
  strings and decoders cannot run away although only the decoders count their depth.
\<close>

theorem enough_redaction_fuel:
  assumes "shrinking_codecs codecs" "length v < fuel"
  shows "publication_text_is_sensitive codecs fuel v 0 = must_redact_before_publishing codecs v"
  unfolding must_redact_before_publishing_def
  by (rule redaction_fuel_irrelevant [OF assms]) (simp add: redaction_fuel_def)


section \<open>Evaluation\<close>

lemma joined_secret_code [code]:
  "joined_secret n joined prev segs =
     (if n = 0 then False else case segs of [] \<Rightarrow> False | seg # rest \<Rightarrow>
        if length (os_value seg) < 4 then False
        else if opt_all (\<lambda>e. os_start seg - e > 3) prev \<and> prev \<noteq> None then False
        else if prev \<noteq> None \<and> looks_like_secret_token (joined @ os_value seg) then True
        else joined_secret (n - 1) (joined @ os_value seg) (Some (os_end seg)) rest)"
  by (cases n; cases segs; cases prev) (simp_all add: Let_def)

lemma publication_text_code [code]:
  "publication_text_is_sensitive codecs fuel v depth =
     (if fuel = 0 then True
      else if contains_sensitive_report_text v \<or> contains_publish_only_pattern v
        \<or> contains_sensitive_url codecs v \<or> contains_sensitive_assignment v then True
      else if (case tc_json codecs v of None \<Rightarrow> False
         | Some j \<Rightarrow> json_value_is_sensitive (\<lambda>s. publication_text_is_sensitive codecs (fuel - 1) s (depth + 1)) j)
      then True
      else if contains_secret_shape v then True
      else if depth < 2 then
        (case percent_decode_text v of None \<Rightarrow> False
             | Some d \<Rightarrow> publication_text_is_sensitive codecs (fuel - 1) d (depth + 1))
        \<or> list_ex (\<lambda>d. publication_text_is_sensitive codecs (fuel - 1) d (depth + 1)) (decoded_base64_texts codecs v)
      else False)"
  by (cases fuel; cases "percent_decode_text v"; cases "tc_json codecs v") auto

lemma looks_like_secret_token_code [code]:
  "looks_like_secret_token word =
     (let token = trim_matches (\<lambda>c. \<not> credential_byte c) word
      in if length token < MIN_TOKEN_LEN then False
         else if contains_sub token ''://'' \<or> \<not> list_all credential_byte token \<or> \<not> list_ex is_alpha token
           \<or> \<not> list_ex is_digit token then False
         else if looks_like_word_identifier token then False else enough_entropy token)"
  by (auto simp: looks_like_secret_token_def Let_def)

text \<open>A decoder for quoted texts without escapes.\<close>

definition quoting_codecs :: text_codecs where
  "quoting_codecs = \<lparr>tc_json = (\<lambda>v. if length v \<ge> 2 \<and> hd v = CHR 0x22 \<and> last v = CHR 0x22
       then Some (JStr (butlast (tl v))) else None),
     tc_url = (\<lambda>_. None), tc_base64 = (\<lambda>_ _. None)\<rparr>"

lemma shrinking_quoting_codecs: "shrinking_codecs quoting_codecs"
  by (auto simp: shrinking_codecs_def quoting_codecs_def)

definition quoted_twice :: string where
  "quoted_twice = [CHR 0x22, CHR 0x22] @ ''token=abc'' @ [CHR 0x22, CHR 0x22]"

theorem enough_redaction_fuel_witness:
  "shrinking_codecs quoting_codecs \<and> must_redact_before_publishing quoting_codecs quoted_twice
   \<and> publication_text_is_sensitive quoting_codecs 40 quoted_twice 0
       = must_redact_before_publishing quoting_codecs quoted_twice"
proof (intro conjI)
  show "shrinking_codecs quoting_codecs" by (rule shrinking_quoting_codecs)
  then show "publication_text_is_sensitive quoting_codecs 40 quoted_twice 0
      = must_redact_before_publishing quoting_codecs quoted_twice"
    by (rule enough_redaction_fuel) (simp add: quoted_twice_def)
  show "must_redact_before_publishing quoting_codecs quoted_twice" by code_simp
qed

end
