(* ===== verification/IssuePublication.thy ===== *)
theory IssuePublication
  imports IssueTemplate SensitiveTextFacts
begin

text \<open>
  A rendered issue shows nothing of a redacted text: title and body are the same for any two template
  data that differ in redacted texts only.
\<close>

section \<open>An example\<close>

definition sample_issue :: "string \<Rightarrow> string \<Rightarrow> issue_template_data" where
  "sample_issue why detail = \<lparr>it_group_key = ''k1'', it_explanation = why, it_primary_kind = ''bug'',
     it_primary_topic = ''ui'', it_primary_operation = ''save'', it_impacts = [],
     it_findings = [\<lparr>if_kind = ''bug'', if_topic = ''ui'', if_count = 1, if_detail_count = 1, if_details = [detail]\<rparr>],
     it_workarounds = [], it_operations = [''save''], it_surfaces = [], it_status_codes = [],
     it_earliest = None, it_latest = None, it_report_count = 1, it_backlink = ''https://a''\<rparr>"

section \<open>Redacted texts\<close>

text \<open>Replacing every customer text of the template data.\<close>

definition hide_workaround :: "(string \<Rightarrow> string) \<Rightarrow> json \<Rightarrow> json" where
  "hide_workaround f w =
     (case w of
        JObj members \<Rightarrow>
          JObj (map (\<lambda>(key, v). (key, if key = ''detail'' then (case v of JStr s \<Rightarrow> JStr (f s) | _ \<Rightarrow> v) else v)) members)
      | _ \<Rightarrow> w)"

definition hide :: "(string \<Rightarrow> string) \<Rightarrow> issue_template_data \<Rightarrow> issue_template_data" where
  "hide f d = d\<lparr>it_explanation := f (it_explanation d), it_primary_kind := f (it_primary_kind d),
     it_primary_topic := f (it_primary_topic d), it_primary_operation := f (it_primary_operation d),
     it_impacts := map (\<lambda>i. i\<lparr>ic_value := f (ic_value i)\<rparr>) (it_impacts d),
     it_findings := map (\<lambda>g. g\<lparr>if_kind := f (if_kind g), if_topic := f (if_topic g),
                               if_details := map f (if_details g)\<rparr>) (it_findings d),
     it_workarounds := map (hide_workaround f) (it_workarounds d),
     it_operations := map f (it_operations d), it_surfaces := map f (it_surfaces d)\<rparr>"

definition issue_texts :: "issue_template_data \<Rightarrow> string set" where
  "issue_texts d =
     {it_explanation d, it_primary_kind d, it_primary_topic d, it_primary_operation d}
     \<union> ic_value ` set (it_impacts d)
     \<union> (\<Union>g \<in> set (it_findings d). {if_kind g, if_topic g} \<union> set (if_details g))
     \<union> set (List.map_filter workaround_detail (it_workarounds d))
     \<union> set (it_operations d) \<union> set (it_surfaces d)"

definition alike :: "(string \<Rightarrow> bool) \<Rightarrow> (string \<Rightarrow> bool) \<Rightarrow> (string \<Rightarrow> string) \<Rightarrow> string \<Rightarrow> bool" where
  "alike red red' f v \<longleftrightarrow> red' (f v) = red v \<and> (\<not> red v \<longrightarrow> f v = v)"

lemma alike_texts [simp]:
  assumes "alike red red' f v"
  shows "safe_customer_title_text red' (f v) n = safe_customer_title_text red v n"
    and "safe_customer_inline_text red' (f v) n = safe_customer_inline_text red v n"
    and "clean_code_text red' (f v) n = clean_code_text red v n"
  using assms by (auto simp: alike_def safe_customer_title_text_def safe_customer_inline_text_def
      clean_code_text_def)

lemma map_of_map_detail:
  "map_of (map (\<lambda>(k, v). (k, if k = j then g v else v)) kvs) k
     = (if k = j then map_option g (map_of kvs k) else map_of kvs k)"
  by (induction kvs) auto

lemma hide_workaround_detail [simp]: "workaround_detail (hide_workaround f w) = map_option f (workaround_detail w)"
proof (cases w)
  case (JObj kvs)
  then show ?thesis
    by (cases "map_of kvs ''detail''")
      (auto simp: workaround_detail_def hide_workaround_def map_of_map_detail json_str_def split: json.split)
qed (simp_all add: workaround_detail_def hide_workaround_def)

lemma hide_workaround_used [simp]: "workaround_used (hide_workaround f w) = workaround_used w"
  by (cases w) (auto simp: workaround_used_def hide_workaround_def map_of_map_detail)

lemma alike_details:
  assumes "\<And>v. v \<in> set ds \<Longrightarrow> alike red red' f v" "inj_on f (set ds \<union> set seen)"
  shows "detail_loop red' (map f ds) (map f seen) out m n = detail_loop red ds seen out m n"
  using assms
proof (induction red ds seen out m n rule: detail_loop.induct)
  case (2 red v ds seen out m n)
  have seen: "f v \<in> f ` set seen \<longleftrightarrow> v \<in> set seen"
    using 2(5) by (simp add: inj_on_image_mem_iff [of f "insert v (set ds \<union> set seen)"] subset_insertI2)
  have inj: "inj_on f (set ds \<union> set seen)" "inj_on f (set ds \<union> set (v # seen))"
    using 2(5) by (auto simp: inj_on_def)
  have v: "red' (f v) = red v" "\<not> red v \<Longrightarrow> f v = v" using 2(4) [of v] by (auto simp: alike_def)
  show ?case
    using 2(1) [OF _ 2(4) inj(1)] 2(2) [OF _ _ 2(4) inj(2)] 2(3) [OF _ _ refl _ 2(4) inj(2)] seen v
    by (auto simp: Let_def)
qed simp

lemma alike_finding:
  assumes "\<And>v. v \<in> {if_kind g, if_topic g} \<union> set (if_details g) \<Longrightarrow> alike red red' f v"
    "inj_on f (set (if_details g))"
  shows "render_finding red' (g\<lparr>if_kind := f (if_kind g), if_topic := f (if_topic g), if_details := map f (if_details g)\<rparr>)
      = render_finding red g"
proof -
  have "alike red red' f (if_kind g)" "alike red red' f (if_topic g)" using assms(1) by auto
  moreover have "detail_loop red' (map f (if_details g)) [] [] 0 0 = detail_loop red (if_details g) [] [] 0 0"
    using assms alike_details [of "if_details g" red red' f "[]" "[]" 0 0] by simp
  ultimately show ?thesis by (simp add: render_finding_def)
qed

lemma alike_workaround:
  "(\<And>v. workaround_detail w = Some v \<Longrightarrow> alike red red' f v) \<Longrightarrow>
     render_workaround red' (hide_workaround f w) = render_workaround red w"
  by (auto simp: render_workaround_def alike_def split: option.splits)


lemma alike_values:
  assumes "\<And>v. v \<in> set vs \<Longrightarrow> alike red red' f v"
  shows "render_values red' (map f vs) n = render_values red vs n"
proof -
  have "map (\<lambda>v. safe_customer_inline_text red' v 100) (take n (map f vs))
      = map (\<lambda>v. safe_customer_inline_text red v 100) (take n vs)"
    using assms by (simp add: take_map comp_def) (meson alike_texts(2) in_set_takeD)
  then show ?thesis by (simp add: render_values_def)
qed

lemma alike_impacts:
  assumes "\<And>i. i \<in> set is \<Longrightarrow> alike red red' f (ic_value i)"
  shows "impact_section red' (map (\<lambda>i. i\<lparr>ic_value := f (ic_value i)\<rparr>) is) = impact_section red is"
proof -
  have "map (\<lambda>i. line (''- '' @ safe_customer_inline_text red' (ic_value i) 100 @ '': '' @ show_int (ic_count i)))
          (take MAX_IMPACT_VALUES (map (\<lambda>i. i\<lparr>ic_value := f (ic_value i)\<rparr>) is))
      = map (\<lambda>i. line (''- '' @ safe_customer_inline_text red (ic_value i) 100 @ '': '' @ show_int (ic_count i)))
          (take MAX_IMPACT_VALUES is)"
    using alike_texts(2) [OF assms] by (auto simp: take_map dest!: in_set_takeD)
  then show ?thesis by (simp add: impact_section_def)
qed

lemma alike_findings:
  assumes "\<And>g v. g \<in> set gs \<Longrightarrow> v \<in> {if_kind g, if_topic g} \<union> set (if_details g) \<Longrightarrow> alike red red' f v"
    "\<And>g. g \<in> set gs \<Longrightarrow> inj_on f (set (if_details g))"
  shows "findings_section red' (map (\<lambda>g. g\<lparr>if_kind := f (if_kind g), if_topic := f (if_topic g),
             if_details := map f (if_details g)\<rparr>) gs) = findings_section red gs"
proof -
  have "map (render_finding red') (take MAX_FINDING_GROUPS (map (\<lambda>g. g\<lparr>if_kind := f (if_kind g),
            if_topic := f (if_topic g), if_details := map f (if_details g)\<rparr>) gs))
      = map (render_finding red) (take MAX_FINDING_GROUPS gs)"
    using assms by (auto simp: take_map intro!: alike_finding dest!: in_set_takeD)
  then show ?thesis by (simp add: findings_section_def)
qed

lemma alike_workarounds:
  assumes "\<And>w v. w \<in> set ws \<Longrightarrow> workaround_detail w = Some v \<Longrightarrow> alike red red' f v"
  shows "workaround_section red' (map (hide_workaround f) ws) = workaround_section red ws"
proof -
  have "map (render_workaround red') (take MAX_WORKAROUNDS (map (hide_workaround f) ws))
      = map (render_workaround red) (take MAX_WORKAROUNDS ws)"
    using assms by (auto simp: take_map intro!: alike_workaround dest!: in_set_takeD)
  then show ?thesis by (simp add: workaround_section_def)
qed

lemma in_map_filter: "x \<in> set xs \<Longrightarrow> g x = Some y \<Longrightarrow> y \<in> set (List.map_filter g xs)"
  by (induction xs) (auto simp: List.map_filter_simps split: option.splits)

lemma alike_issue:
  assumes "\<And>v. v \<in> issue_texts d \<Longrightarrow> alike red red' f v" "inj_on f (issue_texts d)"
  shows "render_title_with red' (hide f d) = render_title_with red d"
    and "render_body_with fmt red' (hide f d) = render_body_with fmt red d"
proof -
  have a: "alike red red' f (it_explanation d)" "alike red red' f (it_primary_kind d)"
      "alike red red' f (it_primary_topic d)" "alike red red' f (it_primary_operation d)"
    using assms(1) by (auto simp: issue_texts_def)
  have i: "alike red red' f (ic_value i)" if "i \<in> set (it_impacts d)" for i
    using assms(1) that by (auto simp: issue_texts_def)
  have g: "alike red red' f v" if "g \<in> set (it_findings d)" "v \<in> {if_kind g, if_topic g} \<union> set (if_details g)" for g v
    using that by (intro assms(1)) (auto simp: issue_texts_def)
  have inj: "inj_on f (set (if_details g))" if "g \<in> set (it_findings d)" for g
    by (rule inj_on_subset [OF assms(2)]) (use that in \<open>auto simp: issue_texts_def\<close>)
  have w: "alike red red' f v" if "w \<in> set (it_workarounds d)" "workaround_detail w = Some v" for w v
    using that by (intro assms(1)) (auto simp: issue_texts_def intro: in_map_filter)
  have vs: "alike red red' f v" if "v \<in> set (it_operations d) \<union> set (it_surfaces d)" for v
    using that by (intro assms(1)) (auto simp: issue_texts_def)
  show "render_title_with red' (hide f d) = render_title_with red d"
    using a by (simp add: render_title_with_def hide_def)
  have "where_section red' (hide f d) = where_section red d"
    using alike_values [of "it_operations d" red red' f] alike_values [of "it_surfaces d" red red' f] vs
    unfolding where_section_def hide_def by simp
  moreover have "impact_section red' (it_impacts (hide f d)) = impact_section red (it_impacts d)"
    using alike_impacts [of "it_impacts d" red red' f, OF i] by (simp add: hide_def)
  moreover have "findings_section red' (it_findings (hide f d)) = findings_section red (it_findings d)"
    using alike_findings [of "it_findings d" red red' f, OF g inj] by (simp add: hide_def)
  moreover have "workaround_section red' (it_workarounds (hide f d)) = workaround_section red (it_workarounds d)"
    using alike_workarounds [of "it_workarounds d" red red' f, OF w] by (simp add: hide_def)
  moreover have "safe_customer_inline_text red' (it_explanation (hide f d)) 1000
      = safe_customer_inline_text red (it_explanation d) 1000"
    using a(1) by (simp add: hide_def)
  ultimately have "body_text fmt red' (hide f d) = body_text fmt red d"
    by (simp add: body_text_def hide_def)
  then show "render_body_with fmt red' (hide f d) = render_body_with fmt red d"
    by (simp add: render_body_with_def hide_def)
qed

text \<open>
  C27.  Nothing of a redacted text reaches a public issue.  Let \<open>f\<close> replace the customer's texts so that
  every text the policy publishes stays as it is, every text it redacts becomes another text the policy
  redacts, and different texts stay different: title and body of the issue do not change in a byte.
\<close>

theorem redacted_texts_do_not_reach_the_issue:
  assumes "\<forall>v \<in> issue_texts d. must_redact (must_redact_before_publishing codecs) (hide f d) (f v)
                                 = must_redact (must_redact_before_publishing codecs) d v"
    and "\<forall>v \<in> issue_texts d. \<not> must_redact (must_redact_before_publishing codecs) d v \<longrightarrow> f v = v"
    and "inj_on f (issue_texts d)"
  shows "render_issue_title codecs (hide f d) = render_issue_title codecs d
    \<and> render_issue_body codecs fmt (hide f d) = render_issue_body codecs fmt d"
  unfolding render_issue_title_def render_issue_body_def
  using assms(1,2) by (intro conjI alike_issue assms(3)) (simp_all add: alike_def)


definition swap_secret :: "string \<Rightarrow> string" where
  "swap_secret v = (if v = ''password hunter2'' then ''Authorization: x'' else v)"

definition secret_issue :: issue_template_data where
  "secret_issue = sample_issue ''password hunter2'' ''slow page''"

lemma secret_issue_texts:
  "issue_texts secret_issue = set [''password hunter2'', ''bug'', ''ui'', ''save'', ''slow page'']"
  by (auto simp: issue_texts_def secret_issue_def sample_issue_def List.map_filter_simps)

lemma secret_issue_windows:
  "publication_redactions (must_redact_before_publishing quoting_codecs) secret_issue = []"
  "publication_redactions (must_redact_before_publishing quoting_codecs) (hide swap_secret secret_issue) = []"
  by code_simp+

lemma secret_issue_policy:
  "map (must_redact_before_publishing quoting_codecs)
     [''password hunter2'', ''Authorization: x'', ''bug'', ''ui'', ''save'', ''slow page''] = [True, True, False, False, False, False]"
  by code_simp

theorem redacted_texts_do_not_reach_the_issue_witness:
  "it_explanation (hide swap_secret secret_issue) \<noteq> it_explanation secret_issue
   \<and> render_issue_title quoting_codecs (hide swap_secret secret_issue) = render_issue_title quoting_codecs secret_issue
   \<and> render_issue_body quoting_codecs show_int (hide swap_secret secret_issue)
       = render_issue_body quoting_codecs show_int secret_issue"
proof -
  have "it_explanation (hide swap_secret secret_issue) \<noteq> it_explanation secret_issue" by code_simp
  moreover have "inj_on swap_secret (issue_texts secret_issue)"
    unfolding secret_issue_texts by (auto simp: inj_on_def swap_secret_def)
  ultimately show ?thesis
    using redacted_texts_do_not_reach_the_issue [of secret_issue quoting_codecs swap_secret show_int] secret_issue_policy
    unfolding secret_issue_texts by (simp add: swap_secret_def must_redact_def secret_issue_windows)
qed

end
