(* ===== verification/IssueLayout.thy ===== *)
theory IssueLayout
  imports IssuePublication
begin

text \<open>
  The shape of a rendered issue: customer text stays inside its fence, every fence is closed, the body
  fits GitHub's limit and ends with the group's marker, and the title mentions and links nothing.
\<close>

section \<open>Occurrences across a separator\<close>

lemma starts_with_Nil [simp]: "starts_with [] s"
  by (simp add: starts_with_def)

lemma starts_with_Cons [simp]: "starts_with (p # ps) (c # s) \<longleftrightarrow> p = c \<and> starts_with ps s"
  by (auto simp: starts_with_def)

lemma starts_with_Cons_Nil [simp]: "\<not> starts_with (p # ps) []"
  by (simp add: starts_with_def)

lemma starts_with_app_sep:
  "c \<notin> set pat \<Longrightarrow> starts_with pat (a @ c # b) \<longleftrightarrow> starts_with pat a"
proof (induction pat arbitrary: a)
  case (Cons p ps)
  then show ?case by (cases a) auto
qed simp

lemma contains_sub_sep:
  assumes "c \<notin> set pat" "pat \<noteq> []"
  shows "contains_sub (a @ c # b) pat \<longleftrightarrow> contains_sub a pat \<or> contains_sub b pat"
proof (induction a)
  case Nil
  have "\<not> starts_with pat (c # b)" using starts_with_app_sep [OF assms(1), of "[]" b] assms(2)
    by (cases pat) auto
  then show ?case using assms(2) by simp
next
  case (Cons x a)
  then show ?case using starts_with_app_sep [OF assms(1), of "x # a" b] by simp
qed

lemma after_matches_sep:
  assumes "c \<notin> set pat" "pat \<noteq> []"
  shows "length (after_matches pat (a @ c # b)) = length (after_matches pat a) + length (after_matches pat b)"
  using assms
proof (induction pat a rule: after_matches.induct)
  case (1 pat a)
  have start: "starts_with pat (a @ c # b) \<longleftrightarrow> starts_with pat a"
    by (rule starts_with_app_sep [OF 1(3)])
  show ?case
  proof (cases a)
    case Nil
    then show ?thesis using start 1(4)
      by (subst after_matches.simps) (auto simp: starts_with_def after_matches.simps [of pat "[]"])
  next
    case (Cons x xs)
    show ?thesis
    proof (cases "starts_with pat a")
      case True
      then have "length pat \<le> length a" by (metis starts_with_def length_take min.absorb_iff2 min.commute)
      then have "drop (length pat) (x # xs @ c # b) = drop (length pat) (x # xs) @ c # b"
        using drop_append [of "length pat" "x # xs" "c # b"] Cons by simp
      with True start 1 Cons show ?thesis by (subst (1 2) after_matches.simps) simp
    next
      case False
      with start 1 Cons show ?thesis by (subst (1 2) after_matches.simps) simp
    qed
  qed
qed

lemma after_matches_none: "pat \<noteq> [] \<Longrightarrow> \<not> contains_sub s pat \<Longrightarrow> after_matches pat s = []"
proof (induction pat s rule: after_matches.induct)
  case (1 pat s)
  then show ?case by (cases s) (subst after_matches.simps, simp)+
qed

section \<open>Fences\<close>

definition calm :: "string \<Rightarrow> bool" where
  "calm s \<longleftrightarrow> \<not> contains_sub s FENCE"

lemma fence_chars: "FENCE \<noteq> []" "c \<noteq> CHR 0x60 \<Longrightarrow> c \<notin> set FENCE" by (simp_all add: FENCE_def)

lemma length_FENCE: "length FENCE = 3" by (simp add: FENCE_def)

lemma calm_Nil [simp]: "calm []" by (simp add: calm_def FENCE_def)

lemma calm_Cons [simp]: "c \<noteq> CHR 0x60 \<Longrightarrow> calm (c # s) \<longleftrightarrow> calm s"
  using contains_sub_sep [OF fence_chars(2,1), of c "[]" s] by (simp add: calm_def FENCE_def)

lemma calm_sep [simp]: "c \<noteq> CHR 0x60 \<Longrightarrow> calm (a @ c # b) \<longleftrightarrow> calm a \<and> calm b"
  using contains_sub_sep [OF fence_chars(2,1)] by (simp add: calm_def)

lemma calm_no_tick: "CHR 0x60 \<notin> set s \<Longrightarrow> calm s"
  by (induction s) auto

lemma fence_count_calm: "calm s \<Longrightarrow> fence_count s = 0"
  by (simp add: fence_count_def calm_def after_matches_none fence_chars)

lemma fence_count_sep:
  "c \<noteq> CHR 0x60 \<Longrightarrow> fence_count (a @ c # b) = fence_count a + fence_count b"
  by (simp add: fence_count_def after_matches_sep fence_chars)

lemma fence_count_line [simp]: "fence_count (line a @ b) = fence_count a + fence_count b"
  by (simp add: line_def NEWLINE_def fence_count_sep)

lemma fence_count_line0 [simp]: "fence_count (line a) = fence_count a"
  using fence_count_line [of a "[]"] by (simp add: fence_count_calm)

lemma fence_count_newline [simp]: "fence_count (NEWLINE @ b) = fence_count b"
  using fence_count_sep [of "CHR 0x0A" "[]" b] by (simp add: NEWLINE_def fence_count_calm)


fun leading_ticks :: "string \<Rightarrow> nat" where
  "leading_ticks [] = 0"
| "leading_ticks (c # s) = (if c = CHR 0x60 then Suc (leading_ticks s) else 0)"

lemma leading_ticks_fence: "starts_with FENCE s \<Longrightarrow> leading_ticks s = 3 + leading_ticks (drop 3 s)"
  by (auto simp: starts_with_iff prefix_def FENCE_def)

lemma starts_with_FENCE: "starts_with FENCE s \<longleftrightarrow> 3 \<le> leading_ticks s"
proof
  assume "3 \<le> leading_ticks s"
  then obtain r where "s = FENCE @ r"
    by (cases s; cases "tl s"; cases "tl (tl s)") (auto simp: FENCE_def split: if_splits)
  then show "starts_with FENCE s" by (auto simp: starts_with_iff)
qed (simp add: leading_ticks_fence)

text \<open>Removing every fence leaves none: a run of \<open>k\<close> backticks becomes one of \<open>k mod 3\<close>.\<close>

lemma removed_fences:
  "calm (replace_sub FENCE [] s) \<and> leading_ticks (replace_sub FENCE [] s) = leading_ticks s mod 3"
proof (induction s rule: length_induct)
  case (1 s)
  show ?case
  proof (cases s)
    case Nil
    then show ?thesis by (subst (1 2) replace_sub.simps) simp
  next
    case (Cons c cs)
    show ?thesis
    proof (cases "starts_with FENCE s")
      case True
      then have eq: "replace_sub FENCE [] s = replace_sub FENCE [] (drop 3 s)"
        using Cons True by (subst replace_sub.simps) (simp add: fence_chars length_FENCE del: starts_with_Cons)
      have "length (drop 3 s) < length s" using Cons by simp
      with 1 have "calm (replace_sub FENCE [] (drop 3 s))"
        "leading_ticks (replace_sub FENCE [] (drop 3 s)) = leading_ticks (drop 3 s) mod 3" by blast+
      with eq leading_ticks_fence [OF True] show ?thesis by simp
    next
      case False
      let ?w = "replace_sub FENCE [] cs"
      have eq: "replace_sub FENCE [] s = c # ?w"
        using Cons False by (subst replace_sub.simps) (simp add: fence_chars)
      have w: "calm ?w" "leading_ticks ?w = leading_ticks cs mod 3" using 1 Cons by auto
      have "leading_ticks s < 3" using False by (simp add: starts_with_FENCE)
      then have l: "leading_ticks (c # ?w) = leading_ticks s mod 3"
        using w(2) Cons by (auto split: if_splits)
      then have "\<not> starts_with FENCE (c # ?w)" by (simp add: starts_with_FENCE del: leading_ticks.simps)
      with w(1) have "calm (c # ?w)" by (simp add: calm_def del: starts_with_Cons)
      with eq l show ?thesis by simp
    qed
  qed
qed

lemma contains_itself [simp]: "contains_sub s s"
  unfolding contains_sub_iff by (metis append_Nil append_Nil2)

lemma words_in_text: "w \<in> set (words_from run s) \<Longrightarrow> contains_sub (rev run @ s) w"
proof (induction run s arbitrary: w rule: words_from.induct)
  case (1 run s)
  note IH = 1(1,2) and w = 1(3)
  show ?case
  proof (cases "s = []")
    case True
    with w show ?thesis
      by (subst (asm) words_from.simps) (auto split: if_splits)
  next
    case s: False
    show ?thesis
    proof (cases "ws_len s = 0")
      case True
      then have "w \<in> set (words_from (hd s # run) (tl s))" using w s by (subst (asm) words_from.simps) simp
      from IH(1) [OF s True this] show ?thesis using s by (cases s) auto
    next
      case False
      then consider (run) "w = rev run" | (rest) "w \<in> set (words_from [] (drop (ws_len s) s))"
        using w s by (subst (asm) words_from.simps) (auto split: if_splits)
      then show ?thesis
      proof cases
        case run
        then show ?thesis unfolding contains_sub_iff by (metis append_Nil)
      next
        case rest
        from IH(2) [OF s False this] obtain a b where "drop (ws_len s) s = a @ w @ b"
          by (auto simp: contains_sub_iff)
        then have "rev run @ s = (rev run @ take (ws_len s) s @ a) @ w @ b"
          by (metis append.assoc append_take_drop_id)
        then show ?thesis unfolding contains_sub_iff by blast
      qed
    qed
  qed
qed


lemma contains_sub_trans: "contains_sub s t \<Longrightarrow> contains_sub t u \<Longrightarrow> contains_sub s u"
  unfolding contains_sub_iff by (metis append.assoc)

lemma calm_words: "calm s \<Longrightarrow> w \<in> set (split_whitespace s) \<Longrightarrow> calm w"
  using words_in_text [of w "[]" s] contains_sub_trans [of s w FENCE]
  by (auto simp: calm_def split_whitespace_def)

lemma calm_join:
  "list_all calm ws \<Longrightarrow> calm (join '' '' ws)"
  "list_all calm ws \<Longrightarrow> calm (join '', '' ws)"
proof -
  show "list_all calm ws \<Longrightarrow> calm (join '' '' ws)"
  proof (induction ws)
    case (Cons w ws)
    then show ?case by (cases ws) auto
  qed simp
  show "list_all calm ws \<Longrightarrow> calm (join '', '' ws)"
  proof (induction ws)
    case (Cons w ws)
    then show ?case by (cases ws) auto
  qed simp
qed

lemma calm_utf8_take: "calm s \<Longrightarrow> calm (utf8_take n s)"
  using prefix_utf8_take [of n s] by (auto simp: calm_def contains_sub_iff prefix_def)

lemma calm_truncate [simp]: "calm s \<Longrightarrow> calm (truncate_chars s n)"
  using calm_utf8_take [of s "n - 1"] by (simp add: truncate_chars_def ELLIPSIS_def)

lemma calm_clean_text: "calm s \<Longrightarrow> calm (clean_text s n)"
  by (simp add: clean_text_def calm_join(1) list_all_iff calm_words)

lemma no_newline_words: "CHR 0x0A \<notin> set run \<Longrightarrow> w \<in> set (words_from run s) \<Longrightarrow> CHR 0x0A \<notin> set w"
proof (induction run s arbitrary: w rule: words_from.induct)
  case (1 run s)
  note IH = 1(1,2) and run = 1(3) and w = 1(4)
  have "ws_len s \<noteq> 0" if "s \<noteq> []" "hd s = CHR 0x0A"
    using that by (cases s) (simp_all add: ws_len_def byte_val_def)
  then have nl: "CHR 0x0A \<noteq> hd s" if "s \<noteq> []" "ws_len s = 0" using that by metis
  show ?case
  proof (cases "s \<noteq> [] \<and> ws_len s = 0")
    case True
    then have "w \<in> set (words_from (hd s # run) (tl s))" using w by (subst (asm) words_from.simps) simp
    then show ?thesis using IH(1) [of w] True nl run by simp
  next
    case False
    then consider "w = rev run" | "s \<noteq> []" "ws_len s \<noteq> 0" "w \<in> set (words_from [] (drop (ws_len s) s))"
      using w by (subst (asm) words_from.simps) (auto split: if_splits)
    then show ?thesis using IH(2) [of w] run by cases simp_all
  qed
qed

lemma in_joined: "c \<in> set (join sep ws) \<Longrightarrow> c \<in> set sep \<or> (\<exists>w \<in> set ws. c \<in> set w)"
proof (induction ws)
  case (Cons w ws)
  then show ?case by (cases ws) auto
qed simp

lemma in_truncated: "c \<in> set (truncate_chars s n) \<Longrightarrow> c \<in> set s \<or> c \<in> set ELLIPSIS"
  using set_mono_prefix [OF prefix_utf8_take [of "n - 1" s]]
  by (auto simp: truncate_chars_def split: if_splits)

lemma no_newline_clean: "CHR 0x0A \<notin> set (clean_text s n)"
proof
  assume "CHR 0x0A \<in> set (clean_text s n)"
  then have "CHR 0x0A \<in> set (join '' '' (split_whitespace s))"
    using in_truncated [of "CHR 0x0A"] by (simp add: clean_text_def ELLIPSIS_def)
  from in_joined [OF this] obtain w where "w \<in> set (split_whitespace s)" "CHR 0x0A \<in> set w" by auto
  then show False using no_newline_words [of "[]" w s] by (simp add: split_whitespace_def)
qed

section \<open>Customer text cannot open a fence\<close>

lemma replace_byte_no: "c \<notin> set r \<Longrightarrow> c \<notin> set (replace_byte c r s)"
  by (induction s) auto

lemma code_text_no_tick: "CHR 0x60 \<notin> set (clean_code_text red v n)"
  by (auto simp: clean_code_text_def intro!: replace_byte_no)

lemma calm_ticks:
  assumes "CHR 0x60 \<notin> set s" "calm t" "c \<noteq> CHR 0x60"
  shows "calm (s @ CHR 0x60 # c # t)"
proof -
  have "calm ([CHR 0x60] @ c # t)" using assms by (subst calm_sep) (simp_all add: calm_def FENCE_def)
  with assms(1) show ?thesis by (induction s) auto
qed

lemma escaped_ticks:
  "calm (escape_markdown first s) \<and> (escape_markdown first s = [] \<or> hd (escape_markdown first s) \<noteq> CHR 0x60)"
proof (induction first s rule: escape_markdown.induct)
  case (2 first c s)
  have tick: "markdown_byte (CHR 0x60)" by (simp add: markdown_byte_def)
  let ?r = "escape_markdown False s"
  from 2 have r: "calm ?r" "?r = [] \<or> hd ?r \<noteq> CHR 0x60" by auto
  have "calm (CHR 0x60 # ?r)"
    using r by (cases ?r) (auto simp: calm_def FENCE_def)
  with r tick show ?case by (cases "c = CHR 0x60") auto
qed simp

lemma calm_inline_text [simp]: "calm (safe_customer_inline_text red v n)"
  using escaped_ticks by (simp add: safe_customer_inline_text_def)

lemma digit_not_tick: "d < 10 \<Longrightarrow> CHR 0x60 \<noteq> digit_char d"
proof
  assume d: "d < 10" and "CHR 0x60 = digit_char d"
  with byte_val_digit_char [OF d] have "byte_val (CHR 0x60) = 48 + d" by simp
  with d show False by (simp add: byte_val_def)
qed

lemma show_nat_no_tick: "CHR 0x60 \<notin> set (show_nat n)"
proof (induction n rule: show_nat.induct)
  case (1 n)
  show ?case
  proof (cases "n < 10")
    case True
    then show ?thesis by (subst show_nat.simps) (simp add: digit_not_tick)
  next
    case False
    with 1 show ?thesis by (subst show_nat.simps) (simp add: digit_not_tick)
  qed
qed

lemma calm_show_nat [simp]: "calm (show_nat n)"
  by (rule calm_no_tick [OF show_nat_no_tick])

lemma calm_show_int [simp]: "calm (show_int n)"
  by (simp add: show_int_def)


section \<open>Every fence of the body is closed\<close>

text \<open>Whole lines with an even number of fences.\<close>

definition balanced :: "string \<Rightarrow> bool" where
  "balanced s \<longleftrightarrow> (s = [] \<or> last s = CHR 0x0A) \<and> even (fence_count s)"

lemma fence_count_whole:
  assumes "s = [] \<or> last s = CHR 0x0A"
  shows "fence_count (s @ t) = fence_count s + fence_count t"
proof (cases "s = []")
  case False
  then have "s = line (butlast s)" using assms by (simp add: line_def NEWLINE_def) (metis append_butlast_last_id)
  then show ?thesis by (metis fence_count_line fence_count_line0)
qed (simp add: fence_count_calm)

lemma balanced_Nil [simp]: "balanced []"
  by (simp add: balanced_def fence_count_calm)

lemma balanced_append [simp]: "balanced a \<Longrightarrow> balanced b \<Longrightarrow> balanced (a @ b)"
  by (auto simp: balanced_def fence_count_whole last_append)

lemma balanced_line [simp]: "calm a \<Longrightarrow> balanced (line a)"
  by (simp add: balanced_def fence_count_calm) (simp add: line_def NEWLINE_def)

lemma balanced_newline [simp]: "balanced b \<Longrightarrow> balanced (NEWLINE @ b)"
  using balanced_line [of "[]"] balanced_append [of NEWLINE b] by (simp add: line_def)

lemma balanced_concat [simp]: "(\<And>x. x \<in> set xs \<Longrightarrow> balanced (f x)) \<Longrightarrow> balanced (concat (map f xs))"
  by (induction xs) auto

lemma balanced_detail [simp]:
  assumes "calm before" "calm label"
  shows "balanced (render_fenced_detail before label detail n)"
proof -
  let ?indent = "before @ ''  ''" and ?text = "clean_text (replace_sub FENCE [] detail) n"
  have "fence_count (FENCE @ ''text'') = 1" and "fence_count FENCE = 1" by code_simp+
  then have f: "fence_count (?indent @ FENCE @ ''text'') = 1" "fence_count (?indent @ FENCE) = 1"
    using assms(1) fence_count_sep [of "CHR '' ''" before "CHR '' '' # FENCE @ ''text''"]
      fence_count_sep [of "CHR '' ''" "[]" "FENCE @ ''text''"]
      fence_count_sep [of "CHR '' ''" before "CHR '' '' # FENCE"]
      fence_count_sep [of "CHR '' ''" "[]" FENCE] by (simp_all add: fence_count_calm)
  have t: "fence_count (?indent @ ?text) = 0"
    using assms(1) removed_fences calm_clean_text by (auto intro!: fence_count_calm)
  have l: "fence_count (before @ ''- '' @ label @ '':'') = 0"
    using assms by (auto intro!: fence_count_calm)
  have "fence_count (render_fenced_detail before label detail n) = 2"
    using f t l by (simp add: render_fenced_detail_def Let_def)
  moreover have "last (render_fenced_detail before label detail n) = CHR 0x0A"
    by (simp add: render_fenced_detail_def Let_def line_def NEWLINE_def)
  ultimately show ?thesis by (simp add: balanced_def)
qed

lemma balanced_more [simp]: "calm noun \<Longrightarrow> balanced (append_more_line a b noun)"
  by (simp add: append_more_line_def ELLIPSIS_def)

lemma balanced_impacts: "balanced (impact_section red is)"
  by (simp add: impact_section_def)

lemma balanced_detail_loop:
  "balanced out \<Longrightarrow> detail_loop red ds seen out m n = (t, m', n') \<Longrightarrow> balanced t"
proof (induction red ds seen out m n rule: detail_loop.induct)
  case (2 red d ds seen out m n)
  then show ?case by (auto simp: Let_def split: if_splits)
qed simp

lemma balanced_finding: "balanced (render_finding red f)"
proof -
  obtain t m n where t: "detail_loop red (if_details f) [] [] 0 0 = (t, m, n)" by (metis surj_pair)
  have "balanced t" by (rule balanced_detail_loop [OF balanced_Nil t])
  moreover have "balanced (line (''- '' @ [CHR 0x60] @ clean_code_text red (if_kind f) 100 @ ''/''
        @ clean_code_text red (if_topic f) 100 @ [CHR 0x60] @ '': '' @ show_int (if_count f) @ '' report(s)''))"
  proof (rule balanced_line)
    let ?k = "clean_code_text red (if_kind f) 100" and ?t = "clean_code_text red (if_topic f) 100"
    have "calm (?t @ CHR 0x60 # CHR '':'' # '' '' @ show_int (if_count f) @ '' report(s)'')"
      by (rule calm_ticks) (simp_all add: code_text_no_tick)
    moreover have "calm (CHR 0x60 # ?k)"
    proof -
      have k: "CHR 0x60 \<notin> set ?k" by (rule code_text_no_tick)
      then have "\<not> starts_with FENCE (CHR 0x60 # ?k)" by (cases ?k) (auto simp: FENCE_def)
      with calm_no_tick [OF k] show ?thesis by (simp add: calm_def del: starts_with_Cons)
    qed
    ultimately show "calm (''- '' @ [CHR 0x60] @ ?k @ ''/'' @ ?t @ [CHR 0x60] @ '': '' @ show_int (if_count f) @ '' report(s)'')"
      using calm_sep [of "CHR ''/''" "CHR 0x60 # ?k"] by simp
  qed
  ultimately show ?thesis by (simp add: render_finding_def t Let_def ELLIPSIS_def)
qed


lemma balanced_findings: "balanced (findings_section red fs)"
  by (simp add: findings_section_def balanced_finding)

lemma balanced_workarounds: "balanced (workaround_section red ws)"
proof -
  have "balanced (render_workaround red w)" for w
    by (simp add: render_workaround_def split: option.split)
  then show ?thesis by (simp add: workaround_section_def)
qed

lemma calm_values [simp]: "calm (render_values red vs n)"
  by (simp add: render_values_def ELLIPSIS_def calm_join(2) list_all_iff)

lemma balanced_where: "balanced (where_section red d)"
  by (simp add: where_section_def calm_join(2) list_all_iff)

lemma calm_range: "(\<And>t. CHR 0x60 \<notin> set (fmt t)) \<Longrightarrow> calm missing \<Longrightarrow> calm (time_range fmt a b missing)"
  by (auto simp: time_range_def RIGHT_ARROW_def calm_no_tick split: option.split)

lemma balanced_body:
  assumes "\<And>t. CHR 0x60 \<notin> set (fmt t)"
  shows "balanced (body_text fmt red d)"
proof -
  have "calm (time_range fmt (it_earliest d) (it_latest d) ''No occurrence time available.'')"
    by (rule calm_range [OF assms]) simp
  then show ?thesis
    by (simp add: body_text_def balanced_impacts balanced_findings balanced_workarounds balanced_where)
qed

text \<open>
  Customer text cannot leave its fence: a finding or workaround detail is printed without a fence
  and on one line, whatever the customer wrote, and the body up to the footer closes every fence it
  opens (the formatted instants contain no backtick).
\<close>

theorem customer_text_stays_in_its_fence:
  assumes "\<forall>t. CHR 0x60 \<notin> set (fmt t)"
  shows "\<not> contains_sub (clean_text (replace_sub FENCE [] detail) n) FENCE
    \<and> CHR 0x0A \<notin> set (clean_text (replace_sub FENCE [] detail) n)
    \<and> fence_count (render_fenced_detail before label detail n)
        = fence_count (render_fenced_detail before label [] n)
    \<and> even (fence_count (body_text fmt red d))"
proof -
  let ?text = "clean_text (replace_sub FENCE [] detail) n"
  have inner: "fence_count (clean_text (replace_sub FENCE [] v) n) = 0" for v
    by (simp add: fence_count_calm calm_clean_text removed_fences)
  have indent: "fence_count ((before @ ''  '') @ u) = fence_count before + fence_count u" for u
    using fence_count_sep [of "CHR '' ''" before "CHR '' '' # u"] fence_count_sep [of "CHR '' ''" "[]" u]
    by (simp add: fence_count_calm)
  have "fence_count (render_fenced_detail before label v n)
      = fence_count (before @ ''- '' @ label @ '':'') + fence_count ((before @ ''  '') @ FENCE @ ''text'')
        + fence_count before + fence_count ((before @ ''  '') @ FENCE)" for v
    unfolding render_fenced_detail_def Let_def fence_count_line fence_count_line0 indent [of "clean_text (replace_sub FENCE [] v) n"] inner
    by simp
  moreover have "\<not> contains_sub ?text FENCE"
    using calm_clean_text removed_fences by (simp add: calm_def)
  ultimately show ?thesis
    using no_newline_clean balanced_body [of fmt] assms by (simp add: balanced_def)
qed

theorem customer_text_stays_in_its_fence_witness:
  "\<not> contains_sub (clean_text (replace_sub FENCE [] (FENCE @ ''js'' @ FENCE @ NEWLINE @ [CHR 0x60])) 300) FENCE
   \<and> clean_text (replace_sub FENCE [] (FENCE @ ''js'' @ FENCE @ NEWLINE @ [CHR 0x60])) 300 = ''js '' @ [CHR 0x60]
   \<and> even (fence_count (body_text show_int (\<lambda>_. False) (sample_issue [] (FENCE @ ''js''))))"
proof -
  have t: "\<forall>t. CHR 0x60 \<notin> set (show_int t)" by (simp add: show_int_def show_nat_no_tick)
  have "clean_text (replace_sub FENCE [] (FENCE @ ''js'' @ FENCE @ NEWLINE @ [CHR 0x60])) 300 = ''js '' @ [CHR 0x60]"
    by code_simp
  then show ?thesis
    using customer_text_stays_in_its_fence [OF t, of "FENCE @ ''js'' @ FENCE @ NEWLINE @ [CHR 0x60]" 300]
      customer_text_stays_in_its_fence [OF t, of _ _ _ _ "\<lambda>_. False" "sample_issue [] (FENCE @ ''js'')"] by blast
qed

section \<open>The size limit\<close>

lemma floor_boundary_le: "floor_boundary s n \<le> n"
  by (induction n) auto

lemma floor_boundary_is_boundary: "is_char_boundary s (floor_boundary s n)"
  by (induction n) (auto simp: is_char_boundary_def)

lemma length_OMITTED_NOTICE: "length OMITTED_NOTICE = 41"
  by code_simp

lemma capped_shape:
  assumes "length body > GITHUB_BODY_LIMIT"
  shows "\<exists>k cut. is_char_boundary body k \<and> k \<le> GITHUB_BODY_LIMIT - (length OMITTED_NOTICE + length footer + 4)
    \<and> cut = (if odd (fence_count (take k body)) then take k body @ NEWLINE @ FENCE else take k body)
    \<and> even (fence_count cut) \<and> cap_body body footer = cut @ OMITTED_NOTICE @ footer"
proof -
  let ?limit = "GITHUB_BODY_LIMIT - (length (OMITTED_NOTICE @ footer) + length (NEWLINE @ FENCE))"
  let ?k = "floor_boundary body (min ?limit (length body))"
  let ?cut = "if odd (fence_count (take ?k body)) then take ?k body @ NEWLINE @ FENCE else take ?k body"
  have "fence_count FENCE = 1" by code_simp
  then have "even (fence_count ?cut)"
    using fence_count_sep [of "CHR 0x0A" "take ?k body" FENCE] by (simp add: NEWLINE_def)
  moreover have "?k \<le> GITHUB_BODY_LIMIT - (length OMITTED_NOTICE + length footer + 4)"
    using floor_boundary_le [of body "min ?limit (length body)"] by (simp add: length_FENCE NEWLINE_def)
  moreover have "cap_body body footer = ?cut @ OMITTED_NOTICE @ footer"
    using assms by (simp add: cap_body_def Let_def odd_iff_mod_2_eq_one)
  ultimately show ?thesis using floor_boundary_is_boundary by blast
qed


text \<open>
  C33.  The body of an issue never exceeds GitHub's limit of 65536 bytes, ends with the footer that
  carries the group's marker, so that a later reconciliation recognizes the issue as the group's; when
  text is cut, the cut is at a character boundary and outside every fence.
\<close>

theorem issue_body_fits_and_is_recognized:
  assumes "length (issue_footer (it_group_key d) (clean_link (it_backlink d))) \<le> 65000"
  shows "length (render_issue_body codecs fmt d) \<le> GITHUB_BODY_LIMIT
    \<and> ends_with (issue_footer (it_group_key d) (clean_link (it_backlink d))) (render_issue_body codecs fmt d)
    \<and> (\<forall>i. ri_body i = Some (render_issue_body codecs fmt d) \<longrightarrow> \<not> ri_is_pull_request i
          \<longrightarrow> carries_marker (it_group_key d) i)
    \<and> (\<forall>body. GITHUB_BODY_LIMIT < length body \<longrightarrow>
         (\<exists>k cut. is_char_boundary body k \<and> (cut = take k body \<or> cut = take k body @ NEWLINE @ FENCE)
            \<and> even (fence_count cut)
            \<and> cap_body body (issue_footer (it_group_key d) (clean_link (it_backlink d)))
                = cut @ OMITTED_NOTICE @ issue_footer (it_group_key d) (clean_link (it_backlink d))))"
proof -
  let ?footer = "issue_footer (it_group_key d) (clean_link (it_backlink d))"
  define body where "body = body_text fmt (must_redact (must_redact_before_publishing codecs) d) d @ ?footer"
  have r: "render_issue_body codecs fmt d = cap_body body ?footer"
    by (simp add: render_issue_body_def render_body_with_def body_def Let_def)
  have "\<exists>a. cap_body body ?footer = a @ ?footer \<and> length (cap_body body ?footer) \<le> GITHUB_BODY_LIMIT"
  proof (cases "length body \<le> GITHUB_BODY_LIMIT")
    case True
    then show ?thesis by (simp add: cap_body_def body_def)
  next
    case False
    then obtain k cut where k: "k \<le> GITHUB_BODY_LIMIT - (length OMITTED_NOTICE + length ?footer + 4)"
      "cut = (if odd (fence_count (take k body)) then take k body @ NEWLINE @ FENCE else take k body)"
      "cap_body body ?footer = cut @ OMITTED_NOTICE @ ?footer" using capped_shape [of body ?footer] by auto
    have "length cut \<le> k + 4" unfolding k(2) by (auto simp: NEWLINE_def length_FENCE)
    with k assms show ?thesis by (simp add: GITHUB_BODY_LIMIT_def length_OMITTED_NOTICE)
  qed
  then obtain a where a: "cap_body body ?footer = a @ ?footer" "length (cap_body body ?footer) \<le> GITHUB_BODY_LIMIT"
    by blast
  have "contains_sub ?footer (group_marker_comment (it_group_key d))"
    unfolding issue_footer_def contains_sub_iff by (metis append.assoc)
  then have "contains_sub (a @ ?footer) (group_marker_comment (it_group_key d))"
    unfolding contains_sub_iff by (metis append.assoc)
  with a r have "\<forall>i. ri_body i = Some (render_issue_body codecs fmt d) \<longrightarrow> \<not> ri_is_pull_request i
      \<longrightarrow> carries_marker (it_group_key d) i" by (simp add: carries_marker_def)
  moreover have "ends_with ?footer (render_issue_body codecs fmt d)" using a r by (simp add: ends_with_def)
  moreover have "\<exists>k cut. is_char_boundary b k \<and> (cut = take k b \<or> cut = take k b @ NEWLINE @ FENCE)
      \<and> even (fence_count cut) \<and> cap_body b ?footer = cut @ OMITTED_NOTICE @ ?footer"
    if "GITHUB_BODY_LIMIT < length b" for b
    using capped_shape [OF that, of ?footer] by metis
  ultimately show ?thesis using a(2) r by simp
qed


theorem issue_body_fits_and_is_recognized_witness:
  "length (render_issue_body quoting_codecs show_int (sample_issue ''slow'' ''page'')) \<le> GITHUB_BODY_LIMIT
   \<and> carries_marker ''k1'' \<lparr>ri_number = 1, ri_html_url = [], ri_state = ''open'',
        ri_body = Some (render_issue_body quoting_codecs show_int (sample_issue ''slow'' ''page'')),
        ri_created_at = 0, ri_is_pull_request = False\<rparr>"
proof -
  have "length (issue_footer (it_group_key (sample_issue ''slow'' ''page''))
      (clean_link (it_backlink (sample_issue ''slow'' ''page'')))) \<le> 65000" by code_simp
  from issue_body_fits_and_is_recognized [OF this, of quoting_codecs show_int]
  have f: "length (render_issue_body quoting_codecs show_int (sample_issue ''slow'' ''page'')) \<le> GITHUB_BODY_LIMIT"
    and m: "\<forall>i. ri_body i = Some (render_issue_body quoting_codecs show_int (sample_issue ''slow'' ''page'')) \<longrightarrow>
        \<not> ri_is_pull_request i \<longrightarrow> carries_marker (it_group_key (sample_issue ''slow'' ''page'')) i" by blast+
  from m have "carries_marker (it_group_key (sample_issue ''slow'' ''page''))
      \<lparr>ri_number = 1, ri_html_url = [], ri_state = ''open'',
        ri_body = Some (render_issue_body quoting_codecs show_int (sample_issue ''slow'' ''page'')),
        ri_created_at = 0, ri_is_pull_request = False\<rparr>" by simp
  with f show ?thesis by (simp add: sample_issue_def)
qed

end
