(* ===== verification/IssueTitle.thy ===== *)
theory IssueTitle
  imports IssueLayout
begin

text \<open>
  The neutralization of customer text in the title of an issue: whatever the customer wrote, the title
  mentions nobody and links nothing.
\<close>

section \<open>Inert text\<close>

text \<open>No \<open>@\<close> or \<open>#\<close> before an ASCII character or the end, no \<open>://\<close>, no \<open>www.\<close> in any case.\<close>

fun no_mention :: "string \<Rightarrow> bool" where
  "no_mention [] \<longleftrightarrow> True"
| "no_mention (c # s) \<longleftrightarrow>
     (c \<in> set ''@#'' \<longrightarrow> s \<noteq> [] \<and> 128 \<le> byte_val (hd s)) \<and> no_mention s"

definition inert :: "string \<Rightarrow> bool" where
  "inert s \<longleftrightarrow> no_mention s \<and> \<not> contains_sub s ''://'' \<and> \<not> contains_sub (to_ascii_lowercase s) ''www.''"

lemma no_mention_append [simp]: "no_mention a \<Longrightarrow> no_mention b \<Longrightarrow> no_mention (a @ b)"
  by (induction a) auto

lemma no_mention_cut: "no_mention (a @ b) \<Longrightarrow> 128 \<le> byte_val e \<Longrightarrow> no_mention (e # r) \<Longrightarrow> no_mention (a @ e # r)"
proof (induction a)
  case (Cons x a)
  then show ?case by (cases a) auto
qed simp

lemma no_mention_replaced:
  "no_mention (replace_byte CHR ''#'' (''#'' @ ZERO_WIDTH_SPACE) (replace_byte CHR ''@'' (''@'' @ ZERO_WIDTH_SPACE) v))"
  by (induction v) (auto simp: ZERO_WIDTH_SPACE_def byte_val_def)

definition scheme_break :: "string \<Rightarrow> string" where
  "scheme_break s = replace_sub ''://'' ('':'' @ ZERO_WIDTH_SPACE @ ''//'') s"

lemma scheme_break_Nil [simp]: "scheme_break [] = []"
  by (simp add: scheme_break_def replace_sub.simps)

lemma scheme_break_found:
  "scheme_break (CHR '':'' # CHR ''/'' # CHR ''/'' # s) = '':'' @ ZERO_WIDTH_SPACE @ ''//'' @ scheme_break s"
  unfolding scheme_break_def by (subst replace_sub.simps) simp

lemma scheme_break_skip:
  "\<not> starts_with ''://'' (c # s) \<Longrightarrow> scheme_break (c # s) = c # scheme_break s"
  unfolding scheme_break_def by (subst replace_sub.simps) (auto simp del: starts_with_Cons)

lemma scheme_induct [case_names Nil found skip]:
  assumes "P []" "\<And>s. P s \<Longrightarrow> P (CHR '':'' # CHR ''/'' # CHR ''/'' # s)"
    "\<And>c s. \<not> starts_with ''://'' (c # s) \<Longrightarrow> P s \<Longrightarrow> P (c # s)"
  shows "P s"
proof (induction s rule: length_induct)
  case (1 s)
  show ?case
  proof (cases s)
    case (Cons c t)
    show ?thesis
    proof (cases "starts_with ''://'' s")
      case True
      then obtain u where "s = CHR '':'' # CHR ''/'' # CHR ''/'' # u" by (auto simp: starts_with_iff prefix_def)
      with 1 assms(2) show ?thesis by simp
    next
      case False
      with 1 Cons assms(3) show ?thesis by simp
    qed
  qed (simp add: assms(1))
qed

lemma scheme_break_no_mention:
  "no_mention s \<Longrightarrow> no_mention (scheme_break s)
     \<and> (s \<noteq> [] \<and> 128 \<le> byte_val (hd s) \<longrightarrow> scheme_break s \<noteq> [] \<and> hd (scheme_break s) = hd s)"
  by (induction s rule: scheme_induct)
    (auto simp: scheme_break_found scheme_break_skip ZERO_WIDTH_SPACE_def byte_val_def)

lemma scheme_break_slashes:
  "starts_with ''/'' (scheme_break s) \<longleftrightarrow> starts_with ''/'' s"
  "starts_with ''//'' (scheme_break s) \<longleftrightarrow> starts_with ''//'' s"
proof -
  show one: "starts_with ''/'' (scheme_break s) \<longleftrightarrow> starts_with ''/'' s" for s
    by (cases rule: scheme_induct [of "\<lambda>s. starts_with ''/'' (scheme_break s) \<longleftrightarrow> starts_with ''/'' s"])
      (auto simp: scheme_break_found scheme_break_skip)
  show "starts_with ''//'' (scheme_break s) \<longleftrightarrow> starts_with ''//'' s"
    by (induction s rule: scheme_induct) (auto simp: scheme_break_found scheme_break_skip one)
qed

lemma scheme_break_none: "\<not> contains_sub (scheme_break s) ''://''"
proof (induction s rule: scheme_induct)
  case (skip c s)
  then show ?case using scheme_break_slashes(2) [of s] by (auto simp: scheme_break_skip)
qed (auto simp: scheme_break_found ZERO_WIDTH_SPACE_def)

lemma www_Nil [simp]: "neutralize_www [] = []"
  by (simp add: neutralize_www.simps)

lemma www_found:
  "starts_with ''www.'' (to_ascii_lowercase s) \<Longrightarrow>
     neutralize_www s = take 3 s @ ZERO_WIDTH_SPACE @ ''.'' @ neutralize_www (drop 4 s)"
  by (subst neutralize_www.simps) (auto simp del: starts_with_Cons)

lemma www_skip:
  "\<not> starts_with ''www.'' (to_ascii_lowercase (c # s)) \<Longrightarrow> neutralize_www (c # s) = c # neutralize_www s"
  by (subst neutralize_www.simps) (auto simp del: starts_with_Cons lowercase_Cons)


lemma www_induct [case_names Nil found skip]:
  assumes "P []"
    "\<And>a b c d s. to_ascii_lowercase [a, b, c, d] = ''www.'' \<Longrightarrow> P s \<Longrightarrow> P (a # b # c # d # s)"
    "\<And>c s. \<not> starts_with ''www.'' (to_ascii_lowercase (c # s)) \<Longrightarrow> P s \<Longrightarrow> P (c # s)"
  shows "P s"
proof (induction s rule: length_induct)
  case (1 s)
  show ?case
  proof (cases s)
    case (Cons x t)
    show ?thesis
    proof (cases "starts_with ''www.'' (to_ascii_lowercase s)")
      case True
      then obtain a b c d u where "s = a # b # c # d # u" "to_ascii_lowercase [a, b, c, d] = ''www.''"
        by (auto simp: starts_with_iff prefix_def to_ascii_lowercase_def)
      with 1 assms(2) show ?thesis by simp
    next
      case False
      with 1 Cons assms(3) show ?thesis by simp
    qed
  qed (simp add: assms(1))
qed

lemma www_found4:
  assumes "to_ascii_lowercase [a, b, c, d] = ''www.''"
  shows "neutralize_www (a # b # c # d # s) = [a, b, c] @ ZERO_WIDTH_SPACE @ ''.'' @ neutralize_www s"
  using assms by (subst www_found) (simp_all add: starts_with_def)

lemma lower_bytes:
  "lower_byte (CHR 0xE2) = CHR 0xE2" "lower_byte (CHR 0x80) = CHR 0x80" "lower_byte (CHR 0x8B) = CHR 0x8B"
  "lower_byte (CHR ''.'') = CHR ''.''"
  by code_simp+

lemma lower_w:
  assumes "lower_byte c = CHR ''w''"
  shows "c \<noteq> CHR ''@''" "c \<noteq> CHR ''#''" "c \<noteq> CHR '':''" "c \<noteq> CHR ''/''" "byte_val c < 128"
proof -
  have "lower_byte CHR ''@'' \<noteq> CHR ''w''" "lower_byte CHR ''#'' \<noteq> CHR ''w''"
    "lower_byte CHR '':'' \<noteq> CHR ''w''" "lower_byte CHR ''/'' \<noteq> CHR ''w''" by code_simp+
  with assms show "c \<noteq> CHR ''@''" "c \<noteq> CHR ''#''" "c \<noteq> CHR '':''" "c \<noteq> CHR ''/''" by metis+
  have "byte_val (lower_byte c) = 119" by (simp add: assms byte_val_def)
  then show "byte_val c < 128" by (simp add: byte_val_lower_byte split: if_splits)
qed

lemmas www_simps = www_found4 ZERO_WIDTH_SPACE_def lower_bytes

lemma www_no_mention:
  "no_mention s \<Longrightarrow> no_mention (neutralize_www s)
     \<and> (s \<noteq> [] \<and> 128 \<le> byte_val (hd s) \<longrightarrow> neutralize_www s \<noteq> [] \<and> hd (neutralize_www s) = hd s)"
proof (induction s rule: www_induct)
  case (found a b c d s)
  then have w: "lower_byte a = CHR ''w''" "lower_byte b = CHR ''w''" "lower_byte c = CHR ''w''" by simp_all
  from found have "no_mention s" by simp
  with found lower_w [OF w(1)] lower_w [OF w(2)] lower_w [OF w(3)] show ?case
    by (simp add: www_simps)
next
  case (skip c s)
  then show ?case by (simp add: www_skip del: lowercase_Cons)
qed simp

lemma www_starts:
  "p \<in> set [''www.'', ''ww.'', ''w.'', ''.''] \<Longrightarrow> starts_with p (to_ascii_lowercase (neutralize_www s)) \<Longrightarrow>
     starts_with p (to_ascii_lowercase s)"
proof (induction s arbitrary: p rule: www_induct)
  case (found a b c d s)
  then have "to_ascii_lowercase (neutralize_www (a # b # c # d # s))
      = ''www'' @ ZERO_WIDTH_SPACE @ ''.'' @ to_ascii_lowercase (neutralize_www s)" by (simp add: www_simps)
  with found.prems show ?case by (auto simp: ZERO_WIDTH_SPACE_def)
next
  case (skip c s)
  have eq: "to_ascii_lowercase (neutralize_www (c # s)) = lower_byte c # to_ascii_lowercase (neutralize_www s)"
    by (simp only: www_skip [OF skip(1)] lowercase_Cons)
  from skip(3) consider "p = ''www.''" | "p = ''ww.''" | "p = ''w.''" | "p = ''.''" by auto
  then show ?case using skip(4) skip(2) [of "tl p"] unfolding eq by cases auto
qed simp

lemma www_none: "\<not> contains_sub (to_ascii_lowercase (neutralize_www s)) ''www.''"
proof (induction s rule: www_induct)
  case (found a b c d s)
  then have "to_ascii_lowercase (neutralize_www (a # b # c # d # s))
      = ''www'' @ ZERO_WIDTH_SPACE @ ''.'' @ to_ascii_lowercase (neutralize_www s)" by (simp add: www_simps)
  with found show ?case by (simp add: ZERO_WIDTH_SPACE_def)
next
  case (skip c s)
  have eq: "to_ascii_lowercase (neutralize_www (c # s)) = lower_byte c # to_ascii_lowercase (neutralize_www s)"
    by (simp only: www_skip [OF skip(1)] lowercase_Cons)
  have "\<not> (lower_byte c = CHR ''w'' \<and> starts_with ''ww.'' (to_ascii_lowercase s))" using skip(1) by auto
  then have "\<not> (lower_byte c = CHR ''w'' \<and> starts_with ''ww.'' (to_ascii_lowercase (neutralize_www s)))"
    using www_starts [of "''ww.''" s] by auto
  then have "\<not> starts_with ''www.'' (lower_byte c # to_ascii_lowercase (neutralize_www s))" by auto
  with skip(2) show ?case unfolding eq by (simp del: starts_with_Cons)
qed simp

lemma www_slashes: "p \<in> set [''//'', ''/''] \<Longrightarrow> starts_with p (neutralize_www s) \<Longrightarrow> starts_with p s"
proof (induction s arbitrary: p rule: www_induct)
  case (found a b c d s)
  then have "lower_byte a = CHR ''w''" by simp
  from lower_w(4) [OF this] found(1,3,4) show ?case by (auto simp: www_found4)
next
  case (skip c s)
  from skip(3) consider "p = ''//''" | "p = ''/''" by auto
  then show ?case using skip(4) skip(2) [of "tl p"] unfolding www_skip [OF skip(1)] by cases auto
qed simp

lemma www_keeps_schemes: "\<not> contains_sub s ''://'' \<Longrightarrow> \<not> contains_sub (neutralize_www s) ''://''"
proof (induction s rule: www_induct)
  case (found a b c d s)
  then have w: "lower_byte a = CHR ''w''" "lower_byte b = CHR ''w''" "lower_byte c = CHR ''w''" by simp_all
  from found lower_w(3) [OF w(1)] lower_w(3) [OF w(2)] lower_w(3) [OF w(3)] show ?case
    by (simp add: www_found4 ZERO_WIDTH_SPACE_def)
next
  case (skip c s)
  have "\<not> (c = CHR '':'' \<and> starts_with ''//'' (neutralize_www s))"
    using skip(3) www_slashes [of "''//''" s] by auto
  then have "\<not> starts_with ''://'' (c # neutralize_www s)" by auto
  with skip(2,3) show ?case unfolding www_skip [OF skip(1)] by (simp del: starts_with_Cons)
qed simp

lemma neutralized_is_inert: "inert (neutralize_github_references v)"
proof -
  let ?a = "replace_byte CHR ''#'' (''#'' @ ZERO_WIDTH_SPACE) (replace_byte CHR ''@'' (''@'' @ ZERO_WIDTH_SPACE) v)"
  have "neutralize_github_references v = neutralize_www (scheme_break ?a)"
    by (simp add: neutralize_github_references_def scheme_break_def)
  moreover have "no_mention (neutralize_www (scheme_break ?a))"
    using no_mention_replaced scheme_break_no_mention www_no_mention by blast
  ultimately show ?thesis
    by (simp add: inert_def www_none www_keeps_schemes scheme_break_none)
qed


section \<open>The title\<close>

lemma contains_sub_snoc:
  assumes "pat \<noteq> []" "last pat \<noteq> c"
  shows "contains_sub (a @ [c]) pat \<longleftrightarrow> contains_sub a pat"
proof
  assume "contains_sub (a @ [c]) pat"
  then obtain u v where uv: "a @ [c] = u @ pat @ v" by (auto simp: contains_sub_iff)
  have "v \<noteq> []"
  proof
    assume "v = []"
    with uv have "last (a @ [c]) = last pat" using assms(1) by simp
    with assms(2) show False by simp
  qed
  then have "a = u @ pat @ butlast v" using arg_cong [OF uv, of butlast] by (simp add: butlast_append assms)
  then show "contains_sub a pat" unfolding contains_sub_iff by blast
next
  assume "contains_sub a pat"
  then show "contains_sub (a @ [c]) pat" unfolding contains_sub_iff by (metis append.assoc)
qed

lemma inert_space: "inert a \<Longrightarrow> inert b \<Longrightarrow> inert (a @ CHR '' '' # b)"
  by (simp add: inert_def contains_sub_sep lower_byte_def is_upper_def byte_val_def del: contains_sub.simps)

lemma inert_colon: "inert a \<Longrightarrow> inert (a @ [CHR '':''])"
  by (simp add: inert_def contains_sub_snoc lower_byte_def is_upper_def byte_val_def)

lemma inert_truncated:
  assumes "inert s"
  shows "inert (truncate_chars s n)"
proof -
  obtain r where r: "s = utf8_take (n - 1) s @ r" using prefix_utf8_take [of "n - 1" s] by (auto simp: prefix_def)
  let ?p = "utf8_take (n - 1) s"
  have "no_mention (?p @ ELLIPSIS)"
    using no_mention_cut [of ?p r "CHR 0xE2" "[CHR 0x80, CHR 0xA6]"] assms r by (simp add: inert_def ELLIPSIS_def byte_val_def)
  moreover have "\<not> contains_sub ?p ''://''"
    using assms r unfolding inert_def contains_sub_iff by (metis append.assoc)
  moreover have "\<not> contains_sub (to_ascii_lowercase ?p) ''www.''"
    using assms r unfolding inert_def contains_sub_iff by (metis append.assoc lowercase_append)
  ultimately have "inert (?p @ ELLIPSIS)"
    by (simp add: inert_def ELLIPSIS_def contains_sub_sep lower_bytes lower_byte_def is_upper_def byte_val_def del: contains_sub.simps)
      (simp add: byte_val_def)
  with assms show ?thesis by (simp add: truncate_chars_def)
qed

lemma inert_title_text: "inert (safe_customer_title_text red v n)"
proof -
  have "inert ''[redacted]''" by code_simp
  then show ?thesis by (simp add: safe_customer_title_text_def neutralized_is_inert)
qed

lemma truncated_count: "0 < n \<Longrightarrow> utf8_count (truncate_chars s n) \<le> n"
  by (simp add: truncate_chars_def utf8_count_take ELLIPSIS_def utf8_cont_def byte_val_def)

text \<open>
  C32.  The title of a public issue has at most 120 characters and notifies and links nothing, whatever
  the customer wrote: no \<open>@\<close> or \<open>#\<close> stands before an ASCII character, and neither \<open>://\<close> nor \<open>www.\<close> (in
  any case) occurs, also where the title is cut.
\<close>

theorem title_mentions_and_links_nothing:
  "inert (render_issue_title codecs d) \<and> utf8_count (render_issue_title codecs d) \<le> 120"
proof -
  let ?red = "must_redact (must_redact_before_publishing codecs) d"
  let ?k = "safe_customer_title_text ?red (it_primary_kind d) 40"
  let ?t = "safe_customer_title_text ?red (it_primary_topic d) 48"
  let ?o = "safe_customer_title_text ?red (it_primary_operation d) 48"
  have "inert ''[epode]''" "inert ''in''" by code_simp+
  then have "inert (''[epode]'' @ CHR '' '' # (?k @ ['':'' ! 0]) @ CHR '' '' # ?t @ CHR '' '' # ''in'' @ CHR '' '' # ?o)"
    by (intro inert_space) (simp_all add: inert_colon inert_title_text)
  then have "inert (''[epode] '' @ ?k @ '': '' @ ?t @ '' in '' @ ?o)" by simp
  then show ?thesis
    unfolding render_issue_title_def render_title_with_def by (simp add: inert_truncated truncated_count)
qed

end
