(* ===== verification/Consent.thy ===== *)
theory Consent
  imports ApiKeys Security
begin

text \<open>
  \<open>backend/src/store.rs\<close>: a user's consent to send feedback reports; tables
  \<open>feedback_consent_subjects\<close>, \<open>feedback_consent_interactions\<close>, \<open>consent_grants\<close> and \<open>consent_events\<close>
  (migrations 0023, 0028, 0032, 0033).  A decision reaches the backend with a signed capability: in
  the mode \<open>ask_once\<close> it is a compare-and-set on the revision of the subject the capability names,
  otherwise it holds for the capability's interaction.  \<open>NOW()\<close> and \<open>Utc::now()\<close> are one argument.
\<close>

section \<open>Tables\<close>

datatype decision = Approved | Declined

record subject_row =
  sj_environment :: uuid
  sj_subject :: string
  sj_decision :: decision
  sj_decided_at :: time
  sj_updated_at :: time
  sj_flipped_from :: "decision option"
  sj_revision :: int

record decision_row =
  di_interaction :: uuid
  di_environment :: uuid
  di_subject :: "string option"
  di_decision :: decision
  di_decided_at :: time
  di_applied_revision :: "int option"

datatype consent_scope = Share_Outcome | Share_Preferences | Remember_Preferences | Personalize

datatype grant_state = Granted decision | Revoked

datatype consent_source = Feedback_Consent | Companion | Dashboard | Migration

record grant_row =
  gt_id :: uuid
  gt_workspace :: uuid
  gt_product :: uuid
  gt_environment :: uuid
  gt_customer :: "uuid option"
  gt_subject :: string
  gt_scope :: consent_scope
  gt_state :: grant_state
  gt_revision :: int
  gt_decided_at :: time
  gt_expires_at :: "time option"
  gt_revoked_at :: "time option"

record event_row =
  ev_id :: uuid
  ev_grant :: uuid
  ev_environment :: uuid
  ev_subject :: string
  ev_scope :: consent_scope
  ev_prior_state :: "grant_state option"
  ev_state :: grant_state
  ev_revision :: int
  ev_source :: consent_source
  ev_decided_at :: time

text \<open>The columns of an interaction (\<open>interactions_v2\<close>) that consent and reports use.\<close>

record interaction_row =
  iv_id :: uuid
  iv_workspace :: uuid
  iv_environment :: uuid
  iv_key :: uuid
  iv_session :: "uuid option"
  iv_surface :: string
  iv_operation :: string
  iv_status_code :: "int option"
  iv_customer :: "uuid option"
  iv_classification :: string
  iv_confirmation :: "string option"
  iv_nonce_hash :: "string option"
  iv_runtime_hint :: "string option"
  iv_occurred_at :: time
  iv_updated_at :: time

text \<open>The feedback mode of an environment is its column \<open>product_environments.feedback_mode\<close>.\<close>

record consent_db =
  cb_catalog :: catalog
  cb_modes :: "uuid \<Rightarrow> string"
  cb_subjects :: "subject_row list"
  cb_decisions :: "decision_row list"
  cb_grants :: "grant_row list"
  cb_events :: "event_row list"
  cb_interactions :: "interaction_row list"

section \<open>Lookups\<close>

definition of_subject :: "uuid \<Rightarrow> string \<Rightarrow> subject_row \<Rightarrow> bool" where
  "of_subject environment_id subject r \<longleftrightarrow> sj_environment r = environment_id \<and> sj_subject r = subject"

definition subject_of :: "uuid \<Rightarrow> string \<Rightarrow> consent_db \<Rightarrow> subject_row option" where
  "subject_of environment_id subject db = find (of_subject environment_id subject) (cb_subjects db)"

definition decision_of :: "uuid \<Rightarrow> uuid \<Rightarrow> consent_db \<Rightarrow> decision_row option" where
  "decision_of environment_id interaction_id db =
     find (\<lambda>r. di_interaction r = interaction_id \<and> di_environment r = environment_id) (cb_decisions db)"

definition of_grant :: "uuid \<Rightarrow> string \<Rightarrow> consent_scope \<Rightarrow> grant_row \<Rightarrow> bool" where
  "of_grant environment_id subject scope g \<longleftrightarrow>
     gt_environment g = environment_id \<and> gt_subject g = subject \<and> gt_scope g = scope"

definition grant_of :: "uuid \<Rightarrow> string \<Rightarrow> consent_scope \<Rightarrow> consent_db \<Rightarrow> grant_row option" where
  "grant_of environment_id subject scope db = find (of_grant environment_id subject scope) (cb_grants db)"

definition interaction_subject :: "uuid \<Rightarrow> string" where
  "interaction_subject interaction_id = ''afint1_'' @ uuid_simple interaction_id"

text \<open>
  The write key a capability is signed with, live and in an existing environment, together with that
  environment and its product's name.
\<close>

definition capability_key :: "time \<Rightarrow> uuid \<Rightarrow> catalog \<Rightarrow> (api_key_row \<times> environment_row) option" where
  "capability_key now key_id db =
     Option.bind (find (\<lambda>k. ak_id k = key_id \<and> ak_kind k = Write_Key \<and> live_key now k) (ca_keys db))
       (\<lambda>k. map_option (Pair k) (find (\<lambda>e. en_id e = ak_environment k) (ca_environments db)))"

definition verified_capability ::
  "token_codec \<Rightarrow> time \<Rightarrow> string \<Rightarrow> consent_db \<Rightarrow> (api_key_row \<times> environment_row \<times> capability_claims) result" where
  "verified_capability codec now capability db =
     result_bind (parse_capability codec capability) (\<lambda>parsed.
     result_bind (or_else (capability_key now (pc_key_id parsed) (cb_catalog db)) unauthorized) (\<lambda>(key, environment).
     result_bind (verify_capability codec parsed (ak_hash key) now) (\<lambda>claims.
       Inr (key, environment, claims))))"

section \<open>The state of a subject\<close>

definition show_decision :: "decision \<Rightarrow> string" where
  "show_decision d = (case d of Approved \<Rightarrow> ''approved'' | Declined \<Rightarrow> ''declined'')"

definition feedback_consent_state :: "product_auth \<Rightarrow> string \<Rightarrow> consent_db \<Rightarrow> (string \<times> int) result" where
  "feedback_consent_state auth subject db =
     (let environment_id = en_id (pa_environment auth)
      in if \<not> valid_consent_subject subject then Inl (bad_request ''Invalid opaque consent subject'')
         else if cb_modes db environment_id \<noteq> ''ask_once''
         then Inr (if cb_modes db environment_id = ''never_ask'' then ''approved'' else ''unknown'', 0)
         else (case subject_of environment_id subject db of
                 None \<Rightarrow> Inr (''unknown'', 0)
               | Some r \<Rightarrow> Inr (show_decision (sj_decision r), sj_revision r)))"

section \<open>Inspecting a capability\<close>

record inspection =
  in_state :: string
  in_mode :: string
  in_policy :: string
  in_product :: string
  in_question :: "string option"
  in_expires_at :: time

definition decided_state :: "decision option \<Rightarrow> string \<Rightarrow> string \<times> string" where
  "decided_state d policy =
     (case d of
        Some Approved \<Rightarrow> (''feedback_ready'', ''none'')
      | Some Declined \<Rightarrow> (''declined'', policy)
      | None \<Rightarrow> (''consent_required'', policy))"

definition inspected_state :: "string \<Rightarrow> uuid \<Rightarrow> capability_claims \<Rightarrow> consent_db \<Rightarrow> (string \<times> string) result" where
  "inspected_state mode environment_id claims db =
     (if mode = ''off'' then Inl (gone ''Feedback collection is disabled'')
      else if mode = ''never_ask'' then Inr (''feedback_ready'', ''none'')
      else if mode = ''ask_once''
      then Inr (case cl_s claims of
                  Some subject \<Rightarrow>
                    decided_state (map_option sj_decision (subject_of environment_id subject db)) ''once''
                | None \<Rightarrow> (''consent_required'', ''always''))
      else if mode = ''ask_always''
      then Inr (decided_state (map_option di_decision (decision_of environment_id (cl_i claims) db)) ''always'')
      else Inl internal_error)"

definition canonical_question :: "string \<Rightarrow> string \<Rightarrow> string \<Rightarrow> string option" where
  "canonical_question state policy product =
     (if state \<noteq> ''consent_required'' then None
      else if policy = ''once''
      then Some (''May I send '' @ product @ [CHR 0x27] @ ''s provider one short, privacy-safe outcome report after this use and future uses without asking again? Epode will remember your choice for this product. Your prompts and task content are never included; nothing is installed.'')
      else Some (''May I send '' @ product @ [CHR 0x27] @ ''s provider one short, privacy-safe outcome report about this use? Your prompts and task content will not be included.''))"

definition inspect_feedback_capability ::
  "token_codec \<Rightarrow> time \<Rightarrow> string \<Rightarrow> consent_db \<Rightarrow> inspection result" where
  "inspect_feedback_capability codec now capability db =
     result_bind (parse_capability codec capability) (\<lambda>parsed.
     result_bind (or_else (Option.bind (capability_key now (pc_key_id parsed) (cb_catalog db)) (\<lambda>(key, environment).
           map_option (\<lambda>p. (key, environment, p))
             (find (\<lambda>p. cp_id p = en_product environment) (ca_products (cb_catalog db))))) unauthorized)
       (\<lambda>(key, environment, product).
     result_bind (verify_capability codec parsed (ak_hash key) now) (\<lambda>claims.
     result_bind (inspected_state (cb_modes db (en_id environment)) (en_id environment) claims db) (\<lambda>(state, policy).
     result_bind (timestamp_of codec (cl_exp claims)) (\<lambda>expires_at.
       Inr \<lparr>in_state = state, in_mode = cb_modes db (en_id environment), in_policy = policy,
            in_product = cp_name product,
            in_question = canonical_question state policy (cp_name product),
            in_expires_at = expires_at\<rparr>)))))"

section \<open>Recording a decision\<close>

record consent_outcome =
  co_decision :: "decision option"
  co_mode :: string
  co_expires_at :: int
  co_decided_at :: time
  co_changed :: bool
  co_action_allowed :: bool
  co_protocol_tool :: bool
  co_flipped_from :: "decision option"

definition decision_of_text :: "string \<Rightarrow> decision option" where
  "decision_of_text t =
     (if t = ''approved'' then Some Approved else if t = ''declined'' then Some Declined else None)"

text \<open>The upsert of the grant and its audit event; a grant is only replaced by a later revision.\<close>

definition dual_write_share_outcome_consent ::
  "uuid \<Rightarrow> uuid \<Rightarrow> uuid \<Rightarrow> string \<Rightarrow> decision \<Rightarrow> int \<Rightarrow> time \<Rightarrow> time option \<Rightarrow> decision option \<Rightarrow> consent_source
   \<Rightarrow> consent_db \<Rightarrow> consent_db result" where
  "dual_write_share_outcome_consent grant_id event_id environment_id subject state revision decided_at expires_at
       prior_state source db =
     (case find (\<lambda>e. en_id e = environment_id) (ca_environments (cb_catalog db)) of
        None \<Rightarrow> Inl internal_error
      | Some e \<Rightarrow>
          result_bind
            (case grant_of environment_id subject Share_Outcome db of
               None \<Rightarrow>
                 if grant_id \<in> gt_id ` set (cb_grants db) then Inl internal_error
                 else Inr (grant_id, cb_grants db @
                   [\<lparr>gt_id = grant_id, gt_workspace = en_workspace e, gt_product = en_product e,
                     gt_environment = environment_id, gt_customer = None, gt_subject = subject,
                     gt_scope = Share_Outcome, gt_state = Granted state, gt_revision = revision,
                     gt_decided_at = decided_at, gt_expires_at = expires_at, gt_revoked_at = None\<rparr>])
             | Some g \<Rightarrow>
                 if gt_revision g < revision
                 then Inr (gt_id g, update_where (of_grant environment_id subject Share_Outcome)
                        (\<lambda>g. g\<lparr>gt_state := Granted state, gt_revision := revision, gt_decided_at := decided_at,
                               gt_expires_at := expires_at, gt_revoked_at := None\<rparr>) (cb_grants db))
                 else Inl internal_error)
            (\<lambda>(standing_id, grants).
               if event_id \<in> ev_id ` set (cb_events db) then Inl internal_error
               else Inr (db\<lparr>cb_grants := grants,
                 cb_events := cb_events db @
                   [\<lparr>ev_id = event_id, ev_grant = standing_id, ev_environment = environment_id,
                     ev_subject = subject, ev_scope = Share_Outcome,
                     ev_prior_state = map_option Granted prior_state, ev_state = Granted state,
                     ev_revision = revision, ev_source = source, ev_decided_at = decided_at\<rparr>]\<rparr>)))"


text \<open>
  The compare-and-set on the subject.  Revision 0 may create the row; any other revision replaces
  the row that has it.
\<close>

definition flipped :: "decision \<Rightarrow> decision \<Rightarrow> decision option" where
  "flipped old new = (if old \<noteq> new then Some old else None)"

definition apply_to_subject ::
  "time \<Rightarrow> uuid \<Rightarrow> string \<Rightarrow> decision \<Rightarrow> int \<Rightarrow> consent_db \<Rightarrow> (subject_row \<times> consent_db) option" where
  "apply_to_subject now environment_id subject d expected db =
     (if expected = 0
      then (case subject_of environment_id subject db of
              Some _ \<Rightarrow> None
            | None \<Rightarrow>
                (let row = \<lparr>sj_environment = environment_id, sj_subject = subject, sj_decision = d,
                            sj_decided_at = now, sj_updated_at = now, sj_flipped_from = None, sj_revision = 1\<rparr>
                 in Some (row, db\<lparr>cb_subjects := cb_subjects db @ [row]\<rparr>)))
      else (case subject_of environment_id subject db of
              None \<Rightarrow> None
            | Some r \<Rightarrow>
                if sj_revision r \<noteq> expected then None
                else (let f = (\<lambda>r. r\<lparr>sj_decision := d, sj_decided_at := now,
                                   sj_flipped_from := flipped (sj_decision r) d,
                                   sj_revision := sj_revision r + 1, sj_updated_at := now\<rparr>)
                      in Some (f r, db\<lparr>cb_subjects := update_where (of_subject environment_id subject) f (cb_subjects db)\<rparr>))))"

definition mark_applied :: "uuid \<Rightarrow> uuid \<Rightarrow> int \<Rightarrow> consent_db \<Rightarrow> consent_db" where
  "mark_applied interaction_id environment_id revision db =
     db\<lparr>cb_decisions := update_where
       (\<lambda>r. di_interaction r = interaction_id \<and> di_environment r = environment_id)
       (\<lambda>r. r\<lparr>di_applied_revision := Some revision\<rparr>) (cb_decisions db)\<rparr>"

text \<open>Decision, its time, whether this call made it, whether a report may follow, and what it flipped.\<close>

type_synonym standing = "decision option \<times> time \<times> bool \<times> bool \<times> decision option"

text \<open>The first decision for an interaction, whose row has just been inserted.\<close>

definition first_decision ::
  "time \<Rightarrow> string \<Rightarrow> uuid \<Rightarrow> capability_claims \<Rightarrow> decision \<Rightarrow> consent_db \<Rightarrow> standing \<times> consent_db" where
  "first_decision now mode environment_id claims d db =
     (if mode = ''ask_once'' \<and> cl_s claims \<noteq> None
      then (let subject = the (cl_s claims);
                expected = (case cl_r claims of Some r \<Rightarrow> r | None \<Rightarrow> 0)
            in case apply_to_subject now environment_id subject d expected db of
                 Some (r, db') \<Rightarrow>
                   ((Some (sj_decision r), sj_decided_at r, True, sj_decision r = Approved, sj_flipped_from r),
                    mark_applied (cl_i claims) environment_id (sj_revision r) db')
               | None \<Rightarrow>
                   (case subject_of environment_id subject db of
                      Some r \<Rightarrow> ((Some (sj_decision r), sj_decided_at r, False, False, None), db)
                    | None \<Rightarrow> ((None, now, False, False, None), db)))
      else ((Some d, now, True, d = Approved, None), db))"

text \<open>A repeated decision for an interaction changes nothing.\<close>

definition repeated_decision ::
  "string \<Rightarrow> uuid \<Rightarrow> capability_claims \<Rightarrow> decision_row \<Rightarrow> consent_db \<Rightarrow> standing" where
  "repeated_decision mode environment_id claims x db =
     (if mode = ''ask_once'' \<and> cl_s claims \<noteq> None
      then (case subject_of environment_id (the (cl_s claims)) db of
              Some r \<Rightarrow>
                (let still = (di_applied_revision x = Some (sj_revision r))
                 in (Some (sj_decision r), sj_decided_at r, False,
                     still \<and> di_decision x = Approved \<and> sj_decision r = Approved,
                     if still then sj_flipped_from r else None))
            | None \<Rightarrow> (None, di_decided_at x, False, False, None))
      else (Some (di_decision x), di_decided_at x, False, di_decision x = Approved, None))"

definition decide ::
  "time \<Rightarrow> string \<Rightarrow> uuid \<Rightarrow> capability_claims \<Rightarrow> decision \<Rightarrow> consent_db \<Rightarrow> (standing \<times> consent_db) result" where
  "decide now mode environment_id claims d db =
     (if cl_i claims \<in> di_interaction ` set (cb_decisions db)
      then (case decision_of environment_id (cl_i claims) db of
              None \<Rightarrow> Inl (conflict ''interactionId belongs to another product environment'')
            | Some x \<Rightarrow> Inr (repeated_decision mode environment_id claims x db, db))
      else Inr (first_decision now mode environment_id claims d
             (db\<lparr>cb_decisions := cb_decisions db @
                [\<lparr>di_interaction = cl_i claims, di_environment = environment_id, di_subject = cl_s claims,
                  di_decision = d, di_decided_at = now, di_applied_revision = None\<rparr>]\<rparr>)))"

text \<open>The grant that goes with a decision this call made.\<close>

definition write_consent ::
  "token_codec \<Rightarrow> uuid \<Rightarrow> uuid \<Rightarrow> string \<Rightarrow> uuid \<Rightarrow> capability_claims \<Rightarrow> standing \<Rightarrow> consent_db \<Rightarrow> consent_db result" where
  "write_consent codec grant_id event_id mode environment_id claims st db =
     (case st of (d, decided_at, changed, allowed, flip) \<Rightarrow>
        if changed \<and> mode = ''ask_once'' \<and> cl_s claims \<noteq> None
        then (let subject = the (cl_s claims)
              in case subject_of environment_id subject db of
                   None \<Rightarrow> Inl internal_error
                 | Some r \<Rightarrow> dual_write_share_outcome_consent grant_id event_id environment_id subject (the d)
                               (sj_revision r) decided_at None flip Feedback_Consent db)
        else if changed \<and> mode = ''ask_always''
        then (if tc_timestamp_ok codec (cl_exp claims)
              then dual_write_share_outcome_consent grant_id event_id environment_id
                     (interaction_subject (cl_i claims)) (the d) 1 decided_at
                     (Some (seconds (cl_exp claims))) None Feedback_Consent db
              else Inl internal_error)
        else Inr db)"

definition record_feedback_consent_decision ::
  "token_codec \<Rightarrow> time \<Rightarrow> uuid \<Rightarrow> uuid \<Rightarrow> string \<Rightarrow> string \<Rightarrow> consent_db \<Rightarrow> (consent_outcome \<times> consent_db) result" where
  "record_feedback_consent_decision codec now grant_id event_id capability decision_text db =
     (case decision_of_text decision_text of
        None \<Rightarrow> Inl (bad_request ''decision must be approved or declined'')
      | Some d \<Rightarrow>
          result_bind (verified_capability codec now capability db) (\<lambda>(key, environment, claims).
            (let environment_id = ak_environment key; mode = cb_modes db environment_id
             in if mode \<noteq> ''ask_once'' \<and> mode \<noteq> ''ask_always''
                then Inl (conflict ''This product does not currently require a consent decision'')
                else if mode = ''ask_once'' \<and> \<not> opt_all valid_consent_subject (cl_s claims)
                then Inl (bad_request ''Invalid opaque consent subject'')
                else
                  result_bind (decide now mode environment_id claims d db) (\<lambda>(st, db').
                  result_bind (write_consent codec grant_id event_id mode environment_id claims st db') (\<lambda>db''.
                    case st of (standing, decided_at, changed, allowed, flip) \<Rightarrow>
                      Inr (\<lparr>co_decision = standing, co_mode = mode, co_expires_at = cl_exp claims,
                            co_decided_at = decided_at, co_changed = changed, co_action_allowed = allowed,
                            co_protocol_tool =
                              (\<exists>i \<in> set (cb_interactions db''). iv_id i = cl_i claims
                                 \<and> iv_environment i = environment_id \<and> iv_surface i = ''mcp''
                                 \<and> iv_confirmation i = Some ''mcp''),
                            co_flipped_from = flip\<rparr>, db''))))))"

end
