(* ===== verification/FeedbackReports.thy ===== *)
theory FeedbackReports
  imports Complex_Main Consent SensitiveText ReportGroups CodeMatchQueue
begin

text \<open>
  \<open>backend/src/store.rs\<close>, \<open>submit_product_feedback\<close>: the validation of a report, the consent it needs,
  and the one transaction that stores it, with the queue of code matches, the groups, the activation
  milestones and the signals of customer intelligence (\<open>customer_signals\<close>, migration 0033).
\<close>

section \<open>Input\<close>

record workaround_input =
  wi_used :: bool
  wi_detail :: "string option"

record report_input =
  pi_summary :: string
  pi_impact :: "string option"
  pi_confidence :: "real option"
  pi_findings :: "finding_input list"
  pi_workaround :: "workaround_input option"

record valid_report =
  vp_summary :: string
  vp_impact :: "string option"
  vp_confidence :: "real option"
  vp_findings :: "finding_input list"
  vp_workaround :: "workaround_input option"

section \<open>Validation\<close>

definition REPORT_IMPACTS :: "string list" where
  "REPORT_IMPACTS = [''helped'', ''helped_with_friction'', ''neutral'', ''hindered'', ''blocked'', ''unknown'']"

definition FINDING_KINDS :: "string list" where
  "FINDING_KINDS = [''strength'', ''friction'', ''defect'', ''gap'', ''suggestion'', ''uncertainty'', ''other'']"

definition FINDING_SEVERITIES :: "string list" where
  "FINDING_SEVERITIES = [''minor'', ''major'', ''blocking'']"

definition bad_summary :: api_error where
  "bad_summary = bad_request ''summary must contain 8 to 700 characters''"

definition bad_finding :: api_error where
  "bad_finding = bad_request ''Each finding requires a safe topic and 3 to 350 character detail''"

definition sensitive_report :: api_error where
  "sensitive_report = bad_request ''The feedback report appears to contain sensitive data''"

definition is_lower_or_digit :: "byte \<Rightarrow> bool" where
  "is_lower_or_digit c \<longleftrightarrow> is_lower c \<or> is_digit c"

definition normal_topic :: "string \<Rightarrow> string" where
  "normal_topic topic = replace_byte (CHR '' '') ''_'' (to_ascii_lowercase (clean topic 64))"

definition safe_topic :: "string \<Rightarrow> bool" where
  "safe_topic topic \<longleftrightarrow> topic \<noteq> [] \<and> is_alnum (hd topic)
     \<and> list_all (\<lambda>c. is_lower_or_digit c \<or> c \<in> set ''-_'') topic"

definition validated_finding :: "finding_input \<Rightarrow> finding_input result" where
  "validated_finding f =
     (if utf8_count (fi_topic f) > 64 \<or> utf8_count (fi_detail f) > 350 then Inl bad_finding
      else if fi_kind f \<notin> set FINDING_KINDS then Inl (bad_request ''Invalid finding kind'')
      else if \<not> opt_all (\<lambda>s. s \<in> set FINDING_SEVERITIES) (fi_severity f)
      then Inl (bad_request ''Invalid finding severity'')
      else (let topic = normal_topic (fi_topic f); detail = clean (fi_detail f) 350
            in if \<not> safe_topic topic \<or> length detail < 3 then Inl bad_finding
               else if contains_sensitive_report_text detail then Inl sensitive_report
               else Inr (f\<lparr>fi_topic := topic, fi_detail := detail\<rparr>)))"

fun validated_findings :: "finding_input list \<Rightarrow> (finding_input list) result" where
  "validated_findings [] = Inr []"
| "validated_findings (f # fs) =
     result_bind (validated_finding f) (\<lambda>g. result_bind (validated_findings fs) (\<lambda>gs. Inr (g # gs)))"

definition validated_workaround :: "workaround_input \<Rightarrow> workaround_input result" where
  "validated_workaround w =
     (if \<not> opt_all (\<lambda>d. utf8_count d \<le> 350) (wi_detail w)
      then Inl (bad_request ''A workaround detail must contain at most 350 characters'')
      else (let detail = Option.bind (wi_detail w) (\<lambda>d. let c = clean d 350 in if c = [] then None else Some c)
            in if wi_used w \<and> opt_all (\<lambda>d. length d < 3) detail
               then Inl (bad_request ''A used workaround requires a 3 to 350 character detail'')
               else if \<not> opt_all (\<lambda>d. \<not> contains_sensitive_report_text d) detail then Inl sensitive_report
               else Inr (w\<lparr>wi_detail := detail\<rparr>)))"

definition validated_report :: "report_input \<Rightarrow> valid_report result" where
  "validated_report input =
     (if utf8_count (pi_summary input) > 700 then Inl bad_summary
      else (let summary = clean (pi_summary input) 700
            in if length summary < 8 then Inl bad_summary
               else if contains_sensitive_report_text summary then Inl sensitive_report
               else if \<not> opt_all (\<lambda>i. i \<in> set REPORT_IMPACTS) (pi_impact input)
               then Inl (bad_request ''impact must be helped, helped_with_friction, neutral, hindered, blocked, or unknown'')
               else if \<not> opt_all (\<lambda>c. 0 \<le> c \<and> c \<le> 1) (pi_confidence input)
               then Inl (bad_request ''confidence must be between 0 and 1'')
               else if length (pi_findings input) > 8
               then Inl (bad_request ''A feedback report can contain at most 8 findings'')
               else result_bind (validated_findings (pi_findings input)) (\<lambda>findings.
                    result_bind (case pi_workaround input of None \<Rightarrow> Inr None
                                 | Some w \<Rightarrow> result_bind (validated_workaround w) (\<lambda>v. Inr (Some v))) (\<lambda>workaround.
                      Inr \<lparr>vp_summary = summary, vp_impact = pi_impact input, vp_confidence = pi_confidence input,
                           vp_findings = findings, vp_workaround = workaround\<rparr>))))"

section \<open>Stored JSON\<close>

definition json_option :: "string option \<Rightarrow> json" where
  "json_option v = (case v of None \<Rightarrow> JNull | Some s \<Rightarrow> JStr s)"

definition finding_json :: "finding_input \<Rightarrow> json" where
  "finding_json f = JObj [(''kind'', JStr (fi_kind f)), (''topic'', JStr (fi_topic f)),
     (''severity'', json_option (fi_severity f)), (''detail'', JStr (fi_detail f))]"

definition workaround_json :: "workaround_input \<Rightarrow> json" where
  "workaround_json w = JObj [(''used'', JBool (wi_used w)), (''detail'', json_option (wi_detail w))]"

section \<open>Tables\<close>

record feedback_row =
  fr_id :: uuid
  fr_workspace :: uuid
  fr_interaction :: uuid
  fr_summary :: string
  fr_impact :: "string option"
  fr_confidence :: "real option"
  fr_findings :: "finding_input list"
  fr_workaround :: "workaround_input option"
  fr_created_at :: time

record signal_row =
  sg_workspace :: uuid
  sg_product :: uuid
  sg_customer :: "uuid option"
  sg_session :: "uuid option"
  sg_interaction :: uuid
  sg_report :: uuid
  sg_feature :: "string option"
  sg_item :: string
  sg_type :: string
  sg_summary :: string
  sg_detail :: "string option"
  sg_attributes :: json
  sg_confidence :: "real option"
  sg_basis :: string
  sg_grant :: "uuid option"
  sg_collected_at :: time

text \<open>
  The tables a submission writes.  Reports are stored once; the joins the groups and the queue read
  (\<open>gd_reports\<close>, \<open>md_reports\<close>) get the joined row of a new report.
\<close>

record feedback_db =
  fb_consent :: consent_db
  fb_reports :: "feedback_row list"
  fb_signals :: "signal_row list"
  fb_issues :: issue_db
  fb_matches :: match_db

text \<open>The \<open>CHECK\<close> constraints on the texts; the others hold by what is written.\<close>

definition report_text_ok :: "feedback_row \<Rightarrow> bool" where
  "report_text_ok r \<longleftrightarrow> 8 \<le> utf8_count (fr_summary r) \<and> utf8_count (fr_summary r) \<le> 700"

definition signal_text_ok :: "signal_row \<Rightarrow> bool" where
  "signal_text_ok s \<longleftrightarrow> 3 \<le> utf8_count (sg_summary s) \<and> utf8_count (sg_summary s) \<le> 700
     \<and> opt_all (\<lambda>d. 3 \<le> utf8_count d \<and> utf8_count d \<le> 700) (sg_detail s)"

section \<open>Consent of a submission\<close>

definition consent_gate :: "string \<Rightarrow> uuid \<Rightarrow> capability_claims \<Rightarrow> consent_db \<Rightarrow> unit result" where
  "consent_gate mode environment_id claims db =
     (let decided = (map_option di_decision (decision_of environment_id (cl_i claims) db) = Some Approved)
      in if mode = ''off'' then Inl (gone ''Feedback collection is disabled'')
         else if mode = ''never_ask'' then Inr ()
         else if mode = ''ask_once''
         then (if (case cl_s claims of
                     Some subject \<Rightarrow> map_option sj_decision (subject_of environment_id subject db) = Some Approved
                   | None \<Rightarrow> decided)
               then Inr () else Inl (forbidden ''Ask-once feedback requires an approved Epode consent decision''))
         else if mode = ''ask_always''
         then (if decided then Inr ()
               else Inl (forbidden ''Ask-every-time feedback requires an approved decision for this interaction''))
         else Inl internal_error)"


section \<open>The interaction\<close>

text \<open>\<open>INSERT .. ON CONFLICT (id) DO UPDATE .. WHERE\<close> the interaction is of the same environment.\<close>

definition confirmed_interaction :: "time \<Rightarrow> string \<Rightarrow> interaction_row \<Rightarrow> interaction_row" where
  "confirmed_interaction now nonce_hash i =
     i\<lparr>iv_classification := ''confirmed'',
       iv_confirmation := coalesce (iv_confirmation i) (Some ''feedback_report''),
       iv_nonce_hash := coalesce (iv_nonce_hash i) (Some nonce_hash), iv_updated_at := now\<rparr>"

definition confirm_interaction ::
  "time \<Rightarrow> string \<Rightarrow> api_key_row \<Rightarrow> capability_claims \<Rightarrow> consent_db \<Rightarrow> (interaction_row \<times> consent_db) result" where
  "confirm_interaction now nonce_hash key claims db =
     (case find (\<lambda>i. iv_id i = cl_i claims) (cb_interactions db) of
        None \<Rightarrow>
          (let i = \<lparr>iv_id = cl_i claims, iv_workspace = ak_workspace key, iv_environment = ak_environment key,
                    iv_key = ak_id key, iv_session = None, iv_surface = ''unknown'', iv_operation = ''pending'',
                    iv_status_code = None, iv_customer = None, iv_classification = ''confirmed'',
                    iv_confirmation = Some ''feedback_report'', iv_nonce_hash = Some nonce_hash, iv_runtime_hint = None,
                    iv_occurred_at = seconds (cl_iat claims), iv_updated_at = now\<rparr>
           in Inr (i, db\<lparr>cb_interactions := cb_interactions db @ [i]\<rparr>))
      | Some i \<Rightarrow>
          if iv_environment i \<noteq> ak_environment key
          then Inl (conflict ''interactionId belongs to another product environment'')
          else Inr (confirmed_interaction now nonce_hash i,
                    db\<lparr>cb_interactions := update_where (\<lambda>i. iv_id i = cl_i claims)
                         (confirmed_interaction now nonce_hash) (cb_interactions db)\<rparr>))"

section \<open>The customer of a grant\<close>

definition grant_subject :: "string \<Rightarrow> capability_claims \<Rightarrow> string option" where
  "grant_subject mode claims =
     (case cl_s claims of Some s \<Rightarrow> Some s
      | None \<Rightarrow> if mode = ''ask_always'' then Some (interaction_subject (cl_i claims)) else None)"

definition link_customer ::
  "string \<Rightarrow> uuid \<Rightarrow> capability_claims \<Rightarrow> interaction_row \<Rightarrow> consent_db \<Rightarrow> consent_db result" where
  "link_customer mode environment_id claims i db =
     (case (grant_subject mode claims, iv_customer i) of
        (Some subject, Some customer) \<Rightarrow>
          if \<exists>g \<in> set (cb_grants db). of_grant environment_id subject Share_Outcome g
               \<and> opt_all (\<lambda>c. c \<noteq> customer) (gt_customer g) \<and> gt_customer g \<noteq> None
          then Inl (conflict ''Consent subject is already linked to a different customer'')
          else Inr (db\<lparr>cb_grants := update_where
                  (\<lambda>g. of_grant environment_id subject Share_Outcome g \<and> gt_customer g = None)
                  (\<lambda>g. g\<lparr>gt_customer := Some customer\<rparr>) (cb_grants db)\<rparr>)
      | _ \<Rightarrow> Inr db)"

section \<open>Signals\<close>

text \<open>The live approved grant of an approved interaction.\<close>

definition approved_grant :: "time \<Rightarrow> interaction_row \<Rightarrow> consent_db \<Rightarrow> uuid option" where
  "approved_grant now i db =
     Option.bind (decision_of (iv_environment i) (iv_id i) db) (\<lambda>x.
       if di_decision x \<noteq> Approved then None
       else map_option gt_id (find (\<lambda>g.
              of_grant (iv_environment i)
                (case di_subject x of Some s \<Rightarrow> s | None \<Rightarrow> interaction_subject (di_interaction x)) Share_Outcome g
              \<and> gt_state g = Granted Approved \<and> opt_all (\<lambda>t. t > now) (gt_expires_at g)) (cb_grants db)))"

definition signal_type :: "string \<Rightarrow> string" where
  "signal_type kind =
     (if kind = ''friction'' \<or> kind = ''defect'' then ''friction''
      else if kind = ''gap'' \<or> kind = ''suggestion'' then ''feature_need''
      else if kind = ''strength'' then ''satisfaction''
      else if kind = ''uncertainty'' then ''constraint''
      else ''outcome'')"

definition signal ::
  "interaction_row \<Rightarrow> feedback_row \<Rightarrow> uuid \<Rightarrow> string \<Rightarrow> uuid option \<Rightarrow> string \<Rightarrow> string \<Rightarrow> string \<Rightarrow> string option
   \<Rightarrow> string option \<Rightarrow> json \<Rightarrow> signal_row" where
  "signal i r product_id basis grant item type summary detail feature attributes =
     \<lparr>sg_workspace = fr_workspace r, sg_product = product_id, sg_customer = iv_customer i,
      sg_session = iv_session i, sg_interaction = iv_id i, sg_report = fr_id r, sg_feature = feature,
      sg_item = item, sg_type = type, sg_summary = clean summary 700,
      sg_detail = map_option (\<lambda>d. clean d 700) detail, sg_attributes = attributes,
      sg_confidence = fr_confidence r, sg_basis = basis, sg_grant = grant, sg_collected_at = fr_created_at r\<rparr>"

definition collection_basis :: "string \<Rightarrow> string" where
  "collection_basis mode = (if mode = ''never_ask'' then ''provider_feedback_policy'' else ''user_consent'')"

definition finding_signal ::
  "interaction_row \<Rightarrow> feedback_row \<Rightarrow> uuid \<Rightarrow> string \<Rightarrow> uuid option \<Rightarrow> nat \<Rightarrow> finding_input \<Rightarrow> signal_row" where
  "finding_signal i r product_id basis grant n f =
     signal i r product_id basis grant (''finding:'' @ show_nat (n + 1)) (signal_type (fi_kind f)) (fi_detail f)
       (Some (fi_detail f)) (Some (fi_topic f))
       (JObj [(''findingKind'', JStr (fi_kind f)), (''topic'', JStr (fi_topic f)),
              (''severity'', json_option (fi_severity f))])"

definition workaround_signal ::
  "interaction_row \<Rightarrow> feedback_row \<Rightarrow> uuid \<Rightarrow> string \<Rightarrow> uuid option \<Rightarrow> workaround_input \<Rightarrow> signal_row" where
  "workaround_signal i r product_id basis grant w =
     signal i r product_id basis grant ''workaround'' ''workaround''
       (if wi_used w then ''A workaround was used'' else ''A workaround was considered'')
       (wi_detail w) None (workaround_json w)"

definition report_signals ::
  "interaction_row \<Rightarrow> feedback_row \<Rightarrow> uuid \<Rightarrow> string \<Rightarrow> uuid option \<Rightarrow> signal_row list" where
  "report_signals i r product_id mode grant =
     (let basis = collection_basis mode
      in signal i r product_id basis grant ''outcome'' ''outcome'' (fr_summary r) None None
           (JObj [(''impact'', json_option (fr_impact r))])
         # map (\<lambda>(n, f). finding_signal i r product_id basis grant n f)
             (zip [0..<length (fr_findings r)] (fr_findings r))
         @ (case fr_workaround r of None \<Rightarrow> [] | Some w \<Rightarrow> [workaround_signal i r product_id basis grant w]))"

definition same_signal :: "signal_row \<Rightarrow> signal_row \<Rightarrow> bool" where
  "same_signal new s \<longleftrightarrow> sg_workspace s = sg_workspace new \<and> sg_report s = sg_report new \<and> sg_item s = sg_item new"

definition merged_signal :: "signal_row \<Rightarrow> signal_row \<Rightarrow> signal_row" where
  "merged_signal new s =
     s\<lparr>sg_customer := coalesce (sg_customer new) (sg_customer s),
       sg_session := coalesce (sg_session new) (sg_session s),
       sg_grant := coalesce (sg_grant new) (sg_grant s),
       sg_basis := (if sg_grant new \<noteq> None then sg_basis new else sg_basis s)\<rparr>"

definition project_feedback_signal :: "signal_row \<Rightarrow> signal_row list \<Rightarrow> (signal_row list) result" where
  "project_feedback_signal new rows =
     (if \<not> signal_text_ok new then Inl internal_error
      else if list_ex (same_signal new) rows
      then Inr (update_where (same_signal new) (merged_signal new) rows)
      else Inr (rows @ [new]))"

fun put_signals :: "signal_row list \<Rightarrow> signal_row list \<Rightarrow> (signal_row list) result" where
  "put_signals [] rows = Inr rows"
| "put_signals (new # ns) rows = result_bind (project_feedback_signal new rows) (put_signals ns)"

definition project_feedback_signals ::
  "time \<Rightarrow> interaction_row \<Rightarrow> feedback_row \<Rightarrow> uuid \<Rightarrow> string \<Rightarrow> feedback_db \<Rightarrow> feedback_db result" where
  "project_feedback_signals now i r product_id mode db =
     result_bind (put_signals (report_signals i r product_id mode (approved_grant now i (fb_consent db))) (fb_signals db))
       (\<lambda>signals. Inr (db\<lparr>fb_signals := signals\<rparr>))"

section \<open>Submitting a report\<close>

definition activated :: "time \<Rightarrow> uuid \<Rightarrow> uuid \<Rightarrow> feedback_db \<Rightarrow> feedback_db" where
  "activated now workspace_id product_id db =
     (let c = fb_consent db
      in db\<lparr>fb_consent := c\<lparr>cb_catalog := record_product_activation now workspace_id product_id True True True (cb_catalog c)\<rparr>\<rparr>)"

definition report_input_of :: "uuid \<Rightarrow> interaction_row \<Rightarrow> feedback_row \<Rightarrow> group_input" where
  "report_input_of product_id i r =
     \<lparr>gi_product_id = product_id, gi_operation = iv_operation i, gi_surface = iv_surface i,
      gi_status_code = iv_status_code i, gi_findings = fr_findings r\<rparr>"

text \<open>The report in its table and in the two joins.\<close>

definition joined_report :: "uuid \<Rightarrow> interaction_row \<Rightarrow> feedback_row \<Rightarrow> group_report" where
  "joined_report product_id i r =
     \<lparr>gq_id = fr_id r, gq_workspace = fr_workspace r, gq_group = None, gq_product = Some product_id,
      gq_operation = Some (iv_operation i), gq_surface = Some (iv_surface i), gq_status_code = iv_status_code i,
      gq_findings = Some (fr_findings r), gq_created_at = fr_created_at r, gq_occurred_at = iv_occurred_at i\<rparr>"

definition insert_report :: "uuid \<Rightarrow> interaction_row \<Rightarrow> feedback_row \<Rightarrow> feedback_db \<Rightarrow> feedback_db" where
  "insert_report product_id i r db =
     db\<lparr>fb_reports := fb_reports db @ [r],
        fb_issues := (fb_issues db)\<lparr>gd_reports := gd_reports (fb_issues db) @ [joined_report product_id i r]\<rparr>,
        fb_matches := (fb_matches db)\<lparr>md_reports := md_reports (fb_matches db) @
          [\<lparr>rv_id = fr_id r, rv_workspace_id = fr_workspace r, rv_operation = iv_operation i,
            rv_surface = iv_surface i, rv_runtime_hint = iv_runtime_hint i,
            rv_findings = JArr (map finding_json (fr_findings r))\<rparr>]\<rparr>\<rparr>"

definition new_report :: "time \<Rightarrow> uuid \<Rightarrow> api_key_row \<Rightarrow> capability_claims \<Rightarrow> valid_report \<Rightarrow> feedback_row" where
  "new_report now report_id key claims v =
     \<lparr>fr_id = report_id, fr_workspace = ak_workspace key, fr_interaction = cl_i claims,
      fr_summary = vp_summary v, fr_impact = vp_impact v, fr_confidence = vp_confidence v,
      fr_findings = vp_findings v, fr_workaround = vp_workaround v, fr_created_at = now\<rparr>"

text \<open>The transaction after the gate.\<close>

definition store_report ::
  "group_env \<Rightarrow> time \<Rightarrow> uuid \<Rightarrow> api_key_row \<Rightarrow> uuid \<Rightarrow> string \<Rightarrow> capability_claims \<Rightarrow> valid_report \<Rightarrow> interaction_row
   \<Rightarrow> feedback_db \<Rightarrow> (feedback_row \<times> feedback_db) result" where
  "store_report env now report_id key product_id mode claims v i db =
     (case find (\<lambda>r. fr_interaction r = cl_i claims) (fb_reports db) of
        Some existing \<Rightarrow>
          result_bind (project_feedback_signals now i existing product_id mode
                         (activated now (ak_workspace key) product_id db))
            (\<lambda>db'. Inr (existing, db'))
      | None \<Rightarrow>
          (let r = new_report now report_id key claims v
           in if \<not> report_text_ok r \<or> report_id \<in> fr_id ` set (fb_reports db) then Inl internal_error
              else (let db1 = activated now (ak_workspace key) product_id (insert_report product_id i r db);
                        db2 = db1\<lparr>fb_matches := enqueue_code_match_if_mapped now report_id product_id (fb_matches db1)\<rparr>
                    in result_bind (assign_report_group env (ak_workspace key) report_id
                             (report_input_of product_id i r) (fb_issues db2)) (\<lambda>(group, issues).
                       result_bind (project_feedback_signals now i r product_id mode (db2\<lparr>fb_issues := issues\<rparr>)) (\<lambda>db3.
                         Inr (r, db3))))))"

text \<open>
  A submission reads the key with the mode, then the consent, each in a statement of its own on the
  pool, and opens its transaction only when the gate has let it through.  The three may meet three
  states of the tables: \<open>seen\<close> when the key is read, \<open>standing\<close> when the consent is, and \<open>db\<close> in the
  transaction.
\<close>

definition feedback_admission ::
  "token_codec \<Rightarrow> time \<Rightarrow> string \<Rightarrow> consent_db \<Rightarrow> consent_db \<Rightarrow> (api_key_row \<times> environment_row \<times> string \<times> capability_claims) result" where
  "feedback_admission codec now capability seen standing =
     result_bind (verified_capability codec now capability seen) (\<lambda>(key, environment, claims).
       (let environment_id = ak_environment key; mode = cb_modes seen environment_id
        in result_bind (consent_gate mode environment_id claims standing) (\<lambda>_.
             Inr (key, environment, mode, claims))))"

definition feedback_transaction ::
  "token_codec \<Rightarrow> group_env \<Rightarrow> time \<Rightarrow> uuid \<Rightarrow> valid_report \<Rightarrow> api_key_row \<times> environment_row \<times> string \<times> capability_claims
   \<Rightarrow> feedback_db \<Rightarrow> (interaction_row \<times> feedback_row \<times> feedback_db) result" where
  "feedback_transaction codec env now report_id v admitted db =
     (case admitted of (key, environment, mode, claims) \<Rightarrow>
        result_bind (confirm_interaction now (tc_sha256 codec (cl_n claims)) key claims (fb_consent db)) (\<lambda>(i, consent1).
        result_bind (link_customer mode (ak_environment key) claims i consent1) (\<lambda>consent2.
        result_bind (store_report env now report_id key (en_product environment) mode claims v i
                       (db\<lparr>fb_consent := consent2\<rparr>)) (\<lambda>(r, db').
          Inr (i, r, db')))))"

definition submit_product_feedback ::
  "token_codec \<Rightarrow> group_env \<Rightarrow> time \<Rightarrow> uuid \<Rightarrow> string \<Rightarrow> report_input \<Rightarrow> consent_db \<Rightarrow> consent_db \<Rightarrow> feedback_db
   \<Rightarrow> (interaction_row \<times> feedback_row \<times> feedback_db) result" where
  "submit_product_feedback codec env now report_id capability input seen standing db =
     result_bind (validated_report input) (\<lambda>v.
     result_bind (feedback_admission codec now capability seen standing) (\<lambda>admitted.
       feedback_transaction codec env now report_id v admitted db))"

end
