(* ===== verification/FeedbackValidation.thy ===== *)
theory FeedbackValidation
  imports FeedbackReports
begin

text \<open>
  What the validation of a report lets through: exactly the reports in a normal form, which it does
  not change.
\<close>

section \<open>Words\<close>

lemma ws_len_append: "ws_len (a @ b) = 0 \<Longrightarrow> ws_len a = 0"
proof (cases a)
  case (Cons x r)
  assume "ws_len (a @ b) = 0"
  with Cons show ?thesis
    by (cases r; cases "tl r"; cases b; cases "tl b") (auto simp: ws_len_def split: if_splits)
qed (simp add: ws_len_def)

lemma ws_len_space: "ws_len a = 0 \<Longrightarrow> a \<noteq> [] \<Longrightarrow> ws_len (a @ CHR '' '' # s) = 0"
  by (cases a; cases "tl a"; cases "tl (tl a)"; cases s)
    (auto simp: ws_len_def byte_val_def split: if_splits)

text \<open>A word: no white space starts at any of its bytes.\<close>

definition dense :: "string \<Rightarrow> bool" where
  "dense w \<longleftrightarrow> w \<noteq> [] \<and> (\<forall>t u. w = t @ u \<longrightarrow> u \<noteq> [] \<longrightarrow> ws_len u = 0)"

lemma dense_words:
  assumes "\<And>t u. rev run = t @ u \<Longrightarrow> u \<noteq> [] \<Longrightarrow> ws_len (u @ s) = 0"
    "w \<in> set (words_from run s)"
  shows "dense w"
  using assms
proof (induction run s rule: words_from.induct)
  case (1 run s)
  have run: "dense (rev run)" if "run \<noteq> []"
    using that 1(3) ws_len_append by (auto simp: dense_def)
  consider (empty) "s = []" | (char) "s \<noteq> []" "ws_len s = 0" | (space) "s \<noteq> []" "ws_len s \<noteq> 0" by blast
  then show ?case
  proof cases
    case empty
    with 1(4) run show ?thesis by (subst (asm) words_from.simps) (auto split: if_splits)
  next
    case char
    show ?thesis
    proof (rule 1(1) [OF char])
      show "w \<in> set (words_from (hd s # run) (tl s))" using 1(4) char by (subst (asm) words_from.simps) simp
      show "ws_len (u @ tl s) = 0" if "rev (hd s # run) = t @ u" "u \<noteq> []" for t u
      proof -
        from that obtain u' where u: "u = u' @ [hd s]" "rev run = t @ u'"
          by (cases u rule: rev_cases) auto
        then have "u @ tl s = u' @ s" using char by simp
        then show ?thesis using u 1(3) [OF u(2)] char by (cases "u' = []") simp_all
      qed
    qed
  next
    case space
    then consider "run \<noteq> []" "w = rev run" | "w \<in> set (words_from [] (drop (ws_len s) s))"
      using 1(4) by (subst (asm) words_from.simps) (auto split: if_splits)
    then show ?thesis
      using run 1(2) [OF space] by cases simp_all
  qed
qed

lemma words_from_Nil: "words_from run [] = (if run = [] then [] else [rev run])"
  by (subst words_from.simps) simp

lemma dense_split: "list_all dense (split_whitespace s)"
  using dense_words [of "[]" s] by (auto simp: split_whitespace_def list_all_iff)

lemma words_of_dense:
  "(\<And>t u. w = t @ u \<Longrightarrow> u \<noteq> [] \<Longrightarrow> ws_len (u @ s) = 0) \<Longrightarrow> words_from run (w @ s) = words_from (rev w @ run) s"
proof (induction w arbitrary: run)
  case (Cons c w)
  have "ws_len (c # w @ s) = 0" using Cons.prems [of "[]" "c # w"] by simp
  then have "words_from run ((c # w) @ s) = words_from (c # run) (w @ s)" by (subst words_from.simps) simp
  also have "\<dots> = words_from (rev w @ c # run) s"
  proof (rule Cons.IH)
    show "ws_len (u @ s) = 0" if "w = t @ u" "u \<noteq> []" for t u
      using Cons.prems [of "c # t" u] that by simp
  qed
  finally show ?case by simp
qed simp

lemma split_join: "list_all dense ws \<Longrightarrow> split_whitespace (join '' '' ws) = ws"
proof (induction ws)
  case Nil
  then show ?case by (simp add: split_whitespace_def words_from_Nil)
next
  case (Cons w ws)
  have w: "dense w" using Cons by simp
  show ?case
  proof (cases ws)
    case Nil
    have "words_from [] (w @ []) = words_from (rev w @ []) []"
      by (rule words_of_dense) (use w in \<open>simp add: dense_def\<close>)
    with w Nil show ?thesis by (simp add: split_whitespace_def words_from_Nil dense_def)
  next
    case (Cons v vs)
    let ?s = "join '' '' ws"
    have sp: "ws_len (CHR '' '' # ?s) = 1" by (simp add: ws_len_def byte_val_def)
    have "words_from [] (w @ CHR '' '' # ?s) = words_from (rev w @ []) (CHR '' '' # ?s)"
      by (rule words_of_dense) (use w ws_len_space in \<open>simp add: dense_def\<close>)
    also have "\<dots> = w # words_from [] ?s"
      using w sp by (subst words_from.simps) (simp add: dense_def)
    finally have "words_from [] (w @ CHR '' '' # ?s) = w # split_whitespace ?s" by (simp only: split_whitespace_def)
    with Cons.IH Cons.prems Cons show ?thesis by (simp add: split_whitespace_def)
  qed
qed

lemma utf8_take_all: "utf8_count s \<le> n \<Longrightarrow> utf8_take n s = s"
  by (induction n s rule: utf8_take.induct) (auto split: nat.splits if_splits)

text \<open>White space counts as one character, as the blank it is replaced by.\<close>

lemma ws_count: "ws_len s \<noteq> 0 \<Longrightarrow> utf8_count s = Suc (utf8_count (drop (ws_len s) s))"
proof -
  assume ws: "ws_len s \<noteq> 0"
  then obtain a r where s: "s = a # r" by (cases s) (auto simp: ws_len_def)
  consider (one) "(9 \<le> byte_val a \<and> byte_val a \<le> 13) \<or> byte_val a = 32"
    | (more) "\<not> ((9 \<le> byte_val a \<and> byte_val a \<le> 13) \<or> byte_val a = 32)" by blast
  then show ?thesis
  proof cases
    case one
    then show ?thesis by (auto simp: s ws_len_def utf8_cont_def)
  next
    case more
    then obtain b q where r: "r = b # q" using ws s by (cases r) (auto simp: ws_len_def)
    show ?thesis
    proof (cases "byte_val a = 194 \<and> (byte_val b = 133 \<or> byte_val b = 160)")
      case True
      then show ?thesis by (elim conjE disjE) (simp_all add: s r ws_len_def utf8_cont_def)
    next
      case False
      obtain c q' where q: "q = c # q'" using ws more False s r by (cases q) (auto simp: ws_len_def)
      let ?three = "(byte_val a = 225 \<and> byte_val b = 154 \<and> byte_val c = 128)
          \<or> (byte_val a = 226 \<and> byte_val b = 128 \<and> ((128 \<le> byte_val c \<and> byte_val c \<le> 138)
              \<or> byte_val c = 168 \<or> byte_val c = 169 \<or> byte_val c = 175))
          \<or> (byte_val a = 226 \<and> byte_val b = 129 \<and> byte_val c = 159)
          \<or> (byte_val a = 227 \<and> byte_val b = 128 \<and> byte_val c = 128)"
      have len: "ws_len s = (if ?three then 3 else 0)"
        unfolding s r q ws_len_def using more False by (simp only: take_Suc_Cons list.map list.case if_False numeral_3_eq_3)
      then have three: ?three using ws by (simp only: split: if_splits)
      then have "\<not> utf8_cont a" "utf8_cont b" "utf8_cont c" by (auto simp: utf8_cont_def)
      then show ?thesis using len three by (simp only: s r q if_True) simp
    qed
  qed
qed

lemma words_count:
  "(\<Sum>w \<leftarrow> words_from run s. Suc (utf8_count w)) \<le> Suc (utf8_count (rev run) + utf8_count s)"
proof (induction run s rule: words_from.induct)
  case (1 run s)
  consider (empty) "s = []" | (char) "s \<noteq> []" "ws_len s = 0" | (space) "s \<noteq> []" "ws_len s \<noteq> 0" by blast
  then show ?case
  proof cases
    case empty
    then show ?thesis by (subst words_from.simps) simp
  next
    case char
    have "utf8_count s = utf8_count [hd s] + utf8_count (tl s)" using char(1) by (cases s) simp_all
    with 1(1) [OF char] char show ?thesis by (subst words_from.simps) simp
  next
    case space
    with 1(2) [OF space] ws_count [OF space(2)] show ?thesis by (subst words_from.simps) simp
  qed
qed

lemma join_count: "ws \<noteq> [] \<Longrightarrow> Suc (utf8_count (join '' '' ws)) = (\<Sum>w \<leftarrow> ws. Suc (utf8_count w))"
proof (induction ws)
  case (Cons w ws)
  have "\<not> utf8_cont (CHR '' '')" by (simp add: utf8_cont_def byte_val_def)
  with Cons show ?case by (cases ws) simp_all
qed simp

lemma joined_count: "utf8_count (join '' '' (split_whitespace s)) \<le> utf8_count s"
proof (cases "split_whitespace s = []")
  case False
  then show ?thesis using join_count [OF False] words_count [of "[]" s] by (simp add: split_whitespace_def)
qed simp

definition neat :: "string \<Rightarrow> bool" where
  "neat s \<longleftrightarrow> join '' '' (split_whitespace s) = s"

lemma clean_uncut: "utf8_count s \<le> n \<Longrightarrow> clean s n = join '' '' (split_whitespace s)"
  using joined_count [of s] by (simp add: clean_def utf8_take_all)

lemma clean_is_neat: "utf8_count s \<le> n \<Longrightarrow> neat (clean s n) \<and> utf8_count (clean s n) \<le> n"
  using joined_count [of s] by (simp add: clean_uncut neat_def split_join [OF dense_split])

lemma clean_neat: "neat s \<Longrightarrow> utf8_count s \<le> n \<Longrightarrow> clean s n = s"
  by (simp add: clean_uncut neat_def)

section \<open>Reports in normal form\<close>

definition good_text :: "nat \<Rightarrow> nat \<Rightarrow> string \<Rightarrow> bool" where
  "good_text low high s \<longleftrightarrow> neat s \<and> low \<le> length s \<and> utf8_count s \<le> high \<and> \<not> contains_sensitive_report_text s"

definition good_finding :: "finding_input \<Rightarrow> bool" where
  "good_finding f \<longleftrightarrow> fi_kind f \<in> set FINDING_KINDS \<and> opt_all (\<lambda>s. s \<in> set FINDING_SEVERITIES) (fi_severity f)
     \<and> safe_topic (fi_topic f) \<and> length (fi_topic f) \<le> 64 \<and> good_text 3 350 (fi_detail f)"

definition good_workaround :: "workaround_input \<Rightarrow> bool" where
  "good_workaround w \<longleftrightarrow> opt_all (good_text 1 350) (wi_detail w)
     \<and> (wi_used w \<longrightarrow> (\<exists>d. wi_detail w = Some d \<and> 3 \<le> length d))"

definition good_report :: "valid_report \<Rightarrow> bool" where
  "good_report v \<longleftrightarrow> good_text 8 700 (vp_summary v) \<and> opt_all (\<lambda>i. i \<in> set REPORT_IMPACTS) (vp_impact v)
     \<and> opt_all (\<lambda>c. 0 \<le> c \<and> c \<le> 1) (vp_confidence v) \<and> length (vp_findings v) \<le> 8
     \<and> list_all good_finding (vp_findings v) \<and> opt_all good_workaround (vp_workaround v)"

text \<open>A valid report sent again.\<close>

definition input_again :: "valid_report \<Rightarrow> report_input" where
  "input_again v = \<lparr>pi_summary = vp_summary v, pi_impact = vp_impact v, pi_confidence = vp_confidence v,
     pi_findings = vp_findings v, pi_workaround = vp_workaround v\<rparr>"

lemma topic_byte: "is_lower_or_digit c \<or> c \<in> set ''-_'' \<Longrightarrow> 45 \<le> byte_val c \<and> byte_val c \<le> 122 \<and> \<not> is_upper c"
  by (auto simp: is_lower_or_digit_def char_defs byte_val_def)

lemma topic_bytes:
  assumes "safe_topic s"
  shows "utf8_count s = length s" "neat s" "to_ascii_lowercase s = s" "replace_byte (CHR '' '') ''_'' s = s"
proof -
  have c: "45 \<le> byte_val c \<and> byte_val c \<le> 122 \<and> \<not> is_upper c" if "c \<in> set s" for c
    using assms that topic_byte by (auto simp: safe_topic_def list_all_iff)
  have "filter (\<lambda>c. \<not> utf8_cont c) s = s"
    by (rule filter_True) (use c in \<open>fastforce simp: utf8_cont_def\<close>)
  then show "utf8_count s = length s" by (simp add: utf8_count_def)
  have "ws_len u = 0" if "s = t @ u" "u \<noteq> []" for t u
  proof -
    have "hd u \<in> set s" using that by auto
    from c [OF this] show ?thesis using that(2)
      by (cases u) (auto simp: ws_len_def split: list.split)
  qed
  then have "dense s" using assms by (auto simp: dense_def safe_topic_def)
  then show "neat s" using split_join [of "[s]"] by (simp add: neat_def)
  show "to_ascii_lowercase s = s"
    unfolding to_ascii_lowercase_def by (rule map_idI) (use c in \<open>simp add: lower_byte_def\<close>)
  have "d \<noteq> CHR '' ''" if "d \<in> set s" for d using c [OF that] by (auto simp: byte_val_def)
  then show "replace_byte (CHR '' '') ''_'' s = s"
    by (induction s) (simp_all add: replace_byte_def)
qed

lemma normal_topic_count:
  assumes "utf8_count s \<le> 64"
  shows "utf8_count (normal_topic s) \<le> 64"
proof -
  have low: "utf8_count (to_ascii_lowercase t) = utf8_count t" for t
    by (induction t) (auto simp: to_ascii_lowercase_def lower_byte_def utf8_cont_def is_upper_def)
  have rep: "utf8_count (replace_byte (CHR '' '') ''_'' t) = utf8_count t" for t
    by (induction t) (auto simp: replace_byte_def utf8_cont_def byte_val_def)
  show ?thesis using clean_length [of s 64] by (simp add: normal_topic_def low rep)
qed

section \<open>Findings and workarounds\<close>

lemma validated_finding_good:
  assumes "validated_finding f = Inr g"
  shows "good_finding g"
proof -
  let ?t = "normal_topic (fi_topic f)" and ?d = "clean (fi_detail f) 350"
  from assms have g: "g = f\<lparr>fi_topic := ?t, fi_detail := ?d\<rparr>" "utf8_count (fi_topic f) \<le> 64"
    "utf8_count (fi_detail f) \<le> 350" "fi_kind f \<in> set FINDING_KINDS"
    "opt_all (\<lambda>s. s \<in> set FINDING_SEVERITIES) (fi_severity f)" "safe_topic ?t" "3 \<le> length ?d"
    "\<not> contains_sensitive_report_text ?d"
    by (simp_all add: validated_finding_def Let_def split: if_splits)
  then show ?thesis
    using normal_topic_count [OF g(2)] topic_bytes(1) [OF g(6)] clean_is_neat [OF g(3)]
    by (simp add: good_finding_def good_text_def)
qed

lemma validated_good_finding: "good_finding f \<Longrightarrow> validated_finding f = Inr f"
  by (auto simp: good_finding_def good_text_def validated_finding_def Let_def normal_topic_def topic_bytes clean_neat)

lemma validated_findings_good: "validated_findings fs = Inr gs \<Longrightarrow> list_all good_finding gs \<and> length gs = length fs"
  by (induction fs arbitrary: gs) (auto simp: result_bind_Inr dest: validated_finding_good)

lemma validated_good_findings: "list_all good_finding fs \<Longrightarrow> validated_findings fs = Inr fs"
  by (induction fs) (auto simp: validated_good_finding)

lemma validated_workaround_good:
  assumes "validated_workaround w = Inr x"
  shows "good_workaround x"
proof (cases "wi_detail w")
  case None
  with assms show ?thesis
    by (auto simp: validated_workaround_def good_workaround_def Let_def split: if_splits)
next
  case (Some d)
  let ?d = "clean d 350"
  have count: "utf8_count d \<le> 350" using assms Some by (simp add: validated_workaround_def split: if_splits)
  show ?thesis
  proof (cases "?d = []")
    case True
    with assms Some show ?thesis
      by (simp add: validated_workaround_def good_workaround_def Let_def split: if_splits) auto
  next
    case False
    with assms Some have "x = w\<lparr>wi_detail := Some ?d\<rparr>" "wi_used w \<longrightarrow> 3 \<le> length ?d"
      "\<not> contains_sensitive_report_text ?d"
      by (simp_all add: validated_workaround_def Let_def not_less split: if_splits)
    with clean_is_neat [OF count] False show ?thesis
      by (simp add: good_workaround_def good_text_def Suc_le_eq)
  qed
qed

lemma validated_good_workaround:
  assumes "good_workaround w"
  shows "validated_workaround w = Inr w"
proof (cases "wi_detail w")
  case None
  with assms show ?thesis by (cases w) (simp add: good_workaround_def validated_workaround_def Let_def)
next
  case (Some d)
  then have d: "good_text 1 350 d" using assms by (simp add: good_workaround_def)
  then have "clean d 350 = d" "d \<noteq> []" by (auto simp: good_text_def clean_neat)
  with assms Some d show ?thesis
    by (cases w) (auto simp: good_workaround_def good_text_def validated_workaround_def Let_def)
qed

section \<open>Validation is onto the normal forms\<close>

lemma validated_report_good:
  assumes "validated_report input = Inr v"
  shows "good_report v"
proof -
  let ?s = "clean (pi_summary input) 700"
  from assms obtain fs w where r: "utf8_count (pi_summary input) \<le> 700" "8 \<le> length ?s"
    "\<not> contains_sensitive_report_text ?s" "opt_all (\<lambda>i. i \<in> set REPORT_IMPACTS) (pi_impact input)"
    "opt_all (\<lambda>c. 0 \<le> c \<and> c \<le> 1) (pi_confidence input)" "length (pi_findings input) \<le> 8"
    "validated_findings (pi_findings input) = Inr fs"
    "(case pi_workaround input of None \<Rightarrow> Inr None
      | Some w \<Rightarrow> result_bind (validated_workaround w) (\<lambda>v. Inr (Some v))) = Inr w"
    "v = \<lparr>vp_summary = ?s, vp_impact = pi_impact input, vp_confidence = pi_confidence input, vp_findings = fs,
          vp_workaround = w\<rparr>"
    by (simp add: validated_report_def Let_def result_bind_Inr split: if_splits) blast
  have "opt_all good_workaround w"
    using r(8) validated_workaround_good by (auto simp: result_bind_Inr split: option.splits)
  with r clean_is_neat [OF r(1)] validated_findings_good [OF r(7)] show ?thesis
    by (simp add: good_report_def good_text_def)
qed

text \<open>
  C25. The reports that validation lets through are exactly those in the normal form \<open>good_report\<close>:
  single-spaced texts within their limits, known kinds, severities and impacts, safe topics, at most
  eight findings, nothing sensitive; and validation leaves a report in normal form as it is.
\<close>

theorem validation_is_onto_the_normal_forms:
  "((\<exists>input. validated_report input = Inr v) \<longleftrightarrow> good_report v)
   \<and> (validated_report (input_again v) = Inr v \<longleftrightarrow> good_report v)"
proof -
  have again: "validated_report (input_again v) = Inr v" if "good_report v"
  proof -
    from that have s: "good_text 8 700 (vp_summary v)" "list_all good_finding (vp_findings v)"
      "opt_all good_workaround (vp_workaround v)" by (simp_all add: good_report_def)
    have "(case vp_workaround v of None \<Rightarrow> Inr None
        | Some w \<Rightarrow> result_bind (validated_workaround w) (\<lambda>v. Inr (Some v))) = Inr (vp_workaround v)"
      using s(3) validated_good_workaround by (auto split: option.split)
    with that s(1) validated_good_findings [OF s(2)] show ?thesis
      by (simp add: validated_report_def input_again_def Let_def good_report_def good_text_def clean_neat)
  qed
  then show ?thesis using validated_report_good by blast+
qed

end
