(* ===== verification/ConsentFacts.thy ===== *)
theory ConsentFacts
  imports Consent
begin

text \<open>
  What the consent tables promise after any sequence of decisions and other work: the audit trail of a
  subject lists its revisions one by one and ends in the standing decision, a revision is decided by
  one interaction, and a capability of another revision changes nothing.
\<close>

section \<open>Rows by key\<close>

lemma subject_of_key: "subject_of e s db = Some r \<Longrightarrow> of_subject e s r \<and> r \<in> set (cb_subjects db)"
  unfolding subject_of_def by (auto simp: find_Some_iff)

lemma find_other_key:
  assumes "\<And>x. k (f x) = k x"
  shows "find (\<lambda>x. k x = a) (update_where (\<lambda>x. k x = b) f xs) =
    (if a = b then map_option f (find (\<lambda>x. k x = a) xs) else find (\<lambda>x. k x = a) xs)"
  using assms by (induction xs) (auto simp: update_where_def)

definition subject_key :: "subject_row \<Rightarrow> uuid \<times> string" where
  "subject_key r = (sj_environment r, sj_subject r)"

lemma of_subject_key: "of_subject e s = (\<lambda>r. subject_key r = (e, s))"
  by (auto simp: of_subject_def subject_key_def fun_eq_iff)

definition grant_key :: "grant_row \<Rightarrow> uuid \<times> string \<times> consent_scope" where
  "grant_key g = (gt_environment g, gt_subject g, gt_scope g)"

lemma of_grant_key: "of_grant e s c = (\<lambda>g. grant_key g = (e, s, c))"
  by (auto simp: of_grant_def grant_key_def fun_eq_iff)

text \<open>What a successful compare-and-set does to the subjects.\<close>

lemma apply_to_subject_Some:
  assumes "apply_to_subject now e s d n db = Some (r, db')"
  shows "sj_decision r = d \<and> sj_decided_at r = now \<and> sj_revision r = n + 1
    \<and> subject_of e s db' = Some r
    \<and> (\<forall>e' s'. (e', s') \<noteq> (e, s) \<longrightarrow> subject_of e' s' db' = subject_of e' s' db)
    \<and> (case subject_of e s db of None \<Rightarrow> n = 0 \<and> sj_flipped_from r = None
       | Some old \<Rightarrow> sj_revision old = n \<and> sj_flipped_from r = flipped (sj_decision old) d)
    \<and> cb_catalog db' = cb_catalog db \<and> cb_modes db' = cb_modes db \<and> cb_decisions db' = cb_decisions db
    \<and> cb_grants db' = cb_grants db \<and> cb_events db' = cb_events db \<and> cb_interactions db' = cb_interactions db"
proof (cases "subject_of e s db")
  case None
  with assms have n: "n = 0" and db': "db' = db\<lparr>cb_subjects := cb_subjects db @ [r]\<rparr>"
    and r: "r = \<lparr>sj_environment = e, sj_subject = s, sj_decision = d, sj_decided_at = now, sj_updated_at = now,
                 sj_flipped_from = None, sj_revision = 1\<rparr>"
    by (auto simp: apply_to_subject_def Let_def split: if_splits)
  have "find (of_subject e' s') (cb_subjects db @ [r]) =
      (if (e', s') = (e, s) then Some r else find (of_subject e' s') (cb_subjects db))" for e' s'
    using None by (auto simp: subject_of_def find_append of_subject_def r split: option.split)
  with None n db' r show ?thesis by (auto simp: subject_of_def)
next
  case (Some old)
  let ?f = "\<lambda>r. r\<lparr>sj_decision := d, sj_decided_at := now, sj_flipped_from := flipped (sj_decision r) d,
                  sj_revision := sj_revision r + 1, sj_updated_at := now\<rparr>"
  from assms Some have n: "sj_revision old = n" "r = ?f old"
    and db': "db' = db\<lparr>cb_subjects := update_where (of_subject e s) ?f (cb_subjects db)\<rparr>"
    by (auto simp: apply_to_subject_def Let_def split: if_splits)
  have "find (of_subject e' s') (update_where (of_subject e s) ?f (cb_subjects db)) =
      (if (e', s') = (e, s) then map_option ?f (find (of_subject e' s') (cb_subjects db))
       else find (of_subject e' s') (cb_subjects db))" for e' s'
    unfolding of_subject_key by (rule find_other_key) (simp add: subject_key_def)
  with Some n db' show ?thesis by (auto simp: subject_of_def)
qed


lemma dual_write_Inr:
  assumes "dual_write_share_outcome_consent gid eid e s d n at expires prior src db = Inr db'"
  shows "\<exists>g v. grant_of e s Share_Outcome db' = Some g
    \<and> gt_state g = Granted d \<and> gt_revision g = n \<and> gt_decided_at g = at \<and> gt_expires_at g = expires
    \<and> opt_all (\<lambda>old. gt_revision old < n) (grant_of e s Share_Outcome db)
    \<and> (\<forall>e' s' c. (e', s', c) \<noteq> (e, s, Share_Outcome) \<longrightarrow> grant_of e' s' c db' = grant_of e' s' c db)
    \<and> cb_events db' = cb_events db @ [v]
    \<and> ev_environment v = e \<and> ev_subject v = s \<and> ev_scope v = Share_Outcome \<and> ev_state v = Granted d
    \<and> ev_prior_state v = map_option Granted prior \<and> ev_revision v = n \<and> ev_decided_at v = at \<and> ev_source v = src
    \<and> cb_subjects db' = cb_subjects db \<and> cb_decisions db' = cb_decisions db \<and> cb_modes db' = cb_modes db
    \<and> cb_catalog db' = cb_catalog db \<and> cb_interactions db' = cb_interactions db"
proof (cases "grant_of e s Share_Outcome db")
  case None
  from assms obtain env where "find (\<lambda>x. en_id x = e) (ca_environments (cb_catalog db)) = Some env"
    by (auto simp: dual_write_share_outcome_consent_def split: option.splits)
  with assms None have db': "db' = db\<lparr>cb_grants := cb_grants db @
        [\<lparr>gt_id = gid, gt_workspace = en_workspace env, gt_product = en_product env, gt_environment = e,
          gt_customer = None, gt_subject = s, gt_scope = Share_Outcome, gt_state = Granted d, gt_revision = n,
          gt_decided_at = at, gt_expires_at = expires, gt_revoked_at = None\<rparr>],
      cb_events := cb_events db @ [\<lparr>ev_id = eid, ev_grant = gid, ev_environment = e, ev_subject = s,
          ev_scope = Share_Outcome, ev_prior_state = map_option Granted prior, ev_state = Granted d,
          ev_revision = n, ev_source = src, ev_decided_at = at\<rparr>]\<rparr>"
    by (auto simp: dual_write_share_outcome_consent_def result_bind_Inr split: option.splits if_splits)
  let ?new = "\<lparr>gt_id = gid, gt_workspace = en_workspace env, gt_product = en_product env, gt_environment = e,
          gt_customer = None, gt_subject = s, gt_scope = Share_Outcome, gt_state = Granted d, gt_revision = n,
          gt_decided_at = at, gt_expires_at = expires, gt_revoked_at = None\<rparr>"
  have new: "grant_of e' s' c db' = (case grant_of e' s' c db of Some g \<Rightarrow> Some g
      | None \<Rightarrow> if (e', s', c) = (e, s, Share_Outcome) then Some ?new else None)" for e' s' c
    unfolding grant_of_def db' by (auto simp: find_append of_grant_def split: option.split)
  have "grant_of e s Share_Outcome db' = Some ?new" using None by (simp add: new)
  moreover have "grant_of e' s' c db' = grant_of e' s' c db" if "(e', s', c) \<noteq> (e, s, Share_Outcome)" for e' s' c
    using that by (simp add: new split: option.split)
  ultimately show ?thesis using None by (intro exI [of _ ?new]) (simp add: db')
next
  case (Some g)
  let ?f = "\<lambda>g. g\<lparr>gt_state := Granted d, gt_revision := n, gt_decided_at := at, gt_expires_at := expires,
                  gt_revoked_at := None\<rparr>"
  from assms Some have n: "gt_revision g < n" and db': "db' = db\<lparr>
      cb_grants := update_where (of_grant e s Share_Outcome) ?f (cb_grants db),
      cb_events := cb_events db @ [\<lparr>ev_id = eid, ev_grant = gt_id g, ev_environment = e, ev_subject = s,
          ev_scope = Share_Outcome, ev_prior_state = map_option Granted prior, ev_state = Granted d,
          ev_revision = n, ev_source = src, ev_decided_at = at\<rparr>]\<rparr>"
    by (auto simp: dual_write_share_outcome_consent_def result_bind_Inr split: option.splits if_splits)
  have "grant_of e' s' c db' = (if (e', s', c) = (e, s, Share_Outcome) then map_option ?f (grant_of e' s' c db)
       else grant_of e' s' c db)" for e' s' c
    using find_other_key [of grant_key ?f "(e', s', c)" "(e, s, Share_Outcome)" "cb_grants db"]
    by (simp add: grant_of_def db' of_grant_key grant_key_def)
  with Some n db' show ?thesis by simp
qed

section \<open>The audit trail\<close>

definition trail :: "uuid \<Rightarrow> string \<Rightarrow> consent_db \<Rightarrow> event_row list" where
  "trail e s db = filter (\<lambda>v. ev_environment v = e \<and> ev_subject v = s \<and> ev_scope v = Share_Outcome) (cb_events db)"

text \<open>Every event names the state before it, unless that is the state it sets.\<close>

fun chained :: "grant_state option \<Rightarrow> event_row list \<Rightarrow> bool" where
  "chained p [] \<longleftrightarrow> True"
| "chained p (v # vs) \<longleftrightarrow>
     ev_prior_state v = (if p = Some (ev_state v) then None else p) \<and> chained (Some (ev_state v)) vs"

lemma chained_snoc:
  "chained p (vs @ [v]) \<longleftrightarrow> chained p vs
     \<and> ev_prior_state v = (let q = (if vs = [] then p else Some (ev_state (last vs)))
                           in if q = Some (ev_state v) then None else q)"
  by (induction vs arbitrary: p) (auto simp: Let_def)

definition revision_of :: "uuid \<Rightarrow> string \<Rightarrow> consent_db \<Rightarrow> int" where
  "revision_of e s db = (case subject_of e s db of None \<Rightarrow> 0 | Some r \<Rightarrow> sj_revision r)"

text \<open>What the three tables say of one subject.\<close>

definition agree :: "uuid \<Rightarrow> string \<Rightarrow> consent_db \<Rightarrow> bool" where
  "agree e s db \<longleftrightarrow>
     map ev_revision (trail e s db) = map int [1..<Suc (nat (revision_of e s db))]
     \<and> chained None (trail e s db)
     \<and> (case subject_of e s db of
          None \<Rightarrow> grant_of e s Share_Outcome db = None
        | Some r \<Rightarrow> 1 \<le> sj_revision r
            \<and> ev_state (last (trail e s db)) = Granted (sj_decision r)
            \<and> ev_decided_at (last (trail e s db)) = sj_decided_at r
            \<and> (\<exists>g. grant_of e s Share_Outcome db = Some g \<and> gt_state g = Granted (sj_decision r)
                  \<and> gt_revision g = sj_revision r \<and> gt_decided_at g = sj_decided_at r \<and> gt_expires_at g = None))"

text \<open>A revision is decided by one interaction.\<close>

definition decided_once :: "consent_db \<Rightarrow> bool" where
  "decided_once db \<longleftrightarrow>
     (\<forall>x \<in> set (cb_decisions db). \<forall>n. di_applied_revision x = Some n \<longrightarrow>
        di_subject x \<noteq> None \<and> 1 \<le> n \<and> n \<le> revision_of (di_environment x) (the (di_subject x)) db)
     \<and> distinct (map (\<lambda>x. (di_environment x, di_subject x, di_applied_revision x))
         (filter (\<lambda>x. di_applied_revision x \<noteq> None) (cb_decisions db)))
     \<and> distinct (map di_interaction (cb_decisions db))"

definition consent_inv :: "consent_db \<Rightarrow> bool" where
  "consent_inv db \<longleftrightarrow> decided_once db \<and> (\<forall>e s. valid_consent_subject s \<longrightarrow> agree e s db)"

lemma agree_applied:
  assumes "agree e s db" "apply_to_subject now e s d n db = Some (r, db1)"
    "dual_write_share_outcome_consent gid eid e s d (sj_revision r) at None (sj_flipped_from r) src
       (mark_applied x e m db1) = Inr db'" "at = now"
  shows "agree e s db'"
proof -
  note a = apply_to_subject_Some [OF assms(2)]
  from dual_write_Inr [OF assms(3)] obtain g v where g:
    "grant_of e s Share_Outcome db' = Some g" "gt_state g = Granted d" "gt_revision g = sj_revision r"
    "gt_decided_at g = at" "gt_expires_at g = None" "cb_events db' = cb_events db1 @ [v]"
    "ev_environment v = e" "ev_subject v = s" "ev_scope v = Share_Outcome" "ev_state v = Granted d"
    "ev_prior_state v = map_option Granted (sj_flipped_from r)" "ev_revision v = sj_revision r"
    "cb_subjects db' = cb_subjects db1" "ev_decided_at v = at"
    by (auto simp: mark_applied_def)
  have row: "subject_of e s db' = Some r" using a g by (simp add: subject_of_def)
  have tr: "trail e s db' = trail e s db @ [v]" using a g by (simp add: trail_def)
  have rev: "sj_revision r = revision_of e s db + 1" "0 \<le> revision_of e s db"
    using a assms(1) by (auto simp: revision_of_def agree_def split: option.splits)
  have "[1..<Suc (nat (sj_revision r))] = [1..<Suc (nat (revision_of e s db))] @ [nat (sj_revision r)]"
    using rev by (simp add: nat_add_distrib)
  then have "map ev_revision (trail e s db') = map int [1..<Suc (nat (sj_revision r))]"
    using assms(1) g(12) rev by (simp add: tr agree_def)
  moreover have "chained None (trail e s db')"
  proof -
    have "map ev_revision (trail e s db) = map int [1..<Suc (nat (revision_of e s db))]"
      using assms(1) by (simp add: agree_def)
    from arg_cong [OF this, of length] have "length (trail e s db) = nat (revision_of e s db)" by simp
    then have "trail e s db = [] \<longleftrightarrow> subject_of e s db = None"
      using assms(1) by (cases "trail e s db") (auto simp: agree_def revision_of_def split: option.splits)
    then show ?thesis
      using assms(1) a g(10,11) by (auto simp: tr chained_snoc Let_def agree_def flipped_def split: option.splits)
  qed
  ultimately show ?thesis using row a g tr rev assms(4) by (simp add: agree_def revision_of_def)
qed


lemma agree_cong:
  assumes "agree e s db" "subject_of e s db' = subject_of e s db" "trail e s db' = trail e s db"
    "map_option (\<lambda>g. (gt_state g, gt_revision g, gt_decided_at g, gt_expires_at g)) (grant_of e s Share_Outcome db')
      = map_option (\<lambda>g. (gt_state g, gt_revision g, gt_decided_at g, gt_expires_at g)) (grant_of e s Share_Outcome db)"
  shows "agree e s db'"
  using assms by (auto simp: agree_def revision_of_def split: option.splits)

section \<open>One decision\<close>

definition with_decision :: "time \<Rightarrow> uuid \<Rightarrow> capability_claims \<Rightarrow> decision \<Rightarrow> consent_db \<Rightarrow> consent_db" where
  "with_decision now e claims d db = db\<lparr>cb_decisions := cb_decisions db @
     [\<lparr>di_interaction = cl_i claims, di_environment = e, di_subject = cl_s claims, di_decision = d,
       di_decided_at = now, di_applied_revision = None\<rparr>]\<rparr>"

lemma with_decision_simps [simp]:
  "cb_subjects (with_decision now e claims d db) = cb_subjects db"
  "cb_grants (with_decision now e claims d db) = cb_grants db"
  "cb_events (with_decision now e claims d db) = cb_events db"
  "subject_of e' s (with_decision now e claims d db) = subject_of e' s db"
  "trail e' s (with_decision now e claims d db) = trail e' s db"
  "grant_of e' s c (with_decision now e claims d db) = grant_of e' s c db"
  by (simp_all add: with_decision_def subject_of_def trail_def grant_of_def)

text \<open>The ways a decision can end: repeated, out of date, applied to its subject, or for its interaction alone.\<close>

inductive decided ::
  "time \<Rightarrow> string \<Rightarrow> uuid \<Rightarrow> capability_claims \<Rightarrow> decision \<Rightarrow> consent_db \<Rightarrow> standing \<Rightarrow> consent_db \<Rightarrow> bool"
  for now mode e claims d db
where
  repeated: "decision_of e (cl_i claims) db = Some x \<Longrightarrow>
     decided now mode e claims d db (repeated_decision mode e claims x db) db"
| outdated: "cl_i claims \<notin> di_interaction ` set (cb_decisions db) \<Longrightarrow> mode = ''ask_once'' \<Longrightarrow> cl_s claims = Some s \<Longrightarrow>
     apply_to_subject now e s d (case cl_r claims of Some r \<Rightarrow> r | None \<Rightarrow> 0) (with_decision now e claims d db) = None \<Longrightarrow>
     st = (case subject_of e s db of
        Some r \<Rightarrow> (Some (sj_decision r), sj_decided_at r, False, False, None)
      | None \<Rightarrow> (None, now, False, False, None)) \<Longrightarrow>
     decided now mode e claims d db st (with_decision now e claims d db)"
| applied: "cl_i claims \<notin> di_interaction ` set (cb_decisions db) \<Longrightarrow> mode = ''ask_once'' \<Longrightarrow> cl_s claims = Some s \<Longrightarrow>
     apply_to_subject now e s d (case cl_r claims of Some r \<Rightarrow> r | None \<Rightarrow> 0) (with_decision now e claims d db) = Some (r, db1) \<Longrightarrow>
     dual_write_share_outcome_consent gid eid e s d (sj_revision r) now None (sj_flipped_from r) Feedback_Consent
       (mark_applied (cl_i claims) e (sj_revision r) db1) = Inr db' \<Longrightarrow>
     decided now mode e claims d db (Some d, now, True, d = Approved, sj_flipped_from r) db'"
| single: "cl_i claims \<notin> di_interaction ` set (cb_decisions db) \<Longrightarrow> mode = ''ask_once'' \<Longrightarrow> cl_s claims = None \<Longrightarrow>
     decided now mode e claims d db (Some d, now, True, d = Approved, None) (with_decision now e claims d db)"
| always: "cl_i claims \<notin> di_interaction ` set (cb_decisions db) \<Longrightarrow> mode = ''ask_always'' \<Longrightarrow>
     dual_write_share_outcome_consent gid eid e (interaction_subject (cl_i claims)) d 1 now
       (Some (seconds (cl_exp claims))) None Feedback_Consent (with_decision now e claims d db) = Inr db' \<Longrightarrow>
     decided now mode e claims d db (Some d, now, True, d = Approved, None) db'"

lemma mark_applied_subject [simp]: "subject_of e s (mark_applied i e' n db) = subject_of e s db"
  by (simp add: subject_of_def mark_applied_def)

lemma record_decides:
  assumes "record_feedback_consent_decision codec now gid eid cap words db = Inr (out, db')"
  obtains key env claims d st where
    "verified_capability codec now cap db = Inr (key, env, claims)" "decision_of_text words = Some d"
    "cb_modes db (ak_environment key) \<in> {''ask_once'', ''ask_always''}"
    "decided now (cb_modes db (ak_environment key)) (ak_environment key) claims d db st db'"
    "(co_decision out, co_decided_at out, co_changed out, co_action_allowed out, co_flipped_from out) = st"
    "co_mode out = cb_modes db (ak_environment key)" "co_expires_at out = cl_exp claims"
    "co_protocol_tool out = (\<exists>i \<in> set (cb_interactions db'). iv_id i = cl_i claims
          \<and> iv_environment i = ak_environment key \<and> iv_surface i = ''mcp'' \<and> iv_confirmation i = Some ''mcp'')"
proof -
  obtain d where d: "decision_of_text words = Some d"
    using assms by (cases "decision_of_text words") (simp_all add: record_feedback_consent_decision_def)
  from assms d obtain x where v: "verified_capability codec now cap db = Inr x"
    by (cases "verified_capability codec now cap db") (simp_all add: record_feedback_consent_decision_def)
  obtain key env claims where x: "x = (key, env, claims)" by (cases x)
  note run = assms [unfolded record_feedback_consent_decision_def d v x option.case result_bind.simps prod.case Let_def]
  have m: "cb_modes db (ak_environment key) \<in> {''ask_once'', ''ask_always''}"
  proof (rule ccontr)
    assume "cb_modes db (ak_environment key) \<notin> {''ask_once'', ''ask_always''}"
    then show False using run by simp
  qed
  then have "\<not> (cb_modes db (ak_environment key) \<noteq> ''ask_once'' \<and> cb_modes db (ak_environment key) \<noteq> ''ask_always'')"
    by auto
  note run = run [unfolded if_not_P [OF this]]
  have "\<not> (cb_modes db (ak_environment key) = ''ask_once'' \<and> \<not> opt_all valid_consent_subject (cl_s claims))"
    using run by (rule contrapos_pn) simp
  note run = run [unfolded if_not_P [OF this]]
  obtain st db1 where p: "decide now (cb_modes db (ak_environment key)) (ak_environment key) claims d db = Inr (st, db1)"
    using run by (cases "decide now (cb_modes db (ak_environment key)) (ak_environment key) claims d db")
      (simp, metis surj_pair)
  note run = run [unfolded p result_bind.simps prod.case]
  obtain db2 where w: "write_consent codec gid eid (cb_modes db (ak_environment key)) (ak_environment key) claims st db1 = Inr db2"
    using run by (cases "write_consent codec gid eid (cb_modes db (ak_environment key)) (ak_environment key) claims st db1") simp_all
  obtain s1 s2 s3 s4 s5 where s: "st = (s1, s2, s3, s4, s5)" by (cases st)
  note run = run [unfolded w result_bind.simps]
  note run = run [unfolded s prod.case]
  have db2: "db2 = db'" using run by simp
  have o: "(co_decision out, co_decided_at out, co_changed out, co_action_allowed out, co_flipped_from out) = st"
    "co_mode out = cb_modes db (ak_environment key)" "co_expires_at out = cl_exp claims"
    "co_protocol_tool out = (\<exists>i \<in> set (cb_interactions db'). iv_id i = cl_i claims
          \<and> iv_environment i = ak_environment key \<and> iv_surface i = ''mcp'' \<and> iv_confirmation i = Some ''mcp'')"
    using run s by auto
  note r = d v [unfolded x] m p w [unfolded db2] o
  let ?e = "ak_environment key" and ?mode = "cb_modes db (ak_environment key)"
  have "decided now ?mode ?e claims d db st db'"
  proof (cases "cl_i claims \<in> di_interaction ` set (cb_decisions db)")
    case True
    obtain x where look: "decision_of ?e (cl_i claims) db = Some x"
      using True r(4) by (cases "decision_of ?e (cl_i claims) db") (simp_all add: decide_def)
    have "st = repeated_decision ?mode ?e claims x db \<and> db1 = db"
      using r(4) [unfolded decide_def if_P [OF True] look option.case] by auto
    with look have x: "decision_of ?e (cl_i claims) db = Some x" "st = repeated_decision ?mode ?e claims x db" "db1 = db"
      by blast+
    have "\<exists>a b c f. st = (a, b, False, c, f)"
      unfolding x(2) repeated_decision_def Let_def by (auto split: option.splits)
    with r(5) x have "db' = db" by (auto simp: write_consent_def)
    with x show ?thesis by (simp add: repeated)
  next
    case new: False
    let ?dbw = "with_decision now ?e claims d db"
    from new r(4) have f: "first_decision now ?mode ?e claims d ?dbw = (st, db1)"
      by (simp add: decide_def with_decision_def)
    consider (always) "?mode = ''ask_always''" | (single) "?mode = ''ask_once''" "cl_s claims = None"
      | (once) s where "?mode = ''ask_once''" "cl_s claims = Some s" using r(3) by auto
    then show ?thesis
    proof cases
      case always
      with f have "st = (Some d, now, True, d = Approved, None)" "db1 = ?dbw"
        by (auto simp: first_decision_def)
      with r(5) always decided.always [OF new always] show ?thesis
        by (auto simp: write_consent_def split: if_splits)
    next
      case single
      with f have "st = (Some d, now, True, d = Approved, None)" "db1 = ?dbw"
        by (auto simp: first_decision_def)
      with r(5) single decided.single [OF new single] show ?thesis by (auto simp: write_consent_def)
    next
      case once
      let ?n = "case cl_r claims of Some r \<Rightarrow> r | None \<Rightarrow> 0"
      show ?thesis
      proof (cases "apply_to_subject now ?e s d ?n ?dbw")
        case None
        with f once have db1: "db1 = ?dbw" "st = (case subject_of ?e s db of
            Some r \<Rightarrow> (Some (sj_decision r), sj_decided_at r, False, False, None)
          | None \<Rightarrow> (None, now, False, False, None))"
          by (auto simp: first_decision_def Let_def split: option.splits)
        have "db' = ?dbw" using r(5) db1 by (auto simp: write_consent_def split: option.splits)
        with decided.outdated [OF new once None db1(2)] show ?thesis by simp
      next
        case (Some p)
        obtain r1 db2 where p: "p = (r1, db2)" by force
        note a = apply_to_subject_Some [OF Some [unfolded p]]
        from f once Some p have db1: "db1 = mark_applied (cl_i claims) ?e (sj_revision r1) db2"
          "st = (Some d, now, True, d = Approved, sj_flipped_from r1)"
          using a by (auto simp: first_decision_def Let_def)
        have "dual_write_share_outcome_consent gid eid ?e s d (sj_revision r1) now None (sj_flipped_from r1)
            Feedback_Consent db1 = Inr db'"
          using r(5) once a db1 by (simp add: write_consent_def)
        with decided.applied [OF new once Some [unfolded p]] db1 show ?thesis by simp
      qed
    qed
  qed
  with r that show ?thesis by metis
qed


section \<open>The invariant\<close>

lemma interaction_subject_not_valid: "\<not> valid_consent_subject (interaction_subject i)"
  by (simp add: valid_consent_subject_def interaction_subject_def strip_prefix_def starts_with_def)

lemma decided_once_new:
  assumes "decided_once db" "cl_i claims \<notin> di_interaction ` set (cb_decisions db)"
    "cb_decisions db' = cb_decisions db @ [\<lparr>di_interaction = cl_i claims, di_environment = e,
        di_subject = cl_s claims, di_decision = d, di_decided_at = now, di_applied_revision = n\<rparr>]"
    "\<And>e s. revision_of e s db \<le> revision_of e s db'"
    "\<And>m. n = Some m \<Longrightarrow> \<exists>s. cl_s claims = Some s \<and> revision_of e s db < m \<and> 1 \<le> m \<and> m \<le> revision_of e s db'"
  shows "decided_once db'"
proof -
  have old: "di_subject x \<noteq> None \<and> 1 \<le> m \<and> m \<le> revision_of (di_environment x) (the (di_subject x)) db"
    if "x \<in> set (cb_decisions db)" "di_applied_revision x = Some m" for x m
    using assms(1) that by (simp add: decided_once_def)
  have "(e, cl_s claims, n) \<notin> (\<lambda>x. (di_environment x, di_subject x, di_applied_revision x)) `
      {x \<in> set (cb_decisions db). di_applied_revision x \<noteq> None}" if "n \<noteq> None"
  proof
    assume "(e, cl_s claims, n) \<in> (\<lambda>x. (di_environment x, di_subject x, di_applied_revision x)) `
      {x \<in> set (cb_decisions db). di_applied_revision x \<noteq> None}"
    then obtain x m where x: "x \<in> set (cb_decisions db)" "di_applied_revision x = Some m" "n = Some m"
      "di_environment x = e" "di_subject x = cl_s claims" by auto
    from assms(5) [OF x(3)] old [OF x(1,2)] x(4,5) show False by auto
  qed
  moreover have "di_subject x \<noteq> None \<and> 1 \<le> m \<and> m \<le> revision_of (di_environment x) (the (di_subject x)) db'"
    if x: "x \<in> set (cb_decisions db')" "di_applied_revision x = Some m" for x m
  proof (cases "x \<in> set (cb_decisions db)")
    case True
    with old [OF True x(2)] assms(4) [of "di_environment x" "the (di_subject x)"] show ?thesis by simp
  next
    case False
    with x assms(3) have "di_environment x = e" "di_subject x = cl_s claims" "n = Some m" by auto
    with assms(5) [of m] show ?thesis by auto
  qed
  ultimately show ?thesis
    using assms(1,2) unfolding decided_once_def assms(3) by (auto simp: assms(3))
qed

lemma decided_keeps_inv:
  assumes "consent_inv db" "decided now mode e claims d db st db'" "opt_all valid_consent_subject (cl_s claims)"
  shows "consent_inv db'"
proof -
  have once: "decided_once db" and agree: "\<And>e s. valid_consent_subject s \<Longrightarrow> agree e s db"
    using assms(1) by (auto simp: consent_inv_def)
  have new: "consent_inv (with_decision now e claims d db)" if "cl_i claims \<notin> di_interaction ` set (cb_decisions db)"
  proof -
    have "decided_once (with_decision now e claims d db)"
      by (rule decided_once_new [OF once that]) (auto simp: with_decision_def revision_of_def subject_of_def)
    moreover have "agree e' s (with_decision now e claims d db)" if "valid_consent_subject s" for e' s
      by (rule agree_cong [OF agree [OF that]]) simp_all
    ultimately show ?thesis by (simp add: consent_inv_def)
  qed
  from assms(2) show ?thesis
  proof cases
    case repeated
    with assms(1) show ?thesis by simp
  next
    case outdated
    with new show ?thesis by simp
  next
    case single
    with new show ?thesis by simp
  next
    case (always gid eid)
    from dual_write_Inr [OF always(4)] obtain g v where g:
      "\<forall>e' s' c. (e', s', c) \<noteq> (e, interaction_subject (cl_i claims), Share_Outcome) \<longrightarrow>
         grant_of e' s' c db' = grant_of e' s' c (with_decision now e claims d db)"
      "cb_events db' = cb_events (with_decision now e claims d db) @ [v]" "ev_subject v = interaction_subject (cl_i claims)"
      "cb_subjects db' = cb_subjects db" "cb_decisions db' = cb_decisions (with_decision now e claims d db)" by auto
    have "decided_once db'"
      by (rule decided_once_new [OF once always(2)]) (auto simp: g with_decision_def revision_of_def subject_of_def)
    moreover have "agree e' s' db'" if "valid_consent_subject s'" for e' s'
    proof (rule agree_cong [OF agree [OF that, of e']])
      have "s' \<noteq> interaction_subject (cl_i claims)" using that interaction_subject_not_valid by blast
      then show "trail e' s' db' = trail e' s' db"
        "map_option (\<lambda>g. (gt_state g, gt_revision g, gt_decided_at g, gt_expires_at g)) (grant_of e' s' Share_Outcome db')
         = map_option (\<lambda>g. (gt_state g, gt_revision g, gt_decided_at g, gt_expires_at g)) (grant_of e' s' Share_Outcome db)"
        using g by (auto simp: trail_def)
      show "subject_of e' s' db' = subject_of e' s' db" using g by (simp add: subject_of_def)
    qed
    ultimately show ?thesis by (simp add: consent_inv_def)
  next
    case (applied s r db1 gid eid)
    let ?dbw = "with_decision now e claims d db" and ?n = "case cl_r claims of Some r \<Rightarrow> r | None \<Rightarrow> 0"
    note a = apply_to_subject_Some [OF applied(5)]
    from dual_write_Inr [OF applied(6)] obtain g v where g:
      "\<forall>e' s' c. (e', s', c) \<noteq> (e, s, Share_Outcome) \<longrightarrow> grant_of e' s' c db' = grant_of e' s' c db1"
      "cb_events db' = cb_events db1 @ [v]" "ev_environment v = e" "ev_subject v = s"
      "cb_subjects db' = cb_subjects db1" "cb_decisions db' = cb_decisions (mark_applied (cl_i claims) e (sj_revision r) db1)"
      by (auto simp: mark_applied_def grant_of_def)
    have s: "valid_consent_subject s" using assms(3) applied(4) by simp
    have agree_w: "agree e s ?dbw" using new [OF applied(2)] s by (simp add: consent_inv_def)
    have sub: "subject_of e s db' = Some r" "\<And>e' s'. (e', s') \<noteq> (e, s) \<Longrightarrow> subject_of e' s' db' = subject_of e' s' db"
      using a g(5) by (auto simp: subject_of_def)
    have rev: "revision_of e s db < sj_revision r" "1 \<le> sj_revision r"
      using a agree_w by (auto simp: revision_of_def agree_def split: option.splits)
    have mono: "revision_of e' s' db \<le> revision_of e' s' db'" for e' s'
      using sub rev(1) by (cases "(e', s') = (e, s)") (auto simp: revision_of_def)
    have rows: "cb_decisions db' = cb_decisions db @ [\<lparr>di_interaction = cl_i claims, di_environment = e,
        di_subject = cl_s claims, di_decision = d, di_decided_at = now, di_applied_revision = Some (sj_revision r)\<rparr>]"
      using a applied(2) by (auto simp: g mark_applied_def with_decision_def update_where_def image_iff intro!: map_idI)
    have "decided_once db'"
      by (rule decided_once_new [OF once applied(2) rows mono]) (use applied(4) rev sub in \<open>auto simp: revision_of_def\<close>)
    moreover have "agree e' s' db'" if "valid_consent_subject s'" for e' s'
    proof (cases "(e', s') = (e, s)")
      case True
      with agree_applied [OF agree_w applied(5,6)] show ?thesis by simp
    next
      case False
      show ?thesis
        by (rule agree_cong [OF agree [OF that, of e']])
          (use False sub(2) g a in \<open>auto simp: trail_def grant_of_def [of _ _ _ db1] grant_of_def [of _ _ _ db]\<close>)
    qed
    ultimately show ?thesis by (simp add: consent_inv_def)
  qed
qed


lemma verified_subject:
  assumes "verified_capability codec now cap db = Inr (key, env, claims)"
  shows "opt_all valid_consent_subject (cl_s claims) \<and> opt_all (\<lambda>r. 0 \<le> r) (cl_r claims)
    \<and> find (\<lambda>e. en_id e = ak_environment key) (ca_environments (cb_catalog db)) = Some env"
  using assms
  by (auto simp: verified_capability_def result_bind_Inr verify_capability_def capability_key_def Let_def
      bind_eq_Some_conv split: if_splits option.splits)

section \<open>Reachable tables\<close>

text \<open>
  Deleting an environment removes its rows.  All other work keeps the subjects, the trails and the
  standing of the grants: it may drop old decisions (the purge), link customers, write other scopes,
  change modes, keys, products and interactions.
\<close>

definition forget_environment :: "uuid \<Rightarrow> consent_db \<Rightarrow> consent_db" where
  "forget_environment e db = db\<lparr>
     cb_subjects := filter (\<lambda>r. sj_environment r \<noteq> e) (cb_subjects db),
     cb_decisions := filter (\<lambda>r. di_environment r \<noteq> e) (cb_decisions db),
     cb_grants := filter (\<lambda>g. gt_environment g \<noteq> e) (cb_grants db),
     cb_events := filter (\<lambda>v. ev_environment v \<noteq> e) (cb_events db)\<rparr>"

definition other_work :: "consent_db \<Rightarrow> consent_db \<Rightarrow> bool" where
  "other_work db db' \<longleftrightarrow> cb_subjects db' = cb_subjects db \<and> subseq (cb_decisions db') (cb_decisions db)
     \<and> (\<forall>e s. trail e s db' = trail e s db
          \<and> map_option (\<lambda>g. (gt_state g, gt_revision g, gt_decided_at g, gt_expires_at g)) (grant_of e s Share_Outcome db')
            = map_option (\<lambda>g. (gt_state g, gt_revision g, gt_decided_at g, gt_expires_at g)) (grant_of e s Share_Outcome db))"

inductive consent_reachable :: "token_codec \<Rightarrow> consent_db \<Rightarrow> bool" for codec where
  start: "cb_subjects db = [] \<Longrightarrow> cb_decisions db = [] \<Longrightarrow> cb_grants db = [] \<Longrightarrow> cb_events db = [] \<Longrightarrow>
     consent_reachable codec db"
| decide: "consent_reachable codec db \<Longrightarrow>
     record_feedback_consent_decision codec now gid eid cap words db = Inr (out, db') \<Longrightarrow> consent_reachable codec db'"
| forget: "consent_reachable codec db \<Longrightarrow> consent_reachable codec (forget_environment e db)"
| work: "consent_reachable codec db \<Longrightarrow> other_work db db' \<Longrightarrow> consent_reachable codec db'"

lemma find_filtered:
  "(\<And>x. q x \<Longrightarrow> p x) \<Longrightarrow> find q (filter p xs) = find q xs"
  by (induction xs) auto

lemma decided_once_subseq:
  assumes "decided_once db" "subseq (cb_decisions db') (cb_decisions db)"
    "\<And>x s. x \<in> set (cb_decisions db') \<Longrightarrow> revision_of (di_environment x) s db' = revision_of (di_environment x) s db"
  shows "decided_once db'"
proof -
  have "distinct (map (\<lambda>x. (di_environment x, di_subject x, di_applied_revision x))
      (filter (\<lambda>x. di_applied_revision x \<noteq> None) (cb_decisions db')))"
    by (rule distinct_subseq [OF subseq_map [OF subseq_filter [OF assms(2)]]])
      (use assms(1) in \<open>simp only: decided_once_def\<close>)
  moreover have "distinct (map di_interaction (cb_decisions db'))"
    by (rule distinct_subseq [OF subseq_map [OF assms(2)]]) (use assms(1) in \<open>simp add: decided_once_def\<close>)
  moreover have "di_subject x \<noteq> None \<and> 1 \<le> n \<and> n \<le> revision_of (di_environment x) (the (di_subject x)) db'"
    if x: "x \<in> set (cb_decisions db')" "di_applied_revision x = Some n" for x n
    using assms(1) subsetD [OF set_subseq [OF assms(2)] x(1)] x by (simp add: decided_once_def assms(3) [OF x(1)])
  ultimately show ?thesis by (simp add: decided_once_def)
qed

lemma forget_keeps_inv:
  assumes "consent_inv db"
  shows "consent_inv (forget_environment e db)"
proof -
  have other: "subject_of e' s (forget_environment e db) = subject_of e' s db"
    "grant_of e' s c (forget_environment e db) = grant_of e' s c db"
    "trail e' s (forget_environment e db) = trail e' s db" if "e' \<noteq> e" for e' s c
    using that by (auto simp: subject_of_def grant_of_def trail_def forget_environment_def of_subject_def of_grant_def
        intro!: find_filtered filter_cong)
  have same: "subject_of e s (forget_environment e db) = None" "grant_of e s c (forget_environment e db) = None"
    "trail e s (forget_environment e db) = []" for s c
    by (auto simp: subject_of_def grant_of_def trail_def forget_environment_def of_subject_def of_grant_def
        find_None_iff filter_empty_conv)
  have "agree e' s (forget_environment e db)" if "agree e' s db" for e' s
  proof (cases "e' = e")
    case True
    then show ?thesis by (simp add: agree_def same revision_of_def)
  next
    case False
    show ?thesis by (rule agree_cong [OF that]) (simp_all add: other [OF False])
  qed
  moreover have "decided_once (forget_environment e db)"
  proof (rule decided_once_subseq)
    show "decided_once db" using assms by (simp add: consent_inv_def)
    show "subseq (cb_decisions (forget_environment e db)) (cb_decisions db)"
      by (simp add: forget_environment_def)
    show "revision_of (di_environment x) s (forget_environment e db) = revision_of (di_environment x) s db"
      if "x \<in> set (cb_decisions (forget_environment e db))" for x s
      using that by (simp add: revision_of_def other forget_environment_def [of e db, THEN arg_cong, of cb_decisions])
  qed
  ultimately show ?thesis using assms by (simp add: consent_inv_def)
qed

lemma other_work_keeps_inv:
  assumes "consent_inv db" "other_work db db'"
  shows "consent_inv db'"
proof -
  have sub: "subject_of e s db' = subject_of e s db" for e s
    using assms(2) by (simp add: subject_of_def other_work_def)
  have "agree e s db'" if "agree e s db" for e s
    by (rule agree_cong [OF that sub]) (use assms(2) in \<open>auto simp: other_work_def\<close>)
  moreover have "decided_once db'"
    by (rule decided_once_subseq [of db]) (use assms sub in \<open>auto simp: consent_inv_def other_work_def revision_of_def\<close>)
  ultimately show ?thesis using assms(1) by (simp add: consent_inv_def)
qed

lemma reachable_inv: "consent_reachable codec db \<Longrightarrow> consent_inv db"
proof (induction rule: consent_reachable.induct)
  case (start db)
  then show ?case
    by (simp add: consent_inv_def decided_once_def agree_def trail_def revision_of_def subject_of_def grant_of_def)
next
  case (decide db now gid eid cap words out db')
  from decide.hyps(2) obtain key env claims d st where
    v: "verified_capability codec now cap db = Inr (key, env, claims)"
    and "decided now (cb_modes db (ak_environment key)) (ak_environment key) claims d db st db'"
    by (rule record_decides)
  with decide.IH verified_subject [OF v] show ?case by (blast intro: decided_keeps_inv)
next
  case (forget db e)
  then show ?case by (blast intro: forget_keeps_inv)
next
  case (work db db')
  then show ?case by (blast intro: other_work_keeps_inv)
qed

end
