(* ===== verification/FeedbackFacts.thy ===== *)
theory FeedbackFacts
  imports FeedbackValidation ConsentFacts
begin

text \<open>
  What one submission does: it needs the consent the tables record, writes at most one report per
  interaction, and keeps the consent tables; and how the answers of the consent protocol agree with
  the gate of a submission.
\<close>

lemma case_Inr: "(case r of Inl e \<Rightarrow> False | Inr x \<Rightarrow> P x) \<longleftrightarrow> (\<exists>x. r = Inr x \<and> P x)"
  by (cases r) auto

section \<open>The parts of a submission\<close>

lemma admission_Inr:
  "feedback_admission codec now cap seen standing = Inr (key, environment, mode, claims) \<longleftrightarrow>
     verified_capability codec now cap seen = Inr (key, environment, claims) \<and> mode = cb_modes seen (ak_environment key)
     \<and> consent_gate mode (ak_environment key) claims standing = Inr ()"
  by (auto simp: feedback_admission_def result_bind_Inr Let_def)

lemma transaction_parts:
  assumes "feedback_transaction codec env now rid v (key, environment, mode, claims) db = Inr (i, r, db')"
  obtains c1 c2 where
    "confirm_interaction now (tc_sha256 codec (cl_n claims)) key claims (fb_consent db) = Inr (i, c1)"
    "link_customer mode (ak_environment key) claims i c1 = Inr c2"
    "store_report env now rid key (en_product environment) mode claims v i (db\<lparr>fb_consent := c2\<rparr>) = Inr (r, db')"
proof -
  let ?e = "ak_environment key" and ?c = "fb_consent db"
  note run = assms [unfolded feedback_transaction_def prod.case]
  obtain i' c1 where conf: "confirm_interaction now (tc_sha256 codec (cl_n claims)) key claims ?c = Inr (i', c1)"
    using run by (cases "confirm_interaction now (tc_sha256 codec (cl_n claims)) key claims ?c") (simp, metis surj_pair)
  note run = run [unfolded conf result_bind.simps prod.case]
  obtain c2 where link: "link_customer mode ?e claims i' c1 = Inr c2"
    using run by (cases "link_customer mode ?e claims i' c1") simp_all
  note run = run [unfolded link result_bind.simps]
  obtain r' db2 where st: "store_report env now rid key (en_product environment) mode claims v i' (db\<lparr>fb_consent := c2\<rparr>) = Inr (r', db2)"
    using run by (cases "store_report env now rid key (en_product environment) mode claims v i' (db\<lparr>fb_consent := c2\<rparr>)")
      (simp, metis surj_pair)
  have "i' = i" "r' = r" "db2 = db'" using run [unfolded st result_bind.simps prod.case] by simp_all
  with that conf link st show thesis by blast
qed

lemma submit_admitted:
  assumes "submit_product_feedback codec env now rid cap input seen standing db = Inr (i, r, db')"
  obtains v key environment mode claims where
    "validated_report input = Inr v" "feedback_admission codec now cap seen standing = Inr (key, environment, mode, claims)"
    "feedback_transaction codec env now rid v (key, environment, mode, claims) db = Inr (i, r, db')"
  using assms by (auto simp: submit_product_feedback_def result_bind_Inr)

lemma submit_parts:
  assumes "submit_product_feedback codec env now rid cap input seen standing db = Inr (i, r, db')"
  obtains v key environment mode claims c1 c2 where
    "validated_report input = Inr v"
    "verified_capability codec now cap seen = Inr (key, environment, claims)"
    "mode = cb_modes seen (ak_environment key)"
    "consent_gate mode (ak_environment key) claims standing = Inr ()"
    "confirm_interaction now (tc_sha256 codec (cl_n claims)) key claims (fb_consent db) = Inr (i, c1)"
    "link_customer mode (ak_environment key) claims i c1 = Inr c2"
    "store_report env now rid key (en_product environment) mode claims v i (db\<lparr>fb_consent := c2\<rparr>) = Inr (r, db')"
proof (rule submit_admitted [OF assms])
  fix v and key :: api_key_row and environment :: environment_row and mode and claims :: capability_claims
  assume a: "validated_report input = Inr v" "feedback_admission codec now cap seen standing = Inr (key, environment, mode, claims)"
    "feedback_transaction codec env now rid v (key, environment, mode, claims) db = Inr (i, r, db')"
  show thesis
    by (rule transaction_parts [OF a(3)]) (use a(1) that a(2) [unfolded admission_Inr] in blast)
qed

lemma submit_runs:
  assumes "validated_report input = Inr v"
    "feedback_admission codec now cap seen standing = Inr (key, environment, mode, claims)"
    "confirm_interaction now (tc_sha256 codec (cl_n claims)) key claims (fb_consent db) = Inr (i, c1)"
    "link_customer mode (ak_environment key) claims i c1 = Inr c2"
    "store_report env now rid key (en_product environment) mode claims v i (db\<lparr>fb_consent := c2\<rparr>) = Inr (r, db')"
  shows "submit_product_feedback codec env now rid cap input seen standing db = Inr (i, r, db')"
  using assms by (simp add: submit_product_feedback_def feedback_transaction_def)

section \<open>What a submission leaves of the consent tables\<close>

definition same_consent :: "consent_db \<Rightarrow> consent_db \<Rightarrow> bool" where
  "same_consent c c' \<longleftrightarrow> cb_subjects c' = cb_subjects c \<and> cb_decisions c' = cb_decisions c \<and> cb_events c' = cb_events c
     \<and> cb_modes c' = cb_modes c
     \<and> map (\<lambda>g. g\<lparr>gt_customer := None\<rparr>) (cb_grants c') = map (\<lambda>g. g\<lparr>gt_customer := None\<rparr>) (cb_grants c)
     \<and> ca_keys (cb_catalog c') = ca_keys (cb_catalog c)
     \<and> ca_environments (cb_catalog c') = ca_environments (cb_catalog c)"

lemma same_consent_refl [simp]: "same_consent c c"
  by (simp add: same_consent_def)

lemma same_consent_trans: "same_consent a b \<Longrightarrow> same_consent b c \<Longrightarrow> same_consent a c"
  by (simp add: same_consent_def)

lemma confirm_same: "confirm_interaction now h key claims c = Inr (i, c1) \<Longrightarrow> same_consent c c1"
  by (auto simp: confirm_interaction_def same_consent_def Let_def split: option.splits if_splits)

lemma link_same: "link_customer mode e claims i c1 = Inr c2 \<Longrightarrow> same_consent c1 c2 \<and> cb_interactions c2 = cb_interactions c1"
  by (auto simp: link_customer_def same_consent_def update_where_def split: option.splits if_splits)

lemma activation_same:
  "ca_keys (record_product_activation now w p a b c cat) = ca_keys cat
   \<and> ca_environments (record_product_activation now w p a b c cat) = ca_environments cat"
  by (auto simp: record_product_activation_def Let_def split: option.splits)

lemma activated_same: "same_consent (fb_consent db) (fb_consent (activated now w p db))"
  using activation_same by (simp add: same_consent_def activated_def Let_def)

lemma activated_rest [simp]:
  "fb_reports (activated now w p db) = fb_reports db" "fb_signals (activated now w p db) = fb_signals db"
  "fb_issues (activated now w p db) = fb_issues db" "fb_matches (activated now w p db) = fb_matches db"
  "cb_interactions (fb_consent (activated now w p db)) = cb_interactions (fb_consent db)"
  "cb_grants (fb_consent (activated now w p db)) = cb_grants (fb_consent db)"
  by (simp_all add: activated_def Let_def)

lemma project_rest:
  assumes "project_feedback_signals now i r p mode db = Inr db'"
  shows "\<exists>rows. db' = db\<lparr>fb_signals := rows\<rparr>
    \<and> put_signals (report_signals i r p mode (approved_grant now i (fb_consent db))) (fb_signals db) = Inr rows"
  using assms by (auto simp: project_feedback_signals_def result_bind_Inr)

text \<open>The two ways a report is stored: it was there, or it is new.\<close>

lemma store_report_cases:
  assumes "store_report env now rid key p mode claims v i db = Inr (r, db')"
  shows "(find (\<lambda>r. fr_interaction r = cl_i claims) (fb_reports db) = Some r
      \<and> project_feedback_signals now i r p mode (activated now (ak_workspace key) p db) = Inr db')
    \<or> (find (\<lambda>r. fr_interaction r = cl_i claims) (fb_reports db) = None
      \<and> r = new_report now rid key claims v \<and> report_text_ok r \<and> rid \<notin> fr_id ` set (fb_reports db)
      \<and> (\<exists>group issues. let db1 = activated now (ak_workspace key) p (insert_report p i r db);
             db2 = db1\<lparr>fb_matches := enqueue_code_match_if_mapped now rid p (fb_matches db1)\<rparr>
         in assign_report_group env (ak_workspace key) rid (report_input_of p i r) (fb_issues db2) = Inr (group, issues)
            \<and> project_feedback_signals now i r p mode (db2\<lparr>fb_issues := issues\<rparr>) = Inr db'))"
proof (cases "find (\<lambda>r. fr_interaction r = cl_i claims) (fb_reports db)")
  case None
  let ?r = "new_report now rid key claims v"
  have ok: "\<not> (\<not> report_text_ok ?r \<or> rid \<in> fr_id ` set (fb_reports db))"
  proof
    assume bad: "\<not> report_text_ok ?r \<or> rid \<in> fr_id ` set (fb_reports db)"
    from assms show False
      unfolding store_report_def None option.case Let_def if_P [OF bad] by simp
  qed
  let ?db1 = "activated now (ak_workspace key) p (insert_report p i ?r db)"
  let ?db2 = "?db1\<lparr>fb_matches := enqueue_code_match_if_mapped now rid p (fb_matches ?db1)\<rparr>"
  note run = assms [unfolded store_report_def None option.case Let_def if_not_P [OF ok]]
  obtain g issues where a: "assign_report_group env (ak_workspace key) rid (report_input_of p i ?r) (fb_issues ?db2) = Inr (g, issues)"
    using run by (cases "assign_report_group env (ak_workspace key) rid (report_input_of p i ?r) (fb_issues ?db2)")
      (simp, metis surj_pair)
  note run = run [unfolded a result_bind.simps prod.case]
  have "project_feedback_signals now i ?r p mode (?db2\<lparr>fb_issues := issues\<rparr>) = Inr db' \<and> r = ?r"
    using run by (cases "project_feedback_signals now i ?r p mode (?db2\<lparr>fb_issues := issues\<rparr>)") simp_all
  with ok a show ?thesis unfolding None Let_def by blast
next
  case (Some x)
  note run = assms [unfolded store_report_def Some option.case]
  have "project_feedback_signals now i x p mode (activated now (ak_workspace key) p db) = Inr db' \<and> r = x"
    using run by (cases "project_feedback_signals now i x p mode (activated now (ak_workspace key) p db)") simp_all
  with Some show ?thesis by blast
qed

lemma insert_report_rest [simp]:
  "fb_reports (insert_report p i r db) = fb_reports db @ [r]" "fb_consent (insert_report p i r db) = fb_consent db"
  "fb_signals (insert_report p i r db) = fb_signals db"
  by (simp_all add: insert_report_def)

lemma store_report_effect:
  assumes "store_report env now rid key p mode claims v i db = Inr (r, db')"
  shows "same_consent (fb_consent db) (fb_consent db') \<and> cb_grants (fb_consent db') = cb_grants (fb_consent db)"
    "cb_interactions (fb_consent db') = cb_interactions (fb_consent db)"
    "fb_reports db' = (if find (\<lambda>r. fr_interaction r = cl_i claims) (fb_reports db) = None
       then fb_reports db @ [r] else fb_reports db)"
    "find (\<lambda>r. fr_interaction r = cl_i claims) (fb_reports db') = Some r"
proof -
  from store_report_cases [OF assms] consider
    (old) "find (\<lambda>r. fr_interaction r = cl_i claims) (fb_reports db) = Some r"
      "project_feedback_signals now i r p mode (activated now (ak_workspace key) p db) = Inr db'"
  | (new) db2 where "find (\<lambda>r. fr_interaction r = cl_i claims) (fb_reports db) = None"
      "r = new_report now rid key claims v" "project_feedback_signals now i r p mode db2 = Inr db'"
      "fb_consent db2 = fb_consent (activated now (ak_workspace key) p (insert_report p i r db))"
      "fb_reports db2 = fb_reports db @ [r]"
    by (fastforce simp: Let_def)
  then have "(same_consent (fb_consent db) (fb_consent db') \<and> cb_grants (fb_consent db') = cb_grants (fb_consent db))
    \<and> cb_interactions (fb_consent db') = cb_interactions (fb_consent db)
    \<and> fb_reports db' = (if find (\<lambda>r. fr_interaction r = cl_i claims) (fb_reports db) = None
       then fb_reports db @ [r] else fb_reports db)
    \<and> find (\<lambda>r. fr_interaction r = cl_i claims) (fb_reports db') = Some r"
  proof cases
    case old
    with project_rest [OF old(2)] activated_same [of db] show ?thesis by auto
  next
    case new
    with project_rest [OF new(3)] activated_same [of "insert_report p i r db"] show ?thesis
      by (auto simp: find_append new_report_def)
  qed
  then show "same_consent (fb_consent db) (fb_consent db') \<and> cb_grants (fb_consent db') = cb_grants (fb_consent db)"
    "cb_interactions (fb_consent db') = cb_interactions (fb_consent db)"
    "fb_reports db' = (if find (\<lambda>r. fr_interaction r = cl_i claims) (fb_reports db) = None
       then fb_reports db @ [r] else fb_reports db)"
    "find (\<lambda>r. fr_interaction r = cl_i claims) (fb_reports db') = Some r" by blast+
qed


lemma submission_effect:
  assumes "submit_product_feedback codec env now rid cap input seen standing db = Inr (i, r, db')"
  shows "same_consent (fb_consent db) (fb_consent db')"
proof (rule submit_parts [OF assms])
  fix v key environment mode claims c1 c2
  assume "confirm_interaction now (tc_sha256 codec (cl_n claims)) key claims (fb_consent db) = Inr (i, c1)"
    "link_customer mode (ak_environment key) claims i c1 = Inr c2"
    "store_report env now rid key (en_product environment) mode claims v i (db\<lparr>fb_consent := c2\<rparr>) = Inr (r, db')"
  from confirm_same [OF this(1)] link_same [OF this(2)] store_report_effect(1) [OF this(3)]
  show ?thesis by (auto intro: same_consent_trans)
qed

section \<open>The gate and the grants\<close>

lemma gate_same: "same_consent c c' \<Longrightarrow> consent_gate mode e claims c' = consent_gate mode e claims c"
proof -
  assume "same_consent c c'"
  then have eqs: "subject_of e s c' = subject_of e s c" "decision_of e i c' = decision_of e i c" for e s i
    by (simp_all add: same_consent_def decision_of_def subject_of_def)
  show ?thesis unfolding consent_gate_def eqs ..
qed

lemma verified_same: "same_consent c c' \<Longrightarrow> verified_capability codec now cap c' = verified_capability codec now cap c"
  by (simp add: same_consent_def verified_capability_def capability_key_def)

lemma find_map_same: "(\<And>x. p (f x) = p x) \<Longrightarrow> map_option f (find p xs) = find p (map f xs)"
  by (induction xs) auto

lemma grants_same:
  assumes "same_consent c c'"
  shows "map_option (\<lambda>g. g\<lparr>gt_customer := None\<rparr>) (grant_of e s scope c')
    = map_option (\<lambda>g. g\<lparr>gt_customer := None\<rparr>) (grant_of e s scope c)"
  using assms unfolding grant_of_def same_consent_def
  by (simp add: find_map_same of_grant_def)

lemma standing_without_customer:
  fixes a b :: "grant_row option"
  assumes "map_option (\<lambda>g. g\<lparr>gt_customer := None\<rparr>) a = map_option (\<lambda>g. g\<lparr>gt_customer := None\<rparr>) b"
  shows "map_option (\<lambda>g. (gt_state g, gt_revision g, gt_decided_at g, gt_expires_at g)) a
   = map_option (\<lambda>g. (gt_state g, gt_revision g, gt_decided_at g, gt_expires_at g)) b"
proof -
  let ?standing = "\<lambda>g :: grant_row. (gt_state g, gt_revision g, gt_decided_at g, gt_expires_at g)"
  let ?strip = "map_option (\<lambda>g :: grant_row. g\<lparr>gt_customer := None\<rparr>)"
  have keep: "map_option ?standing (?strip x) = map_option ?standing x" for x by (cases x) simp_all
  have "map_option ?standing (?strip a) = map_option ?standing (?strip b)" by (simp only: assms)
  then show ?thesis by (simp only: keep)
qed

lemma submission_is_other_work:
  assumes same: "same_consent c c'"
  shows "other_work c c'"
proof -
  have "cb_subjects c' = cb_subjects c" "cb_decisions c' = cb_decisions c" "cb_events c' = cb_events c"
    using same by (simp_all add: same_consent_def)
  then show ?thesis using standing_without_customer [OF grants_same [OF same]] by (simp add: other_work_def trail_def)
qed

text \<open>An open gate in the words of the tables.\<close>

lemma gate_open:
  "consent_gate mode e claims c = Inr () \<longleftrightarrow>
     mode = ''never_ask''
     \<or> (mode = ''ask_once'' \<and> cl_s claims \<noteq> None
         \<and> map_option sj_decision (subject_of e (the (cl_s claims)) c) = Some Approved)
     \<or> ((mode = ''ask_once'' \<and> cl_s claims = None \<or> mode = ''ask_always'')
         \<and> map_option di_decision (decision_of e (cl_i claims) c) = Some Approved)"
  by (auto simp: consent_gate_def Let_def split: option.splits)

section \<open>Signals\<close>

lemma project_signal_Inr:
  "project_feedback_signal new rows = Inr rows' \<longleftrightarrow> signal_text_ok new
     \<and> rows' = (if list_ex (same_signal new) rows then update_where (same_signal new) (merged_signal new) rows else rows @ [new])"
  by (auto simp: project_feedback_signal_def)

lemma put_signals_ok: "(\<exists>rows'. put_signals ns rows = Inr rows') \<longleftrightarrow> list_all signal_text_ok ns"
  by (induction ns arbitrary: rows) (auto simp: result_bind_Inr project_signal_Inr)

lemma signal_texts:
  "map (\<lambda>s. (sg_summary s, sg_detail s)) (report_signals i r p mode g)
   = map (\<lambda>s. (sg_summary s, sg_detail s)) (report_signals i' r p' mode' g')"
  unfolding report_signals_def Let_def
  by (cases "fr_workaround r") (simp_all add: signal_def finding_signal_def workaround_signal_def comp_def case_prod_unfold)

lemma signal_texts_ok:
  "list_all signal_text_ok (report_signals i r p mode g) \<longleftrightarrow> list_all signal_text_ok (report_signals i' r p' mode' g')"
proof -
  have "list_all signal_text_ok ss \<longleftrightarrow> list_all (\<lambda>(a, b). 3 \<le> utf8_count a \<and> utf8_count a \<le> 700
     \<and> opt_all (\<lambda>d. 3 \<le> utf8_count d \<and> utf8_count d \<le> 700) b) (map (\<lambda>s. (sg_summary s, sg_detail s)) ss)" for ss
    by (induction ss) (auto simp: signal_text_ok_def)
  from this [of "report_signals i r p mode g"] this [of "report_signals i' r p' mode' g'"]
  show ?thesis unfolding signal_texts [of i r p mode g i' p' mode' g'] by (rule trans [OF _ sym])
qed

end
