(* ===== verification/ConsentGuarantees.thy ===== *)
theory ConsentGuarantees
  imports ConsentFacts
begin

text \<open>
  The guarantees of the consent protocol: the audit trail is the history of the standing decision, a
  capability decides exactly when it carries the current revision, and asking again with a decision
  that was already taken repeats its answer.
\<close>

section \<open>Standing\<close>

definition subject_standing :: "subject_row \<Rightarrow> grant_state \<times> int \<times> time" where
  "subject_standing r = (Granted (sj_decision r), sj_revision r, sj_decided_at r)"

definition grant_standing :: "grant_row \<Rightarrow> grant_state \<times> int \<times> time" where
  "grant_standing g = (gt_state g, gt_revision g, gt_decided_at g)"

definition event_standing :: "event_row \<Rightarrow> grant_state \<times> int \<times> time" where
  "event_standing v = (ev_state v, ev_revision v, ev_decided_at v)"

lemma reachable_agree: "consent_reachable codec db \<Longrightarrow> valid_consent_subject s \<Longrightarrow> agree e s db"
  using reachable_inv by (auto simp: consent_inv_def)

lemma agree_length: "agree e s db \<Longrightarrow> length (trail e s db) = nat (revision_of e s db)"
  by (auto simp: agree_def dest: arg_cong [of _ _ length])

lemma agree_nonneg: "agree e s db \<Longrightarrow> 0 \<le> revision_of e s db"
  by (auto simp: agree_def revision_of_def split: option.splits)

section \<open>The audit trail\<close>

text \<open>
  C8. In every reachable state, the events of a subject have the revisions 1, 2, and so on without a
  gap, each names the decision before it when it changes it, and the last one, the grant and the
  standing decision say the same: same decision, same revision, same time.
\<close>

theorem audit_trail_is_the_history:
  assumes "consent_reachable codec db" "valid_consent_subject s"
  shows "map ev_revision (trail e s db) = map int [1..<Suc (length (trail e s db))]
    \<and> chained None (trail e s db)
    \<and> map_option subject_standing (subject_of e s db)
        = (if trail e s db = [] then None else Some (event_standing (last (trail e s db))))
    \<and> map_option grant_standing (grant_of e s Share_Outcome db)
        = map_option subject_standing (subject_of e s db)"
proof -
  note a = reachable_agree [OF assms, of e]
  note len = agree_length [OF a]
  show ?thesis
  proof (cases "subject_of e s db")
    case None
    with a len show ?thesis by (simp add: agree_def revision_of_def)
  next
    case (Some r)
    with a have r: "1 \<le> sj_revision r" by (simp add: agree_def)
    with Some len have ne: "trail e s db \<noteq> []" by (auto simp: revision_of_def)
    have "ev_revision (last (trail e s db)) = last (map ev_revision (trail e s db))" using ne by (simp add: last_map)
    also have "\<dots> = sj_revision r"
    proof -
      have "Suc 0 \<le> nat (sj_revision r)" using r by simp
      then show ?thesis using a Some r by (simp add: agree_def revision_of_def)
    qed
    finally show ?thesis
      using a Some ne len
      by (auto simp: agree_def subject_standing_def grant_standing_def event_standing_def)
  qed
qed

section \<open>Old capabilities\<close>

lemma decided_stale:
  assumes "decided now ''ask_once'' e claims d db (t1, t2, changed, allowed, flip) db'" "cl_s claims = Some s"
    "revision_of e s db \<noteq> (case cl_r claims of Some n \<Rightarrow> n | None \<Rightarrow> 0)"
  shows "cb_subjects db' = cb_subjects db \<and> cb_grants db' = cb_grants db \<and> cb_events db' = cb_events db \<and> \<not> changed
    \<and> (allowed \<longrightarrow> (\<exists>x \<in> set (cb_decisions db). di_interaction x = cl_i claims \<and> di_decision x = Approved
          \<and> di_applied_revision x = Some (revision_of e s db)))"
  using assms(1)
proof cases
  case (repeated x)
  have x: "x \<in> set (cb_decisions db)" "di_interaction x = cl_i claims"
    using repeated(3) by (auto simp: decision_of_def find_Some_iff)
  show ?thesis
    using repeated x assms(2)
    by (auto simp: repeated_decision_def Let_def revision_of_def split: option.splits intro!: bexI [of _ x])
next
  case outdated
  then show ?thesis by (auto split: option.splits)
next
  case (applied s' r db1 gid eid)
  from apply_to_subject_Some [OF applied(9)] assms(2,3) applied(8) have False
    by (auto simp: revision_of_def split: option.splits)
  then show ?thesis ..
qed (use assms(2) in simp_all)

text \<open>
  C9. Where consent is asked once, a capability that names a subject but not its current revision
  changes no consent: no standing decision, no grant and no event.  A report is then allowed only when
  this very interaction made the standing decision, and made it an approval.
\<close>

theorem a_stale_capability_changes_no_consent:
  assumes "verified_capability codec now cap db = Inr (key, env, claims)"
    "cb_modes db (ak_environment key) = ''ask_once''" "cl_s claims = Some s"
    "revision_of (ak_environment key) s db \<noteq> (case cl_r claims of Some n \<Rightarrow> n | None \<Rightarrow> 0)"
    "record_feedback_consent_decision codec now gid eid cap words db = Inr (out, db')"
  shows "cb_subjects db' = cb_subjects db \<and> cb_grants db' = cb_grants db \<and> cb_events db' = cb_events db
    \<and> \<not> co_changed out
    \<and> (co_action_allowed out \<longrightarrow> (\<exists>x \<in> set (cb_decisions db). di_interaction x = cl_i claims
          \<and> di_decision x = Approved \<and> di_applied_revision x = Some (revision_of (ak_environment key) s db)))"
proof (rule record_decides [OF assms(5)])
  fix key' env' claims' d st
  assume r: "verified_capability codec now cap db = Inr (key', env', claims')"
    "decided now (cb_modes db (ak_environment key')) (ak_environment key') claims' d db st db'"
    "(co_decision out, co_decided_at out, co_changed out, co_action_allowed out, co_flipped_from out) = st"
  have same: "key' = key" "claims' = claims" using r(1) assms(1) by simp_all
  show ?thesis
    by (rule decided_stale [OF r(2) [unfolded same assms(2) r(3) [symmetric]] assms(3,4)])
qed

section \<open>Current capabilities\<close>

lemma record_runs:
  assumes "decision_of_text words = Some d" "verified_capability codec now cap db = Inr (key, env, claims)"
    "cb_modes db (ak_environment key) \<in> {''ask_once'', ''ask_always''}"
    "decide now (cb_modes db (ak_environment key)) (ak_environment key) claims d db = Inr ((t1, t2, t3, t4, t5), db1)"
    "write_consent codec gid eid (cb_modes db (ak_environment key)) (ak_environment key) claims (t1, t2, t3, t4, t5) db1
       = Inr db'"
  shows "\<exists>out. record_feedback_consent_decision codec now gid eid cap words db = Inr (out, db')
    \<and> co_decision out = t1 \<and> co_mode out = cb_modes db (ak_environment key) \<and> co_expires_at out = cl_exp claims
    \<and> co_decided_at out = t2 \<and> co_changed out = t3 \<and> co_action_allowed out = t4 \<and> co_flipped_from out = t5
    \<and> co_protocol_tool out = (\<exists>i \<in> set (cb_interactions db'). iv_id i = cl_i claims
          \<and> iv_environment i = ak_environment key \<and> iv_surface i = ''mcp'' \<and> iv_confirmation i = Some ''mcp'')"
proof -
  have s: "opt_all valid_consent_subject (cl_s claims)" using verified_subject [OF assms(2)] by simp
  from assms(3) show ?thesis
    using s assms(4,5)
    by (elim insertE) (simp_all add: record_feedback_consent_decision_def assms(1,2) Let_def)
qed

text \<open>
  A capability that carries the current revision of its subject decides, whatever the tables
  hold: the decision stands at once with the next revision, the grant says the same, and the answer
  allows a report exactly for an approval.
\<close>

theorem a_current_capability_decides:
  assumes "consent_reachable codec db" "decision_of_text words = Some d"
    "verified_capability codec now cap db = Inr (key, env, claims)"
    "cb_modes db (ak_environment key) = ''ask_once''" "cl_s claims = Some s"
    "revision_of (ak_environment key) s db = (case cl_r claims of Some n \<Rightarrow> n | None \<Rightarrow> 0)"
    "cl_i claims \<notin> di_interaction ` set (cb_decisions db)"
    "gid \<notin> gt_id ` set (cb_grants db)" "eid \<notin> ev_id ` set (cb_events db)"
  shows "\<exists>out db'. record_feedback_consent_decision codec now gid eid cap words db = Inr (out, db')
    \<and> co_changed out \<and> co_decision out = Some d \<and> co_action_allowed out = (d = Approved)
    \<and> map_option subject_standing (subject_of (ak_environment key) s db')
        = Some (Granted d, revision_of (ak_environment key) s db + 1, now)
    \<and> map_option grant_standing (grant_of (ak_environment key) s Share_Outcome db')
        = Some (Granted d, revision_of (ak_environment key) s db + 1, now)"
proof -
  let ?e = "ak_environment key" and ?n = "case cl_r claims of Some n \<Rightarrow> n | None \<Rightarrow> 0"
  let ?dbw = "with_decision now ?e claims d db"
  have valid: "valid_consent_subject s" using verified_subject [OF assms(3)] assms(5) by simp
  note a = reachable_agree [OF assms(1) valid, of ?e]
  have "apply_to_subject now ?e s d ?n ?dbw \<noteq> None"
    using a by (auto simp: apply_to_subject_def agree_def assms(6) [symmetric] revision_of_def Let_def
        split: option.splits)
  then obtain r db1 where app: "apply_to_subject now ?e s d ?n ?dbw = Some (r, db1)" by auto
  note row = apply_to_subject_Some [OF app]
  let ?db2 = "mark_applied (cl_i claims) ?e (sj_revision r) db1"
  have dec: "decide now ''ask_once'' ?e claims d db = Inr ((Some d, now, True, d = Approved, sj_flipped_from r), ?db2)"
    using assms(5,7) app row by (simp add: decide_def first_decision_def with_decision_def Let_def)
  obtain x where x: "find (\<lambda>x. en_id x = ?e) (ca_environments (cb_catalog db)) = Some x"
    using verified_subject [OF assms(3)] by blast
  have keep: "cb_catalog ?db2 = cb_catalog db" "cb_grants ?db2 = cb_grants db" "cb_events ?db2 = cb_events db"
    "subject_of ?e s ?db2 = Some r"
    using row by (simp_all add: mark_applied_def with_decision_def subject_of_def)
  have "opt_all (\<lambda>g. gt_revision g < sj_revision r) (grant_of ?e s Share_Outcome db)"
    using a row assms(6) by (auto simp: agree_def revision_of_def split: option.splits)
  then have "\<exists>db'. dual_write_share_outcome_consent gid eid ?e s d (sj_revision r) now None (sj_flipped_from r)
      Feedback_Consent ?db2 = Inr db'"
    using x assms(8,9)
    by (cases "grant_of ?e s Share_Outcome db") (simp_all add: dual_write_share_outcome_consent_def keep grant_of_def)
  then obtain db' where dual: "dual_write_share_outcome_consent gid eid ?e s d (sj_revision r) now None
      (sj_flipped_from r) Feedback_Consent ?db2 = Inr db'" ..
  have w: "write_consent codec gid eid ''ask_once'' ?e claims (Some d, now, True, d = Approved, sj_flipped_from r) ?db2
      = Inr db'"
    using dual assms(5) keep by (simp add: write_consent_def)
  from record_runs [OF assms(2,3), unfolded assms(4), OF _ dec w] obtain out where out:
    "record_feedback_consent_decision codec now gid eid cap words db = Inr (out, db')"
    "co_changed out" "co_decision out = Some d" "co_action_allowed out = (d = Approved)" by auto
  from dual_write_Inr [OF dual] have "map_option grant_standing (grant_of ?e s Share_Outcome db') = Some (Granted d, sj_revision r, now)"
    "cb_subjects db' = cb_subjects ?db2" by (auto simp: grant_standing_def)
  with keep(4) row assms(6) have "map_option grant_standing (grant_of ?e s Share_Outcome db') = Some (Granted d, ?n + 1, now)"
    "map_option subject_standing (subject_of ?e s db') = Some (Granted d, ?n + 1, now)"
    by (auto simp: subject_of_def subject_standing_def)
  with out show ?thesis using assms(6) by (intro exI [of _ out] exI [of _ db']) simp
qed

section \<open>Repeating a decision\<close>

lemma decision_of_new:
  assumes "cl_i claims \<notin> di_interaction ` set (cb_decisions db)"
  shows "decision_of e (cl_i claims) (with_decision now e claims d db) =
    Some \<lparr>di_interaction = cl_i claims, di_environment = e, di_subject = cl_s claims, di_decision = d,
      di_decided_at = now, di_applied_revision = None\<rparr>"
proof -
  have "find (\<lambda>r. di_interaction r = cl_i claims \<and> di_environment r = e) (cb_decisions db) = None"
    using assms by (auto simp: find_None_iff image_iff)
  then show ?thesis by (simp add: decision_of_def with_decision_def find_append)
qed

lemma decision_of_key:
  "decision_of e i db = Some x \<Longrightarrow> x \<in> set (cb_decisions db) \<and> di_interaction x = i \<and> di_environment x = e"
  by (auto simp: decision_of_def find_Some_iff)

lemma decision_of_marked:
  "decision_of e i (mark_applied i e n db) =
     map_option (\<lambda>x. x\<lparr>di_applied_revision := Some n\<rparr>) (decision_of e i db)"
  using find_other_key [of "\<lambda>x. (di_interaction x, di_environment x)" "\<lambda>x. x\<lparr>di_applied_revision := Some n\<rparr>"
      "(i, e)" "(i, e)" "cb_decisions db"]
  by (simp add: decision_of_def mark_applied_def)

lemma decision_of_cong: "cb_decisions db' = cb_decisions db \<Longrightarrow> decision_of e i db' = decision_of e i db"
  by (simp add: decision_of_def)

lemma decided_repeats:
  assumes "decided now mode e claims d db (t1, t2, t3, t4, t5) db'"
  shows "\<exists>x. decision_of e (cl_i claims) db' = Some x
    \<and> repeated_decision mode e claims x db' = (t1, t2, False, t4, t5)"
  using assms
proof cases
  case (repeated x)
  have "\<exists>a b c f. repeated_decision mode e claims x db = (a, b, False, c, f)"
    unfolding repeated_decision_def Let_def by (auto split: option.splits)
  with repeated show ?thesis by auto
next
  case (outdated s)
  note look = decision_of_new [OF outdated(2), of e now d]
  show ?thesis
    unfolding outdated(1) look using outdated(3,4,6) by (auto simp: repeated_decision_def split: option.splits)
next
  case (applied s r db1 gid eid)
  note a = apply_to_subject_Some [OF applied(9)]
  from dual_write_Inr [OF applied(10)] have k:
    "cb_decisions db' = cb_decisions (mark_applied (cl_i claims) e (sj_revision r) db1)"
    "cb_subjects db' = cb_subjects (mark_applied (cl_i claims) e (sj_revision r) db1)" by auto
  have "decision_of e (cl_i claims) db' = map_option (\<lambda>x. x\<lparr>di_applied_revision := Some (sj_revision r)\<rparr>)
      (decision_of e (cl_i claims) (with_decision now e claims d db))"
    using a by (simp add: decision_of_cong [OF k(1)] decision_of_marked decision_of_cong [of db1 "with_decision now e claims d db"])
  moreover have "subject_of e s db' = Some r"
    using a k(2) by (simp add: subject_of_def mark_applied_def)
  ultimately show ?thesis
    using a applied(1-5,7,8) decision_of_new [OF applied(6), of e now d] by (simp add: repeated_decision_def)
next
  case single
  then show ?thesis using decision_of_new [OF single(7), of e now d] by (simp add: repeated_decision_def)
next
  case (always gid eid)
  from dual_write_Inr [OF always(8)] have "decision_of e (cl_i claims) db' =
      decision_of e (cl_i claims) (with_decision now e claims d db)"
    by (intro decision_of_cong) auto
  then show ?thesis using always decision_of_new [OF always(6), of e now d] by (simp add: repeated_decision_def)
qed

lemma decided_keeps_rest:
  assumes "decided now mode e claims d db st db'"
  shows "cb_catalog db' = cb_catalog db \<and> cb_modes db' = cb_modes db \<and> cb_interactions db' = cb_interactions db"
  using assms
proof cases
  case (applied s r db1 gid eid)
  from apply_to_subject_Some [OF applied(5)] dual_write_Inr [OF applied(6)]
  show ?thesis by (auto simp: mark_applied_def with_decision_def)
next
  case (always gid eid)
  from dual_write_Inr [OF always(4)] show ?thesis by (auto simp: with_decision_def)
qed (simp_all add: with_decision_def)

text \<open>
  Sending a decision again with the same capability, whatever it says the second time, gives the
  answer of the first time, now marked as no change, and writes nothing.
\<close>

theorem repeating_a_decision_repeats_its_answer:
  assumes "record_feedback_consent_decision codec now gid eid cap words db = Inr (out, db')"
    "verified_capability codec later cap db = verified_capability codec now cap db"
    "decision_of_text words' \<noteq> None"
  shows "record_feedback_consent_decision codec later gid' eid' cap words' db'
    = Inr (out\<lparr>co_changed := False\<rparr>, db')"
proof (rule record_decides [OF assms(1)])
  fix key :: api_key_row and env :: environment_row and claims :: capability_claims and d and st
  let ?e = "ak_environment key" and ?mode = "cb_modes db (ak_environment key)"
  assume v: "verified_capability codec now cap db = Inr (key, env, claims)"
    and mode: "?mode \<in> {''ask_once'', ''ask_always''}"
    and dec: "decided now ?mode ?e claims d db st db'"
    and st: "(co_decision out, co_decided_at out, co_changed out, co_action_allowed out, co_flipped_from out) = st"
    and om: "co_mode out = ?mode" "co_expires_at out = cl_exp claims"
      "co_protocol_tool out = (\<exists>i \<in> set (cb_interactions db'). iv_id i = cl_i claims
          \<and> iv_environment i = ?e \<and> iv_surface i = ''mcp'' \<and> iv_confirmation i = Some ''mcp'')"
  obtain d' where d': "decision_of_text words' = Some d'" using assms(3) by blast
  note keep = decided_keeps_rest [OF dec]
  have v': "verified_capability codec later cap db' = Inr (key, env, claims)"
    using v assms(2) keep by (simp add: verified_capability_def)
  obtain x where x: "decision_of ?e (cl_i claims) db' = Some x"
    "repeated_decision ?mode ?e claims x db' = (co_decision out, co_decided_at out, False, co_action_allowed out, co_flipped_from out)"
    using decided_repeats [OF dec [folded st]] by blast
  have "cl_i claims \<in> di_interaction ` set (cb_decisions db')"
    using decision_of_key [OF x(1)] by (metis image_eqI)
  then have "decide later (cb_modes db' ?e) ?e claims d' db' =
      Inr ((co_decision out, co_decided_at out, False, co_action_allowed out, co_flipped_from out), db')"
    using x keep by (simp add: decide_def)
  from record_runs [OF d' v' _ this, of gid' eid' db'] mode keep obtain out' where out':
    "record_feedback_consent_decision codec later gid' eid' cap words' db' = Inr (out', db')"
    "co_decision out' = co_decision out" "co_mode out' = co_mode out" "co_expires_at out' = co_expires_at out"
    "co_decided_at out' = co_decided_at out" "\<not> co_changed out'" "co_action_allowed out' = co_action_allowed out"
    "co_flipped_from out' = co_flipped_from out" "co_protocol_tool out' = co_protocol_tool out"
    by (auto simp: write_consent_def om)
  have "out' = out\<lparr>co_changed := False\<rparr>" using out'(2-) by (intro consent_outcome.equality) simp_all
  with out'(1) show ?thesis by simp
qed

section \<open>Witnesses\<close>

text \<open>Two capabilities for one subject, of revision 0 and of revision 1, in an environment that asks once.\<close>

definition asked :: "uuid \<Rightarrow> int option \<Rightarrow> capability_claims" where
  "asked i n = \<lparr>cl_v = 1, cl_i = i, cl_iat = 100, cl_exp = 3700, cl_n = replicate 16 (CHR ''n''),
     cl_s = Some (''afsub1_'' @ replicate 43 (CHR ''s'')), cl_r = n\<rparr>"

definition ask_codec :: token_codec where
  "ask_codec = codec0\<lparr>tc_claims_of := (\<lambda>t. if t = ''a'' then Some (asked 6 None)
     else if t = ''b'' then Some (asked 7 (Some 1)) else if t = ''c'' then Some (asked 8 None)
     else if t = ''d'' then Some ((asked 9 None)\<lparr>cl_s := None\<rparr>) else None)\<rparr>"

definition cap_of :: "string \<Rightarrow> string" where
  "cap_of payload = ''afr2_00.'' @ payload @ ''.'' @ hex_of (replicate 20 (CHR ''m''))"

definition asker :: string where
  "asker = ''afsub1_'' @ replicate 43 (CHR ''s'')"

definition ask_key :: api_key_row where
  "ask_key = \<lparr>ak_id = 2, ak_workspace = 1, ak_environment = 31, ak_label = ''Default'', ak_prefix = ''af_live_'',
     ak_kind = Write_Key, ak_hash = ''k'', ak_created_at = 0, ak_last_used_at = None, ak_revoked_at = None,
     ak_expires_at = None\<rparr>"

definition ask_environment :: environment_row where
  "ask_environment = \<lparr>en_id = 31, en_workspace = 1, en_product = 5, en_name = ''Production'',
     en_slug = ''production'', en_created_at = 0\<rparr>"

definition ask_product :: catalog_product where
  "ask_product = \<lparr>cp_id = 5, cp_workspace = 1, cp_name = ''Web shop'', cp_slug = ''web-shop'', cp_created_at = 0,
     cp_updated_at = 0\<rparr>"

definition ask_db :: consent_db where
  "ask_db = \<lparr>cb_catalog = \<lparr>ca_workspaces = [1], ca_products = [ask_product], ca_environments = [ask_environment],
       ca_milestones = [], ca_keys = [ask_key]\<rparr>,
     cb_modes = (\<lambda>_. ''ask_once''), cb_subjects = [], cb_decisions = [], cb_grants = [], cb_events = [],
     cb_interactions = []\<rparr>"

lemma ask_verified:
  "verified_capability ask_codec 200000000 (cap_of ''61'') ask_db = Inr (ask_key, ask_environment, asked 6 None)"
  "verified_capability ask_codec 300000000 (cap_of ''61'') ask_db = Inr (ask_key, ask_environment, asked 6 None)"
  by code_simp+

lemma ask_reachable: "consent_reachable ask_codec ask_db"
  by (rule consent_reachable.start) (simp_all add: ask_db_def)

lemma asker_valid: "valid_consent_subject asker"
  by code_simp

lemma a_current_capability_decides_witness:
  "\<exists>out db'. record_feedback_consent_decision ask_codec 200000000 91 92 (cap_of ''61'') ''approved'' ask_db = Inr (out, db')
     \<and> co_changed out \<and> co_action_allowed out
     \<and> map_option grant_standing (grant_of 31 asker Share_Outcome db') = Some (Granted Approved, 1, 200000000)"
proof -
  have rev: "revision_of 31 asker ask_db = 0" by (simp add: revision_of_def subject_of_def ask_db_def)
  have k: "ak_environment ask_key = 31" "cl_s (asked 6 None) = Some asker" "cl_r (asked 6 None) = None"
    "cb_modes ask_db 31 = ''ask_once''" "decision_of_text ''approved'' = Some Approved"
    by (simp_all add: ask_key_def asked_def asker_def ask_db_def decision_of_text_def)
  show ?thesis
    using a_current_capability_decides [OF ask_reachable k(5) ask_verified(1), unfolded k(1), OF k(4,2), of 91 92] rev k
    by (auto simp: ask_db_def)
qed

text \<open>The same decision by its parts, for the other witnesses.\<close>

lemma asked_once:
  obtains out db' where
    "record_feedback_consent_decision ask_codec 200000000 91 92 (cap_of ''61'') ''approved'' ask_db = Inr (out, db')"
    "length (trail 31 asker db') = 1" "co_changed out"
    "verified_capability ask_codec 300000000 (cap_of ''63'') db' = Inr (ask_key, ask_environment, asked 8 None)"
    "is_ok (record_feedback_consent_decision ask_codec 300000000 93 94 (cap_of ''63'') ''declined'' db')"
    "revision_of 31 asker db' = 1" "cb_modes db' 31 = ''ask_once''"
proof -
  have "(case record_feedback_consent_decision ask_codec 200000000 91 92 (cap_of ''61'') ''approved'' ask_db of
      Inl e \<Rightarrow> False
    | Inr (out, db') \<Rightarrow> length (trail 31 asker db') = 1 \<and> co_changed out
        \<and> verified_capability ask_codec 300000000 (cap_of ''63'') db' = Inr (ask_key, ask_environment, asked 8 None)
        \<and> is_ok (record_feedback_consent_decision ask_codec 300000000 93 94 (cap_of ''63'') ''declined'' db')
        \<and> revision_of 31 asker db' = 1 \<and> cb_modes db' 31 = ''ask_once'')"
    by code_simp
  then show thesis using that by (auto split: sum.splits)
qed

lemma audit_trail_is_the_history_witness:
  "\<exists>db. consent_reachable ask_codec db \<and> map ev_revision (trail 31 asker db) = [1]
     \<and> map_option grant_standing (grant_of 31 asker Share_Outcome db) \<noteq> None"
proof (rule asked_once)
  fix out db'
  assume r: "record_feedback_consent_decision ask_codec 200000000 91 92 (cap_of ''61'') ''approved'' ask_db = Inr (out, db')"
    and len: "length (trail 31 asker db') = 1"
  have reach: "consent_reachable ask_codec db'" using ask_reachable r by (rule consent_reachable.decide)
  from audit_trail_is_the_history [OF this asker_valid, of 31] len
  have "map ev_revision (trail 31 asker db') = [1]" "trail 31 asker db' \<noteq> []"
    "map_option grant_standing (grant_of 31 asker Share_Outcome db')
       = (if trail 31 asker db' = [] then None else Some (event_standing (last (trail 31 asker db'))))"
    by auto
  with reach show ?thesis by auto
qed

lemma a_stale_capability_changes_no_consent_witness:
  "\<exists>db out db'. record_feedback_consent_decision ask_codec 300000000 93 94 (cap_of ''63'') ''declined'' db = Inr (out, db')
     \<and> cb_subjects db \<noteq> [] \<and> cb_subjects db' = cb_subjects db \<and> \<not> co_changed out"
proof (rule asked_once)
  fix out db'
  assume v: "verified_capability ask_codec 300000000 (cap_of ''63'') db' = Inr (ask_key, ask_environment, asked 8 None)"
    and ok: "is_ok (record_feedback_consent_decision ask_codec 300000000 93 94 (cap_of ''63'') ''declined'' db')"
    and rev: "revision_of 31 asker db' = 1" and mode: "cb_modes db' 31 = ''ask_once''"
  obtain out2 db2 where run: "record_feedback_consent_decision ask_codec 300000000 93 94 (cap_of ''63'') ''declined'' db' = Inr (out2, db2)"
    using ok by (auto simp: is_ok_iff)
  have k: "ak_environment ask_key = 31" "cl_s (asked 8 None) = Some asker" "cl_r (asked 8 None) = None"
    by (simp_all add: ask_key_def asked_def asker_def)
  have "cb_subjects db' \<noteq> []" using rev by (auto simp: revision_of_def subject_of_def)
  moreover have "cb_subjects db2 = cb_subjects db' \<and> \<not> co_changed out2"
    using a_stale_capability_changes_no_consent [OF v _ k(2) _ run] mode rev k by simp
  ultimately show ?thesis using run by blast
qed

lemma repeating_a_decision_repeats_its_answer_witness:
  "\<exists>out db'. record_feedback_consent_decision ask_codec 200000000 91 92 (cap_of ''61'') ''approved'' ask_db = Inr (out, db')
     \<and> co_changed out
     \<and> record_feedback_consent_decision ask_codec 300000000 95 96 (cap_of ''61'') ''declined'' db'
         = Inr (out\<lparr>co_changed := False\<rparr>, db')"
proof (rule asked_once)
  fix out db'
  assume r: "record_feedback_consent_decision ask_codec 200000000 91 92 (cap_of ''61'') ''approved'' ask_db = Inr (out, db')"
    and c: "co_changed out"
  have "decision_of_text ''declined'' \<noteq> None" by (simp add: decision_of_text_def)
  with repeating_a_decision_repeats_its_answer [OF r, of 300000000 "''declined''" 95 96] ask_verified r c
  show ?thesis by auto
qed

end
