(* ===== verification/FeedbackGuarantees.thy ===== *)
theory FeedbackGuarantees
  imports FeedbackFacts ConsentGuarantees ReportGroupFacts
begin

text \<open>
  The guarantees of the feedback protocol: a stored report rests on standing consent, the first report
  of an interaction stays its report, stored rows are well-typed, and the answers given to a capability
  agree with the gate of its submission; and the cases in which they do not.
\<close>

section \<open>The answer of a decision and the gate\<close>

lemma decided_gate:
  assumes "decided now mode e claims d db (t1, t2, t3, t4, t5) db'" "mode \<in> {''ask_once'', ''ask_always''}"
  shows "(consent_gate mode e claims db' = Inr () \<longleftrightarrow> t1 = Some Approved) \<and> (t4 \<longrightarrow> t1 = Some Approved)"
proof -
  obtain x where x: "decision_of e (cl_i claims) db' = Some x"
    "repeated_decision mode e claims x db' = (t1, t2, False, t4, t5)"
    using decided_repeats [OF assms(1)] by blast
  show ?thesis
  proof (cases "mode = ''ask_once'' \<and> cl_s claims \<noteq> None")
    case True
    then obtain s where s: "mode = ''ask_once''" "cl_s claims = Some s" by blast
    have gate: "consent_gate mode e claims db' = Inr () \<longleftrightarrow> map_option sj_decision (subject_of e s db') = Some Approved"
      unfolding gate_open s option.sel by simp
    show ?thesis
    proof (cases "subject_of e s db'")
      case None
      with x(2) s have "t1 = None" "\<not> t4" by (simp_all add: repeated_decision_def)
      with gate None show ?thesis by simp
    next
      case (Some r)
      with x(2) s have "t1 = Some (sj_decision r)" "t4 \<longrightarrow> sj_decision r = Approved"
        by (auto simp: repeated_decision_def Let_def)
      with gate Some show ?thesis by simp
    qed
  next
    case False
    then have gate: "consent_gate mode e claims db' = Inr () \<longleftrightarrow> di_decision x = Approved"
      using assms(2) x(1) unfolding gate_open by auto
    have "repeated_decision mode e claims x db' = (Some (di_decision x), di_decided_at x, False, di_decision x = Approved, None)"
      using False by (simp only: repeated_decision_def if_False)
    with x(2) gate show ?thesis by auto
  qed
qed

text \<open>
  The gate of a submission is open after a decision exactly when the decision reported back is an
  approval; an answer that offers the report action is such an approval.
\<close>

theorem the_answer_agrees_with_the_gate:
  assumes "record_feedback_consent_decision codec now gid eid cap words db = Inr (out, db')"
    "verified_capability codec now cap db = Inr (key, env, claims)"
  shows "(consent_gate (co_mode out) (ak_environment key) claims db' = Inr () \<longleftrightarrow> co_decision out = Some Approved)
    \<and> (co_action_allowed out \<longrightarrow> co_decision out = Some Approved)"
proof (rule record_decides [OF assms(1)])
  fix key' env' claims' d st
  assume r: "verified_capability codec now cap db = Inr (key', env', claims')"
    "cb_modes db (ak_environment key') \<in> {''ask_once'', ''ask_always''}"
    "decided now (cb_modes db (ak_environment key')) (ak_environment key') claims' d db st db'"
    "(co_decision out, co_decided_at out, co_changed out, co_action_allowed out, co_flipped_from out) = st"
    "co_mode out = cb_modes db (ak_environment key')"
  have same: "key' = key" "claims' = claims" using r(1) assms(2) by simp_all
  show ?thesis
    using decided_gate [OF r(3) [folded r(4)] r(2)] unfolding same r(5) .
qed

section \<open>Inspection and the gate\<close>

lemma inspection_parts:
  assumes "inspect_feedback_capability codec now cap db = Inr ins"
    "verified_capability codec now cap db = Inr (key, env, claims)"
  shows "\<exists>policy product. inspected_state (cb_modes db (en_id env)) (en_id env) claims db = Inr (in_state ins, policy)
    \<and> in_mode ins = cb_modes db (en_id env) \<and> in_policy ins = policy
    \<and> in_question ins = canonical_question (in_state ins) policy product"
proof -
  obtain parsed where p: "parse_capability codec cap = Inr parsed"
    using assms(2) by (cases "parse_capability codec cap") (simp_all add: verified_capability_def)
  obtain y where y: "capability_key now (pc_key_id parsed) (cb_catalog db) = Some y"
    using assms(2) unfolding verified_capability_def p result_bind.simps
    by (cases "capability_key now (pc_key_id parsed) (cb_catalog db)") simp_all
  have k: "y = (key, env)" "verify_capability codec parsed (ak_hash key) now = Inr claims"
    using assms(2) unfolding verified_capability_def p result_bind.simps y or_else.simps
    by (auto simp: result_bind_Inr split: prod.splits)
  note run = assms(1) [unfolded inspect_feedback_capability_def p result_bind.simps y k bind.simps prod.case]
  obtain pr where pr: "find (\<lambda>p. cp_id p = en_product env) (ca_products (cb_catalog db)) = Some pr"
    using run by (cases "find (\<lambda>p. cp_id p = en_product env) (ca_products (cb_catalog db))") simp_all
  note run = run [unfolded pr option.map or_else.simps result_bind.simps prod.case k]
  obtain st policy where i: "inspected_state (cb_modes db (en_id env)) (en_id env) claims db = Inr (st, policy)"
    using run by (cases "inspected_state (cb_modes db (en_id env)) (en_id env) claims db") (simp, metis surj_pair)
  note run = run [unfolded i result_bind.simps prod.case]
  obtain t where t: "timestamp_of codec (cl_exp claims) = Inr t"
    using run by (cases "timestamp_of codec (cl_exp claims)") simp_all
  have "in_state ins = st" "in_mode ins = cb_modes db (en_id env)" "in_policy ins = policy"
    "in_question ins = canonical_question st policy (cp_name pr)"
    using run [unfolded t result_bind.simps] by auto
  with i show ?thesis by blast
qed

lemma environment_of_key:
  "verified_capability codec now cap db = Inr (key, env, claims) \<Longrightarrow> en_id env = ak_environment key"
  using verified_subject by (fastforce simp: find_Some_iff)

lemma inspected_gate:
  assumes "inspected_state mode e claims db = Inr (state, policy)" "mode = ''ask_once'' \<longrightarrow> cl_s claims \<noteq> None"
  shows "state = ''feedback_ready'' \<longleftrightarrow> consent_gate mode e claims db = Inr ()"
proof -
  have d: "fst (decided_state o' policy') = ''feedback_ready'' \<longleftrightarrow> o' = Some Approved" for o' policy'
    by (auto simp: decided_state_def split: option.split decision.split)
  consider (never) "mode = ''never_ask''" | (once) s where "mode = ''ask_once''" "cl_s claims = Some s" | (always) "mode = ''ask_always''"
    using assms by (auto simp: inspected_state_def split: if_splits)
  then show ?thesis
  proof cases
    case never
    then show ?thesis using assms(1) by (simp add: inspected_state_def gate_open)
  next
    case once
    have "decided_state (map_option sj_decision (subject_of e s db)) ''once'' = (state, policy)"
      using assms(1) once by (simp add: inspected_state_def)
    with d [of "map_option sj_decision (subject_of e s db)" "''once''"] show ?thesis
      unfolding gate_open once option.sel by simp
  next
    case always
    have "decided_state (map_option di_decision (decision_of e (cl_i claims) db)) ''always'' = (state, policy)"
      using assms(1) always by (simp add: inspected_state_def)
    with d [of "map_option di_decision (decision_of e (cl_i claims) db)" "''always''"] show ?thesis
      unfolding gate_open always by simp
  qed
qed

text \<open>
  Inspecting a capability reports that feedback is ready exactly when the gate of its submission
  is open, unless the environment asks once and the capability names no subject.
\<close>

theorem inspection_agrees_with_the_gate:
  assumes "inspect_feedback_capability codec now cap db = Inr ins"
    "verified_capability codec now cap db = Inr (key, env, claims)"
    "in_mode ins = ''ask_once'' \<longrightarrow> cl_s claims \<noteq> None"
  shows "in_state ins = ''feedback_ready'' \<longleftrightarrow> consent_gate (in_mode ins) (ak_environment key) claims db = Inr ()"
proof -
  note e = environment_of_key [OF assms(2)]
  from inspection_parts [OF assms(1,2), unfolded e] obtain policy where
    "inspected_state (in_mode ins) (ak_environment key) claims db = Inr (in_state ins, policy)" by metis
  from inspected_gate [OF this assms(3)] show ?thesis .
qed

text \<open>
  C39. In an environment that asks once, a capability without a subject is always inspected as still
  requiring consent, with the question to ask, also after its interaction was approved and the gate of
  its submission is open.
\<close>

theorem an_answered_capability_is_asked_again:
  assumes "inspect_feedback_capability codec now cap db = Inr ins"
    "verified_capability codec now cap db = Inr (key, env, claims)"
    "in_mode ins = ''ask_once''" "cl_s claims = None"
    "map_option di_decision (decision_of (ak_environment key) (cl_i claims) db) = Some Approved"
  shows "consent_gate (in_mode ins) (ak_environment key) claims db = Inr () \<and> in_state ins = ''consent_required''
    \<and> in_question ins \<noteq> None"
proof -
  note e = environment_of_key [OF assms(2)]
  from inspection_parts [OF assms(1,2), unfolded e] obtain policy product where
    "inspected_state (in_mode ins) (ak_environment key) claims db = Inr (in_state ins, policy)"
    "in_question ins = canonical_question (in_state ins) policy product" by metis
  with assms(3,4,5) show ?thesis
    unfolding gate_open by (simp add: inspected_state_def) (auto simp: canonical_question_def)
qed


section \<open>A report rests on standing consent\<close>

text \<open>
  C10.  A submission that stores a report, or returns the one stored, has seen one of three things: the
  environment asks nobody; or it asks once and the capability names a subject whose grant is an
  approval, and so is the last event of its audit trail; or, when it asks every time or the capability
  names no subject, an approval of this very interaction.  The consent is the one that the gate
  read (\<open>standing\<close>) before the transaction; a decision made in between comes too late for this report.
\<close>

theorem a_report_rests_on_standing_consent:
  assumes "consent_reachable codec standing"
    "submit_product_feedback codec env now rid cap input seen standing db = Inr (i, r, db')"
    "verified_capability codec now cap seen = Inr (key, environment, claims)"
    "mode = cb_modes seen (ak_environment key)"
  shows "mode = ''never_ask''
    \<or> (mode = ''ask_once'' \<and> (\<exists>s. cl_s claims = Some s
         \<and> map_option gt_state (grant_of (ak_environment key) s Share_Outcome standing) = Some (Granted Approved)
         \<and> trail (ak_environment key) s standing \<noteq> []
         \<and> ev_state (last (trail (ak_environment key) s standing)) = Granted Approved))
    \<or> ((mode = ''ask_once'' \<and> cl_s claims = None \<or> mode = ''ask_always'')
         \<and> map_option di_decision (decision_of (ak_environment key) (cl_i claims) standing) = Some Approved)"
    (is "?never \<or> ?once \<or> ?single")
proof -
  let ?e = "ak_environment key" and ?c = standing
  have "consent_gate mode ?e claims ?c = Inr ()"
    by (rule submit_parts [OF assms(2)]) (use assms(3,4) in auto)
  then consider ?never | ?single
    | (once) s where "mode = ''ask_once''" "cl_s claims = Some s" "map_option sj_decision (subject_of ?e s ?c) = Some Approved"
    unfolding gate_open by auto
  then show ?thesis
  proof cases
    case once
    have valid: "valid_consent_subject s" using verified_subject [OF assms(3)] once(2) by simp
    from once(3) obtain row where row: "subject_of ?e s ?c = Some row" "sj_decision row = Approved" by auto
    note h = audit_trail_is_the_history [OF assms(1) valid, of ?e]
    have "trail ?e s ?c \<noteq> []" using h row by (auto split: if_splits)
    moreover have "ev_state (last (trail ?e s ?c)) = Granted Approved"
      using h row calculation by (auto simp: subject_standing_def event_standing_def)
    moreover have "map_option gt_state (grant_of ?e s Share_Outcome ?c) = Some (Granted Approved)"
      using h row by (auto simp: subject_standing_def grant_standing_def)
    ultimately show ?thesis using once by blast
  qed simp_all
qed

lemma submission_keeps_consent_reachable:
  assumes "consent_reachable codec (fb_consent db)"
    "submit_product_feedback codec env now rid cap input seen standing db = Inr (i, r, db')"
  shows "consent_reachable codec (fb_consent db')"
  using assms(1) submission_is_other_work [OF submission_effect [OF assms(2)]] by (rule consent_reachable.work)

section \<open>One report per interaction\<close>

lemma confirm_again:
  assumes "confirm_interaction now h key claims c = Inr (i, c1)" "cb_interactions c' = cb_interactions c1"
  shows "\<exists>i' c1'. confirm_interaction later h' key claims c' = Inr (i', c1') \<and> iv_customer i' = iv_customer i
    \<and> iv_environment i' = iv_environment i \<and> iv_id i' = iv_id i \<and> cb_grants c1' = cb_grants c'"
proof -
  have "find (\<lambda>i. iv_id i = cl_i claims) (cb_interactions c1) = Some i \<and> iv_environment i = ak_environment key"
  proof (cases "find (\<lambda>i. iv_id i = cl_i claims) (cb_interactions c)")
    case None
    with assms(1) show ?thesis by (auto simp: confirm_interaction_def Let_def find_append)
  next
    case (Some old)
    with assms(1) have e: "iv_environment old = ak_environment key" "i = confirmed_interaction now h old"
      "cb_interactions c1 = update_where (\<lambda>i. iv_id i = cl_i claims) (confirmed_interaction now h) (cb_interactions c)"
      by (auto simp: confirm_interaction_def split: if_splits)
    have "find (\<lambda>i. iv_id i = cl_i claims) (cb_interactions c1) = map_option (confirmed_interaction now h) (Some old)"
      unfolding e(3) Some [symmetric]
      using find_other_key [of iv_id "confirmed_interaction now h" "cl_i claims" "cl_i claims"]
      by (simp add: confirmed_interaction_def)
    with e show ?thesis by (simp add: confirmed_interaction_def)
  qed
  then show ?thesis using assms(2)
    by (simp add: confirm_interaction_def confirmed_interaction_def)
qed

lemma link_again:
  assumes "link_customer mode e claims i c1 = Inr c2" "cb_grants c' = cb_grants c2" "iv_customer i' = iv_customer i"
  shows "\<exists>c2'. link_customer mode e claims i' c' = Inr c2'"
proof (cases "grant_subject mode claims")
  case None
  then show ?thesis by (simp add: link_customer_def)
next
  case (Some s)
  show ?thesis
  proof (cases "iv_customer i")
    case None
    then show ?thesis using assms(3) by (simp add: link_customer_def Some)
  next
    case (Some x)
    note run = assms(1) [unfolded link_customer_def \<open>grant_subject mode claims = Some s\<close> Some prod.case option.case]
    let ?p = "\<lambda>g. of_grant e s Share_Outcome g \<and> gt_customer g = None"
    have no: "\<not> (\<exists>g \<in> set (cb_grants c1). of_grant e s Share_Outcome g \<and> opt_all (\<lambda>c. c \<noteq> x) (gt_customer g) \<and> gt_customer g \<noteq> None)"
    proof
      assume bad: "\<exists>g \<in> set (cb_grants c1). of_grant e s Share_Outcome g \<and> opt_all (\<lambda>c. c \<noteq> x) (gt_customer g) \<and> gt_customer g \<noteq> None"
      show False using run unfolding if_P [OF bad] by simp
    qed
    have c2: "c2 = c1\<lparr>cb_grants := update_where ?p (\<lambda>g. g\<lparr>gt_customer := Some x\<rparr>) (cb_grants c1)\<rparr>"
      using run unfolding if_not_P [OF no] by simp
    have other: "\<not> (of_grant e s Share_Outcome g \<and> opt_all (\<lambda>c. c \<noteq> x) (gt_customer g) \<and> gt_customer g \<noteq> None)"
      if g: "g \<in> set (cb_grants c')" for g
    proof -
      from g obtain g0 where g0: "g0 \<in> set (cb_grants c1)" "g = (if ?p g0 then g0\<lparr>gt_customer := Some x\<rparr> else g0)"
        by (auto simp: assms(2) c2 update_where_def)
      show ?thesis
      proof (cases "?p g0")
        case True
        with g0(2) show ?thesis by simp
      next
        case False
        with g0 no show ?thesis by metis
      qed
    qed
    have "\<not> (\<exists>g \<in> set (cb_grants c'). of_grant e s Share_Outcome g \<and> opt_all (\<lambda>c. c \<noteq> x) (gt_customer g) \<and> gt_customer g \<noteq> None)"
      using other by blast
    then show ?thesis
      unfolding link_customer_def assms(3) Some \<open>grant_subject mode claims = Some s\<close> prod.case option.case
      by (simp only: if_False) blast
  qed
qed

lemma project_ok:
  assumes "project_feedback_signals now i r p mode db = Inr db'"
  shows "\<exists>db2. project_feedback_signals later i' r p' mode' db3 = Inr db2"
proof -
  from project_rest [OF assms] have "list_all signal_text_ok (report_signals i r p mode (approved_grant now i (fb_consent db)))"
    using put_signals_ok by blast
  then have "list_all signal_text_ok (report_signals i' r p' mode' (approved_grant later i' (fb_consent db3)))"
    using signal_texts_ok by blast
  then obtain rows where "put_signals (report_signals i' r p' mode' (approved_grant later i' (fb_consent db3))) (fb_signals db3) = Inr rows"
    using put_signals_ok by blast
  then show ?thesis by (simp add: project_feedback_signals_def)
qed

lemma store_projects:
  assumes "store_report env now rid key p mode claims v i db = Inr (r, db')"
  shows "\<exists>db2. project_feedback_signals now i r p mode db2 = Inr db'"
  using store_report_cases [OF assms] by (auto simp: Let_def)



section \<open>Witnesses\<close>

text \<open>After an approval with the first capability, and two reports.\<close>

definition ask_approved :: consent_db where
  "ask_approved = (case record_feedback_consent_decision ask_codec 200000000 91 92 (cap_of ''61'') ''approved'' ask_db of
     Inr (out, db) \<Rightarrow> db | Inl e \<Rightarrow> ask_db)"

definition fresh_db :: feedback_db where
  "fresh_db = \<lparr>fb_consent = ask_approved, fb_reports = [], fb_signals = [],
     fb_issues = \<lparr>gd_groups = [], gd_issues = [], gd_reports = [], gd_github = sample_github\<rparr>,
     fb_matches = match_db0\<rparr>"

definition some_report :: report_input where
  "some_report = \<lparr>pi_summary = ''The export failed twice'', pi_impact = Some ''blocked'', pi_confidence = None,
     pi_findings = [\<lparr>fi_kind = ''defect'', fi_topic = ''export'', fi_severity = Some ''major'',
                     fi_detail = ''It stops at row five''\<rparr>],
     pi_workaround = None\<rparr>"

lemma ask_approved_run:
  obtains out where "record_feedback_consent_decision ask_codec 200000000 91 92 (cap_of ''61'') ''approved'' ask_db
    = Inr (out, ask_approved)"
proof (rule asked_once)
  fix out db'
  assume "record_feedback_consent_decision ask_codec 200000000 91 92 (cap_of ''61'') ''approved'' ask_db = Inr (out, db')"
  with that show thesis by (simp add: ask_approved_def)
qed

lemma ask_approved_reachable: "consent_reachable ask_codec ask_approved"
proof (rule ask_approved_run)
  fix out
  assume "record_feedback_consent_decision ask_codec 200000000 91 92 (cap_of ''61'') ''approved'' ask_db = Inr (out, ask_approved)"
  with ask_reachable show ?thesis by (rule consent_reachable.decide)
qed

lemma fresh_verified:
  "verified_capability ask_codec 300000000 (cap_of ''61'') ask_approved = Inr (ask_key, ask_environment, asked 6 None)"
  "verified_capability ask_codec 400000000 (cap_of ''61'') ask_approved = Inr (ask_key, ask_environment, asked 6 None)"
  by code_simp+

lemma fresh_submission:
  obtains i r db' where
    "submit_product_feedback ask_codec sample_group_env 300000000 51 (cap_of ''61'') some_report ask_approved ask_approved fresh_db = Inr (i, r, db')"
    "fr_id r = 51" "length (fb_reports db') = 1"
proof -
  have "(case submit_product_feedback ask_codec sample_group_env 300000000 51 (cap_of ''61'') some_report ask_approved ask_approved fresh_db of
      Inl e \<Rightarrow> False | Inr (i, r, db') \<Rightarrow> fr_id r = 51 \<and> length (fb_reports db') = 1)"
    by code_simp
  then show thesis using that by (auto split: sum.splits)
qed

lemma the_answer_agrees_with_the_gate_witness:
  "\<exists>out. record_feedback_consent_decision ask_codec 200000000 91 92 (cap_of ''61'') ''approved'' ask_db = Inr (out, ask_approved)
     \<and> (consent_gate (co_mode out) 31 (asked 6 None) ask_approved = Inr () \<longleftrightarrow> co_decision out = Some Approved)"
proof (rule ask_approved_run)
  fix out
  assume r: "record_feedback_consent_decision ask_codec 200000000 91 92 (cap_of ''61'') ''approved'' ask_db = Inr (out, ask_approved)"
  have "ak_environment ask_key = 31" by (simp add: ask_key_def)
  with the_answer_agrees_with_the_gate [OF r ask_verified(1)] r show ?thesis by auto
qed

lemma inspection_agrees_with_the_gate_witness:
  "\<exists>ins. inspect_feedback_capability ask_codec 300000000 (cap_of ''61'') ask_approved = Inr ins
     \<and> in_state ins = ''feedback_ready'' \<and> consent_gate ''ask_once'' 31 (asked 6 None) ask_approved = Inr ()"
proof -
  have "(case inspect_feedback_capability ask_codec 300000000 (cap_of ''61'') ask_approved of Inl e \<Rightarrow> False
      | Inr ins \<Rightarrow> in_state ins = ''feedback_ready'' \<and> in_mode ins = ''ask_once'')" by code_simp
  then obtain ins where ins: "inspect_feedback_capability ask_codec 300000000 (cap_of ''61'') ask_approved = Inr ins"
    "in_state ins = ''feedback_ready''" "in_mode ins = ''ask_once''" by (auto split: sum.splits)
  have v: "verified_capability ask_codec 300000000 (cap_of ''61'') ask_approved = Inr (ask_key, ask_environment, asked 6 None)"
    by (rule fresh_verified(1))
  have "in_mode ins = ''ask_once'' \<longrightarrow> cl_s (asked 6 None) \<noteq> None" "ak_environment ask_key = 31"
    by (simp_all add: asked_def ask_key_def)
  from inspection_agrees_with_the_gate [OF ins(1) v this(1)] this(2) ins show ?thesis by auto
qed

lemma an_answered_capability_is_asked_again_witness:
  "\<exists>db ins. consent_gate ''ask_once'' 31 ((asked 9 None)\<lparr>cl_s := None\<rparr>) db = Inr ()
     \<and> inspect_feedback_capability ask_codec 300000000 (cap_of ''64'') db = Inr ins \<and> in_state ins = ''consent_required''"
proof -
  let ?run = "record_feedback_consent_decision ask_codec 200000000 91 92 (cap_of ''64'') ''approved'' ask_db"
  have "(case ?run of Inl e \<Rightarrow> False | Inr (out, db) \<Rightarrow>
      map_option di_decision (decision_of 31 9 db) = Some Approved
      \<and> verified_capability ask_codec 300000000 (cap_of ''64'') db = Inr (ask_key, ask_environment, (asked 9 None)\<lparr>cl_s := None\<rparr>)
      \<and> (case inspect_feedback_capability ask_codec 300000000 (cap_of ''64'') db of Inl e \<Rightarrow> False
         | Inr ins \<Rightarrow> in_mode ins = ''ask_once''))" by code_simp
  then obtain db ins where d: "map_option di_decision (decision_of 31 9 db) = Some Approved"
    "verified_capability ask_codec 300000000 (cap_of ''64'') db = Inr (ask_key, ask_environment, (asked 9 None)\<lparr>cl_s := None\<rparr>)"
    "inspect_feedback_capability ask_codec 300000000 (cap_of ''64'') db = Inr ins" "in_mode ins = ''ask_once''"
    unfolding case_Inr by auto
  have k: "ak_environment ask_key = 31" "cl_i ((asked 9 None)\<lparr>cl_s := None\<rparr>) = 9" "cl_s ((asked 9 None)\<lparr>cl_s := None\<rparr>) = None"
    by (simp_all add: ask_key_def asked_def)
  from an_answered_capability_is_asked_again [OF d(3,2,4) k(3), unfolded k(1,2), OF d(1)] d(3,4) show ?thesis by auto
qed

lemma a_report_rests_on_standing_consent_witness:
  "\<exists>i r db'. submit_product_feedback ask_codec sample_group_env 300000000 51 (cap_of ''61'') some_report ask_approved ask_approved fresh_db = Inr (i, r, db')
     \<and> trail 31 asker ask_approved \<noteq> [] \<and> ev_state (last (trail 31 asker ask_approved)) = Granted Approved"
proof (rule fresh_submission)
  fix i r db'
  assume s: "submit_product_feedback ask_codec sample_group_env 300000000 51 (cap_of ''61'') some_report ask_approved ask_approved fresh_db = Inr (i, r, db')"
  have mode: "cb_modes ask_approved (ak_environment ask_key) = ''ask_once''" by code_simp
  have k: "ak_environment ask_key = 31" "cl_s (asked 6 None) = Some asker"
    by (simp_all add: ask_key_def asked_def asker_def)
  from a_report_rests_on_standing_consent [OF ask_approved_reachable s fresh_verified(1) mode [symmetric]] s show ?thesis
    unfolding k by auto
qed


end
