(* ===== verification/FeedbackRows.thy ===== *)
theory FeedbackRows
  imports FeedbackGuarantees
begin

text \<open>
  The rows a submission stores are well-typed: reports in the normal form of validation, one per
  interaction, and signals within the constraints of \<open>customer_signals\<close>, one per report and item.  And
  the inputs that pass validation but violate those constraints.
\<close>

section \<open>Well-typed rows\<close>

definition report_of_row :: "feedback_row \<Rightarrow> valid_report" where
  "report_of_row r = \<lparr>vp_summary = fr_summary r, vp_impact = fr_impact r, vp_confidence = fr_confidence r,
     vp_findings = fr_findings r, vp_workaround = fr_workaround r\<rparr>"

definition typed_report :: "feedback_row \<Rightarrow> bool" where
  "typed_report r \<longleftrightarrow> good_report (report_of_row r) \<and> report_text_ok r"

definition SIGNAL_TYPES :: "string list" where
  "SIGNAL_TYPES = [''outcome'', ''friction'', ''constraint'', ''feature_need'', ''workaround'', ''satisfaction'']"

definition feature_key_ok :: "string \<Rightarrow> bool" where
  "feature_key_ok t \<longleftrightarrow> t \<noteq> [] \<and> is_lower_or_digit (hd t)
     \<and> list_all (\<lambda>c. is_lower_or_digit c \<or> c \<in> set ''-_'') t \<and> length t \<le> 64"

definition typed_signal :: "signal_row \<Rightarrow> bool" where
  "typed_signal s \<longleftrightarrow> signal_text_ok s \<and> sg_type s \<in> set SIGNAL_TYPES \<and> opt_all feature_key_ok (sg_feature s)
     \<and> sg_item s \<noteq> [] \<and> length (sg_item s) \<le> 80 \<and> opt_all (\<lambda>c. 0 \<le> c \<and> c \<le> 1) (sg_confidence s)
     \<and> sg_basis s \<in> {''provider_feedback_policy'', ''user_consent''}"

definition signal_key :: "signal_row \<Rightarrow> uuid \<times> uuid \<times> string" where
  "signal_key s = (sg_workspace s, sg_report s, sg_item s)"

definition rows_typed :: "feedback_db \<Rightarrow> bool" where
  "rows_typed db \<longleftrightarrow> list_all typed_report (fb_reports db) \<and> distinct (map fr_id (fb_reports db))
     \<and> distinct (map fr_interaction (fb_reports db))
     \<and> list_all typed_signal (fb_signals db) \<and> distinct (map signal_key (fb_signals db))"

section \<open>Signals of a well-typed report\<close>

lemma safe_topic_feature: "safe_topic t \<Longrightarrow> length t \<le> 64 \<Longrightarrow> feature_key_ok t"
proof -
  assume t: "safe_topic t" "length t \<le> 64"
  then have "t \<noteq> []" "is_alnum (hd t)" "list_all (\<lambda>c. is_lower_or_digit c \<or> c \<in> set ''-_'') t"
    by (simp_all add: safe_topic_def)
  moreover from this have "is_lower_or_digit (hd t) \<or> hd t \<in> set ''-_''"
    by (cases t) simp_all
  moreover have "\<not> is_alnum c" if "c \<in> set ''-_''" for c
    using that by (auto simp: char_defs byte_val_def)
  ultimately show ?thesis using t by (auto simp: feature_key_ok_def)
qed

lemma small_show: "n < 8 \<Longrightarrow> length (show_nat (n + 1)) = 1"
proof -
  have "\<forall>n < 8. length (show_nat (n + 1)) = 1" by code_simp
  then show "n < 8 \<Longrightarrow> length (show_nat (n + 1)) = 1" by blast
qed

lemma signal_type_ok: "signal_type k \<in> set SIGNAL_TYPES"
  by (simp add: signal_type_def SIGNAL_TYPES_def)

lemma in_report_signals:
  "s \<in> set (report_signals i r p mode g) \<longleftrightarrow>
     s = signal i r p (collection_basis mode) g ''outcome'' ''outcome'' (fr_summary r) None None
           (JObj [(''impact'', json_option (fr_impact r))])
     \<or> (\<exists>n < length (fr_findings r). s = finding_signal i r p (collection_basis mode) g n (fr_findings r ! n))
     \<or> (\<exists>w. fr_workaround r = Some w \<and> s = workaround_signal i r p (collection_basis mode) g w)"
proof -
  have "(\<exists>x \<in> set (zip [0..<length fs] fs). s = (case x of (n, f) \<Rightarrow> finding_signal i r p b g n f))
      \<longleftrightarrow> (\<exists>n < length fs. s = finding_signal i r p b g n (fs ! n))" for fs b
    by (force simp: set_zip)
  then show ?thesis
    unfolding report_signals_def Let_def by (cases "fr_workaround r") (auto simp: image_iff)
qed

lemma report_signals_typed:
  assumes "typed_report r" "s \<in> set (report_signals i r p mode g)" "signal_text_ok s"
  shows "typed_signal s"
proof -
  have good: "length (fr_findings r) \<le> 8" "list_all good_finding (fr_findings r)"
    "opt_all (\<lambda>c. 0 \<le> c \<and> c \<le> 1) (fr_confidence r)"
    using assms(1) by (auto simp: typed_report_def good_report_def report_of_row_def)
  have basis: "collection_basis mode \<in> {''provider_feedback_policy'', ''user_consent''}"
    by (simp add: collection_basis_def)
  consider (outcome) "s = signal i r p (collection_basis mode) g ''outcome'' ''outcome'' (fr_summary r) None None
           (JObj [(''impact'', json_option (fr_impact r))])"
    | (finding) n f where "s = finding_signal i r p (collection_basis mode) g n f" "n < length (fr_findings r)"
        "f \<in> set (fr_findings r)"
    | (workaround) w where "s = workaround_signal i r p (collection_basis mode) g w"
    using assms(2) unfolding in_report_signals by (metis nth_mem)
  then show ?thesis
  proof cases
    case outcome
    with assms(3) good basis show ?thesis by (simp add: typed_signal_def signal_def SIGNAL_TYPES_def)
  next
    case finding
    have "feature_key_ok (fi_topic f)"
      using finding(3) good(2) by (auto simp: list_all_iff good_finding_def intro: safe_topic_feature)
    with finding assms(3) good basis small_show [of n] show ?thesis
      by (simp add: typed_signal_def finding_signal_def signal_def signal_type_ok)
  next
    case workaround
    with assms(3) good basis show ?thesis by (simp add: typed_signal_def workaround_signal_def signal_def SIGNAL_TYPES_def)
  qed
qed

lemma merged_signal_typed:
  "typed_signal s \<Longrightarrow> typed_signal new \<Longrightarrow> typed_signal (merged_signal new s) \<and> signal_key (merged_signal new s) = signal_key s"
  by (simp add: typed_signal_def merged_signal_def signal_text_ok_def signal_key_def)

lemma same_signal_key: "same_signal new s \<longleftrightarrow> signal_key s = signal_key new"
  by (auto simp: same_signal_def signal_key_def)

lemma put_signals_typed:
  assumes "put_signals ns rows = Inr rows'" "list_all typed_signal rows" "distinct (map signal_key rows)"
    "\<And>s. s \<in> set ns \<Longrightarrow> signal_text_ok s \<Longrightarrow> typed_signal s"
  shows "list_all typed_signal rows' \<and> distinct (map signal_key rows')"
  using assms
proof (induction ns arbitrary: rows)
  case (Cons new ns)
  from Cons.prems(1) obtain mid where mid: "project_feedback_signal new rows = Inr mid" "put_signals ns mid = Inr rows'"
    by (auto simp: result_bind_Inr)
  then have ok: "signal_text_ok new" and m: "mid = (if list_ex (same_signal new) rows
      then update_where (same_signal new) (merged_signal new) rows else rows @ [new])"
    by (simp_all add: project_signal_Inr)
  have new: "typed_signal new" using Cons.prems(4) ok by simp
  have "list_all typed_signal mid \<and> distinct (map signal_key mid)"
  proof (cases "list_ex (same_signal new) rows")
    case True
    have "map signal_key (update_where (same_signal new) (merged_signal new) rows) = map signal_key rows"
      by (auto simp: update_where_def merged_signal_def signal_key_def)
    moreover have "list_all typed_signal (update_where (same_signal new) (merged_signal new) rows)"
      using Cons.prems(2) new merged_signal_typed by (auto simp: update_where_def list_all_iff)
    ultimately show ?thesis using m True Cons.prems(3) by simp
  next
    case False
    then have "signal_key new \<notin> signal_key ` set rows" by (auto simp: list_ex_iff same_signal_key)
    with m False Cons.prems(2,3) new show ?thesis by (simp add: list_all_iff)
  qed
  then show ?case using Cons.IH [OF mid(2)] Cons.prems(4) by simp
qed simp

lemma project_typed:
  assumes "project_feedback_signals now i r p mode db = Inr db'" "typed_report r"
    "list_all typed_signal (fb_signals db)" "distinct (map signal_key (fb_signals db))"
  shows "list_all typed_signal (fb_signals db') \<and> distinct (map signal_key (fb_signals db')) \<and> fb_reports db' = fb_reports db"
proof -
  from project_rest [OF assms(1)] obtain rows where rows: "db' = db\<lparr>fb_signals := rows\<rparr>"
    "put_signals (report_signals i r p mode (approved_grant now i (fb_consent db))) (fb_signals db) = Inr rows" by blast
  from put_signals_typed [OF rows(2) assms(3,4) report_signals_typed [OF assms(2)]] rows(1) show ?thesis by simp
qed

text \<open>
  C24. Submissions keep the stored rows well-typed: every report is in the normal form of validation
  and no interaction has two; every signal meets the constraints of its table and no item of a report
  has two; and the report returned is one of the rows.
\<close>

theorem submissions_keep_the_rows_typed:
  assumes "rows_typed db" "submit_product_feedback codec env now rid cap input seen standing db = Inr (i, r, db')"
  shows "rows_typed db' \<and> r \<in> set (fb_reports db')"
proof (rule submit_parts [OF assms(2)])
  fix v and key :: api_key_row and environment :: environment_row and mode :: string and claims :: capability_claims and c1 c2
  let ?p = "en_product environment" and ?mode = mode
  assume val: "validated_report input = Inr v"
    and st: "store_report env now rid key ?p ?mode claims v i (db\<lparr>fb_consent := c2\<rparr>) = Inr (r, db')"
  have typed: "list_all typed_report (fb_reports db)" "distinct (map fr_id (fb_reports db))"
    "distinct (map fr_interaction (fb_reports db))" "list_all typed_signal (fb_signals db)"
    "distinct (map signal_key (fb_signals db))" using assms(1) by (simp_all add: rows_typed_def)
  from store_report_cases [OF st] show ?thesis
  proof (elim disjE conjE exE)
    assume old: "find (\<lambda>r. fr_interaction r = cl_i claims) (fb_reports (db\<lparr>fb_consent := c2\<rparr>)) = Some r"
      "project_feedback_signals now i r ?p ?mode (activated now (ak_workspace key) ?p (db\<lparr>fb_consent := c2\<rparr>)) = Inr db'"
    then have r: "r \<in> set (fb_reports db)" by (auto simp: find_Some_iff)
    with typed(1) have "typed_report r" by (simp add: list_all_iff)
    from project_typed [OF old(2) this] typed r show ?thesis by (simp add: rows_typed_def)
  next
    fix group issues
    assume new: "find (\<lambda>r. fr_interaction r = cl_i claims) (fb_reports (db\<lparr>fb_consent := c2\<rparr>)) = None"
      "r = new_report now rid key claims v" "report_text_ok r" "rid \<notin> fr_id ` set (fb_reports (db\<lparr>fb_consent := c2\<rparr>))"
      and run: "let db1 = activated now (ak_workspace key) ?p (insert_report ?p i r (db\<lparr>fb_consent := c2\<rparr>));
             db2 = db1\<lparr>fb_matches := enqueue_code_match_if_mapped now rid ?p (fb_matches db1)\<rparr>
         in assign_report_group env (ak_workspace key) rid (report_input_of ?p i r) (fb_issues db2) = Inr (group, issues)
            \<and> project_feedback_signals now i r ?p ?mode (db2\<lparr>fb_issues := issues\<rparr>) = Inr db'"
    have "report_of_row r = v" by (simp add: new(2) new_report_def report_of_row_def)
    then have t: "typed_report r" using validated_report_good [OF val] new(3) by (simp add: typed_report_def)
    have fresh: "fr_interaction r \<notin> fr_interaction ` set (fb_reports db)" "fr_id r \<notin> fr_id ` set (fb_reports db)"
      using new by (auto simp: find_None_iff new_report_def)
    from run obtain db2 where p: "project_feedback_signals now i r ?p ?mode db2 = Inr db'"
      "fb_signals db2 = fb_signals db" "fb_reports db2 = fb_reports db @ [r]" by (auto simp: Let_def)
    from project_typed [OF p(1) t] typed p fresh t show ?thesis
      by (simp add: rows_typed_def)
  qed
qed


lemma submissions_keep_the_rows_typed_witness:
  "\<exists>i r db'. submit_product_feedback ask_codec sample_group_env 300000000 51 (cap_of ''61'') some_report ask_approved ask_approved fresh_db = Inr (i, r, db')
     \<and> rows_typed db' \<and> r \<in> set (fb_reports db')"
proof (rule fresh_submission)
  fix i r db'
  assume s: "submit_product_feedback ask_codec sample_group_env 300000000 51 (cap_of ''61'') some_report ask_approved ask_approved fresh_db = Inr (i, r, db')"
  have "rows_typed fresh_db" by (simp add: rows_typed_def fresh_db_def)
  from submissions_keep_the_rows_typed [OF this s] s show ?thesis by blast
qed

section \<open>Texts that pass validation but not the constraints\<close>

text \<open>
  C40. The tables count characters, the validation counts bytes, and it does not look at the length of
  the detail of a workaround that was not used: a report with such a short text passes the validation,
  but no submission of it ever succeeds.
\<close>

theorem short_texts_are_valid_but_never_stored:
  assumes "validated_report input = Inr v"
    "verified_capability codec now cap seen = Inr (key, environment, claims)"
    "cl_i claims \<notin> fr_interaction ` set (fb_reports db)"
    "utf8_count (vp_summary v) < 8 \<or> (\<exists>f \<in> set (vp_findings v). utf8_count (fi_detail f) < 3)
      \<or> (\<exists>w d. vp_workaround v = Some w \<and> wi_detail w = Some d \<and> utf8_count d < 3)"
  shows "\<not> is_ok (submit_product_feedback codec env now rid cap input seen standing db)"
proof
  assume "is_ok (submit_product_feedback codec env now rid cap input seen standing db)"
  then obtain i r db' where run: "submit_product_feedback codec env now rid cap input seen standing db = Inr (i, r, db')"
    by (auto simp: is_ok_iff)
  note good = validated_report_good [OF assms(1), unfolded good_report_def]
  show False
  proof (rule submit_parts [OF run])
    fix v' and key' :: api_key_row and env' :: environment_row and mode :: string and claims' :: capability_claims and c1 c2
    let ?p = "en_product env'" and ?mode = mode
    assume a: "validated_report input = Inr v'" "verified_capability codec now cap seen = Inr (key', env', claims')"
      and st: "store_report env now rid key' ?p ?mode claims' v' i (db\<lparr>fb_consent := c2\<rparr>) = Inr (r, db')"
    have same: "v' = v" "claims' = claims" using a assms(1,2) by simp_all
    have none: "find (\<lambda>r. fr_interaction r = cl_i claims') (fb_reports (db\<lparr>fb_consent := c2\<rparr>)) = None"
      using assms(3) by (auto simp: find_None_iff same image_iff)
    from store_report_cases [OF st] none have r: "r = new_report now rid key' claims v" "report_text_ok r"
      by (auto simp: same)
    from store_projects [OF st] obtain db2 where "project_feedback_signals now i r ?p ?mode db2 = Inr db'" ..
    from project_rest [OF this] have ok: "list_all signal_text_ok (report_signals i r ?p ?mode (approved_grant now i (fb_consent db2)))"
      using put_signals_ok by blast
    have sig: "signal_text_ok x" if "x \<in> set (report_signals i r ?p ?mode (approved_grant now i (fb_consent db2)))" for x
      using ok that by (simp add: list_all_iff)
    from assms(4) show False
    proof (elim disjE bexE exE conjE)
      assume "utf8_count (vp_summary v) < 8"
      with r show False by (simp add: new_report_def report_text_ok_def)
    next
      fix f assume f: "f \<in> set (vp_findings v)" "utf8_count (fi_detail f) < 3"
      have "f \<in> set (fr_findings r)" using f r by (simp add: new_report_def)
      then obtain n where n: "n < length (fr_findings r)" "fr_findings r ! n = f" by (auto simp: in_set_conv_nth)
      have "good_text 3 350 (fi_detail f)" using good f by (auto simp: list_all_iff good_finding_def)
      then have "clean (fi_detail f) 700 = fi_detail f" by (simp add: good_text_def clean_neat)
      moreover have "finding_signal i r ?p (collection_basis ?mode) (approved_grant now i (fb_consent db2)) n f
          \<in> set (report_signals i r ?p ?mode (approved_grant now i (fb_consent db2)))"
        using n unfolding in_report_signals by blast
      ultimately show False using f(2) sig by (fastforce simp: finding_signal_def signal_def signal_text_ok_def)
    next
      fix w d assume w: "vp_workaround v = Some w" "wi_detail w = Some d" "utf8_count d < 3"
      have "good_text 1 350 d" using good w by (auto simp: good_workaround_def)
      then have "clean d 700 = d" by (simp add: good_text_def clean_neat)
      moreover have "workaround_signal i r ?p (collection_basis ?mode) (approved_grant now i (fb_consent db2)) w
          \<in> set (report_signals i r ?p ?mode (approved_grant now i (fb_consent db2)))"
        using w r unfolding in_report_signals by (simp add: new_report_def)
      ultimately show False using w(2,3) sig by (fastforce simp: workaround_signal_def signal_def signal_text_ok_def)
    qed
  qed
qed

definition considered_report :: report_input where
  "considered_report = some_report\<lparr>pi_workaround := Some \<lparr>wi_used = False, wi_detail = Some ''no''\<rparr>\<rparr>"

lemma short_texts_are_valid_but_never_stored_witness:
  "is_ok (validated_report considered_report)
   \<and> \<not> is_ok (submit_product_feedback ask_codec sample_group_env 300000000 51 (cap_of ''61'') considered_report ask_approved ask_approved fresh_db)"
proof -
  have "(case validated_report considered_report of Inl e \<Rightarrow> False
      | Inr v \<Rightarrow> map_option wi_detail (vp_workaround v) = Some (Some ''no''))" by code_simp
  then obtain v w where v: "validated_report considered_report = Inr v" "vp_workaround v = Some w" "wi_detail w = Some ''no''"
    by (auto split: sum.splits)
  have "utf8_count ''no'' < 3" by code_simp
  with v short_texts_are_valid_but_never_stored [OF v(1) fresh_verified(1), of fresh_db sample_group_env 51 ask_approved]
  show ?thesis by (auto simp: fresh_db_def)
qed

section \<open>Consent asked every time\<close>

lemma always_grants_the_interaction:
  assumes "decided now ''ask_always'' e claims d db (t1, t2, True, t4, t5) db'"
  shows "(\<exists>g. grant_of e (interaction_subject (cl_i claims)) Share_Outcome db' = Some g \<and> gt_state g = Granted d)
    \<and> (\<forall>s. s \<noteq> interaction_subject (cl_i claims) \<longrightarrow> grant_of e s Share_Outcome db' = grant_of e s Share_Outcome db)
    \<and> (\<exists>x. decision_of e (cl_i claims) db' = Some x \<and> di_subject x = cl_s claims)"
  using assms
proof cases
  case (repeated x)
  then show ?thesis by (simp add: repeated_decision_def)
next
  case (always gid eid)
  note dual = dual_write_Inr [OF always(7)]
  then have "cb_decisions db' = cb_decisions (with_decision now e claims d db)" by blast
  from decision_of_cong [OF this, of e "cl_i claims"] decision_of_new [OF always(5), of e now d]
  have "\<exists>x. decision_of e (cl_i claims) db' = Some x \<and> di_subject x = cl_s claims" by simp
  with dual show ?thesis by auto
qed simp_all

text \<open>
  Where consent is asked every time, an approval given with a capability that names a subject is
  granted to the interaction's own subject, but the signals of its report look for a grant of the
  capability's subject: they carry no grant, although one stands.
\<close>

theorem an_approval_asked_every_time_may_go_unlinked:
  assumes "record_feedback_consent_decision codec now gid eid cap ''approved'' db = Inr (out, db')"
    "verified_capability codec now cap db = Inr (key, environment, claims)"
    "cb_modes db (ak_environment key) = ''ask_always''" "cl_s claims = Some s" "co_changed out"
    "grant_of (ak_environment key) s Share_Outcome db = None"
    "iv_environment i = ak_environment key" "iv_id i = cl_i claims"
  shows "map_option gt_state (grant_of (ak_environment key) (interaction_subject (cl_i claims)) Share_Outcome db')
      = Some (Granted Approved)
    \<and> approved_grant later i db' = None"
proof (rule record_decides [OF assms(1)])
  fix key' :: api_key_row and env' :: environment_row and claims' :: capability_claims and d st
  let ?e = "ak_environment key"
  assume r: "verified_capability codec now cap db = Inr (key', env', claims')" "decision_of_text ''approved'' = Some d"
    "decided now (cb_modes db (ak_environment key')) (ak_environment key') claims' d db st db'"
    "(co_decision out, co_decided_at out, co_changed out, co_action_allowed out, co_flipped_from out) = st"
  have same: "key' = key" "claims' = claims" "d = Approved" using r(1,2) assms(2) by (simp_all add: decision_of_text_def)
  have changed: "co_changed out = True" using assms(5) by simp
  note dec = always_grants_the_interaction [OF r(3) [unfolded same assms(3) r(4) [symmetric] changed]]
  have "valid_consent_subject s" using verified_subject [OF assms(2)] assms(4) by simp
  then have "s \<noteq> interaction_subject (cl_i claims)" using interaction_subject_not_valid by blast
  with dec assms(6) have none: "grant_of ?e s Share_Outcome db' = None" by simp
  obtain x where x: "decision_of ?e (cl_i claims) db' = Some x" "di_subject x = Some s" using dec assms(4) by auto
  have "find (\<lambda>g. of_grant ?e s Share_Outcome g \<and> gt_state g = Granted Approved \<and> opt_all (\<lambda>t. t > later) (gt_expires_at g))
      (cb_grants db') = None"
    using none by (auto simp: grant_of_def find_None_iff)
  then have "approved_grant later i db' = None" using x assms(7,8) by (simp add: approved_grant_def)
  with dec show ?thesis by auto
qed

definition ask_interaction :: interaction_row where
  "ask_interaction = \<lparr>iv_id = 6, iv_workspace = 1, iv_environment = 31, iv_key = 2, iv_session = None,
     iv_surface = ''mcp'', iv_operation = ''export'', iv_status_code = None, iv_customer = None,
     iv_classification = ''confirmed'', iv_confirmation = None, iv_nonce_hash = None, iv_runtime_hint = None,
     iv_occurred_at = 0, iv_updated_at = 0\<rparr>"

definition always_db :: consent_db where
  "always_db = ask_db\<lparr>cb_modes := \<lambda>_. ''ask_always''\<rparr>"

lemma an_approval_asked_every_time_may_go_unlinked_witness:
  "\<exists>out db'. record_feedback_consent_decision ask_codec 200000000 91 92 (cap_of ''61'') ''approved'' always_db = Inr (out, db')
     \<and> map_option gt_state (grant_of 31 (interaction_subject 6) Share_Outcome db') = Some (Granted Approved)
     \<and> approved_grant 300000000 ask_interaction db' = None"
proof -
  have v: "verified_capability ask_codec 200000000 (cap_of ''61'') always_db = Inr (ask_key, ask_environment, asked 6 None)"
    by code_simp
  have k: "ak_environment ask_key = 31" "cl_i (asked 6 None) = 6" "cl_s (asked 6 None) = Some asker"
    "cb_modes always_db 31 = ''ask_always''" "grant_of 31 asker Share_Outcome always_db = None"
    "iv_environment ask_interaction = 31" "iv_id ask_interaction = 6"
    by (simp_all add: ask_key_def asked_def asker_def grant_of_def ask_db_def always_db_def ask_interaction_def)
  have dec: "decide 200000000 ''ask_always'' 31 (asked 6 None) Approved always_db
      = Inr ((Some Approved, 200000000, True, True, None), with_decision 200000000 31 (asked 6 None) Approved always_db)"
    by (simp add: decide_def first_decision_def with_decision_def always_db_def ask_db_def)
  have "\<exists>db'. write_consent ask_codec 91 92 ''ask_always'' 31 (asked 6 None) (Some Approved, 200000000, True, True, None)
      (with_decision 200000000 31 (asked 6 None) Approved always_db) = Inr db'"
    by (simp add: write_consent_def dual_write_share_outcome_consent_def with_decision_def always_db_def ask_db_def
        ask_environment_def grant_of_def ask_codec_def codec0_def)
  then obtain db' where w: "write_consent ask_codec 91 92 ''ask_always'' 31 (asked 6 None)
      (Some Approved, 200000000, True, True, None)
      (with_decision 200000000 31 (asked 6 None) Approved always_db) = Inr db'" ..
  have "decision_of_text ''approved'' = Some Approved" by (simp add: decision_of_text_def)
  from record_runs [OF this v, unfolded k(1,4), OF _ dec w] obtain out where run:
    "record_feedback_consent_decision ask_codec 200000000 91 92 (cap_of ''61'') ''approved'' always_db = Inr (out, db')"
    "co_changed out" by auto
  have "map_option gt_state (grant_of 31 (interaction_subject 6) Share_Outcome db') = Some (Granted Approved)
     \<and> approved_grant 300000000 ask_interaction db' = None"
    by (rule an_approval_asked_every_time_may_go_unlinked
        [OF run(1) v, unfolded k(1,2), OF k(4,3) run(2) k(5-7)])
  with run(1) show ?thesis by blast
qed

end
