(* ===== verification/Destinations.thy ===== *)
theory Destinations
  imports Json ApiError Lease StoreText "HOL-Library.Product_Lexorder"
begin

text \<open>
  \<open>backend/src/destinations.rs\<close>: destinations that data of a team is exported to; their configuration,
  the sealing of their credentials, and the tables \<open>data_destinations\<close>,
  \<open>data_destination_sync_runs\<close> and \<open>data_destination_cursors\<close> with the claims on a destination.
  The URL parser, AES-GCM, SHA-256, \<open>serde_json\<close> and the \<open>Debug\<close> form of a string are arguments.
\<close>

section \<open>Kinds and streams\<close>

definition KIND_POSTGRES :: string where "KIND_POSTGRES = ''postgres''"
definition KIND_HTTP_NDJSON :: string where "KIND_HTTP_NDJSON = ''http_ndjson''"
definition ENABLED_KINDS :: "string list" where "ENABLED_KINDS = [KIND_POSTGRES, KIND_HTTP_NDJSON]"
definition STREAM_INTERACTIONS :: string where "STREAM_INTERACTIONS = ''interactions''"
definition STREAM_FEEDBACK_REPORTS :: string where "STREAM_FEEDBACK_REPORTS = ''feedback_reports''"
definition STREAMS :: "string list" where "STREAMS = [STREAM_INTERACTIONS, STREAM_FEEDBACK_REPORTS]"

definition EXPORT_BATCH_SIZE :: int where "EXPORT_BATCH_SIZE = 500"
definition EXPORT_RUN_ROW_CAP :: int where "EXPORT_RUN_ROW_CAP = 10000"
definition EXPORT_RUN_TIMEOUT :: time where "EXPORT_RUN_TIMEOUT = minutes 8"
definition DESTINATION_STALE_CLAIM_AGE :: time where "DESTINATION_STALE_CLAIM_AGE = minutes 10"
definition FAILURE_RETRY_DELAY :: time where "FAILURE_RETRY_DELAY = minutes 5"
definition SEAL_CONTEXT :: string where "SEAL_CONTEXT = ''epode-data-destination-credentials-v1''"
definition MAX_CREDENTIAL_VALUE_LENGTH :: nat where "MAX_CREDENTIAL_VALUE_LENGTH = 4096"

section \<open>Sealing of credentials\<close>

text \<open>The nonce is drawn by the caller: \<open>fill_bytes\<close> of the system's random numbers.\<close>

record cipher =
  ci_sha256 :: "string \<Rightarrow> string"
  ci_encrypt :: "string \<Rightarrow> string \<Rightarrow> string \<Rightarrow> string option"
  ci_decrypt :: "string \<Rightarrow> string \<Rightarrow> string \<Rightarrow> string option"
  ci_to_text :: "json \<Rightarrow> string option"
  ci_of_text :: "string \<Rightarrow> json option"

definition seal_key :: "cipher \<Rightarrow> string \<Rightarrow> string" where
  "seal_key c secret = ci_sha256 c (SEAL_CONTEXT @ secret)"

definition seal_credentials :: "cipher \<Rightarrow> string \<Rightarrow> string \<Rightarrow> json \<Rightarrow> string result" where
  "seal_credentials c nonce secret credentials =
     (case ci_to_text c credentials of
        None \<Rightarrow> Inl internal_error
      | Some plaintext \<Rightarrow>
          (case ci_encrypt c (seal_key c secret) nonce plaintext of
             None \<Rightarrow> Inl internal_error
           | Some ciphertext \<Rightarrow> Inr (nonce @ ciphertext)))"

type_synonym 'a export_result = "string + 'a"

definition unseal_credentials :: "cipher \<Rightarrow> string \<Rightarrow> string \<Rightarrow> json export_result" where
  "unseal_credentials c secret sealed =
     (if length sealed < 12 + 16 then Inl ''stored credentials are malformed; re-create the destination''
      else (case ci_decrypt c (seal_key c secret) (take 12 sealed) (drop 12 sealed) of
              None \<Rightarrow> Inl ''stored credentials could not be unsealed; re-create the destination''
            | Some plaintext \<Rightarrow>
                (case ci_of_text c plaintext of
                   None \<Rightarrow> Inl ''stored credentials are not valid JSON''
                 | Some v \<Rightarrow> Inr v)))"

section \<open>Validation\<close>

text \<open>\<open>char::is_control\<close> is true of U+0000 to U+001F and U+007F to U+009F.\<close>

fun has_control :: "string \<Rightarrow> bool" where
  "has_control [] \<longleftrightarrow> False"
| "has_control (c # s) \<longleftrightarrow> byte_val c < 32 \<or> byte_val c = 127
     \<or> (byte_val c = 194 \<and> s \<noteq> [] \<and> 128 \<le> byte_val (hd s) \<and> byte_val (hd s) \<le> 159) \<or> has_control s"

definition validate_destination_name :: "string \<Rightarrow> string result" where
  "validate_destination_name name =
     (let trimmed = trim name
      in if trimmed = [] \<or> utf8_count trimmed > 120 \<or> has_control trimmed
         then Inl (bad_request ''Destination name must be 1-120 characters without control characters'')
         else Inr trimmed)"

definition validate_kind :: "string \<Rightarrow> string result" where
  "validate_kind kind =
     (if kind \<in> set ENABLED_KINDS then Inr kind
      else Inl (bad_request (''Destination kind must be one of: '' @ join '', '' ENABLED_KINDS)))"

definition validate_sync_interval :: "int option \<Rightarrow> int result" where
  "validate_sync_interval secs =
     (let value = (case secs of None \<Rightarrow> 300 | Some s \<Rightarrow> s)
      in if value < 5 \<or> 86400 < value
         then Inl (bad_request ''Sync interval must be between 5 and 86400 seconds'')
         else Inr value)"

definition validate_schema_name :: "string \<Rightarrow> string result" where
  "validate_schema_name schema =
     (let trimmed = trim schema
      in if trimmed \<noteq> [] \<and> utf8_count trimmed \<le> 63 \<and> (is_alpha (hd trimmed) \<or> hd trimmed = CHR ''_'')
            \<and> list_all (\<lambda>c. is_alnum c \<or> c = CHR ''_'') trimmed
         then Inr trimmed
         else Inl (bad_request ''Schema must start with a letter or underscore and contain only letters, digits, and underscores''))"

text \<open>What the code reads of a parsed URL.\<close>

record parsed_url =
  pu_scheme :: string
  pu_host :: "string option"
  pu_username :: string
  pu_password :: "string option"
  pu_text :: string

text \<open>
  \<open>IpAddr::from_str(host).is_ok_and(is_loopback)\<close>.  The host of a URL writes an IPv6 address in
  brackets, which \<open>from_str\<close> does not read, so only a dotted IPv4 address of \<open>127.0.0.0/8\<close> counts.
\<close>

definition ipv4_part :: "string \<Rightarrow> nat option" where
  "ipv4_part s =
     (if s = [] \<or> length s > 3 \<or> \<not> list_all is_digit s \<or> (length s > 1 \<and> hd s = CHR ''0'') then None
      else (let n = foldl (\<lambda>n c. 10 * n + (byte_val c - 48)) 0 s in if n \<le> 255 then Some n else None))"

definition ipv4_loopback :: "string \<Rightarrow> bool" where
  "ipv4_loopback host =
     (let parts = map ipv4_part (split_on ((=) (CHR ''.'')) host)
      in length parts = 4 \<and> None \<notin> set parts \<and> hd parts = Some 127)"

definition validate_postgres_url :: "(string \<Rightarrow> parsed_url option) \<Rightarrow> string \<Rightarrow> string result" where
  "validate_postgres_url parse raw =
     (case parse raw of
        None \<Rightarrow> Inl (bad_request ''Connection URL is not a valid URL'')
      | Some url \<Rightarrow>
          if pu_scheme url \<noteq> ''postgres'' \<and> pu_scheme url \<noteq> ''postgresql''
          then Inl (bad_request ''Connection URL must use the postgres:// scheme'')
          else if pu_host url = None then Inl (bad_request ''Connection URL must include a host'')
          else if pu_password url \<noteq> None
          then Inl (bad_request ''Connection URL must not embed a password; pass it as the credentials password'')
          else Inr (pu_text url))"

definition validate_http_url :: "(string \<Rightarrow> parsed_url option) \<Rightarrow> string \<Rightarrow> string result" where
  "validate_http_url parse raw =
     (case parse raw of
        None \<Rightarrow> Inl (bad_request ''Collector URL is not a valid URL'')
      | Some url \<Rightarrow>
          (case pu_host url of
             None \<Rightarrow> Inl (bad_request ''Collector URL must include a host'')
           | Some host \<Rightarrow>
               (let loopback = (host = ''localhost'' \<or> ipv4_loopback host)
                in if pu_scheme url \<noteq> ''https'' \<and> \<not> (pu_scheme url = ''http'' \<and> loopback)
                   then Inl (bad_request ''Collector URL must use HTTPS (HTTP is allowed only for loopback development)'')
                   else if pu_username url \<noteq> [] \<or> pu_password url \<noteq> None
                   then Inl (bad_request ''Collector URL must not embed credentials; pass a token as the credentials token'')
                   else Inr (pu_text url))))"

definition RESERVED_HEADERS :: "string list" where
  "RESERVED_HEADERS = [''authorization'', ''content-type'', ''content-length'', ''host'']"

text \<open>\<open>dbg\<close> is the \<open>Debug\<close> form of a string, as \<open>format!\<close> prints it with \<open>{:?}\<close>.\<close>

fun validate_headers :: "(string \<Rightarrow> string) \<Rightarrow> (string \<times> string) list \<Rightarrow> unit result" where
  "validate_headers dbg [] = Inr ()"
| "validate_headers dbg ((name, value) # headers) =
     (if length name > 128 \<or> name = [] \<or> \<not> list_all (\<lambda>c. is_alnum c \<or> c = CHR ''-'') name
      then Inl (bad_request (''Header name '' @ dbg name @ '' is not a valid HTTP header name''))
      else if to_ascii_lowercase name \<in> set RESERVED_HEADERS
      then Inl (bad_request (''Header '' @ dbg name @ '' is managed by the destination transport''))
      else if length value > 1024 \<or> has_control value
      then Inl (bad_request (''Header '' @ dbg name @ '' has an invalid value''))
      else validate_headers dbg headers)"

definition validate_credential_value :: "string \<Rightarrow> string \<Rightarrow> string result" where
  "validate_credential_value value field =
     (if value = [] \<or> length value > MAX_CREDENTIAL_VALUE_LENGTH \<or> has_control value
      then Inl (bad_request (''Credential '' @ field @ '' must be 1-4096 characters without control characters''))
      else Inr value)"

record config_input =
  cf_connection_url :: "string option"
  cf_schema :: "string option"
  cf_url :: "string option"
  cf_headers :: "(string \<times> string) list option"

record credentials_input =
  cr_password :: "string option"
  cr_token :: "string option"

record normalized_destination =
  nd_config :: json
  nd_credentials :: "json option"

definition optional_credential :: "string option \<Rightarrow> string \<Rightarrow> (string option) result" where
  "optional_credential value field =
     (case value of None \<Rightarrow> Inr None
      | Some v \<Rightarrow> result_bind (validate_credential_value v field) (\<lambda>x. Inr (Some x)))"

definition normalize_destination ::
  "(string \<Rightarrow> parsed_url option) \<Rightarrow> (string \<Rightarrow> string) \<Rightarrow> string \<Rightarrow> config_input \<Rightarrow> credentials_input option
   \<Rightarrow> normalized_destination result" where
  "normalize_destination parse dbg kind config credentials =
     (if kind = KIND_POSTGRES
      then (if cf_url config \<noteq> None \<or> cf_headers config \<noteq> None
            then Inl (bad_request ''postgres destinations accept only connectionUrl and schema'')
            else if Option.bind credentials cr_token \<noteq> None
            then Inl (bad_request ''postgres destinations accept only a credentials password'')
            else (case cf_connection_url config of
                    None \<Rightarrow> Inl (bad_request ''connectionUrl is required'')
                  | Some raw \<Rightarrow>
                      result_bind (validate_postgres_url parse raw) (\<lambda>connection_url.
                      result_bind (validate_schema_name (case cf_schema config of None \<Rightarrow> ''public'' | Some s \<Rightarrow> s)) (\<lambda>schema.
                      result_bind (optional_credential (Option.bind credentials cr_password) ''password'') (\<lambda>password.
                        Inr \<lparr>nd_config = JObj [(''connectionUrl'', JStr connection_url), (''schema'', JStr schema)],
                             nd_credentials = map_option (\<lambda>v. JObj [(''password'', JStr v)]) password\<rparr>)))))
      else if kind = KIND_HTTP_NDJSON
      then (if cf_connection_url config \<noteq> None \<or> cf_schema config \<noteq> None
            then Inl (bad_request ''http_ndjson destinations accept only url and headers'')
            else if Option.bind credentials cr_password \<noteq> None
            then Inl (bad_request ''http_ndjson destinations accept only a credentials token'')
            else (case cf_url config of
                    None \<Rightarrow> Inl (bad_request ''url is required'')
                  | Some raw \<Rightarrow>
                      result_bind (validate_http_url parse raw) (\<lambda>url.
                      let headers = (case cf_headers config of None \<Rightarrow> [] | Some hs \<Rightarrow> hs)
                      in result_bind (validate_headers dbg headers) (\<lambda>_.
                         result_bind (optional_credential (Option.bind credentials cr_token) ''token'') (\<lambda>token.
                           Inr \<lparr>nd_config = JObj [(''url'', JStr url),
                                  (''headers'', JObj (map (\<lambda>(k, v). (k, JStr v)) headers))],
                                nd_credentials = map_option (\<lambda>v. JObj [(''token'', JStr v)]) token\<rparr>)))))
      else Inl (bad_request (''Destination kind '' @ dbg kind @ '' is not supported'')))"


section \<open>Tables\<close>

record destination_row =
  dd_id :: uuid
  dd_workspace :: uuid
  dd_name :: string
  dd_kind :: string
  dd_config :: json
  dd_sealed :: "string option"
  dd_enabled :: bool
  dd_interval :: int
  dd_next_sync_at :: time
  dd_claimed_at :: "time option"
  dd_claim_token :: "uuid option"
  dd_created_at :: time
  dd_updated_at :: time

record sync_run =
  sr_id :: uuid
  sr_destination :: uuid
  sr_workspace :: uuid
  sr_trigger :: string
  sr_status :: string
  sr_records :: int
  sr_error :: "string option"
  sr_started_at :: time
  sr_finished_at :: "time option"

record cursor_row =
  cu_destination :: uuid
  cu_stream :: string
  cu_record_at :: time
  cu_record_id :: uuid

text \<open>
  A row of one of the exported tables: its team, the columns of its key (\<open>updated_at\<close> of an interaction,
  \<open>created_at\<close> of a report, and the id), and the JSON of the exported columns.
\<close>

record export_row =
  xr_workspace :: uuid
  xr_at :: time
  xr_id :: uuid
  xr_record :: json

record destination_db =
  ds_destinations :: "destination_row list"
  ds_runs :: "sync_run list"
  ds_cursors :: "cursor_row list"
  ds_interactions :: "export_row list"
  ds_reports :: "export_row list"

section \<open>Listing, creating, updating, deleting\<close>

definition of_team :: "uuid \<Rightarrow> uuid \<Rightarrow> destination_row \<Rightarrow> bool" where
  "of_team workspace_id destination_id r \<longleftrightarrow> dd_id r = destination_id \<and> dd_workspace r = workspace_id"

definition newest_first :: "sync_run list \<Rightarrow> sync_run list" where
  "newest_first runs = sort_key (\<lambda>r. - sr_started_at r) runs"

definition last_run :: "uuid \<Rightarrow> destination_db \<Rightarrow> sync_run option" where
  "last_run destination_id db = find (\<lambda>r. sr_destination r = destination_id) (newest_first (ds_runs db))"

definition list_data_destinations :: "uuid \<Rightarrow> destination_db \<Rightarrow> (destination_row \<times> sync_run option) list" where
  "list_data_destinations workspace_id db =
     map (\<lambda>r. (r, last_run (dd_id r) db))
       (sort_key (\<lambda>r. (dd_created_at r, dd_id r)) (filter (\<lambda>r. dd_workspace r = workspace_id) (ds_destinations db)))"

record create_input =
  ce_name :: string
  ce_kind :: string
  ce_config :: config_input
  ce_credentials :: "credentials_input option"
  ce_interval :: "int option"

definition create_data_destination ::
  "cipher \<Rightarrow> (string \<Rightarrow> parsed_url option) \<Rightarrow> (string \<Rightarrow> string) \<Rightarrow> string \<Rightarrow> string \<Rightarrow> time \<Rightarrow> uuid \<Rightarrow> uuid
   \<Rightarrow> create_input \<Rightarrow> destination_db \<Rightarrow> (destination_row \<times> destination_db) result" where
  "create_data_destination c parse dbg nonce secret now new_id workspace_id input db =
     result_bind (validate_destination_name (ce_name input)) (\<lambda>name.
     result_bind (validate_kind (ce_kind input)) (\<lambda>kind.
     result_bind (validate_sync_interval (ce_interval input)) (\<lambda>interval.
     result_bind (normalize_destination parse dbg kind (ce_config input) (ce_credentials input)) (\<lambda>normalized.
     result_bind (case nd_credentials normalized of None \<Rightarrow> Inr None
                  | Some v \<Rightarrow> result_bind (seal_credentials c nonce secret v) (\<lambda>s. Inr (Some s))) (\<lambda>sealed.
       if \<exists>r \<in> set (ds_destinations db). dd_id r = new_id \<or> (dd_workspace r = workspace_id \<and> dd_name r = name)
       then Inl (bad_request ''A data destination with this name already exists for this team'')
       else (let row = \<lparr>dd_id = new_id, dd_workspace = workspace_id, dd_name = name, dd_kind = kind,
                        dd_config = nd_config normalized, dd_sealed = sealed, dd_enabled = True,
                        dd_interval = interval, dd_next_sync_at = now, dd_claimed_at = None, dd_claim_token = None,
                        dd_created_at = now, dd_updated_at = now\<rparr>
             in Inr (row, db\<lparr>ds_destinations := ds_destinations db @ [row]\<rparr>)))))))"

record update_input =
  ue_name :: "string option"
  ue_enabled :: "bool option"
  ue_interval :: "int option"

definition opt_result :: "('a \<Rightarrow> 'b result) \<Rightarrow> 'a option \<Rightarrow> ('b option) result" where
  "opt_result f v = (case v of None \<Rightarrow> Inr None | Some x \<Rightarrow> result_bind (f x) (\<lambda>y. Inr (Some y)))"

definition given :: "'a option \<Rightarrow> 'a \<Rightarrow> 'a" where
  "given v old = (case v of None \<Rightarrow> old | Some x \<Rightarrow> x)"

definition updated_destination ::
  "time \<Rightarrow> string option \<Rightarrow> bool option \<Rightarrow> int option \<Rightarrow> destination_row \<Rightarrow> destination_row" where
  "updated_destination now name enabled interval r =
     r\<lparr>dd_name := given name (dd_name r), dd_enabled := given enabled (dd_enabled r),
       dd_interval := given interval (dd_interval r),
       dd_next_sync_at := (if enabled = Some True \<or> interval \<noteq> None then now else dd_next_sync_at r),
       dd_updated_at := now\<rparr>"

text \<open>A name that another destination of the team has violates \<open>UNIQUE (workspace_id, name)\<close>.\<close>

definition update_data_destination ::
  "time \<Rightarrow> uuid \<Rightarrow> uuid \<Rightarrow> update_input \<Rightarrow> destination_db \<Rightarrow> (destination_row \<times> destination_db) result" where
  "update_data_destination now workspace_id destination_id input db =
     result_bind (opt_result validate_destination_name (ue_name input)) (\<lambda>name.
     result_bind (opt_result (\<lambda>s. validate_sync_interval (Some s)) (ue_interval input)) (\<lambda>interval.
       (case find (of_team workspace_id destination_id) (ds_destinations db) of
          None \<Rightarrow> Inl (not_found ''Data destination not found for this team'')
        | Some r \<Rightarrow>
            if name \<noteq> None \<and> (\<exists>x \<in> set (ds_destinations db). dd_workspace x = workspace_id
                 \<and> dd_id x \<noteq> destination_id \<and> Some (dd_name x) = name)
            then Inl internal_error
            else Inr (updated_destination now name (ue_enabled input) interval r,
                   db\<lparr>ds_destinations := update_where (of_team workspace_id destination_id)
                        (updated_destination now name (ue_enabled input) interval) (ds_destinations db)\<rparr>))))"

text \<open>\<open>ON DELETE CASCADE\<close> removes the runs and cursors with the destination.\<close>

definition delete_data_destination :: "uuid \<Rightarrow> uuid \<Rightarrow> destination_db \<Rightarrow> bool \<times> destination_db" where
  "delete_data_destination workspace_id destination_id db =
     (if list_ex (of_team workspace_id destination_id) (ds_destinations db)
      then (True, db\<lparr>ds_destinations := delete_where (of_team workspace_id destination_id) (ds_destinations db),
                     ds_runs := delete_where (\<lambda>r. sr_destination r = destination_id) (ds_runs db),
                     ds_cursors := delete_where (\<lambda>c. cu_destination c = destination_id) (ds_cursors db)\<rparr>)
      else (False, db))"

definition list_data_destination_runs ::
  "uuid \<Rightarrow> uuid \<Rightarrow> int \<Rightarrow> destination_db \<Rightarrow> (sync_run list) result" where
  "list_data_destination_runs workspace_id destination_id limit db =
     (if \<not> list_ex (of_team workspace_id destination_id) (ds_destinations db)
      then Inl (not_found ''Data destination not found for this team'')
      else Inr (take (nat (max 1 (min 100 limit)))
        (newest_first (filter (\<lambda>r. sr_destination r = destination_id \<and> sr_workspace r = workspace_id) (ds_runs db)))))"

section \<open>Claims and runs\<close>

record destination_job =
  dj_destination :: destination_row
  dj_claim_token :: uuid
  dj_run_id :: uuid

definition stale_destination :: "time \<Rightarrow> destination_row \<Rightarrow> bool" where
  "stale_destination stale_before r \<longleftrightarrow> (case dd_claimed_at r of None \<Rightarrow> False | Some t \<Rightarrow> t < stale_before)"

definition unclaimed :: "destination_row \<Rightarrow> destination_row" where
  "unclaimed r = r\<lparr>dd_claimed_at := None, dd_claim_token := None\<rparr>"

definition release_stale_rows :: "time \<Rightarrow> destination_row list \<Rightarrow> destination_row list" where
  "release_stale_rows stale_before = update_where (stale_destination stale_before) unclaimed"

definition abandoned_run :: "time \<Rightarrow> time \<Rightarrow> sync_run list \<Rightarrow> sync_run list" where
  "abandoned_run now stale_before =
     update_where (\<lambda>r. sr_status r = ''running'' \<and> sr_started_at r < stale_before)
       (\<lambda>r. r\<lparr>sr_status := ''failed'', sr_error := Some ''Sync worker restarted before the run finished'',
              sr_finished_at := Some now\<rparr>)"

definition release_stale_claims :: "time \<Rightarrow> time \<Rightarrow> destination_db \<Rightarrow> destination_db" where
  "release_stale_claims now stale_before db =
     db\<lparr>ds_destinations := release_stale_rows stale_before (ds_destinations db),
        ds_runs := abandoned_run now stale_before (ds_runs db)\<rparr>"

definition claimed_row :: "uuid \<Rightarrow> time \<Rightarrow> destination_row \<Rightarrow> destination_row" where
  "claimed_row token now r = r\<lparr>dd_claimed_at := Some now, dd_claim_token := Some token, dd_updated_at := now\<rparr>"

definition due :: "time \<Rightarrow> destination_row \<Rightarrow> bool" where
  "due now r \<longleftrightarrow> dd_enabled r \<and> dd_claimed_at r = None \<and> dd_next_sync_at r \<le> now"

text \<open>\<open>locked\<close> are the rows another transaction holds, which \<open>SKIP LOCKED\<close> leaves out.\<close>

definition next_due :: "time \<Rightarrow> (uuid \<Rightarrow> bool) \<Rightarrow> destination_row list \<Rightarrow> destination_row option" where
  "next_due now locked rows =
     (case sort_key (\<lambda>r. (dd_next_sync_at r, dd_id r)) (filter (\<lambda>r. due now r \<and> \<not> locked (dd_id r)) rows) of
        [] \<Rightarrow> None | r # _ \<Rightarrow> Some r)"

text \<open>The claim of a row and its run, in one transaction.\<close>

definition start_run ::
  "time \<Rightarrow> uuid \<Rightarrow> uuid \<Rightarrow> string \<Rightarrow> destination_row \<Rightarrow> destination_db \<Rightarrow> (destination_job \<times> destination_db) result" where
  "start_run now token run_id trigger r db =
     (if run_id \<in> sr_id ` set (ds_runs db) then Inl internal_error
      else Inr (\<lparr>dj_destination = claimed_row token now r, dj_claim_token = token, dj_run_id = run_id\<rparr>,
        db\<lparr>ds_destinations := update_where (\<lambda>x. dd_id x = dd_id r) (claimed_row token now) (ds_destinations db),
           ds_runs := ds_runs db @
             [\<lparr>sr_id = run_id, sr_destination = dd_id r, sr_workspace = dd_workspace r, sr_trigger = trigger,
               sr_status = ''running'', sr_records = 0, sr_error = None, sr_started_at = now, sr_finished_at = None\<rparr>]\<rparr>))"

text \<open>The release of stale claims commits before the claim.\<close>

definition claim_due_data_destination ::
  "time \<Rightarrow> uuid \<Rightarrow> uuid \<Rightarrow> (uuid \<Rightarrow> bool) \<Rightarrow> time \<Rightarrow> destination_db
   \<Rightarrow> (destination_job option) result \<times> destination_db" where
  "claim_due_data_destination now token run_id locked stale_before db =
     (let db1 = release_stale_claims now stale_before db
      in case next_due now locked (ds_destinations db1) of
           None \<Rightarrow> (Inr None, db1)
         | Some r \<Rightarrow> (case start_run now token run_id ''scheduled'' r db1 of
                       Inl e \<Rightarrow> (Inl e, db1) | Inr (job, db2) \<Rightarrow> (Inr (Some job), db2)))"

definition claim_data_destination_now ::
  "time \<Rightarrow> uuid \<Rightarrow> uuid \<Rightarrow> uuid \<Rightarrow> uuid \<Rightarrow> time \<Rightarrow> destination_db \<Rightarrow> destination_job result \<times> destination_db" where
  "claim_data_destination_now now token run_id workspace_id destination_id stale_before db =
     (let db1 = release_stale_claims now stale_before db
      in case find (\<lambda>r. of_team workspace_id destination_id r \<and> dd_claimed_at r = None) (ds_destinations db1) of
           None \<Rightarrow> (Inl (if list_ex (of_team workspace_id destination_id) (ds_destinations db1)
                         then conflict ''A sync is already in progress for this destination''
                         else not_found ''Data destination not found for this team''), db1)
         | Some r \<Rightarrow> (case start_run now token run_id ''manual'' r db1 of
                       Inl e \<Rightarrow> (Inl e, db1) | Inr (job, db2) \<Rightarrow> (Inr job, db2)))"

datatype run_outcome = Succeeded int | RunFailed string

definition next_sync_after :: "time \<Rightarrow> destination_row \<Rightarrow> run_outcome \<Rightarrow> time" where
  "next_sync_after now r outcome =
     (case outcome of Succeeded n \<Rightarrow> now + seconds (dd_interval r) | RunFailed e \<Rightarrow> now + FAILURE_RETRY_DELAY)"

definition finished_run :: "time \<Rightarrow> run_outcome \<Rightarrow> sync_run \<Rightarrow> sync_run" where
  "finished_run now outcome r =
     (case outcome of
        Succeeded n \<Rightarrow> r\<lparr>sr_status := ''succeeded'', sr_records := n, sr_error := None, sr_finished_at := Some now\<rparr>
      | RunFailed e \<Rightarrow> r\<lparr>sr_status := ''failed'', sr_records := 0, sr_error := Some (utf8_take 500 e), sr_finished_at := Some now\<rparr>)"

definition free_claim :: "time \<Rightarrow> uuid \<Rightarrow> uuid \<Rightarrow> time \<Rightarrow> destination_row list \<Rightarrow> destination_row list" where
  "free_claim now destination_id token next_sync_at =
     update_where (\<lambda>r. dd_id r = destination_id \<and> dd_claim_token r = Some token)
       (\<lambda>r. (unclaimed r)\<lparr>dd_next_sync_at := next_sync_at, dd_updated_at := now\<rparr>)"

definition finish_data_destination_run ::
  "time \<Rightarrow> destination_job \<Rightarrow> run_outcome \<Rightarrow> destination_db \<Rightarrow> destination_db" where
  "finish_data_destination_run now job outcome db =
     db\<lparr>ds_runs := update_where (\<lambda>r. sr_id r = dj_run_id job \<and> sr_destination r = dd_id (dj_destination job)
                        \<and> sr_status r = ''running'') (finished_run now outcome) (ds_runs db),
        ds_destinations := free_claim now (dd_id (dj_destination job)) (dj_claim_token job)
                        (next_sync_after now (dj_destination job) outcome) (ds_destinations db)\<rparr>"

section \<open>Cursors and pages\<close>

definition of_cursor :: "uuid \<Rightarrow> string \<Rightarrow> cursor_row \<Rightarrow> bool" where
  "of_cursor destination_id stream c \<longleftrightarrow> cu_destination c = destination_id \<and> cu_stream c = stream"

definition read_cursor :: "uuid \<Rightarrow> string \<Rightarrow> destination_db \<Rightarrow> time \<times> uuid" where
  "read_cursor destination_id stream db =
     (case find (of_cursor destination_id stream) (ds_cursors db) of
        None \<Rightarrow> (0, 0) | Some c \<Rightarrow> (cu_record_at c, cu_record_id c))"

definition stored_cursor :: "uuid \<Rightarrow> string \<Rightarrow> time \<times> uuid \<Rightarrow> cursor_row list \<Rightarrow> cursor_row list" where
  "stored_cursor destination_id stream key cs =
     (if list_ex (of_cursor destination_id stream) cs
      then update_where (of_cursor destination_id stream) (\<lambda>c. c\<lparr>cu_record_at := fst key, cu_record_id := snd key\<rparr>) cs
      else cs @ [\<lparr>cu_destination = destination_id, cu_stream = stream, cu_record_at = fst key,
                  cu_record_id = snd key\<rparr>])"

text \<open>The cursor of a destination that was deleted in the meantime has nothing to refer to.\<close>

definition advance_cursor :: "uuid \<Rightarrow> string \<Rightarrow> time \<times> uuid \<Rightarrow> destination_db \<Rightarrow> destination_db result" where
  "advance_cursor destination_id stream key db =
     (if destination_id \<notin> dd_id ` set (ds_destinations db) then Inl internal_error
      else Inr (db\<lparr>ds_cursors := stored_cursor destination_id stream key (ds_cursors db)\<rparr>))"

definition stream_rows :: "string \<Rightarrow> destination_db \<Rightarrow> export_row list" where
  "stream_rows stream db = (if stream = STREAM_INTERACTIONS then ds_interactions db else ds_reports db)"

definition export_key :: "export_row \<Rightarrow> time \<times> uuid" where
  "export_key r = (xr_at r, xr_id r)"

definition fetch_export_batch ::
  "uuid \<Rightarrow> string \<Rightarrow> time \<times> uuid \<Rightarrow> int \<Rightarrow> destination_db \<Rightarrow> export_row list export_result" where
  "fetch_export_batch workspace_id stream cursor limit db =
     (if stream \<noteq> STREAM_INTERACTIONS \<and> stream \<noteq> STREAM_FEEDBACK_REPORTS
      then Inl (err_message internal_error)
      else Inr (take (nat limit) (sort_key export_key
        (filter (\<lambda>r. xr_workspace r = workspace_id \<and> cursor < export_key r) (stream_rows stream db)))))"

end
