(* ===== verification/DestinationClaims.thy ===== *)
theory DestinationClaims
  imports Destinations
begin

text \<open>
  The claims on destinations and their runs: all statements of any number of workers and dashboards
  as events on the tables, the invariant that ties claims to running runs, and the interpretation of
  the lease contract.
\<close>

section \<open>Events\<close>

text \<open>
  Everything that writes the destinations or their runs besides the end of a run.  The instants,
  tokens and ids are drawn by the caller.
\<close>

datatype destination_event =
    ClaimDue time uuid uuid "uuid \<Rightarrow> bool" time
  | ClaimNow time uuid uuid uuid uuid time
  | CreateDestination destination_row
  | UpdateDestination time uuid uuid update_input
  | DeleteDestination uuid uuid

type_synonym claims_state = "destination_db \<times> destination_job list"

definition event_ids :: "destination_event \<Rightarrow> (uuid \<times> uuid) option" where
  "event_ids e = (case e of ClaimDue _ token run_id _ _ \<Rightarrow> Some (token, run_id)
     | ClaimNow _ token run_id _ _ _ \<Rightarrow> Some (token, run_id) | _ \<Rightarrow> None)"

definition fresh_ids :: "destination_event \<Rightarrow> destination_job list \<Rightarrow> bool" where
  "fresh_ids e jobs \<longleftrightarrow> (case event_ids e of None \<Rightarrow> True
     | Some (token, run_id) \<Rightarrow> token \<notin> dj_claim_token ` set jobs \<and> run_id \<notin> dj_run_id ` set jobs)"

text \<open>The second component collects every job that was ever handed out, newest first.\<close>

fun do_event :: "destination_event \<Rightarrow> claims_state \<Rightarrow> claims_state result" where
  "do_event (ClaimDue now token run_id locked stale_before) (db, jobs) =
     (if \<not> fresh_ids (ClaimDue now token run_id locked stale_before) jobs then Inl internal_error
      else (case claim_due_data_destination now token run_id locked stale_before db of
        (Inr (Some job), db') \<Rightarrow> Inr (db', job # jobs) | (_, db') \<Rightarrow> Inr (db', jobs)))"
| "do_event (ClaimNow now token run_id workspace_id destination_id stale_before) (db, jobs) =
     (if \<not> fresh_ids (ClaimNow now token run_id workspace_id destination_id stale_before) jobs then Inl internal_error
      else (case claim_data_destination_now now token run_id workspace_id destination_id stale_before db of
        (Inr job, db') \<Rightarrow> Inr (db', job # jobs) | (_, db') \<Rightarrow> Inr (db', jobs)))"
| "do_event (CreateDestination r) (db, jobs) =
     (if dd_claimed_at r \<noteq> None \<or> dd_claim_token r \<noteq> None \<or> dd_id r \<in> dd_id ` set (ds_destinations db)
      then Inl internal_error
      else Inr (db\<lparr>ds_destinations := ds_destinations db @ [r]\<rparr>, jobs))"
| "do_event (UpdateDestination now workspace_id destination_id input) (db, jobs) =
     (case update_data_destination now workspace_id destination_id input db of
        Inl e \<Rightarrow> Inl e | Inr (_, db') \<Rightarrow> Inr (db', jobs))"
| "do_event (DeleteDestination workspace_id destination_id) (db, jobs) =
     Inr (snd (delete_data_destination workspace_id destination_id db), jobs)"

section \<open>The invariant\<close>

text \<open>A claimed row, the run that the claim started, and the job that was handed out for it.\<close>

definition linked :: "destination_row \<Rightarrow> sync_run \<Rightarrow> destination_job \<Rightarrow> bool" where
  "linked d r job \<longleftrightarrow> sr_id r = dj_run_id job \<and> sr_destination r = dd_id (dj_destination job)
     \<and> dd_id d = dd_id (dj_destination job) \<and> dd_claim_token d = Some (dj_claim_token job)
     \<and> sr_status r = ''running'' \<and> dd_claimed_at d = Some (sr_started_at r)"

definition claims_keyed :: "claims_state \<Rightarrow> bool" where
  "claims_keyed st \<longleftrightarrow> distinct (map dd_id (ds_destinations (fst st))) \<and> distinct (map sr_id (ds_runs (fst st)))
     \<and> distinct (map dj_claim_token (snd st)) \<and> distinct (map dj_run_id (snd st))"

definition claims_linked :: "claims_state \<Rightarrow> bool" where
  "claims_linked st \<longleftrightarrow>
     (\<forall>d \<in> set (ds_destinations (fst st)). dd_claimed_at d = None \<longleftrightarrow> dd_claim_token d = None)
     \<and> (\<forall>r \<in> set (ds_runs (fst st)). sr_status r = ''running'' \<longrightarrow>
          (\<exists>job \<in> set (snd st). \<exists>d \<in> set (ds_destinations (fst st)). linked d r job))
     \<and> (\<forall>d \<in> set (ds_destinations (fst st)). dd_claim_token d \<noteq> None \<longrightarrow>
          (\<exists>job \<in> set (snd st). \<exists>r \<in> set (ds_runs (fst st)). linked d r job))"

definition claims_ok :: "claims_state \<Rightarrow> bool" where
  "claims_ok st \<longleftrightarrow> claims_keyed st \<and> claims_linked st"

lemma linked_jobs:
  assumes "claims_keyed (db, jobs)" and "job \<in> set jobs" and "job' \<in> set jobs"
  shows "dj_claim_token job = dj_claim_token job' \<Longrightarrow> job = job'" and "dj_run_id job = dj_run_id job' \<Longrightarrow> job = job'"
  using assms by (auto simp: claims_keyed_def distinct_map dest: inj_onD)

lemma same_row:
  assumes "claims_keyed (db, jobs)" and "d \<in> set (ds_destinations db)" and "d' \<in> set (ds_destinations db)"
    and "dd_id d = dd_id d'"
  shows "d = d'"
  using assms by (auto simp: claims_keyed_def distinct_map dest: inj_onD)

lemma linked_run:
  assumes "claims_linked (db, jobs)" and "r \<in> set (ds_runs db)" and "sr_status r = ''running''"
  obtains job d where "job \<in> set jobs" "d \<in> set (ds_destinations db)" "linked d r job"
  using assms by (auto simp: claims_linked_def)

lemma linked_row:
  assumes "claims_linked (db, jobs)" and "d \<in> set (ds_destinations db)" and "dd_claim_token d \<noteq> None"
  obtains job r where "job \<in> set jobs" "r \<in> set (ds_runs db)" "linked d r job"
  using assms unfolding claims_linked_def by auto

lemma unclaimed_row:
  "claims_linked (db, jobs) \<Longrightarrow> d \<in> set (ds_destinations db) \<Longrightarrow> (dd_claimed_at d = None) = (dd_claim_token d = None)"
  by (auto simp: claims_linked_def)

text \<open>How to show that the links hold in a changed state.\<close>

lemma claims_linkedI:
  assumes "\<And>d. d \<in> set (ds_destinations db) \<Longrightarrow> (dd_claimed_at d = None) = (dd_claim_token d = None)"
    and "\<And>r. r \<in> set (ds_runs db) \<Longrightarrow> sr_status r = ''running''
          \<Longrightarrow> \<exists>job \<in> set jobs. \<exists>d \<in> set (ds_destinations db). linked d r job"
    and "\<And>d. d \<in> set (ds_destinations db) \<Longrightarrow> dd_claim_token d \<noteq> None
          \<Longrightarrow> \<exists>job \<in> set jobs. \<exists>r \<in> set (ds_runs db). linked d r job"
  shows "claims_linked (db, jobs)"
  using assms by (simp add: claims_linked_def)

lemma release_ok:
  assumes "claims_ok (db, jobs)"
  shows "claims_ok (release_stale_claims now sb db, jobs)"
proof -
  let ?db = "release_stale_claims now sb db"
  have k: "claims_keyed (db, jobs)" and l: "claims_linked (db, jobs)" using assms by (auto simp: claims_ok_def)
  have "claims_keyed (?db, jobs)"
    using k by (simp add: claims_keyed_def release_stale_claims_def release_stale_rows_def abandoned_run_def
        unclaimed_def update_where_keys)
  moreover have "claims_linked (?db, jobs)"
  proof (rule claims_linkedI)
    fix d assume "d \<in> set (ds_destinations ?db)"
    then show "(dd_claimed_at d = None) = (dd_claim_token d = None)"
      using unclaimed_row [OF l]
      by (auto simp: release_stale_claims_def release_stale_rows_def set_update_where unclaimed_def)
  next
    fix r assume r: "r \<in> set (ds_runs ?db)" "sr_status r = ''running''"
    then have o: "r \<in> set (ds_runs db)" "\<not> sr_started_at r < sb"
      by (auto simp: release_stale_claims_def abandoned_run_def set_update_where)
    from linked_run [OF l o(1) r(2)] obtain job d where
      j: "job \<in> set jobs" "d \<in> set (ds_destinations db)" "linked d r job" .
    then have "d \<in> set (ds_destinations ?db)" using o(2)
      by (auto simp: release_stale_claims_def release_stale_rows_def set_update_where stale_destination_def linked_def)
    with j show "\<exists>job \<in> set jobs. \<exists>d \<in> set (ds_destinations ?db). linked d r job" by blast
  next
    fix d assume d: "d \<in> set (ds_destinations ?db)" "dd_claim_token d \<noteq> None"
    then have o: "d \<in> set (ds_destinations db)" "\<not> stale_destination sb d"
      by (auto simp: release_stale_claims_def release_stale_rows_def set_update_where unclaimed_def)
    from linked_row [OF l o(1) d(2)] obtain job r where
      j: "job \<in> set jobs" "r \<in> set (ds_runs db)" "linked d r job" .
    then have "r \<in> set (ds_runs ?db)" using o(2)
      by (auto simp: release_stale_claims_def abandoned_run_def set_update_where stale_destination_def linked_def)
    with j show "\<exists>job \<in> set jobs. \<exists>r \<in> set (ds_runs ?db). linked d r job" by blast
  qed
  ultimately show ?thesis by (simp add: claims_ok_def)
qed

lemma start_run_ok:
  assumes "claims_ok (db, jobs)" and "r0 \<in> set (ds_destinations db)" and "dd_claimed_at r0 = None"
    and fresh: "token \<notin> dj_claim_token ` set jobs" "run_id \<notin> dj_run_id ` set jobs"
    and run: "start_run now token run_id trigger r0 db = Inr (job0, db')"
  shows "claims_ok (db', job0 # jobs)"
proof -
  have k: "claims_keyed (db, jobs)" and l: "claims_linked (db, jobs)" using assms(1) by (auto simp: claims_ok_def)
  let ?new = "\<lparr>sr_id = run_id, sr_destination = dd_id r0, sr_workspace = dd_workspace r0, sr_trigger = trigger,
               sr_status = ''running'', sr_records = 0, sr_error = None, sr_started_at = now, sr_finished_at = None\<rparr>"
  have n: "run_id \<notin> sr_id ` set (ds_runs db)"
    and db': "ds_destinations db' = update_where (\<lambda>x. dd_id x = dd_id r0) (claimed_row token now) (ds_destinations db)"
      "ds_runs db' = ds_runs db @ [?new]"
    and job0: "job0 = \<lparr>dj_destination = claimed_row token now r0, dj_claim_token = token, dj_run_id = run_id\<rparr>"
    using run by (auto simp: start_run_def split: if_splits)
  have dests: "set (ds_destinations db') = {d \<in> set (ds_destinations db). dd_id d \<noteq> dd_id r0} \<union> {claimed_row token now r0}"
    unfolding db' set_update_where using same_row [OF k _ assms(2)] assms(2) by auto
  have link0: "linked (claimed_row token now r0) ?new job0" by (simp add: linked_def job0 claimed_row_def)
  have "claims_keyed (db', job0 # jobs)"
    using k fresh n by (auto simp: claims_keyed_def db' job0 update_where_keys claimed_row_def)
  moreover have "claims_linked (db', job0 # jobs)"
  proof (rule claims_linkedI)
    fix d assume "d \<in> set (ds_destinations db')"
    then show "(dd_claimed_at d = None) = (dd_claim_token d = None)"
      using unclaimed_row [OF l] by (auto simp: dests claimed_row_def)
  next
    fix r assume r: "r \<in> set (ds_runs db')" "sr_status r = ''running''"
    show "\<exists>job \<in> set (job0 # jobs). \<exists>d \<in> set (ds_destinations db'). linked d r job"
    proof (cases "r \<in> set (ds_runs db)")
      case True
      from linked_run [OF l True r(2)] obtain job d where
        j: "job \<in> set jobs" "d \<in> set (ds_destinations db)" "linked d r job" .
      then have "dd_id d \<noteq> dd_id r0"
        using same_row [OF k j(2) assms(2)] assms(3) by (auto simp: linked_def)
      with j show ?thesis by (auto simp: dests)
    next
      case False
      with r db'(2) link0 show ?thesis by (auto simp: dests)
    qed
  next
    fix d assume d: "d \<in> set (ds_destinations db')" "dd_claim_token d \<noteq> None"
    show "\<exists>job \<in> set (job0 # jobs). \<exists>r \<in> set (ds_runs db'). linked d r job"
    proof (cases "d = claimed_row token now r0")
      case True
      with link0 show ?thesis by (auto simp: db'(2))
    next
      case False
      with d dests have o: "d \<in> set (ds_destinations db)" by auto
      from linked_row [OF l o d(2)] show ?thesis by (auto simp: db'(2))
    qed
  qed
  ultimately show ?thesis by (simp add: claims_ok_def)
qed

lemma finish_ok:
  assumes "claims_ok (db, jobs)" and "job \<in> set jobs"
  shows "claims_ok (finish_data_destination_run now job outcome db, jobs)"
proof -
  let ?db = "finish_data_destination_run now job outcome db"
  have k: "claims_keyed (db, jobs)" and l: "claims_linked (db, jobs)" using assms(1) by (auto simp: claims_ok_def)
  have fr: "sr_id (finished_run now outcome r) = sr_id r" "sr_status (finished_run now outcome r) \<noteq> ''running''" for r
    by (auto simp: finished_run_def split: run_outcome.splits)
  have "claims_keyed (?db, jobs)"
    using k by (simp add: claims_keyed_def finish_data_destination_run_def free_claim_def unclaimed_def
        update_where_keys fr)
  moreover have "claims_linked (?db, jobs)"
  proof (rule claims_linkedI)
    fix d assume "d \<in> set (ds_destinations ?db)"
    then show "(dd_claimed_at d = None) = (dd_claim_token d = None)"
      using unclaimed_row [OF l]
      by (auto simp: finish_data_destination_run_def free_claim_def set_update_where unclaimed_def)
  next
    fix r assume r: "r \<in> set (ds_runs ?db)" "sr_status r = ''running''"
    then have o: "r \<in> set (ds_runs db)" "\<not> (sr_id r = dj_run_id job \<and> sr_destination r = dd_id (dj_destination job))"
      using fr(2) by (auto simp: finish_data_destination_run_def set_update_where)
    from linked_run [OF l o(1) r(2)] obtain j d where
      j: "j \<in> set jobs" "d \<in> set (ds_destinations db)" "linked d r j" .
    then have "\<not> (dd_id d = dd_id (dj_destination job) \<and> dd_claim_token d = Some (dj_claim_token job))"
      using o(2) linked_jobs(1) [OF k j(1) assms(2)] by (auto simp: linked_def)
    then have "d \<in> set (ds_destinations ?db)" using j(2)
      by (auto simp: finish_data_destination_run_def free_claim_def set_update_where)
    with j show "\<exists>job \<in> set jobs. \<exists>d \<in> set (ds_destinations ?db). linked d r job" by blast
  next
    fix d assume d: "d \<in> set (ds_destinations ?db)" "dd_claim_token d \<noteq> None"
    then have o: "d \<in> set (ds_destinations db)"
        "\<not> (dd_id d = dd_id (dj_destination job) \<and> dd_claim_token d = Some (dj_claim_token job))"
      by (auto simp: finish_data_destination_run_def free_claim_def set_update_where unclaimed_def)
    from linked_row [OF l o(1) d(2)] obtain j r where
      j: "j \<in> set jobs" "r \<in> set (ds_runs db)" "linked d r j" .
    then have "\<not> (sr_id r = dj_run_id job \<and> sr_destination r = dd_id (dj_destination job))"
      using o(2) linked_jobs(2) [OF k j(1) assms(2)] by (auto simp: linked_def)
    then have "r \<in> set (ds_runs ?db)" using j(2)
      by (auto simp: finish_data_destination_run_def set_update_where)
    with j show "\<exists>job \<in> set jobs. \<exists>r \<in> set (ds_runs ?db). linked d r job" by blast
  qed
  ultimately show ?thesis by (simp add: claims_ok_def)
qed

text \<open>A run whose claim is gone was given up as well: its end changes nothing.\<close>

lemma finish_lost:
  assumes "claims_ok (db, jobs)" and "job \<in> set jobs"
    and "\<forall>d \<in> set (ds_destinations db). \<not> (dd_id d = dd_id (dj_destination job) \<and> dd_claim_token d = Some (dj_claim_token job))"
  shows "finish_data_destination_run now job outcome db = db"
proof -
  have k: "claims_keyed (db, jobs)" and l: "claims_linked (db, jobs)" using assms(1) by (auto simp: claims_ok_def)
  have "\<not> (sr_id r = dj_run_id job \<and> sr_destination r = dd_id (dj_destination job) \<and> sr_status r = ''running'')"
    if r: "r \<in> set (ds_runs db)" for r
  proof
    assume a: "sr_id r = dj_run_id job \<and> sr_destination r = dd_id (dj_destination job) \<and> sr_status r = ''running''"
    then obtain j d where j: "j \<in> set jobs" "d \<in> set (ds_destinations db)" "linked d r j"
      using linked_run [OF l r] by blast
    then have "j = job" using a linked_jobs(2) [OF k j(1) assms(2)] by (simp add: linked_def)
    with j assms(3) show False by (auto simp: linked_def)
  qed
  then show ?thesis
    using assms(3) by (simp add: finish_data_destination_run_def free_claim_def update_where_id)
qed

lemma next_due_row:
  assumes "next_due now locked rows = Some r"
  shows "r \<in> set rows" and "dd_claimed_at r = None"
proof -
  have "r \<in> set (sort_key (\<lambda>r. (dd_next_sync_at r, dd_id r)) (filter (\<lambda>r. due now r \<and> \<not> locked (dd_id r)) rows))"
    using assms by (auto simp: next_due_def simp del: set_sort split: list.splits)
  then show "r \<in> set rows" and "dd_claimed_at r = None" by (auto simp: due_def)
qed

lemma claim_due_ok:
  assumes "claims_ok (db, jobs)" and "token \<notin> dj_claim_token ` set jobs" "run_id \<notin> dj_run_id ` set jobs"
    and "claim_due_data_destination now token run_id locked sb db = (res, db')"
  shows "claims_ok (db', case res of Inr (Some job) \<Rightarrow> job # jobs | _ \<Rightarrow> jobs)"
    and "res = Inr (Some job) \<Longrightarrow> dj_claim_token job = token"
proof -
  let ?db = "release_stale_claims now sb db"
  note ok = release_ok [OF assms(1), of now sb]
  have "claims_ok (db', case res of Inr (Some job) \<Rightarrow> job # jobs | _ \<Rightarrow> jobs)
    \<and> (res = Inr (Some job) \<longrightarrow> dj_claim_token job = token)"
  proof (cases "next_due now locked (ds_destinations ?db)")
    case None
    with assms(4) ok show ?thesis by (auto simp: claim_due_data_destination_def Let_def)
  next
    case (Some r)
    note r = next_due_row [OF Some]
    show ?thesis
    proof (cases "start_run now token run_id ''scheduled'' r ?db")
      case (Inl e)
      with assms(4) ok Some show ?thesis by (auto simp: claim_due_data_destination_def Let_def)
    next
      case (Inr x)
      then obtain j db2 where s: "start_run now token run_id ''scheduled'' r ?db = Inr (j, db2)" by (cases x) simp
      then have "dj_claim_token j = token" by (auto simp: start_run_def split: if_splits)
      with assms(4) start_run_ok [OF ok r assms(2,3) s] s Some show ?thesis
        by (auto simp: claim_due_data_destination_def Let_def)
    qed
  qed
  then show "claims_ok (db', case res of Inr (Some job) \<Rightarrow> job # jobs | _ \<Rightarrow> jobs)"
    and "res = Inr (Some job) \<Longrightarrow> dj_claim_token job = token" by blast+
qed

lemma claim_now_ok:
  assumes "claims_ok (db, jobs)" and "token \<notin> dj_claim_token ` set jobs" "run_id \<notin> dj_run_id ` set jobs"
    and "claim_data_destination_now now token run_id workspace_id destination_id sb db = (res, db')"
  shows "claims_ok (db', case res of Inr job \<Rightarrow> job # jobs | Inl e \<Rightarrow> jobs)"
    and "res = Inr job \<Longrightarrow> dj_claim_token job = token"
proof -
  let ?db = "release_stale_claims now sb db"
  note ok = release_ok [OF assms(1), of now sb]
  have "claims_ok (db', case res of Inr job \<Rightarrow> job # jobs | Inl e \<Rightarrow> jobs)
    \<and> (res = Inr job \<longrightarrow> dj_claim_token job = token)"
  proof (cases "find (\<lambda>r. of_team workspace_id destination_id r \<and> dd_claimed_at r = None) (ds_destinations ?db)")
    case None
    with assms(4) ok show ?thesis by (auto simp: claim_data_destination_now_def Let_def)
  next
    case (Some r)
    then have r: "r \<in> set (ds_destinations ?db)" "dd_claimed_at r = None" by (auto simp: find_Some_iff)
    show ?thesis
    proof (cases "start_run now token run_id ''manual'' r ?db")
      case (Inl e)
      with assms(4) ok Some show ?thesis by (auto simp: claim_data_destination_now_def Let_def)
    next
      case (Inr x)
      then obtain j db2 where s: "start_run now token run_id ''manual'' r ?db = Inr (j, db2)" by (cases x) simp
      then have "dj_claim_token j = token" by (auto simp: start_run_def split: if_splits)
      with assms(4) start_run_ok [OF ok r assms(2,3) s] s Some show ?thesis
        by (auto simp: claim_data_destination_now_def Let_def)
    qed
  qed
  then show "claims_ok (db', case res of Inr job \<Rightarrow> job # jobs | Inl e \<Rightarrow> jobs)"
    and "res = Inr job \<Longrightarrow> dj_claim_token job = token" by blast+
qed

lemma create_ok:
  assumes "claims_ok (db, jobs)" and "dd_claimed_at r = None" "dd_claim_token r = None"
    and "dd_id r \<notin> dd_id ` set (ds_destinations db)"
  shows "claims_ok (db\<lparr>ds_destinations := ds_destinations db @ [r]\<rparr>, jobs)"
  using assms by (auto simp: claims_ok_def claims_keyed_def claims_linked_def) blast

lemma update_shape:
  assumes "update_data_destination now w i input db = Inr (r, db')"
  obtains u where "ds_runs db' = ds_runs db" "ds_destinations db' = map u (ds_destinations db)"
    "\<And>d. dd_id (u d) = dd_id d" "\<And>d. dd_claimed_at (u d) = dd_claimed_at d"
    "\<And>d. dd_claim_token (u d) = dd_claim_token d"
proof -
  obtain name interval where db': "ds_runs db' = ds_runs db"
      "ds_destinations db' = update_where (of_team w i) (updated_destination now name (ue_enabled input) interval) (ds_destinations db)"
    using assms by (auto simp: update_data_destination_def result_bind_Inr split: option.splits if_splits)
  show ?thesis
    by (rule that [of "\<lambda>d. if of_team w i d then updated_destination now name (ue_enabled input) interval d else d"])
      (simp_all add: db' update_where_def updated_destination_def)
qed

lemma update_ok:
  assumes "claims_ok (db, jobs)" and "update_data_destination now w i input db = Inr (r, db')"
  shows "claims_ok (db', jobs)"
proof -
  have k: "claims_keyed (db, jobs)" and l: "claims_linked (db, jobs)" using assms(1) by (auto simp: claims_ok_def)
  from update_shape [OF assms(2)] obtain u where db': "ds_runs db' = ds_runs db"
    and dests: "ds_destinations db' = map u (ds_destinations db)"
    and same: "\<And>d. dd_id (u d) = dd_id d" "\<And>d. dd_claimed_at (u d) = dd_claimed_at d"
      "\<And>d. dd_claim_token (u d) = dd_claim_token d" by metis
  have u: "dd_id (u d) = dd_id d" "dd_claimed_at (u d) = dd_claimed_at d" "dd_claim_token (u d) = dd_claim_token d"
    "linked (u d) r j = linked d r j" for d r j
    by (simp_all add: same linked_def)
  have "claims_keyed (db', jobs)"
    using k by (simp add: claims_keyed_def db' dests o_def u(1))
  moreover have "claims_linked (db', jobs)"
    using l unfolding claims_linked_def by (simp add: db' dests u)
  ultimately show ?thesis by (simp add: claims_ok_def)
qed

lemma delete_ok:
  assumes "claims_ok (db, jobs)"
  shows "claims_ok (snd (delete_data_destination w i db), jobs)"
proof (cases "list_ex (of_team w i) (ds_destinations db)")
  case True
  let ?db = "snd (delete_data_destination w i db)"
  have k: "claims_keyed (db, jobs)" and l: "claims_linked (db, jobs)" using assms(1) by (auto simp: claims_ok_def)
  have db': "ds_destinations ?db = delete_where (of_team w i) (ds_destinations db)"
      "ds_runs ?db = delete_where (\<lambda>r. sr_destination r = i) (ds_runs db)"
    using True by (simp_all add: delete_data_destination_def)
  from True obtain d0 where d0: "d0 \<in> set (ds_destinations db)" "dd_id d0 = i" "of_team w i d0"
    by (auto simp: list_ex_iff of_team_def)
  have dests: "set (ds_destinations ?db) = {d \<in> set (ds_destinations db). dd_id d \<noteq> i}"
  proof -
    have "of_team w i d \<longleftrightarrow> dd_id d = i" if "d \<in> set (ds_destinations db)" for d
    proof
      assume "dd_id d = i"
      then have "d = d0" using same_row [OF k that d0(1)] d0(2) by simp
      with d0(3) show "of_team w i d" by simp
    qed (simp add: of_team_def)
    then show ?thesis unfolding db' set_delete_where by blast
  qed
  have runs: "set (ds_runs ?db) = {r \<in> set (ds_runs db). sr_destination r \<noteq> i}"
    unfolding db' set_delete_where ..
  have "claims_keyed (?db, jobs)"
    using k by (simp add: claims_keyed_def db' delete_where_distinct)
  moreover have "claims_linked (?db, jobs)"
  proof (rule claims_linkedI)
    fix r assume "r \<in> set (ds_runs ?db)" "sr_status r = ''running''"
    then have r: "r \<in> set (ds_runs db)" "sr_destination r \<noteq> i" "sr_status r = ''running''" using runs by auto
    from linked_run [OF l r(1,3)] obtain j d where j: "j \<in> set jobs" "d \<in> set (ds_destinations db)" "linked d r j" .
    then have "d \<in> set (ds_destinations ?db)" using r(2) by (simp add: dests linked_def)
    with j show "\<exists>job \<in> set jobs. \<exists>d \<in> set (ds_destinations ?db). linked d r job" by blast
  next
    fix d assume "d \<in> set (ds_destinations ?db)" "dd_claim_token d \<noteq> None"
    then have d: "d \<in> set (ds_destinations db)" "dd_id d \<noteq> i" "dd_claim_token d \<noteq> None" using dests by auto
    from linked_row [OF l d(1,3)] obtain j r where j: "j \<in> set jobs" "r \<in> set (ds_runs db)" "linked d r j" .
    then have "r \<in> set (ds_runs ?db)" using d(2) by (simp add: runs linked_def)
    with j show "\<exists>job \<in> set jobs. \<exists>r \<in> set (ds_runs ?db). linked d r job" by blast
  qed (use unclaimed_row [OF l] dests in auto)
  ultimately show ?thesis by (simp add: claims_ok_def)
qed (use assms in \<open>simp add: delete_data_destination_def\<close>)

text \<open>The token that an event can put on a row.\<close>

definition event_token :: "destination_event \<Rightarrow> uuid option" where
  "event_token e = map_option fst (event_ids e)"

lemma event_ok:
  assumes "claims_ok st" and "do_event e st = Inr st'"
  shows "claims_ok st'"
proof -
  obtain db jobs where st: "st = (db, jobs)" by (cases st)
  show ?thesis
  proof (cases e)
    case (ClaimDue now token run_id locked sb)
    obtain res db' where c: "claim_due_data_destination now token run_id locked sb db = (res, db')" by fastforce
    have "token \<notin> dj_claim_token ` set jobs" "run_id \<notin> dj_run_id ` set jobs"
      using assms(2) ClaimDue st by (auto simp: fresh_ids_def event_ids_def split: if_splits)
    from claim_due_ok(1) [OF assms(1) [unfolded st] this c] show ?thesis
      using assms(2) ClaimDue st c by (auto split: if_splits sum.splits option.splits)
  next
    case (ClaimNow now token run_id w i sb)
    obtain res db' where c: "claim_data_destination_now now token run_id w i sb db = (res, db')" by fastforce
    have "token \<notin> dj_claim_token ` set jobs" "run_id \<notin> dj_run_id ` set jobs"
      using assms(2) ClaimNow st by (auto simp: fresh_ids_def event_ids_def split: if_splits)
    from claim_now_ok(1) [OF assms(1) [unfolded st] this c] show ?thesis
      using assms(2) ClaimNow st c by (auto split: if_splits sum.splits)
  next
    case (CreateDestination r)
    with assms st create_ok show ?thesis by (auto split: if_splits)
  next
    case (UpdateDestination now w i input)
    with assms st update_ok show ?thesis by (auto split: sum.splits)
  next
    case (DeleteDestination w i)
    with assms st delete_ok show ?thesis by auto
  qed
qed

section \<open>The ends of runs\<close>

text \<open>
  A worker ends the run of a job that was handed to it.  A transaction that fails is not an end.
  Whether the write took effect is whether the token was still on the row.
\<close>

definition has_claim :: "uuid \<Rightarrow> uuid \<Rightarrow> destination_row \<Rightarrow> bool" where
  "has_claim destination_id token d \<longleftrightarrow> dd_id d = destination_id \<and> dd_claim_token d = Some token"

definition claim_holder :: "claims_state \<Rightarrow> uuid \<Rightarrow> uuid option" where
  "claim_holder st i = Option.bind (find (\<lambda>d. dd_id d = i) (ds_destinations (fst st))) dd_claim_token"

definition row_of :: "claims_state \<Rightarrow> uuid \<Rightarrow> destination_row option" where
  "row_of st i = find (\<lambda>d. dd_id d = i) (ds_destinations (fst st))"

definition end_run ::
  "time \<times> run_outcome \<Rightarrow> uuid \<Rightarrow> uuid \<Rightarrow> claims_state \<Rightarrow> (bool \<times> claims_state) result" where
  "end_run w destination_id token st =
     (case find (\<lambda>j. dd_id (dj_destination j) = destination_id \<and> dj_claim_token j = token) (snd st) of
        None \<Rightarrow> Inr (False, st)
      | Some job \<Rightarrow> Inr (list_ex (has_claim destination_id token) (ds_destinations (fst st)),
                      (finish_data_destination_run (fst w) job (snd w) (fst st), snd st)))"

lemma holder_iff:
  assumes "claims_ok st"
  shows "claim_holder st i = Some t \<longleftrightarrow> (\<exists>d \<in> set (ds_destinations (fst st)). has_claim i t d)"
proof -
  have "distinct (map dd_id (ds_destinations (fst st)))" using assms by (simp add: claims_ok_def claims_keyed_def)
  note find = find_key_iff [OF this]
  show ?thesis by (auto simp: claim_holder_def has_claim_def bind_eq_Some_conv find)
qed

definition claims_kept :: "uuid option \<Rightarrow> destination_db \<Rightarrow> destination_db \<Rightarrow> bool" where
  "claims_kept granted db db' \<longleftrightarrow> (\<forall>d' \<in> set (ds_destinations db'). \<forall>i u. has_claim i u d' \<longrightarrow>
     (\<exists>d \<in> set (ds_destinations db). has_claim i u d) \<or> granted = Some u)"

lemma release_kept: "claims_kept g db (release_stale_claims now sb db)"
  by (auto simp: claims_kept_def release_stale_claims_def release_stale_rows_def set_update_where unclaimed_def has_claim_def)

lemma start_run_kept:
  "start_run now token run_id trigger r db = Inr (job, db') \<Longrightarrow> claims_kept (Some token) db db'"
  by (auto simp: claims_kept_def start_run_def set_update_where claimed_row_def has_claim_def split: if_splits)

lemma kept_trans: "claims_kept g a b \<Longrightarrow> claims_kept g b c \<Longrightarrow> claims_kept g a c"
  unfolding claims_kept_def by blast

lemma event_kept:
  assumes "do_event e (db, jobs) = Inr (db', jobs')"
  shows "claims_kept (event_token e) db db'"
proof (cases e)
  case (ClaimDue now token run_id locked sb)
  let ?db = "release_stale_claims now sb db"
  have "db' = ?db \<or> (\<exists>r job. start_run now token run_id ''scheduled'' r ?db = Inr (job, db'))"
    using assms ClaimDue
    by (auto simp: claim_due_data_destination_def Let_def split: if_splits option.splits sum.splits prod.splits)
  then show ?thesis using kept_trans [OF release_kept] release_kept start_run_kept ClaimDue
    by (fastforce simp: event_token_def event_ids_def)
next
  case (ClaimNow now token run_id w i sb)
  let ?db = "release_stale_claims now sb db"
  have "db' = ?db \<or> (\<exists>r job. start_run now token run_id ''manual'' r ?db = Inr (job, db'))"
    using assms ClaimNow
    by (auto simp: claim_data_destination_now_def Let_def split: if_splits option.splits sum.splits prod.splits)
  then show ?thesis using kept_trans [OF release_kept] release_kept start_run_kept ClaimNow
    by (fastforce simp: event_token_def event_ids_def)
next
  case (CreateDestination r)
  with assms show ?thesis by (auto simp: claims_kept_def has_claim_def split: if_splits)
next
  case (UpdateDestination now w i input)
  with assms obtain r where up: "update_data_destination now w i input db = Inr (r, db')" by (auto split: sum.splits)
  show ?thesis by (rule update_shape [OF up]) (auto simp: claims_kept_def has_claim_def)
next
  case (DeleteDestination w i)
  with assms show ?thesis by (auto simp: claims_kept_def delete_data_destination_def set_delete_where split: if_splits)
qed

lemma end_run_reject:
  assumes "claims_ok st" and "claim_holder st i \<noteq> Some t"
  shows "end_run w i t st = Inr (False, st)"
proof (cases "find (\<lambda>j. dd_id (dj_destination j) = i \<and> dj_claim_token j = t) (snd st)")
  case (Some job)
  then have j: "job \<in> set (snd st)" "dd_id (dj_destination job) = i" "dj_claim_token job = t" by (auto dest: find_SomeD)
  have no: "\<forall>d \<in> set (ds_destinations (fst st)). \<not> has_claim i t d" using assms holder_iff by blast
  then have "finish_data_destination_run (fst w) job (snd w) (fst st) = fst st"
    using finish_lost [of "fst st" "snd st" job] assms(1) j by (simp add: has_claim_def)
  with no Some show ?thesis by (auto simp: end_run_def list_ex_iff)
qed (simp add: end_run_def)

lemma end_run_parts:
  assumes "end_run w i t st = Inr (b, st')"
  obtains (No) "st' = st" "\<not> b"
  | (Yes) job where "job \<in> set (snd st)" "dd_id (dj_destination job) = i" "dj_claim_token job = t"
      "b = (\<exists>d \<in> set (ds_destinations (fst st)). has_claim i t d)" "snd st' = snd st"
      "fst st' = finish_data_destination_run (fst w) job (snd w) (fst st)"
  using assms by (fastforce simp: end_run_def list_ex_iff dest: find_SomeD split: option.splits)

lemma end_run_accept:
  assumes "claims_ok st" and "claim_holder st i = Some t" and "end_run w i t st = Inr (b, st')"
  shows b
proof -
  obtain db jobs where st: "st = (db, jobs)" by (cases st)
  obtain d where d: "d \<in> set (ds_destinations db)" "has_claim i t d" using assms(1,2) holder_iff st by auto
  have l: "claims_linked (db, jobs)" "dd_claim_token d \<noteq> None"
    using assms(1) st d(2) by (simp_all add: claims_ok_def has_claim_def)
  from linked_row [OF l(1) d(1) l(2)] obtain job r where j: "job \<in> set jobs" "linked d r job" by metis
  then have "dd_id (dj_destination job) = i" "dj_claim_token job = t"
    using d(2) by (simp_all add: has_claim_def linked_def)
  with j(1) have "\<exists>j \<in> set jobs. dd_id (dj_destination j) = i \<and> dj_claim_token j = t" by metis
  then have "find (\<lambda>j. dd_id (dj_destination j) = i \<and> dj_claim_token j = t) jobs \<noteq> None"
    unfolding find_None_iff by blast
  then obtain job' where f: "find (\<lambda>j. dd_id (dj_destination j) = i \<and> dj_claim_token j = t) jobs = Some job'" by blast
  have "b = list_ex (has_claim i t) (ds_destinations db)" using assms(3) by (simp add: st end_run_def f)
  then show b using d unfolding list_ex_iff by blast
qed

interpretation dest: fenced_lease claims_ok claim_holder row_of end_run "\<lambda>_. True" do_event event_token
proof
  fix st :: claims_state and i t w
  assume ok: "claims_ok st"
  show "claim_holder st i \<noteq> Some t \<Longrightarrow> end_run w i t st = Inr (False, st)" by (rule end_run_reject [OF ok])
  fix b st'
  show "claim_holder st i = Some t \<Longrightarrow> end_run w i t st = Inr (b, st') \<Longrightarrow> b" by (rule end_run_accept [OF ok])
  assume run: "end_run w i t st = Inr (b, st')"
  show ok': "claims_ok st'"
    using run
  proof (cases rule: end_run_parts)
    case (Yes job)
    with finish_ok [of "fst st" "snd st" job "fst w" "snd w"] ok show ?thesis
      by (metis prod.collapse)
  qed (use ok in simp)
  show "claim_holder st' j = Some u \<Longrightarrow> claim_holder st j = Some u" for j u
    using run
  proof (cases rule: end_run_parts)
    case (Yes job)
    assume "claim_holder st' j = Some u"
    then obtain d where "d \<in> set (ds_destinations (fst st'))" "has_claim j u d" using holder_iff ok' by blast
    then have "d \<in> set (ds_destinations (fst st))"
      by (auto simp: Yes(6) finish_data_destination_run_def free_claim_def set_update_where unclaimed_def has_claim_def)
    with \<open>has_claim j u d\<close> show ?thesis using holder_iff ok by blast
  qed simp
  show "j \<noteq> i \<Longrightarrow> row_of st' j = row_of st j" for j
    using run
  proof (cases rule: end_run_parts)
    case (Yes job)
    assume "j \<noteq> i"
    have "find (\<lambda>d. dd_id d = j) (free_claim now i t nx ds) = find (\<lambda>d. dd_id d = j) ds" for now nx ds
      using \<open>j \<noteq> i\<close> by (induction ds) (auto simp: free_claim_def update_where_def unclaimed_def)
    then show ?thesis using Yes(2,3,6) by (simp add: row_of_def finish_data_destination_run_def)
  qed simp
next
  fix st st' :: claims_state and i t w
  assume ok: "claims_ok st" and run: "end_run w i t st = Inr (True, st')"
  from run show "claim_holder st' i = None"
  proof (cases rule: end_run_parts)
    case (Yes job)
    have ok': "claims_ok st'"
      using finish_ok [of "fst st" "snd st" job "fst w" "snd w"] ok Yes by (metis prod.collapse)
    have "\<not> has_claim i u d'" if d': "d' \<in> set (ds_destinations (fst st'))" for u d'
    proof
      assume c: "has_claim i u d'"
      then have o: "d' \<in> set (ds_destinations (fst st))" "\<not> has_claim i t d'"
        using d' Yes(2,3) by (auto simp: Yes(6) finish_data_destination_run_def free_claim_def set_update_where
            unclaimed_def has_claim_def)
      obtain d where d: "d \<in> set (ds_destinations (fst st))" "has_claim i t d" using Yes(4) by auto
      have "d = d'" using same_row [of "fst st" "snd st" d d'] ok d o c by (simp add: claims_ok_def has_claim_def)
      with d o show False by simp
    qed
    then show ?thesis using holder_iff [OF ok', of i] by (metis not_Some_eq)
  qed simp
next
  fix st st' :: claims_state and e j u
  assume ok: "claims_ok st" and run: "do_event e st = Inr st'"
  show ok': "claims_ok st'" by (rule event_ok [OF ok run])
  have "claims_kept (event_token e) (fst st) (fst st')"
    using run by (intro event_kept [of e _ "snd st" _ "snd st'"]) simp
  then show "claim_holder st' j = Some u \<Longrightarrow> claim_holder st j = Some u \<or> event_token e = Some u"
    unfolding holder_iff [OF ok] holder_iff [OF ok'] claims_kept_def by blast
qed

end
