(* ===== verification/DestinationExport.thy ===== *)
theory DestinationExport
  imports Destinations
begin

text \<open>
  The export engine of \<open>backend/src/destinations.rs\<close>: the transports with what they leave in the
  customer's system, the loop over pages of each stream, and the drain of one claimed destination.
  What the systems outside answer, where a run is cut off, and what other requests commit in the
  meantime are read from an environment, so a theorem about every environment covers every schedule.
\<close>

section \<open>What the customer's system holds\<close>

text \<open>
  The rows of \<open>epode_data_exports\<close> of a PostgreSQL destination by their primary key, and the requests
  a collector has answered for or at least received, newest last.
\<close>

record http_post =
  hp_url :: string
  hp_headers :: "(string \<times> string) list"
  hp_body :: string

record sink =
  sk_table :: "(string \<times> uuid) \<Rightarrow> (json \<times> time) option"
  sk_posts :: "http_post list"

section \<open>Transports\<close>

text \<open>\<open>rfc\<close> prints a timestamp as its \<open>Serialize\<close> instance does.\<close>

definition export_envelope :: "(time \<Rightarrow> string) \<Rightarrow> string \<Rightarrow> time \<Rightarrow> export_row \<Rightarrow> json" where
  "export_envelope rfc stream exported_at r =
     JObj [(''stream'', JStr stream), (''id'', JStr (uuid_text (xr_id r))),
           (''exportedAt'', JStr (rfc exported_at)), (''record'', xr_record r)]"

text \<open>
  A batch goes to PostgreSQL in one transaction: an error before the commit leaves nothing, and a
  commit whose answer is lost may have taken place.
\<close>

datatype pg_answer =
    PgConnectFailed string
  | PgBeginFailed string
  | PgSetupFailed string
  | PgUpsertFailed string
  | PgCommitFailed bool string
  | PgCommitted

definition upsert_row :: "string \<Rightarrow> time \<Rightarrow> export_row \<Rightarrow> sink \<Rightarrow> sink" where
  "upsert_row stream exported_at r s =
     s\<lparr>sk_table := (sk_table s)((stream, xr_id r) \<mapsto> (xr_record r, exported_at))\<rparr>"

definition upsert_batch :: "string \<Rightarrow> time \<Rightarrow> export_row list \<Rightarrow> sink \<Rightarrow> sink" where
  "upsert_batch stream exported_at batch s = fold (upsert_row stream exported_at) batch s"

fun deliver_postgres_batch ::
  "pg_answer \<Rightarrow> time \<Rightarrow> string \<Rightarrow> export_row list \<Rightarrow> sink \<Rightarrow> unit export_result \<times> sink" where
  "deliver_postgres_batch (PgConnectFailed e) exported_at stream batch s = (Inl (''connection failed: '' @ e), s)"
| "deliver_postgres_batch (PgBeginFailed e) exported_at stream batch s = (Inl (''transaction failed: '' @ e), s)"
| "deliver_postgres_batch (PgSetupFailed e) exported_at stream batch s = (Inl (''table setup failed: '' @ e), s)"
| "deliver_postgres_batch (PgUpsertFailed e) exported_at stream batch s = (Inl (''upsert failed: '' @ e), s)"
| "deliver_postgres_batch (PgCommitFailed took_place e) exported_at stream batch s =
     (Inl (''commit failed: '' @ e), if took_place then upsert_batch stream exported_at batch s else s)"
| "deliver_postgres_batch PgCommitted exported_at stream batch s =
     (Inr (), upsert_batch stream exported_at batch s)"

definition json_string :: "json \<Rightarrow> string option" where
  "json_string v = (case v of JStr s \<Rightarrow> Some s | _ \<Rightarrow> None)"

definition json_members :: "json \<Rightarrow> (string \<times> json) list option" where
  "json_members v = (case v of JObj kvs \<Rightarrow> Some kvs | _ \<Rightarrow> None)"

text \<open>
  Members of the configured headers that are no strings are left out.  \<open>reqwest\<close> appends each header.
\<close>

definition http_request :: "json \<Rightarrow> json option \<Rightarrow> (string \<times> (string \<times> string) list) export_result" where
  "http_request config credentials =
     (case Option.bind (json_field ''url'' config) json_string of
        None \<Rightarrow> Inl ''destination config is missing url''
      | Some url \<Rightarrow>
          Inr (url,
            [(''content-type'', ''application/x-ndjson'')]
            @ (case Option.bind (Option.bind credentials (json_field ''token'')) json_string of
                 None \<Rightarrow> [] | Some token \<Rightarrow> [(''authorization'', ''Bearer '' @ token)])
            @ (case Option.bind (json_field ''headers'' config) json_members of
                 None \<Rightarrow> []
               | Some kvs \<Rightarrow> List.map_filter (\<lambda>(k, v). map_option (Pair k) (json_string v)) kvs)))"

text \<open>A request whose answer is lost may have been received.\<close>

datatype http_answer =
    HttpClientFailed string
  | HttpSendFailed bool string
  | HttpStatus nat string

definition http_success :: "nat \<Rightarrow> bool" where
  "http_success code \<longleftrightarrow> 200 \<le> code \<and> code < 300"

fun all_texts :: "(json \<Rightarrow> string option) \<Rightarrow> json list \<Rightarrow> (string list) option" where
  "all_texts to_text [] = Some []"
| "all_texts to_text (v # vs) =
     Option.bind (to_text v) (\<lambda>t. Option.bind (all_texts to_text vs) (\<lambda>ts. Some (t # ts)))"

definition ndjson :: "(json \<Rightarrow> string option) \<Rightarrow> (time \<Rightarrow> string) \<Rightarrow> string \<Rightarrow> time
    \<Rightarrow> export_row list \<Rightarrow> string option" where
  "ndjson to_text rfc stream exported_at batch =
     map_option (join [CHR 0x0A]) (all_texts to_text (map (export_envelope rfc stream exported_at) batch))"

definition deliver_http_batch ::
  "(json \<Rightarrow> string option) \<Rightarrow> (time \<Rightarrow> string) \<Rightarrow> http_answer \<Rightarrow> time \<Rightarrow> json \<Rightarrow> json option
   \<Rightarrow> string \<Rightarrow> export_row list \<Rightarrow> sink \<Rightarrow> unit export_result \<times> sink" where
  "deliver_http_batch to_text rfc answer exported_at config credentials stream batch s =
     (case answer of HttpClientFailed e \<Rightarrow> (Inl (''HTTP client failed: '' @ e), s)
      | _ \<Rightarrow>
        (case ndjson to_text rfc stream exported_at batch of
           None \<Rightarrow> (Inl ''serialization failed: '', s)
         | Some body \<Rightarrow>
           (case http_request config credentials of
              Inl e \<Rightarrow> (Inl e, s)
            | Inr (url, headers) \<Rightarrow>
                (let sent = s\<lparr>sk_posts := sk_posts s @ [\<lparr>hp_url = url, hp_headers = headers, hp_body = body\<rparr>]\<rparr>
                 in case answer of
                      HttpSendFailed received e \<Rightarrow> (Inl (''delivery failed: '' @ e), if received then sent else s)
                    | HttpStatus code reason \<Rightarrow>
                        (if http_success code then Inr () else Inl (''collector responded with HTTP '' @ reason), sent)
                    | HttpClientFailed e \<Rightarrow> (Inl e, s)))))"

section \<open>The environment of a run\<close>

text \<open>
  Everything a run meets, by the round of its loop: the clock, the answers of its statements and of
  the transport, the requests of others that commit before the round and between its fetch and its
  last write, and the await at which the run is dropped, if it is (the time limit, a panic, or a
  restart).  A write that is in flight when the run is dropped may or may not take effect.
\<close>

datatype cut = CutBeforeDelivery | CutInDelivery | CutInAdvance bool

record export_env =
  en_now :: "nat \<Rightarrow> time"
  en_before :: "nat \<Rightarrow> destination_db \<Rightarrow> destination_db"
  en_between :: "nat \<Rightarrow> destination_db \<Rightarrow> destination_db"
  en_read_fails :: "nat \<Rightarrow> string option"
  en_fetch_fails :: "nat \<Rightarrow> string option"
  en_advance_fails :: "nat \<Rightarrow> string option"
  en_pg :: "nat \<Rightarrow> pg_answer"
  en_http :: "nat \<Rightarrow> http_answer"
  en_cut :: "nat \<Rightarrow> cut option"

record text_forms =
  tf_cipher :: cipher
  tf_rfc :: "time \<Rightarrow> string"
  tf_debug :: "string \<Rightarrow> string"

definition deliver_batch ::
  "text_forms \<Rightarrow> export_env \<Rightarrow> nat \<Rightarrow> destination_row \<Rightarrow> json option \<Rightarrow> string \<Rightarrow> export_row list \<Rightarrow> sink
   \<Rightarrow> unit export_result \<times> sink" where
  "deliver_batch tf env n destination credentials stream batch s =
     (if dd_kind destination = KIND_POSTGRES
      then deliver_postgres_batch (en_pg env n) (en_now env n) stream batch s
      else if dd_kind destination = KIND_HTTP_NDJSON
      then deliver_http_batch (ci_to_text (tf_cipher tf)) (tf_rfc tf) (en_http env n) (en_now env n)
             (dd_config destination) credentials stream batch s
      else (Inl (''destination kind '' @ tf_debug tf (dd_kind destination) @ '' has no transport''), s))"

section \<open>The export loop\<close>

datatype export_end = Exported int | ExportFailed string | Dropped

datatype round_end = Over export_end | NextStream int | SameStream int

type_synonym deliver = "nat \<Rightarrow> string \<Rightarrow> export_row list \<Rightarrow> sink \<Rightarrow> unit export_result \<times> sink"

text \<open>The last statement of a round.\<close>

definition finish_round ::
  "export_env \<Rightarrow> uuid \<Rightarrow> string \<Rightarrow> nat \<Rightarrow> int \<Rightarrow> export_row list \<Rightarrow> destination_db \<Rightarrow> round_end \<times> destination_db" where
  "finish_round env destination_id stream n so_far batch db =
     (case en_advance_fails env n of
        Some e \<Rightarrow> (Over (ExportFailed e), db)
      | None \<Rightarrow>
          (case advance_cursor destination_id stream (export_key (last batch)) db of
             Inl e \<Rightarrow> (Over (if en_cut env n = Some (CutInAdvance False) then Dropped
                              else ExportFailed (err_message e)), db)
           | Inr db' \<Rightarrow>
               if en_cut env n = Some (CutInAdvance False) then (Over Dropped, db)
               else if en_cut env n = Some (CutInAdvance True) then (Over Dropped, db')
               else if int (length batch) < EXPORT_BATCH_SIZE
               then (NextStream (so_far + int (length batch)), db')
               else (SameStream (so_far + int (length batch)), db')))"

text \<open>One pass of the loop over the pages of a stream.\<close>

definition export_round ::
  "deliver \<Rightarrow> export_env \<Rightarrow> destination_row \<Rightarrow> string \<Rightarrow> nat \<Rightarrow> int \<Rightarrow> destination_db \<Rightarrow> sink
   \<Rightarrow> round_end \<times> destination_db \<times> sink" where
  "export_round deliver env destination stream n so_far db0 s =
     (let db = en_before env n db0
      in case en_read_fails env n of
           Some e \<Rightarrow> (Over (ExportFailed e), db, s)
         | None \<Rightarrow>
           let cursor = read_cursor (dd_id destination) stream db; remaining = EXPORT_RUN_ROW_CAP - so_far
           in if remaining \<le> 0 then (Over (Exported so_far), db, s)
              else (case en_fetch_fails env n of
                Some e \<Rightarrow> (Over (ExportFailed e), db, s)
              | None \<Rightarrow>
                (case fetch_export_batch (dd_workspace destination) stream cursor (min EXPORT_BATCH_SIZE remaining) db of
                   Inl e \<Rightarrow> (Over (ExportFailed e), db, s)
                 | Inr batch \<Rightarrow>
                     if en_cut env n = Some CutBeforeDelivery then (Over Dropped, db, s)
                     else if batch = [] then (NextStream so_far, db, s)
                     else (let db1 = en_between env n db
                           in case deliver n stream batch s of
                                (Inl e, s') \<Rightarrow>
                                  (Over (if en_cut env n = Some CutInDelivery then Dropped else ExportFailed e), db1, s')
                              | (Inr _, s') \<Rightarrow>
                                  if en_cut env n = Some CutInDelivery then (Over Dropped, db1, s')
                                  else (let (e, db2) = finish_round env (dd_id destination) stream n so_far batch db1
                                        in (e, db2, s'))))))"

lemma round_grows:
  assumes "export_round deliver env destination stream n so_far db s = (SameStream so_far', x)"
  shows "so_far < so_far'" and "so_far < EXPORT_RUN_ROW_CAP"
  using assms
  by (auto simp: export_round_def finish_round_def Let_def EXPORT_BATCH_SIZE_def length_greater_0_conv [symmetric]
      simp del: length_greater_0_conv
      split: option.splits sum.splits if_splits prod.splits)

function export_streams ::
  "deliver \<Rightarrow> export_env \<Rightarrow> destination_row \<Rightarrow> string list \<Rightarrow> nat \<Rightarrow> int \<Rightarrow> destination_db \<Rightarrow> sink
   \<Rightarrow> export_end \<times> destination_db \<times> sink" where
  "export_streams deliver env destination [] n so_far db s = (Exported so_far, db, s)"
| "export_streams deliver env destination (stream # streams) n so_far db s =
     (case export_round deliver env destination stream n so_far db s of
        (Over e, db', s') \<Rightarrow> (e, db', s')
      | (NextStream so_far', db', s') \<Rightarrow> export_streams deliver env destination streams (Suc n) so_far' db' s'
      | (SameStream so_far', db', s') \<Rightarrow>
          export_streams deliver env destination (stream # streams) (Suc n) so_far' db' s')"
  by pat_completeness auto

termination
  by (relation "inv_image (less_than <*lex*> less_than) (\<lambda>(deliver, env, destination, streams, n, so_far, db, s).
        (length streams, nat (EXPORT_RUN_ROW_CAP - so_far)))")
    (auto dest: round_grows [OF sym])

definition export_destination ::
  "text_forms \<Rightarrow> string \<Rightarrow> export_env \<Rightarrow> destination_job \<Rightarrow> destination_db \<Rightarrow> sink
   \<Rightarrow> export_end \<times> destination_db \<times> sink" where
  "export_destination tf secret env job db s =
     (case (case dd_sealed (dj_destination job) of
              None \<Rightarrow> Inr None
            | Some sealed \<Rightarrow> map_sum (\<lambda>e. e) Some (unseal_credentials (tf_cipher tf) secret sealed)) of
        Inl e \<Rightarrow> (ExportFailed e, db, s)
      | Inr credentials \<Rightarrow>
          export_streams (\<lambda>n. deliver_batch tf env n (dj_destination job) credentials) env (dj_destination job)
            STREAMS 0 0 db s)"

section \<open>The drain of a claimed destination\<close>

text \<open>
  Why a dropped run was dropped: at the time limit the drain goes on to record the failure, while a
  panic or a restart ends it, and so does an error of the last transaction.
\<close>

datatype drop_cause = TimedOut | Abandoned

definition drain_data_destination ::
  "text_forms \<Rightarrow> string \<Rightarrow> export_env \<Rightarrow> drop_cause \<Rightarrow> bool \<Rightarrow> time \<Rightarrow> destination_job \<Rightarrow> destination_db \<Rightarrow> sink
   \<Rightarrow> destination_db \<times> sink" where
  "drain_data_destination tf secret env cause finish_fails now job db s =
     (case export_destination tf secret env job db s of
        (e, db', s') \<Rightarrow>
          let finish = (\<lambda>outcome. if finish_fails then db' else finish_data_destination_run now job outcome db')
          in (case e of
                Exported n \<Rightarrow> finish (Succeeded n)
              | ExportFailed msg \<Rightarrow> finish (RunFailed msg)
              | Dropped \<Rightarrow> (case cause of
                    TimedOut \<Rightarrow> finish (RunFailed ''Sync exceeded the 480 second run limit'')
                  | Abandoned \<Rightarrow> db'),
              s'))"

text \<open>
  One pass of the scheduled worker of \<open>main.rs\<close>: a claim that fails or finds nothing due ends the
  pass; the drain runs in a task of its own, so a panic of a delivery is a run that was dropped.
\<close>

definition data_destination_pass ::
  "text_forms \<Rightarrow> string \<Rightarrow> time \<Rightarrow> uuid \<Rightarrow> uuid \<Rightarrow> (uuid \<Rightarrow> bool) \<Rightarrow> export_env \<Rightarrow> drop_cause \<Rightarrow> bool \<Rightarrow> time
   \<Rightarrow> destination_db \<Rightarrow> sink \<Rightarrow> destination_db \<times> sink" where
  "data_destination_pass tf secret now token run_id locked env cause finish_fails finished_at db s =
     (case claim_due_data_destination now token run_id locked (now - DESTINATION_STALE_CLAIM_AGE) db of
        (Inr (Some job), db') \<Rightarrow> drain_data_destination tf secret env cause finish_fails finished_at job db' s
      | (_, db') \<Rightarrow> (db', s))"

section \<open>Testing a connection\<close>

datatype pg_check = CheckConnectFailed string | CheckQueryFailed string | CheckPassed

definition test_data_destination ::
  "(string \<Rightarrow> parsed_url option) \<Rightarrow> (string \<Rightarrow> string) \<Rightarrow> pg_check \<Rightarrow> http_answer \<Rightarrow> string \<Rightarrow> config_input
   \<Rightarrow> credentials_input option \<Rightarrow> string result" where
  "test_data_destination parse dbg pg answer kind config credentials =
     result_bind (validate_kind kind) (\<lambda>kind.
     result_bind (normalize_destination parse dbg kind config credentials) (\<lambda>normalized.
       if kind = KIND_POSTGRES
       then (case pg of
               CheckConnectFailed e \<Rightarrow> Inl (bad_request (''Connection failed: '' @ e))
             | CheckQueryFailed e \<Rightarrow> Inl (bad_request (''Connection failed: '' @ e))
             | CheckPassed \<Rightarrow> Inr ''Connected and authenticated.'')
       else if kind = KIND_HTTP_NDJSON
       then (case answer of HttpClientFailed e \<Rightarrow> Inl (bad_request (''HTTP client failed: '' @ e))
             | _ \<Rightarrow>
               (case http_request (nd_config normalized) (nd_credentials normalized) of
                  Inl e \<Rightarrow> Inl (bad_request e)
                | Inr request \<Rightarrow>
                  (case answer of
                     HttpSendFailed received e \<Rightarrow> Inl (bad_request (''Delivery failed: '' @ e))
                   | HttpStatus code reason \<Rightarrow>
                       if http_success code then Inr (''Collector responded with HTTP '' @ reason @ ''.'')
                       else Inl (bad_request (''Collector responded with HTTP '' @ reason))
                   | HttpClientFailed e \<Rightarrow> Inl (bad_request (''HTTP client failed: '' @ e)))))
       else Inl (bad_request (''Destination kind '' @ dbg kind @ '' is not supported''))))"

end
