(* ===== verification/DestinationFacts.thy ===== *)
theory DestinationFacts
  imports DestinationExport
begin

text \<open>
  What the export loop needs of a transport, as a locale, and what it gives in return: whatever a
  run meets, no row behind a cursor is missing in the customer's system.  The locale is interpreted
  on both transports of the code.
\<close>

section \<open>Cursors and pages\<close>

lemma read_stored_cursor [simp]:
  "read_cursor d st (db\<lparr>ds_cursors := stored_cursor d stream key (ds_cursors db)\<rparr>) =
     (if st = stream then key else read_cursor d st db)"
proof -
  have same: "find (of_cursor d stream) (stored_cursor d stream key cs) =
     Some (case find (of_cursor d stream) cs of
             None \<Rightarrow> \<lparr>cu_destination = d, cu_stream = stream, cu_record_at = fst key, cu_record_id = snd key\<rparr>
           | Some c \<Rightarrow> c\<lparr>cu_record_at := fst key, cu_record_id := snd key\<rparr>)" for cs
    by (induction cs) (auto simp: stored_cursor_def update_where_def of_cursor_def)
  have other: "find (of_cursor d st) (stored_cursor d stream key cs) = find (of_cursor d st) cs"
    if "st \<noteq> stream" for cs
  proof -
    have "find (of_cursor d st) (update_where (of_cursor d stream) f cs) = find (of_cursor d st) cs"
      if "\<And>c. of_cursor d st (f c) = of_cursor d st c" for f
      using that \<open>st \<noteq> stream\<close> by (induction cs) (auto simp: update_where_def of_cursor_def)
    moreover have "find (of_cursor d st) (cs @ [c]) = find (of_cursor d st) cs" if "\<not> of_cursor d st c" for c
      using that by (induction cs) auto
    ultimately show ?thesis using that by (simp add: stored_cursor_def of_cursor_def)
  qed
  show ?thesis using same other by (auto simp: read_cursor_def split: option.splits)
qed

lemma advance_cursor_Inr:
  assumes "advance_cursor d stream key db = Inr db'"
  shows "db' = db\<lparr>ds_cursors := stored_cursor d stream key (ds_cursors db)\<rparr>"
  using assms by (auto simp: advance_cursor_def split: if_splits)

lemma stream_rows_cursors [simp]: "stream_rows st (db\<lparr>ds_cursors := cs\<rparr>) = stream_rows st db"
  by (simp add: stream_rows_def)

lemma fetch_known:
  assumes "fetch_export_batch w stream c k db = Inr batch"
  shows "stream \<in> set STREAMS"
    and "batch = take (nat k) (sort_key export_key (filter (\<lambda>r. xr_workspace r = w \<and> c < export_key r) (stream_rows stream db)))"
  using assms by (auto simp: fetch_export_batch_def STREAMS_def split: if_splits)

lemma fetch_STREAMS:
  "stream \<in> set STREAMS \<Longrightarrow> fetch_export_batch w stream c k db =
     Inr (take (nat k) (sort_key export_key (filter (\<lambda>r. xr_workspace r = w \<and> c < export_key r) (stream_rows stream db))))"
  by (auto simp: fetch_export_batch_def STREAMS_def)

text \<open>A page holds every row up to its last key.\<close>

lemma take_sorted_upto:
  fixes f :: "'a \<Rightarrow> 'b :: linorder"
  assumes "x \<in> set xs" and "take k (sort_key f xs) \<noteq> []" and "f x \<le> f (last (take k (sort_key f xs)))"
    and "inj_on f (set xs)"
  shows "x \<in> set (take k (sort_key f xs))"
proof -
  let ?s = "sort_key f xs"
  have x: "x \<in> set (take k ?s) \<union> set (drop k ?s)"
    using assms(1) by (metis append_take_drop_id set_append set_sort)
  have l: "last (take k ?s) \<in> set (take k ?s)" using assms(2) by (rule last_in_set)
  have "sorted (map f (take k ?s @ drop k ?s))" by simp
  then have "\<forall>y \<in> set (take k ?s). \<forall>z \<in> set (drop k ?s). f y \<le> f z"
    unfolding map_append sorted_append by auto
  then have "x \<in> set (drop k ?s) \<longrightarrow> f x = f (last (take k ?s))" using l assms(3) by fastforce
  moreover have "last (take k ?s) \<in> set xs" using l by (metis in_set_takeD set_sort)
  ultimately show ?thesis using x l assms(1,4) by (metis UnE inj_onD)
qed

lemma page_distinct:
  assumes "distinct (map f xs)"
  shows "distinct (map f (take k (sort_key g (filter p xs))))"
proof -
  have "distinct (map f (sort_key g (filter p xs)))"
    using assms by (auto simp: distinct_map intro: inj_on_subset)
  then show ?thesis by (simp flip: take_map)
qed

lemma keys_of_ids: "distinct (map xr_id rows) \<Longrightarrow> inj_on export_key (set rows)"
  by (auto simp: inj_on_def export_key_def distinct_map)

section \<open>What holds behind the cursors\<close>

text \<open>\<open>holds s stream id record\<close>: the customer's system \<open>s\<close> has this version of the row.\<close>

definition covered ::
  "(sink \<Rightarrow> string \<Rightarrow> uuid \<Rightarrow> json \<Rightarrow> bool) \<Rightarrow> uuid \<Rightarrow> uuid \<Rightarrow> destination_db \<Rightarrow> sink \<Rightarrow> bool" where
  "covered holds d w db s \<longleftrightarrow> (\<forall>st \<in> set STREAMS. \<forall>r \<in> set (stream_rows st db).
     xr_workspace r = w \<and> export_key r \<le> read_cursor d st db \<longrightarrow> holds s st (xr_id r) (xr_record r))"

definition keyed :: "destination_db \<Rightarrow> bool" where
  "keyed db \<longleftrightarrow> (\<forall>st \<in> set STREAMS. distinct (map xr_id (stream_rows st db)))"

text \<open>
  Work of other requests that moves no cursor forward, keeps the ids unique, and commits every new
  version of a row above the cursor and above all rows that are visible so far.
\<close>

definition in_order :: "uuid \<Rightarrow> (destination_db \<Rightarrow> destination_db) \<Rightarrow> bool" where
  "in_order d f \<longleftrightarrow> (\<forall>db. (keyed db \<longrightarrow> keyed (f db)) \<and>
     (\<forall>st \<in> set STREAMS. read_cursor d st (f db) \<le> read_cursor d st db \<and>
        (\<forall>r \<in> set (stream_rows st (f db)). r \<in> set (stream_rows st db) \<or>
           (read_cursor d st db < export_key r \<and> (\<forall>x \<in> set (stream_rows st db). export_key x < export_key r)))))"

lemma page_row:
  assumes "fetch_export_batch w stream c m db = Inr batch" and "x \<in> set batch"
  shows "x \<in> set (stream_rows stream db)" and "c < export_key x" and "xr_workspace x = w"
  using fetch_known(2) [OF assms(1)] assms(2) by (auto dest!: in_set_takeD)

lemma page_ids:
  assumes "keyed db" and "fetch_export_batch w stream c m db = Inr batch"
  shows "distinct (map xr_id batch)"
proof -
  have "distinct (map xr_id (stream_rows stream db))"
    using assms(1) fetch_known(1) [OF assms(2)] by (simp add: keyed_def)
  then show ?thesis unfolding fetch_known(2) [OF assms(2)] by (rule page_distinct)
qed

text \<open>A row behind the cursor is not in the page, nor is its id.\<close>

lemma behind_not_in_page:
  assumes "keyed db" and "fetch_export_batch w stream c m db = Inr batch"
    and "r \<in> set (stream_rows stream db)" and "export_key r \<le> c"
  shows "xr_id r \<notin> xr_id ` set batch"
proof
  assume "xr_id r \<in> xr_id ` set batch"
  then obtain x where x: "x \<in> set batch" "xr_id x = xr_id r" by auto
  have "inj_on xr_id (set (stream_rows stream db))"
    using assms(1) fetch_known(1) [OF assms(2)] by (simp add: keyed_def distinct_map)
  then have "x = r" using x(2) assms(3) page_row(1) [OF assms(2) x(1)] by (auto dest: inj_onD)
  then show False using page_row(2) [OF assms(2) x(1)] assms(4) by simp
qed

lemma in_order_keyed: "in_order d f \<Longrightarrow> keyed db \<Longrightarrow> keyed (f db)"
  by (auto simp: in_order_def)

lemma in_order_cursor: "in_order d f \<Longrightarrow> st \<in> set STREAMS \<Longrightarrow> read_cursor d st (f db) \<le> read_cursor d st db"
  by (auto simp: in_order_def)

lemma in_order_row:
  assumes "in_order d f" and "st \<in> set STREAMS" and "r \<in> set (stream_rows st (f db))"
    and "export_key r \<le> read_cursor d st db \<or> (\<exists>x \<in> set (stream_rows st db). export_key r \<le> export_key x)"
  shows "r \<in> set (stream_rows st db)"
  using assms unfolding in_order_def by (meson leD)

lemma in_order_covered:
  assumes "in_order d f" and "covered holds d w db s"
  shows "covered holds d w (f db) s"
proof (unfold covered_def, intro ballI impI)
  fix st r
  assume r: "st \<in> set STREAMS" "r \<in> set (stream_rows st (f db))"
    "xr_workspace r = w \<and> export_key r \<le> read_cursor d st (f db)"
  then have c: "export_key r \<le> read_cursor d st db"
    using in_order_cursor [OF assms(1) r(1)] order_trans by blast
  then have "r \<in> set (stream_rows st db)" using in_order_row [OF assms(1) r(1,2)] by blast
  then show "holds s st (xr_id r) (xr_record r)" using assms(2) r c by (simp add: covered_def)
qed

definition orderly :: "uuid \<Rightarrow> export_env \<Rightarrow> bool" where
  "orderly d env \<longleftrightarrow> (\<forall>n. in_order d (en_before env n) \<and> in_order d (en_between env n))"

lemma export_streams_invariant:
  assumes "\<And>stream n so_far db s e db' s'. P db s
      \<Longrightarrow> export_round deliver env dst stream n so_far db s = (e, db', s') \<Longrightarrow> P db' s'"
    and "P db s" and "export_streams deliver env dst streams n so_far db s = (e, db', s')"
  shows "P db' s'"
  using assms
proof (induction deliver env dst streams n so_far db s rule: export_streams.induct)
  case (2 deliver env dst stream streams n so_far db s)
  note step = "2.prems"(1)
  obtain x db1 s1 where r: "export_round deliver env dst stream n so_far db s = (x, db1, s1)"
    by (metis prod_cases3)
  have p1: "P db1 s1" using step [OF "2.prems"(2) r] .
  show ?case
  proof (cases x)
    case (NextStream m)
    show ?thesis
      by (rule "2.IH"(1) [OF r [symmetric] NextStream refl _ p1], erule (1) step) (use "2.prems"(3) r NextStream in simp)
  next
    case (SameStream m)
    show ?thesis
      by (rule "2.IH"(2) [OF r [symmetric] SameStream refl _ p1], erule (1) step) (use "2.prems"(3) r SameStream in simp)
  qed (use "2.prems"(3) r p1 in simp)
qed simp

section \<open>The contract of a transport\<close>

locale transport =
  fixes deliver :: deliver
    and holds :: "sink \<Rightarrow> string \<Rightarrow> uuid \<Rightarrow> json \<Rightarrow> bool"
  assumes delivered: "distinct (map xr_id batch) \<Longrightarrow> deliver n stream batch s = (Inr u, s') \<Longrightarrow> r \<in> set batch
        \<Longrightarrow> holds s' stream (xr_id r) (xr_record r)"
    and kept: "deliver n stream batch s = (res, s') \<Longrightarrow> holds s st i rec
        \<Longrightarrow> st \<noteq> stream \<or> i \<notin> xr_id ` set batch \<Longrightarrow> holds s' st i rec"
begin

text \<open>The state of a round once its page was handed to the transport.\<close>

lemma handed_over:
  assumes cov: "covered holds d w db s" and k: "keyed db" and f: "in_order d f"
    and b: "fetch_export_batch w stream (read_cursor d stream db) m db = Inr batch"
    and dl: "deliver n stream batch s = (res, s')"
  shows "covered holds d w (f db) s'"
proof (unfold covered_def, intro ballI impI)
  fix st r
  assume r: "st \<in> set STREAMS" "r \<in> set (stream_rows st (f db))"
    "xr_workspace r = w \<and> export_key r \<le> read_cursor d st (f db)"
  then have c: "export_key r \<le> read_cursor d st db"
    using in_order_cursor [OF f r(1)] order_trans by blast
  then have old: "r \<in> set (stream_rows st db)" using in_order_row [OF f r(1,2)] by blast
  have h: "holds s st (xr_id r) (xr_record r)" using cov r c old by (simp add: covered_def)
  have "xr_id r \<notin> xr_id ` set batch" if "st = stream"
    using behind_not_in_page [OF k b] old c that by blast
  then show "holds s' st (xr_id r) (xr_record r)" using kept [OF dl h] by blast
qed

text \<open>The state of a round once the cursor was moved.\<close>

lemma advanced:
  assumes cov: "covered holds d w db s" and k: "keyed db" and f: "in_order d f"
    and b: "fetch_export_batch w stream (read_cursor d stream db) m db = Inr batch" and ne: "batch \<noteq> []"
    and dl: "deliver n stream batch s = (Inr u, s')"
    and a: "advance_cursor d stream (export_key (last batch)) (f db) = Inr db'"
  shows "covered holds d w db' s'"
proof (unfold covered_def, intro ballI impI)
  fix st r
  assume r: "st \<in> set STREAMS" "r \<in> set (stream_rows st db')"
    "xr_workspace r = w \<and> export_key r \<le> read_cursor d st db'"
  note db' = advance_cursor_Inr [OF a]
  note cov' = handed_over [OF cov k f b dl]
  show "holds s' st (xr_id r) (xr_record r)"
  proof (cases "st = stream \<and> \<not> export_key r \<le> read_cursor d stream (f db)")
    case False
    then have "export_key r \<le> read_cursor d st (f db)" using r(3) db' by (auto split: if_splits)
    then show ?thesis using cov' r db' by (simp add: covered_def)
  next
    case True
    let ?p = "\<lambda>r. xr_workspace r = w \<and> read_cursor d stream db < export_key r"
    note page = fetch_known(2) [OF b]
    have key: "export_key r \<le> export_key (last batch)" using True r(3) db' by simp
    have lb: "last batch \<in> set (stream_rows stream db)" using page_row(1) [OF b last_in_set [OF ne]] .
    then have old: "r \<in> set (stream_rows stream db)"
      using in_order_row [OF f, of stream r db] key r True db' by auto
    show ?thesis
    proof (cases "export_key r \<le> read_cursor d stream db")
      case True
      have "holds s st (xr_id r) (xr_record r)"
        using cov True old r \<open>st = stream \<and> _\<close> by (simp add: covered_def)
      moreover have "xr_id r \<notin> xr_id ` set batch" using behind_not_in_page [OF k b old True] .
      ultimately show ?thesis using kept [OF dl] by blast
    next
      case False
      have ids: "distinct (map xr_id (stream_rows stream db))"
        using k fetch_known(1) [OF b] by (simp add: keyed_def)
      have "r \<in> set batch"
        unfolding page
      proof (rule take_sorted_upto)
        show "r \<in> set (filter ?p (stream_rows stream db))" using old False r by simp
        show "inj_on export_key (set (filter ?p (stream_rows stream db)))"
          using keys_of_ids [OF ids] by (rule inj_on_subset) auto
      qed (use ne key page in simp_all)
      then show ?thesis using delivered [OF page_ids [OF k b] dl] \<open>st = stream \<and> _\<close> by blast
    qed
  qed
qed

lemma round_covered:
  assumes cov: "covered holds (dd_id dst) (dd_workspace dst) db s" and k: "keyed db" and env: "orderly (dd_id dst) env"
    and run: "export_round deliver env dst stream n so_far db s = (e, db', s')"
  shows "covered holds (dd_id dst) (dd_workspace dst) db' s' \<and> keyed db'"
proof -
  let ?db = "en_before env n db"
  let ?f = "en_between env n"
  have f: "in_order (dd_id dst) ?f" and g: "in_order (dd_id dst) (en_before env n)"
    using env by (auto simp: orderly_def)
  have cov1: "covered holds (dd_id dst) (dd_workspace dst) ?db s" using in_order_covered [OF g cov] .
  have k1: "keyed ?db" and k2: "keyed (?f ?db)" using in_order_keyed f g k by blast+
  show ?thesis
  proof (cases "db' = ?db \<and> s' = s")
    case True
    with cov1 k1 show ?thesis by simp
  next
    case False
    then obtain batch res where b: "fetch_export_batch (dd_workspace dst) stream (read_cursor (dd_id dst) stream ?db)
          (min EXPORT_BATCH_SIZE (EXPORT_RUN_ROW_CAP - so_far)) ?db = Inr batch" and ne: "batch \<noteq> []"
      and d: "deliver n stream batch s = (res, s')"
      and r: "db' = ?f ?db \<or> (\<exists>u. res = Inr u \<and>
            db' = snd (finish_round env (dd_id dst) stream n so_far batch (?f ?db)))"
      using run by (fastforce simp: export_round_def Let_def split: option.splits sum.splits if_splits prod.splits)
    show ?thesis
    proof (cases "db' = ?f ?db")
      case True
      with handed_over [OF cov1 k1 f b d] k2 show ?thesis by simp
    next
      case False
      with r obtain u where u: "res = Inr u"
          "db' = snd (finish_round env (dd_id dst) stream n so_far batch (?f ?db))" by blast
      then have a: "advance_cursor (dd_id dst) stream (export_key (last batch)) (?f ?db) = Inr db'"
        using False by (auto simp: finish_round_def split: option.splits sum.splits if_splits)
      have "keyed db'" using k2 advance_cursor_Inr [OF a] by (simp add: keyed_def)
      with advanced [OF cov1 k1 f b ne d [unfolded u(1)] a] show ?thesis by simp
    qed
  qed
qed

lemma streams_covered:
  assumes "covered holds (dd_id dst) (dd_workspace dst) db s" and "keyed db" and "orderly (dd_id dst) env"
    and "export_streams deliver env dst streams n so_far db s = (e, db', s')"
  shows "covered holds (dd_id dst) (dd_workspace dst) db' s' \<and> keyed db'"
  using export_streams_invariant
    [where P = "\<lambda>db s. covered holds (dd_id dst) (dd_workspace dst) db s \<and> keyed db", OF _ _ assms(4)]
    round_covered [OF _ _ assms(3)] assms(1,2) by blast

end

section \<open>The two transports\<close>

text \<open>
  The table of a PostgreSQL destination has the version, and some request to the collector carried
  the version on a line of its own.
\<close>

definition table_holds :: "sink \<Rightarrow> string \<Rightarrow> uuid \<Rightarrow> json \<Rightarrow> bool" where
  "table_holds s stream i rec \<longleftrightarrow> (case sk_table s (stream, i) of None \<Rightarrow> False | Some (v, t) \<Rightarrow> v = rec)"

definition posted :: "(json \<Rightarrow> string option) \<Rightarrow> (time \<Rightarrow> string) \<Rightarrow> sink \<Rightarrow> string \<Rightarrow> uuid \<Rightarrow> json \<Rightarrow> bool" where
  "posted to_text rfc s stream i rec \<longleftrightarrow> (\<exists>p \<in> set (sk_posts s). \<exists>t batch r.
     ndjson to_text rfc stream t batch = Some (hp_body p) \<and> r \<in> set batch \<and> xr_id r = i \<and> xr_record r = rec)"

lemma upsert_batch_other:
  "st \<noteq> stream \<or> i \<notin> xr_id ` set batch \<Longrightarrow> sk_table (upsert_batch stream t batch s) (st, i) = sk_table s (st, i)"
  by (induction batch arbitrary: s) (auto simp: upsert_batch_def upsert_row_def)

lemma upsert_batch_row:
  assumes "distinct (map xr_id batch)" and "r \<in> set batch"
  shows "sk_table (upsert_batch stream t batch s) (stream, xr_id r) = Some (xr_record r, t)"
  using assms
proof (induction batch arbitrary: s)
  case (Cons x batch)
  show ?case
  proof (cases "r \<in> set batch")
    case True
    with Cons show ?thesis by (simp add: upsert_batch_def)
  next
    case False
    with Cons have "r = x" "xr_id x \<notin> xr_id ` set batch" by auto
    then show ?thesis
      using upsert_batch_other [of stream stream "xr_id x" batch t "upsert_row stream t x s"]
      by (simp add: upsert_batch_def upsert_row_def)
  qed
qed simp

lemma postgres_transport: "transport (\<lambda>n. deliver_postgres_batch (ans n) (now n)) table_holds"
proof
  fix batch n stream s u s' r
  assume "distinct (map xr_id batch)" "r \<in> set batch"
    and "deliver_postgres_batch (ans n) (now n) stream batch s = (Inr u, s')"
  then show "table_holds s' stream (xr_id r) (xr_record r)"
    by (cases "ans n") (auto simp: table_holds_def upsert_batch_row)
next
  fix n stream batch s res s' st i rec
  assume "deliver_postgres_batch (ans n) (now n) stream batch s = (res, s')" "table_holds s st i rec"
    and "st \<noteq> stream \<or> i \<notin> xr_id ` set batch"
  then show "table_holds s' st i rec"
    by (cases "ans n") (auto simp: table_holds_def upsert_batch_other)
qed

interpretation pg: transport "\<lambda>n. deliver_postgres_batch (ans n) (now n)" table_holds for ans now
  by (rule postgres_transport)

lemma http_transport:
  "transport (\<lambda>n. deliver_http_batch to_text rfc (ans n) (now n) config credentials) (posted to_text rfc)"
proof
  fix batch n stream s u s' r
  assume "r \<in> set batch"
    and "deliver_http_batch to_text rfc (ans n) (now n) config credentials stream batch s = (Inr u, s')"
  then show "posted to_text rfc s' stream (xr_id r) (xr_record r)"
    by (fastforce simp: deliver_http_batch_def posted_def Let_def
        split: http_answer.splits option.splits sum.splits prod.splits if_splits)
next
  fix n stream batch s res s' st i rec
  assume "deliver_http_batch to_text rfc (ans n) (now n) config credentials stream batch s = (res, s')"
    "posted to_text rfc s st i rec"
  moreover from this(1) have "set (sk_posts s) \<subseteq> set (sk_posts s')"
    by (auto simp: deliver_http_batch_def Let_def
        split: http_answer.splits option.splits sum.splits prod.splits if_splits)
  ultimately show "posted to_text rfc s' st i rec" unfolding posted_def by blast
qed

interpretation http: transport
  "\<lambda>n. deliver_http_batch to_text rfc (ans n) (now n) config credentials" "posted to_text rfc"
  for to_text rfc ans now config credentials
  by (rule http_transport)

end
