(* ===== verification/DestinationRuns.thy ===== *)
theory DestinationRuns
  imports DestinationFacts
begin

text \<open>
  Runs of the export loop without other requests in between: what a run that ends below its cap leaves
  behind, how much a run exports, and which streams it reaches.
\<close>

section \<open>The ways a round goes on\<close>

lemma round_parts:
  assumes "export_round deliver env dst stream n so_far db s = (e, db', s')"
  obtains (Stop) x where "e = Over x"
  | (Empty) "e = NextStream so_far" "db' = en_before env n db" "s' = s" "so_far < EXPORT_RUN_ROW_CAP"
      "fetch_export_batch (dd_workspace dst) stream (read_cursor (dd_id dst) stream (en_before env n db))
         (min EXPORT_BATCH_SIZE (EXPORT_RUN_ROW_CAP - so_far)) (en_before env n db) = Inr []"
  | (Page) batch u where
      "fetch_export_batch (dd_workspace dst) stream (read_cursor (dd_id dst) stream (en_before env n db))
         (min EXPORT_BATCH_SIZE (EXPORT_RUN_ROW_CAP - so_far)) (en_before env n db) = Inr batch"
      "batch \<noteq> []" "so_far < EXPORT_RUN_ROW_CAP" "deliver n stream batch s = (Inr u, s')"
      "advance_cursor (dd_id dst) stream (export_key (last batch)) (en_between env n (en_before env n db)) = Inr db'"
      "e = (if int (length batch) < EXPORT_BATCH_SIZE then NextStream (so_far + int (length batch))
            else SameStream (so_far + int (length batch)))"
proof (cases "\<exists>x. e = Over x")
  case True
  then show ?thesis using Stop by blast
next
  case False
  then have fails: "en_read_fails env n = None" "en_fetch_fails env n = None" "so_far < EXPORT_RUN_ROW_CAP"
    using assms by (auto simp: export_round_def Let_def split: option.splits if_splits)
  let ?db = "en_before env n db"
  let ?fetch = "fetch_export_batch (dd_workspace dst) stream (read_cursor (dd_id dst) stream ?db)
     (min EXPORT_BATCH_SIZE (EXPORT_RUN_ROW_CAP - so_far)) ?db"
  obtain batch where b: "?fetch = Inr batch"
    using assms False fails by (cases ?fetch) (auto simp: export_round_def Let_def)
  note run = assms [unfolded export_round_def Let_def fails option.case b sum.case]
  show ?thesis
  proof (cases "batch = []")
    case True
    with run False fails(3) b Empty show ?thesis by (auto split: if_splits)
  next
    case ne: False
    obtain res s1 where d: "deliver n stream batch s = (res, s1)" by (cases "deliver n stream batch s")
    obtain u where u: "res = Inr u" using run False fails(3) ne d by (cases res) (auto split: if_splits)
    obtain e1 db1 where fr: "finish_round env (dd_id dst) stream n so_far batch (en_between env n ?db) = (e1, db1)"
      by fastforce
    have eqs: "e1 = e" "db1 = db'" "s1 = s'"
      using run False fails(3) ne d u fr by (auto split: if_splits)
    have "advance_cursor (dd_id dst) stream (export_key (last batch)) (en_between env n ?db) = Inr db'
       \<and> e = (if int (length batch) < EXPORT_BATCH_SIZE then NextStream (so_far + int (length batch))
            else SameStream (so_far + int (length batch)))"
      using fr False unfolding eqs finish_round_def by (auto split: option.splits sum.splits if_splits)
    with Page [OF b ne fails(3)] d u eqs show ?thesis by simp
  qed
qed

section \<open>Quiet runs\<close>

definition quiet :: "export_env \<Rightarrow> bool" where
  "quiet env \<longleftrightarrow> (\<forall>n db. en_before env n db = db \<and> en_between env n db = db)"

definition pending :: "uuid \<Rightarrow> uuid \<Rightarrow> string \<Rightarrow> destination_db \<Rightarrow> export_row list" where
  "pending d w st db = filter (\<lambda>r. xr_workspace r = w \<and> read_cursor d st db < export_key r) (stream_rows st db)"

lemma fetch_pending:
  "fetch_export_batch w stream (read_cursor d stream db) k db = Inr batch
     \<Longrightarrow> batch = take (nat k) (sort_key export_key (pending d w stream db))"
  by (auto simp: pending_def dest: fetch_known(2))

lemma moved_cursor:
  assumes "advance_cursor d stream key db = Inr db'"
  shows "stream_rows st db' = stream_rows st db"
    and "read_cursor d st db' = (if st = stream then key else read_cursor d st db)"
  using advance_cursor_Inr [OF assms] by simp_all

lemma sorted_le_last: "sorted (map f xs) \<Longrightarrow> y \<in> set xs \<Longrightarrow> f y \<le> f (last xs)"
  by (induction xs rule: rev_induct) (auto simp: sorted_append)

lemma drop_sorted_above:
  fixes f :: "'a \<Rightarrow> 'b :: linorder"
  assumes "k \<noteq> 0" and "xs \<noteq> []" and "inj_on f (set xs)" and "distinct xs"
  shows "sort_key f (filter (\<lambda>x. f (last (take k (sort_key f xs))) < f x) xs) = drop k (sort_key f xs)"
proof -
  let ?s = "sort_key f xs"
  let ?l = "last (take k ?s)"
  have ne: "take k ?s \<noteq> []" using assms by simp (metis length_0_conv length_sort)
  have "sorted (map f ?s)" and "distinct (map f ?s)" using assms(3,4) by (simp_all add: distinct_map)
  then have st: "sorted_wrt (<) (map f (take k ?s @ drop k ?s))" by (simp add: strict_sorted_iff)
  then have up: "\<forall>y \<in> set (drop k ?s). f ?l < f y"
    unfolding map_append sorted_wrt_append using last_in_set [OF ne] by auto
  have "\<forall>y \<in> set (take k ?s). f y \<le> f ?l"
    using sorted_le_last [of f "take k ?s"] by (simp flip: take_map)
  then have "filter (\<lambda>x. f ?l < f x) (take k ?s) = []" by (auto simp: filter_empty_conv not_less)
  moreover have "filter (\<lambda>x. f ?l < f x) (drop k ?s) = drop k ?s" using up by (simp add: filter_id_conv)
  ultimately have "filter (\<lambda>x. f ?l < f x) (take k ?s @ drop k ?s) = drop k ?s"
    unfolding filter_append by (simp only: append_Nil)
  then have "filter (\<lambda>x. f ?l < f x) ?s = drop k ?s" by (simp only: append_take_drop_id)
  then show ?thesis by (simp only: filter_sort)
qed

lemma pending_moved:
  assumes "keyed db" and b: "fetch_export_batch w stream (read_cursor d stream db) k db = Inr batch"
    and ne: "batch \<noteq> []" and a: "advance_cursor d stream (export_key (last batch)) db = Inr db'"
  shows "sort_key export_key (pending d w stream db') = drop (nat k) (sort_key export_key (pending d w stream db))"
proof -
  have ids: "distinct (map xr_id (stream_rows stream db))"
    using assms(1) fetch_known(1) [OF b] by (simp add: keyed_def)
  have lb: "read_cursor d stream db < export_key (last batch)"
    using page_row(2) [OF b last_in_set [OF ne]] .
  have "pending d w stream db' = filter (\<lambda>x. export_key (last batch) < export_key x) (pending d w stream db)"
    using lb by (auto simp: pending_def moved_cursor [OF a] intro!: filter_cong)
  moreover have "inj_on export_key (set (pending d w stream db))"
    using keys_of_ids [OF ids] by (rule inj_on_subset) (auto simp: pending_def)
  moreover have "distinct (pending d w stream db)"
    using ids by (simp add: pending_def distinct_map)
  ultimately show ?thesis
    using drop_sorted_above [of "nat k" "pending d w stream db" export_key] ne fetch_pending [OF b]
    by (cases "pending d w stream db = []") auto
qed

lemma page_length:
  assumes "fetch_export_batch w stream (read_cursor d stream db) k db = Inr batch"
  shows "length batch = min (length (pending d w stream db)) (nat k)"
  using fetch_pending [OF assms] by simp

lemma over_exported:
  "export_round deliver env dst stream n so_far db s = (Over (Exported m), x) \<Longrightarrow> m = so_far \<and> EXPORT_RUN_ROW_CAP \<le> so_far"
  by (auto simp: export_round_def finish_round_def Let_def split: option.splits sum.splits if_splits prod.splits)

section \<open>How much a run exports\<close>

lemma round_grow:
  assumes "export_round deliver env dst stream n so_far db s = (e, x)" and "e = NextStream k \<or> e = SameStream k"
  shows "so_far \<le> k" and "k \<le> EXPORT_RUN_ROW_CAP"
proof -
  obtain db1 s1 where r: "export_round deliver env dst stream n so_far db s = (e, db1, s1)"
    using assms(1) by (cases x) simp
  have "so_far \<le> k \<and> k \<le> EXPORT_RUN_ROW_CAP"
    using r
  proof (cases rule: round_parts)
    case (Page batch u)
    have "int (length batch) \<le> EXPORT_RUN_ROW_CAP - so_far" using page_length [OF Page(1)] Page(3) by linarith
    with Page(6) assms(2) show ?thesis by (auto split: if_splits)
  qed (use assms(2) in auto)
  then show "so_far \<le> k" and "k \<le> EXPORT_RUN_ROW_CAP" by simp_all
qed

lemma streams_bounds:
  assumes "export_streams deliver env dst streams n so_far db s = (Exported m, x)" and "so_far \<le> EXPORT_RUN_ROW_CAP"
  shows "so_far \<le> m \<and> m \<le> EXPORT_RUN_ROW_CAP"
  using assms
proof (induction deliver env dst streams n so_far db s rule: export_streams.induct)
  case (2 deliver env dst stream streams n so_far db s)
  obtain e db1 s1 where r: "export_round deliver env dst stream n so_far db s = (e, db1, s1)"
    by (metis prod_cases3)
  note grow = round_grow [OF r]
  show ?case
  proof (cases e)
    case (Over x)
    with 2 r show ?thesis by (auto dest!: over_exported)
  next
    case (NextStream k)
    with 2 r grow [of k] show ?thesis by fastforce
  next
    case (SameStream k)
    with 2 r grow [of k] show ?thesis by fastforce
  qed
qed simp

section \<open>What a quiet run leaves behind\<close>

lemma quiet_before [simp]: "quiet env \<Longrightarrow> en_before env n db = db"
  and quiet_between [simp]: "quiet env \<Longrightarrow> en_between env n db = db"
  by (simp_all add: quiet_def)

lemma quiet_round:
  assumes "quiet env" and "export_round deliver env dst stream n so_far db s = (e, db', s')"
  shows "stream_rows st db' = stream_rows st db \<and> (st = stream \<or> read_cursor (dd_id dst) st db' = read_cursor (dd_id dst) st db)"
proof -
  have "db' = db \<or> (\<exists>batch. advance_cursor (dd_id dst) stream (export_key (last batch)) db = Inr db')"
    using assms by (auto simp: export_round_def finish_round_def Let_def
        split: option.splits sum.splits if_splits prod.splits)
  then show ?thesis by (auto simp: moved_cursor [of "dd_id dst" stream] split: if_splits)
qed

lemma pending_frame:
  "stream_rows st db' = stream_rows st db \<Longrightarrow> read_cursor d st db' = read_cursor d st db
     \<Longrightarrow> pending d w st db' = pending d w st db"
  by (simp add: pending_def)

lemma quiet_next:
  assumes "quiet env" and "keyed db"
    and "export_round deliver env dst stream n so_far db s = (NextStream m, db', s')" and "m < EXPORT_RUN_ROW_CAP"
  shows "pending (dd_id dst) (dd_workspace dst) stream db' = []"
  using assms(3)
proof (cases rule: round_parts)
  case Empty
  note b = Empty(5) [unfolded quiet_before [OF assms(1)]]
  have "length (pending (dd_id dst) (dd_workspace dst) stream db) = 0"
    using page_length [OF b] Empty(4) by (simp add: EXPORT_BATCH_SIZE_def min_def split: if_splits)
  with Empty(2) assms(1) show ?thesis by simp
next
  case (Page batch u)
  note b = Page(1) [unfolded quiet_before [OF assms(1)]]
  note a = Page(5) [unfolded quiet_before [OF assms(1)] quiet_between [OF assms(1)]]
  have "int (length batch) < EXPORT_BATCH_SIZE" "m = so_far + int (length batch)"
    using Page(6) by (auto split: if_splits)
  then have "length (pending (dd_id dst) (dd_workspace dst) stream db)
      \<le> nat (min EXPORT_BATCH_SIZE (EXPORT_RUN_ROW_CAP - so_far))"
    using page_length [OF b] assms(4) by linarith
  then have "length (sort_key export_key (pending (dd_id dst) (dd_workspace dst) stream db')) = 0"
    unfolding pending_moved [OF assms(2) b Page(2) a] by simp
  then show ?thesis by simp
qed auto

lemma quiet_keyed:
  assumes "quiet env" and "export_round deliver env dst stream n so_far db s = (e, db', s')"
  shows "keyed db' = keyed db"
  using quiet_round [OF assms] by (simp add: keyed_def)

lemma quiet_frame:
  assumes "quiet env" and "export_streams deliver env dst streams n so_far db s = (e, db', s')"
  shows "stream_rows st db' = stream_rows st db
    \<and> (st \<notin> set streams \<longrightarrow> read_cursor (dd_id dst) st db' = read_cursor (dd_id dst) st db)"
  using assms
proof (induction deliver env dst streams n so_far db s rule: export_streams.induct)
  case (2 deliver env dst stream streams n so_far db s)
  obtain x db1 s1 where r: "export_round deliver env dst stream n so_far db s = (x, db1, s1)"
    by (metis prod_cases3)
  show ?case using quiet_round [OF "2.prems"(1) r, of st] 2 r by (cases x) fastforce+
qed simp

lemma quiet_complete:
  assumes "quiet env" and "keyed db" and "distinct streams" and "so_far \<le> EXPORT_RUN_ROW_CAP"
    and "export_streams deliver env dst streams n so_far db s = (Exported m, db', s')" and "m < EXPORT_RUN_ROW_CAP"
  shows "\<forall>st \<in> set streams. pending (dd_id dst) (dd_workspace dst) st db' = []"
  using assms
proof (induction deliver env dst streams n so_far db s rule: export_streams.induct)
  case (2 deliver env dst stream streams n so_far db s)
  obtain x db1 s1 where r: "export_round deliver env dst stream n so_far db s = (x, db1, s1)"
    by (metis prod_cases3)
  have k: "keyed db1" using quiet_keyed [OF "2.prems"(1) r] "2.prems"(2) by simp
  show ?case
  proof (cases x)
    case (Over y)
    with r "2.prems" show ?thesis by (auto dest!: over_exported)
  next
    case (NextStream j)
    have run: "export_streams deliver env dst streams (Suc n) j db1 s1 = (Exported m, db', s')"
      using "2.prems"(5) r NextStream by simp
    have le: "j \<le> EXPORT_RUN_ROW_CAP" using round_grow(2) [OF r] NextStream by blast
    have "pending (dd_id dst) (dd_workspace dst) stream db1 = []"
      using quiet_next [OF "2.prems"(1,2) r [unfolded NextStream]] streams_bounds [OF run le] "2.prems"(6) by simp
    then have "pending (dd_id dst) (dd_workspace dst) stream db' = []"
      using quiet_frame [OF "2.prems"(1) run, of stream] "2.prems"(3) by (simp add: pending_def)
    moreover have "\<forall>st \<in> set streams. pending (dd_id dst) (dd_workspace dst) st db' = []"
      using "2.IH"(1) [OF r [symmetric] NextStream refl "2.prems"(1) k _ le run] "2.prems"(3,6) by simp
    ultimately show ?thesis by simp
  next
    case (SameStream j)
    have "j \<le> EXPORT_RUN_ROW_CAP" using round_grow(2) [OF r] SameStream by blast
    then show ?thesis
      using "2.IH"(2) [OF r [symmetric] SameStream refl "2.prems"(1) k "2.prems"(3)] "2.prems"(5,6) r SameStream by simp
  qed
qed simp

section \<open>The streams a run reaches\<close>

lemma starved_next:
  assumes "quiet env" and "keyed db"
    and "export_round deliver env dst stream n so_far db s = (e, db', s')"
    and "EXPORT_RUN_ROW_CAP - so_far \<le> int (length (pending (dd_id dst) (dd_workspace dst) stream db))"
  shows "e = NextStream m \<Longrightarrow> m = EXPORT_RUN_ROW_CAP"
    and "e = SameStream m \<Longrightarrow>
      EXPORT_RUN_ROW_CAP - m \<le> int (length (pending (dd_id dst) (dd_workspace dst) stream db'))"
proof -
  have "(e = NextStream m \<longrightarrow> m = EXPORT_RUN_ROW_CAP) \<and> (e = SameStream m \<longrightarrow>
      EXPORT_RUN_ROW_CAP - m \<le> int (length (pending (dd_id dst) (dd_workspace dst) stream db')))"
    using assms(3)
  proof (cases rule: round_parts)
    case Empty
    note b = Empty(5) [unfolded quiet_before [OF assms(1)]]
    show ?thesis using page_length [OF b] Empty(4) assms(4) by (simp add: EXPORT_BATCH_SIZE_def)
  next
    case (Page batch u)
    note b = Page(1) [unfolded quiet_before [OF assms(1)]]
    note a = Page(5) [unfolded quiet_before [OF assms(1)] quiet_between [OF assms(1)]]
    have len: "int (length batch) = min EXPORT_BATCH_SIZE (EXPORT_RUN_ROW_CAP - so_far)"
      using page_length [OF b] assms(4) Page(3) by (simp add: EXPORT_BATCH_SIZE_def)
    have "length (sort_key export_key (pending (dd_id dst) (dd_workspace dst) stream db'))
        = length (pending (dd_id dst) (dd_workspace dst) stream db) - length batch"
      unfolding pending_moved [OF assms(2) b Page(2) a] using len by simp
    then show ?thesis using Page(3,6) len assms(4) by (auto split: if_splits)
  qed auto
  then show "e = NextStream m \<Longrightarrow> m = EXPORT_RUN_ROW_CAP"
    and "e = SameStream m \<Longrightarrow>
      EXPORT_RUN_ROW_CAP - m \<le> int (length (pending (dd_id dst) (dd_workspace dst) stream db'))" by blast+
qed

lemma round_at_cap:
  "quiet env \<Longrightarrow> \<exists>x. export_round deliver env dst stream n EXPORT_RUN_ROW_CAP db s = (Over x, db, s)"
  by (auto simp: export_round_def Let_def split: option.split)

text \<open>What only depends on the table and on another stream is kept by a run that never leaves its first stream.\<close>

lemma starved_streams:
  assumes "quiet env" and "keyed db"
    and "EXPORT_RUN_ROW_CAP - so_far \<le> int (length (pending (dd_id dst) (dd_workspace dst) stream db))"
    and "\<And>n batch s. P s \<Longrightarrow> P (snd (deliver n stream batch s))" and "P s"
    and "export_streams deliver env dst [stream, other] n so_far db s = (e, db', s')" and "other \<noteq> stream"
  shows "read_cursor (dd_id dst) other db' = read_cursor (dd_id dst) other db \<and> P s'"
  using assms
proof (induction deliver env dst "[stream, other]" n so_far db s rule: export_streams.induct)
  case (2 deliver env dst n so_far db s)
  note prems = "2.prems"
  obtain x db1 s1 where r: "export_round deliver env dst stream n so_far db s = (x, db1, s1)"
    by (metis prod_cases3)
  have same: "read_cursor (dd_id dst) other db1 = read_cursor (dd_id dst) other db"
    using quiet_round [OF prems(1) r, of other] prems(7) by simp
  have p1: "P s1"
  proof -
    have "s1 = s \<or> (\<exists>batch res. deliver n stream batch s = (res, s1))"
      using r by (fastforce simp: export_round_def Let_def split: option.splits sum.splits if_splits prod.splits)
    then show ?thesis using prems(4) [OF prems(5)] prems(5) by (metis snd_conv)
  qed
  show ?case
  proof (cases x)
    case (Over y)
    with prems(6) r same p1 show ?thesis by simp
  next
    case (NextStream m)
    with starved_next(1) [OF prems(1,2) r prems(3)] have "m = EXPORT_RUN_ROW_CAP" by simp
    with round_at_cap [OF prems(1), of deliver dst other "Suc n" db1 s1] prems(6) r NextStream
    have "db' = db1" "s' = s1" by auto
    with same p1 show ?thesis by simp
  next
    case (SameStream m)
    have k: "keyed db1" using quiet_keyed [OF prems(1) r] prems(2) by simp
    have run: "export_streams deliver env dst [stream, other] (Suc n) m db1 s1 = (e, db', s')"
      using prems(6) r SameStream by simp
    show ?thesis
      using "2.hyps" [OF r [symmetric] SameStream refl prems(1) k
          starved_next(2) [OF prems(1,2) r prems(3) SameStream] prems(4) p1 run prems(7)] same by simp
  qed
qed

end
