(* ===== verification/DestinationGuarantees.thy ===== *)
theory DestinationGuarantees
  imports DestinationRuns
begin

text \<open>
  What the export of a destination guarantees over any history of runs: with failures, lost answers,
  time limits and restarts anywhere, and the work of other requests in between.
\<close>

section \<open>Histories of runs\<close>

record export_attempt =
  at_meanwhile :: "destination_db \<Rightarrow> destination_db"
  at_job :: destination_job
  at_env :: export_env
  at_cause :: drop_cause
  at_finish_fails :: bool
  at_now :: time

definition attempt_run ::
  "text_forms \<Rightarrow> string \<Rightarrow> export_attempt \<Rightarrow> destination_db \<Rightarrow> sink \<Rightarrow> destination_db \<times> sink" where
  "attempt_run tf secret a db s =
     drain_data_destination tf secret (at_env a) (at_cause a) (at_finish_fails a) (at_now a) (at_job a)
       (at_meanwhile a db) s"

fun export_history ::
  "text_forms \<Rightarrow> string \<Rightarrow> export_attempt list \<Rightarrow> destination_db \<Rightarrow> sink \<Rightarrow> destination_db \<times> sink" where
  "export_history tf secret [] db s = (db, s)"
| "export_history tf secret (a # as) db s =
     (case attempt_run tf secret a db s of (db', s') \<Rightarrow> export_history tf secret as db' s')"

definition of_destination :: "destination_row \<Rightarrow> destination_job \<Rightarrow> bool" where
  "of_destination d job \<longleftrightarrow> dd_id (dj_destination job) = dd_id d \<and> dd_workspace (dj_destination job) = dd_workspace d
     \<and> dd_kind (dj_destination job) = dd_kind d"

definition orderly_attempt :: "destination_row \<Rightarrow> export_attempt \<Rightarrow> bool" where
  "orderly_attempt d a \<longleftrightarrow> of_destination d (at_job a) \<and> in_order (dd_id d) (at_meanwhile a) \<and> orderly (dd_id d) (at_env a)"

section \<open>The transport of a destination\<close>

definition kind_holds :: "text_forms \<Rightarrow> string \<Rightarrow> sink \<Rightarrow> string \<Rightarrow> uuid \<Rightarrow> json \<Rightarrow> bool" where
  "kind_holds tf kind s stream i rec \<longleftrightarrow>
     (if kind = KIND_POSTGRES then table_holds s stream i rec
      else posted (ci_to_text (tf_cipher tf)) (tf_rfc tf) s stream i rec)"

interpretation engine: transport "\<lambda>n. deliver_batch tf env n d credentials" "kind_holds tf (dd_kind d)"
  for tf env d credentials
proof (cases "dd_kind d = KIND_POSTGRES")
  case True
  then show "transport (\<lambda>n. deliver_batch tf env n d credentials) (kind_holds tf (dd_kind d))"
    using postgres_transport unfolding deliver_batch_def kind_holds_def transport_def by simp
next
  case False
  show "transport (\<lambda>n. deliver_batch tf env n d credentials) (kind_holds tf (dd_kind d))"
  proof (cases "dd_kind d = KIND_HTTP_NDJSON")
    case True
    then show ?thesis using http_transport False unfolding deliver_batch_def kind_holds_def transport_def by simp
  next
    case False
    with \<open>dd_kind d \<noteq> KIND_POSTGRES\<close> show ?thesis
      unfolding deliver_batch_def kind_holds_def transport_def by simp
  qed
qed

lemma finish_keeps:
  "stream_rows st (finish_data_destination_run now job outcome db) = stream_rows st db"
  "ds_cursors (finish_data_destination_run now job outcome db) = ds_cursors db"
  by (simp_all add: finish_data_destination_run_def stream_rows_def)

lemma drain_parts:
  assumes "drain_data_destination tf secret env cause ff now job db s = (db', s')"
  obtains e db1 where "export_destination tf secret env job db s = (e, db1, s')"
    and "ds_cursors db' = ds_cursors db1" and "\<And>st. stream_rows st db' = stream_rows st db1"
proof -
  obtain e db1 s1 where e: "export_destination tf secret env job db s = (e, db1, s1)" by (metis prod_cases3)
  have "db' = db1 \<or> (\<exists>outcome. db' = finish_data_destination_run now job outcome db1)" "s' = s1"
    using assms e by (auto simp: drain_data_destination_def Let_def split: export_end.splits drop_cause.splits if_splits)
  then show ?thesis using that [OF e [folded \<open>s' = s1\<close>]] finish_keeps by metis
qed

lemma export_destination_streams:
  assumes "export_destination tf secret env job db s = (e, db', s')"
  obtains (Sealed) msg where "e = ExportFailed msg" "db' = db" "s' = s"
  | (Run) credentials where "export_streams (\<lambda>n. deliver_batch tf env n (dj_destination job) credentials) env
      (dj_destination job) STREAMS 0 0 db s = (e, db', s')"
  using assms by (auto simp: export_destination_def split: option.splits sum.splits)

text \<open>What every round keeps and only depends on cursors and rows, a history keeps.\<close>

lemma history_invariant:
  assumes round: "\<And>a credentials stream n so_far db s e db' s'. a \<in> set as \<Longrightarrow> P db s
      \<Longrightarrow> export_round (\<lambda>n. deliver_batch tf (at_env a) n (dj_destination (at_job a)) credentials) (at_env a)
            (dj_destination (at_job a)) stream n so_far db s = (e, db', s') \<Longrightarrow> P db' s'"
    and meanwhile: "\<And>a db s. a \<in> set as \<Longrightarrow> P db s \<Longrightarrow> P (at_meanwhile a db) s"
    and cong: "\<And>db db' s. P db s \<Longrightarrow> ds_cursors db' = ds_cursors db
      \<Longrightarrow> (\<And>st. stream_rows st db' = stream_rows st db) \<Longrightarrow> P db' s"
    and start: "P db s" and run: "export_history tf secret as db s = (db', s')"
  shows "P db' s'"
  using round meanwhile start run
proof (induction as arbitrary: db s)
  case (Cons a as)
  obtain db1 s1 where a: "attempt_run tf secret a db s = (db1, s1)" by (metis prod.exhaust)
  obtain e db2 where e: "export_destination tf secret (at_env a) (at_job a) (at_meanwhile a db) s = (e, db2, s1)"
    and same: "ds_cursors db1 = ds_cursors db2" "\<forall>st. stream_rows st db1 = stream_rows st db2"
    by (rule drain_parts [OF a [unfolded attempt_run_def]]) blast
  have m: "P (at_meanwhile a db) s" using Cons.prems(2,3) by simp
  from e have "P db2 s1"
  proof (cases rule: export_destination_streams)
    case (Run credentials)
    show ?thesis
      by (rule export_streams_invariant [where P = P, OF _ m Run], rule Cons.prems(1) [of a]) simp_all
  qed (use m in simp)
  then have p1: "P db1 s1" using cong same by blast
  show ?case
    by (rule Cons.IH [OF _ _ p1], erule Cons.prems(1) [OF list.set_intros(2)], assumption+,
        erule Cons.prems(2) [OF list.set_intros(2)], assumption)
      (use Cons.prems(4) a in simp)
qed simp

lemma history_covered:
  assumes "covered (kind_holds tf (dd_kind d)) (dd_id d) (dd_workspace d) db s" and "keyed db"
    and "\<forall>a \<in> set as. orderly_attempt d a" and "export_history tf secret as db s = (db', s')"
  shows "covered (kind_holds tf (dd_kind d)) (dd_id d) (dd_workspace d) db' s' \<and> keyed db'"
proof (rule history_invariant [where P = "\<lambda>db s. covered (kind_holds tf (dd_kind d)) (dd_id d) (dd_workspace d) db s \<and> keyed db",
      OF _ _ _ _ assms(4)])
  fix a credentials stream n so_far db s e db' s'
  assume a: "a \<in> set as" and p: "covered (kind_holds tf (dd_kind d)) (dd_id d) (dd_workspace d) db s \<and> keyed db"
    and r: "export_round (\<lambda>n. deliver_batch tf (at_env a) n (dj_destination (at_job a)) credentials) (at_env a)
            (dj_destination (at_job a)) stream n so_far db s = (e, db', s')"
  have o: "of_destination d (at_job a)" "orderly (dd_id d) (at_env a)"
    using assms(3) a by (auto simp: orderly_attempt_def)
  then have eqs: "dd_id (dj_destination (at_job a)) = dd_id d" "dd_workspace (dj_destination (at_job a)) = dd_workspace d"
    "dd_kind (dj_destination (at_job a)) = dd_kind d" by (simp_all add: of_destination_def)
  show "covered (kind_holds tf (dd_kind d)) (dd_id d) (dd_workspace d) db' s' \<and> keyed db'"
    using engine.round_covered [OF _ _ _ r, unfolded eqs] p o(2) by blast
next
  fix a db s
  assume "a \<in> set as" and "covered (kind_holds tf (dd_kind d)) (dd_id d) (dd_workspace d) db s \<and> keyed db"
  then show "covered (kind_holds tf (dd_kind d)) (dd_id d) (dd_workspace d) (at_meanwhile a db) s \<and> keyed (at_meanwhile a db)"
    using assms(3) in_order_covered in_order_keyed unfolding orderly_attempt_def by blast
next
  fix db db' s
  assume "covered (kind_holds tf (dd_kind d)) (dd_id d) (dd_workspace d) db s \<and> keyed db"
    and "ds_cursors db' = ds_cursors db" and "\<And>st. stream_rows st db' = stream_rows st db"
  then show "covered (kind_holds tf (dd_kind d)) (dd_id d) (dd_workspace d) db' s \<and> keyed db'"
    by (simp add: covered_def keyed_def read_cursor_def)
qed (use assms(1,2) in simp)

section \<open>A run that ends short leaves a mirror\<close>

definition fresh :: "destination_row \<Rightarrow> destination_db \<Rightarrow> bool" where
  "fresh d db \<longleftrightarrow> (\<forall>st \<in> set STREAMS. read_cursor (dd_id d) st db = (0, 0) \<and>
     (\<forall>r \<in> set (stream_rows st db). (0, 0) < export_key r))"

lemma fresh_covered: "fresh d db \<Longrightarrow> covered holds (dd_id d) w db s"
  by (fastforce simp: fresh_def covered_def)

lemma quiet_orderly: "quiet env \<Longrightarrow> orderly d env"
proof -
  assume "quiet env"
  then have "en_before env n = (\<lambda>db. db)" and "en_between env n = (\<lambda>db. db)" for n
    by (auto simp: fun_eq_iff)
  then show ?thesis by (auto simp: orderly_def in_order_def)
qed

lemma STREAMS_distinct: "distinct STREAMS"
  by (simp add: STREAMS_def STREAM_INTERACTIONS_def STREAM_FEEDBACK_REPORTS_def)

definition sample_destination :: destination_row where
  "sample_destination = \<lparr>dd_id = 1, dd_workspace = 7, dd_name = ''warehouse'', dd_kind = KIND_POSTGRES,
     dd_config = JObj [(''schema'', JStr ''public'')], dd_sealed = None, dd_enabled = True, dd_interval = 300,
     dd_next_sync_at = 0, dd_claimed_at = Some 50, dd_claim_token = Some 9, dd_created_at = 0, dd_updated_at = 50\<rparr>"

definition sample_job :: destination_job where
  "sample_job = \<lparr>dj_destination = sample_destination, dj_claim_token = 9, dj_run_id = 5\<rparr>"

definition sample_export_row :: "time \<Rightarrow> uuid \<Rightarrow> string \<Rightarrow> export_row" where
  "sample_export_row t i v = \<lparr>xr_workspace = 7, xr_at = t, xr_id = i, xr_record = JStr v\<rparr>"

definition sample_tables :: destination_db where
  "sample_tables = \<lparr>ds_destinations = [sample_destination], ds_runs = [], ds_cursors = [],
     ds_interactions = [sample_export_row 20 4 ''b'', sample_export_row 10 3 ''a''],
     ds_reports = [sample_export_row 30 8 ''c'']\<rparr>"

definition empty_sink :: sink where
  "empty_sink = \<lparr>sk_table = (\<lambda>_. None), sk_posts = []\<rparr>"

definition sample_env :: "pg_answer \<Rightarrow> export_env" where
  "sample_env a = \<lparr>en_now = (\<lambda>n. 60), en_before = (\<lambda>n db. db), en_between = (\<lambda>n db. db), en_read_fails = (\<lambda>n. None),
     en_fetch_fails = (\<lambda>n. None), en_advance_fails = (\<lambda>n. None), en_pg = (\<lambda>n. a), en_http = (\<lambda>n. HttpStatus 200 ''OK''),
     en_cut = (\<lambda>n. None)\<rparr>"

definition sample_forms :: text_forms where
  "sample_forms = \<lparr>tf_cipher = \<lparr>ci_sha256 = (\<lambda>x. x), ci_encrypt = (\<lambda>k n p. None), ci_decrypt = (\<lambda>k n x. None),
       ci_to_text = (\<lambda>v. None), ci_of_text = (\<lambda>t. None)\<rparr>, tf_rfc = (\<lambda>t. []), tf_debug = (\<lambda>s. s)\<rparr>"

definition sample_attempt :: "pg_answer \<Rightarrow> export_attempt" where
  "sample_attempt a = \<lparr>at_meanwhile = (\<lambda>db. db), at_job = sample_job, at_env = sample_env a, at_cause = Abandoned,
     at_finish_fails = False, at_now = 70\<rparr>"

lemma sample_env_quiet: "quiet (sample_env a)"
  by (simp add: quiet_def sample_env_def)

lemma in_order_id: "in_order d (\<lambda>db. db)"
  by (simp add: in_order_def)

lemma sample_attempt_orderly: "orderly_attempt sample_destination (sample_attempt a)"
  using quiet_orderly [OF sample_env_quiet]
  by (simp add: orderly_attempt_def sample_attempt_def of_destination_def sample_job_def in_order_id)

text \<open>After a run whose commit answer was lost and one that could not connect.\<close>

definition sample_history :: "destination_db \<times> sink" where
  "sample_history = export_history sample_forms [] [sample_attempt (PgCommitFailed True ''eof''),
     sample_attempt (PgConnectFailed ''dns'')] sample_tables empty_sink"

definition sample_run :: "export_end \<times> destination_db \<times> sink" where
  "sample_run = export_destination sample_forms [] (sample_env PgCommitted) sample_job (fst sample_history) (snd sample_history)"

lemma sample_run_ends: "fst sample_run = Exported 3"
  by code_simp

lemma sample_run_rows: "ds_reports (fst (snd sample_run)) = ds_reports sample_tables"
  by code_simp

text \<open>
  C11. Under the condition that other requests commit new versions of rows in the order of their keys
  (each above the cursor and above every visible row of its stream, \<open>in_order\<close>; the service does not
  ensure it, see the next section), and that the ids of a stream stay unique: whatever happened to earlier runs of a destination since its creation (refused or
  lost deliveries, failed statements, time limits, restarts), when a run meets no error and no work of
  others while it lasts and exports fewer rows than its cap, the customer's system has the current
  version of every interaction and every report of the team.
\<close>

theorem a_short_run_leaves_a_mirror:
  assumes "fresh d db" and "keyed db" and "\<forall>a \<in> set as. orderly_attempt d a"
    and "export_history tf secret as db s = (db1, s1)"
    and "quiet env" and "of_destination d job"
    and "export_destination tf secret env job db1 s1 = (Exported m, db2, s2)" and "m < EXPORT_RUN_ROW_CAP"
    and "st \<in> set STREAMS" and "r \<in> set (stream_rows st db2)" and "xr_workspace r = dd_workspace d"
  shows "kind_holds tf (dd_kind d) s2 st (xr_id r) (xr_record r)"
proof -
  have eqs: "dd_id (dj_destination job) = dd_id d" "dd_workspace (dj_destination job) = dd_workspace d"
    "dd_kind (dj_destination job) = dd_kind d" using assms(6) by (simp_all add: of_destination_def)
  note start = history_covered [OF fresh_covered [OF assms(1)] assms(2,3,4)]
  from assms(7) show ?thesis
  proof (cases rule: export_destination_streams)
    case (Run credentials)
    have "covered (kind_holds tf (dd_kind d)) (dd_id d) (dd_workspace d) db2 s2"
      using engine.streams_covered [OF _ _ quiet_orderly [OF assms(5)] Run, unfolded eqs] start by blast
    moreover have "pending (dd_id d) (dd_workspace d) st db2 = []"
      using quiet_complete [OF assms(5) _ STREAMS_distinct _ Run assms(8), unfolded eqs] start assms(9)
      by (simp add: EXPORT_RUN_ROW_CAP_def)
    then have "export_key r \<le> read_cursor (dd_id d) st db2"
      using assms(10,11) by (auto simp: pending_def filter_empty_conv)
    ultimately show ?thesis using assms(9,10,11) by (simp add: covered_def)
  qed simp
qed

theorem a_short_run_leaves_a_mirror_witness:
  "kind_holds sample_forms (dd_kind sample_destination) (snd (snd sample_run)) STREAM_FEEDBACK_REPORTS 8 (JStr ''c'')"
proof -
  have "fresh sample_destination sample_tables" and "keyed sample_tables" by code_simp+
  moreover have "\<forall>a \<in> set [sample_attempt (PgCommitFailed True ''eof''), sample_attempt (PgConnectFailed ''dns'')].
      orderly_attempt sample_destination a"
    by (simp add: sample_attempt_orderly)
  moreover have "export_history sample_forms [] [sample_attempt (PgCommitFailed True ''eof''),
      sample_attempt (PgConnectFailed ''dns'')] sample_tables empty_sink = (fst sample_history, snd sample_history)"
    by (simp add: sample_history_def)
  moreover have "of_destination sample_destination sample_job" by code_simp
  moreover have "export_destination sample_forms [] (sample_env PgCommitted) sample_job (fst sample_history) (snd sample_history)
      = (Exported 3, fst (snd sample_run), snd (snd sample_run))"
    using sample_run_ends by (simp add: sample_run_def prod_eq_iff)
  moreover have "sample_export_row 30 8 ''c'' \<in> set (stream_rows STREAM_FEEDBACK_REPORTS (fst (snd sample_run)))"
    using sample_run_rows by (simp add: stream_rows_def sample_tables_def STREAM_FEEDBACK_REPORTS_def STREAM_INTERACTIONS_def)
  ultimately show ?thesis
    using a_short_run_leaves_a_mirror [of sample_destination sample_tables
        "[sample_attempt (PgCommitFailed True ''eof''), sample_attempt (PgConnectFailed ''dns'')]" sample_forms "[]"
        empty_sink "fst sample_history" "snd sample_history" "sample_env PgCommitted" sample_job 3
        "fst (snd sample_run)" "snd (snd sample_run)" STREAM_FEEDBACK_REPORTS "sample_export_row 30 8 ''c''"]
    by (simp add: sample_env_quiet EXPORT_RUN_ROW_CAP_def STREAMS_def sample_export_row_def sample_destination_def)
qed

section \<open>A row committed behind the cursor\<close>

definition behind :: "destination_row \<Rightarrow> string \<Rightarrow> export_row \<Rightarrow> destination_db \<Rightarrow> bool" where
  "behind d st r db \<longleftrightarrow> keyed db \<and> st \<in> set STREAMS \<and> r \<in> set (stream_rows st db)
     \<and> export_key r \<le> read_cursor (dd_id d) st db"

lemma round_behind:
  assumes d: "dd_id dst = dd_id d" "dd_kind dst = KIND_POSTGRES"
    and keeps: "\<And>db. behind d st r db \<Longrightarrow> behind d st r (en_before env n db)"
      "\<And>db. behind d st r db \<Longrightarrow> behind d st r (en_between env n db)"
    and b: "behind d st r db"
    and run: "export_round (\<lambda>n. deliver_batch tf env n dst credentials) env dst stream n so_far db s = (e, db', s')"
  shows "behind d st r db' \<and> sk_table s' (st, xr_id r) = sk_table s (st, xr_id r)"
proof -
  let ?db = "en_before env n db"
  have b1: "behind d st r ?db" and b2: "behind d st r (en_between env n ?db)" using keeps b by blast+
  show ?thesis
  proof (cases "db' = ?db \<and> s' = s")
    case False
    then obtain batch res where f: "fetch_export_batch (dd_workspace dst) stream (read_cursor (dd_id d) stream ?db)
          (min EXPORT_BATCH_SIZE (EXPORT_RUN_ROW_CAP - so_far)) ?db = Inr batch" and ne: "batch \<noteq> []"
      and dl: "deliver_postgres_batch (en_pg env n) (en_now env n) stream batch s = (res, s')"
      and r: "db' = en_between env n ?db \<or> db' = snd (finish_round env (dd_id d) stream n so_far batch (en_between env n ?db))"
      using run d by (fastforce simp: export_round_def deliver_batch_def Let_def
          split: option.splits sum.splits if_splits prod.splits)
    have out: "st \<noteq> stream \<or> xr_id r \<notin> xr_id ` set batch"
      using behind_not_in_page [OF _ f] b1 by (auto simp: behind_def)
    have "sk_table s' (st, xr_id r) = sk_table s (st, xr_id r)"
      using dl upsert_batch_other [OF out] by (cases "en_pg env n") auto
    moreover have "behind d st r db'"
    proof (cases "db' = en_between env n ?db")
      case False
      with r have a: "advance_cursor (dd_id d) stream (export_key (last batch)) (en_between env n ?db) = Inr db'"
        by (auto simp: finish_round_def split: option.splits sum.splits if_splits)
      have "export_key r < export_key (last batch)" if "st = stream"
        using page_row(2) [OF f last_in_set [OF ne]] b1 that unfolding behind_def by (meson le_less_trans)
      then show ?thesis using b2 moved_cursor [OF a] by (auto simp: behind_def keyed_def)
    qed (use b2 in simp)
    ultimately show ?thesis by simp
  qed (use b1 in simp)
qed

text \<open>
  C38. The export keeps no promise for rows that commit late: a version of a row whose key is at or
  behind the cursor of its stream when it becomes visible (its timestamp is that of its statement,
  or of its transaction's start, not of its commit) is never written to a PostgreSQL destination by
  any later run, whatever these runs meet, until the row is changed again.
\<close>

theorem a_row_committed_behind_the_cursor_is_never_exported:
  assumes "dd_kind d = KIND_POSTGRES" and "behind d st r db"
    and "\<forall>a \<in> set as. of_destination d (at_job a) \<and> (\<forall>db. behind d st r db \<longrightarrow>
           behind d st r (at_meanwhile a db) \<and>
           (\<forall>n. behind d st r (en_before (at_env a) n db) \<and> behind d st r (en_between (at_env a) n db)))"
    and "export_history tf secret as db s = (db', s')"
  shows "behind d st r db' \<and> sk_table s' (st, xr_id r) = sk_table s (st, xr_id r)"
proof (rule history_invariant [where P = "\<lambda>db x. behind d st r db \<and> sk_table x (st, xr_id r) = sk_table s (st, xr_id r)",
      OF _ _ _ _ assms(4)])
  fix a credentials stream n so_far db x e db' x'
  assume a: "a \<in> set as" and p: "behind d st r db \<and> sk_table x (st, xr_id r) = sk_table s (st, xr_id r)"
    and run: "export_round (\<lambda>n. deliver_batch tf (at_env a) n (dj_destination (at_job a)) credentials) (at_env a)
            (dj_destination (at_job a)) stream n so_far db x = (e, db', x')"
  have "dd_id (dj_destination (at_job a)) = dd_id d" "dd_kind (dj_destination (at_job a)) = KIND_POSTGRES"
    using assms(1,3) a by (auto simp: of_destination_def)
  then show "behind d st r db' \<and> sk_table x' (st, xr_id r) = sk_table s (st, xr_id r)"
    using round_behind [OF _ _ _ _ _ run] assms(3) a p by simp
next
  fix db db' x
  assume "behind d st r db \<and> sk_table x (st, xr_id r) = sk_table s (st, xr_id r)"
    and "ds_cursors db' = ds_cursors db" and "\<And>st. stream_rows st db' = stream_rows st db"
  then show "behind d st r db' \<and> sk_table x (st, xr_id r) = sk_table s (st, xr_id r)"
    by (simp add: behind_def keyed_def read_cursor_def)
qed (use assms(2,3) in auto)

theorem a_row_committed_behind_the_cursor_is_never_exported_witness:
  "sk_table (snd (export_history sample_forms [] [sample_attempt PgCommitted]
     (sample_tables\<lparr>ds_cursors := [\<lparr>cu_destination = 1, cu_stream = STREAM_FEEDBACK_REPORTS, cu_record_at = 40, cu_record_id = 6\<rparr>]\<rparr>)
     empty_sink)) (STREAM_FEEDBACK_REPORTS, 8) = None"
proof -
  let ?db = "sample_tables\<lparr>ds_cursors := [\<lparr>cu_destination = 1, cu_stream = STREAM_FEEDBACK_REPORTS, cu_record_at = 40, cu_record_id = 6\<rparr>]\<rparr>"
  let ?r = "sample_export_row 30 8 ''c''"
  let ?h = "export_history sample_forms [] [sample_attempt PgCommitted] ?db empty_sink"
  have b: "behind sample_destination STREAM_FEEDBACK_REPORTS ?r ?db"
    unfolding behind_def keyed_def by code_simp
  have k: "dd_kind sample_destination = KIND_POSTGRES" by (simp add: sample_destination_def)
  have "\<forall>a \<in> set [sample_attempt PgCommitted]. of_destination sample_destination (at_job a)
      \<and> (\<forall>db. behind sample_destination STREAM_FEEDBACK_REPORTS ?r db \<longrightarrow>
           behind sample_destination STREAM_FEEDBACK_REPORTS ?r (at_meanwhile a db) \<and>
           (\<forall>n. behind sample_destination STREAM_FEEDBACK_REPORTS ?r (en_before (at_env a) n db)
              \<and> behind sample_destination STREAM_FEEDBACK_REPORTS ?r (en_between (at_env a) n db)))"
    by (simp add: sample_attempt_def sample_env_def of_destination_def sample_job_def)
  from a_row_committed_behind_the_cursor_is_never_exported [OF k b this, of sample_forms "[]" empty_sink "fst ?h" "snd ?h"]
  show ?thesis by (simp add: sample_export_row_def empty_sink_def)
qed

section \<open>The cap of a run\<close>

text \<open>
  A run exports at most ten thousand rows, over both streams, whatever it meets.
\<close>

lemma a_run_exports_at_most_its_cap:
  assumes "export_destination tf secret env job db s = (Exported m, db', s')"
  shows "0 \<le> m \<and> m \<le> 10000"
  using assms
proof (cases rule: export_destination_streams)
  case (Run credentials)
  with streams_bounds [OF Run] show ?thesis by (simp add: EXPORT_RUN_ROW_CAP_def)
qed simp

text \<open>
  The streams of a run share its cap in a fixed order, so a backlog of ten thousand
  interactions keeps every report of the team back: the run neither moves the cursor of the
  reports nor writes one of them to a PostgreSQL destination, however it ends.
\<close>

lemma a_backlog_of_interactions_keeps_reports_back:
  assumes "quiet env" and "keyed db" and "dd_kind (dj_destination job) = KIND_POSTGRES"
    and "10000 \<le> length (pending (dd_id (dj_destination job)) (dd_workspace (dj_destination job)) STREAM_INTERACTIONS db)"
    and "export_destination tf secret env job db s = (e, db', s')"
  shows "read_cursor (dd_id (dj_destination job)) STREAM_FEEDBACK_REPORTS db'
      = read_cursor (dd_id (dj_destination job)) STREAM_FEEDBACK_REPORTS db
    \<and> sk_table s' (STREAM_FEEDBACK_REPORTS, i) = sk_table s (STREAM_FEEDBACK_REPORTS, i)"
  using assms(5)
proof (cases rule: export_destination_streams)
  case (Run credentials)
  let ?d = "dj_destination job"
  have st: "STREAM_FEEDBACK_REPORTS \<noteq> STREAM_INTERACTIONS"
    using STREAMS_distinct by (auto simp: STREAMS_def)
  have keeps: "sk_table (snd (deliver_batch tf env n ?d credentials STREAM_INTERACTIONS batch x))
      (STREAM_FEEDBACK_REPORTS, i) = sk_table x (STREAM_FEEDBACK_REPORTS, i)" for n batch x
    using assms(3) st by (cases "en_pg env n") (auto simp: deliver_batch_def upsert_batch_other)
  show ?thesis
    by (rule starved_streams [OF assms(1,2) _ _ _ Run [unfolded STREAMS_def] st, where
          P = "\<lambda>x. sk_table x (STREAM_FEEDBACK_REPORTS, i) = sk_table s (STREAM_FEEDBACK_REPORTS, i)"])
      (use assms(4) in \<open>simp_all add: keeps EXPORT_RUN_ROW_CAP_def\<close>)
qed simp

end
