(* ===== verification/DestinationSafety.thy ===== *)
theory DestinationSafety
  imports DestinationClaims DestinationGuarantees
begin

text \<open>
  What claims, configuration and sealing of destinations guarantee: one running run per claim, ends
  of runs that are recorded once, claims that outlast the time limit of a run, and configurations
  that the transports can trust.
\<close>

section \<open>Claims\<close>

definition no_destinations :: "destination_db \<Rightarrow> bool" where
  "no_destinations db \<longleftrightarrow> ds_destinations db = [] \<and> ds_runs db = []"

lemma no_destinations_ok: "no_destinations db \<Longrightarrow> claims_ok (db, [])"
  by (simp add: no_destinations_def claims_ok_def claims_keyed_def claims_linked_def)

definition running_of :: "uuid \<Rightarrow> destination_db \<Rightarrow> sync_run list" where
  "running_of i db = filter (\<lambda>r. sr_destination r = i \<and> sr_status r = ''running'') (ds_runs db)"

lemma running_linked:
  assumes "claims_ok (db, jobs)" and "d \<in> set (ds_destinations db)" and "r \<in> set (running_of (dd_id d) db)"
  obtains job where "job \<in> set jobs" "linked d r job"
proof -
  have l: "claims_linked (db, jobs)" and k: "claims_keyed (db, jobs)" using assms(1) by (simp_all add: claims_ok_def)
  have r: "r \<in> set (ds_runs db)" "sr_status r = ''running''" "sr_destination r = dd_id d"
    using assms(3) by (simp_all add: running_of_def)
  from linked_run [OF l r(1,2)] obtain job d' where
    j: "job \<in> set jobs" "d' \<in> set (ds_destinations db)" "linked d' r job" by metis
  have "dd_id d' = dd_id d" using j(3) r(3) by (simp add: linked_def)
  then have "d' = d" by (rule same_row [OF k j(2) assms(2)])
  with that j show ?thesis by blast
qed

lemma running_count:
  assumes "claims_ok (db, jobs)" and "d \<in> set (ds_destinations db)"
  shows "length (running_of (dd_id d) db) = (if dd_claimed_at d = None then 0 else 1)"
proof -
  have l: "claims_linked (db, jobs)" and k: "claims_keyed (db, jobs)" using assms(1) by (simp_all add: claims_ok_def)
  have "distinct (map sr_id (ds_runs db))" using k by (simp add: claims_keyed_def)
  then have dist: "distinct (running_of (dd_id d) db)" by (simp add: running_of_def distinct_map)
  show ?thesis
  proof (cases "dd_claimed_at d")
    case None
    have "running_of (dd_id d) db = []"
    proof (rule ccontr)
      assume "running_of (dd_id d) db \<noteq> []"
      then obtain r where "r \<in> set (running_of (dd_id d) db)" by (cases "running_of (dd_id d) db") auto
      then show False using running_linked [OF assms] None by (metis linked_def option.distinct(1))
    qed
    with None show ?thesis by simp
  next
    case (Some t)
    then have "dd_claim_token d \<noteq> None" using unclaimed_row [OF l assms(2)] by simp
    from linked_row [OF l assms(2) this] obtain job r where
      j: "job \<in> set jobs" "r \<in> set (ds_runs db)" "linked d r job" by metis
    have "r' = r" if r': "r' \<in> set (running_of (dd_id d) db)" for r'
    proof -
      obtain job' where j': "job' \<in> set jobs" "linked d r' job'" using running_linked [OF assms r'] by metis
      have "dj_claim_token job' = dj_claim_token job" using j(3) j'(2) by (simp add: linked_def)
      then have "job' = job" by (rule linked_jobs(1) [OF k j'(1) j(1)])
      then have "sr_id r' = sr_id r" using j(3) j'(2) by (simp add: linked_def)
      then show "r' = r"
        using distinct_map_eq [OF \<open>distinct (map sr_id (ds_runs db))\<close> _ j(2)] r' by (simp add: running_of_def)
    qed
    moreover have "r \<in> set (running_of (dd_id d) db)" using j by (simp add: running_of_def linked_def)
    ultimately have "set (running_of (dd_id d) db) = {r}" by blast
    then have "length (running_of (dd_id d) db) = 1" using distinct_card [OF dist] by simp
    with Some show ?thesis by simp
  qed
qed

text \<open>
  C19. However the claims of the scheduler and of dashboards, the ends of runs, and the changes to
  destinations interleave, a destination has exactly one running run while it is claimed and none
  otherwise.
\<close>

theorem a_destination_runs_once_while_claimed:
  assumes "no_destinations db" and "snd (run_leases end_run do_event evs (db, [])) = (db', jobs)"
    and "d \<in> set (ds_destinations db')"
  shows "length (running_of (dd_id d) db') = (if dd_claimed_at d = None then 0 else 1)"
  using running_count dest.run_inv [OF no_destinations_ok [OF assms(1)], of evs] assms(2,3) by metis

definition unclaimed_sample :: destination_row where
  "unclaimed_sample = unclaimed sample_destination"

definition no_tables :: destination_db where
  "no_tables = \<lparr>ds_destinations = [], ds_runs = [], ds_cursors = [], ds_interactions = [], ds_reports = []\<rparr>"

definition claimed_tables :: claims_state where
  "claimed_tables = snd (run_leases end_run do_event
     [Other (CreateDestination unclaimed_sample), Other (ClaimNow 100 9 5 7 1 0)] (no_tables, []))"

theorem a_destination_runs_once_while_claimed_witness:
  "length (running_of 1 (fst claimed_tables)) = 1"
proof -
  have d: "hd (ds_destinations (fst claimed_tables)) \<in> set (ds_destinations (fst claimed_tables))
    \<and> dd_id (hd (ds_destinations (fst claimed_tables))) = 1
    \<and> dd_claimed_at (hd (ds_destinations (fst claimed_tables))) = Some 100" by code_simp
  have "no_destinations no_tables" by code_simp
  from a_destination_runs_once_while_claimed [OF this, of _ "fst claimed_tables" "snd claimed_tables",
      OF _ conjunct1 [OF d]]
  have "length (running_of (dd_id (hd (ds_destinations (fst claimed_tables)))) (fst claimed_tables)) =
      (if dd_claimed_at (hd (ds_destinations (fst claimed_tables))) = None then 0 else 1)"
    unfolding claimed_tables_def prod.collapse by blast
  with d show ?thesis by simp
qed

text \<open>
  The end of a run is recorded at most once for every claim that was handed out: a worker that
  repeats it, or comes back after its claim was taken away, finds the claim gone.
\<close>

lemma a_run_is_ended_at_most_once:
  assumes "no_destinations db" and "distinct (grants_of event_token evs)"
  shows "settlements (\<lambda>_. True) destination_id token evs (fst (run_leases end_run do_event evs (db, []))) \<le> 1"
proof (rule dest.one_settlement [OF no_destinations_ok [OF assms(1)] assms(2)])
  show "claim_holder (db, []) destination_id = Some token \<longrightarrow> token \<notin> set (grants_of event_token evs)"
    using assms(1) by (simp add: claim_holder_def no_destinations_def)
qed

text \<open>
  A worker that ends a run after its claim was given to another changes no table at all: neither
  the schedule of the destination nor the record of any run.
\<close>

lemma a_late_end_changes_nothing:
  assumes "no_destinations db" and "snd (run_leases end_run do_event evs (db, [])) = (db', jobs)"
    and "job \<in> set jobs" and "\<forall>d \<in> set (ds_destinations db'). \<not> has_claim (dd_id (dj_destination job)) (dj_claim_token job) d"
  shows "finish_data_destination_run now job outcome db' = db'"
  using finish_lost [OF _ assms(3)] assms(4) dest.run_inv [OF no_destinations_ok [OF assms(1)], of evs] assms(2)
  by (metis has_claim_def)

text \<open>
  C20. A claim is not given to another while its run may still be exporting: the time limit of a run
  ends before its claim is stale, and a younger claim survives every claim of others with its row
  and its running run as they were.
\<close>

theorem a_claim_outlasts_its_run:
  assumes "d \<in> set (ds_destinations db)" and "dd_claimed_at d = Some t"
    and "distinct (map dd_id (ds_destinations db))"
    and "now \<le> t + EXPORT_RUN_TIMEOUT"
    and "claim_due_data_destination now token run_id locked (now - DESTINATION_STALE_CLAIM_AGE) db = (res, db')
      \<or> claim_data_destination_now now token run_id w i (now - DESTINATION_STALE_CLAIM_AGE) db = (res', db')"
    and "r \<in> set (ds_runs db)" and "sr_started_at r = t"
  shows "d \<in> set (ds_destinations db') \<and> r \<in> set (ds_runs db')"
proof -
  let ?db = "release_stale_claims now (now - DESTINATION_STALE_CLAIM_AGE) db"
  have young: "\<not> t < now - DESTINATION_STALE_CLAIM_AGE"
    using assms(4) by (simp add: EXPORT_RUN_TIMEOUT_def DESTINATION_STALE_CLAIM_AGE_def minutes_def seconds_def)
  have d: "d \<in> set (ds_destinations ?db)" and r: "r \<in> set (ds_runs ?db)"
    using assms(1,2,6,7) young
    by (auto simp: release_stale_claims_def release_stale_rows_def abandoned_run_def set_update_where stale_destination_def)
  have k: "distinct (map dd_id (ds_destinations ?db))"
    using assms(3) by (simp add: release_stale_claims_def release_stale_rows_def unclaimed_def update_where_keys)
  have start: "d \<in> set (ds_destinations db2) \<and> r \<in> set (ds_runs db2)"
    if s: "start_run now token run_id trigger x ?db = Inr (job, db2)"
      and x: "x \<in> set (ds_destinations ?db)" "dd_claimed_at x = None" for trigger x job db2
  proof -
    have "dd_id d \<noteq> dd_id x" using distinct_map_eq [OF k d x(1)] x(2) assms(2) by auto
    with s d r show ?thesis by (auto simp: start_run_def set_update_where split: if_splits)
  qed
  from assms(5) show ?thesis
  proof
    assume c: "claim_due_data_destination now token run_id locked (now - DESTINATION_STALE_CLAIM_AGE) db = (res, db')"
    show ?thesis
    proof (cases "next_due now locked (ds_destinations ?db)")
      case None
      with c d r show ?thesis by (simp add: claim_due_data_destination_def Let_def)
    next
      case (Some x)
      then have x: "x \<in> set (ds_destinations ?db)" "dd_claimed_at x = None" by (simp_all add: next_due_row)
      show ?thesis
        using c Some start [OF _ x] d r
        by (cases "start_run now token run_id ''scheduled'' x ?db")
          (auto simp: claim_due_data_destination_def Let_def)
    qed
  next
    assume c: "claim_data_destination_now now token run_id w i (now - DESTINATION_STALE_CLAIM_AGE) db = (res', db')"
    show ?thesis
    proof (cases "find (\<lambda>r. of_team w i r \<and> dd_claimed_at r = None) (ds_destinations ?db)")
      case None
      with c d r show ?thesis by (simp add: claim_data_destination_now_def Let_def)
    next
      case (Some x)
      then have x: "x \<in> set (ds_destinations ?db)" "dd_claimed_at x = None" by (auto dest: find_SomeD)
      show ?thesis
        using c Some start [OF _ x] d r
        by (cases "start_run now token run_id ''manual'' x ?db")
          (auto simp: claim_data_destination_now_def Let_def)
    qed
  qed
qed

theorem a_claim_outlasts_its_run_witness:
  "hd (ds_destinations (fst claimed_tables)) \<in> set (ds_destinations (snd
     (claim_due_data_destination 400 11 12 (\<lambda>_. False) (400 - DESTINATION_STALE_CLAIM_AGE) (fst claimed_tables))))"
proof -
  let ?d = "hd (ds_destinations (fst claimed_tables))"
  let ?r = "hd (ds_runs (fst claimed_tables))"
  let ?c = "claim_due_data_destination 400 11 12 (\<lambda>_. False) (400 - DESTINATION_STALE_CLAIM_AGE) (fst claimed_tables)"
  have "?d \<in> set (ds_destinations (fst claimed_tables)) \<and> dd_claimed_at ?d = Some 100
    \<and> distinct (map dd_id (ds_destinations (fst claimed_tables))) \<and> 400 \<le> 100 + EXPORT_RUN_TIMEOUT
    \<and> ?r \<in> set (ds_runs (fst claimed_tables)) \<and> sr_started_at ?r = 100"
    by code_simp
  then show ?thesis
    using a_claim_outlasts_its_run [of ?d "fst claimed_tables" 100 400 11 12 "\<lambda>_. False" "fst ?c" "snd ?c" _ _ _ ?r] by simp
qed

section \<open>Configurations\<close>

lemma validate_headers_ok:
  "validate_headers dbg headers = Inr u \<Longrightarrow> (k, v) \<in> set headers \<Longrightarrow>
     to_ascii_lowercase k \<notin> set RESERVED_HEADERS \<and> k \<noteq> [] \<and> \<not> has_control v"
  by (induction dbg headers rule: validate_headers.induct) (auto split: if_splits)

lemma string_members:
  "List.map_filter (\<lambda>(k, v). map_option (Pair k) (json_string v)) (map (\<lambda>(k, v). (k, JStr v)) kvs) = kvs"
  by (induction kvs) (auto simp: List.map_filter_simps json_string_def)

lemma http_request_of_config:
  assumes "config = JObj [(''url'', JStr url), (''headers'', JObj (map (\<lambda>(k, v). (k, JStr v)) headers))]"
    and "credentials = map_option (\<lambda>v. JObj [(''token'', JStr v)]) token"
  shows "http_request config credentials = Inr (url, (''content-type'', ''application/x-ndjson'')
      # (case token of None \<Rightarrow> [] | Some t \<Rightarrow> [(''authorization'', ''Bearer '' @ t)]) @ headers)"
proof -
  have url: "Option.bind (json_field ''url'' config) json_string = Some url"
    and hdr: "Option.bind (json_field ''headers'' config) json_members = Some (map (\<lambda>(k, v). (k, JStr v)) headers)"
    by (simp_all add: assms(1) json_string_def json_members_def)
  have tok: "Option.bind (Option.bind credentials (json_field ''token'')) json_string = token"
    by (cases token) (simp_all add: assms(2) json_string_def)
  show ?thesis unfolding http_request_def url hdr tok by (simp add: string_members split: option.split)
qed

lemma normalize_http:
  assumes "normalize_destination parse dbg KIND_HTTP_NDJSON config credentials = Inr n"
  obtains raw url headers token where "cf_url config = Some raw" "validate_http_url parse raw = Inr url"
    "headers = (case cf_headers config of None \<Rightarrow> [] | Some hs \<Rightarrow> hs)" "validate_headers dbg headers = Inr ()"
    "token = Option.bind credentials cr_token"
    "nd_config n = JObj [(''url'', JStr url), (''headers'', JObj (map (\<lambda>(k, v). (k, JStr v)) headers))]"
    "nd_credentials n = map_option (\<lambda>v. JObj [(''token'', JStr v)]) token"
proof -
  let ?headers = "case cf_headers config of None \<Rightarrow> [] | Some hs \<Rightarrow> hs"
  have k: "KIND_HTTP_NDJSON \<noteq> KIND_POSTGRES" by (simp add: KIND_HTTP_NDJSON_def KIND_POSTGRES_def)
  obtain raw url token where r: "cf_url config = Some raw" "validate_http_url parse raw = Inr url"
      "validate_headers dbg ?headers = Inr ()" "optional_credential (Option.bind credentials cr_token) ''token'' = Inr token"
      "nd_config n = JObj [(''url'', JStr url), (''headers'', JObj (map (\<lambda>(k, v). (k, JStr v)) ?headers))]"
      "nd_credentials n = map_option (\<lambda>v. JObj [(''token'', JStr v)]) token"
    using assms k by (auto simp: normalize_destination_def result_bind_Inr Let_def split: option.split_asm if_split_asm)
  have v: "x = v" if "validate_credential_value v f = Inr x" for v f x
    using that by (auto simp: validate_credential_value_def split: if_splits)
  have t: "token = Option.bind credentials cr_token"
  proof (cases "Option.bind credentials cr_token")
    case None
    with r(4) show ?thesis by (simp add: optional_credential_def)
  next
    case (Some x)
    with r(4) obtain y where "validate_credential_value x ''token'' = Inr y" "token = Some y"
      by (auto simp: optional_credential_def result_bind_Inr)
    with v Some show ?thesis by simp
  qed
  show ?thesis by (rule that [OF r(1,2) refl r(3) t r(5,6)])
qed

text \<open>
  C21. The requests to the collector of an accepted configuration: they go to the URL that was
  given, which is HTTPS or a loopback address and carries no credentials; the token is the only
  authorization, and no configured header replaces or repeats one of those the transport manages.
\<close>

theorem collectors_are_reached_as_configured:
  assumes "normalize_destination parse dbg KIND_HTTP_NDJSON config credentials = Inr n"
  shows "\<exists>u host headers. Option.bind (cf_url config) parse = Some u \<and> pu_host u = Some host
    \<and> (pu_scheme u = ''https'' \<or> pu_scheme u = ''http'' \<and> (host = ''localhost'' \<or> ipv4_loopback host))
    \<and> pu_username u = [] \<and> pu_password u = None
    \<and> http_request (nd_config n) (nd_credentials n) = Inr (pu_text u, (''content-type'', ''application/x-ndjson'')
        # (case Option.bind credentials cr_token of None \<Rightarrow> [] | Some t \<Rightarrow> [(''authorization'', ''Bearer '' @ t)]) @ headers)
    \<and> headers = (case cf_headers config of None \<Rightarrow> [] | Some hs \<Rightarrow> hs)
    \<and> list_all (\<lambda>(k, v). to_ascii_lowercase k \<notin> set RESERVED_HEADERS) headers"
  using assms
proof (rule normalize_http)
  fix raw url headers token
  assume raw: "cf_url config = Some raw" "validate_http_url parse raw = Inr url"
    and h: "headers = (case cf_headers config of None \<Rightarrow> [] | Some hs \<Rightarrow> hs)" "validate_headers dbg headers = Inr ()"
    and t: "token = Option.bind credentials cr_token"
    and n: "nd_config n = JObj [(''url'', JStr url), (''headers'', JObj (map (\<lambda>(k, v). (k, JStr v)) headers))]"
      "nd_credentials n = map_option (\<lambda>v. JObj [(''token'', JStr v)]) token"
  obtain u host where u: "parse raw = Some u" "pu_host u = Some host" "url = pu_text u"
      "pu_scheme u = ''https'' \<or> pu_scheme u = ''http'' \<and> (host = ''localhost'' \<or> ipv4_loopback host)"
      "pu_username u = []" "pu_password u = None"
    using raw(2) by (auto simp: validate_http_url_def Let_def split: option.splits if_splits)
  have "list_all (\<lambda>(k, v). to_ascii_lowercase k \<notin> set RESERVED_HEADERS) headers"
    using validate_headers_ok [OF h(2)] by (auto simp: list_all_iff)
  then show ?thesis
    using u raw(1) http_request_of_config [OF n] h(1) t by (intro exI [of _ u] exI [of _ host] exI [of _ headers]) simp
qed

definition sample_url :: "string \<Rightarrow> parsed_url option" where
  "sample_url s = Some \<lparr>pu_scheme = ''https'', pu_host = Some ''collector.example'', pu_username = [], pu_password = None,
     pu_text = ''https://collector.example/in''\<rparr>"

definition sample_config :: config_input where
  "sample_config = \<lparr>cf_connection_url = None, cf_schema = None, cf_url = Some ''https://collector.example/in'',
     cf_headers = Some [(''X-Team'', ''seven'')]\<rparr>"

definition sample_credentials :: credentials_input where
  "sample_credentials = \<lparr>cr_password = None, cr_token = Some ''t0k3n''\<rparr>"

definition sample_normalized :: normalized_destination where
  "sample_normalized = \<lparr>nd_config = JObj [(''url'', JStr ''https://collector.example/in''),
       (''headers'', JObj [(''X-Team'', JStr ''seven'')])], nd_credentials = Some (JObj [(''token'', JStr ''t0k3n'')])\<rparr>"

lemma sample_normalizes:
  "normalize_destination sample_url (\<lambda>s. s) KIND_HTTP_NDJSON sample_config (Some sample_credentials) = Inr sample_normalized"
  by code_simp

theorem collectors_are_reached_as_configured_witness:
  "\<exists>url headers. http_request (nd_config sample_normalized) (nd_credentials sample_normalized) =
     Inr (url, (''content-type'', ''application/x-ndjson'') # (''authorization'', ''Bearer t0k3n'') # headers)"
  using collectors_are_reached_as_configured [OF sample_normalizes] by (auto simp: sample_credentials_def)

text \<open>An IPv6 loopback address is refused over HTTP.\<close>

lemma an_ipv6_loopback_is_refused:
  assumes "parse raw = Some u" and "pu_scheme u = ''http''" and "pu_host u = Some ''[::1]''"
  shows "\<exists>e. validate_http_url parse raw = Inl e"
proof -
  have "\<not> ipv4_loopback ''[::1]''" by (simp add: ipv4_loopback_def)
  with assms show ?thesis by (simp add: validate_http_url_def)
qed

section \<open>Sealed credentials\<close>

definition opens_what_it_seals :: "cipher \<Rightarrow> bool" where
  "opens_what_it_seals c \<longleftrightarrow>
     (\<forall>k n p x. ci_encrypt c k n p = Some x \<longrightarrow> ci_decrypt c k n x = Some p \<and> 16 \<le> length x)
     \<and> (\<forall>v t. ci_to_text c v = Some t \<longrightarrow> ci_of_text c t = Some v)"

lemma unseal_seal:
  assumes "opens_what_it_seals c" and "length nonce = 12" and "seal_credentials c nonce secret v = Inr sealed"
  shows "unseal_credentials c secret sealed = Inr v"
proof -
  obtain t x where t: "ci_to_text c v = Some t" "ci_encrypt c (seal_key c secret) nonce t = Some x" "sealed = nonce @ x"
    using assms(3) by (auto simp: seal_credentials_def split: option.splits)
  have "16 \<le> length x" "ci_decrypt c (seal_key c secret) nonce x = Some t" "ci_of_text c t = Some v"
    using assms(1) t(1,2) by (auto simp: opens_what_it_seals_def)
  then show ?thesis using t(3) assms(2) by (simp add: unseal_credentials_def)
qed

text \<open>
  C22. A destination that is created exports with the configuration and the credentials that were
  accepted: what a run unseals under the same secret is what the request was normalized to.
\<close>

theorem a_created_destination_keeps_its_credentials:
  assumes "opens_what_it_seals c" and "length nonce = 12"
    and "create_data_destination c parse dbg nonce secret now i w input db = Inr (row, db')"
  shows "\<exists>n. normalize_destination parse dbg (dd_kind row) (ce_config input) (ce_credentials input) = Inr n
    \<and> dd_config row = nd_config n \<and> dd_kind row \<in> set ENABLED_KINDS
    \<and> (case dd_sealed row of None \<Rightarrow> Inr None
       | Some sealed \<Rightarrow> map_sum (\<lambda>e. e) Some (unseal_credentials c secret sealed)) = Inr (nd_credentials n)"
proof -
  have kind: "k = x \<and> x \<in> set ENABLED_KINDS" if "validate_kind x = Inr k" for x k
    using that by (auto simp: validate_kind_def split: if_splits)
  obtain n sealed where n: "normalize_destination parse dbg (dd_kind row) (ce_config input) (ce_credentials input) = Inr n"
      "dd_config row = nd_config n" "dd_kind row \<in> set ENABLED_KINDS" "dd_sealed row = sealed"
      "(case nd_credentials n of None \<Rightarrow> Inr None
        | Some v \<Rightarrow> result_bind (seal_credentials c nonce secret v) (\<lambda>s. Inr (Some s))) = Inr sealed"
    using assms(3) by (auto simp: create_data_destination_def result_bind_Inr Let_def dest!: kind split: if_splits)
  have "(case sealed of None \<Rightarrow> Inr None
       | Some sealed \<Rightarrow> map_sum (\<lambda>e. e) Some (unseal_credentials c secret sealed)) = Inr (nd_credentials n)"
    using n(5) unseal_seal [OF assms(1,2)] by (auto simp: result_bind_Inr split: option.splits)
  with n show ?thesis by blast
qed

text \<open>A cipher that appends its key and a tag, over a printer of the sample's credentials.\<close>

definition sample_cipher :: cipher where
  "sample_cipher = \<lparr>ci_sha256 = rev, ci_encrypt = (\<lambda>k n p. Some (p @ replicate 16 (CHR ''#''))),
     ci_decrypt = (\<lambda>k n x. Some (take (length x - 16) x)),
     ci_to_text = (\<lambda>v. case v of JObj [(k, JStr s)] \<Rightarrow> (if k = ''token'' then Some s else None) | _ \<Rightarrow> None),
     ci_of_text = (\<lambda>t. Some (JObj [(''token'', JStr t)]))\<rparr>"

lemma sample_cipher_opens: "opens_what_it_seals sample_cipher"
  by (auto simp: opens_what_it_seals_def sample_cipher_def split: json.splits list.splits prod.splits if_splits)

definition sample_input :: create_input where
  "sample_input = \<lparr>ce_name = ''lake'', ce_kind = KIND_HTTP_NDJSON, ce_config = sample_config,
     ce_credentials = Some sample_credentials, ce_interval = None\<rparr>"

definition created_sample :: "(destination_row \<times> destination_db) result" where
  "created_sample = create_data_destination sample_cipher sample_url (\<lambda>s. s) (replicate 12 (CHR ''n'')) ''secret'' 10 3 7
     sample_input sample_tables"

definition created_row :: destination_row where
  "created_row = (case created_sample of Inr x \<Rightarrow> fst x | Inl e \<Rightarrow> sample_destination)"

theorem a_created_destination_keeps_its_credentials_witness:
  "map_sum (\<lambda>e. e) Some (unseal_credentials sample_cipher ''secret'' (the (dd_sealed created_row)))
     = Inr (nd_credentials sample_normalized)"
proof -
  have r: "dd_kind created_row = KIND_HTTP_NDJSON \<and> dd_sealed created_row \<noteq> None
    \<and> (case created_sample of Inr x \<Rightarrow> True | Inl e \<Rightarrow> False)" by code_simp
  then obtain x where "created_sample = Inr x" by (auto split: sum.splits)
  then have "create_data_destination sample_cipher sample_url (\<lambda>s. s) (replicate 12 (CHR ''n'')) ''secret'' 10 3 7
     sample_input sample_tables = Inr (created_row, snd x)" by (simp add: created_row_def created_sample_def)
  from a_created_destination_keeps_its_credentials [OF sample_cipher_opens _ this] r sample_normalizes
  show ?thesis by (auto simp: sample_input_def)
qed

section \<open>Taken names\<close>

text \<open>
  A name that the team gave to another destination is refused with a client error when a
  destination is created, and with an internal error when one is renamed.
\<close>

theorem a_taken_name_is_a_client_error_only_on_creation:
  assumes "d \<in> set (ds_destinations db)" and "dd_workspace d = w" and "validate_destination_name name = Inr (dd_name d)"
    and "ce_name input = name" and "validate_kind (ce_kind input) = Inr kind"
    and "validate_sync_interval (ce_interval input) = Inr secs"
    and "normalize_destination parse dbg kind (ce_config input) (ce_credentials input) = Inr n" and "nd_credentials n = None"
    and "find (of_team w j) (ds_destinations db) = Some other" and "j \<noteq> dd_id d" and "ue_name change = Some name"
    and "ue_interval change = None"
  shows "create_data_destination c parse dbg nonce secret now i w input db
      = Inl (bad_request ''A data destination with this name already exists for this team'')
    \<and> update_data_destination now w j change db = Inl internal_error"
proof -
  have "\<exists>r \<in> set (ds_destinations db). dd_id r = i \<or> (dd_workspace r = w \<and> dd_name r = dd_name d)"
    and "\<exists>x \<in> set (ds_destinations db). dd_workspace x = w \<and> dd_id x \<noteq> j \<and> Some (dd_name x) = Some (dd_name d)"
    using assms(1,2,10) by auto
  then show ?thesis
    using assms(3-9,11,12) by (simp add: create_data_destination_def update_data_destination_def opt_result_def)
qed

theorem a_taken_name_is_a_client_error_only_on_creation_witness:
  "update_data_destination 20 7 2 \<lparr>ue_name = Some ''warehouse'', ue_enabled = None, ue_interval = None\<rparr>
     (sample_tables\<lparr>ds_destinations := [sample_destination, sample_destination\<lparr>dd_id := 2, dd_name := ''lake''\<rparr>]\<rparr>)
   = Inl internal_error"
proof -
  let ?db = "sample_tables\<lparr>ds_destinations := [sample_destination, sample_destination\<lparr>dd_id := 2, dd_name := ''lake''\<rparr>]\<rparr>"
  let ?n = "normalize_destination sample_url (\<lambda>s. s) KIND_HTTP_NDJSON sample_config None"
  have "sample_destination \<in> set (ds_destinations ?db)" by simp
  moreover have "dd_workspace sample_destination = 7" by code_simp
  moreover have "validate_destination_name ''warehouse'' = Inr (dd_name sample_destination)" by code_simp
  moreover have "validate_kind KIND_HTTP_NDJSON = Inr KIND_HTTP_NDJSON" by code_simp
  moreover have "validate_sync_interval None = Inr 300" by code_simp
  moreover have "normalize_destination sample_url (\<lambda>s. s) KIND_HTTP_NDJSON sample_config None
      = Inr (sample_normalized\<lparr>nd_credentials := None\<rparr>)" by code_simp
  moreover have "find (of_team 7 2) (ds_destinations ?db) = Some (sample_destination\<lparr>dd_id := 2, dd_name := ''lake''\<rparr>)" by code_simp
  moreover have "dd_id sample_destination = 1" by code_simp
  ultimately show ?thesis
    using a_taken_name_is_a_client_error_only_on_creation [of sample_destination ?db 7 "''warehouse''"
        "sample_input\<lparr>ce_name := ''warehouse'', ce_credentials := None\<rparr>" KIND_HTTP_NDJSON 300 sample_url "\<lambda>s. s"
        "sample_normalized\<lparr>nd_credentials := None\<rparr>" 2 _
        "\<lparr>ue_name = Some ''warehouse'', ue_enabled = None, ue_interval = None\<rparr>"]
    by (simp add: sample_input_def)
qed

end
