(* ===== verification/SdkTelemetry.thy ===== *)
theory SdkTelemetry
  imports Prelude "HOL-Library.Sublist"
begin

text \<open>
  \<open>sdk/rust/src/lib.rs\<close>: the telemetry of the SDK.  Responses hand events in without waiting; a
  worker collects them from a bounded channel and posts them in batches, with retries, until the
  application shuts it down.  The state is that of the handle (\<open>Runtime\<close>) and of the worker between
  two awaits; a move is what happens at one await, so a run is any interleaving of both.
\<close>

section \<open>Events and options\<close>

record sdk_event =
  te_interaction :: uuid
  te_sequence :: nat
  te_surface :: string
  te_operation :: string
  te_status :: nat
  te_duration :: "nat option"
  te_account_ref :: "string option"
  te_user_ref :: "string option"
  te_anonymous_ref :: "string option"
  te_customer_ref :: "string option"
  te_classification :: string
  te_confirmation :: "string option"
  te_runtime_hint :: "string option"
  te_runtime_hint_source :: "string option"
  te_session_ref :: "string option"
  te_session_source :: "string option"
  te_occurred_at :: string

text \<open>The options of telemetry; a run replaces those that are zero.\<close>

record telemetry_options =
  to_flush_interval :: time
  to_max_queue :: nat
  to_timeout :: time
  to_max_attempts :: nat
  to_shutdown_timeout :: time

definition TELEMETRY_TIMEOUT :: time where "TELEMETRY_TIMEOUT = seconds 30"
definition TELEMETRY_MAX_ATTEMPTS :: nat where "TELEMETRY_MAX_ATTEMPTS = 6"
definition TELEMETRY_RETRY_DELAY :: time where "TELEMETRY_RETRY_DELAY = 500000"
definition SHUTDOWN_TIMEOUT :: time where "SHUTDOWN_TIMEOUT = seconds 10"
definition TELEMETRY_BATCH :: nat where "TELEMETRY_BATCH = 50"

definition normalized_options :: "telemetry_options \<Rightarrow> telemetry_options" where
  "normalized_options o' =
     \<lparr>to_flush_interval = (if to_flush_interval o' = 0 then 500000 else to_flush_interval o'),
      to_max_queue = (if to_max_queue o' = 0 then 1 else to_max_queue o'),
      to_timeout = (if to_timeout o' = 0 then TELEMETRY_TIMEOUT else to_timeout o'),
      to_max_attempts = (if to_max_attempts o' = 0 then TELEMETRY_MAX_ATTEMPTS else to_max_attempts o'),
      to_shutdown_timeout = (if to_shutdown_timeout o' = 0 then SHUTDOWN_TIMEOUT else to_shutdown_timeout o')\<rparr>"

section \<open>Diagnostics\<close>

record telemetry_diagnostics =
  dg_overflow :: nat
  dg_undelivered :: nat
  dg_episode :: bool
  dg_outstanding :: nat
  dg_claimed :: bool

definition note_overflow :: "telemetry_diagnostics \<Rightarrow> telemetry_diagnostics" where
  "note_overflow d = d\<lparr>dg_overflow := dg_overflow d + 1, dg_outstanding := dg_outstanding d - 1, dg_episode := True\<rparr>"

definition note_delivered :: "nat \<Rightarrow> telemetry_diagnostics \<Rightarrow> telemetry_diagnostics" where
  "note_delivered n d = (if dg_claimed d then d else d\<lparr>dg_outstanding := dg_outstanding d - n\<rparr>)"

definition claim_outstanding :: "telemetry_diagnostics \<Rightarrow> telemetry_diagnostics" where
  "claim_outstanding d =
     (if dg_claimed d then d
      else d\<lparr>dg_undelivered := dg_undelivered d + dg_outstanding d, dg_outstanding := 0, dg_claimed := True\<rparr>)"

section \<open>Attempts\<close>

text \<open>What comes back for a post: nothing, or a status with the receipt that the body parses to.\<close>

datatype telemetry_answer = NoAnswer | TelemetryAnswer nat "(nat \<times> nat) option"

datatype telemetry_attempt = Delivered | Retryable | Terminal

definition attempt_of :: "telemetry_answer \<Rightarrow> nat \<Rightarrow> telemetry_attempt" where
  "attempt_of answer sent =
     (case answer of
        NoAnswer \<Rightarrow> Retryable
      | TelemetryAnswer status receipt \<Rightarrow>
          if status \<noteq> 202
          then (if status = 408 \<or> status = 429 \<or> (500 \<le> status \<and> status < 600) then Retryable else Terminal)
          else (case receipt of
                  None \<Rightarrow> Terminal
                | Some (accepted, dropped) \<Rightarrow> if accepted = sent \<and> dropped = 0 then Delivered else Terminal))"

definition retry_delay :: "nat \<Rightarrow> time" where
  "retry_delay n = TELEMETRY_RETRY_DELAY * 2 ^ min n 4"

section \<open>State\<close>

text \<open>
  A flush is regular, which the first shutdown signal interrupts, or the last one, which ends at the
  deadline.  A batch is at the service or waits for its next attempt, with the number of attempts
  before.
\<close>

datatype flush_mode = Regular | Final

datatype worker_phase =
    Starting
  | Idle
  | Posting "sdk_event list" nat flush_mode
  | Waiting "sdk_event list" nat flush_mode
  | Stopped

datatype shutdown_error = AlreadyStarted | WorkerStopped | TimedOutShutdown | DeliveryFailed

text \<open>
  \<open>ts_signal\<close>: the shutdown signal was sent and not yet seen by a regular flush.  \<open>ts_answer\<close>: what the
  caller of the shutdown gets.  The last four fields are a history: the events handed in before a
  shutdown, the batches posted, those the service acknowledged, and the events lost with the worker or
  handed in after it had returned, which no counter counts.
\<close>

record telemetry_state =
  ts_queue :: "sdk_event list"
  ts_closed :: bool
  ts_pending :: "sdk_event list"
  ts_phase :: worker_phase
  ts_stopping :: bool
  ts_signal :: bool
  ts_mail :: bool
  ts_sequence :: nat
  ts_diagnostics :: telemetry_diagnostics
  ts_answer :: "(shutdown_error + unit) option"
  ts_recorded :: "sdk_event list"
  ts_posts :: "sdk_event list list"
  ts_acked :: "sdk_event list list"
  ts_lost :: "sdk_event list"

definition fresh_diagnostics :: telemetry_diagnostics where
  "fresh_diagnostics = \<lparr>dg_overflow = 0, dg_undelivered = 0, dg_episode = False, dg_outstanding = 0, dg_claimed = False\<rparr>"

definition fresh_runtime :: telemetry_state where
  "fresh_runtime = \<lparr>ts_queue = [], ts_closed = False, ts_pending = [], ts_phase = Starting, ts_stopping = False,
     ts_signal = False, ts_mail = False, ts_sequence = 0, ts_diagnostics = fresh_diagnostics, ts_answer = None,
     ts_recorded = [], ts_posts = [], ts_acked = [], ts_lost = []\<rparr>"

section \<open>The handle\<close>

definition numbered :: "sdk_event \<Rightarrow> telemetry_state \<Rightarrow> sdk_event \<times> telemetry_state" where
  "numbered e st =
     (if te_sequence e = 0
      then (e\<lparr>te_sequence := ts_sequence st + 1\<rparr>, st\<lparr>ts_sequence := ts_sequence st + 1\<rparr>) else (e, st))"

text \<open>
  The channel takes as many events as the queue size; \<open>try_send\<close> never waits.  It is closed once the
  worker has returned or begun its last flush.  The test of \<open>stopping\<close> in the closed case repeats the
  one at the beginning, under the same lock.
\<close>

definition enqueue :: "telemetry_options \<Rightarrow> sdk_event \<Rightarrow> telemetry_state \<Rightarrow> telemetry_state" where
  "enqueue opts e st =
     (let d = ts_diagnostics st
      in if ts_stopping st then st
         else if ts_closed st
         then (if ts_stopping st then st\<lparr>ts_diagnostics := d\<lparr>dg_undelivered := dg_undelivered d + 1\<rparr>\<rparr>
               else st\<lparr>ts_recorded := ts_recorded st @ [e], ts_lost := ts_lost st @ [e]\<rparr>)
         else if length (ts_queue st) < to_max_queue opts
         then st\<lparr>ts_queue := ts_queue st @ [e], ts_recorded := ts_recorded st @ [e],
                 ts_diagnostics := d\<lparr>dg_outstanding := dg_outstanding d + 1, dg_episode := False\<rparr>\<rparr>
         else st\<lparr>ts_recorded := ts_recorded st @ [e],
                 ts_diagnostics := d\<lparr>dg_overflow := dg_overflow d + 1, dg_episode := True\<rparr>\<rparr>)"

definition record_event :: "telemetry_options \<Rightarrow> sdk_event \<Rightarrow> telemetry_state \<Rightarrow> telemetry_state" where
  "record_event opts e st = (case numbered e st of (e', st') \<Rightarrow> enqueue opts e' st')"

definition diagnostics :: "telemetry_state \<Rightarrow> nat \<times> nat" where
  "diagnostics st = (dg_overflow (ts_diagnostics st), dg_undelivered (ts_diagnostics st))"

definition shutdown_call :: "telemetry_state \<Rightarrow> (shutdown_error + unit) \<times> telemetry_state" where
  "shutdown_call st =
     (if ts_stopping st then (Inl AlreadyStarted, st)
      else (let st' = st\<lparr>ts_stopping := True, ts_signal := True\<rparr>
            in if ts_phase st' = Stopped then (Inl WorkerStopped, st'\<lparr>ts_answer := Some (Inl WorkerStopped)\<rparr>)
               else (Inr (), st'\<lparr>ts_mail := True\<rparr>)))"

text \<open>The caller of the shutdown stops waiting at the deadline.\<close>

definition shutdown_timeout :: "telemetry_state \<Rightarrow> telemetry_state" where
  "shutdown_timeout st =
     st\<lparr>ts_diagnostics := claim_outstanding (ts_diagnostics st), ts_answer := Some (Inl TimedOutShutdown)\<rparr>"

section \<open>The worker\<close>

text \<open>An event that was received displaces the oldest pending one when there is no room.\<close>

definition take_in :: "telemetry_options \<Rightarrow> sdk_event \<Rightarrow> telemetry_state \<Rightarrow> telemetry_state" where
  "take_in opts e st =
     (let st' = (if to_max_queue opts \<le> length (ts_pending st)
                 then st\<lparr>ts_pending := tl (ts_pending st), ts_diagnostics := note_overflow (ts_diagnostics st)\<rparr>
                 else st)
      in st'\<lparr>ts_pending := ts_pending st' @ [e]\<rparr>)"

text \<open>The answer is lost when the caller no longer waits.\<close>

definition stop_worker :: "(shutdown_error + unit) \<Rightarrow> telemetry_state \<Rightarrow> telemetry_state" where
  "stop_worker result st =
     st\<lparr>ts_phase := Stopped, ts_closed := True,
        ts_answer := (if ts_answer st = None then Some result else ts_answer st)\<rparr>"

text \<open>
  The worker returns before any last flush: what it holds and what is in the channel is dropped, nothing is
  counted, and a shutdown that waits for its answer learns that the worker has stopped.
\<close>

definition abandon :: "telemetry_state \<Rightarrow> telemetry_state" where
  "abandon st =
     st\<lparr>ts_phase := Stopped, ts_closed := True, ts_lost := ts_lost st @ ts_pending st @ ts_queue st,
        ts_pending := [], ts_queue := [], ts_mail := False,
        ts_answer := (if ts_mail st \<and> ts_answer st = None then Some (Inl WorkerStopped) else ts_answer st)\<rparr>"

definition start_flush :: "flush_mode \<Rightarrow> telemetry_state \<Rightarrow> telemetry_state" where
  "start_flush mode st =
     (if ts_pending st = []
      then (case mode of Regular \<Rightarrow> st\<lparr>ts_phase := Idle\<rparr> | Final \<Rightarrow> stop_worker (Inr ()) st)
      else st\<lparr>ts_phase := Posting (take TELEMETRY_BATCH (ts_pending st)) 0 mode,
              ts_posts := ts_posts st @ [take TELEMETRY_BATCH (ts_pending st)],
              ts_pending := drop TELEMETRY_BATCH (ts_pending st)\<rparr>)"

definition receive :: "telemetry_options \<Rightarrow> sdk_event \<Rightarrow> telemetry_state \<Rightarrow> telemetry_state" where
  "receive opts e st =
     (let st' = take_in opts e st
      in if TELEMETRY_BATCH \<le> length (ts_pending st') then start_flush Regular st' else st')"

definition begin_shutdown :: "telemetry_options \<Rightarrow> telemetry_state \<Rightarrow> telemetry_state" where
  "begin_shutdown opts st =
     start_flush Final (fold (take_in opts) (ts_queue st) (st\<lparr>ts_mail := False, ts_closed := True, ts_queue := []\<rparr>))"

text \<open>A batch that was not delivered goes back to the front.\<close>

definition give_back :: "sdk_event list \<Rightarrow> flush_mode \<Rightarrow> telemetry_state \<Rightarrow> telemetry_state" where
  "give_back batch mode st =
     (let st' = st\<lparr>ts_pending := batch @ ts_pending st\<rparr>
      in (case mode of
            Regular \<Rightarrow> st'\<lparr>ts_phase := Idle\<rparr>
          | Final \<Rightarrow> stop_worker (Inl DeliveryFailed)
                      (st'\<lparr>ts_diagnostics := claim_outstanding (ts_diagnostics st')\<rparr>)))"

definition acknowledge :: "sdk_event list \<Rightarrow> flush_mode \<Rightarrow> telemetry_state \<Rightarrow> telemetry_state" where
  "acknowledge batch mode st =
     (let st' = st\<lparr>ts_diagnostics := note_delivered (length batch) (ts_diagnostics st),
                   ts_acked := ts_acked st @ [batch]\<rparr>
      in (case mode of Regular \<Rightarrow> st'\<lparr>ts_phase := Idle\<rparr> | Final \<Rightarrow> start_flush Final st'))"

definition answered ::
  "telemetry_options \<Rightarrow> telemetry_attempt \<Rightarrow> sdk_event list \<Rightarrow> nat \<Rightarrow> flush_mode \<Rightarrow> telemetry_state \<Rightarrow> telemetry_state" where
  "answered opts result batch attempts mode st =
     (case result of
        Delivered \<Rightarrow> acknowledge batch mode st
      | Terminal \<Rightarrow> give_back batch mode st
      | Retryable \<Rightarrow>
          if attempts + 1 < to_max_attempts opts then st\<lparr>ts_phase := Waiting batch attempts mode\<rparr>
          else give_back batch mode st)"

section \<open>Moves\<close>

datatype telemetry_move =
    Record sdk_event
  | Shutdown
  | CallerTimeout
  | WorkerStarts
  | ClientFailed
  | Receive
  | ReceiveShutdown
  | Tick
  | HandlesDropped
  | AnswerArrives telemetry_answer
  | DelayEnds
  | SignalSeen
  | DeadlinePasses

text \<open>
  The worker takes part only in moves of its phase.  It starts by building its HTTP client, and returns
  when that fails; between two flushes it returns when the channel is empty and all handles are gone,
  which a caller of a shutdown keeps until it has its answer.  A regular flush sees the signal at any await, and a dropped watch counts as an attempt without answer,
  or as the end of a delay.
\<close>

definition telemetry_move :: "telemetry_options \<Rightarrow> telemetry_move \<Rightarrow> telemetry_state \<Rightarrow> telemetry_state option" where
  "telemetry_move opts m st =
     (case m of
        Record e \<Rightarrow> Some (record_event opts e st)
      | Shutdown \<Rightarrow> Some (snd (shutdown_call st))
      | CallerTimeout \<Rightarrow> if ts_stopping st \<and> ts_answer st = None then Some (shutdown_timeout st) else None
      | WorkerStarts \<Rightarrow> if ts_phase st = Starting then Some (st\<lparr>ts_phase := Idle\<rparr>) else None
      | ClientFailed \<Rightarrow> if ts_phase st = Starting then Some (abandon st) else None
      | Receive \<Rightarrow>
          (case ts_queue st of [] \<Rightarrow> None
           | e # q \<Rightarrow> if ts_phase st = Idle then Some (receive opts e (st\<lparr>ts_queue := q\<rparr>)) else None)
      | ReceiveShutdown \<Rightarrow> if ts_phase st = Idle \<and> ts_mail st then Some (begin_shutdown opts st) else None
      | Tick \<Rightarrow> if ts_phase st = Idle then Some (start_flush Regular st) else None
      | HandlesDropped \<Rightarrow>
          if ts_phase st = Idle \<and> ts_queue st = [] \<and> (ts_stopping st \<longrightarrow> ts_answer st \<noteq> None)
          then Some (abandon st) else None
      | AnswerArrives a \<Rightarrow>
          (case ts_phase st of
             Posting batch n mode \<Rightarrow> Some (answered opts (attempt_of a (length batch)) batch n mode st)
           | _ \<Rightarrow> None)
      | DelayEnds \<Rightarrow>
          (case ts_phase st of
             Waiting batch n mode \<Rightarrow>
               Some (st\<lparr>ts_phase := Posting batch (n + 1) mode, ts_posts := ts_posts st @ [batch]\<rparr>)
           | _ \<Rightarrow> None)
      | SignalSeen \<Rightarrow>
          (case ts_phase st of
             Posting batch n Regular \<Rightarrow>
               if ts_signal st then Some (give_back batch Regular (st\<lparr>ts_signal := False\<rparr>)) else None
           | Waiting batch n Regular \<Rightarrow>
               if ts_signal st then Some (give_back batch Regular (st\<lparr>ts_signal := False\<rparr>)) else None
           | _ \<Rightarrow> None)
      | DeadlinePasses \<Rightarrow>
          (case ts_phase st of
             Posting batch n Final \<Rightarrow> Some (give_back batch Final st)
           | Waiting batch n Final \<Rightarrow> Some (give_back batch Final st)
           | _ \<Rightarrow> None))"

inductive telemetry_run :: "telemetry_options \<Rightarrow> telemetry_state \<Rightarrow> telemetry_state \<Rightarrow> bool" for opts where
  here: "telemetry_run opts st st"
| step: "telemetry_run opts st st1 \<Longrightarrow> telemetry_move opts m st1 = Some st2 \<Longrightarrow> telemetry_run opts st st2"

end
