(* ===== verification/SdkEvents.thy ===== *)
theory SdkEvents
  imports SdkTelemetry
begin

text \<open>
  \<open>sdk/rust/src/lib.rs\<close> and \<open>interaction.rs\<close>: the telemetry events that the SDK makes of a response
  (\<open>instrument_response\<close>) and of the completion of an MCP tool (\<open>enqueue_mcp_completion\<close>).
\<close>

section \<open>Operations of HTTP requests\<close>

text \<open>\<open>normalize_operation\<close>; the parser of UUIDs is an argument.\<close>

definition normal_segment :: "(string \<Rightarrow> bool) \<Rightarrow> string \<Rightarrow> string" where
  "normal_segment is_uuid segment =
     (if (list_all is_digit segment \<and> segment \<noteq> []) \<or> is_uuid segment then '':id'' else segment)"

definition normalize_operation :: "(string \<Rightarrow> bool) \<Rightarrow> string \<Rightarrow> string" where
  "normalize_operation is_uuid path =
     join ''/'' (map (normal_segment is_uuid) (split_on (\<lambda>c. c = CHR ''/'') (hd (split_on (\<lambda>c. c = CHR ''?'') path))))"

text \<open>What an extractor of the product returns is trimmed and dropped when it is empty.\<close>

definition extracted :: "('r \<Rightarrow> string option) option \<Rightarrow> 'r \<Rightarrow> string option" where
  "extracted extractor request =
     (case extractor of None \<Rightarrow> None
      | Some callback \<Rightarrow> Option.bind (callback request) (\<lambda>v. let t = trim v in if t = [] then None else Some t))"

record 'r extractors =
  ex_account_ref :: "('r \<Rightarrow> string option) option"
  ex_user_ref :: "('r \<Rightarrow> string option) option"
  ex_anonymous_ref :: "('r \<Rightarrow> string option) option"
  ex_customer_ref :: "('r \<Rightarrow> string option) option"
  ex_session_ref :: "('r \<Rightarrow> string option) option"
  ex_runtime_hint :: "('r \<Rightarrow> string option) option"
  ex_operation :: "('r \<Rightarrow> string option) option"

text \<open>The event of an instrumented response, with the interaction prepared for it.\<close>

definition http_event ::
  "(string \<Rightarrow> bool) \<Rightarrow> 'r extractors \<Rightarrow> uuid \<Rightarrow> string \<Rightarrow> string \<Rightarrow> 'r \<Rightarrow> string \<Rightarrow> nat \<Rightarrow> nat \<Rightarrow> sdk_event" where
  "http_event is_uuid ex interaction occurred_at surface request path status elapsed =
     (let operation = (case extracted (ex_operation ex) request of None \<Rightarrow> path | Some v \<Rightarrow> v);
          session_ref = extracted (ex_session_ref ex) request;
          runtime_hint = extracted (ex_runtime_hint ex) request
      in \<lparr>te_interaction = interaction, te_sequence = 0, te_surface = surface,
          te_operation = normalize_operation is_uuid operation, te_status = status, te_duration = Some elapsed,
          te_account_ref = extracted (ex_account_ref ex) request, te_user_ref = extracted (ex_user_ref ex) request,
          te_anonymous_ref = extracted (ex_anonymous_ref ex) request, te_customer_ref = extracted (ex_customer_ref ex) request,
          te_classification = ''unclassified'', te_confirmation = None, te_runtime_hint = runtime_hint,
          te_runtime_hint_source = map_option (\<lambda>_. ''http'') runtime_hint, te_session_ref = session_ref,
          te_session_source = map_option (\<lambda>_. ''customer'') session_ref, te_occurred_at = occurred_at\<rparr>)"

section \<open>Completions of MCP tools\<close>

datatype mcp_outcome = Success | Failed

record customer_identity =
  ci_account :: "string option"
  ci_user :: "string option"
  ci_anonymous :: "string option"
  ci_customer :: "string option"

record mcp_completion =
  mc_operation :: string
  mc_outcome :: mcp_outcome
  mc_identity :: customer_identity
  mc_session_ref :: "string option"
  mc_runtime_hint :: "string option"

datatype completion_error = InvalidOperation | InvalidOutcome

definition outcome_of :: "string \<Rightarrow> completion_error + mcp_outcome" where
  "outcome_of v = (if v = ''success'' then Inr Success else if v = ''error'' then Inr Failed else Inl InvalidOutcome)"

definition trim_ascii :: "string \<Rightarrow> string" where
  "trim_ascii v = trim_matches (\<lambda>c. (9 \<le> byte_val c \<and> byte_val c \<le> 13) \<or> byte_val c = 32) v"

definition sanitize_ref :: "string \<Rightarrow> string option" where
  "sanitize_ref v =
     (let t = trim_ascii v
      in if 1 \<le> length t \<and> length t \<le> 160 \<and> list_all (\<lambda>c. is_alnum c \<or> c \<in> set ''_.:-'') t then Some t else None)"

definition sanitize_hint :: "string \<Rightarrow> string option" where
  "sanitize_hint v = (let t = trim_ascii v in if t \<noteq> [] \<and> utf8_count t \<le> 200 then Some t else None)"

definition sanitize_identity :: "customer_identity \<Rightarrow> customer_identity" where
  "sanitize_identity i =
     \<lparr>ci_account = Option.bind (ci_account i) sanitize_ref, ci_user = Option.bind (ci_user i) sanitize_ref,
      ci_anonymous = Option.bind (ci_anonymous i) sanitize_ref, ci_customer = Option.bind (ci_customer i) sanitize_ref\<rparr>"

definition valid_operation :: "string \<Rightarrow> bool" where
  "valid_operation v \<longleftrightarrow> 1 \<le> length v \<and> length v \<le> 160 \<and> \<not> contains_sub v ''://''
     \<and> list_all (\<lambda>c. is_alnum c \<or> c \<in> set ''/_:.*{}-'') v"

text \<open>An interaction is prepared with the next number of the sequence, which saturates.\<close>

definition u64_max :: nat where "u64_max = 2 ^ 64 - 1"

definition u64_saturating_add :: "nat \<Rightarrow> nat \<Rightarrow> nat" where
  "u64_saturating_add a b = min (a + b) u64_max"

definition prepare_sequence :: "telemetry_state \<Rightarrow> nat \<times> telemetry_state" where
  "prepare_sequence st =
     (max (u64_saturating_add (ts_sequence st) 1) 1,
      st\<lparr>ts_sequence := max (u64_saturating_add (ts_sequence st) 1) 1\<rparr>)"

definition mcp_event ::
  "uuid \<Rightarrow> nat \<Rightarrow> string \<Rightarrow> mcp_completion \<Rightarrow> nat option \<Rightarrow> completion_error + sdk_event" where
  "mcp_event interaction sequence occurred_at c duration =
     (if \<not> valid_operation (mc_operation c) then Inl InvalidOperation
      else (let sane = sanitize_identity (mc_identity c);
                identity = (if ci_customer sane \<noteq> None \<and> (ci_account sane \<noteq> None \<or> ci_user sane \<noteq> None)
                               \<and> ci_account sane \<noteq> ci_customer sane
                            then sane\<lparr>ci_customer := None\<rparr> else sane);
                session_ref = Option.bind (mc_session_ref c) sanitize_ref;
                runtime_hint = Option.bind (mc_runtime_hint c) sanitize_hint
            in Inr \<lparr>te_interaction = interaction, te_sequence = sequence, te_surface = ''mcp'', te_operation = mc_operation c,
                 te_status = (if mc_outcome c = Success then 200 else 500),
                 te_duration = map_option (\<lambda>d. min d u64_max) duration,
                 te_account_ref = ci_account identity, te_user_ref = ci_user identity,
                 te_anonymous_ref = ci_anonymous identity, te_customer_ref = ci_customer identity,
                 te_classification = ''confirmed'', te_confirmation = Some ''mcp'', te_runtime_hint = runtime_hint,
                 te_runtime_hint_source = map_option (\<lambda>_. ''mcp'') runtime_hint, te_session_ref = session_ref,
                 te_session_source = map_option (\<lambda>_. ''mcp'') session_ref, te_occurred_at = occurred_at\<rparr>))"

text \<open>\<open>record_mcp_completion\<close>: nothing happens once the shutdown has begun.\<close>

definition record_mcp_completion ::
  "telemetry_options \<Rightarrow> bool \<Rightarrow> uuid \<Rightarrow> string \<Rightarrow> mcp_completion \<Rightarrow> telemetry_state
     \<Rightarrow> (completion_error + unit) \<times> telemetry_state" where
  "record_mcp_completion opts enabled interaction occurred_at c st =
     (if \<not> enabled \<or> ts_stopping st then (Inr (), st)
      else if \<not> valid_operation (mc_operation c) then (Inl InvalidOperation, st)
      else (case prepare_sequence st of (n, st1) \<Rightarrow>
              (case mcp_event interaction n occurred_at c None of
                 Inl e \<Rightarrow> (Inl e, st1)
               | Inr e \<Rightarrow> (Inr (), record_event opts e st1))))"

end
