(* ===== verification/SdkTelemetryFacts.thy ===== *)
theory SdkTelemetryFacts
  imports SdkTelemetry
begin

text \<open>
  The invariant of the SDK's telemetry: what was handed in is acknowledged, counted as dropped, still
  held, or lost with a worker that returned before a last flush, in the order it was handed in, and the
  queue, the batches and the attempts stay bounded.
\<close>

definition in_flight :: "telemetry_state \<Rightarrow> sdk_event list" where
  "in_flight st = (case ts_phase st of Posting b n m \<Rightarrow> b | Waiting b n m \<Rightarrow> b | _ \<Rightarrow> [])"

definition held :: "telemetry_state \<Rightarrow> sdk_event list" where
  "held st = in_flight st @ ts_pending st @ ts_queue st"

definition acked :: "telemetry_state \<Rightarrow> sdk_event list" where
  "acked st = concat (ts_acked st)"

text \<open>The books, with events \<open>es\<close> that are on their way from the queue to the worker.\<close>

definition balanced :: "sdk_event list \<Rightarrow> telemetry_state \<Rightarrow> bool" where
  "balanced es st \<longleftrightarrow> (let d = ts_diagnostics st; n = length (ts_recorded st); a = length (acked st) in
     (if dg_claimed d then dg_outstanding d = 0 \<and> ts_stopping st \<and> n \<le> a + dg_overflow d + dg_undelivered d
      else dg_undelivered d = 0
         \<and> n = a + dg_overflow d + length (in_flight st) + length (ts_pending st) + length es + length (ts_queue st) + length (ts_lost st)
         \<and> (ts_lost st = [] \<longrightarrow> dg_outstanding d = length (in_flight st) + length (ts_pending st) + length es + length (ts_queue st)))
     \<and> subseq (acked st @ in_flight st @ ts_pending st @ es @ ts_queue st @ ts_lost st) (ts_recorded st))"

definition bounded :: "telemetry_options \<Rightarrow> telemetry_state \<Rightarrow> bool" where
  "bounded opts st \<longleftrightarrow> length (in_flight st) + length (ts_pending st) \<le> to_max_queue opts
     \<and> length (ts_queue st) \<le> to_max_queue opts \<and> length (in_flight st) \<le> TELEMETRY_BATCH
     \<and> (case ts_phase st of Posting b n m \<Rightarrow> n < to_max_attempts opts | Waiting b n m \<Rightarrow> n + 1 < to_max_attempts opts | _ \<Rightarrow> True)"

definition ordered_shutdown :: "telemetry_state \<Rightarrow> bool" where
  "ordered_shutdown st \<longleftrightarrow> (ts_mail st \<longrightarrow> ts_stopping st) \<and> (ts_answer st \<noteq> None \<longrightarrow> ts_stopping st)
     \<and> (dg_claimed (ts_diagnostics st) \<longrightarrow> ts_answer st \<noteq> None)
     \<and> (case ts_phase st of Posting b n Final \<Rightarrow> ts_stopping st \<and> ts_queue st = []
          | Waiting b n Final \<Rightarrow> ts_stopping st \<and> ts_queue st = [] | _ \<Rightarrow> True)
     \<and> (ts_answer st = Some (Inr ()) \<longrightarrow> held st = [] \<and> ts_phase st = Stopped \<and> \<not> dg_claimed (ts_diagnostics st)
          \<and> ts_lost st = [])
     \<and> (ts_lost st \<noteq> [] \<longrightarrow> ts_phase st = Stopped) \<and> (ts_closed st \<longrightarrow> ts_stopping st \<or> ts_phase st = Stopped)
     \<and> (ts_phase st = Stopped \<longrightarrow> ts_closed st)
     \<and> (ts_stopping st \<and> ts_answer st = None \<longrightarrow> ts_phase st \<noteq> Stopped \<and> (ts_phase st = Starting \<longrightarrow> ts_mail st))"

lemmas telemetry_defs = start_flush_def stop_worker_def give_back_def acknowledge_def answered_def shutdown_call_def
  shutdown_timeout_def note_overflow_def note_delivered_def claim_outstanding_def in_flight_def

lemma tl_subseq: "subseq (tl xs) xs"
  by (cases xs) auto

lemma balanced_take_in:
  assumes "0 < to_max_queue opts" and "balanced (e # es) st"
  shows "balanced es (take_in opts e st)"
proof (cases "to_max_queue opts \<le> length (ts_pending st)")
  case True
  then have p: "0 < length (ts_pending st)" using assms(1) by linarith
  have "subseq (acked st @ in_flight st @ tl (ts_pending st) @ e # es @ ts_queue st @ ts_lost st)
      (acked st @ in_flight st @ ts_pending st @ e # es @ ts_queue st @ ts_lost st)"
    by (intro list_emb_append_mono subseq_order.refl tl_subseq)
  then have "subseq (acked st @ in_flight st @ tl (ts_pending st) @ e # es @ ts_queue st @ ts_lost st) (ts_recorded st)"
    using assms(2) subseq_order.trans by (fastforce simp: balanced_def Let_def)
  with True assms(2) p show ?thesis
    by (auto simp: balanced_def take_in_def Let_def note_overflow_def in_flight_def acked_def)
next
  case False
  with assms(2) show ?thesis by (auto simp: balanced_def take_in_def Let_def in_flight_def acked_def)
qed

lemma take_in_keeps [simp]:
  "ts_queue (take_in opts e st) = ts_queue st" "ts_phase (take_in opts e st) = ts_phase st"
  "ts_stopping (take_in opts e st) = ts_stopping st" "ts_answer (take_in opts e st) = ts_answer st"
  "ts_mail (take_in opts e st) = ts_mail st" "ts_closed (take_in opts e st) = ts_closed st"
  "dg_claimed (ts_diagnostics (take_in opts e st)) = dg_claimed (ts_diagnostics st)"
  "in_flight (take_in opts e st) = in_flight st" "ts_lost (take_in opts e st) = ts_lost st"
  by (auto simp: take_in_def Let_def note_overflow_def in_flight_def)

lemma take_in_pending:
  "0 < to_max_queue opts \<Longrightarrow> length (ts_pending st) \<le> to_max_queue opts
     \<Longrightarrow> length (ts_pending (take_in opts e st)) \<le> to_max_queue opts"
  by (auto simp: take_in_def Let_def)

lemma fold_take_in:
  assumes "0 < to_max_queue opts" and "balanced es st" and "length (ts_pending st) \<le> to_max_queue opts"
  shows "balanced [] (fold (take_in opts) es st) \<and> length (ts_pending (fold (take_in opts) es st)) \<le> to_max_queue opts
    \<and> ts_queue (fold (take_in opts) es st) = ts_queue st \<and> ts_phase (fold (take_in opts) es st) = ts_phase st
    \<and> ts_stopping (fold (take_in opts) es st) = ts_stopping st \<and> ts_answer (fold (take_in opts) es st) = ts_answer st
    \<and> ts_mail (fold (take_in opts) es st) = ts_mail st
    \<and> ts_closed (fold (take_in opts) es st) = ts_closed st \<and> ts_lost (fold (take_in opts) es st) = ts_lost st
    \<and> dg_claimed (ts_diagnostics (fold (take_in opts) es st)) = dg_claimed (ts_diagnostics st)"
  using assms(2,3)
proof (induction es arbitrary: st)
  case (Cons e es)
  from Cons.IH [OF balanced_take_in [OF assms(1) Cons.prems(1)] take_in_pending [OF assms(1) Cons.prems(2)]]
  show ?case by simp
qed simp

lemma take_drop_append: "take k xs @ drop k xs @ ys = xs @ ys"
  by (metis append_assoc append_take_drop_id)

lemma balanced_start_flush:
  assumes "balanced [] st" and "in_flight st = []"
  shows "balanced [] (start_flush mode st)"
  using assms by (auto simp: balanced_def telemetry_defs acked_def Let_def take_drop_append split: flush_mode.splits)

lemma balanced_give_back:
  assumes "balanced [] st" and "in_flight st = batch" and "mode = Final \<longrightarrow> ts_stopping st" and "ts_lost st = []"
  shows "balanced [] (give_back batch mode st)"
  using assms by (auto simp: balanced_def telemetry_defs acked_def Let_def split: flush_mode.splits)

text \<open>The state after an acknowledgement, before a last flush goes on.\<close>

definition acknowledged :: "sdk_event list \<Rightarrow> telemetry_state \<Rightarrow> telemetry_state" where
  "acknowledged batch st = st\<lparr>ts_diagnostics := note_delivered (length batch) (ts_diagnostics st),
     ts_acked := ts_acked st @ [batch], ts_phase := Idle\<rparr>"

lemma acknowledge_idle:
  "acknowledge batch mode st =
     (case mode of Regular \<Rightarrow> acknowledged batch st | Final \<Rightarrow> start_flush Final (acknowledged batch st))"
  by (simp add: acknowledge_def acknowledged_def start_flush_def stop_worker_def Let_def split: flush_mode.split)

lemma balanced_acknowledged:
  assumes "balanced [] st" and "in_flight st = batch"
  shows "balanced [] (acknowledged batch st)"
  using assms by (auto simp: balanced_def acknowledged_def note_delivered_def acked_def in_flight_def Let_def)

section \<open>The invariant\<close>

definition telemetry_ok :: "telemetry_options \<Rightarrow> telemetry_state \<Rightarrow> bool" where
  "telemetry_ok opts st \<longleftrightarrow> balanced [] st \<and> bounded opts st \<and> ordered_shutdown st"

lemma start_flush_ok:
  assumes "balanced [] st" and "length (ts_pending st) \<le> to_max_queue opts" and "length (ts_queue st) \<le> to_max_queue opts"
    and "0 < to_max_attempts opts" and "in_flight st = []" and "ordered_shutdown (st\<lparr>ts_phase := Idle\<rparr>)"
    and "mode = Final \<longrightarrow> ts_stopping st \<and> ts_queue st = []"
  shows "telemetry_ok opts (start_flush mode st)"
proof -
  have "bounded opts (start_flush mode st)"
    using assms(2,3,4) by (auto simp: bounded_def telemetry_defs TELEMETRY_BATCH_def split: flush_mode.splits)
  moreover have "ordered_shutdown (start_flush mode st)"
    using assms(5-7) by (cases mode) (auto simp: ordered_shutdown_def telemetry_defs held_def)
  ultimately show ?thesis using balanced_start_flush [OF assms(1,5)] by (simp add: telemetry_ok_def)
qed

lemma give_back_ok:
  assumes "telemetry_ok opts st" and "ts_phase st = Posting batch n mode \<or> ts_phase st = Waiting batch n mode"
    and "st' = st \<or> st' = st\<lparr>ts_signal := False\<rparr>"
  shows "telemetry_ok opts (give_back batch mode st')"
proof -
  have f: "in_flight st' = batch" using assms(2,3) by (auto simp: in_flight_def)
  have b: "balanced [] st'" using assms(1,3) by (auto simp: telemetry_ok_def balanced_def Let_def acked_def in_flight_def)
  have o: "mode = Final \<longrightarrow> ts_stopping st'" and l: "ts_lost st' = []"
    using assms by (auto simp: telemetry_ok_def ordered_shutdown_def)
  have "bounded opts (give_back batch mode st')"
    using assms by (auto simp: telemetry_ok_def bounded_def give_back_def stop_worker_def Let_def in_flight_def split: flush_mode.splits)
  moreover have "ordered_shutdown (give_back batch mode st')"
  proof -
    have h: "ts_mail st' \<longrightarrow> ts_stopping st'" "ts_answer st' \<noteq> None \<longrightarrow> ts_stopping st'"
      "dg_claimed (ts_diagnostics st') \<longrightarrow> ts_answer st' \<noteq> None"
      using assms(1,3) by (auto simp: telemetry_ok_def ordered_shutdown_def)
    have a: "ts_answer st' \<noteq> Some (Inr ())" and c: "ts_closed st' \<longrightarrow> ts_stopping st'"
      using assms by (auto simp: telemetry_ok_def ordered_shutdown_def)
    show ?thesis
    proof (cases mode)
      case Regular
      with h a c l show ?thesis by (simp add: ordered_shutdown_def give_back_def Let_def)
    next
      case Final
      with h a o l show ?thesis by (simp add: ordered_shutdown_def give_back_def stop_worker_def Let_def)
    qed
  qed
  ultimately show ?thesis using balanced_give_back [OF b f o l] by (simp add: telemetry_ok_def)
qed

lemma acknowledge_ok:
  assumes "telemetry_ok opts st" and "ts_phase st = Posting batch n mode" and "0 < to_max_attempts opts"
  shows "telemetry_ok opts (acknowledge batch mode st)"
proof -
  let ?st = "acknowledged batch st"
  have f: "in_flight st = batch" using assms(2) by (simp add: in_flight_def)
  have b: "balanced [] ?st" using assms(1) f balanced_acknowledged by (simp add: telemetry_ok_def)
  have l: "length (ts_pending ?st) \<le> to_max_queue opts" "length (ts_queue ?st) \<le> to_max_queue opts" "in_flight ?st = []"
    using assms(1) by (auto simp: telemetry_ok_def bounded_def acknowledged_def in_flight_def)
  have o: "ordered_shutdown ?st" and m: "mode = Final \<longrightarrow> ts_stopping ?st \<and> ts_queue ?st = []"
    using assms(1,2) by (auto simp: telemetry_ok_def ordered_shutdown_def acknowledged_def note_delivered_def)
  have i: "?st\<lparr>ts_phase := Idle\<rparr> = ?st" by (simp add: acknowledged_def)
  show ?thesis
  proof (cases mode)
    case Regular
    have "bounded opts ?st" using l by (simp add: bounded_def) (simp add: acknowledged_def)
    with b o Regular show ?thesis by (simp add: acknowledge_idle telemetry_ok_def)
  next
    case Final
    have "telemetry_ok opts (start_flush Final ?st)"
      by (rule start_flush_ok [OF b l(1,2) assms(3) l(3)]) (use o m i Final in simp_all)
    with Final show ?thesis by (simp add: acknowledge_idle)
  qed
qed

lemma record_ok:
  assumes "telemetry_ok opts st"
  shows "telemetry_ok opts (record_event opts e st)"
proof -
  have q: "telemetry_ok opts (st\<lparr>ts_sequence := k\<rparr>) = telemetry_ok opts st" for k
    by (simp add: telemetry_ok_def balanced_def bounded_def ordered_shutdown_def in_flight_def acked_def held_def
        cong: worker_phase.case_cong flush_mode.case_cong)
  have n: "telemetry_ok opts (snd (numbered e st))" using assms by (simp add: numbered_def q)
  have "telemetry_ok opts (enqueue opts e1 st1)" if ok: "telemetry_ok opts st1" for e1 st1
  proof (cases "ts_stopping st1")
    case running: False
    have b: "balanced [] st1" and o: "ordered_shutdown st1" and z: "bounded opts st1" using ok by (simp_all add: telemetry_ok_def)
    have c: "\<not> dg_claimed (ts_diagnostics st1)" "ts_answer st1 = None"
      using o running by (auto simp: ordered_shutdown_def)
    have i: "in_flight (enqueue opts e1 st1) = in_flight st1" by (simp add: enqueue_def in_flight_def Let_def)
    have h: "subseq (acked st1 @ in_flight st1 @ ts_pending st1 @ ts_queue st1 @ ts_lost st1) (ts_recorded st1)"
      using b by (simp add: balanced_def Let_def)
    have more: "subseq (acked st1 @ in_flight st1 @ ts_pending st1 @ ts_queue st1 @ ts_lost st1 @ [e1]) (ts_recorded st1 @ [e1])"
      using list_emb_append_mono [OF h, of "[e1]" "[e1]"] by simp
    have less: "subseq (acked st1 @ in_flight st1 @ ts_pending st1 @ ts_queue st1 @ ts_lost st1) (ts_recorded st1 @ [e1])"
      using h by (rule list_emb_prefix)
    have l: "\<not> ts_closed st1 \<Longrightarrow> ts_lost st1 = []" using o by (auto simp: ordered_shutdown_def)
    have "balanced [] (enqueue opts e1 st1)"
      using b c running more less l unfolding balanced_def i by (auto simp: enqueue_def Let_def acked_def)
    moreover have "bounded opts (enqueue opts e1 st1)"
      using z unfolding bounded_def i by (simp add: enqueue_def Let_def)
    moreover have "ordered_shutdown (enqueue opts e1 st1)"
      using o c running by (auto simp: ordered_shutdown_def enqueue_def Let_def held_def split: worker_phase.splits flush_mode.splits)
    ultimately show ?thesis by (simp add: telemetry_ok_def)
  qed (use ok in \<open>simp add: enqueue_def Let_def\<close>)
  from this [OF n, of "fst (numbered e st)"] show ?thesis by (simp add: record_event_def split_beta)
qed

lemma receive_ok:
  assumes "telemetry_ok opts st" and "ts_phase st = Idle" and "ts_queue st = e # q"
    and "0 < to_max_queue opts" and "0 < to_max_attempts opts"
  shows "telemetry_ok opts (receive opts e (st\<lparr>ts_queue := q\<rparr>))"
proof -
  let ?st = "take_in opts e (st\<lparr>ts_queue := q\<rparr>)"
  have idle: "in_flight st = []" using assms(2) by (simp add: in_flight_def)
  have "balanced [e] (st\<lparr>ts_queue := q\<rparr>)"
    using assms(1,3) by (simp add: telemetry_ok_def balanced_def Let_def in_flight_def acked_def)
  then have b: "balanced [] ?st" by (rule balanced_take_in [OF assms(4)])
  have p: "length (ts_pending ?st) \<le> to_max_queue opts"
    using assms(1,4) by (intro take_in_pending) (auto simp: telemetry_ok_def bounded_def)
  have q: "length (ts_queue ?st) \<le> to_max_queue opts"
    using assms(1,3) by (simp add: telemetry_ok_def bounded_def)
  have i: "in_flight ?st = []" using assms(2) by (simp add: in_flight_def)
  have o: "ordered_shutdown (?st\<lparr>ts_phase := Idle\<rparr>)"
    using assms(1,2) by (auto simp: telemetry_ok_def ordered_shutdown_def)
  have same: "?st\<lparr>ts_phase := Idle\<rparr> = ?st" using assms(2) by (simp add: take_in_def Let_def)
  show ?thesis
  proof (cases "TELEMETRY_BATCH \<le> length (ts_pending ?st)")
    case True
    with start_flush_ok [OF b p q assms(5) i o, of Regular] show ?thesis by (simp add: receive_def Let_def)
  next
    case False
    have "bounded opts ?st" using p q i assms(2) by (simp add: bounded_def)
    with b o same False show ?thesis by (simp add: receive_def Let_def telemetry_ok_def)
  qed
qed

lemma begin_shutdown_ok:
  assumes "telemetry_ok opts st" and "ts_phase st = Idle" and "ts_mail st"
    and "0 < to_max_queue opts" and "0 < to_max_attempts opts"
  shows "telemetry_ok opts (begin_shutdown opts st)"
proof -
  let ?base = "st\<lparr>ts_mail := False, ts_closed := True, ts_queue := []\<rparr>"
  let ?st = "fold (take_in opts) (ts_queue st) ?base"
  have i: "in_flight (st\<lparr>ts_mail := False, ts_closed := True, ts_queue := []\<rparr>) = in_flight st"
    by (simp add: in_flight_def)
  have b0: "balanced (ts_queue st) ?base"
    using assms(1) unfolding telemetry_ok_def balanced_def i by (simp add: Let_def acked_def)
  have p0: "length (ts_pending ?base) \<le> to_max_queue opts"
    using assms(1) by (simp add: telemetry_ok_def bounded_def)
  note f = fold_take_in [OF assms(4) b0 p0]
  have "ts_phase ?st = Idle" using f assms(2) by simp
  then have idle: "in_flight ?st = []" by (simp only: in_flight_def worker_phase.case)
  have s: "ts_stopping st" and a: "ts_answer st \<noteq> Some (Inr ())" and l: "ts_lost st = []"
    and c: "dg_claimed (ts_diagnostics st) \<longrightarrow> ts_answer st \<noteq> None"
    using assms(1,2,3) by (auto simp: telemetry_ok_def ordered_shutdown_def)
  show ?thesis
    unfolding begin_shutdown_def
  proof (rule start_flush_ok)
    show "ordered_shutdown (?st\<lparr>ts_phase := Idle\<rparr>)"
      using f s a l c by (simp add: ordered_shutdown_def)
  qed (use f s idle assms(5) in simp_all)
qed

text \<open>A worker that returns early loses what it holds; the books say so.\<close>

lemma abandon_fields:
  "ts_phase (abandon st) = Stopped" "ts_closed (abandon st)" "ts_pending (abandon st) = []" "ts_queue (abandon st) = []"
  "\<not> ts_mail (abandon st)" "ts_stopping (abandon st) = ts_stopping st" "ts_diagnostics (abandon st) = ts_diagnostics st"
  "ts_answer (abandon st) = (if ts_mail st \<and> ts_answer st = None then Some (Inl WorkerStopped) else ts_answer st)"
  "ts_lost (abandon st) = ts_lost st @ ts_pending st @ ts_queue st" "ts_recorded (abandon st) = ts_recorded st"
  "ts_acked (abandon st) = ts_acked st" "ts_posts (abandon st) = ts_posts st"
  by (simp_all add: abandon_def)

lemma abandon_ok:
  assumes "telemetry_ok opts st" and "in_flight st = []" and "ts_phase st \<noteq> Stopped"
    and "ts_stopping st \<and> ts_answer st = None \<longrightarrow> ts_mail st"
  shows "telemetry_ok opts (abandon st)"
proof -
  have o: "ordered_shutdown st" and b: "balanced [] st" and z: "bounded opts st" using assms(1) by (simp_all add: telemetry_ok_def)
  have l: "ts_lost st = []" and a: "ts_answer st \<noteq> Some (Inr ())" using o assms(3) by (auto simp: ordered_shutdown_def)
  have i: "in_flight (abandon st) = []" by (simp add: abandon_def in_flight_def)
  have "balanced [] (abandon st)"
    using b l assms(2) unfolding balanced_def i by (auto simp: abandon_def acked_def Let_def)
  moreover have "bounded opts (abandon st)" using z unfolding bounded_def i by (simp add: abandon_def)
  moreover have "ordered_shutdown (abandon st)"
  proof -
    have "ts_mail st \<longrightarrow> ts_stopping st" "ts_answer st \<noteq> None \<longrightarrow> ts_stopping st"
      "dg_claimed (ts_diagnostics st) \<longrightarrow> ts_answer st \<noteq> None" using o unfolding ordered_shutdown_def by blast+
    moreover have "ts_answer (abandon st) = ts_answer st \<and> \<not> (ts_mail st \<and> ts_answer st = None)
        \<or> ts_answer (abandon st) = Some (Inl WorkerStopped) \<and> ts_mail st"
      unfolding abandon_fields(8) by simp
    ultimately have "ts_answer (abandon st) \<noteq> None \<longrightarrow> ts_stopping st" "dg_claimed (ts_diagnostics st) \<longrightarrow> ts_answer (abandon st) \<noteq> None"
      "ts_answer (abandon st) \<noteq> Some (Inr ())" "ts_stopping st \<longrightarrow> ts_answer (abandon st) \<noteq> None"
      using a assms(4) by (metis option.distinct(1) option.inject sum.distinct(1))+
    then show ?thesis unfolding ordered_shutdown_def abandon_fields(1-7) worker_phase.case using abandon_fields(2,5) by blast
  qed
  ultimately show ?thesis by (simp add: telemetry_ok_def)
qed

theorem telemetry_move_ok:
  assumes "telemetry_ok opts st" and "0 < to_max_queue opts" and "0 < to_max_attempts opts"
    and "telemetry_move opts m st = Some st'"
  shows "telemetry_ok opts st'"
proof (cases m)
  case (Record e)
  then have "st' = record_event opts e st" using assms(4) by (simp add: telemetry_move_def)
  with record_ok [OF assms(1)] show ?thesis by simp
next
  case Shutdown
  then have "st' = snd (shutdown_call st)" using assms(4) by (simp add: telemetry_move_def)
  with assms(1) show ?thesis
    by (auto simp: telemetry_ok_def shutdown_call_def balanced_def bounded_def ordered_shutdown_def in_flight_def
        held_def acked_def Let_def split: worker_phase.splits flush_mode.splits)
next
  case CallerTimeout
  then have "st' = shutdown_timeout st" "ts_stopping st" "ts_answer st = None"
    using assms(4) by (auto simp: telemetry_move_def split: if_splits)
  with assms(1) show ?thesis
    by (auto simp: telemetry_ok_def shutdown_timeout_def claim_outstanding_def balanced_def bounded_def ordered_shutdown_def
        in_flight_def held_def acked_def Let_def cong: worker_phase.case_cong flush_mode.case_cong)
next
  case Receive
  then obtain e q where "ts_queue st = e # q" "ts_phase st = Idle" "st' = receive opts e (st\<lparr>ts_queue := q\<rparr>)"
    using assms(4) by (auto simp: telemetry_move_def split: list.splits if_splits)
  with receive_ok assms(1-3) show ?thesis by blast
next
  case ReceiveShutdown
  then show ?thesis using assms begin_shutdown_ok by (auto simp: telemetry_move_def split: if_splits)
next
  case Tick
  then have t: "ts_phase st = Idle" "st' = start_flush Regular st" using assms(4) by (auto simp: telemetry_move_def split: if_splits)
  have "st\<lparr>ts_phase := Idle\<rparr> = st" using t(1) by simp
  moreover have "balanced [] st" "length (ts_pending st) \<le> to_max_queue opts" "length (ts_queue st) \<le> to_max_queue opts"
      "ordered_shutdown st" using assms(1) by (auto simp: telemetry_ok_def bounded_def)
  moreover have "in_flight st = []" using t(1) by (simp add: in_flight_def)
  ultimately have "telemetry_ok opts (start_flush Regular st)" using assms(3) by (intro start_flush_ok) simp_all
  with t(2) show ?thesis by simp
next
  case HandlesDropped
  then have s: "st' = abandon st" "ts_phase st = Idle" "ts_stopping st \<longrightarrow> ts_answer st \<noteq> None"
    using assms(4) by (auto simp: telemetry_move_def split: if_splits)
  have "telemetry_ok opts (abandon st)" by (rule abandon_ok [OF assms(1)]) (use s in \<open>auto simp: in_flight_def\<close>)
  with s(1) show ?thesis by simp
next
  case WorkerStarts
  then have "st' = st\<lparr>ts_phase := Idle\<rparr>" "ts_phase st = Starting"
    using assms(4) by (auto simp: telemetry_move_def split: if_splits)
  with assms(1) show ?thesis
    by (auto simp: telemetry_ok_def balanced_def bounded_def ordered_shutdown_def in_flight_def held_def acked_def Let_def)
next
  case ClientFailed
  then have s: "st' = abandon st" "ts_phase st = Starting"
    using assms(4) by (auto simp: telemetry_move_def split: if_splits)
  then have "ts_stopping st \<and> ts_answer st = None \<longrightarrow> ts_mail st"
    using assms(1) by (auto simp: telemetry_ok_def ordered_shutdown_def)
  with s show ?thesis using abandon_ok [OF assms(1)] by (simp add: in_flight_def)
next
  case (AnswerArrives a)
  then obtain batch n mode where p: "ts_phase st = Posting batch n mode"
      "st' = answered opts (attempt_of a (length batch)) batch n mode st"
    using assms(4) by (auto simp: telemetry_move_def split: worker_phase.splits)
  have w: "telemetry_ok opts (st\<lparr>ts_phase := Waiting batch n mode\<rparr>)" if "n + 1 < to_max_attempts opts"
    using assms(1) p(1) that by (auto simp: telemetry_ok_def balanced_def bounded_def ordered_shutdown_def in_flight_def
        held_def acked_def Let_def split: flush_mode.splits)
  show ?thesis
    using p acknowledge_ok [OF assms(1) p(1) assms(3)] give_back_ok [OF assms(1) disjI1 [OF p(1)]] w
    by (auto simp: answered_def split: telemetry_attempt.splits if_splits)
next
  case DelayEnds
  then obtain batch n mode where p: "ts_phase st = Waiting batch n mode"
      "st' = st\<lparr>ts_phase := Posting batch (n + 1) mode, ts_posts := ts_posts st @ [batch]\<rparr>"
    using assms(4) by (auto simp: telemetry_move_def split: worker_phase.splits)
  with assms(1) show ?thesis
    by (auto simp: telemetry_ok_def balanced_def bounded_def ordered_shutdown_def in_flight_def held_def acked_def Let_def
        split: flush_mode.splits)
next
  case SignalSeen
  then obtain batch n where "ts_phase st = Posting batch n Regular \<or> ts_phase st = Waiting batch n Regular"
      "st' = give_back batch Regular (st\<lparr>ts_signal := False\<rparr>)"
    using assms(4) by (auto simp: telemetry_move_def split: worker_phase.splits flush_mode.splits if_splits)
  with give_back_ok [OF assms(1)] show ?thesis by blast
next
  case DeadlinePasses
  then obtain batch n where "ts_phase st = Posting batch n Final \<or> ts_phase st = Waiting batch n Final"
      "st' = give_back batch Final st"
    using assms(4) by (auto simp: telemetry_move_def split: worker_phase.splits flush_mode.splits)
  with give_back_ok [OF assms(1)] show ?thesis by blast
qed

end
