(* ===== verification/SdkTelemetryGuarantees.thy ===== *)
theory SdkTelemetryGuarantees
  imports SdkTelemetryFacts
begin

text \<open>
  What the telemetry of the SDK promises over all its runs: the books are kept, a clean shutdown has
  lost nothing but what was counted, a service that accepts gets everything, and an event that the
  service refuses keeps the events behind it back.
\<close>

section \<open>Runs\<close>

inductive_cases telemetry_runE: "telemetry_run opts st st'"

lemma normalized_positive: "0 < to_max_queue (normalized_options o')" "0 < to_max_attempts (normalized_options o')"
  by (simp_all add: normalized_options_def TELEMETRY_MAX_ATTEMPTS_def)

lemma fresh_ok: "telemetry_ok opts fresh_runtime"
  by (simp add: telemetry_ok_def balanced_def bounded_def ordered_shutdown_def in_flight_def acked_def fresh_runtime_def
      fresh_diagnostics_def)

lemma telemetry_run_ok:
  assumes "telemetry_run opts st st'" and "telemetry_ok opts st" and "0 < to_max_queue opts" and "0 < to_max_attempts opts"
  shows "telemetry_ok opts st'"
  using assms by (induction rule: telemetry_run.induct) (blast intro: telemetry_move_ok)+

lemma normalized_run_ok:
  "telemetry_run (normalized_options o') fresh_runtime st \<Longrightarrow> telemetry_ok (normalized_options o') st"
  by (rule telemetry_run_ok [OF _ fresh_ok normalized_positive])

lemma telemetry_run_trans:
  assumes "telemetry_run opts st st'" and "telemetry_run opts st0' st"
  shows "telemetry_run opts st0' st'"
  using assms by (induction rule: telemetry_run.induct) (blast intro: telemetry_run.step)+

lemma one_move: "telemetry_move opts m st = Some st' \<Longrightarrow> telemetry_run opts st st'"
  using telemetry_run.step [OF telemetry_run.here] by simp

text \<open>A run from a list of moves, for concrete runs.\<close>

fun play :: "telemetry_options \<Rightarrow> telemetry_move list \<Rightarrow> telemetry_state \<Rightarrow> telemetry_state option" where
  "play opts [] st = Some st"
| "play opts (m # ms) st = (case telemetry_move opts m st of None \<Rightarrow> None | Some st' \<Rightarrow> play opts ms st')"

lemma play_run: "play opts ms st = Some st' \<Longrightarrow> telemetry_run opts st st'"
proof (induction ms arbitrary: st)
  case (Cons m ms)
  then obtain st1 where "telemetry_move opts m st = Some st1" "play opts ms st1 = Some st'"
    by (auto split: option.splits)
  with Cons.IH one_move telemetry_run_trans show ?case by blast
qed (simp add: telemetry_run.here)

definition event_1 :: sdk_event where
  "event_1 = \<lparr>te_interaction = 1, te_sequence = 1, te_surface = ''mcp'', te_operation = ''search'', te_status = 200,
     te_duration = Some 12, te_account_ref = None, te_user_ref = None, te_anonymous_ref = None, te_customer_ref = None,
     te_classification = ''confirmed'', te_confirmation = Some ''mcp'', te_runtime_hint = None,
     te_runtime_hint_source = None, te_session_ref = None, te_session_source = None,
     te_occurred_at = ''2026-01-01T00:00:00.000Z''\<rparr>"

definition event_2 :: sdk_event where "event_2 = event_1\<lparr>te_interaction := 2, te_sequence := 2\<rparr>"
definition event_3 :: sdk_event where "event_3 = event_1\<lparr>te_interaction := 3, te_sequence := 3\<rparr>"

definition tiny_options :: telemetry_options where
  "tiny_options = \<lparr>to_flush_interval = 0, to_max_queue = 1, to_timeout = 0, to_max_attempts = 0, to_shutdown_timeout = 0\<rparr>"

section \<open>The books\<close>

text \<open>
  C15.  In every run of the SDK's telemetry, however recording, posting and shutdown interleave, the
  acknowledged, the held and the lost events are recorded ones in the order of recording.  As long as a
  shutdown has not given up, every recorded event is acknowledged, counted as dropped, still held, or
  lost; afterwards the two counters miss none of those that the service does not have and no worker
  lost.  Events are lost only with a worker that returned before a last flush, because its HTTP client
  could not be built or all handles were dropped, or when they come after its return.  Channel, batches
  and attempts stay bounded.
\<close>

theorem telemetry_keeps_its_books:
  assumes "telemetry_run (normalized_options o') fresh_runtime st"
  shows "subseq (acked st @ held st @ ts_lost st) (ts_recorded st)
    \<and> (\<not> dg_claimed (ts_diagnostics st) \<longrightarrow> snd (diagnostics st) = 0
        \<and> length (ts_recorded st) = length (acked st) + fst (diagnostics st) + length (held st) + length (ts_lost st))
    \<and> length (ts_recorded st) \<le> length (acked st) + fst (diagnostics st) + snd (diagnostics st) + length (held st) + length (ts_lost st)
    \<and> (ts_lost st \<noteq> [] \<longrightarrow> ts_phase st = Stopped \<and> ts_answer st \<noteq> Some (Inr ()))
    \<and> length (in_flight st @ ts_pending st) \<le> to_max_queue (normalized_options o')
    \<and> length (ts_queue st) \<le> to_max_queue (normalized_options o') \<and> length (in_flight st) \<le> TELEMETRY_BATCH"
proof -
  have b: "balanced [] st" and z: "bounded (normalized_options o') st" and o: "ordered_shutdown st"
    using normalized_run_ok [OF assms] by (simp_all add: telemetry_ok_def)
  have "ts_lost st \<noteq> [] \<longrightarrow> ts_phase st = Stopped \<and> ts_answer st \<noteq> Some (Inr ())" using o unfolding ordered_shutdown_def by blast
  with b z show ?thesis by (simp add: balanced_def bounded_def held_def diagnostics_def Let_def split: if_split_asm)
qed

theorem telemetry_keeps_its_books_witness:
  "\<exists>st. telemetry_run (normalized_options tiny_options) fresh_runtime st \<and> acked st = [event_1] \<and> ts_lost st = [event_3]
     \<and> diagnostics st = (1, 0) \<and> length (ts_recorded st) = 3
     \<and> length (ts_queue st) \<le> to_max_queue (normalized_options tiny_options)"
proof -
  have moves: "play (normalized_options tiny_options)
      [Record event_1, Record event_2, WorkerStarts, Receive, Tick, AnswerArrives (TelemetryAnswer 202 (Some (1, 0))),
       Record event_3, Receive, HandlesDropped] fresh_runtime
    = Some (let st = fresh_runtime in st\<lparr>ts_phase := Stopped, ts_closed := True, ts_sequence := 0,
        ts_recorded := [event_1, event_2, event_3], ts_posts := [[event_1]], ts_acked := [[event_1]], ts_lost := [event_3],
        ts_diagnostics := \<lparr>dg_overflow = 1, dg_undelivered = 0, dg_episode = False, dg_outstanding = 1, dg_claimed = False\<rparr>\<rparr>)"
    by code_simp
  from telemetry_keeps_its_books [OF play_run [OF this]] play_run [OF this] show ?thesis
    by (intro exI conjI) (assumption | simp add: acked_def held_def in_flight_def diagnostics_def fresh_runtime_def Let_def)+
qed

text \<open>
  C16. When a shutdown reports success, the worker holds nothing any more, and the service acknowledged
  every recorded event except those counted as dropped; none is counted as undelivered.
\<close>

theorem a_clean_shutdown_lost_nothing:
  assumes "telemetry_run (normalized_options o') fresh_runtime st" and "ts_answer st = Some (Inr ())"
  shows "held st = [] \<and> length (ts_recorded st) = length (acked st) + fst (diagnostics st)
    \<and> snd (diagnostics st) = 0 \<and> subseq (acked st) (ts_recorded st)"
proof -
  have "held st = []" "\<not> dg_claimed (ts_diagnostics st)" "ts_lost st = []"
    using normalized_run_ok [OF assms(1)] assms(2) by (auto simp: telemetry_ok_def ordered_shutdown_def)
  then show ?thesis using normalized_run_ok [OF assms(1)]
    by (auto simp: telemetry_ok_def balanced_def held_def diagnostics_def Let_def)
qed

theorem a_clean_shutdown_lost_nothing_witness:
  "\<exists>st. telemetry_run (normalized_options tiny_options) fresh_runtime st \<and> ts_answer st = Some (Inr ())
     \<and> held st = [] \<and> acked st = [event_1] \<and> length (ts_recorded st) = 2 \<and> snd (diagnostics st) = 0"
proof -
  have moves: "play (normalized_options tiny_options)
      [Record event_1, Record event_2, Shutdown, WorkerStarts, ReceiveShutdown, AnswerArrives NoAnswer, DelayEnds,
       AnswerArrives (TelemetryAnswer 202 (Some (1, 0)))] fresh_runtime
    = Some (let st = fresh_runtime in st\<lparr>ts_closed := True, ts_phase := Stopped, ts_stopping := True, ts_signal := True,
        ts_recorded := [event_1, event_2], ts_posts := [[event_1], [event_1]], ts_acked := [[event_1]],
        ts_answer := Some (Inr ()),
        ts_diagnostics := \<lparr>dg_overflow = 1, dg_undelivered = 0, dg_episode = True, dg_outstanding = 0, dg_claimed = False\<rparr>\<rparr>)"
    by code_simp
  from a_clean_shutdown_lost_nothing [OF play_run [OF this]] play_run [OF this] show ?thesis
    by (intro exI conjI) (assumption | simp add: acked_def fresh_runtime_def Let_def)+
qed

section \<open>A service that accepts\<close>

definition accepting :: "sdk_event list \<Rightarrow> telemetry_answer" where
  "accepting batch = TelemetryAnswer 202 (Some (length batch, 0))"

lemma accepting_delivers: "attempt_of (accepting batch) (length batch) = Delivered"
  by (simp add: attempt_of_def accepting_def)

definition accepted_posts :: "sdk_event list list \<Rightarrow> telemetry_move list" where
  "accepted_posts bs = map (\<lambda>b. AnswerArrives (accepting b)) bs"

lemma last_flush_drains:
  "\<exists>bs st'. play opts (accepted_posts bs) (start_flush Final st) = Some st' \<and> ts_phase st' = Stopped \<and> ts_pending st' = []
     \<and> ts_queue st' = ts_queue st \<and> acked st' = acked st @ ts_pending st \<and> fst (diagnostics st') = fst (diagnostics st)
     \<and> ts_answer st' = (if ts_answer st = None then Some (Inr ()) else ts_answer st)"
proof (induction "length (ts_pending st)" arbitrary: st rule: less_induct)
  case less
  show ?case
  proof (cases "ts_pending st = []")
    case True
    then have "play opts (accepted_posts []) (start_flush Final st) = Some (stop_worker (Inr ()) st)"
      by (simp add: accepted_posts_def start_flush_def)
    then show ?thesis using True by (fastforce simp: stop_worker_def acked_def diagnostics_def)
  next
    case False
    let ?batch = "take TELEMETRY_BATCH (ts_pending st)"
    let ?st = "start_flush Final st"
    let ?next = "?st\<lparr>ts_diagnostics := note_delivered (length ?batch) (ts_diagnostics ?st), ts_acked := ts_acked ?st @ [?batch]\<rparr>"
    have first: "telemetry_move opts (AnswerArrives (accepting ?batch)) ?st = Some (start_flush Final ?next)"
      using False accepting_delivers [of ?batch]
      by (simp add: telemetry_move_def answered_def acknowledge_def Let_def start_flush_def)
    have "length (ts_pending ?next) < length (ts_pending st)"
      using False by (simp add: start_flush_def TELEMETRY_BATCH_def)
    from less [OF this] obtain bs st' where run: "play opts (accepted_posts bs) (start_flush Final ?next) = Some st'"
      and end_state: "ts_phase st' = Stopped" "ts_pending st' = []" "ts_queue st' = ts_queue ?next"
        "acked st' = acked ?next @ ts_pending ?next" "fst (diagnostics st') = fst (diagnostics ?next)"
        "ts_answer st' = (if ts_answer ?next = None then Some (Inr ()) else ts_answer ?next)" by blast
    have "play opts (accepted_posts (?batch # bs)) ?st = Some st'" using first run by (simp add: accepted_posts_def)
    moreover have "acked ?next @ ts_pending ?next = acked st @ ts_pending st" "ts_queue ?next = ts_queue st"
        "ts_answer ?next = ts_answer st" "fst (diagnostics ?next) = fst (diagnostics st)"
      using False by (simp_all add: start_flush_def acked_def diagnostics_def note_delivered_def)
    ultimately show ?thesis using end_state by (intro exI [of _ "?batch # bs"] exI [of _ st']) simp
  qed
qed

lemma last_events_stay:
  assumes "length (ts_pending s) \<le> to_max_queue opts" and "0 < to_max_queue opts"
  shows "ts_pending (fold (take_in opts) es s) = drop (length (ts_pending s @ es) - to_max_queue opts) (ts_pending s @ es)
    \<and> dg_overflow (ts_diagnostics (fold (take_in opts) es s))
        = dg_overflow (ts_diagnostics s) + (length (ts_pending s @ es) - to_max_queue opts)
    \<and> acked (fold (take_in opts) es s) = acked s \<and> ts_queue (fold (take_in opts) es s) = ts_queue s
    \<and> ts_answer (fold (take_in opts) es s) = ts_answer s"
  using assms(1)
proof (induction es arbitrary: s)
  case (Cons e es)
  let ?s = "take_in opts e s"
  have a: "acked ?s = acked s" by (simp add: take_in_def Let_def acked_def)
  have l: "length (ts_pending ?s) \<le> to_max_queue opts" by (rule take_in_pending [OF assms(2) Cons.prems])
  note ih = Cons.IH [OF l]
  show ?case
  proof (cases "to_max_queue opts \<le> length (ts_pending s)")
    case True
    then obtain x xs where p: "ts_pending s = x # xs" using assms(2) by (cases "ts_pending s") auto
    have t: "ts_pending ?s = xs @ [e]" "dg_overflow (ts_diagnostics ?s) = dg_overflow (ts_diagnostics s) + 1"
      using True p by (simp_all add: take_in_def Let_def note_overflow_def)
    have n: "to_max_queue opts = Suc (length xs)" using True p Cons.prems by simp
    show ?thesis using ih a by (simp add: t p n)
  next
    case False
    then have t: "ts_pending ?s = ts_pending s @ [e]" "dg_overflow (ts_diagnostics ?s) = dg_overflow (ts_diagnostics s)"
      by (simp_all add: take_in_def Let_def)
    show ?thesis using ih a by (simp add: t)
  qed
qed simp

text \<open>
  C17.  Whatever the worker holds between two flushes when a shutdown reaches it, in any run, answers
  that accept take the run to its end: the worker stops with nothing left; of what it held, the latest
  events, as many as the queue size, are acknowledged, the older ones that had no room are counted as
  dropped; and a caller who still waits is told of success.
\<close>

theorem an_accepting_service_gets_everything:
  assumes "telemetry_run (normalized_options o') fresh_runtime st" and "ts_phase st = Idle" and "ts_mail st"
  shows "\<exists>bs st'. play (normalized_options o') (ReceiveShutdown # accepted_posts bs) st = Some st'
    \<and> ts_phase st' = Stopped \<and> held st' = []
    \<and> (let displaced = length (held st) - to_max_queue (normalized_options o')
       in acked st' = acked st @ drop displaced (held st)
          \<and> fst (diagnostics st') = fst (diagnostics st) + displaced)
    \<and> (ts_answer st = None \<longrightarrow> ts_answer st' = Some (Inr ()))"
proof -
  let ?opts = "normalized_options o'"
  let ?base = "st\<lparr>ts_mail := False, ts_closed := True, ts_queue := []\<rparr>"
  let ?taken = "fold (take_in ?opts) (ts_queue st) ?base"
  have h: "held st = ts_pending st @ ts_queue st" using assms(2) by (simp add: held_def in_flight_def)
  have "length (ts_pending ?base) \<le> to_max_queue ?opts"
    using normalized_run_ok [OF assms(1)] by (simp add: telemetry_ok_def bounded_def)
  note taken = last_events_stay [OF this normalized_positive(1), of "ts_queue st"]
  have "telemetry_move ?opts ReceiveShutdown st = Some (start_flush Final ?taken)"
    using assms(2,3) by (simp add: telemetry_move_def begin_shutdown_def)
  moreover obtain bs st' where s: "play ?opts (accepted_posts bs) (start_flush Final ?taken) = Some st'"
    "ts_phase st' = Stopped" "ts_pending st' = []" "ts_queue st' = ts_queue ?taken" "acked st' = acked ?taken @ ts_pending ?taken"
    "fst (diagnostics st') = fst (diagnostics ?taken)"
    "ts_answer st' = (if ts_answer ?taken = None then Some (Inr ()) else ts_answer ?taken)"
    using last_flush_drains [of ?opts ?taken] by blast
  ultimately have "play ?opts (ReceiveShutdown # accepted_posts bs) st = Some st'" by simp
  moreover have "held st' = []" using s(2-4) taken by (simp add: held_def in_flight_def)
  moreover have "acked ?base = acked st" by (simp add: acked_def)
  ultimately show ?thesis using s(2,5-7) taken h
    by (intro exI [of _ bs] exI [of _ st']) (simp add: Let_def diagnostics_def)
qed

theorem an_accepting_service_gets_everything_witness:
  "\<exists>st bs st'. telemetry_run (normalized_options tiny_options) fresh_runtime st \<and> held st = [event_1, event_2]
     \<and> play (normalized_options tiny_options) (ReceiveShutdown # accepted_posts bs) st = Some st'
     \<and> acked st' = [event_2] \<and> fst (diagnostics st') = 1 \<and> ts_answer st' = Some (Inr ())"
proof -
  let ?st = "fresh_runtime\<lparr>ts_pending := [event_1], ts_queue := [event_2], ts_phase := Idle, ts_mail := True, ts_stopping := True,
      ts_signal := True, ts_recorded := [event_1, event_2],
      ts_diagnostics := \<lparr>dg_overflow = 0, dg_undelivered = 0, dg_episode = False, dg_outstanding = 2, dg_claimed = False\<rparr>\<rparr>"
  have "play (normalized_options tiny_options) [WorkerStarts, Record event_1, Receive, Record event_2, Shutdown] fresh_runtime = Some ?st"
    by code_simp
  from play_run [OF this] have run: "telemetry_run (normalized_options tiny_options) fresh_runtime ?st" .
  have c: "ts_phase ?st = Idle" "ts_mail ?st" by simp_all
  have h: "held ?st = [event_1, event_2]" "acked ?st = []" "ts_answer ?st = None" "fst (diagnostics ?st) = 0"
    "to_max_queue (normalized_options tiny_options) = 1"
    by (simp_all add: fresh_runtime_def held_def in_flight_def acked_def diagnostics_def normalized_options_def tiny_options_def)
  from an_accepting_service_gets_everything [OF run c] run h show ?thesis by (fastforce simp: Let_def)
qed

section \<open>A service that refuses an event\<close>

text \<open>The event is the oldest one the worker holds, and nothing was acknowledged or posted without it since.\<close>

definition stuck_behind :: "sdk_event \<Rightarrow> telemetry_state \<Rightarrow> telemetry_state \<Rightarrow> bool" where
  "stuck_behind bad st0' st \<longleftrightarrow> ts_acked st = ts_acked st0' \<and> in_flight st @ ts_pending st \<noteq> []
     \<and> hd (in_flight st @ ts_pending st) = bad
     \<and> (\<exists>ps. ts_posts st = ts_posts st0' @ ps \<and> (\<forall>p \<in> set ps. p \<noteq> [] \<and> hd p = bad))"

text \<open>The worker has returned before a last flush, and the event is lost with all it held.\<close>

definition let_go :: "sdk_event \<Rightarrow> telemetry_state \<Rightarrow> telemetry_state \<Rightarrow> bool" where
  "let_go bad st0' st \<longleftrightarrow> ts_phase st = Stopped \<and> bad \<in> set (ts_lost st) \<and> ts_acked st = ts_acked st0'
     \<and> (\<exists>ps. ts_posts st = ts_posts st0' @ ps \<and> (\<forall>p \<in> set ps. p \<noteq> [] \<and> hd p = bad))"

definition posting_something :: "telemetry_state \<Rightarrow> bool" where
  "posting_something st \<longleftrightarrow> (case ts_phase st of Posting b n m \<Rightarrow> b \<noteq> [] | Waiting b n m \<Rightarrow> b \<noteq> [] | _ \<Rightarrow> True)"

lemma take_in_stuck:
  assumes "stuck_behind bad st0' st" and "ts_phase st = Idle"
  shows "stuck_behind bad st0' (take_in opts e st) \<and> dg_overflow (ts_diagnostics (take_in opts e st)) = dg_overflow (ts_diagnostics st)
    \<or> dg_overflow (ts_diagnostics st) < dg_overflow (ts_diagnostics (take_in opts e st))"
  using assms by (auto simp: stuck_behind_def take_in_def Let_def note_overflow_def in_flight_def)

lemma take_in_overflow: "dg_overflow (ts_diagnostics st) \<le> dg_overflow (ts_diagnostics (take_in opts e st))"
  by (simp add: take_in_def Let_def note_overflow_def)

lemma fold_take_in_stuck:
  assumes "stuck_behind bad st0' st" and "ts_phase st = Idle"
  shows "stuck_behind bad st0' (fold (take_in opts) es st) \<or> dg_overflow (ts_diagnostics st) < dg_overflow (ts_diagnostics (fold (take_in opts) es st))"
proof -
  have mono: "dg_overflow (ts_diagnostics s) \<le> dg_overflow (ts_diagnostics (fold (take_in opts) es s))" for es s
    by (induction es arbitrary: s) (auto intro: order_trans take_in_overflow)
  show ?thesis
    using assms
  proof (induction es arbitrary: st)
    case (Cons e es)
    from take_in_stuck [OF Cons.prems, of opts e] show ?case
    proof
      assume "stuck_behind bad st0' (take_in opts e st) \<and> dg_overflow (ts_diagnostics (take_in opts e st)) = dg_overflow (ts_diagnostics st)"
      with Cons.IH [of "take_in opts e st"] Cons.prems(2) show ?thesis by simp
    next
      assume "dg_overflow (ts_diagnostics st) < dg_overflow (ts_diagnostics (take_in opts e st))"
      with mono [of "take_in opts e st" es] show ?thesis by simp
    qed
  qed simp
qed

lemma start_flush_stuck:
  assumes "stuck_behind bad st0' st" and "in_flight st = []"
  shows "stuck_behind bad st0' (start_flush mode st)"
proof -
  have p: "ts_pending st \<noteq> []" "hd (ts_pending st) = bad" using assms by (auto simp: stuck_behind_def)
  let ?b = "take TELEMETRY_BATCH (ts_pending st)"
  have b: "?b \<noteq> []" "hd ?b = bad" using p by (simp_all add: TELEMETRY_BATCH_def)
  obtain ps where "ts_posts st = ts_posts st0' @ ps" "\<forall>q \<in> set ps. q \<noteq> [] \<and> hd q = bad"
    using assms(1) by (auto simp: stuck_behind_def)
  then have "\<exists>ps. ts_posts st @ [?b] = ts_posts st0' @ ps \<and> (\<forall>q \<in> set ps. q \<noteq> [] \<and> hd q = bad)"
    using b by (intro exI [of _ "ps @ [?b]"]) auto
  then show ?thesis using assms p b by (simp add: stuck_behind_def start_flush_def in_flight_def)
qed

lemma start_flush_posting: "posting_something (start_flush mode st)"
  by (simp add: posting_something_def start_flush_def stop_worker_def TELEMETRY_BATCH_def split: flush_mode.split)

lemma give_back_posting: "posting_something (give_back batch mode st)"
  by (simp add: posting_something_def give_back_def stop_worker_def Let_def split: flush_mode.split)

lemma acknowledge_posting: "posting_something (acknowledge batch mode st)"
proof (cases mode)
  case Regular
  then show ?thesis by (simp add: posting_something_def acknowledge_def Let_def)
next
  case Final
  then show ?thesis using start_flush_posting by (simp add: acknowledge_def Let_def)
qed

lemma posting_phase: "ts_phase st = ts_phase st' \<Longrightarrow> posting_something st = posting_something st'"
  by (simp add: posting_something_def)

lemma record_phase [simp]: "ts_phase (record_event opts e st) = ts_phase st"
  by (simp add: record_event_def numbered_def enqueue_def Let_def)

lemma shutdown_phase [simp]: "ts_phase (snd (shutdown_call st)) = ts_phase st"
  by (simp add: shutdown_call_def Let_def)

lemma posting_move:
  assumes "posting_something st" and "telemetry_move opts m st = Some st'"
  shows "posting_something st'"
proof (cases m)
  case (Record e)
  with assms show ?thesis using posting_phase [OF record_phase] by (simp add: telemetry_move_def) blast
next
  case Shutdown
  with assms show ?thesis using posting_phase [OF shutdown_phase] by (simp add: telemetry_move_def) blast
next
  case CallerTimeout
  then have "ts_phase st' = ts_phase st" using assms(2) by (auto simp: telemetry_move_def shutdown_timeout_def split: if_splits)
  with assms(1) show ?thesis using posting_phase by blast
next
  case Receive
  then obtain e q where r: "ts_phase st = Idle" "st' = receive opts e (st\<lparr>ts_queue := q\<rparr>)"
    using assms(2) by (auto simp: telemetry_move_def split: list.splits if_splits)
  have "posting_something (take_in opts e (st\<lparr>ts_queue := q\<rparr>))" using r(1) by (simp add: posting_something_def)
  with r(2) start_flush_posting show ?thesis by (simp add: receive_def Let_def)
next
  case ReceiveShutdown
  with assms start_flush_posting show ?thesis by (auto simp: telemetry_move_def begin_shutdown_def split: if_splits)
next
  case Tick
  with assms start_flush_posting show ?thesis by (auto simp: telemetry_move_def split: if_splits)
next
  case HandlesDropped
  with assms show ?thesis by (auto simp: telemetry_move_def posting_something_def abandon_fields split: if_splits)
next
  case WorkerStarts
  with assms show ?thesis by (auto simp: telemetry_move_def posting_something_def split: if_splits)
next
  case ClientFailed
  with assms show ?thesis by (auto simp: telemetry_move_def posting_something_def abandon_fields split: if_splits)
next
  case (AnswerArrives a)
  then obtain batch n mode where p: "ts_phase st = Posting batch n mode"
      "st' = answered opts (attempt_of a (length batch)) batch n mode st"
    using assms(2) by (auto simp: telemetry_move_def split: worker_phase.splits)
  have "posting_something (st\<lparr>ts_phase := Waiting batch n mode\<rparr>)" using p(1) assms(1) by (simp add: posting_something_def)
  with p(2) give_back_posting acknowledge_posting show ?thesis
    by (simp add: answered_def split: telemetry_attempt.split)
next
  case DelayEnds
  with assms show ?thesis by (auto simp: telemetry_move_def posting_something_def split: worker_phase.splits)
next
  case SignalSeen
  with assms give_back_posting show ?thesis
    by (auto simp: telemetry_move_def split: worker_phase.splits flush_mode.splits if_splits)
next
  case DeadlinePasses
  with assms give_back_posting show ?thesis
    by (auto simp: telemetry_move_def split: worker_phase.splits flush_mode.splits)
qed

text \<open>What every move keeps: the overflow counter does not fall, and acknowledgements stay.\<close>

definition moves_on :: "telemetry_state \<Rightarrow> telemetry_state \<Rightarrow> bool" where
  "moves_on st st' \<longleftrightarrow> dg_overflow (ts_diagnostics st) \<le> dg_overflow (ts_diagnostics st') \<and> set (acked st) \<subseteq> set (acked st')"

lemma moves_on_refl: "moves_on st st"
  by (simp add: moves_on_def)

lemma moves_on_trans: "moves_on st st1 \<Longrightarrow> moves_on st1 st2 \<Longrightarrow> moves_on st st2"
  by (auto simp: moves_on_def)

lemma start_flush_moves_on: "moves_on st (start_flush mode st)"
  by (simp add: moves_on_def start_flush_def stop_worker_def acked_def split: flush_mode.split)

lemma take_in_moves_on: "moves_on st (take_in opts e st)"
  by (simp add: moves_on_def take_in_def Let_def note_overflow_def acked_def)

lemma fold_moves_on: "moves_on st (fold (take_in opts) es st)"
  by (induction es arbitrary: st) (auto intro: moves_on_refl moves_on_trans [OF take_in_moves_on])

lemma give_back_moves_on: "moves_on st (give_back batch mode st)"
  by (simp add: moves_on_def give_back_def stop_worker_def claim_outstanding_def Let_def acked_def split: flush_mode.split)

lemma acknowledge_moves_on: "moves_on st (acknowledge batch mode st)"
proof -
  have "moves_on st (acknowledged batch st)" by (simp add: moves_on_def acknowledged_def note_delivered_def acked_def)
  with moves_on_trans [OF this start_flush_moves_on] show ?thesis by (simp add: acknowledge_idle split: flush_mode.split)
qed

lemma moves_on_fields:
  "ts_diagnostics s = ts_diagnostics st \<Longrightarrow> ts_acked s = ts_acked st \<Longrightarrow> moves_on s st' = moves_on st st'"
  by (simp add: moves_on_def acked_def)

lemma move_moves_on:
  assumes "telemetry_move opts m st = Some st'"
  shows "moves_on st st'"
proof (cases m)
  case (Record e)
  with assms show ?thesis
    by (auto simp: telemetry_move_def record_event_def numbered_def enqueue_def Let_def moves_on_def acked_def)
next
  case Shutdown
  with assms show ?thesis by (auto simp: telemetry_move_def shutdown_call_def Let_def moves_on_def acked_def)
next
  case CallerTimeout
  with assms show ?thesis
    by (auto simp: telemetry_move_def shutdown_timeout_def claim_outstanding_def moves_on_def acked_def split: if_splits)
next
  case Receive
  then obtain e q where r: "st' = receive opts e (st\<lparr>ts_queue := q\<rparr>)"
    using assms by (auto simp: telemetry_move_def split: list.splits if_splits)
  have "moves_on (st\<lparr>ts_queue := q\<rparr>) st'"
    unfolding r receive_def Let_def
    using moves_on_trans [OF take_in_moves_on start_flush_moves_on] take_in_moves_on by simp
  then show ?thesis by (simp add: moves_on_def acked_def)
next
  case ReceiveShutdown
  let ?base = "st\<lparr>ts_mail := False, ts_closed := True, ts_queue := []\<rparr>"
  have "moves_on ?base st'"
    using ReceiveShutdown assms moves_on_trans [OF fold_moves_on start_flush_moves_on]
    by (auto simp: telemetry_move_def begin_shutdown_def split: if_splits)
  then show ?thesis by (simp add: moves_on_def acked_def)
next
  case Tick
  with assms start_flush_moves_on show ?thesis by (auto simp: telemetry_move_def split: if_splits)
next
  case HandlesDropped
  with assms show ?thesis by (auto simp: telemetry_move_def moves_on_def acked_def abandon_fields split: if_splits)
next
  case WorkerStarts
  with assms show ?thesis by (auto simp: telemetry_move_def moves_on_def acked_def split: if_splits)
next
  case ClientFailed
  with assms show ?thesis by (auto simp: telemetry_move_def moves_on_def acked_def abandon_fields split: if_splits)
next
  case (AnswerArrives a)
  then obtain batch n mode where p: "st' = answered opts (attempt_of a (length batch)) batch n mode st"
    using assms by (auto simp: telemetry_move_def split: worker_phase.splits)
  have "moves_on st (st\<lparr>ts_phase := Waiting batch n mode\<rparr>)" by (simp add: moves_on_def acked_def)
  with p give_back_moves_on acknowledge_moves_on show ?thesis
    by (simp add: answered_def split: telemetry_attempt.split)
next
  case DelayEnds
  with assms show ?thesis by (auto simp: telemetry_move_def moves_on_def acked_def split: worker_phase.splits)
next
  case SignalSeen
  then obtain batch where "st' = give_back batch Regular (st\<lparr>ts_signal := False\<rparr>)"
    using assms by (auto simp: telemetry_move_def split: worker_phase.splits flush_mode.splits if_splits)
  moreover have "moves_on st (st\<lparr>ts_signal := False\<rparr>)" by (simp add: moves_on_def acked_def)
  ultimately show ?thesis using give_back_moves_on moves_on_trans by blast
next
  case DeadlinePasses
  with assms give_back_moves_on show ?thesis
    by (auto simp: telemetry_move_def split: worker_phase.splits flush_mode.splits)
qed

lemma stuck_fields:
  assumes "stuck_behind bad st0' st" and "ts_acked s = ts_acked st" and "ts_posts s = ts_posts st"
    and "in_flight s @ ts_pending s = in_flight st @ ts_pending st"
  shows "stuck_behind bad st0' s"
  using assms by (simp add: stuck_behind_def)

lemma give_back_holds:
  "in_flight (give_back batch mode st) @ ts_pending (give_back batch mode st) = batch @ ts_pending st"
  "ts_acked (give_back batch mode st) = ts_acked st" "ts_posts (give_back batch mode st) = ts_posts st"
  by (simp_all add: give_back_def stop_worker_def in_flight_def Let_def split: flush_mode.split)

lemma give_back_stuck:
  assumes "stuck_behind bad st0' st" and "in_flight st = batch" and "s = st \<or> s = st\<lparr>ts_signal := False\<rparr>"
  shows "stuck_behind bad st0' (give_back batch mode s)"
  using assms(2,3) by (intro stuck_fields [OF assms(1)]) (auto simp: give_back_holds)

lemma acknowledge_acks: "set batch \<subseteq> set (acked (acknowledge batch mode st))"
proof -
  have "set batch \<subseteq> set (acked (acknowledged batch st))" by (simp add: acknowledged_def acked_def)
  moreover have "moves_on (acknowledged batch st) (acknowledge batch mode st)"
    using start_flush_moves_on moves_on_refl by (simp add: acknowledge_idle split: flush_mode.split)
  ultimately show ?thesis unfolding moves_on_def by blast
qed

lemma answered_stuck:
  assumes "stuck_behind bad st0' st" and "posting_something st" and "ts_phase st = Posting batch n mode"
    and "bad \<notin> set (acked (answered opts r batch n mode st))"
  shows "stuck_behind bad st0' (answered opts r batch n mode st)"
proof -
  have f: "in_flight st = batch" "batch \<noteq> []" using assms(2,3) by (simp_all add: in_flight_def posting_something_def)
  then have "bad \<in> set batch" using assms(1) by (auto simp: stuck_behind_def intro: hd_in_set)
  then have d: "r \<noteq> Delivered" using assms(4) acknowledge_acks by (fastforce simp: answered_def)
  have w: "stuck_behind bad st0' (st\<lparr>ts_phase := Waiting batch n mode\<rparr>)"
    using f(1) by (intro stuck_fields [OF assms(1)]) (simp_all add: in_flight_def)
  show ?thesis using d w give_back_stuck [OF assms(1) f(1)] by (cases r) (simp_all add: answered_def)
qed

lemma delay_ends_stuck:
  assumes "stuck_behind bad st0' st" and "posting_something st" and "ts_phase st = Waiting batch n mode"
  shows "stuck_behind bad st0' (st\<lparr>ts_phase := Posting batch (n + 1) mode, ts_posts := ts_posts st @ [batch]\<rparr>)"
proof -
  have f: "in_flight st = batch" "batch \<noteq> []" using assms(2,3) by (simp_all add: in_flight_def posting_something_def)
  obtain ps where "ts_posts st = ts_posts st0' @ ps" "\<forall>q \<in> set ps. q \<noteq> [] \<and> hd q = bad"
    using assms(1) by (auto simp: stuck_behind_def)
  then have "\<exists>ps. ts_posts st @ [batch] = ts_posts st0' @ ps \<and> (\<forall>q \<in> set ps. q \<noteq> [] \<and> hd q = bad)"
    using f assms(1) by (intro exI [of _ "ps @ [batch]"]) (auto simp: stuck_behind_def)
  with f assms(1) show ?thesis by (simp add: stuck_behind_def in_flight_def)
qed

lemma receive_stuck:
  assumes "stuck_behind bad st0' st" and "ts_phase st = Idle"
  shows "stuck_behind bad st0' (receive opts e st) \<or> dg_overflow (ts_diagnostics st) < dg_overflow (ts_diagnostics (receive opts e st))"
proof -
  have i: "in_flight (take_in opts e st) = []" using assms(2) by (simp add: in_flight_def)
  have m: "dg_overflow (ts_diagnostics (take_in opts e st)) \<le> dg_overflow (ts_diagnostics (receive opts e st))"
    using start_flush_moves_on by (simp add: receive_def Let_def moves_on_def)
  from take_in_stuck [OF assms, of opts e] show ?thesis
    using m start_flush_stuck [OF _ i] by (auto simp: receive_def Let_def)
qed

lemma abandon_lets_go:
  assumes "stuck_behind bad st0' st" and "in_flight st = []"
  shows "let_go bad st0' (abandon st)"
  using assms hd_in_set [of "ts_pending st"] by (auto simp: stuck_behind_def let_go_def abandon_fields)

lemma let_go_move:
  assumes "let_go bad st0' st" and "telemetry_move opts m st = Some st'"
  shows "let_go bad st0' st'"
proof -
  have p: "ts_phase st = Stopped" using assms(1) by (simp add: let_go_def)
  then consider e where "st' = record_event opts e st" | "st' = snd (shutdown_call st)" | "st' = shutdown_timeout st"
    using assms(2) by (cases m) (auto simp: telemetry_move_def split: if_splits list.splits)
  then show ?thesis using assms(1)
    by cases (auto simp: let_go_def record_event_def numbered_def enqueue_def shutdown_call_def shutdown_timeout_def Let_def)
qed

lemma move_stuck:
  assumes "stuck_behind bad st0' st" and "posting_something st" and "telemetry_move opts m st = Some st'"
    and "bad \<notin> set (acked st')"
  shows "stuck_behind bad st0' st' \<or> let_go bad st0' st' \<or> dg_overflow (ts_diagnostics st) < dg_overflow (ts_diagnostics st')"
proof (cases m)
  case (Record e)
  then have "st' = record_event opts e st" using assms(3) by (simp add: telemetry_move_def)
  then have "stuck_behind bad st0' st'"
    by (intro stuck_fields [OF assms(1)]) (simp_all add: record_event_def numbered_def enqueue_def in_flight_def Let_def)
  then show ?thesis ..
next
  case Shutdown
  then have "st' = snd (shutdown_call st)" using assms(3) by (simp add: telemetry_move_def)
  then have "stuck_behind bad st0' st'"
    by (intro stuck_fields [OF assms(1)]) (simp_all add: shutdown_call_def in_flight_def Let_def)
  then show ?thesis ..
next
  case CallerTimeout
  then have "st' = shutdown_timeout st" using assms(3) by (simp add: telemetry_move_def split: if_splits)
  then have "stuck_behind bad st0' st'"
    by (intro stuck_fields [OF assms(1)]) (simp_all add: shutdown_timeout_def in_flight_def)
  then show ?thesis ..
next
  case Receive
  then obtain e q where r: "ts_phase st = Idle" "st' = receive opts e (st\<lparr>ts_queue := q\<rparr>)"
    using assms(3) by (auto simp: telemetry_move_def split: list.splits if_splits)
  have "stuck_behind bad st0' (st\<lparr>ts_queue := q\<rparr>)" by (intro stuck_fields [OF assms(1)]) (simp_all add: in_flight_def)
  from receive_stuck [OF this, of opts e] r show ?thesis by auto
next
  case ReceiveShutdown
  let ?base = "st\<lparr>ts_mail := False, ts_closed := True, ts_queue := []\<rparr>"
  let ?st = "fold (take_in opts) (ts_queue st) ?base"
  from ReceiveShutdown have r: "ts_phase st = Idle" "st' = start_flush Final ?st"
    using assms(3) by (auto simp: telemetry_move_def begin_shutdown_def split: if_splits)
  have "stuck_behind bad st0' ?base" by (intro stuck_fields [OF assms(1)]) (simp_all add: in_flight_def)
  note f = fold_take_in_stuck [OF this, of opts "ts_queue st"]
  have phase: "ts_phase (fold (take_in opts) es s) = ts_phase s" for es s by (induction es arbitrary: s) simp_all
  have i: "in_flight ?st = []" using r(1) by (simp add: in_flight_def phase)
  have "dg_overflow (ts_diagnostics ?st) \<le> dg_overflow (ts_diagnostics st')"
    using r(2) start_flush_moves_on by (simp add: moves_on_def)
  with f r start_flush_stuck [OF _ i] show ?thesis by auto
next
  case Tick
  then have t: "ts_phase st = Idle" "st' = start_flush Regular st"
    using assms(3) by (simp_all add: telemetry_move_def split: if_splits)
  then have "in_flight st = []" by (simp add: in_flight_def)
  from start_flush_stuck [OF assms(1) this] t(2) show ?thesis by simp
next
  case HandlesDropped
  then have "in_flight st = []" "st' = abandon st"
    using assms(3) by (auto simp: telemetry_move_def in_flight_def split: if_splits)
  with abandon_lets_go [OF assms(1)] show ?thesis by blast
next
  case ClientFailed
  then have "in_flight st = []" "st' = abandon st"
    using assms(3) by (auto simp: telemetry_move_def in_flight_def split: if_splits)
  with abandon_lets_go [OF assms(1)] show ?thesis by blast
next
  case WorkerStarts
  then have "ts_phase st = Starting" "st' = st\<lparr>ts_phase := Idle\<rparr>"
    using assms(3) by (auto simp: telemetry_move_def split: if_splits)
  then have "stuck_behind bad st0' st'" by (intro stuck_fields [OF assms(1)]) (simp_all add: in_flight_def)
  then show ?thesis ..
next
  case (AnswerArrives a)
  then obtain batch n mode where "ts_phase st = Posting batch n mode"
      "st' = answered opts (attempt_of a (length batch)) batch n mode st"
    using assms(3) by (auto simp: telemetry_move_def split: worker_phase.splits)
  with answered_stuck assms(1,2,4) show ?thesis by blast
next
  case DelayEnds
  then obtain batch n mode where "ts_phase st = Waiting batch n mode"
      "st' = st\<lparr>ts_phase := Posting batch (n + 1) mode, ts_posts := ts_posts st @ [batch]\<rparr>"
    using assms(3) by (auto simp: telemetry_move_def split: worker_phase.splits)
  with delay_ends_stuck assms(1,2) show ?thesis by blast
next
  case SignalSeen
  then obtain batch n where "ts_phase st = Posting batch n Regular \<or> ts_phase st = Waiting batch n Regular"
      "st' = give_back batch Regular (st\<lparr>ts_signal := False\<rparr>)"
    using assms(3) by (auto simp: telemetry_move_def split: worker_phase.splits flush_mode.splits if_splits)
  moreover from this have "in_flight st = batch" by (auto simp: in_flight_def)
  ultimately show ?thesis using give_back_stuck [OF assms(1)] by blast
next
  case DeadlinePasses
  then obtain batch n where "ts_phase st = Posting batch n Final \<or> ts_phase st = Waiting batch n Final"
      "st' = give_back batch Final st"
    using assms(3) by (auto simp: telemetry_move_def split: worker_phase.splits flush_mode.splits)
  moreover from this have "in_flight st = batch" by (auto simp: in_flight_def)
  ultimately show ?thesis using give_back_stuck [OF assms(1)] by blast
qed

lemma run_posting: "telemetry_run opts st st' \<Longrightarrow> posting_something st \<Longrightarrow> posting_something st'"
  by (induction rule: telemetry_run.induct) (blast intro: posting_move)+

lemma run_moves_on: "telemetry_run opts st st' \<Longrightarrow> moves_on st st'"
  by (induction rule: telemetry_run.induct) (blast intro: moves_on_refl moves_on_trans move_moves_on)+

lemma run_stuck:
  assumes "telemetry_run opts st st'" and "stuck_behind bad st0' st" and "posting_something st" and "bad \<notin> set (acked st')"
  shows "stuck_behind bad st0' st' \<or> let_go bad st0' st' \<or> dg_overflow (ts_diagnostics st) < dg_overflow (ts_diagnostics st')"
  using assms
proof (induction rule: telemetry_run.induct)
  case (step st st1 m st2)
  have m: "moves_on st1 st2" by (rule move_moves_on [OF step.hyps(2)])
  with step.prems(3) have "bad \<notin> set (acked st1)" unfolding moves_on_def by blast
  from step.IH [OF step.prems(1,2) this] show ?case
  proof (elim disjE)
    assume "stuck_behind bad st0' st1"
    from move_stuck [OF this run_posting [OF step.hyps(1) step.prems(2)] step.hyps(2) step.prems(3)]
    show ?thesis using run_moves_on [OF step.hyps(1)] by (auto simp: moves_on_def)
  next
    assume "let_go bad st0' st1"
    with let_go_move step.hyps(2) show ?thesis by blast
  next
    assume "dg_overflow (ts_diagnostics st) < dg_overflow (ts_diagnostics st1)"
    with m show ?thesis by (simp add: moves_on_def)
  qed
qed blast

text \<open>
  Telemetry gets stuck behind an event that the service does not acknowledge: however a run goes on
  from where such an event is the oldest one that the worker holds, no event at all is acknowledged and
  every post begins with it again, until the overflow of the queue gives events up or the worker returns
  before a last flush and loses them all.
\<close>

lemma an_unacknowledged_event_blocks_the_queue:
  assumes "telemetry_run opts fresh_runtime st" and "in_flight st @ ts_pending st = bad # rest"
    and "telemetry_run opts st st'" and "bad \<notin> set (acked st')"
  shows "fst (diagnostics st) < fst (diagnostics st')
    \<or> (ts_acked st' = ts_acked st \<and> ((\<exists>rest'. in_flight st' @ ts_pending st' = bad # rest') \<or> bad \<in> set (ts_lost st'))
        \<and> (\<exists>ps. ts_posts st' = ts_posts st @ ps \<and> list_all (\<lambda>p. \<exists>qs. p = bad # qs) ps))"
proof -
  have "posting_something fresh_runtime" by (simp add: posting_something_def fresh_runtime_def)
  then have p: "posting_something st" by (rule run_posting [OF assms(1)])
  have begins: "list_all (\<lambda>p. \<exists>qs. p = bad # qs) ps" if "\<forall>p \<in> set ps. p \<noteq> [] \<and> hd p = bad" for ps
    using that unfolding list_all_iff by (metis list.collapse)
  have "stuck_behind bad st st" using assms(2) by (simp add: stuck_behind_def)
  from run_stuck [OF assms(3) this p assms(4)] show ?thesis
  proof (elim disjE)
    assume s: "stuck_behind bad st st'"
    have "\<exists>rest'. in_flight st' @ ts_pending st' = bad # rest'"
      using s unfolding stuck_behind_def by (metis list.collapse)
    with s begins show ?thesis unfolding stuck_behind_def by blast
  next
    assume "let_go bad st st'"
    with begins show ?thesis unfolding let_go_def by blast
  qed (simp add: diagnostics_def)
qed

end
