(* ===== verification/TelemetryInput.thy ===== *)
theory TelemetryInput
  imports Complex_Main ApiError StoreText SensitiveText GithubApi
begin

text \<open>
  \<open>backend/src/store.rs\<close>: how a batch of telemetry is received.  An event passes the checks of
  \<open>validate_telemetry\<close> and of \<open>ingest_telemetry_event\<close>, or is dropped from its batch; the receipt counts
  both.  The statements that store a checked event are an argument.
\<close>

section \<open>Input\<close>

record need_state_input =
  xn_expressed :: "string list option"
  xn_unknown :: "string list option"

record violation_input =
  xv_dimension :: string
  xv_requested :: "string option"
  xv_actual :: "string option"
  xv_item_id :: "string option"

datatype f64 = Finite real | NotFinite

record counterfactual_input =
  xc_change :: string
  xc_delta :: "f64 option"
  xc_item_id :: "string option"

record decision_input =
  xd_exact_matches :: "int option"
  xd_near_misses :: "int option"
  xd_violations :: "violation_input list option"
  xd_counterfactuals :: "counterfactual_input list option"

record search_input =
  xs_search_id :: "string option"
  xs_position :: "int option"

record experience_input =
  xp_channel :: "string option"
  xp_stage :: "string option"
  xp_need_state :: "need_state_input option"
  xp_decision :: "decision_input option"
  xp_search :: "search_input option"

record observation_input =
  ob_client_ip :: "string option"
  ob_method :: "string option"
  ob_user_agent :: "string option"
  ob_accept_language :: "string option"
  ob_referrer_origin :: "string option"
  ob_sec_ch_ua :: "string option"
  ob_sec_ch_ua_platform :: "string option"
  ob_sec_ch_ua_mobile :: "string option"

datatype link_source = ProductLinkClick

record telemetry_input =
  ti_interaction :: uuid
  ti_sequence :: "int option"
  ti_surface :: string
  ti_operation :: string
  ti_status :: "int option"
  ti_duration :: "int option"
  ti_customer_ref :: "string option"
  ti_account_ref :: "string option"
  ti_user_ref :: "string option"
  ti_anonymous_ref :: "string option"
  ti_link_source :: "link_source option"
  ti_observation :: "observation_input option"
  ti_classification :: "string option"
  ti_confirmation :: "string option"
  ti_runtime_hint :: "string option"
  ti_runtime_hint_source :: "string option"
  ti_session_ref :: "string option"
  ti_session_source :: "string option"
  ti_occurred_at :: "time option"
  ti_experience :: "experience_input option"

section \<open>Shared checks\<close>

definition refuse_if :: "bool \<Rightarrow> string \<Rightarrow> unit result" where
  "refuse_if bad message = (if bad then Inl (bad_request message) else Inr ())"

definition opaque_byte :: "byte \<Rightarrow> bool" where
  "opaque_byte c \<longleftrightarrow> is_alnum c \<or> c \<in> set ''-_.:''"

fun opt_any :: "('a \<Rightarrow> bool) \<Rightarrow> 'a option \<Rightarrow> bool" where
  "opt_any P None \<longleftrightarrow> False"
| "opt_any P (Some x) \<longleftrightarrow> P x"

section \<open>Identity\<close>

definition validate_identity_ref :: "string option \<Rightarrow> string \<Rightarrow> (string option) result" where
  "validate_identity_ref v field =
     (case v of None \<Rightarrow> Inr None
      | Some s \<Rightarrow>
          if s = [] \<or> length s > 160 \<or> trim s \<noteq> s \<or> CHR ''@'' \<in> set s \<or> has_whitespace s \<or> \<not> list_all opaque_byte s
          then Inl (bad_request (field @ '' must be a bounded opaque identifier, never a name or email''))
          else Inr (Some s))"

record identity_refs =
  ir_customer :: "string option"
  ir_account :: "string option"
  ir_user :: "string option"
  ir_anonymous :: "string option"

definition validated_identity_refs ::
  "string option \<Rightarrow> string option \<Rightarrow> string option \<Rightarrow> string option \<Rightarrow> identity_refs result" where
  "validated_identity_refs customer account user anonymous =
     result_bind (validate_identity_ref customer ''customerRef'') (\<lambda>c.
     result_bind (validate_identity_ref account ''accountRef'') (\<lambda>a.
     result_bind (validate_identity_ref user ''userRef'') (\<lambda>u.
     result_bind (validate_identity_ref anonymous ''anonymousRef'') (\<lambda>n.
       if c \<noteq> None \<and> (a \<noteq> c \<or> a = None) \<and> (a \<noteq> None \<or> u \<noteq> None)
       then Inl (bad_request ''customerRef may accompany richer identity only when it exactly matches accountRef'')
       else Inr \<lparr>ir_customer = c, ir_account = a, ir_user = u, ir_anonymous = n\<rparr>))))"

definition validate_identity_refs :: "telemetry_input \<Rightarrow> identity_refs result" where
  "validate_identity_refs i =
     validated_identity_refs (ti_customer_ref i) (ti_account_ref i) (ti_user_ref i) (ti_anonymous_ref i)"

section \<open>Experience\<close>

definition EXPERIENCE_STAGES :: "string list" where
  "EXPERIENCE_STAGES = [''decision_input_required'', ''express_more_or_decide'', ''ready_to_decide'', ''decision_support'',
     ''express_more_or_evaluate'', ''ready_to_evaluate'', ''item'', ''product'']"

definition EXPERIENCE_CHANNELS :: "string list" where
  "EXPERIENCE_CHANNELS = [''faceted_html'', ''native_graph'']"

definition valid_experience_label :: "string \<Rightarrow> nat \<Rightarrow> bool" where
  "valid_experience_label v n \<longleftrightarrow> v \<noteq> [] \<and> utf8_count v \<le> n \<and> list_all (\<lambda>c. is_alnum c \<or> c \<in> set ''_.:-'') v"

definition valid_experience_text :: "string \<Rightarrow> nat \<Rightarrow> bool" where
  "valid_experience_text v n \<longleftrightarrow>
     trim v \<noteq> [] \<and> utf8_count v \<le> n \<and> \<not> has_control v \<and> \<not> contains_sensitive_report_text v"

definition validate_experience_dimensions :: "string list option \<Rightarrow> unit result" where
  "validate_experience_dimensions ds =
     refuse_if (opt_any (\<lambda>d. length d > 24 \<or> list_ex (\<lambda>x. \<not> valid_experience_label x 80) d) ds)
       ''experience dimensions must be at most 24 bounded dimension keys''"

definition violation_ok :: "violation_input \<Rightarrow> bool" where
  "violation_ok v \<longleftrightarrow> valid_experience_label (xv_dimension v) 80
     \<and> \<not> opt_any (\<lambda>x. \<not> valid_experience_text x 120) (xv_requested v)
     \<and> \<not> opt_any (\<lambda>x. \<not> valid_experience_text x 120) (xv_actual v)
     \<and> \<not> opt_any (\<lambda>x. \<not> valid_experience_label x 120) (xv_item_id v)"

definition counterfactual_ok :: "counterfactual_input \<Rightarrow> bool" where
  "counterfactual_ok c \<longleftrightarrow> valid_experience_text (xc_change c) 160 \<and> \<not> opt_any (\<lambda>d. d = NotFinite) (xc_delta c)
     \<and> \<not> opt_any (\<lambda>x. \<not> valid_experience_label x 120) (xc_item_id c)"

definition validate_decision :: "decision_input \<Rightarrow> unit result" where
  "validate_decision d =
     result_bind (refuse_if (opt_any (\<lambda>n. n < 0 \<or> n > 100000) (xd_exact_matches d) \<or> opt_any (\<lambda>n. n < 0 \<or> n > 100000) (xd_near_misses d))
       ''Invalid experience match counts'') (\<lambda>_.
     result_bind (case xd_violations d of None \<Rightarrow> Inr () | Some vs \<Rightarrow>
       result_bind (refuse_if (length vs > 40) ''experience violations must contain at most 40 entries'') (\<lambda>_.
         refuse_if (list_ex (\<lambda>v. \<not> violation_ok v) vs) ''experience violations must use bounded dimension keys and values'')) (\<lambda>_.
     case xd_counterfactuals d of None \<Rightarrow> Inr () | Some cs \<Rightarrow>
       result_bind (refuse_if (length cs > 8) ''experience counterfactuals must contain at most 8 entries'') (\<lambda>_.
         refuse_if (list_ex (\<lambda>c. \<not> counterfactual_ok c) cs) ''experience counterfactuals must be bounded change descriptions'')))"

definition validate_experience :: "experience_input option \<Rightarrow> unit result" where
  "validate_experience input =
     (case input of None \<Rightarrow> Inr () | Some x \<Rightarrow>
       result_bind (refuse_if (opt_any (\<lambda>c. c \<notin> set EXPERIENCE_CHANNELS) (xp_channel x)) ''Invalid experience channel'') (\<lambda>_.
       result_bind (refuse_if (opt_any (\<lambda>s. s \<notin> set EXPERIENCE_STAGES) (xp_stage x)) ''Invalid experience stage'') (\<lambda>_.
       result_bind (case xp_need_state x of None \<Rightarrow> Inr () | Some n \<Rightarrow>
         result_bind (validate_experience_dimensions (xn_expressed n)) (\<lambda>_. validate_experience_dimensions (xn_unknown n))) (\<lambda>_.
       result_bind (case xp_decision x of None \<Rightarrow> Inr () | Some d \<Rightarrow> validate_decision d) (\<lambda>_.
         case xp_search x of None \<Rightarrow> Inr () | Some s \<Rightarrow>
           refuse_if (opt_any (\<lambda>v. \<not> valid_experience_label v 120) (xs_search_id s) \<or> opt_any (\<lambda>p. p < 1 \<or> p > 100000) (xs_position s))
             ''Invalid experience search attribution'')))))"

section \<open>Telemetry\<close>

definition SURFACES :: "string list" where
  "SURFACES = [''http_json'', ''http_html'', ''http_headers'', ''mcp'']"

definition operation_byte :: "byte \<Rightarrow> bool" where
  "operation_byte c \<longleftrightarrow> is_alnum c \<or> c \<in> set ''/_:.-*{}''"

definition operation_ok :: "string \<Rightarrow> bool" where
  "operation_ok v \<longleftrightarrow> trim v \<noteq> [] \<and> utf8_count v \<le> 160 \<and> CHR ''@'' \<notin> set v \<and> CHR ''?'' \<notin> set v \<and> CHR ''#'' \<notin> set v
     \<and> \<not> has_whitespace v \<and> list_all operation_byte v"

definition runtime_hint_ok :: "string \<Rightarrow> bool" where
  "runtime_hint_ok h \<longleftrightarrow> trim h \<noteq> [] \<and> utf8_count h \<le> 200 \<and> CHR ''@'' \<notin> set h \<and> \<not> has_control h
     \<and> \<not> contains_sensitive_report_text h"

definition validate_runtime_hint :: "telemetry_input \<Rightarrow> unit result" where
  "validate_runtime_hint i =
     (case (ti_runtime_hint i, ti_runtime_hint_source i) of
        (None, None) \<Rightarrow> Inr ()
      | (Some h, Some s) \<Rightarrow>
          if s \<noteq> (if ti_surface i = ''mcp'' then ''mcp'' else ''http'')
          then Inl (bad_request ''runtimeHintSource must match the interaction surface'')
          else refuse_if (\<not> runtime_hint_ok h) ''runtimeHint must be a bounded, non-sensitive runtime label''
      | _ \<Rightarrow> Inl (bad_request ''runtimeHint and runtimeHintSource must be provided together''))"

definition validate_classification :: "telemetry_input \<Rightarrow> unit result" where
  "validate_classification i =
     (let classification = (case ti_classification i of None \<Rightarrow> ''unclassified'' | Some c \<Rightarrow> c)
      in if classification \<notin> set [''unclassified'', ''confirmed''] then Inl (bad_request ''Invalid classification'')
         else if ti_surface i = ''mcp''
         then refuse_if (classification \<noteq> ''confirmed'' \<or> ti_confirmation i \<noteq> Some ''mcp'')
                ''MCP interactions must be confirmed with confirmationMethod mcp''
         else refuse_if (classification \<noteq> ''unclassified'' \<or> ti_confirmation i \<noteq> None)
                ''HTTP telemetry is an unclassified opportunity until a feedback report is submitted'')"

definition validate_telemetry :: "telemetry_input \<Rightarrow> unit result" where
  "validate_telemetry i =
     result_bind (validate_experience (ti_experience i)) (\<lambda>_.
     result_bind (validate_identity_refs i) (\<lambda>_.
     result_bind (refuse_if (ti_surface i \<notin> set SURFACES) ''Invalid interaction surface'') (\<lambda>_.
     result_bind (refuse_if (\<not> operation_ok (ti_operation i))
       ''operation must be a normalized route or tool name, never a raw URL or customer value'') (\<lambda>_.
     result_bind (refuse_if (opt_any (\<lambda>s. s < 100 \<or> s > 599) (ti_status i) \<or> opt_any (\<lambda>d. d < 0 \<or> d > 86400000) (ti_duration i))
       ''Invalid response status or duration'') (\<lambda>_.
     result_bind (refuse_if (opt_any (\<lambda>s. s < 1 \<or> s > 9007199254740991) (ti_sequence i)) ''Invalid client interaction sequence'') (\<lambda>_.
     result_bind (validate_runtime_hint i) (\<lambda>_. validate_classification i)))))))"

section \<open>Request observations\<close>

definition to_ascii_uppercase :: "string \<Rightarrow> string" where
  "to_ascii_uppercase s = map (\<lambda>c. if is_lower c then char_of (byte_val c - 32) else c) s"

definition validate_observation_text :: "string option \<Rightarrow> string \<Rightarrow> nat \<Rightarrow> (string option) result" where
  "validate_observation_text v field n =
     (case v of None \<Rightarrow> Inr None
      | Some s \<Rightarrow> if trim s = [] \<or> utf8_count (trim s) > n \<or> has_control (trim s)
                   then Inl (bad_request (''requestObservation.'' @ field @ '' must be bounded header text''))
                   else Inr (Some (trim s)))"

text \<open>\<open>split_once("://")\<close>\<close>

fun split_scheme :: "string \<Rightarrow> (string \<times> string) option" where
  "split_scheme [] = None"
| "split_scheme (c # s) =
     (if starts_with ''://'' (c # s) then Some ([], drop 2 s)
      else (case split_scheme s of None \<Rightarrow> None | Some (a, b) \<Rightarrow> Some (c # a, b)))"

definition http_origin :: "string \<Rightarrow> bool" where
  "http_origin v \<longleftrightarrow>
     (case split_scheme v of None \<Rightarrow> False
      | Some (scheme, authority) \<Rightarrow> scheme \<in> set [''http'', ''https''] \<and> authority \<noteq> []
          \<and> \<not> list_ex (\<lambda>c. c \<in> set ''/?#@'') authority)"

text \<open>The parser of IP addresses, with the printing of the address, is an argument.\<close>

definition validate_request_observation ::
  "(string \<Rightarrow> string option) \<Rightarrow> string \<Rightarrow> observation_input option \<Rightarrow> (observation_input option) result" where
  "validate_request_observation ip surface input =
     (case input of None \<Rightarrow> Inr None
      | Some o' \<Rightarrow>
          if surface = ''mcp'' then Inl (bad_request ''requestObservation is available only for HTTP surfaces'')
          else
            result_bind (case ob_client_ip o' of None \<Rightarrow> Inr None
                | Some v \<Rightarrow> (case ip (trim v) of
                    None \<Rightarrow> Inl (bad_request ''requestObservation.clientIp must be an IP address'')
                  | Some a \<Rightarrow> Inr (Some a))) (\<lambda>client_ip.
            let method = Option.bind (ob_method o') (\<lambda>v. let u = to_ascii_uppercase (trim v) in if u = [] then None else Some u)
            in
            result_bind (refuse_if (opt_any (\<lambda>v. length v > 16 \<or> \<not> list_all is_alpha v) method)
                ''requestObservation.method must be a bounded HTTP method'') (\<lambda>_.
            result_bind (validate_observation_text (ob_referrer_origin o') ''referrerOrigin'' 300) (\<lambda>referrer.
            result_bind (refuse_if (opt_any (\<lambda>v. \<not> http_origin v) referrer)
                ''requestObservation.referrerOrigin must be an HTTP origin without credentials or a path'') (\<lambda>_.
            result_bind (validate_observation_text (ob_sec_ch_ua_mobile o') ''secChUaMobile'' 2) (\<lambda>mobile.
            result_bind (refuse_if (opt_any (\<lambda>v. v \<notin> set [''?0'', ''?1'']) mobile)
                ''requestObservation.secChUaMobile must be ?0 or ?1'') (\<lambda>_.
            result_bind (validate_observation_text (ob_user_agent o') ''userAgent'' 512) (\<lambda>agent.
            result_bind (validate_observation_text (ob_accept_language o') ''acceptLanguage'' 256) (\<lambda>language.
            result_bind (validate_observation_text (ob_sec_ch_ua o') ''secChUa'' 512) (\<lambda>ua.
            result_bind (validate_observation_text (ob_sec_ch_ua_platform o') ''secChUaPlatform'' 80) (\<lambda>platform.
              let observation = \<lparr>ob_client_ip = client_ip, ob_method = method, ob_user_agent = agent, ob_accept_language = language,
                    ob_referrer_origin = referrer, ob_sec_ch_ua = ua, ob_sec_ch_ua_platform = platform, ob_sec_ch_ua_mobile = mobile\<rparr>
              in Inr (if client_ip = None \<and> method = None \<and> agent = None \<and> language = None \<and> referrer = None \<and> ua = None
                         \<and> platform = None \<and> mobile = None then None else Some observation))))))))))))"

section \<open>Sessions\<close>

definition opaque_ref :: "string option \<Rightarrow> string option" where
  "opaque_ref v = Option.bind v (\<lambda>s.
     if trim s = [] \<or> utf8_count s > 160 \<or> CHR ''@'' \<in> set s \<or> has_whitespace s \<or> \<not> list_all opaque_byte s
     then None else Some s)"

definition session_evidence :: "string option \<Rightarrow> string option \<Rightarrow> ((string \<times> string) option) result" where
  "session_evidence session source =
     (case opaque_ref session of None \<Rightarrow> Inr None
      | Some r \<Rightarrow>
          (let s = (case source of None \<Rightarrow> ''customer'' | Some s \<Rightarrow> s)
           in if s \<notin> set [''customer'', ''mcp'', ''continuation''] then Inl (bad_request ''Invalid sessionSource'')
              else Inr (Some (r, s))))"

section \<open>One event\<close>

record checked_event =
  ce_input :: telemetry_input
  ce_occurred_at :: time
  ce_refs :: identity_refs
  ce_observation :: "observation_input option"
  ce_session :: "(string \<times> string) option"
  ce_link :: "string option"

definition event_checks :: "(string \<Rightarrow> string option) \<Rightarrow> time \<Rightarrow> telemetry_input \<Rightarrow> checked_event result" where
  "event_checks ip now i =
     result_bind (validate_telemetry i) (\<lambda>_.
       let occurred_at = (case ti_occurred_at i of None \<Rightarrow> now | Some t \<Rightarrow> t)
       in if occurred_at > now + minutes 5 \<or> occurred_at < now - days 7
          then Inl (bad_request ''occurredAt is outside the accepted window'')
          else
            result_bind (validate_identity_refs i) (\<lambda>refs.
            result_bind (validate_request_observation ip (ti_surface i) (ti_observation i)) (\<lambda>observation.
            result_bind (session_evidence (ti_session_ref i) (ti_session_source i)) (\<lambda>session.
            result_bind (case ti_link_source i of None \<Rightarrow> Inr None
                | Some ProductLinkClick \<Rightarrow>
                    if ti_surface i = ''http_html'' \<and> session \<noteq> None \<and> ir_anonymous refs \<noteq> None
                    then Inr (Some ''product_link_click'')
                    else Inl (bad_request ''product_link_click requires an HTTP HTML event with sessionRef and anonymousRef'')) (\<lambda>link.
              Inr \<lparr>ce_input = i, ce_occurred_at = occurred_at, ce_refs = refs, ce_observation = observation,
                   ce_session = session, ce_link = link\<rparr>)))))"

section \<open>A batch\<close>

text \<open>
  \<open>write\<close> stands for the statements of one event in its savepoint, \<open>finish\<close> for those at the end of the
  transaction, both on a database \<open>'w\<close>.
\<close>

definition is_client_error :: "api_error \<Rightarrow> bool" where
  "is_client_error e \<longleftrightarrow> 400 \<le> err_status e \<and> err_status e < 500"

definition ingest_telemetry_event ::
  "(string \<Rightarrow> string option) \<Rightarrow> time \<Rightarrow> (checked_event \<Rightarrow> 'w \<Rightarrow> 'w result) \<Rightarrow> telemetry_input \<Rightarrow> 'w \<Rightarrow> 'w result" where
  "ingest_telemetry_event ip now write i w = result_bind (event_checks ip now i) (\<lambda>c. write c w)"

fun ingest_events ::
  "(string \<Rightarrow> string option) \<Rightarrow> time \<Rightarrow> (checked_event \<Rightarrow> 'w \<Rightarrow> 'w result) \<Rightarrow> telemetry_input list \<Rightarrow> 'w \<Rightarrow> nat \<Rightarrow> nat
     \<Rightarrow> ('w \<times> nat \<times> nat) result" where
  "ingest_events ip now write [] w accepted dropped = Inr (w, accepted, dropped)"
| "ingest_events ip now write (i # is) w accepted dropped =
     (case ingest_telemetry_event ip now write i w of
        Inr w' \<Rightarrow> ingest_events ip now write is w' (accepted + 1) dropped
      | Inl e \<Rightarrow> if is_client_error e then ingest_events ip now write is w accepted (dropped + 1) else Inl e)"

definition ingest_telemetry_batch ::
  "(string \<Rightarrow> string option) \<Rightarrow> time \<Rightarrow> (checked_event \<Rightarrow> 'w \<Rightarrow> 'w result) \<Rightarrow> ('w \<Rightarrow> 'w result) \<Rightarrow> telemetry_input list \<Rightarrow> 'w
     \<Rightarrow> ((nat \<times> nat) result) \<times> 'w" where
  "ingest_telemetry_batch ip now write finish events w =
     (if events = [] \<or> length events > 100
      then (Inl (bad_request ''events must contain between 1 and 100 interactions''), w)
      else (case ingest_events ip now write (sort_key ti_interaction events) w 0 0 of
              Inl e \<Rightarrow> (Inl e, w)
            | Inr (w1, accepted, dropped) \<Rightarrow>
                (case finish w1 of Inl e \<Rightarrow> (Inl e, w) | Inr w2 \<Rightarrow> (Inr (accepted, dropped), w2))))"

end
