(* ===== verification/SdkService.thy ===== *)
theory SdkService
  imports SdkEvents SdkTelemetryGuarantees TelemetryInput
begin

text \<open>
  The SDK against the backend: what the checks of \<open>TelemetryInput\<close> make of the events of \<open>SdkEvents\<close>, and
  what that means for the queue of \<open>SdkTelemetry\<close>.
\<close>

section \<open>The wire\<close>

text \<open>
  \<open>serde\<close> on both ends: the fields have the same names; numbers beyond \<open>i64\<close> and instants that do not parse
  are refused.
\<close>

definition wire_event :: "(string \<Rightarrow> time option) \<Rightarrow> sdk_event \<Rightarrow> telemetry_input option" where
  "wire_event instant e =
     (if int (te_sequence e) > i64_max \<or> opt_any (\<lambda>d. int d > i64_max) (te_duration e) then None
      else map_option (\<lambda>t.
        \<lparr>ti_interaction = te_interaction e, ti_sequence = Some (int (te_sequence e)), ti_surface = te_surface e,
         ti_operation = te_operation e, ti_status = Some (int (te_status e)), ti_duration = map_option int (te_duration e),
         ti_customer_ref = te_customer_ref e, ti_account_ref = te_account_ref e, ti_user_ref = te_user_ref e,
         ti_anonymous_ref = te_anonymous_ref e, ti_link_source = None, ti_observation = None,
         ti_classification = Some (te_classification e), ti_confirmation = te_confirmation e,
         ti_runtime_hint = te_runtime_hint e, ti_runtime_hint_source = te_runtime_hint_source e,
         ti_session_ref = te_session_ref e, ti_session_source = te_session_source e, ti_occurred_at = Some t,
         ti_experience = None\<rparr>) (instant (te_occurred_at e)))"

text \<open>The response of \<open>telemetry_batch_handler\<close> to an authenticated post.\<close>

definition telemetry_batch_handler ::
  "(string \<Rightarrow> time option) \<Rightarrow> (string \<Rightarrow> string option) \<Rightarrow> time \<Rightarrow> (checked_event \<Rightarrow> 'w \<Rightarrow> 'w result) \<Rightarrow> ('w \<Rightarrow> 'w result)
     \<Rightarrow> sdk_event list \<Rightarrow> 'w \<Rightarrow> telemetry_answer" where
  "telemetry_batch_handler instant ip now write finish es w =
     (case those (map (wire_event instant) es) of
        None \<Rightarrow> TelemetryAnswer 400 None
      | Some is \<Rightarrow>
          (case fst (ingest_telemetry_batch ip now write finish is w) of
             Inl e \<Rightarrow> TelemetryAnswer (err_status e) None
           | Inr receipt \<Rightarrow> TelemetryAnswer 202 (Some receipt)))"

section \<open>Graphic bytes\<close>

definition graphic :: "byte \<Rightarrow> bool" where
  "graphic c \<longleftrightarrow> 33 \<le> byte_val c \<and> byte_val c \<le> 126"

lemma ws_len_graphic: "graphic c \<Longrightarrow> ws_len (c # s) = 0"
  by (auto simp: ws_len_def graphic_def split: list.split)

lemma ws_len_all_graphic: "list_all graphic s \<Longrightarrow> ws_len s = 0"
  by (cases s) (simp_all add: ws_len_graphic, simp add: ws_len_def)

lemma list_all_drop: "list_all P s \<Longrightarrow> list_all P (drop n s)"
  by (simp add: list_all_iff) (meson in_set_dropD)

lemma trim_graphic: "list_all graphic s \<Longrightarrow> trim s = s"
  by (simp add: trim_def trim_start.simps [of s] trim_end.simps [of s] ws_end_len_def ws_len_all_graphic list_all_drop)

lemma no_whitespace_graphic: "list_all graphic s \<Longrightarrow> \<not> has_whitespace s"
  by (induction s) (auto simp: ws_len_graphic)

lemma utf8_count_le: "utf8_count s \<le> length s"
  by (simp add: utf8_count_def)

lemma operation_byte_graphic: "operation_byte c \<Longrightarrow> graphic c"
  by (auto simp: operation_byte_def graphic_def char_defs byte_val_def)

lemma opaque_byte_graphic: "opaque_byte c \<Longrightarrow> graphic c"
  by (auto simp: opaque_byte_def graphic_def char_defs byte_val_def)

lemma list_all_weaken: "list_all P s \<Longrightarrow> (\<And>x. P x \<Longrightarrow> Q x) \<Longrightarrow> list_all Q s"
  by (simp add: list_all_iff)

section \<open>Completions of MCP tools\<close>

lemma sanitized_ref:
  assumes "sanitize_ref v = Some s"
  shows "validate_identity_ref (Some s) field = Inr (Some s)" and "opaque_ref (Some s) = Some s"
proof -
  have s: "s \<noteq> []" "length s \<le> 160" "list_all opaque_byte s"
    using assms by (auto simp: sanitize_ref_def Let_def opaque_byte_def list_all_iff split: if_splits)
  then have g: "list_all graphic s" using opaque_byte_graphic list_all_weaken by blast
  have "CHR ''@'' \<notin> set s" using s(3) by (auto simp: list_all_iff opaque_byte_def char_defs byte_val_def)
  with s g utf8_count_le [of s] show "validate_identity_ref (Some s) field = Inr (Some s)" "opaque_ref (Some s) = Some s"
    by (simp_all add: validate_identity_ref_def opaque_ref_def trim_graphic no_whitespace_graphic)
qed

lemma sanitized_option:
  assumes "x = Option.bind v sanitize_ref"
  shows "validate_identity_ref x field = Inr x" and "opaque_ref x = x"
proof -
  have "validate_identity_ref x field = Inr x \<and> opaque_ref x = x"
  proof (cases x)
    case None
    then show ?thesis by (simp add: validate_identity_ref_def opaque_ref_def)
  next
    case (Some s)
    with assms obtain u where "sanitize_ref u = Some s" by (cases v) auto
    with sanitized_ref Some show ?thesis by simp
  qed
  then show "validate_identity_ref x field = Inr x" "opaque_ref x = x" by simp_all
qed

lemma valid_operation_ok:
  assumes "valid_operation v"
  shows "operation_ok v"
proof -
  have "set ''/_:.*{}-'' = set ''/_:.-*{}''" by auto
  then have "(\<lambda>c. is_alnum c \<or> c \<in> set ''/_:.*{}-'') = operation_byte" by (simp only: operation_byte_def fun_eq_iff) blast
  then have v: "v \<noteq> []" "length v \<le> 160" "list_all operation_byte v"
    using assms by (simp_all only: valid_operation_def) auto
  then have g: "list_all graphic v" using operation_byte_graphic list_all_weaken by blast
  have "CHR ''@'' \<notin> set v" "CHR ''?'' \<notin> set v" "CHR ''#'' \<notin> set v"
    using v(3) by (auto simp: list_all_iff operation_byte_def char_defs byte_val_def)
  with v g utf8_count_le [of v] show ?thesis by (simp add: operation_ok_def trim_graphic no_whitespace_graphic)
qed

lemma refuse_if_ok: "is_ok (refuse_if b msg) \<longleftrightarrow> \<not> b" "refuse_if b msg = Inr u \<longleftrightarrow> \<not> b"
  by (simp_all add: refuse_if_def)

lemma is_ok_bind: "is_ok (result_bind r f) \<longleftrightarrow> (\<exists>x. r = Inr x \<and> is_ok (f x))"
  by (cases r) simp_all

lemma is_ok_bind_unit: "is_ok (result_bind r (\<lambda>_. s)) \<longleftrightarrow> is_ok r \<and> is_ok s"
  by (cases r) simp_all

text \<open>The event of a completion, field by field.\<close>

lemma mcp_event_fields:
  assumes "mcp_event interaction sequence occurred_at c duration = Inr e"
  shows "te_surface e = ''mcp'' \<and> operation_ok (te_operation e) \<and> te_status e \<in> {200, 500} \<and> te_sequence e = sequence
    \<and> te_duration e = map_option (\<lambda>d. min d u64_max) duration \<and> te_occurred_at e = occurred_at
    \<and> te_classification e = ''confirmed'' \<and> te_confirmation e = Some ''mcp''
    \<and> te_runtime_hint_source e = map_option (\<lambda>_. ''mcp'') (te_runtime_hint e)
    \<and> te_session_source e = map_option (\<lambda>_. ''mcp'') (te_session_ref e)
    \<and> opaque_ref (te_session_ref e) = te_session_ref e"
  using assms valid_operation_ok sanitized_option(2) [OF refl]
  by (auto simp: mcp_event_def Let_def split: if_splits)

lemma mcp_event_identity:
  assumes "mcp_event interaction sequence occurred_at c duration = Inr e"
  shows "is_ok (validated_identity_refs (te_customer_ref e) (te_account_ref e) (te_user_ref e) (te_anonymous_ref e))"
proof -
  let ?i = "mc_identity c"
  let ?a = "Option.bind (ci_account ?i) sanitize_ref" and ?u = "Option.bind (ci_user ?i) sanitize_ref"
  let ?n = "Option.bind (ci_anonymous ?i) sanitize_ref" and ?c = "Option.bind (ci_customer ?i) sanitize_ref"
  have e: "te_account_ref e = ?a" "te_user_ref e = ?u" "te_anonymous_ref e = ?n"
    "te_customer_ref e = (if ?c \<noteq> None \<and> (?a \<noteq> None \<or> ?u \<noteq> None) \<and> ?a \<noteq> ?c then None else ?c)"
    using assms by (auto simp: mcp_event_def sanitize_identity_def Let_def split: if_splits)
  have v: "validate_identity_ref ?a f = Inr ?a" "validate_identity_ref ?u f = Inr ?u" "validate_identity_ref ?n f = Inr ?n"
    "validate_identity_ref (te_customer_ref e) f = Inr (te_customer_ref e)" for f
    using sanitized_option(1) [OF refl] by (simp_all add: e validate_identity_ref_def [of None])
  have "\<not> (te_customer_ref e \<noteq> None \<and> (?a \<noteq> te_customer_ref e \<or> ?a = None) \<and> (?a \<noteq> None \<or> ?u \<noteq> None))"
    unfolding e(4) by auto
  then show ?thesis unfolding validated_identity_refs_def e(1-3) v result_bind.simps by auto
qed

lemma wire_event_fields:
  assumes "wire_event instant e = Some i"
  shows "ti_surface i = te_surface e \<and> ti_operation i = te_operation e \<and> ti_status i = Some (int (te_status e))
    \<and> ti_duration i = map_option int (te_duration e) \<and> ti_sequence i = Some (int (te_sequence e))
    \<and> ti_customer_ref i = te_customer_ref e \<and> ti_account_ref i = te_account_ref e \<and> ti_user_ref i = te_user_ref e
    \<and> ti_anonymous_ref i = te_anonymous_ref e \<and> ti_classification i = Some (te_classification e)
    \<and> ti_confirmation i = te_confirmation e \<and> ti_runtime_hint i = te_runtime_hint e
    \<and> ti_runtime_hint_source i = te_runtime_hint_source e \<and> ti_session_ref i = te_session_ref e
    \<and> ti_session_source i = te_session_source e \<and> ti_link_source i = None \<and> ti_observation i = None
    \<and> ti_experience i = None \<and> (\<exists>t. instant (te_occurred_at e) = Some t \<and> ti_occurred_at i = Some t)"
  using assms by (auto simp: wire_event_def split: if_splits)

lemma mcp_validate:
  assumes "mcp_event interaction sequence occurred_at c duration = Inr e" and "wire_event instant e = Some i"
  shows "is_ok (validate_telemetry i) \<longleftrightarrow> opt_all runtime_hint_ok (te_runtime_hint e)
    \<and> opt_all (\<lambda>d. d \<le> 86400000) duration \<and> 1 \<le> sequence \<and> sequence \<le> 9007199254740991"
proof -
  note m = mcp_event_fields [OF assms(1)] and w = wire_event_fields [OF assms(2)]
  have "is_ok (validate_experience (ti_experience i))" using w by (simp add: validate_experience_def)
  moreover have "is_ok (validate_identity_refs i)"
    using mcp_event_identity [OF assms(1)] w by (simp add: validate_identity_refs_def)
  moreover have "ti_surface i \<in> set SURFACES" "operation_ok (ti_operation i)" using m w by (simp_all add: SURFACES_def)
  moreover have "\<not> opt_any (\<lambda>s. s < 100 \<or> s > 599) (ti_status i)" using m w by auto
  moreover have "opt_any (\<lambda>d. d < 0 \<or> d > 86400000) (ti_duration i) \<longleftrightarrow> \<not> opt_all (\<lambda>d. d \<le> 86400000) duration"
    using m w by (cases duration) (auto simp: u64_max_def)
  moreover have "opt_any (\<lambda>s. s < 1 \<or> s > 9007199254740991) (ti_sequence i) \<longleftrightarrow> \<not> (1 \<le> sequence \<and> sequence \<le> 9007199254740991)"
    using m w by auto
  moreover have "is_ok (validate_runtime_hint i) \<longleftrightarrow> opt_all runtime_hint_ok (te_runtime_hint e)"
    using m w by (cases "te_runtime_hint e") (simp_all add: validate_runtime_hint_def refuse_if_ok)
  moreover have "is_ok (validate_classification i)" using m w by (simp add: validate_classification_def Let_def refuse_if_ok)
  ultimately show ?thesis by (simp add: validate_telemetry_def is_ok_bind_unit refuse_if_ok) blast
qed

text \<open>
  C18.  Of the events that the SDK makes of completed MCP tools, the checks that come before any
  database access pass exactly those with an accepted runtime hint, a duration of at most a day, a
  sequence number in range, and an instant inside the window: operation, surface, status, identity and
  session always pass.  What the database says then (a user reference linked to another account, an
  interaction of another workspace) may still refuse an event.
\<close>

theorem completions_pass_the_checks:
  assumes "mcp_event interaction sequence occurred_at c duration = Inr e" and "wire_event instant e = Some i"
  shows "is_ok (event_checks ip now i) \<longleftrightarrow> opt_all runtime_hint_ok (te_runtime_hint e)
    \<and> opt_all (\<lambda>d. d \<le> 86400000) duration \<and> 1 \<le> sequence \<and> sequence \<le> 9007199254740991
    \<and> (\<exists>t. instant occurred_at = Some t \<and> now - days 7 \<le> t \<and> t \<le> now + minutes 5)"
proof -
  note m = mcp_event_fields [OF assms(1)] and w = wire_event_fields [OF assms(2)]
  obtain t where t: "instant occurred_at = Some t" "ti_occurred_at i = Some t" using m w by auto
  obtain refs where r: "validate_identity_refs i = Inr refs"
    using mcp_event_identity [OF assms(1)] w by (auto simp: validate_identity_refs_def is_ok_iff)
  have o': "validate_request_observation ip (ti_surface i) (ti_observation i) = Inr None"
    using w by (simp add: validate_request_observation_def)
  have s: "is_ok (session_evidence (ti_session_ref i) (ti_session_source i))"
    using m w by (cases "te_session_ref e") (simp_all add: session_evidence_def Let_def)
  have l: "ti_link_source i = None" using w by blast
  have "is_ok (event_checks ip now i) \<longleftrightarrow> is_ok (validate_telemetry i) \<and> \<not> (t > now + minutes 5 \<or> t < now - days 7)"
    using s unfolding event_checks_def is_ok_bind_unit t Let_def option.case r o' result_bind.simps l is_ok_iff
    by (auto simp: result_bind_Inr)
  with mcp_validate [OF assms] t(1) show ?thesis by auto
qed

definition a_completion :: "string option \<Rightarrow> mcp_completion" where
  "a_completion hint = \<lparr>mc_operation = ''search'', mc_outcome = Success,
     mc_identity = \<lparr>ci_account = Some ''acme'', ci_user = Some '' u-7 '', ci_anonymous = None, ci_customer = Some ''other''\<rparr>,
     mc_session_ref = Some ''s1'', mc_runtime_hint = hint\<rparr>"

definition a_completion_event :: "string option \<Rightarrow> sdk_event" where
  "a_completion_event hint = \<lparr>te_interaction = 1, te_sequence = 1, te_surface = ''mcp'', te_operation = ''search'',
     te_status = 200, te_duration = Some 12, te_account_ref = Some ''acme'', te_user_ref = Some ''u-7'',
     te_anonymous_ref = None, te_customer_ref = None, te_classification = ''confirmed'', te_confirmation = Some ''mcp'',
     te_runtime_hint = hint, te_runtime_hint_source = map_option (\<lambda>_. ''mcp'') hint, te_session_ref = Some ''s1'',
     te_session_source = Some ''mcp'', te_occurred_at = ''now''\<rparr>"

theorem completions_pass_the_checks_witness:
  "(\<exists>i. mcp_event 1 1 ''now'' (a_completion None) (Some 12) = Inr (a_completion_event None)
      \<and> wire_event (\<lambda>_. Some 0) (a_completion_event None) = Some i \<and> is_ok (event_checks (\<lambda>_. None) 0 i))
   \<and> (\<exists>i. mcp_event 1 1 ''now'' (a_completion (Some ''ana@host'')) (Some 12) = Inr (a_completion_event (Some ''ana@host''))
      \<and> wire_event (\<lambda>_. Some 0) (a_completion_event (Some ''ana@host'')) = Some i \<and> \<not> is_ok (event_checks (\<lambda>_. None) 0 i))"
proof -
  have m: "mcp_event 1 1 ''now'' (a_completion None) (Some 12) = Inr (a_completion_event None)"
    "mcp_event 1 1 ''now'' (a_completion (Some ''ana@host'')) (Some 12) = Inr (a_completion_event (Some ''ana@host''))"
    by code_simp+
  have "\<exists>i. wire_event (\<lambda>_. Some 0) (a_completion_event hint) = Some i" for hint
    by (simp add: wire_event_def a_completion_event_def i64_max_def)
  then obtain i j where w: "wire_event (\<lambda>_. Some 0) (a_completion_event None) = Some i"
    "wire_event (\<lambda>_. Some 0) (a_completion_event (Some ''ana@host'')) = Some j" by metis
  have h: "te_runtime_hint (a_completion_event hint) = hint" for hint by (simp add: a_completion_event_def)
  have "is_ok (event_checks (\<lambda>_. None) 0 i)"
    using completions_pass_the_checks [OF m(1) w(1), of "\<lambda>_. None" 0] by (simp add: h days_def minutes_def hours_def seconds_def)
  moreover have "\<not> is_ok (event_checks (\<lambda>_. None) 0 j)"
    using completions_pass_the_checks [OF m(2) w(2), of "\<lambda>_. None" 0] by (simp add: h runtime_hint_ok_def)
  ultimately show ?thesis using m w by blast
qed

section \<open>Events the service refuses\<close>

lemma ingest_events_dropped:
  "ingest_events ip now write inputs w accepted dropped = Inr (w', accepted', dropped') \<Longrightarrow> dropped \<le> dropped'"
  by (induction inputs arbitrary: w accepted dropped) (auto split: sum.splits if_splits dest!: Suc_leD)

lemma ingest_events_refused:
  assumes "i \<in> set inputs" and "\<not> is_ok (event_checks ip now i)"
    and "ingest_events ip now write inputs w accepted dropped = Inr (w', accepted', dropped')"
  shows "dropped < dropped'"
  using assms
proof (induction inputs arbitrary: w accepted dropped)
  case (Cons j js)
  show ?case
  proof (cases "j = i")
    case True
    then obtain e where "ingest_telemetry_event ip now write j w = Inl e"
      using Cons.prems(2) by (cases "event_checks ip now i") (simp_all add: ingest_telemetry_event_def)
    with Cons.prems(3) have "ingest_events ip now write js w accepted (dropped + 1) = Inr (w', accepted', dropped')"
      by (simp split: if_splits)
    from ingest_events_dropped [OF this] show ?thesis by simp
  next
    case False
    with Cons.prems have "i \<in> set js" by simp
    with Cons.IH Cons.prems(2,3) show ?thesis by (fastforce split: sum.splits if_splits)
  qed
qed simp

lemma ingest_batch_refused:
  assumes "i \<in> set inputs" and "\<not> is_ok (event_checks ip now i)"
  shows "fst (ingest_telemetry_batch ip now write finish inputs w) \<noteq> Inr (n, 0)"
  using assms ingest_events_refused [of i "sort_key ti_interaction inputs" ip now "write" w 0 0]
  by (auto simp: ingest_telemetry_batch_def split: sum.splits)

lemma refused_is_not_delivered:
  assumes "bad \<in> set es" and "\<And>i. wire_event instant bad = Some i \<Longrightarrow> \<not> is_ok (event_checks ip now i)"
  shows "attempt_of (telemetry_batch_handler instant ip now write finish es w) n \<noteq> Delivered"
proof (cases "those (map (wire_event instant) es)")
  case None
  then show ?thesis by (simp add: telemetry_batch_handler_def attempt_of_def)
next
  case (Some inputs)
  have "bad \<in> set es \<Longrightarrow> those (map (wire_event instant) es) = Some inputs \<Longrightarrow> \<exists>i \<in> set inputs. wire_event instant bad = Some i" for es inputs
    by (induction es arbitrary: inputs) (auto split: option.splits)
  then obtain i where i: "i \<in> set inputs" "wire_event instant bad = Some i" using assms(1) Some by blast
  show ?thesis
  proof (cases "fst (ingest_telemetry_batch ip now write finish inputs w)")
    case (Inl e)
    with Some show ?thesis by (simp add: telemetry_batch_handler_def attempt_of_def)
  next
    case (Inr r)
    then show ?thesis using Some ingest_batch_refused [OF i(1) assms(2) [OF i(2)], of "write" finish w]
      by (cases r) (simp add: telemetry_batch_handler_def attempt_of_def)
  qed
qed

lemma refused_operation:
  assumes "\<not> operation_ok (te_operation e)" and "wire_event instant e = Some i"
  shows "\<not> is_ok (event_checks ip now i)"
proof -
  have "\<not> operation_ok (ti_operation i)" using assms wire_event_fields by simp
  then have "\<not> is_ok (validate_telemetry i)" by (simp add: validate_telemetry_def is_ok_bind_unit refuse_if_ok)
  then show ?thesis by (simp add: event_checks_def is_ok_bind_unit)
qed

section \<open>Paths\<close>

lemma split_on_id: "list_all (\<lambda>c. \<not> P c) s \<Longrightarrow> split_on P s = [s]"
  by (induction s) auto

lemma split_on_covers: "c \<in> set s \<Longrightarrow> \<not> P c \<Longrightarrow> \<exists>w \<in> set (split_on P s). c \<in> set w"
proof -
  assume "c \<in> set s" "\<not> P c"
  then have "c \<in> set (concat (split_on P s))" by (simp add: concat_split_on)
  then show ?thesis by auto
qed

lemma join_covers: "w \<in> set ws \<Longrightarrow> set w \<subseteq> set (join sep ws)"
  by (induction sep ws rule: join.induct) auto

lemma foreign_byte_survives:
  assumes "\<And>s. is_uuid s \<Longrightarrow> list_all operation_byte s"
    and "c \<in> set path" and "\<not> operation_byte c" and "CHR ''?'' \<notin> set path"
  shows "c \<in> set (normalize_operation is_uuid path)"
proof -
  have slash: "operation_byte (CHR ''/'')" by (simp add: operation_byte_def)
  have whole: "hd (split_on (\<lambda>c. c = CHR ''?'') path) = path" using assms(4) by (subst split_on_id) (auto simp: list_all_iff)
  have "c \<noteq> CHR ''/''" using assms(3) slash by blast
  from split_on_covers [where P = "\<lambda>c. c = CHR ''/''", OF assms(2) this]
  obtain w where w: "w \<in> set (split_on (\<lambda>c. c = CHR ''/'') path)" "c \<in> set w" by (elim bexE)
  have d: "\<not> is_digit c" using assms(3) unfolding operation_byte_def is_alnum_def by blast
  have "\<not> list_all is_digit w" "\<not> list_all operation_byte w" using w(2) d assms(3) unfolding list_all_iff by blast+
  with assms(1) have same: "normal_segment is_uuid w = w" unfolding normal_segment_def by (simp only: if_False simp_thms) auto
  have "normal_segment is_uuid w \<in> set (map (normal_segment is_uuid) (split_on (\<lambda>c. c = CHR ''/'') path))" using w(1) by simp
  from join_covers [OF this, of "''/''"] w(2) same
  have "c \<in> set (join ''/'' (map (normal_segment is_uuid) (split_on (\<lambda>c. c = CHR ''/'') path)))" by auto
  then show ?thesis unfolding normalize_operation_def whole .
qed

lemma foreign_path_is_refused:
  assumes "\<And>s. is_uuid s \<Longrightarrow> list_all operation_byte s" and "ex_operation ex = None"
    and "c \<in> set path" and "\<not> operation_byte c" and "CHR ''?'' \<notin> set path"
  shows "\<not> operation_ok (te_operation (http_event is_uuid ex interaction occurred_at surface request path status elapsed))"
proof -
  have "te_operation (http_event is_uuid ex interaction occurred_at surface request path status elapsed)
      = normalize_operation is_uuid path"
    using assms(2) by (simp add: http_event_def extracted_def Let_def)
  with foreign_byte_survives [OF assms(1,3,4,5)] assms(4) show ?thesis by (auto simp: operation_ok_def list_all_iff)
qed

section \<open>Runs against the backend\<close>

text \<open>The runs whose answers are those of a service.\<close>

inductive served_run ::
  "(sdk_event list \<Rightarrow> telemetry_answer \<Rightarrow> bool) \<Rightarrow> telemetry_options \<Rightarrow> telemetry_state \<Rightarrow> telemetry_state \<Rightarrow> bool"
  for service opts where
  here: "served_run service opts st st"
| step: "served_run service opts st st1 \<Longrightarrow> telemetry_move opts m st1 = Some st2
    \<Longrightarrow> (\<And>a. m = AnswerArrives a \<Longrightarrow> service (in_flight st1) a) \<Longrightarrow> served_run service opts st st2"

text \<open>No answer, a refusal before the handler, or the answer of the handler at some time on some database.\<close>

definition backend ::
  "(string \<Rightarrow> time option) \<Rightarrow> (string \<Rightarrow> string option) \<Rightarrow> (checked_event \<Rightarrow> 'w \<Rightarrow> 'w result) \<Rightarrow> ('w \<Rightarrow> 'w result)
     \<Rightarrow> sdk_event list \<Rightarrow> telemetry_answer \<Rightarrow> bool" where
  "backend instant ip write finish es a \<longleftrightarrow> a = NoAnswer \<or> (\<exists>status. status \<noteq> 202 \<and> a = TelemetryAnswer status None)
     \<or> (\<exists>now w. a = telemetry_batch_handler instant ip now write finish es w)"

lemma served_run_is_run: "served_run service opts st st' \<Longrightarrow> telemetry_run opts st st'"
  by (induction rule: served_run.induct) (blast intro: telemetry_run.intros)+

lemma backend_refuses:
  assumes "bad \<in> set es" and "\<not> operation_ok (te_operation bad)" and "backend instant ip write finish es a"
  shows "attempt_of a (length es) \<noteq> Delivered"
proof -
  have "attempt_of (telemetry_batch_handler instant ip now write finish es w) (length es) \<noteq> Delivered" for now w
    by (rule refused_is_not_delivered [OF assms(1)]) (rule refused_operation [OF assms(2)])
  moreover have "attempt_of (TelemetryAnswer status None) (length es) \<noteq> Delivered" for status by (simp add: attempt_of_def)
  moreover have "attempt_of NoAnswer (length es) \<noteq> Delivered" by (simp add: attempt_of_def)
  ultimately show ?thesis using assms(3) unfolding backend_def by blast
qed

text \<open>Only an answer that delivers acknowledges events, and these are the ones in flight.\<close>

lemma fold_take_in_acked: "acked (fold (take_in opts) es st) = acked st"
  by (induction es arbitrary: st) (simp_all add: take_in_def acked_def Let_def)

lemma small_steps_acked [simp]:
  "acked (start_flush mode st) = acked st" "acked (take_in opts e st) = acked st" "acked (give_back batch mode st) = acked st"
  "acked (abandon st) = acked st" "acked (st\<lparr>ts_queue := q\<rparr>) = acked st" "acked (st\<lparr>ts_phase := ph\<rparr>) = acked st" "acked (st\<lparr>ts_signal := b\<rparr>) = acked st"
  by (simp_all add: start_flush_def take_in_def give_back_def stop_worker_def abandon_def acked_def Let_def split: flush_mode.split)

lemma acknowledge_acked: "acked (acknowledge batch mode st) = acked st @ batch"
  by (simp add: acknowledge_idle split: flush_mode.split) (simp add: acknowledged_def acked_def)

lemma move_acked:
  assumes "telemetry_move opts m st = Some st'"
  shows "acked st' = acked st
    \<or> (\<exists>a. m = AnswerArrives a \<and> attempt_of a (length (in_flight st)) = Delivered \<and> acked st' = acked st @ in_flight st)"
proof (cases m)
  case (AnswerArrives a)
  then obtain batch n mode where p: "ts_phase st = Posting batch n mode"
      "st' = answered opts (attempt_of a (length batch)) batch n mode st"
    using assms by (auto simp: telemetry_move_def split: worker_phase.splits)
  then have f: "in_flight st = batch" by (simp add: in_flight_def)
  show ?thesis
    unfolding AnswerArrives p(2) f
    by (cases "attempt_of a (length batch)") (simp_all add: answered_def acknowledge_acked)
next
  case (Record e)
  with assms show ?thesis by (auto simp: telemetry_move_def record_event_def numbered_def enqueue_def Let_def acked_def)
next
  case Shutdown
  with assms show ?thesis by (auto simp: telemetry_move_def shutdown_call_def Let_def acked_def)
next
  case CallerTimeout
  with assms show ?thesis by (auto simp: telemetry_move_def shutdown_timeout_def acked_def split: if_splits)
next
  case Receive
  then obtain e q where "st' = receive opts e (st\<lparr>ts_queue := q\<rparr>)"
    using assms by (auto simp: telemetry_move_def split: list.splits if_splits)
  then show ?thesis by (simp add: receive_def Let_def)
next
  case ReceiveShutdown
  then have "st' = begin_shutdown opts st" using assms by (simp add: telemetry_move_def split: if_splits)
  then show ?thesis by (simp add: begin_shutdown_def fold_take_in_acked) (simp add: acked_def)
next
  case Tick
  then have "st' = start_flush Regular st" using assms by (simp add: telemetry_move_def split: if_splits)
  then show ?thesis by simp
next
  case HandlesDropped
  with assms show ?thesis by (auto simp: telemetry_move_def split: if_splits)
next
  case WorkerStarts
  with assms show ?thesis by (auto simp: telemetry_move_def split: if_splits)
next
  case ClientFailed
  with assms show ?thesis by (auto simp: telemetry_move_def split: if_splits)
next
  case DelayEnds
  with assms show ?thesis by (auto simp: telemetry_move_def acked_def split: worker_phase.splits)
next
  case SignalSeen
  then obtain batch where "st' = give_back batch Regular (st\<lparr>ts_signal := False\<rparr>)"
    using assms by (auto simp: telemetry_move_def split: worker_phase.splits flush_mode.splits if_splits)
  then show ?thesis by simp
next
  case DeadlinePasses
  then obtain batch where "st' = give_back batch Final st"
    using assms by (auto simp: telemetry_move_def split: worker_phase.splits flush_mode.splits)
  then show ?thesis by simp
qed

text \<open>What is posted is a batch.\<close>

definition small_posts :: "telemetry_state \<Rightarrow> bool" where
  "small_posts st \<longleftrightarrow> (\<forall>p \<in> set (ts_posts st). length p \<le> TELEMETRY_BATCH) \<and> length (in_flight st) \<le> TELEMETRY_BATCH"

lemma small_same: "small_posts st \<Longrightarrow> ts_posts s = ts_posts st \<Longrightarrow> in_flight s = in_flight st \<Longrightarrow> small_posts s"
  by (simp add: small_posts_def)

lemma small_start_flush: "small_posts st \<Longrightarrow> small_posts (start_flush mode st)"
  by (simp add: small_posts_def start_flush_def stop_worker_def in_flight_def split: flush_mode.split)

lemma small_take_in: "small_posts st \<Longrightarrow> small_posts (take_in opts e st)"
  by (simp add: small_posts_def take_in_def in_flight_def Let_def)

lemma small_fold: "small_posts st \<Longrightarrow> small_posts (fold (take_in opts) es st)"
  by (induction es arbitrary: st) (simp_all add: small_take_in)

lemma small_quiet: "small_posts st \<Longrightarrow> ts_posts s = ts_posts st \<Longrightarrow> in_flight s = [] \<Longrightarrow> small_posts s"
  by (simp add: small_posts_def)

lemma small_give_back: "small_posts st \<Longrightarrow> small_posts (give_back batch mode st)"
  by (simp add: small_posts_def give_back_def stop_worker_def in_flight_def Let_def split: flush_mode.split)

lemma small_acknowledge: "small_posts st \<Longrightarrow> small_posts (acknowledge batch mode st)"
proof -
  assume s: "small_posts st"
  have "small_posts (acknowledged batch st)" by (rule small_quiet [OF s]) (simp_all add: acknowledged_def in_flight_def)
  moreover have "small_posts ((acknowledged batch st)\<lparr>ts_phase := Idle\<rparr>)"
    by (rule small_quiet [OF s]) (simp_all add: acknowledged_def in_flight_def)
  ultimately show ?thesis using small_start_flush by (simp add: acknowledge_idle split: flush_mode.split)
qed

lemma small_move:
  assumes "small_posts st" and "telemetry_move opts m st = Some st'"
  shows "small_posts st'"
proof (cases m)
  case (Record e)
  with assms(2) show ?thesis
    by (intro small_same [OF assms(1)]) (auto simp: telemetry_move_def record_event_def numbered_def enqueue_def in_flight_def Let_def)
next
  case Shutdown
  with assms(2) show ?thesis
    by (intro small_same [OF assms(1)]) (auto simp: telemetry_move_def shutdown_call_def in_flight_def Let_def)
next
  case CallerTimeout
  with assms(2) show ?thesis
    by (intro small_same [OF assms(1)]) (auto simp: telemetry_move_def shutdown_timeout_def in_flight_def split: if_splits)
next
  case Receive
  then obtain e q where r: "st' = receive opts e (st\<lparr>ts_queue := q\<rparr>)"
    using assms(2) by (auto simp: telemetry_move_def split: list.splits if_splits)
  have "small_posts (st\<lparr>ts_queue := q\<rparr>)" by (rule small_same [OF assms(1)]) (simp_all add: in_flight_def)
  with r small_start_flush small_take_in show ?thesis by (simp add: receive_def Let_def)
next
  case ReceiveShutdown
  then have r: "st' = begin_shutdown opts st" using assms(2) by (simp add: telemetry_move_def split: if_splits)
  have "small_posts (st\<lparr>ts_mail := False, ts_closed := True, ts_queue := []\<rparr>)"
    by (rule small_same [OF assms(1)]) (simp_all add: in_flight_def)
  with r small_start_flush small_fold show ?thesis by (simp add: begin_shutdown_def)
next
  case Tick
  with assms small_start_flush show ?thesis by (auto simp: telemetry_move_def split: if_splits)
next
  case HandlesDropped
  with assms(2) show ?thesis
    by (intro small_quiet [OF assms(1)]) (auto simp: telemetry_move_def abandon_def in_flight_def split: if_splits)
next
  case WorkerStarts
  with assms(2) show ?thesis
    by (intro small_quiet [OF assms(1)]) (auto simp: telemetry_move_def in_flight_def split: if_splits)
next
  case ClientFailed
  with assms(2) show ?thesis
    by (intro small_quiet [OF assms(1)]) (auto simp: telemetry_move_def abandon_def in_flight_def split: if_splits)
next
  case (AnswerArrives a)
  then obtain batch n mode where p: "ts_phase st = Posting batch n mode"
      "st' = answered opts (attempt_of a (length batch)) batch n mode st"
    using assms(2) by (auto simp: telemetry_move_def split: worker_phase.splits)
  have "small_posts (st\<lparr>ts_phase := Waiting batch n mode\<rparr>)"
    by (rule small_same [OF assms(1)]) (simp_all add: in_flight_def p(1))
  with p(2) small_give_back [OF assms(1)] small_acknowledge [OF assms(1)] show ?thesis
    by (simp add: answered_def split: telemetry_attempt.split)
next
  case DelayEnds
  with assms show ?thesis by (auto simp: telemetry_move_def small_posts_def in_flight_def split: worker_phase.splits)
next
  case SignalSeen
  then obtain batch where "st' = give_back batch Regular (st\<lparr>ts_signal := False\<rparr>)"
    using assms(2) by (auto simp: telemetry_move_def split: worker_phase.splits flush_mode.splits if_splits)
  moreover have "small_posts (st\<lparr>ts_signal := False\<rparr>)" by (rule small_same [OF assms(1)]) (simp_all add: in_flight_def)
  ultimately show ?thesis using small_give_back by blast
next
  case DeadlinePasses
  with assms small_give_back show ?thesis
    by (auto simp: telemetry_move_def split: worker_phase.splits flush_mode.splits)
qed

lemma small_run: "telemetry_run opts st st' \<Longrightarrow> small_posts st \<Longrightarrow> small_posts st'"
  by (induction rule: telemetry_run.induct) (blast intro: small_move)+

lemma posts_bounded:
  assumes "telemetry_run opts fresh_runtime st"
  shows "\<forall>p \<in> set (ts_posts st). length p \<le> TELEMETRY_BATCH"
proof -
  have "small_posts fresh_runtime" by (simp add: small_posts_def in_flight_def fresh_runtime_def)
  from small_run [OF assms this] show ?thesis unfolding small_posts_def by blast
qed

lemma served_run_never_acks:
  assumes "served_run service opts st st'" and "bad \<notin> set (acked st)"
    and "\<And>es a. bad \<in> set es \<Longrightarrow> service es a \<Longrightarrow> attempt_of a (length es) \<noteq> Delivered"
  shows "bad \<notin> set (acked st')"
  using assms(1,2)
proof (induction rule: served_run.induct)
  case (step st st1 m st2)
  have no: "bad \<notin> set (acked st1)" using step.IH [OF step.prems] .
  from move_acked [OF step.hyps(2)] show ?case
  proof (elim disjE exE conjE)
    fix a
    assume a: "m = AnswerArrives a" "attempt_of a (length (in_flight st1)) = Delivered" "acked st2 = acked st1 @ in_flight st1"
    have "service (in_flight st1) a" using step.hyps(3) a(1) by blast
    with assms(3) a(2) have "bad \<notin> set (in_flight st1)" by blast
    with no a(3) show ?thesis by simp
  qed (use no in simp)
qed

text \<open>
  C37.  Where no extractor names the operations of requests, one answered request to a path with a byte
  outside the alphabet of operations, such as \<open>/@ana\<close> or \<open>/a%20b\<close>, keeps the telemetry of a product from
  ever being acknowledged: from when its event is the oldest one that the worker holds, the backend
  acknowledges no batch any more, every post is a batch of at most fifty that begins with that event
  again, and no shutdown succeeds, until the queue overflows or the worker returns before a last
  flush and loses the event.
\<close>

theorem a_foreign_path_blocks_telemetry:
  assumes "\<And>s. is_uuid s \<Longrightarrow> list_all operation_byte s" and "ex_operation ex = None"
    and "c \<in> set path" and "\<not> operation_byte c" and "CHR ''?'' \<notin> set path"
    and "bad = (http_event is_uuid ex interaction occurred_at surface request path status elapsed)\<lparr>te_sequence := n\<rparr>"
    and "served_run (backend instant ip write finish) (normalized_options o') fresh_runtime st"
    and "in_flight st @ ts_pending st = bad # rest"
    and "served_run (backend instant ip write finish) (normalized_options o') st st'"
  shows "fst (diagnostics st) < fst (diagnostics st')
    \<or> (acked st' = acked st \<and> ts_answer st' \<noteq> Some (Inr ())
        \<and> ((\<exists>rest'. in_flight st' @ ts_pending st' = bad # rest') \<or> bad \<in> set (ts_lost st'))
        \<and> (\<exists>ps. ts_posts st' = ts_posts st @ ps \<and> (\<forall>p \<in> set ps. hd p = bad \<and> length p \<le> TELEMETRY_BATCH)))"
proof -
  have "\<not> operation_ok (te_operation bad)"
    using foreign_path_is_refused [where path = path and c = c, OF assms(1-5)] assms(6) by simp
  then have never: "bad \<in> set es \<Longrightarrow> backend instant ip write finish es a \<Longrightarrow> attempt_of a (length es) \<noteq> Delivered" for es a
    by (rule backend_refuses [rotated])
  have "bad \<notin> set (acked fresh_runtime)" by (simp add: acked_def fresh_runtime_def)
  then have no: "bad \<notin> set (acked st')" using served_run_never_acks assms(7,9) never by metis
  note run = served_run_is_run [OF assms(7)] served_run_is_run [OF assms(9)]
  have ok: "telemetry_ok (normalized_options o') st'"
    using normalized_run_ok [OF telemetry_run_trans [OF run(2,1)]] .
  from an_unacknowledged_event_blocks_the_queue [OF run(1) assms(8) run(2) no] show ?thesis
  proof (rule disjE)
    assume "ts_acked st' = ts_acked st \<and> ((\<exists>rest'. in_flight st' @ ts_pending st' = bad # rest') \<or> bad \<in> set (ts_lost st'))
        \<and> (\<exists>ps. ts_posts st' = ts_posts st @ ps \<and> list_all (\<lambda>p. \<exists>qs. p = bad # qs) ps)"
    then have r: "ts_acked st' = ts_acked st"
      and h: "(\<exists>rest'. in_flight st' @ ts_pending st' = bad # rest') \<or> bad \<in> set (ts_lost st')"
      and "\<exists>ps. ts_posts st' = ts_posts st @ ps \<and> list_all (\<lambda>p. \<exists>qs. p = bad # qs) ps" by blast+
    then obtain ps where ps: "ts_posts st' = ts_posts st @ ps" "list_all (\<lambda>p. \<exists>qs. p = bad # qs) ps" by blast
    from h have "held st' \<noteq> [] \<or> ts_lost st' \<noteq> []" by (auto simp: held_def)
    then have "ts_answer st' \<noteq> Some (Inr ())" using ok unfolding telemetry_ok_def ordered_shutdown_def by blast
    moreover have "\<forall>p \<in> set ps. hd p = bad \<and> length p \<le> TELEMETRY_BATCH"
      using ps posts_bounded [OF telemetry_run_trans [OF run(2,1)]] by (fastforce simp: list_all_iff)
    ultimately show ?thesis using r h ps(1) by (auto simp: acked_def)
  qed simp
qed

lemma play_served:
  assumes "play opts ms st = Some st'" and "list_all (\<lambda>m. \<forall>a. m \<noteq> AnswerArrives a) ms" and "served_run service opts st0' st"
  shows "served_run service opts st0' st'"
  using assms
proof (induction ms arbitrary: st)
  case (Cons m ms)
  then obtain st1 where m: "telemetry_move opts m st = Some st1" "play opts ms st1 = Some st'" by (auto split: option.splits)
  have "served_run service opts st0' st1" by (rule served_run.step [OF Cons.prems(3) m(1)]) (use Cons.prems(2) in auto)
  with Cons m(2) show ?case by simp
qed simp

definition no_extractors :: "unit extractors" where
  "no_extractors = \<lparr>ex_account_ref = None, ex_user_ref = None, ex_anonymous_ref = None, ex_customer_ref = None,
     ex_session_ref = None, ex_runtime_hint = None, ex_operation = None\<rparr>"

definition looks_like_uuid :: "string \<Rightarrow> bool" where
  "looks_like_uuid s \<longleftrightarrow> length s = 36 \<and> list_all operation_byte s"

definition foreign_event :: sdk_event where
  "foreign_event = (http_event looks_like_uuid no_extractors 9 ''now'' ''http_json'' () ''/@ana'' 200 5)\<lparr>te_sequence := 1\<rparr>"

lemma foreign_event_is_dropped:
  "telemetry_batch_handler (\<lambda>_. Some 0) (\<lambda>_. None) 0 (\<lambda>c w. Inr w) Inr [foreign_event] () = TelemetryAnswer 202 (Some (0, 1))"
  by code_simp

theorem a_foreign_path_blocks_telemetry_witness:
  "\<exists>st st'. served_run (backend (\<lambda>_. Some 0) (\<lambda>_. None) (\<lambda>c w. Inr w) (Inr :: unit \<Rightarrow> unit result))
        (normalized_options (tiny_options\<lparr>to_max_queue := 4\<rparr>)) st st'
     \<and> ts_posts st' = [[foreign_event]] \<and> length (ts_recorded st') = 2 \<and> diagnostics st' = (0, 0) \<and> acked st' = []
     \<and> (\<exists>rest. in_flight st' @ ts_pending st' = foreign_event # rest)"
proof -
  let ?opts = "normalized_options (tiny_options\<lparr>to_max_queue := 4\<rparr>)"
  let ?backend = "backend (\<lambda>_. Some 0) (\<lambda>_. None) (\<lambda>c w. Inr w) (Inr :: unit \<Rightarrow> unit result)"
  let ?fresh = fresh_runtime
  let ?d = "\<lparr>dg_overflow = 0, dg_undelivered = 0, dg_episode = False, dg_outstanding = 1, dg_claimed = False\<rparr>"
  let ?st = "?fresh\<lparr>ts_phase := Idle, ts_recorded := [foreign_event], ts_pending := [foreign_event], ts_sequence := 1, ts_diagnostics := ?d\<rparr>"
  let ?posted = "?st\<lparr>ts_phase := Posting [foreign_event] 0 Regular, ts_pending := [], ts_posts := [[foreign_event]]\<rparr>"
  let ?given_back = "?st\<lparr>ts_posts := [[foreign_event]]\<rparr>"
  let ?last = "?given_back\<lparr>ts_recorded := [foreign_event, event_2], ts_pending := [foreign_event, event_2],
      ts_diagnostics := ?d\<lparr>dg_outstanding := 2\<rparr>\<rparr>"
  have "play ?opts [WorkerStarts, Record (foreign_event\<lparr>te_sequence := 0\<rparr>), Receive] ?fresh = Some ?st" by code_simp
  from play_served [OF this _ served_run.here] have r1: "served_run ?backend ?opts ?fresh ?st" by simp
  have "play ?opts [Tick] ?st = Some ?posted" by code_simp
  from play_served [OF this _ served_run.here] have r2: "served_run ?backend ?opts ?st ?posted" by simp
  have "telemetry_move ?opts (AnswerArrives (TelemetryAnswer 202 (Some (0, 1)))) ?posted = Some ?given_back" by code_simp
  moreover have "?backend [foreign_event] (TelemetryAnswer 202 (Some (0, 1)))"
    using foreign_event_is_dropped unfolding backend_def by metis
  moreover have "in_flight ?posted = [foreign_event]" by (simp add: in_flight_def)
  ultimately have r3: "served_run ?backend ?opts ?st ?given_back" by (intro served_run.step [OF r2]) auto
  have "play ?opts [Record event_2, Receive] ?given_back = Some ?last" by code_simp
  from play_served [OF this _ r3] have r4: "served_run ?backend ?opts ?st ?last" by simp
  have u: "\<And>s. looks_like_uuid s \<Longrightarrow> list_all operation_byte s" by (simp add: looks_like_uuid_def)
  have c: "CHR ''@'' \<in> set ''/@ana''" "\<not> operation_byte (CHR ''@'')" "CHR ''?'' \<notin> set ''/@ana''" by code_simp+
  have x: "ex_operation no_extractors = None" by (simp add: no_extractors_def)
  have i: "in_flight ?st @ ts_pending ?st = foreign_event # []" by (simp add: in_flight_def fresh_runtime_def)
  have d: "diagnostics ?last = (0, 0)" "acked ?st = []" by (simp_all add: diagnostics_def acked_def fresh_runtime_def)
  have l: "foreign_event \<notin> set (ts_lost ?last)" "\<not> fst (diagnostics ?st) < fst (diagnostics ?last)"
    by (simp_all add: diagnostics_def fresh_runtime_def)
  have "acked ?last = acked ?st" "\<exists>rest. in_flight ?last @ ts_pending ?last = foreign_event # rest"
    using a_foreign_path_blocks_telemetry [OF u x c foreign_event_def r1 i r4] l by blast+
  with d have "acked ?last = [] \<and> (\<exists>rest. in_flight ?last @ ts_pending ?last = foreign_event # rest)" "diagnostics ?last = (0, 0)"
    by (simp_all only:)
  moreover have "ts_posts ?last = [[foreign_event]]" "length (ts_recorded ?last) = 2" by simp_all
  ultimately show ?thesis using r4 by blast
qed

end
