(* ===== verification/SdkCapability.thy ===== *)
theory SdkCapability
  imports Security Json
begin

text \<open>
  \<open>sdk/rust/src/lib.rs\<close>: the capabilities that the SDK signs for its responses, the opaque subjects of
  consent, the cache of consent states, and the envelope that tells an agent what it may do
  (\<open>prepare_for_revision\<close>).  The fixed texts of an envelope for the agent and its URLs are left out, but
  for the question to the user.
\<close>

section \<open>Keys\<close>

datatype sdk_error = InvalidProductKey | InvalidFeedbackMode | MissingTokioRuntime | RandomError | TimeError | JsonError

definition hex32 :: "string \<Rightarrow> bool" where
  "hex32 s \<longleftrightarrow> length s = 32 \<and> list_all is_hex_digit s"

text \<open>The id of the key, the signing key, and the key of consent subjects.\<close>

definition key_parts :: "token_codec \<Rightarrow> string \<Rightarrow> sdk_error + (string \<times> string \<times> string)" where
  "key_parts k api_key =
     (case strip_prefix ''af_live_'' api_key of None \<Rightarrow> Inl InvalidProductKey
      | Some rest \<Rightarrow>
     (case split_once CHR ''_'' rest of None \<Rightarrow> Inl InvalidProductKey
      | Some (key_id, secret) \<Rightarrow>
          if \<not> hex32 key_id \<or> length secret < 20 then Inl InvalidProductKey
          else (let consent_scope =
                  (case split_once CHR ''_'' secret of None \<Rightarrow> key_id
                   | Some (candidate, remainder) \<Rightarrow>
                       if hex32 candidate \<and> 20 \<le> length remainder then candidate else key_id)
                in Inr (key_id, tc_sha256 k api_key,
                     tc_sha256 k (''epode-consent-scope:'' @ to_ascii_lowercase consent_scope)))))"

definition sign_capability ::
  "token_codec \<Rightarrow> (capability_claims \<Rightarrow> string option) \<Rightarrow> string \<Rightarrow> capability_claims \<Rightarrow> sdk_error + string" where
  "sign_capability k claims_json api_key claims =
     (case key_parts k api_key of Inl e \<Rightarrow> Inl e
      | Inr (key_id, signing_key, _) \<Rightarrow>
     (case claims_json claims of None \<Rightarrow> Inl JsonError
      | Some bytes \<Rightarrow>
          (let input = ''afr2_'' @ to_ascii_lowercase key_id @ ''.'' @ tc_encode k bytes
           in case tc_mac k signing_key input of None \<Rightarrow> Inl InvalidProductKey
              | Some mac \<Rightarrow> Inr (input @ ''.'' @ tc_encode k mac))))"

definition consent_subject :: "token_codec \<Rightarrow> string \<Rightarrow> string \<Rightarrow> sdk_error + string" where
  "consent_subject k api_key customer_ref =
     (case key_parts k api_key of Inl e \<Rightarrow> Inl e
      | Inr (_, _, consent_key) \<Rightarrow>
          (case tc_mac k consent_key (''customer-ref:'' @ trim customer_ref) of None \<Rightarrow> Inl InvalidProductKey
           | Some mac \<Rightarrow> Inr (''afsub1_'' @ tc_encode k mac)))"

section \<open>Consent states\<close>

datatype sdk_mode = NeverAsk | AskOnce | AskAlways | Off | InvalidMode

text \<open>The state is one of \<open>approved\<close>, \<open>declined\<close>, \<open>unknown\<close> and \<open>unavailable\<close>.\<close>

record consent_snapshot =
  sn_state :: string
  sn_revision :: nat

definition unknown_consent :: consent_snapshot where
  "unknown_consent = \<lparr>sn_state = ''unknown'', sn_revision = 0\<rparr>"

definition unavailable_consent :: consent_snapshot where
  "unavailable_consent = \<lparr>sn_state = ''unavailable'', sn_revision = 0\<rparr>"

type_synonym consent_cache = "string \<rightharpoonup> string \<times> nat \<times> time"

definition cached_consent_subject :: "time \<Rightarrow> string \<Rightarrow> consent_cache \<Rightarrow> consent_snapshot option \<times> consent_cache" where
  "cached_consent_subject now subject cache =
     (case cache subject of None \<Rightarrow> (None, cache)
      | Some (state, revision, expires_at) \<Rightarrow>
          if expires_at \<le> now then (None, cache(subject := None))
          else if state = ''approved'' then (Some \<lparr>sn_state = ''approved'', sn_revision = revision\<rparr>, cache)
          else if state = ''declined'' then (Some \<lparr>sn_state = ''declined'', sn_revision = revision\<rparr>, cache)
          else (None, cache))"

definition cached_consent ::
  "token_codec \<Rightarrow> sdk_mode \<Rightarrow> string \<Rightarrow> time \<Rightarrow> string option \<Rightarrow> consent_cache \<Rightarrow> consent_snapshot \<times> consent_cache" where
  "cached_consent k mode api_key now customer_ref cache =
     (if mode = NeverAsk then (\<lparr>sn_state = ''approved'', sn_revision = 0\<rparr>, cache)
      else if mode \<noteq> AskOnce then (unknown_consent, cache)
      else (case customer_ref of None \<Rightarrow> (unknown_consent, cache)
        | Some ref \<Rightarrow>
            if trim ref = [] then (unknown_consent, cache)
            else (case consent_subject k api_key ref of Inl _ \<Rightarrow> (unknown_consent, cache)
              | Inr subject \<Rightarrow>
                  (case cached_consent_subject now subject cache of
                     (None, cache') \<Rightarrow> (unknown_consent, cache')
                   | (Some snapshot, cache') \<Rightarrow> (snapshot, cache')))))"

text \<open>The body of the answer, when there is a successful one that parses.\<close>

definition as_u64 :: "json \<Rightarrow> nat option" where
  "as_u64 v = (case v of JNum n \<Rightarrow> if 0 \<le> n \<and> n < 2 ^ 64 then Some (nat n) else None | _ \<Rightarrow> None)"

definition as_str :: "json \<Rightarrow> string option" where
  "as_str v = (case v of JStr s \<Rightarrow> Some s | _ \<Rightarrow> None)"

definition lookup_consent_subject ::
  "time \<Rightarrow> time \<Rightarrow> string \<Rightarrow> json option \<Rightarrow> consent_cache \<Rightarrow> consent_snapshot \<times> consent_cache" where
  "lookup_consent_subject ttl now subject answer cache =
     (case answer of None \<Rightarrow> (unavailable_consent, cache)
      | Some value \<Rightarrow>
     (case Option.bind (json_field ''state'' value) as_str of None \<Rightarrow> (unavailable_consent, cache)
      | Some state \<Rightarrow>
     (case Option.bind (json_field ''revision'' value) as_u64 of None \<Rightarrow> (unavailable_consent, cache)
      | Some revision \<Rightarrow>
          if (state = ''unknown'' \<and> revision \<noteq> 0) \<or> (state \<in> {''approved'', ''declined''} \<and> revision = 0)
          then (unavailable_consent, cache)
          else (let cache' = (if state \<in> {''approved'', ''declined''}
                              then cache(subject \<mapsto> (state, revision, now + ttl)) else cache)
                in (if state = ''approved'' then \<lparr>sn_state = ''approved'', sn_revision = revision\<rparr>
                    else if state = ''declined'' then \<lparr>sn_state = ''declined'', sn_revision = revision\<rparr>
                    else if state = ''unknown'' then unknown_consent else unavailable_consent, cache')))))"

section \<open>Envelopes\<close>

record envelope =
  nv_mode :: sdk_mode
  nv_configured :: "sdk_mode option"
  nv_state :: string
  nv_requested :: bool
  nv_consent_required :: bool
  nv_policy :: string
  nv_managed :: bool
  nv_when :: string
  nv_question :: "(string \<times> string) option"
  nv_submit :: "string option"
  nv_manage :: "(string \<times> string) option"
  nv_expires :: nat

definition once_question :: string where
  "once_question = ''May I send this product'' @ [CHR 0x27] @ ''s provider one short, privacy-safe outcome report after this use and future uses without asking again? Epode will remember your choice for this product. Your prompts and task content are never included; nothing is installed.''"

definition always_question :: string where
  "always_question = ''May I send this product'' @ [CHR 0x27] @ ''s provider one short, privacy-safe outcome report about this use? Your prompts and task content will not be included.''"

definition prepared_mode :: "sdk_mode \<Rightarrow> sdk_mode" where
  "prepared_mode mode = (case mode of AskOnce \<Rightarrow> AskOnce | AskAlways \<Rightarrow> AskAlways | _ \<Rightarrow> NeverAsk)"

definition prepared_subject :: "token_codec \<Rightarrow> string \<Rightarrow> sdk_mode \<Rightarrow> string option \<Rightarrow> sdk_error + string option" where
  "prepared_subject k api_key mode customer_ref =
     (if mode = AskOnce
      then (case customer_ref of None \<Rightarrow> Inr None
            | Some ref \<Rightarrow> (case consent_subject k api_key ref of Inl e \<Rightarrow> Inl e | Inr s \<Rightarrow> Inr (Some s)))
      else Inr None)"

definition prepared_claims :: "uuid \<Rightarrow> nat \<Rightarrow> string \<Rightarrow> string option \<Rightarrow> nat \<Rightarrow> capability_claims" where
  "prepared_claims interaction issued nonce subject revision =
     \<lparr>cl_v = 1, cl_i = interaction, cl_iat = int issued, cl_exp = int (issued + 7200), cl_n = nonce,
      cl_s = subject, cl_r = map_option (\<lambda>_. int revision) subject\<rparr>"

definition envelope_of :: "sdk_mode \<Rightarrow> sdk_mode \<Rightarrow> string \<Rightarrow> string \<Rightarrow> nat \<Rightarrow> envelope option" where
  "envelope_of mode effective state token expires =
     (let bearer = ''Bearer '' @ token
      in if effective = AskOnce \<and> state = ''unavailable'' then None
         else if effective = AskOnce \<and> state = ''declined''
         then Some \<lparr>nv_mode = AskOnce, nv_configured = Some AskOnce, nv_state = ''feedback_disabled'', nv_requested = False,
                nv_consent_required = False, nv_policy = ''once'', nv_managed = True,
                nv_when = ''only_after_explicit_user_request'', nv_question = None, nv_submit = None,
                nv_manage = Some (''declined'', bearer), nv_expires = expires\<rparr>
         else if (effective = AskOnce \<and> state = ''unknown'') \<or> effective = AskAlways
         then Some \<lparr>nv_mode = effective, nv_configured = Some mode, nv_state = ''consent_required'', nv_requested = True,
                nv_consent_required = True, nv_policy = (if effective = AskOnce then ''once'' else ''always''), nv_managed = True,
                nv_when = (if effective = AskOnce then ''after_experience_known_and_consent_resolved''
                           else ''after_experience_known_and_explicit_user_approval''),
                nv_question = Some (if effective = AskOnce then once_question else always_question, bearer),
                nv_submit = None, nv_manage = None, nv_expires = expires\<rparr>
         else Some \<lparr>nv_mode = NeverAsk, nv_configured = (if mode \<noteq> NeverAsk then Some mode else None),
                nv_state = ''feedback_ready'', nv_requested = True, nv_consent_required = False, nv_policy = ''none'',
                nv_managed = (mode \<noteq> NeverAsk), nv_when = ''after_experience_known_before_final_response'',
                nv_question = None, nv_submit = Some bearer,
                nv_manage = (if mode = AskOnce then Some (''approved'', bearer) else None), nv_expires = expires\<rparr>)"

record prepared_interaction =
  pr_interaction :: uuid
  pr_issued :: nat
  pr_token :: string
  pr_claims :: capability_claims
  pr_envelope :: "envelope option"

text \<open>
  The random id and nonce are arguments; the clock is in seconds, absent when it is before 1970.  The
  token and its claims are kept besides the envelope.
\<close>

definition prepare_for_revision ::
  "token_codec \<Rightarrow> (capability_claims \<Rightarrow> string option) \<Rightarrow> string \<Rightarrow> sdk_mode \<Rightarrow> uuid \<Rightarrow> string \<Rightarrow> nat option \<Rightarrow> string option
     \<Rightarrow> string \<Rightarrow> nat \<Rightarrow> sdk_error + prepared_interaction" where
  "prepare_for_revision k claims_json api_key configured interaction nonce_bytes clock customer_ref state revision =
     (case clock of None \<Rightarrow> Inl TimeError
      | Some issued \<Rightarrow>
          (let nonce = tc_encode k nonce_bytes; mode = prepared_mode configured
           in case prepared_subject k api_key mode customer_ref of Inl e \<Rightarrow> Inl e
              | Inr subject \<Rightarrow>
                  (let effective = (if mode = AskOnce \<and> subject = None then AskAlways else mode);
                       claims = prepared_claims interaction issued nonce subject revision
                   in case sign_capability k claims_json api_key claims of Inl e \<Rightarrow> Inl e
                      | Inr token \<Rightarrow>
                          Inr \<lparr>pr_interaction = interaction, pr_issued = issued, pr_token = token, pr_claims = claims,
                               pr_envelope = envelope_of mode effective state token (issued + 7200)\<rparr>)))"

end
