(* ===== verification/Base64Url.thy ===== *)
theory Base64Url
  imports StoreText
begin

text \<open>
  Base64 with the URL alphabet and without padding (\<open>URL_SAFE_NO_PAD\<close> of the \<open>base64\<close> crate), as a
  concrete instance of the encodings that the models take as arguments, with the laws they rely on.
\<close>

definition alphabet :: string where
  "alphabet = ''ABCDEFGHIJKLMNOPQRSTUVWXYZabcdefghijklmnopqrstuvwxyz0123456789-_''"

definition digit64 :: "nat \<Rightarrow> byte" where
  "digit64 n = alphabet ! n"

definition value64 :: "byte \<Rightarrow> nat" where
  "value64 c = (if is_upper c then byte_val c - 65 else if is_lower c then byte_val c - 71
     else if is_digit c then byte_val c + 4 else if c = CHR ''-'' then 62 else 63)"

fun sextets :: "nat list \<Rightarrow> nat list" where
  "sextets [] = []"
| "sextets [a] = [a div 4, a mod 4 * 16]"
| "sextets [a, b] = [a div 4, a mod 4 * 16 + b div 16, b mod 16 * 4]"
| "sextets (a # b # c # r) =
     a div 4 # (a mod 4 * 16 + b div 16) # (b mod 16 * 4 + c div 64) # c mod 64 # sextets r"

fun octets :: "nat list \<Rightarrow> nat list" where
  "octets (p # q # r # s # t) = (p * 4 + q div 16) # (q mod 16 * 16 + r div 4) # (r mod 4 * 64 + s) # octets t"
| "octets [p, q, r] = [p * 4 + q div 16, q mod 16 * 16 + r div 4]"
| "octets [p, q] = [p * 4 + q div 16]"
| "octets _ = []"

definition encode64 :: "string \<Rightarrow> string" where
  "encode64 s = map digit64 (sextets (map byte_val s))"

definition decode64 :: "string \<Rightarrow> string option" where
  "decode64 s = (if list_all (\<lambda>c. c \<in> set alphabet) s then Some (map char_of (octets (map value64 s))) else None)"

lemma digit64_facts:
  "n < 64 \<Longrightarrow> value64 (digit64 n) = n \<and> digit64 n \<in> set alphabet
     \<and> (is_alnum (digit64 n) \<or> digit64 n = CHR ''-'' \<or> digit64 n = CHR ''_'')"
proof -
  have v: "map value64 alphabet = [0..<64]" "length alphabet = 64" by code_simp+
  have a: "list_all (\<lambda>c. is_alnum c \<or> c = CHR ''-'' \<or> c = CHR ''_'') alphabet" by code_simp
  assume n: "n < 64"
  then have m: "digit64 n \<in> set alphabet" using v(2) by (simp add: digit64_def)
  have "map value64 alphabet ! n = n" unfolding v(1) using n by simp
  then have "value64 (digit64 n) = n" using n v(2) by (simp add: digit64_def)
  with a m show ?thesis by (simp add: list_all_iff)
qed

lemma sextets_small: "list_all (\<lambda>n. n < 256) bs \<Longrightarrow> list_all (\<lambda>n. n < 64) (sextets bs)"
  by (induction bs rule: sextets.induct) auto

lemma octets_sextets: "list_all (\<lambda>n. n < 256) bs \<Longrightarrow> octets (sextets bs) = bs"
proof (induction bs rule: sextets.induct)
  case (3 a b)
  then have q: "b div 16 < 16" using less_mult_imp_div_less [of b 16 16] by simp
  have "a div 4 * 4 + (a mod 4 * 16 + b div 16) div 16 = a" using q by simp
  moreover have "(a mod 4 * 16 + b div 16) mod 16 = b div 16" using q by simp
  ultimately show ?case by simp
next
  case (4 a b c r)
  then have "b < 256" "c < 256" by simp_all
  then have q: "b div 16 < 16" "c div 64 < 4" using less_mult_imp_div_less [of b 16 16] less_mult_imp_div_less [of c 4 64] by simp_all
  have "a div 4 * 4 + (a mod 4 * 16 + b div 16) div 16 = a" using q by simp
  moreover have "(a mod 4 * 16 + b div 16) mod 16 = b div 16" using q by simp
  moreover have "(b mod 16 * 4 + c div 64) div 4 = b mod 16" "(b mod 16 * 4 + c div 64) mod 4 = c div 64" using q by simp_all
  ultimately show ?case using 4 by simp
qed auto

lemma length_sextets: "length (sextets bs) = (4 * length bs + 2) div 3"
  by (induction bs rule: sextets.induct) auto

lemma decode_encode64: "decode64 (encode64 s) = Some s"
proof -
  have b: "list_all (\<lambda>n. n < 256) (map byte_val s)" by (simp add: list_all_iff)
  have small: "n < 64" if "n \<in> set (sextets (map byte_val s))" for n
    using sextets_small [OF b] that by (simp add: list_all_iff)
  have "list_all (\<lambda>c. c \<in> set alphabet) (encode64 s)" using small digit64_facts by (simp add: encode64_def list_all_iff)
  moreover have "map value64 (encode64 s) = sextets (map byte_val s)"
    using small digit64_facts by (simp add: encode64_def map_idI)
  moreover have "map char_of (map byte_val s) = s" by (simp add: byte_val_def map_idI)
  ultimately show ?thesis using octets_sextets [OF b] by (simp add: decode64_def)
qed

lemma length_encode64: "length (encode64 s) = (4 * length s + 2) div 3"
  by (simp add: encode64_def length_sextets)

lemma encode64_alphabet: "list_all (\<lambda>c. is_alnum c \<or> c = CHR ''-'' \<or> c = CHR ''_'') (encode64 s)"
proof -
  have b: "list_all (\<lambda>n. n < 256) (map byte_val s)" by (simp add: list_all_iff)
  then show ?thesis using sextets_small [OF b] digit64_facts by (simp add: encode64_def list_all_iff)
qed

section \<open>Hexadecimal UUIDs\<close>

definition hex_digit_value :: "byte \<Rightarrow> nat" where
  "hex_digit_value c = (if is_digit c then byte_val c - 48 else byte_val c - 87)"

definition parse_hex :: "string \<Rightarrow> uuid option" where
  "parse_hex s = (if list_all is_hex_digit s then Some (foldl (\<lambda>n c. n * 16 + hex_digit_value c) 0 s) else None)"

lemma hex_char_value: "d < 16 \<Longrightarrow> hex_digit_value (hex_char d) = d \<and> is_hex_digit (hex_char d)"
proof -
  have "\<forall>d < 16. hex_digit_value (hex_char d) = d \<and> is_hex_digit (hex_char d)" by code_simp
  then show "d < 16 \<Longrightarrow> ?thesis" by blast
qed

lemma foldl_hex_fixed: "n < 16 ^ k \<Longrightarrow> foldl (\<lambda>n c. n * 16 + hex_digit_value c) 0 (hex_fixed k n) = n"
proof (induction k arbitrary: n)
  case (Suc k)
  then have "n div 16 < 16 ^ k" by (simp add: less_mult_imp_div_less mult.commute)
  with Suc.IH hex_char_value [of "n mod 16"] show ?case by simp
qed simp

lemma parse_hex_uuid: "u < 2 ^ 128 \<Longrightarrow> parse_hex (uuid_simple u) = Some u"
proof -
  assume "u < 2 ^ 128"
  then have "u < 16 ^ 32" by simp
  moreover have "list_all is_hex_digit (hex_fixed k u)" for k u
    by (induction k arbitrary: u) (simp_all add: hex_char_value)
  ultimately show ?thesis by (simp add: parse_hex_def uuid_simple_def foldl_hex_fixed)
qed

end
