(* ===== verification/SdkCapabilityFacts.thy ===== *)
theory SdkCapabilityFacts
  imports SdkCapability FeedbackReports Base64Url
begin

text \<open>
  The capabilities and envelopes of the SDK against the backend: what the SDK signs with a key that the
  backend issued is accepted there, all keys of an environment name a customer alike, and what an
  envelope tells the agent is what the backend will say of its capability.
\<close>

section \<open>Libraries\<close>

text \<open>
  What both sides rely on: base64 without padding is decoded back, is made of letters, digits, \<open>-\<close> and
  \<open>_\<close>, and has four characters for three bytes; the simple form of a UUID and the JSON of claims are read
  back; a MAC has 32 bytes and exists for every key.
\<close>

definition sdk_codec_ok :: "token_codec \<Rightarrow> (capability_claims \<Rightarrow> string option) \<Rightarrow> bool" where
  "sdk_codec_ok k claims_json \<longleftrightarrow>
     (\<forall>x. tc_decode k (tc_encode k x) = Some x \<and> length (tc_encode k x) = (4 * length x + 2) div 3
          \<and> list_all (\<lambda>c. is_alnum c \<or> c = CHR ''-'' \<or> c = CHR ''_'') (tc_encode k x))
     \<and> (\<forall>u < 2 ^ 128. tc_parse_uuid k (uuid_simple u) = Some u)
     \<and> (\<forall>c bytes. claims_json c = Some bytes \<longrightarrow> tc_claims_of k bytes = Some c)
     \<and> (\<forall>key m. \<exists>mac. tc_mac k key m = Some mac \<and> length mac = 32)"

lemma encoded_has_no_dot: "sdk_codec_ok k j \<Longrightarrow> CHR ''.'' \<notin> set (tc_encode k x)"
proof -
  assume "sdk_codec_ok k j"
  then have "list_all (\<lambda>c. is_alnum c \<or> c = CHR ''-'' \<or> c = CHR ''_'') (tc_encode k x)" by (simp add: sdk_codec_ok_def)
  then show ?thesis by (auto simp: list_all_iff char_defs byte_val_def)
qed

section \<open>Keys\<close>

lemma hex_char_facts: "d < 16 \<Longrightarrow> is_hex_digit (hex_char d) \<and> lower_byte (hex_char d) = hex_char d \<and> hex_char d \<noteq> CHR ''_'' \<and> hex_char d \<noteq> CHR ''.''"
proof -
  have "\<forall>d < 16. is_hex_digit (hex_char d) \<and> lower_byte (hex_char d) = hex_char d \<and> hex_char d \<noteq> CHR ''_'' \<and> hex_char d \<noteq> CHR ''.''"
    by code_simp
  then show "d < 16 \<Longrightarrow> ?thesis" by blast
qed

lemma hex_fixed_facts:
  "list_all is_hex_digit (hex_fixed n u) \<and> to_ascii_lowercase (hex_fixed n u) = hex_fixed n u
    \<and> CHR ''_'' \<notin> set (hex_fixed n u) \<and> CHR ''.'' \<notin> set (hex_fixed n u)"
proof (induction n arbitrary: u)
  case (Suc n)
  have "u mod 16 < 16" by simp
  from Suc.IH [of "u div 16"] hex_char_facts [OF this] show ?case by auto
qed simp

lemma uuid_simple_facts:
  "hex32 (uuid_simple u)" "to_ascii_lowercase (uuid_simple u) = uuid_simple u"
  "CHR ''_'' \<notin> set (uuid_simple u)" "CHR ''.'' \<notin> set (uuid_simple u)"
  using hex_fixed_facts [of 32 u] by (simp_all add: hex32_def uuid_simple_def)

lemma split_once_append: "d \<notin> set a \<Longrightarrow> split_once d (a @ d # b) = Some (a, b)"
proof -
  assume "d \<notin> set a"
  then have "takeWhile ((\<noteq>) d) (a @ d # b) = a \<and> dropWhile ((\<noteq>) d) (a @ d # b) = d # b"
    by (induction a) auto
  then show ?thesis by (simp add: split_once_def)
qed

lemma strip_prefix_append: "strip_prefix p (p @ s) = Some s"
  by (simp add: strip_prefix_def starts_with_def)

lemma key_parts_of_issued_key:
  assumes "20 \<le> length random"
  shows "key_parts k (write_secret key_id environment_id random) =
    Inr (uuid_simple key_id, tc_sha256 k (write_secret key_id environment_id random),
      tc_sha256 k (''epode-consent-scope:'' @ uuid_simple environment_id))"
proof -
  let ?secret = "uuid_simple environment_id @ CHR ''_'' # random"
  have s: "strip_prefix ''af_live_'' (write_secret key_id environment_id random) = Some (uuid_simple key_id @ CHR ''_'' # ?secret)"
    using strip_prefix_append [of "''af_live_''"] by (simp add: write_secret_def)
  have l: "\<not> length ?secret < 20" by simp
  show ?thesis
    unfolding key_parts_def s option.case split_once_append [OF uuid_simple_facts(3)] prod.case
    using assms l uuid_simple_facts by (simp add: split_once_append Let_def)
qed

text \<open>
  C14. Every write key that the backend issues for an environment, the default key, later ones and those of
  a rotation, gives a customer the same opaque subject, so a recorded consent outlives the keys.
\<close>

theorem keys_of_an_environment_share_subjects:
  assumes "20 \<le> length random" and "20 \<le> length random'"
  shows "consent_subject k (write_secret key_id environment_id random) customer_ref
    = consent_subject k (new_secret Write_Key key_id' environment_id random') customer_ref"
proof -
  have "new_secret Write_Key key_id' environment_id random' = write_secret key_id' environment_id random'"
    by (simp add: new_secret_def write_secret_def)
  then show ?thesis using key_parts_of_issued_key assms by (simp add: consent_subject_def)
qed

section \<open>Signing and verifying\<close>

lemma prepared_interaction_claims:
  assumes "prepare_for_revision k j api_key configured interaction nonce_bytes clock customer_ref state revision = Inr p"
  shows "\<exists>subject. prepared_subject k api_key (prepared_mode configured) customer_ref = Inr subject
    \<and> clock = Some (pr_issued p)
    \<and> pr_claims p = prepared_claims interaction (pr_issued p) (tc_encode k nonce_bytes) subject revision
    \<and> sign_capability k j api_key (pr_claims p) = Inr (pr_token p)
    \<and> pr_envelope p = envelope_of (prepared_mode configured)
        (if prepared_mode configured = AskOnce \<and> subject = None then AskAlways else prepared_mode configured)
        state (pr_token p) (pr_issued p + 7200)"
  using assms by (auto simp: prepare_for_revision_def Let_def split: option.splits sum.splits)

lemma prepared_subject_valid:
  assumes "sdk_codec_ok k j" and "prepared_subject k api_key mode customer_ref = Inr (Some s)"
  shows "valid_consent_subject s"
proof -
  obtain key m mac where s: "s = ''afsub1_'' @ tc_encode k mac" and m: "tc_mac k key m = Some mac"
    using assms(2) by (auto simp: prepared_subject_def consent_subject_def split: if_splits option.splits sum.splits)
  have "\<exists>mac. tc_mac k key m = Some mac \<and> length mac = 32" using assms(1) by (simp add: sdk_codec_ok_def)
  with m have "length mac = 32" by auto
  then have l: "length (tc_encode k mac) = 43" using assms(1) by (simp add: sdk_codec_ok_def)
  have a: "list_all (\<lambda>c. is_alnum c \<or> c = CHR ''-'' \<or> c = CHR ''_'') (tc_encode k mac)"
    using assms(1) by (simp add: sdk_codec_ok_def)
  have "strip_prefix ''afsub1_'' s = Some (tc_encode k mac)" unfolding s by (rule strip_prefix_append)
  with l a show ?thesis by (simp add: valid_consent_subject_def)
qed

text \<open>
  C12. A capability that the SDK signs with a live write key of the backend is accepted by the backend for the
  next two hours, with the very claims of the SDK: its interaction, its subject and the revision of the
  consent it was prepared for.  The clocks may differ by five minutes.
\<close>

theorem a_prepared_capability_is_accepted:
  assumes "sdk_codec_ok k claims_json" and "20 \<le> length random" and "key_id < 2 ^ 128" and "length nonce_bytes = 18"
    and "prepare_for_revision k claims_json (write_secret key_id environment_id random) configured interaction nonce_bytes
           clock customer_ref state revision = Inr p"
    and "capability_key now key_id (cb_catalog db) = Some (key, environment)"
    and "ak_hash key = tc_sha256 k (write_secret key_id environment_id random)"
    and "tc_timestamp_ok k (int (pr_issued p))" and "tc_timestamp_ok k (int (pr_issued p + 7200))"
    and "seconds (int (pr_issued p)) \<le> now + minutes 5" and "now < seconds (int (pr_issued p + 7200))"
  shows "verified_capability k now (pr_token p) db = Inr (key, environment, pr_claims p)
    \<and> cl_i (pr_claims p) = interaction \<and> (cl_s (pr_claims p) \<noteq> None \<longrightarrow> cl_r (pr_claims p) = Some (int revision))"
proof -
  obtain subject where sub: "prepared_subject k (write_secret key_id environment_id random) (prepared_mode configured) customer_ref = Inr subject"
    and c: "pr_claims p = prepared_claims interaction (pr_issued p) (tc_encode k nonce_bytes) subject revision"
    and sign: "sign_capability k claims_json (write_secret key_id environment_id random) (pr_claims p) = Inr (pr_token p)"
    using prepared_interaction_claims [OF assms(5)] by blast
  obtain bytes mac where b: "claims_json (pr_claims p) = Some bytes"
    and m: "tc_mac k (ak_hash key) (''afr2_'' @ uuid_simple key_id @ ''.'' @ tc_encode k bytes) = Some mac"
    and t: "pr_token p = ''afr2_'' @ uuid_simple key_id @ ''.'' @ tc_encode k bytes @ ''.'' @ tc_encode k mac"
    using sign unfolding sign_capability_def key_parts_of_issued_key [OF assms(2)] assms(7)
    by (auto simp: uuid_simple_facts(2) Let_def split: option.splits)
  have dot: "CHR ''.'' \<notin> set (uuid_simple key_id) \<union> set (tc_encode k bytes) \<union> set (tc_encode k mac)"
    using encoded_has_no_dot [OF assms(1)] uuid_simple_facts(4) by blast
  have parts: "token_parts ''afr2_'' (pr_token p) = Inr (uuid_simple key_id, tc_encode k bytes, tc_encode k mac)"
    using dot by (simp add: token_parts_Inr t)
  have codec: "tc_parse_uuid k (uuid_simple key_id) = Some key_id" "tc_decode k (tc_encode k x) = Some x"
    "tc_claims_of k bytes = Some (pr_claims p)" for x
    using assms(1,3) b by (simp_all add: sdk_codec_ok_def)
  have parse: "parse_capability k (pr_token p) = Inr \<lparr>pc_key_id = key_id, pc_claims = pr_claims p,
      pc_signing_input = ''afr2_'' @ uuid_simple key_id @ ''.'' @ tc_encode k bytes, pc_signature = mac\<rparr>"
    by (simp add: parse_capability_def parts codec)
  have n: "length (tc_encode k nonce_bytes) = 24" using assms(1,4) by (simp add: sdk_codec_ok_def)
  have s: "\<forall>s. subject = Some s \<longrightarrow> valid_consent_subject s" using prepared_subject_valid [OF assms(1)] sub by blast
  have times: "\<not> bad_times now (seconds (int (pr_issued p))) (seconds (int (pr_issued p + 7200)))"
    using assms(10,11) by (auto simp: bad_times_def seconds_def minutes_def hours_def)
  have "verify_capability k \<lparr>pc_key_id = key_id, pc_claims = pr_claims p,
      pc_signing_input = ''afr2_'' @ uuid_simple key_id @ ''.'' @ tc_encode k bytes, pc_signature = mac\<rparr> (ak_hash key) now
      = Inr (pr_claims p)"
    using m n s times assms(8,9)
    by (cases subject) (simp_all add: verify_capability_def check_signature_def timestamp_of_def Let_def c prepared_claims_def)
  with parse assms(6) have "verified_capability k now (pr_token p) db = Inr (key, environment, pr_claims p)"
    by (simp add: verified_capability_def)
  then show ?thesis by (cases subject) (simp_all add: c prepared_claims_def)
qed

section \<open>Envelopes\<close>

text \<open>The name of a mode in the environment of the key (\<open>product_environments.feedback_mode\<close>).\<close>

definition mode_name :: "sdk_mode \<Rightarrow> string" where
  "mode_name mode = (case mode of NeverAsk \<Rightarrow> ''never_ask'' | AskOnce \<Rightarrow> ''ask_once'' | AskAlways \<Rightarrow> ''ask_always''
     | Off \<Rightarrow> ''off'' | InvalidMode \<Rightarrow> [])"

text \<open>
  C13. An envelope prepared from the current consent state of the backend says what the backend says of its
  capability: the same state and the same policy, where the SDK calls a declined state
  \<open>feedback_disabled\<close>; and it offers to submit a report exactly when the backend would take one.
\<close>

theorem envelopes_agree_with_the_backend:
  assumes "prepare_for_revision k claims_json api_key mode interaction nonce_bytes clock customer_ref (sn_state snapshot)
      (sn_revision snapshot) = Inr p"
    and "mode \<in> {NeverAsk, AskOnce, AskAlways}" and "cb_modes db environment_id = mode_name mode"
    and "decision_of environment_id interaction db = None"
    and "\<And>subject. prepared_subject k api_key mode customer_ref = Inr (Some subject) \<Longrightarrow>
      \<exists>auth. en_id (pa_environment auth) = environment_id
        \<and> feedback_consent_state auth subject db = Inr (sn_state snapshot, int (sn_revision snapshot))"
  shows "\<exists>e. pr_envelope p = Some e
    \<and> inspected_state (mode_name mode) environment_id (pr_claims p) db
        = Inr (if nv_state e = ''feedback_disabled'' then ''declined'' else nv_state e, nv_policy e)
    \<and> (nv_submit e = Some (''Bearer '' @ pr_token p) \<longleftrightarrow> consent_gate (mode_name mode) environment_id (pr_claims p) db = Inr ())
    \<and> (nv_submit e = None \<longleftrightarrow> consent_gate (mode_name mode) environment_id (pr_claims p) db \<noteq> Inr ())"
proof -
  have pm: "prepared_mode mode = mode" using assms(2) by (auto simp: prepared_mode_def)
  obtain subject where sub: "prepared_subject k api_key mode customer_ref = Inr subject"
    and c: "pr_claims p = prepared_claims interaction (pr_issued p) (tc_encode k nonce_bytes) subject (sn_revision snapshot)"
    and e: "pr_envelope p = envelope_of mode (if mode = AskOnce \<and> subject = None then AskAlways else mode)
        (sn_state snapshot) (pr_token p) (pr_issued p + 7200)"
    using prepared_interaction_claims [OF assms(1)] unfolding pm by blast
  have ci: "cl_i (pr_claims p) = interaction" "cl_s (pr_claims p) = subject" by (simp_all add: c prepared_claims_def)
  consider (never) "mode = NeverAsk" | (always) "mode = AskAlways" | (anonymous) "mode = AskOnce" "subject = None"
    | (once) s where "mode = AskOnce" "subject = Some s"
    using assms(2) by (cases subject) auto
  then show ?thesis
  proof cases
    case once
    obtain auth where a: "en_id (pa_environment auth) = environment_id"
      "feedback_consent_state auth s db = Inr (sn_state snapshot, int (sn_revision snapshot))"
      using assms(5) sub once by blast
    then consider (none) "subject_of environment_id s db = None" "sn_state snapshot = ''unknown''"
      | (some) r where "subject_of environment_id s db = Some r" "sn_state snapshot = show_decision (sj_decision r)"
      using assms(3) once by (auto simp: feedback_consent_state_def mode_name_def Let_def split: if_splits option.splits)
    then show ?thesis
    proof cases
      case none
      with once e show ?thesis
        by (simp add: envelope_of_def Let_def inspected_state_def consent_gate_def decided_state_def ci mode_name_def)
    next
      case some
      with once e show ?thesis
        by (cases "sj_decision r") (simp_all add: envelope_of_def Let_def inspected_state_def consent_gate_def decided_state_def
            ci mode_name_def show_decision_def)
    qed
  qed (use e assms(4) in \<open>simp_all add: envelope_of_def Let_def inspected_state_def consent_gate_def decided_state_def ci
      mode_name_def\<close>)
qed

section \<open>Witnesses\<close>

text \<open>A codec with base64 and hexadecimal UUIDs as they are, and stand-ins for hash, MAC and the JSON of one set of claims.\<close>

definition sdk_secret :: string where
  "sdk_secret = write_secret 2 31 (replicate 20 (CHR ''r''))"

definition stand_in_mac :: "string \<Rightarrow> string \<Rightarrow> string option" where
  "stand_in_mac key m = Some (take 32 (key @ m @ replicate 32 (CHR ''0'')))"

definition sdk_subject :: string where
  "sdk_subject = ''afsub1_'' @ encode64 (take 32 (''epode-consent-scope:'' @ uuid_simple 31))"

definition sdk_claims :: capability_claims where
  "sdk_claims = prepared_claims 6 100 (encode64 (replicate 18 (CHR ''n''))) (Some sdk_subject) 0"

definition sdk_json :: "capability_claims \<Rightarrow> string option" where
  "sdk_json c = (if c = sdk_claims then Some ''claims'' else None)"

definition sdk_codec :: token_codec where
  "sdk_codec = \<lparr>tc_encode = encode64, tc_decode = decode64, tc_mac = stand_in_mac, tc_sha256 = (\<lambda>s. s),
     tc_parse_uuid = parse_hex, tc_simple_uuid = uuid_simple,
     tc_claims_of = (\<lambda>b. if b = ''claims'' then Some sdk_claims else None), tc_enrichment_json = (\<lambda>_. None),
     tc_enrichment_of = (\<lambda>_. None), tc_timestamp_ok = (\<lambda>_. True)\<rparr>"

lemma sdk_codec_is_ok: "sdk_codec_ok sdk_codec sdk_json"
  by (simp add: sdk_codec_ok_def sdk_codec_def decode_encode64 length_encode64 encode64_alphabet parse_hex_uuid
      sdk_json_def stand_in_mac_def) (auto simp: min_def)

definition sdk_key :: api_key_row where
  "sdk_key = \<lparr>ak_id = 2, ak_workspace = 1, ak_environment = 31, ak_label = ''Default'', ak_prefix = ''af_live_'',
     ak_kind = Write_Key, ak_hash = sdk_secret, ak_created_at = 0, ak_last_used_at = None, ak_revoked_at = None,
     ak_expires_at = None\<rparr>"

definition sdk_environment :: environment_row where
  "sdk_environment = \<lparr>en_id = 31, en_workspace = 1, en_product = 5, en_name = ''Production'',
     en_slug = ''production'', en_created_at = 0\<rparr>"

definition sdk_db :: consent_db where
  "sdk_db = \<lparr>cb_catalog = \<lparr>ca_workspaces = [1], ca_products = [], ca_environments = [sdk_environment],
       ca_milestones = [], ca_keys = [sdk_key]\<rparr>,
     cb_modes = (\<lambda>_. ''ask_once''), cb_subjects = [], cb_decisions = [], cb_grants = [], cb_events = [],
     cb_interactions = []\<rparr>"

lemma sdk_prepared:
  "\<exists>p. prepare_for_revision sdk_codec sdk_json sdk_secret AskOnce 6 (replicate 18 (CHR ''n'')) (Some 100) (Some ''acme'')
       ''unknown'' 0 = Inr p \<and> pr_claims p = sdk_claims \<and> pr_issued p = 100"
proof -
  have "(case prepare_for_revision sdk_codec sdk_json sdk_secret AskOnce 6 (replicate 18 (CHR ''n'')) (Some 100) (Some ''acme'')
       ''unknown'' 0 of Inl e \<Rightarrow> False | Inr p \<Rightarrow> pr_claims p = sdk_claims \<and> pr_issued p = 100)" by code_simp
  then show ?thesis by (auto split: sum.splits)
qed

theorem keys_of_an_environment_share_subjects_witness:
  "consent_subject sdk_codec (write_secret 2 31 (replicate 20 (CHR ''r''))) ''acme''
     = consent_subject sdk_codec (new_secret Write_Key 3 31 (replicate 43 (CHR ''s''))) ''acme''"
  by (rule keys_of_an_environment_share_subjects) simp_all

theorem a_prepared_capability_is_accepted_witness:
  "\<exists>p. prepare_for_revision sdk_codec sdk_json sdk_secret AskOnce 6 (replicate 18 (CHR ''n'')) (Some 100) (Some ''acme'')
       ''unknown'' 0 = Inr p
     \<and> verified_capability sdk_codec (seconds 200) (pr_token p) sdk_db = Inr (sdk_key, sdk_environment, sdk_claims)"
proof -
  from sdk_prepared obtain p where p: "prepare_for_revision sdk_codec sdk_json sdk_secret AskOnce 6
      (replicate 18 (CHR ''n'')) (Some 100) (Some ''acme'') ''unknown'' 0 = Inr p"
    and c: "pr_claims p = sdk_claims" "pr_issued p = 100" by blast
  have key: "capability_key (seconds 200) 2 (cb_catalog sdk_db) = Some (sdk_key, sdk_environment)"
    by (simp add: capability_key_def sdk_db_def sdk_key_def sdk_environment_def live_key_def)
  have "verified_capability sdk_codec (seconds 200) (pr_token p) sdk_db = Inr (sdk_key, sdk_environment, pr_claims p)"
    using a_prepared_capability_is_accepted [OF sdk_codec_is_ok _ _ _ p [unfolded sdk_secret_def] key] c(2)
    by (simp add: sdk_key_def sdk_secret_def sdk_codec_def seconds_def minutes_def)
  with p c(1) show ?thesis by auto
qed

theorem envelopes_agree_with_the_backend_witness:
  "\<exists>p e. prepare_for_revision sdk_codec sdk_json sdk_secret AskOnce 6 (replicate 18 (CHR ''n'')) (Some 100) (Some ''acme'')
       ''unknown'' 0 = Inr p \<and> pr_envelope p = Some e \<and> inspected_state ''ask_once'' 31 sdk_claims sdk_db = Inr (nv_state e, nv_policy e)
     \<and> nv_submit e = None"
proof -
  from sdk_prepared obtain p where p: "prepare_for_revision sdk_codec sdk_json sdk_secret AskOnce 6
      (replicate 18 (CHR ''n'')) (Some 100) (Some ''acme'') ''unknown'' 0 = Inr p"
    and c: "pr_claims p = sdk_claims" by blast
  let ?sn = "\<lparr>sn_state = ''unknown'', sn_revision = 0\<rparr>"
  have p': "prepare_for_revision sdk_codec sdk_json sdk_secret AskOnce 6 (replicate 18 (CHR ''n'')) (Some 100) (Some ''acme'')
      (sn_state ?sn) (sn_revision ?sn) = Inr p" using p by simp
  have m: "cb_modes sdk_db 31 = mode_name AskOnce" "decision_of 31 6 sdk_db = None"
    by (simp_all add: sdk_db_def mode_name_def decision_of_def)
  have st: "\<exists>auth. en_id (pa_environment auth) = 31
      \<and> feedback_consent_state auth subject sdk_db = Inr (sn_state ?sn, int (sn_revision ?sn))"
    if "prepared_subject sdk_codec sdk_secret AskOnce (Some ''acme'') = Inr (Some subject)" for subject
    using prepared_subject_valid [OF sdk_codec_is_ok that]
    by (intro exI [of _ "\<lparr>pa_workspace = 1, pa_environment = sdk_environment, pa_key = 2\<rparr>"])
      (simp add: feedback_consent_state_def sdk_environment_def sdk_db_def subject_of_def Let_def)
  from envelopes_agree_with_the_backend [OF p' _ m st] obtain e where e: "pr_envelope p = Some e"
    "inspected_state (mode_name AskOnce) 31 (pr_claims p) sdk_db
       = Inr (if nv_state e = ''feedback_disabled'' then ''declined'' else nv_state e, nv_policy e)"
    "nv_submit e = None \<longleftrightarrow> consent_gate (mode_name AskOnce) 31 (pr_claims p) sdk_db \<noteq> Inr ()" by auto
  have "inspected_state (mode_name AskOnce) 31 sdk_claims sdk_db = Inr (''consent_required'', ''once'')"
    "consent_gate (mode_name AskOnce) 31 sdk_claims sdk_db \<noteq> Inr ()"
    by (simp_all add: inspected_state_def consent_gate_def mode_name_def sdk_claims_def prepared_claims_def subject_of_def
        sdk_db_def decided_state_def Let_def)
  with e c have "inspected_state ''ask_once'' 31 sdk_claims sdk_db = Inr (nv_state e, nv_policy e)" "nv_submit e = None"
    by (auto simp: mode_name_def split: if_splits)
  with p e(1) show ?thesis by blast
qed

end
