(* ===== verification/Spec2Isabelle.thy ===== *)
theory Spec2Isabelle
  imports CodeMatchLiveness Security FriendlyNames Regroup FilingProtocol TeamGuarantees ApiKeyFacts IssueTitle
    FeedbackRows DestinationSafety SdkService SdkCapabilityFacts
begin

text \<open>
  A model of the Epode backend, a Rust service that collects feedback reports from software agents,
  and of the telemetry and the capabilities of its Rust SDK, with proofs of what their operations promise.

  \<^bold>\<open>The program.\<close>  A customer's product sends feedback reports with a capability
  signed with its API key (\<open>backend/src/store.rs\<close>, \<open>security.rs\<close>), after the user consented.  A report is put into a group of reports of the same trouble
  (\<open>grouping.rs\<close>, \<open>store.rs\<close>), and a job is queued that looks for the code the report speaks of in the
  product's GitHub repository (\<open>code_match.rs\<close>, \<open>github.rs\<close>, the worker of \<open>main.rs\<close>).  A member of the
  team files a group as a GitHub issue, whose text \<open>issue_template.rs\<close> renders and censors; a listing
  of the groups comments new evidence on the issue and refreshes its state (\<open>main.rs\<close>).  Groups can be
  merged, and all reports regrouped when the fingerprint changes.  Interactions and reports of a team are
  exported to its own data systems (\<open>destinations.rs\<close>).  The product itself records its responses with
  the SDK, which posts them in batches, and which signs the capabilities (\<open>sdk/rust/src/lib.rs\<close>).  Teams, invitations and roles decide who may do what.

  \<^bold>\<open>Theories and sources.\<close>  Theories come in the order of the code's layers; a theory whose name ends in
  \<open>Facts\<close>, and the others named in the second list, hold proofs about the definitions before them.

  \<^item> \<open>Prelude\<close>, \<open>Sql\<close>, \<open>Json\<close>, \<open>Bytes\<close>: Rust strings as UTF-8 bytes with the operations of the standard
    library, saturating integers, rows and their updates, three-valued \<open>CHECK\<close> conditions,
    \<open>serde_json::Value\<close>.  \<open>ApiError\<close>: \<open>error.rs\<close>.  \<open>StoreText\<close>: names, slugs and UUID texts of \<open>store.rs\<close>.
  \<^item> \<open>CodeMatchQuery\<close>: \<open>code_match.rs\<close>.  \<open>GithubApi\<close>: failures, rate limits, code search and encodings of
    \<open>github.rs\<close>.  \<open>GithubMapping\<close>: the tables \<open>github_installations\<close> and \<open>product_github_repos\<close>.
  \<^item> \<open>CodeMatchQueue\<close>: the table \<open>report_code_match_queue\<close> with every statement of \<open>store.rs\<close> on it.
    \<open>PendingPayload\<close>: the JSON of an interrupted job.  \<open>WorkerEffects\<close> and \<open>CodeMatchWorker\<close>: the worker
    of \<open>main.rs\<close>, as functions on a world of database, GitHub's answers, budgets and a log of calls.
  \<^item> \<open>Security\<close>: \<open>security.rs\<close>.  \<open>FriendlyNames\<close>: \<open>friendly_names.rs\<close>.
  \<^item> \<open>Grouping\<close>: \<open>grouping.rs\<close>.  \<open>KeysetWalk\<close>: the keyset loops of the batch runs.  \<open>ReportGroups\<close>:
    assignment, backfill, regrouping.  \<open>GroupIssues\<close>: the tables \<open>report_groups\<close> and
    \<open>group_github_issues\<close>.  \<open>GroupIssueFiling\<close>: the handlers of \<open>main.rs\<close> that file, reconcile and
    synchronize issues.  \<open>SensitiveText\<close> and \<open>IssueTemplate\<close>: \<open>issue_template.rs\<close>.
  \<^item> \<open>Teams\<close>: workspaces, members, invitations.  \<open>ApiKeys\<close>: products, milestones, API keys.
  \<^item> \<open>Consent\<close>: standing decisions, decisions per interaction, grants and audit events.
    \<open>FeedbackReports\<close>: validation and the transaction of a submission, with the signals of customer
    intelligence.
  \<^item> \<open>Destinations\<close>: \<open>destinations.rs\<close>, configuration, sealing, tables, claims and pages.
    \<open>DestinationExport\<close>: its transports, the export loop, the drain and the connection test.
  \<^item> \<open>SdkTelemetry\<close>: the telemetry queue of \<open>sdk/rust/src/lib.rs\<close>, handle and worker, as moves of a step
    relation.  \<open>SdkEvents\<close>: the events of responses (\<open>lib.rs\<close>) and of MCP tools (\<open>interaction.rs\<close>).
    \<open>TelemetryInput\<close>: the checks of an event and the receipt of a batch in \<open>store.rs\<close>; the statements that
    store a checked event are an argument.  \<open>SdkService\<close>: the wire and the handler between both.
  \<^item> \<open>SdkCapability\<close>: keys, consent subjects, capabilities and envelopes of \<open>sdk/rust/src/lib.rs\<close>.
    \<open>Base64Url\<close>: the encoding of its texts, an instance of what is an argument elsewhere.

  A table is a list of records, a statement a function on the lists, and a transaction a function that
  returns the old database with an error.  A definition carries the name of the Rust item it stands
  for; where a function is split, the parts stand for its statements or branches.

  \<^bold>\<open>What is proved.\<close>
  \<^item> Claims.  \<open>Lease\<close> states as locales what a table of fenced claims promises, and \<open>CodeMatchQueue\<close> and
    \<open>GroupIssueFacts\<close> interpret them: a claim is settled at most once in any interleaving.
    \<open>CodeMatchLiveness\<close>: a round of the worker leaves none of its claims behind, whatever fails.
    \<open>CodeMatchWorkerCalls\<close>: budgets and the order of calls.  \<open>CodeMatchResolution\<close>: the loop over the
    candidates returns, loses none, and what it stores satisfies the table's constraints.
  \<^item> Groups.  \<open>KeysetWalk\<close> proves once, in a locale, that a keyset run ends and visits every row once;
    \<open>ReportGroupFacts\<close> and \<open>Regroup\<close> rest on it.  \<open>GroupLineage\<close>: merges keep the lineage one hop and
    move reports and the issue.  \<open>FilingProtocol\<close> is a step relation of many filers, crashes and
    reconcilers, in which GitHub may carry out a creation long after its handler has timed out: a group
    gets at most one issue as long as none comes after its own reconciliation has listed the repository,
    and two when one does.  \<open>GroupIssueDecision\<close>: how a listing decides.
  \<^item> Issues.  \<open>SensitiveTextFacts\<close>: the policy ends and its entropy test is exact in integers.
    \<open>IssuePublication\<close>: redacted texts have no influence on title and body.  \<open>IssueLayout\<close>: fences are
    closed and the body fits.  \<open>IssueTitle\<close>: the title notifies nobody.
  \<^item> Teams.  \<open>TeamProtocol\<close> is an abstract protocol of founders, roles and offers; \<open>TeamRequests\<close> and
    \<open>TeamGuarantees\<close> show that every request simulates its moves, and what follows for owners, also
    when other requests come between the check and the write of a role change or removal.
    \<open>ApiKeyFacts\<close>: what a key gives access to and for how long.
  \<^item> Consent.  \<open>ConsentFacts\<close> keeps an invariant over the four tables in every reachable state, from which
    \<open>ConsentGuarantees\<close> derives that the audit trail is the history of the decision, and shows when a
    capability decides.
  \<^item> Reports.  A submission is a gate, which reads the tables before the transaction begins, and the
    transaction, on whatever the tables have become.  \<open>FeedbackValidation\<close>: validation is the identity on
    its normal forms.  \<open>FeedbackFacts\<close>, \<open>FeedbackGuarantees\<close>, \<open>FeedbackRows\<close>: a report rests on what the
    mode of its environment asks for, an interaction keeps its first
    report, stored rows are well-typed, and where the answers to a capability differ from its gate.
  \<^item> Destinations.  \<open>DestinationFacts\<close> states what the export loop needs of a transport as a locale,
    interprets it on both transports, and proves once that no row behind a cursor is missing in the
    customer's system.  \<open>DestinationRuns\<close>: what a run that ends below its cap leaves behind.
    \<open>DestinationGuarantees\<close>: such a run leaves a mirror after any history of failures in which rows
    commit in the order of their keys, and what commits behind the cursor is lost.  \<open>DestinationClaims\<close> interprets the lease of claims with an invariant that
    ties claims to running runs; \<open>DestinationSafety\<close> draws the consequences, and shows how configured
    collectors are reached and that credentials open again.
  \<^item> The SDK.  \<open>SdkTelemetryFacts\<close> keeps the books of the queue over every move; \<open>SdkTelemetryGuarantees\<close>
    lifts them to runs, says what a worker loses that returns early, shows that a service that accepts
    gets what has room in the last flush, and what happens when it does not accept.
    \<open>SdkService\<close>: which events of the SDK the checks of the backend refuse, and that one of them keeps
    its batch from ever being acknowledged.
    \<open>SdkCapabilityFacts\<close>: the backend accepts what the SDK signs, and agrees with its envelopes.

  \<^bold>\<open>Bounds and fuel.\<close>  A keyset run is \<open>walk\<close>, a \<open>partial_function\<close> whose value is \<open>None\<close> when it does
  not end; that it ends is proved.  The reconciliation listing reads at most 10 pages of 100 issues.  A
  filing claim is stale after 5 minutes, and the listing starts 5 minutes before the claim.
  The export loop ends because every page but the last of a stream adds to the rows exported, which are at most 10000 in a run; a run is dropped after 8 minutes, and its claim is stale after 10.  The
  publication policy recurses through JSON strings and decoders; its fuel is the length of the text
  plus one, enough because each of them shrinks the text (\<open>enough_redaction_fuel\<close>).

  \<^bold>\<open>Assumptions.\<close>  Library code is an argument: SHA-256, HMAC, base64, the JSON and URL parsers, Unicode
  case tables, random tokens, ciphers, the formatting of instants, and all answers of GitHub and of data destinations.  One operation
  reads the clock once: \<open>NOW()\<close> and \<open>Utc::now()\<close> agree within it.  The entropy is over the reals where
  the code computes in \<open>f64\<close>.

  \<^bold>\<open>Not modelled.\<close>  HTTP routing and extraction, OAuth and account calls, logging and telemetry export,
  connection failures other than a failing statement, foreign keys to tables outside the modelled ones,
  other requests between two batches of a backfill run, the backfill of grants and audit events from the
  time before them (\<open>backfill_customer_intelligence\<close>), and a shutdown of the SDK whose caller gives it up.  In the SDKs: the
  rewriting of responses, the clients that submit reports and relay enrichment, and all SDKs but the
  Rust one.  In the backend: customer profiles and enrichment, the storing of a checked telemetry event, the
  workflow of reports after their submission, and the listings of the dashboard.
\<close>

end
